(* ===== verification/Prelude.thy ===== *)
theory Prelude
  imports Main "HOL-Library.Word" "HOL-Library.AList"
begin

text \<open>
  The vocabulary every component of the development shares: the widths of the machine
  integers, the outcome of a Rust function (\<open>Ok\<close>, \<open>Err\<close> or a panic), the big-endian
  byte order of the \<open>bytes\<close> buffers, and the generic lemmas on words and lists that the
  component proofs use. Arithmetic on the integer types wraps, as the release profile of
  \<^verbatim>\<open>src/Cargo.toml\<close> (\<^verbatim>\<open>overflow-checks = false\<close>) compiles it; a length
  (\<open>usize\<close>) is a natural number.
\<close>

unbundle bit_operations_syntax

section \<open>Machine integers and outcomes\<close>

type_synonym u8 = "8 word"
type_synonym u16 = "16 word"
type_synonym u32 = "32 word"
type_synonym u64 = "64 word"
type_synonym u128 = "128 word"
type_synonym usize = nat
type_synonym bytes = "8 word list"

datatype ('a, 'e) result = Ok 'a | Err 'e | Panic

fun and_then :: "('a, 'e) result \<Rightarrow> ('a \<Rightarrow> ('b, 'e) result) \<Rightarrow> ('b, 'e) result" where
  "and_then (Ok a) f = f a"
| "and_then (Err e) f = Err e"
| "and_then Panic f = Panic"

fun is_ok :: "('a, 'e) result \<Rightarrow> bool" where
  "is_ok (Ok a) = True"
| "is_ok (Err e) = False"
| "is_ok Panic = False"

fun unwrap_or :: "('a, 'e) result \<Rightarrow> 'a \<Rightarrow> ('a, 'e) result" where
  "unwrap_or (Ok a) d = Ok a"
| "unwrap_or (Err e) d = Ok d"
| "unwrap_or Panic d = Panic"

definition saturating_sub :: "'w::len word \<Rightarrow> 'w word \<Rightarrow> 'w word" where
  "saturating_sub a b = (if b \<le> a then a - b else 0)"

named_theorems codec_simps \<open>reading back what the buffer writers wrote\<close>
named_theorems step_simps \<open>unfolding one operation of a component\<close>

lemma and_then_Ok_iff:
  "and_then r f = Ok b \<longleftrightarrow> (\<exists>a. r = Ok a \<and> f a = Ok b)"
  by (cases r) auto

lemma and_then_not_Panic:
  "r \<noteq> Panic \<Longrightarrow> (\<And>a. r = Ok a \<Longrightarrow> f a \<noteq> Panic) \<Longrightarrow> and_then r f \<noteq> Panic"
  by (cases r) auto

lemma saturating_sub_le: "saturating_sub a b \<le> a"
  by (auto simp: saturating_sub_def word_sub_le)

lemma unat_saturating_sub: "unat (saturating_sub a b) = unat a - unat b"
  by (auto simp: saturating_sub_def unat_sub word_le_nat_alt)

lemma word_less_plus_one: "(x :: 'w::len word) \<noteq> - 1 \<Longrightarrow> x < x + 1"
  using inc_less_eq_self_iff_eq[of x] by (simp add: not_le[symmetric])

lemma unat_plus_one: "Suc (unat x) < 2 ^ LENGTH('w) \<Longrightarrow> unat (x + 1 :: 'w::len word) = Suc (unat x)"
  by (simp add: unat_word_ariths)

lemma unat_add_of_nat: "unat (w :: u64) + n < 2 ^ 64 \<Longrightarrow> unat (w + of_nat n) = unat w + n"
  by (simp add: unat_word_ariths unat_of_nat take_bit_nat_eq_self)

text \<open>The decimal digits of a number, as \<open>format!\<close> writes them.\<close>

fun decimal :: "nat \<Rightarrow> string" where
  "decimal n = (if n < 10 then [char_of (48 + n)] else decimal (n div 10) @ [char_of (48 + n mod 10)])"

declare decimal.simps [simp del]

text \<open>
  Floating-point numbers are values of a type \<open>'f\<close>; their operations are an argument of what uses them,
  so that nothing depends on the rounding. \<open>fl_tenths n\<close> is the literal \<open>n / 10\<close>.
\<close>

record 'f float_ops =
  fl_tenths :: "nat \<Rightarrow> 'f"
  fl_of_usize :: "usize \<Rightarrow> 'f"
  fl_add :: "'f \<Rightarrow> 'f \<Rightarrow> 'f"
  fl_sub :: "'f \<Rightarrow> 'f \<Rightarrow> 'f"
  fl_mul :: "'f \<Rightarrow> 'f \<Rightarrow> 'f"
  fl_div :: "'f \<Rightarrow> 'f \<Rightarrow> 'f"
  fl_min :: "'f \<Rightarrow> 'f \<Rightarrow> 'f"
  fl_less :: "'f \<Rightarrow> 'f \<Rightarrow> bool"
  fl_le :: "'f \<Rightarrow> 'f \<Rightarrow> bool"
  fl_as_u64 :: "'f \<Rightarrow> u64"

definition fl_clamp :: "'f float_ops \<Rightarrow> 'f \<Rightarrow> 'f \<Rightarrow> 'f \<Rightarrow> 'f" where
  "fl_clamp fl lo hi x = (if fl_less fl x lo then lo else if fl_less fl hi x then hi else x)"

text \<open>Fixed-point numbers with one decimal stand for the floating-point ones in the examples.\<close>

definition sample_floats :: "int float_ops" where
  "sample_floats = \<lparr>fl_tenths = int, fl_of_usize = (\<lambda>n. 10 * int n), fl_add = (+), fl_sub = (-),
     fl_mul = (\<lambda>a b. a * b div 10), fl_div = (\<lambda>a b. a * 10 div b), fl_min = min, fl_less = (<), fl_le = (\<le>),
     fl_as_u64 = (\<lambda>a. of_int (a div 10))\<rparr>"

section \<open>First match in a range\<close>

lemma find_upt_None: "find P [a..<b] = None \<longleftrightarrow> (\<forall>i. a \<le> i \<and> i < b \<longrightarrow> \<not> P i)"
  by (auto simp: find_None_iff)

lemma find_upt_Some: "find P [a..<b] = Some i \<Longrightarrow> i = (LEAST i. a \<le> i \<and> i < b \<and> P i)"
proof -
  assume "find P [a..<b] = Some i"
  then obtain k where k: "k < length [a..<b]" "P ([a..<b] ! k)" "i = [a..<b] ! k"
    and first: "\<And>j. j < k \<Longrightarrow> \<not> P ([a..<b] ! j)"
    by (auto simp: find_Some_iff)
  show "i = (LEAST i. a \<le> i \<and> i < b \<and> P i)"
  proof (rule sym, rule Least_equality)
    show "a \<le> i \<and> i < b \<and> P i" using k by auto
    fix y assume y: "a \<le> y \<and> y < b \<and> P y"
    then have "\<not> y - a < k" using first[of "y - a"] by auto
    moreover have "i = a + k" using k by simp
    ultimately show "i \<le> y" using y by linarith
  qed
qed

section \<open>Means\<close>

lemma sum_list_between:
  fixes xs :: "nat list"
  assumes "xs \<noteq> []"
  shows "length xs * Min (set xs) \<le> sum_list xs" and "sum_list xs \<le> length xs * Max (set xs)"
proof -
  have "sum_list (map (\<lambda>x. Min (set xs)) xs) \<le> sum_list (map (\<lambda>x. x) xs)"
    by (rule sum_list_mono) simp
  then show "length xs * Min (set xs) \<le> sum_list xs" by (simp add: sum_list_triv)
  have "sum_list (map (\<lambda>x. x) xs) \<le> sum_list (map (\<lambda>x. Max (set xs)) xs)"
    by (rule sum_list_mono) simp
  then show "sum_list xs \<le> length xs * Max (set xs)" by (simp add: sum_list_triv)
qed

lemma mean_between:
  fixes xs :: "nat list"
  assumes "xs \<noteq> []"
  shows "Min (set xs) \<le> sum_list xs div length xs" and "sum_list xs div length xs \<le> Max (set xs)"
  using div_le_mono [OF sum_list_between(1) [OF assms], of "length xs"]
    div_le_mono [OF sum_list_between(2) [OF assms], of "length xs"] assms
  by simp_all

section \<open>Bounded histories\<close>

text \<open>
  A history that drops its oldest entry when it grows beyond \<open>k\<close> is the window of the last \<open>k\<close> entries.
\<close>

definition push_bounded :: "nat \<Rightarrow> 'a \<Rightarrow> 'a list \<Rightarrow> 'a list" where
  "push_bounded k x h = (let h' = h @ [x] in if length h' > k then tl h' else h')"

lemma push_window:
  assumes "0 < k"
  shows "push_bounded k x (drop (length xs - k) xs) = drop (length (xs @ [x]) - k) (xs @ [x])"
proof (cases "length xs < k")
  case False
  then have "tl (drop (length xs - k) xs) = drop (Suc (length xs) - k) xs"
    by (simp add: Suc_diff_le drop_Suc tl_drop)
  with False assms show ?thesis by (simp add: push_bounded_def Let_def tl_append2)
qed (simp add: push_bounded_def Let_def)

section \<open>Hash maps\<close>

text \<open>
  A \<open>HashMap\<close> is an association list with distinct keys; the order of the list is the order a
  loop over the map happens to visit its entries in, which the library leaves open. What an
  operation means is stated on the partial function \<open>map_of\<close>, where the order is gone.
\<close>

type_synonym ('k, 'v) hash_map = "('k \<times> 'v) list"

abbreviation hm_get :: "('k, 'v) hash_map \<Rightarrow> 'k \<Rightarrow> 'v option" where
  "hm_get m k \<equiv> map_of m k"

definition hm_insert :: "'k \<Rightarrow> 'v \<Rightarrow> ('k, 'v) hash_map \<Rightarrow> ('k, 'v) hash_map" where
  "hm_insert k v m = AList.update k v m"

definition hm_remove :: "'k \<Rightarrow> ('k, 'v) hash_map \<Rightarrow> ('k, 'v) hash_map" where
  "hm_remove k m = AList.delete k m"

definition hm_keys :: "('k, 'v) hash_map \<Rightarrow> 'k list" where
  "hm_keys m = map fst m"

definition hm_ok :: "('k, 'v) hash_map \<Rightarrow> bool" where
  "hm_ok m = distinct (map fst m)"

definition hm_get_or :: "'v \<Rightarrow> ('k, 'v) hash_map \<Rightarrow> 'k \<Rightarrow> 'v" where
  "hm_get_or d m k = (case map_of m k of None \<Rightarrow> d | Some v \<Rightarrow> v)"

lemma hm_get_insert [simp]: "map_of (hm_insert k v m) = (map_of m)(k \<mapsto> v)"
  by (simp add: hm_insert_def update_conv')

lemma hm_get_remove [simp]: "map_of (hm_remove k m) = (map_of m)(k := None)"
  by (simp add: hm_remove_def delete_conv')

lemma hm_ok_Nil [simp]: "hm_ok []"
  by (simp add: hm_ok_def)

lemma hm_ok_insert [simp]: "hm_ok m \<Longrightarrow> hm_ok (hm_insert k v m)"
  by (simp add: hm_ok_def hm_insert_def distinct_update)

lemma hm_ok_remove [simp]: "hm_ok m \<Longrightarrow> hm_ok (hm_remove k m)"
  by (simp add: hm_ok_def hm_remove_def distinct_delete)

lemma set_hm_keys: "set (hm_keys m) = dom (map_of m)"
  by (simp add: hm_keys_def dom_map_of_conv_image_fst)

lemma hm_get_or_insert [simp]:
  "hm_get_or d (hm_insert k v m) j = (if j = k then v else hm_get_or d m j)"
  by (simp add: hm_get_or_def)

lemma hm_get_or_Some: "map_of m k = Some v \<Longrightarrow> hm_get_or d m k = v"
  by (simp add: hm_get_or_def)

lemma hm_get_or_None: "map_of m k = None \<Longrightarrow> hm_get_or d m k = d"
  by (simp add: hm_get_or_def)

lemma hm_entry: "hm_ok m \<Longrightarrow> (k, v) \<in> set m \<longleftrightarrow> map_of m k = Some v"
  by (simp add: hm_ok_def)

definition hm_retain :: "('k \<Rightarrow> 'v \<Rightarrow> bool) \<Rightarrow> ('k, 'v) hash_map \<Rightarrow> ('k, 'v) hash_map" where
  "hm_retain P m = filter (\<lambda>(k, v). P k v) m"

lemma hm_ok_retain [simp]: "hm_ok m \<Longrightarrow> hm_ok (hm_retain P m)"
  by (induction m) (auto simp: hm_ok_def hm_retain_def)

lemma hm_get_retain: "hm_ok m \<Longrightarrow> map_of (hm_retain P m) k = (case map_of m k of Some v \<Rightarrow> if P k v then Some v else None | None \<Rightarrow> None)"
  by (induction m) (auto simp: hm_ok_def hm_retain_def map_of_eq_None_iff image_iff split: option.splits)

lemma hm_length_insert: "map_of m k = None \<Longrightarrow> length (hm_insert k v m) = Suc (length m)"
  by (induction m) (auto simp: hm_insert_def split: if_splits)

lemma hm_length_remove: "hm_ok m \<Longrightarrow> map_of m k \<noteq> None \<Longrightarrow> length m = Suc (length (hm_remove k m))"
proof (induction m)
  case (Cons x m)
  show ?case
  proof (cases "fst x = k")
    case True
    then have "k \<notin> set (map fst m)" using Cons.prems(1) by (auto simp: hm_ok_def)
    then have "hm_remove k m = m" by (force simp: hm_remove_def AList.delete_eq filter_id_conv)
    with True show ?thesis by (cases x) (simp add: hm_remove_def)
  qed (use Cons in \<open>cases x; simp add: hm_remove_def hm_ok_def\<close>)
qed simp

text \<open>A \<open>HashMap\<close> of \<open>HashSet\<close>s: a set that is not there is empty.\<close>

definition set_insert :: "'k \<Rightarrow> 'v \<Rightarrow> ('k, 'v list) hash_map \<Rightarrow> ('k, 'v list) hash_map" where
  "set_insert k v m = hm_insert k (List.insert v (hm_get_or [] m k)) m"

definition set_remove :: "'k \<Rightarrow> 'v \<Rightarrow> ('k, 'v list) hash_map \<Rightarrow> ('k, 'v list) hash_map" where
  "set_remove k v m =
     (case hm_get m k of None \<Rightarrow> m | Some vs \<Rightarrow> hm_insert k (removeAll v vs) m)"

lemma set_remove_get: "set (hm_get_or [] (set_remove k v m) j) = set (hm_get_or [] m j) - (if j = k then {v} else {})"
  by (auto simp: set_remove_def hm_get_or_def split: option.splits if_splits)

lemma fold_set_remove_get:
  "set (hm_get_or [] (fold (\<lambda>k. set_remove k v) ks m) j) = set (hm_get_or [] m j) - (if j \<in> set ks then {v} else {})"
  by (induction ks arbitrary: m) (auto simp: set_remove_get)

lemma hm_get_or_remove: "hm_get_or d (hm_remove k m) j = (if j = k then d else hm_get_or d m j)"
  by (simp add: hm_get_or_def)

lemma set_insert_get: "set (hm_get_or [] (set_insert k v m) j) = set (hm_get_or [] m j) \<union> (if j = k then {v} else {})"
  by (auto simp: set_insert_def)

section \<open>Ordered maps\<close>

text \<open>
  A \<open>BTreeMap\<close> is the list of its entries in increasing key order, the order its iterators and
  ranges visit them in.
\<close>

type_synonym ('k, 'v) btree_map = "('k \<times> 'v) list"

fun bt_insert :: "'k::linorder \<Rightarrow> 'v \<Rightarrow> ('k, 'v) btree_map \<Rightarrow> ('k, 'v) btree_map" where
  "bt_insert k v [] = [(k, v)]"
| "bt_insert k v ((j, w) # m) =
     (if k < j then (k, v) # (j, w) # m
      else if k = j then (k, v) # m
      else (j, w) # bt_insert k v m)"

definition bt_range :: "'k::linorder \<Rightarrow> 'k \<Rightarrow> ('k, 'v) btree_map \<Rightarrow> ('k, 'v) btree_map" where
  "bt_range lo hi m = filter (\<lambda>e. lo \<le> fst e \<and> fst e \<le> hi) m"

definition bt_ok :: "('k::linorder, 'v) btree_map \<Rightarrow> bool" where
  "bt_ok m = sorted_wrt (<) (map fst m)"

lemma set_bt_insert: "fst ` set (bt_insert k v m) = insert k (fst ` set m)"
  by (induction k v m rule: bt_insert.induct) auto

lemma bt_ok_insert: "bt_ok m \<Longrightarrow> bt_ok (bt_insert k v m)"
proof (induction k v m rule: bt_insert.induct)
  case (2 k v j w m)
  have "x \<in> fst ` set (bt_insert k v m) \<Longrightarrow> x = k \<or> x \<in> fst ` set m" for x
    by (simp add: set_bt_insert)
  with 2 show ?case by (fastforce simp: bt_ok_def)
qed (simp add: bt_ok_def)

lemma bt_get_insert: "bt_ok m \<Longrightarrow> map_of (bt_insert k v m) = (map_of m)(k \<mapsto> v)"
  by (induction k v m rule: bt_insert.induct) (auto simp: bt_ok_def fun_eq_iff)

lemma bt_insert_end: "\<forall>x\<in>fst ` set m. x < k \<Longrightarrow> bt_insert k v m = m @ [(k, v)]"
  by (induction k v m rule: bt_insert.induct) auto

section \<open>Append-only stores\<close>

text \<open>
  What a log of messages promises its clients: an accepted write appends and returns the position
  it wrote, a refused write changes nothing, and a position reads back what is stored there.
\<close>

fun write_all :: "('m \<Rightarrow> 's \<Rightarrow> 's \<times> (u64, 'e) result) \<Rightarrow> 'm list \<Rightarrow> 's \<Rightarrow> 's \<times> u64 option list" where
  "write_all w [] s = (s, [])"
| "write_all w (m # ms) s =
     (case w m s of (s1, r) \<Rightarrow>
      case write_all w ms s1 of (s2, offs) \<Rightarrow>
        (s2, (case r of Ok off \<Rightarrow> Some off | _ \<Rightarrow> None) # offs))"

fun accepted :: "'m list \<Rightarrow> u64 option list \<Rightarrow> 'm list" where
  "accepted (m # ms) (Some off # offs) = m # accepted ms offs"
| "accepted (m # ms) (None # offs) = accepted ms offs"
| "accepted _ _ = []"

locale append_store =
  fixes contents :: "'s \<Rightarrow> 'm list"
    and ok :: "'s \<Rightarrow> bool"
    and put :: "'m \<Rightarrow> 's \<Rightarrow> 's \<times> (u64, 'e) result"
    and fetch :: "u64 \<Rightarrow> 's \<Rightarrow> ('m, 'e) result"
  assumes write_ok: "ok s \<Longrightarrow> put m s = (s', Ok off) \<Longrightarrow>
      ok s' \<and> contents s' = contents s @ [m] \<and> unat off = length (contents s)"
    and write_refused: "ok s \<Longrightarrow> put m s = (s', r) \<Longrightarrow> \<not> is_ok r \<Longrightarrow> s' = s"
    and read_at: "ok s \<Longrightarrow> unat i < length (contents s) \<Longrightarrow> fetch i s = Ok (contents s ! unat i)"
begin

lemma write_step:
  assumes "ok s" "put m s = (s', r)"
  shows "ok s' \<and> contents s' = contents s @ (if is_ok r then [m] else [])"
  using write_ok[OF assms(1), of m s'] write_refused[OF assms(1), of m s' r] assms by (cases r) auto

lemma write_all_contents:
  "ok s \<Longrightarrow> write_all put ms s = (s', offs) \<Longrightarrow>
     ok s' \<and> contents s' = contents s @ accepted ms offs \<and> length offs = length ms"
proof (induction ms arbitrary: s s' offs)
  case (Cons m ms)
  obtain s1 r where w: "put m s = (s1, r)" by fastforce
  obtain s2 os where rest: "write_all put ms s1 = (s2, os)" by fastforce
  note step = write_step[OF Cons.prems(1) w]
  with Cons.IH[OF _ rest] Cons.prems(2) w rest show ?case by (cases r) auto
qed auto

lemma write_all_reads:
  "ok s \<Longrightarrow> write_all put ms s = (s', offs) \<Longrightarrow> i < length ms \<Longrightarrow> offs ! i = Some off \<Longrightarrow>
     fetch off s' = Ok (ms ! i)"
proof (induction ms arbitrary: s offs i)
  case (Cons m ms)
  obtain s1 r where w: "put m s = (s1, r)" by fastforce
  obtain os where rest: "write_all put ms s1 = (s', os)"
    using Cons.prems(2) w by (auto split: prod.splits)
  have offs: "offs = (case r of Ok off \<Rightarrow> Some off | _ \<Rightarrow> None) # os"
    using Cons.prems(2) w rest by auto
  have ok1: "ok s1" using write_step[OF Cons.prems(1) w] by simp
  show ?case
  proof (cases i)
    case 0
    then have r: "r = Ok off" using Cons.prems(4) offs by (cases r) auto
    note first = write_ok[OF Cons.prems(1) w[unfolded r]]
    note final = write_all_contents[OF ok1 rest]
    then have "contents s' ! unat off = m" "unat off < length (contents s')"
      using first by (simp_all add: nth_append)
    with read_at final 0 show ?thesis by simp
  next
    case (Suc j)
    with Cons.IH[OF ok1 rest, of j] Cons.prems(3,4) offs show ?thesis by simp
  qed
qed simp

end

section \<open>Big-endian byte order\<close>

definition be_bytes :: "nat \<Rightarrow> 'w::len word \<Rightarrow> bytes" where
  "be_bytes n w = map (\<lambda>i. ucast (drop_bit (8 * i) w)) (rev [0..<n])"

definition be_word :: "bytes \<Rightarrow> 'w::len word" where
  "be_word bs = foldl (\<lambda>acc b. push_bit 8 acc OR ucast b) 0 bs"

lemma length_be_bytes [simp]: "length (be_bytes n w) = n"
  by (simp add: be_bytes_def)

lemma be_bytes_Suc: "be_bytes (Suc n) w = ucast (drop_bit (8 * n) w) # be_bytes n w"
  by (simp add: be_bytes_def)

lemma be_word_step:
  fixes acc w :: "'w::len word"
  shows "push_bit (8 * n) (push_bit 8 acc OR ucast (ucast (drop_bit (8 * n) w) :: u8))
           OR take_bit (8 * n) w
         = push_bit (8 * Suc n) acc OR take_bit (8 * Suc n) w"
  by (rule bit_eqI) (auto simp: bit_simps add.commute)

lemma foldl_be_bytes:
  fixes acc w :: "'w::len word"
  shows "foldl (\<lambda>acc b. push_bit 8 acc OR ucast b) acc (be_bytes n w)
         = push_bit (8 * n) acc OR take_bit (8 * n) w"
proof (induction n arbitrary: acc)
  case 0
  then show ?case by (simp add: be_bytes_def)
next
  case (Suc n)
  then show ?case by (simp only: be_bytes_Suc foldl_Cons be_word_step)
qed

lemma be_word_be_bytes:
  fixes w :: "'w::len word"
  assumes "LENGTH('w) \<le> 8 * n"
  shows "be_word (be_bytes n w) = w"
proof -
  have "take_bit (8 * n) w = w"
    using assms by (auto intro!: bit_eqI simp: bit_simps dest: bit_imp_le_length)
  then show ?thesis by (simp add: be_word_def foldl_be_bytes)
qed

lemma be_bytes_snoc:
  "be_bytes (Suc n) w = be_bytes n (drop_bit 8 w) @ [ucast w]"
  by (induction n) (simp_all add: be_bytes_Suc add.commute, simp add: be_bytes_def)

lemma be_bytes_cong:
  fixes v w :: "'w::len word"
  assumes "take_bit (8 * n) v = take_bit (8 * n) w"
  shows "be_bytes n v = be_bytes n w"
  unfolding be_bytes_def
proof (rule map_cong[OF refl])
  fix i assume "i \<in> set (rev [0..<n])"
  then have i: "i < n" by simp
  have "bit (take_bit (8 * n) v) k = bit (take_bit (8 * n) w) k" for k
    using assms by simp
  then have eq: "k < 8 * n \<Longrightarrow> bit v k = bit w k" for k
    by (auto simp: bit_take_bit_iff)
  show "(ucast (drop_bit (8 * i) v) :: u8) = ucast (drop_bit (8 * i) w)"
    using i by (intro bit_eqI) (simp add: bit_simps eq)
qed

lemma be_bytes_foldl:
  fixes acc :: "'w::len word"
  assumes "8 * length bs \<le> LENGTH('w)"
  shows "be_bytes (length bs) (foldl (\<lambda>acc b. push_bit 8 acc OR ucast b) acc bs) = bs"
  using assms
proof (induction bs rule: rev_induct)
  case Nil
  then show ?case by (simp add: be_bytes_def)
next
  case (snoc b bs)
  let ?w = "foldl (\<lambda>acc b. push_bit 8 acc OR ucast b) acc bs"
  have low: "take_bit (8 * length bs) (drop_bit 8 (push_bit 8 ?w OR ucast b))
      = take_bit (8 * length bs) ?w"
    using snoc.prems by (intro bit_eqI) (auto simp: bit_simps dest: bit_imp_le_length)
  have top: "(ucast (push_bit 8 ?w OR ucast b) :: u8) = b"
    using snoc.prems by (intro bit_eqI) (auto simp: bit_simps dest: bit_imp_le_length)
  have "be_bytes (Suc (length bs)) (push_bit 8 ?w OR ucast b) = be_bytes (length bs) ?w @ [b]"
    unfolding be_bytes_snoc be_bytes_cong[OF low] top ..
  with snoc show ?case by simp
qed

lemma be_bytes_be_word:
  assumes "length bs = n" and "LENGTH('w) = 8 * n"
  shows "be_bytes n (be_word bs :: 'w::len word) = bs"
  using assms be_bytes_foldl[of bs "0 :: 'w word"] by (simp add: be_word_def)

section \<open>Buffers: the cursor reads and writes of the codecs\<close>

text \<open>
  A reader takes its bytes from the front of the buffer and returns the rest; reading past
  the end panics, as the \<open>get_*\<close> methods do. The contract of a fixed-width field is the
  locale below: what was written at the front is what the reader returns, with the rest of
  the buffer untouched.
\<close>

definition get_be :: "nat \<Rightarrow> bytes \<Rightarrow> ('w::len word \<times> bytes, 'e) result" where
  "get_be n buf = (if length buf < n then Panic else Ok (be_word (take n buf), drop n buf))"

definition copy_to_slice :: "nat \<Rightarrow> bytes \<Rightarrow> (bytes \<times> bytes, 'e) result" where
  "copy_to_slice n buf = (if length buf < n then Panic else Ok (take n buf, drop n buf))"

locale fixed_field =
  fixes width :: nat
    and put :: "'a \<Rightarrow> bytes"
    and get :: "bytes \<Rightarrow> ('a \<times> bytes, 'e) result"
  assumes put_width: "length (put x) = width"
    and get_put: "get (put x @ rest) = Ok (x, rest)"
    and get_short: "length buf < width \<Longrightarrow> get buf = Panic"
    and get_long: "width \<le> length buf \<Longrightarrow> \<exists>x. get buf = Ok (x, drop width buf)"
begin

lemma put_inj: "put x @ r = put y @ s \<longleftrightarrow> x = y \<and> r = s"
proof
  assume "put x @ r = put y @ s"
  then have "get (put x @ r) = get (put y @ s)" by simp
  then show "x = y \<and> r = s" by (simp add: get_put)
qed simp

lemma get_not_Panic: "get buf \<noteq> Panic \<longleftrightarrow> width \<le> length buf"
  using get_long get_short by (metis linorder_not_less result.distinct(3))

end

lemma get_be_fixed_field:
  assumes "LENGTH('w) = 8 * n"
  shows "fixed_field n (be_bytes n :: 'w::len word \<Rightarrow> bytes) (get_be n)"
  using assms by unfold_locales (auto simp: get_be_def be_word_be_bytes)

interpretation u8_field: fixed_field 1 "be_bytes 1 :: u8 \<Rightarrow> bytes" "get_be 1"
  by (rule get_be_fixed_field) simp

interpretation u16_field: fixed_field 2 "be_bytes 2 :: u16 \<Rightarrow> bytes" "get_be 2"
  by (rule get_be_fixed_field) simp

interpretation u32_field: fixed_field 4 "be_bytes 4 :: u32 \<Rightarrow> bytes" "get_be 4"
  by (rule get_be_fixed_field) simp

interpretation u64_field: fixed_field 8 "be_bytes 8 :: u64 \<Rightarrow> bytes" "get_be 8"
  by (rule get_be_fixed_field) simp

lemmas field_get_put [codec_simps] =
  u8_field.get_put u16_field.get_put u32_field.get_put u64_field.get_put

lemma be_word_be_bytes_32 [codec_simps]: "be_word (be_bytes 4 w) = (w :: u32)"
  by (rule be_word_be_bytes) simp

lemma copy_to_slice_append [codec_simps]:
  "length xs = n \<Longrightarrow> copy_to_slice n (xs @ rest) = Ok (xs, rest)"
  by (simp add: copy_to_slice_def)

lemma get_be_long: "n \<le> length buf \<Longrightarrow> get_be n buf = Ok (be_word (take n buf), drop n buf)"
  by (simp add: get_be_def)

lemma copy_to_slice_long: "n \<le> length buf \<Longrightarrow> copy_to_slice n buf = Ok (take n buf, drop n buf)"
  by (simp add: copy_to_slice_def)

section \<open>Quorums\<close>

text \<open>
  What a quorum scheme promises, whatever its thresholds: a read quorum and a write quorum of the
  same system share a member. Elections take both to be the majorities of the cluster; replicated
  reads and writes take the two thresholds of their configuration.
\<close>

lemma counted_overlap:
  assumes "finite U" "A \<subseteq> U" "B \<subseteq> U" "card U < card A + card B"
  shows "A \<inter> B \<noteq> {}"
proof
  assume "A \<inter> B = {}"
  then have "card A + card B = card (A \<union> B)"
    using assms(1-3) by (metis card_Un_disjoint finite_subset)
  also have "\<dots> \<le> card U" using assms(1-3) by (intro card_mono) auto
  finally show False using assms(4) by simp
qed

locale intersecting_quorums =
  fixes read_set :: "'u \<Rightarrow> 'n set \<Rightarrow> bool"
    and write_set :: "'u \<Rightarrow> 'n set \<Rightarrow> bool"
  assumes intersect: "read_set u A \<Longrightarrow> write_set u B \<Longrightarrow> A \<inter> B \<noteq> {}"
begin

lemma agreed_choice:
  assumes "read_set u A" "write_set u B" "\<And>x. x \<in> A \<Longrightarrow> P x a" "\<And>x. x \<in> B \<Longrightarrow> P x b"
    and "\<And>x. P x a \<Longrightarrow> P x b \<Longrightarrow> a = b"
  shows "a = b"
  using intersect[OF assms(1,2)] assms(3-5) by auto

lemma sees_write:
  assumes "read_set u A" "write_set u B" "\<And>x. x \<in> B \<Longrightarrow> v \<le> version x"
  shows "\<exists>x\<in>A. v \<le> version x"
  using intersect[OF assms(1,2)] assms(3) by auto

end

section \<open>Functional refinement\<close>

text \<open>
  A component refines a specification when each of its operations returns what the specified
  operation returns on the abstracted state; sequences of operations then agree as well.
\<close>

fun run_ops :: "('x \<Rightarrow> 's \<Rightarrow> 's \<times> 'r) \<Rightarrow> 'x list \<Rightarrow> 's \<Rightarrow> 's \<times> 'r list" where
  "run_ops step [] s = (s, [])"
| "run_ops step (x # xs) s =
     (case step x s of (s1, r) \<Rightarrow> case run_ops step xs s1 of (s2, rs) \<Rightarrow> (s2, r # rs))"

fun all_legal :: "('x \<Rightarrow> 's \<Rightarrow> bool) \<Rightarrow> ('x \<Rightarrow> 's \<Rightarrow> 's \<times> 'r) \<Rightarrow> 'x list \<Rightarrow> 's \<Rightarrow> bool" where
  "all_legal legal step [] s = True"
| "all_legal legal step (x # xs) s = (legal x s \<and> all_legal legal step xs (fst (step x s)))"

lemma all_legal_True [simp]: "all_legal (\<lambda>x s. True) step xs s"
  by (induction xs arbitrary: s) simp_all

locale functional_refinement =
  fixes ok :: "'s \<Rightarrow> bool"
    and legal :: "'x \<Rightarrow> 's \<Rightarrow> bool"
    and abs_state :: "'s \<Rightarrow> 'a"
    and step :: "'x \<Rightarrow> 's \<Rightarrow> 's \<times> 'r"
    and spec :: "'x \<Rightarrow> 'a \<Rightarrow> 'a \<times> 'r"
  assumes simulates: "ok s \<Longrightarrow> legal x s \<Longrightarrow> step x s = (s', r) \<Longrightarrow>
      ok s' \<and> spec x (abs_state s) = (abs_state s', r)"
begin

lemma run_simulates:
  "ok s \<Longrightarrow> all_legal legal step xs s \<Longrightarrow> run_ops step xs s = (s', rs) \<Longrightarrow>
     ok s' \<and> run_ops spec xs (abs_state s) = (abs_state s', rs)"
proof (induction xs arbitrary: s rs)
  case (Cons x xs)
  obtain s1 r where one: "step x s = (s1, r)" by fastforce
  obtain rs1 where rest: "run_ops step xs s1 = (s', rs1)" "rs = r # rs1"
    using Cons.prems(3) one by (auto split: prod.splits)
  have "legal x s" "all_legal legal step xs s1" using Cons.prems(2) one by auto
  with simulates[OF Cons.prems(1) _ one] Cons.IH[OF _ _ rest(1)] rest one show ?case by auto
qed simp

end

text \<open>
  The same for a relation between the states, where the specification keeps more than the code does.
\<close>

locale relational_refinement =
  fixes related :: "'a \<Rightarrow> 's \<Rightarrow> bool"
    and step :: "'x \<Rightarrow> 's \<Rightarrow> 's \<times> 'r"
    and spec :: "'x \<Rightarrow> 'a \<Rightarrow> 'a \<times> 'r"
  assumes simulates: "related a s \<Longrightarrow>
      snd (step x s) = snd (spec x a) \<and> related (fst (spec x a)) (fst (step x s))"
begin

lemma run_related:
  "related a s \<Longrightarrow> snd (run_ops step xs s) = snd (run_ops spec xs a)
     \<and> related (fst (run_ops spec xs a)) (fst (run_ops step xs s))"
proof (induction xs arbitrary: a s)
  case (Cons x xs)
  from simulates [OF Cons.prems, of x] Cons.IH show ?case by (auto simp: case_prod_beta)
qed simp

end

end
