(* ===== verification/Protocol_Frame.thy ===== *)
theory Protocol_Frame
  imports Prelude
begin

text \<open>
  The wire format of \<^verbatim>\<open>src/kaelix-core/src/protocol\<close>: the errors (\<^verbatim>\<open>error.rs\<close>), the
  frame types and flags (\<^verbatim>\<open>mod.rs\<close>) and the frame with its serialisation
  (\<^verbatim>\<open>frame.rs\<close>). A \<open>Bytes\<close> value is a byte list. Two things the code reads from outside
  are arguments: \<open>now\<close>, the system clock in nanoseconds relative to the Unix epoch, and
  \<open>hasher\<close>, the standard library's \<open>DefaultHasher\<close> applied to a header slice and a payload
  slice, whose algorithm the library leaves unspecified. Every theorem holds for all of them.
\<close>

section \<open>Errors\<close>

datatype io_error = IoErr (io_kind: string) (io_message: string)

datatype protocol_error =
    InvalidMagic bytes bytes
  | UnsupportedVersion u8 u8
  | InvalidFrameType u16
  | FrameTooLarge usize usize
  | PayloadTooLarge u32 u32
  | BufferTooSmall usize usize
  | ChecksumMismatch u32 u32
  | IncompleteFrame usize usize
  | InvalidStreamId u32 u32 u32
  | SequenceOutOfOrder u64 u64
  | EncodingError string
  | DecodingError string
  | IoError io_error
  | AllocationError string

fun is_recoverable :: "protocol_error \<Rightarrow> bool" where
  "is_recoverable (IncompleteFrame e a) = True"
| "is_recoverable (BufferTooSmall r a) = True"
| "is_recoverable (IoError e) = True"
| "is_recoverable (AllocationError m) = True"
| "is_recoverable _ = False"

fun is_corruption :: "protocol_error \<Rightarrow> bool" where
  "is_corruption (InvalidMagic e a) = True"
| "is_corruption (ChecksumMismatch e a) = True"
| "is_corruption (InvalidFrameType t) = True"
| "is_corruption _ = False"

fun is_protocol_violation :: "protocol_error \<Rightarrow> bool" where
  "is_protocol_violation (UnsupportedVersion v s) = True"
| "is_protocol_violation (FrameTooLarge a m) = True"
| "is_protocol_violation (PayloadTooLarge a m) = True"
| "is_protocol_violation (InvalidStreamId i s e) = True"
| "is_protocol_violation (SequenceOutOfOrder e a) = True"
| "is_protocol_violation _ = False"

fun protocol_error_clone :: "protocol_error \<Rightarrow> protocol_error" where
  "protocol_error_clone (IoError e) = IoError (IoErr (io_kind e) (io_message e))"
| "protocol_error_clone e = e"

definition protocol_error_eq :: "protocol_error \<Rightarrow> protocol_error \<Rightarrow> bool" where
  "protocol_error_eq x y =
     (case x of
        InvalidMagic e1 a1 \<Rightarrow> (case y of InvalidMagic e2 a2 \<Rightarrow> e1 = e2 \<and> a1 = a2 | _ \<Rightarrow> False)
      | UnsupportedVersion v1 s1 \<Rightarrow> (case y of UnsupportedVersion v2 s2 \<Rightarrow> v1 = v2 \<and> s1 = s2 | _ \<Rightarrow> False)
      | InvalidFrameType f1 \<Rightarrow> (case y of InvalidFrameType f2 \<Rightarrow> f1 = f2 | _ \<Rightarrow> False)
      | FrameTooLarge a1 m1 \<Rightarrow> (case y of FrameTooLarge a2 m2 \<Rightarrow> a1 = a2 \<and> m1 = m2 | _ \<Rightarrow> False)
      | PayloadTooLarge a1 m1 \<Rightarrow> (case y of PayloadTooLarge a2 m2 \<Rightarrow> a1 = a2 \<and> m1 = m2 | _ \<Rightarrow> False)
      | BufferTooSmall r1 a1 \<Rightarrow> (case y of BufferTooSmall r2 a2 \<Rightarrow> r1 = r2 \<and> a1 = a2 | _ \<Rightarrow> False)
      | ChecksumMismatch e1 a1 \<Rightarrow> (case y of ChecksumMismatch e2 a2 \<Rightarrow> e1 = e2 \<and> a1 = a2 | _ \<Rightarrow> False)
      | IncompleteFrame e1 a1 \<Rightarrow> (case y of IncompleteFrame e2 a2 \<Rightarrow> e1 = e2 \<and> a1 = a2 | _ \<Rightarrow> False)
      | InvalidStreamId s1 b1 e1 \<Rightarrow> (case y of InvalidStreamId s2 b2 e2 \<Rightarrow> s1 = s2 \<and> b1 = b2 \<and> e1 = e2 | _ \<Rightarrow> False)
      | SequenceOutOfOrder e1 a1 \<Rightarrow> (case y of SequenceOutOfOrder e2 a2 \<Rightarrow> e1 = e2 \<and> a1 = a2 | _ \<Rightarrow> False)
      | EncodingError m1 \<Rightarrow> (case y of EncodingError m2 \<Rightarrow> m1 = m2 | _ \<Rightarrow> False)
      | DecodingError m1 \<Rightarrow> (case y of DecodingError m2 \<Rightarrow> m1 = m2 | _ \<Rightarrow> False)
      | AllocationError m1 \<Rightarrow> (case y of AllocationError m2 \<Rightarrow> m1 = m2 | _ \<Rightarrow> False)
      | IoError e1 \<Rightarrow> (case y of IoError e2 \<Rightarrow> io_kind e1 = io_kind e2 | _ \<Rightarrow> False))"

section \<open>Frame types and flags\<close>

definition PROTOCOL_MAGIC :: bytes where
  "PROTOCOL_MAGIC = [0x4B, 0x41, 0x45, 0x58]"

definition PROTOCOL_VERSION :: u8 where
  "PROTOCOL_VERSION = 0x01"

definition FRAME_HEADER_SIZE :: usize where
  "FRAME_HEADER_SIZE = 40"

definition MAX_PAYLOAD_SIZE :: u32 where
  "MAX_PAYLOAD_SIZE = 16 * 1024 * 1024"

definition MAX_FRAME_SIZE :: usize where
  "MAX_FRAME_SIZE = FRAME_HEADER_SIZE + unat MAX_PAYLOAD_SIZE"

datatype frame_type = Data | Control | Heartbeat | Ack | FrameError | Close

definition frame_type_from_u16 :: "u16 \<Rightarrow> (frame_type, protocol_error) result" where
  "frame_type_from_u16 value =
     (if value = 0x0001 then Ok Data
      else if value = 0x0002 then Ok Control
      else if value = 0x0003 then Ok Heartbeat
      else if value = 0x0004 then Ok Ack
      else if value = 0x0005 then Ok FrameError
      else if value = 0x0006 then Ok Close
      else Err (InvalidFrameType value))"

fun frame_type_as_u16 :: "frame_type \<Rightarrow> u16" where
  "frame_type_as_u16 Data = 0x0001"
| "frame_type_as_u16 Control = 0x0002"
| "frame_type_as_u16 Heartbeat = 0x0003"
| "frame_type_as_u16 Ack = 0x0004"
| "frame_type_as_u16 FrameError = 0x0005"
| "frame_type_as_u16 Close = 0x0006"

definition type_requires_ack :: "frame_type \<Rightarrow> bool" where
  "type_requires_ack t = (t \<in> {Data, Control})"

definition type_is_control :: "frame_type \<Rightarrow> bool" where
  "type_is_control t = (t \<in> {Control, Heartbeat, Ack, FrameError, Close})"

datatype frame_flags = FrameFlags (flags_as_u16: u16)

definition flags_new :: "frame_type \<Rightarrow> frame_flags" where
  "flags_new t = FrameFlags (frame_type_as_u16 t)"

definition flags_frame_type :: "frame_flags \<Rightarrow> (frame_type, protocol_error) result" where
  "flags_frame_type fl = frame_type_from_u16 (flags_as_u16 fl AND 0x00FF)"

definition with_compression :: "frame_flags \<Rightarrow> frame_flags" where
  "with_compression fl = FrameFlags (flags_as_u16 fl OR 0x0100)"

definition is_compressed :: "frame_flags \<Rightarrow> bool" where
  "is_compressed fl = (flags_as_u16 fl AND 0x0100 \<noteq> 0)"

definition with_end_of_stream :: "frame_flags \<Rightarrow> frame_flags" where
  "with_end_of_stream fl = FrameFlags (flags_as_u16 fl OR 0x0200)"

definition is_end_of_stream :: "frame_flags \<Rightarrow> bool" where
  "is_end_of_stream fl = (flags_as_u16 fl AND 0x0200 \<noteq> 0)"

definition flags_default :: frame_flags where
  "flags_default = flags_new Data"

section \<open>Frames\<close>

record frame =
  fr_flags :: frame_flags
  fr_stream_id :: u32
  fr_sequence :: u64
  fr_timestamp :: u64
  fr_payload :: bytes

definition current_timestamp_nanos :: "int \<Rightarrow> (u64, protocol_error) result" where
  "current_timestamp_nanos now =
     (if now < 0
      then Err (EncodingError ''Invalid system time: second time provided was later than self'')
      else if now < 2 ^ 64 then Ok (of_int now)
      else Err (EncodingError ''Timestamp overflow: system time too far in future''))"

definition frame_with_sequence ::
  "int \<Rightarrow> frame_type \<Rightarrow> u32 \<Rightarrow> u64 \<Rightarrow> bytes \<Rightarrow> (frame, protocol_error) result" where
  "frame_with_sequence now t sid seq payload =
     (if length payload > unat MAX_PAYLOAD_SIZE
      then Err (PayloadTooLarge
                  (if length payload < 2 ^ 32 then of_nat (length payload) else - 1)
                  MAX_PAYLOAD_SIZE)
      else if sid = 0 \<and> \<not> type_is_control t then Err (InvalidStreamId sid 0 0)
      else and_then (current_timestamp_nanos now) (\<lambda>ts.
        Ok \<lparr>fr_flags = flags_new t, fr_stream_id = sid, fr_sequence = seq,
            fr_timestamp = ts, fr_payload = payload\<rparr>))"

definition frame_new :: "int \<Rightarrow> frame_type \<Rightarrow> u32 \<Rightarrow> bytes \<Rightarrow> (frame, protocol_error) result" where
  "frame_new now t sid payload = frame_with_sequence now t sid 0 payload"

definition timestamp_or_zero :: "int \<Rightarrow> u64" where
  "timestamp_or_zero now = (case current_timestamp_nanos now of Ok ts \<Rightarrow> ts | _ \<Rightarrow> 0)"

definition frame_heartbeat :: "int \<Rightarrow> frame" where
  "frame_heartbeat now =
     \<lparr>fr_flags = flags_new Heartbeat, fr_stream_id = 0, fr_sequence = 0,
      fr_timestamp = timestamp_or_zero now, fr_payload = []\<rparr>"

definition frame_ack :: "int \<Rightarrow> u32 \<Rightarrow> u64 \<Rightarrow> frame" where
  "frame_ack now sid seq =
     \<lparr>fr_flags = flags_new Ack, fr_stream_id = sid, fr_sequence = seq,
      fr_timestamp = timestamp_or_zero now, fr_payload = []\<rparr>"

definition frame_error :: "int \<Rightarrow> u32 \<Rightarrow> bytes \<Rightarrow> (frame, protocol_error) result" where
  "frame_error now sid message = frame_new now FrameError sid message"

definition frame_default :: frame where
  "frame_default =
     \<lparr>fr_flags = flags_default, fr_stream_id = 1, fr_sequence = 0, fr_timestamp = 0,
      fr_payload = []\<rparr>"

definition frame_frame_type :: "frame \<Rightarrow> (frame_type, protocol_error) result" where
  "frame_frame_type f = flags_frame_type (fr_flags f)"

definition set_flags :: "frame_flags \<Rightarrow> frame \<Rightarrow> frame" where
  "set_flags fl f = f\<lparr>fr_flags := fl\<rparr>"

definition set_sequence :: "u64 \<Rightarrow> frame \<Rightarrow> frame" where
  "set_sequence s f = f\<lparr>fr_sequence := s\<rparr>"

definition payload_size :: "frame \<Rightarrow> u32" where
  "payload_size f = of_nat (length (fr_payload f))"

definition frame_size :: "frame \<Rightarrow> usize" where
  "frame_size f = FRAME_HEADER_SIZE + length (fr_payload f)"

definition frame_requires_ack :: "frame \<Rightarrow> bool" where
  "frame_requires_ack f =
     (case frame_frame_type f of Ok t \<Rightarrow> type_requires_ack t | _ \<Rightarrow> False)"

definition frame_is_control :: "frame \<Rightarrow> bool" where
  "frame_is_control f =
     (case frame_frame_type f of Ok t \<Rightarrow> type_is_control t | _ \<Rightarrow> False)"

section \<open>Serialisation\<close>

type_synonym slice_hasher = "bytes \<Rightarrow> bytes \<Rightarrow> u64"

definition calculate_checksum :: "slice_hasher \<Rightarrow> bytes \<Rightarrow> bytes \<Rightarrow> u32" where
  "calculate_checksum hasher header payload = ucast (hasher header payload)"

definition header_bytes :: "frame \<Rightarrow> bytes" where
  "header_bytes f =
     PROTOCOL_MAGIC @ be_bytes 1 PROTOCOL_VERSION @ be_bytes 2 (flags_as_u16 (fr_flags f))
     @ be_bytes 1 (0 :: u8) @ be_bytes 4 (fr_stream_id f) @ be_bytes 4 (0 :: u32)
     @ be_bytes 8 (fr_sequence f) @ be_bytes 8 (fr_timestamp f) @ be_bytes 4 (payload_size f)"

definition serialize :: "slice_hasher \<Rightarrow> frame \<Rightarrow> (bytes, protocol_error) result" where
  "serialize hasher f =
     (let header = header_bytes f;
          checksum = calculate_checksum hasher header (fr_payload f)
      in Ok (header @ be_bytes 4 checksum @ fr_payload f))"

definition deserialize :: "slice_hasher \<Rightarrow> bytes \<Rightarrow> (frame, protocol_error) result" where
  "deserialize hasher data =
     (if length data < FRAME_HEADER_SIZE
      then Err (BufferTooSmall FRAME_HEADER_SIZE (length data))
      else and_then (copy_to_slice 4 data) (\<lambda>(magic, buf).
       if magic \<noteq> PROTOCOL_MAGIC then Err (InvalidMagic PROTOCOL_MAGIC magic)
       else and_then (get_be 1 buf) (\<lambda>(version :: u8, buf).
       if version \<noteq> PROTOCOL_VERSION then Err (UnsupportedVersion version PROTOCOL_VERSION)
       else and_then (get_be 2 buf) (\<lambda>(flags_raw :: u16, buf).
       and_then (get_be 1 buf) (\<lambda>(reserved1 :: u8, buf).
       and_then (get_be 4 buf) (\<lambda>(sid :: u32, buf).
       and_then (get_be 4 buf) (\<lambda>(reserved2 :: u32, buf).
       and_then (get_be 8 buf) (\<lambda>(seq :: u64, buf).
       and_then (get_be 8 buf) (\<lambda>(ts :: u64, buf).
       and_then (get_be 4 buf) (\<lambda>(payload_len :: u32, buf).
       if payload_len > MAX_PAYLOAD_SIZE
       then Err (PayloadTooLarge payload_len MAX_PAYLOAD_SIZE)
       else and_then (get_be 4 buf) (\<lambda>(expected_checksum :: u32, buf).
       if length buf < unat payload_len
       then Err (IncompleteFrame (FRAME_HEADER_SIZE + unat payload_len)
                                 (FRAME_HEADER_SIZE + length buf))
       else
         (let payload = (if payload_len = 0 then [] else take (unat payload_len) buf);
              actual_checksum = calculate_checksum hasher (take 36 data) payload
          in if expected_checksum \<noteq> actual_checksum
             then Err (ChecksumMismatch expected_checksum actual_checksum)
             else and_then (flags_frame_type (FrameFlags flags_raw)) (\<lambda>t.
               Ok \<lparr>fr_flags = FrameFlags flags_raw, fr_stream_id = sid, fr_sequence = seq,
                   fr_timestamp = ts, fr_payload = payload\<rparr>)))))))))))))"

section \<open>Lemmas on frame types and flags\<close>

lemmas frame_consts =
  PROTOCOL_VERSION_def FRAME_HEADER_SIZE_def MAX_PAYLOAD_SIZE_def MAX_FRAME_SIZE_def

lemma length_PROTOCOL_MAGIC [simp]: "length PROTOCOL_MAGIC = 4"
  by (simp add: PROTOCOL_MAGIC_def)

lemma unat_MAX_PAYLOAD_SIZE: "unat MAX_PAYLOAD_SIZE = 16777216"
  by (simp add: MAX_PAYLOAD_SIZE_def)

lemma frame_type_from_as: "frame_type_from_u16 (frame_type_as_u16 t) = Ok t"
  by (cases t) (simp_all add: frame_type_from_u16_def)

lemma frame_type_from_u16_Ok: "frame_type_from_u16 v = Ok t \<longleftrightarrow> v = frame_type_as_u16 t"
  by (cases t) (auto simp: frame_type_from_u16_def split: if_splits)

lemma frame_type_from_u16_not_Panic: "frame_type_from_u16 v \<noteq> Panic"
  by (simp add: frame_type_from_u16_def)

lemma flags_frame_type_not_Panic: "flags_frame_type fl \<noteq> Panic"
  by (simp add: flags_frame_type_def frame_type_from_u16_not_Panic)

lemma flags_frame_type_new [simp]: "flags_frame_type (flags_new t) = Ok t"
proof -
  have "frame_type_as_u16 t AND 0x00FF = frame_type_as_u16 t" by (cases t) simp_all
  then show ?thesis by (simp add: flags_frame_type_def flags_new_def frame_type_from_as)
qed

lemma flag_bits:
  "flags_frame_type (with_compression fl) = flags_frame_type fl"
  "flags_frame_type (with_end_of_stream fl) = flags_frame_type fl"
  "is_compressed (with_compression fl)"
  "is_end_of_stream (with_end_of_stream fl)"
  "is_end_of_stream (with_compression fl) = is_end_of_stream fl"
  "is_compressed (with_end_of_stream fl) = is_compressed fl"
  by (simp_all add: flags_frame_type_def with_compression_def with_end_of_stream_def
      is_compressed_def is_end_of_stream_def bit.conj_disj_distrib2)

section \<open>The serialised form\<close>

definition wire :: "slice_hasher \<Rightarrow> frame \<Rightarrow> bytes" where
  "wire hasher f =
     header_bytes f @ be_bytes 4 (calculate_checksum hasher (header_bytes f) (fr_payload f))
     @ fr_payload f"

definition wf_frame :: "frame \<Rightarrow> bool" where
  "wf_frame f = (length (fr_payload f) \<le> unat MAX_PAYLOAD_SIZE \<and> is_ok (frame_frame_type f))"

lemma serialize_wire: "serialize hasher f = Ok (wire hasher f)"
  by (simp add: serialize_def wire_def Let_def)

lemma length_header_bytes [simp]: "length (header_bytes f) = 36"
  by (simp add: header_bytes_def)

lemma length_wire [simp]: "length (wire hasher f) = frame_size f"
  by (simp add: wire_def frame_size_def FRAME_HEADER_SIZE_def)

lemma unat_payload_size:
  "wf_frame f \<Longrightarrow> unat (payload_size f) = length (fr_payload f)"
  by (simp add: wf_frame_def payload_size_def unat_MAX_PAYLOAD_SIZE unat_of_nat)

lemma payload_size_le: "wf_frame f \<Longrightarrow> payload_size f \<le> MAX_PAYLOAD_SIZE"
  using unat_payload_size by (simp add: wf_frame_def word_le_nat_alt)

lemma wf_frame_type: "wf_frame f \<Longrightarrow> \<exists>t. flags_frame_type (fr_flags f) = Ok t"
  by (cases "flags_frame_type (fr_flags f)") (auto simp: wf_frame_def frame_frame_type_def)

lemma payload_size_zero: "wf_frame f \<Longrightarrow> payload_size f = 0 \<longleftrightarrow> fr_payload f = []"
  using unat_payload_size[of f] by (metis length_0_conv unat_eq_zero)

lemma deserialize_wire:
  assumes "wf_frame f"
  shows "deserialize hasher (wire hasher f @ rest) = Ok f"
proof -
  obtain t where t: "flags_frame_type (fr_flags f) = Ok t"
    using wf_frame_type[OF assms] by blast
  have hdr: "take 36 (wire hasher f @ rest) = header_bytes f"
    by (simp add: wire_def)
  have len: "\<not> length (wire hasher f @ rest) < FRAME_HEADER_SIZE"
    by (simp add: frame_size_def)
  have pay: "(if payload_size f = 0 then [] else take (unat (payload_size f)) (fr_payload f @ rest))
      = fr_payload f"
    by (simp add: payload_size_zero[OF assms] unat_payload_size[OF assms])
  show ?thesis
    unfolding deserialize_def hdr
    using len payload_size_le[OF assms] t pay
    by (simp add: wire_def header_bytes_def codec_simps unat_payload_size[OF assms] not_less
        Let_def del: One_nat_def)
qed

section \<open>What the decoder accepts\<close>

text \<open>
  The fields of a header by their offsets (the table of \<^verbatim>\<open>frame.rs\<close>), and the decoder as a
  decision list over them: this form is what the inversion proofs work with.
\<close>

definition hdr_flags :: "bytes \<Rightarrow> frame_flags" where
  "hdr_flags d = FrameFlags (be_word (take 2 (drop 5 d)))"

definition hdr_payload_len :: "bytes \<Rightarrow> u32" where
  "hdr_payload_len d = be_word (take 4 (drop 32 d))"

definition hdr_checksum :: "bytes \<Rightarrow> u32" where
  "hdr_checksum d = be_word (take 4 (drop 36 d))"

definition hdr_frame :: "bytes \<Rightarrow> frame" where
  "hdr_frame d =
     \<lparr>fr_flags = hdr_flags d, fr_stream_id = be_word (take 4 (drop 8 d)),
      fr_sequence = be_word (take 8 (drop 16 d)), fr_timestamp = be_word (take 8 (drop 24 d)),
      fr_payload = take (unat (hdr_payload_len d)) (drop 40 d)\<rparr>"

lemmas hdr_defs = hdr_flags_def hdr_payload_len_def hdr_checksum_def hdr_frame_def

lemma deserialize_long:
  assumes "40 \<le> length d"
  shows "deserialize hasher d =
    (if take 4 d \<noteq> PROTOCOL_MAGIC then Err (InvalidMagic PROTOCOL_MAGIC (take 4 d))
     else if be_word (take 1 (drop 4 d)) \<noteq> PROTOCOL_VERSION
     then Err (UnsupportedVersion (be_word (take 1 (drop 4 d))) PROTOCOL_VERSION)
     else if hdr_payload_len d > MAX_PAYLOAD_SIZE
     then Err (PayloadTooLarge (hdr_payload_len d) MAX_PAYLOAD_SIZE)
     else if length d < 40 + unat (hdr_payload_len d)
     then Err (IncompleteFrame (40 + unat (hdr_payload_len d)) (length d))
     else if hdr_checksum d \<noteq> calculate_checksum hasher (take 36 d) (fr_payload (hdr_frame d))
     then Err (ChecksumMismatch (hdr_checksum d)
                 (calculate_checksum hasher (take 36 d) (fr_payload (hdr_frame d))))
     else and_then (flags_frame_type (hdr_flags d)) (\<lambda>t. Ok (hdr_frame d)))"
proof -
  define p :: u32 where "p = be_word (take 4 (drop 32 d))"
  have pay: "(if p = 0 then [] else take (unat p) (drop 40 d)) = take (unat p) (drop 40 d)"
    by simp
  have len: "40 + (length d - 40) = length d" "(length d - 40 < unat p) = (length d < 40 + unat p)"
    using assms by auto
  have "\<not> length d < FRAME_HEADER_SIZE"
    using assms by (simp add: FRAME_HEADER_SIZE_def)
  then show ?thesis
    unfolding deserialize_def hdr_defs p_def[symmetric]
    using assms
    by (simp only: get_be_long copy_to_slice_long length_drop if_False and_then.simps case_prod_conv
        drop_drop)
      (simp add: get_be_long copy_to_slice_long FRAME_HEADER_SIZE_def Let_def pay len
        flip: p_def del: One_nat_def)
qed

lemma deserialize_short:
  "length d < 40 \<Longrightarrow> deserialize hasher d = Err (BufferTooSmall 40 (length d))"
  by (simp add: deserialize_def FRAME_HEADER_SIZE_def)

lemma deserialize_not_Panic: "deserialize hasher d \<noteq> Panic"
proof (cases "length d < 40")
  case True
  then show ?thesis by (simp add: deserialize_short)
next
  case False
  then have "40 \<le> length d" by simp
  from deserialize_long[OF this, of hasher] flags_frame_type_not_Panic[of "hdr_flags d"] show ?thesis
    by (cases "flags_frame_type (hdr_flags d)") (auto split: if_splits)
qed

lemma deserialize_consumes:
  assumes "deserialize hasher d = Ok f \<or> (\<exists>e. deserialize hasher d = Err e \<and> is_corruption e)"
  shows "40 \<le> length d"
proof (rule ccontr)
  assume "\<not> 40 \<le> length d"
  then have "deserialize hasher d = Err (BufferTooSmall 40 (length d))"
    by (intro deserialize_short) simp
  with assms show False by auto
qed

lemma deserialize_OkD:
  assumes "deserialize hasher d = Ok f"
  shows "40 + unat (hdr_payload_len d) \<le> length d"
    and "take 4 d = PROTOCOL_MAGIC"
    and "be_word (take 1 (drop 4 d)) = PROTOCOL_VERSION"
    and "hdr_payload_len d \<le> MAX_PAYLOAD_SIZE"
    and "hdr_checksum d = calculate_checksum hasher (take 36 d) (fr_payload f)"
    and "f = hdr_frame d"
    and "is_ok (flags_frame_type (hdr_flags d))"
proof -
  have "40 \<le> length d" using deserialize_consumes assms by blast
  from assms[unfolded deserialize_long[OF this]]
  have all: "40 + unat (hdr_payload_len d) \<le> length d \<and> take 4 d = PROTOCOL_MAGIC
    \<and> be_word (take 1 (drop 4 d)) = PROTOCOL_VERSION \<and> hdr_payload_len d \<le> MAX_PAYLOAD_SIZE
    \<and> hdr_checksum d = calculate_checksum hasher (take 36 d) (fr_payload f)
    \<and> f = hdr_frame d \<and> is_ok (flags_frame_type (hdr_flags d))"
    by (cases "flags_frame_type (hdr_flags d)") (auto split: if_splits)
  then show "40 + unat (hdr_payload_len d) \<le> length d"
    and "take 4 d = PROTOCOL_MAGIC"
    and "be_word (take 1 (drop 4 d)) = PROTOCOL_VERSION"
    and "hdr_payload_len d \<le> MAX_PAYLOAD_SIZE"
    and "hdr_checksum d = calculate_checksum hasher (take 36 d) (fr_payload f)"
    and "f = hdr_frame d"
    and "is_ok (flags_frame_type (hdr_flags d))"
    by simp_all
qed

lemma deserialize_wf:
  assumes "deserialize hasher d = Ok f"
  shows "wf_frame f \<and> frame_size f \<le> length d"
  using deserialize_OkD[OF assms]
  by (simp add: wf_frame_def frame_size_def frame_frame_type_def hdr_frame_def
      FRAME_HEADER_SIZE_def word_le_nat_alt)

definition reserved_zero :: "bytes \<Rightarrow> bool" where
  "reserved_zero d = (drop 7 (take 8 d) = [0] \<and> drop 12 (take 16 d) = [0, 0, 0, 0])"

lemma be_bytes_slice:
  assumes "LENGTH('w) = 8 * n" and "k + n \<le> length d"
  shows "be_bytes n (be_word (take n (drop k d)) :: 'w::len word) = take n (drop k d)"
  using assms by (intro be_bytes_be_word) auto

lemma take_drop_split: "take (m + n) (drop k d) = take m (drop k d) @ take n (drop (k + m) d)"
  by (simp add: take_add add.commute)

lemma header_slices:
  "take 36 d = take 4 d @ take 1 (drop 4 d) @ take 2 (drop 5 d) @ take 1 (drop 7 d)
     @ take 4 (drop 8 d) @ take 4 (drop 12 d) @ take 8 (drop 16 d) @ take 8 (drop 24 d)
     @ take 4 (drop 32 d)"
  using take_drop_split[of 4 32 0 d] take_drop_split[of 1 31 4 d] take_drop_split[of 2 29 5 d]
    take_drop_split[of 1 28 7 d] take_drop_split[of 4 24 8 d] take_drop_split[of 4 20 12 d]
    take_drop_split[of 8 12 16 d] take_drop_split[of 8 4 24 d]
  by simp

lemma header_bytes_hdr_frame:
  assumes len: "40 + unat (hdr_payload_len d) \<le> length d"
    and magic: "take 4 d = PROTOCOL_MAGIC"
    and version: "be_word (take 1 (drop 4 d)) = PROTOCOL_VERSION"
    and zero: "reserved_zero d"
  shows "header_bytes (hdr_frame d) = take 36 d"
proof -
  have size: "payload_size (hdr_frame d) = hdr_payload_len d"
    using len by (simp add: payload_size_def hdr_frame_def)
  have ver: "be_bytes 1 PROTOCOL_VERSION = take 1 (drop 4 d)"
    unfolding version[symmetric] using len by (intro be_bytes_slice) simp_all
  have res: "take 1 (drop 7 d) = be_bytes 1 (0 :: u8)" "take 4 (drop 12 d) = be_bytes 4 (0 :: u32)"
    using zero by (simp_all add: reserved_zero_def drop_take be_bytes_def upt_rec)
  have f: "be_bytes 2 (flags_as_u16 (hdr_flags d)) = take 2 (drop 5 d)"
    "be_bytes 4 (be_word (take 4 (drop 8 d)) :: u32) = take 4 (drop 8 d)"
    "be_bytes 8 (be_word (take 8 (drop 16 d)) :: u64) = take 8 (drop 16 d)"
    "be_bytes 8 (be_word (take 8 (drop 24 d)) :: u64) = take 8 (drop 24 d)"
    "be_bytes 4 (hdr_payload_len d) = take 4 (drop 32 d)"
    using len by (simp_all add: be_bytes_slice hdr_flags_def hdr_payload_len_def)
  show ?thesis
    unfolding header_bytes_def size header_slices ver magic res
    by (simp add: hdr_frame_def f)
qed

lemma deserialize_canonical:
  assumes ok: "deserialize hasher d = Ok f" and zero: "reserved_zero d"
  shows "take (frame_size f) d = wire hasher f"
proof -
  note D = deserialize_OkD[OF ok]
  have hdr: "header_bytes f = take 36 d"
    unfolding D(6) by (rule header_bytes_hdr_frame[OF D(1-3) zero])
  have sum: "be_bytes 4 (calculate_checksum hasher (header_bytes f) (fr_payload f))
      = take 4 (drop 36 d)"
    unfolding hdr D(5)[symmetric] hdr_checksum_def using D(1) by (intro be_bytes_slice) simp_all
  have size: "frame_size f = 36 + (4 + unat (hdr_payload_len d))"
    using D(1) by (simp add: D(6) frame_size_def FRAME_HEADER_SIZE_def hdr_frame_def)
  have "take (frame_size f) d
      = take 36 d @ take 4 (drop 36 d) @ take (unat (hdr_payload_len d)) (drop 40 d)"
    unfolding size using take_drop_split[of 36 "4 + unat (hdr_payload_len d)" 0 d]
      take_drop_split[of 4 "unat (hdr_payload_len d)" 36 d] by simp
  moreover have "fr_payload f = take (unat (hdr_payload_len d)) (drop 40 d)"
    by (simp add: D(6) hdr_frame_def)
  ultimately show ?thesis
    unfolding wire_def sum unfolding hdr by simp
qed

lemma frame_with_sequence_wf:
  assumes "frame_with_sequence now t sid seq payload = Ok f"
  shows "wf_frame f \<and> frame_frame_type f = Ok t \<and> fr_payload f = payload
         \<and> fr_stream_id f = sid \<and> fr_sequence f = seq"
  using assms
  by (auto simp: frame_with_sequence_def wf_frame_def frame_frame_type_def and_then_Ok_iff
      split: if_splits)

section \<open>Properties\<close>

text \<open>
  C4: every frame the constructor \<open>Frame::with_sequence\<close> returns serialises, to exactly
  \<open>frame_size\<close> bytes, and \<open>Frame::deserialize\<close> on those bytes, whatever follows them in the
  buffer, returns that frame with the type, stream, sequence number and payload it was built
  from. This holds for every checksum function.
\<close>

theorem frame_roundtrip:
  assumes "frame_with_sequence now t sid seq payload = Ok f"
  shows "\<exists>d. serialize hasher f = Ok d \<and> length d = 40 + length payload
           \<and> deserialize hasher (d @ rest) = Ok f
           \<and> frame_frame_type f = Ok t \<and> fr_stream_id f = sid \<and> fr_sequence f = seq
           \<and> fr_payload f = payload"
  using frame_with_sequence_wf[OF assms]
  by (auto simp: serialize_wire deserialize_wire frame_size_def FRAME_HEADER_SIZE_def)

definition sample_frame :: frame where
  "sample_frame =
     \<lparr>fr_flags = flags_new Data, fr_stream_id = 7, fr_sequence = 9, fr_timestamp = 5,
      fr_payload = [1, 2, 3]\<rparr>"

lemma sample_frame_built: "frame_with_sequence 5 Data 7 9 [1, 2, 3] = Ok sample_frame"
  by (simp add: frame_with_sequence_def sample_frame_def current_timestamp_nanos_def
      unat_MAX_PAYLOAD_SIZE)

lemma sample_frame_wf: "wf_frame sample_frame"
  using frame_with_sequence_wf[OF sample_frame_built] by simp

theorem frame_roundtrip_witness:
  "\<exists>d. serialize (\<lambda>h p. 0) sample_frame = Ok d \<and> length d = 43
     \<and> deserialize (\<lambda>h p. 0) (d @ [255]) = Ok sample_frame"
  using frame_roundtrip[OF sample_frame_built, of "\<lambda>h p. 0" "[255]"] by auto

text \<open>
  C5: the decoder accepts nothing but serialised frames. Whatever bytes \<open>deserialize\<close> accepts,
  the frame it returns is well formed (a known type, a payload within the limit) and lies within
  the buffer, and when the reserved bytes of the header are zero the bytes it consumed are exactly
  the serialisation of that frame. The header check is the only slack: the reserved bytes are not
  part of the frame.
\<close>

theorem deserialize_inverse:
  assumes "deserialize hasher d = Ok f"
  shows "wf_frame f \<and> frame_size f \<le> length d
         \<and> (reserved_zero d \<longrightarrow> serialize hasher f = Ok (take (frame_size f) d))"
  using deserialize_wf[OF assms] deserialize_canonical[OF assms] by (simp add: serialize_wire)

theorem deserialize_inverse_witness:
  "wf_frame sample_frame
   \<and> serialize (\<lambda>h p. 0) sample_frame = Ok (take 43 (wire (\<lambda>h p. 0) sample_frame @ [255]))"
proof -
  have ok: "deserialize (\<lambda>h p. 0) (wire (\<lambda>h p. 0) sample_frame @ [255]) = Ok sample_frame"
    by (rule deserialize_wire[OF sample_frame_wf])
  have "reserved_zero (wire (\<lambda>h p. 0) sample_frame @ [255])"
    by (simp add: reserved_zero_def wire_def header_bytes_def be_bytes_def upt_rec
        PROTOCOL_MAGIC_def)
  moreover have "frame_size sample_frame = 43"
    by (simp add: frame_size_def sample_frame_def FRAME_HEADER_SIZE_def)
  ultimately show ?thesis using deserialize_inverse[OF ok] by simp
qed

text \<open>
  C14: \<open>deserialize\<close> is total and its verdict on a buffer with a whole header is the first check
  that fails, in the order of the code: magic bytes, version, payload limit, completeness,
  checksum, frame type. It never panics, on any input.
\<close>

theorem deserialize_verdict:
  "deserialize hasher d \<noteq> Panic \<and> deserialize hasher d =
    (if length d < 40 then Err (BufferTooSmall 40 (length d))
     else if take 4 d \<noteq> PROTOCOL_MAGIC then Err (InvalidMagic PROTOCOL_MAGIC (take 4 d))
     else if be_word (take 1 (drop 4 d)) \<noteq> PROTOCOL_VERSION
     then Err (UnsupportedVersion (be_word (take 1 (drop 4 d))) PROTOCOL_VERSION)
     else if hdr_payload_len d > MAX_PAYLOAD_SIZE
     then Err (PayloadTooLarge (hdr_payload_len d) MAX_PAYLOAD_SIZE)
     else if length d < 40 + unat (hdr_payload_len d)
     then Err (IncompleteFrame (40 + unat (hdr_payload_len d)) (length d))
     else if hdr_checksum d \<noteq> calculate_checksum hasher (take 36 d) (fr_payload (hdr_frame d))
     then Err (ChecksumMismatch (hdr_checksum d)
                 (calculate_checksum hasher (take 36 d) (fr_payload (hdr_frame d))))
     else case flags_frame_type (hdr_flags d) of Err e \<Rightarrow> Err e | _ \<Rightarrow> Ok (hdr_frame d))"
  using flags_frame_type_not_Panic[of "hdr_flags d"]
  by (auto simp: deserialize_not_Panic deserialize_short deserialize_long split: result.splits)

end
