(* ===== verification/Protocol_Codec.thy ===== *)
theory Protocol_Codec
  imports Protocol_Frame
begin

text \<open>
  The batching encoder and the streaming decoder of
  \<^verbatim>\<open>src/kaelix-core/src/protocol/codec.rs\<close>. A method that mutates the codec returns the new
  state with its outcome, so that what an error leaves behind in the buffers is part of the model.
  The capacity of the buffers (and \<open>buffer_utilization\<close>, which reports it) is not modelled.
\<close>

section \<open>Encoder\<close>

record frame_encoder =
  fe_buffer :: bytes
  fe_batch :: "frame list"
  fe_max_batch_size :: usize

definition encoder_new :: frame_encoder where
  "encoder_new = \<lparr>fe_buffer = [], fe_batch = [], fe_max_batch_size = 100\<rparr>"

definition set_max_batch_size :: "usize \<Rightarrow> frame_encoder \<Rightarrow> frame_encoder" where
  "set_max_batch_size sz e = e\<lparr>fe_max_batch_size := sz\<rparr>"

definition encode ::
  "slice_hasher \<Rightarrow> frame \<Rightarrow> frame_encoder \<Rightarrow> frame_encoder \<times> (bytes, protocol_error) result" where
  "encode hasher f e = (e\<lparr>fe_buffer := []\<rparr>, serialize hasher f)"

fun extend_all :: "slice_hasher \<Rightarrow> frame list \<Rightarrow> bytes \<Rightarrow> bytes \<times> (unit, protocol_error) result" where
  "extend_all hasher [] buf = (buf, Ok ())"
| "extend_all hasher (f # fs) buf =
     (case serialize hasher f of
        Ok encoded \<Rightarrow> extend_all hasher fs (buf @ encoded)
      | Err e \<Rightarrow> (buf, Err e)
      | Panic \<Rightarrow> (buf, Panic))"

definition flush_batch ::
  "slice_hasher \<Rightarrow> frame_encoder \<Rightarrow> frame_encoder \<times> (bytes, protocol_error) result" where
  "flush_batch hasher e =
     (if fe_batch e = [] then (e, Ok [])
      else case extend_all hasher (fe_batch e) [] of
        (buf, Ok u) \<Rightarrow> (e\<lparr>fe_buffer := [], fe_batch := []\<rparr>, Ok buf)
      | (buf, Err err) \<Rightarrow> (e\<lparr>fe_buffer := buf\<rparr>, Err err)
      | (buf, Panic) \<Rightarrow> (e\<lparr>fe_buffer := buf\<rparr>, Panic))"

definition add_to_batch ::
  "slice_hasher \<Rightarrow> frame \<Rightarrow> frame_encoder
     \<Rightarrow> frame_encoder \<times> (bytes option, protocol_error) result" where
  "add_to_batch hasher f e =
     (let e1 = e\<lparr>fe_batch := fe_batch e @ [f]\<rparr>
      in if length (fe_batch e1) \<ge> fe_max_batch_size e1
         then (case flush_batch hasher e1 of (e2, r) \<Rightarrow> (e2, and_then r (\<lambda>b. Ok (Some b))))
         else (e1, Ok None))"

definition batch_size :: "frame_encoder \<Rightarrow> usize" where
  "batch_size e = length (fe_batch e)"

definition is_batch_empty :: "frame_encoder \<Rightarrow> bool" where
  "is_batch_empty e = (fe_batch e = [])"

definition clear_batch :: "frame_encoder \<Rightarrow> frame_encoder" where
  "clear_batch e = e\<lparr>fe_batch := []\<rparr>"

definition encoder_reset :: "frame_encoder \<Rightarrow> frame_encoder" where
  "encoder_reset e = e\<lparr>fe_buffer := [], fe_batch := []\<rparr>"

section \<open>Decoder\<close>

record decoder_stats =
  ds_frames_decoded :: u64
  ds_bytes_processed :: u64
  ds_incomplete_frames :: u64
  ds_corrupted_frames :: u64
  ds_buffer_size :: usize
  ds_peak_buffer_size :: usize

definition stats_default :: decoder_stats where
  "stats_default =
     \<lparr>ds_frames_decoded = 0, ds_bytes_processed = 0, ds_incomplete_frames = 0,
      ds_corrupted_frames = 0, ds_buffer_size = 0, ds_peak_buffer_size = 0\<rparr>"

record frame_decoder =
  fd_buffer :: bytes
  fd_frame_queue :: "frame list"
  fd_expected_frame_size :: "usize option"
  fd_max_frame_size :: usize
  fd_stats :: decoder_stats

definition decoder_new :: frame_decoder where
  "decoder_new =
     \<lparr>fd_buffer = [], fd_frame_queue = [], fd_expected_frame_size = None,
      fd_max_frame_size = MAX_FRAME_SIZE, fd_stats = stats_default\<rparr>"

definition set_max_frame_size :: "usize \<Rightarrow> frame_decoder \<Rightarrow> frame_decoder" where
  "set_max_frame_size sz d = d\<lparr>fd_max_frame_size := sz\<rparr>"

definition decoder_reset :: "frame_decoder \<Rightarrow> frame_decoder" where
  "decoder_reset d =
     d\<lparr>fd_buffer := [], fd_frame_queue := [], fd_expected_frame_size := None,
       fd_stats := stats_default\<rparr>"

definition next_frame :: "frame_decoder \<Rightarrow> frame_decoder \<times> frame option" where
  "next_frame d =
     (case fd_frame_queue d of
        [] \<Rightarrow> (d, None)
      | f # fs \<Rightarrow> (d\<lparr>fd_frame_queue := fs\<rparr>, Some f))"

definition has_frames :: "frame_decoder \<Rightarrow> bool" where
  "has_frames d = (fd_frame_queue d \<noteq> [])"

definition frame_count :: "frame_decoder \<Rightarrow> usize" where
  "frame_count d = length (fd_frame_queue d)"

definition peek_frame_size :: "frame_decoder \<Rightarrow> (usize option, protocol_error) result" where
  "peek_frame_size d =
     (let b = fd_buffer d in
      if length b < FRAME_HEADER_SIZE then Ok None
      else if length b < 32 + 4 then Ok None
      else
        (let payload_len = (be_word [b ! 32, b ! 33, b ! 34, b ! 35] :: u32);
             total_size = FRAME_HEADER_SIZE + unat payload_len
         in if payload_len > MAX_PAYLOAD_SIZE
            then Err (PayloadTooLarge payload_len MAX_PAYLOAD_SIZE)
            else if total_size > fd_max_frame_size d
            then Err (FrameTooLarge total_size (fd_max_frame_size d))
            else Ok (Some total_size)))"

definition decode_single_frame ::
  "slice_hasher \<Rightarrow> frame_decoder \<Rightarrow> frame_decoder \<times> (frame, protocol_error) result" where
  "decode_single_frame hasher d =
     (case fd_expected_frame_size d of
        None \<Rightarrow> (d, Err (DecodingError ''Frame size not determined''))
      | Some sz \<Rightarrow>
          if sz > length (fd_buffer d) then (d, Panic)
          else (d\<lparr>fd_buffer := drop sz (fd_buffer d)\<rparr>,
                deserialize hasher (take sz (fd_buffer d))))"

definition recover_from_corruption :: "frame_decoder \<Rightarrow> frame_decoder" where
  "recover_from_corruption d =
     (let b = fd_buffer d in
      case find (\<lambda>i. take 4 (drop i b) = PROTOCOL_MAGIC) [1..<length b - 3] of
        Some i \<Rightarrow> d\<lparr>fd_buffer := drop i b\<rparr>
      | None \<Rightarrow> d\<lparr>fd_buffer := []\<rparr>)"

definition count_decoded :: "frame \<Rightarrow> frame_decoder \<Rightarrow> frame_decoder" where
  "count_decoded f d =
     d\<lparr>fd_frame_queue := fd_frame_queue d @ [f],
       fd_stats := (fd_stats d)\<lparr>ds_frames_decoded := ds_frames_decoded (fd_stats d) + 1\<rparr>,
       fd_expected_frame_size := None\<rparr>"

definition skip_corrupted :: "frame_decoder \<Rightarrow> frame_decoder" where
  "skip_corrupted d =
     (recover_from_corruption
        (d\<lparr>fd_stats := (fd_stats d)\<lparr>ds_corrupted_frames := ds_corrupted_frames (fd_stats d) + 1\<rparr>\<rparr>))
     \<lparr>fd_expected_frame_size := None\<rparr>"

definition count_incomplete :: "frame_decoder \<Rightarrow> frame_decoder" where
  "count_incomplete d =
     d\<lparr>fd_stats := (fd_stats d)\<lparr>ds_incomplete_frames := ds_incomplete_frames (fd_stats d) + 1\<rparr>\<rparr>"

lemma length_skip_corrupted: "length (fd_buffer (skip_corrupted d)) \<le> length (fd_buffer d)"
  by (simp add: skip_corrupted_def recover_from_corruption_def Let_def split: option.splits)

lemma decode_single_frame_consumes:
  assumes "decode_single_frame hasher d = (d1, r)"
    and "r = Ok f \<or> (\<exists>e. r = Err e \<and> is_corruption e)"
  shows "length (fd_buffer d1) < length (fd_buffer d)"
proof -
  obtain sz where sz: "fd_expected_frame_size d = Some sz"
    and d1: "d1 = d\<lparr>fd_buffer := drop sz (fd_buffer d)\<rparr>"
    and r: "r = deserialize hasher (take sz (fd_buffer d))"
    and le: "sz \<le> length (fd_buffer d)"
    using assms by (auto simp: decode_single_frame_def split: option.splits if_splits)
  from assms(2) have "40 \<le> length (take sz (fd_buffer d))"
    unfolding r by (rule deserialize_consumes)
  with d1 le show ?thesis by simp
qed

lemma decode_single_frame_shrinks:
  "(d1, Ok f) = decode_single_frame hasher (d\<lparr>fd_expected_frame_size := x\<rparr>) \<Longrightarrow>
     length (fd_buffer (count_decoded f d1)) < length (fd_buffer d)"
  "(d1, Err e) = decode_single_frame hasher (d\<lparr>fd_expected_frame_size := x\<rparr>) \<Longrightarrow>
     is_corruption e \<Longrightarrow> length (fd_buffer d1) < length (fd_buffer d)"
  using decode_single_frame_consumes[OF sym] by (fastforce simp: count_decoded_def)+

function decode_loop ::
  "slice_hasher \<Rightarrow> frame_decoder \<Rightarrow> usize \<Rightarrow> frame_decoder \<times> (usize, protocol_error) result" where
  "decode_loop hasher d n =
     (if length (fd_buffer d) < FRAME_HEADER_SIZE then (d, Ok n)
      else case (case fd_expected_frame_size d of
                   Some sz \<Rightarrow> Ok (Some sz)
                 | None \<Rightarrow> peek_frame_size d) of
        Err e \<Rightarrow> (d, Err e)
      | Panic \<Rightarrow> (d, Panic)
      | Ok None \<Rightarrow> (d, Ok n)
      | Ok (Some sz) \<Rightarrow>
          (let d0 = d\<lparr>fd_expected_frame_size := Some sz\<rparr> in
           if length (fd_buffer d0) \<ge> sz then
             (case decode_single_frame hasher d0 of
                (d1, Ok f) \<Rightarrow> decode_loop hasher (count_decoded f d1) (n + 1)
              | (d1, Err e) \<Rightarrow>
                  if is_corruption e then decode_loop hasher (skip_corrupted d1) n else (d1, Err e)
              | (d1, Panic) \<Rightarrow> (d1, Panic))
           else (count_incomplete d0, Ok n)))"
  by pat_completeness auto
termination
  by (relation "measure (\<lambda>(hasher, d, n). length (fd_buffer d))")
    (auto simp: decode_single_frame_shrinks le_less_trans[OF length_skip_corrupted])

declare decode_loop.simps [simp del]

definition absorb :: "bytes \<Rightarrow> frame_decoder \<Rightarrow> frame_decoder" where
  "absorb data d =
     (let b = fd_buffer d @ data in
      d\<lparr>fd_buffer := b,
        fd_stats := (fd_stats d)
          \<lparr>ds_bytes_processed := ds_bytes_processed (fd_stats d) + of_nat (length data),
           ds_buffer_size := length b,
           ds_peak_buffer_size := max (ds_peak_buffer_size (fd_stats d)) (length b)\<rparr>\<rparr>)"

definition decode_stream ::
  "slice_hasher \<Rightarrow> bytes \<Rightarrow> frame_decoder \<Rightarrow> frame_decoder \<times> (usize, protocol_error) result" where
  "decode_stream hasher data d = decode_loop hasher (absorb data d) 0"

definition decode ::
  "slice_hasher \<Rightarrow> bytes \<Rightarrow> frame_decoder
     \<Rightarrow> frame_decoder \<times> (frame option, protocol_error) result" where
  "decode hasher data d =
     (case decode_stream hasher data d of
        (d1, Ok count) \<Rightarrow>
          if count > 0 then (case next_frame d1 of (d2, f) \<Rightarrow> (d2, Ok f)) else (d1, Ok None)
      | (d1, Err e) \<Rightarrow> (d1, Err e)
      | (d1, Panic) \<Rightarrow> (d1, Panic))"

section \<open>Self-delimiting records\<close>

text \<open>
  What a stream decoder needs of the record format it cuts: a record is at least one header long,
  and the header alone determines its length. A sequence of such records can be cut in only one
  way, wherever the transport broke it.
\<close>

locale framing =
  fixes enc :: "'f \<Rightarrow> bytes"
    and good :: "'f \<Rightarrow> bool"
    and hdr :: nat
    and total :: "bytes \<Rightarrow> nat"
  assumes hdr_le: "hdr \<le> length (enc f)"
    and hdr_pos: "0 < hdr"
    and total_enc: "good f \<Longrightarrow> hdr \<le> length b \<Longrightarrow> b @ r = enc f @ s \<Longrightarrow> total b = length (enc f)"
    and enc_inj: "good f \<Longrightarrow> good g \<Longrightarrow> enc f = enc g \<Longrightarrow> f = g"
begin

abbreviation stream :: "'f list \<Rightarrow> bytes" where
  "stream fs \<equiv> concat (map enc fs)"

lemma cut_front:
  assumes "b @ r = enc f @ s" and "length (enc f) \<le> length b"
  obtains b' where "b = enc f @ b'" and "b' @ r = s"
proof -
  have "take (length (enc f)) (b @ r) = enc f" "drop (length (enc f)) (b @ r) = s"
    using assms(1) by simp_all
  then have "b = enc f @ drop (length (enc f)) b" "drop (length (enc f)) b @ r = s"
    using assms(2) by (simp_all, metis append_take_drop_id)
  then show thesis by (rule that)
qed

lemma nothing_pending:
  assumes "stream fs = b" and "fs = [] \<or> length b < length (enc (hd fs))"
  shows "fs = []"
  using assms by (cases fs) auto

lemma stream_Cons_nonempty: "stream (f # fs) \<noteq> []"
  using hdr_le[of f] hdr_pos by auto

lemma stream_unique:
  "\<lbrakk>list_all good fs; list_all good gs; stream fs = stream gs\<rbrakk> \<Longrightarrow> fs = gs"
proof (induction fs arbitrary: gs)
  case Nil
  then show ?case using stream_Cons_nonempty by (cases gs) auto
next
  case (Cons f fs)
  then obtain g gs' where gs: "gs = g # gs'" and good: "good f" "good g"
    using stream_Cons_nonempty[of f fs] by (cases gs) auto
  have eq: "enc f @ stream fs = enc g @ stream gs'" using Cons.prems gs by simp
  have "total (enc f @ stream fs) = length (enc f)"
    using good(1) hdr_le[of f] by (intro total_enc[of f _ "[]" "stream fs"]) auto
  moreover have "total (enc f @ stream fs) = length (enc g)"
  proof (rule total_enc[OF good(2)])
    show "hdr \<le> length (enc f @ stream fs)" using hdr_le[of f] by simp
    show "(enc f @ stream fs) @ [] = enc g @ stream gs'" using eq by simp
  qed
  ultimately have "enc f = enc g" "stream fs = stream gs'" using eq by auto
  with Cons gs good enc_inj show ?case by auto
qed

end

lemma hdr_payload_len_append: "40 \<le> length b \<Longrightarrow> hdr_payload_len (b @ r) = hdr_payload_len b"
  by (simp add: hdr_payload_len_def)

lemma hdr_payload_len_prefix:
  assumes "40 \<le> length b" and "b @ r = wire hasher f @ s"
  shows "hdr_payload_len b = payload_size f"
proof -
  have "take 4 (drop 32 b) = take 4 (drop 32 (b @ r))" using assms(1) by simp
  also have "\<dots> = be_bytes 4 (payload_size f)"
    unfolding assms(2) by (simp add: wire_def header_bytes_def)
  finally show ?thesis by (simp add: hdr_payload_len_def codec_simps)
qed

interpretation wire_framing:
  framing "wire hasher" wf_frame 40 "\<lambda>b. 40 + unat (hdr_payload_len b)" for hasher
proof
  fix f show "40 \<le> length (wire hasher f)" by (simp add: frame_size_def FRAME_HEADER_SIZE_def)
next
  fix f b r s assume "wf_frame f" and "40 \<le> length b" and "b @ r = wire hasher f @ s"
  then show "40 + unat (hdr_payload_len b) = length (wire hasher f)"
    by (simp add: hdr_payload_len_prefix unat_payload_size frame_size_def FRAME_HEADER_SIZE_def)
next
  fix f g assume "wf_frame f" "wf_frame g" "wire hasher f = wire hasher g"
  then show "f = g"
    using deserialize_wire[of f hasher "[]"] deserialize_wire[of g hasher "[]"] by simp
qed simp

section \<open>The encoder writes the stream of its batch\<close>

lemma extend_all_wire:
  "extend_all hasher fs buf = (buf @ concat (map (wire hasher) fs), Ok ())"
  by (induction fs arbitrary: buf) (simp_all add: serialize_wire)

lemma flush_batch_wire:
  "flush_batch hasher e =
     (if fe_batch e = [] then e else e\<lparr>fe_buffer := [], fe_batch := []\<rparr>,
      Ok (concat (map (wire hasher) (fe_batch e))))"
  by (simp add: flush_batch_def extend_all_wire)

section \<open>The decoder on a stream of frames\<close>

lemma peek_frame_size_eq:
  "peek_frame_size d =
     (if length (fd_buffer d) < 40 then Ok None
      else if hdr_payload_len (fd_buffer d) > MAX_PAYLOAD_SIZE
      then Err (PayloadTooLarge (hdr_payload_len (fd_buffer d)) MAX_PAYLOAD_SIZE)
      else if 40 + unat (hdr_payload_len (fd_buffer d)) > fd_max_frame_size d
      then Err (FrameTooLarge (40 + unat (hdr_payload_len (fd_buffer d))) (fd_max_frame_size d))
      else Ok (Some (40 + unat (hdr_payload_len (fd_buffer d)))))"
proof -
  have "take 4 (drop 32 b) = [b ! 32, b ! 33, b ! 34, b ! 35]" if "\<not> length b < 40" for b :: bytes
  proof -
    have "drop 32 b = b ! 32 # drop 33 b" "drop 33 b = b ! 33 # drop 34 b"
      "drop 34 b = b ! 34 # drop 35 b" "drop 35 b = b ! 35 # drop 36 b"
      using that Cons_nth_drop_Suc[of 32 b] Cons_nth_drop_Suc[of 33 b] Cons_nth_drop_Suc[of 34 b]
        Cons_nth_drop_Suc[of 35 b] by simp_all
    then show ?thesis by simp
  qed
  then show ?thesis
    by (simp add: peek_frame_size_def FRAME_HEADER_SIZE_def Let_def hdr_payload_len_def)
qed

definition admissible :: "frame_decoder \<Rightarrow> frame \<Rightarrow> bool" where
  "admissible d f = (wf_frame f \<and> frame_size f \<le> fd_max_frame_size d)"

lemma admissible_cong: "fd_max_frame_size d' = fd_max_frame_size d \<Longrightarrow> admissible d' = admissible d"
  by (rule ext) (simp add: admissible_def)

definition expects :: "frame_decoder \<Rightarrow> frame list \<Rightarrow> bool" where
  "expects d fs =
     (fd_expected_frame_size d = None
      \<or> fs \<noteq> [] \<and> fd_expected_frame_size d = Some (frame_size (hd fs)))"

lemma known_size:
  assumes "admissible d f" and "expects d (f # fs)" and "40 \<le> length (fd_buffer d)"
    and "fd_buffer d @ r = wire hasher f @ s"
  shows "(case fd_expected_frame_size d of Some sz \<Rightarrow> Ok (Some sz) | None \<Rightarrow> peek_frame_size d)
         = Ok (Some (frame_size f))"
proof (cases "fd_expected_frame_size d")
  case None
  have "hdr_payload_len (fd_buffer d) = payload_size f"
    by (rule hdr_payload_len_prefix[OF assms(3,4)])
  with None assms show ?thesis
    by (simp add: peek_frame_size_eq admissible_def payload_size_le unat_payload_size
        frame_size_def FRAME_HEADER_SIZE_def not_less)
next
  case (Some sz)
  with assms(2) show ?thesis by (simp add: expects_def)
qed

lemma decode_loop_frame:
  assumes "admissible d f" and "expects d (f # fs)" and "fd_buffer d = wire hasher f @ b"
  shows "decode_loop hasher d n =
    decode_loop hasher
      (count_decoded f (d\<lparr>fd_buffer := b, fd_expected_frame_size := Some (frame_size f)\<rparr>)) (n + 1)"
proof -
  have len: "40 \<le> length (fd_buffer d)"
    using assms(3) by (simp add: frame_size_def FRAME_HEADER_SIZE_def)
  have wf: "wf_frame f" using assms(1) by (simp add: admissible_def)
  have "decode_single_frame hasher (d\<lparr>fd_expected_frame_size := Some (frame_size f)\<rparr>)
      = (d\<lparr>fd_buffer := b, fd_expected_frame_size := Some (frame_size f)\<rparr>, Ok f)"
    using assms(3) deserialize_wire[OF wf, of hasher "[]"] by (simp add: decode_single_frame_def)
  with len known_size[OF assms(1,2) len, of "[]" hasher b] assms(3) show ?thesis
    by (subst decode_loop.simps) (simp add: FRAME_HEADER_SIZE_def)
qed

lemma decode_loop_partial:
  assumes "admissible d f" and "expects d (f # fs)"
    and "fd_buffer d @ r = wire hasher f @ s" and "length (fd_buffer d) < frame_size f"
  shows "\<exists>d'. decode_loop hasher d n = (d', Ok n) \<and> fd_buffer d' = fd_buffer d
          \<and> fd_frame_queue d' = fd_frame_queue d \<and> fd_max_frame_size d' = fd_max_frame_size d
          \<and> expects d' (f # fs)"
proof (cases "length (fd_buffer d) < 40")
  case True
  then show ?thesis
    using assms(2) by (subst decode_loop.simps) (simp add: FRAME_HEADER_SIZE_def)
next
  case False
  then have "40 \<le> length (fd_buffer d)" by simp
  from known_size[OF assms(1,2) this assms(3)] False assms(4) show ?thesis
    by (subst decode_loop.simps)
      (simp add: FRAME_HEADER_SIZE_def count_incomplete_def expects_def)
qed

lemma decode_loop_stream:
  assumes "fd_buffer d @ r = concat (map (wire hasher) fs)"
    and "list_all (admissible d) fs" and "expects d fs"
  shows "\<exists>d' done pending. fs = done @ pending \<and> decode_loop hasher d n = (d', Ok (n + length done))
           \<and> fd_frame_queue d' = fd_frame_queue d @ done
           \<and> fd_max_frame_size d' = fd_max_frame_size d
           \<and> fd_buffer d' @ r = concat (map (wire hasher) pending)
           \<and> expects d' pending
           \<and> (pending = [] \<or> length (fd_buffer d') < frame_size (hd pending))"
  using assms
proof (induction fs arbitrary: d n)
  case Nil
  then have "decode_loop hasher d n = (d, Ok n)"
    by (subst decode_loop.simps) (simp add: FRAME_HEADER_SIZE_def)
  with Nil show ?case by auto
next
  case (Cons f fs)
  then have adm: "admissible d f" and eq: "fd_buffer d @ r = wire hasher f @ concat (map (wire hasher) fs)"
    by simp_all
  show ?case
  proof (cases "length (fd_buffer d) < frame_size f")
    case True
    from decode_loop_partial[OF adm Cons.prems(3) eq True, of n] obtain d' where
      "decode_loop hasher d n = (d', Ok n)" "fd_buffer d' = fd_buffer d"
      "fd_frame_queue d' = fd_frame_queue d" "fd_max_frame_size d' = fd_max_frame_size d"
      "expects d' (f # fs)" by blast
    with True eq show ?thesis by (intro exI[of _ d'] exI[of _ "[]"] exI[of _ "f # fs"]) simp
  next
    case False
    then obtain b where b: "fd_buffer d = wire hasher f @ b" "b @ r = concat (map (wire hasher) fs)"
      using wire_framing.cut_front[OF eq] by (auto simp: not_less)
    let ?d = "count_decoded f (d\<lparr>fd_buffer := b, fd_expected_frame_size := Some (frame_size f)\<rparr>)"
    have "list_all (admissible ?d) fs" "expects ?d fs" "fd_buffer ?d @ r = concat (map (wire hasher) fs)"
      using Cons.prems(2) b admissible_cong[of ?d d] by (simp_all add: count_decoded_def expects_def)
    from Cons.IH[OF this(3,1,2), of "n + 1"] obtain d' dn pending where
      "fs = dn @ pending" "decode_loop hasher ?d (n + 1) = (d', Ok (n + 1 + length dn))"
      "fd_frame_queue d' = fd_frame_queue ?d @ dn" "fd_max_frame_size d' = fd_max_frame_size ?d"
      "fd_buffer d' @ r = concat (map (wire hasher) pending)" "expects d' pending"
      "pending = [] \<or> length (fd_buffer d') < frame_size (hd pending)" by blast
    moreover have "decode_loop hasher d n = decode_loop hasher ?d (n + 1)"
      by (rule decode_loop_frame[OF adm Cons.prems(3) b(1)])
    ultimately show ?thesis
      by (intro exI[of _ d'] exI[of _ "f # dn"] exI[of _ pending]) (simp add: count_decoded_def)
  qed
qed

lemma decode_stream_chunk:
  assumes "fd_buffer d @ chunk @ r = concat (map (wire hasher) fs)"
    and "list_all (admissible d) fs" and "expects d fs"
  shows "\<exists>d' done pending. fs = done @ pending
           \<and> decode_stream hasher chunk d = (d', Ok (length done))
           \<and> fd_frame_queue d' = fd_frame_queue d @ done
           \<and> fd_max_frame_size d' = fd_max_frame_size d
           \<and> fd_buffer d' @ r = concat (map (wire hasher) pending)
           \<and> expects d' pending
           \<and> (pending = [] \<or> length (fd_buffer d') < frame_size (hd pending))"
proof -
  let ?d = "absorb chunk d"
  have "fd_buffer ?d @ r = concat (map (wire hasher) fs)" "list_all (admissible ?d) fs"
    "expects ?d fs" "fd_frame_queue ?d = fd_frame_queue d" "fd_max_frame_size ?d = fd_max_frame_size d"
    using assms admissible_cong[of ?d d] by (simp_all add: absorb_def Let_def expects_def)
  with decode_loop_stream[of ?d r hasher fs 0] show ?thesis
    by (simp add: decode_stream_def)
qed

fun feed ::
  "slice_hasher \<Rightarrow> bytes list \<Rightarrow> frame_decoder \<Rightarrow> frame_decoder \<times> (usize, protocol_error) result" where
  "feed hasher [] d = (d, Ok 0)"
| "feed hasher (c # cs) d =
     (case decode_stream hasher c d of
        (d1, Ok k) \<Rightarrow>
          (case feed hasher cs d1 of
             (d2, Ok m) \<Rightarrow> (d2, Ok (k + m))
           | (d2, r) \<Rightarrow> (d2, r))
      | (d1, Err e) \<Rightarrow> (d1, Err e)
      | (d1, Panic) \<Rightarrow> (d1, Panic))"

lemma feed_stream:
  assumes "fd_buffer d @ concat chunks = concat (map (wire hasher) fs)"
    and "list_all (admissible d) fs" and "expects d fs"
    and "fs = [] \<or> length (fd_buffer d) < frame_size (hd fs)"
  shows "\<exists>d'. feed hasher chunks d = (d', Ok (length fs)) \<and> fd_buffer d' = []
              \<and> fd_frame_queue d' = fd_frame_queue d @ fs"
  using assms
proof (induction chunks arbitrary: d fs)
  case Nil
  then have eq: "concat (map (wire hasher) fs) = fd_buffer d" by simp
  have "fs = []" by (rule wire_framing.nothing_pending[OF eq]) (use Nil in auto)
  with Nil show ?case by simp
next
  case (Cons c cs)
  then obtain d1 dn pending where fs: "fs = dn @ pending"
    and step: "decode_stream hasher c d = (d1, Ok (length dn))"
    and q: "fd_frame_queue d1 = fd_frame_queue d @ dn"
    and mx: "fd_max_frame_size d1 = fd_max_frame_size d"
    and rest: "fd_buffer d1 @ concat cs = concat (map (wire hasher) pending)" "expects d1 pending"
      "pending = [] \<or> length (fd_buffer d1) < frame_size (hd pending)"
    using decode_stream_chunk[of d c "concat cs" hasher fs] by auto
  have "list_all (admissible d1) pending" using Cons.prems(2) fs admissible_cong[OF mx] by simp
  from Cons.IH[OF rest(1) this rest(2,3)] obtain d' where
    "feed hasher cs d1 = (d', Ok (length pending))" "fd_buffer d' = []"
    "fd_frame_queue d' = fd_frame_queue d1 @ pending" by blast
  with step q fs show ?case by simp
qed

section \<open>Properties\<close>

text \<open>
  C3: end to end, the encoder and the decoder agree on the stream whatever the transport does to
  its boundaries. If \<open>flush_batch\<close> of a batch of well-formed frames returns the bytes \<open>d\<close>, and
  these bytes reach a new decoder cut into any chunks (also empty ones, or one byte at a time),
  then every call of \<open>decode_stream\<close> succeeds, together they report as many frames as the batch
  had, the queue holds exactly these frames in order, and no byte is left in the buffer.
\<close>

theorem stream_roundtrip:
  assumes "list_all wf_frame (fe_batch e)" and "flush_batch hasher e = (e', Ok d)"
    and "concat chunks = d"
  shows "fe_batch e' = [] \<and>
         (\<exists>d'. feed hasher chunks decoder_new = (d', Ok (length (fe_batch e)))
            \<and> fd_frame_queue d' = fe_batch e \<and> fd_buffer d' = [])"
proof -
  have "list_all (admissible decoder_new) (fe_batch e)"
    using assms(1) by (auto simp: list_all_iff admissible_def decoder_new_def wf_frame_def
        frame_size_def MAX_FRAME_SIZE_def)
  moreover have "fd_buffer decoder_new @ concat chunks = concat (map (wire hasher) (fe_batch e))"
    using assms(2,3) by (simp add: flush_batch_wire decoder_new_def)
  ultimately have "\<exists>d'. feed hasher chunks decoder_new = (d', Ok (length (fe_batch e)))
      \<and> fd_buffer d' = [] \<and> fd_frame_queue d' = fd_frame_queue decoder_new @ fe_batch e"
    by (intro feed_stream) (auto simp: expects_def decoder_new_def frame_size_def
        FRAME_HEADER_SIZE_def)
  with assms(2) show ?thesis by (auto simp: flush_batch_wire decoder_new_def split: if_splits)
qed

definition sample_stream :: bytes where
  "sample_stream = wire (\<lambda>h p. 0) sample_frame @ wire (\<lambda>h p. 0) sample_frame"

theorem stream_roundtrip_witness:
  "\<exists>d'. feed (\<lambda>h p. 0) [take 50 sample_stream, [], drop 50 sample_stream] decoder_new = (d', Ok 2)
      \<and> fd_frame_queue d' = [sample_frame, sample_frame]"
proof -
  let ?e = "\<lparr>fe_buffer = [], fe_batch = [sample_frame, sample_frame], fe_max_batch_size = 100\<rparr>"
  have flush: "flush_batch (\<lambda>h p. 0) ?e = (?e\<lparr>fe_batch := []\<rparr>, Ok sample_stream)"
    by (simp add: flush_batch_wire sample_stream_def)
  have "list_all wf_frame (fe_batch ?e)" using sample_frame_wf by simp
  moreover have "concat [take 50 sample_stream, [], drop 50 sample_stream] = sample_stream" by simp
  moreover have "length (fe_batch ?e) = 2" by simp
  ultimately show ?thesis using stream_roundtrip[OF _ flush] by fastforce
qed

text \<open>
  the stream format is unambiguous. Two batches of well-formed frames that serialise to the
  same bytes are the same batch.
\<close>

theorem stream_unambiguous:
  assumes "list_all wf_frame fs" and "list_all wf_frame gs"
    and "extend_all hasher fs [] = extend_all hasher gs []"
  shows "fs = gs"
  using assms by (intro wire_framing.stream_unique[of fs gs hasher]) (auto simp: extend_all_wire)

theorem stream_unambiguous_witness:
  "list_all wf_frame [sample_frame] \<and> [sample_frame] = [sample_frame\<lparr>fr_sequence := 9\<rparr>]"
proof -
  have "sample_frame\<lparr>fr_sequence := 9\<rparr> = sample_frame" by (simp add: sample_frame_def)
  then show ?thesis
    using stream_unambiguous[of "[sample_frame]" "[sample_frame\<lparr>fr_sequence := 9\<rparr>]" "\<lambda>h p. 0"]
      sample_frame_wf by simp
qed

text \<open>
  resynchronisation. After a corrupted frame the decoder drops bytes up to the first magic
  sequence at an offset of at least one, and everything when there is none; the statistics count
  one corrupted frame and the expected size is forgotten.
\<close>

theorem skip_corrupted_resync:
  "let b = fd_buffer d; d' = skip_corrupted d in
     fd_expected_frame_size d' = None
     \<and> ds_corrupted_frames (fd_stats d') = ds_corrupted_frames (fd_stats d) + 1
     \<and> (if \<exists>i. 1 \<le> i \<and> i + 4 \<le> length b \<and> take 4 (drop i b) = PROTOCOL_MAGIC
        then fd_buffer d' = drop (LEAST i. 1 \<le> i \<and> i + 4 \<le> length b
                                    \<and> take 4 (drop i b) = PROTOCOL_MAGIC) b
        else fd_buffer d' = [])"
proof -
  define Q where "Q i = (take 4 (drop i (fd_buffer d)) = PROTOCOL_MAGIC)" for i
  have range: "i < length (fd_buffer d) - 3 \<longleftrightarrow> i + 4 \<le> length (fd_buffer d)" for i by auto
  show ?thesis
    using find_upt_None[of Q 1 "length (fd_buffer d) - 3"]
      find_upt_Some[of Q 1 "length (fd_buffer d) - 3"]
    unfolding range Q_def[symmetric]
    by (cases "find Q [1..<length (fd_buffer d) - 3]")
      (auto simp: skip_corrupted_def recover_from_corruption_def Let_def simp flip: Q_def)
qed

lemma decode_loop_short: "length (fd_buffer d) < 40 \<Longrightarrow> decode_loop hasher d n = (d, Ok n)"
  by (subst decode_loop.simps) (simp add: FRAME_HEADER_SIZE_def)

lemma decode_loop_corrupted:
  assumes "fd_expected_frame_size d = None" and "fd_buffer d = c @ b"
    and "length c = 40 + unat (hdr_payload_len c)" and "hdr_payload_len c \<le> MAX_PAYLOAD_SIZE"
    and "length c \<le> fd_max_frame_size d"
    and "deserialize hasher c = Err e" and "is_corruption e"
  shows "decode_loop hasher d n =
    decode_loop hasher
      (skip_corrupted (d\<lparr>fd_buffer := b, fd_expected_frame_size := Some (length c)\<rparr>)) n"
proof -
  have len: "40 \<le> length (fd_buffer d)" using assms(2,3) by simp
  have "hdr_payload_len (fd_buffer d) = hdr_payload_len c"
    using assms(2,3) by (simp add: hdr_payload_len_append)
  then have "peek_frame_size d = Ok (Some (length c))"
    using len assms(3-5) by (simp add: peek_frame_size_eq not_less)
  moreover have "decode_single_frame hasher (d\<lparr>fd_expected_frame_size := Some (length c)\<rparr>)
      = (d\<lparr>fd_buffer := b, fd_expected_frame_size := Some (length c)\<rparr>, Err e)"
    using assms(2,6) by (simp add: decode_single_frame_def)
  ultimately show ?thesis
    using len assms(1,2,7) by (subst decode_loop.simps) (simp add: FRAME_HEADER_SIZE_def)
qed

text \<open>
  resynchronisation loses the frame that follows the corrupted one. When a complete but
  corrupted frame \<open>c\<close> is directly followed by a valid frame whose bytes contain no further magic
  sequence, the decoder has already removed \<open>c\<close>, starts its search one byte into the valid frame
  and discards it: no frame is decoded and nothing is left to decode.
\<close>

theorem resync_drops_next_frame:
  assumes "length c = 40 + unat (hdr_payload_len c)" and "hdr_payload_len c \<le> MAX_PAYLOAD_SIZE"
    and "deserialize hasher c = Err e" and "is_corruption e"
    and "find (\<lambda>i. take 4 (drop i (wire hasher f)) = PROTOCOL_MAGIC) [1..<frame_size f - 3] = None"
  shows "\<exists>d'. decode_stream hasher (c @ wire hasher f) decoder_new = (d', Ok 0)
              \<and> fd_frame_queue d' = [] \<and> fd_buffer d' = []"
proof -
  let ?d = "absorb (c @ wire hasher f) decoder_new"
  have "length c \<le> fd_max_frame_size ?d"
    using assms(1,2) by (simp add: absorb_def decoder_new_def MAX_FRAME_SIZE_def
        FRAME_HEADER_SIZE_def word_le_nat_alt Let_def)
  with assms(1-4) have "decode_loop hasher ?d 0 = decode_loop hasher
      (skip_corrupted (?d\<lparr>fd_buffer := wire hasher f, fd_expected_frame_size := Some (length c)\<rparr>)) 0"
    by (intro decode_loop_corrupted) (simp_all add: absorb_def decoder_new_def Let_def)
  moreover have "fd_buffer (skip_corrupted (?d\<lparr>fd_buffer := wire hasher f,
      fd_expected_frame_size := Some (length c)\<rparr>)) = []"
    and "fd_frame_queue (skip_corrupted (?d\<lparr>fd_buffer := wire hasher f,
      fd_expected_frame_size := Some (length c)\<rparr>)) = []"
    using assms(5) by (simp_all add: skip_corrupted_def recover_from_corruption_def absorb_def
        decoder_new_def Let_def)
  ultimately show ?thesis by (simp add: decode_stream_def decode_loop_short)
qed

definition corrupt_sample :: bytes where
  "corrupt_sample = header_bytes sample_frame @ be_bytes 4 (1 :: u32) @ fr_payload sample_frame"

theorem resync_drops_next_frame_witness:
  "wf_frame sample_frame \<and>
   (\<exists>d'. decode_stream (\<lambda>h p. 0) (corrupt_sample @ wire (\<lambda>h p. 0) sample_frame) decoder_new = (d', Ok 0)
      \<and> fd_frame_queue d' = [] \<and> fd_buffer d' = [])"
proof (rule conjI[OF sample_frame_wf], rule resync_drops_next_frame)
  show "length corrupt_sample = 40 + unat (hdr_payload_len corrupt_sample)" by code_simp
  show "hdr_payload_len corrupt_sample \<le> MAX_PAYLOAD_SIZE" by code_simp
  show "deserialize (\<lambda>h p. 0) corrupt_sample = Err (ChecksumMismatch 1 0)" by code_simp
  show "find (\<lambda>i. take 4 (drop i (wire (\<lambda>h p. 0) sample_frame)) = PROTOCOL_MAGIC)
      [1..<frame_size sample_frame - 3] = None" by code_simp
qed simp

text \<open>
  an oversized length field is a sticky error. Once the buffered header announces a payload
  over the limit, every later call of \<open>decode_stream\<close> fails with the same error and only adds its
  bytes to the buffer; \<open>reset\<close> is the only operation that clears the condition.
\<close>

theorem oversized_header_sticky:
  assumes "fd_expected_frame_size d = None" and "40 \<le> length (fd_buffer d)"
    and "hdr_payload_len (fd_buffer d) > MAX_PAYLOAD_SIZE"
  shows "\<exists>d'. decode_stream hasher data d
            = (d', Err (PayloadTooLarge (hdr_payload_len (fd_buffer d)) MAX_PAYLOAD_SIZE))
          \<and> fd_buffer d' = fd_buffer d @ data \<and> fd_frame_queue d' = fd_frame_queue d
          \<and> fd_expected_frame_size d' = None
          \<and> hdr_payload_len (fd_buffer d') = hdr_payload_len (fd_buffer d)"
proof -
  have "hdr_payload_len (fd_buffer d @ data) = hdr_payload_len (fd_buffer d)"
    by (rule hdr_payload_len_append[OF assms(2)])
  with assms show ?thesis
    unfolding decode_stream_def
    by (subst decode_loop.simps)
      (simp add: absorb_def Let_def peek_frame_size_eq FRAME_HEADER_SIZE_def)
qed

theorem oversized_header_sticky_witness:
  "\<exists>d'. decode_stream (\<lambda>h p. 0) [7] (decoder_new\<lparr>fd_buffer := replicate 40 255\<rparr>)
      = (d', Err (PayloadTooLarge 0xFFFFFFFF MAX_PAYLOAD_SIZE))
    \<and> fd_buffer d' = replicate 40 255 @ [7]"
proof -
  let ?d = "decoder_new\<lparr>fd_buffer := replicate 40 255\<rparr>"
  have "hdr_payload_len (replicate 40 255) = 0xFFFFFFFF" by code_simp
  then have "hdr_payload_len (fd_buffer ?d) = 0xFFFFFFFF" by simp
  moreover from this have "hdr_payload_len (fd_buffer ?d) > MAX_PAYLOAD_SIZE"
    by (simp add: MAX_PAYLOAD_SIZE_def)
  moreover have "fd_expected_frame_size ?d = None" "40 \<le> length (fd_buffer ?d)"
    by (simp_all add: decoder_new_def)
  ultimately show ?thesis using oversized_header_sticky[of ?d "\<lambda>h p. 0" "[7]"] by auto
qed

lemma deserialize_truncated:
  assumes "wf_frame f" and "40 \<le> k" and "k < frame_size f"
  shows "deserialize hasher (take k (wire hasher f)) = Err (IncompleteFrame (frame_size f) k)"
proof -
  have fields: "take 4 (take k (wire hasher f)) = PROTOCOL_MAGIC"
    "be_word (take 1 (drop 4 (take k (wire hasher f)))) = PROTOCOL_VERSION"
    using assms(2) deserialize_OkD(2,3)[OF deserialize_wire[OF assms(1), of hasher "[]"]]
    by (simp_all add: drop_take)
  have len: "length (take k (wire hasher f)) = k" using assms(3) by simp
  have "hdr_payload_len (take k (wire hasher f)) = payload_size f"
    using assms(2,3) by (intro hdr_payload_len_prefix[of _ "drop k (wire hasher f)"]) auto
  then show ?thesis
    using assms deserialize_long[of "take k (wire hasher f)" hasher] unfolding len fields
    by (simp add: payload_size_le unat_payload_size not_less frame_size_def FRAME_HEADER_SIZE_def)
qed

text \<open>
  a frame of another protocol version poisons the decoder. The error is returned with the
  size of the rejected frame still recorded as the expected size, so a longer valid frame that
  arrives next is cut at the stale size, reported as incomplete, and lost.
\<close>

theorem version_error_poisons_decoder:
  assumes "length v = 40 + unat (hdr_payload_len v)" and "hdr_payload_len v \<le> MAX_PAYLOAD_SIZE"
    and "take 4 v = PROTOCOL_MAGIC" and "be_word (take 1 (drop 4 v)) \<noteq> PROTOCOL_VERSION"
    and "wf_frame f" and "length v < frame_size f"
  shows "\<exists>d1 d2. decode_stream hasher v decoder_new
           = (d1, Err (UnsupportedVersion (be_word (take 1 (drop 4 v))) PROTOCOL_VERSION))
         \<and> fd_buffer d1 = [] \<and> fd_expected_frame_size d1 = Some (length v)
         \<and> decode_stream hasher (wire hasher f) d1
           = (d2, Err (IncompleteFrame (frame_size f) (length v)))
         \<and> fd_frame_queue d2 = [] \<and> fd_buffer d2 = drop (length v) (wire hasher f)"
proof -
  let ?d0 = "absorb v decoder_new"
  let ?d1 = "?d0\<lparr>fd_buffer := [], fd_expected_frame_size := Some (length v)\<rparr>"
  have b0: "fd_buffer ?d0 = v" "fd_expected_frame_size ?d0 = None"
    "fd_max_frame_size ?d0 = MAX_FRAME_SIZE"
    by (simp_all add: absorb_def decoder_new_def Let_def)
  have "deserialize hasher v = Err (UnsupportedVersion (be_word (take 1 (drop 4 v))) PROTOCOL_VERSION)"
    using assms(1,3,4) by (simp add: deserialize_long)
  then have step1: "decode_stream hasher v decoder_new
      = (?d1, Err (UnsupportedVersion (be_word (take 1 (drop 4 v))) PROTOCOL_VERSION))"
    using assms(1,2) b0 unfolding decode_stream_def
    by (subst decode_loop.simps)
      (simp add: peek_frame_size_eq decode_single_frame_def frame_consts word_le_nat_alt not_less)
  have cut: "deserialize hasher (take (length v) (wire hasher f))
      = Err (IncompleteFrame (frame_size f) (length v))"
    using assms(1,5,6) by (intro deserialize_truncated) simp_all
  let ?d2 = "(absorb (wire hasher f) ?d1)\<lparr>fd_buffer := drop (length v) (wire hasher f)\<rparr>"
  have "decode_stream hasher (wire hasher f) ?d1
      = (?d2, Err (IncompleteFrame (frame_size f) (length v)))"
    unfolding decode_stream_def using cut assms(1,6)
    by (subst decode_loop.simps)
      (simp add: absorb_def Let_def decode_single_frame_def FRAME_HEADER_SIZE_def)
  with step1 show ?thesis
    by (intro exI[of _ ?d1] exI[of _ ?d2]) (simp add: absorb_def decoder_new_def Let_def)
qed

definition future_sample :: bytes where
  "future_sample = PROTOCOL_MAGIC @ [2] @ replicate 35 0"

theorem version_error_poisons_decoder_witness:
  "\<exists>d1 d2. decode_stream (\<lambda>h p. 0) future_sample decoder_new = (d1, Err (UnsupportedVersion 2 1))
     \<and> fd_expected_frame_size d1 = Some 40
     \<and> decode_stream (\<lambda>h p. 0) (wire (\<lambda>h p. 0) sample_frame) d1 = (d2, Err (IncompleteFrame 43 40))
     \<and> fd_frame_queue d2 = []"
proof -
  have v: "length future_sample = 40" "hdr_payload_len future_sample = 0"
    "take 4 future_sample = PROTOCOL_MAGIC" "be_word (take 1 (drop 4 future_sample)) = (2 :: u8)"
    by code_simp+
  have f: "frame_size sample_frame = 43" by code_simp
  have "length future_sample = 40 + unat (hdr_payload_len future_sample)"
    "hdr_payload_len future_sample \<le> MAX_PAYLOAD_SIZE"
    "be_word (take 1 (drop 4 future_sample)) \<noteq> PROTOCOL_VERSION"
    "length future_sample < frame_size sample_frame"
    using v f by (simp_all add: frame_consts)
  from version_error_poisons_decoder[OF this(1,2) v(3) this(3) sample_frame_wf this(4), of "\<lambda>h p. 0"]
  show ?thesis using v f by (simp add: PROTOCOL_VERSION_def) blast
qed

end
