(* ===== verification/Clocks.thy ===== *)
theory Clocks
  imports Prelude
begin

text \<open>
  The clocks of \<^verbatim>\<open>src/kaelix-cluster/src/time/mod.rs\<close>: Lamport clocks, vector clocks, hybrid
  logical clocks, version vectors and the clock synchroniser. A node id (a UUID) is a 128-bit
  word. What the code reads from the system clock is an argument, in nanoseconds relative to the
  Unix epoch; a \<open>Duration\<close> is a number of nanoseconds.
\<close>

type_synonym node_id = "128 word"
type_synonym system_time = int
type_synonym duration = nat
type_synonym instant = nat

datatype ordering = Less | Equal | Greater

definition cmp :: "'a::linorder \<Rightarrow> 'a \<Rightarrow> ordering" where
  "cmp a b = (if a < b then Less else if a = b then Equal else Greater)"

definition abs_diff :: "u64 \<Rightarrow> u64 \<Rightarrow> u64" where
  "abs_diff a b = (if a < b then b - a else a - b)"

section \<open>Timestamp utilities\<close>

definition duration_since :: "system_time \<Rightarrow> system_time \<Rightarrow> duration option" where
  "duration_since t base = (if base \<le> t then Some (nat (t - base)) else None)"

definition as_millis :: "duration \<Rightarrow> nat" where
  "as_millis d = d div 1000000"

definition duration_from_millis :: "u64 \<Rightarrow> duration" where
  "duration_from_millis ms = unat ms * 1000000"

definition or_zero :: "duration option \<Rightarrow> duration" where
  "or_zero d = (case d of None \<Rightarrow> 0 | Some x \<Rightarrow> x)"

definition system_time_millis :: "system_time \<Rightarrow> u64" where
  "system_time_millis now = of_nat (as_millis (or_zero (duration_since now 0)))"

definition system_time_micros :: "system_time \<Rightarrow> u64" where
  "system_time_micros now = of_nat (or_zero (duration_since now 0) div 1000)"

definition millis_to_system_time :: "u64 \<Rightarrow> system_time" where
  "millis_to_system_time ms = int (duration_from_millis ms)"

definition system_time_to_millis :: "system_time \<Rightarrow> u64" where
  "system_time_to_millis t = of_nat (as_millis (or_zero (duration_since t 0)))"

definition ts_time_diff_millis :: "system_time \<Rightarrow> system_time \<Rightarrow> u64" where
  "ts_time_diff_millis a b =
     of_nat (as_millis (case duration_since a b of
        Some d \<Rightarrow> d
      | None \<Rightarrow> or_zero (duration_since b a)))"

definition is_valid_time :: "system_time \<Rightarrow> system_time \<Rightarrow> bool" where
  "is_valid_time now t =
     (let year = 365 * 24 * 60 * 60 * 1000000000 in now - year < t \<and> t < now + year)"

section \<open>Logical clock\<close>

record logical_clock =
  lc_counter :: u64

definition logical_new :: logical_clock where
  "logical_new = \<lparr>lc_counter = 0\<rparr>"

definition logical_with_timestamp :: "u64 \<Rightarrow> logical_clock" where
  "logical_with_timestamp ts = \<lparr>lc_counter = ts\<rparr>"

definition logical_tick :: "logical_clock \<Rightarrow> logical_clock \<times> u64" where
  "logical_tick c = (c\<lparr>lc_counter := lc_counter c + 1\<rparr>, lc_counter c + 1)"

definition logical_update :: "u64 \<Rightarrow> logical_clock \<Rightarrow> logical_clock \<times> u64" where
  "logical_update received c =
     (let current = lc_counter c;
          new_value = max received current + 1
      in (c\<lparr>lc_counter := new_value\<rparr>, new_value))"

definition logical_reset :: "u64 \<Rightarrow> logical_clock \<Rightarrow> logical_clock" where
  "logical_reset ts c = c\<lparr>lc_counter := ts\<rparr>"

definition logical_compare :: "u64 \<Rightarrow> u64 \<Rightarrow> ordering" where
  "logical_compare a b = cmp a b"

definition logical_clone :: "logical_clock \<Rightarrow> logical_clock" where
  "logical_clone c = logical_with_timestamp (lc_counter c)"

section \<open>Vector clocks\<close>

datatype causality = CBefore | CAfter | CEqual | CConcurrent

fun causality_display :: "causality \<Rightarrow> string" where
  "causality_display CBefore = ''before''"
| "causality_display CAfter = ''after''"
| "causality_display CEqual = ''equal''"
| "causality_display CConcurrent = ''concurrent''"

record vector_clock =
  vc_node_id :: node_id
  vc_vector :: "(node_id, u64) hash_map"

definition vc_new :: "node_id \<Rightarrow> vector_clock" where
  "vc_new n = \<lparr>vc_node_id = n, vc_vector = hm_insert n 0 []\<rparr>"

definition vc_with_nodes :: "node_id \<Rightarrow> node_id list \<Rightarrow> vector_clock" where
  "vc_with_nodes n nodes =
     \<lparr>vc_node_id = n,
      vc_vector = hm_insert n 0 (foldl (\<lambda>v node. hm_insert node 0 v) [] nodes)\<rparr>"

definition vc_tick :: "vector_clock \<Rightarrow> vector_clock \<times> u64" where
  "vc_tick c =
     (let v = hm_get_or 0 (vc_vector c) (vc_node_id c) + 1
      in (c\<lparr>vc_vector := hm_insert (vc_node_id c) v (vc_vector c)\<rparr>, v))"

fun merge_entries ::
  "(node_id, u64) hash_map \<Rightarrow> (node_id \<times> u64) list \<Rightarrow> (node_id, u64) hash_map" where
  "merge_entries v [] = v"
| "merge_entries v ((node, ts) # es) =
     merge_entries (hm_insert node (max (hm_get_or 0 v node) ts) v) es"

definition vc_update :: "vector_clock \<Rightarrow> vector_clock \<Rightarrow> vector_clock" where
  "vc_update c other =
     fst (vc_tick (c\<lparr>vc_vector := merge_entries (vc_vector c) (vc_vector other)\<rparr>))"

definition vc_merge :: "vector_clock \<Rightarrow> vector_clock \<Rightarrow> vector_clock" where
  "vc_merge c other = c\<lparr>vc_vector := merge_entries (vc_vector c) (vc_vector other)\<rparr>"

definition compare_node ::
  "(node_id, u64) hash_map \<Rightarrow> (node_id, u64) hash_map \<Rightarrow> bool \<times> bool \<Rightarrow> node_id \<Rightarrow> bool \<times> bool" where
  "compare_node v w s n =
     (case s of (self_less, self_greater) \<Rightarrow>
        case cmp (hm_get_or 0 v n) (hm_get_or 0 w n) of
          Less \<Rightarrow> (True, self_greater)
        | Greater \<Rightarrow> (self_less, True)
        | Equal \<Rightarrow> (self_less, self_greater))"

definition vc_compare :: "vector_clock \<Rightarrow> vector_clock \<Rightarrow> causality" where
  "vc_compare c other =
     (let all_nodes = remdups (hm_keys (vc_vector c) @ hm_keys (vc_vector other));
          s = foldl (compare_node (vc_vector c) (vc_vector other)) (False, False) all_nodes
      in case s of
           (True, False) \<Rightarrow> CBefore
         | (False, True) \<Rightarrow> CAfter
         | (False, False) \<Rightarrow> CEqual
         | (True, True) \<Rightarrow> CConcurrent)"

definition vc_get_timestamp :: "vector_clock \<Rightarrow> node_id \<Rightarrow> u64" where
  "vc_get_timestamp c n = hm_get_or 0 (vc_vector c) n"

definition vc_nodes :: "vector_clock \<Rightarrow> node_id list" where
  "vc_nodes c = hm_keys (vc_vector c)"

definition vc_dominates :: "vector_clock \<Rightarrow> vector_clock \<Rightarrow> bool" where
  "vc_dominates c other = (vc_compare c other = CAfter)"

definition vc_is_concurrent :: "vector_clock \<Rightarrow> vector_clock \<Rightarrow> bool" where
  "vc_is_concurrent c other = (vc_compare c other = CConcurrent)"

definition vc_incremented :: "vector_clock \<Rightarrow> vector_clock" where
  "vc_incremented c = fst (vc_tick c)"

definition compare_causality :: "vector_clock \<Rightarrow> vector_clock \<Rightarrow> causality" where
  "compare_causality a b = vc_compare a b"

section \<open>Hybrid logical clock\<close>

datatype hlc = HLC (physical_time: u64) (logical_time: u64)

definition MAX_CLOCK_DRIFT_MS :: u64 where
  "MAX_CLOCK_DRIFT_MS = 60000"

definition hlc_now :: "system_time \<Rightarrow> hlc" where
  "hlc_now now = HLC (system_time_millis now) 0"

definition hlc_with_time :: "u64 \<Rightarrow> hlc" where
  "hlc_with_time pt = HLC pt 0"

definition hlc_tick :: "system_time \<Rightarrow> hlc \<Rightarrow> hlc" where
  "hlc_tick now c =
     (let current_physical = system_time_millis now in
      if current_physical > physical_time c then HLC current_physical 0
      else HLC (physical_time c) (logical_time c + 1))"

definition hlc_update :: "system_time \<Rightarrow> hlc \<Rightarrow> hlc \<Rightarrow> hlc" where
  "hlc_update now received c =
     (let current_physical = system_time_millis now;
          max_physical = max current_physical (physical_time received)
      in if max_physical > physical_time c
         then HLC max_physical
                (if max_physical = physical_time received then logical_time received + 1 else 0)
         else if max_physical = physical_time c
         then HLC (physical_time c) (max (logical_time c) (logical_time received) + 1)
         else c)"

definition hlc_compare :: "hlc \<Rightarrow> hlc \<Rightarrow> ordering" where
  "hlc_compare a b =
     (case cmp (physical_time a) (physical_time b) of
        Equal \<Rightarrow> cmp (logical_time a) (logical_time b)
      | ord \<Rightarrow> ord)"

definition hlc_is_valid_drift :: "system_time \<Rightarrow> hlc \<Rightarrow> bool" where
  "hlc_is_valid_drift now c =
     (abs_diff (physical_time c) (system_time_millis now) \<le> MAX_CLOCK_DRIFT_MS)"

definition hlc_to_u128 :: "hlc \<Rightarrow> u128" where
  "hlc_to_u128 c = push_bit 64 (ucast (physical_time c)) OR ucast (logical_time c)"

definition hlc_from_u128 :: "u128 \<Rightarrow> hlc" where
  "hlc_from_u128 v = HLC (ucast (drop_bit 64 v)) (ucast (v AND 0xFFFFFFFFFFFFFFFF))"

definition hlc_time_diff_millis :: "hlc \<Rightarrow> hlc \<Rightarrow> u64" where
  "hlc_time_diff_millis a b = abs_diff (physical_time a) (physical_time b)"

definition hlc_age_millis :: "system_time \<Rightarrow> hlc \<Rightarrow> u64" where
  "hlc_age_millis now c = saturating_sub (system_time_millis now) (physical_time c)"

section \<open>Version vectors\<close>

record version_vector =
  vv_versions :: "(node_id, u64) hash_map"

definition vv_new :: version_vector where
  "vv_new = \<lparr>vv_versions = []\<rparr>"

definition vv_with_versions :: "(node_id, u64) hash_map \<Rightarrow> version_vector" where
  "vv_with_versions vs = \<lparr>vv_versions = vs\<rparr>"

definition vv_set_version :: "node_id \<Rightarrow> u64 \<Rightarrow> version_vector \<Rightarrow> version_vector" where
  "vv_set_version n v x = x\<lparr>vv_versions := hm_insert n v (vv_versions x)\<rparr>"

definition vv_get_version :: "version_vector \<Rightarrow> node_id \<Rightarrow> u64" where
  "vv_get_version x n = hm_get_or 0 (vv_versions x) n"

definition vv_increment :: "node_id \<Rightarrow> version_vector \<Rightarrow> version_vector \<times> u64" where
  "vv_increment n x =
     (let v = hm_get_or 0 (vv_versions x) n + 1
      in (x\<lparr>vv_versions := hm_insert n v (vv_versions x)\<rparr>, v))"

definition vv_is_descendant_of :: "version_vector \<Rightarrow> version_vector \<Rightarrow> bool" where
  "vv_is_descendant_of x other =
     list_all (\<lambda>(n, other_version). \<not> vv_get_version x n < other_version) (vv_versions other)"

definition vv_is_ancestor_of :: "version_vector \<Rightarrow> version_vector \<Rightarrow> bool" where
  "vv_is_ancestor_of x other = vv_is_descendant_of other x"

definition vv_diff :: "version_vector \<Rightarrow> version_vector \<Rightarrow> node_id list" where
  "vv_diff x other =
     filter (\<lambda>n. vv_get_version x n \<noteq> vv_get_version other n)
       (remdups (hm_keys (vv_versions x) @ hm_keys (vv_versions other)))"

definition vv_merge :: "version_vector \<Rightarrow> version_vector \<Rightarrow> version_vector" where
  "vv_merge x other = x\<lparr>vv_versions := merge_entries (vv_versions x) (vv_versions other)\<rparr>"

definition vv_nodes :: "version_vector \<Rightarrow> node_id list" where
  "vv_nodes x = hm_keys (vv_versions x)"

definition vv_is_empty :: "version_vector \<Rightarrow> bool" where
  "vv_is_empty x = (vv_versions x = [])"

definition vv_len :: "version_vector \<Rightarrow> usize" where
  "vv_len x = length (vv_versions x)"

definition vv_compare :: "version_vector \<Rightarrow> version_vector \<Rightarrow> causality" where
  "vv_compare x other =
     (case (vv_is_descendant_of x other, vv_is_descendant_of other x) of
        (True, True) \<Rightarrow> CEqual
      | (True, False) \<Rightarrow> CAfter
      | (False, True) \<Rightarrow> CBefore
      | (False, False) \<Rightarrow> CConcurrent)"

definition vv_total_versions :: "version_vector \<Rightarrow> u64" where
  "vv_total_versions x = sum_list (map snd (vv_versions x))"

section \<open>Clock synchroniser\<close>

record clock_synchronizer =
  cs_local_clock :: hlc
  cs_peer_clocks :: "(node_id, hlc) hash_map"
  cs_drift_threshold :: duration
  cs_last_sync :: system_time
  cs_sync_interval :: duration

definition DEFAULT_SYNC_INTERVAL :: duration where
  "DEFAULT_SYNC_INTERVAL = 30 * 1000000000"

definition cs_with_drift_threshold :: "system_time \<Rightarrow> duration \<Rightarrow> clock_synchronizer" where
  "cs_with_drift_threshold now threshold =
     \<lparr>cs_local_clock = hlc_now now, cs_peer_clocks = [], cs_drift_threshold = threshold,
      cs_last_sync = now, cs_sync_interval = DEFAULT_SYNC_INTERVAL\<rparr>"

definition cs_new :: "system_time \<Rightarrow> clock_synchronizer" where
  "cs_new now =
     \<lparr>cs_local_clock = hlc_now now, cs_peer_clocks = [],
      cs_drift_threshold = duration_from_millis MAX_CLOCK_DRIFT_MS,
      cs_last_sync = now, cs_sync_interval = DEFAULT_SYNC_INTERVAL\<rparr>"

definition cs_tick :: "system_time \<Rightarrow> clock_synchronizer \<Rightarrow> clock_synchronizer \<times> hlc" where
  "cs_tick now s =
     (let c = hlc_tick now (cs_local_clock s) in (s\<lparr>cs_local_clock := c\<rparr>, c))"

definition cs_sync_with_peer ::
  "system_time \<Rightarrow> node_id \<Rightarrow> hlc \<Rightarrow> clock_synchronizer \<Rightarrow> clock_synchronizer" where
  "cs_sync_with_peer now peer_id peer_clock s =
     s\<lparr>cs_local_clock := hlc_update now peer_clock (cs_local_clock s),
       cs_peer_clocks := hm_insert peer_id peer_clock (cs_peer_clocks s),
       cs_last_sync := now\<rparr>"

definition cs_needs_sync :: "system_time \<Rightarrow> clock_synchronizer \<Rightarrow> bool" where
  "cs_needs_sync now s = (or_zero (duration_since now (cs_last_sync s)) > cs_sync_interval s)"

definition cs_detect_drift :: "clock_synchronizer \<Rightarrow> (node_id \<times> duration) list" where
  "cs_detect_drift s =
     (let local_time = physical_time (cs_local_clock s) in
      filter (\<lambda>(p, d). d > cs_drift_threshold s)
        (map (\<lambda>(p, c). (p, duration_from_millis (abs_diff local_time (physical_time c))))
           (cs_peer_clocks s)))"

record sync_stats =
  ss_peer_count :: usize
  ss_drift_issues :: usize
  ss_max_drift :: duration
  ss_last_sync_age :: duration
  ss_needs_sync :: bool

definition cs_sync_stats :: "system_time \<Rightarrow> clock_synchronizer \<Rightarrow> sync_stats" where
  "cs_sync_stats now s =
     (let drift_info = cs_detect_drift s in
      \<lparr>ss_peer_count = length (cs_peer_clocks s),
       ss_drift_issues = length drift_info,
       ss_max_drift = foldl max 0 (map snd drift_info),
       ss_last_sync_age = or_zero (duration_since now (cs_last_sync s)),
       ss_needs_sync = cs_needs_sync now s\<rparr>)"

definition cs_reset :: "system_time \<Rightarrow> clock_synchronizer \<Rightarrow> clock_synchronizer" where
  "cs_reset now s = s\<lparr>cs_local_clock := hlc_now now, cs_peer_clocks := [], cs_last_sync := now\<rparr>"

definition cs_remove_peer :: "node_id \<Rightarrow> clock_synchronizer \<Rightarrow> clock_synchronizer \<times> hlc option" where
  "cs_remove_peer p s =
     (s\<lparr>cs_peer_clocks := hm_remove p (cs_peer_clocks s)\<rparr>, hm_get (cs_peer_clocks s) p)"

definition cs_set_drift_threshold :: "duration \<Rightarrow> clock_synchronizer \<Rightarrow> clock_synchronizer" where
  "cs_set_drift_threshold t s = s\<lparr>cs_drift_threshold := t\<rparr>"

section \<open>Comparing clocks\<close>

text \<open>
  What a client may rely on when it compares two clocks: the verdict is the pointwise order of the
  timestamps they give to the nodes. Everything else about comparisons follows from that.
\<close>

fun flip :: "causality \<Rightarrow> causality" where
  "flip CBefore = CAfter"
| "flip CAfter = CBefore"
| "flip CEqual = CEqual"
| "flip CConcurrent = CConcurrent"

definition pointwise :: "('n \<Rightarrow> u64) \<Rightarrow> ('n \<Rightarrow> u64) \<Rightarrow> causality" where
  "pointwise f g =
     (if f = g then CEqual else if f \<le> g then CBefore else if g \<le> f then CAfter
      else CConcurrent)"

locale causal_compare =
  fixes stamp :: "'c \<Rightarrow> node_id \<Rightarrow> u64"
    and compare :: "'c \<Rightarrow> 'c \<Rightarrow> causality"
    and good :: "'c \<Rightarrow> bool"
  assumes compare_pointwise: "good a \<Longrightarrow> good b \<Longrightarrow> compare a b = pointwise (stamp a) (stamp b)"
begin

lemma compare_flip: "good a \<Longrightarrow> good b \<Longrightarrow> compare b a = flip (compare a b)"
  by (auto simp: compare_pointwise pointwise_def)

lemma compare_Before_iff: "good a \<Longrightarrow> good b \<Longrightarrow> compare a b = CBefore \<longleftrightarrow> stamp a < stamp b"
  by (auto simp: compare_pointwise pointwise_def)

lemma compare_Equal_iff: "good a \<Longrightarrow> good b \<Longrightarrow> compare a b = CEqual \<longleftrightarrow> stamp a = stamp b"
  by (auto simp: compare_pointwise pointwise_def)

lemma before_trans:
  "\<lbrakk>good a; good b; good c; compare a b = CBefore; compare b c = CBefore\<rbrakk> \<Longrightarrow> compare a c = CBefore"
  by (simp add: compare_Before_iff)

end

lemma foldl_compare_node:
  "foldl (compare_node v w) (l, g) ns =
     (l \<or> (\<exists>n\<in>set ns. hm_get_or 0 v n < hm_get_or 0 w n),
      g \<or> (\<exists>n\<in>set ns. hm_get_or 0 w n < hm_get_or 0 v n))"
  by (induction ns arbitrary: l g) (auto simp: compare_node_def cmp_def)

lemma stamps_off_domain:
  "n \<notin> set (hm_keys v) \<Longrightarrow> hm_get_or d v n = d"
  by (auto simp: set_hm_keys hm_get_or_def split: option.splits)

lemma less_at_key:
  "(\<exists>n\<in>set (hm_keys v) \<union> set (hm_keys w). hm_get_or 0 v n < (hm_get_or 0 w n :: u64))
     \<longleftrightarrow> \<not> hm_get_or 0 w \<le> hm_get_or 0 v"
  using stamps_off_domain[of _ v "0 :: u64"] stamps_off_domain[of _ w "0 :: u64"]
  by (auto simp: le_fun_def not_le)

lemma vc_compare_pointwise:
  "vc_compare a b = pointwise (vc_get_timestamp a) (vc_get_timestamp b)"
proof -
  have stamp: "vc_get_timestamp c = hm_get_or 0 (vc_vector c)" for c
    by (rule ext) (simp add: vc_get_timestamp_def)
  show ?thesis
    using less_at_key[of "vc_vector a" "vc_vector b"] less_at_key[of "vc_vector b" "vc_vector a"]
    by (auto simp: vc_compare_def foldl_compare_node pointwise_def stamp Un_commute
        split: bool.splits)
qed

interpretation vc_causal: causal_compare vc_get_timestamp vc_compare "\<lambda>c. True"
  by unfold_locales (rule vc_compare_pointwise)

lemma vv_descendant_pointwise:
  assumes "hm_ok (vv_versions b)"
  shows "vv_is_descendant_of a b \<longleftrightarrow> vv_get_version b \<le> vv_get_version a"
proof -
  have "vv_is_descendant_of a b \<longleftrightarrow> (\<forall>n v. map_of (vv_versions b) n = Some v \<longrightarrow> v \<le> vv_get_version a n)"
    using hm_entry[OF assms] by (force simp: vv_is_descendant_of_def list_all_iff not_less)
  then show ?thesis
    by (auto simp: vv_get_version_def hm_get_or_def le_fun_def split: option.splits)
qed

interpretation vv_causal: causal_compare vv_get_version vv_compare "\<lambda>x. hm_ok (vv_versions x)"
  by unfold_locales
    (auto simp: vv_compare_def pointwise_def vv_descendant_pointwise split: bool.splits)

section \<open>Merging clocks\<close>

lemma merge_entries_get:
  "hm_ok es \<Longrightarrow> hm_get_or 0 (merge_entries v es) n = max (hm_get_or 0 v n) (hm_get_or 0 es n)"
proof (induction v es rule: merge_entries.induct)
  case (1 v)
  then show ?case by (simp add: hm_get_or_def)
next
  case (2 v node ts es)
  have "map_of es node = None" using 2(2) by (simp add: hm_ok_def map_of_eq_None_iff)
  moreover have "hm_ok es" using 2(2) by (simp add: hm_ok_def)
  ultimately show ?case using 2(1) by (auto simp: hm_get_or_def max.assoc)
qed

lemma merge_entries_ok: "hm_ok v \<Longrightarrow> hm_ok (merge_entries v es)"
  by (induction v es rule: merge_entries.induct) auto

lemma vc_merge_get:
  "hm_ok (vc_vector b) \<Longrightarrow>
     vc_get_timestamp (vc_merge a b) n = max (vc_get_timestamp a n) (vc_get_timestamp b n)"
  by (simp add: vc_merge_def vc_get_timestamp_def merge_entries_get)

lemma vc_tick_get:
  "vc_get_timestamp (fst (vc_tick c)) n =
     vc_get_timestamp c n + (if n = vc_node_id c then 1 else 0)"
  by (simp add: vc_tick_def vc_get_timestamp_def Let_def)

lemma vc_update_eq: "vc_update c other = fst (vc_tick (vc_merge c other))"
  by (simp add: vc_update_def vc_merge_def)

definition vc_ok :: "vector_clock \<Rightarrow> bool" where
  "vc_ok c = hm_ok (vc_vector c)"

lemma vc_ok_ops:
  "vc_ok (vc_new n)"
  "vc_ok c \<Longrightarrow> vc_ok (fst (vc_tick c))"
  "vc_ok c \<Longrightarrow> vc_ok (vc_merge c other)"
  "vc_ok c \<Longrightarrow> vc_ok (vc_update c other)"
  by (simp_all add: vc_ok_def vc_new_def vc_tick_def vc_merge_def vc_update_def Let_def
      merge_entries_ok)

lemma vc_node_id_ops [simp]:
  "vc_node_id (vc_new n) = n"
  "vc_node_id (fst (vc_tick c)) = vc_node_id c"
  "vc_node_id (vc_merge c other) = vc_node_id c"
  "vc_node_id (vc_update c other) = vc_node_id c"
  by (simp_all add: vc_new_def vc_tick_def vc_merge_def vc_update_def Let_def)

section \<open>The order of hybrid timestamps\<close>

instantiation hlc :: linorder
begin

definition less_eq_hlc :: "hlc \<Rightarrow> hlc \<Rightarrow> bool" where
  "less_eq_hlc a b \<longleftrightarrow>
     physical_time a < physical_time b
     \<or> physical_time a = physical_time b \<and> logical_time a \<le> logical_time b"

definition less_hlc :: "hlc \<Rightarrow> hlc \<Rightarrow> bool" where
  "less_hlc a b \<longleftrightarrow>
     physical_time a < physical_time b
     \<or> physical_time a = physical_time b \<and> logical_time a < logical_time b"

instance
  by standard (auto simp: less_eq_hlc_def less_hlc_def intro: hlc.expand)

end

lemma hlc_compare_cmp: "hlc_compare a b = cmp a b"
  by (auto simp: hlc_compare_def cmp_def less_hlc_def intro: hlc.expand)

lemma unat_hlc_to_u128:
  "unat (hlc_to_u128 c) = unat (physical_time c) * 2 ^ 64 + unat (logical_time c)"
proof -
  let ?p = "ucast (physical_time c) :: u128" and ?l = "ucast (logical_time c) :: u128"
  have "push_bit 64 ?p OR ?l = push_bit 64 ?p + ?l"
    by (rule disjunctive_add[symmetric]) (auto simp: bit_simps dest: bit_imp_le_length)
  also have "\<dots> = of_nat (unat (physical_time c) * 2 ^ 64 + unat (logical_time c))"
    by (simp add: push_bit_eq_mult unsigned_of_nat word_of_nat_eq_iff)
  finally have eq: "hlc_to_u128 c = of_nat (unat (physical_time c) * 2 ^ 64 + unat (logical_time c))"
    by (simp add: hlc_to_u128_def)
  have "unat (physical_time c) * 2 ^ 64 + unat (logical_time c) < 2 ^ 128"
    using unsigned_less[of "physical_time c", where 'a = nat] unsigned_less[of "logical_time c", where 'a = nat]
    by simp
  then show ?thesis unfolding eq by (simp only: unat_of_nat) simp
qed

lemma hlc_u128_roundtrip:
  "hlc_from_u128 (hlc_to_u128 a) = a" "hlc_to_u128 (hlc_from_u128 v) = v"
proof -
  have mask: "(0xFFFFFFFFFFFFFFFF :: u128) = mask 64" by (simp add: mask_eq_exp_minus_1)
  have high: "\<not> bit (w :: u64) (64 + n)" for w n using bit_imp_le_length[of w "64 + n"] by auto
  show "hlc_from_u128 (hlc_to_u128 a) = a"
    unfolding hlc_from_u128_def hlc_to_u128_def mask
    by (intro hlc.expand) (auto intro!: bit_eqI simp: bit_simps high)
  show "hlc_to_u128 (hlc_from_u128 v) = v"
    unfolding hlc_from_u128_def hlc_to_u128_def mask
    by (auto intro!: bit_eqI simp: bit_simps dest: bit_imp_le_length)
qed

lemma lex_nat: "p * k + l < q * k + m \<longleftrightarrow> p < q \<or> p = q \<and> l < m"
  if "l < k" and "m < k" for p q l m k :: nat
proof -
  have "p < q \<Longrightarrow> p * k + l < q * k + m"
    using mult_le_mono1[of "Suc p" q k] that by simp
  moreover have "q < p \<Longrightarrow> q * k + m < p * k + l"
    using mult_le_mono1[of "Suc q" p k] that by simp
  ultimately show ?thesis by (cases p q rule: linorder_cases) auto
qed

lemma hlc_to_u128_less: "hlc_to_u128 a < hlc_to_u128 b \<longleftrightarrow> a < b"
proof -
  have bound: "unat (w :: u64) < 2 ^ 64" for w
    using unsigned_less[of w, where 'a = nat] by simp
  show ?thesis
    unfolding word_less_nat_alt less_hlc_def unat_hlc_to_u128 lex_nat[OF bound bound]
    by (simp add: word_unat_eq_iff)
qed

section \<open>Threads sharing a logical clock\<close>

text \<open>
  \<open>tick\<close> is one atomic \<open>fetch_add\<close>; \<open>update\<close> is a load and a later store, between which other
  threads may run. A shared state holds the counter, the value each thread inside \<open>update\<close> is about
  to store, and the timestamps handed out so far, oldest first.
\<close>

record shared_clock =
  sc_counter :: u64
  sc_pending :: "nat \<Rightarrow> u64 option"
  sc_issued :: "u64 list"

definition shared_init :: shared_clock where
  "shared_init = \<lparr>sc_counter = 0, sc_pending = (\<lambda>t. None), sc_issued = []\<rparr>"

inductive clock_step :: "shared_clock \<Rightarrow> shared_clock \<Rightarrow> bool" where
  tick_step: "sc_pending s t = None \<Longrightarrow>
    clock_step s (s\<lparr>sc_counter := sc_counter s + 1, sc_issued := sc_issued s @ [sc_counter s + 1]\<rparr>)"
| load_step: "sc_pending s t = None \<Longrightarrow>
    clock_step s (s\<lparr>sc_pending := (sc_pending s)(t \<mapsto> max received (sc_counter s) + 1)\<rparr>)"
| store_step: "sc_pending s t = Some v \<Longrightarrow>
    clock_step s (s\<lparr>sc_counter := v, sc_pending := (sc_pending s)(t := None),
                    sc_issued := sc_issued s @ [v]\<rparr>)"

datatype clock_op = Tick | Update u64

fun run_clock :: "clock_op list \<Rightarrow> logical_clock \<Rightarrow> logical_clock \<times> u64 list" where
  "run_clock [] c = (c, [])"
| "run_clock (Tick # ops) c =
     (case logical_tick c of (c1, v) \<Rightarrow>
      case run_clock ops c1 of (c2, vs) \<Rightarrow> (c2, v # vs))"
| "run_clock (Update r # ops) c =
     (case logical_update r c of (c1, v) \<Rightarrow>
      case run_clock ops c1 of (c2, vs) \<Rightarrow> (c2, v # vs))"

lemma plus_one_cases: "(x :: u64) + 1 \<noteq> 0 \<Longrightarrow> x < x + 1"
  by (metis word_less_plus_one add.left_inverse)

lemma run_clock_increasing:
  "0 \<notin> set (snd (run_clock ops c)) \<Longrightarrow>
     sorted_wrt (<) (lc_counter c # snd (run_clock ops c))"
proof (induction ops c rule: run_clock.induct)
  case (1 c)
  then show ?case by simp
next
  case (2 ops c)
  let ?c = "fst (logical_tick c)"
  have out: "snd (run_clock (Tick # ops) c) = (lc_counter c + 1) # snd (run_clock ops ?c)"
    by (simp add: logical_tick_def split: prod.splits)
  have "0 \<notin> set (snd (run_clock ops ?c))" and lt: "lc_counter c < lc_counter c + 1"
    using 2(2) plus_one_cases[of "lc_counter c"] unfolding out by auto
  with 2(1)[of ?c "snd (logical_tick c)"]
  have "sorted_wrt (<) ((lc_counter c + 1) # snd (run_clock ops ?c))"
    by (simp add: logical_tick_def)
  with lt show ?case unfolding out by auto
next
  case (3 r ops c)
  let ?c = "fst (logical_update r c)" and ?v = "max r (lc_counter c) + 1"
  have out: "snd (run_clock (Update r # ops) c) = ?v # snd (run_clock ops ?c)"
    by (simp add: logical_update_def Let_def split: prod.splits)
  have "0 \<notin> set (snd (run_clock ops ?c))" and lt: "lc_counter c < ?v"
    using 3(2) plus_one_cases[of "max r (lc_counter c)"] unfolding out
    by (auto simp: max_def split: if_splits)
  with 3(1)[of ?c "snd (logical_update r c)"]
  have "sorted_wrt (<) (?v # snd (run_clock ops ?c))"
    by (simp add: logical_update_def Let_def)
  with lt show ?case unfolding out by auto
qed

section \<open>Properties\<close>

text \<open>
  a Lamport clock used by one thread hands out strictly increasing timestamps, each greater
  than the counter it started from, over any sequence of local events and receipts in which the
  64-bit counter does not wrap (a wrap shows as the timestamp 0).
\<close>

theorem logical_clock_increasing:
  assumes "run_clock ops c = (c', stamps)" and "0 \<notin> set stamps"
  shows "sorted_wrt (<) (lc_counter c # stamps)"
  using run_clock_increasing[of ops c] assms by simp

theorem logical_clock_increasing_witness:
  "sorted_wrt (<) [0 :: u64, 1, 8, 9]"
  using logical_clock_increasing[of "[Tick, Update 7, Tick]" logical_new "\<lparr>lc_counter = 9\<rparr>" "[1, 8, 9]"]
  by (simp add: logical_new_def logical_tick_def logical_update_def)

text \<open>
  a Lamport clock shared by threads is not monotonic. Since \<open>update\<close> loads and stores in two
  steps, a tick that falls between them is undone by the store, and the same timestamp is handed
  out twice.
\<close>

theorem logical_clock_race:
  "\<exists>s. clock_step\<^sup>*\<^sup>* shared_init s \<and> \<not> distinct (sc_issued s)"
proof -
  let ?s1 = "shared_init\<lparr>sc_pending := (\<lambda>t. None)(0 \<mapsto> 1)\<rparr>"
  let ?s2 = "?s1\<lparr>sc_counter := 1, sc_issued := [1]\<rparr>"
  let ?s3 = "?s2\<lparr>sc_counter := 1, sc_pending := (\<lambda>t. None), sc_issued := [1, 1]\<rparr>"
  have "clock_step shared_init ?s1"
    using load_step[of shared_init 0 0] by (simp add: shared_init_def)
  moreover have "clock_step ?s1 ?s2"
    using tick_step[of ?s1 1] by (simp add: shared_init_def)
  moreover have "clock_step ?s2 ?s3"
    using store_step[of ?s2 0 1] by (simp add: shared_init_def)
  ultimately have "clock_step\<^sup>*\<^sup>* shared_init ?s3"
    by (meson rtranclp.rtrancl_into_rtrancl rtranclp.rtrancl_refl)
  moreover have "\<not> distinct (sc_issued ?s3)" by simp
  ultimately show ?thesis by blast
qed

text \<open>
  C13: the 128-bit encoding of a hybrid timestamp is faithful: decoding gives the timestamp back,
  every 128-bit value is the encoding of what it decodes to, and comparing encodings as integers
  is comparing timestamps (\<open>compare\<close>, the derived \<open>Ord\<close>).
\<close>

theorem hlc_u128_order_iso:
  "hlc_from_u128 (hlc_to_u128 a) = a \<and> hlc_to_u128 (hlc_from_u128 v) = v
   \<and> cmp (hlc_to_u128 a) (hlc_to_u128 b) = hlc_compare a b"
proof -
  have "hlc_to_u128 a = hlc_to_u128 b \<longleftrightarrow> a = b" by (metis hlc_u128_roundtrip(1))
  then show ?thesis by (simp add: hlc_u128_roundtrip hlc_compare_cmp cmp_def hlc_to_u128_less)
qed

text \<open>
  receiving a message. When no logical counter wraps, the clock after \<open>update\<close> is later than
  the received timestamp and never earlier than before. It is strictly later than before exactly
  when the local physical time is not ahead of both the system clock and the received timestamp;
  when it is ahead of both, \<open>update\<close> leaves the clock unchanged, so that the receipt gets no
  timestamp of its own.
\<close>

theorem hlc_update_monotonic:
  assumes "logical_time c \<noteq> - 1" and "logical_time r \<noteq> - 1"
  shows "r < hlc_update now r c \<and> c \<le> hlc_update now r c
         \<and> (c < hlc_update now r c \<longleftrightarrow>
              physical_time c \<le> max (system_time_millis now) (physical_time r))"
proof -
  define m where "m = max (system_time_millis now) (physical_time r)"
  have m: "physical_time r \<le> m" by (simp add: m_def)
  have inc: "logical_time r < logical_time r + 1"
    "logical_time c < max (logical_time c) (logical_time r) + 1"
    "logical_time r < max (logical_time c) (logical_time r) + 1"
    using assms word_less_plus_one[of "logical_time c"] word_less_plus_one[of "logical_time r"]
    by (auto simp: max_def)
  have upd: "hlc_update now r c =
      (if m > physical_time c then HLC m (if m = physical_time r then logical_time r + 1 else 0)
       else if m = physical_time c
       then HLC (physical_time c) (max (logical_time c) (logical_time r) + 1) else c)"
    by (simp add: hlc_update_def m_def Let_def)
  show ?thesis
    unfolding m_def[symmetric] upd using inc m
    by (auto simp: less_hlc_def less_eq_hlc_def)
qed

theorem hlc_update_monotonic_witness:
  "HLC 5 3 < hlc_update 0 (HLC 5 3) (HLC 5 7) \<and> hlc_update 0 (HLC 5 3) (HLC 9 7) = HLC 9 7"
  using hlc_update_monotonic[of "HLC 5 7" "HLC 5 3" 0] hlc_update_monotonic[of "HLC 9 7" "HLC 5 3" 0]
  by (simp add: hlc_update_def system_time_millis_def duration_since_def or_zero_def as_millis_def)

text \<open>
  \<open>VectorClock::compare\<close> (two flags over the union of the keys) and
  \<open>VersionVector::compare\<close> (two descendant tests) are the same relation on the same entries: the
  pointwise order, with absent nodes counting as 0.
\<close>

theorem compare_agree:
  assumes "hm_ok v" and "hm_ok w"
  shows "vv_compare (vv_with_versions v) (vv_with_versions w)
         = vc_compare \<lparr>vc_node_id = n, vc_vector = v\<rparr> \<lparr>vc_node_id = m, vc_vector = w\<rparr>"
proof -
  have "vv_get_version (vv_with_versions x) = vc_get_timestamp \<lparr>vc_node_id = k, vc_vector = x\<rparr>" for x k
    by (rule ext) (simp add: vv_get_version_def vc_get_timestamp_def vv_with_versions_def)
  with assms show ?thesis
    by (simp add: vc_causal.compare_pointwise vv_causal.compare_pointwise vv_with_versions_def)
qed

theorem compare_agree_witness:
  "vc_compare \<lparr>vc_node_id = 1, vc_vector = [(1, 2)]\<rparr> \<lparr>vc_node_id = 2, vc_vector = [(2, 1), (1, 2)]\<rparr>
   = CBefore"
proof -
  have "vv_compare (vv_with_versions [(1, 2)]) (vv_with_versions [(2, 1), (1, 2)]) = CBefore"
    by code_simp
  moreover have "hm_ok [(1 :: node_id, 2 :: u64)]" "hm_ok [(2 :: node_id, 1 :: u64), (1, 2)]"
    by (simp_all add: hm_ok_def)
  ultimately show ?thesis using compare_agree[of "[(1, 2)]" "[(2, 1), (1, 2)]" 1 2] by simp
qed

text \<open>
  \<open>merge\<close> is the least upper bound for that order, so replicas that merge in any order and any
  number of times agree: the merged clock is not before either argument, and is below every clock
  that is.
\<close>

theorem vc_merge_lub:
  assumes "vc_ok a" and "vc_ok b"
  shows "vc_compare a (vc_merge a b) \<in> {CBefore, CEqual}
         \<and> vc_compare b (vc_merge a b) \<in> {CBefore, CEqual}
         \<and> (vc_compare a c \<in> {CBefore, CEqual} \<and> vc_compare b c \<in> {CBefore, CEqual}
              \<longrightarrow> vc_compare (vc_merge a b) c \<in> {CBefore, CEqual})"
proof -
  have le: "vc_compare x y \<in> {CBefore, CEqual} \<longleftrightarrow> vc_get_timestamp x \<le> vc_get_timestamp y" for x y
    by (auto simp: vc_causal.compare_pointwise pointwise_def)
  show ?thesis
    unfolding le using assms by (auto simp: le_fun_def vc_merge_get vc_ok_def)
qed

theorem vc_merge_lub_witness:
  "vc_compare (vc_new 1) (vc_merge (vc_new 1) (vc_incremented (vc_new 2))) \<in> {CBefore, CEqual}"
proof -
  have "vc_ok (vc_new 1)" "vc_ok (vc_incremented (vc_new 2))"
    by (simp_all add: vc_ok_ops vc_incremented_def)
  from vc_merge_lub[OF this, of "vc_new 1"] show ?thesis by blast
qed

end
