(* ===== verification/Causality.thy ===== *)
theory Causality
  imports Clocks
begin

text \<open>
  Vector clocks in a running system: every node holds a clock made by \<open>VectorClock::new\<close>, ticks it
  on each event of its own and calls \<open>update\<close> with the clock a message carries when it receives one.
  The theorem of this theory is the one vector clocks exist for: comparing the clocks of two
  events decides whether one happened before the other.
\<close>

section \<open>Executions\<close>

text \<open>
  An execution is a sequence of events: \<open>Local p\<close> is an event of node \<open>p\<close> (a send is one, its
  message carries the clock the event leaves), \<open>Receive p i\<close> is the receipt at \<open>p\<close> of the message
  of the \<open>i\<close>-th event. The log records the clock each event left.
\<close>

datatype event = Local node_id | Receive node_id nat

fun node_of :: "event \<Rightarrow> node_id" where
  "node_of (Local p) = p"
| "node_of (Receive p i) = p"

type_synonym system = "(node_id \<Rightarrow> vector_clock) \<times> vector_clock list"

definition log_clock :: "node_id \<Rightarrow> vector_clock \<Rightarrow> system \<Rightarrow> system" where
  "log_clock p c s = ((fst s)(p := c), snd s @ [c])"

fun exec_event :: "system \<Rightarrow> event \<Rightarrow> system" where
  "exec_event s (Local p) = log_clock p (fst (vc_tick (fst s p))) s"
| "exec_event s (Receive p i) = log_clock p (vc_update (fst s p) (snd s ! i)) s"

definition exec :: "event list \<Rightarrow> system" where
  "exec es = foldl exec_event (vc_new, []) es"

definition causal :: "event list \<Rightarrow> bool" where
  "causal es = (\<forall>j < length es. \<forall>p i. es ! j = Receive p i \<longrightarrow> i < j)"

definition direct :: "event list \<Rightarrow> nat \<Rightarrow> nat \<Rightarrow> bool" where
  "direct es i j =
     (i < j \<and> j < length es
      \<and> (node_of (es ! i) = node_of (es ! j) \<or> (\<exists>p. es ! j = Receive p i)))"

definition happened_before :: "event list \<Rightarrow> nat \<Rightarrow> nat \<Rightarrow> bool" where
  "happened_before es = (direct es)\<^sup>+\<^sup>+"

definition past :: "event list \<Rightarrow> nat \<Rightarrow> nat set" where
  "past es j = {i. (direct es)\<^sup>*\<^sup>* i j}"

definition node_past :: "event list \<Rightarrow> node_id \<Rightarrow> nat set" where
  "node_past es p = (\<Union>k\<in>{k. k < length es \<and> node_of (es ! k) = p}. past es k)"

section \<open>The past of an event\<close>

lemma exec_snoc: "exec (es @ [e]) = exec_event (exec es) e"
  by (simp add: exec_def)

lemma direct_less: "direct es i j \<Longrightarrow> i < j"
  by (simp add: direct_def)

lemma happened_before_less: "happened_before es i j \<Longrightarrow> i < j"
  unfolding happened_before_def by (induction rule: tranclp.induct) (auto dest: direct_less)

lemma past_le: "i \<in> past es j \<Longrightarrow> i \<le> j"
  unfolding past_def mem_Collect_eq
  by (induction rule: rtranclp.induct) (auto dest: direct_less)

lemma finite_past [simp]: "finite (past es j)"
  by (rule finite_subset[of _ "{..j}"]) (auto dest: past_le)

lemma past_refl [simp]: "j \<in> past es j"
  by (simp add: past_def)

lemma past_iff: "i \<in> past es j \<longleftrightarrow> i = j \<or> happened_before es i j"
  by (auto simp: past_def happened_before_def dest: rtranclpD tranclp_into_rtranclp)

lemma past_mono: "i \<in> past es j \<Longrightarrow> past es i \<subseteq> past es j"
  by (auto simp: past_def)

lemma past_unfold: "past es j = insert j (\<Union>i\<in>{i. direct es i j}. past es i)"
  by (auto simp: past_def elim: rtranclp.cases)

definition prefix_closed :: "event list \<Rightarrow> nat set \<Rightarrow> bool" where
  "prefix_closed es S =
     (\<forall>a\<in>S. \<forall>b \<le> a. a < length es \<longrightarrow> node_of (es ! b) = node_of (es ! a) \<longrightarrow> b \<in> S)"

lemma prefix_closed_past: "prefix_closed es (past es j)"
  unfolding prefix_closed_def
proof (intro ballI allI impI)
  fix a b assume a: "a \<in> past es j" "b \<le> a" "a < length es" "node_of (es ! b) = node_of (es ! a)"
  then have "b = a \<or> direct es b a" by (auto simp: direct_def)
  then have "b \<in> past es a" by (auto simp: past_def)
  with past_mono[OF a(1)] show "b \<in> past es j" by auto
qed

lemma prefix_closed_Un: "prefix_closed es S \<Longrightarrow> prefix_closed es T \<Longrightarrow> prefix_closed es (S \<union> T)"
  by (auto simp: prefix_closed_def)

lemma prefix_closed_node_past: "prefix_closed es (node_past es p)"
  unfolding node_past_def prefix_closed_def
  using prefix_closed_past[of es] by (fastforce simp: prefix_closed_def)

definition at_node :: "event list \<Rightarrow> node_id \<Rightarrow> nat set \<Rightarrow> nat set" where
  "at_node es n S = {i\<in>S. node_of (es ! i) = n}"

lemma at_node_nested:
  assumes "prefix_closed es S" "prefix_closed es T" "S \<subseteq> {..<length es}" "T \<subseteq> {..<length es}"
  shows "at_node es n S \<subseteq> at_node es n T \<or> at_node es n T \<subseteq> at_node es n S"
proof (rule ccontr)
  assume "\<not> ?thesis"
  then obtain a b where "a \<in> at_node es n S" "a \<notin> at_node es n T" "b \<in> at_node es n T" "b \<notin> at_node es n S"
    by auto
  then show False
    using assms unfolding at_node_def prefix_closed_def
    by (cases "a \<le> b") (auto simp: subset_iff)
qed

lemma card_at_node_Un:
  assumes "prefix_closed es S" "prefix_closed es T" "S \<subseteq> {..<length es}" "T \<subseteq> {..<length es}"
  shows "card (at_node es n (S \<union> T)) = max (card (at_node es n S)) (card (at_node es n T))"
proof -
  have fin: "finite (at_node es n S)" "finite (at_node es n T)"
    using assms(3,4) by (auto simp: at_node_def intro: finite_subset[OF _ finite_lessThan])
  have un: "at_node es n (S \<union> T) = at_node es n S \<union> at_node es n T" by (auto simp: at_node_def)
  from at_node_nested[OF assms, of n] show ?thesis
  proof
    assume "at_node es n S \<subseteq> at_node es n T"
    with fin show ?thesis unfolding un by (simp add: Un_absorb1 max_absorb2 card_mono)
  next
    assume "at_node es n T \<subseteq> at_node es n S"
    with fin show ?thesis unfolding un by (simp add: Un_absorb2 max_absorb1 card_mono)
  qed
qed

section \<open>Appending an event\<close>

lemma direct_snoc_old: "k < length es \<Longrightarrow> direct (es @ [e]) i k \<longleftrightarrow> direct es i k"
  by (auto simp: direct_def nth_append)

lemma past_snoc_old:
  assumes "k < length es"
  shows "past (es @ [e]) k = past es k"
  using assms
proof (induction k rule: less_induct)
  case (less k)
  have "past (es @ [e]) k = insert k (\<Union>i\<in>{i. direct es i k}. past (es @ [e]) i)"
    using less.prems by (subst past_unfold) (simp add: direct_snoc_old)
  also have "\<dots> = insert k (\<Union>i\<in>{i. direct es i k}. past es i)"
    using less.IH less.prems direct_less[of es _ k]
    by (intro arg_cong[of _ _ "insert k"] SUP_cong) auto
  finally show ?case using past_unfold[of es k] by simp
qed

lemma past_snoc_new:
  "past (es @ [e]) (length es) =
     insert (length es) (node_past es (node_of e)
       \<union> (\<Union>i\<in>{i. i < length es \<and> (\<exists>p. e = Receive p i)}. past es i))"
proof -
  have "{i. direct (es @ [e]) i (length es)}
      = {k. k < length es \<and> node_of (es ! k) = node_of e} \<union> {i. i < length es \<and> (\<exists>p. e = Receive p i)}"
    by (auto simp: direct_def nth_append)
  then show ?thesis
    by (subst past_unfold) (auto simp: node_past_def past_snoc_old)
qed

lemma node_past_snoc:
  "node_past (es @ [e]) p =
     (if p = node_of e then past (es @ [e]) (length es) else node_past es p)"
proof -
  have split: "{k. k < length (es @ [e]) \<and> node_of ((es @ [e]) ! k) = p}
      = {k. k < length es \<and> node_of (es ! k) = p} \<union> (if p = node_of e then {length es} else {})"
    by (auto simp: nth_append less_Suc_eq)
  have "node_past (es @ [e]) p = node_past es p
      \<union> (if p = node_of e then past (es @ [e]) (length es) else {})"
    unfolding node_past_def split by (auto simp: past_snoc_old split: if_splits)
  moreover have "node_past es (node_of e) \<subseteq> past (es @ [e]) (length es)"
    by (subst past_snoc_new) auto
  ultimately show ?thesis by auto
qed

lemma node_past_bound: "node_past es p \<subseteq> {..<length es}"
  by (auto simp: node_past_def dest: past_le)

lemma past_bound: "k < length es \<Longrightarrow> past es k \<subseteq> {..<length es}"
  by (auto dest: past_le)

lemma at_node_snoc: "S \<subseteq> {..<length es} \<Longrightarrow> at_node (es @ [e]) n S = at_node es n S"
  by (auto simp: at_node_def nth_append subset_iff)

lemma card_at_node_new:
  assumes "S \<subseteq> {..<length es}"
  shows "card (at_node (es @ [e]) n (insert (length es) S))
         = card (at_node es n S) + (if n = node_of e then 1 else 0)"
proof -
  have fin: "finite (at_node es n S)"
    using assms by (auto simp: at_node_def intro: finite_subset[OF _ finite_lessThan])
  have "at_node (es @ [e]) n (insert (length es) S)
      = (if n = node_of e then insert (length es) (at_node es n S) else at_node es n S)"
    using assms by (auto simp: at_node_def nth_append subset_iff)
  moreover have "length es \<notin> at_node es n S" using assms by (auto simp: at_node_def)
  ultimately show ?thesis using fin by auto
qed

section \<open>Clocks count the past\<close>

definition counts :: "event list \<Rightarrow> vector_clock \<Rightarrow> nat set \<Rightarrow> bool" where
  "counts es c S = (vc_ok c \<and> (\<forall>n. unat (vc_get_timestamp c n) = card (at_node es n S)))"

lemma vc_get_new: "vc_get_timestamp (vc_new p) n = 0"
  by (simp add: vc_new_def vc_get_timestamp_def hm_get_or_def)

lemma counts_snoc: "S \<subseteq> {..<length es} \<Longrightarrow> counts (es @ [e]) c S \<longleftrightarrow> counts es c S"
  by (simp add: counts_def at_node_snoc)

lemma counts_merge:
  assumes "counts es c S" "counts es d T" "prefix_closed es S" "prefix_closed es T"
    "S \<subseteq> {..<length es}" "T \<subseteq> {..<length es}"
  shows "counts es (vc_merge c d) (S \<union> T)"
proof -
  have "unat (max a b) = max (unat a) (unat b)" for a b :: u64
    by (simp add: max_def word_le_nat_alt)
  with assms card_at_node_Un[OF assms(3-6)] show ?thesis
    by (simp add: counts_def vc_ok_def vc_merge_get) (simp add: vc_merge_def merge_entries_ok)
qed

lemma card_at_node_le: "S \<subseteq> {..<length es} \<Longrightarrow> card (at_node es n S) \<le> length es"
  using card_mono[of "{..<length es}" "at_node es n S"] by (auto simp: at_node_def)

lemma counts_tick:
  assumes "counts es c S" "S \<subseteq> {..<length es}" "vc_node_id c = node_of e" "Suc (length es) < 2 ^ 64"
  shows "counts (es @ [e]) (fst (vc_tick c)) (insert (length es) S)"
proof -
  have "Suc (unat (vc_get_timestamp c n)) < 2 ^ 64" for n
    using assms card_at_node_le[OF assms(2), of n] by (simp add: counts_def)
  then have "unat (vc_get_timestamp c n + 1) = Suc (unat (vc_get_timestamp c n))" for n
    by (intro unat_plus_one) simp
  with assms show ?thesis
    by (simp add: counts_def vc_ok_ops vc_tick_get card_at_node_new)
qed

definition exec_inv :: "event list \<Rightarrow> bool" where
  "exec_inv es =
     (length (snd (exec es)) = length es
      \<and> (\<forall>p. vc_node_id (fst (exec es) p) = p \<and> counts es (fst (exec es) p) (node_past es p))
      \<and> (\<forall>k < length es. counts es (snd (exec es) ! k) (past es k)))"

lemma causal_snoc: "causal (es @ [e]) \<longleftrightarrow> causal es \<and> (\<forall>p i. e = Receive p i \<longrightarrow> i < length es)"
  by (auto simp: causal_def nth_append less_Suc_eq)

lemma new_clock_counts:
  assumes "exec_inv es" "causal (es @ [e])" "Suc (length es) < 2 ^ 64"
    and c: "c = (case e of Local p \<Rightarrow> fst (vc_tick (fst (exec es) p))
                 | Receive p i \<Rightarrow> vc_update (fst (exec es) p) (snd (exec es) ! i))"
  shows "counts (es @ [e]) c (past (es @ [e]) (length es)) \<and> vc_node_id c = node_of e"
proof (cases e)
  case (Local p)
  then have new: "past (es @ [e]) (length es) = insert (length es) (node_past es p)"
    by (subst past_snoc_new) auto
  from assms(1) Local show ?thesis
    using counts_tick[of es "fst (exec es) p" "node_past es p" e] assms(3) node_past_bound[of es p]
    unfolding new by (simp add: c exec_inv_def)
next
  case (Receive p i)
  then have i: "i < length es" using assms(2) by (simp add: causal_snoc)
  then have new: "past (es @ [e]) (length es) = insert (length es) (node_past es p \<union> past es i)"
    using Receive by (subst past_snoc_new) auto
  have "counts es (vc_merge (fst (exec es) p) (snd (exec es) ! i)) (node_past es p \<union> past es i)"
    using assms(1) i by (intro counts_merge)
      (simp_all add: exec_inv_def prefix_closed_past prefix_closed_node_past node_past_bound past_bound)
  moreover have "vc_node_id (fst (exec es) p) = p" using assms(1) by (simp add: exec_inv_def)
  ultimately show ?thesis
    using counts_tick[of es _ "node_past es p \<union> past es i" e] Receive assms(3) i
      node_past_bound[of es p] past_bound[OF i]
    unfolding new by (simp add: c vc_update_eq)
qed

lemma exec_inv_exec: "causal es \<Longrightarrow> length es < 2 ^ 64 \<Longrightarrow> exec_inv es"
proof (induction es rule: rev_induct)
  case Nil
  then show ?case
    by (simp add: exec_inv_def exec_def counts_def node_past_def at_node_def vc_get_new vc_ok_ops)
next
  case (snoc e es)
  then have inv: "exec_inv es" and len: "Suc (length es) < 2 ^ 64" by (simp_all add: causal_snoc)
  define c where "c = (case e of Local p \<Rightarrow> fst (vc_tick (fst (exec es) p))
                 | Receive p i \<Rightarrow> vc_update (fst (exec es) p) (snd (exec es) ! i))"
  have step: "exec (es @ [e]) = log_clock (node_of e) c (exec es)"
    by (cases e) (simp_all add: exec_snoc c_def)
  note new = new_clock_counts[OF inv snoc.prems(1) len c_def]
  show ?case
    unfolding exec_inv_def step log_clock_def
    using inv new
    by (auto simp: exec_inv_def nth_append less_Suc_eq node_past_snoc past_snoc_old
        counts_snoc node_past_bound past_bound)
qed

lemma stamp_le_iff:
  assumes inv: "exec_inv es" and i: "i < length es" and j: "j < length es"
  shows "vc_get_timestamp (snd (exec es) ! i) \<le> vc_get_timestamp (snd (exec es) ! j)
         \<longleftrightarrow> i \<in> past es j"
proof
  let ?at = "at_node es (node_of (es ! i))"
  have fin: "finite (?at (past es k))" for k by (simp add: at_node_def)
  assume "vc_get_timestamp (snd (exec es) ! i) \<le> vc_get_timestamp (snd (exec es) ! j)"
  then have le: "card (?at (past es i)) \<le> card (?at (past es j))"
    using inv i j by (simp add: exec_inv_def counts_def le_fun_def word_le_nat_alt)
  have "?at (past es i) \<subseteq> ?at (past es j) \<or> ?at (past es j) \<subseteq> ?at (past es i)"
    by (rule at_node_nested) (simp_all only: prefix_closed_past past_bound i j)
  then have "?at (past es i) \<subseteq> ?at (past es j)"
    using le card_seteq[OF fin, of "?at (past es j)" i] by auto
  moreover have "i \<in> ?at (past es i)" by (simp add: at_node_def)
  ultimately have "i \<in> ?at (past es j)" by (rule subsetD)
  then show "i \<in> past es j" by (simp add: at_node_def)
next
  assume "i \<in> past es j"
  then have "at_node es n (past es i) \<subseteq> at_node es n (past es j)" for n
    using past_mono by (auto simp: at_node_def)
  then have "card (at_node es n (past es i)) \<le> card (at_node es n (past es j))" for n
    by (intro card_mono) (simp_all add: at_node_def)
  then show "vc_get_timestamp (snd (exec es) ! i) \<le> vc_get_timestamp (snd (exec es) ! j)"
    using inv i j by (simp add: exec_inv_def counts_def le_fun_def word_le_nat_alt)
qed

section \<open>Properties\<close>

text \<open>
  C2: vector clocks characterise causality. In every execution of fewer than \<open>2 ^ 64\<close> events in
  which messages are received after they were sent, \<open>VectorClock::compare\<close> on the clocks of two
  different events answers \<open>Before\<close> exactly when the first happened before the second (by program
  order at a node, by message, or by a chain of these), and \<open>Concurrent\<close> exactly when neither
  happened before the other.
\<close>

theorem vector_clock_causality:
  assumes "causal es" and "length es < 2 ^ 64" and "i < length es" and "j < length es" and "i \<noteq> j"
  shows "(vc_compare (snd (exec es) ! i) (snd (exec es) ! j) = CBefore \<longleftrightarrow> happened_before es i j)
         \<and> (vc_compare (snd (exec es) ! i) (snd (exec es) ! j) = CConcurrent \<longleftrightarrow>
              \<not> happened_before es i j \<and> \<not> happened_before es j i)"
proof -
  let ?v = "\<lambda>k. vc_get_timestamp (snd (exec es) ! k)"
  have inv: "exec_inv es" using assms by (intro exec_inv_exec)
  have le: "?v i \<le> ?v j \<longleftrightarrow> happened_before es i j" "?v j \<le> ?v i \<longleftrightarrow> happened_before es j i"
    using stamp_le_iff[OF inv] assms(3-5) by (simp_all add: past_iff)
  have "\<not> (happened_before es i j \<and> happened_before es j i)"
    using happened_before_less[of es i j] happened_before_less[of es j i] by auto
  moreover have "vc_compare (snd (exec es) ! i) (snd (exec es) ! j) = pointwise (?v i) (?v j)"
    by (simp add: vc_causal.compare_pointwise)
  ultimately show ?thesis
    unfolding le[symmetric] by (auto simp: pointwise_def)
qed

theorem vector_clock_causality_witness:
  "vc_compare (snd (exec [Local 1, Local 3, Receive 2 0]) ! 0)
              (snd (exec [Local 1, Local 3, Receive 2 0]) ! 2) = CBefore
   \<and> vc_compare (snd (exec [Local 1, Local 3, Receive 2 0]) ! 1)
              (snd (exec [Local 1, Local 3, Receive 2 0]) ! 2) = CConcurrent"
proof -
  let ?es = "[Local 1, Local 3, Receive 2 0]"
  have causal: "causal ?es" by (auto simp: causal_def nth_Cons split: nat.splits)
  have "direct ?es 0 2" by (simp add: direct_def)
  then have "happened_before ?es 0 2" by (simp add: happened_before_def)
  with vector_clock_causality[OF causal, of 0 2] have "vc_compare (snd (exec ?es) ! 0) (snd (exec ?es) ! 2) = CBefore"
    by simp
  moreover have "direct ?es i 2 \<Longrightarrow> i = 0" for i
    by (auto simp: direct_def nth_Cons split: nat.splits)
  moreover have "\<not> direct ?es i 0" for i by (simp add: direct_def)
  ultimately have "\<not> happened_before ?es 1 2" 
    unfolding happened_before_def by (metis tranclp.cases zero_neq_one)
  moreover have "\<not> happened_before ?es 2 1"
    using happened_before_less[of ?es 2 1] by auto
  ultimately show ?thesis
    using vector_clock_causality[OF causal, of 1 2]
      \<open>vc_compare (snd (exec ?es) ! 0) (snd (exec ?es) ! 2) = CBefore\<close> by simp
qed

end
