(* ===== verification/Raft.thy ===== *)
theory Raft
  imports Clocks
begin

text \<open>
  The Raft node of \<^verbatim>\<open>src/kaelix-cluster/src/consensus/mod.rs\<close> (module \<open>raft\<close>): its state, the
  handlers of the four messages, the leader's log operations and the timer tick. Each operation
  takes the node and returns the node it leaves with its result; the fields the code changes before
  an error stay changed. What the code reads from the clocks, the request counter and the random
  generator are arguments. An \<open>Instant\<close> is a number of nanoseconds of the monotonic clock.
\<close>

type_synonym log_index = u64
type_synonym raft_term = u64

section \<open>Data\<close>

datatype consensus_error =
    TermMismatch u64 u64
  | NotLeader "node_id option"
  | InvalidNodeId string
  | ElectionTimeout
  | LogInconsistency string
  | NetworkPartition
  | ConsensusConfiguration string
  | ConsensusGeneric string

datatype consensus_state = Follower | Candidate | Leader

definition consensus_state_default :: consensus_state where
  "consensus_state_default = Follower"

fun consensus_state_display :: "consensus_state \<Rightarrow> string" where
  "consensus_state_display Follower = ''follower''"
| "consensus_state_display Candidate = ''candidate''"
| "consensus_state_display Leader = ''leader''"

definition term_default :: raft_term where
  "term_default = 0"

definition term_increment :: "raft_term \<Rightarrow> raft_term" where
  "term_increment t = t + 1"

record raft_config =
  election_timeout_min :: duration
  election_timeout_max :: duration
  heartbeat_interval :: duration
  max_entries_per_append :: usize
  snapshot_threshold :: usize
  pre_vote_enabled :: bool
  max_pipeline_depth :: usize
  batch_timeout :: duration

definition raft_config_default :: raft_config where
  "raft_config_default =
     \<lparr>election_timeout_min = 150 * 1000000, election_timeout_max = 300 * 1000000,
      heartbeat_interval = 50 * 1000000, max_entries_per_append = 100,
      snapshot_threshold = 10000, pre_vote_enabled = True, max_pipeline_depth = 10,
      batch_timeout = 10 * 1000000\<rparr>"

definition instant_to_serializable :: "instant \<Rightarrow> system_time \<Rightarrow> instant \<Rightarrow> u64" where
  "instant_to_serializable t now_system now_instant =
     (let since_epoch = or_zero (duration_since now_system 0)
      in of_nat (if now_instant < t then since_epoch + (t - now_instant)
                 else since_epoch - (now_instant - t)))"

record log_entry =
  le_term :: raft_term
  le_command :: bytes
  le_index :: log_index
  le_timestamp :: u64
  le_size :: usize

text \<open>The readings of one \<open>LogEntry::new\<close>: the instant, then the two clocks of its conversion.\<close>

type_synonym clock_reading = "instant \<times> system_time \<times> instant"

definition log_entry_new :: "clock_reading \<Rightarrow> raft_term \<Rightarrow> log_index \<Rightarrow> bytes \<Rightarrow> log_entry" where
  "log_entry_new clk trm index command =
     \<lparr>le_term = trm, le_command = command, le_index = index,
      le_timestamp = (case clk of (t, sys, t') \<Rightarrow> instant_to_serializable t sys t'),
      le_size = length command\<rparr>"

record request_vote_request =
  vq_term :: raft_term
  vq_candidate_id :: node_id
  vq_last_log_index :: log_index
  vq_last_log_term :: raft_term
  vq_pre_vote :: bool

record request_vote_response =
  vr_term :: raft_term
  vr_vote_granted :: bool
  vr_pre_vote :: bool
  vr_last_log_index :: "log_index option"

record append_entries_request =
  aq_term :: raft_term
  aq_leader_id :: node_id
  aq_prev_log_index :: log_index
  aq_prev_log_term :: raft_term
  aq_entries :: "log_entry list"
  aq_leader_commit :: log_index
  aq_request_id :: u64

record append_entries_response =
  ar_term :: raft_term
  ar_success :: bool
  ar_last_log_index :: "log_index option"
  ar_conflict_index :: "log_index option"
  ar_conflict_term :: "raft_term option"
  ar_request_id :: u64

record raft_metrics =
  elections_started :: u64
  elections_won :: u64
  entries_appended :: u64
  entries_committed :: u64
  avg_heartbeat_latency :: duration
  avg_replication_latency :: duration
  last_election_duration :: "duration option"
  log_size_bytes :: usize

definition raft_metrics_default :: raft_metrics where
  "raft_metrics_default =
     \<lparr>elections_started = 0, elections_won = 0, entries_appended = 0, entries_committed = 0,
      avg_heartbeat_latency = 0, avg_replication_latency = 0, last_election_duration = None,
      log_size_bytes = 0\<rparr>"

record raft_node =
  rn_node_id :: node_id
  rn_current_term :: raft_term
  rn_state :: consensus_state
  rn_voted_for :: "node_id option"
  rn_log :: "log_entry list"
  rn_commit_index :: log_index
  rn_last_applied :: log_index
  rn_next_index :: "(node_id, log_index) hash_map"
  rn_match_index :: "(node_id, log_index) hash_map"
  rn_current_leader :: "node_id option"
  rn_last_heartbeat :: "instant option"
  rn_election_start :: "instant option"
  rn_vote_count :: usize
  rn_cluster_size :: usize
  rn_config :: raft_config
  rn_metrics :: raft_metrics

definition raft_new :: "node_id \<Rightarrow> usize \<Rightarrow> raft_config \<Rightarrow> raft_node" where
  "raft_new node_id cluster_size config =
     \<lparr>rn_node_id = node_id, rn_current_term = term_default, rn_state = Follower,
      rn_voted_for = None, rn_log = [], rn_commit_index = 0, rn_last_applied = 0,
      rn_next_index = [], rn_match_index = [], rn_current_leader = None,
      rn_last_heartbeat = None, rn_election_start = None, rn_vote_count = 0,
      rn_cluster_size = cluster_size, rn_config = config, rn_metrics = raft_metrics_default\<rparr>"

definition is_leader :: "raft_node \<Rightarrow> bool" where
  "is_leader n = (rn_state n = Leader)"

definition is_candidate :: "raft_node \<Rightarrow> bool" where
  "is_candidate n = (rn_state n = Candidate)"

section \<open>The log\<close>

definition log_get :: "log_entry list \<Rightarrow> nat \<Rightarrow> log_entry option" where
  "log_get xs i = (if i < length xs then Some (xs ! i) else None)"

definition log_len :: "raft_node \<Rightarrow> log_index" where
  "log_len n = of_nat (length (rn_log n))"

definition last_log_info :: "raft_node \<Rightarrow> log_index \<times> raft_term" where
  "last_log_info n =
     (if rn_log n = [] then (0, term_default)
      else (le_index (last (rn_log n)), le_term (last (rn_log n))))"

definition is_log_up_to_date :: "log_index \<Rightarrow> raft_term \<Rightarrow> raft_node \<Rightarrow> bool" where
  "is_log_up_to_date last_log_index last_log_term n =
     (case last_log_info n of (our_last_index, our_last_term) \<Rightarrow>
        if last_log_term \<noteq> our_last_term then our_last_term < last_log_term
        else our_last_index \<le> last_log_index)"

definition check_log_consistency :: "log_index \<Rightarrow> raft_term \<Rightarrow> raft_node \<Rightarrow> bool" where
  "check_log_consistency prev_log_index prev_log_term n =
     (if prev_log_index = 0 then True
      else case log_get (rn_log n) (unat (prev_log_index - 1)) of
             Some entry \<Rightarrow> le_term entry = prev_log_term
           | None \<Rightarrow> False)"

text \<open>The first position, counted from \<open>i\<close>, whose entry has the given term.\<close>

fun first_of_term :: "raft_term \<Rightarrow> nat \<Rightarrow> log_entry list \<Rightarrow> nat option" where
  "first_of_term t i [] = None"
| "first_of_term t i (e # es) = (if le_term e = t then Some i else first_of_term t (Suc i) es)"

fun last_of_term :: "raft_term \<Rightarrow> nat \<Rightarrow> log_entry list \<Rightarrow> nat option" where
  "last_of_term t i [] = None"
| "last_of_term t i (e # es) =
     (case last_of_term t (Suc i) es of
        Some j \<Rightarrow> Some j
      | None \<Rightarrow> if le_term e = t then Some i else None)"

definition find_conflict_info :: "log_index \<Rightarrow> raft_node \<Rightarrow> log_index \<times> raft_term option" where
  "find_conflict_info prev_log_index n =
     (if log_len n < prev_log_index then (log_len n, None)
      else if 0 < prev_log_index then
        case log_get (rn_log n) (unat (prev_log_index - 1)) of
          Some entry \<Rightarrow>
            (case first_of_term (le_term entry) 0 (rn_log n) of
               Some i \<Rightarrow> (of_nat (i + 1), Some (le_term entry))
             | None \<Rightarrow> (1, None))
        | None \<Rightarrow> (1, None)
      else (1, None))"

definition append_new_entries :: "log_index \<Rightarrow> log_entry list \<Rightarrow> raft_node \<Rightarrow> raft_node" where
  "append_new_entries prev_log_index entries n =
     n\<lparr>rn_log := take (unat prev_log_index) (rn_log n) @ entries\<rparr>"

definition get_entries_from :: "log_index \<Rightarrow> raft_node \<Rightarrow> log_entry list" where
  "get_entries_from start_index n =
     (if start_index = 0 \<or> log_len n < start_index then []
      else drop (unat (start_index - 1)) (rn_log n))"

section \<open>Elections\<close>

definition generate_election_timeout ::
    "(nat \<Rightarrow> nat \<Rightarrow> nat) \<Rightarrow> raft_node \<Rightarrow> (duration, consensus_error) result" where
  "generate_election_timeout rng n =
     (let lo = as_millis (election_timeout_min (rn_config n));
          hi = as_millis (election_timeout_max (rn_config n))
      in if hi < lo then Panic else Ok (duration_from_millis (of_nat (rng lo hi))))"

definition elapsed_over ::
    "(nat \<Rightarrow> nat \<Rightarrow> nat) \<Rightarrow> instant \<Rightarrow> raft_node \<Rightarrow> instant option \<Rightarrow> (bool, consensus_error) result" where
  "elapsed_over rng now n since =
     (case since of
        Some t \<Rightarrow> and_then (generate_election_timeout rng n) (\<lambda>timeout. Ok (timeout < now - t))
      | None \<Rightarrow> Ok True)"

definition is_election_timeout ::
    "(nat \<Rightarrow> nat \<Rightarrow> nat) \<Rightarrow> instant \<Rightarrow> raft_node \<Rightarrow> (bool, consensus_error) result" where
  "is_election_timeout rng now n =
     (case rn_state n of
        Follower \<Rightarrow> elapsed_over rng now n (rn_last_heartbeat n)
      | Candidate \<Rightarrow> elapsed_over rng now n (rn_election_start n)
      | Leader \<Rightarrow> Ok False)"

definition start_election ::
    "instant \<Rightarrow> raft_node \<Rightarrow> raft_node \<times> (request_vote_request, consensus_error) result" where
  "start_election now n =
     (let n' = n\<lparr>rn_current_term := term_increment (rn_current_term n), rn_state := Candidate,
                 rn_voted_for := Some (rn_node_id n), rn_current_leader := None,
                 rn_election_start := Some now, rn_vote_count := 1,
                 rn_metrics := (rn_metrics n)\<lparr>elections_started := elections_started (rn_metrics n) + 1\<rparr>\<rparr>
      in (n', Ok \<lparr>vq_term = rn_current_term n', vq_candidate_id = rn_node_id n',
                  vq_last_log_index = fst (last_log_info n'),
                  vq_last_log_term = snd (last_log_info n'), vq_pre_vote = False\<rparr>))"

definition become_follower ::
    "raft_term \<Rightarrow> raft_node \<Rightarrow> raft_node \<times> (unit, consensus_error) result" where
  "become_follower trm n =
     (if trm < rn_current_term n then (n, Err (TermMismatch (rn_current_term n) trm))
      else (n\<lparr>rn_current_term := trm, rn_state := Follower, rn_voted_for := None,
              rn_election_start := None, rn_vote_count := 0\<rparr>, Ok ()))"

definition get_peer_ids :: "raft_node \<Rightarrow> node_id list" where
  "get_peer_ids n = []"

fun track_peers :: "node_id list \<Rightarrow> log_index \<Rightarrow> raft_node \<Rightarrow> raft_node" where
  "track_peers [] last_log_index n = n"
| "track_peers (p # ps) last_log_index n =
     track_peers ps last_log_index
       (n\<lparr>rn_next_index := hm_insert p (last_log_index + 1) (rn_next_index n),
          rn_match_index := hm_insert p 0 (rn_match_index n)\<rparr>)"

definition become_leader ::
    "instant \<Rightarrow> raft_node \<Rightarrow> raft_node \<times> (unit, consensus_error) result" where
  "become_leader now n =
     (if rn_state n \<noteq> Candidate
      then (n, Err (ConsensusGeneric ''Can only become leader from candidate state''))
      else
        let m = (rn_metrics n)\<lparr>elections_won := elections_won (rn_metrics n) + 1\<rparr>;
            m' = (case rn_election_start n of
                    Some t \<Rightarrow> m\<lparr>last_election_duration := Some (now - t)\<rparr>
                  | None \<Rightarrow> m);
            n' = n\<lparr>rn_state := Leader, rn_current_leader := Some (rn_node_id n),
                   rn_election_start := None, rn_metrics := m'\<rparr>
        in (track_peers (get_peer_ids n') (log_len n') n', Ok ()))"

definition vote_response :: "bool \<Rightarrow> bool \<Rightarrow> raft_node \<Rightarrow> request_vote_response" where
  "vote_response granted pre_vote n =
     \<lparr>vr_term = rn_current_term n, vr_vote_granted = granted, vr_pre_vote = pre_vote,
      vr_last_log_index = Some (fst (last_log_info n))\<rparr>"

definition handle_vote_request ::
    "instant \<Rightarrow> request_vote_request \<Rightarrow> raft_node
       \<Rightarrow> raft_node \<times> (request_vote_response, consensus_error) result" where
  "handle_vote_request now request n =
     (if vq_term request < rn_current_term n
      then (n, Ok (vote_response False (vq_pre_vote request) n))
      else
        case (if rn_current_term n < vq_term request then become_follower (vq_term request) n
              else (n, Ok ())) of
          (n1, Ok _) \<Rightarrow>
            let can_vote = (rn_voted_for n1 = None \<or> rn_voted_for n1 = Some (vq_candidate_id request));
                log_ok = is_log_up_to_date (vq_last_log_index request) (vq_last_log_term request) n1;
                granted = (can_vote \<and> log_ok);
                n2 = (if granted \<and> \<not> vq_pre_vote request
                      then n1\<lparr>rn_voted_for := Some (vq_candidate_id request),
                              rn_last_heartbeat := Some now\<rparr>
                      else n1)
            in (n2, Ok (vote_response granted (vq_pre_vote request) n2))
        | (n1, Err e) \<Rightarrow> (n1, Err e)
        | (n1, Panic) \<Rightarrow> (n1, Panic))"

definition majority :: "usize \<Rightarrow> usize" where
  "majority cluster_size = cluster_size div 2 + 1"

definition handle_vote_response ::
    "instant \<Rightarrow> request_vote_response \<Rightarrow> raft_node \<Rightarrow> raft_node \<times> (bool, consensus_error) result" where
  "handle_vote_response now response n =
     (if \<not> is_candidate n then (n, Ok False)
      else if rn_current_term n < vr_term response then
        case become_follower (vr_term response) n of
          (n1, r) \<Rightarrow> (n1, and_then r (\<lambda>_. Ok False))
      else if vr_term response = rn_current_term n \<and> vr_vote_granted response then
        let n1 = n\<lparr>rn_vote_count := rn_vote_count n + 1\<rparr>
        in if majority (rn_cluster_size n1) \<le> rn_vote_count n1
           then case become_leader now n1 of (n2, r) \<Rightarrow> (n2, and_then r (\<lambda>_. Ok True))
           else (n1, Ok False)
      else (n, Ok False))"

section \<open>Replication\<close>

definition append_response ::
    "bool \<Rightarrow> log_index option \<Rightarrow> raft_term option \<Rightarrow> u64 \<Rightarrow> raft_node \<Rightarrow> append_entries_response" where
  "append_response success conflict_index conflict_term rid n =
     \<lparr>ar_term = rn_current_term n, ar_success = success,
      ar_last_log_index = Some (fst (last_log_info n)), ar_conflict_index = conflict_index,
      ar_conflict_term = conflict_term, ar_request_id = rid\<rparr>"

definition handle_append_entries ::
    "instant \<Rightarrow> append_entries_request \<Rightarrow> raft_node
       \<Rightarrow> raft_node \<times> (append_entries_response, consensus_error) result" where
  "handle_append_entries now request n =
     (let rid = aq_request_id request in
      if aq_term request < rn_current_term n
      then (n, Ok (append_response False None None rid n))
      else
        case become_follower (aq_term request) n of
          (n0, Ok _) \<Rightarrow>
            let n1 = n0\<lparr>rn_current_leader := Some (aq_leader_id request),
                        rn_last_heartbeat := Some now\<rparr> in
            if \<not> check_log_consistency (aq_prev_log_index request) (aq_prev_log_term request) n1
            then (case find_conflict_info (aq_prev_log_index request) n1 of
                    (ci, ct) \<Rightarrow> (n1, Ok (append_response False (Some ci) ct rid n1)))
            else
              let n2 = (if aq_entries request \<noteq> []
                        then let a = append_new_entries (aq_prev_log_index request) (aq_entries request) n1
                             in a\<lparr>rn_metrics := (rn_metrics a)\<lparr>entries_appended :=
                                    entries_appended (rn_metrics a) + of_nat (length (aq_entries request))\<rparr>\<rparr>
                        else n1);
                  n3 = (if rn_commit_index n2 < aq_leader_commit request
                        then n2\<lparr>rn_commit_index := min (aq_leader_commit request) (log_len n2)\<rparr>
                        else n2)
              in (n3, Ok (append_response True None None rid n3))
        | (n0, Err e) \<Rightarrow> (n0, Err e)
        | (n0, Panic) \<Rightarrow> (n0, Panic))"

definition create_append_entries ::
    "u64 \<Rightarrow> node_id \<Rightarrow> raft_node \<Rightarrow> (append_entries_request, consensus_error) result" where
  "create_append_entries rid follower_id n =
     (if \<not> is_leader n then Err (NotLeader (rn_current_leader n))
      else
        let next_index = hm_get_or 1 (rn_next_index n) follower_id;
            prev_log_index = saturating_sub next_index 1
        in and_then
             (if prev_log_index = 0 then Ok (term_default, get_entries_from 1 n)
              else case log_get (rn_log n) (unat (prev_log_index - 1)) of
                     Some prev_entry \<Rightarrow> Ok (le_term prev_entry, get_entries_from next_index n)
                   | None \<Rightarrow> Err (LogInconsistency
                       (''Missing log entry at index '' @ decimal (unat prev_log_index))))
             (\<lambda>(prev_log_term, entries).
                Ok \<lparr>aq_term = rn_current_term n, aq_leader_id = rn_node_id n,
                    aq_prev_log_index = prev_log_index, aq_prev_log_term = prev_log_term,
                    aq_entries = take (max_entries_per_append (rn_config n)) entries,
                    aq_leader_commit = rn_commit_index n, aq_request_id = rid\<rparr>))"

definition try_advance_commit_index :: "raft_node \<Rightarrow> raft_node" where
  "try_advance_commit_index n =
     (if \<not> is_leader n then n
      else
        let match_indices = sort (map snd (rn_match_index n) @ [log_len n]);
            majority_index = length match_indices div 2;
            new_commit_index = match_indices ! majority_index
        in if rn_commit_index n < new_commit_index then
             case log_get (rn_log n) (unat (new_commit_index - 1)) of
               Some entry \<Rightarrow>
                 (if le_term entry = rn_current_term n
                  then n\<lparr>rn_commit_index := new_commit_index\<rparr> else n)
             | None \<Rightarrow> n
           else n)"

definition handle_log_conflict ::
    "node_id \<Rightarrow> append_entries_response \<Rightarrow> raft_node \<Rightarrow> raft_node" where
  "handle_log_conflict follower_id response n =
     (case ar_conflict_index response of
        Some conflict_index \<Rightarrow>
          (case ar_conflict_term response of
             Some t \<Rightarrow>
               let next_index = (case last_of_term t 0 (rn_log n) of
                                   Some i \<Rightarrow> of_nat (i + 2)
                                 | None \<Rightarrow> conflict_index)
               in n\<lparr>rn_next_index := hm_insert follower_id next_index (rn_next_index n)\<rparr>
           | None \<Rightarrow>
               n\<lparr>rn_next_index := hm_insert follower_id conflict_index (rn_next_index n)\<rparr>)
      | None \<Rightarrow>
          (case hm_get (rn_next_index n) follower_id of
             Some next_idx \<Rightarrow>
               (if 1 < next_idx
                then n\<lparr>rn_next_index := hm_insert follower_id (next_idx - 1) (rn_next_index n)\<rparr>
                else n)
           | None \<Rightarrow> n))"

definition record_progress :: "node_id \<Rightarrow> log_index option \<Rightarrow> raft_node \<Rightarrow> raft_node" where
  "record_progress follower_id last_log_index n =
     (case last_log_index of
        Some i \<Rightarrow> n\<lparr>rn_next_index := hm_insert follower_id (i + 1) (rn_next_index n),
                    rn_match_index := hm_insert follower_id i (rn_match_index n)\<rparr>
      | None \<Rightarrow> n)"

definition handle_append_entries_response ::
    "node_id \<Rightarrow> append_entries_response \<Rightarrow> raft_node \<Rightarrow> raft_node \<times> (unit, consensus_error) result" where
  "handle_append_entries_response follower_id response n =
     (if \<not> is_leader n then (n, Ok ())
      else if rn_current_term n < ar_term response then become_follower (ar_term response) n
      else if ar_success response
      then (try_advance_commit_index (record_progress follower_id (ar_last_log_index response) n), Ok ())
      else (handle_log_conflict follower_id response n, Ok ()))"

definition append_entry ::
    "clock_reading \<Rightarrow> bytes \<Rightarrow> raft_node \<Rightarrow> raft_node \<times> (log_index, consensus_error) result" where
  "append_entry clk command n =
     (if \<not> is_leader n then (n, Err (NotLeader (rn_current_leader n)))
      else
        let index = of_nat (length (rn_log n) + 1);
            entry = log_entry_new clk (rn_current_term n) index command
        in (n\<lparr>rn_log := rn_log n @ [entry],
              rn_metrics := (rn_metrics n)\<lparr>entries_appended := entries_appended (rn_metrics n) + 1,
                                         log_size_bytes := log_size_bytes (rn_metrics n) + le_size entry\<rparr>\<rparr>,
            Ok index))"

text \<open>
  The caller's \<open>apply_fn\<close> has a state of its own; the loop stops at its first error, and at a
  committed index with no entry, with \<open>last_applied\<close> already advanced.
\<close>

function (sequential) apply_committed_entries ::
    "('s \<Rightarrow> log_entry \<Rightarrow> 's \<times> (unit, consensus_error) result) \<Rightarrow> 's \<Rightarrow> raft_node
       \<Rightarrow> 's \<times> raft_node \<times> (unit, consensus_error) result" where
  "apply_committed_entries apply_fn s n =
     (if rn_last_applied n < rn_commit_index n then
        let n1 = n\<lparr>rn_last_applied := rn_last_applied n + 1\<rparr> in
        case log_get (rn_log n1) (unat (rn_last_applied n1 - 1)) of
          Some entry \<Rightarrow>
            (case apply_fn s entry of
               (s1, Ok _) \<Rightarrow>
                 apply_committed_entries apply_fn s1
                   (n1\<lparr>rn_metrics := (rn_metrics n1)\<lparr>entries_committed := entries_committed (rn_metrics n1) + 1\<rparr>\<rparr>)
             | (s1, Err e) \<Rightarrow> (s1, n1, Err e)
             | (s1, Panic) \<Rightarrow> (s1, n1, Panic))
        | None \<Rightarrow>
            (s, n1, Err (LogInconsistency
               (''Missing committed entry at index '' @ decimal (unat (rn_last_applied n1)))))
      else (s, n, Ok ()))"
  by pat_completeness auto

lemma applied_progress:
  assumes "(a :: u64) < c"
  shows "unat c - unat (a + 1) < unat c - unat a"
proof -
  have "a \<noteq> - 1" using assms by auto
  then show ?thesis using word_less_plus_one[of a] assms by (simp add: word_less_nat_alt)
qed

termination apply_committed_entries
  by (relation "measure (\<lambda>(f, s, n). unat (rn_commit_index n) - unat (rn_last_applied n))")
     (auto simp: applied_progress)

declare apply_committed_entries.simps [simp del]

section \<open>The timer\<close>

definition heartbeat_tick ::
    "(nat \<Rightarrow> nat \<Rightarrow> nat) \<Rightarrow> instant \<Rightarrow> raft_node
       \<Rightarrow> raft_node \<times> (unit, consensus_error) result" where
  "heartbeat_tick rng now n =
     (case rn_state n of
        Leader \<Rightarrow> (n, Ok ())
      | _ \<Rightarrow>
          (case is_election_timeout rng now n of
             Ok True \<Rightarrow> (case start_election now n of (n1, r) \<Rightarrow> (n1, and_then r (\<lambda>_. Ok ())))
           | Ok False \<Rightarrow> (n, Ok ())
           | Err e \<Rightarrow> (n, Err e)
           | Panic \<Rightarrow> (n, Panic)))"

end
