(* ===== verification/Raft_Election.thy ===== *)
theory Raft_Election
  imports Raft
begin

text \<open>
  A cluster of Raft nodes on a network that delays, reorders and loses messages but delivers each at
  most once. The nodes run the handlers of \<^verbatim>\<open>src/kaelix-cluster/src/consensus/mod.rs\<close>; the driver
  around them does what \<^verbatim>\<open>RaftCluster\<close> does with their results: a vote request goes to every other
  member, a response to the node that asked. Proved here: elections alone are safe, and append
  entries requests break that safety.
\<close>

section \<open>The cluster\<close>

datatype raft_message =
    RequestVote request_vote_request
  | VoteResponse request_vote_response
  | AppendEntries append_entries_request
  | AppendResponse append_entries_response

type_synonym envelope = "node_id \<times> node_id \<times> raft_message"

record cluster =
  cl_nodes :: "node_id \<Rightarrow> raft_node"
  cl_net :: "envelope list"

definition cluster_init :: "node_id list \<Rightarrow> raft_config \<Rightarrow> cluster" where
  "cluster_init ms cfg = \<lparr>cl_nodes = (\<lambda>p. raft_new p (length ms) cfg), cl_net = []\<rparr>"

text \<open>
  \<open>Elect p r now\<close>: the timer of \<open>p\<close> fires and the random timeout is \<open>r\<close>; \<open>Deliver i now\<close>: the
  \<open>i\<close>-th message in flight arrives; \<open>Replicate p q rid\<close>: \<open>p\<close> sends \<open>q\<close> what \<open>create_append_entries\<close>
  builds.
\<close>

datatype action = Elect node_id nat instant | Deliver nat instant | Replicate node_id node_id u64

definition broadcast_vote :: "node_id list \<Rightarrow> node_id \<Rightarrow> request_vote_request \<Rightarrow> envelope list" where
  "broadcast_vote ms p q = map (\<lambda>v. (p, v, RequestVote q)) (filter (\<lambda>v. v \<noteq> p) ms)"

fun receive :: "instant \<Rightarrow> envelope \<Rightarrow> raft_node \<Rightarrow> raft_node \<times> envelope list" where
  "receive now (f, p, RequestVote q) n =
     (case handle_vote_request now q n of
        (n', Ok r) \<Rightarrow> (n', [(p, vq_candidate_id q, VoteResponse r)])
      | (n', _) \<Rightarrow> (n', []))"
| "receive now (f, p, VoteResponse r) n = (fst (handle_vote_response now r n), [])"
| "receive now (f, p, AppendEntries q) n =
     (case handle_append_entries now q n of
        (n', Ok r) \<Rightarrow> (n', [(p, aq_leader_id q, AppendResponse r)])
      | (n', _) \<Rightarrow> (n', []))"
| "receive now (f, p, AppendResponse r) n = (fst (handle_append_entries_response f r n), [])"

fun cluster_step :: "node_id list \<Rightarrow> action \<Rightarrow> cluster \<Rightarrow> cluster" where
  "cluster_step ms (Elect p r now) s =
     (if p \<in> set ms \<and> is_election_timeout (\<lambda>lo hi. r) now (cl_nodes s p) = Ok True then
        case start_election now (cl_nodes s p) of
          (n, Ok q) \<Rightarrow> s\<lparr>cl_nodes := (cl_nodes s)(p := n), cl_net := cl_net s @ broadcast_vote ms p q\<rparr>
        | (n, _) \<Rightarrow> s\<lparr>cl_nodes := (cl_nodes s)(p := n)\<rparr>
      else s)"
| "cluster_step ms (Deliver i now) s =
     (if i < length (cl_net s) then
        let m = cl_net s ! i; p = fst (snd m) in
        case receive now m (cl_nodes s p) of
          (n, out) \<Rightarrow> s\<lparr>cl_nodes := (cl_nodes s)(p := n),
                         cl_net := take i (cl_net s) @ drop (Suc i) (cl_net s) @ out\<rparr>
      else s)"
| "cluster_step ms (Replicate p q rid) s =
     (case create_append_entries rid q (cl_nodes s p) of
        Ok a \<Rightarrow> s\<lparr>cl_net := cl_net s @ [(p, q, AppendEntries a)]\<rparr>
      | _ \<Rightarrow> s)"

definition run_cluster :: "node_id list \<Rightarrow> raft_config \<Rightarrow> action list \<Rightarrow> cluster" where
  "run_cluster ms cfg acts = foldl (\<lambda>s a. cluster_step ms a s) (cluster_init ms cfg) acts"

fun is_election_action :: "action \<Rightarrow> bool" where
  "is_election_action (Replicate p q rid) = False"
| "is_election_action _ = True"

lemma run_snoc: "run_cluster ms cfg (acts @ [a]) = cluster_step ms a (run_cluster ms cfg acts)"
  by (simp add: run_cluster_def)

section \<open>What the vote handlers do\<close>

lemma become_follower_ok:
  "rn_current_term n \<le> t \<Longrightarrow> become_follower t n =
     (n\<lparr>rn_current_term := t, rn_state := Follower, rn_voted_for := None,
        rn_election_start := None, rn_vote_count := 0\<rparr>, Ok ())"
  by (simp add: become_follower_def)

definition votes_as :: "request_vote_request \<Rightarrow> raft_node \<Rightarrow> raft_node \<Rightarrow> request_vote_response \<Rightarrow> bool" where
  "votes_as q n n' r =
     (rn_node_id n' = rn_node_id n \<and> rn_cluster_size n' = rn_cluster_size n
      \<and> rn_current_term n' = max (rn_current_term n) (vq_term q) \<and> vr_term r = rn_current_term n'
      \<and> (rn_current_term n' = rn_current_term n \<longrightarrow>
           rn_state n' = rn_state n \<and> rn_vote_count n' = rn_vote_count n)
      \<and> (rn_current_term n' \<noteq> rn_current_term n \<longrightarrow> rn_state n' = Follower)
      \<and> (vr_vote_granted r \<longrightarrow>
           vq_term q = rn_current_term n' \<and> rn_voted_for n' = Some (vq_candidate_id q))
      \<and> (\<forall>x. rn_voted_for n = Some x \<longrightarrow> rn_current_term n' = rn_current_term n \<longrightarrow>
           rn_voted_for n' = Some x))"

lemma handle_vote_request_votes:
  assumes "\<not> vq_pre_vote q"
  shows "\<exists>n' r. handle_vote_request now q n = (n', Ok r) \<and> votes_as q n n' r"
proof (cases "vq_term q < rn_current_term n")
  case True
  then show ?thesis
    by (auto simp: handle_vote_request_def votes_as_def vote_response_def max_def)
next
  case False
  then show ?thesis
    using assms
    by (cases "rn_current_term n < vq_term q")
      (auto simp: handle_vote_request_def votes_as_def vote_response_def become_follower_ok Let_def max_def)
qed

lemma track_peers_empty: "track_peers (get_peer_ids n) i m = m"
  by (simp add: get_peer_ids_def)

lemma handle_vote_response_cases:
  "(fst (handle_vote_response now r n) = n
      \<and> (is_candidate n \<longrightarrow> \<not> (vr_term r = rn_current_term n \<and> vr_vote_granted r)))
   \<or> (rn_current_term n < vr_term r
      \<and> fst (handle_vote_response now r n) = fst (become_follower (vr_term r) n))
   \<or> (is_candidate n \<and> vr_term r = rn_current_term n \<and> vr_vote_granted r
      \<and> (let n' = fst (handle_vote_response now r n) in
         rn_node_id n' = rn_node_id n \<and> rn_cluster_size n' = rn_cluster_size n
         \<and> rn_current_term n' = rn_current_term n \<and> rn_voted_for n' = rn_voted_for n
         \<and> rn_vote_count n' = rn_vote_count n + 1
         \<and> (rn_state n' = Candidate
            \<or> rn_state n' = Leader \<and> majority (rn_cluster_size n) \<le> rn_vote_count n')))"
  by (auto simp: handle_vote_response_def become_leader_def is_candidate_def track_peers_empty Let_def
      split: prod.splits option.splits)

section \<open>The election invariant\<close>

text \<open>
  \<open>G\<close> is the set of votes \<open>(voter, term, candidate)\<close> ever granted, \<open>D\<close> the votes that a candidate
  has counted. A vote that is neither refused nor lost is a token: it travels as a request, then as
  a granted response, then is in \<open>D\<close>; there is never more than one token for a voter, a term and a
  candidate.
\<close>

type_synonym votes = "(node_id \<times> raft_term \<times> node_id) set"

fun is_token :: "node_id \<Rightarrow> raft_term \<Rightarrow> node_id \<Rightarrow> envelope \<Rightarrow> bool" where
  "is_token v t c (f, p, RequestVote q) = (f = c \<and> p = v \<and> vq_term q = t)"
| "is_token v t c (f, p, VoteResponse r) = (f = v \<and> p = c \<and> vr_term r = t \<and> vr_vote_granted r)"
| "is_token v t c (f, p, AppendEntries q) = False"
| "is_token v t c (f, p, AppendResponse r) = False"

definition tokens :: "envelope list \<Rightarrow> votes \<Rightarrow> node_id \<Rightarrow> raft_term \<Rightarrow> node_id \<Rightarrow> nat" where
  "tokens net D v t c = length (filter (is_token v t c) net) + of_bool ((v, t, c) \<in> D)"

fun msg_ok :: "node_id list \<Rightarrow> nat \<Rightarrow> (node_id \<Rightarrow> raft_node) \<Rightarrow> votes \<Rightarrow> envelope \<Rightarrow> bool" where
  "msg_ok ms k N G (f, p, RequestVote q) =
     (f \<in> set ms \<and> p \<in> set ms \<and> p \<noteq> f \<and> vq_candidate_id q = f \<and> \<not> vq_pre_vote q
      \<and> vq_term q \<le> rn_current_term (N f))"
| "msg_ok ms k N G (f, p, VoteResponse r) =
     (p \<in> set ms \<and> f \<noteq> p \<and> unat (vr_term r) \<le> k \<and> (vr_vote_granted r \<longrightarrow> (f, vr_term r, p) \<in> G))"
| "msg_ok ms k N G (f, p, AppendEntries q) = False"
| "msg_ok ms k N G (f, p, AppendResponse r) = False"

definition nodes_ok :: "node_id list \<Rightarrow> nat \<Rightarrow> (node_id \<Rightarrow> raft_node) \<Rightarrow> bool" where
  "nodes_ok ms k N =
     (\<forall>p. rn_node_id (N p) = p \<and> rn_cluster_size (N p) = length ms \<and> unat (rn_current_term (N p)) \<le> k)"

definition votes_ok :: "node_id list \<Rightarrow> (node_id \<Rightarrow> raft_node) \<Rightarrow> votes \<Rightarrow> bool" where
  "votes_ok ms N G =
     ((\<forall>v t c. (v, t, c) \<in> G \<longrightarrow> v \<in> set ms \<and> t \<le> rn_current_term (N v)
         \<and> (t = rn_current_term (N v) \<longrightarrow> rn_voted_for (N v) = Some c))
      \<and> (\<forall>v t c c'. (v, t, c) \<in> G \<longrightarrow> (v, t, c') \<in> G \<longrightarrow> c = c'))"

definition tokens_ok :: "envelope list \<Rightarrow> (node_id \<Rightarrow> raft_node) \<Rightarrow> votes \<Rightarrow> bool" where
  "tokens_ok net N D =
     (\<forall>v t c. tokens net D v t c \<le> 1 \<and> (rn_current_term (N c) < t \<longrightarrow> tokens net D v t c = 0))"

definition counts_ok :: "(node_id \<Rightarrow> raft_node) \<Rightarrow> votes \<Rightarrow> votes \<Rightarrow> bool" where
  "counts_ok N G D =
     (D \<subseteq> G \<and> (\<forall>v t. (v, t, v) \<notin> D)
      \<and> (\<forall>c. rn_state (N c) = Candidate \<longrightarrow>
           (c, rn_current_term (N c), c) \<in> G
           \<and> rn_vote_count (N c) = Suc (card {v. (v, rn_current_term (N c), c) \<in> D})))"

definition leads_ok :: "node_id list \<Rightarrow> (node_id \<Rightarrow> raft_node) \<Rightarrow> votes \<Rightarrow> bool" where
  "leads_ok ms N G =
     (\<forall>c. rn_state (N c) = Leader \<longrightarrow>
        majority (length ms) \<le> card {v. (v, rn_current_term (N c), c) \<in> G})"

definition election_inv :: "node_id list \<Rightarrow> nat \<Rightarrow> cluster \<Rightarrow> votes \<Rightarrow> votes \<Rightarrow> bool" where
  "election_inv ms k s G D =
     (nodes_ok ms k (cl_nodes s) \<and> votes_ok ms (cl_nodes s) G
      \<and> (\<forall>e\<in>set (cl_net s). msg_ok ms k (cl_nodes s) G e)
      \<and> tokens_ok (cl_net s) (cl_nodes s) D \<and> counts_ok (cl_nodes s) G D \<and> leads_ok ms (cl_nodes s) G)"

lemmas election_inv_defs = nodes_ok_def votes_ok_def tokens_ok_def counts_ok_def leads_ok_def

lemma voters_finite: "votes_ok ms N G \<Longrightarrow> finite {v. (v, t, c) \<in> G}"
  by (rule finite_subset[of _ "set ms"]) (auto simp: votes_ok_def)

lemma msg_ok_mono:
  assumes "msg_ok ms k N G e" "k \<le> k'" "G \<subseteq> G'" "\<And>p. rn_current_term (N p) \<le> rn_current_term (N' p)"
  shows "msg_ok ms k' N' G' e"
proof -
  obtain f p m where e: "e = (f, p, m)" by (cases e)
  show ?thesis using assms(1-3) assms(4)[of f] unfolding e by (cases m) (auto intro: order_trans)
qed

lemma msgs_ok_mono:
  assumes "\<forall>e\<in>set xs. msg_ok ms k N G e" "set ys \<subseteq> set xs" "k \<le> k'" "G \<subseteq> G'"
    and "\<And>p. rn_current_term (N p) \<le> rn_current_term (N' p)"
  shows "\<forall>e\<in>set ys. msg_ok ms k' N' G' e"
  using assms(1,2) by (auto intro!: msg_ok_mono[OF _ assms(3-5)])

lemma leads_ok_mono:
  assumes "leads_ok ms N G" "votes_ok ms N' G'" "G \<subseteq> G'"
    and "\<And>c. rn_state (N' c) = Leader \<Longrightarrow>
           rn_state (N c) = Leader \<and> rn_current_term (N' c) = rn_current_term (N c)"
  shows "leads_ok ms N' G'"
  unfolding leads_ok_def
proof (intro allI impI)
  fix c assume c: "rn_state (N' c) = Leader"
  have "{v. (v, rn_current_term (N c), c) \<in> G} \<subseteq> {v. (v, rn_current_term (N c), c) \<in> G'}"
    using assms(3) by auto
  then have "card {v. (v, rn_current_term (N c), c) \<in> G} \<le> card {v. (v, rn_current_term (N c), c) \<in> G'}"
    using voters_finite[OF assms(2)] by (intro card_mono) auto
  moreover have "majority (length ms) \<le> card {v. (v, rn_current_term (N c), c) \<in> G}"
    using assms(1) assms(4)[OF c] by (simp add: leads_ok_def)
  ultimately show "majority (length ms) \<le> card {v. (v, rn_current_term (N' c), c) \<in> G'}"
    using assms(4)[OF c] by simp
qed

lemma votes_ok_update:
  assumes ok: "votes_ok ms N G" and v: "v \<in> set ms" and le: "rn_current_term (N v) \<le> rn_current_term n'"
    and keep: "\<And>x. rn_voted_for (N v) = Some x \<Longrightarrow> rn_current_term n' = rn_current_term (N v) \<Longrightarrow>
                 rn_voted_for n' = Some x"
    and G': "G' = G \<or> G' = insert (v, rn_current_term n', c) G \<and> rn_voted_for n' = Some c"
  shows "votes_ok ms (N(v := n')) G'"
proof -
  have old: "t \<le> rn_current_term n' \<and> (t = rn_current_term n' \<longrightarrow> rn_voted_for n' = Some c')"
    if "(v, t, c') \<in> G" for t c'
  proof -
    from that ok have "t \<le> rn_current_term (N v)"
      "t = rn_current_term (N v) \<longrightarrow> rn_voted_for (N v) = Some c'"
      by (auto simp: votes_ok_def)
    with le keep show ?thesis by (metis order_antisym order_trans)
  qed
  from G' show ?thesis
  proof
    assume "G' = G"
    then show ?thesis using ok old by (auto simp: votes_ok_def)
  next
    assume G': "G' = insert (v, rn_current_term n', c) G \<and> rn_voted_for n' = Some c"
    then have "(v, rn_current_term n', c') \<in> G \<Longrightarrow> c' = c" for c' using old by fastforce
    then show ?thesis using ok old v G' by (auto simp: votes_ok_def)
  qed
qed

lemma tokens_ok_shrink:
  assumes "tokens_ok net N D" "\<And>v t c. tokens net' D' v t c \<le> tokens net D v t c"
    and "\<And>p. rn_current_term (N p) \<le> rn_current_term (N' p)"
  shows "tokens_ok net' N' D'"
  unfolding tokens_ok_def
proof (intro allI conjI impI)
  fix v t c
  show "tokens net' D' v t c \<le> 1"
    using assms(1) assms(2)[of v t c] by (auto simp: tokens_ok_def intro: order_trans)
  assume "rn_current_term (N' c) < t"
  then have "rn_current_term (N c) < t" using assms(3)[of c] by simp
  then show "tokens net' D' v t c = 0" using assms(1) assms(2)[of v t c] by (auto simp: tokens_ok_def)
qed

subsection \<open>Starting an election\<close>

lemma tokens_broadcast:
  "distinct ms \<Longrightarrow>
     tokens (net @ broadcast_vote ms p q) D v t c
     = tokens net D v t c + of_bool (c = p \<and> v \<in> set ms \<and> v \<noteq> p \<and> vq_term q = t)"
  by (induction ms) (auto simp: tokens_def broadcast_vote_def)

lemma elect_inv:
  assumes inv: "election_inv ms k s G D" and p: "p \<in> set ms" and d: "distinct ms"
    and k: "Suc k < 2 ^ 64" and el: "start_election now (cl_nodes s p) = (n, Ok q)"
  shows "election_inv ms (Suc k)
           (s\<lparr>cl_nodes := (cl_nodes s)(p := n), cl_net := cl_net s @ broadcast_vote ms p q\<rparr>)
           (insert (p, rn_current_term n, p) G) D"
proof -
  let ?N = "cl_nodes s" and ?N' = "(cl_nodes s)(p := n)" and ?G = "insert (p, rn_current_term n, p) G"
  let ?t = "rn_current_term (cl_nodes s p)"
  have n: "rn_node_id n = rn_node_id (?N p)" "rn_cluster_size n = rn_cluster_size (?N p)"
    "rn_current_term n = ?t + 1" "rn_state n = Candidate" "rn_voted_for n = Some (rn_node_id (?N p))"
    "rn_vote_count n = 1"
    and q: "vq_term q = ?t + 1" "vq_candidate_id q = rn_node_id (?N p)" "\<not> vq_pre_vote q"
    using el by (auto simp: start_election_def Let_def term_increment_def)
  from inv have i: "nodes_ok ms k ?N" "votes_ok ms ?N G" "tokens_ok (cl_net s) ?N D" "counts_ok ?N G D"
    "leads_ok ms ?N G" and m: "\<forall>e\<in>set (cl_net s). msg_ok ms k ?N G e"
    by (simp_all add: election_inv_def)
  have id: "rn_node_id (?N p) = p" and "unat ?t \<le> k" using i(1) by (auto simp: nodes_ok_def)
  then have un: "unat (?t + 1) = Suc (unat ?t)" using k by (intro unat_plus_one) simp
  then have lt: "?t < rn_current_term n" by (simp add: word_less_nat_alt n)
  have mono: "rn_current_term (?N x) \<le> rn_current_term (?N' x)" for x
    using less_imp_le[OF lt] by simp
  have tok: "rn_current_term (?N p) < t \<Longrightarrow> tokens (cl_net s) D v t p = 0" for v t
    using i(3) by (simp add: tokens_ok_def)
  have "nodes_ok ms (Suc k) ?N'"
    using i(1) n un by (auto simp: nodes_ok_def intro: le_SucI)
  moreover have v': "votes_ok ms ?N' ?G"
    by (rule votes_ok_update[OF i(2) p, where c = p]) (use lt n(5) id in auto)
  moreover have "\<forall>e\<in>set (cl_net s @ broadcast_vote ms p q). msg_ok ms (Suc k) ?N' ?G e"
  proof -
    have "\<forall>e\<in>set (cl_net s). msg_ok ms (Suc k) ?N' ?G e"
      by (rule msgs_ok_mono[OF m]) (use mono in auto)
    then show ?thesis using q id n(3) p by (auto simp: broadcast_vote_def)
  qed
  moreover have "tokens_ok (cl_net s @ broadcast_vote ms p q) ?N' D"
    using i(3) tok[of "vq_term q"] lt n(3) q(1) unfolding tokens_ok_def tokens_broadcast[OF d]
    by (auto dest: less_trans)
  moreover have "counts_ok ?N' ?G D"
  proof -
    have "(v, rn_current_term n, p) \<notin> D" for v using tok[OF lt] by (simp add: tokens_def)
    then show ?thesis using i(4) n(4,6) by (auto simp: counts_ok_def)
  qed
  moreover have "leads_ok ms ?N' ?G"
    using i(5) v' n(4) by (rule_tac leads_ok_mono[of ms ?N G]) (auto split: if_splits)
  ultimately show ?thesis by (simp add: election_inv_def)
qed

subsection \<open>Answering a vote request\<close>

lemma tokens_append: "tokens (a @ b) D v t c = tokens a D v t c + length (filter (is_token v t c) b)"
  by (simp add: tokens_def)

lemma vote_request_inv:
  assumes inv: "election_inv ms k s G D" and net: "cl_net s = a @ (f, p, RequestVote q) # b"
    and h: "handle_vote_request now q (cl_nodes s p) = (n, Ok r)" and v: "votes_as q (cl_nodes s p) n r"
  shows "election_inv ms k
           (s\<lparr>cl_nodes := (cl_nodes s)(p := n), cl_net := a @ b @ [(p, vq_candidate_id q, VoteResponse r)]\<rparr>)
           (if vr_vote_granted r then insert (p, rn_current_term n, f) G else G) D"
proof -
  let ?N = "cl_nodes s" and ?N' = "(cl_nodes s)(p := n)"
  let ?G = "if vr_vote_granted r then insert (p, rn_current_term n, f) G else G"
  from inv have i: "nodes_ok ms k ?N" "votes_ok ms ?N G" "tokens_ok (cl_net s) ?N D" "counts_ok ?N G D"
    "leads_ok ms ?N G" and m: "\<forall>e\<in>set (cl_net s). msg_ok ms k ?N G e"
    by (simp_all add: election_inv_def)
  from m net have q: "p \<in> set ms" "p \<noteq> f" "vq_candidate_id q = f" "vq_term q \<le> rn_current_term (?N f)"
    "f \<in> set ms"
    by auto
  have le: "rn_current_term (?N p) \<le> rn_current_term n" using v by (auto simp: votes_as_def)
  have mono: "rn_current_term (?N x) \<le> rn_current_term (?N' x)" for x using le by simp
  have tm: "vr_term r = rn_current_term n" "vr_vote_granted r \<Longrightarrow> rn_current_term n = vq_term q"
    using v unfolding votes_as_def by argo+
  have st: "rn_current_term n = rn_current_term (?N p) \<and> rn_state n = rn_state (?N p)
      \<and> rn_vote_count n = rn_vote_count (?N p) \<or> rn_state n = Follower"
    using v unfolding votes_as_def by argo
  have bound: "unat (rn_current_term n) \<le> k"
    using v i(1) q(4) order_trans[of "unat (vq_term q)" "unat (rn_current_term (?N f))" k]
    by (auto simp: votes_as_def nodes_ok_def max_def word_le_nat_alt)
  have "nodes_ok ms k ?N'" using i(1) v bound by (auto simp: nodes_ok_def votes_as_def)
  moreover have v': "votes_ok ms ?N' ?G"
  proof (rule votes_ok_update[OF i(2) q(1) le, where c = f])
    show "rn_voted_for n = Some x"
      if "rn_voted_for (?N p) = Some x" "rn_current_term n = rn_current_term (?N p)" for x
      using v that unfolding votes_as_def by blast
    have "vr_vote_granted r \<Longrightarrow> rn_voted_for n = Some f"
      using v q(3) unfolding votes_as_def by blast
    then show "?G = G \<or> ?G = insert (p, rn_current_term n, f) G \<and> rn_voted_for n = Some f" by simp
  qed
  moreover have "\<forall>e\<in>set (a @ b @ [(p, vq_candidate_id q, VoteResponse r)]). msg_ok ms k ?N' ?G e"
  proof -
    have "\<forall>e\<in>set (a @ b). msg_ok ms k ?N' ?G e"
      by (rule msgs_ok_mono[OF m]) (use mono net in auto)
    moreover have "msg_ok ms k ?N' ?G (p, vq_candidate_id q, VoteResponse r)"
      using q(2,3,5) bound tm(1) by simp
    ultimately show ?thesis by simp
  qed
  moreover have "tokens_ok (a @ b @ [(p, vq_candidate_id q, VoteResponse r)]) ?N' D"
    using tm q(3) by (intro tokens_ok_shrink[OF i(3) _ mono]) (auto simp: net tokens_def)
  moreover have "counts_ok ?N' ?G D"
    using i(4) st by (auto simp: counts_ok_def)
  moreover have "leads_ok ms ?N' ?G"
    by (rule leads_ok_mono[OF i(5) v']) (use st in \<open>auto split: if_splits\<close>)
  ultimately show ?thesis by (simp add: election_inv_def)
qed

subsection \<open>Counting a vote\<close>

lemma vote_response_inv:
  assumes inv: "election_inv ms k s G D" and net: "cl_net s = a @ (f, p, VoteResponse r) # b"
    and n: "n = fst (handle_vote_response now r (cl_nodes s p))"
  shows "\<exists>D'. election_inv ms k (s\<lparr>cl_nodes := (cl_nodes s)(p := n), cl_net := a @ b\<rparr>) G D'"
proof -
  let ?N = "cl_nodes s" and ?N' = "(cl_nodes s)(p := n)" and ?t = "rn_current_term (cl_nodes s p)"
  from inv have i: "nodes_ok ms k ?N" "votes_ok ms ?N G" "tokens_ok (cl_net s) ?N D" "counts_ok ?N G D"
    "leads_ok ms ?N G" and m: "\<forall>e\<in>set (cl_net s). msg_ok ms k ?N G e"
    by (simp_all add: election_inv_def)
  from m net have p: "p \<in> set ms" and r: "f \<noteq> p" "unat (vr_term r) \<le> k" "vr_vote_granted r \<Longrightarrow> (f, vr_term r, p) \<in> G"
    by auto
  consider (same) "n = ?N p" | (newer) "?t < vr_term r" "n = fst (become_follower (vr_term r) (?N p))"
    | (counted) "rn_state (?N p) = Candidate" "vr_term r = ?t" "vr_vote_granted r"
        "rn_node_id n = rn_node_id (?N p)" "rn_cluster_size n = rn_cluster_size (?N p)"
        "rn_current_term n = ?t" "rn_voted_for n = rn_voted_for (?N p)"
        "rn_vote_count n = rn_vote_count (?N p) + 1"
        "rn_state n = Candidate \<or> rn_state n = Leader \<and> majority (rn_cluster_size (?N p)) \<le> rn_vote_count n"
    using handle_vote_response_cases[of now r "?N p"] unfolding n Let_def is_candidate_def by blast
  then show ?thesis
  proof cases
    case same
    then have "tokens_ok (a @ b) ?N D" by (intro tokens_ok_shrink[OF i(3)]) (auto simp: net tokens_def)
    with same i m net have "election_inv ms k (s\<lparr>cl_nodes := ?N', cl_net := a @ b\<rparr>) G D"
      by (auto simp: election_inv_def)
    then show ?thesis ..
  next
    case newer
    then have n: "n = (?N p)\<lparr>rn_current_term := vr_term r, rn_state := Follower, rn_voted_for := None,
        rn_election_start := None, rn_vote_count := 0\<rparr>" by (simp add: become_follower_ok)
    have mono: "rn_current_term (?N x) \<le> rn_current_term (?N' x)" for x
      using less_imp_le[OF newer(1)] n by simp
    have v': "votes_ok ms ?N' G"
      by (rule votes_ok_update[OF i(2) p, where c = p]) (use newer(1) n in auto)
    have "tokens_ok (a @ b) ?N' D"
      using mono by (intro tokens_ok_shrink[OF i(3)]) (auto simp: net tokens_def)
    moreover have "\<forall>e\<in>set (a @ b). msg_ok ms k ?N' G e"
      by (rule msgs_ok_mono[OF m]) (use mono net in auto)
    moreover have "leads_ok ms ?N' G" using n by (intro leads_ok_mono[OF i(5) v']) (auto split: if_splits)
    ultimately have "election_inv ms k (s\<lparr>cl_nodes := ?N', cl_net := a @ b\<rparr>) G D"
      using i(1,4) v' r(2) n by (auto simp: election_inv_def nodes_ok_def counts_ok_def)
    then show ?thesis ..
  next
    case counted
    let ?D = "insert (f, ?t, p) D"
    have inG: "(f, ?t, p) \<in> G" using r(3) counted by simp
    have "tokens (cl_net s) D f ?t p \<le> 1" using i(3) by (simp add: tokens_ok_def)
    then have fresh: "(f, ?t, p) \<notin> D" using counted by (simp add: net tokens_def)
    have v': "votes_ok ms ?N' G"
      by (rule votes_ok_update[OF i(2) p, where c = p]) (use counted in auto)
    have fin: "finite {v. (v, t, c) \<in> G}" for t c by (rule voters_finite[OF v'])
    have cnt: "rn_vote_count n = Suc (card {v. (v, ?t, p) \<in> ?D})"
    proof -
      have "{v. (v, ?t, p) \<in> ?D} = insert f {v. (v, ?t, p) \<in> D}" by auto
      moreover have "finite {v. (v, ?t, p) \<in> D}"
        using i(4) by (intro finite_subset[OF _ fin[of ?t p]]) (auto simp: counts_ok_def)
      ultimately show ?thesis using i(4) counted fresh by (simp add: counts_ok_def)
    qed
    have "counts_ok ?N' G ?D"
    proof -
      have "{v. (v, t, c) \<in> ?D} = {v. (v, t, c) \<in> D}" if "c \<noteq> p" for t c using that by auto
      then show ?thesis using i(4) inG cnt counted r(1) by (auto simp: counts_ok_def)
    qed
    moreover have "leads_ok ms ?N' G"
    proof -
      have self: "insert p {v. (v, ?t, p) \<in> ?D} \<subseteq> {v. (v, ?t, p) \<in> G}"
        using i(4) inG counted by (auto simp: counts_ok_def)
      have "card (insert p {v. (v, ?t, p) \<in> ?D}) = rn_vote_count n"
        using i(4) r(1) finite_subset[OF self fin] unfolding cnt by (auto simp: counts_ok_def)
      then have "rn_vote_count n \<le> card {v. (v, ?t, p) \<in> G}" using card_mono[OF fin self] by simp
      then show ?thesis using i(1,5) counted by (auto simp: leads_ok_def nodes_ok_def)
    qed
    moreover have "tokens_ok (a @ b) ?N' ?D"
      using counted by (intro tokens_ok_shrink[OF i(3)]) (auto simp: net tokens_def)
    moreover have "\<forall>e\<in>set (a @ b). msg_ok ms k ?N' G e"
      by (rule msgs_ok_mono[OF m]) (use counted(6) net in auto)
    ultimately have "election_inv ms k (s\<lparr>cl_nodes := ?N', cl_net := a @ b\<rparr>) G ?D"
      using i(1) v' counted by (auto simp: election_inv_def nodes_ok_def)
    then show ?thesis ..
  qed
qed

subsection \<open>Every election run\<close>

lemma election_inv_le: "election_inv ms k s G D \<Longrightarrow> k \<le> k' \<Longrightarrow> election_inv ms k' s G D"
  using msgs_ok_mono[of "cl_net s" ms k "cl_nodes s" G "cl_net s" k' G "cl_nodes s"]
  by (auto simp: election_inv_def nodes_ok_def intro: order_trans)

lemma deliver_inv:
  assumes inv: "election_inv ms k s G D" and i: "i < length (cl_net s)"
  shows "\<exists>G' D'. election_inv ms k (cluster_step ms (Deliver i now) s) G' D'"
proof -
  obtain f p m where e: "cl_net s ! i = (f, p, m)" by (cases "cl_net s ! i")
  let ?a = "take i (cl_net s)" and ?b = "drop (Suc i) (cl_net s)"
  have net: "cl_net s = ?a @ (f, p, m) # ?b" using id_take_nth_drop[OF i] e by simp
  have ok: "msg_ok ms k (cl_nodes s) G (f, p, m)"
    using inv i e by (metis election_inv_def nth_mem)
  show ?thesis
  proof (cases m)
    case (RequestVote q)
    then obtain n r where "handle_vote_request now q (cl_nodes s p) = (n, Ok r)"
      "votes_as q (cl_nodes s p) n r"
      using ok handle_vote_request_votes[of q now "cl_nodes s p"] by auto
    with vote_request_inv[OF inv, of ?a f p q ?b now n r] net RequestVote i e show ?thesis by auto
  next
    case (VoteResponse r)
    with vote_response_inv[OF inv, of ?a f p r ?b _ now] net i e show ?thesis by auto
  qed (use ok in auto)
qed

lemma step_inv:
  assumes inv: "election_inv ms k s G D" and d: "distinct ms" and k: "Suc k < 2 ^ 64"
    and a: "is_election_action a"
  shows "\<exists>G' D'. election_inv ms (Suc k) (cluster_step ms a s) G' D'"
proof (cases a)
  case (Elect p r now)
  then show ?thesis
    using elect_inv[OF inv _ d k, of p now] election_inv_le[OF inv, of "Suc k"]
    by (auto simp: start_election_def Let_def)
next
  case (Deliver i now)
  have up: "election_inv ms k s' G' D' \<Longrightarrow> election_inv ms (Suc k) s' G' D'" for s' G' D'
    by (rule election_inv_le) auto
  show ?thesis
  proof (cases "i < length (cl_net s)")
    case True
    then show ?thesis using deliver_inv[OF inv True, of now] up unfolding Deliver by blast
  next
    case False
    then show ?thesis using up[OF inv] unfolding Deliver by auto
  qed
qed (use a in auto)

lemma election_inv_init: "election_inv ms 0 (cluster_init ms cfg) {} {}"
  by (simp add: election_inv_def election_inv_defs cluster_init_def raft_new_def term_default_def tokens_def)

lemma run_inv:
  assumes "distinct ms" "\<forall>a\<in>set acts. is_election_action a" "length acts < 2 ^ 64"
  shows "\<exists>G D. election_inv ms (length acts) (run_cluster ms cfg acts) G D"
  using assms(2,3)
proof (induction acts rule: rev_induct)
  case Nil
  then show ?case using election_inv_init by (auto simp: run_cluster_def)
next
  case (snoc a acts)
  then obtain G D where "election_inv ms (length acts) (run_cluster ms cfg acts) G D" by auto
  from step_inv[OF this assms(1), of a] snoc.prems show ?case by (simp add: run_snoc)
qed

definition majority_of :: "node_id list \<Rightarrow> node_id set \<Rightarrow> bool" where
  "majority_of ms A = (distinct ms \<and> A \<subseteq> set ms \<and> majority (length ms) \<le> card A)"

interpretation majorities: intersecting_quorums majority_of majority_of
proof unfold_locales
  fix ms A B assume "majority_of ms A" "majority_of ms B"
  then show "A \<inter> B \<noteq> {}"
    by (intro counted_overlap[of "set ms"])
       (auto simp: majority_of_def majority_def distinct_card)
qed

section \<open>Properties\<close>

text \<open>
  C1: election safety. In every run, of fewer than \<open>2 ^ 64\<close> actions, of a cluster of distinct members in
  which only elections happen (timeouts, vote requests and vote responses, with messages delayed, reordered
  and lost, each delivered at most once), two nodes that lead in the same term are the same node.
\<close>

theorem election_safety:
  assumes "distinct ms" and "\<forall>a\<in>set acts. is_election_action a" and "length acts < 2 ^ 64"
    and "is_leader (cl_nodes (run_cluster ms cfg acts) p)"
    and "is_leader (cl_nodes (run_cluster ms cfg acts) q)"
    and "rn_current_term (cl_nodes (run_cluster ms cfg acts) p)
         = rn_current_term (cl_nodes (run_cluster ms cfg acts) q)"
  shows "p = q"
proof -
  let ?N = "cl_nodes (run_cluster ms cfg acts)"
  obtain G D where inv: "election_inv ms (length acts) (run_cluster ms cfg acts) G D"
    using run_inv[OF assms(1-3)] by blast
  let ?V = "\<lambda>c. {v. (v, rn_current_term (?N p), c) \<in> G}"
  have maj: "majority_of ms (?V p)" "majority_of ms (?V q)"
    using inv assms(1,4-6)
    by (auto simp: election_inv_def votes_ok_def leads_ok_def majority_of_def is_leader_def)
  have "(v, t, c) \<in> G \<Longrightarrow> (v, t, c') \<in> G \<Longrightarrow> c = c'" for v t c c'
    using inv by (auto simp: election_inv_def votes_ok_def)
  with majorities.agreed_choice[OF maj, of "\<lambda>v c. (v, rn_current_term (?N p), c) \<in> G"]
  show ?thesis by blast
qed

theorem election_safety_witness:
  "\<forall>cfg. is_leader (cl_nodes (run_cluster [1, 2, 3] cfg [Elect 1 0 5, Deliver 0 6, Deliver 1 7]) 1)
    \<and> \<not> is_leader (cl_nodes (run_cluster [1, 2, 3] cfg [Elect 1 0 5, Deliver 0 6, Deliver 1 7]) 2)"
proof
  fix cfg
  let ?s = "run_cluster [1, 2, 3] cfg [Elect 1 0 5, Deliver 0 6, Deliver 1 7]"
  have lead: "is_leader (cl_nodes ?s 1)" by code_simp
  have "rn_current_term (cl_nodes ?s 1) = rn_current_term (cl_nodes ?s 2)" by code_simp
  with lead show "is_leader (cl_nodes ?s 1) \<and> \<not> is_leader (cl_nodes ?s 2)"
    using election_safety[of "[1, 2, 3]" "[Elect 1 0 5, Deliver 0 6, Deliver 1 7]" cfg 1 2]
    by auto
qed

text \<open>
  C11: with append entries requests, election safety fails. \<open>handle_append_entries\<close> calls
  \<open>become_follower\<close> for a request of the node's own term, which forgets the vote of that term; a
  second candidate of the same term then gets the node's vote again. Three nodes, every message
  delivered once: two of them lead in term 1.
\<close>

theorem append_entries_break_election_safety:
  "\<exists>acts p q. p \<noteq> q
     \<and> is_leader (cl_nodes (run_cluster [1, 2, 3] cfg acts) p)
     \<and> is_leader (cl_nodes (run_cluster [1, 2, 3] cfg acts) q)
     \<and> rn_current_term (cl_nodes (run_cluster [1, 2, 3] cfg acts) p)
       = rn_current_term (cl_nodes (run_cluster [1, 2, 3] cfg acts) q)"
proof -
  let ?acts = "[Elect 1 0 1, Elect 2 0 2, Deliver 1 3, Deliver 3 4, Replicate 1 3 1, Deliver 3 5,
                Deliver 2 6, Deliver 3 7]"
  let ?s = "run_cluster [1, 2, 3] cfg ?acts"
  have "is_leader (cl_nodes ?s 1) \<and> is_leader (cl_nodes ?s 2)
      \<and> rn_current_term (cl_nodes ?s 1) = rn_current_term (cl_nodes ?s 2) \<and> (1 :: node_id) \<noteq> 2"
    by code_simp
  then show ?thesis by blast
qed

end
