(* ===== verification/Raft_Log.thy ===== *)
theory Raft_Log
  imports Raft_Election
begin

text \<open>
  The replicated log of the Raft node: what an append entries exchange does to the follower's log,
  that repeated exchanges bring a follower to the leader's log, when the commit index moves and what
  it then guarantees, and the application of committed entries to the state machine.
\<close>

section \<open>Well-formed logs\<close>

text \<open>
  Position \<open>i\<close> of a log holds the entry with index \<open>i + 1\<close>. Lengths stay below \<open>2 ^ 64\<close>, so that
  the conversions between lengths and indices are exact.
\<close>

definition log_indexed :: "log_entry list \<Rightarrow> bool" where
  "log_indexed xs = (length xs < 2 ^ 64 - 1 \<and> (\<forall>i < length xs. le_index (xs ! i) = of_nat (i + 1)))"

definition log_matching :: "log_entry list \<Rightarrow> log_entry list \<Rightarrow> bool" where
  "log_matching xs ys =
     (\<forall>i < min (length xs) (length ys). le_term (xs ! i) = le_term (ys ! i) \<longrightarrow>
        take (Suc i) xs = take (Suc i) ys)"

lemma log_indexed_Nil [simp]: "log_indexed []"
  by (simp add: log_indexed_def)

lemma log_indexed_take: "log_indexed xs \<Longrightarrow> log_indexed (take k xs)"
  by (auto simp: log_indexed_def simp del: of_nat_add)

lemma unat_len: "log_indexed xs \<Longrightarrow> k \<le> length xs \<Longrightarrow> unat (of_nat k :: u64) = k"
  by (simp add: log_indexed_def unat_of_nat take_bit_nat_eq_self)

lemma unat_log_len: "log_indexed (rn_log n) \<Longrightarrow> unat (log_len n) = length (rn_log n)"
  by (simp add: log_len_def unat_len)

lemma last_log_index: "log_indexed (rn_log n) \<Longrightarrow> fst (last_log_info n) = log_len n"
  by (cases "length (rn_log n)")
     (auto simp: last_log_info_def log_len_def log_indexed_def last_conv_nth simp del: of_nat_Suc)

lemma log_matching_refl [simp]: "log_matching xs xs"
  by (simp add: log_matching_def)

lemma log_matching_take: "log_matching xs (take k xs)"
  by (simp add: log_matching_def min_def)

lemma log_matching_prefix:
  assumes "log_matching xs ys" "take k ys = take k xs" 
  shows "log_matching xs (take k ys)"
  unfolding assms(2) by (rule log_matching_take)

section \<open>Steps of one node\<close>

lemma become_follower_keeps [simp]:
  "rn_log (fst (become_follower t n)) = rn_log n"
  "rn_commit_index (fst (become_follower t n)) = rn_commit_index n"
  "rn_last_applied (fst (become_follower t n)) = rn_last_applied n"
  by (simp_all add: become_follower_def)

definition as_follower_of :: "instant \<Rightarrow> append_entries_request \<Rightarrow> raft_node \<Rightarrow> raft_node" where
  "as_follower_of now q n =
     n\<lparr>rn_current_term := aq_term q, rn_state := Follower, rn_voted_for := None,
       rn_election_start := None, rn_vote_count := 0,
       rn_current_leader := Some (aq_leader_id q), rn_last_heartbeat := Some now\<rparr>"

lemma as_follower_of_fields [simp]:
  "rn_log (as_follower_of now q n) = rn_log n"
  "rn_commit_index (as_follower_of now q n) = rn_commit_index n"
  "rn_last_applied (as_follower_of now q n) = rn_last_applied n"
  "rn_current_term (as_follower_of now q n) = aq_term q"
  "rn_state (as_follower_of now q n) = Follower"
  "rn_node_id (as_follower_of now q n) = rn_node_id n"
  "rn_current_leader (as_follower_of now q n) = Some (aq_leader_id q)"
  "check_log_consistency i t (as_follower_of now q n) = check_log_consistency i t n"
  by (simp_all add: as_follower_of_def check_log_consistency_def)

lemma handle_append_entries_newer:
  assumes "rn_current_term n \<le> aq_term q"
  shows "handle_append_entries now q n =
     (let n1 = as_follower_of now q n; rid = aq_request_id q in
      if \<not> check_log_consistency (aq_prev_log_index q) (aq_prev_log_term q) n
      then (case find_conflict_info (aq_prev_log_index q) n1 of
              (ci, ct) \<Rightarrow> (n1, Ok (append_response False (Some ci) ct rid n1)))
      else
        let n2 = (if aq_entries q \<noteq> []
                  then let a = append_new_entries (aq_prev_log_index q) (aq_entries q) n1
                       in a\<lparr>rn_metrics := (rn_metrics a)\<lparr>entries_appended :=
                              entries_appended (rn_metrics a) + of_nat (length (aq_entries q))\<rparr>\<rparr>
                  else n1);
            n3 = (if rn_commit_index n2 < aq_leader_commit q
                  then n2\<lparr>rn_commit_index := min (aq_leader_commit q) (log_len n2)\<rparr>
                  else n2)
        in (n3, Ok (append_response True None None rid n3)))"
proof -
  have "(n\<lparr>rn_current_term := aq_term q, rn_state := Follower, rn_voted_for := None,
       rn_election_start := None, rn_vote_count := 0\<rparr>)\<lparr>rn_current_leader := Some (aq_leader_id q),
       rn_last_heartbeat := Some now\<rparr> = as_follower_of now q n"
    by (simp add: as_follower_of_def)
  moreover have "\<not> aq_term q < rn_current_term n" using assms by simp
  ultimately show ?thesis
    unfolding handle_append_entries_def become_follower_ok[OF assms]
    by (simp only: prod.case result.case if_False Let_def as_follower_of_fields)
qed

lemma last_log_info_cong: "rn_log m = rn_log n \<Longrightarrow> last_log_info m = last_log_info n"
  by (simp add: last_log_info_def)

lemma log_len_cong: "rn_log m = rn_log n \<Longrightarrow> log_len m = log_len n"
  by (simp add: log_len_def)

definition accepts :: "append_entries_request \<Rightarrow> raft_node \<Rightarrow> bool" where
  "accepts q n =
     (rn_current_term n \<le> aq_term q
      \<and> check_log_consistency (aq_prev_log_index q) (aq_prev_log_term q) n)"

definition log_after :: "append_entries_request \<Rightarrow> log_entry list \<Rightarrow> log_entry list" where
  "log_after q xs =
     (if aq_entries q = [] then xs else take (unat (aq_prev_log_index q)) xs @ aq_entries q)"

lemma handle_append_entries_accept:
  assumes "accepts q n"
  shows "\<exists>n'. handle_append_entries now q n = (n', Ok (append_response True None None (aq_request_id q) n'))
           \<and> rn_log n' = log_after q (rn_log n) \<and> rn_current_term n' = aq_term q \<and> rn_state n' = Follower
           \<and> rn_current_leader n' = Some (aq_leader_id q) \<and> rn_last_applied n' = rn_last_applied n
           \<and> rn_node_id n' = rn_node_id n
           \<and> rn_commit_index n' =
               (if rn_commit_index n < aq_leader_commit q
                then min (aq_leader_commit q) (of_nat (length (log_after q (rn_log n))))
                else rn_commit_index n)"
proof -
  have "rn_current_term n \<le> aq_term q"
    "check_log_consistency (aq_prev_log_index q) (aq_prev_log_term q) n"
    using assms by (simp_all add: accepts_def)
  then show ?thesis
    by (simp add: handle_append_entries_newer Let_def log_after_def append_new_entries_def log_len_def)
qed

lemma handle_append_entries_reject:
  assumes "\<not> accepts q n"
  shows "\<exists>n' r. handle_append_entries now q n = (n', Ok r) \<and> \<not> ar_success r
           \<and> rn_log n' = rn_log n \<and> rn_commit_index n' = rn_commit_index n
           \<and> rn_current_term n' = max (rn_current_term n) (aq_term q)"
proof (cases "aq_term q < rn_current_term n")
  case True
  then show ?thesis
    by (simp add: handle_append_entries_def append_response_def max.absorb1 less_imp_le)
next
  case False
  then have t: "rn_current_term n \<le> aq_term q" by simp
  then have "\<not> check_log_consistency (aq_prev_log_index q) (aq_prev_log_term q) n"
    using assms by (simp add: accepts_def)
  with t show ?thesis
    by (simp add: handle_append_entries_newer append_response_def max.absorb2 Let_def split: prod.splits)
qed

section \<open>An exchange between a leader and a follower\<close>

definition exchange :: "instant \<Rightarrow> u64 \<Rightarrow> node_id \<Rightarrow> raft_node \<times> raft_node \<Rightarrow> raft_node \<times> raft_node" where
  "exchange now rid f = (\<lambda>(l, n).
     case create_append_entries rid f l of
       Ok q \<Rightarrow>
         (case handle_append_entries now q n of
            (n', Ok r) \<Rightarrow> (fst (handle_append_entries_response f r l), n')
          | (n', _) \<Rightarrow> (l, n'))
     | _ \<Rightarrow> (l, n))"

text \<open>The request for a follower whose next index is \<open>k + 1\<close>.\<close>

definition request_at :: "u64 \<Rightarrow> nat \<Rightarrow> raft_node \<Rightarrow> append_entries_request" where
  "request_at rid k l =
     \<lparr>aq_term = rn_current_term l, aq_leader_id = rn_node_id l, aq_prev_log_index = of_nat k,
      aq_prev_log_term = (if k = 0 then term_default else le_term (rn_log l ! (k - 1))),
      aq_entries = take (max_entries_per_append (rn_config l)) (drop k (rn_log l)),
      aq_leader_commit = rn_commit_index l, aq_request_id = rid\<rparr>"

lemma of_nat_small:
  assumes "log_indexed xs" "k \<le> length xs"
  shows "(of_nat k :: u64) = 0 \<longleftrightarrow> k = 0" "unat (of_nat (Suc k) :: u64) = Suc k"
    "(of_nat (length xs) :: u64) < of_nat (Suc k) \<longleftrightarrow> k = length xs"
proof -
  have u: "unat (of_nat k :: u64) = k" "unat (of_nat (length xs) :: u64) = length xs"
    using assms by (simp_all add: unat_len)
  show s: "unat (of_nat (Suc k) :: u64) = Suc k"
    using assms by (simp add: log_indexed_def unat_of_nat take_bit_nat_eq_self del: of_nat_Suc)
  show "(of_nat k :: u64) = 0 \<longleftrightarrow> k = 0" using u by (metis unat_eq_zero)
  show "(of_nat (length xs) :: u64) < of_nat (Suc k) \<longleftrightarrow> k = length xs"
    unfolding word_less_nat_alt u s using assms(2) by auto
qed

lemma create_append_entries_at:
  assumes l: "is_leader l" "log_indexed (rn_log l)" and k: "k \<le> length (rn_log l)"
    and nxt: "hm_get_or 1 (rn_next_index l) f = of_nat (Suc k)"
  shows "create_append_entries rid f l = Ok (request_at rid k l)"
proof -
  note small = of_nat_small[OF l(2) k]
  have prev: "saturating_sub (of_nat (Suc k)) 1 = (of_nat k :: u64)"
    using small(2) by (simp add: saturating_sub_def word_le_nat_alt)
  have from_k: "get_entries_from (of_nat (Suc k)) l = drop k (rn_log l)"
  proof -
    have "unat (of_nat (Suc k) - 1 :: u64) = k" using unat_len[OF l(2) k] by simp
    then show ?thesis
      using small by (auto simp: get_entries_from_def log_len_def unat_eq_zero[symmetric] simp del: of_nat_Suc)
  qed
  have pred: "k \<noteq> 0 \<Longrightarrow> unat (of_nat k - 1 :: u64) = k - 1"
    using unat_len[OF l(2) k] small(1) by (simp add: unat_sub_if_size unat_gt_0)
  show ?thesis
    unfolding create_append_entries_def Let_def nxt prev
    using l(1) k small(1) pred from_k unat_len[OF l(2) k]
    by (auto simp: log_get_def request_at_def)
qed

lemma accepts_request_at:
  assumes "log_indexed (rn_log l)" "k \<le> length (rn_log l)" "k \<le> length (rn_log n)"
    and "take k (rn_log n) = take k (rn_log l)" "rn_current_term n \<le> rn_current_term l"
  shows "accepts (request_at rid k l) n"
proof (cases k)
  case 0
  then show ?thesis using assms(5) by (simp add: accepts_def request_at_def check_log_consistency_def)
next
  case (Suc j)
  have u: "unat (of_nat k :: u64) = k" using assms(1,2) by (rule unat_len)
  then have z: "(of_nat k :: u64) \<noteq> 0" using Suc by (metis nat.distinct(1) unat_0)
  then have "unat (of_nat k - 1 :: u64) = j"
    using unat_len[OF assms(1), of j] assms(2) by (simp add: Suc)
  moreover have "rn_log n ! j = rn_log l ! j"
    using assms(4) Suc by (metis lessI nth_take)
  ultimately show ?thesis
    using assms(3,5) Suc z
    by (simp add: accepts_def request_at_def check_log_consistency_def log_get_def del: of_nat_Suc)
qed

lemma try_advance_keeps [simp]:
  "rn_log (try_advance_commit_index n) = rn_log n"
  "rn_next_index (try_advance_commit_index n) = rn_next_index n"
  "rn_match_index (try_advance_commit_index n) = rn_match_index n"
  "rn_current_term (try_advance_commit_index n) = rn_current_term n"
  "rn_state (try_advance_commit_index n) = rn_state n"
  "rn_config (try_advance_commit_index n) = rn_config n"
  by (auto simp: try_advance_commit_index_def Let_def split: option.splits)

text \<open>
  One exchange with a follower that agrees with the leader up to \<open>k\<close> moves it to the next batch:
  up to \<open>k + m\<close>, or the end of the leader's log.
\<close>

lemma exchange_step:
  fixes l n f k
  defines "m \<equiv> max_entries_per_append (rn_config l)"
  defines "j \<equiv> min (k + m) (length (rn_log l))"
  assumes l: "is_leader l" "log_indexed (rn_log l)" and k: "k \<le> length (rn_log l)"
    and nxt: "hm_get_or 1 (rn_next_index l) f = of_nat (Suc k)"
    and n: "take k (rn_log n) = take k (rn_log l)" "k \<le> length (rn_log n)"
      "rn_current_term n \<le> rn_current_term l"
    and more: "k < length (rn_log l) \<and> 0 < m \<or> rn_log n = take k (rn_log l)"
    and e: "exchange now rid f (l, n) = (l', n')"
  shows "is_leader l' \<and> rn_log l' = rn_log l \<and> rn_config l' = rn_config l
         \<and> hm_get_or 1 (rn_next_index l') f = of_nat (Suc j)
         \<and> rn_log n' = take j (rn_log l) \<and> rn_current_term n' = rn_current_term l
         \<and> rn_current_term l' = rn_current_term l"
proof -
  let ?q = "request_at rid k l"
  obtain n1 where h: "handle_append_entries now ?q n = (n1, Ok (append_response True None None (aq_request_id ?q) n1))"
    and n1: "rn_log n1 = log_after ?q (rn_log n)" "rn_current_term n1 = rn_current_term l"
    using handle_append_entries_accept[OF accepts_request_at[OF l(2) k n(2,1,3), of rid], where now = now]
    by (auto simp: request_at_def)
  have u: "unat (of_nat k :: u64) = k" by (rule unat_len[OF l(2) k])
  have "take k (rn_log l) @ take m (drop k (rn_log l)) = take j (rn_log l)"
    by (simp add: j_def take_add[symmetric] min_def)
  then have log: "rn_log n1 = take j (rn_log l)"
    unfolding n1(1) log_after_def using more n(1) u
    by (auto simp: request_at_def m_def[symmetric] j_def)
  have "fst (last_log_info n1) = of_nat j"
    using last_log_index[of n1] log_indexed_take[OF l(2), of j] log by (simp add: log_len_def j_def)
  then have "exchange now rid f (l, n)
      = (try_advance_commit_index (record_progress f (Some (of_nat j)) l), n1)"
    using l(1) h n1(2)
    by (simp add: exchange_def create_append_entries_at[OF l k nxt] handle_append_entries_response_def
        append_response_def)
  with e l(1) log n1(2) show ?thesis
    by (auto simp: record_progress_def is_leader_def)
qed

lemma exchange_rounds:
  fixes l n f
  defines "m \<equiv> max_entries_per_append (rn_config l)"
  assumes "is_leader l" "log_indexed (rn_log l)" "hm_get (rn_next_index l) f = None" "rn_log l \<noteq> []"
    "0 < m" "rn_current_term n \<le> rn_current_term l"
    and "(exchange now rid f ^^ Suc c) (l, n) = (l', n')"
  shows "is_leader l' \<and> rn_log l' = rn_log l \<and> rn_config l' = rn_config l
         \<and> hm_get_or 1 (rn_next_index l') f = of_nat (Suc (min (Suc c * m) (length (rn_log l))))
         \<and> rn_log n' = take (min (Suc c * m) (length (rn_log l))) (rn_log l)
         \<and> rn_current_term n' = rn_current_term l \<and> rn_current_term l' = rn_current_term l"
  using assms(8)
proof (induction c arbitrary: l' n')
  case 0
  then show ?case
    using exchange_step[of l 0 f n now rid l' n'] assms(2-7) by (simp add: hm_get_or_def m_def)
next
  case (Suc c)
  obtain l1 n1 where s: "(exchange now rid f ^^ Suc c) (l, n) = (l1, n1)" by fastforce
  let ?k = "min (Suc c * m) (length (rn_log l))"
  from Suc.IH[OF s] have i: "is_leader l1" "rn_log l1 = rn_log l" "rn_config l1 = rn_config l"
    "hm_get_or 1 (rn_next_index l1) f = of_nat (Suc ?k)" "rn_log n1 = take ?k (rn_log l)"
    "rn_current_term n1 = rn_current_term l" "rn_current_term l1 = rn_current_term l"
    by simp_all
  have e: "exchange now rid f (l1, n1) = (l', n')" using Suc.prems s by simp
  have "min (?k + m) (length (rn_log l)) = min (Suc (Suc c) * m) (length (rn_log l))" by auto
  then show ?case
    using exchange_step[of l1 ?k f n1 now rid l' n', OF i(1) _ _ i(4) _ _ _ _ e] i assms(3)
    by (simp add: m_def[symmetric])
qed

lemma create_append_entriesE:
  assumes "create_append_entries rid f l = Ok q" "log_indexed (rn_log l)"
  obtains k where "k \<le> length (rn_log l)" "q = request_at rid k l" "is_leader l"
proof -
  have lead: "is_leader l" using assms(1) by (auto simp: create_append_entries_def split: if_splits)
  let ?next = "hm_get_or 1 (rn_next_index l) f"
  show thesis
  proof (cases "?next = 0")
    case True
    have "get_entries_from 1 l = rn_log l"
      using unat_len[OF assms(2) order_refl]
      by (cases "rn_log l") (auto simp: get_entries_from_def log_len_def word_less_nat_alt)
    then have "q = request_at rid 0 l"
      using assms(1) lead True
      by (simp add: create_append_entries_def Let_def saturating_sub_def request_at_def)
    with that[of 0] lead show thesis by simp
  next
    case False
    define k where "k = unat (?next - 1)"
    have "1 \<le> ?next" using False by (simp add: word_le_nat_alt unat_gt_0 Suc_le_eq)
    then have prev: "saturating_sub ?next 1 = ?next - 1" by (simp add: saturating_sub_def)
    have nxt: "?next = of_nat (Suc k)" by (simp add: k_def)
    have "k \<le> length (rn_log l)"
    proof (rule ccontr)
      assume k: "\<not> k \<le> length (rn_log l)"
      then have "?next - 1 \<noteq> 0" by (auto simp: k_def unat_eq_zero)
      moreover from this have "unat (?next - 1 - 1) = k - 1"
        unfolding k_def by (rule unat_minus_one)
      moreover have "\<not> k - 1 < length (rn_log l)" using k by simp
      ultimately show False
        using assms(1) k lead by (auto simp: create_append_entries_def Let_def prev log_get_def)
    qed
    with that create_append_entries_at[OF lead assms(2) _ nxt] assms(1) lead show thesis by simp
  qed
qed

lemma accepted_prefix:
  assumes "accepts (request_at rid k l) n" "log_matching (rn_log l) (rn_log n)"
    and "log_indexed (rn_log l)" "k \<le> length (rn_log l)"
  shows "take k (rn_log n) = take k (rn_log l) \<and> k \<le> length (rn_log n)"
proof (cases k)
  case (Suc j)
  have u: "unat (of_nat k :: u64) = k" "unat (of_nat j :: u64) = j"
    using unat_len[OF assms(3), of k] unat_len[OF assms(3), of j] assms(4) Suc by simp_all
  then have "(of_nat k :: u64) \<noteq> 0" using Suc by (metis nat.distinct(1) unat_0)
  then have "j < length (rn_log n)" "le_term (rn_log n ! j) = le_term (rn_log l ! j)"
    using assms(1) Suc u(2)
    by (auto simp: accepts_def request_at_def check_log_consistency_def log_get_def split: if_splits)
  with assms(2,4) Suc show ?thesis by (auto simp: log_matching_def Suc_le_eq)
qed simp

section \<open>Majorities of match indices\<close>

lemma sorted_upper_half:
  assumes "sorted xs" "i < length xs"
  shows "length xs - i \<le> length (filter (\<lambda>x. xs ! i \<le> x) xs)"
proof -
  have "\<forall>x\<in>set (drop i xs). xs ! i \<le> x"
    using assms by (auto simp: in_set_conv_nth intro!: sorted_nth_mono)
  then have "filter (\<lambda>x. xs ! i \<le> x) (drop i xs) = drop i xs" by (rule filter_True)
  then have "length (drop i xs) \<le> length (filter (\<lambda>x. xs ! i \<le> x) (take i xs @ drop i xs))"
    by (simp only: filter_append length_append)
  then show ?thesis by simp
qed

definition holders :: "log_index \<Rightarrow> raft_node \<Rightarrow> node_id set" where
  "holders c n = {p. \<exists>i. hm_get (rn_match_index n) p = Some i \<and> c \<le> i}"

lemma card_holders:
  assumes "hm_ok (rn_match_index n)"
  shows "card (holders c n) = length (filter (\<lambda>i. c \<le> i) (map snd (rn_match_index n)))"
proof -
  let ?f = "filter (\<lambda>(p, i). c \<le> i) (rn_match_index n)"
  have "holders c n = fst ` set ?f"
    using assms by (force simp: holders_def hm_ok_def map_of_eq_Some_iff)
  moreover have "distinct (map fst ?f)"
    using assms by (simp add: hm_ok_def distinct_map_filter)
  moreover have "length (filter (\<lambda>i. c \<le> i) (map snd xs)) = length (filter (\<lambda>(p, i). c \<le> i) xs)"
    for xs :: "(node_id, log_index) hash_map"
    by (induction xs) auto
  ultimately show ?thesis by (metis distinct_card length_map set_map)
qed

lemma commit_moved:
  assumes "n' = try_advance_commit_index n" "rn_commit_index n' \<noteq> rn_commit_index n"
  shows "\<exists>xs. xs = sort (map snd (rn_match_index n) @ [log_len n]) \<and> is_leader n
           \<and> rn_commit_index n' = xs ! (length xs div 2) \<and> rn_commit_index n < rn_commit_index n'
           \<and> unat (rn_commit_index n' - 1) < length (rn_log n)
           \<and> le_term (rn_log n ! unat (rn_commit_index n' - 1)) = rn_current_term n"
  using assms
  by (auto simp: try_advance_commit_index_def Let_def log_get_def split: if_splits option.splits)

lemma commit_holders:
  assumes "n' = try_advance_commit_index n" "rn_commit_index n' \<noteq> rn_commit_index n"
    and "hm_ok (rn_match_index n)"
  shows "(length (rn_match_index n) + 2) div 2 \<le> Suc (card (holders (rn_commit_index n') n))"
proof -
  let ?c = "rn_commit_index n'" and ?ys = "map snd (rn_match_index n) @ [log_len n]"
  let ?xs = "sort ?ys"
  have c: "?c = ?xs ! (length ?xs div 2)" using commit_moved[OF assms(1,2)] by auto
  have "length ?xs - length ?xs div 2 \<le> length (filter (\<lambda>x. ?c \<le> x) ?xs)"
    unfolding c by (rule sorted_upper_half) simp_all
  also have "\<dots> = length (filter (\<lambda>x. ?c \<le> x) ?ys)"
    by (metis filter_sort length_sort)
  also have "\<dots> \<le> Suc (card (holders ?c n))" unfolding card_holders[OF assms(3)] by simp
  finally show ?thesis by simp
qed

section \<open>Applying committed entries\<close>

text \<open>
  The reference: run the function over a list, stopping at the first error, and count the entries
  it was called on (the failing one included).
\<close>

fun apply_list ::
    "('s \<Rightarrow> log_entry \<Rightarrow> 's \<times> (unit, consensus_error) result) \<Rightarrow> 's \<Rightarrow> log_entry list
       \<Rightarrow> 's \<times> nat \<times> (unit, consensus_error) result" where
  "apply_list f s [] = (s, 0, Ok ())"
| "apply_list f s (e # es) =
     (case f s e of
        (s1, Ok _) \<Rightarrow> (case apply_list f s1 es of (s2, k, r) \<Rightarrow> (s2, Suc k, r))
      | (s1, Err x) \<Rightarrow> (s1, 1, Err x)
      | (s1, Panic) \<Rightarrow> (s1, 1, Panic))"

lemma apply_committed_list:
  assumes "rn_last_applied n \<le> rn_commit_index n" "unat (rn_commit_index n) \<le> length (rn_log n)"
    and "apply_list f s (drop (unat (rn_last_applied n)) (take (unat (rn_commit_index n)) (rn_log n)))
           = (s', k, r)"
  shows "\<exists>n'. apply_committed_entries f s n = (s', n', r)
           \<and> rn_last_applied n' = rn_last_applied n + of_nat k \<and> rn_log n' = rn_log n
           \<and> rn_commit_index n' = rn_commit_index n"
  using assms
proof (induction f s n arbitrary: s' k r rule: apply_committed_entries.induct)
  case (1 f s n)
  let ?a = "rn_last_applied n" and ?c = "rn_commit_index n" and ?xs = "rn_log n"
  show ?case
  proof (cases "?a < ?c")
    case False
    then have "?a = ?c" using "1.prems"(1) by simp
    then show ?thesis using "1.prems" by (subst apply_committed_entries.simps) simp
  next
    case True
    then have a: "unat ?a < unat ?c" by (simp add: word_less_nat_alt)
    then have u: "unat (?a + 1) = Suc (unat ?a)"
      using unsigned_less[of ?c, where 'a = nat] by (intro unat_plus_one) simp
    then have le: "?a + 1 \<le> ?c" using a by (simp add: word_le_nat_alt)
    have slice: "drop (unat ?a) (take (unat ?c) ?xs)
        = ?xs ! unat ?a # drop (Suc (unat ?a)) (take (unat ?c) ?xs)"
      using a "1.prems"(2) by (subst Cons_nth_drop_Suc[symmetric]) simp_all
    have get: "log_get ?xs (unat ?a) = Some (?xs ! unat ?a)"
      using a "1.prems"(2) by (simp add: log_get_def)
    obtain s1 r1 where f1: "f s (?xs ! unat ?a) = (s1, r1)" by fastforce
    note IH = "1.IH"[OF True refl _ f1[symmetric]]
    show ?thesis
    proof (cases r1)
      case (Ok u1)
      obtain s2 k2 r2 where rec: "apply_list f s1 (drop (Suc (unat ?a)) (take (unat ?c) ?xs)) = (s2, k2, r2)"
        using prod_cases3 by blast
      with "1.prems"(3) slice f1 Ok have out: "s' = s2" "k = Suc k2" "r = r2" by auto
      from IH[OF _ Ok, of s2 k2 r2] get rec u le "1.prems"(2) show ?thesis
        using True f1 Ok get unfolding out
        by (subst apply_committed_entries.simps) (auto simp: algebra_simps)
    qed (use "1.prems"(3) slice f1 True get in
          \<open>subst apply_committed_entries.simps, auto\<close>)+
  qed
qed

section \<open>Properties\<close>

text \<open>
  C6: the log matching property survives replication. If the logs of a leader and a follower
  agree up to every position where they hold the same term, then after the follower accepts a
  request the leader built for it, its log equals the leader's through the last entry sent, and
  the two logs still have the property.
\<close>

theorem append_entries_log_matching:
  assumes "create_append_entries rid f l = Ok q" and "log_indexed (rn_log l)"
    and "log_matching (rn_log l) (rn_log n)"
    and "handle_append_entries now q n = (n', Ok r)" and "ar_success r"
  shows "take (unat (aq_prev_log_index q) + length (aq_entries q)) (rn_log n')
           = take (unat (aq_prev_log_index q) + length (aq_entries q)) (rn_log l)
         \<and> log_matching (rn_log l) (rn_log n')"
proof -
  obtain k where k: "k \<le> length (rn_log l)" "q = request_at rid k l"
    using create_append_entriesE[OF assms(1,2)] by blast
  have acc: "accepts q n"
    using handle_append_entries_reject[of q n now] assms(4,5) by fastforce
  note pre = accepted_prefix[OF acc[unfolded k(2)] assms(3,2) k(1)]
  have log: "rn_log n' = log_after q (rn_log n)"
    using handle_append_entries_accept[OF acc, of now] assms(4) by auto
  have u: "unat (of_nat k :: u64) = k" by (rule unat_len[OF assms(2) k(1)])
  show ?thesis
  proof (cases "aq_entries q = []")
    case True
    moreover have "unat (aq_prev_log_index q) = k" using u by (simp add: k(2) request_at_def)
    ultimately show ?thesis using log pre assms(3) by (simp add: log_after_def)
  next
    case False
    let ?m = "max_entries_per_append (rn_config l)"
    have "rn_log n' = take (k + ?m) (rn_log l)"
      using False log pre u by (simp add: log_after_def k(2) request_at_def take_add)
    then show ?thesis using u by (simp add: log_matching_take k(2) request_at_def min_def)
  qed
qed

text \<open>A leader with two entries, and a follower with a conflicting one.\<close>

definition sample_entry :: "raft_term \<Rightarrow> log_index \<Rightarrow> log_entry" where
  "sample_entry t i = log_entry_new (0, 0, 0) t i [7]"

definition sample_config :: raft_config where
  "sample_config = \<lparr>election_timeout_min = 0, election_timeout_max = 0, heartbeat_interval = 0,
     max_entries_per_append = 1, snapshot_threshold = 0, pre_vote_enabled = True,
     max_pipeline_depth = 0, batch_timeout = 0\<rparr>"

definition sample_leader :: raft_node where
  "sample_leader = (raft_new 1 3 sample_config)\<lparr>rn_current_term := 3, rn_state := Leader,
     rn_log := [sample_entry 1 1, sample_entry 3 2]\<rparr>"

definition sample_follower :: raft_node where
  "sample_follower = (raft_new 2 3 sample_config)\<lparr>rn_current_term := 2, rn_log := [sample_entry 2 1]\<rparr>"

lemma sample_leader_log: "log_indexed (rn_log sample_leader)"
  by (auto simp: log_indexed_def sample_leader_def sample_entry_def log_entry_new_def less_Suc_eq)

theorem append_entries_log_matching_witness:
  "log_matching (rn_log sample_leader)
     (rn_log (fst (handle_append_entries 0 (request_at 0 0 sample_leader) sample_follower)))"
proof -
  have c: "create_append_entries 0 2 sample_leader = Ok (request_at 0 0 sample_leader)" by code_simp
  have m: "log_matching (rn_log sample_leader) (rn_log sample_follower)"
    by (simp add: log_matching_def sample_leader_def sample_follower_def sample_entry_def log_entry_new_def)
  let ?h = "handle_append_entries 0 (request_at 0 0 sample_leader) sample_follower"
  have "accepts (request_at 0 0 sample_leader) sample_follower" by code_simp
  from handle_append_entries_accept[OF this, of 0]
  obtain n' where h: "?h = (n', Ok (append_response True None None (aq_request_id (request_at 0 0 sample_leader)) n'))"
    by blast
  from append_entries_log_matching[OF c sample_leader_log m h] show ?thesis
    by (simp add: h append_response_def)
qed

text \<open>
  C9: a follower catches up. Take a leader with a log that is not empty and numbered from 1 without gaps, a
  batch size \<open>max_entries_per_append\<close> above zero, and a follower whose term is not above the leader's and
  for which the leader has no next index recorded. However the follower's log differs from the leader's, it is
  exactly the leader's log after as many undisturbed exchanges of a request and its response as it takes to send
  that log in batches. (With an empty log the leader sends nothing that makes a follower drop its entries.)
\<close>

theorem follower_catches_up:
  assumes "is_leader l" and "log_indexed (rn_log l)" and "hm_get (rn_next_index l) f = None"
    and "rn_log l \<noteq> []" and "rn_current_term n \<le> rn_current_term l"
    and "0 < max_entries_per_append (rn_config l)"
    and "length (rn_log l) \<le> c * max_entries_per_append (rn_config l)"
  shows "rn_log (snd ((exchange now rid f ^^ c) (l, n))) = rn_log l"
proof (cases c)
  case 0
  then show ?thesis using assms(4,7) by simp
next
  case (Suc b)
  obtain l' n' where "(exchange now rid f ^^ Suc b) (l, n) = (l', n')" by fastforce
  with exchange_rounds[OF assms(1,2,3,4,6,5) this] assms(7) Suc show ?thesis by simp
qed

theorem follower_catches_up_witness:
  "rn_log (snd ((exchange 0 0 2 ^^ 2) (sample_leader, sample_follower))) = rn_log sample_leader"
  by (rule follower_catches_up[OF _ sample_leader_log])
     (simp_all add: sample_leader_def sample_follower_def is_leader_def raft_new_def sample_config_def)

text \<open>
  C10: what a moved commit index guarantees. When the leader tracks every other member of a cluster
  of odd size, \<open>try_advance_commit_index\<close> moves the commit index only forward, to an entry of the
  leader's own term, and only to an index that a majority of the cluster (the leader and the
  followers whose match index reaches it) holds.
\<close>

theorem commit_advance_majority:
  assumes "hm_ok (rn_match_index n)" and "odd (rn_cluster_size n)"
    and "length (rn_match_index n) + 1 = rn_cluster_size n"
    and "rn_commit_index (try_advance_commit_index n) \<noteq> rn_commit_index n"
  shows "rn_commit_index n < rn_commit_index (try_advance_commit_index n)
         \<and> le_term (rn_log n ! unat (rn_commit_index (try_advance_commit_index n) - 1)) = rn_current_term n
         \<and> majority (rn_cluster_size n)
             \<le> Suc (card (holders (rn_commit_index (try_advance_commit_index n)) n))"
proof -
  have "majority (rn_cluster_size n) = (length (rn_match_index n) + 2) div 2"
    using assms(2,3) by (auto simp: majority_def elim!: oddE)
  then show ?thesis
    using commit_holders[OF refl assms(4,1)] commit_moved[OF refl assms(4)] by auto
qed

theorem commit_advance_majority_witness:
  "let n = sample_leader\<lparr>rn_match_index := [(2, 2), (3, 0)]\<rparr>
   in rn_commit_index (try_advance_commit_index n) = 2 \<and> 2 \<le> Suc (card (holders 2 n))"
proof -
  let ?n = "sample_leader\<lparr>rn_match_index := [(2, 2), (3, 0)]\<rparr>"
  have c: "rn_commit_index (try_advance_commit_index ?n) = 2" by code_simp
  have "hm_ok (rn_match_index ?n)" "odd (rn_cluster_size ?n)"
    "length (rn_match_index ?n) + 1 = rn_cluster_size ?n" "rn_commit_index ?n = 0"
    by (simp_all add: hm_ok_def sample_leader_def raft_new_def)
  with commit_advance_majority[of ?n] c
  have "majority (rn_cluster_size ?n) \<le> Suc (card (holders 2 ?n))" by simp
  moreover have "majority (rn_cluster_size ?n) = 2"
    by (simp add: majority_def sample_leader_def raft_new_def)
  ultimately show ?thesis using c by (simp only: Let_def simp_thms)
qed

text \<open>
  C15: a single response can commit everything. Take a leader that tracks no follower yet (its match index is
  empty) and whose log, numbered from 1 without gaps, is not empty, not committed to its end, and ends with
  an entry of the current term. The first successful response of that term commits the whole log, from whichever
  follower it comes, whatever the size of the cluster and however little of the log that follower reports to
  hold.
\<close>

theorem first_response_commits_everything:
  assumes "is_leader n" and "rn_match_index n = []" and "log_indexed (rn_log n)" and "rn_log n \<noteq> []"
    and "le_term (last (rn_log n)) = rn_current_term n" and "rn_commit_index n < log_len n"
    and "ar_success r" and "ar_term r = rn_current_term n" and "ar_last_log_index r = Some i"
    and "i \<le> log_len n"
  shows "rn_commit_index (fst (handle_append_entries_response f r n)) = log_len n"
proof -
  have u: "unat (log_len n) = length (rn_log n)" by (rule unat_log_len[OF assms(3)])
  then have "unat (log_len n - 1) = length (rn_log n) - 1"
    using assms(4) by (subst unat_minus_one) (auto simp: unat_eq_zero[symmetric])
  then have get: "log_get (rn_log n) (unat (log_len n - 1)) = Some (last (rn_log n))"
    using assms(4) by (simp add: log_get_def last_conv_nth)
  have "sort [i, log_len n] = [i, log_len n]" using assms(10) by simp
  with assms get show ?thesis
    by (simp add: handle_append_entries_response_def record_progress_def try_advance_commit_index_def
        hm_insert_def log_len_def is_leader_def Let_def numeral_2_eq_2)
qed

theorem first_response_commits_everything_witness:
  "rn_commit_index (fst (handle_append_entries_response 2
      \<lparr>ar_term = 3, ar_success = True, ar_last_log_index = Some 0, ar_conflict_index = None,
       ar_conflict_term = None, ar_request_id = 0\<rparr> (sample_leader\<lparr>rn_cluster_size := 5\<rparr>))) = 2"
proof -
  let ?n = "sample_leader\<lparr>rn_cluster_size := 5\<rparr>"
  have len: "log_len ?n = 2" by (simp add: log_len_def sample_leader_def)
  have "rn_log ?n = rn_log sample_leader" by (simp add: sample_leader_def)
  with sample_leader_log have "log_indexed (rn_log ?n)" by simp
  with first_response_commits_everything[of ?n
      "\<lparr>ar_term = 3, ar_success = True, ar_last_log_index = Some 0, ar_conflict_index = None,
       ar_conflict_term = None, ar_request_id = 0\<rparr>" 0 2] len
  show ?thesis
    by (simp add: is_leader_def sample_leader_def raft_new_def sample_entry_def log_entry_new_def)
qed

text \<open>
  a delayed request loses committed entries. \<open>append_new_entries\<close> cuts the log after the
  previous index before it looks at the entries, so an accepted request that ends below the
  follower's commit index leaves a log shorter than what was committed; and if the request carries
  a newer commit index, the follower's commit index goes backwards.
\<close>

theorem stale_append_loses_committed:
  assumes "accepts q n" and "aq_entries q \<noteq> []" and "unat (aq_prev_log_index q) \<le> length (rn_log n)"
    and "unat (aq_prev_log_index q) + length (aq_entries q) < unat (rn_commit_index n)"
    and "handle_append_entries now q n = (n', r)"
  shows "length (rn_log n') < unat (rn_commit_index n)
         \<and> (if rn_commit_index n < aq_leader_commit q then rn_commit_index n' < rn_commit_index n
            else rn_commit_index n' = rn_commit_index n)"
proof -
  let ?k = "unat (aq_prev_log_index q) + length (aq_entries q)"
  have len: "length (log_after q (rn_log n)) = ?k"
    using assms(2,3) by (simp add: log_after_def)
  have "?k < 2 ^ 64" using assms(4) unsigned_less[of "rn_commit_index n", where 'a = nat] by simp
  then have "unat (of_nat ?k :: u64) = ?k" by (simp only: unat_of_nat) simp
  then have "(of_nat ?k :: u64) < rn_commit_index n" using assms(4) unfolding word_less_nat_alt by simp
  then have "min (aq_leader_commit q) (of_nat ?k) < rn_commit_index n" by (simp add: min_less_iff_disj)
  with handle_append_entries_accept[OF assms(1), of now] assms(4,5) len show ?thesis by auto
qed

theorem stale_append_loses_committed_witness:
  "length (rn_log (fst (handle_append_entries 0 (request_at 0 0 sample_leader)
      (sample_follower\<lparr>rn_log := rn_log sample_leader, rn_commit_index := 2\<rparr>)))) < 2"
proof -
  let ?n = "sample_follower\<lparr>rn_log := rn_log sample_leader, rn_commit_index := 2\<rparr>"
  let ?q = "request_at 0 0 sample_leader"
  have acc: "accepts ?q ?n" by code_simp
  have entries: "aq_entries ?q = [sample_entry 1 1]" "aq_prev_log_index ?q = 0"
    by (simp_all add: request_at_def sample_leader_def raft_new_def sample_config_def)
  obtain n' r where h: "handle_append_entries 0 ?q ?n = (n', r)" by fastforce
  from stale_append_loses_committed[OF acc _ _ _ h] entries h show ?thesis by simp
qed

text \<open>
  \<open>apply_committed_entries\<close> applies exactly the committed entries that were not applied yet,
  in log order and once each, as the reference \<open>apply_list\<close> does; it stops at the first error, and
  \<open>last_applied\<close> then counts the entry that failed, which no later call applies again.
\<close>

theorem apply_committed_in_order:
  assumes "rn_last_applied n \<le> rn_commit_index n" and "unat (rn_commit_index n) \<le> length (rn_log n)"
    and "apply_list f s (drop (unat (rn_last_applied n)) (take (unat (rn_commit_index n)) (rn_log n)))
           = (s', k, r)"
  shows "\<exists>n'. apply_committed_entries f s n = (s', n', r)
           \<and> rn_last_applied n' = rn_last_applied n + of_nat k \<and> rn_log n' = rn_log n"
  using apply_committed_list[OF assms] by blast

theorem apply_committed_in_order_witness:
  "\<exists>n'. apply_committed_entries (\<lambda>s e. (le_index e # s, Ok ())) [] (sample_leader\<lparr>rn_commit_index := 2\<rparr>)
     = ([2, 1], n', Ok ()) \<and> rn_last_applied n' = 2"
proof -
  let ?n = "sample_leader\<lparr>rn_commit_index := 2\<rparr>" and ?f = "\<lambda>s e. (le_index e # s, Ok ())"
  have "rn_last_applied ?n \<le> rn_commit_index ?n" "unat (rn_commit_index ?n) \<le> length (rn_log ?n)"
    "apply_list ?f [] (drop (unat (rn_last_applied ?n)) (take (unat (rn_commit_index ?n)) (rn_log ?n)))
       = ([2, 1], 2, Ok ())"
    by (simp_all add: sample_leader_def raft_new_def sample_entry_def log_entry_new_def)
  from apply_committed_in_order[OF this] show ?thesis
    by (simp add: sample_leader_def raft_new_def) blast
qed

text \<open>
  a pre-vote is not harmless. Although a pre-vote request asks for no vote, a node that gets
  one with a newer term adopts the term, forgets its vote and, if it was the leader, steps down.
\<close>

theorem pre_vote_disrupts:
  assumes "vq_pre_vote q" and "rn_current_term n < vq_term q"
  shows "rn_state (fst (handle_vote_request now q n)) = Follower
         \<and> rn_current_term (fst (handle_vote_request now q n)) = vq_term q
         \<and> rn_voted_for (fst (handle_vote_request now q n)) = None"
proof -
  have "\<not> vq_term q < rn_current_term n" "rn_current_term n \<le> vq_term q" using assms(2) by simp_all
  with assms show ?thesis
    by (simp add: handle_vote_request_def become_follower_ok Let_def)
qed

theorem pre_vote_disrupts_witness:
  "is_leader sample_leader
   \<and> rn_state (fst (handle_vote_request 0 \<lparr>vq_term = 4, vq_candidate_id = 2, vq_last_log_index = 0,
        vq_last_log_term = 0, vq_pre_vote = True\<rparr> sample_leader)) = Follower"
  using pre_vote_disrupts[of "\<lparr>vq_term = 4, vq_candidate_id = 2, vq_last_log_index = 0,
        vq_last_log_term = 0, vq_pre_vote = True\<rparr>" sample_leader 0]
  by (simp add: sample_leader_def is_leader_def)

end
