(* ===== verification/Quorum.thy ===== *)
theory Quorum
  imports Clocks
begin

text \<open>
  The quorum manager of \<^verbatim>\<open>src/kaelix-storage/src/replication/quorum.rs\<close>. A call to a replica is an
  argument of the model: a function that gives its response, its error, or \<open>None\<close> when the
  timeout fires first. The set of available replicas is a list without repetition, in the order the
  set happens to be iterated in; the time an operation took is an argument.
\<close>

section \<open>Data\<close>

datatype replication_error =
    RWal string
  | RNetwork string
  | RConsensus string
  | RConfigurationError string
  | ReplicaNotAvailable string
  | ReplicaNotFound string
  | QuorumNotAvailable string
  | QuorumNotAchieved string
  | ConsistencyViolation string
  | SessionNotFound string
  | ROperationTimeout
  | RSerialization string
  | RShutdown

record quorum_config =
  qc_write_quorum :: usize
  qc_read_quorum :: usize
  qc_total_replicas :: usize
  qc_operation_timeout :: duration
  qc_strict_mode :: bool

definition quorum_config_default :: quorum_config where
  "quorum_config_default = \<lparr>qc_write_quorum = 2, qc_read_quorum = 1, qc_total_replicas = 3,
     qc_operation_timeout = 1000 * 1000000, qc_strict_mode = True\<rparr>"

definition quorum_validate :: "quorum_config \<Rightarrow> (unit, replication_error) result" where
  "quorum_validate c =
     (if qc_write_quorum c = 0 then Err (RConfigurationError ''write_quorum must be greater than 0'')
      else if qc_read_quorum c = 0 then Err (RConfigurationError ''read_quorum must be greater than 0'')
      else if qc_total_replicas c < qc_write_quorum c
      then Err (RConfigurationError ''write_quorum cannot exceed total_replicas'')
      else if qc_total_replicas c < qc_read_quorum c
      then Err (RConfigurationError ''read_quorum cannot exceed total_replicas'')
      else Ok ())"

definition supports_strong_consistency :: "quorum_config \<Rightarrow> bool" where
  "supports_strong_consistency c = (qc_total_replicas c < qc_write_quorum c + qc_read_quorum c)"

record quorum_result =
  qr_successful_responses :: usize
  qr_failed_responses :: usize
  qr_operation_time :: duration
  qr_quorum_achieved :: bool
  qr_responding_replicas :: "node_id list"
  qr_failed_replicas :: "node_id list"

record read_response =
  rd_data :: "bytes option"
  rd_version :: u64
  rd_source_node :: node_id
  rd_timestamp :: u64

record write_response =
  wr_success :: bool
  wr_version :: u64
  wr_source_node :: node_id
  wr_error :: "string option"

record quorum_metrics =
  qm_total_reads :: u64
  qm_total_writes :: u64
  qm_successful_reads :: u64
  qm_successful_writes :: u64
  qm_avg_read_latency_us :: u64
  qm_avg_write_latency_us :: u64
  qm_quorum_failures :: u64
  qm_timeout_failures :: u64

definition quorum_metrics_default :: quorum_metrics where
  "quorum_metrics_default = \<lparr>qm_total_reads = 0, qm_total_writes = 0, qm_successful_reads = 0,
     qm_successful_writes = 0, qm_avg_read_latency_us = 0, qm_avg_write_latency_us = 0,
     qm_quorum_failures = 0, qm_timeout_failures = 0\<rparr>"

record quorum_manager =
  qm_config :: quorum_config
  qm_available :: "node_id list"
  qm_metrics :: quorum_metrics

definition quorum_manager_new :: "quorum_config \<Rightarrow> (quorum_manager, replication_error) result" where
  "quorum_manager_new c =
     and_then (quorum_validate c)
       (\<lambda>_. Ok \<lparr>qm_config = c, qm_available = [], qm_metrics = quorum_metrics_default\<rparr>)"

section \<open>The set of available replicas\<close>

definition update_available_replicas :: "node_id list \<Rightarrow> quorum_manager \<Rightarrow> quorum_manager" where
  "update_available_replicas replicas m = m\<lparr>qm_available := remdups replicas\<rparr>"

definition add_replica :: "node_id \<Rightarrow> quorum_manager \<Rightarrow> quorum_manager" where
  "add_replica r m = m\<lparr>qm_available := List.insert r (qm_available m)\<rparr>"

definition remove_replica :: "node_id \<Rightarrow> quorum_manager \<Rightarrow> quorum_manager" where
  "remove_replica r m = m\<lparr>qm_available := removeAll r (qm_available m)\<rparr>"

definition can_read :: "quorum_manager \<Rightarrow> bool" where
  "can_read m = (qc_read_quorum (qm_config m) \<le> length (qm_available m))"

definition can_write :: "quorum_manager \<Rightarrow> bool" where
  "can_write m = (qc_write_quorum (qm_config m) \<le> length (qm_available m))"

definition available_replica_count :: "quorum_manager \<Rightarrow> usize" where
  "available_replica_count m = length (qm_available m)"

section \<open>Operations\<close>

type_synonym 'r reply = "('r, replication_error) result option"

text \<open>Sorting the replies: a replica either answered (and the answer counts) or failed.\<close>

fun collect_replies :: "('r \<Rightarrow> bool) \<Rightarrow> (node_id \<times> 'r reply) list \<Rightarrow> (node_id \<times> 'r) list \<times> node_id list" where
  "collect_replies counts [] = ([], [])"
| "collect_replies counts ((x, rep) # rs) =
     (case collect_replies counts rs of (oks, bad) \<Rightarrow>
        (case rep of
           Some (Ok resp) \<Rightarrow> if counts resp then ((x, resp) # oks, bad) else (oks, x # bad)
         | _ \<Rightarrow> (oks, x # bad)))"

text \<open>\<open>max_by_key\<close> keeps the last of several maximal elements.\<close>

fun latest :: "(node_id \<times> read_response) list \<Rightarrow> read_response option" where
  "latest [] = None"
| "latest ((x, r) # rs) =
     (case latest rs of
        None \<Rightarrow> Some r
      | Some s \<Rightarrow> if rd_version r \<le> rd_version s then Some s else Some r)"

definition micros :: "duration \<Rightarrow> u64" where
  "micros d = of_nat (d div 1000)"

definition running_average :: "u64 \<Rightarrow> u64 \<Rightarrow> u64 \<Rightarrow> u64" where
  "running_average avg n latency = (if 0 < n then (avg * (n - 1) + latency) div n else avg)"

definition not_enough :: "string \<Rightarrow> nat \<Rightarrow> nat \<Rightarrow> string" where
  "not_enough what got need = what @ decimal got @ '' < '' @ decimal need"

definition quorum_read ::
    "duration \<Rightarrow> (node_id \<Rightarrow> string \<Rightarrow> read_response reply) \<Rightarrow> string \<Rightarrow> quorum_manager
       \<Rightarrow> quorum_manager \<times> (bytes option \<times> quorum_result, replication_error) result" where
  "quorum_read operation_time read_fn key m =
     (let c = qm_config m; mt = qm_metrics m; avail = qm_available m in
      if length avail < qc_read_quorum c
      then (m\<lparr>qm_metrics := mt\<lparr>qm_total_reads := qm_total_reads mt + 1,
                                qm_quorum_failures := qm_quorum_failures mt + 1\<rparr>\<rparr>,
            Err (QuorumNotAvailable
              (not_enough ''Not enough replicas available: '' (length avail) (qc_read_quorum c))))
      else
        let selected = (if length avail \<le> qc_total_replicas c then avail
                        else take (qc_total_replicas c) avail) in
        case collect_replies (\<lambda>_. True) (map (\<lambda>x. (x, read_fn x key)) selected) of
          (successful, failed) \<Rightarrow>
            let achieved = (qc_read_quorum c \<le> length successful);
                mt1 = mt\<lparr>qm_total_reads := qm_total_reads mt + 1\<rparr>;
                mt2 = (if achieved then mt1\<lparr>qm_successful_reads := qm_successful_reads mt1 + 1\<rparr>
                       else mt1\<lparr>qm_quorum_failures := qm_quorum_failures mt1 + 1\<rparr>);
                mt3 = mt2\<lparr>qm_avg_read_latency_us :=
                            running_average (qm_avg_read_latency_us mt2) (qm_successful_reads mt2)
                              (micros operation_time)\<rparr>;
                m1 = m\<lparr>qm_metrics := mt3\<rparr>
            in if \<not> achieved
               then (m1, Err (QuorumNotAchieved
                      (not_enough ''Read quorum not achieved: '' (length successful) (qc_read_quorum c))))
               else (m1, Ok (Option.bind (latest successful) rd_data,
                       \<lparr>qr_successful_responses = length successful, qr_failed_responses = length failed,
                        qr_operation_time = operation_time, qr_quorum_achieved = achieved,
                        qr_responding_replicas = map fst successful, qr_failed_replicas = failed\<rparr>)))"

definition quorum_write ::
    "duration \<Rightarrow> (node_id \<Rightarrow> string \<Rightarrow> bytes \<Rightarrow> write_response reply) \<Rightarrow> string \<Rightarrow> bytes \<Rightarrow> quorum_manager
       \<Rightarrow> quorum_manager \<times> (quorum_result, replication_error) result" where
  "quorum_write operation_time write_fn key data m =
     (let c = qm_config m; mt = qm_metrics m; avail = qm_available m in
      if length avail < qc_write_quorum c
      then (m\<lparr>qm_metrics := mt\<lparr>qm_total_writes := qm_total_writes mt + 1,
                                qm_quorum_failures := qm_quorum_failures mt + 1\<rparr>\<rparr>,
            Err (QuorumNotAvailable
              (not_enough ''Not enough replicas available for write: '' (length avail) (qc_write_quorum c))))
      else
        case collect_replies wr_success (map (\<lambda>x. (x, write_fn x key data)) avail) of
          (successful, failed) \<Rightarrow>
            let achieved = (qc_write_quorum c \<le> length successful);
                mt1 = mt\<lparr>qm_total_writes := qm_total_writes mt + 1\<rparr>;
                mt2 = (if achieved then mt1\<lparr>qm_successful_writes := qm_successful_writes mt1 + 1\<rparr>
                       else mt1\<lparr>qm_quorum_failures := qm_quorum_failures mt1 + 1\<rparr>);
                mt3 = mt2\<lparr>qm_avg_write_latency_us :=
                            running_average (qm_avg_write_latency_us mt2) (qm_successful_writes mt2)
                              (micros operation_time)\<rparr>;
                m1 = m\<lparr>qm_metrics := mt3\<rparr>
            in if \<not> achieved
               then (m1, Err (QuorumNotAchieved
                      (not_enough ''Write quorum not achieved: '' (length successful) (qc_write_quorum c))))
               else (m1, Ok \<lparr>qr_successful_responses = length successful,
                        qr_failed_responses = length failed, qr_operation_time = operation_time,
                        qr_quorum_achieved = achieved, qr_responding_replicas = map fst successful,
                        qr_failed_replicas = failed\<rparr>))"

section \<open>What the replies amount to\<close>

lemma collect_replies_set:
  "set (fst (collect_replies P rs)) = {(x, r). (x, Some (Ok r)) \<in> set rs \<and> P r}"
  by (induction P rs rule: collect_replies.induct)
     (auto split: prod.splits option.splits result.splits)

lemma collect_replies_distinct:
  "distinct (map fst rs) \<Longrightarrow> distinct (map fst (fst (collect_replies P rs)))"
proof (induction P rs rule: collect_replies.induct)
  case (2 P x rep rs)
  have "fst ` set (fst (collect_replies P rs)) \<subseteq> fst ` set rs"
    unfolding collect_replies_set by force
  then have "x \<notin> fst ` set rs \<Longrightarrow> x \<notin> fst ` set (fst (collect_replies P rs))" by blast
  with 2 show ?case by (auto split: prod.splits option.splits result.splits)
qed simp

lemma collect_replies_length:
  "length (fst (collect_replies P rs)) + length (snd (collect_replies P rs)) = length rs"
  by (induction P rs rule: collect_replies.induct)
     (auto split: prod.splits option.splits result.splits)

lemma latest_max:
  assumes "rs \<noteq> []"
  shows "\<exists>x r. latest rs = Some r \<and> (x, r) \<in> set rs
           \<and> (\<forall>y s. (y, s) \<in> set rs \<longrightarrow> rd_version s \<le> rd_version r)"
  using assms
proof (induction rs rule: latest.induct)
  case (2 x r rs)
  show ?case
  proof (cases "rs = []")
    case False
    with 2 obtain y s where s: "latest rs = Some s" "(y, s) \<in> set rs"
      and le: "\<And>z t. (z, t) \<in> set rs \<Longrightarrow> rd_version t \<le> rd_version s" by blast
    show ?thesis
    proof (cases "rd_version r \<le> rd_version s")
      case True
      with s le show ?thesis by (intro exI[of _ y] exI[of _ s]) auto
    next
      case False
      then have "(z, t) \<in> set rs \<Longrightarrow> rd_version t \<le> rd_version r" for z t
        using le[of z t] by simp
      with s False show ?thesis by (intro exI[of _ x] exI[of _ r]) auto
    qed
  qed auto
qed simp

lemma quorum_read_OkD:
  assumes "quorum_read t f key m = (m', Ok (data, res))"
  shows "\<exists>sel oks. sel = take (qc_total_replicas (qm_config m)) (qm_available m)
     \<and> oks = fst (collect_replies (\<lambda>_. True) (map (\<lambda>x. (x, f x key)) sel))
     \<and> qc_read_quorum (qm_config m) \<le> length oks \<and> data = Option.bind (latest oks) rd_data
     \<and> qr_responding_replicas res = map fst oks"
  using assms unfolding quorum_read_def Let_def
  by (simp split: if_split_asm prod.splits) (auto simp: not_le)

lemma quorum_write_OkD:
  assumes "quorum_write t f key d m = (m', Ok res)"
  shows "\<exists>oks. oks = fst (collect_replies wr_success (map (\<lambda>x. (x, f x key d)) (qm_available m)))
     \<and> qc_write_quorum (qm_config m) \<le> length oks \<and> qr_responding_replicas res = map fst oks"
  using assms unfolding quorum_write_def Let_def
  by (simp split: if_split_asm prod.splits) auto

text \<open>The two families of quorums of a configuration over a set of replicas.\<close>

definition read_quorums :: "quorum_config \<times> node_id set \<Rightarrow> node_id set \<Rightarrow> bool" where
  "read_quorums = (\<lambda>(c, U) A. finite U \<and> card U \<le> qc_total_replicas c \<and> supports_strong_consistency c
     \<and> A \<subseteq> U \<and> qc_read_quorum c \<le> card A)"

definition write_quorums :: "quorum_config \<times> node_id set \<Rightarrow> node_id set \<Rightarrow> bool" where
  "write_quorums = (\<lambda>(c, U) A. A \<subseteq> U \<and> qc_write_quorum c \<le> card A)"

interpretation replica_quorums: intersecting_quorums read_quorums write_quorums
proof unfold_locales
  fix u A B assume "read_quorums u A" "write_quorums u B"
  then show "A \<inter> B \<noteq> {}"
    by (intro counted_overlap[of "snd u"])
       (auto simp: read_quorums_def write_quorums_def supports_strong_consistency_def split: prod.splits)
qed

lemma responders_read:
  assumes "quorum_read t f key m = (m', Ok (data, res))" "distinct (qm_available m)"
    and "set (qm_available m) \<subseteq> U" "finite U" "card U \<le> qc_total_replicas (qm_config m)"
    and "supports_strong_consistency (qm_config m)"
  shows "read_quorums (qm_config m, U) (set (qr_responding_replicas res))"
proof -
  obtain sel oks where o: "sel = take (qc_total_replicas (qm_config m)) (qm_available m)"
    "oks = fst (collect_replies (\<lambda>_. True) (map (\<lambda>x. (x, f x key)) sel))"
    "qc_read_quorum (qm_config m) \<le> length oks" "qr_responding_replicas res = map fst oks"
    using quorum_read_OkD[OF assms(1)] by blast
  have "distinct sel" using assms(2) o(1) by simp
  then have "distinct (map fst oks)"
    unfolding o(2) by (intro collect_replies_distinct) (simp add: comp_def)
  then have "card (set (qr_responding_replicas res)) = length oks"
    unfolding o(4) by (metis distinct_card length_map)
  moreover have "set (qr_responding_replicas res) \<subseteq> U"
    using assms(3) unfolding o(4) o(2) set_map collect_replies_set o(1)
    by (auto dest: in_set_takeD)
  ultimately show ?thesis using assms(4-6) o(3) by (simp add: read_quorums_def)
qed

lemma responders_write:
  assumes "quorum_write t f key d m = (m', Ok res)" "distinct (qm_available m)"
    and "set (qm_available m) \<subseteq> U"
  shows "write_quorums (qm_config m, U) (set (qr_responding_replicas res))"
proof -
  obtain oks where o: "oks = fst (collect_replies wr_success (map (\<lambda>x. (x, f x key d)) (qm_available m)))"
    "qc_write_quorum (qm_config m) \<le> length oks" "qr_responding_replicas res = map fst oks"
    using quorum_write_OkD[OF assms(1)] by blast
  have "distinct (map fst oks)"
    unfolding o(1) using assms(2) by (intro collect_replies_distinct) (simp add: comp_def)
  then have "card (set (qr_responding_replicas res)) = length oks"
    unfolding o(3) by (metis distinct_card length_map)
  moreover have "set (qr_responding_replicas res) \<subseteq> U"
    using assms(3) unfolding o(3) o(1) set_map collect_replies_set by auto
  ultimately show ?thesis using o(2) by (simp add: write_quorums_def)
qed

section \<open>Properties\<close>

text \<open>
  C7: strong consistency. With \<open>write_quorum + read_quorum > total_replicas\<close>, over a set of at most
  \<open>total_replicas\<close> replicas, a read that returns after a write returned answers with the response of
  a replica whose version is at least the one written, whichever replicas were up for the write and
  for the read.
\<close>

theorem quorum_read_sees_write:
  assumes "supports_strong_consistency c" and "finite U" and "card U \<le> qc_total_replicas c"
    and "qm_config mw = c" and "distinct (qm_available mw)" and "set (qm_available mw) \<subseteq> U"
    and "qm_config mr = c" and "distinct (qm_available mr)" and "set (qm_available mr) \<subseteq> U"
    and "quorum_write tw write_fn key d mw = (mw', Ok wres)"
    and "\<And>x. x \<in> set (qr_responding_replicas wres) \<Longrightarrow> v \<le> ver x"
    and "\<And>x r. read_fn x key = Some (Ok r) \<Longrightarrow> rd_version r = ver x"
    and "quorum_read tr read_fn key mr = (mr', Ok (data, rres))"
  shows "\<exists>x\<in>U. \<exists>r. read_fn x key = Some (Ok r) \<and> data = rd_data r \<and> v \<le> rd_version r"
proof -
  have rq: "read_quorums (c, U) (set (qr_responding_replicas rres))"
    using responders_read[OF assms(13,8,9)] assms(1-3,7) by simp
  have wq: "write_quorums (c, U) (set (qr_responding_replicas wres))"
    using responders_write[OF assms(10,5,6)] assms(4) by simp
  obtain y where y: "y \<in> set (qr_responding_replicas rres)" "v \<le> ver y"
    using replica_quorums.sees_write[OF rq wq, where version = ver] assms(11) by blast
  obtain sel oks where o: "sel = take (qc_total_replicas c) (qm_available mr)"
    "oks = fst (collect_replies (\<lambda>_. True) (map (\<lambda>x. (x, read_fn x key)) sel))"
    "data = Option.bind (latest oks) rd_data" "qr_responding_replicas rres = map fst oks"
    using quorum_read_OkD[OF assms(13)] assms(7) by blast
  have ok: "(x, r) \<in> set oks \<Longrightarrow> x \<in> U \<and> read_fn x key = Some (Ok r)" for x r
    using assms(9) unfolding o(2) collect_replies_set o(1) by (auto dest: in_set_takeD)
  from y(1) o(4) obtain r0 where r0: "(y, r0) \<in> set oks" by auto
  then have "oks \<noteq> []" by auto
  then obtain x r where x: "latest oks = Some r" "(x, r) \<in> set oks"
    "\<forall>z s. (z, s) \<in> set oks \<longrightarrow> rd_version s \<le> rd_version r"
    using latest_max by blast
  have "v \<le> rd_version r0" using y(2) assms(12)[of y r0] ok[OF r0] by simp
  also have "\<dots> \<le> rd_version r" using x(3) r0 by blast
  finally have "v \<le> rd_version r" .
  then show ?thesis using ok[OF x(2)] x(1) o(3) by auto
qed

text \<open>Three replicas; the write reached 1 and 2, replica 3 still has the old version.\<close>

definition sample_version :: "node_id \<Rightarrow> u64" where
  "sample_version x = (if x = 3 then 1 else 2)"

definition sample_read :: "node_id \<Rightarrow> string \<Rightarrow> read_response reply" where
  "sample_read x key = Some (Ok \<lparr>rd_data = Some [ucast (sample_version x)], rd_version = sample_version x,
     rd_source_node = x, rd_timestamp = 0\<rparr>)"

definition sample_write :: "node_id \<Rightarrow> string \<Rightarrow> bytes \<Rightarrow> write_response reply" where
  "sample_write x key d = (if x = 3 then None
     else Some (Ok \<lparr>wr_success = True, wr_version = 2, wr_source_node = x, wr_error = None\<rparr>))"

definition sample_manager :: "nat \<Rightarrow> node_id list \<Rightarrow> quorum_manager" where
  "sample_manager rq av =
     \<lparr>qm_config = \<lparr>qc_write_quorum = 2, qc_read_quorum = rq, qc_total_replicas = 3,
        qc_operation_timeout = 0, qc_strict_mode = True\<rparr>,
      qm_available = av, qm_metrics = quorum_metrics_default\<rparr>"

theorem quorum_read_sees_write_witness:
  "\<exists>x\<in>{1, 2, 3}. \<exists>r. sample_read x [] = Some (Ok r) \<and> Some [2] = rd_data r \<and> 2 \<le> rd_version r"
proof -
  let ?mw = "sample_manager 2 [1, 2, 3]" and ?mr = "sample_manager 2 [2, 3]"
  obtain mw' wres where w: "quorum_write 0 sample_write [] [2] ?mw = (mw', Ok wres)"
    and resp: "qr_responding_replicas wres = [1, 2]"
    by (simp add: quorum_write_def sample_manager_def sample_write_def Let_def)
  obtain mr' rres where r: "quorum_read 0 sample_read [] ?mr = (mr', Ok (Some [2], rres))"
  proof -
    have "case snd (quorum_read 0 sample_read [] ?mr) of Ok (d, res) \<Rightarrow> d = Some [2] | _ \<Rightarrow> False"
      by code_simp
    then show thesis
      using that by (cases "quorum_read 0 sample_read [] ?mr") (auto split: result.splits)
  qed
  show ?thesis
    by (rule quorum_read_sees_write[OF _ _ _ _ _ _ _ _ _ w _ _ r, where ver = sample_version
          and c = "qm_config ?mw"])
       (auto simp: sample_manager_def supports_strong_consistency_def resp sample_version_def sample_read_def)
qed

text \<open>
  the default configuration (2 writes, 1 read, 3 replicas) passes validation without that
  guarantee: after a write of version 2 that returned, a read at the replica the write missed
  returns the old data.
\<close>

theorem default_quorum_stale_read:
  "quorum_validate quorum_config_default = Ok ()
   \<and> \<not> supports_strong_consistency quorum_config_default
   \<and> (\<exists>m res m' res'. qm_config m = quorum_config_default
        \<and> quorum_write 0 sample_write [] [2] (update_available_replicas [1, 2, 3] m) = (m', Ok res)
        \<and> snd (quorum_read 0 sample_read [] (update_available_replicas [3] m')) = Ok (Some [1], res'))"
  by (intro conjI exI[of _ "\<lparr>qm_config = quorum_config_default, qm_available = [],
        qm_metrics = quorum_metrics_default\<rparr>"])
     (simp_all add: quorum_validate_def quorum_config_default_def supports_strong_consistency_def
        update_available_replicas_def quorum_write_def quorum_read_def sample_write_def sample_read_def
        sample_version_def Let_def)

text \<open>
  the verdict of a read, on every path. It fails as unavailable when fewer replicas are listed
  than the read quorum, as not achieved when fewer answer, and otherwise returns; every failed
  read counts as a quorum failure and every read counts as a read.
\<close>

theorem quorum_read_verdict:
  "let m' = fst (quorum_read t f key m); r = snd (quorum_read t f key m);
       need = qc_read_quorum (qm_config m);
       asked = take (qc_total_replicas (qm_config m)) (qm_available m);
       answered = length (fst (collect_replies (\<lambda>_. True) (map (\<lambda>x. (x, f x key)) asked)))
   in (case r of
         Ok (d, res) \<Rightarrow> need \<le> length (qm_available m) \<and> need \<le> answered
           \<and> qr_successful_responses res = answered
           \<and> qr_successful_responses res + qr_failed_responses res = length asked
       | Err (QuorumNotAvailable s) \<Rightarrow> length (qm_available m) < need
       | Err (QuorumNotAchieved s) \<Rightarrow> need \<le> length (qm_available m) \<and> answered < need
       | _ \<Rightarrow> False)
      \<and> qm_total_reads (qm_metrics m') = qm_total_reads (qm_metrics m) + 1
      \<and> qm_quorum_failures (qm_metrics m') =
          qm_quorum_failures (qm_metrics m) + (if is_ok r then 0 else 1)"
proof -
  define asked where "asked = take (qc_total_replicas (qm_config m)) (qm_available m)"
  have sel: "(if length (qm_available m) \<le> qc_total_replicas (qm_config m) then qm_available m
      else take (qc_total_replicas (qm_config m)) (qm_available m)) = asked"
    by (simp add: asked_def)
  obtain oks bad where c: "collect_replies (\<lambda>_. True) (map (\<lambda>x. (x, f x key)) asked) = (oks, bad)"
    by fastforce
  have "length oks + length bad = length asked"
    using collect_replies_length[of "\<lambda>_. True" "map (\<lambda>x. (x, f x key)) asked"] c by simp
  then show ?thesis
    unfolding quorum_read_def Let_def sel unfolding asked_def[symmetric] c by simp
qed

end
