(* ===== verification/Storage.thy ===== *)
theory Storage
  imports Clocks
begin

text \<open>
  The storage layer: the error taxonomy of \<^verbatim>\<open>src/kaelix-storage/src/error.rs\<close>, the log offsets of
  \<^verbatim>\<open>src/kaelix-storage/src/types.rs\<close> and the in-memory backend of
  \<^verbatim>\<open>src/kaelix-storage/src/backends/memory.rs\<close>. The backend is shown to be an append-only log: it
  interprets the contract \<open>append_store\<close>.
\<close>

section \<open>Errors\<close>

datatype storage_error =
    InitializationFailed string
  | ShutdownFailed string
  | WriteFailed u64 string
  | ReadFailed u64 string
  | SeekFailed u64 string
  | FileSystemError string string string
  | BackendUnavailable string
  | DataCorrupted u64 string
  | MessageCorrupted u64 string
  | MessageNotFound string
  | SequenceNotFound u64
  | InvalidOffset u64 u64
  | SerializationError string
  | DeserializationError u64 string
  | LockAcquisitionFailed string string
  | OperationTimeout string u64
  | NetworkPartitionS usize
  | ReplicationFailed node_id string
  | ConsensusFailed string u64
  | ResourceExhausted string u64 u64
  | ConfigurationError string string
  | AuthenticationFailed node_id string
  | AuthorizationFailed string
  | CapacityExceeded u64 u64
  | VersionMismatch string string string
  | OperationNotSupported string string
  | InvalidState string string
  | IoErrorS string string
  | ProtocolVersionMismatch u32 u32
  | WalErrorS string string
  | SegmentError string u64 string
  | RecoveryFailed string usize usize
  | TransactionFailed u64 string
  | ReplayError string
  | InternalError string

datatype error_severity = SevLow | SevMedium | SevHigh | SevCritical

datatype recovery_strategy = Retry | Fallback | Abort | Escalate

definition is_transient :: "storage_error \<Rightarrow> bool" where
  "is_transient e =
     (case e of
        BackendUnavailable _ \<Rightarrow> True
      | NetworkPartitionS _ \<Rightarrow> True
      | OperationTimeout _ _ \<Rightarrow> True
      | LockAcquisitionFailed _ _ \<Rightarrow> True
      | ReplicationFailed _ _ \<Rightarrow> True
      | ConsensusFailed _ _ \<Rightarrow> True
      | ResourceExhausted _ _ _ \<Rightarrow> True
      | _ \<Rightarrow> False)"

definition severity :: "storage_error \<Rightarrow> error_severity" where
  "severity e =
     (case e of
        DataCorrupted _ _ \<Rightarrow> SevCritical
      | MessageCorrupted _ _ \<Rightarrow> SevCritical
      | CapacityExceeded _ _ \<Rightarrow> SevCritical
      | InternalError _ \<Rightarrow> SevCritical
      | InitializationFailed _ \<Rightarrow> SevHigh
      | ShutdownFailed _ \<Rightarrow> SevHigh
      | BackendUnavailable _ \<Rightarrow> SevHigh
      | ConsensusFailed _ _ \<Rightarrow> SevHigh
      | AuthenticationFailed _ _ \<Rightarrow> SevHigh
      | AuthorizationFailed _ \<Rightarrow> SevHigh
      | WriteFailed _ _ \<Rightarrow> SevMedium
      | ReadFailed _ _ \<Rightarrow> SevMedium
      | ReplicationFailed _ _ \<Rightarrow> SevMedium
      | RecoveryFailed _ _ _ \<Rightarrow> SevMedium
      | TransactionFailed _ _ \<Rightarrow> SevMedium
      | ReplayError _ \<Rightarrow> SevMedium
      | OperationTimeout _ _ \<Rightarrow> SevMedium
      | NetworkPartitionS _ \<Rightarrow> SevMedium
      | _ \<Rightarrow> SevLow)"

definition recovery_strategy_of :: "storage_error \<Rightarrow> recovery_strategy" where
  "recovery_strategy_of e =
     (case e of
        OperationTimeout _ _ \<Rightarrow> Retry
      | LockAcquisitionFailed _ _ \<Rightarrow> Retry
      | ResourceExhausted _ _ _ \<Rightarrow> Retry
      | NetworkPartitionS _ \<Rightarrow> Fallback
      | ReplicationFailed _ _ \<Rightarrow> Fallback
      | BackendUnavailable _ \<Rightarrow> Fallback
      | DataCorrupted _ _ \<Rightarrow> Escalate
      | MessageCorrupted _ _ \<Rightarrow> Escalate
      | InternalError _ \<Rightarrow> Escalate
      | ConfigurationError _ _ \<Rightarrow> Abort
      | AuthorizationFailed _ \<Rightarrow> Abort
      | VersionMismatch _ _ _ \<Rightarrow> Abort
      | OperationNotSupported _ _ \<Rightarrow> Abort
      | _ \<Rightarrow> Retry)"

section \<open>Log offsets\<close>

type_synonym log_offset = u64

definition offset_next :: "log_offset \<Rightarrow> log_offset" where
  "offset_next a = a + 1"

definition offset_distance :: "log_offset \<Rightarrow> log_offset \<Rightarrow> u64" where
  "offset_distance a b = (if b \<le> a then a - b else b - a)"

definition offset_follows :: "log_offset \<Rightarrow> log_offset \<Rightarrow> bool" where
  "offset_follows a b = (a = b + 1)"

section \<open>The in-memory backend\<close>

record message_entry =
  me_sequence :: u64
  me_offset :: u64
  me_data :: bytes
  me_timestamp :: u64

record message_range =
  mr_start_offset :: log_offset
  mr_end_offset :: log_offset
  mr_messages :: "message_entry list"
  mr_total_size :: u64

record memory_backend_config =
  max_messages :: "usize option"
  max_memory :: "usize option"
  enable_compression :: bool

definition memory_config_default :: memory_backend_config where
  "memory_config_default =
     \<lparr>max_messages = Some 1000000, max_memory = Some (1024 * 1024 * 1024), enable_compression = False\<rparr>"

record memory_backend =
  mb_messages :: "(u64, message_entry) btree_map"
  mb_sequence_index :: "(u64, u64) hash_map"
  mb_write_offset :: u64
  mb_message_count :: u64
  mb_total_bytes :: u64
  mb_config :: memory_backend_config

definition memory_with_config :: "memory_backend_config \<Rightarrow> memory_backend" where
  "memory_with_config config =
     \<lparr>mb_messages = [], mb_sequence_index = [], mb_write_offset = 0, mb_message_count = 0,
      mb_total_bytes = 0, mb_config = config\<rparr>"

definition memory_new :: memory_backend where
  "memory_new = memory_with_config memory_config_default"

record memory_stats =
  ms_message_count :: u64
  ms_total_bytes :: u64
  ms_sequence_index_size :: u64
  ms_btree_size :: u64
  ms_estimated_overhead :: u64

definition memory_stats_of :: "memory_backend \<Rightarrow> memory_stats" where
  "memory_stats_of b =
     \<lparr>ms_message_count = mb_message_count b, ms_total_bytes = mb_total_bytes b,
      ms_sequence_index_size = of_nat (length (mb_sequence_index b)),
      ms_btree_size = of_nat (length (mb_messages b)),
      ms_estimated_overhead =
        of_nat (length (mb_sequence_index b) * 16 + length (mb_messages b) * 32)\<rparr>"

definition total_memory_usage :: "memory_stats \<Rightarrow> u64" where
  "total_memory_usage st = ms_total_bytes st + ms_estimated_overhead st"

definition memory_clear :: "memory_backend \<Rightarrow> memory_backend \<times> (unit, storage_error) result" where
  "memory_clear b =
     (b\<lparr>mb_messages := [], mb_sequence_index := [], mb_write_offset := 0, mb_message_count := 0,
        mb_total_bytes := 0\<rparr>, Ok ())"

definition over_limit :: "u64 \<Rightarrow> usize option \<Rightarrow> (unit, storage_error) result" where
  "over_limit used limit =
     (case limit of
        Some cap \<Rightarrow> if of_nat cap \<le> used then Err (CapacityExceeded used (of_nat cap)) else Ok ()
      | None \<Rightarrow> Ok ())"

definition check_limits :: "memory_backend \<Rightarrow> (unit, storage_error) result" where
  "check_limits b =
     and_then (over_limit (mb_message_count b) (max_messages (mb_config b)))
       (\<lambda>_. over_limit (mb_total_bytes b) (max_memory (mb_config b)))"

text \<open>\<open>SystemTime::now().duration_since(UNIX_EPOCH).unwrap()\<close>: a clock before 1970 panics.\<close>

definition unix_micros :: "system_time \<Rightarrow> (u64, storage_error) result" where
  "unix_micros now =
     (case duration_since now 0 of Some d \<Rightarrow> Ok (of_nat (d div 1000)) | None \<Rightarrow> Panic)"

definition write_message ::
    "system_time \<Rightarrow> u64 \<Rightarrow> bytes \<Rightarrow> memory_backend \<Rightarrow> memory_backend \<times> (log_offset, storage_error) result" where
  "write_message now sequence data b =
     (case check_limits b of
        Ok _ \<Rightarrow>
          let offset = mb_write_offset b; b1 = b\<lparr>mb_write_offset := offset + 1\<rparr> in
          (case unix_micros now of
             Ok ts \<Rightarrow>
               (b1\<lparr>mb_messages := bt_insert offset
                     \<lparr>me_sequence = sequence, me_offset = offset, me_data = data, me_timestamp = ts\<rparr>
                     (mb_messages b1),
                   mb_sequence_index := hm_insert sequence offset (mb_sequence_index b1),
                   mb_message_count := mb_message_count b1 + 1,
                   mb_total_bytes := mb_total_bytes b1 + of_nat (length data)\<rparr>, Ok offset)
           | Err e \<Rightarrow> (b1, Err e)
           | Panic \<Rightarrow> (b1, Panic))
      | Err e \<Rightarrow> (b, Err e)
      | Panic \<Rightarrow> (b, Panic))"

definition batch_bytes :: "(u64 \<times> bytes) list \<Rightarrow> u64" where
  "batch_bytes messages = (\<Sum>m\<leftarrow>messages. of_nat (length (snd m)))"

definition batch_over_limit :: "u64 \<Rightarrow> u64 \<Rightarrow> usize option \<Rightarrow> (unit, storage_error) result" where
  "batch_over_limit current added limit =
     (case limit of
        Some cap \<Rightarrow>
          if of_nat cap < current + added then Err (CapacityExceeded (current + added) (of_nat cap))
          else Ok ()
      | None \<Rightarrow> Ok ())"

text \<open>The \<open>i\<close>-th message of a batch reads the clock as \<open>nows i\<close>.\<close>

fun prepare_entries ::
    "(nat \<Rightarrow> system_time) \<Rightarrow> nat \<Rightarrow> u64 \<Rightarrow> (u64 \<times> bytes) list \<Rightarrow> (message_entry list, storage_error) result" where
  "prepare_entries nows i start_offset [] = Ok []"
| "prepare_entries nows i start_offset ((sequence, data) # ms) =
     and_then (unix_micros (nows i)) (\<lambda>ts.
       and_then (prepare_entries nows (Suc i) start_offset ms) (\<lambda>es.
         Ok (\<lparr>me_sequence = sequence, me_offset = start_offset + of_nat i, me_data = data,
              me_timestamp = ts\<rparr> # es)))"

fun store_entries :: "message_entry list \<Rightarrow> memory_backend \<Rightarrow> memory_backend" where
  "store_entries [] b = b"
| "store_entries (e # es) b =
     store_entries es
       (b\<lparr>mb_messages := bt_insert (me_offset e) e (mb_messages b),
          mb_sequence_index := hm_insert (me_sequence e) (me_offset e) (mb_sequence_index b)\<rparr>)"

definition write_batch ::
    "(nat \<Rightarrow> system_time) \<Rightarrow> (u64 \<times> bytes) list \<Rightarrow> memory_backend
       \<Rightarrow> memory_backend \<times> (log_offset list, storage_error) result" where
  "write_batch nows messages b =
     (if messages = [] then (b, Ok [])
      else
        let n = of_nat (length messages); batch_size = batch_bytes messages in
        case and_then (batch_over_limit (mb_message_count b) n (max_messages (mb_config b)))
               (\<lambda>_. batch_over_limit (mb_total_bytes b) batch_size (max_memory (mb_config b))) of
          Ok _ \<Rightarrow>
            let start_offset = mb_write_offset b; b1 = b\<lparr>mb_write_offset := start_offset + n\<rparr> in
            (case prepare_entries nows 0 start_offset messages of
               Ok es \<Rightarrow>
                 let b2 = store_entries es b1 in
                 (b2\<lparr>mb_message_count := mb_message_count b2 + of_nat (length es),
                     mb_total_bytes := mb_total_bytes b2 + batch_size\<rparr>, Ok (map me_offset es))
             | Err e \<Rightarrow> (b1, Err e)
             | Panic \<Rightarrow> (b1, Panic))
        | Err e \<Rightarrow> (b, Err e)
        | Panic \<Rightarrow> (b, Panic))"

definition read_message :: "log_offset \<Rightarrow> memory_backend \<Rightarrow> (message_entry, storage_error) result" where
  "read_message offset b =
     (case map_of (mb_messages b) offset of
        Some e \<Rightarrow> Ok e
      | None \<Rightarrow> Err (MessageNotFound (''offset-'' @ decimal (unat offset))))"

definition read_message_by_sequence ::
    "u64 \<Rightarrow> memory_backend \<Rightarrow> (message_entry, storage_error) result" where
  "read_message_by_sequence sequence b =
     (case hm_get (mb_sequence_index b) sequence of
        None \<Rightarrow> Err (SequenceNotFound sequence)
      | Some offset \<Rightarrow>
          (case map_of (mb_messages b) offset of
             Some e \<Rightarrow> Ok e
           | None \<Rightarrow> Err (MessageNotFound (''sequence-'' @ decimal (unat sequence)))))"

definition read_range :: "log_offset \<Rightarrow> log_offset \<Rightarrow> memory_backend \<Rightarrow> (message_range, storage_error) result" where
  "read_range start end_offset b =
     (if end_offset < start then Err (InvalidOffset start end_offset)
      else
        let range_messages = map snd (bt_range start end_offset (mb_messages b))
        in Ok \<lparr>mr_start_offset = start, mr_end_offset = end_offset, mr_messages = range_messages,
               mr_total_size = (\<Sum>m\<leftarrow>range_messages. of_nat (length (me_data m)))\<rparr>)"

definition get_latest_offset :: "memory_backend \<Rightarrow> log_offset option" where
  "get_latest_offset b = (if 0 < mb_write_offset b then Some (mb_write_offset b - 1) else None)"

definition get_message_count :: "memory_backend \<Rightarrow> u64" where
  "get_message_count b = mb_message_count b"

definition get_storage_size :: "memory_backend \<Rightarrow> u64" where
  "get_storage_size b = mb_total_bytes b"

end
