(* ===== verification/Memory_Store.thy ===== *)
theory Memory_Store
  imports Storage
begin

text \<open>
  The in-memory backend as an append-only log. The invariant says what the code keeps true of its
  five fields, the abstraction is the list of stored messages, and the backend interprets the
  contract \<open>append_store\<close>; batches, ranges and lookups by sequence number are then related to it.
\<close>

section \<open>The stored log\<close>

type_synonym stored = "u64 \<times> bytes"

definition message_of :: "message_entry \<Rightarrow> stored" where
  "message_of e = (me_sequence e, me_data e)"

definition mem_contents :: "memory_backend \<Rightarrow> stored list" where
  "mem_contents b = map (message_of \<circ> snd) (mb_messages b)"

definition mem_ok :: "memory_backend \<Rightarrow> bool" where
  "mem_ok b =
     ((\<exists>cap. max_messages (mb_config b) = Some cap \<and> cap < 2 ^ 64 \<and> length (mb_messages b) \<le> cap)
      \<and> map fst (mb_messages b) = map of_nat [0..<length (mb_messages b)]
      \<and> (\<forall>x\<in>set (mb_messages b). me_offset (snd x) = fst x)
      \<and> mb_write_offset b = of_nat (length (mb_messages b))
      \<and> mb_message_count b = of_nat (length (mb_messages b))
      \<and> mb_total_bytes b = (\<Sum>m\<leftarrow>mem_contents b. of_nat (length (snd m)))
      \<and> hm_get (mb_sequence_index b)
          = map_of (rev (map (\<lambda>x. (me_sequence (snd x), fst x)) (mb_messages b))))"

definition mem_push :: "message_entry \<Rightarrow> memory_backend \<Rightarrow> memory_backend" where
  "mem_push e b =
     b\<lparr>mb_messages := bt_insert (me_offset e) e (mb_messages b),
       mb_sequence_index := hm_insert (me_sequence e) (me_offset e) (mb_sequence_index b),
       mb_write_offset := mb_write_offset b + 1,
       mb_message_count := mb_message_count b + 1,
       mb_total_bytes := mb_total_bytes b + of_nat (length (me_data e))\<rparr>"

lemma of_nat_less_iff:
  "i < 2 ^ 64 \<Longrightarrow> j < 2 ^ 64 \<Longrightarrow> (of_nat i :: u64) < of_nat j \<longleftrightarrow> i < j"
  by (simp add: word_less_nat_alt unat_of_nat take_bit_nat_eq_self)

lemma of_nat_le_iff:
  "i < 2 ^ 64 \<Longrightarrow> j < 2 ^ 64 \<Longrightarrow> (of_nat i :: u64) \<le> of_nat j \<longleftrightarrow> i \<le> j"
  by (simp add: word_le_nat_alt unat_of_nat take_bit_nat_eq_self)

lemma mem_ok_bound: "mem_ok b \<Longrightarrow> length (mb_messages b) < 2 ^ 64"
  by (auto simp: mem_ok_def)

lemma mem_keys: "mem_ok b \<Longrightarrow> fst ` set (mb_messages b) = of_nat ` {0..<length (mb_messages b)}"
  unfolding mem_ok_def by (metis atLeastLessThan_upt set_map)

lemma mem_insert_end:
  assumes "mem_ok b"
  shows "bt_insert (mb_write_offset b) e (mb_messages b) = mb_messages b @ [(mb_write_offset b, e)]"
proof (rule bt_insert_end, rule ballI)
  fix x assume "x \<in> fst ` set (mb_messages b)"
  then obtain i where "x = of_nat i" "i < length (mb_messages b)" using mem_keys[OF assms] by auto
  moreover have "mb_write_offset b = of_nat (length (mb_messages b))" using assms by (simp add: mem_ok_def)
  ultimately show "x < mb_write_offset b" using mem_ok_bound[OF assms] by (simp add: of_nat_less_iff)
qed

lemma mem_push_ok:
  assumes "mem_ok b" "me_offset e = mb_write_offset b"
    and "max_messages (mb_config b) = Some cap" "length (mb_messages b) < cap"
  shows "mem_ok (mem_push e b) \<and> mem_contents (mem_push e b) = mem_contents b @ [message_of e]"
proof -
  have ins: "bt_insert (me_offset e) e (mb_messages b) = mb_messages b @ [(me_offset e, e)]"
    using mem_insert_end[OF assms(1)] assms(2) by simp
  have off: "me_offset e = of_nat (length (mb_messages b))" using assms(1,2) by (simp add: mem_ok_def)
  show ?thesis
    using assms unfolding mem_ok_def mem_push_def ins mem_contents_def
    by (simp add: off message_of_def add.commute)
qed

lemma write_message_push:
  assumes "check_limits b = Ok ()" "0 \<le> now"
  shows "write_message now sequence data b =
     (mem_push \<lparr>me_sequence = sequence, me_offset = mb_write_offset b, me_data = data,
                me_timestamp = of_nat (nat now div 1000)\<rparr> b, Ok (mb_write_offset b))"
  using assms
  by (simp add: write_message_def unix_micros_def duration_since_def mem_push_def Let_def)

lemma check_limits_cases: "check_limits b = Ok () \<or> (\<exists>e. check_limits b = Err e)"
  by (auto simp: check_limits_def over_limit_def split: option.splits)

lemma write_message_refused:
  "check_limits b = Err e \<Longrightarrow> write_message now sequence data b = (b, Err e)"
  by (simp add: write_message_def)

definition store_message :: "nat \<Rightarrow> stored \<Rightarrow> memory_backend \<Rightarrow> memory_backend \<times> (u64, storage_error) result" where
  "store_message now m b = write_message (int now) (fst m) (snd m) b"

definition fetch_message :: "u64 \<Rightarrow> memory_backend \<Rightarrow> (stored, storage_error) result" where
  "fetch_message off b = and_then (read_message off b) (\<lambda>e. Ok (message_of e))"

lemma store_message_Ok:
  assumes ok: "mem_ok b" and w: "store_message now m b = (b', Ok off)"
  shows "mem_ok b' \<and> mem_contents b' = mem_contents b @ [m] \<and> unat off = length (mem_contents b)"
proof -
  have lim: "check_limits b = Ok ()"
    using w check_limits_cases[of b] by (auto simp: store_message_def write_message_refused)
  obtain cap where cap: "max_messages (mb_config b) = Some cap" "cap < 2 ^ 64" "length (mb_messages b) \<le> cap"
    using ok by (auto simp: mem_ok_def)
  have "\<not> of_nat cap \<le> mb_message_count b"
    using lim cap(1) by (auto simp: check_limits_def over_limit_def split: if_splits)
  then have "length (mb_messages b) < cap"
    using ok cap mem_ok_bound[OF ok] by (auto simp: mem_ok_def of_nat_le_iff)
  note push = mem_push_ok[OF ok _ cap(1) this]
  define e where "e = \<lparr>me_sequence = fst m, me_offset = mb_write_offset b, me_data = snd m,
    me_timestamp = of_nat (nat (int now) div 1000)\<rparr>"
  have out: "b' = mem_push e b" "off = mb_write_offset b"
    using w lim by (auto simp: store_message_def write_message_push e_def)
  have "unat (mb_write_offset b) = length (mem_contents b)"
    using ok mem_ok_bound[OF ok]
    by (simp add: mem_ok_def mem_contents_def unat_of_nat take_bit_nat_eq_self)
  with push[of e] out show ?thesis by (simp add: e_def message_of_def)
qed

lemma mem_key:
  assumes "mem_ok b" "i < length (mb_messages b)"
  shows "fst (mb_messages b ! i) = of_nat i"
proof -
  have "map fst (mb_messages b) ! i = map of_nat [0..<length (mb_messages b)] ! i"
    using assms(1) by (simp add: mem_ok_def)
  then show ?thesis using assms(2) by simp
qed

lemma mem_get:
  assumes "mem_ok b" "i < length (mb_messages b)"
  shows "map_of (mb_messages b) (of_nat i) = Some (snd (mb_messages b ! i))"
proof -
  have "inj_on (of_nat :: nat \<Rightarrow> u64) {0..<length (mb_messages b)}"
  proof (rule inj_onI)
    fix x y assume "x \<in> {0..<length (mb_messages b)}" "y \<in> {0..<length (mb_messages b)}"
      "(of_nat x :: u64) = of_nat y"
    then have "unat (of_nat x :: u64) = unat (of_nat y :: u64)" "x < 2 ^ 64" "y < 2 ^ 64"
      using mem_ok_bound[OF assms(1)] by auto
    then show "x = y" by (simp add: unat_of_nat take_bit_nat_eq_self)
  qed
  then have "distinct (map fst (mb_messages b))"
    using assms(1) unfolding mem_ok_def by (metis atLeastLessThan_upt distinct_map distinct_upt)
  moreover have "mb_messages b ! i = (of_nat i, snd (mb_messages b ! i))"
    using mem_key[OF assms] by (simp add: prod_eq_iff)
  ultimately show ?thesis using assms(2) by (metis map_of_is_SomeI nth_mem)
qed

lemma fetch_message_at:
  assumes "mem_ok b" "unat off < length (mem_contents b)"
  shows "fetch_message off b = Ok (mem_contents b ! unat off)"
  using mem_get[OF assms(1), of "unat off"] assms(2)
  by (simp add: fetch_message_def read_message_def mem_contents_def)

interpretation memory_log: append_store mem_contents mem_ok "store_message now" fetch_message for now
proof unfold_locales
  fix b m b' off
  assume "mem_ok b" "store_message now m b = (b', Ok off)"
  then show "mem_ok b' \<and> mem_contents b' = mem_contents b @ [m] \<and> unat off = length (mem_contents b)"
    by (rule store_message_Ok)
next
  fix b m b' and r :: "(u64, storage_error) result"
  assume "store_message now m b = (b', r)" "\<not> is_ok r"
  then show "b' = b"
    using check_limits_cases[of b]
    by (auto simp: store_message_def write_message_refused write_message_push)
next
  fix b and off :: u64
  assume "mem_ok b" "unat off < length (mem_contents b)"
  then show "fetch_message off b = Ok (mem_contents b ! unat off)" by (rule fetch_message_at)
qed

lemma store_message_mem_ok: "mem_ok b \<Longrightarrow> mem_ok (fst (store_message now m b))"
  using memory_log.write_step[of b now m "fst (store_message now m b)" "snd (store_message now m b)"]
  by simp

section \<open>Batches\<close>

lemma store_entries_commute:
  "store_entries es (b\<lparr>mb_write_offset := w, mb_message_count := c, mb_total_bytes := t\<rparr>)
   = (store_entries es b)\<lparr>mb_write_offset := w, mb_message_count := c, mb_total_bytes := t\<rparr>"
proof (induction es arbitrary: b)
  case (Cons e es)
  let ?b = "b\<lparr>mb_messages := bt_insert (me_offset e) e (mb_messages b),
      mb_sequence_index := hm_insert (me_sequence e) (me_offset e) (mb_sequence_index b)\<rparr>"
  have "store_entries (e # es) (b\<lparr>mb_write_offset := w, mb_message_count := c, mb_total_bytes := t\<rparr>)
      = store_entries es (?b\<lparr>mb_write_offset := w, mb_message_count := c, mb_total_bytes := t\<rparr>)"
    by (cases b) simp
  with Cons[of ?b] show ?case by simp
qed simp

lemma store_entries_offset:
  "store_entries es (b\<lparr>mb_write_offset := w\<rparr>) = (store_entries es b)\<lparr>mb_write_offset := w\<rparr>"
proof (induction es arbitrary: b)
  case (Cons e es)
  let ?b = "b\<lparr>mb_messages := bt_insert (me_offset e) e (mb_messages b),
      mb_sequence_index := hm_insert (me_sequence e) (me_offset e) (mb_sequence_index b)\<rparr>"
  have "store_entries (e # es) (b\<lparr>mb_write_offset := w\<rparr>) = store_entries es (?b\<lparr>mb_write_offset := w\<rparr>)"
    by (cases b) simp
  with Cons[of ?b] show ?case by simp
qed simp

lemma store_entries_keeps [simp]:
  "mb_write_offset (store_entries es b) = mb_write_offset b"
  "mb_message_count (store_entries es b) = mb_message_count b"
  "mb_total_bytes (store_entries es b) = mb_total_bytes b"
  "mb_config (store_entries es b) = mb_config b"
  by (induction es arbitrary: b) auto

lemma pushes_store_entries:
  "foldl (\<lambda>b e. mem_push e b) b es =
     (store_entries es b)\<lparr>mb_write_offset := mb_write_offset b + of_nat (length es),
        mb_message_count := mb_message_count b + of_nat (length es),
        mb_total_bytes := mb_total_bytes b + (\<Sum>e\<leftarrow>es. of_nat (length (me_data e)))\<rparr>"
proof (induction es arbitrary: b)
  case (Cons e es)
  let ?b = "b\<lparr>mb_messages := bt_insert (me_offset e) e (mb_messages b),
      mb_sequence_index := hm_insert (me_sequence e) (me_offset e) (mb_sequence_index b)\<rparr>"
  have "mem_push e b = ?b\<lparr>mb_write_offset := mb_write_offset b + 1,
      mb_message_count := mb_message_count b + 1,
      mb_total_bytes := mb_total_bytes b + of_nat (length (me_data e))\<rparr>"
    by (simp add: mem_push_def)
  with Cons show ?case by (simp add: store_entries_commute add.assoc)
qed simp

text \<open>What a batch leaves room for, in numbers that do not wrap.\<close>

definition has_room :: "stored list \<Rightarrow> memory_backend \<Rightarrow> bool" where
  "has_room ms b =
     (let bytes = unat (mb_total_bytes b) + (\<Sum>m\<leftarrow>ms. length (snd m));
          count = unat (mb_message_count b) + length ms
      in bytes < 2 ^ 64 \<and> count < 2 ^ 64
         \<and> (case max_messages (mb_config b) of Some cap \<Rightarrow> cap < 2 ^ 64 \<and> count \<le> cap | None \<Rightarrow> True)
         \<and> (case max_memory (mb_config b) of Some cap \<Rightarrow> cap < 2 ^ 64 \<and> bytes \<le> cap | None \<Rightarrow> True))"

lemma le_of_nat: "of_nat k \<le> (w :: u64) \<longleftrightarrow> k \<le> unat w" if "k < 2 ^ 64"
  using that by (simp add: word_le_nat_alt unat_of_nat take_bit_nat_eq_self)

lemma has_room_check:
  assumes "has_room (m # ms) b" "snd m \<noteq> []"
  shows "check_limits b = Ok ()"
proof -
  obtain x xs where d: "snd m = x # xs" using assms(2) by (cases "snd m") auto
  have "over_limit (mb_message_count b) (max_messages (mb_config b)) = Ok ()"
    using assms(1) by (auto simp: has_room_def over_limit_def Let_def le_of_nat split: option.splits)
  moreover have "over_limit (mb_total_bytes b) (max_memory (mb_config b)) = Ok ()"
    using assms(1) d by (auto simp: has_room_def over_limit_def Let_def le_of_nat split: option.splits)
  ultimately show ?thesis by (simp add: check_limits_def)
qed

lemma has_room_push:
  assumes "has_room ((q, d) # ms) b" "me_data e = d"
  shows "has_room ms (mem_push e b)"
proof -
  have "unat (mb_message_count b + 1) = unat (mb_message_count b) + 1"
    using assms(1) unat_add_of_nat[of "mb_message_count b" 1] by (simp add: has_room_def Let_def)
  moreover have "unat (mb_total_bytes b + of_nat (length d)) = unat (mb_total_bytes b) + length d"
    using assms(1) by (intro unat_add_of_nat) (simp add: has_room_def Let_def)
  ultimately show ?thesis
    using assms by (simp add: has_room_def Let_def mem_push_def add.assoc)
qed

lemma prepare_writes:
  assumes "has_room ms b" "\<forall>m\<in>set ms. snd m \<noteq> []" "mb_write_offset b = start + of_nat i"
    and "prepare_entries nows i start ms = Ok es"
  shows "write_all (\<lambda>(now, q, d). write_message now q d) (zip (map nows [i..<i + length ms]) ms) b
         = (foldl (\<lambda>b e. mem_push e b) b es, map (Some \<circ> me_offset) es)"
  using assms
proof (induction ms arbitrary: b i es)
  case (Cons m ms)
  obtain q d where m: "m = (q, d)" by fastforce
  obtain es' where now: "0 \<le> nows i" and rest: "prepare_entries nows (Suc i) start ms = Ok es'"
    and es: "es = \<lparr>me_sequence = q, me_offset = start + of_nat i, me_data = d,
               me_timestamp = of_nat (nat (nows i) div 1000)\<rparr> # es'" (is "_ = ?e # _")
    using Cons.prems(4) m
    by (auto simp: and_then_Ok_iff unix_micros_def duration_since_def split: option.splits if_splits)
  have lim: "check_limits b = Ok ()" 
    by (rule has_room_check[OF Cons.prems(1)]) (use Cons.prems(2) in simp)
  have "has_room ms (mem_push ?e b)" using has_room_push[of q d ms b ?e] Cons.prems(1) m by simp
  from Cons.IH[OF this _ _ rest] Cons.prems(2,3)
  have IH: "write_all (\<lambda>(now, q, d). write_message now q d)
      (zip (map nows [Suc i..<Suc i + length ms]) ms) (mem_push ?e b)
      = (foldl (\<lambda>b e. mem_push e b) (mem_push ?e b) es', map (Some \<circ> me_offset) es')"
    by (simp add: mem_push_def algebra_simps)
  have up: "[i..<i + length (m # ms)] = i # [Suc i..<Suc i + length ms]"
    by (simp add: upt_conv_Cons del: upt_Suc)
  show ?case
    unfolding up using IH write_message_push[OF lim now, of q d] Cons.prems(3)
    by (simp add: m es del: upt_Suc)
qed simp

lemma prepare_bytes:
  "prepare_entries nows i start ms = Ok es \<Longrightarrow>
     length es = length ms \<and> (\<Sum>e\<leftarrow>es. of_nat (length (me_data e))) = batch_bytes ms"
proof (induction ms arbitrary: i es)
  case (Cons m ms)
  then show ?case by (cases m) (auto simp: and_then_Ok_iff batch_bytes_def)
qed (simp add: batch_bytes_def)

lemma prepare_not_Err: "prepare_entries nows i start ms \<noteq> Err e"
proof (induction ms arbitrary: i)
  case (Cons m ms)
  then show ?case
    by (cases m; cases "prepare_entries nows (Suc i) start ms"; cases "unix_micros (nows i)")
       (auto simp: unix_micros_def split: option.splits)
qed simp

lemma write_batch_OkD:
  assumes "write_batch nows ms b = (b', Ok offs)" "ms \<noteq> []"
  shows "\<exists>es. prepare_entries nows 0 (mb_write_offset b) ms = Ok es
           \<and> b' = foldl (\<lambda>b e. mem_push e b) b es \<and> offs = map me_offset es
           \<and> batch_over_limit (mb_message_count b) (of_nat (length ms)) (max_messages (mb_config b)) = Ok ()
           \<and> batch_over_limit (mb_total_bytes b) (batch_bytes ms) (max_memory (mb_config b)) = Ok ()"
proof -
  let ?b = "b\<lparr>mb_write_offset := mb_write_offset b + of_nat (length ms)\<rparr>"
  obtain es where es: "prepare_entries nows 0 (mb_write_offset b) ms = Ok es"
    and lim: "batch_over_limit (mb_message_count b) (of_nat (length ms)) (max_messages (mb_config b)) = Ok ()"
      "batch_over_limit (mb_total_bytes b) (batch_bytes ms) (max_memory (mb_config b)) = Ok ()"
    and b': "b' = (let b2 = store_entries es ?b in
        b2\<lparr>mb_message_count := mb_message_count b2 + of_nat (length es),
           mb_total_bytes := mb_total_bytes b2 + batch_bytes ms\<rparr>)" and "offs = map me_offset es"
    using assms by (auto simp: write_batch_def Let_def and_then_Ok_iff split: result.splits)
  have "b' = foldl (\<lambda>b e. mem_push e b) b es"
    unfolding b' pushes_store_entries Let_def store_entries_offset using prepare_bytes[OF es] by simp
  with es lim \<open>offs = map me_offset es\<close> show ?thesis by blast
qed

section \<open>Properties\<close>

text \<open>
  C8: the in-memory backend is an append-only log. From a state that satisfies the invariant, any
  series of writes leaves one that does, the stored messages are the old ones followed by the
  accepted ones in order, and every offset that was returned reads back the message written for it.
\<close>

theorem memory_log_refinement:
  assumes "mem_ok b" and "write_all (store_message now) ms b = (b', offs)"
  shows "mem_ok b' \<and> mem_contents b' = mem_contents b @ accepted ms offs
         \<and> (\<forall>i < length ms. \<forall>off. offs ! i = Some off \<longrightarrow> fetch_message off b' = Ok (ms ! i))"
  using memory_log.write_all_contents[OF assms] memory_log.write_all_reads[OF assms] by blast

definition small_memory :: "nat \<Rightarrow> nat \<Rightarrow> memory_backend" where
  "small_memory count bytes =
     memory_with_config \<lparr>max_messages = Some count, max_memory = Some bytes, enable_compression = False\<rparr>"

lemma small_memory_ok: "count < 2 ^ 64 \<Longrightarrow> mem_ok (small_memory count bytes)"
  by (simp add: mem_ok_def small_memory_def memory_with_config_def mem_contents_def)

theorem memory_log_refinement_witness:
  "fetch_message 1 (fst (write_all (store_message 5) [(7, [1]), (8, [2, 3])] (small_memory 10 100)))
   = Ok (8, [2, 3])"
proof -
  let ?w = "write_all (store_message 5) [(7, [1]), (8, [2, 3])] (small_memory 10 100)"
  have offs: "snd ?w = [Some 0, Some 1]" by code_simp
  have "mem_ok (small_memory 10 100)" by (rule small_memory_ok) simp
  from memory_log_refinement[OF this, of 5 "[(7, [1]), (8, [2, 3])]" "fst ?w" "snd ?w"]
  have "\<forall>i < 2. \<forall>off. snd ?w ! i = Some off \<longrightarrow>
      fetch_message off (fst ?w) = Ok ([(7, [1]), (8, [2, 3])] ! i)"
    by simp
  from this[rule_format, of 1 1] show ?thesis unfolding offs by simp
qed

text \<open>
  C12: a batch is its messages written one by one. When \<open>write_batch\<close> accepts a batch of non-empty
  messages (and the 64-bit counters do not wrap), writing the messages singly, each at its own
  clock reading, is accepted too, returns the same offsets and leaves the same state.
\<close>

theorem batch_equals_writes:
  assumes "write_batch nows ms b = (b', Ok offs)" and "\<forall>m\<in>set ms. snd m \<noteq> []"
    and "unat (mb_message_count b) + length ms < 2 ^ 64"
    and "unat (mb_total_bytes b) + (\<Sum>m\<leftarrow>ms. length (snd m)) < 2 ^ 64"
    and "\<And>cap. max_messages (mb_config b) = Some cap \<Longrightarrow> cap < 2 ^ 64"
    and "\<And>cap. max_memory (mb_config b) = Some cap \<Longrightarrow> cap < 2 ^ 64"
  shows "write_all (\<lambda>(now, q, d). write_message now q d) (zip (map nows [0..<length ms]) ms) b
         = (b', map Some offs)"
proof (cases "ms = []")
  case True
  then show ?thesis using assms(1) by (simp add: write_batch_def)
next
  case False
  obtain es where es: "prepare_entries nows 0 (mb_write_offset b) ms = Ok es"
    "b' = foldl (\<lambda>b e. mem_push e b) b es" "offs = map me_offset es"
    and lim: "batch_over_limit (mb_message_count b) (of_nat (length ms)) (max_messages (mb_config b)) = Ok ()"
      "batch_over_limit (mb_total_bytes b) (batch_bytes ms) (max_memory (mb_config b)) = Ok ()"
    using write_batch_OkD[OF assms(1) False] by blast
  have bytes: "batch_bytes ms = of_nat (\<Sum>m\<leftarrow>ms. length (snd m))"
    unfolding batch_bytes_def by (induction ms) simp_all
  have "has_room ms b"
    using lim assms(3-6) unfolding has_room_def batch_over_limit_def Let_def bytes
    by (auto simp: word_less_nat_alt unat_add_of_nat unat_of_nat take_bit_nat_eq_self not_less
        split: option.splits if_splits)
  from prepare_writes[OF this assms(2) _ es(1)] es(2,3) show ?thesis by simp
qed

theorem batch_equals_writes_witness:
  "write_all (\<lambda>(now, q, d). write_message now q d) [(5, 7, [1]), (6, 8, [2])] (small_memory 10 100)
   = (fst (write_batch (\<lambda>i. 5 + int i) [(7, [1]), (8, [2])] (small_memory 10 100)), [Some 0, Some 1])"
proof -
  let ?w = "write_batch (\<lambda>i. 5 + int i) [(7, [1]), (8, [2])] (small_memory 10 100)"
  have "snd ?w = Ok [0, 1]" by code_simp
  then have w: "?w = (fst ?w, Ok [0, 1])" by (metis prod.collapse)
  have "write_all (\<lambda>(now, q, d). write_message now q d)
      (zip (map (\<lambda>i. 5 + int i) [0..<length [(7, [1 :: u8]), (8 :: u64, [2])]]) [(7, [1]), (8, [2])])
      (small_memory 10 100) = (fst ?w, map Some [0, 1])"
    by (rule batch_equals_writes[OF w]) (auto simp: small_memory_def memory_with_config_def)
  then show ?thesis by (simp add: upt_rec)
qed

lemma slice_by_index:
  "map (nth xs) (filter (\<lambda>i. a \<le> i \<and> i \<le> c) [0..<length xs]) = take (Suc c - a) (drop a xs)"
proof -
  have "map (nth xs) (filter (\<lambda>i. a \<le> i \<and> i \<le> c) [0..<n]) = take (Suc c - a) (drop a (take n xs))"
    if "n \<le> length xs" for n
    using that
  proof (induction n)
    case (Suc n)
    then have "take (Suc n) xs = take n xs @ [xs ! n]" by (simp add: take_Suc_conv_app_nth)
    with Suc show ?case by (auto simp: not_le)
  qed simp
  from this[of "length xs"] show ?thesis by simp
qed

lemma filter_by_index: "filter P xs = map (nth xs) (filter (\<lambda>i. P (xs ! i)) [0..<length xs])"
proof -
  have "filter P (map (nth xs) [0..<length xs]) = map (nth xs) (filter (\<lambda>i. P (xs ! i)) [0..<length xs])"
    by (simp add: filter_map comp_def)
  then show ?thesis by (simp add: map_nth)
qed

text \<open>
  a range read is a slice of the log: the messages from the first to the last offset asked
  for, both included, in offset order, cut off at the end of the log.
\<close>

theorem read_range_slice:
  assumes "mem_ok b" and "start \<le> stop"
  shows "\<exists>r. read_range start stop b = Ok r
           \<and> map message_of (mr_messages r)
             = take (Suc (unat stop) - unat start) (drop (unat start) (mem_contents b))"
proof -
  let ?m = "mb_messages b"
  have key: "start \<le> fst (?m ! i) \<and> fst (?m ! i) \<le> stop \<longleftrightarrow> unat start \<le> i \<and> i \<le> unat stop"
    if "i < length ?m" for i
  proof -
    have "fst (?m ! i) = of_nat i" by (rule mem_key[OF assms(1) that])
    moreover have "i < 2 ^ 64" using that mem_ok_bound[OF assms(1)] by simp
    ultimately show ?thesis by (simp add: word_le_nat_alt unat_of_nat take_bit_nat_eq_self)
  qed
  have "filter (\<lambda>i. start \<le> fst (?m ! i) \<and> fst (?m ! i) \<le> stop) [0..<length ?m]
      = filter (\<lambda>i. unat start \<le> i \<and> i \<le> unat stop) [0..<length ?m]"
    by (rule filter_cong) (use key in auto)
  then have "bt_range start stop ?m = take (Suc (unat stop) - unat start) (drop (unat start) ?m)"
    unfolding bt_range_def by (simp only: filter_by_index[of _ ?m] slice_by_index)
  then show ?thesis
    using assms(2) by (simp add: read_range_def mem_contents_def take_map drop_map Let_def)
qed

theorem read_range_slice_witness:
  "\<exists>r. read_range 1 1 (fst (store_message 0 (8, [2]) (fst (store_message 0 (7, [1]) (small_memory 10 100))))) = Ok r
     \<and> map message_of (mr_messages r) = [(8, [2])]"
proof -
  let ?b = "fst (store_message 0 (8, [2]) (fst (store_message 0 (7, [1]) (small_memory 10 100))))"
  have ok: "mem_ok ?b"
    by (intro store_message_mem_ok small_memory_ok) simp
  have c: "mem_contents ?b = [(7, [1]), (8, [2])]" by code_simp
  from read_range_slice[OF ok, of 1 1] show ?thesis by (simp add: c)
qed

lemma map_of_rev_split:
  "map_of (rev xs) k = Some v \<Longrightarrow> \<exists>ys zs. xs = ys @ (k, v) # zs \<and> k \<notin> fst ` set zs"
proof (induction xs)
  case (Cons x xs)
  show ?case
  proof (cases "map_of (rev xs) k")
    case None
    then have "k \<notin> fst ` set xs" by (metis image_set map_of_eq_None_iff rev_map set_rev)
    moreover have "x = (k, v)" using Cons.prems None by (cases x) (auto simp: map_add_def split: if_splits)
    ultimately show ?thesis by (intro exI[of _ "[]"] exI[of _ xs]) simp
  next
    case (Some w)
    then have "map_of (rev xs) k = Some v" using Cons.prems by (simp add: map_add_def)
    from Cons.IH[OF this] obtain ys zs where "xs = ys @ (k, v) # zs" "k \<notin> fst ` set zs" by blast
    then show ?thesis by (intro exI[of _ "x # ys"] exI[of _ zs]) simp
  qed
qed simp

text \<open>
  lookup by sequence number. When several messages were stored under one sequence number, the
  lookup returns the last of them; when none was, it fails with \<open>SequenceNotFound\<close>; and it never
  fails with \<open>MessageNotFound\<close>, since the index only names offsets that are stored.
\<close>

theorem read_by_sequence_latest:
  assumes "mem_ok b"
  shows "case read_message_by_sequence q b of
           Ok e \<Rightarrow> (\<exists>xs ys. mem_contents b = xs @ message_of e # ys \<and> me_sequence e = q
                      \<and> unat (me_offset e) = length xs \<and> q \<notin> fst ` set ys)
         | Err err \<Rightarrow> err = SequenceNotFound q \<and> q \<notin> fst ` set (mem_contents b)
         | Panic \<Rightarrow> False"
proof -
  let ?M = "mb_messages b" and ?p = "\<lambda>x :: u64 \<times> message_entry. (me_sequence (snd x), fst x)"
  have idx: "hm_get (mb_sequence_index b) q = map_of (rev (map ?p ?M)) q"
    using assms by (simp add: mem_ok_def)
  show ?thesis
  proof (cases "hm_get (mb_sequence_index b) q")
    case None
    then have "q \<notin> fst ` set (mem_contents b)"
      unfolding idx by (auto simp: map_of_eq_None_iff mem_contents_def message_of_def image_iff)
    with None show ?thesis by (simp add: read_message_by_sequence_def)
  next
    case (Some off)
    from map_of_rev_split[OF Some[unfolded idx]] obtain ys zs
      where "map ?p ?M = ys @ (q, off) # zs" and last: "q \<notin> fst ` set zs" by blast
    then obtain as x bs where M: "?M = as @ x # bs" "?p x = (q, off)" "map ?p bs = zs"
      by (auto simp: map_eq_append_conv map_eq_Cons_conv)
    have i: "length as < length ?M" by (simp add: M)
    have off: "off = of_nat (length as)" using mem_key[OF assms i] M(1,2) by simp
    moreover have "me_offset (snd x) = off" using assms M(1,2) by (auto simp: mem_ok_def)
    moreover have "length as < 2 ^ 64" using i mem_ok_bound[OF assms] by simp
    moreover have "q \<notin> fst ` set (map (message_of \<circ> snd) bs)"
      using last unfolding M(3)[symmetric] by (force simp: message_of_def)
    ultimately have split: "mem_contents b
          = map (message_of \<circ> snd) as @ message_of (snd x) # map (message_of \<circ> snd) bs
        \<and> me_sequence (snd x) = q \<and> unat (me_offset (snd x)) = length (map (message_of \<circ> snd) as)
        \<and> q \<notin> fst ` set (map (message_of \<circ> snd) bs)"
      using M(2) by (simp add: mem_contents_def M(1) unat_of_nat take_bit_nat_eq_self)
    have "map_of ?M off = Some (snd x)"
      using mem_get[OF assms i] off by (simp add: M(1))
    with Some have "read_message_by_sequence q b = Ok (snd x)"
      by (simp add: read_message_by_sequence_def)
    with split show ?thesis by (simp only: result.case) blast
  qed
qed

theorem read_by_sequence_latest_witness:
  "case read_message_by_sequence 7
      (fst (store_message 0 (7, [2]) (fst (store_message 0 (7, [1]) (small_memory 10 100))))) of
     Ok e \<Rightarrow> me_data e = [2] | _ \<Rightarrow> False"
proof -
  let ?b = "fst (store_message 0 (7, [2]) (fst (store_message 0 (7, [1]) (small_memory 10 100))))"
  have ok: "mem_ok ?b" by (intro store_message_mem_ok small_memory_ok) simp
  have c: "mem_contents ?b = [(7, [1]), (7, [2])]" by code_simp
  from read_by_sequence_latest[OF ok, of 7] show ?thesis
    by (auto simp: c message_of_def append_eq_Cons_conv Cons_eq_append_conv split: result.splits)
qed

text \<open>
  the memory limit is soft for single writes. \<open>write_message\<close> compares the bytes already stored
  with the limit, so a message that does not fit is accepted as long as the limit is not reached
  yet; \<open>write_batch\<close> counts the new bytes and refuses the same message.
\<close>

theorem memory_limit_overshoot:
  assumes "max_memory (mb_config b) = Some cap" and "check_limits b = Ok ()" and "0 \<le> now"
    and "cap < 2 ^ 64" and "cap < unat (mb_total_bytes b) + length d"
    and "unat (mb_total_bytes b) + length d < 2 ^ 64"
  shows "of_nat cap < mb_total_bytes (fst (write_message now q d b))
         \<and> \<not> is_ok (snd (write_batch nows [(q, d)] b))"
proof -
  have "(of_nat cap :: u64) < mb_total_bytes b + of_nat (length d)"
    using assms(4-6)
    by (simp add: word_less_nat_alt unat_add_of_nat unat_of_nat take_bit_nat_eq_self)
  then show ?thesis
    using assms(1) write_message_push[OF assms(2,3)]
    by (auto simp: mem_push_def write_batch_def batch_over_limit_def batch_bytes_def Let_def
        split: result.splits option.splits)
qed

theorem memory_limit_overshoot_witness:
  "2 < mb_total_bytes (fst (write_message 0 7 [1, 2, 3] (small_memory 10 2)))
   \<and> \<not> is_ok (snd (write_batch (\<lambda>i. 0) [(7, [1, 2, 3])] (small_memory 10 2)))"
proof -
  have "check_limits (small_memory 10 2) = Ok ()" by code_simp
  with memory_limit_overshoot[of "small_memory 10 2" 2 0 "[1, 2, 3]" 7 "\<lambda>i. 0"] show ?thesis
    by (simp add: small_memory_def memory_with_config_def)
qed

end
