(* ===== verification/Wal.thy ===== *)
theory Wal
  imports Clocks
begin

text \<open>
  The write-ahead log of \<^verbatim>\<open>src/kaelix-storage/src/wal\<close>: entries (\<^verbatim>\<open>entry.rs\<close>), segments
  (\<^verbatim>\<open>segment.rs\<close>), the batch coordinator (\<^verbatim>\<open>batch.rs\<close>), rotation (\<^verbatim>\<open>rotation.rs\<close>) and the log
  itself (\<^verbatim>\<open>mod.rs\<close>). The crates \<open>bincode\<close> and \<open>crc32fast\<close> are parameters: \<open>ser\<close> and \<open>de\<close> encode
  and decode an entry, \<open>crc\<close> is the checksum. A segment file is its bytes; whether an I/O call fails,
  with which message and after how many bytes, is an argument.
\<close>

section \<open>Errors and entries\<close>

datatype wal_error =
    WalIo string
  | WalSerialization string
  | WalValidation string
  | WalSegmentError string
  | SegmentFull u64
  | SegmentSealed u64
  | WalBatch string
  | WalRecovery string
  | WalConfiguration string
  | WalNotFound string
  | WalAlreadyExists string
  | WalInvalidOperation string
  | WalInvalidPath string
  | WalTimeout string
  | WalCorruption string
  | WalShutdown

datatype entry_type = MessageEntryT | ControlEntryT | HeartbeatEntryT

record entry_metadata =
  em_entry_type :: entry_type
  em_version :: u8
  em_flags :: u16

definition metadata_of :: "entry_type \<Rightarrow> entry_metadata" where
  "metadata_of t = \<lparr>em_entry_type = t, em_version = 1, em_flags = 0\<rparr>"

record wal_entry =
  we_sequence_number :: u64
  we_timestamp :: u64
  we_metadata :: entry_metadata
  we_payload_length :: u32
  we_checksum :: u32
  we_payload :: bytes

type_synonym checksum_fn = "bytes \<Rightarrow> u32"
type_synonym entry_encoder = "wal_entry \<Rightarrow> (bytes, string) result"
type_synonym entry_decoder = "bytes \<Rightarrow> (wal_entry, string) result"

definition map_err :: "('e \<Rightarrow> 'f) \<Rightarrow> ('a, 'e) result \<Rightarrow> ('a, 'f) result" where
  "map_err f r = (case r of Ok a \<Rightarrow> Ok a | Err e \<Rightarrow> Err (f e) | Panic \<Rightarrow> Panic)"

definition raw_entry :: "checksum_fn \<Rightarrow> u64 \<Rightarrow> u64 \<Rightarrow> entry_metadata \<Rightarrow> bytes \<Rightarrow> wal_entry" where
  "raw_entry crc sequence_number timestamp metadata payload =
     \<lparr>we_sequence_number = sequence_number, we_timestamp = timestamp, we_metadata = metadata,
      we_payload_length = of_nat (length payload), we_checksum = crc payload, we_payload = payload\<rparr>"

definition entry_new ::
    "checksum_fn \<Rightarrow> ('m \<Rightarrow> (bytes, string) result) \<Rightarrow> u64 \<Rightarrow> u64 \<Rightarrow> 'm \<Rightarrow> (wal_entry, wal_error) result" where
  "entry_new crc ser_msg sequence_number timestamp message =
     and_then (map_err (\<lambda>e. WalSerialization (''Failed to serialize message: '' @ e)) (ser_msg message))
       (\<lambda>payload. Ok (raw_entry crc sequence_number timestamp (metadata_of MessageEntryT) payload))"

definition entry_control :: "checksum_fn \<Rightarrow> u64 \<Rightarrow> u64 \<Rightarrow> bytes \<Rightarrow> wal_entry" where
  "entry_control crc sequence_number timestamp control_data =
     raw_entry crc sequence_number timestamp (metadata_of ControlEntryT) control_data"

definition entry_heartbeat :: "checksum_fn \<Rightarrow> u64 \<Rightarrow> u64 \<Rightarrow> wal_entry" where
  "entry_heartbeat crc sequence_number timestamp =
     raw_entry crc sequence_number timestamp (metadata_of HeartbeatEntryT) []"

definition entry_checkpoint :: "checksum_fn \<Rightarrow> u64 \<Rightarrow> u64 \<Rightarrow> bytes \<Rightarrow> wal_entry" where
  "entry_checkpoint crc sequence_number timestamp checkpoint_data =
     raw_entry crc sequence_number timestamp
       \<lparr>em_entry_type = ControlEntryT, em_version = 1, em_flags = 1\<rparr> checkpoint_data"

definition serialized_size :: "wal_entry \<Rightarrow> usize" where
  "serialized_size e = 24 + length (we_payload e)"

definition entry_serialize :: "entry_encoder \<Rightarrow> wal_entry \<Rightarrow> (bytes, wal_error) result" where
  "entry_serialize ser e = map_err (\<lambda>x. WalSerialization (''Failed to serialize entry: '' @ x)) (ser e)"

definition entry_deserialize :: "entry_decoder \<Rightarrow> bytes \<Rightarrow> (wal_entry, wal_error) result" where
  "entry_deserialize de data =
     map_err (\<lambda>x. WalSerialization (''Failed to deserialize entry: '' @ x)) (de data)"

definition deserialize_header :: "entry_decoder \<Rightarrow> bytes \<Rightarrow> (wal_entry, wal_error) result" where
  "deserialize_header de data =
     (if length data < 24 then Err (WalIo ''Insufficient data for entry header'')
      else entry_deserialize de data)"

definition verify_integrity :: "checksum_fn \<Rightarrow> wal_entry \<Rightarrow> bool" where
  "verify_integrity crc e = (crc (we_payload e) = we_checksum e)"

definition age_nanos :: "system_time \<Rightarrow> wal_entry \<Rightarrow> u64" where
  "age_nanos now e = saturating_sub (of_nat (or_zero (duration_since now 0))) (we_timestamp e)"

definition is_older_than :: "system_time \<Rightarrow> u64 \<Rightarrow> wal_entry \<Rightarrow> bool" where
  "is_older_than now nanos e = (nanos < age_nanos now e)"

definition is_checkpoint :: "wal_entry \<Rightarrow> bool" where
  "is_checkpoint e =
     (em_entry_type (we_metadata e) = ControlEntryT \<and> em_flags (we_metadata e) AND 1 \<noteq> 0)"

definition update_checksum :: "checksum_fn \<Rightarrow> wal_entry \<Rightarrow> wal_entry" where
  "update_checksum crc e =
     e\<lparr>we_checksum := crc (we_payload e), we_payload_length := of_nat (length (we_payload e))\<rparr>"

definition entry_validate :: "checksum_fn \<Rightarrow> wal_entry \<Rightarrow> (unit, wal_error) result" where
  "entry_validate crc e =
     (let sq = decimal (unat (we_sequence_number e)) in
      if unat (we_payload_length e) \<noteq> length (we_payload e)
      then Err (WalCorruption (''payload length mismatch (sequence '' @ sq @ ''): expected ''
             @ decimal (unat (we_payload_length e)) @ '', got '' @ decimal (length (we_payload e))))
      else if \<not> verify_integrity crc e
      then Err (WalCorruption (''checksum mismatch (sequence '' @ sq @ '')''))
      else if we_sequence_number e = 0
      then Err (WalCorruption (''invalid sequence number: '' @ sq))
      else if we_timestamp e = 0
      then Err (WalCorruption (''invalid timestamp (sequence '' @ sq @ ''): ''
             @ decimal (unat (we_timestamp e))))
      else Ok ())"

definition with_sequence :: "u64 \<Rightarrow> wal_entry \<Rightarrow> wal_entry" where
  "with_sequence s e = e\<lparr>we_sequence_number := s\<rparr>"

definition with_timestamp :: "u64 \<Rightarrow> wal_entry \<Rightarrow> wal_entry" where
  "with_timestamp t e = e\<lparr>we_timestamp := t\<rparr>"

section \<open>Segments\<close>

record segment_metadata =
  sm_id :: u64
  sm_path :: string
  sm_size :: u64
  sm_capacity :: u64
  sm_entry_count :: u64
  sm_first_sequence :: "u64 option"
  sm_last_sequence :: "u64 option"
  sm_created_at :: system_time
  sm_last_sync :: "system_time option"
  sm_sealed :: bool

definition segment_metadata_new :: "system_time \<Rightarrow> u64 \<Rightarrow> string \<Rightarrow> u64 \<Rightarrow> segment_metadata" where
  "segment_metadata_new now sid path capacity =
     \<lparr>sm_id = sid, sm_path = path, sm_size = 0, sm_capacity = capacity, sm_entry_count = 0,
      sm_first_sequence = None, sm_last_sequence = None, sm_created_at = now, sm_last_sync = None,
      sm_sealed = False\<rparr>"

definition is_full :: "segment_metadata \<Rightarrow> bool" where
  "is_full m = (sm_capacity m \<le> sm_size m)"

definition available_space :: "segment_metadata \<Rightarrow> u64" where
  "available_space m = saturating_sub (sm_capacity m) (sm_size m)"

record wal_segment =
  ws_metadata :: segment_metadata
  ws_file :: bytes
  ws_mmap :: bool
  ws_write_position :: u64

text \<open>
  The faults of the file system, by the call that fails and the message of the operating system;
  \<open>None\<close> is a call that succeeds. A write that fails may have stored a prefix of its bytes.
\<close>

datatype create_fault = DirFault string | OpenFault string | LenFault string | MapFault string
datatype write_fault = SeekFault string | WriteFault nat string
datatype sync_fault = FlushFault string | SyncFault string

definition segment_create ::
    "create_fault option \<Rightarrow> system_time \<Rightarrow> u64 \<Rightarrow> string \<Rightarrow> u64 \<Rightarrow> bool \<Rightarrow> (wal_segment, wal_error) result" where
  "segment_create io now sid path capacity use_mmap =
     (let mapped = (use_mmap \<and> 0 < capacity);
          created = Ok \<lparr>ws_metadata = segment_metadata_new now sid path capacity,
              ws_file = replicate (unat capacity) 0, ws_mmap = mapped, ws_write_position = 0\<rparr> in
      case io of
        Some (DirFault msg) \<Rightarrow> Err (WalIo (''Failed to create directory: '' @ msg))
      | Some (OpenFault msg) \<Rightarrow> Err (WalIo (''Failed to create segment file: '' @ msg))
      | Some (LenFault msg) \<Rightarrow> Err (WalIo (''Failed to pre-allocate segment: '' @ msg))
      | Some (MapFault msg) \<Rightarrow>
          if mapped then Err (WalIo (''Failed to create memory map: '' @ msg)) else created
      | None \<Rightarrow> created)"

text \<open>
  The name of a segment file: \<open>Path::file_name\<close> is the last component of a path unless that is
  \<^verbatim>\<open>..\<close>; \<open>str::parse\<close> reads an optional plus sign and decimal digits that fit 64 bits.
\<close>

fun split_on :: "'a \<Rightarrow> 'a list \<Rightarrow> 'a list list" where
  "split_on c [] = [[]]"
| "split_on c (x # xs) =
     (if x = c then [] # split_on c xs
      else case split_on c xs of [] \<Rightarrow> [[x]] | w # ws \<Rightarrow> (x # w) # ws)"

definition file_name :: "string \<Rightarrow> string option" where
  "file_name path =
     (case filter (\<lambda>c. c \<noteq> [] \<and> c \<noteq> ''.'') (split_on CHR ''/'' path) of
        [] \<Rightarrow> None
      | c # cs \<Rightarrow> if last (c # cs) = ''..'' then None else Some (last (c # cs)))"

definition is_digit :: "char \<Rightarrow> bool" where
  "is_digit c = (48 \<le> (of_char c :: nat) \<and> (of_char c :: nat) \<le> 57)"

definition digits_value :: "string \<Rightarrow> nat" where
  "digits_value ds = foldl (\<lambda>n c. 10 * n + (of_char c - 48)) 0 ds"

definition parse_u64 :: "string \<Rightarrow> u64 option" where
  "parse_u64 str =
     (let ds = (case str of c # cs \<Rightarrow> if c = CHR ''+'' then cs else str | [] \<Rightarrow> []) in
      if ds \<noteq> [] \<and> list_all is_digit ds \<and> digits_value ds < 2 ^ 64
      then Some (of_nat (digits_value ds)) else None)"

definition debug_str :: "string \<Rightarrow> string" where
  "debug_str str =
     [CHR 0x22] @ concat (map (\<lambda>c. if c = CHR 0x22 \<or> c = CHR 0x5C then [CHR 0x5C, c] else [c]) str)
     @ [CHR 0x22]"

definition segment_id_of :: "string \<Rightarrow> (u64, wal_error) result" where
  "segment_id_of path =
     (case file_name path of
        None \<Rightarrow> Err (WalInvalidPath (''Invalid segment path: '' @ debug_str path))
      | Some filename \<Rightarrow>
          let parts = split_on CHR ''-'' filename in
          case (if 1 < length parts then parse_u64 (parts ! 1) else None) of
            None \<Rightarrow> Err (WalInvalidPath (''Cannot parse segment ID from: '' @ filename))
          | Some sid \<Rightarrow> Ok sid)"

type_synonym scan_state = "u64 \<times> u64 \<times> u64 option \<times> u64 option"

function scan_loop :: "entry_decoder \<Rightarrow> bytes \<Rightarrow> nat \<Rightarrow> scan_state \<Rightarrow> (scan_state, wal_error) result" where
  "scan_loop de file cursor (entry_count, position, first_sequence, last_sequence) =
     (if length file < cursor + 24 then Ok (entry_count, position, first_sequence, last_sequence)
      else case deserialize_header de (take 24 (drop cursor file)) of
        Ok entry \<Rightarrow>
          scan_loop de file (cursor + 24 + unat (we_payload_length entry))
            (entry_count + 1, position + (24 + ucast (we_payload_length entry)),
             (case first_sequence of
                None \<Rightarrow> Some (we_sequence_number entry) | Some q \<Rightarrow> Some q),
             Some (we_sequence_number entry))
      | Err e \<Rightarrow> Err (WalIo ''Failed to parse entry header'')
      | Panic \<Rightarrow> Panic)"
  by pat_completeness auto

termination
  by (relation "measure (\<lambda>(de, file, cursor, st). Suc (length file) - cursor)") auto

definition scan_segment :: "entry_decoder \<Rightarrow> bytes \<Rightarrow> (scan_state, wal_error) result" where
  "scan_segment de file = scan_loop de file 0 (0, 0, None, None)"

definition segment_open ::
    "entry_decoder \<Rightarrow> create_fault option \<Rightarrow> system_time \<Rightarrow> string \<Rightarrow> bytes \<Rightarrow> bool \<Rightarrow> (wal_segment, wal_error) result" where
  "segment_open de io now path file use_mmap =
     and_then (segment_id_of path) (\<lambda>sid.
       let mapped = (use_mmap \<and> 0 < length file);
           opened = and_then (scan_segment de file) (\<lambda>(entry_count, write_pos, first_seq, last_seq).
             Ok \<lparr>ws_metadata = (segment_metadata_new now sid path (of_nat (length file)))
                   \<lparr>sm_size := write_pos, sm_entry_count := entry_count,
                    sm_first_sequence := first_seq, sm_last_sequence := last_seq\<rparr>,
                 ws_file = file, ws_mmap = mapped, ws_write_position = write_pos\<rparr>) in
       case io of
         Some (OpenFault msg) \<Rightarrow> Err (WalIo (''Failed to open segment file: '' @ msg))
       | Some (LenFault msg) \<Rightarrow> Err (WalIo (''Failed to get file metadata: '' @ msg))
       | Some (MapFault msg) \<Rightarrow>
           if mapped then Err (WalIo (''Failed to create memory map: '' @ msg)) else opened
       | _ \<Rightarrow> opened)"

definition splice :: "nat \<Rightarrow> bytes \<Rightarrow> bytes \<Rightarrow> bytes" where
  "splice p bs file =
     take p file @ replicate (p - length file) 0 @ bs @ drop (p + length bs) file"

definition can_accept :: "usize \<Rightarrow> wal_segment \<Rightarrow> bool" where
  "can_accept entry_size s =
     (\<not> sm_sealed (ws_metadata s)
      \<and> ws_write_position s + of_nat entry_size \<le> sm_capacity (ws_metadata s))"

definition note_written :: "wal_entry \<Rightarrow> bytes \<Rightarrow> bytes \<Rightarrow> wal_segment \<Rightarrow> wal_segment" where
  "note_written e serialized file s =
     (let pos = ws_write_position s + of_nat (length serialized); m = ws_metadata s in
      s\<lparr>ws_file := file, ws_write_position := pos,
        ws_metadata := m\<lparr>sm_size := pos, sm_entry_count := sm_entry_count m + 1,
          sm_first_sequence := (case sm_first_sequence m of
                                  None \<Rightarrow> Some (we_sequence_number e) | Some q \<Rightarrow> Some q),
          sm_last_sequence := Some (we_sequence_number e)\<rparr>\<rparr>)"

definition write_entry ::
    "entry_encoder \<Rightarrow> write_fault option \<Rightarrow> wal_entry \<Rightarrow> wal_segment \<Rightarrow> wal_segment \<times> (u64, wal_error) result" where
  "write_entry ser io e s =
     (case entry_serialize ser e of
        Ok serialized \<Rightarrow>
          let m = ws_metadata s; position = ws_write_position s in
          if sm_sealed m then (s, Err (SegmentSealed (sm_id m)))
          else if sm_capacity m < position + of_nat (length serialized)
          then (s, Err (SegmentFull (sm_id m)))
          else if ws_mmap s then
            (if unat position + length serialized \<le> length (ws_file s)
             then (note_written e serialized (splice (unat position) serialized (ws_file s)) s, Ok position)
             else (s, Err (SegmentFull (sm_id m))))
          else
            (case io of
               None \<Rightarrow>
                 (note_written e serialized (splice (unat position) serialized (ws_file s)) s, Ok position)
             | Some (SeekFault msg) \<Rightarrow> (s, Err (WalIo (''Failed to seek: '' @ msg)))
             | Some (WriteFault k msg) \<Rightarrow>
                 (s\<lparr>ws_file := splice (unat position) (take k serialized) (ws_file s)\<rparr>,
                  Err (WalIo (''Failed to write entry: '' @ msg))))
      | Err x \<Rightarrow> (s, Err x)
      | Panic \<Rightarrow> (s, Panic))"

definition read_entry :: "entry_decoder \<Rightarrow> u64 \<Rightarrow> wal_segment \<Rightarrow> (wal_entry, wal_error) result" where
  "read_entry de position s =
     (let start = unat position; file = ws_file s in
      if ws_mmap s then
        if length file \<le> start then Err (WalIo ''Position beyond segment bounds'')
        else if length file < start + 24 then Err (WalIo ''Insufficient data for header'')
        else and_then (deserialize_header de (take 24 (drop start file))) (\<lambda>entry.
          let total_size = 24 + unat (we_payload_length entry) in
          if length file < start + total_size then Err (WalIo ''Insufficient data for full entry'')
          else entry_deserialize de (take total_size (drop start file)))
      else
        if length file < start + 24 then Err (WalIo ''Failed to read header: failed to fill whole buffer'')
        else and_then (deserialize_header de (take 24 (drop start file))) (\<lambda>header.
          let payload_len = unat (we_payload_length header) in
          if length file < start + 24 + payload_len
          then Err (WalIo ''Failed to read payload: failed to fill whole buffer'')
          else entry_deserialize de
                 (take 24 (drop start file) @ take payload_len (drop (start + 24) file))))"

datatype sync_policy = SyncNever | SyncAlways | SyncOnBatch | SyncInterval duration | SyncOnShutdown

definition segment_sync ::
    "sync_fault option \<Rightarrow> system_time \<Rightarrow> sync_policy \<Rightarrow> wal_segment \<Rightarrow> wal_segment \<times> (unit, wal_error) result" where
  "segment_sync io now policy s =
     (let synced = s\<lparr>ws_metadata := (ws_metadata s)\<lparr>sm_last_sync := Some now\<rparr>\<rparr> in
      if policy = SyncNever then (synced, Ok ())
      else case io of
        Some (FlushFault msg) \<Rightarrow> (s, Err (WalIo (''Failed to flush: '' @ msg)))
      | Some (SyncFault msg) \<Rightarrow> (s, Err (WalIo (''Failed to sync: '' @ msg)))
      | None \<Rightarrow> (synced, Ok ()))"

definition segment_seal ::
    "sync_fault option \<Rightarrow> system_time \<Rightarrow> wal_segment \<Rightarrow> wal_segment \<times> (unit, wal_error) result" where
  "segment_seal io now s =
     (case segment_sync io now SyncAlways s of
        (s1, Ok _) \<Rightarrow> (s1\<lparr>ws_metadata := (ws_metadata s1)\<lparr>sm_sealed := True\<rparr>\<rparr>, Ok ())
      | (s1, Err e) \<Rightarrow> (s1, Err e)
      | (s1, Panic) \<Rightarrow> (s1, Panic))"

section \<open>A segment is the concatenation of its entries\<close>

text \<open>
  What a segment promises: the bytes before the write position are the encodings of the entries it
  accepted, in order; the metadata counts them and names the first and the last.
\<close>

definition encoded :: "entry_encoder \<Rightarrow> wal_entry \<Rightarrow> bytes" where
  "encoded ser e = (case ser e of Ok bs \<Rightarrow> bs | _ \<Rightarrow> [])"

definition encoding :: "entry_encoder \<Rightarrow> wal_entry list \<Rightarrow> bytes" where
  "encoding ser es = concat (map (encoded ser) es)"

definition segment_holds :: "entry_encoder \<Rightarrow> wal_entry list \<Rightarrow> wal_segment \<Rightarrow> bool" where
  "segment_holds ser es s =
     (let m = ws_metadata s; n = length (encoding ser es) in
      unat (ws_write_position s) = n \<and> take n (ws_file s) = encoding ser es
      \<and> n \<le> unat (sm_capacity m) \<and> length (ws_file s) = unat (sm_capacity m)
      \<and> unat (sm_capacity m) < 2 ^ 63
      \<and> sm_size m = ws_write_position s \<and> sm_entry_count m = of_nat (length es)
      \<and> sm_first_sequence m = (if es = [] then None else Some (we_sequence_number (hd es)))
      \<and> sm_last_sequence m = (if es = [] then None else Some (we_sequence_number (last es))))"

fun write_entries ::
    "entry_encoder \<Rightarrow> (write_fault option \<times> wal_entry) list \<Rightarrow> wal_segment
     \<Rightarrow> wal_segment \<times> (u64, wal_error) result list" where
  "write_entries ser [] s = (s, [])"
| "write_entries ser ((io, e) # xs) s =
     (case write_entry ser io e s of (s1, r) \<Rightarrow>
      case write_entries ser xs s1 of (s2, rs) \<Rightarrow> (s2, r # rs))"

fun kept :: "(write_fault option \<times> wal_entry) list \<Rightarrow> (u64, wal_error) result list \<Rightarrow> wal_entry list" where
  "kept ((io, e) # xs) (Ok p # rs) = e # kept xs rs"
| "kept ((io, e) # xs) (Err x # rs) = kept xs rs"
| "kept ((io, e) # xs) (Panic # rs) = kept xs rs"
| "kept _ _ = []"

lemma length_splice: "p + length bs \<le> length file \<Longrightarrow> length (splice p bs file) = length file"
  by (simp add: splice_def)

lemma take_splice: "p \<le> length file \<Longrightarrow> take p (splice p bs file) = take p file"
  by (simp add: splice_def)

lemma take_splice_more:
  "p \<le> length file \<Longrightarrow> take (p + length bs) (splice p bs file) = take p file @ bs"
  by (simp add: splice_def)

lemma encoding_snoc: "encoding ser (es @ [e]) = encoding ser es @ encoded ser e"
  by (simp add: encoding_def)

lemma segment_create_holds:
  assumes "segment_create io now sid path capacity mm = Ok s" "unat capacity < 2 ^ 63"
  shows "segment_holds ser [] s"
  using assms
  by (auto simp: segment_create_def segment_holds_def encoding_def segment_metadata_new_def Let_def
      split: option.splits create_fault.splits if_splits)

lemma fits_no_wrap:
  fixes p c :: u64
  assumes "unat p \<le> unat c" "unat c < 2 ^ 63" "n < 2 ^ 63"
  shows "unat (p + of_nat n) = unat p + n" "p + of_nat n \<le> c \<longleftrightarrow> unat p + n \<le> unat c"
proof -
  have n: "unat (of_nat n :: u64) = n" using assms(3) by (simp add: unat_of_nat take_bit_nat_eq_self)
  then show u: "unat (p + of_nat n) = unat p + n" using assms by (simp add: unat_add_lem[THEN iffD1])
  show "p + of_nat n \<le> c \<longleftrightarrow> unat p + n \<le> unat c" by (simp only: word_le_nat_alt u)
qed

lemma note_written_holds:
  assumes h: "segment_holds ser es s" and e: "ser e = Ok bs" and n: "length bs < 2 ^ 63"
    and fits: "unat (ws_write_position s) + length bs \<le> unat (sm_capacity (ws_metadata s))"
  shows "segment_holds ser (es @ [e])
           (note_written e bs (splice (unat (ws_write_position s)) bs (ws_file s)) s)"
proof -
  have enc: "encoded ser e = bs" using e by (simp add: encoded_def)
  have pos: "unat (ws_write_position s) = length (encoding ser es)"
    and bytes: "take (length (encoding ser es)) (ws_file s) = encoding ser es"
    and len: "length (ws_file s) = unat (sm_capacity (ws_metadata s))"
    and cap: "unat (sm_capacity (ws_metadata s)) < 2 ^ 63"
    using h by (auto simp: segment_holds_def Let_def)
  have u: "unat (ws_write_position s + of_nat (length bs)) = length (encoding ser es) + length bs"
    using fits_no_wrap(1)[of "ws_write_position s" "sm_capacity (ws_metadata s)" "length bs"]
      fits cap n pos by simp
  have le: "length (encoding ser es) \<le> length (ws_file s)" using fits pos len by simp
  show ?thesis
    using h fits
    by (auto simp: segment_holds_def note_written_def Let_def encoding_snoc enc u pos bytes len
        length_splice take_splice_more[OF le] split: option.splits if_splits)
qed

lemma write_entry_step:
  assumes h: "segment_holds ser es s" and small: "\<And>bs. ser e = Ok bs \<Longrightarrow> length bs < 2 ^ 63"
    and w: "write_entry ser io e s = (s', r)"
  shows "if is_ok r then r = Ok (ws_write_position s) \<and> segment_holds ser (es @ [e]) s'
         else segment_holds ser es s'"
proof (cases "ser e")
  case (Ok bs)
  let ?p = "ws_write_position s" and ?c = "sm_capacity (ws_metadata s)"
  have pos: "unat ?p = length (encoding ser es)" and room: "unat ?p \<le> unat ?c"
    and len: "length (ws_file s) = unat ?c" and cap: "unat ?c < 2 ^ 63"
    using h by (auto simp: segment_holds_def Let_def)
  note n = small[OF Ok]
  have over: "?c < ?p + of_nat (length bs) \<longleftrightarrow> unat ?c < unat ?p + length bs"
    using fits_no_wrap(2)[OF room cap n] by (metis not_le)
  have torn: "segment_holds ser es (s\<lparr>ws_file := splice (unat ?p) (take k bs) (ws_file s)\<rparr>)"
    if "unat ?p + length bs \<le> unat ?c" for k
    using h that pos len
    by (simp add: segment_holds_def Let_def length_splice take_splice min_def)
  show ?thesis
    using w h torn note_written_holds[OF h Ok n]
    by (auto simp: write_entry_def entry_serialize_def map_err_def Ok Let_def over
        split: if_splits option.splits write_fault.splits)
qed (use w h in \<open>auto simp: write_entry_def entry_serialize_def map_err_def\<close>)

lemma length_write_entries: "write_entries ser xs s = (s', rs) \<Longrightarrow> length rs = length xs"
  by (induction ser xs s arbitrary: s' rs rule: write_entries.induct) (auto split: prod.splits)

lemma kept_Cons: "kept ((io, e) # xs) (r # rs) = (if is_ok r then [e] else []) @ kept xs rs"
  by (cases r) auto

lemma write_entries_holds:
  assumes small: "\<forall>e bs. ser e = Ok bs \<longrightarrow> length bs < 2 ^ 63"
  shows "segment_holds ser es s \<Longrightarrow> write_entries ser xs s = (s', rs) \<Longrightarrow>
     segment_holds ser (es @ kept xs rs) s'
     \<and> (\<forall>i<length xs. \<forall>p. rs ! i = Ok p \<longrightarrow>
          unat p = length (encoding ser (es @ kept (take i xs) (take i rs))))"
proof (induction xs arbitrary: es s rs)
  case (Cons x xs)
  obtain io e where x: "x = (io, e)" by fastforce
  obtain s1 r where w: "write_entry ser io e s = (s1, r)" by fastforce
  obtain rs1 where rest: "write_entries ser xs s1 = (s', rs1)" and rs: "rs = r # rs1"
    using Cons.prems(2) x w by (auto split: prod.splits)
  let ?es = "es @ (if is_ok r then [e] else [])"
  note step = write_entry_step[OF Cons.prems(1) _ w]
  have h1: "segment_holds ser ?es s1" using step small by auto
  have first: "r = Ok p \<Longrightarrow> unat p = length (encoding ser es)" for p
    using step small Cons.prems(1) by (auto simp: segment_holds_def Let_def)
  note IH = Cons.IH[OF h1 rest]
  have "unat p = length (encoding ser (es @ kept (take i (x # xs)) (take i rs)))"
    if "i < length (x # xs)" "rs ! i = Ok p" for i p
    using that IH first by (cases i) (auto simp: rs x kept_Cons)
  with IH show ?case by (auto simp: rs x kept_Cons)
qed simp

lemma kept_split:
  "length rs = length xs \<Longrightarrow> i < length xs \<Longrightarrow> rs ! i = Ok p \<Longrightarrow>
     \<exists>more. kept xs rs = kept (take i xs) (take i rs) @ snd (xs ! i) # more"
proof (induction xs arbitrary: rs i)
  case (Cons x xs)
  then obtain r rs1 where rs: "rs = r # rs1" by (cases rs) auto
  with Cons show ?case by (cases x; cases i) (auto simp: kept_Cons)
qed simp

text \<open>
  C17: a segment is the concatenation of the entries it accepted. Whatever sequence of entries is
  written to a new segment, and whichever of the writes fail (sealed, full, unencodable, an I/O
  error after any number of bytes), the bytes before the write position are the encodings of the
  accepted entries in order, the metadata counts them and names the first and last sequence number,
  the capacity is never exceeded, and each accepted write returned the position at which the final
  file holds its entry. Encodings are shorter than \<open>2 ^ 63\<close> bytes, the limit of a \<open>Vec\<close>, and so
  is the capacity of the segment.
\<close>

theorem segment_write_all:
  assumes "\<forall>e bs. ser e = Ok bs \<longrightarrow> length bs < 2 ^ 63" "unat capacity < 2 ^ 63"
    and "segment_create None now sid path capacity mm = Ok s"
    and "write_entries ser xs s = (s', rs)"
  shows "segment_holds ser (kept xs rs) s'
     \<and> (\<forall>i<length xs. \<forall>p. rs ! i = Ok p \<longrightarrow>
          take (length (encoded ser (snd (xs ! i)))) (drop (unat p) (ws_file s'))
          = encoded ser (snd (xs ! i)))"
proof -
  note final = write_entries_holds[OF assms(1) segment_create_holds[OF assms(3,2)] assms(4), simplified]
  then have bytes: "take (length (encoding ser (kept xs rs))) (ws_file s') = encoding ser (kept xs rs)"
    by (simp add: segment_holds_def Let_def)
  have "take (length (encoded ser (snd (xs ! i)))) (drop (unat p) (ws_file s')) = encoded ser (snd (xs ! i))"
    if i: "i < length xs" "rs ! i = Ok p" for i p
  proof -
    let ?a = "encoding ser (kept (take i xs) (take i rs))" and ?b = "encoded ser (snd (xs ! i))"
    have p: "unat p = length ?a" using final i by blast
    obtain more where "kept xs rs = kept (take i xs) (take i rs) @ snd (xs ! i) # more"
      using kept_split[OF length_write_entries[OF assms(4)] i] by blast
    then have enc: "encoding ser (kept xs rs) = ?a @ ?b @ encoding ser more" by (simp add: encoding_def)
    have "take (length ?b) (drop (length ?a) (ws_file s'))
        = take (length ?b) (drop (length ?a) (take (length (encoding ser (kept xs rs))) (ws_file s')))"
      by (simp add: drop_take enc)
    also have "\<dots> = ?b" unfolding bytes by (simp add: enc)
    finally show ?thesis by (simp add: p)
  qed
  with final show ?thesis by blast
qed

definition sample_ser :: entry_encoder where
  "sample_ser e =
     (if length (we_payload e) < 100 then Ok (we_payload e) else Err ''the size limit has been reached'')"

definition wal_sample :: "u64 \<Rightarrow> bytes \<Rightarrow> wal_entry" where
  "wal_sample n payload = raw_entry (\<lambda>bs. 0) n 7 (metadata_of ControlEntryT) payload"

definition sample_writes :: "(write_fault option \<times> wal_entry) list" where
  "sample_writes =
     [(None, wal_sample 1 [1, 2, 3]), (Some (WriteFault 2 ''disk''), wal_sample 2 [9, 9, 9, 9]),
      (None, wal_sample 3 [4, 5, 6, 7]), (None, wal_sample 4 [8, 8])]"

definition sample_segment :: wal_segment where
  "sample_segment = \<lparr>ws_metadata = segment_metadata_new 0 1 ''1.wal'' 8, ws_file = replicate 8 0,
     ws_mmap = False, ws_write_position = 0\<rparr>"

lemma sample_ser_small: "\<forall>e bs. sample_ser e = Ok bs \<longrightarrow> length bs < 2 ^ 63"
  by (auto simp: sample_ser_def split: if_splits)

lemma sample_segment_create: "segment_create None 0 1 ''1.wal'' 8 False = Ok sample_segment"
  by code_simp

lemma sample_writes_run:
  "snd (write_entries sample_ser sample_writes sample_segment)
     = [Ok 0, Err (WalIo ''Failed to write entry: disk''), Ok 3, Err (SegmentFull 1)]"
  by code_simp

theorem segment_write_all_witness:
  "segment_holds sample_ser
     (kept sample_writes (snd (write_entries sample_ser sample_writes sample_segment)))
     (fst (write_entries sample_ser sample_writes sample_segment))
   \<and> kept sample_writes (snd (write_entries sample_ser sample_writes sample_segment))
       = [wal_sample 1 [1, 2, 3], wal_sample 3 [4, 5, 6, 7]]"
proof -
  have "unat (8 :: u64) < 2 ^ 63" by simp
  from segment_write_all[OF sample_ser_small this sample_segment_create prod.collapse[symmetric]]
  have "segment_holds sample_ser
     (kept sample_writes (snd (write_entries sample_ser sample_writes sample_segment)))
     (fst (write_entries sample_ser sample_writes sample_segment))" by blast
  then show ?thesis by (simp add: sample_writes_run) (simp add: sample_writes_def)
qed

section \<open>Reading a segment back\<close>

text \<open>
  The encoding of an entry by \<open>bincode\<close> 1.3 has 39 bytes beside its payload: two 64-bit numbers,
  the variant tag (4), version (1) and flags (2), two 32-bit numbers and the 64-bit length of the
  payload. A shorter buffer is refused.
\<close>

lemma short_header_refused:
  assumes "\<forall>data e. de data = Ok e \<longrightarrow> 39 \<le> length data"
  shows "deserialize_header de (take 24 data) \<noteq> Ok e"
  using assms by (auto simp: deserialize_header_def entry_deserialize_def map_err_def
      split: result.splits if_splits)

text \<open>
  no entry can be read back, and no segment can be reopened. The header that \<open>read_entry\<close> and
  \<open>scan_segment\<close> hand to the decoder is a buffer of 24 bytes, and \<open>deserialize_header\<close> decodes it as
  a whole entry, which takes at least 39 bytes: so at every position of every segment
  \<open>read_entry\<close> fails, and opening any file of 24 bytes or more fails.
\<close>

theorem segment_unreadable:
  assumes "\<forall>data e. de data = Ok e \<longrightarrow> 39 \<le> length data"
  shows "\<not> is_ok (read_entry de position s)
     \<and> (24 \<le> length file \<longrightarrow> \<not> is_ok (segment_open de io now path file mm))"
proof
  note refused = short_header_refused[OF assms]
  show "\<not> is_ok (read_entry de position s)"
    using refused
    by (cases "deserialize_header de (take 24 (drop (unat position) (ws_file s)))")
       (auto simp: read_entry_def Let_def)
  show "24 \<le> length file \<longrightarrow> \<not> is_ok (segment_open de io now path file mm)"
  proof
    assume "24 \<le> length file"
    then have scan: "\<not> is_ok (scan_segment de file)"
      using refused[of "file"]
      by (cases "deserialize_header de (take 24 file)") (auto simp: scan_segment_def)
    show "\<not> is_ok (segment_open de io now path file mm)"
      using scan
      by (cases "segment_id_of path"; cases "scan_segment de file")
         (auto simp: segment_open_def Let_def split: option.splits create_fault.splits)
  qed
qed

definition sample_de :: entry_decoder where
  "sample_de data =
     (if length data < 39 then Err ''io error: unexpected end of file'' else Ok (wal_sample 1 data))"

theorem segment_unreadable_witness:
  "\<not> is_ok (read_entry sample_de 0 sample_segment)
   \<and> \<not> is_ok (segment_open sample_de None 0 ''wal/segment-1'' (replicate 64 1) False)"
  using segment_unreadable[of sample_de 0 sample_segment "replicate 64 1" None 0 "''wal/segment-1''" False]
  by (simp add: sample_de_def)

section \<open>Names of segment files\<close>

definition path_join :: "string \<Rightarrow> string \<Rightarrow> string" where
  "path_join dir name =
     (if name \<noteq> [] \<and> hd name = CHR ''/'' then name
      else if dir = [] \<or> last dir = CHR ''/'' then dir @ name
      else dir @ CHR ''/'' # name)"

definition segment_path :: "string \<Rightarrow> u64 \<Rightarrow> string" where
  "segment_path wal_dir sid = path_join wal_dir (decimal (unat sid) @ ''.wal'')"

lemma split_on_no: "c \<notin> set xs \<Longrightarrow> split_on c xs = [xs]"
  by (induction xs) auto

lemma split_on_not_Nil: "split_on c xs \<noteq> []"
  by (cases xs) (auto split: list.splits)

lemma split_on_sep: "split_on c (xs @ c # ys) = split_on c xs @ split_on c ys"
  by (induction xs) (auto split: list.splits simp: split_on_not_Nil)

lemma is_digit_char: "(n :: nat) < 10 \<Longrightarrow> is_digit (char_of (48 + n))"
  by (simp add: is_digit_def of_char_of)

lemma digits_decimal: "list_all is_digit (decimal n)"
  by (induction n rule: decimal.induct) (subst decimal.simps, simp add: is_digit_char)

lemma decimal_not_Nil: "decimal n \<noteq> []"
  by (subst decimal.simps) simp

lemma digits_value_decimal: "digits_value (decimal n) = n"
proof (induction n rule: decimal.induct)
  case (1 n)
  then show ?case
    by (subst decimal.simps) (auto simp: digits_value_def)
qed

lemma decimal_char: "c \<in> set (decimal n) \<Longrightarrow> is_digit c"
  using digits_decimal by (auto simp: list_all_iff)

lemma parse_u64_decimal: "n < 2 ^ 64 \<Longrightarrow> parse_u64 (decimal n) = Some (of_nat n)"
proof -
  assume n: "n < 2 ^ 64"
  obtain c cs where c: "decimal n = c # cs" using decimal_not_Nil by (cases "decimal n") auto
  then have "is_digit c" using decimal_char[of c n] by simp
  then have "c \<noteq> CHR ''+''" by (auto simp: is_digit_def)
  then show ?thesis
    using n digits_decimal[of n] digits_value_decimal[of n] c by (simp add: parse_u64_def)
qed

lemma file_name_join:
  assumes "CHR ''/'' \<notin> set name" "name \<noteq> []" "name \<noteq> ''.''" "name \<noteq> ''..''"
  shows "file_name (path_join dir name) = Some name"
proof -
  have n: "split_on CHR ''/'' name = [name]" using assms by (simp add: split_on_no)
  have hd: "hd name \<noteq> CHR ''/''" using assms by (metis hd_in_set)
  have "\<exists>front. split_on CHR ''/'' (path_join dir name) = front @ [name]"
  proof (cases "dir = [] \<or> last dir = CHR ''/''")
    case False
    then show ?thesis using hd by (auto simp: path_join_def split_on_sep n)
  next
    case True
    then consider "dir = []" | d where "dir = d @ [CHR ''/'']" by (metis append_butlast_last_id)
    then show ?thesis using hd by cases (auto simp: path_join_def split_on_sep n)
  qed
  then obtain front where "split_on CHR ''/'' (path_join dir name) = front @ [name]" ..
  then have "filter (\<lambda>c. c \<noteq> [] \<and> c \<noteq> ''.'') (split_on CHR ''/'' (path_join dir name))
      = filter (\<lambda>c. c \<noteq> [] \<and> c \<noteq> ''.'') front @ [name]" (is "?cs = ?front @ _")
    using assms by simp
  then have cs: "?cs \<noteq> []" "last ?cs = name" by simp_all
  show ?thesis
    using cs assms(4) unfolding file_name_def by (cases ?cs) (simp_all del: last.simps)
qed

lemma not_digit_chars [simp]:
  "\<not> is_digit CHR ''/''" "\<not> is_digit CHR ''-''" "\<not> is_digit CHR ''.''" "\<not> is_digit CHR ''s''"
  by (simp_all add: is_digit_def)

lemma decimal_chars [simp]:
  "CHR ''/'' \<notin> set (decimal n)" "CHR ''-'' \<notin> set (decimal n)"
  using decimal_char by fastforce+

text \<open>
  the two naming schemes of segments do not meet. The log and its rotation create the files
  \<^verbatim>\<open><id>.wal\<close>, while \<open>open\<close> reads the id after the first hyphen: it refuses every file the log
  creates, in any directory, whatever its contents. A file \<^verbatim>\<open>segment-<id>\<close> would give back its id.
\<close>

theorem segment_names:
  "segment_open de io now (segment_path dir sid) content mm
     = Err (WalInvalidPath (''Cannot parse segment ID from: '' @ decimal (unat sid) @ ''.wal''))
   \<and> segment_id_of (path_join dir (''segment-'' @ decimal (unat sid))) = Ok sid"
proof
  let ?wal = "decimal (unat sid) @ ''.wal''" and ?seg = "''segment-'' @ decimal (unat sid)"
  have "file_name (segment_path dir sid) = Some ?wal"
    unfolding segment_path_def by (rule file_name_join) (auto simp: decimal_not_Nil)
  moreover have "split_on CHR ''-'' ?wal = [?wal]" by (rule split_on_no) simp
  ultimately show "segment_open de io now (segment_path dir sid) content mm
     = Err (WalInvalidPath (''Cannot parse segment ID from: '' @ ?wal))"
    by (simp add: segment_open_def segment_id_of_def)
  have "file_name (path_join dir ?seg) = Some ?seg" by (rule file_name_join) auto
  moreover have "split_on CHR ''-'' ?seg = [''segment'', decimal (unat sid)]"
    using split_on_sep[of "CHR ''-''" "''segment''" "decimal (unat sid)"] by (simp add: split_on_no)
  moreover have "parse_u64 (decimal (unat sid)) = Some sid"
    using parse_u64_decimal[of "unat sid"] unsigned_less[of sid] by simp
  ultimately show "segment_id_of (path_join dir ?seg) = Ok sid" by (simp add: segment_id_of_def)
qed

end
