(* ===== verification/Wal_Log.thy ===== *)
theory Wal_Log
  imports Wal "HOL-Library.Multiset"
begin

text \<open>
  The parts of the write-ahead log above its segments: the batch coordinator (\<^verbatim>\<open>batch.rs\<close>), the
  rotation manager (\<^verbatim>\<open>rotation.rs\<close>) and the log (\<^verbatim>\<open>mod.rs\<close>). The channel of ready batches is the
  list of batches sent and not yet received; the receiver is owned by the coordinator, so a send
  never fails, and the semaphore is never closed, so a permit is always granted in the end and given
  back when \<open>add_entry\<close> returns. The floating-point average of the batch sizes is left out. Segments
  are shared by reference counts: a reference is an index into the store of segments.
\<close>

section \<open>The batch coordinator\<close>

record batch_config =
  bc_max_batch_size :: usize
  bc_max_batch_duration :: duration
  bc_max_memory_usage :: usize
  bc_adaptive_batching :: bool

definition default_batch_config :: batch_config where
  "default_batch_config = \<lparr>bc_max_batch_size = 1000, bc_max_batch_duration = 10 * 10 ^ 6,
     bc_max_memory_usage = 16 * 1024 * 1024, bc_adaptive_batching = True\<rparr>"

record batch_result =
  br_batch_size :: usize
  br_batch_duration :: duration
  br_memory_used :: usize
  br_start_sequence :: u64
  br_end_sequence :: u64

record batch_metrics =
  bm_total_batches :: u64
  bm_total_entries :: u64
  bm_avg_batch_duration_us :: u64
  bm_max_batch_size :: usize
  bm_min_batch_size :: usize
  bm_total_memory_used :: u64
  bm_backpressure_events :: u64
  bm_last_batch_timestamp :: "system_time option"

record batch_coordinator =
  co_config :: batch_config
  co_current_batch :: "wal_entry list"
  co_ready :: "wal_entry list list"
  co_is_shutdown :: bool
  co_permits :: usize
  co_metrics :: batch_metrics

definition coordinator_new :: "batch_config \<Rightarrow> batch_coordinator" where
  "coordinator_new cfg =
     \<lparr>co_config = cfg, co_current_batch = [], co_ready = [], co_is_shutdown = False,
      co_permits = max (bc_max_memory_usage cfg div 1024) 100,
      co_metrics = \<lparr>bm_total_batches = 0, bm_total_entries = 0, bm_avg_batch_duration_us = 0,
        bm_max_batch_size = 0, bm_min_batch_size = 0, bm_total_memory_used = 0,
        bm_backpressure_events = 0, bm_last_batch_timestamp = None\<rparr>\<rparr>"

text \<open>
  The critical sections of the coordinator, each under one lock. Between two of them other tasks may
  run; the sequential operations below are their compositions.
\<close>

definition push_entry :: "wal_entry \<Rightarrow> batch_coordinator \<Rightarrow> batch_coordinator \<times> bool" where
  "push_entry e c =
     (let batch = co_current_batch c @ [e] in
      (c\<lparr>co_current_batch := batch\<rparr>, bc_max_batch_size (co_config c) \<le> length batch))"

definition take_batch :: "batch_coordinator \<Rightarrow> batch_coordinator \<times> wal_entry list option" where
  "take_batch c =
     (if co_current_batch c = [] then (c, None)
      else (c\<lparr>co_current_batch := []\<rparr>, Some (co_current_batch c)))"

definition send_batch :: "wal_entry list \<Rightarrow> batch_coordinator \<Rightarrow> batch_coordinator" where
  "send_batch batch c = c\<lparr>co_ready := co_ready c @ [batch]\<rparr>"

definition recv_batch :: "batch_coordinator \<Rightarrow> batch_coordinator \<times> wal_entry list option" where
  "recv_batch c =
     (case co_ready c of
        [] \<Rightarrow> (c, None)
      | b # bs \<Rightarrow> (c\<lparr>co_ready := bs\<rparr>, Some b))"

definition memory_of :: "wal_entry list \<Rightarrow> usize" where
  "memory_of batch = sum_list (map serialized_size batch)"

definition update_batch_metrics ::
    "duration \<Rightarrow> system_time \<Rightarrow> wal_entry list \<Rightarrow> batch_coordinator \<Rightarrow> batch_coordinator" where
  "update_batch_metrics elapsed now batch c =
     (let m = co_metrics c; n = length batch; total = bm_total_batches m + 1 in
      c\<lparr>co_metrics := m\<lparr>bm_total_batches := total,
          bm_total_entries := bm_total_entries m + of_nat n,
          bm_avg_batch_duration_us :=
            (bm_avg_batch_duration_us m * (total - 1) + of_nat (elapsed div 1000)) div total,
          bm_max_batch_size := (if bm_max_batch_size m < n then n else bm_max_batch_size m),
          bm_min_batch_size :=
            (if n < bm_min_batch_size m \<or> bm_min_batch_size m = 0 then n else bm_min_batch_size m),
          bm_total_memory_used := bm_total_memory_used m + of_nat (memory_of batch),
          bm_last_batch_timestamp := Some now\<rparr>\<rparr>)"

definition coordinator_flush ::
    "duration \<Rightarrow> system_time \<Rightarrow> batch_coordinator \<Rightarrow> batch_coordinator \<times> (batch_result option, wal_error) result" where
  "coordinator_flush elapsed now c =
     (if co_is_shutdown c then (c, Ok None)
      else case take_batch c of
        (c1, None) \<Rightarrow> (c1, Ok None)
      | (c1, Some batch) \<Rightarrow>
          (update_batch_metrics elapsed now batch (send_batch batch c1),
           Ok (Some \<lparr>br_batch_size = length batch, br_batch_duration = elapsed,
                     br_memory_used = memory_of batch,
                     br_start_sequence = we_sequence_number (hd batch),
                     br_end_sequence = we_sequence_number (last batch)\<rparr>)))"

definition add_entry ::
    "duration \<Rightarrow> system_time \<Rightarrow> wal_entry \<Rightarrow> batch_coordinator \<Rightarrow> batch_coordinator \<times> (unit, wal_error) result" where
  "add_entry elapsed now e c =
     (if co_is_shutdown c then (c, Err WalShutdown)
      else case push_entry e c of
        (c1, False) \<Rightarrow> (c1, Ok ())
      | (c1, True) \<Rightarrow>
          (case coordinator_flush elapsed now c1 of
             (c2, Ok _) \<Rightarrow> (c2, Ok ())
           | (c2, Err x) \<Rightarrow> (c2, Err x)
           | (c2, Panic) \<Rightarrow> (c2, Panic)))"

text \<open>\<open>next_batch\<close> waits on an empty channel: \<open>None\<close> as the whole outcome is a call still waiting.\<close>

definition next_batch ::
    "batch_coordinator \<Rightarrow> batch_coordinator \<times> (wal_entry list option, wal_error) result option" where
  "next_batch c =
     (if co_is_shutdown c then (c, Some (Ok None))
      else case recv_batch c of
        (c1, None) \<Rightarrow> (c1, None)
      | (c1, Some batch) \<Rightarrow> (c1, Some (Ok (Some batch))))"

text \<open>
  One turn of the periodic flush after its tick; the loop tests the shutdown flag before it waits
  for the tick, not after.
\<close>

definition periodic_flush :: "batch_coordinator \<Rightarrow> batch_coordinator" where
  "periodic_flush c =
     (case take_batch c of
        (c1, None) \<Rightarrow> c1
      | (c1, Some batch) \<Rightarrow>
          let c2 = send_batch batch c1; m = co_metrics c2 in
          c2\<lparr>co_metrics := m\<lparr>bm_total_batches := bm_total_batches m + 1,
               bm_total_entries := bm_total_entries m + of_nat (length batch)\<rparr>\<rparr>)"

definition has_pending_entries :: "batch_coordinator \<Rightarrow> bool" where
  "has_pending_entries c = (co_current_batch c \<noteq> [])"

definition current_batch_size :: "batch_coordinator \<Rightarrow> usize" where
  "current_batch_size c = length (co_current_batch c)"

definition coordinator_shutdown ::
    "duration \<Rightarrow> system_time \<Rightarrow> batch_coordinator \<Rightarrow> batch_coordinator \<times> (unit, wal_error) result" where
  "coordinator_shutdown elapsed now c =
     (case coordinator_flush elapsed now (c\<lparr>co_is_shutdown := True\<rparr>) of
        (c1, Ok _) \<Rightarrow> (c1, Ok ())
      | (c1, Err x) \<Rightarrow> (c1, Err x)
      | (c1, Panic) \<Rightarrow> (c1, Panic))"

section \<open>Interleavings of the coordinator\<close>

text \<open>
  Tasks call the coordinator concurrently. The state adds to the coordinator the calls in progress:
  entries past the shutdown test of \<open>add_entry\<close> and not yet pushed, \<open>flush_batch\<close> and \<open>next_batch\<close>
  calls past theirs, whether the periodic loop waits for a tick, batches taken and not yet sent;
  and the history: the entries admitted and the batches delivered.
\<close>

record batch_sys =
  bs_co :: batch_coordinator
  bs_adding :: "wal_entry list"
  bs_flushing :: nat
  bs_ticking :: bool
  bs_taken :: "wal_entry list list"
  bs_receiving :: nat
  bs_admitted :: "wal_entry list"
  bs_delivered :: "wal_entry list list"

definition batch_sys_init :: "batch_config \<Rightarrow> batch_sys" where
  "batch_sys_init cfg = \<lparr>bs_co = coordinator_new cfg, bs_adding = [], bs_flushing = 0,
     bs_ticking = False, bs_taken = [], bs_receiving = 0, bs_admitted = [], bs_delivered = []\<rparr>"

definition sys_take :: "batch_sys \<Rightarrow> batch_sys" where
  "sys_take s =
     (case take_batch (bs_co s) of
        (c, None) \<Rightarrow> s\<lparr>bs_co := c\<rparr>
      | (c, Some b) \<Rightarrow> s\<lparr>bs_co := c, bs_taken := bs_taken s @ [b]\<rparr>)"

definition remove_nth :: "nat \<Rightarrow> 'a list \<Rightarrow> 'a list" where
  "remove_nth i xs = take i xs @ drop (Suc i) xs"

inductive batch_step :: "batch_sys \<Rightarrow> batch_sys \<Rightarrow> bool" where
  add_start: "\<not> co_is_shutdown (bs_co s) \<Longrightarrow>
     batch_step s (s\<lparr>bs_adding := bs_adding s @ [e], bs_admitted := bs_admitted s @ [e]\<rparr>)"
| add_push: "i < length (bs_adding s) \<Longrightarrow>
     batch_step s (s\<lparr>bs_adding := remove_nth i (bs_adding s),
                     bs_co := fst (push_entry (bs_adding s ! i) (bs_co s))\<rparr>)"
| flush_start: "\<not> co_is_shutdown (bs_co s) \<Longrightarrow>
     batch_step s (s\<lparr>bs_flushing := Suc (bs_flushing s)\<rparr>)"
| flush_take: "bs_flushing s = Suc n \<Longrightarrow> batch_step s (sys_take (s\<lparr>bs_flushing := n\<rparr>))"
| tick_wait: "\<not> co_is_shutdown (bs_co s) \<Longrightarrow> batch_step s (s\<lparr>bs_ticking := True\<rparr>)"
| tick: "bs_ticking s \<Longrightarrow> batch_step s (sys_take (s\<lparr>bs_ticking := False\<rparr>))"
| send: "i < length (bs_taken s) \<Longrightarrow>
     batch_step s (s\<lparr>bs_taken := remove_nth i (bs_taken s),
                     bs_co := send_batch (bs_taken s ! i) (bs_co s)\<rparr>)"
| recv_start: "\<not> co_is_shutdown (bs_co s) \<Longrightarrow>
     batch_step s (s\<lparr>bs_receiving := Suc (bs_receiving s)\<rparr>)"
| recv: "bs_receiving s = Suc n \<Longrightarrow> recv_batch (bs_co s) = (c, Some b) \<Longrightarrow>
     batch_step s (s\<lparr>bs_receiving := n, bs_co := c, bs_delivered := bs_delivered s @ [b]\<rparr>)"
| shutdown: "batch_step s (s\<lparr>bs_co := (bs_co s)\<lparr>co_is_shutdown := True\<rparr>\<rparr>)"

inductive_cases batch_stepE: "batch_step s s'"

definition held :: "batch_sys \<Rightarrow> wal_entry multiset" where
  "held s = mset (bs_adding s) + mset (co_current_batch (bs_co s)) + mset (concat (bs_taken s))
     + mset (concat (co_ready (bs_co s))) + mset (concat (bs_delivered s))"

lemma mset_remove_nth: "i < length xs \<Longrightarrow> add_mset (xs ! i) (mset (remove_nth i xs)) = mset xs"
  by (metis id_take_nth_drop mset_append mset.simps(2) remove_nth_def union_mset_add_mset_right)

lemma mset_concat_remove_nth:
  "i < length xs \<Longrightarrow> mset (xs ! i) + mset (concat (remove_nth i xs)) = mset (concat xs)"
proof -
  assume "i < length xs"
  then have "concat xs = concat (take i xs) @ xs ! i @ concat (drop (Suc i) xs)"
    by (metis concat.simps(2) concat_append id_take_nth_drop)
  then show ?thesis by (simp add: remove_nth_def)
qed

lemma held_sys_take: "held (sys_take s) = held s" "bs_admitted (sys_take s) = bs_admitted s"
  by (auto simp: sys_take_def held_def take_batch_def)

lemma batch_step_held:
  assumes "batch_step s s'" "mset (bs_admitted s) = held s"
  shows "mset (bs_admitted s') = held s'"
  using assms
proof (cases rule: batch_step.cases)
  case (add_push i)
  with assms(2) mset_remove_nth[of i "bs_adding s"] show ?thesis
    by (simp add: held_def push_entry_def Let_def)
next
  case (flush_take n)
  with assms(2) show ?thesis by (simp add: held_sys_take) (simp add: held_def)
next
  case tick
  with assms(2) show ?thesis by (simp add: held_sys_take) (simp add: held_def)
next
  case (send i)
  with assms(2) mset_concat_remove_nth[of i "bs_taken s"] show ?thesis
    by (simp add: held_def send_batch_def ac_simps)
next
  case (recv n c b)
  with assms(2) show ?thesis by (auto simp: held_def recv_batch_def split: list.splits)
qed (auto simp: held_def)

text \<open>
  C22: the batch coordinator neither loses nor duplicates an entry. In every interleaving of
  \<open>add_entry\<close>, \<open>flush_batch\<close>, the periodic flush, \<open>next_batch\<close> and \<open>shutdown\<close>, each entry that passed
  the shutdown test of \<open>add_entry\<close> is, as often as it was added, in exactly one place: about to be
  pushed, in the current batch, in a batch between its removal and the channel, in the channel, or
  delivered.
\<close>

theorem batches_conserve_entries:
  assumes "batch_step\<^sup>*\<^sup>* (batch_sys_init cfg) s"
  shows "mset (bs_admitted s)
       = mset (bs_adding s) + mset (co_current_batch (bs_co s)) + mset (concat (bs_taken s))
         + mset (concat (co_ready (bs_co s))) + mset (concat (bs_delivered s))"
proof -
  from assms have "mset (bs_admitted s) = held s"
  proof (induction rule: rtranclp_induct)
    case base
    show ?case by (simp add: batch_sys_init_def held_def coordinator_new_def)
  qed (rule batch_step_held)
  then show ?thesis by (simp add: held_def)
qed

lemma batch_step_add_push:
  assumes "\<not> co_is_shutdown (bs_co s)" "bs_adding s = []"
  shows "batch_step\<^sup>*\<^sup>* s (s\<lparr>bs_adding := [], bs_admitted := bs_admitted s @ [e],
                           bs_co := fst (push_entry e (bs_co s))\<rparr>)"
proof -
  let ?s1 = "s\<lparr>bs_adding := bs_adding s @ [e], bs_admitted := bs_admitted s @ [e]\<rparr>"
  have "batch_step s ?s1" using assms(1) by (rule batch_step.add_start)
  moreover have "batch_step ?s1 (?s1\<lparr>bs_adding := remove_nth 0 (bs_adding ?s1),
      bs_co := fst (push_entry (bs_adding ?s1 ! 0) (bs_co ?s1))\<rparr>)"
    by (rule batch_step.add_push) simp
  moreover have "?s1\<lparr>bs_adding := remove_nth 0 (bs_adding ?s1),
      bs_co := fst (push_entry (bs_adding ?s1 ! 0) (bs_co ?s1))\<rparr>
    = s\<lparr>bs_adding := [], bs_admitted := bs_admitted s @ [e], bs_co := fst (push_entry e (bs_co s))\<rparr>"
    using assms(2) by (cases s) (simp add: remove_nth_def)
  ultimately show ?thesis by (metis converse_rtranclp_into_rtranclp r_into_rtranclp)
qed

definition sample_sys :: batch_sys where
  "sample_sys = (batch_sys_init default_batch_config)
     \<lparr>bs_adding := [], bs_admitted := [wal_sample 1 [1]],
      bs_co := fst (push_entry (wal_sample 1 [1]) (coordinator_new default_batch_config))\<rparr>"

lemma sample_sys_reachable: "batch_step\<^sup>*\<^sup>* (batch_sys_init default_batch_config) sample_sys"
  using batch_step_add_push[of "batch_sys_init default_batch_config" "wal_sample 1 [1]"]
  by (simp add: sample_sys_def batch_sys_init_def coordinator_new_def)

theorem batches_conserve_entries_witness:
  "batch_step\<^sup>*\<^sup>* (batch_sys_init default_batch_config) sample_sys
   \<and> mset [wal_sample 1 [1]] = mset (co_current_batch (bs_co sample_sys))"
  using batches_conserve_entries[OF sample_sys_reachable] sample_sys_reachable
  by (simp add: sample_sys_def batch_sys_init_def push_entry_def coordinator_new_def Let_def)

lemma shutdown_step:
  assumes "batch_step s s'" "co_is_shutdown (bs_co s)" "bs_receiving s = 0"
  shows "co_is_shutdown (bs_co s') \<and> bs_receiving s' = 0 \<and> bs_delivered s' = bs_delivered s"
  using assms
  by (cases rule: batch_step.cases)
     (auto simp: sys_take_def take_batch_def push_entry_def send_batch_def Let_def)

lemma shutdown_steps:
  assumes "batch_step\<^sup>*\<^sup>* s s'" "co_is_shutdown (bs_co s)" "bs_receiving s = 0"
  shows "co_is_shutdown (bs_co s') \<and> bs_receiving s' = 0 \<and> bs_delivered s' = bs_delivered s"
  using assms by (induction rule: rtranclp_induct) (auto dest!: shutdown_step)

text \<open>
  shutting down loses the pending entries. \<open>shutdown\<close> sets the flag before it calls
  \<open>flush_batch\<close>, which then returns without taking the batch: shutdown reports success, the current
  batch keeps its entries, \<open>add_entry\<close>, \<open>flush_batch\<close> and \<open>next_batch\<close> have no effect afterwards, and in
  every interleaving that follows (unless a \<open>next_batch\<close> call was already waiting) no batch is ever
  delivered again.
\<close>

theorem shutdown_loses_pending:
  "coordinator_shutdown elapsed now c = (c\<lparr>co_is_shutdown := True\<rparr>, Ok ())
   \<and> add_entry elapsed now e (c\<lparr>co_is_shutdown := True\<rparr>) = (c\<lparr>co_is_shutdown := True\<rparr>, Err WalShutdown)
   \<and> coordinator_flush elapsed now (c\<lparr>co_is_shutdown := True\<rparr>) = (c\<lparr>co_is_shutdown := True\<rparr>, Ok None)
   \<and> next_batch (c\<lparr>co_is_shutdown := True\<rparr>) = (c\<lparr>co_is_shutdown := True\<rparr>, Some (Ok None))
   \<and> (bs_co s = c\<lparr>co_is_shutdown := True\<rparr> \<and> bs_receiving s = 0 \<and> batch_step\<^sup>*\<^sup>* s s' \<longrightarrow>
        bs_delivered s' = bs_delivered s)"
  using shutdown_steps[of s s']
  by (auto simp: coordinator_shutdown_def coordinator_flush_def add_entry_def next_batch_def)

theorem shutdown_loses_pending_witness:
  "has_pending_entries (fst (coordinator_shutdown 0 0 (bs_co sample_sys)))
   \<and> snd (coordinator_shutdown 0 0 (bs_co sample_sys)) = Ok ()
   \<and> bs_delivered (sys_take (sample_sys\<lparr>bs_co := (bs_co sample_sys)\<lparr>co_is_shutdown := True\<rparr>, bs_ticking := False\<rparr>)) = []"
proof -
  let ?s = "sample_sys\<lparr>bs_co := (bs_co sample_sys)\<lparr>co_is_shutdown := True\<rparr>, bs_ticking := True\<rparr>"
  have "batch_step\<^sup>*\<^sup>* ?s (sys_take (?s\<lparr>bs_ticking := False\<rparr>))"
    by (rule r_into_rtranclp, rule batch_step.tick) simp
  with shutdown_loses_pending[of 0 0 "bs_co sample_sys" "wal_sample 2 []" ?s]
  show ?thesis
    by (simp add: has_pending_entries_def sample_sys_def batch_sys_init_def push_entry_def Let_def)
qed

section \<open>Rotation\<close>

record rotation_config =
  rc_max_segment_size :: u64
  rc_max_segment_age :: u64
  rc_max_entries_per_segment :: u64
  rc_min_free_space :: u64
  rc_enable_time_rotation :: bool
  rc_enable_size_rotation :: bool
  rc_enable_count_rotation :: bool
  rc_check_interval_ms :: u64

definition default_rotation_config :: rotation_config where
  "default_rotation_config = \<lparr>rc_max_segment_size = 256 * 1024 * 1024, rc_max_segment_age = 3600,
     rc_max_entries_per_segment = 1000000, rc_min_free_space = 1024 * 1024 * 1024,
     rc_enable_time_rotation = True, rc_enable_size_rotation = True,
     rc_enable_count_rotation = False, rc_check_interval_ms = 1000\<rparr>"

definition rotation_config_validate :: "rotation_config \<Rightarrow> (unit, string) result" where
  "rotation_config_validate cfg =
     (if rc_max_segment_size cfg = 0 then Err ''max_segment_size must be greater than 0''
      else if rc_max_segment_age cfg = 0 \<and> rc_enable_time_rotation cfg
      then Err ''max_segment_age must be greater than 0 when time rotation is enabled''
      else if rc_max_entries_per_segment cfg = 0 \<and> rc_enable_count_rotation cfg
      then Err ''max_entries_per_segment must be greater than 0 when count rotation is enabled''
      else if rc_check_interval_ms cfg = 0 then Err ''check_interval_ms must be greater than 0''
      else Ok ())"

datatype rotation_trigger =
  SizeTrigger | TimeTrigger | CountTrigger | ManualTrigger | DiskSpaceTrigger | ShutdownTrigger

record rotation_stats =
  rs_total_rotations :: u64
  rs_size_rotations :: u64
  rs_time_rotations :: u64
  rs_count_rotations :: u64
  rs_manual_rotations :: u64
  rs_disk_space_rotations :: u64
  rs_shutdown_rotations :: u64
  rs_avg_rotation_time_us :: u64
  rs_peak_rotation_time_us :: u64
  rs_total_rotation_time_us :: u64
  rs_last_rotation_time :: "system_time option"
  rs_active_segment_id :: "u64 option"
  rs_segments_created :: u64
  rs_segments_sealed :: u64

definition default_rotation_stats :: rotation_stats where
  "default_rotation_stats = \<lparr>rs_total_rotations = 0, rs_size_rotations = 0, rs_time_rotations = 0,
     rs_count_rotations = 0, rs_manual_rotations = 0, rs_disk_space_rotations = 0,
     rs_shutdown_rotations = 0, rs_avg_rotation_time_us = 0, rs_peak_rotation_time_us = 0,
     rs_total_rotation_time_us = 0, rs_last_rotation_time = None, rs_active_segment_id = None,
     rs_segments_created = 0, rs_segments_sealed = 0\<rparr>"

type_synonym segment_ref = nat
type_synonym segment_store = "wal_segment list"

record rotation_manager =
  rm_config :: rotation_config
  rm_active_segment :: "segment_ref option"
  rm_stats :: rotation_stats
  rm_last_check_time :: instant
  rm_rotation_in_progress :: bool
  rm_shutdown_flag :: bool

definition rotation_manager_new :: "instant \<Rightarrow> rotation_config \<Rightarrow> rotation_manager" where
  "rotation_manager_new now cfg = \<lparr>rm_config = cfg, rm_active_segment = None,
     rm_stats = default_rotation_stats, rm_last_check_time = now, rm_rotation_in_progress = False,
     rm_shutdown_flag = False\<rparr>"

definition set_active_segment :: "segment_store \<Rightarrow> segment_ref \<Rightarrow> rotation_manager \<Rightarrow> rotation_manager" where
  "set_active_segment st r rm =
     rm\<lparr>rm_active_segment := Some r,
        rm_stats := (rm_stats rm)\<lparr>rs_active_segment_id := Some (sm_id (ws_metadata (st ! r)))\<rparr>\<rparr>"

definition segment_trigger ::
    "system_time \<Rightarrow> rotation_config \<Rightarrow> segment_metadata \<Rightarrow> (rotation_trigger option, wal_error) result" where
  "segment_trigger now_system cfg m =
     (let by_count = Ok (if rc_enable_count_rotation cfg \<and> rc_max_entries_per_segment cfg \<le> sm_entry_count m
                         then Some CountTrigger else None) in
      if rc_enable_size_rotation cfg \<and> rc_max_segment_size cfg \<le> sm_size m then Ok (Some SizeTrigger)
      else if rc_enable_time_rotation cfg then
        (case duration_since now_system (sm_created_at m) of
           None \<Rightarrow> Err (WalInvalidOperation ''Clock error: second time provided was later than self'')
         | Some age \<Rightarrow>
             if unat (rc_max_segment_age cfg) \<le> age div 10 ^ 9 then Ok (Some TimeTrigger) else by_count)
      else by_count)"

definition check_rotation_needed ::
    "instant \<Rightarrow> system_time \<Rightarrow> segment_store \<Rightarrow> rotation_manager
     \<Rightarrow> rotation_manager \<times> (rotation_trigger option, wal_error) result" where
  "check_rotation_needed now now_system st rm =
     (if now - rm_last_check_time rm < unat (rc_check_interval_ms (rm_config rm)) * 10 ^ 6
      then (rm, Ok None)
      else let rm1 = rm\<lparr>rm_last_check_time := now\<rparr> in
        (rm1, if rm_shutdown_flag rm then Ok (Some ShutdownTrigger)
              else case rm_active_segment rm of
                None \<Rightarrow> Ok None
              | Some r \<Rightarrow> segment_trigger now_system (rm_config rm) (ws_metadata (st ! r))))"

definition next_segment_id :: "segment_store \<Rightarrow> rotation_manager \<Rightarrow> u64" where
  "next_segment_id st rm =
     (case rm_active_segment rm of
        Some r \<Rightarrow> sm_id (ws_metadata (st ! r)) + 1
      | None \<Rightarrow> 1)"

datatype compression_algorithm = NoCompression | Lz4 | Zstd | Gzip

record wal_config =
  wc_wal_dir :: string
  wc_segment_size :: u64
  wc_sync_policy :: sync_policy
  wc_use_mmap :: bool
  wc_buffer_size :: u64
  wc_max_batch_size :: u64
  wc_max_batch_wait :: duration
  wc_enable_compression :: bool
  wc_compression_algorithm :: compression_algorithm
  wc_compression_level :: u32
  wc_async_threads :: u32
  wc_async_writes :: bool
  wc_rotation :: rotation_config

definition default_wal_config :: wal_config where
  "default_wal_config = \<lparr>wc_wal_dir = ''./wal'', wc_segment_size = 64 * 1024 * 1024,
     wc_sync_policy = SyncOnBatch, wc_use_mmap = True, wc_buffer_size = 8 * 1024,
     wc_max_batch_size = 1000, wc_max_batch_wait = 10 * 10 ^ 6, wc_enable_compression = False,
     wc_compression_algorithm = Lz4, wc_compression_level = 1, wc_async_threads = 2,
     wc_async_writes = True, wc_rotation = default_rotation_config\<rparr>"

text \<open>The environment of a rotation: the faults of sealing and creating, and the clocks.\<close>

record rotation_env =
  re_seal :: "sync_fault option"
  re_create :: "create_fault option"
  re_now :: system_time
  re_elapsed :: duration

definition bump_sealed :: "rotation_manager \<Rightarrow> rotation_manager" where
  "bump_sealed rm = rm\<lparr>rm_stats := (rm_stats rm)\<lparr>rs_segments_sealed := rs_segments_sealed (rm_stats rm) + 1\<rparr>\<rparr>"

definition seal_active ::
    "rotation_env \<Rightarrow> segment_store \<times> rotation_manager
     \<Rightarrow> (segment_store \<times> rotation_manager) \<times> (unit, wal_error) result" where
  "seal_active env = (\<lambda>(st, rm).
     case rm_active_segment rm of
       None \<Rightarrow> ((st, rm), Ok ())
     | Some r \<Rightarrow>
         (case segment_seal (re_seal env) (re_now env) (st ! r) of
            (seg, Ok _) \<Rightarrow> ((st[r := seg], bump_sealed rm), Ok ())
          | (seg, Err x) \<Rightarrow> ((st[r := seg], rm), Err x)
          | (seg, Panic) \<Rightarrow> ((st[r := seg], rm), Panic)))"

definition perform_rotation ::
    "rotation_env \<Rightarrow> wal_config \<Rightarrow> segment_store \<times> rotation_manager
     \<Rightarrow> (segment_store \<times> rotation_manager) \<times> (segment_ref, wal_error) result" where
  "perform_rotation env cfg sys =
     (case seal_active env sys of
        ((st, rm), Ok _) \<Rightarrow>
          let sid = next_segment_id st rm in
          (case segment_create (re_create env) (re_now env) sid (segment_path (wc_wal_dir cfg) sid)
                  (wc_segment_size cfg) (wc_use_mmap cfg) of
             Ok seg \<Rightarrow>
               let st1 = st @ [seg]; rm1 = set_active_segment st1 (length st) rm;
                   stats = rm_stats rm1 in
               ((st1, rm1\<lparr>rm_stats := stats\<lparr>rs_segments_created := rs_segments_created stats + 1\<rparr>\<rparr>),
                Ok (length st))
           | Err x \<Rightarrow> ((st, rm), Err x)
           | Panic \<Rightarrow> ((st, rm), Panic))
      | (sys1, Err x) \<Rightarrow> (sys1, Err x)
      | (sys1, Panic) \<Rightarrow> (sys1, Panic))"

definition count_trigger :: "rotation_trigger \<Rightarrow> rotation_stats \<Rightarrow> rotation_stats" where
  "count_trigger t s =
     (case t of
        SizeTrigger \<Rightarrow> s\<lparr>rs_size_rotations := rs_size_rotations s + 1\<rparr>
      | TimeTrigger \<Rightarrow> s\<lparr>rs_time_rotations := rs_time_rotations s + 1\<rparr>
      | CountTrigger \<Rightarrow> s\<lparr>rs_count_rotations := rs_count_rotations s + 1\<rparr>
      | ManualTrigger \<Rightarrow> s\<lparr>rs_manual_rotations := rs_manual_rotations s + 1\<rparr>
      | DiskSpaceTrigger \<Rightarrow> s\<lparr>rs_disk_space_rotations := rs_disk_space_rotations s + 1\<rparr>
      | ShutdownTrigger \<Rightarrow> s\<lparr>rs_shutdown_rotations := rs_shutdown_rotations s + 1\<rparr>)"

definition update_rotation_stats ::
    "rotation_trigger \<Rightarrow> duration \<Rightarrow> system_time \<Rightarrow> rotation_manager \<Rightarrow> rotation_manager" where
  "update_rotation_stats t elapsed now rm =
     (let s = rm_stats rm; us = of_nat (elapsed div 1000);
          s1 = count_trigger t (s\<lparr>rs_total_rotations := rs_total_rotations s + 1\<rparr>);
          s2 = s1\<lparr>rs_total_rotation_time_us := rs_total_rotation_time_us s1 + us\<rparr>;
          s3 = (if rs_peak_rotation_time_us s2 < us then s2\<lparr>rs_peak_rotation_time_us := us\<rparr> else s2);
          s4 = (if 0 < rs_total_rotations s3
                then s3\<lparr>rs_avg_rotation_time_us := rs_total_rotation_time_us s3 div rs_total_rotations s3\<rparr>
                else s3) in
      rm\<lparr>rm_stats := s4\<lparr>rs_last_rotation_time := Some now\<rparr>\<rparr>)"

definition rotate_segment ::
    "rotation_env \<Rightarrow> rotation_trigger \<Rightarrow> wal_config \<Rightarrow> segment_store \<times> rotation_manager
     \<Rightarrow> (segment_store \<times> rotation_manager) \<times> (segment_ref, wal_error) result" where
  "rotate_segment env t cfg = (\<lambda>(st, rm).
     if rm_rotation_in_progress rm
     then ((st, rm), Err (WalInvalidOperation ''Rotation already in progress''))
     else case perform_rotation env cfg (st, rm\<lparr>rm_rotation_in_progress := True\<rparr>) of
       ((st1, rm1), r) \<Rightarrow>
         ((st1, update_rotation_stats t (re_elapsed env) (re_now env) (rm1\<lparr>rm_rotation_in_progress := False\<rparr>)), r))"

definition force_rotation ::
    "rotation_env \<Rightarrow> wal_config \<Rightarrow> segment_store \<times> rotation_manager
     \<Rightarrow> (segment_store \<times> rotation_manager) \<times> (segment_ref, wal_error) result" where
  "force_rotation env cfg sys = rotate_segment env ManualTrigger cfg sys"

definition rotation_stop ::
    "rotation_env \<Rightarrow> segment_store \<times> rotation_manager
     \<Rightarrow> (segment_store \<times> rotation_manager) \<times> (unit, wal_error) result" where
  "rotation_stop env = (\<lambda>(st, rm).
     let rm0 = rm\<lparr>rm_shutdown_flag := True\<rparr> in
     case seal_active env (st, rm0) of
       ((st1, rm1), Ok _) \<Rightarrow>
         ((st1, if rm_active_segment rm1 = None then rm1
                else rm1\<lparr>rm_stats := (rm_stats rm1)\<lparr>rs_shutdown_rotations := rs_shutdown_rotations (rm_stats rm1) + 1\<rparr>\<rparr>),
          Ok ())
     | (sys1, r) \<Rightarrow> (sys1, r))"

section \<open>The history of rotations\<close>

text \<open>
  Clients write through the references they hold, also to segments no longer active; the manager
  rotates and stops. Every operation may meet faults.
\<close>

datatype rotation_op =
    WriteOp segment_ref "write_fault option" wal_entry
  | RotateOp rotation_env rotation_trigger
  | StopOp rotation_env

fun rotation_step ::
    "entry_encoder \<Rightarrow> wal_config \<Rightarrow> rotation_op \<Rightarrow> segment_store \<times> rotation_manager
     \<Rightarrow> segment_store \<times> rotation_manager" where
  "rotation_step ser cfg (WriteOp r io e) (st, rm) =
     (if r < length st then (st[r := fst (write_entry ser io e (st ! r))], rm) else (st, rm))"
| "rotation_step ser cfg (RotateOp env t) sys = fst (rotate_segment env t cfg sys)"
| "rotation_step ser cfg (StopOp env) sys = fst (rotation_stop env sys)"

definition rotation_run ::
    "entry_encoder \<Rightarrow> wal_config \<Rightarrow> rotation_op list \<Rightarrow> segment_store \<times> rotation_manager
     \<Rightarrow> segment_store \<times> rotation_manager" where
  "rotation_run ser cfg ops sys = fold (rotation_step ser cfg) ops sys"

abbreviation seg_sealed :: "wal_segment \<Rightarrow> bool" where
  "seg_sealed s \<equiv> sm_sealed (ws_metadata s)"

abbreviation seg_id :: "wal_segment \<Rightarrow> u64" where
  "seg_id s \<equiv> sm_id (ws_metadata s)"

definition keeps_sealed :: "wal_segment \<Rightarrow> wal_segment \<Rightarrow> bool" where
  "keeps_sealed s s' =
     (seg_id s' = seg_id s
      \<and> (seg_sealed s \<longrightarrow> seg_sealed s' \<and> ws_file s' = ws_file s
           \<and> sm_entry_count (ws_metadata s') = sm_entry_count (ws_metadata s)))"

definition history_grows :: "segment_store \<Rightarrow> segment_store \<Rightarrow> bool" where
  "history_grows st st' = 
     (length st \<le> length st' \<and> (\<forall>i<length st. keeps_sealed (st ! i) (st' ! i)))"

definition history_ok :: "segment_store \<times> rotation_manager \<Rightarrow> bool" where
  "history_ok = (\<lambda>(st, rm).
     map seg_id st = map (\<lambda>i. of_nat (Suc i)) [0..<length st]
     \<and> rm_active_segment rm = (if st = [] then None else Some (length st - 1))
     \<and> list_all seg_sealed (butlast st)
     \<and> \<not> rm_rotation_in_progress rm)"

lemma keeps_sealed_refl [simp]: "keeps_sealed s s"
  by (simp add: keeps_sealed_def)

lemma keeps_sealed_trans: "keeps_sealed a b \<Longrightarrow> keeps_sealed b c \<Longrightarrow> keeps_sealed a c"
  by (simp add: keeps_sealed_def)

lemma history_grows_refl [simp]: "history_grows st st"
  by (simp add: history_grows_def)

lemma history_grows_trans: "history_grows a b \<Longrightarrow> history_grows b c \<Longrightarrow> history_grows a c"
  unfolding history_grows_def by (meson keeps_sealed_trans le_trans less_le_trans)

lemma keeps_sealed_update: "keeps_sealed (st ! r) s \<Longrightarrow> keeps_sealed (st ! i) (st[r := s] ! i)"
  by (metis keeps_sealed_refl list_update_beyond not_le nth_list_update_eq nth_list_update_neq)

lemma history_grows_update: "keeps_sealed (st ! r) s \<Longrightarrow> history_grows st (st[r := s])"
  by (simp add: history_grows_def keeps_sealed_update)

lemma history_grows_snoc: "history_grows st (st @ [s])"
  by (simp add: history_grows_def nth_append)

lemma write_entry_keeps: "keeps_sealed s (fst (write_entry ser io e s))"
  by (auto simp: keeps_sealed_def write_entry_def note_written_def Let_def
      split: result.splits option.splits write_fault.splits)

lemma segment_seal_keeps:
  "segment_seal io now s = (s', r) \<Longrightarrow> keeps_sealed s s' \<and> (is_ok r \<longrightarrow> seg_sealed s')"
  by (auto simp: segment_seal_def segment_sync_def keeps_sealed_def
      split: option.splits sync_fault.splits)

lemma history_ok_update:
  assumes ok: "history_ok (st, rm)" and keeps: "keeps_sealed (st ! r) s"
  shows "history_ok (st[r := s], rm)"
proof -
  note keep = keeps_sealed_update[OF keeps]
  have "map seg_id (st[r := s]) = map seg_id st"
    using keep by (intro nth_equalityI) (auto simp: keeps_sealed_def)
  moreover have "list_all seg_sealed (butlast (st[r := s]))"
    using ok keep by (auto simp: history_ok_def list_all_length nth_butlast keeps_sealed_def)
  ultimately show ?thesis using ok by (simp add: history_ok_def)
qed

lemma history_ok_manager:
  "history_ok (st, rm) \<Longrightarrow> rm_active_segment rm' = rm_active_segment rm
   \<Longrightarrow> \<not> rm_rotation_in_progress rm' \<Longrightarrow> history_ok (st, rm')"
  by (simp add: history_ok_def)

lemma seal_active_history:
  assumes "history_ok (st, rm)" "seal_active env (st, rm\<lparr>rm_rotation_in_progress := b\<rparr>) = ((st', rm'), r)"
  shows "history_ok (st', rm'\<lparr>rm_rotation_in_progress := False\<rparr>) \<and> history_grows st st'
         \<and> length st' = length st \<and> (is_ok r \<longrightarrow> list_all seg_sealed st')"
proof (cases "st = []")
  case True
  then show ?thesis using assms by (auto simp: seal_active_def history_ok_def)
next
  case False
  then have active: "rm_active_segment rm = Some (length st - 1)" using assms by (simp add: history_ok_def)
  obtain seg q where sl: "segment_seal (re_seal env) (re_now env) (st ! (length st - 1)) = (seg, q)"
    by fastforce
  note keeps = segment_seal_keeps[OF sl]
  have st': "st' = st[length st - 1 := seg]" and r: "is_ok r \<longleftrightarrow> is_ok q"
    and rm': "rm_active_segment rm' = rm_active_segment rm"
    using assms(2) active sl by (auto simp: seal_active_def bump_sealed_def split: result.splits)
  note ok = history_ok_update[OF assms(1) conjunct1[OF keeps]]
  have "history_ok (st', rm'\<lparr>rm_rotation_in_progress := False\<rparr>)"
    unfolding st' by (rule history_ok_manager[OF ok]) (simp_all add: rm')
  moreover have "list_all seg_sealed st'" if "is_ok r"
  proof -
    have "list_all seg_sealed (butlast st')" using ok st' by (simp add: history_ok_def)
    moreover have "last st' = seg" "st' \<noteq> []" using False st' by (simp_all add: last_list_update)
    ultimately show ?thesis
      using that keeps r by (metis append_butlast_last_id list_all_append list.pred_inject)
  qed
  ultimately show ?thesis using history_grows_update keeps st' by auto
qed

lemma segment_create_fresh:
  "segment_create io now sid path capacity mm = Ok s \<Longrightarrow> seg_id s = sid \<and> \<not> seg_sealed s"
  by (auto simp: segment_create_def segment_metadata_new_def Let_def
      split: option.splits create_fault.splits if_splits)

lemma history_ok_snoc:
  assumes ok: "history_ok (st, rm\<lparr>rm_rotation_in_progress := False\<rparr>)" and sealed: "list_all seg_sealed st"
    and seg: "seg_id seg = next_segment_id st rm"
    and rm': "rm_active_segment rm' = Some (length st)" "\<not> rm_rotation_in_progress rm'"
  shows "history_ok (st @ [seg], rm')"
proof -
  have ids: "map seg_id st = map (\<lambda>i. of_nat (Suc i)) [0..<length st]"
    and active: "rm_active_segment rm = (if st = [] then None else Some (length st - 1))"
    using ok by (simp_all add: history_ok_def)
  have "seg_id seg = of_nat (Suc (length st))"
  proof (cases "st = []")
    case False
    then have "seg_id (st ! (length st - 1)) = of_nat (length st)"
      using arg_cong[OF ids, of "\<lambda>l. l ! (length st - 1)"] by (simp del: of_nat_Suc)
    then show ?thesis using False active seg by (simp add: next_segment_id_def)
  qed (use active seg in \<open>simp add: next_segment_id_def\<close>)
  then show ?thesis using ids sealed rm' by (simp add: history_ok_def)
qed

lemma perform_rotation_history:
  assumes ok: "history_ok (st, rm)"
    and p: "perform_rotation env cfg (st, rm\<lparr>rm_rotation_in_progress := True\<rparr>) = ((st', rm'), r)"
  shows "history_ok (st', rm'\<lparr>rm_rotation_in_progress := False\<rparr>) \<and> history_grows st st'"
proof -
  obtain st1 rm1 q where s: "seal_active env (st, rm\<lparr>rm_rotation_in_progress := True\<rparr>) = ((st1, rm1), q)"
    by (metis prod.collapse)
  note seal = seal_active_history[OF ok s]
  show ?thesis
  proof (cases "is_ok q")
    case False
    then show ?thesis using p s seal by (cases q) (auto simp: perform_rotation_def)
  next
    case True
    then obtain u where q: "q = Ok u" by (cases q) auto
    define c where "c = segment_create (re_create env) (re_now env) (next_segment_id st1 rm1)
      (segment_path (wc_wal_dir cfg) (next_segment_id st1 rm1)) (wc_segment_size cfg) (wc_use_mmap cfg)"
    show ?thesis
    proof (cases c)
      case (Ok seg)
      have st': "st' = st1 @ [seg]" and rm': "rm_active_segment rm' = Some (length st1)"
        using p unfolding perform_rotation_def s q
        by (auto simp: Ok[unfolded c_def] Let_def set_active_segment_def)
      have "history_ok (st1 @ [seg], rm'\<lparr>rm_rotation_in_progress := False\<rparr>)"
        by (rule history_ok_snoc[where rm = rm1])
           (use seal True segment_create_fresh[OF Ok[unfolded c_def]] rm' in simp_all)
      then show ?thesis using st' seal history_grows_snoc history_grows_trans by blast
    qed (use p seal in \<open>auto simp: perform_rotation_def s q c_def Let_def\<close>)
  qed
qed

lemma rotation_step_history:
  assumes "history_ok (st, rm)" "rotation_step ser cfg op (st, rm) = (st', rm')"
  shows "history_ok (st', rm') \<and> history_grows st st'"
proof (cases op)
  case (WriteOp r io e)
  then show ?thesis
    using assms history_ok_update[OF assms(1) write_entry_keeps] history_grows_update[OF write_entry_keeps]
    by (auto split: if_splits)
next
  case (RotateOp env t)
  have idle: "\<not> rm_rotation_in_progress rm" using assms(1) by (simp add: history_ok_def)
  obtain st1 rm1 r where p: "perform_rotation env cfg (st, rm\<lparr>rm_rotation_in_progress := True\<rparr>) = ((st1, rm1), r)"
    by (metis prod.collapse)
  note hist = perform_rotation_history[OF assms(1) p]
  have st': "st' = st1" and rm': "rm_active_segment rm' = rm_active_segment rm1" "\<not> rm_rotation_in_progress rm'"
    using assms(2) RotateOp p idle
    by (auto simp: rotate_segment_def update_rotation_stats_def Let_def)
  have "history_ok (st1, rm')" using hist rm' by (auto simp: history_ok_def)
  with hist show ?thesis unfolding st' by simp
next
  case (StopOp env)
  define rm0 where "rm0 = rm\<lparr>rm_shutdown_flag := True\<rparr>"
  have rm0: "history_ok (st, rm0)" "rm0\<lparr>rm_rotation_in_progress := False\<rparr> = rm0"
    using assms(1) by (auto simp: history_ok_def rm0_def)
  obtain st1 rm1 r where s: "seal_active env (st, rm0\<lparr>rm_rotation_in_progress := False\<rparr>) = ((st1, rm1), r)"
    by (metis prod.collapse)
  note seal = seal_active_history[OF rm0(1) s]
  have idle: "\<not> rm_rotation_in_progress rm1"
    using s assms(1) by (auto simp: seal_active_def bump_sealed_def history_ok_def rm0_def
        split: option.splits result.splits prod.splits)
  have "st' = st1 \<and> rm_active_segment rm' = rm_active_segment rm1 \<and> \<not> rm_rotation_in_progress rm'"
    using assms(2) StopOp s idle unfolding rm0(2)
    by (cases r) (auto simp: rotation_stop_def Let_def rm0_def split: if_splits)
  then show ?thesis using seal by (auto simp: history_ok_def)
qed

lemma rotation_run_history:
  "history_ok (st, rm) \<Longrightarrow> rotation_run ser cfg ops (st, rm) = (st', rm') \<Longrightarrow>
     history_ok (st', rm') \<and> history_grows st st'"
proof (induction ops arbitrary: st rm)
  case (Cons op ops)
  obtain st1 rm1 where s: "rotation_step ser cfg op (st, rm) = (st1, rm1)" by fastforce
  note one = rotation_step_history[OF Cons.prems(1) s]
  with Cons.IH[of st1 rm1] Cons.prems(2) s have "history_ok (st', rm') \<and> history_grows st1 st'"
    by (simp add: rotation_run_def)
  with one history_grows_trans show ?case by blast
qed (simp add: rotation_run_def)

lemma history_ok_new: "history_ok ([], rotation_manager_new now cfg)"
  by (simp add: history_ok_def rotation_manager_new_def)

text \<open>
  what rotation leaves behind. After any sequence of rotations, stops and writes through old and
  new references, with whatever faults of the file system, the segments created have the
  consecutive ids 1, 2, 3, ..., the last one is the active one, all the others are sealed; and
  whatever happens next, a sealed segment stays sealed with the same bytes.
\<close>

theorem rotation_history:
  assumes "rotation_run ser cfg ops ([], rotation_manager_new now (wc_rotation cfg)) = (st, rm)"
    and "rotation_run ser cfg later (st, rm) = (st', rm')"
  shows "map seg_id st = map (\<lambda>i. of_nat (Suc i)) [0..<length st]
     \<and> rm_active_segment rm = (if st = [] then None else Some (length st - 1))
     \<and> list_all seg_sealed (butlast st)
     \<and> length st \<le> length st'
     \<and> (\<forall>i<length st. seg_sealed (st ! i) \<longrightarrow> seg_sealed (st' ! i) \<and> ws_file (st' ! i) = ws_file (st ! i))"
proof -
  have ok: "history_ok (st, rm)" using rotation_run_history[OF history_ok_new assms(1)] by simp
  have "history_grows st st'" using rotation_run_history[OF ok assms(2)] by simp
  with ok show ?thesis by (simp add: history_ok_def history_grows_def keeps_sealed_def)
qed

definition calm_env :: rotation_env where
  "calm_env = \<lparr>re_seal = None, re_create = None, re_now = 0, re_elapsed = 5\<rparr>"

definition small_wal_config :: wal_config where
  "small_wal_config = \<lparr>wc_wal_dir = ''wal'', wc_segment_size = 8, wc_sync_policy = SyncOnBatch,
     wc_use_mmap = False, wc_buffer_size = 4, wc_max_batch_size = 2, wc_max_batch_wait = 1,
     wc_enable_compression = False, wc_compression_algorithm = NoCompression,
     wc_compression_level = 0, wc_async_threads = 1, wc_async_writes = True,
     wc_rotation = default_rotation_config\<rparr>"

definition sample_rotation :: "rotation_op list" where
  "sample_rotation = [RotateOp calm_env ManualTrigger, WriteOp 0 None (wal_sample 1 [1, 2, 3]),
     RotateOp calm_env SizeTrigger]"

definition sample_rotated :: "segment_store \<times> rotation_manager" where
  "sample_rotated = rotation_run sample_ser small_wal_config sample_rotation
     ([], rotation_manager_new 0 (wc_rotation small_wal_config))"

definition sample_later :: "segment_store \<times> rotation_manager" where
  "sample_later = rotation_run sample_ser small_wal_config
     [WriteOp 0 None (wal_sample 2 [4]), WriteOp 1 None (wal_sample 3 [5])] sample_rotated"

theorem rotation_history_witness:
  "map seg_id (fst sample_rotated) = [1, 2]
   \<and> ws_file (fst sample_later ! 0) = [1, 2, 3, 0, 0, 0, 0, 0]
   \<and> ws_file (fst sample_later ! 1) = [5, 0, 0, 0, 0, 0, 0, 0]"
proof -
  have len: "length (fst sample_rotated) = 2" by code_simp
  have first: "seg_sealed (fst sample_rotated ! 0)"
    "ws_file (fst sample_rotated ! 0) = [1, 2, 3, 0, 0, 0, 0, 0]" by code_simp+
  have second: "ws_file (fst sample_later ! 1) = [5, 0, 0, 0, 0, 0, 0, 0]" by code_simp
  have "rotation_run sample_ser small_wal_config sample_rotation
     ([], rotation_manager_new 0 (wc_rotation small_wal_config)) = (fst sample_rotated, snd sample_rotated)"
    "rotation_run sample_ser small_wal_config
       [WriteOp 0 None (wal_sample 2 [4]), WriteOp 1 None (wal_sample 3 [5])]
       (fst sample_rotated, snd sample_rotated) = (fst sample_later, snd sample_later)"
    by (simp_all add: sample_rotated_def sample_later_def)
  from rotation_history[OF this] len first second show ?thesis by (simp add: numeral_2_eq_2)
qed

section \<open>The log\<close>

definition wal_config_validate :: "bool \<Rightarrow> wal_config \<Rightarrow> (unit, string) result" where
  "wal_config_validate dir_available cfg =
     (if wc_segment_size cfg = 0 then Err ''Segment size must be greater than 0''
      else if wc_buffer_size cfg = 0 then Err ''Buffer size must be greater than 0''
      else if wc_max_batch_size cfg = 0 then Err ''Max batch size must be greater than 0''
      else if wc_async_threads cfg = 0 then Err ''Async threads must be greater than 0''
      else if 9 < wc_compression_level cfg then Err ''Compression level must be between 0 and 9''
      else if \<not> dir_available then Err (''Cannot create WAL directory: '' @ wc_wal_dir cfg)
      else Ok ())"

definition effective_buffer_size :: "wal_config \<Rightarrow> u64" where
  "effective_buffer_size cfg =
     (case wc_sync_policy cfg of
        SyncAlways \<Rightarrow> min (wc_buffer_size cfg) (4 * 1024)
      | SyncOnBatch \<Rightarrow> wc_buffer_size cfg
      | SyncInterval d \<Rightarrow> max (wc_buffer_size cfg) (16 * 1024)
      | SyncNever \<Rightarrow> max (wc_buffer_size cfg) (32 * 1024)
      | SyncOnShutdown \<Rightarrow> max (wc_buffer_size cfg) (64 * 1024))"

definition effective_batch_size :: "wal_config \<Rightarrow> u64" where
  "effective_batch_size cfg =
     (case wc_sync_policy cfg of
        SyncAlways \<Rightarrow> min (wc_max_batch_size cfg) 100
      | SyncOnBatch \<Rightarrow> wc_max_batch_size cfg
      | SyncInterval d \<Rightarrow> wc_max_batch_size cfg
      | SyncNever \<Rightarrow> max (wc_max_batch_size cfg) 1000
      | SyncOnShutdown \<Rightarrow> max (wc_max_batch_size cfg) 5000)"

record wal_stats =
  wst_entries_written :: u64
  wst_entries_read :: u64
  wst_bytes_written :: u64
  wst_bytes_read :: u64

text \<open>
  The counters of \<open>WalStats\<close> that the log updates; the other fields keep their default zero. The batch
  configuration comes from \<open>BatchConfig::from_wal_config\<close>, which is called and nowhere defined: it is
  the parameter \<open>batch_of\<close>. The recovery manager is stored and never called.
\<close>

record wal =
  wl_config :: wal_config
  wl_segments :: segment_store
  wl_active_segment :: "segment_ref option"
  wl_batch_coordinator :: batch_coordinator
  wl_rotation_manager :: rotation_manager
  wl_stats :: wal_stats
  wl_shutdown_flag :: bool

definition wal_new ::
    "(wal_config \<Rightarrow> batch_config) \<Rightarrow> bool \<Rightarrow> create_fault option \<Rightarrow> instant \<Rightarrow> system_time \<Rightarrow> wal_config
     \<Rightarrow> (wal, wal_error) result" where
  "wal_new batch_of dir_available io now now_system cfg =
     and_then (map_err WalConfiguration (wal_config_validate dir_available cfg)) (\<lambda>_.
     and_then (segment_create io now_system 1 (segment_path (wc_wal_dir cfg) 1)
                 (wc_segment_size cfg) (wc_use_mmap cfg)) (\<lambda>initial_segment.
       Ok \<lparr>wl_config = cfg, wl_segments = [initial_segment], wl_active_segment = Some 0,
           wl_batch_coordinator = coordinator_new (batch_of cfg),
           wl_rotation_manager = rotation_manager_new now (wc_rotation cfg),
           wl_stats = \<lparr>wst_entries_written = 0, wst_entries_read = 0, wst_bytes_written = 0,
                       wst_bytes_read = 0\<rparr>,
           wl_shutdown_flag = False\<rparr>))"

definition wal_write ::
    "checksum_fn \<Rightarrow> ('m \<Rightarrow> (bytes, string) result) \<Rightarrow> entry_encoder \<Rightarrow> write_fault option \<Rightarrow> system_time
     \<Rightarrow> 'm \<Rightarrow> wal \<Rightarrow> wal \<times> (u64, wal_error) result" where
  "wal_write crc ser_msg ser io now message w =
     (if wl_shutdown_flag w then (w, Err WalShutdown)
      else case duration_since now 0 of
        None \<Rightarrow> (w, Panic)
      | Some since \<Rightarrow>
          (case entry_new crc ser_msg 1 (of_nat since) message of
             Err x \<Rightarrow> (w, Err x)
           | Panic \<Rightarrow> (w, Panic)
           | Ok entry \<Rightarrow>
               (case wl_active_segment w of
                  None \<Rightarrow> (w, Err (WalInvalidOperation ''No active segment''))
                | Some r \<Rightarrow>
                    (case write_entry ser io entry (wl_segments w ! r) of
                       (seg, Ok position) \<Rightarrow>
                         let st = wl_stats w in
                         (w\<lparr>wl_segments := (wl_segments w)[r := seg],
                            wl_stats := st\<lparr>wst_entries_written := wst_entries_written st + 1,
                              wst_bytes_written := wst_bytes_written st + of_nat (serialized_size entry)\<rparr>\<rparr>,
                          Ok position)
                     | (seg, x) \<Rightarrow> (w\<lparr>wl_segments := (wl_segments w)[r := seg]\<rparr>, x)))))"

definition wal_read :: "u64 \<Rightarrow> usize \<Rightarrow> wal \<Rightarrow> wal \<times> (wal_entry list, wal_error) result" where
  "wal_read start_sequence limit w =
     (if wl_shutdown_flag w then (w, Err WalShutdown)
      else let st = wl_stats w in
        (w\<lparr>wl_stats := st\<lparr>wst_entries_read := wst_entries_read st + of_nat limit\<rparr>\<rparr>, Ok []))"

definition wal_shutdown :: "rotation_env \<Rightarrow> wal \<Rightarrow> wal \<times> (unit, wal_error) result" where
  "wal_shutdown env w =
     (case rotation_stop env (wl_segments w, wl_rotation_manager w) of
        ((st, rm), Ok _) \<Rightarrow>
          let w1 = w\<lparr>wl_shutdown_flag := True, wl_segments := st, wl_rotation_manager := rm\<rparr> in
          (case wl_active_segment w1 of
             None \<Rightarrow> (w1, Ok ())
           | Some r \<Rightarrow>
               (case segment_seal (re_seal env) (re_now env) (st ! r) of
                  (seg, x) \<Rightarrow> (w1\<lparr>wl_segments := st[r := seg]\<rparr>, x)))
      | ((st, rm), x) \<Rightarrow>
          (w\<lparr>wl_shutdown_flag := True, wl_segments := st, wl_rotation_manager := rm\<rparr>, x))"

fun wal_writes ::
    "checksum_fn \<Rightarrow> ('m \<Rightarrow> (bytes, string) result) \<Rightarrow> entry_encoder
     \<Rightarrow> (write_fault option \<times> system_time \<times> 'm) list \<Rightarrow> wal \<Rightarrow> wal" where
  "wal_writes crc ser_msg ser [] w = w"
| "wal_writes crc ser_msg ser ((io, now, m) # ms) w =
     wal_writes crc ser_msg ser ms (fst (wal_write crc ser_msg ser io now m w))"

text \<open>
  What the log maintains: one segment, holding the encodings of the accepted entries, each with an
  intact checksum and sequence number 1; the statistics count them; the rotation manager has no
  segment.
\<close>

definition wal_holds :: "checksum_fn \<Rightarrow> entry_encoder \<Rightarrow> wal_entry list \<Rightarrow> wal \<Rightarrow> bool" where
  "wal_holds crc ser es w =
     (wl_active_segment w = Some 0 \<and> length (wl_segments w) = 1 \<and> segment_holds ser es (wl_segments w ! 0)
      \<and> list_all (\<lambda>e. we_sequence_number e = 1 \<and> verify_integrity crc e) es
      \<and> wst_entries_written (wl_stats w) = of_nat (length es)
      \<and> rm_active_segment (wl_rotation_manager w) = None)"

lemma wal_new_holds:
  assumes "wal_new batch_of dir io now sys cfg = Ok w" "unat (wc_segment_size cfg) < 2 ^ 63"
  shows "wal_holds crc ser [] w"
  using assms segment_create_holds[OF _ assms(2)]
  by (auto simp: wal_new_def and_then_Ok_iff wal_holds_def rotation_manager_new_def)

lemma entry_new_intact:
  "entry_new crc ser_msg q t m = Ok e \<Longrightarrow> we_sequence_number e = q \<and> verify_integrity crc e"
  by (auto simp: entry_new_def and_then_Ok_iff raw_entry_def verify_integrity_def)

lemma wal_write_holds:
  assumes small: "\<forall>e bs. ser e = Ok bs \<longrightarrow> length bs < 2 ^ 63" and h: "wal_holds crc ser es w"
    and w: "wal_write crc ser_msg ser io now m w = (w', r)"
  shows "\<exists>es'. wal_holds crc ser es' w' \<and> (es' = es \<or> (\<exists>e. es' = es @ [e] \<and> entry_new crc ser_msg 1 (of_nat (nat now)) m = Ok e))"
proof (cases "wl_shutdown_flag w \<or> now < 0 \<or> \<not> is_ok (entry_new crc ser_msg 1 (of_nat (nat now)) m)")
  case True
  then have "w' = w"
    using w by (cases "entry_new crc ser_msg 1 (of_nat (nat now)) m")
      (auto simp: wal_write_def duration_since_def split: if_splits)
  then show ?thesis using h by blast
next
  case False
  then obtain e where e: "entry_new crc ser_msg 1 (of_nat (nat now)) m = Ok e"
    by (cases "entry_new crc ser_msg 1 (of_nat (nat now)) m") auto
  obtain seg q where we: "write_entry ser io e (wl_segments w ! 0) = (seg, q)" by fastforce
  have st: "wl_active_segment w = Some 0" "length (wl_segments w) = 1"
    "segment_holds ser es (wl_segments w ! 0)" using h by (simp_all add: wal_holds_def)
  note step = write_entry_step[OF st(3) _ we] 
  show ?thesis
  proof (cases "is_ok q")
    case True
    then have "segment_holds ser (es @ [e]) seg" "q = Ok (ws_write_position (wl_segments w ! 0))"
      using step small by auto
    then have "wal_holds crc ser (es @ [e]) w'"
      using w False e we st h entry_new_intact[OF e]
      by (auto simp: wal_write_def duration_since_def Let_def wal_holds_def)
    then show ?thesis using e by blast
  next
    case bad: False
    then have "segment_holds ser es seg" using step small by auto
    then have "wal_holds crc ser es w'"
      using w False e we st h bad
      by (cases q) (auto simp: wal_write_def duration_since_def Let_def wal_holds_def)
    then show ?thesis by blast
  qed
qed

lemma wal_writes_holds:
  assumes small: "\<forall>e bs. ser e = Ok bs \<longrightarrow> length bs < 2 ^ 63"
  shows "wal_holds crc ser es w \<Longrightarrow> \<exists>es'. wal_holds crc ser es' (wal_writes crc ser_msg ser ms w)"
proof (induction ms arbitrary: es w)
  case (Cons x ms)
  obtain io now m where x: "x = (io, now, m)" by (cases x)
  obtain w1 r where w1: "wal_write crc ser_msg ser io now m w = (w1, r)" by fastforce
  from wal_write_holds[OF small Cons.prems w1] Cons.IH show ?case by (auto simp: x w1)
qed auto

text \<open>
  what the log stores. After any sequence of writes, with whatever faults, the log still has the
  one segment it was created with: the rotation manager was never given a segment, so a full segment
  is never replaced. The file holds exactly the encodings of some entries with intact checksums, as
  many as the statistics say, and every one of them carries sequence number 1.
\<close>

theorem wal_one_segment:
  assumes "\<forall>e bs. ser e = Ok bs \<longrightarrow> length bs < 2 ^ 63" "unat (wc_segment_size cfg) < 2 ^ 63"
    and "wal_new batch_of dir io now sys cfg = Ok w"
  shows "\<exists>es seg. wl_segments (wal_writes crc ser_msg ser ms w) = [seg]
     \<and> segment_holds ser es seg
     \<and> list_all (\<lambda>e. we_sequence_number e = 1 \<and> verify_integrity crc e) es
     \<and> wst_entries_written (wl_stats (wal_writes crc ser_msg ser ms w)) = of_nat (length es)
     \<and> rm_active_segment (wl_rotation_manager (wal_writes crc ser_msg ser ms w)) = None"
proof -
  obtain es where "wal_holds crc ser es (wal_writes crc ser_msg ser ms w)"
    using wal_writes_holds[OF assms(1) wal_new_holds[OF assms(3,2)]] by blast
  moreover from this obtain seg where "wl_segments (wal_writes crc ser_msg ser ms w) = [seg]"
    by (auto simp: wal_holds_def length_Suc_conv)
  ultimately show ?thesis by (auto simp: wal_holds_def)
qed

definition sample_wal :: wal where
  "sample_wal = (case wal_new (\<lambda>c. \<lparr>bc_max_batch_size = 2, bc_max_batch_duration = 1,
       bc_max_memory_usage = 4, bc_adaptive_batching = True\<rparr>) True None 0 0 small_wal_config of
     Ok w \<Rightarrow> w | _ \<Rightarrow> undefined)"

definition sample_run :: wal where
  "sample_run = wal_writes (\<lambda>bs. 7) Ok sample_ser
     [(None, 1, [1, 2, 3]), (None, 2, [4, 5, 6]), (None, 3, [7, 8, 9])] sample_wal"

theorem wal_one_segment_witness:
  "\<exists>es seg. wl_segments sample_run = [seg] \<and> segment_holds sample_ser es seg
     \<and> list_all (\<lambda>e. we_sequence_number e = 1) es \<and> wst_entries_written (wl_stats sample_run) = 2
     \<and> ws_file seg = [1, 2, 3, 4, 5, 6, 0, 0]"
proof -
  have new: "wal_new (\<lambda>c. \<lparr>bc_max_batch_size = 2, bc_max_batch_duration = 1,
       bc_max_memory_usage = 4, bc_adaptive_batching = True\<rparr>) True None 0 0 small_wal_config = Ok sample_wal"
    by code_simp
  have cap: "unat (wc_segment_size small_wal_config) < 2 ^ 63" by (simp add: small_wal_config_def)
  have run: "wst_entries_written (wl_stats sample_run) = 2"
    "map ws_file (wl_segments sample_run) = [[1, 2, 3, 4, 5, 6, 0, 0]]" by code_simp+
  from wal_one_segment[OF sample_ser_small cap new, of "\<lambda>bs. 7" Ok
      "[(None, 1, [1, 2, 3]), (None, 2, [4, 5, 6]), (None, 3, [7, 8, 9])]"]
  obtain es seg where seg: "wl_segments sample_run = [seg]" "segment_holds sample_ser es seg"
    "list_all (\<lambda>e. we_sequence_number e = 1 \<and> verify_integrity (\<lambda>bs. 7) e) es"
    unfolding sample_run_def by blast
  have bytes: "ws_file seg = [1, 2, 3, 4, 5, 6, 0, 0]" using run(2) seg(1) by simp
  have "list_all (\<lambda>e. we_sequence_number e = 1) es" using seg(3) by (simp add: list_all_iff)
  with seg(1,2) bytes run(1) show ?thesis by blast
qed

end
