(* ===== verification/Segments.thy ===== *)
theory Segments
  imports Clocks
begin

text \<open>
  The storage segments of \<^verbatim>\<open>src/kaelix-storage/src/segments\<close>: entries (\<^verbatim>\<open>entry.rs\<close>), the writer
  (\<^verbatim>\<open>segment_writer.rs\<close>), and the segment with its indices, readers and recovery (\<^verbatim>\<open>segment.rs\<close>). A file
  is the list of its bytes; it is opened for appending, so every write goes to its end. A fault of a
  write is the number of bytes that still reached the file, with the error's text. \<open>lz4\<close> and \<open>unlz4\<close> are the compression
  library. The two loops of the recovery take fuel, since the inner one need not end.
\<close>

section \<open>Little-endian fields\<close>

definition le_bytes :: "nat \<Rightarrow> 'w::len word \<Rightarrow> bytes" where
  "le_bytes n w = rev (be_bytes n w)"

definition le_word :: "bytes \<Rightarrow> 'w::len word" where
  "le_word bs = be_word (rev bs)"

lemma length_le_bytes [simp]: "length (le_bytes n w) = n"
  by (simp add: le_bytes_def)

lemma le_word_le_bytes [simp]: "le_word (le_bytes 4 (w :: u32)) = w" "le_word (le_bytes 8 (v :: u64)) = v"
  by (simp_all add: le_word_def le_bytes_def be_word_be_bytes)

section \<open>Entries\<close>

datatype segment_error = SegIo string | SegNotFound string | SegInvalidOperation string

datatype compression_type = NoCompression | Lz4 | Zstd | Gzip

record storage_entry_metadata =
  em_timestamp :: u64
  em_compression :: "compression_type option"
  em_flags :: u32
  em_attributes :: "(string, string) hash_map"

record storage_entry =
  se_sequence :: u64
  se_metadata :: storage_entry_metadata
  se_payload :: bytes

definition storage_entry_new :: "u64 \<Rightarrow> u64 \<Rightarrow> bytes \<Rightarrow> storage_entry" where
  "storage_entry_new sq timestamp payload =
     \<lparr>se_sequence = sq,
      se_metadata = \<lparr>em_timestamp = timestamp, em_compression = None, em_flags = 0, em_attributes = []\<rparr>,
      se_payload = payload\<rparr>"

definition storage_entry_size :: "storage_entry \<Rightarrow> usize" where
  "storage_entry_size e =
     16 + length (se_payload e) + 32
     + sum_list (map (\<lambda>(k, v). length k + length v + 8) (em_attributes (se_metadata e)))"

definition entry_is_compressed :: "storage_entry \<Rightarrow> bool" where
  "entry_is_compressed e = (em_compression (se_metadata e) \<in> {Some Lz4, Some Zstd, Some Gzip})"

definition with_lz4_compression :: "u64 \<Rightarrow> u64 \<Rightarrow> bytes \<Rightarrow> storage_entry" where
  "with_lz4_compression sq timestamp payload =
     \<lparr>se_sequence = sq,
      se_metadata = \<lparr>em_timestamp = timestamp, em_compression = Some Lz4, em_flags = 0, em_attributes = []\<rparr>,
      se_payload = payload\<rparr>"

definition add_attribute :: "string \<Rightarrow> string \<Rightarrow> storage_entry \<Rightarrow> storage_entry" where
  "add_attribute k v e =
     e\<lparr>se_metadata := (se_metadata e)\<lparr>em_attributes := hm_insert k v (em_attributes (se_metadata e))\<rparr>\<rparr>"

definition get_attribute :: "string \<Rightarrow> storage_entry \<Rightarrow> string option" where
  "get_attribute k e = hm_get (em_attributes (se_metadata e)) k"

definition set_compression :: "compression_type \<Rightarrow> storage_entry \<Rightarrow> storage_entry" where
  "set_compression c e = e\<lparr>se_metadata := (se_metadata e)\<lparr>em_compression := Some c\<rparr>\<rparr>"

definition serialize_entry :: "storage_entry \<Rightarrow> bytes" where
  "serialize_entry e =
     le_bytes 8 (se_sequence e) @ le_bytes 8 (em_timestamp (se_metadata e))
     @ le_bytes 8 (of_nat (length (se_payload e)) :: u64) @ se_payload e"

text \<open>
  The length of the payload is whatever the 8 bytes say, and the sum with the header's 24 bytes wraps: a length
  of \<open>2 ^ 64 - 24\<close> or more passes the test, and the slice, which would end before it starts, panics.
\<close>

definition deserialize_entry :: "bytes \<Rightarrow> (storage_entry, segment_error) result" where
  "deserialize_entry data =
     (if length data < 24 then Err (SegIo ''Insufficient data for entry header'')
      else
        let sq = le_word (take 8 data);
            timestamp = le_word (take 8 (drop 8 data));
            payload_len = le_word (take 8 (drop 16 data)) :: u64;
            stop = unat (24 + payload_len) in
        if length data < stop then Err (SegIo ''Insufficient data for payload'')
        else if stop < 24 then Panic
        else Ok (storage_entry_new sq timestamp (take (stop - 24) (drop 24 data))))"

lemma corrupt_length_panics:
  assumes "24 \<le> length data" "take 8 (drop 16 data) = [255, 255, 255, 255, 255, 255, 255, 255]"
  shows "deserialize_entry data = Panic"
proof -
  have "le_word [255, 255, 255, 255, 255, 255, 255, 255] = (- 1 :: u64)" by (simp add: le_word_def be_word_def)
  then have "unat (24 + le_word (take 8 (drop 16 data)) :: u64) = 23" using assms(2) by simp
  with assms(1) show ?thesis by (simp add: deserialize_entry_def Let_def)
qed

definition validate_entry :: "storage_entry \<Rightarrow> (unit, segment_error) result" where
  "validate_entry e =
     (if se_sequence e = 0 then Err (SegInvalidOperation ''Invalid sequence number: 0'')
      else if em_timestamp (se_metadata e) = 0 then Err (SegInvalidOperation ''Invalid timestamp: 0'')
      else if 100 * 1024 * 1024 < length (se_payload e) then Err (SegInvalidOperation ''Payload too large'')
      else Ok ())"

section \<open>The writer\<close>

record writer_metrics =
  wm_writes_total :: u64
  wm_bytes_written_total :: u64
  wm_bytes_disk_total :: u64
  wm_write_time_total_ns :: u64
  wm_batch_writes_total :: u64
  wm_compression_operations :: u64
  wm_peak_write_latency_ns :: u64
  wm_last_write_latency_ns :: u64

record segment_writer =
  wr_segment_id :: u64
  wr_write_position :: u64
  wr_entry_count :: u64
  wr_is_sealed :: bool
  wr_enable_compression :: bool
  wr_metrics :: writer_metrics

record write_result =
  wo_segment_id :: u64
  wo_offset :: u64
  wo_size_on_disk :: usize
  wo_write_latency_ns :: u64

definition segment_writer_new :: "u64 \<Rightarrow> bool \<Rightarrow> bytes \<Rightarrow> segment_writer" where
  "segment_writer_new sid compression content =
     \<lparr>wr_segment_id = sid, wr_write_position = of_nat (length content), wr_entry_count = 0, wr_is_sealed = False,
      wr_enable_compression = compression,
      wr_metrics = \<lparr>wm_writes_total = 0, wm_bytes_written_total = 0, wm_bytes_disk_total = 0,
        wm_write_time_total_ns = 0, wm_batch_writes_total = 0, wm_compression_operations = 0,
        wm_peak_write_latency_ns = 0, wm_last_write_latency_ns = 0\<rparr>\<rparr>"

definition encode_frame :: "(bytes \<Rightarrow> bytes) \<Rightarrow> bool \<Rightarrow> storage_entry \<Rightarrow> bytes" where
  "encode_frame lz4 compression e =
     (if compression
      then le_bytes 4 (of_nat (length (lz4 (serialize_entry e))) :: u32) @ lz4 (serialize_entry e)
      else le_bytes 4 (0 :: u32) @ serialize_entry e)"

type_synonym io_fault = "(nat \<times> string) option"

definition append_file :: "io_fault \<Rightarrow> bytes \<Rightarrow> bytes \<Rightarrow> bytes \<times> (unit, segment_error) result" where
  "append_file fault data content =
     (case fault of
        None \<Rightarrow> (content @ data, Ok ())
      | Some (k, msg) \<Rightarrow> (content @ take k data, Err (SegIo msg)))"

definition sealed_error :: "u64 \<Rightarrow> segment_error" where
  "sealed_error sid = SegInvalidOperation (''Segment '' @ decimal (unat sid) @ '' is sealed'')"

definition count_compressions :: "nat \<Rightarrow> segment_writer \<Rightarrow> segment_writer" where
  "count_compressions n w =
     (if wr_enable_compression w
      then w\<lparr>wr_metrics := (wr_metrics w)\<lparr>wm_compression_operations := wm_compression_operations (wr_metrics w) + of_nat n\<rparr>\<rparr>
      else w)"

lemma count_compressions_simps [simp]:
  "wr_is_sealed (count_compressions n w) = wr_is_sealed w" "wr_write_position (count_compressions n w) = wr_write_position w"
  "wr_enable_compression (count_compressions n w) = wr_enable_compression w"
  by (simp_all add: count_compressions_def)

text \<open>
  A write in two steps, since the position is read before the lock of the file is taken and stored after
  it is released: \<open>writer_commit\<close> is what follows the reading of the position.
\<close>

definition writer_commit ::
    "(bytes \<Rightarrow> bytes) \<Rightarrow> u64 \<Rightarrow> io_fault \<Rightarrow> storage_entry \<Rightarrow> u64 \<Rightarrow> segment_writer \<Rightarrow> bytes
      \<Rightarrow> segment_writer \<times> bytes \<times> (write_result, segment_error) result" where
  "writer_commit lz4 latency fault e offset w content =
     (let data = encode_frame lz4 (wr_enable_compression w) e;
          w1 = count_compressions 1 w in
      case append_file fault data content of
        (content1, Ok u) \<Rightarrow>
          let m = wr_metrics w1 in
          (w1\<lparr>wr_write_position := offset + of_nat (length data), wr_entry_count := wr_entry_count w1 + 1,
              wr_metrics := m\<lparr>wm_writes_total := wm_writes_total m + 1,
                wm_bytes_written_total := wm_bytes_written_total m + of_nat (length (serialize_entry e)),
                wm_bytes_disk_total := wm_bytes_disk_total m + of_nat (length data),
                wm_write_time_total_ns := wm_write_time_total_ns m + latency,
                wm_last_write_latency_ns := latency,
                wm_peak_write_latency_ns := max latency (wm_peak_write_latency_ns m)\<rparr>\<rparr>,
           content1,
           Ok \<lparr>wo_segment_id = wr_segment_id w, wo_offset = offset, wo_size_on_disk = length data,
               wo_write_latency_ns = latency\<rparr>)
      | (content1, Err x) \<Rightarrow> (w1, content1, Err x)
      | (content1, Panic) \<Rightarrow> (w1, content1, Panic))"

definition writer_write_entry ::
    "(bytes \<Rightarrow> bytes) \<Rightarrow> u64 \<Rightarrow> io_fault \<Rightarrow> storage_entry \<Rightarrow> segment_writer \<Rightarrow> bytes
      \<Rightarrow> segment_writer \<times> bytes \<times> (write_result, segment_error) result" where
  "writer_write_entry lz4 latency fault e w content =
     (if wr_is_sealed w then (w, content, Err (sealed_error (wr_segment_id w)))
      else writer_commit lz4 latency fault e (wr_write_position w) w content)"

fun batch_results :: "u64 \<Rightarrow> u64 \<Rightarrow> u64 \<Rightarrow> bytes list \<Rightarrow> write_result list" where
  "batch_results sid latency offset [] = []"
| "batch_results sid latency offset (d # ds) =
     \<lparr>wo_segment_id = sid, wo_offset = offset, wo_size_on_disk = length d, wo_write_latency_ns = latency\<rparr>
     # batch_results sid latency (offset + of_nat (length d)) ds"


section \<open>The segment\<close>

record index_entry =
  ie_sequence :: u64
  ie_offset :: u64
  ie_size :: u32
  ie_timestamp :: u64

record recovery_info =
  ri_entries_recovered :: u64
  ri_corrupted_entries :: u64
  ri_bytes_recovered :: u64
  ri_bytes_corrupted :: u64

definition recovery_info_default :: recovery_info where
  "recovery_info_default = \<lparr>ri_entries_recovered = 0, ri_corrupted_entries = 0, ri_bytes_recovered = 0, ri_bytes_corrupted = 0\<rparr>"

record storage_segment =
  sg_id :: u64
  sg_content :: bytes
  sg_writer :: "segment_writer option"
  sg_reader :: "bytes option"
  sg_sequence_index :: "(u64, index_entry) hash_map"
  sg_sorted_index :: "(u64, index_entry) btree_map"
  sg_entry_count :: u64
  sg_file_size :: u64
  sg_first_sequence :: u64
  sg_last_sequence :: u64
  sg_is_sealed :: bool
  sg_enable_compression :: bool
  sg_recovery_info :: recovery_info

definition segment_create_new :: "u64 \<Rightarrow> bool \<Rightarrow> bytes \<Rightarrow> storage_segment" where
  "segment_create_new sid compression content =
     \<lparr>sg_id = sid, sg_content = content, sg_writer = Some (segment_writer_new sid compression content),
      sg_reader = None, sg_sequence_index = [], sg_sorted_index = [], sg_entry_count = 0, sg_file_size = 0,
      sg_first_sequence = - 1, sg_last_sequence = 0, sg_is_sealed = False, sg_enable_compression = compression,
      sg_recovery_info = recovery_info_default\<rparr>"

definition note_index :: "index_entry \<Rightarrow> storage_segment \<Rightarrow> storage_segment" where
  "note_index ie s =
     s\<lparr>sg_sequence_index := hm_insert (ie_sequence ie) ie (sg_sequence_index s),
       sg_sorted_index := bt_insert (ie_sequence ie) ie (sg_sorted_index s),
       sg_first_sequence := min (sg_first_sequence s) (ie_sequence ie),
       sg_last_sequence := max (sg_last_sequence s) (ie_sequence ie)\<rparr>"

definition index_of :: "storage_entry \<Rightarrow> u64 \<Rightarrow> usize \<Rightarrow> index_entry" where
  "index_of e offset n = \<lparr>ie_sequence = se_sequence e, ie_offset = offset, ie_size = of_nat n,
     ie_timestamp = em_timestamp (se_metadata e)\<rparr>"

definition segment_sealed_error :: "storage_segment \<Rightarrow> segment_error" where
  "segment_sealed_error s = SegIo (''Segment '' @ decimal (unat (sg_id s)) @ '' is sealed'')"

definition no_writer_error :: "storage_segment \<Rightarrow> segment_error" where
  "no_writer_error s = SegIo (''No writer available for segment '' @ decimal (unat (sg_id s)))"

definition segment_append_entry ::
    "(bytes \<Rightarrow> bytes) \<Rightarrow> u64 \<Rightarrow> io_fault \<Rightarrow> storage_entry \<Rightarrow> storage_segment
      \<Rightarrow> storage_segment \<times> (u64, segment_error) result" where
  "segment_append_entry lz4 latency fault e s =
     (if sg_is_sealed s then (s, Err (segment_sealed_error s))
      else case sg_writer s of
        None \<Rightarrow> (s, Err (no_writer_error s))
      | Some w \<Rightarrow>
          (case writer_write_entry lz4 latency fault e w (sg_content s) of
             (w1, content1, Ok res) \<Rightarrow>
               let s1 = note_index (index_of e (wo_offset res) (storage_entry_size e))
                          (s\<lparr>sg_writer := Some w1, sg_content := content1\<rparr>) in
               (s1\<lparr>sg_entry_count := sg_entry_count s1 + 1, sg_file_size := wr_write_position w1\<rparr>, Ok (wo_offset res))
           | (w1, content1, Err x) \<Rightarrow> (s\<lparr>sg_writer := Some w1, sg_content := content1\<rparr>, Err x)
           | (w1, content1, Panic) \<Rightarrow> (s\<lparr>sg_writer := Some w1, sg_content := content1\<rparr>, Panic)))"


section \<open>Reading\<close>

type_synonym reader = "string \<Rightarrow> nat \<Rightarrow> nat \<Rightarrow> (bytes, segment_error) result"

definition file_read :: "bytes \<Rightarrow> reader" where
  "file_read content what offset len =
     (if offset + len \<le> length content then Ok (take len (drop offset content))
      else Err (SegIo (''Failed to read '' @ what @ '': failed to fill whole buffer'')))"

text \<open>
  The sums of an offset and a length are taken as they are: the offsets are those of the index, below the size of
  the file and so below \<open>2 ^ 63\<close>, the lengths are below \<open>2 ^ 32\<close>, and the 64-bit sums of the code do not wrap.
\<close>

definition mapped_read :: "bytes \<Rightarrow> reader" where
  "mapped_read content what offset len =
     (if length content < offset + len
      then Err (SegIo (''Read beyond file bounds: offset '' @ decimal offset @ '' + len '' @ decimal len
             @ '' > size '' @ decimal (length content)))
      else Ok (take len (drop offset content)))"

definition read_frame :: "(bytes \<Rightarrow> bytes option) \<Rightarrow> reader \<Rightarrow> nat \<Rightarrow> (bytes \<times> nat, segment_error) result" where
  "read_frame unlz4 rd offset =
     and_then (rd ''compression header'' offset 4) (\<lambda>hd4.
       let compressed_len = unat (le_word hd4 :: u32) in
       if 0 < compressed_len then
         and_then (rd ''compressed data'' (offset + 4) compressed_len) (\<lambda>packed.
           case unlz4 packed of
             None \<Rightarrow> Err (SegIo (''LZ4 decompression failed at offset '' @ decimal offset))
           | Some data \<Rightarrow> Ok (data, 4 + compressed_len))
       else
         and_then (rd ''entry header'' (offset + 4) 24) (\<lambda>hd24.
           let payload_len = unat (le_word (take 4 (drop 20 hd24)) :: u32) in
           and_then (rd ''payload'' (offset + 4 + 24) payload_len) (\<lambda>payload.
             Ok (hd24 @ payload, 4 + 24 + payload_len))))"

definition read_entry_with :: "(bytes \<Rightarrow> bytes option) \<Rightarrow> reader \<Rightarrow> nat \<Rightarrow> (storage_entry, segment_error) result" where
  "read_entry_with unlz4 rd offset = and_then (read_frame unlz4 rd offset) (\<lambda>(data, n). deserialize_entry data)"

definition read_entry_at_offset :: "(bytes \<Rightarrow> bytes option) \<Rightarrow> u64 \<Rightarrow> storage_segment \<Rightarrow> (storage_entry, segment_error) result" where
  "read_entry_at_offset unlz4 offset s =
     (case sg_reader s of
        Some mapped \<Rightarrow> read_entry_with unlz4 (mapped_read mapped) (unat offset)
      | None \<Rightarrow> read_entry_with unlz4 (file_read (sg_content s)) (unat offset))"

definition read_entry_by_sequence :: "(bytes \<Rightarrow> bytes option) \<Rightarrow> u64 \<Rightarrow> storage_segment \<Rightarrow> (storage_entry, segment_error) result" where
  "read_entry_by_sequence unlz4 sq s =
     (case hm_get (sg_sequence_index s) sq of
        None \<Rightarrow> Err (SegNotFound (''Sequence '' @ decimal (unat sq) @ '' not found''))
      | Some ie \<Rightarrow> read_entry_at_offset unlz4 (ie_offset ie) s)"




definition integrity_errors :: "(bytes \<Rightarrow> bytes option) \<Rightarrow> storage_segment \<Rightarrow> nat" where
  "integrity_errors unlz4 s =
     sum_list (map (\<lambda>(sq, ie).
       case read_entry_at_offset unlz4 (ie_offset ie) s of
         Ok e \<Rightarrow> (if se_sequence e \<noteq> sq then 1 else 0) + (if is_ok (validate_entry e) then 0 else 1)
       | _ \<Rightarrow> 1) (sg_sorted_index s))"

definition validate_integrity :: "(bytes \<Rightarrow> bytes option) \<Rightarrow> storage_segment \<Rightarrow> (unit, segment_error) result" where
  "validate_integrity unlz4 s =
     (let n = integrity_errors unlz4 s in
      if list_ex (\<lambda>(sq, ie). read_entry_at_offset unlz4 (ie_offset ie) s = Panic) (sg_sorted_index s) then Panic
      else if 0 < n then Err (SegIo (''Segment '' @ decimal (unat (sg_id s)) @ '' validation failed with '' @ decimal n @ '' errors''))
      else Ok ())"

section \<open>Recovery\<close>

definition recovery_read :: "(bytes \<Rightarrow> bytes option) \<Rightarrow> bytes \<Rightarrow> nat \<Rightarrow> (storage_entry \<times> nat, segment_error) result" where
  "recovery_read unlz4 content offset =
     and_then (read_frame unlz4 (file_read content) offset) (\<lambda>(data, n).
     and_then (deserialize_entry data) (\<lambda>e.
       if is_ok (validate_entry e) then Ok (e, n)
       else Err (SegIo (''Entry checksum validation failed at offset '' @ decimal offset))))"

text \<open>
  The two loops give \<open>None\<close> when they do not return: when the fuel does not reach, and when a read panics.
\<close>

fun is_err :: "('a, 'e) result \<Rightarrow> bool" where
  "is_err (Err e) = True"
| "is_err (Ok a) = False"
| "is_err Panic = False"

definition SCAN_BUFFER_SIZE :: nat where "SCAN_BUFFER_SIZE = 4096"
definition MAX_SCAN_DISTANCE :: nat where "MAX_SCAN_DISTANCE = 1024 * 1024"

fun scan_ahead :: "nat \<Rightarrow> (bytes \<Rightarrow> bytes option) \<Rightarrow> bytes \<Rightarrow> nat \<Rightarrow> u64 \<Rightarrow> nat option option" where
  "scan_ahead 0 unlz4 content scan_end cur = None"
| "scan_ahead (Suc fuel) unlz4 content scan_end cur =
     (if unat cur < scan_end then
        let remaining = min SCAN_BUFFER_SIZE (scan_end - unat cur) in
        case find (\<lambda>off. \<not> is_err (recovery_read unlz4 content off)) [unat cur..<unat cur + (remaining - 3)] of
          Some off \<Rightarrow> if is_ok (recovery_read unlz4 content off) then Some (Some off) else None
        | None \<Rightarrow> scan_ahead fuel unlz4 content scan_end (cur + (of_nat remaining - 3))
      else Some None)"

definition find_next_valid_entry :: "nat \<Rightarrow> (bytes \<Rightarrow> bytes option) \<Rightarrow> bytes \<Rightarrow> nat \<Rightarrow> nat option option" where
  "find_next_valid_entry fuel unlz4 content start =
     scan_ahead fuel unlz4 content (min (start + MAX_SCAN_DISTANCE) (length content)) (of_nat (start + 1))"

definition note_recovered :: "storage_entry \<Rightarrow> nat \<Rightarrow> nat \<Rightarrow> storage_segment \<Rightarrow> storage_segment" where
  "note_recovered e offset n s =
     (let s1 = note_index (index_of e (of_nat offset) n) s in
      s1\<lparr>sg_entry_count := sg_entry_count s1 + 1,
         sg_recovery_info := (sg_recovery_info s1)\<lparr>
           ri_entries_recovered := ri_entries_recovered (sg_recovery_info s1) + 1,
           ri_bytes_recovered := ri_bytes_recovered (sg_recovery_info s1) + of_nat n\<rparr>\<rparr>)"

fun recover_loop :: "nat \<Rightarrow> (bytes \<Rightarrow> bytes option) \<Rightarrow> nat \<Rightarrow> storage_segment \<Rightarrow> storage_segment option" where
  "recover_loop 0 unlz4 offset s = None"
| "recover_loop (Suc fuel) unlz4 offset s =
     (if offset < length (sg_content s) then
        case recovery_read unlz4 (sg_content s) offset of
          Ok (e, n) \<Rightarrow> recover_loop fuel unlz4 (offset + n) (note_recovered e offset n s)
        | Panic \<Rightarrow> None
        | Err x \<Rightarrow>
            (case find_next_valid_entry fuel unlz4 (sg_content s) offset of
               None \<Rightarrow> None
             | Some (Some next_offset) \<Rightarrow>
                 recover_loop fuel unlz4 next_offset
                   (s\<lparr>sg_recovery_info := (sg_recovery_info s)\<lparr>
                       ri_corrupted_entries := ri_corrupted_entries (sg_recovery_info s) + 1,
                       ri_bytes_corrupted := ri_bytes_corrupted (sg_recovery_info s) + of_nat (next_offset - offset)\<rparr>\<rparr>)
             | Some None \<Rightarrow>
                 Some (s\<lparr>sg_recovery_info := (sg_recovery_info s)\<lparr>
                       ri_bytes_corrupted := ri_bytes_corrupted (sg_recovery_info s)
                         + of_nat (length (sg_content s) - offset)\<rparr>\<rparr>))
      else Some s)"

definition opened_segment :: "u64 \<Rightarrow> bool \<Rightarrow> bytes \<Rightarrow> storage_segment" where
  "opened_segment sid compression content =
     \<lparr>sg_id = sid, sg_content = content, sg_writer = None, sg_reader = None, sg_sequence_index = [],
      sg_sorted_index = [], sg_entry_count = 0, sg_file_size = of_nat (length content),
      sg_first_sequence = - 1, sg_last_sequence = 0, sg_is_sealed = True,
      sg_enable_compression = compression, sg_recovery_info = recovery_info_default\<rparr>"

definition segment_open_existing :: "nat \<Rightarrow> (bytes \<Rightarrow> bytes option) \<Rightarrow> u64 \<Rightarrow> bool \<Rightarrow> bytes \<Rightarrow> storage_segment option" where
  "segment_open_existing fuel unlz4 sid compression content =
     (let s = opened_segment sid compression content in
      map_option (\<lambda>s1. s1\<lparr>sg_reader := Some content\<rparr>)
        (if content = [] then Some s else recover_loop fuel unlz4 0 s))"

section \<open>What is stored reads back\<close>

text \<open>Of the metadata only the timestamp is stored.\<close>

definition plain :: "storage_entry \<Rightarrow> storage_entry" where
  "plain e = storage_entry_new (se_sequence e) (em_timestamp (se_metadata e)) (se_payload e)"

definition lz4_laws :: "(bytes \<Rightarrow> bytes) \<Rightarrow> (bytes \<Rightarrow> bytes option) \<Rightarrow> bool" where
  "lz4_laws lz4 unlz4 = (\<forall>x. unlz4 (lz4 x) = Some x \<and> lz4 x \<noteq> [])"

definition fits :: "(bytes \<Rightarrow> bytes) \<Rightarrow> storage_entry \<Rightarrow> bool" where
  "fits lz4 e = (length (lz4 (serialize_entry e)) < 2 ^ 32 \<and> 24 + length (se_payload e) < 2 ^ 64)"

lemma length_serialize_entry [simp]: "length (serialize_entry e) = 24 + length (se_payload e)"
  by (simp add: serialize_entry_def)

lemma header_plus_payload: "24 + n < 2 ^ 64 \<Longrightarrow> unat (24 + of_nat n :: u64) = 24 + n"
proof -
  assume "24 + n < 2 ^ 64"
  then have "unat (of_nat (24 + n) :: u64) = 24 + n" by (simp add: unat_of_nat take_bit_nat_eq_self del: of_nat_add)
  then show ?thesis by simp
qed

lemma deserialize_serialize:
  assumes "24 + length (se_payload e) < 2 ^ 64"
  shows "deserialize_entry (serialize_entry e) = Ok (plain e)"
proof -
  have "take 8 (serialize_entry e) = le_bytes 8 (se_sequence e)"
    "take 8 (drop 8 (serialize_entry e)) = le_bytes 8 (em_timestamp (se_metadata e))"
    "take 8 (drop 16 (serialize_entry e)) = le_bytes 8 (of_nat (length (se_payload e)) :: u64)"
    "drop 24 (serialize_entry e) = se_payload e"
    by (simp_all add: serialize_entry_def)
  moreover have "unat (24 + of_nat (length (se_payload e)) :: u64) = 24 + length (se_payload e)"
    using assms by (rule header_plus_payload)
  ultimately show ?thesis by (simp add: deserialize_entry_def plain_def Let_def)
qed

definition reads :: "bytes \<Rightarrow> reader \<Rightarrow> bool" where
  "reads content rd = (\<forall>what off len. off + len \<le> length content \<longrightarrow> rd what off len = Ok (take len (drop off content)))"

lemma reads_file [simp]: "reads content (file_read content)" "reads content (mapped_read content)"
  by (auto simp: reads_def file_read_def mapped_read_def)

lemma reads_part: "reads (pre @ part @ post) rd \<Longrightarrow> n = length part \<Longrightarrow> rd what (length pre) n = Ok part"
  unfolding reads_def by (auto dest!: spec[of _ what] spec[of _ "length pre"] spec[of _ n])

lemma read_frame_compressed:
  assumes laws: "lz4_laws lz4 unlz4" and len: "length (lz4 (serialize_entry e)) < 2 ^ 32"
    and content: "content = pre @ encode_frame lz4 True e @ post" and rd: "reads content rd"
  shows "read_frame unlz4 rd (length pre) = Ok (serialize_entry e, length (encode_frame lz4 True e))"
proof -
  let ?z = "lz4 (serialize_entry e)" and ?h = "le_bytes 4 (of_nat (length (lz4 (serialize_entry e))) :: u32)"
  have u: "unat (of_nat (length ?z) :: u32) = length ?z" using len by (simp add: unat_of_nat take_bit_nat_eq_self)
  have "content = pre @ ?h @ (?z @ post)" "content = (pre @ ?h) @ ?z @ post" using content by (simp_all add: encode_frame_def)
  then have "rd ''compression header'' (length pre) 4 = Ok ?h" "rd ''compressed data'' (length pre + 4) (length ?z) = Ok ?z"
    using reads_part[of pre ?h "?z @ post" rd 4] reads_part[of "pre @ ?h" ?z post rd "length ?z"] rd by simp_all
  moreover have "0 < length ?z" "unlz4 ?z = Some (serialize_entry e)" using laws by (simp_all add: lz4_laws_def)
  ultimately show ?thesis by (simp add: read_frame_def u Let_def encode_frame_def)
qed

lemma read_entry_compressed:
  assumes "lz4_laws lz4 unlz4" "fits lz4 e" "content = pre @ encode_frame lz4 True e @ post" "reads content rd"
  shows "read_entry_with unlz4 rd (length pre) = Ok (plain e)"
  using read_frame_compressed[OF assms(1) _ assms(3,4)] assms(2)
  by (simp add: read_entry_with_def fits_def deserialize_serialize)

text \<open>Uncompressed entries: the reader takes the upper half of the 64-bit length for the length.\<close>

lemma drop_bit_small: "n < 2 ^ 32 \<Longrightarrow> 32 \<le> k \<Longrightarrow> drop_bit k (of_nat n :: u64) = 0"
proof -
  assume n: "n < 2 ^ 32" and k: "32 \<le> k"
  have "(2 :: nat) ^ 32 \<le> 2 ^ k" using k by (rule power_increasing) simp
  then have "drop_bit k n = 0" using n by (simp add: drop_bit_eq_div)
  moreover have "unat (of_nat n :: u64) = n" using n by (simp add: unat_of_nat take_bit_nat_eq_self)
  ultimately have "unat (drop_bit k (of_nat n :: u64)) = 0" by (simp add: unat_drop_bit_eq)
  then show "drop_bit k (of_nat n :: u64) = 0" by (simp only: unat_0_iff)
qed

lemma le_bytes_high:
  assumes "n < 2 ^ 32"
  shows "drop 4 (le_bytes 8 (of_nat n :: u64)) = [0, 0, 0, 0]"
proof -
  have "le_bytes 8 (of_nat n :: u64) = map (\<lambda>i. ucast (drop_bit (8 * i) (of_nat n :: u64))) [0, 1, 2, 3, 4, 5, 6, 7]"
    by (simp add: le_bytes_def be_bytes_def upt_rec rev_map)
  then show ?thesis using drop_bit_small[OF assms] by simp
qed

lemma le_word_zeros: "le_word [0, 0, 0, 0] = (0 :: u32)"
  by (simp add: le_word_def be_word_def)

lemma uncompressed_entry_unreadable:
  assumes "se_payload e \<noteq> []" "length (se_payload e) < 2 ^ 32"
    and content: "content = pre @ encode_frame lz4 False e @ post" and rd: "reads content rd"
  shows "read_entry_with unlz4 rd (length pre) = Err (SegIo ''Insufficient data for payload'')"
proof -
  let ?n = "of_nat (length (se_payload e)) :: u64"
  let ?h = "le_bytes 8 (se_sequence e) @ le_bytes 8 (em_timestamp (se_metadata e)) @ le_bytes 8 ?n"
  let ?z = "le_bytes 4 (0 :: u32)"
  have ser: "serialize_entry e = ?h @ se_payload e" by (simp add: serialize_entry_def)
  have "content = pre @ ?z @ (?h @ se_payload e @ post)" "content = (pre @ ?z) @ ?h @ (se_payload e @ post)"
    "content = (pre @ ?z @ ?h) @ [] @ (se_payload e @ post)"
    using content by (simp_all add: encode_frame_def ser)
  then have r: "rd ''compression header'' (length pre) 4 = Ok ?z" "rd ''entry header'' (length pre + 4) 24 = Ok ?h"
    "rd ''payload'' (length pre + 4 + 24) 0 = Ok []"
    using reads_part[of pre ?z _ rd 4] reads_part[of "pre @ ?z" ?h _ rd 24] reads_part[of "pre @ ?z @ ?h" "[]" _ rd 0] rd
    by (simp_all add: add.assoc)
  have high: "take 4 (drop 20 ?h) = [0, 0, 0, 0]" using le_bytes_high[OF assms(2)] by simp
  have "read_frame unlz4 rd (length pre) = Ok (?h, 28)"
    using r by (simp add: read_frame_def Let_def high[simplified] le_word_zeros)
  moreover have "take 8 (drop 16 ?h) = le_bytes 8 ?n" by simp
  moreover have "unat (24 + ?n) = 24 + length (se_payload e)" using assms(2) by (intro header_plus_payload) simp
  ultimately show ?thesis using assms(1) by (simp add: read_entry_with_def deserialize_entry_def Let_def)
qed

section \<open>A compressed segment refines a map from sequence numbers to entries\<close>

definition located :: "(bytes \<Rightarrow> bytes) \<Rightarrow> bytes \<Rightarrow> u64 \<Rightarrow> index_entry \<Rightarrow> storage_entry \<Rightarrow> bool" where
  "located lz4 content sq ie e =
     (\<exists>pre post. content = pre @ encode_frame lz4 True e @ post \<and> unat (ie_offset ie) = length pre
        \<and> se_sequence e = sq \<and> fits lz4 e)"

definition segment_ok :: "(bytes \<Rightarrow> bytes) \<Rightarrow> storage_segment \<Rightarrow> bool" where
  "segment_ok lz4 s =
     ((\<forall>sq ie. hm_get (sg_sequence_index s) sq = Some ie \<longrightarrow> (\<exists>e. located lz4 (sg_content s) sq ie e))
      \<and> bt_ok (sg_sorted_index s) \<and> map_of (sg_sorted_index s) = hm_get (sg_sequence_index s)
      \<and> (sg_reader s = None \<or> sg_reader s = Some (sg_content s))
      \<and> length (sg_content s) < 2 ^ 64
      \<and> (\<not> sg_is_sealed s \<longrightarrow> sg_reader s = None \<and> (\<exists>w. sg_writer s = Some w \<and> \<not> wr_is_sealed w
            \<and> wr_enable_compression w \<and> unat (wr_write_position w) = length (sg_content s))))"

definition seg_view :: "(bytes \<Rightarrow> bytes option) \<Rightarrow> storage_segment \<Rightarrow> (u64 \<Rightarrow> storage_entry option) \<times> bool" where
  "seg_view unlz4 s =
     ((\<lambda>sq. case read_entry_by_sequence unlz4 sq s of Ok e \<Rightarrow> Some e | _ \<Rightarrow> None), sg_is_sealed s)"

lemma located_grow: "located lz4 content sq ie e \<Longrightarrow> located lz4 (content @ more_bytes) sq ie e"
  unfolding located_def by (metis append.assoc)

lemma read_located:
  assumes "lz4_laws lz4 unlz4" "segment_ok lz4 s" "located lz4 (sg_content s) sq ie e"
  shows "read_entry_at_offset unlz4 (ie_offset ie) s = Ok (plain e)"
proof -
  obtain pre post where c: "sg_content s = pre @ encode_frame lz4 True e @ post" "unat (ie_offset ie) = length pre" "fits lz4 e"
    using assms(3) by (auto simp: located_def)
  show ?thesis
    using read_entry_compressed[OF assms(1) c(3,1), of "file_read (sg_content s)"]
      read_entry_compressed[OF assms(1) c(3,1), of "mapped_read (sg_content s)"] assms(2) c(2)
    by (auto simp: read_entry_at_offset_def segment_ok_def)
qed

lemma read_by_sequence:
  assumes "lz4_laws lz4 unlz4" "segment_ok lz4 s"
  shows "hm_get (sg_sequence_index s) sq = None \<Longrightarrow> \<not> is_ok (read_entry_by_sequence unlz4 sq s)"
    "hm_get (sg_sequence_index s) sq = Some ie \<Longrightarrow> located lz4 (sg_content s) sq ie e \<Longrightarrow>
       read_entry_by_sequence unlz4 sq s = Ok (plain e)"
  using read_located[OF assms] by (auto simp: read_entry_by_sequence_def)

text \<open>Adding an index entry for a frame that is in the file.\<close>

lemma note_index_simps [simp]:
  "hm_get (sg_sequence_index (note_index ie s)) = (hm_get (sg_sequence_index s))(ie_sequence ie \<mapsto> ie)"
  "sg_content (note_index ie s) = sg_content s" "sg_reader (note_index ie s) = sg_reader s"
  "sg_writer (note_index ie s) = sg_writer s" "sg_is_sealed (note_index ie s) = sg_is_sealed s"
  "sg_sorted_index (note_index ie s) = bt_insert (ie_sequence ie) ie (sg_sorted_index s)"
  by (auto simp: note_index_def)

lemma read_at_cong:
  "sg_reader s' = sg_reader s \<Longrightarrow> sg_content s' = sg_content s \<Longrightarrow>
     read_entry_at_offset unlz4 off s' = read_entry_at_offset unlz4 off s"
  by (simp add: read_entry_at_offset_def cong: option.case_cong)

lemma seg_view_cong:
  assumes "sg_reader s' = sg_reader s" "sg_content s' = sg_content s" "sg_is_sealed s' = sg_is_sealed s"
    "hm_get (sg_sequence_index s') = hm_get (sg_sequence_index s)"
  shows "seg_view unlz4 s' = seg_view unlz4 s"
  unfolding seg_view_def read_entry_by_sequence_def assms(3,4) read_at_cong[OF assms(1,2)] ..

lemma segment_ok_cong:
  assumes "sg_reader s' = sg_reader s" "sg_content s' = sg_content s" "sg_is_sealed s' = sg_is_sealed s"
    "hm_get (sg_sequence_index s') = hm_get (sg_sequence_index s)" "sg_sorted_index s' = sg_sorted_index s"
    "sg_writer s' = sg_writer s"
  shows "segment_ok lz4 s' = segment_ok lz4 s"
  unfolding segment_ok_def assms ..

lemma note_index_ok:
  assumes "segment_ok lz4 s" "located lz4 (sg_content s) (ie_sequence ie) ie e"
  shows "segment_ok lz4 (note_index ie s)"
proof -
  have "map_of (bt_insert (ie_sequence ie) ie (sg_sorted_index s)) = (hm_get (sg_sequence_index s))(ie_sequence ie \<mapsto> ie)"
    using assms(1) bt_get_insert[of "sg_sorted_index s"] by (simp add: segment_ok_def)
  then show ?thesis using assms by (auto simp: segment_ok_def bt_ok_insert)
qed

lemma note_index_view:
  assumes "lz4_laws lz4 unlz4" "segment_ok lz4 s" "located lz4 (sg_content s) (ie_sequence ie) ie e"
  shows "seg_view unlz4 (note_index ie s) = ((fst (seg_view unlz4 s))(ie_sequence ie \<mapsto> plain e), sg_is_sealed s)"
proof -
  have "fst (seg_view unlz4 (note_index ie s)) sq = ((fst (seg_view unlz4 s))(ie_sequence ie \<mapsto> plain e)) sq" for sq
  proof (cases "sq = ie_sequence ie")
    case True
    then show ?thesis
      using read_by_sequence(2)[OF assms(1) note_index_ok[OF assms(2,3)], of sq ie e] assms(3) by (simp add: seg_view_def)
  next
    case False
    have "read_entry_at_offset unlz4 off (note_index ie s) = read_entry_at_offset unlz4 off s" for off
      by (rule read_at_cong) simp_all
    with False show ?thesis
      by (cases "hm_get (sg_sequence_index s) sq") (simp_all add: seg_view_def read_entry_by_sequence_def)
  qed
  then show ?thesis by (simp add: prod_eq_iff fun_eq_iff) (simp add: seg_view_def)
qed


lemma view_of_index:
  assumes "lz4_laws lz4 unlz4" "segment_ok lz4 s" "hm_get (sg_sequence_index s) sq = Some ie" "located lz4 (sg_content s) sq ie e"
  shows "fst (seg_view unlz4 s) sq = Some (plain e)"
  using read_by_sequence(2)[OF assms] by (simp add: seg_view_def)

lemma same_index_view:
  assumes "lz4_laws lz4 unlz4" "segment_ok lz4 s" "segment_ok lz4 s'"
    and index: "hm_get (sg_sequence_index s') = hm_get (sg_sequence_index s)"
    and content: "sg_content s' = sg_content s @ more_bytes"
  shows "fst (seg_view unlz4 s') = fst (seg_view unlz4 s)"
proof
  fix sq
  show "fst (seg_view unlz4 s') sq = fst (seg_view unlz4 s) sq"
  proof (cases "hm_get (sg_sequence_index s) sq")
    case None
    then show ?thesis by (simp add: seg_view_def read_entry_by_sequence_def index)
  next
    case (Some ie)
    then obtain e where e: "located lz4 (sg_content s) sq ie e" using assms(2) by (auto simp: segment_ok_def)
    then have e': "located lz4 (sg_content s') sq ie e" by (simp add: located_grow content)
    show ?thesis
      using view_of_index[OF assms(1,2) Some e] view_of_index[OF assms(1,3) _ e'] Some index by simp
  qed
qed


subsection \<open>Operations and their specification\<close>










lemma length_batch_results [simp]: "length (batch_results sid latency off ds) = length ds"
  by (induction ds arbitrary: off) simp_all














text \<open>
  with compression off a segment does not read back what it stored. The writer puts a 64-bit length
  at bytes 16 to 24 of the entry header; the reader takes bytes 20 to 24, its upper half, as the payload's
  length, which is 0 for every payload below \<open>2 ^ 32\<close> bytes. So every entry with a payload is stored without
  an error, and reading it fails.
\<close>

theorem uncompressed_append_unreadable:
  assumes "se_payload e \<noteq> []" "length (se_payload e) < 2 ^ 32" "length content < 2 ^ 64"
    and "segment_append_entry lz4 latency None e (segment_create_new sid False content) = (s, r)"
  shows "r = Ok (of_nat (length content))
     \<and> read_entry_by_sequence unlz4 (se_sequence e) s = Err (SegIo ''Insufficient data for payload'')"
proof -
  let ?f = "encode_frame lz4 False e"
  have s: "r = Ok (of_nat (length content))" "sg_content s = content @ ?f" "sg_reader s = None"
    "hm_get (sg_sequence_index s) (se_sequence e) = Some (index_of e (of_nat (length content)) (storage_entry_size e))"
    using assms(4) by (auto simp: segment_append_entry_def segment_create_new_def segment_writer_new_def writer_write_entry_def writer_commit_def
        append_file_def count_compressions_def Let_def note_index_def index_of_def)
  have "sg_content s = content @ ?f @ []" by (simp add: s(2))
  note uncompressed_entry_unreadable[OF assms(1,2) this reads_file(1)]
  moreover have "unat (of_nat (length content) :: u64) = length content"
    using assms(3) by (simp add: unat_of_nat take_bit_nat_eq_self)
  ultimately show ?thesis by (simp add: s(1,3,4) read_entry_by_sequence_def read_entry_at_offset_def index_of_def)
qed

theorem uncompressed_append_unreadable_witness:
  "snd (segment_append_entry (\<lambda>x. x) 5 None (storage_entry_new 1 9 [42]) (segment_create_new 3 False [])) = Ok 0
   \<and> read_entry_by_sequence Some 1 (fst (segment_append_entry (\<lambda>x. x) 5 None (storage_entry_new 1 9 [42]) (segment_create_new 3 False [])))
     = Err (SegIo ''Insufficient data for payload'')"
  using uncompressed_append_unreadable[of "storage_entry_new 1 9 [42]" "[]" "\<lambda>x. x" 5 3 _ _ Some, OF _ _ _ surjective_pairing]
  by (simp add: storage_entry_new_def)

text \<open>
  a failed append that reached the file in part makes the next one wrong. The writer's position does
  not move, but the file is open for appending, so the next frame lands behind the bytes of the failed
  one: the append succeeds and the offset it returns and indexes is short of the frame by their number.
\<close>

theorem partial_write_shifts:
  assumes "sg_writer s = Some w" "\<not> wr_is_sealed w" "\<not> sg_is_sealed s"
    and "segment_append_entry lz4 t1 (Some (k, msg)) e1 s = (s1, r1)" "segment_append_entry lz4 t2 None e2 s1 = (s2, r2)"
  shows "r1 = Err (SegIo msg) \<and> r2 = Ok (wr_write_position w)
     \<and> hm_get (sg_sequence_index s2) (se_sequence e2) = Some (index_of e2 (wr_write_position w) (storage_entry_size e2))
     \<and> sg_content s2 = sg_content s @ take k (encode_frame lz4 (wr_enable_compression w) e1)
         @ encode_frame lz4 (wr_enable_compression w) e2"
proof -
  note defs = segment_append_entry_def writer_write_entry_def writer_commit_def append_file_def Let_def
  have s1: "s1 = s\<lparr>sg_writer := Some (count_compressions 1 w),
      sg_content := sg_content s @ take k (encode_frame lz4 (wr_enable_compression w) e1)\<rparr>" "r1 = Err (SegIo msg)"
    using assms(1-4) by (auto simp: defs)
  then show ?thesis using assms(2,3,5) by (auto simp: defs index_of_def)
qed

theorem partial_write_shifts_witness:
  "\<exists>s1 s2. segment_append_entry (\<lambda>x. 7 # x) 5 (Some (2, ''disk full'')) (storage_entry_new 1 9 [42]) (segment_create_new 3 True [])
       = (s1, Err (SegIo ''disk full''))
     \<and> segment_append_entry (\<lambda>x. 7 # x) 5 None (storage_entry_new 2 9 [43]) s1 = (s2, Ok 0)
     \<and> take 2 (sg_content s2) = [26, 0]"
proof -
  let ?s = "segment_create_new 3 True []"
  obtain s1 r1 where 1: "segment_append_entry (\<lambda>x. 7 # x) 5 (Some (2, ''disk full'')) (storage_entry_new 1 9 [42]) ?s = (s1, r1)"
    by fastforce
  obtain s2 r2 where 2: "segment_append_entry (\<lambda>x. 7 # x) 5 None (storage_entry_new 2 9 [43]) s1 = (s2, r2)" by fastforce
  have "take 2 (encode_frame (\<lambda>x. 7 # x) True (storage_entry_new 1 9 [42])) = [26, 0]" by code_simp
  with partial_write_shifts[OF _ _ _ 1 2, of "segment_writer_new 3 True []"]
  have "r1 = Err (SegIo ''disk full'')" "r2 = Ok 0" "take 2 (sg_content s2) = [26, 0]"
    by (simp_all add: segment_create_new_def segment_writer_new_def)
  with 1 2 show ?thesis by blast
qed

text \<open>
  two writers that race get the same offset. If the second has read the position before the first has
  stored its new one, then both frames are in the file one behind the other, both calls return the offset
  of the first, and the writer's position ends short of the file's length by the first frame, so the
  offsets of all later writes are wrong as well.
\<close>

theorem racing_writes_share_offset:
  assumes "unat (wr_write_position w) = length content" "\<not> wr_is_sealed w"
    and one: "writer_commit lz4 t1 None e1 (wr_write_position w) w content = (w1, content1, r1)"
    and two: "writer_commit lz4 t2 None e2 (wr_write_position w) w1 content1 = (w2, content2, r2)"
  shows "\<exists>a b. r1 = Ok a \<and> r2 = Ok b \<and> wo_offset a = wo_offset b
     \<and> content2 = content @ encode_frame lz4 (wr_enable_compression w) e1 @ encode_frame lz4 (wr_enable_compression w) e2
     \<and> wr_write_position w2 = of_nat (length content2) - of_nat (length (encode_frame lz4 (wr_enable_compression w) e1))"
proof -
  have p: "wr_write_position w = of_nat (length content)" using assms(1) by (metis of_nat_unat ucast_id)
  have "wr_enable_compression w1 = wr_enable_compression w" "content1 = content @ encode_frame lz4 (wr_enable_compression w) e1"
      "\<exists>a. r1 = Ok a \<and> wo_offset a = wr_write_position w"
    using one by (auto simp: writer_commit_def append_file_def Let_def)
  with two p show ?thesis by (auto simp: writer_commit_def append_file_def Let_def)
qed

theorem racing_writes_share_offset_witness:
  "\<exists>w1 c1 a w2 c2 b. writer_commit (\<lambda>x. 7 # x) 5 None (storage_entry_new 1 9 [4]) 0 (segment_writer_new 3 True []) [] = (w1, c1, Ok a)
     \<and> writer_commit (\<lambda>x. 7 # x) 5 None (storage_entry_new 2 9 [4]) 0 w1 c1 = (w2, c2, Ok b)
     \<and> wo_offset a = wo_offset b \<and> length c2 = 60"
proof -
  let ?w = "segment_writer_new 3 True []"
  have w: "wr_write_position ?w = 0" "\<not> wr_is_sealed ?w" "wr_enable_compression ?w" by (simp_all add: segment_writer_new_def)
  obtain w1 c1 r1 where 1: "writer_commit (\<lambda>x. 7 # x) 5 None (storage_entry_new 1 9 [4]) 0 ?w [] = (w1, c1, r1)"
    by (cases "writer_commit (\<lambda>x. 7 # x) 5 None (storage_entry_new 1 9 [4]) 0 ?w []")
  obtain w2 c2 r2 where 2: "writer_commit (\<lambda>x. 7 # x) 5 None (storage_entry_new 2 9 [4]) 0 w1 c1 = (w2, c2, r2)"
    by (cases "writer_commit (\<lambda>x. 7 # x) 5 None (storage_entry_new 2 9 [4]) 0 w1 c1")
  from racing_writes_share_offset[of ?w "[]", unfolded w(1), OF _ w(2) 1 2]
  obtain a b where "r1 = Ok a" "r2 = Ok b" "wo_offset a = wo_offset b"
    "c2 = encode_frame (\<lambda>x. 7 # x) True (storage_entry_new 1 9 [4]) @ encode_frame (\<lambda>x. 7 # x) True (storage_entry_new 2 9 [4])"
    by (auto simp: w(3))
  with 1 2 show ?thesis by (auto simp: encode_frame_def storage_entry_new_def)
qed

section \<open>What the recovery finds\<close>

lemma plain_simps [simp]: "se_sequence (plain e) = se_sequence e" "se_payload (plain e) = se_payload e"
  "em_timestamp (se_metadata (plain e)) = em_timestamp (se_metadata e)"
  by (simp_all add: plain_def storage_entry_new_def)

lemma encode_frame_length: "4 \<le> length (encode_frame lz4 compression e)"
  by (simp add: encode_frame_def)

lemma encode_frame_nonempty: "encode_frame lz4 compression e \<noteq> []"
  using encode_frame_length[of lz4 compression e] by fastforce

lemma recovery_reads_frame:
  assumes "lz4_laws lz4 unlz4" "fits lz4 e" "is_ok (validate_entry e)" "content = pre @ encode_frame lz4 True e @ post"
  shows "recovery_read unlz4 content (length pre) = Ok (plain e, length (encode_frame lz4 True e))"
proof -
  have "validate_entry (plain e) = validate_entry e" by (simp add: validate_entry_def)
  then show ?thesis
    using read_frame_compressed[OF assms(1) _ assms(4), of "file_read content"] assms(2,3)
    by (simp add: recovery_read_def fits_def deserialize_serialize)
qed

definition recoverable :: "(bytes \<Rightarrow> bytes) \<Rightarrow> storage_entry list \<Rightarrow> bool" where
  "recoverable lz4 es = list_all (\<lambda>e. fits lz4 e \<and> is_ok (validate_entry e)) es"

fun note_frames :: "(bytes \<Rightarrow> bytes) \<Rightarrow> nat \<Rightarrow> storage_entry list \<Rightarrow> storage_segment \<Rightarrow> storage_segment" where
  "note_frames lz4 offset [] s = s"
| "note_frames lz4 offset (e # es) s =
     note_frames lz4 (offset + length (encode_frame lz4 True e)) es
       (note_recovered (plain e) offset (length (encode_frame lz4 True e)) s)"

lemma note_recovered_simps [simp]: "sg_content (note_recovered e offset n s) = sg_content s"
  "sg_is_sealed (note_recovered e offset n s) = sg_is_sealed s"
  by (simp_all add: note_recovered_def Let_def)

lemma recover_frames:
  assumes "lz4_laws lz4 unlz4"
  shows "recoverable lz4 es \<Longrightarrow> sg_content s = pre @ concat (map (encode_frame lz4 True) es) @ tail_bytes \<Longrightarrow>
     recover_loop (length es + fuel) unlz4 (length pre) s
     = recover_loop fuel unlz4 (length pre + length (concat (map (encode_frame lz4 True) es))) (note_frames lz4 (length pre) es s)"
proof (induction es arbitrary: pre s)
  case (Cons e es)
  let ?f = "encode_frame lz4 True e"
  have c: "sg_content s = pre @ ?f @ concat (map (encode_frame lz4 True) es) @ tail_bytes" using Cons.prems(2) by simp
  have r: "recovery_read unlz4 (sg_content s) (length pre) = Ok (plain e, length ?f)"
    using Cons.prems(1) by (intro recovery_reads_frame[OF assms _ _ c]) (simp_all add: recoverable_def)
  have "length pre < length (sg_content s)" unfolding c by (simp add: encode_frame_def)
  moreover have "recover_loop (length es + fuel) unlz4 (length (pre @ ?f)) (note_recovered (plain e) (length pre) (length ?f) s)
      = recover_loop fuel unlz4 (length (pre @ ?f) + length (concat (map (encode_frame lz4 True) es)))
          (note_frames lz4 (length (pre @ ?f)) es (note_recovered (plain e) (length pre) (length ?f) s))"
    using Cons.prems(1) by (intro Cons.IH) (simp_all add: recoverable_def c)
  ultimately show ?case using r by (simp add: add.assoc)
qed simp

lemma note_recovered_refines:
  assumes "lz4_laws lz4 unlz4" "segment_ok lz4 s" "sg_content s = pre @ encode_frame lz4 True e @ post" "fits lz4 e"
  shows "segment_ok lz4 (note_recovered (plain e) (length pre) n s)
     \<and> seg_view unlz4 (note_recovered (plain e) (length pre) n s) = ((fst (seg_view unlz4 s))(se_sequence e \<mapsto> plain e), sg_is_sealed s)"
proof -
  define ie where "ie = index_of (plain e) (of_nat (length pre)) n"
  have "length pre < 2 ^ 64" using assms(2,3) by (simp add: segment_ok_def)
  then have ie: "unat (ie_offset ie) = length pre" "ie_sequence ie = se_sequence e"
    by (simp_all add: ie_def index_of_def unat_of_nat take_bit_nat_eq_self)
  have l: "located lz4 (sg_content s) (ie_sequence ie) ie e"
    unfolding located_def using assms(3,4) ie by auto
  have "segment_ok lz4 (note_recovered (plain e) (length pre) n s) = segment_ok lz4 (note_index ie s)"
    "seg_view unlz4 (note_recovered (plain e) (length pre) n s) = seg_view unlz4 (note_index ie s)"
    unfolding note_recovered_def Let_def ie_def[symmetric] by (rule segment_ok_cong, simp_all, rule seg_view_cong, simp_all)
  then show ?thesis using note_index_ok[OF assms(2) l] note_index_view[OF assms(1,2) l] ie(2) by simp
qed

lemma note_frames_refines:
  assumes "lz4_laws lz4 unlz4"
  shows "recoverable lz4 es \<Longrightarrow> segment_ok lz4 s \<Longrightarrow> sg_content s = pre @ concat (map (encode_frame lz4 True) es) @ tail_bytes \<Longrightarrow>
     segment_ok lz4 (note_frames lz4 (length pre) es s) \<and> sg_content (note_frames lz4 (length pre) es s) = sg_content s
     \<and> seg_view unlz4 (note_frames lz4 (length pre) es s)
        = (fold (\<lambda>e m. m(se_sequence e \<mapsto> plain e)) es (fst (seg_view unlz4 s)), sg_is_sealed s)"
proof (induction es arbitrary: pre s)
  case Nil
  then show ?case by (simp add: seg_view_def)
next
  case (Cons e es)
  let ?f = "encode_frame lz4 True e"
  have c: "sg_content s = pre @ ?f @ concat (map (encode_frame lz4 True) es) @ tail_bytes" using Cons.prems(3) by simp
  have "fits lz4 e" using Cons.prems(1) by (simp add: recoverable_def)
  note one = note_recovered_refines[OF assms Cons.prems(2) c this, of "length ?f"]
  show ?case
    using Cons.IH[of "note_recovered (plain e) (length pre) (length ?f) s" "pre @ ?f"] Cons.prems(1) one c
    by (simp add: recoverable_def)
qed

lemma opened_ok:
  assumes "length content < 2 ^ 64"
  shows "segment_ok lz4 (opened_segment sid compression content)"
    "seg_view unlz4 (opened_segment sid compression content) = (Map.empty, True)"
  using assms by (simp_all add: opened_segment_def segment_ok_def bt_ok_def seg_view_def read_entry_by_sequence_def)

lemma opened_simps [simp]: "sg_content (opened_segment sid compression content) = content"
  "sg_is_sealed (opened_segment sid compression content)"
  by (simp_all add: opened_segment_def)

text \<open>
  C19: reopening a segment finds what was stored. If decompression undoes compression and every entry
  has a sequence number and a timestamp other than 0 and at most 100 MiB of payload, then recovery from
  the frames of any sequence of entries ends (within one round per frame and one more) with a sealed
  segment that reads, for every sequence number, the last entry stored under it.
\<close>

theorem recovery_rebuilds:
  assumes "lz4_laws lz4 unlz4" "recoverable lz4 es" "length (concat (map (encode_frame lz4 True) es)) < 2 ^ 64"
    and "length es < fuel"
  shows "\<exists>s. segment_open_existing fuel unlz4 sid compression (concat (map (encode_frame lz4 True) es)) = Some s
     \<and> seg_view unlz4 s = (fold (\<lambda>e m. m(se_sequence e \<mapsto> plain e)) es Map.empty, True)"
proof -
  let ?c = "concat (map (encode_frame lz4 True) es)"
  let ?s = "opened_segment sid compression ?c"
  let ?s1 = "note_frames lz4 0 es ?s"
  obtain k where k: "fuel = length es + Suc k" using assms(4) less_imp_Suc_add by auto
  have v: "segment_ok lz4 ?s1" "sg_content ?s1 = ?c"
      "seg_view unlz4 ?s1 = (fold (\<lambda>e m. m(se_sequence e \<mapsto> plain e)) es Map.empty, True)"
    using note_frames_refines[OF assms(1,2) opened_ok(1)[OF assms(3)], of sid compression "[]" "[]"]
      opened_ok(2)[OF assms(3), of unlz4 sid compression] by simp_all
  have "recover_loop fuel unlz4 0 ?s = Some ?s1"
    using recover_frames[OF assms(1,2), of ?s "[]" "[]" "Suc k"] v(2) by (simp add: k)
  then have "segment_open_existing fuel unlz4 sid compression ?c = Some (?s1\<lparr>sg_reader := Some ?c\<rparr>)"
    by (cases es) (simp_all add: segment_open_existing_def encode_frame_nonempty)
  moreover have ok2: "segment_ok lz4 (?s1\<lparr>sg_reader := Some ?c\<rparr>)"
    using v(1,2) arg_cong[OF v(3), of snd] by (auto simp: segment_ok_def seg_view_def)
  moreover have "fst (seg_view unlz4 (?s1\<lparr>sg_reader := Some ?c\<rparr>)) = fst (seg_view unlz4 ?s1)"
    by (rule same_index_view[OF assms(1) v(1) ok2, of "[]"]) simp_all
  ultimately show ?thesis using v(3) by (auto simp: prod_eq_iff) (simp add: seg_view_def)
qed

theorem recovery_rebuilds_witness:
  "\<exists>s. segment_open_existing 3 (\<lambda>x. Some (tl x)) 4 True
        (concat (map (encode_frame (\<lambda>x. 7 # x) True) [storage_entry_new 2 9 [1], storage_entry_new 2 8 [3]])) = Some s
     \<and> fst (seg_view (\<lambda>x. Some (tl x)) s) 2 = Some (storage_entry_new 2 8 [3])"
proof -
  let ?es = "[storage_entry_new 2 9 [1], storage_entry_new 2 8 [3]]"
  have "lz4_laws (\<lambda>x. 7 # x) (\<lambda>x. Some (tl x))" by (simp add: lz4_laws_def)
  moreover have "recoverable (\<lambda>x. 7 # x) ?es" by (simp add: recoverable_def fits_def validate_entry_def storage_entry_new_def)
  moreover have "length (concat (map (encode_frame (\<lambda>x. 7 # x) True) ?es)) < 2 ^ 64"
    by (simp add: encode_frame_def storage_entry_new_def)
  ultimately show ?thesis
    using recovery_rebuilds[of "\<lambda>x. 7 # x" "\<lambda>x. Some (tl x)" ?es 3 4 True]
    by (auto simp: plain_def storage_entry_new_def)
qed

subsection \<open>A torn tail\<close>

text \<open>
  Where the search for the next entry can be when it has found none: three bytes before the end of the
  range, where it stays, one or two, from which it goes back to three, or more.
\<close>

definition stalled :: "nat \<Rightarrow> nat \<Rightarrow> u64 \<Rightarrow> bool" where
  "stalled start scan_end cur =
     (unat cur + 3 = scan_end \<or> (start < unat cur \<and> unat cur + 4 \<le> scan_end)
      \<or> (1 \<le> unat cur \<and> unat cur + 2 = scan_end) \<or> (2 \<le> unat cur \<and> unat cur + 1 = scan_end))"

lemma unat_sub_small: "n \<le> unat (w :: u64) \<Longrightarrow> n < 2 ^ 64 \<Longrightarrow> unat (w - of_nat n) = unat w - n"
  by (simp add: unat_sub word_le_nat_alt unat_of_nat take_bit_nat_eq_self)

lemma stalled_step:
  assumes "stalled start scan_end cur" "scan_end < 2 ^ 64"
  shows "stalled start scan_end (cur + (of_nat (min SCAN_BUFFER_SIZE (scan_end - unat cur)) - 3))"
proof -
  let ?r = "min SCAN_BUFFER_SIZE (scan_end - unat cur)"
  consider "scan_end = unat cur + 3" | "start < unat cur" "unat cur + 4 \<le> scan_end"
    | "1 \<le> unat cur" "unat cur + 2 = scan_end" | "2 \<le> unat cur" "unat cur + 1 = scan_end"
    using assms(1) by (auto simp: stalled_def)
  then show ?thesis
  proof cases
    case 1
    then have "?r = 3" by (simp add: SCAN_BUFFER_SIZE_def)
    then have "cur + (of_nat ?r - 3) = cur" by simp
    with assms(1) show ?thesis by simp
  next
    case 2
    then have r: "4 \<le> ?r" "unat cur + ?r \<le> scan_end" "?r \<le> 4096" by (auto simp: SCAN_BUFFER_SIZE_def)
    have "cur + (of_nat ?r - 3) = cur + of_nat (?r - 3)" using r(1) by (simp add: of_nat_diff)
    then have u: "unat (cur + (of_nat ?r - 3)) = unat cur + (?r - 3)"
      using unat_add_of_nat[of cur "?r - 3"] r assms(2) by simp
    show ?thesis using 2 r unfolding stalled_def u by (auto simp: SCAN_BUFFER_SIZE_def min_def split: if_splits)
  next
    case 3
    then have r: "?r = 2" by (auto simp: SCAN_BUFFER_SIZE_def)
    then have "cur + (of_nat ?r - 3) = cur - of_nat 1" by simp
    then have "unat (cur + (of_nat ?r - 3)) = unat cur - 1" using unat_sub_small[of 1 cur] 3 by (simp only:) simp
    with 3 show ?thesis unfolding stalled_def by auto
  next
    case 4
    then have r: "?r = 1" by (auto simp: SCAN_BUFFER_SIZE_def)
    then have "cur + (of_nat ?r - 3) = cur - of_nat 2" by simp
    then have "unat (cur + (of_nat ?r - 3)) = unat cur - 2" using unat_sub_small[of 2 cur] 4 by (simp only:) simp
    with 4 show ?thesis unfolding stalled_def by auto
  qed
qed

lemma scan_ahead_stalls:
  assumes none: "\<forall>off > start. \<not> is_ok (recovery_read unlz4 content off)" and "scan_end < 2 ^ 64"
  shows "stalled start scan_end cur \<Longrightarrow> scan_ahead fuel unlz4 content scan_end cur = None"
proof (induction fuel arbitrary: cur)
  case (Suc fuel)
  let ?r = "min SCAN_BUFFER_SIZE (scan_end - unat cur)"
  have lt: "unat cur < scan_end" using Suc.prems by (auto simp: stalled_def)
  have "start < unat cur \<or> ?r \<le> 3" using Suc.prems by (auto simp: stalled_def)
  then have "\<not> is_ok (recovery_read unlz4 content off)"
    if "find (\<lambda>off. \<not> is_err (recovery_read unlz4 content off)) [unat cur..<unat cur + (?r - 3)] = Some off" for off
    using none that by (auto simp: find_Some_iff)
  then show ?case using Suc.IH[OF stalled_step[OF Suc.prems assms(2)]] lt by (auto simp: Let_def split: option.split)
qed simp

text \<open>
  C20: recovery of a file with a torn tail never returns. If the file is whole frames followed by three or
  more bytes at none of whose offsets an entry can be read (two or more behind at least one frame), then
  with no amount of fuel does opening the segment give a result: the search for the next entry advances
  by the bytes left less three, so it stands still three bytes before the end (unless reading one of these offsets
  panics, which ends it without a result too). Without a torn tail it
  ends (the property above).
\<close>

theorem recovery_of_torn_tail_never_returns:
  assumes "lz4_laws lz4 unlz4" "recoverable lz4 es"
    and content: "content = concat (map (encode_frame lz4 True) es) @ torn"
    and torn: "3 \<le> length torn \<or> es \<noteq> [] \<and> 2 \<le> length torn"
    and none: "\<forall>off \<ge> length (concat (map (encode_frame lz4 True) es)). \<not> is_ok (recovery_read unlz4 content off)"
    and "length content < 2 ^ 63"
  shows "segment_open_existing fuel unlz4 sid compression content = None"
proof -
  let ?n = "length (concat (map (encode_frame lz4 True) es))"
  let ?hi = "min (?n + MAX_SCAN_DISTANCE) (length content)"
  let ?s = "opened_segment sid compression content"
  have n: "es \<noteq> [] \<Longrightarrow> 1 \<le> ?n" by (cases es) (simp_all add: Suc_le_eq encode_frame_nonempty)
  have len: "length content = ?n + length torn" by (simp add: content)
  have u: "unat (of_nat (?n + 1) :: u64) = ?n + 1" using assms(6) len torn by (simp add: unat_of_nat take_bit_nat_eq_self del: of_nat_Suc)
  have "stalled ?n ?hi (of_nat (?n + 1))"
    unfolding stalled_def u using torn n len by (auto simp: MAX_SCAN_DISTANCE_def min_def)
  then have scan: "find_next_valid_entry k unlz4 content ?n = None" for k
    using scan_ahead_stalls[of ?n unlz4 content ?hi "of_nat (?n + 1)" k] none assms(6) by (simp add: find_next_valid_entry_def)
  have loop: "recover_loop k unlz4 ?n (note_frames lz4 0 es ?s) = None" for k
  proof (cases k)
    case (Suc j)
    have c: "sg_content (note_frames lz4 0 es ?s) = content"
      using note_frames_refines[OF assms(1,2) opened_ok(1), of content sid compression "[]" torn] assms(6) content by simp
    have "\<not> is_ok (recovery_read unlz4 content ?n)" using none by blast
    then show ?thesis using scan[of j] len torn
      by (cases "recovery_read unlz4 content ?n") (auto simp: Suc c)
  qed simp
  have "recover_loop fuel unlz4 0 ?s = None"
  proof (cases "length es \<le> fuel")
    case True
    then show ?thesis
      using recover_frames[OF assms(1,2), of ?s "[]" torn "fuel - length es"] loop by (simp add: content)
  next
    case False
    have "content = [] @ concat (map (encode_frame lz4 True) (take fuel es))
        @ concat (map (encode_frame lz4 True) (drop fuel es)) @ torn"
      unfolding content by (metis append.assoc append_Nil append_take_drop_id concat_append map_append)
    moreover have "recoverable lz4 (take fuel es)" using assms(2) by (auto simp: recoverable_def list_all_iff dest: in_set_takeD)
    ultimately show ?thesis
      using recover_frames[OF assms(1), of "take fuel es" ?s "[]" _ 0] False by (simp add: min_def)
  qed
  moreover have "content \<noteq> []" using torn by (auto simp: content)
  ultimately show ?thesis by (simp add: segment_open_existing_def)
qed

theorem recovery_of_torn_tail_never_returns_witness:
  "\<forall>fuel. segment_open_existing fuel (\<lambda>x. Some (tl x)) 4 True
      (encode_frame (\<lambda>x. 7 # x) True (storage_entry_new 2 9 [1]) @ [26, 0]) = None"
proof
  fix fuel
  let ?c = "encode_frame (\<lambda>x. 7 # x) True (storage_entry_new 2 9 [1]) @ [26, 0]"
  have len: "length (encode_frame (\<lambda>x. 7 # x) True (storage_entry_new 2 9 [1])) = 30"
    by (simp add: encode_frame_def storage_entry_new_def)
  have none: "\<forall>off \<ge> 30. \<not> is_ok (recovery_read (\<lambda>x. Some (tl x)) ?c off)"
    by (simp add: recovery_read_def read_frame_def file_read_def len)
  show "segment_open_existing fuel (\<lambda>x. Some (tl x)) 4 True ?c = None"
    by (rule recovery_of_torn_tail_never_returns[of "\<lambda>x. 7 # x" _ "[storage_entry_new 2 9 [1]]" _ "[26, 0]"])
      (use none len in \<open>simp_all add: lz4_laws_def recoverable_def fits_def validate_entry_def storage_entry_new_def\<close>)
qed

end
