(* ===== verification/Segment_Storage.thy ===== *)
theory Segment_Storage
  imports Segments
begin

text \<open>
  The manager of the segments, \<^verbatim>\<open>src/kaelix-storage/src/segments/mod.rs\<close>: its configuration and its
  operations, composed from the writer and the segments of \<open>Segments\<close>. The files are the contents of the
  writer's file and of each active segment; the content a new segment's file already has, the faults of the
  file system and the measured times are arguments. The averages of the statistics divide 64-bit
  words, and their products wrap.
\<close>

section \<open>Configuration\<close>

datatype segments_error =
    SsIo string | SsSerialization string | SsCorruption string | SsSegmentNotFound u64
  | SsEntryNotFound string | SsConfiguration string | SsResourceExhausted string

record 'f segment_config =
  sc_max_segment_size :: u64
  sc_max_entries_per_segment :: u64
  sc_enable_compression :: bool
  sc_compression_level :: u8
  sc_write_buffer_size :: usize
  sc_sync_on_write :: bool
  sc_sync_interval_ms :: u64
  sc_max_concurrent_readers :: usize
  sc_enable_compaction :: bool
  sc_compaction_threshold :: 'f

definition segment_config_default :: "'f float_ops \<Rightarrow> 'f segment_config" where
  "segment_config_default fl =
     \<lparr>sc_max_segment_size = 64 * 1024 * 1024, sc_max_entries_per_segment = 100000, sc_enable_compression = True,
      sc_compression_level = 6, sc_write_buffer_size = 64 * 1024, sc_sync_on_write = False,
      sc_sync_interval_ms = 1000, sc_max_concurrent_readers = 16, sc_enable_compaction = True,
      sc_compaction_threshold = fl_tenths fl 3\<rparr>"

definition segment_config_validate :: "'f float_ops \<Rightarrow> 'f segment_config \<Rightarrow> (unit, segments_error) result" where
  "segment_config_validate fl c =
     (if sc_max_segment_size c = 0 then Err (SsConfiguration ''max_segment_size must be greater than 0'')
      else if sc_max_entries_per_segment c = 0
        then Err (SsConfiguration ''max_entries_per_segment must be greater than 0'')
      else if 9 < sc_compression_level c then Err (SsConfiguration ''compression_level must be between 0 and 9'')
      else if sc_write_buffer_size c = 0 then Err (SsConfiguration ''write_buffer_size must be greater than 0'')
      else if sc_max_concurrent_readers c = 0
        then Err (SsConfiguration ''max_concurrent_readers must be greater than 0'')
      else if \<not> (fl_le fl (fl_tenths fl 0) (sc_compaction_threshold c) \<and> fl_le fl (sc_compaction_threshold c) (fl_tenths fl 10))
        then Err (SsConfiguration ''compaction_threshold must be between 0.0 and 1.0'')
      else Ok ())"

section \<open>The manager\<close>

record segment_stats =
  st_total_segments :: u64
  st_entries_written :: u64
  st_entries_read :: u64
  st_bytes_written :: u64
  st_active_segments :: u64
  st_avg_write_latency_us :: u64
  st_avg_read_latency_us :: u64
  st_compactions_completed :: u64
  st_last_compaction :: "u64 option"

record 'f segment_storage =
  ss_config :: "'f segment_config"
  ss_active_segments :: "(u64, storage_segment) hash_map"
  ss_writer :: segment_writer
  ss_writer_file :: bytes
  ss_stats :: segment_stats
  ss_next_segment_id :: u64
  ss_is_shutdown :: bool

definition segment_stats_default :: segment_stats where
  "segment_stats_default =
     \<lparr>st_total_segments = 0, st_entries_written = 0, st_entries_read = 0, st_bytes_written = 0, st_active_segments = 0,
      st_avg_write_latency_us = 0, st_avg_read_latency_us = 0, st_compactions_completed = 0, st_last_compaction = None\<rparr>"

definition segment_storage_new :: "'f float_ops \<Rightarrow> bytes \<Rightarrow> 'f segment_config \<Rightarrow> ('f segment_storage, segments_error) result" where
  "segment_storage_new fl content c =
     and_then (segment_config_validate fl c) (\<lambda>u.
       Ok \<lparr>ss_config = c, ss_active_segments = [], ss_writer = segment_writer_new 0 (sc_enable_compression c) content,
           ss_writer_file = content, ss_stats = segment_stats_default, ss_next_segment_id = 1, ss_is_shutdown = False\<rparr>)"

definition shutting_down :: segments_error where
  "shutting_down = SsConfiguration ''Storage is shutting down''"

text \<open>The conversion of a segment's error; \<open>shown\<close> is the text of the errors other than \<open>Io\<close>.\<close>

fun convert_error :: "(segment_error \<Rightarrow> string) \<Rightarrow> string \<Rightarrow> segment_error \<Rightarrow> segments_error" where
  "convert_error shown what (SegIo msg) = SsIo msg"
| "convert_error shown what x = SsIo (what @ shown x)"

definition count_write :: "u64 \<Rightarrow> storage_entry \<Rightarrow> segment_stats \<Rightarrow> segment_stats" where
  "count_write latency_us e st =
     (let n = st_entries_written st + 1 in
      st\<lparr>st_entries_written := n, st_bytes_written := st_bytes_written st + of_nat (storage_entry_size e),
         st_avg_write_latency_us :=
           (if 0 < n then (st_avg_write_latency_us st * (n - 1) + latency_us) div n else st_avg_write_latency_us st)\<rparr>)"

definition storage_write_entry ::
    "(segment_error \<Rightarrow> string) \<Rightarrow> (bytes \<Rightarrow> bytes) \<Rightarrow> u64 \<Rightarrow> u64 \<Rightarrow> io_fault \<Rightarrow> storage_entry \<Rightarrow> 'f segment_storage
      \<Rightarrow> 'f segment_storage \<times> (u64, segments_error) result" where
  "storage_write_entry shown lz4 latency latency_us fault e s =
     (if ss_is_shutdown s then (s, Err shutting_down)
      else case writer_write_entry lz4 latency fault e (ss_writer s) (ss_writer_file s) of
        (w, content, Ok res) \<Rightarrow>
          (s\<lparr>ss_writer := w, ss_writer_file := content, ss_stats := count_write latency_us e (ss_stats s)\<rparr>, Ok (wr_segment_id w))
      | (w, content, Err x) \<Rightarrow>
          (s\<lparr>ss_writer := w, ss_writer_file := content\<rparr>, Err (convert_error shown ''Writer error: '' x))
      | (w, content, Panic) \<Rightarrow> (s\<lparr>ss_writer := w, ss_writer_file := content\<rparr>, Panic))"

definition storage_read_entries :: "u64 \<Rightarrow> u64 \<Rightarrow> u64 \<Rightarrow> nat \<Rightarrow> 'f segment_storage
    \<Rightarrow> 'f segment_storage \<times> (storage_entry list, segments_error) result" where
  "storage_read_entries latency_us sid offset limit s =
     (if ss_is_shutdown s then (s, Err shutting_down)
      else
        let st = ss_stats s; entries = [] :: storage_entry list; n = st_entries_read st + of_nat (length entries) in
        (s\<lparr>ss_stats := st\<lparr>st_entries_read := n,
             st_avg_read_latency_us :=
               (if 0 < n then (st_avg_read_latency_us st * (n - of_nat (length entries)) + latency_us) div n
                else st_avg_read_latency_us st)\<rparr>\<rparr>,
         Ok entries))"

definition list_segments :: "'f segment_storage \<Rightarrow> (u64 list, segments_error) result" where
  "list_segments s = Ok []"

definition create_segment :: "bytes \<Rightarrow> string option \<Rightarrow> 'f segment_storage \<Rightarrow> 'f segment_storage \<times> (u64, segments_error) result" where
  "create_segment content failure s =
     (let sid = ss_next_segment_id s; s1 = s\<lparr>ss_next_segment_id := sid + 1\<rparr> in
      case failure of
        Some msg \<Rightarrow> (s1, Err (SsIo msg))
      | None \<Rightarrow>
          let active = hm_insert sid (segment_create_new sid (sc_enable_compression (ss_config s)) content) (ss_active_segments s) in
          (s1\<lparr>ss_active_segments := active,
              ss_stats := (ss_stats s)\<lparr>st_total_segments := st_total_segments (ss_stats s) + 1,
                st_active_segments := of_nat (length active)\<rparr>\<rparr>, Ok sid))"

definition compact_segments :: "u64 \<Rightarrow> 'f segment_storage \<Rightarrow> 'f segment_storage \<times> (u64, segments_error) result" where
  "compact_segments now s =
     (if ss_is_shutdown s then (s, Err shutting_down)
      else (s\<lparr>ss_stats := (ss_stats s)\<lparr>st_compactions_completed := st_compactions_completed (ss_stats s) + 1,
              st_last_compaction := Some now\<rparr>\<rparr>, Ok 0))"

definition storage_shutdown :: "string option \<Rightarrow> 'f segment_storage \<Rightarrow> 'f segment_storage \<times> (unit, segments_error) result" where
  "storage_shutdown failure s =
     (let s1 = s\<lparr>ss_is_shutdown := True\<rparr> in
      case failure of
        Some msg \<Rightarrow> (s1, Err (SsIo (''Flush error: '' @ msg)))
      | None \<Rightarrow> (s1\<lparr>ss_active_segments := []\<rparr>, Ok ()))"


section \<open>One file for everything\<close>

fun storage_write_all :: "(segment_error \<Rightarrow> string) \<Rightarrow> (bytes \<Rightarrow> bytes) \<Rightarrow> (u64 \<times> u64 \<times> storage_entry) list \<Rightarrow> 'f segment_storage
    \<Rightarrow> 'f segment_storage \<times> (u64, segments_error) result list" where
  "storage_write_all shown lz4 [] s = (s, [])"
| "storage_write_all shown lz4 ((t, us, e) # es) s =
     (let (s1, r) = storage_write_entry shown lz4 t us None e s; (s2, rs) = storage_write_all shown lz4 es s1 in (s2, r # rs))"

lemma storage_write_open:
  assumes "\<not> ss_is_shutdown s" "\<not> wr_is_sealed (ss_writer s)"
  shows "\<exists>s'. storage_write_entry shown lz4 t us None e s = (s', Ok (wr_segment_id (ss_writer s)))
     \<and> \<not> ss_is_shutdown s' \<and> \<not> wr_is_sealed (ss_writer s') \<and> wr_segment_id (ss_writer s') = wr_segment_id (ss_writer s)
     \<and> wr_enable_compression (ss_writer s') = wr_enable_compression (ss_writer s)
     \<and> ss_writer_file s' = ss_writer_file s @ encode_frame lz4 (wr_enable_compression (ss_writer s)) e
     \<and> st_entries_written (ss_stats s') = st_entries_written (ss_stats s) + 1
     \<and> ss_active_segments s' = ss_active_segments s \<and> ss_next_segment_id s' = ss_next_segment_id s"
  using assms
  by (simp add: storage_write_entry_def writer_write_entry_def writer_commit_def append_file_def Let_def count_write_def)
    (simp add: count_compressions_def)

lemma write_all_open:
  "\<not> ss_is_shutdown s \<Longrightarrow> \<not> wr_is_sealed (ss_writer s) \<Longrightarrow> storage_write_all shown lz4 es s = (s', rs) \<Longrightarrow>
     rs = map (\<lambda>_. Ok (wr_segment_id (ss_writer s))) es \<and> \<not> ss_is_shutdown s'
     \<and> ss_writer_file s' = ss_writer_file s @ concat (map (\<lambda>(t, us, e). encode_frame lz4 (wr_enable_compression (ss_writer s)) e) es)
     \<and> st_entries_written (ss_stats s') = st_entries_written (ss_stats s) + of_nat (length es)
     \<and> ss_active_segments s' = ss_active_segments s \<and> ss_next_segment_id s' = ss_next_segment_id s"
proof (induction es arbitrary: s rs)
  case (Cons x es)
  obtain t us e where x: "x = (t, us, e)" by (cases x)
  obtain s1 where one: "storage_write_entry shown lz4 t us None e s = (s1, Ok (wr_segment_id (ss_writer s)))"
    and s1: "\<not> ss_is_shutdown s1" "\<not> wr_is_sealed (ss_writer s1)" "wr_segment_id (ss_writer s1) = wr_segment_id (ss_writer s)"
     "wr_enable_compression (ss_writer s1) = wr_enable_compression (ss_writer s)"
     "ss_writer_file s1 = ss_writer_file s @ encode_frame lz4 (wr_enable_compression (ss_writer s)) e"
     "st_entries_written (ss_stats s1) = st_entries_written (ss_stats s) + 1"
     "ss_active_segments s1 = ss_active_segments s" "ss_next_segment_id s1 = ss_next_segment_id s"
    using storage_write_open[OF Cons.prems(1,2)] by blast
  obtain rs1 where rest: "storage_write_all shown lz4 es s1 = (s', rs1)" "rs = Ok (wr_segment_id (ss_writer s)) # rs1"
    using Cons.prems(3) one by (auto simp: x split: prod.splits)
  from Cons.IH[OF s1(1,2) rest(1)] s1(3-) rest(2) show ?case by (simp add: x)
qed simp

text \<open>
  the manager writes everything to one file and reads nothing back. From a new manager, whatever its
  limits on the size of a segment and the entries of one, any sequence of writes succeeds, each returns segment 0,
  all frames are in that segment's file one behind the other, no segment is created, and reading any
  segment from any offset afterwards returns no entry.
\<close>

theorem storage_never_rotates:
  assumes "segment_storage_new fl content c = Ok s0" "storage_write_all shown lz4 es s0 = (s, rs)"
  shows "rs = map (\<lambda>_. Ok 0) es
     \<and> ss_writer_file s = content @ concat (map (\<lambda>(t, us, e). encode_frame lz4 (sc_enable_compression c) e) es)
     \<and> st_entries_written (ss_stats s) = of_nat (length es) \<and> ss_active_segments s = []
     \<and> snd (storage_read_entries us sid offset limit s) = Ok []"
proof -
  have "segment_config_validate fl c = Ok ()"
    using assms(1) by (cases "segment_config_validate fl c") (simp_all add: segment_storage_new_def)
  then have s0: "s0 = \<lparr>ss_config = c, ss_active_segments = [], ss_writer = segment_writer_new 0 (sc_enable_compression c) content,
      ss_writer_file = content, ss_stats = segment_stats_default, ss_next_segment_id = 1, ss_is_shutdown = False\<rparr>"
    using assms(1) by (simp add: segment_storage_new_def)
  then have "\<not> ss_is_shutdown s0" "\<not> wr_is_sealed (ss_writer s0)" by (simp_all add: segment_writer_new_def)
  from write_all_open[OF this assms(2)] show ?thesis
    by (simp add: s0 segment_writer_new_def segment_stats_default_def storage_read_entries_def Let_def)
qed

theorem storage_never_rotates_witness:
  "\<exists>s0 s rs. segment_storage_new sample_floats [] ((segment_config_default sample_floats)\<lparr>sc_max_entries_per_segment := 1\<rparr>) = Ok s0
     \<and> storage_write_all (\<lambda>x. []) (\<lambda>x. 7 # x) [(1, 1, storage_entry_new 1 9 [4]), (1, 1, storage_entry_new 2 9 [5])] s0 = (s, rs)
     \<and> rs = [Ok 0, Ok 0] \<and> snd (storage_read_entries 1 0 0 10 s) = Ok []"
proof -
  let ?c = "(segment_config_default sample_floats)\<lparr>sc_max_entries_per_segment := 1\<rparr>"
  let ?es = "[(1, 1, storage_entry_new 1 9 [4]), (1, 1, storage_entry_new 2 9 [5])]"
  obtain s0 where s0: "segment_storage_new sample_floats [] ?c = Ok s0"
    by (simp add: segment_storage_new_def segment_config_validate_def segment_config_default_def sample_floats_def)
  obtain s rs where w: "storage_write_all (\<lambda>x. []) (\<lambda>x. 7 # x) ?es s0 = (s, rs)"
    by (cases "storage_write_all (\<lambda>x. []) (\<lambda>x. 7 # x) ?es s0")
  with storage_never_rotates[OF s0 w, of 1 0 0 10] s0 show ?thesis by auto
qed

text \<open>Every default is accepted, and every accepted configuration has positive limits.\<close>

lemma segment_config_default_valid:
  "fl_le fl (fl_tenths fl 0) (fl_tenths fl 3) \<Longrightarrow> fl_le fl (fl_tenths fl 3) (fl_tenths fl 10) \<Longrightarrow>
     segment_config_validate fl (segment_config_default fl) = Ok ()"
  by (simp add: segment_config_validate_def segment_config_default_def)

lemma segment_config_validate_Ok:
  "segment_config_validate fl c = Ok () \<longleftrightarrow>
     sc_max_segment_size c \<noteq> 0 \<and> sc_max_entries_per_segment c \<noteq> 0 \<and> sc_compression_level c \<le> 9
     \<and> 0 < sc_write_buffer_size c \<and> 0 < sc_max_concurrent_readers c
     \<and> fl_le fl (fl_tenths fl 0) (sc_compaction_threshold c) \<and> fl_le fl (sc_compaction_threshold c) (fl_tenths fl 10)"
  by (auto simp: segment_config_validate_def not_less)

end
