(* ===== verification/Transactions.thy ===== *)
theory Transactions
  imports Clocks
begin

text \<open>
  Transactions, \<^verbatim>\<open>src/kaelix-storage/src/transactions.rs\<close>: a transaction's life cycle and the manager that
  hands them out. The system clock is an argument. The manager keeps no transaction, so the system of the
  last section is the manager with the transactions its callers hold.
\<close>

section \<open>A transaction\<close>

datatype isolation_level = ReadUncommitted | ReadCommitted | RepeatableRead | Serializable

record transaction_config =
  tc_log_dir :: string
  tc_max_duration :: nat
  tc_distributed_mode :: bool
  tc_isolation_level :: isolation_level

definition transaction_config_default :: transaction_config where
  "transaction_config_default =
     \<lparr>tc_log_dir = ''./transaction_log'', tc_max_duration = 30000000000, tc_distributed_mode = False,
      tc_isolation_level = ReadCommitted\<rparr>"

definition transaction_config_validate :: "transaction_config \<Rightarrow> (unit, string) result" where
  "transaction_config_validate c =
     (if tc_max_duration c = 0 then Err ''max_duration must be greater than zero''
      else if tc_log_dir c = [] then Err ''log_dir cannot be empty''
      else Ok ())"

datatype transaction_error =
    TxNotFound u64 | AlreadyCommitted u64 | AlreadyAborted u64 | TxTimeout u64 | Deadlock u64
  | TxIo string | TxSerialization string

datatype transaction_state = Active | Preparing | Committed | Aborted

record transaction =
  tx_id :: u64
  tx_state :: transaction_state
  tx_start_time :: nat
  tx_config :: transaction_config

definition transaction_new :: "u64 \<Rightarrow> transaction_config \<Rightarrow> nat \<Rightarrow> transaction" where
  "transaction_new i c now = \<lparr>tx_id = i, tx_state = Active, tx_start_time = now, tx_config = c\<rparr>"

definition tx_commit :: "transaction \<Rightarrow> transaction \<times> (unit, transaction_error) result" where
  "tx_commit t =
     (case tx_state t of
        Active \<Rightarrow> (t\<lparr>tx_state := Committed\<rparr>, Ok ())
      | Committed \<Rightarrow> (t, Err (AlreadyCommitted (tx_id t)))
      | Aborted \<Rightarrow> (t, Err (AlreadyAborted (tx_id t)))
      | Preparing \<Rightarrow> (t\<lparr>tx_state := Committed\<rparr>, Ok ()))"

definition tx_abort :: "transaction \<Rightarrow> transaction \<times> (unit, transaction_error) result" where
  "tx_abort t =
     (case tx_state t of
        Committed \<Rightarrow> (t, Err (AlreadyCommitted (tx_id t)))
      | Aborted \<Rightarrow> (t, Err (AlreadyAborted (tx_id t)))
      | _ \<Rightarrow> (t\<lparr>tx_state := Aborted\<rparr>, Ok ()))"

definition tx_age :: "nat \<Rightarrow> transaction \<Rightarrow> nat" where
  "tx_age now t = now - tx_start_time t"

definition is_timed_out :: "nat \<Rightarrow> transaction \<Rightarrow> bool" where
  "is_timed_out now t = (tc_max_duration (tx_config t) < tx_age now t)"

section \<open>The manager\<close>

record transaction_stats =
  ts_started :: u64
  ts_committed :: u64
  ts_aborted :: u64
  ts_active :: u64
  ts_timeouts :: u64
  ts_deadlocks :: u64

record transaction_manager =
  tm_config :: transaction_config
  tm_next_id :: u64
  tm_stats :: transaction_stats

definition transaction_manager_new :: "string option \<Rightarrow> transaction_config \<Rightarrow> (transaction_manager, transaction_error) result" where
  "transaction_manager_new failure c =
     (case failure of
        Some msg \<Rightarrow> Err (TxIo (''Failed to create transaction log directory: '' @ msg))
      | None \<Rightarrow> Ok \<lparr>tm_config = c, tm_next_id = 1,
          tm_stats = \<lparr>ts_started = 0, ts_committed = 0, ts_aborted = 0, ts_active = 0, ts_timeouts = 0, ts_deadlocks = 0\<rparr>\<rparr>)"

definition begin_transaction :: "nat \<Rightarrow> transaction_manager \<Rightarrow> transaction_manager \<times> transaction" where
  "begin_transaction now m =
     (m\<lparr>tm_next_id := tm_next_id m + 1,
        tm_stats := (tm_stats m)\<lparr>ts_started := ts_started (tm_stats m) + 1, ts_active := ts_active (tm_stats m) + 1\<rparr>\<rparr>,
      transaction_new (tm_next_id m) (tm_config m) now)"

definition tm_shutdown :: "transaction_manager \<Rightarrow> transaction_manager \<times> (unit, transaction_error) result" where
  "tm_shutdown m = (m, Ok ())"

section \<open>A transaction is decided once\<close>

datatype tx_op = Commit | Abort

definition tx_step :: "tx_op \<Rightarrow> transaction \<Rightarrow> transaction \<times> (unit, transaction_error) result" where
  "tx_step x t = (case x of Commit \<Rightarrow> tx_commit t | Abort \<Rightarrow> tx_abort t)"

text \<open>The specification: the first call decides, every later one is told the decision.\<close>

definition tx_spec :: "u64 \<Rightarrow> tx_op \<Rightarrow> tx_op option \<Rightarrow> tx_op option \<times> (unit, transaction_error) result" where
  "tx_spec i x decision =
     (case decision of
        None \<Rightarrow> (Some x, Ok ())
      | Some Commit \<Rightarrow> (decision, Err (AlreadyCommitted i))
      | Some Abort \<Rightarrow> (decision, Err (AlreadyAborted i)))"

definition tx_decision :: "transaction \<Rightarrow> tx_op option" where
  "tx_decision t = (case tx_state t of Committed \<Rightarrow> Some Commit | Aborted \<Rightarrow> Some Abort | _ \<Rightarrow> None)"

interpretation tx: functional_refinement "\<lambda>t. tx_id t = i" "\<lambda>x t. True" tx_decision tx_step "tx_spec i" for i
  by unfold_locales
    (auto simp: tx_step_def tx_spec_def tx_decision_def tx_commit_def tx_abort_def split: tx_op.splits transaction_state.splits)

lemma spec_decided: "run_ops (tx_spec i) xs (Some d) = (Some d, rs) \<Longrightarrow>
    rs = replicate (length xs) (Err (case d of Commit \<Rightarrow> AlreadyCommitted i | Abort \<Rightarrow> AlreadyAborted i))"
  by (induction xs arbitrary: rs) (auto simp: tx_spec_def split: tx_op.splits prod.splits)

lemma spec_decided_state: "fst (run_ops (tx_spec i) xs (Some d)) = Some d"
  by (induction xs) (auto simp: tx_spec_def split: tx_op.splits prod.splits)

lemma decided_unchanged: "tx_decision t \<noteq> None \<Longrightarrow> fst (run_ops tx_step xs t) = t"
proof (induction xs)
  case (Cons x xs)
  then have "fst (tx_step x t) = t"
    by (auto simp: tx_step_def tx_decision_def tx_commit_def tx_abort_def split: tx_op.splits transaction_state.splits)
  with Cons show ?case by (auto simp: split_beta)
qed simp

lemma first_call_decides: "tx_decision t = None \<Longrightarrow>
    fst (tx_step x t) = t\<lparr>tx_state := (case x of Commit \<Rightarrow> Committed | Abort \<Rightarrow> Aborted)\<rparr>"
  by (auto simp: tx_step_def tx_decision_def tx_commit_def tx_abort_def split: tx_op.splits transaction_state.splits)

text \<open>
  C21: a transaction is decided exactly once, by the first of the calls made on it. For a transaction that is
  undecided (active or preparing) and any non-empty sequence of commits and aborts, the first call
  succeeds and changes nothing of the transaction but its state, which becomes the outcome, and every later
  call, of either kind, leaves the transaction as it is and fails with an error that names the outcome.
\<close>

theorem transaction_decided_once:
  assumes "tx_decision t = None" "run_ops tx_step (x # xs) t = (t', rs)"
  shows "t' = t\<lparr>tx_state := (case x of Commit \<Rightarrow> Committed | Abort \<Rightarrow> Aborted)\<rparr> \<and> tx_decision t' = Some x \<and> rs = Ok () # replicate (length xs)
      (Err (case x of Commit \<Rightarrow> AlreadyCommitted (tx_id t) | Abort \<Rightarrow> AlreadyAborted (tx_id t)))"
proof -
  have "run_ops (tx_spec (tx_id t)) (x # xs) None = (tx_decision t', rs)"
    using tx.run_simulates[OF refl all_legal_True assms(2)] assms(1) by simp
  moreover have "tx_spec (tx_id t) x None = (Some x, Ok ())" by (simp add: tx_spec_def)
  ultimately obtain rs1 where "run_ops (tx_spec (tx_id t)) xs (Some x) = (tx_decision t', rs1)" "rs = Ok () # rs1"
    by (auto split: prod.splits)
  then have "tx_decision t' = Some x \<and> rs = Ok () # replicate (length xs)
      (Err (case x of Commit \<Rightarrow> AlreadyCommitted (tx_id t) | Abort \<Rightarrow> AlreadyAborted (tx_id t)))"
    using spec_decided spec_decided_state by (metis fst_conv)
  moreover have "t' = t\<lparr>tx_state := (case x of Commit \<Rightarrow> Committed | Abort \<Rightarrow> Aborted)\<rparr>"
  proof -
    let ?d = "fst (tx_step x t)"
    have "tx_decision ?d \<noteq> None" unfolding first_call_decides [OF assms(1)] by (cases x) (simp_all add: tx_decision_def)
    moreover have "t' = fst (run_ops tx_step xs ?d)" using assms(2) by (auto simp: split_beta)
    ultimately show ?thesis using decided_unchanged [of ?d xs] first_call_decides [OF assms(1), of x] by simp
  qed
  ultimately show ?thesis by blast
qed

theorem transaction_decided_once_witness:
  "\<exists>t'. run_ops tx_step [Abort, Commit] (transaction_new 7 transaction_config_default 0)
     = (t', [Ok (), Err (AlreadyAborted 7)]) \<and> tx_decision t' = Some Abort"
proof -
  obtain t' rs where r: "run_ops tx_step [Abort, Commit] (transaction_new 7 transaction_config_default 0) = (t', rs)" by fastforce
  with transaction_decided_once[OF _ r] show ?thesis by (auto simp: transaction_new_def tx_decision_def)
qed

section \<open>The manager and the transactions its callers hold\<close>

datatype tm_op = Begin nat | Call tx_op nat

fun tm_step :: "tm_op \<Rightarrow> transaction_manager \<times> transaction list \<Rightarrow> transaction_manager \<times> transaction list" where
  "tm_step (Begin now) (m, ts) = (let (m', t) = begin_transaction now m in (m', ts @ [t]))"
| "tm_step (Call x i) (m, ts) = (if i < length ts then (m, ts[i := fst (tx_step x (ts ! i))]) else (m, ts))"

definition tm_ok :: "transaction_manager \<times> transaction list \<Rightarrow> bool" where
  "tm_ok = (\<lambda>(m, ts).
     map tx_id ts = map (\<lambda>n. of_nat (n + 1)) [0..<length ts] \<and> tm_next_id m = of_nat (length ts + 1)
     \<and> ts_started (tm_stats m) = of_nat (length ts) \<and> ts_active (tm_stats m) = of_nat (length ts)
     \<and> ts_committed (tm_stats m) = 0 \<and> ts_aborted (tm_stats m) = 0)"

lemma tx_step_id [simp]: "tx_id (fst (tx_step x t)) = tx_id t"
  by (auto simp: tx_step_def tx_commit_def tx_abort_def split: tx_op.splits transaction_state.splits)

lemma tm_ok_step: "tm_ok s \<Longrightarrow> tm_ok (tm_step x s)"
proof (induction x s rule: tm_step.induct)
  case (1 now m ts)
  then show ?case by (auto simp: tm_ok_def begin_transaction_def transaction_new_def)
next
  case (2 x i m ts)
  have "map tx_id (ts[i := fst (tx_step x (ts ! i))]) = map tx_id ts" if "i < length ts"
    using that by (simp add: map_update) (metis list_update_id nth_map)
  with 2 show ?case by (auto simp: tm_ok_def)
qed

lemma tm_ok_run: "tm_ok s \<Longrightarrow> tm_ok (fold tm_step xs s)"
  by (induction xs arbitrary: s) (auto simp: tm_ok_step)

text \<open>
  the manager numbers transactions apart and does not see how they end. After any interleaving of
  begins, commits and aborts the transactions' ids are 1, 2, 3 and so on in the order they were begun
  (so distinct below \<open>2 ^ 64\<close>); the statistics count every transaction ever begun as active, and none as
  committed or aborted, whatever was decided.
\<close>

theorem manager_ids_and_stats:
  assumes "transaction_manager_new None c = Ok m0" "fold tm_step xs (m0, []) = (m, ts)" "length ts < 2 ^ 64"
  shows "distinct (map tx_id ts) \<and> ts_active (tm_stats m) = of_nat (length ts)
     \<and> ts_started (tm_stats m) = of_nat (length ts) \<and> ts_committed (tm_stats m) = 0 \<and> ts_aborted (tm_stats m) = 0"
proof -
  have "tm_ok (m0, [])" using assms(1) by (auto simp: tm_ok_def transaction_manager_new_def)
  from tm_ok_run[OF this, of xs] have ok: "tm_ok (m, ts)" by (simp add: assms(2))
  have "inj_on (\<lambda>n. of_nat (n + 1) :: u64) {0..<length ts}"
  proof (rule inj_onI)
    fix a b assume a: "a \<in> {0..<length ts}" "b \<in> {0..<length ts}" and eq: "(of_nat (a + 1) :: u64) = of_nat (b + 1)"
    have "(of_nat a :: u64) = of_nat b" using eq by simp
    then have "unat (of_nat a :: u64) = unat (of_nat b :: u64)" by simp
    with a assms(3) show "a = b" by (simp add: unat_of_nat take_bit_nat_eq_self)
  qed
  then have "distinct (map tx_id ts)" using ok by (simp add: tm_ok_def distinct_map)
  with ok show ?thesis by (simp add: tm_ok_def)
qed

theorem manager_ids_and_stats_witness:
  "\<exists>m0 m ts. transaction_manager_new None transaction_config_default = Ok m0
     \<and> fold tm_step [Begin 0, Begin 1, Call Commit 0, Call Abort 1] (m0, []) = (m, ts)
     \<and> map tx_state ts = [Committed, Aborted] \<and> ts_active (tm_stats m) = 2 \<and> ts_committed (tm_stats m) = 0"
proof -
  obtain m0 where m0: "transaction_manager_new None transaction_config_default = Ok m0"
    by (simp add: transaction_manager_new_def)
  let ?ops = "[Begin 0, Begin 1, Call Commit 0, Call Abort 1]"
  obtain m ts where r: "fold tm_step ?ops (m0, []) = (m, ts)" by fastforce
  then have ts: "map tx_state ts = [Committed, Aborted]"
    by (auto simp: begin_transaction_def transaction_new_def tx_step_def tx_commit_def tx_abort_def)
  then have "length ts = 2" by (metis length_map length_Cons list.size(3) numeral_2_eq_2)
  with manager_ids_and_stats[OF m0 r] m0 r ts show ?thesis by auto
qed

text \<open>A transaction times out only after its duration, and no operation of the model looks at it: a timed
  out transaction still commits.\<close>

lemma timed_out_still_commits: "is_timed_out now t \<Longrightarrow> tx_decision t = None \<Longrightarrow> snd (tx_commit t) = Ok ()"
  by (auto simp: tx_commit_def tx_decision_def split: transaction_state.splits)

end
