(* ===== verification/Membership.thy ===== *)
theory Membership
  imports Clocks
begin

text \<open>
  The SWIM membership protocol of \<^verbatim>\<open>src/kaelix-cluster/src/membership/mod.rs\<close>: node records with
  incarnation numbers, the failure detector's history, direct and indirect pings, suspicion, gossip
  and the message handlers. An operation returns the membership it leaves, the messages it handed to
  the router with their destinations, and its result. The clocks, the random generator, the encoder
  and the outcome of each send are read from an environment. A \<open>HashSet\<close> is a list without
  duplicates. The suspicion level \<open>phi\<close> is floating-point arithmetic that no decision of the protocol
  reads: the history it is computed from is modelled, its value is not.
\<close>

section \<open>Nodes\<close>

datatype node_address = Tcp string | Udp string | UnixSocket string

definition socket_addr :: "node_address \<Rightarrow> string option" where
  "socket_addr a = (case a of Tcp x \<Rightarrow> Some x | Udp x \<Rightarrow> Some x | UnixSocket p \<Rightarrow> None)"

definition address_display :: "node_address \<Rightarrow> string" where
  "address_display a =
     (case a of Tcp x \<Rightarrow> ''tcp://'' @ x | Udp x \<Rightarrow> ''udp://'' @ x | UnixSocket p \<Rightarrow> ''unix://'' @ p)"

datatype node_status = Alive | Suspect | Failed | Left

definition status_is_active :: "node_status \<Rightarrow> bool" where
  "status_is_active s = (s = Alive \<or> s = Suspect)"

definition status_is_alive :: "node_status \<Rightarrow> bool" where
  "status_is_alive s = (s = Alive)"

definition status_is_unavailable :: "node_status \<Rightarrow> bool" where
  "status_is_unavailable s = (s = Failed \<or> s = Left)"

record node_info =
  ni_id :: node_id
  ni_address :: node_address
  ni_status :: node_status
  ni_incarnation :: u64
  ni_last_seen :: "u64 option"
  ni_metadata :: "(string, string) hash_map"

definition node_info_new :: "system_time \<Rightarrow> node_id \<Rightarrow> node_address \<Rightarrow> node_info" where
  "node_info_new now nid address =
     \<lparr>ni_id = nid, ni_address = address, ni_status = Alive, ni_incarnation = 0,
      ni_last_seen = Some (system_time_millis now), ni_metadata = []\<rparr>"

definition update_status :: "system_time \<Rightarrow> node_status \<Rightarrow> u64 \<Rightarrow> node_info \<Rightarrow> node_info" where
  "update_status now status incarnation n =
     (if ni_incarnation n \<le> incarnation
      then n\<lparr>ni_status := status, ni_incarnation := incarnation,
             ni_last_seen := Some (system_time_millis now)\<rparr>
      else n)"

definition time_since_last_seen :: "system_time \<Rightarrow> node_info \<Rightarrow> duration option" where
  "time_since_last_seen now n =
     map_option (\<lambda>ts. duration_from_millis (saturating_sub (system_time_millis now) ts)) (ni_last_seen n)"

definition with_metadata :: "string \<Rightarrow> string \<Rightarrow> node_info \<Rightarrow> node_info" where
  "with_metadata k v n = n\<lparr>ni_metadata := hm_insert k v (ni_metadata n)\<rparr>"

definition get_metadata :: "string \<Rightarrow> node_info \<Rightarrow> string option" where
  "get_metadata k n = hm_get (ni_metadata n) k"

section \<open>The failure detector's history\<close>

record phi_detector =
  pd_intervals :: "duration list"
  pd_max_history :: usize
  pd_last_heartbeat :: "instant option"

definition phi_detector_new :: "usize \<Rightarrow> phi_detector" where
  "phi_detector_new max_history =
     \<lparr>pd_intervals = [], pd_max_history = max_history, pd_last_heartbeat = None\<rparr>"

definition phi_heartbeat :: "instant \<Rightarrow> phi_detector \<Rightarrow> (phi_detector, 'e) result" where
  "phi_heartbeat now d =
     (case pd_last_heartbeat d of
        None \<Rightarrow> Ok (d\<lparr>pd_last_heartbeat := Some now\<rparr>)
      | Some prev \<Rightarrow>
          if pd_max_history d \<le> length (pd_intervals d) \<and> pd_intervals d = [] then Panic
          else let kept = (if pd_max_history d \<le> length (pd_intervals d)
                           then tl (pd_intervals d) else pd_intervals d) in
            Ok (d\<lparr>pd_intervals := kept @ [now - prev], pd_last_heartbeat := Some now\<rparr>))"

section \<open>The membership state\<close>

record swim_config =
  sc_protocol_period_ms :: u64
  sc_failure_timeout_ms :: u64
  sc_indirect_ping_count :: usize
  sc_gossip_fanout :: usize
  sc_suspicion_multiplier :: u32
  sc_max_failure_detector_history :: usize

definition default_swim_config :: swim_config where
  "default_swim_config = \<lparr>sc_protocol_period_ms = 1000, sc_failure_timeout_ms = 5000,
     sc_indirect_ping_count = 3, sc_gossip_fanout = 3, sc_suspicion_multiplier = 3,
     sc_max_failure_detector_history = 100\<rparr>"

record indirect_ping_request =
  ip_target :: node_id
  ip_proxies :: "node_id list"
  ip_timestamp :: instant
  ip_responses_received :: usize

datatype swim_message =
    Ping node_id u64 "node_info list"
  | Ack node_id u64 "node_info list"
  | IndirectPing node_id node_id u64
  | IndirectAck node_id node_id u64 bool
  | Gossip node_id "node_info list"

datatype swim_error =
    MembershipError string
  | ClusterTimeout string u64
  | RouterError string

record swim =
  sw_local_node :: node_info
  sw_members :: "(node_id, node_info) hash_map"
  sw_config :: swim_config
  sw_suspects :: "node_id list"
  sw_failure_detectors :: "(node_id, phi_detector) hash_map"
  sw_last_protocol_round :: instant
  sw_pending_indirect_pings :: "(u64, indirect_ping_request) hash_map"
  sw_request_id_counter :: u64

text \<open>
  The environment of one operation: the monotonic and the system clock, the encoder, the outcome of
  handing a message to the router (\<open>None\<close>: not within the ping timeout), the index a random choice
  returns and the reordering of each shuffle.
\<close>

record swim_env =
  en_now :: instant
  en_system :: system_time
  en_encode :: "swim_message \<Rightarrow> (bytes, string) result"
  en_router :: "node_id \<Rightarrow> swim_message \<Rightarrow> (unit, swim_error) result option"
  en_choose :: nat
  en_shuffle :: "nat \<Rightarrow> node_info list \<Rightarrow> node_info list"

type_synonym swim_envelope = "node_id \<times> swim_message"

definition swim_new :: "instant \<Rightarrow> node_info \<Rightarrow> swim_config \<Rightarrow> swim" where
  "swim_new now local_node config =
     \<lparr>sw_local_node = local_node, sw_members = [(ni_id local_node, local_node)], sw_config = config,
      sw_suspects = [], sw_failure_detectors = [], sw_last_protocol_round = now,
      sw_pending_indirect_pings = [], sw_request_id_counter = 0\<rparr>"

definition sw_nodes :: "swim \<Rightarrow> node_info list" where
  "sw_nodes s = map snd (sw_members s)"

definition member_count :: "swim \<Rightarrow> usize" where
  "member_count s = length (sw_members s)"

definition alive_member_count :: "swim \<Rightarrow> usize" where
  "alive_member_count s = length (filter (\<lambda>n. status_is_alive (ni_status n)) (sw_nodes s))"

definition alive_others :: "swim \<Rightarrow> node_info list" where
  "alive_others s =
     filter (\<lambda>n. ni_id n \<noteq> ni_id (sw_local_node s) \<and> status_is_alive (ni_status n)) (sw_nodes s)"

definition select_ping_target :: "swim_env \<Rightarrow> swim \<Rightarrow> node_info option" where
  "select_ping_target env s =
     (let candidates = alive_others s in
      if candidates = [] then None else Some (candidates ! (en_choose env mod length candidates)))"

definition get_gossip_updates :: "swim_env \<Rightarrow> nat \<Rightarrow> swim \<Rightarrow> node_info list" where
  "get_gossip_updates env k s =
     take (sc_gossip_fanout (sw_config s)) (en_shuffle env k (sw_nodes s))"

definition select_proxy_nodes :: "swim_env \<Rightarrow> node_id \<Rightarrow> usize \<Rightarrow> swim \<Rightarrow> node_info list" where
  "select_proxy_nodes env target_id count s =
     take count (en_shuffle env 1 (filter (\<lambda>n. ni_id n \<noteq> target_id) (alive_others s)))"

definition select_gossip_targets :: "swim_env \<Rightarrow> swim \<Rightarrow> node_info list" where
  "select_gossip_targets env s = take (sc_gossip_fanout (sw_config s)) (en_shuffle env 2 (alive_others s))"

definition encode_err :: "swim_env \<Rightarrow> string \<Rightarrow> swim_message \<Rightarrow> (unit, swim_error) result" where
  "encode_err env what m =
     (case en_encode env m of
        Ok bs \<Rightarrow> Ok ()
      | Err e \<Rightarrow> Err (MembershipError (''Failed to serialize '' @ what @ '': '' @ e))
      | Panic \<Rightarrow> Panic)"

section \<open>Changing a node's record\<close>

definition set_member :: "node_id \<Rightarrow> (node_info \<Rightarrow> node_info) \<Rightarrow> swim \<Rightarrow> swim" where
  "set_member k f s =
     (case hm_get (sw_members s) k of
        None \<Rightarrow> s
      | Some n \<Rightarrow> s\<lparr>sw_members := hm_insert k (f n) (sw_members s)\<rparr>)"

definition mark_suspect :: "system_time \<Rightarrow> node_id \<Rightarrow> swim \<Rightarrow> swim" where
  "mark_suspect now nid s =
     (case hm_get (sw_members s) nid of
        None \<Rightarrow> s
      | Some n \<Rightarrow>
          if ni_status n = Alive
          then (set_member nid (update_status now Suspect (ni_incarnation n + 1)) s)
                 \<lparr>sw_suspects := List.insert nid (sw_suspects s)\<rparr>
          else s)"

definition mark_failed :: "system_time \<Rightarrow> node_id \<Rightarrow> swim \<Rightarrow> swim" where
  "mark_failed now nid s =
     (case hm_get (sw_members s) nid of
        None \<Rightarrow> s
      | Some n \<Rightarrow>
          (set_member nid (update_status now Failed (ni_incarnation n + 1)) s)
            \<lparr>sw_suspects := removeAll nid (sw_suspects s),
             sw_failure_detectors := hm_remove nid (sw_failure_detectors s)\<rparr>)"

definition update_node_info :: "system_time \<Rightarrow> node_id \<Rightarrow> node_status \<Rightarrow> u64 \<Rightarrow> swim \<Rightarrow> swim" where
  "update_node_info now nid status incarnation s =
     (case hm_get (sw_members s) nid of
        None \<Rightarrow> s
      | Some n \<Rightarrow>
          if ni_incarnation n \<le> incarnation
          then let s1 = set_member nid (update_status now status incarnation) s in
            (if status = Alive then s1\<lparr>sw_suspects := removeAll nid (sw_suspects s1)\<rparr> else s1)
          else s)"

definition process_membership_updates :: "system_time \<Rightarrow> node_info list \<Rightarrow> swim \<Rightarrow> swim" where
  "process_membership_updates now updates s =
     fold (\<lambda>u s. if ni_id u = ni_id (sw_local_node s) then s
                 else update_node_info now (ni_id u) (ni_status u) (ni_incarnation u) s) updates s"

definition suspicion_timeout :: "swim_config \<Rightarrow> duration" where
  "suspicion_timeout cfg =
     duration_from_millis (sc_failure_timeout_ms cfg * ucast (sc_suspicion_multiplier cfg))"

definition suspicion_expired :: "system_time \<Rightarrow> swim \<Rightarrow> node_id \<Rightarrow> bool" where
  "suspicion_expired now s nid =
     (case hm_get (sw_members s) nid of
        None \<Rightarrow> False
      | Some n \<Rightarrow>
          (case time_since_last_seen now n of
             None \<Rightarrow> False
           | Some elapsed \<Rightarrow> suspicion_timeout (sw_config s) < elapsed))"

definition process_suspicion_timeouts :: "system_time \<Rightarrow> swim \<Rightarrow> swim" where
  "process_suspicion_timeouts now s =
     fold (mark_failed now) (filter (suspicion_expired now s) (sw_suspects s)) s"

definition cleanup_expired_indirect_pings :: "instant \<Rightarrow> swim \<Rightarrow> swim" where
  "cleanup_expired_indirect_pings now s =
     s\<lparr>sw_pending_indirect_pings :=
         filter (\<lambda>(k, r). now - ip_timestamp r < duration_from_millis (sc_failure_timeout_ms (sw_config s) * 2))
           (sw_pending_indirect_pings s)\<rparr>"

definition add_member :: "node_info \<Rightarrow> swim \<Rightarrow> swim" where
  "add_member n s = s\<lparr>sw_members := hm_insert (ni_id n) n (sw_members s)\<rparr>"

definition remove_member :: "(node_id \<Rightarrow> string) \<Rightarrow> node_id \<Rightarrow> swim \<Rightarrow> swim \<times> (unit, swim_error) result" where
  "remove_member show_id nid s =
     (case hm_get (sw_members s) nid of
        None \<Rightarrow> (s, Err (MembershipError (''Node '' @ show_id nid @ '' not found in membership'')))
      | Some n \<Rightarrow>
          (s\<lparr>sw_members := hm_remove nid (sw_members s), sw_suspects := removeAll nid (sw_suspects s),
             sw_failure_detectors := hm_remove nid (sw_failure_detectors s)\<rparr>, Ok ()))"

section \<open>Pings, rounds and handlers\<close>

type_synonym 'a swim_outcome = "swim \<times> swim_envelope list \<times> ('a, swim_error) result"

definition send_ping :: "swim_env \<Rightarrow> node_info \<Rightarrow> swim \<Rightarrow> unit swim_outcome" where
  "send_ping env target s =
     (let message = Ping (ni_id (sw_local_node s)) (ni_incarnation (sw_local_node s)) (get_gossip_updates env 0 s);
          sent = [(ni_id target, message)] in
      case encode_err env ''ping'' message of
        Err e \<Rightarrow> (s, [], Err e)
      | Panic \<Rightarrow> (s, [], Panic)
      | Ok _ \<Rightarrow>
          (case en_router env (ni_id target) message of
             None \<Rightarrow> (s, sent, Err (ClusterTimeout ''ping'' (sc_failure_timeout_ms (sw_config s))))
           | Some (Err e) \<Rightarrow> (s, sent, Err e)
           | Some Panic \<Rightarrow> (s, sent, Panic)
           | Some (Ok _) \<Rightarrow>
               let detector = hm_get_or (phi_detector_new (sc_max_failure_detector_history (sw_config s)))
                                (sw_failure_detectors s) (ni_id target) in
               (case phi_heartbeat (en_now env) detector of
                  Ok d \<Rightarrow> (s\<lparr>sw_failure_detectors := hm_insert (ni_id target) d (sw_failure_detectors s)\<rparr>, sent, Ok ())
                | Err e \<Rightarrow> (s, sent, Err e)
                | Panic \<Rightarrow> (s, sent, Panic))))"

fun send_to_proxies :: "swim_env \<Rightarrow> swim_message \<Rightarrow> node_info list \<Rightarrow> swim_envelope list \<times> (unit, swim_error) result" where
  "send_to_proxies env message [] = ([], Ok ())"
| "send_to_proxies env message (p # ps) =
     (case encode_err env ''indirect ping'' message of
        Ok _ \<Rightarrow> (case send_to_proxies env message ps of (sent, r) \<Rightarrow> ((ni_id p, message) # sent, r))
      | Err e \<Rightarrow> ([], Err e)
      | Panic \<Rightarrow> ([], Panic))"

definition indirect_ping :: "swim_env \<Rightarrow> node_info \<Rightarrow> node_info list \<Rightarrow> swim \<Rightarrow> bool swim_outcome" where
  "indirect_ping env target proxies s =
     (let request_id = sw_request_id_counter s;
          request = \<lparr>ip_target = ni_id target, ip_proxies = map ni_id proxies,
                     ip_timestamp = en_now env, ip_responses_received = 0\<rparr>;
          s1 = s\<lparr>sw_request_id_counter := request_id + 1,
                 sw_pending_indirect_pings := hm_insert request_id request (sw_pending_indirect_pings s)\<rparr> in
      case send_to_proxies env (IndirectPing (ni_id (sw_local_node s)) (ni_id target) request_id) proxies of
        (sent, Ok _) \<Rightarrow>
          (s1, sent,
           Ok (case hm_get (sw_pending_indirect_pings s1) request_id of
                 Some r \<Rightarrow> 0 < ip_responses_received r
               | None \<Rightarrow> False))
      | (sent, Err e) \<Rightarrow> (s1, sent, Err e)
      | (sent, Panic) \<Rightarrow> (s1, sent, Panic))"

definition handle_ping_timeout :: "swim_env \<Rightarrow> system_time \<Rightarrow> node_info \<Rightarrow> swim \<Rightarrow> unit swim_outcome" where
  "handle_ping_timeout env after target s =
     (let proxies = select_proxy_nodes env (ni_id target) (sc_indirect_ping_count (sw_config s)) s in
      if proxies = [] then (mark_suspect (en_system env) (ni_id target) s, [], Ok ())
      else case indirect_ping env target proxies s of
        (s1, sent, Ok success) \<Rightarrow>
          (if success then s1 else mark_suspect after (ni_id target) s1, sent, Ok ())
      | (s1, sent, Err e) \<Rightarrow> (s1, sent, Err e)
      | (s1, sent, Panic) \<Rightarrow> (s1, sent, Panic))"

definition gossip_updates :: "swim_env \<Rightarrow> swim \<Rightarrow> swim_envelope list \<times> (unit, swim_error) result" where
  "gossip_updates env s =
     (let targets = select_gossip_targets env s; updates = get_gossip_updates env 3 s;
          message = Gossip (ni_id (sw_local_node s)) updates in
      if targets = [] \<or> updates = [] then ([], Ok ())
      else case encode_err env ''gossip'' message of
        Ok _ \<Rightarrow> (map (\<lambda>t. (ni_id t, message)) targets, Ok ())
      | Err e \<Rightarrow> ([], Err e)
      | Panic \<Rightarrow> ([], Panic))"

definition ping_phase :: "swim_env \<Rightarrow> system_time \<Rightarrow> swim \<Rightarrow> unit swim_outcome" where
  "ping_phase env after s =
     (case select_ping_target env s of
        None \<Rightarrow> (s, [], Ok ())
      | Some target \<Rightarrow>
          (case send_ping env target s of
             (s1, sent, Ok _) \<Rightarrow> (s1, sent, Ok ())
           | (s1, sent, Panic) \<Rightarrow> (s1, sent, Panic)
           | (s1, sent, Err _) \<Rightarrow>
               (case handle_ping_timeout env after target s1 of
                  (s2, sent2, r) \<Rightarrow> (s2, sent @ sent2, r))))"

text \<open>\<open>after\<close> and \<open>late\<close> are the clocks once the ping phase, which may sleep, is over.\<close>

definition execute_protocol_round ::
    "swim_env \<Rightarrow> system_time \<Rightarrow> instant \<Rightarrow> swim \<Rightarrow> unit swim_outcome" where
  "execute_protocol_round env after late s =
     (if en_now env - sw_last_protocol_round s < duration_from_millis (sc_protocol_period_ms (sw_config s))
      then (s, [], Ok ())
      else case ping_phase env after (s\<lparr>sw_last_protocol_round := en_now env\<rparr>) of
        (s1, sent, Ok _) \<Rightarrow>
          (let s2 = process_suspicion_timeouts after s1 in
           case gossip_updates env s2 of
             (sent2, Ok _) \<Rightarrow> (cleanup_expired_indirect_pings late s2, sent @ sent2, Ok ())
           | (sent2, Err e) \<Rightarrow> (s2, sent @ sent2, Err e)
           | (sent2, Panic) \<Rightarrow> (s2, sent @ sent2, Panic))
      | (s1, sent, Err e) \<Rightarrow> (s1, sent, Err e)
      | (s1, sent, Panic) \<Rightarrow> (s1, sent, Panic))"

definition handle_ping :: "swim_env \<Rightarrow> node_id \<Rightarrow> u64 \<Rightarrow> node_info list \<Rightarrow> swim \<Rightarrow> unit swim_outcome" where
  "handle_ping env source incarnation updates s =
     (let s1 = update_node_info (en_system env) source Alive incarnation s;
          s2 = process_membership_updates (en_system env) updates s1;
          message = Ack (ni_id (sw_local_node s2)) (ni_incarnation (sw_local_node s2)) (get_gossip_updates env 0 s2) in
      case encode_err env ''ack'' message of
        Ok _ \<Rightarrow> (s2, [(source, message)], Ok ())
      | Err e \<Rightarrow> (s2, [], Err e)
      | Panic \<Rightarrow> (s2, [], Panic))"

definition handle_ack :: "swim_env \<Rightarrow> node_id \<Rightarrow> u64 \<Rightarrow> node_info list \<Rightarrow> swim \<Rightarrow> unit swim_outcome" where
  "handle_ack env source incarnation updates s =
     (process_membership_updates (en_system env) updates
        (update_node_info (en_system env) source Alive incarnation s), [], Ok ())"

definition answer_indirect ::
    "swim_env \<Rightarrow> node_id \<Rightarrow> node_id \<Rightarrow> u64 \<Rightarrow> bool \<Rightarrow> swim \<Rightarrow> swim_envelope list \<Rightarrow> unit swim_outcome" where
  "answer_indirect env source target request_id success s sent =
     (let message = IndirectAck (ni_id (sw_local_node s)) target request_id success in
      case encode_err env ''indirect ack'' message of
        Ok _ \<Rightarrow> (s, sent @ [(source, message)], Ok ())
      | Err e \<Rightarrow> (s, sent, Err e)
      | Panic \<Rightarrow> (s, sent, Panic))"

definition handle_indirect_ping :: "swim_env \<Rightarrow> node_id \<Rightarrow> node_id \<Rightarrow> u64 \<Rightarrow> swim \<Rightarrow> unit swim_outcome" where
  "handle_indirect_ping env source target request_id s =
     (case hm_get (sw_members s) target of
        None \<Rightarrow> answer_indirect env source target request_id False s []
      | Some target_node \<Rightarrow>
          (case send_ping env target_node s of
             (s1, sent, Ok _) \<Rightarrow> answer_indirect env source target request_id True s1 sent
           | (s1, sent, Err _) \<Rightarrow> answer_indirect env source target request_id False s1 sent
           | (s1, sent, Panic) \<Rightarrow> (s1, sent, Panic)))"

definition handle_indirect_ack :: "swim_env \<Rightarrow> node_id \<Rightarrow> u64 \<Rightarrow> bool \<Rightarrow> swim \<Rightarrow> unit swim_outcome" where
  "handle_indirect_ack env target request_id success s =
     (case hm_get (sw_pending_indirect_pings s) request_id of
        None \<Rightarrow> (s, [], Ok ())
      | Some r \<Rightarrow>
          let s1 = s\<lparr>sw_pending_indirect_pings :=
                hm_insert request_id (r\<lparr>ip_responses_received := ip_responses_received r + 1\<rparr>)
                  (sw_pending_indirect_pings s)\<rparr> in
          (if success
           then let s2 = update_node_info (en_system env) target Alive 0 s1 in
             (s2\<lparr>sw_suspects := removeAll target (sw_suspects s2)\<rparr>, [], Ok ())
           else (s1, [], Ok ())))"

definition handle_swim_message :: "swim_env \<Rightarrow> swim_message \<Rightarrow> swim \<Rightarrow> unit swim_outcome" where
  "handle_swim_message env message s =
     (case message of
        Ping source incarnation updates \<Rightarrow> handle_ping env source incarnation updates s
      | Ack source incarnation updates \<Rightarrow> handle_ack env source incarnation updates s
      | IndirectPing source target request_id \<Rightarrow> handle_indirect_ping env source target request_id s
      | IndirectAck source target request_id success \<Rightarrow> handle_indirect_ack env target request_id success s
      | Gossip source updates \<Rightarrow> (process_membership_updates (en_system env) updates s, [], Ok ()))"

section \<open>A cluster of nodes\<close>

text \<open>
  Nodes run rounds and handle messages; the network delays, reorders, duplicates and loses what was
  handed to it. A shuffle returns the nodes it was given in some order. The increments of incarnation
  numbers are the only arithmetic that could wrap: a state below the bound is \<open>below_max\<close>.
\<close>

type_synonym swim_cluster = "(node_id \<Rightarrow> swim) \<times> swim_envelope set"

definition shuffle_ok :: "swim_env \<Rightarrow> bool" where
  "shuffle_ok env = (\<forall>k xs. set (en_shuffle env k xs) = set xs \<and> length (en_shuffle env k xs) = length xs)"

inductive swim_step :: "swim_cluster \<Rightarrow> swim_cluster \<Rightarrow> bool" where
  round: "shuffle_ok env \<Longrightarrow> execute_protocol_round env after late (c p) = (s, sent, r) \<Longrightarrow>
     swim_step (c, net) (c(p := s), net \<union> set sent)"
| deliver: "shuffle_ok env \<Longrightarrow> (p, m) \<in> net \<Longrightarrow> handle_swim_message env m (c p) = (s, sent, r) \<Longrightarrow>
     swim_step (c, net) (c(p := s), net \<union> set sent)"

definition below_max :: "swim \<Rightarrow> bool" where
  "below_max s = list_all (\<lambda>n. ni_incarnation n \<noteq> - 1) (sw_nodes s)"

definition bounded_step :: "swim_cluster \<Rightarrow> swim_cluster \<Rightarrow> bool" where
  "bounded_step x y = (swim_step x y \<and> (\<forall>p. below_max (fst x p)))"

text \<open>
  A record is settled when it is alive exactly with incarnation 0, the one a node starts with and
  never changes.
\<close>

definition settled :: "node_info \<Rightarrow> bool" where
  "settled n = ((ni_status n = Alive) = (ni_incarnation n = 0))"

definition view_ok :: "node_id \<Rightarrow> swim \<Rightarrow> bool" where
  "view_ok p s =
     (ni_id (sw_local_node s) = p \<and> ni_incarnation (sw_local_node s) = 0
      \<and> hm_ok (sw_members s) \<and> distinct (sw_suspects s)
      \<and> (\<forall>k n. hm_get (sw_members s) k = Some n \<longrightarrow> ni_id n = k \<and> settled n))"

fun message_ok :: "swim_message \<Rightarrow> bool" where
  "message_ok (Ping source i us) = (i = 0 \<and> list_all settled us)"
| "message_ok (Ack source i us) = (i = 0 \<and> list_all settled us)"
| "message_ok (Gossip source us) = list_all settled us"
| "message_ok (IndirectPing source target rid) = True"
| "message_ok (IndirectAck source target rid ok) = True"

definition keeps_dead :: "swim \<Rightarrow> swim \<Rightarrow> bool" where
  "keeps_dead s s' =
     (\<forall>k n. hm_get (sw_members s) k = Some n \<and> ni_status n \<noteq> Alive \<longrightarrow>
        (\<exists>n'. hm_get (sw_members s') k = Some n' \<and> ni_status n' \<noteq> Alive))"

lemma keeps_dead_refl [simp]: "keeps_dead s s"
  by (simp add: keeps_dead_def)

lemma keeps_dead_trans: "keeps_dead a b \<Longrightarrow> keeps_dead b c \<Longrightarrow> keeps_dead a c"
  unfolding keeps_dead_def by blast

lemma keeps_dead_members: "sw_members s' = sw_members s \<Longrightarrow> keeps_dead s s'"
  by (simp add: keeps_dead_def)

lemma view_ok_cong:
  "view_ok p s \<Longrightarrow> sw_members s' = sw_members s \<Longrightarrow> sw_local_node s' = sw_local_node s \<Longrightarrow>
     distinct (sw_suspects s') \<Longrightarrow> view_ok p s'"
  by (simp add: view_ok_def)

lemma view_ok_member: "view_ok p s \<Longrightarrow> hm_get (sw_members s) k = Some n \<Longrightarrow> ni_id n = k \<and> settled n"
  by (simp add: view_ok_def)

lemma view_ok_set:
  assumes "view_ok p s" "hm_get (sw_members s) k = Some n" "ni_id n' = k" "settled n'"
    "ni_status n \<noteq> Alive \<longrightarrow> ni_status n' \<noteq> Alive" "sw_members s' = hm_insert k n' (sw_members s)"
    "sw_local_node s' = sw_local_node s" "distinct (sw_suspects s')"
  shows "view_ok p s' \<and> keeps_dead s s'"
  using assms by (auto simp: view_ok_def keeps_dead_def)

lemma word_plus_one_nonzero: "(i :: u64) \<noteq> - 1 \<Longrightarrow> i + 1 \<noteq> 0 \<and> i \<le> i + 1"
  using word_less_plus_one[of i] by auto

lemma update_node_info_ok:
  assumes "view_ok p s" "(status = Alive) = (i = 0)"
  shows "view_ok p (update_node_info now k status i s) \<and> keeps_dead s (update_node_info now k status i s)"
proof (cases "hm_get (sw_members s) k")
  case None
  then show ?thesis using assms by (simp add: update_node_info_def)
next
  case (Some n)
  note member = view_ok_member[OF assms(1) Some]
  show ?thesis
  proof (cases "ni_incarnation n \<le> i")
    case True
    have "distinct (sw_suspects s)" using assms(1) by (simp add: view_ok_def)
    then show ?thesis
      using True Some member assms(2)
      by (intro view_ok_set[OF assms(1) Some, where n' = "update_status now status i n"])
         (auto simp: update_node_info_def set_member_def update_status_def settled_def distinct_removeAll)
  qed (use Some assms in \<open>simp add: update_node_info_def\<close>)
qed

lemma mark_suspect_ok:
  assumes "view_ok p s" "below_max s"
  shows "view_ok p (mark_suspect now k s) \<and> keeps_dead s (mark_suspect now k s)"
proof (cases "\<exists>n. hm_get (sw_members s) k = Some n \<and> ni_status n = Alive")
  case True
  then obtain n where n: "hm_get (sw_members s) k = Some n" "ni_status n = Alive" by blast
  note member = view_ok_member[OF assms(1) n(1)]
  then have "ni_incarnation n = 0" using n by (simp add: settled_def)
  then show ?thesis
    using n member assms(1)
    by (intro view_ok_set[OF assms(1) n(1), where n' = "update_status now Suspect 1 n"])
       (auto simp: mark_suspect_def set_member_def update_status_def settled_def view_ok_def)
qed (use assms in \<open>auto simp: mark_suspect_def split: option.splits\<close>)

lemma mark_failed_ok:
  assumes "view_ok p s" "\<And>n. hm_get (sw_members s) k = Some n \<Longrightarrow> ni_incarnation n \<noteq> - 1"
  shows "view_ok p (mark_failed now k s) \<and> keeps_dead s (mark_failed now k s)"
proof (cases "hm_get (sw_members s) k")
  case (Some n)
  have "distinct (sw_suspects s)" using assms(1) by (simp add: view_ok_def)
  then show ?thesis
    using Some word_plus_one_nonzero[OF assms(2)[OF Some]] view_ok_member[OF assms(1) Some]
    by (intro view_ok_set[OF assms(1) Some, where n' = "update_status now Failed (ni_incarnation n + 1) n"])
       (auto simp: mark_failed_def set_member_def update_status_def settled_def distinct_removeAll)
qed (use assms in \<open>simp add: mark_failed_def\<close>)

lemma mark_failed_other: "j \<noteq> k \<Longrightarrow> hm_get (sw_members (mark_failed now k s)) j = hm_get (sw_members s) j"
  by (auto simp: mark_failed_def set_member_def split: option.splits)

lemma fold_mark_failed_ok:
  "view_ok p s \<Longrightarrow> distinct ks \<Longrightarrow>
   (\<And>k n. k \<in> set ks \<Longrightarrow> hm_get (sw_members s) k = Some n \<Longrightarrow> ni_incarnation n \<noteq> - 1) \<Longrightarrow>
     view_ok p (fold (mark_failed now) ks s) \<and> keeps_dead s (fold (mark_failed now) ks s)"
proof (induction ks arbitrary: s)
  case (Cons k ks)
  have first: "view_ok p (mark_failed now k s) \<and> keeps_dead s (mark_failed now k s)"
    using Cons.prems(1,3) by (intro mark_failed_ok) auto
  have "view_ok p (fold (mark_failed now) ks (mark_failed now k s))
      \<and> keeps_dead (mark_failed now k s) (fold (mark_failed now) ks (mark_failed now k s))"
  proof (rule Cons.IH)
    fix j n assume j: "j \<in> set ks" "hm_get (sw_members (mark_failed now k s)) j = Some n"
    then have "j \<noteq> k" using Cons.prems(2) by auto
    with j Cons.prems(3)[of j n] show "ni_incarnation n \<noteq> - 1" by (simp add: mark_failed_other)
  qed (use first Cons.prems(2) in auto)
  with first keeps_dead_trans show ?case by auto
qed simp

lemma below_max_member: "below_max s \<Longrightarrow> hm_get (sw_members s) k = Some n \<Longrightarrow> ni_incarnation n \<noteq> - 1"
  by (auto simp: below_max_def sw_nodes_def list_all_iff dest!: map_of_SomeD)

lemma process_updates_ok:
  "view_ok p s \<Longrightarrow> list_all settled us \<Longrightarrow>
     view_ok p (process_membership_updates now us s) \<and> keeps_dead s (process_membership_updates now us s)"
proof (induction us arbitrary: s)
  case (Cons u us)
  let ?s1 = "if ni_id u = ni_id (sw_local_node s) then s
     else update_node_info now (ni_id u) (ni_status u) (ni_incarnation u) s"
  have one: "view_ok p ?s1 \<and> keeps_dead s ?s1"
    using Cons.prems update_node_info_ok[of p s "ni_status u" "ni_incarnation u"] by (auto simp: settled_def)
  have "view_ok p (process_membership_updates now us ?s1) \<and> keeps_dead ?s1 (process_membership_updates now us ?s1)"
    using Cons.prems(2) by (intro Cons.IH conjunct1[OF one]) simp
  moreover have "process_membership_updates now (u # us) s = process_membership_updates now us ?s1"
    by (simp add: process_membership_updates_def)
  ultimately show ?case using one keeps_dead_trans by metis
qed (simp add: process_membership_updates_def)

text \<open>What a node sends is settled.\<close>

lemma nodes_settled: "view_ok p s \<Longrightarrow> n \<in> set (sw_nodes s) \<Longrightarrow> settled n"
  by (auto simp: view_ok_def sw_nodes_def hm_entry)

lemma gossip_settled: "shuffle_ok env \<Longrightarrow> view_ok p s \<Longrightarrow> list_all settled (get_gossip_updates env k s)"
  using nodes_settled by (fastforce simp: get_gossip_updates_def list_all_iff shuffle_ok_def dest: in_set_takeD)

definition sends_ok :: "swim_envelope list \<Rightarrow> bool" where
  "sends_ok sent = list_all (\<lambda>(d, m). message_ok m) sent"

lemma sends_ok_simps [simp]: "sends_ok []" "sends_ok (a @ b) = (sends_ok a \<and> sends_ok b)"
  "sends_ok ((d, m) # b) = (message_ok m \<and> sends_ok b)"
  by (auto simp: sends_ok_def)

text \<open>An operation that leaves the records alone.\<close>

definition quiet :: "swim \<Rightarrow> swim \<Rightarrow> bool" where
  "quiet s s' = (sw_members s' = sw_members s \<and> sw_local_node s' = sw_local_node s \<and> sw_suspects s' = sw_suspects s)"

lemma quiet_ok: "view_ok p s \<Longrightarrow> quiet s s' \<Longrightarrow> view_ok p s' \<and> keeps_dead s s'"
  by (auto simp: quiet_def view_ok_def keeps_dead_def)

lemma quiet_below_max: "quiet s s' \<Longrightarrow> below_max s' = below_max s"
  by (simp add: quiet_def below_max_def sw_nodes_def)

lemma send_ping_quiet:
  assumes "send_ping env target s = (s', sent, r)" "shuffle_ok env" "view_ok p s"
  shows "quiet s s' \<and> sends_ok sent"
proof
  have "ni_incarnation (sw_local_node s) = 0" using assms(3) by (simp add: view_ok_def)
  then have "sends_ok [(ni_id target, Ping (ni_id (sw_local_node s)) (ni_incarnation (sw_local_node s))
      (get_gossip_updates env 0 s))]"
    using gossip_settled[OF assms(2,3)] by simp
  moreover have "sent = [] \<or> sent = [(ni_id target, Ping (ni_id (sw_local_node s))
      (ni_incarnation (sw_local_node s)) (get_gossip_updates env 0 s))]"
    using assms(1) unfolding send_ping_def Let_def by (auto split: result.splits option.splits)
  ultimately show "sends_ok sent" by auto
  show "quiet s s'"
    using assms(1) unfolding send_ping_def Let_def quiet_def by (auto split: result.splits option.splits)
qed

lemma send_to_proxies_ok: "message_ok m \<Longrightarrow> sends_ok (fst (send_to_proxies env m ps))"
  by (induction ps) (auto split: result.splits prod.splits)

text \<open>
  While \<open>indirect_ping\<close> sleeps it holds the membership exclusively, so no answer is recorded: the
  request it reads back is the one it stored.
\<close>

lemma indirect_ping_quiet:
  assumes "indirect_ping env target proxies s = (s', sent, r)"
  shows "quiet s s' \<and> sends_ok sent \<and> r \<noteq> Ok True"
  using assms send_to_proxies_ok[of "IndirectPing (ni_id (sw_local_node s)) (ni_id target) (sw_request_id_counter s)" env proxies]
  by (auto simp: indirect_ping_def Let_def quiet_def split: result.splits prod.splits)

definition good :: "node_id \<Rightarrow> swim \<Rightarrow> swim \<times> swim_envelope list \<times> 'r \<Rightarrow> bool" where
  "good p s x = (view_ok p (fst x) \<and> keeps_dead s (fst x) \<and> sends_ok (fst (snd x)))"

lemma good_triple [simp]: "good p s (s1, sent, r) = (view_ok p s1 \<and> keeps_dead s s1 \<and> sends_ok sent)"
  by (simp add: good_def)

lemma below_max_iff:
  "hm_ok (sw_members s) \<Longrightarrow>
     below_max s \<longleftrightarrow> (\<forall>k n. hm_get (sw_members s) k = Some n \<longrightarrow> ni_incarnation n \<noteq> - 1)"
  by (auto simp: below_max_def sw_nodes_def list_all_iff hm_entry[symmetric])

lemma mark_suspect_below:
  assumes "view_ok p s" "below_max s"
  shows "below_max (mark_suspect now k s)"
proof -
  have "hm_ok (sw_members (mark_suspect now k s))" "hm_ok (sw_members s)"
    using mark_suspect_ok[OF assms] assms(1) by (auto simp: view_ok_def)
  then show ?thesis
    using assms(2) view_ok_member[OF assms(1)]
    by (auto simp: below_max_iff mark_suspect_def set_member_def update_status_def settled_def
        split: option.splits if_splits)
qed

lemma handle_ping_timeout_good:
  assumes "view_ok p s" "below_max s"
  shows "good p s (handle_ping_timeout env after target s)
         \<and> below_max (fst (handle_ping_timeout env after target s))"
proof -
  let ?ps = "select_proxy_nodes env (ni_id target) (sc_indirect_ping_count (sw_config s)) s"
  obtain s1 sent r where ip: "indirect_ping env target ?ps s = (s1, sent, r)" by (metis prod.collapse)
  note quiet = indirect_ping_quiet[OF ip]
  then have one: "view_ok p s1 \<and> keeps_dead s s1" "below_max s1"
    using quiet_ok assms quiet_below_max by blast+
  have "view_ok p (mark_suspect after (ni_id target) s1) \<and> keeps_dead s (mark_suspect after (ni_id target) s1)"
    using mark_suspect_ok[OF conjunct1[OF one(1)] one(2)] one(1) keeps_dead_trans by blast
  then show ?thesis
    using ip quiet one mark_suspect_ok[OF assms] mark_suspect_below[OF assms]
      mark_suspect_below[OF conjunct1[OF one(1)] one(2)]
    by (cases r) (auto simp: handle_ping_timeout_def good_def Let_def)
qed

lemma ping_phase_good:
  assumes "view_ok p s" "below_max s" "shuffle_ok env"
  shows "good p s (ping_phase env after s) \<and> below_max (fst (ping_phase env after s))"
proof (cases "select_ping_target env s")
  case None
  then show ?thesis using assms by (simp add: ping_phase_def good_def)
next
  case (Some target)
  obtain s1 sent r where sp: "send_ping env target s = (s1, sent, r)" by (metis prod.collapse)
  note quiet = send_ping_quiet[OF sp assms(3,1)]
  then have one: "view_ok p s1 \<and> keeps_dead s s1" "below_max s1"
    using quiet_ok assms quiet_below_max by blast+
  obtain s2 sent2 q where hp: "handle_ping_timeout env after target s1 = (s2, sent2, q)"
    by (metis prod.collapse)
  have two: "good p s1 (s2, sent2, q) \<and> below_max s2"
    using handle_ping_timeout_good[OF conjunct1[OF one(1)] one(2), of env after target] by (simp add: hp)
  then have "keeps_dead s s2" using one keeps_dead_trans by (auto simp: good_def)
  then show ?thesis
    using Some sp quiet one two hp by (cases r) (auto simp: ping_phase_def good_def)
qed

lemma gossip_sends_ok:
  assumes "shuffle_ok env" "view_ok p s"
  shows "sends_ok (fst (gossip_updates env s))"
  using gossip_settled[OF assms, of 3]
  by (auto simp: gossip_updates_def Let_def sends_ok_def list_all_iff split: result.splits)

lemma round_good:
  assumes "view_ok p s" "below_max s" "shuffle_ok env"
  shows "good p s (execute_protocol_round env after late s)"
proof (cases "en_now env - sw_last_protocol_round s < duration_from_millis (sc_protocol_period_ms (sw_config s))")
  case True
  then show ?thesis using assms by (simp add: execute_protocol_round_def good_def)
next
  case False
  let ?s0 = "s\<lparr>sw_last_protocol_round := en_now env\<rparr>"
  have q0: "quiet s ?s0" by (simp add: quiet_def)
  note zero = quiet_ok[OF assms(1) q0]
  have "below_max ?s0" using quiet_below_max[OF q0] assms(2) by simp
  note phase = ping_phase_good[OF conjunct1[OF zero] this assms(3), of after]
  obtain s1 sent r where pp: "ping_phase env after ?s0 = (s1, sent, r)" by (metis prod.collapse)
  have one: "view_ok p s1" "keeps_dead s s1" "sends_ok sent" "below_max s1"
    using phase pp zero keeps_dead_trans by (auto simp: good_def)
  let ?s2 = "process_suspicion_timeouts after s1"
  have "view_ok p ?s2 \<and> keeps_dead s1 ?s2"
    unfolding process_suspicion_timeouts_def
    by (rule fold_mark_failed_ok[OF one(1)])
       (use one(1) below_max_member[OF one(4)] in \<open>auto simp: view_ok_def\<close>)
  then have two: "view_ok p ?s2" "keeps_dead s ?s2" using one(2) keeps_dead_trans by blast+
  have "quiet ?s2 (cleanup_expired_indirect_pings late ?s2)"
    by (simp add: quiet_def cleanup_expired_indirect_pings_def)
  then have three: "view_ok p (cleanup_expired_indirect_pings late ?s2)"
    "keeps_dead s (cleanup_expired_indirect_pings late ?s2)"
    using quiet_ok[OF two(1)] two(2) keeps_dead_trans by blast+
  show ?thesis
    using False pp one two three gossip_sends_ok[OF assms(3) two(1)]
    by (auto simp: execute_protocol_round_def good_def Let_def split: result.splits prod.splits)
qed

lemma update_then_process_ok:
  assumes "view_ok p s" "i = 0" "list_all settled us"
  shows "view_ok p (process_membership_updates now us (update_node_info now k Alive i s))
         \<and> keeps_dead s (process_membership_updates now us (update_node_info now k Alive i s))"
proof -
  have one: "view_ok p (update_node_info now k Alive i s) \<and> keeps_dead s (update_node_info now k Alive i s)"
    using assms by (intro update_node_info_ok) auto
  from process_updates_ok[OF conjunct1[OF this] assms(3)] one keeps_dead_trans show ?thesis by blast
qed

lemma handle_ping_good:
  assumes "view_ok p s" "shuffle_ok env" "message_ok (Ping source i us)"
  shows "good p s (handle_ping env source i us s)"
proof -
  let ?s2 = "process_membership_updates (en_system env) us (update_node_info (en_system env) source Alive i s)"
  have two: "view_ok p ?s2 \<and> keeps_dead s ?s2" using assms by (intro update_then_process_ok) auto
  then have "ni_incarnation (sw_local_node ?s2) = 0" by (simp add: view_ok_def)
  with two gossip_settled[OF assms(2) conjunct1[OF two], of 0] show ?thesis
    by (auto simp: handle_ping_def good_def Let_def split: result.splits)
qed

lemma answer_indirect_good:
  "view_ok p s1 \<Longrightarrow> keeps_dead s s1 \<Longrightarrow> sends_ok sent \<Longrightarrow>
     good p s (answer_indirect env source target rid ok s1 sent)"
  by (auto simp: answer_indirect_def good_def Let_def split: result.splits)

lemma handle_indirect_ping_good:
  assumes "view_ok p s" "shuffle_ok env"
  shows "good p s (handle_indirect_ping env source target rid s)"
proof (cases "hm_get (sw_members s) target")
  case None
  then show ?thesis using assms by (simp add: handle_indirect_ping_def answer_indirect_good)
next
  case (Some n)
  obtain s1 sent r where sp: "send_ping env n s = (s1, sent, r)" by (metis prod.collapse)
  note quiet = send_ping_quiet[OF sp assms(2,1)]
  then have one: "view_ok p s1" "keeps_dead s s1" using quiet_ok assms(1) by blast+
  then show ?thesis
    using Some sp quiet by (cases r) (auto simp: handle_indirect_ping_def answer_indirect_good)
qed

lemma handle_indirect_ack_good:
  assumes "view_ok p s"
  shows "good p s (handle_indirect_ack env target rid ok s)"
proof (cases "hm_get (sw_pending_indirect_pings s) rid")
  case None
  then show ?thesis using assms by (simp add: handle_indirect_ack_def good_def)
next
  case (Some r)
  let ?s1 = "s\<lparr>sw_pending_indirect_pings := hm_insert rid (r\<lparr>ip_responses_received := ip_responses_received r + 1\<rparr>)
      (sw_pending_indirect_pings s)\<rparr>"
  let ?s2 = "update_node_info (en_system env) target Alive 0 ?s1"
  have one: "view_ok p ?s1 \<and> keeps_dead s ?s1" by (rule quiet_ok[OF assms]) (simp add: quiet_def)
  have two: "view_ok p ?s2 \<and> keeps_dead ?s1 ?s2" using one by (intro update_node_info_ok) auto
  let ?s3 = "?s2\<lparr>sw_suspects := removeAll target (sw_suspects ?s2)\<rparr>"
  have "view_ok p ?s3 \<and> keeps_dead ?s2 ?s3"
    using two view_ok_cong[of p ?s2 ?s3] keeps_dead_members[of ?s3 ?s2]
    by (auto simp: view_ok_def distinct_removeAll)
  then have "view_ok p ?s3 \<and> keeps_dead s ?s3" using one two keeps_dead_trans by blast
  then show ?thesis using Some one by (cases ok) (simp_all add: handle_indirect_ack_def good_def Let_def)
qed

lemma handle_swim_message_good:
  assumes "view_ok p s" "shuffle_ok env" "message_ok m"
  shows "good p s (handle_swim_message env m s)"
proof (cases m)
  case (Ack source i us)
  then show ?thesis
    using assms update_then_process_ok[OF assms(1), of i us]
    by (simp add: handle_swim_message_def handle_ack_def good_def)
qed (use assms in \<open>simp_all add: handle_swim_message_def handle_ping_good handle_indirect_ping_good
       handle_indirect_ack_good process_updates_ok\<close>)

definition cluster_ok :: "swim_cluster \<Rightarrow> bool" where
  "cluster_ok x = ((\<forall>p. view_ok p (fst x p)) \<and> (\<forall>(d, m)\<in>snd x. message_ok m))"

lemma good_step:
  assumes "cluster_ok (c, net)" "good p (c p) (s, sent, r)"
  shows "cluster_ok (c(p := s), net \<union> set sent) \<and> (\<forall>q. keeps_dead (c q) ((c(p := s)) q))"
  using assms by (auto simp: cluster_ok_def good_def sends_ok_def list_all_iff)

lemma bounded_step_ok:
  assumes "bounded_step x y" "cluster_ok x"
  shows "cluster_ok y \<and> (\<forall>q. keeps_dead (fst x q) (fst y q))"
proof -
  have step: "swim_step x y" and bounded: "\<And>p. below_max (fst x p)"
    using assms(1) by (auto simp: bounded_step_def)
  from step show ?thesis
  proof cases
    case (round env after late c p s sent r net)
    then have "good p (c p) (s, sent, r)"
      using round_good[of p "c p" env after late] assms(2) bounded[of p] by (auto simp: cluster_ok_def)
    then show ?thesis using good_step[of c net p s sent r] assms(2) round(1,2) by simp
  next
    case (deliver env p m net c s sent r)
    then have "good p (c p) (s, sent, r)"
      using handle_swim_message_good[of p "c p" env m] assms(2) by (auto simp: cluster_ok_def)
    then show ?thesis using good_step[of c net p s sent r] assms(2) deliver(1,2) by simp
  qed
qed

lemma bounded_steps_ok:
  "bounded_step\<^sup>*\<^sup>* x y \<Longrightarrow> cluster_ok x \<Longrightarrow> cluster_ok y \<and> (\<forall>q. keeps_dead (fst x q) (fst y q))"
proof (induction rule: rtranclp_induct)
  case (step y z)
  then show ?case using bounded_step_ok[of y z] keeps_dead_trans by blast
qed simp

text \<open>
  A cluster at the start: every node knows its members alive with incarnation 0, as \<open>NodeInfo::new\<close>
  makes them.
\<close>

definition fresh_view :: "node_id \<Rightarrow> swim \<Rightarrow> bool" where
  "fresh_view p s =
     (ni_id (sw_local_node s) = p \<and> ni_incarnation (sw_local_node s) = 0 \<and> hm_ok (sw_members s)
      \<and> sw_suspects s = []
      \<and> list_all (\<lambda>(k, n). ni_id n = k \<and> ni_status n = Alive \<and> ni_incarnation n = 0) (sw_members s))"

lemma fresh_view_ok: "fresh_view p s \<Longrightarrow> view_ok p s"
  by (auto simp: fresh_view_def view_ok_def settled_def list_all_iff dest!: map_of_SomeD)

text \<open>
  C24: a suspicion is never refuted. A node that suspects another raises the other's incarnation
  number, but the accused node never raises its own: its pings and acknowledgements keep incarnation 0
  and are ignored, and so is a successful indirect ping. In every execution of the protocol, with
  messages delayed, reordered, duplicated or lost, once a node holds a member as suspect or failed it
  never holds it as alive again, however reachable the member is.
\<close>

theorem suspicion_is_permanent:
  assumes "\<forall>p. fresh_view p (c0 p)"
    and "bounded_step\<^sup>*\<^sup>* (c0, {}) (c, net)" "bounded_step\<^sup>*\<^sup>* (c, net) (c', net')"
    and "hm_get (sw_members (c p)) t = Some n" "ni_status n \<noteq> Alive"
  shows "\<exists>n'. hm_get (sw_members (c' p)) t = Some n' \<and> ni_status n' \<noteq> Alive"
proof -
  have "cluster_ok (c0, {})" using assms(1) fresh_view_ok by (simp add: cluster_ok_def)
  then have "cluster_ok (c, net)" using bounded_steps_ok[OF assms(2)] by simp
  then have "keeps_dead (c p) (c' p)" using bounded_steps_ok[OF assms(3)] by simp
  then show ?thesis using assms(4,5) by (auto simp: keeps_dead_def)
qed

definition sample_view :: "node_id \<Rightarrow> swim" where
  "sample_view p =
     (let local_node = node_info_new 0 p (Tcp ''a:1'');
          s = swim_new 0 local_node \<lparr>sc_protocol_period_ms = 0, sc_failure_timeout_ms = 5000,
                sc_indirect_ping_count = 3, sc_gossip_fanout = 3, sc_suspicion_multiplier = 3,
                sc_max_failure_detector_history = 100\<rparr> in
      if p = 2 then s else add_member (node_info_new 0 2 (Tcp ''b:1'')) s)"

definition refused_env :: swim_env where
  "refused_env = \<lparr>en_now = 1, en_system = 0, en_encode = (\<lambda>m. Ok []),
     en_router = (\<lambda>d m. Some (Err (RouterError ''connection refused''))), en_choose = 0,
     en_shuffle = (\<lambda>k xs. xs)\<rparr>"

definition suspecting :: "(node_id \<Rightarrow> swim) \<times> swim_envelope set" where
  "suspecting = (case execute_protocol_round refused_env 0 1 (sample_view 1) of
     (s, sent, r) \<Rightarrow> (sample_view(1 := s), set sent))"

lemma sample_view_fresh: "fresh_view p (sample_view p)"
  by (auto simp: fresh_view_def sample_view_def swim_new_def node_info_new_def add_member_def Let_def hm_ok_def
      hm_insert_def)

lemma sample_view_below: "below_max (sample_view p)"
  by (auto simp: below_max_def sw_nodes_def sample_view_def swim_new_def node_info_new_def add_member_def
      Let_def hm_insert_def)

lemma suspecting_reached: "bounded_step\<^sup>*\<^sup>* (sample_view, {}) suspecting"
proof -
  obtain s sent r where e: "execute_protocol_round refused_env 0 1 (sample_view 1) = (s, sent, r)"
    by (metis prod.collapse)
  then have suspected: "suspecting = (sample_view(1 := s), set sent)" unfolding suspecting_def by simp
  have "shuffle_ok refused_env" by (simp add: shuffle_ok_def refused_env_def)
  from swim_step.round[where c = sample_view and p = 1, OF this e, of "{}"] show ?thesis
    using sample_view_below suspected by (auto simp: bounded_step_def intro!: r_into_rtranclp)
qed

lemma suspecting_holds:
  "\<exists>n. hm_get (sw_members (fst suspecting 1)) 2 = Some n \<and> ni_status n = Suspect \<and> ni_incarnation n = 1"
  by (simp add: suspecting_def execute_protocol_round_def ping_phase_def select_ping_target_def alive_others_def
      sw_nodes_def sample_view_def swim_new_def node_info_new_def add_member_def Let_def hm_insert_def
      refused_env_def send_ping_def encode_err_def handle_ping_timeout_def select_proxy_nodes_def
      mark_suspect_def set_member_def update_status_def status_is_alive_def process_suspicion_timeouts_def
      suspicion_expired_def time_since_last_seen_def system_time_millis_def duration_since_def or_zero_def
      as_millis_def duration_from_millis_def saturating_sub_def gossip_updates_def select_gossip_targets_def
      get_gossip_updates_def cleanup_expired_indirect_pings_def suspicion_timeout_def)

theorem suspicion_is_permanent_witness:
  "\<exists>n'. hm_get (sw_members (fst suspecting 1)) 2 = Some n' \<and> ni_status n' \<noteq> Alive"
proof -
  obtain n where n: "hm_get (sw_members (fst suspecting 1)) 2 = Some n" "ni_status n \<noteq> Alive"
    using suspecting_holds by auto
  have reached: "bounded_step\<^sup>*\<^sup>* (sample_view, {}) (fst suspecting, snd suspecting)"
    using suspecting_reached by simp
  show ?thesis
    using suspicion_is_permanent[OF _ reached rtranclp.rtrancl_refl n] sample_view_fresh by blast
qed

text \<open>
  an unanswered ping makes the target a suspect, whatever the proxies say. The indirect ping
  sleeps while it holds the membership, so the answers of the proxies cannot be counted: it never
  reports success, and when \<open>handle_ping_timeout\<close> returns an alive target is a suspect with the next
  incarnation number, recorded among the suspects; no other member changes.
\<close>

theorem failed_ping_suspects:
  assumes "handle_ping_timeout env after target s = (s', sent, Ok ())"
    and "hm_get (sw_members s) (ni_id target) = Some n" "ni_status n = Alive" "ni_incarnation n \<noteq> - 1"
  shows "(\<exists>n'. hm_get (sw_members s') (ni_id target) = Some n' \<and> ni_status n' = Suspect
            \<and> ni_incarnation n' = ni_incarnation n + 1)
     \<and> ni_id target \<in> set (sw_suspects s')
     \<and> (\<forall>k. k \<noteq> ni_id target \<longrightarrow> hm_get (sw_members s') k = hm_get (sw_members s) k)"
proof -
  let ?ps = "select_proxy_nodes env (ni_id target) (sc_indirect_ping_count (sw_config s)) s"
  obtain s1 sent1 r where ip: "indirect_ping env target ?ps s = (s1, sent1, r)" by (metis prod.collapse)
  note quiet = indirect_ping_quiet[OF ip]
  have "s' = mark_suspect (en_system env) (ni_id target) s \<or> s' = mark_suspect after (ni_id target) s1"
    using assms(1) ip quiet by (cases r) (auto simp: handle_ping_timeout_def Let_def split: if_splits)
  then obtain now s0 where s': "s' = mark_suspect now (ni_id target) s0" "sw_members s0 = sw_members s"
    using quiet by (auto simp: quiet_def)
  then show ?thesis
    using assms(2,3) word_plus_one_nonzero[OF assms(4)]
    by (auto simp: mark_suspect_def set_member_def update_status_def)
qed

definition pinged :: node_info where
  "pinged = node_info_new 0 2 (Tcp ''b:1'')"

theorem failed_ping_suspects_witness:
  "2 \<in> set (sw_suspects (fst (handle_ping_timeout refused_env 0 pinged (sample_view 1))))"
proof -
  have e: "handle_ping_timeout refused_env 0 pinged (sample_view 1)
      = (fst (handle_ping_timeout refused_env 0 pinged (sample_view 1)), [], Ok ())"
    by (simp add: handle_ping_timeout_def select_proxy_nodes_def alive_others_def sw_nodes_def sample_view_def
        swim_new_def node_info_new_def add_member_def Let_def hm_insert_def refused_env_def pinged_def)
  have "hm_get (sw_members (sample_view 1)) (ni_id pinged) = Some pinged"
    "ni_status pinged = Alive" "ni_incarnation pinged \<noteq> - 1"
    by (simp_all add: sample_view_def swim_new_def node_info_new_def add_member_def Let_def pinged_def)
  from failed_ping_suspects[OF e this] show ?thesis by (simp add: pinged_def node_info_new_def)
qed

end
