(* ===== verification/Mux_Backpressure.thy ===== *)
theory Mux_Backpressure
  imports Clocks "HOL-Library.Multiset"
begin

text \<open>
  Credit-based flow control, \<^verbatim>\<open>src/kaelix-core/src/multiplexing/backpressure.rs\<close>, with the error type
  of \<^verbatim>\<open>multiplexing/error.rs\<close>. A 32-bit signed integer is an \<open>int\<close> whose arithmetic wraps. The
  multipliers are tenths: for 32-bit amounts the truncated product with the floating-point constant is
  the integer quotient by ten, and the comparisons of ratios with \<open>0.1\<close>, \<open>0.2\<close> and \<open>0.3\<close> are the
  comparisons of the counts. The derived ratios of the metrics are left out.
\<close>

section \<open>Errors and signed integers\<close>

type_synonym stream_id = u64
type_synonym i32 = int

definition wrap32 :: "int \<Rightarrow> i32" where
  "wrap32 x = (x + 2 ^ 31) mod 2 ^ 32 - 2 ^ 31"

definition in_i32 :: "int \<Rightarrow> bool" where
  "in_i32 x = (- (2 ^ 31) \<le> x \<and> x < 2 ^ 31)"

definition as_u64 :: "int \<Rightarrow> u64" where
  "as_u64 x = of_int x"

definition signed_decimal :: "int \<Rightarrow> string" where
  "signed_decimal x = (if x < 0 then CHR ''-'' # decimal (nat (- x)) else decimal (nat x))"

definition trunc_div :: "int \<Rightarrow> int \<Rightarrow> int" where
  "trunc_div a b = (if a < 0 then - ((- a) div b) else a div b)"

definition saturate_i32 :: "int \<Rightarrow> i32" where
  "saturate_i32 x = max (- (2 ^ 31)) (min (2 ^ 31 - 1) x)"

datatype multiplexer_error =
    StreamErr string
  | RoutingErr string
  | BackpressureErr string
  | ResourceExhaustedErr string
  | ConfigurationErr string
  | NetworkErr string
  | SystemErr string
  | InternalErr string

lemma wrap32_id [simp]: "in_i32 x \<Longrightarrow> wrap32 x = x"
  by (simp add: wrap32_def in_i32_def)

text \<open>Replacing one of several queues or buckets changes their joint contents by the difference.\<close>

lemma mset_concat_update:
  assumes "i < length xs"
  shows "mset (concat (xs[i := y])) + mset (xs ! i) = mset (concat xs) + mset y"
proof -
  have "concat xs = concat (take i xs) @ xs ! i @ concat (drop (Suc i) xs)"
    using assms by (metis concat.simps(2) concat_append id_take_nth_drop)
  moreover have "concat (xs[i := y]) = concat (take i xs) @ y @ concat (drop (Suc i) xs)"
    using assms by (simp add: upd_conv_take_nth_drop)
  ultimately show ?thesis by (simp del: mset_concat)
qed

section \<open>Levels and configuration\<close>

datatype backpressure_level = LevelNone | LevelLight | LevelModerate | LevelHeavy | LevelCritical

definition level_rank :: "backpressure_level \<Rightarrow> nat" where
  "level_rank l = (case l of LevelNone \<Rightarrow> 0 | LevelLight \<Rightarrow> 1 | LevelModerate \<Rightarrow> 2 | LevelHeavy \<Rightarrow> 3 | LevelCritical \<Rightarrow> 4)"

definition delay_tenths :: "backpressure_level \<Rightarrow> int" where
  "delay_tenths l =
     (case l of LevelNone \<Rightarrow> 10 | LevelLight \<Rightarrow> 12 | LevelModerate \<Rightarrow> 15 | LevelHeavy \<Rightarrow> 20 | LevelCritical \<Rightarrow> 30)"

definition credit_tenths :: "backpressure_level \<Rightarrow> int" where
  "credit_tenths l =
     (case l of LevelNone \<Rightarrow> 10 | LevelLight \<Rightarrow> 11 | LevelModerate \<Rightarrow> 13 | LevelHeavy \<Rightarrow> 16 | LevelCritical \<Rightarrow> 20)"

definition DEFAULT_INITIAL_CREDITS :: i32 where
  "DEFAULT_INITIAL_CREDITS = 1000"

record backpressure_config =
  bp_initial_credits :: i32
  bp_backpressure_threshold :: i32
  bp_max_refill_rate :: u64
  bp_adaptive_enabled :: bool
  bp_propagation_enabled :: bool
  bp_global_monitoring :: bool
  bp_refill_interval_ms :: u64

definition adaptive_backpressure :: backpressure_config where
  "adaptive_backpressure = \<lparr>bp_initial_credits = 2000, bp_backpressure_threshold = 200,
     bp_max_refill_rate = 20000, bp_adaptive_enabled = True, bp_propagation_enabled = True,
     bp_global_monitoring = True, bp_refill_interval_ms = 10\<rparr>"

definition conservative_backpressure :: backpressure_config where
  "conservative_backpressure = \<lparr>bp_initial_credits = 500, bp_backpressure_threshold = 50,
     bp_max_refill_rate = 5000, bp_adaptive_enabled = False, bp_propagation_enabled = False,
     bp_global_monitoring = False, bp_refill_interval_ms = 100\<rparr>"

record backpressure_metrics =
  bpm_backpressure_events :: u64
  bpm_credits_consumed :: u64
  bpm_credits_refilled :: u64
  bpm_streams_under_pressure :: usize
  bpm_propagation_events :: u64
  bpm_critical_pressure_events :: u64

definition default_backpressure_metrics :: backpressure_metrics where
  "default_backpressure_metrics = \<lparr>bpm_backpressure_events = 0, bpm_credits_consumed = 0,
     bpm_credits_refilled = 0, bpm_streams_under_pressure = 0, bpm_propagation_events = 0,
     bpm_critical_pressure_events = 0\<rparr>"

section \<open>The credits of a stream\<close>

record credit_state =
  cr_credits :: i32
  cr_last_refill :: instant
  cr_pressure_level :: backpressure_level
  cr_total_consumed :: u64
  cr_total_refilled :: u64

definition credit_state_new :: "instant \<Rightarrow> i32 \<Rightarrow> credit_state" where
  "credit_state_new now initial = \<lparr>cr_credits = initial, cr_last_refill = now,
     cr_pressure_level = LevelNone, cr_total_consumed = 0, cr_total_refilled = 0\<rparr>"

definition insufficient :: "i32 \<Rightarrow> i32 \<Rightarrow> multiplexer_error" where
  "insufficient current amount = BackpressureErr (''Insufficient credits: '' @ signed_decimal current
     @ '' available, '' @ signed_decimal amount @ '' required'')"

definition try_consume :: "i32 \<Rightarrow> credit_state \<Rightarrow> credit_state \<times> (i32, multiplexer_error) result" where
  "try_consume amount st =
     (let current = cr_credits st; taken = wrap32 (current - amount) in
      if current < amount
      then (st\<lparr>cr_credits := wrap32 (taken + amount)\<rparr>, Err (insufficient current amount))
      else (st\<lparr>cr_credits := taken, cr_total_consumed := cr_total_consumed st + as_u64 amount\<rparr>,
            Ok (wrap32 (current - amount))))"

definition refill_amount :: "instant \<Rightarrow> u64 \<Rightarrow> credit_state \<Rightarrow> i32" where
  "refill_amount now max_refill_rate st =
     (let millis = of_nat (as_millis (now - cr_last_refill st)) :: u64 in
      wrap32 (uint ((millis * max_refill_rate) div 1000)))"

definition stream_refill :: "instant \<Rightarrow> u64 \<Rightarrow> credit_state \<Rightarrow> credit_state" where
  "stream_refill now max_refill_rate st =
     (let amount = refill_amount now max_refill_rate st; st1 = st\<lparr>cr_last_refill := now\<rparr> in
      if 0 < amount then
        let current = cr_credits st1;
            new_credits = min (wrap32 (current + amount)) DEFAULT_INITIAL_CREDITS;
            actual_refill = wrap32 (new_credits - current) in
        if 0 < actual_refill
        then st1\<lparr>cr_credits := new_credits, cr_total_refilled := cr_total_refilled st1 + as_u64 actual_refill\<rparr>
        else st1
      else st1)"

definition level_of_credits :: "i32 \<Rightarrow> i32 \<Rightarrow> backpressure_level" where
  "level_of_credits threshold credits =
     (if credits \<le> 0 then LevelCritical
      else if credits < trunc_div threshold 4 then LevelHeavy
      else if credits < trunc_div threshold 2 then LevelModerate
      else if credits < threshold then LevelLight
      else LevelNone)"

definition update_pressure_level :: "i32 \<Rightarrow> credit_state \<Rightarrow> credit_state \<times> backpressure_level" where
  "update_pressure_level threshold st =
     (let level = level_of_credits threshold (cr_credits st) in (st\<lparr>cr_pressure_level := level\<rparr>, level))"

section \<open>The propagation graph\<close>

record propagation_graph =
  pg_upstream :: "(stream_id, stream_id list) hash_map"
  pg_downstream :: "(stream_id, stream_id list) hash_map"

definition graph_add_dependency :: "stream_id \<Rightarrow> stream_id \<Rightarrow> propagation_graph \<Rightarrow> propagation_graph" where
  "graph_add_dependency downstream_id upstream_id g =
     g\<lparr>pg_upstream := set_insert downstream_id upstream_id (pg_upstream g),
       pg_downstream := set_insert upstream_id downstream_id (pg_downstream g)\<rparr>"

definition get_propagation_targets :: "stream_id \<Rightarrow> propagation_graph \<Rightarrow> stream_id list" where
  "get_propagation_targets stream g = hm_get_or [] (pg_upstream g) stream"

definition drop_upstream :: "stream_id \<Rightarrow> propagation_graph \<Rightarrow> propagation_graph" where
  "drop_upstream stream g =
     (case hm_get (pg_upstream g) stream of
        None \<Rightarrow> g
      | Some us \<Rightarrow> g\<lparr>pg_upstream := hm_remove stream (pg_upstream g),
                     pg_downstream := fold (\<lambda>u. set_remove u stream) us (pg_downstream g)\<rparr>)"

definition drop_downstream :: "stream_id \<Rightarrow> propagation_graph \<Rightarrow> propagation_graph" where
  "drop_downstream stream g =
     (case hm_get (pg_downstream g) stream of
        None \<Rightarrow> g
      | Some ds \<Rightarrow> g\<lparr>pg_downstream := hm_remove stream (pg_downstream g),
                     pg_upstream := fold (\<lambda>d. set_remove d stream) ds (pg_upstream g)\<rparr>)"

definition graph_remove_stream :: "stream_id \<Rightarrow> propagation_graph \<Rightarrow> propagation_graph" where
  "graph_remove_stream stream g = drop_downstream stream (drop_upstream stream g)"

section \<open>The manager\<close>

record backpressure_manager =
  mg_stream_states :: "(stream_id, credit_state) hash_map"
  mg_propagation_graph :: propagation_graph
  mg_config :: backpressure_config
  mg_metrics :: backpressure_metrics
  mg_global_pressure :: backpressure_level
  mg_refill_queue :: "stream_id list"
  mg_created_at :: instant

definition manager_new :: "instant \<Rightarrow> backpressure_config \<Rightarrow> backpressure_manager" where
  "manager_new now cfg = \<lparr>mg_stream_states = [],
     mg_propagation_graph = \<lparr>pg_upstream = [], pg_downstream = []\<rparr>, mg_config = cfg,
     mg_metrics = default_backpressure_metrics, mg_global_pressure = LevelNone, mg_refill_queue = [],
     mg_created_at = now\<rparr>"

definition bp_register_stream ::
    "instant \<Rightarrow> stream_id \<Rightarrow> backpressure_manager \<Rightarrow> backpressure_manager \<times> (unit, multiplexer_error) result" where
  "bp_register_stream now stream m =
     (if hm_get (mg_stream_states m) stream \<noteq> None
      then (m, Err (StreamErr (''Stream '' @ decimal (unat stream) @ '' already registered for backpressure management'')))
      else (m\<lparr>mg_stream_states :=
                hm_insert stream (credit_state_new now (bp_initial_credits (mg_config m))) (mg_stream_states m)\<rparr>, Ok ()))"

definition bp_unregister_stream :: "stream_id \<Rightarrow> backpressure_manager \<Rightarrow> backpressure_manager" where
  "bp_unregister_stream stream m =
     m\<lparr>mg_stream_states := hm_remove stream (mg_stream_states m),
       mg_propagation_graph := graph_remove_stream stream (mg_propagation_graph m)\<rparr>"

definition level_count :: "backpressure_level \<Rightarrow> backpressure_manager \<Rightarrow> nat" where
  "level_count l m = length (filter (\<lambda>(k, st). cr_pressure_level st = l) (mg_stream_states m))"

definition update_global_pressure :: "backpressure_manager \<Rightarrow> backpressure_manager" where
  "update_global_pressure m =
     (let total = length (mg_stream_states m) in
      if total = 0 then m\<lparr>mg_global_pressure := LevelNone\<rparr>
      else
        m\<lparr>mg_global_pressure :=
            (if total < 10 * level_count LevelCritical m then LevelCritical
             else if total < 5 * level_count LevelHeavy m then LevelHeavy
             else if 3 * total < 10 * level_count LevelModerate m then LevelModerate
             else if 0 < level_count LevelLight m then LevelLight
             else LevelNone),
          mg_metrics := (mg_metrics m)\<lparr>bpm_streams_under_pressure := total - level_count LevelNone m\<rparr>\<rparr>)"

definition raise_level :: "backpressure_level \<Rightarrow> credit_state \<Rightarrow> credit_state" where
  "raise_level l st =
     st\<lparr>cr_pressure_level := (if level_rank (cr_pressure_level st) < level_rank l then l else cr_pressure_level st)\<rparr>"

definition propagate_backpressure :: "stream_id \<Rightarrow> backpressure_level \<Rightarrow> backpressure_manager \<Rightarrow> backpressure_manager" where
  "propagate_backpressure source level m =
     (if level = LevelNone then m
      else fold (\<lambda>target m.
             case hm_get (mg_stream_states m) target of
               None \<Rightarrow> m
             | Some st \<Rightarrow> m\<lparr>mg_stream_states := hm_insert target (raise_level level st) (mg_stream_states m),
                            mg_metrics := (mg_metrics m)\<lparr>bpm_propagation_events := bpm_propagation_events (mg_metrics m) + 1\<rparr>\<rparr>)
             (get_propagation_targets source (mg_propagation_graph m)) m)"

definition effective_amount :: "i32 \<Rightarrow> backpressure_level \<Rightarrow> i32" where
  "effective_amount amount level = saturate_i32 (trunc_div (amount * credit_tenths level) 10)"

definition note_refused :: "backpressure_level \<Rightarrow> backpressure_metrics \<Rightarrow> backpressure_metrics" where
  "note_refused level x =
     x\<lparr>bpm_backpressure_events := bpm_backpressure_events x + 1,
       bpm_critical_pressure_events :=
         bpm_critical_pressure_events x + (if level = LevelCritical then 1 else 0)\<rparr>"

definition try_consume_credits ::
    "instant \<Rightarrow> stream_id \<Rightarrow> i32 \<Rightarrow> backpressure_manager \<Rightarrow> backpressure_manager \<times> (unit, multiplexer_error) result" where
  "try_consume_credits now stream amount m =
     (let st = hm_get_or (credit_state_new now (bp_initial_credits (mg_config m))) (mg_stream_states m) stream;
          effective = effective_amount amount (cr_pressure_level st);
          put = (\<lambda>s. m\<lparr>mg_stream_states := hm_insert stream s (mg_stream_states m)\<rparr>) in
      case try_consume effective st of
        (st1, Ok _) \<Rightarrow>
          ((put st1)\<lparr>mg_metrics := (mg_metrics m)\<lparr>bpm_credits_consumed := bpm_credits_consumed (mg_metrics m) + as_u64 effective\<rparr>\<rparr>,
           Ok ())
      | (st1, Err e) \<Rightarrow>
          (case update_pressure_level (bp_backpressure_threshold (mg_config m)) st1 of
             (st2, level) \<Rightarrow>
               let m1 = (put st2)\<lparr>mg_metrics := note_refused level (mg_metrics m)\<rparr>;
                   m2 = (if bp_propagation_enabled (mg_config m) then propagate_backpressure stream level m1 else m1) in
               (update_global_pressure m2, Err e))
      | (st1, Panic) \<Rightarrow> (put st1, Panic))"

definition bp_add_credits ::
    "stream_id \<Rightarrow> i32 \<Rightarrow> backpressure_manager \<Rightarrow> backpressure_manager \<times> (unit, multiplexer_error) result" where
  "bp_add_credits stream amount m =
     (case hm_get (mg_stream_states m) stream of
        None \<Rightarrow> (m, Err (StreamErr (''Stream '' @ decimal (unat stream) @ '' not found'')))
      | Some st \<Rightarrow>
          let st1 = st\<lparr>cr_credits := wrap32 (cr_credits st + amount), cr_total_refilled := cr_total_refilled st + as_u64 amount\<rparr> in
          (m\<lparr>mg_stream_states :=
               hm_insert stream (fst (update_pressure_level (bp_backpressure_threshold (mg_config m)) st1)) (mg_stream_states m),
             mg_metrics := (mg_metrics m)\<lparr>bpm_credits_refilled := bpm_credits_refilled (mg_metrics m) + as_u64 amount\<rparr>\<rparr>, Ok ()))"

definition bp_add_dependency :: "stream_id \<Rightarrow> stream_id \<Rightarrow> backpressure_manager \<Rightarrow> backpressure_manager" where
  "bp_add_dependency downstream_id upstream_id m =
     m\<lparr>mg_propagation_graph := graph_add_dependency downstream_id upstream_id (mg_propagation_graph m)\<rparr>"

definition get_pressure_level :: "stream_id \<Rightarrow> backpressure_manager \<Rightarrow> backpressure_level" where
  "get_pressure_level stream m =
     (case hm_get (mg_stream_states m) stream of None \<Rightarrow> LevelNone | Some st \<Rightarrow> cr_pressure_level st)"

definition bp_refill_credits :: "instant \<Rightarrow> backpressure_manager \<Rightarrow> backpressure_manager" where
  "bp_refill_credits now m =
     update_global_pressure
       (m\<lparr>mg_stream_states :=
            map (\<lambda>(k, st). (k, fst (update_pressure_level (bp_backpressure_threshold (mg_config m))
                                     (stream_refill now (bp_max_refill_rate (mg_config m)) st))))
              (mg_stream_states m)\<rparr>)"

section \<open>Concurrent use of a stream's credits\<close>

text \<open>
  The atomic steps of tasks that share a stream: \<open>try_consume\<close> subtracts first and, when the credits
  were not enough, adds the amount back in a second step; \<open>add_credits\<close> is one addition; the refill
  loads the credits and stores the new value later. The cell records the amounts to be added back,
  the refills between load and store, and what was consumed and added so far.
\<close>

record credit_cell =
  cc_credits :: i32
  cc_restoring :: "i32 list"
  cc_refilling :: "(i32 \<times> i32) list"
  cc_consumed :: int
  cc_added :: int

definition fresh_cell :: "i32 \<Rightarrow> credit_cell" where
  "fresh_cell k = \<lparr>cc_credits = k, cc_restoring = [], cc_refilling = [], cc_consumed = 0, cc_added = 0\<rparr>"

inductive consume_step :: "credit_cell \<Rightarrow> credit_cell \<Rightarrow> bool" where
  take_enough: "0 \<le> a \<Longrightarrow> a \<le> cc_credits c \<Longrightarrow>
     consume_step c (c\<lparr>cc_credits := wrap32 (cc_credits c - a), cc_consumed := cc_consumed c + a\<rparr>)"
| take_short: "0 \<le> a \<Longrightarrow> cc_credits c < a \<Longrightarrow>
     consume_step c (c\<lparr>cc_credits := wrap32 (cc_credits c - a), cc_restoring := a # cc_restoring c\<rparr>)"
| restore: "a \<in> set (cc_restoring c) \<Longrightarrow>
     consume_step c (c\<lparr>cc_credits := wrap32 (cc_credits c + a), cc_restoring := remove1 a (cc_restoring c)\<rparr>)"
| add: "0 \<le> a \<Longrightarrow>
     consume_step c (c\<lparr>cc_credits := wrap32 (cc_credits c + a), cc_added := cc_added c + a\<rparr>)"

inductive refill_step :: "credit_cell \<Rightarrow> credit_cell \<Rightarrow> bool" where
  load: "0 < amount \<Longrightarrow> new = min (wrap32 (cc_credits c + amount)) DEFAULT_INITIAL_CREDITS \<Longrightarrow>
     0 < wrap32 (new - cc_credits c) \<Longrightarrow>
     refill_step c (c\<lparr>cc_refilling := (new, wrap32 (new - cc_credits c)) # cc_refilling c\<rparr>)"
| store: "(new, actual) \<in> set (cc_refilling c) \<Longrightarrow>
     refill_step c (c\<lparr>cc_credits := new, cc_added := cc_added c + actual,
                      cc_refilling := remove1 (new, actual) (cc_refilling c)\<rparr>)"

definition balance :: "i32 \<Rightarrow> credit_cell \<Rightarrow> int" where
  "balance k c = k + cc_added c - cc_consumed c - sum_list (cc_restoring c)"

definition fitting_step :: "i32 \<Rightarrow> credit_cell \<Rightarrow> credit_cell \<Rightarrow> bool" where
  "fitting_step k c c' = (consume_step c c' \<and> in_i32 (balance k c'))"

lemma sum_list_remove1_int: "a \<in> set xs \<Longrightarrow> sum_list (remove1 a xs) = sum_list xs - (a :: int)"
  by (induction xs) auto

lemma sum_list_nonneg_int: "\<forall>x\<in>set xs. 0 \<le> (x :: int) \<Longrightarrow> 0 \<le> sum_list xs"
  by (induction xs) auto

definition cell_ok :: "i32 \<Rightarrow> credit_cell \<Rightarrow> bool" where
  "cell_ok k c = (cc_credits c = balance k c \<and> in_i32 (balance k c)
     \<and> (\<forall>x\<in>set (cc_restoring c). 0 \<le> x) \<and> cc_consumed c \<le> k + cc_added c)"

lemma fitting_step_ok:
  assumes "fitting_step k c c'" "cell_ok k c"
  shows "cell_ok k c'"
proof -
  have step: "consume_step c c'" and fits: "in_i32 (balance k c')"
    using assms(1) by (auto simp: fitting_step_def)
  have rest: "0 \<le> sum_list (cc_restoring c)" and credits: "cc_credits c = balance k c"
    using assms(2) sum_list_nonneg_int by (auto simp: cell_ok_def)
  have settle: "cc_credits c' = balance k c'" if "cc_credits c' = wrap32 x" "balance k c' = x" for x
    using that fits by simp
  from step show ?thesis
  proof cases
    case (take_enough a)
    have "cc_credits c' = balance k c'"
      by (rule settle[of "cc_credits c - a"]) (use take_enough(1) credits in \<open>simp_all add: balance_def\<close>)
    then show ?thesis
      using fits rest assms(2) take_enough by (simp add: cell_ok_def balance_def)
  next
    case (take_short a)
    have "cc_credits c' = balance k c'"
      by (rule settle[of "cc_credits c - a"]) (use take_short(1) credits in \<open>simp_all add: balance_def\<close>)
    then show ?thesis
      using fits rest assms(2) take_short by (simp add: cell_ok_def balance_def)
  next
    case (restore a)
    have "cc_credits c' = balance k c'"
      by (rule settle[of "cc_credits c + a"])
         (use restore credits in \<open>simp_all add: balance_def sum_list_remove1_int\<close>)
    then show ?thesis
      using fits assms(2) restore by (auto simp: cell_ok_def dest: notin_set_remove1)
  next
    case (add a)
    have "cc_credits c' = balance k c'"
      by (rule settle[of "cc_credits c + a"]) (use add(1) credits in \<open>simp_all add: balance_def\<close>)
    then show ?thesis
      using fits assms(2) add by (simp add: cell_ok_def balance_def)
  qed
qed

text \<open>
  credits are never overdrawn by concurrent consumers. In every interleaving of consuming and
  adding (no refill, no wrap of the 32-bit counter), the credits plus what failed consumers have
  still to give back is the initial amount plus what was added minus what was consumed, so at most
  the initial amount plus the additions is ever consumed, and a consumer that was refused takes
  nothing.
\<close>

theorem credits_never_overdrawn:
  assumes "(fitting_step k)\<^sup>*\<^sup>* (fresh_cell k) c" "0 \<le> k" "in_i32 k"
  shows "cc_credits c + sum_list (cc_restoring c) = k + cc_added c - cc_consumed c
     \<and> cc_consumed c \<le> k + cc_added c"
proof -
  from assms(1) have "cell_ok k c"
  proof (induction rule: rtranclp_induct)
    case base
    show ?case using assms(2,3) by (simp add: cell_ok_def fresh_cell_def balance_def)
  qed (rule fitting_step_ok)
  then show ?thesis by (simp add: cell_ok_def balance_def)
qed

lemma consume_after:
  "0 \<le> a \<Longrightarrow> a \<le> cc_credits c \<Longrightarrow>
   c' = c\<lparr>cc_credits := wrap32 (cc_credits c - a), cc_consumed := cc_consumed c + a\<rparr> \<Longrightarrow> consume_step c c'"
  using consume_step.take_enough by blast

theorem credits_never_overdrawn_witness:
  "\<exists>c. (fitting_step 10)\<^sup>*\<^sup>* (fresh_cell 10) c \<and> cc_consumed c = 4 \<and> cc_credits c = 6"
proof -
  let ?c = "(fresh_cell 10)\<lparr>cc_credits := 6, cc_consumed := 4\<rparr>"
  have "consume_step (fresh_cell 10) ?c"
    by (rule consume_after[of 4]) (simp_all add: fresh_cell_def in_i32_def)
  then have run: "(fitting_step 10)\<^sup>*\<^sup>* (fresh_cell 10) ?c"
    by (intro r_into_rtranclp) (simp add: fitting_step_def balance_def fresh_cell_def in_i32_def)
  have "in_i32 10" by (simp add: in_i32_def)
  from credits_never_overdrawn[OF run _ this] run show ?thesis by (auto simp: fresh_cell_def)
qed

abbreviation credit_run :: "credit_cell \<Rightarrow> credit_cell \<Rightarrow> bool" where
  "credit_run \<equiv> (\<lambda>c c'. consume_step c c' \<or> refill_step c c')\<^sup>*\<^sup>*"

lemma credit_run_refill: "refill_step a b \<Longrightarrow> credit_run b c \<Longrightarrow> credit_run a c"
  by (rule converse_rtranclp_into_rtranclp) blast

lemma credit_run_consume: "consume_step a b \<Longrightarrow> credit_run b c \<Longrightarrow> credit_run a c"
  by (rule converse_rtranclp_into_rtranclp) blast

text \<open>
  a refill undoes concurrent consumption. The refill stores a value computed from credits it
  loaded earlier; credits consumed between the load and the store are given back. A stream with 500
  credits that is refilled by 100 lets its consumers take 1100.
\<close>

theorem refill_race_overdraws:
  "\<exists>c. credit_run (fresh_cell 500) c \<and> cc_added c = 100 \<and> cc_consumed c = 1100 \<and> cc_restoring c = []"
proof -
  let ?c1 = "(fresh_cell 500)\<lparr>cc_refilling := [(600, 100)]\<rparr>"
  let ?c2 = "?c1\<lparr>cc_credits := 0, cc_consumed := 500\<rparr>"
  let ?c3 = "?c2\<lparr>cc_credits := 600, cc_added := 100, cc_refilling := []\<rparr>"
  let ?c4 = "?c3\<lparr>cc_credits := 0, cc_consumed := 1100\<rparr>"
  have "refill_step (fresh_cell 500) ?c1"
    using refill_step.load[of 100 600 "fresh_cell 500"]
    by (simp add: fresh_cell_def DEFAULT_INITIAL_CREDITS_def in_i32_def)
  moreover have "consume_step ?c1 ?c2"
    by (rule consume_after[of 500]) (simp_all add: fresh_cell_def in_i32_def)
  moreover have "refill_step ?c2 ?c3"
    using refill_step.store[of 600 100 ?c2] by (simp add: fresh_cell_def)
  moreover have "consume_step ?c3 ?c4"
    by (rule consume_after[of 600]) (simp_all add: fresh_cell_def in_i32_def)
  ultimately have "credit_run (fresh_cell 500) ?c4"
    by (blast intro: credit_run_refill credit_run_consume)
  then show ?thesis by (intro exI[of _ ?c4]) (simp add: fresh_cell_def)
qed

section \<open>Refill and pressure of one stream\<close>

text \<open>
  what a refill does. When the sum fits 32 bits, the credits grow by the refill amount but never
  beyond 1000, whatever initial amount the configuration gives (the default configuration starts
  streams with 2000), and credits above 1000 are left as they are.
\<close>

theorem refill_capped:
  assumes "in_i32 (cr_credits st)" "in_i32 (cr_credits st + refill_amount now rate st)" "0 \<le> cr_credits st"
  shows "cr_credits (stream_refill now rate st)
     = (if 0 < refill_amount now rate st
        then max (cr_credits st) (min (cr_credits st + refill_amount now rate st) 1000) else cr_credits st)"
proof -
  let ?a = "refill_amount now rate st" and ?c = "cr_credits st"
  have "in_i32 (min (?c + ?a) 1000 - ?c)" if "0 < ?a"
    using assms that by (auto simp: in_i32_def min_def)
  then show ?thesis
    using assms by (simp add: stream_refill_def Let_def DEFAULT_INITIAL_CREDITS_def max_def)
qed

definition idle_credits :: credit_state where
  "idle_credits = \<lparr>cr_credits = 950, cr_last_refill = 0, cr_pressure_level = LevelNone,
     cr_total_consumed = 0, cr_total_refilled = 0\<rparr>"

theorem refill_capped_witness: "cr_credits (stream_refill 10000000 20000 idle_credits) = 1000"
proof -
  have a: "refill_amount 10000000 20000 idle_credits = 200"
    by (simp add: refill_amount_def idle_credits_def as_millis_def in_i32_def)
  show ?thesis
    using refill_capped[of idle_credits 10000000 20000]
    by (simp add: a) (simp add: idle_credits_def in_i32_def)
qed

text \<open>Fewer credits never mean less pressure.\<close>

lemma level_antimono:
  assumes "0 \<le> threshold" "a \<le> b"
  shows "level_rank (level_of_credits threshold b) \<le> level_rank (level_of_credits threshold a)"
  using assms by (auto simp: level_of_credits_def level_rank_def trunc_div_def)

section \<open>The propagation graph stays consistent\<close>

definition up_of :: "propagation_graph \<Rightarrow> stream_id \<Rightarrow> stream_id list" where
  "up_of g d = hm_get_or [] (pg_upstream g) d"

definition down_of :: "propagation_graph \<Rightarrow> stream_id \<Rightarrow> stream_id list" where
  "down_of g u = hm_get_or [] (pg_downstream g) u"

definition graph_ok :: "propagation_graph \<Rightarrow> bool" where
  "graph_ok g = (\<forall>d u. u \<in> set (up_of g d) \<longleftrightarrow> d \<in> set (down_of g u))"

lemma graph_add_ok:
  "graph_ok g \<Longrightarrow> graph_ok (graph_add_dependency d u g)"
  by (auto simp: graph_ok_def up_of_def down_of_def graph_add_dependency_def set_insert_get)

lemma drop_upstream_sets:
  "set (up_of (drop_upstream s g) d) = (if d = s then {} else set (up_of g d))"
  "set (down_of (drop_upstream s g) u) = set (down_of g u) - (if u \<in> set (up_of g s) then {s} else {})"
  by (cases "hm_get (pg_upstream g) s";
      simp add: drop_upstream_def up_of_def down_of_def fold_set_remove_get hm_get_or_remove
        hm_get_or_None hm_get_or_Some)+

lemma drop_downstream_sets:
  "set (down_of (drop_downstream s g) u) = (if u = s then {} else set (down_of g u))"
  "set (up_of (drop_downstream s g) d) = set (up_of g d) - (if d \<in> set (down_of g s) then {s} else {})"
  by (cases "hm_get (pg_downstream g) s";
      simp add: drop_downstream_def up_of_def down_of_def fold_set_remove_get hm_get_or_remove
        hm_get_or_None hm_get_or_Some)+

lemma graph_remove_ok:
  assumes "graph_ok g"
  shows "graph_ok (graph_remove_stream s g)"
    and "set (up_of (graph_remove_stream s g) d) = (if d = s then {} else set (up_of g d) - {s})"
  using assms
  by (auto simp: graph_ok_def graph_remove_stream_def drop_upstream_sets drop_downstream_sets split: if_splits)

datatype graph_op = AddDependency stream_id stream_id | RemoveStream stream_id

fun graph_apply :: "graph_op \<Rightarrow> propagation_graph \<Rightarrow> propagation_graph" where
  "graph_apply (AddDependency d u) g = graph_add_dependency d u g"
| "graph_apply (RemoveStream s) g = graph_remove_stream s g"

definition depends :: "graph_op list \<Rightarrow> stream_id \<Rightarrow> stream_id \<Rightarrow> bool" where
  "depends ops d u =
     fold (\<lambda>op b. case op of AddDependency d' u' \<Rightarrow> b \<or> (d' = d \<and> u' = u) | RemoveStream s \<Rightarrow> b \<and> s \<noteq> d \<and> s \<noteq> u)
       ops False"

lemma graph_run_ok:
  "graph_ok g \<Longrightarrow> graph_ok (fold graph_apply ops g)
   \<and> (u \<in> set (up_of (fold graph_apply ops g) d) \<longleftrightarrow>
      fold (\<lambda>op b. case op of AddDependency d' u' \<Rightarrow> b \<or> (d' = d \<and> u' = u) | RemoveStream s \<Rightarrow> b \<and> s \<noteq> d \<and> s \<noteq> u)
        ops (u \<in> set (up_of g d)))"
proof (induction ops arbitrary: g)
  case (Cons op ops)
  show ?case
  proof (cases op)
    case (AddDependency d' u')
    have "(u \<in> set (up_of (graph_add_dependency d' u' g) d)) = (u \<in> set (up_of g d) \<or> (d' = d \<and> u' = u))"
      by (auto simp: up_of_def graph_add_dependency_def set_insert_get)
    then show ?thesis
      using Cons.IH[OF graph_add_ok[OF Cons.prems, of d' u']] AddDependency by simp
  next
    case (RemoveStream s)
    have "(u \<in> set (up_of (graph_remove_stream s g) d)) = (u \<in> set (up_of g d) \<and> s \<noteq> d \<and> s \<noteq> u)"
      using graph_remove_ok(2)[OF Cons.prems, of s d] by auto
    then show ?thesis
      using Cons.IH[OF graph_remove_ok(1)[OF Cons.prems, of s]] RemoveStream by simp
  qed
qed simp

text \<open>
  the propagation graph. After any sequence of added dependencies and removed streams the two
  indexes of the graph agree, and the streams that backpressure of a stream propagates to are exactly
  its dependencies added since either end was last removed.
\<close>

theorem propagation_graph_consistent:
  "let g = fold graph_apply ops \<lparr>pg_upstream = [], pg_downstream = []\<rparr> in
     (d \<in> set (down_of g u) \<longleftrightarrow> u \<in> set (get_propagation_targets d g))
     \<and> (u \<in> set (get_propagation_targets d g) \<longleftrightarrow> depends ops d u)"
proof -
  have "graph_ok \<lparr>pg_upstream = [], pg_downstream = []\<rparr>"
    by (simp add: graph_ok_def up_of_def down_of_def hm_get_or_def)
  from graph_run_ok[OF this, of ops u d] show ?thesis
    by (auto simp: Let_def graph_ok_def get_propagation_targets_def depends_def up_of_def[symmetric])
       (auto simp: up_of_def hm_get_or_def)
qed

end
