(* ===== verification/Mux_Scheduler.thy ===== *)
theory Mux_Scheduler
  imports Mux_Backpressure
begin

text \<open>
  The multi-level feedback queue of \<^verbatim>\<open>src/kaelix-core/src/multiplexing/scheduler.rs\<close>. Level 0 is
  served to the highest priority. The level of a priority is computed in floating point in the code;
  the integer quotient used here agrees with it for all 256 priorities and up to 50 levels. Operations
  run to completion; a task handed out by \<open>get_next_task\<close> is in no queue until it is given back.
\<close>

type_synonym task_id = u64

record scheduler_config =
  sd_priority_levels :: usize
  sd_time_slices :: "u64 list"
  sd_aging_threshold :: u64
  sd_max_tasks_per_queue :: usize
  sd_enable_work_stealing :: bool
  sd_work_steal_threshold :: usize

definition default_scheduler_config :: scheduler_config where
  "default_scheduler_config = \<lparr>sd_priority_levels = 5, sd_time_slices = [10, 20, 40, 80, 160],
     sd_aging_threshold = 100, sd_max_tasks_per_queue = 10000, sd_enable_work_stealing = True,
     sd_work_steal_threshold = 10\<rparr>"

record schedulable_task =
  ta_task_id :: task_id
  ta_stream_id :: stream_id
  ta_priority :: u8
  ta_created_at :: instant
  ta_last_executed :: "instant option"
  ta_execution_count :: u64
  ta_remaining_time_slice :: duration
  ta_total_runtime :: duration

definition task_new :: "instant \<Rightarrow> task_id \<Rightarrow> stream_id \<Rightarrow> u8 \<Rightarrow> schedulable_task" where
  "task_new now tid stream priority =
     \<lparr>ta_task_id = tid, ta_stream_id = stream, ta_priority = priority, ta_created_at = now,
      ta_last_executed = None, ta_execution_count = 0,
      ta_remaining_time_slice =
        duration_from_millis (if priority \<le> 50 then 10 else if priority \<le> 150 then 20 else 40),
      ta_total_runtime = 0\<rparr>"

definition update_after_execution :: "instant \<Rightarrow> duration \<Rightarrow> schedulable_task \<Rightarrow> schedulable_task" where
  "update_after_execution now execution_time t =
     t\<lparr>ta_last_executed := Some now, ta_execution_count := ta_execution_count t + 1,
       ta_total_runtime := ta_total_runtime t + execution_time,
       ta_remaining_time_slice := ta_remaining_time_slice t - execution_time\<rparr>"

definition needs_demotion :: "schedulable_task \<Rightarrow> bool" where
  "needs_demotion t = (ta_remaining_time_slice t = 0)"

definition reset_time_slice :: "duration \<Rightarrow> schedulable_task \<Rightarrow> schedulable_task" where
  "reset_time_slice d t = t\<lparr>ta_remaining_time_slice := d\<rparr>"

record scheduler_stats =
  ss_tasks_added :: u64
  ss_tasks_removed :: u64
  ss_tasks_scheduled :: u64
  ss_task_promotions :: u64
  ss_task_demotions :: u64
  ss_work_steals :: u64

record scheduler =
  ml_queues :: "schedulable_task list list"
  ml_task_lookup :: "(task_id, usize) hash_map"
  ml_config :: scheduler_config
  ml_stats :: scheduler_stats
  ml_current_queue :: usize
  ml_last_aging :: instant

definition scheduler_new :: "instant \<Rightarrow> scheduler_config \<Rightarrow> scheduler" where
  "scheduler_new now cfg =
     \<lparr>ml_queues = replicate (sd_priority_levels cfg) [], ml_task_lookup = [], ml_config = cfg,
      ml_stats = \<lparr>ss_tasks_added = 0, ss_tasks_removed = 0, ss_tasks_scheduled = 0,
        ss_task_promotions = 0, ss_task_demotions = 0, ss_work_steals = 0\<rparr>,
      ml_current_queue = 0, ml_last_aging = now\<rparr>"

datatype scheduler_error = ResourceExhaustedE string | NotFoundE string

text \<open>
  The code divides the priority by 255, multiplies by the number of levels and truncates, in floating point. The
  integer quotient is the same for every priority and up to 50 levels; the default is 5.
\<close>

definition priority_to_queue_level :: "scheduler_config \<Rightarrow> u8 \<Rightarrow> usize" where
  "priority_to_queue_level cfg priority =
     min (unat priority * sd_priority_levels cfg div 255) (sd_priority_levels cfg - 1)"

definition push_back :: "usize \<Rightarrow> schedulable_task \<Rightarrow> scheduler \<Rightarrow> scheduler" where
  "push_back level t s = s\<lparr>ml_queues := (ml_queues s)[level := ml_queues s ! level @ [t]]\<rparr>"

definition note_level :: "task_id \<Rightarrow> usize \<Rightarrow> scheduler \<Rightarrow> scheduler" where
  "note_level tid level s = s\<lparr>ml_task_lookup := hm_insert tid level (ml_task_lookup s)\<rparr>"

definition add_task :: "schedulable_task \<Rightarrow> scheduler \<Rightarrow> scheduler \<times> (unit, scheduler_error) result" where
  "add_task t s =
     (let level = priority_to_queue_level (ml_config s) (ta_priority t) in
      if length (ml_queues s) \<le> level then (s, Panic)
      else if sd_max_tasks_per_queue (ml_config s) \<le> length (ml_queues s ! level)
      then (s, Err (ResourceExhaustedE (''Queue level '' @ decimal level @ '' is at capacity'')))
      else let s1 = note_level (ta_task_id t) level (push_back level t s) in
        (s1\<lparr>ml_stats := (ml_stats s1)\<lparr>ss_tasks_added := ss_tasks_added (ml_stats s1) + 1\<rparr>\<rparr>, Ok ()))"

definition remove_task :: "task_id \<Rightarrow> scheduler \<Rightarrow> scheduler \<times> (unit, scheduler_error) result" where
  "remove_task tid s =
     (case hm_get (ml_task_lookup s) tid of
        None \<Rightarrow> (s, Err (NotFoundE (''Task '' @ decimal (unat tid) @ '' not found'')))
      | Some level \<Rightarrow>
          let s1 = s\<lparr>ml_task_lookup := hm_remove tid (ml_task_lookup s)\<rparr> in
          if length (ml_queues s) \<le> level then (s1, Panic)
          else (s1\<lparr>ml_queues := (ml_queues s)[level := filter (\<lambda>t. ta_task_id t \<noteq> tid) (ml_queues s ! level)],
                   ml_stats := (ml_stats s)\<lparr>ss_tasks_removed := ss_tasks_removed (ml_stats s) + 1\<rparr>\<rparr>, Ok ()))"

fun next_from :: "nat \<Rightarrow> scheduler \<Rightarrow> scheduler \<times> schedulable_task option" where
  "next_from 0 s = (s, None)"
| "next_from (Suc k) s =
     (let i = ml_current_queue s;
          s1 = s\<lparr>ml_current_queue := (i + 1) mod length (ml_queues s)\<rparr> in
      case ml_queues s ! i of
        [] \<Rightarrow> next_from k s1
      | t # ts \<Rightarrow>
          (s1\<lparr>ml_queues := (ml_queues s)[i := ts],
              ml_stats := (ml_stats s)\<lparr>ss_tasks_scheduled := ss_tasks_scheduled (ml_stats s) + 1\<rparr>\<rparr>, Some t))"

definition get_next_task :: "scheduler \<Rightarrow> scheduler \<times> schedulable_task option" where
  "get_next_task s = next_from (length (ml_queues s)) s"

definition slice_for :: "usize \<Rightarrow> scheduler \<Rightarrow> schedulable_task \<Rightarrow> schedulable_task" where
  "slice_for level s t =
     (if level < length (sd_time_slices (ml_config s))
      then reset_time_slice (duration_from_millis (sd_time_slices (ml_config s) ! level)) t else t)"

definition update_task_after_execution ::
    "instant \<Rightarrow> schedulable_task \<Rightarrow> duration \<Rightarrow> scheduler \<Rightarrow> scheduler \<times> (unit, scheduler_error) result" where
  "update_task_after_execution now task execution_time s =
     (let t = update_after_execution now execution_time task;
          current_level = hm_get_or 0 (ml_task_lookup s) (ta_task_id t) in
      if needs_demotion t then
        let new_level = min (current_level + 1) (sd_priority_levels (ml_config s) - 1);
            t1 = slice_for new_level s t in
        if length (ml_queues s) \<le> new_level then (s, Panic)
        else let s1 = note_level (ta_task_id t) new_level (push_back new_level t1 s) in
          (s1\<lparr>ml_stats := (ml_stats s1)\<lparr>ss_task_demotions := ss_task_demotions (ml_stats s1) + 1\<rparr>\<rparr>, Ok ())
      else if length (ml_queues s) \<le> current_level then (s, Panic)
      else (push_back current_level t s, Ok ()))"

definition waited_long :: "instant \<Rightarrow> duration \<Rightarrow> schedulable_task \<Rightarrow> bool" where
  "waited_long now threshold t =
     (threshold < now - (case ta_last_executed t of Some e \<Rightarrow> e | None \<Rightarrow> ta_created_at t))"

definition promote :: "schedulable_task \<times> usize \<Rightarrow> scheduler \<Rightarrow> scheduler" where
  "promote = (\<lambda>(t, new_level) s.
     note_level (ta_task_id t) new_level (push_back new_level (slice_for new_level s t) s))"

definition perform_aging :: "instant \<Rightarrow> scheduler \<Rightarrow> scheduler" where
  "perform_aging now s =
     (if now - ml_last_aging s < 10 ^ 9 then s
      else
        let threshold = duration_from_millis (sd_aging_threshold (ml_config s));
            old = waited_long now threshold;
            queues = ml_queues s;
            promoted = concat (map (\<lambda>level. map (\<lambda>t. (t, level - 1)) (filter old (queues ! level)))
                                 [1..<length queues]);
            s1 = s\<lparr>ml_last_aging := now,
                   ml_queues := map (\<lambda>level. if level = 0 then queues ! 0
                                              else filter (\<lambda>t. \<not> old t) (queues ! level)) [0..<length queues],
                   ml_stats := (ml_stats s)\<lparr>ss_task_promotions := ss_task_promotions (ml_stats s) + of_nat (length promoted)\<rparr>\<rparr> in
        fold promote promoted s1)"

definition steal_target :: "usize \<Rightarrow> nat list \<Rightarrow> usize \<Rightarrow> usize option" where
  "steal_target threshold sizes i = find (\<lambda>j. i \<noteq> j \<and> sizes ! j < threshold div 2) [0..<length sizes]"

definition steal_from :: "usize \<Rightarrow> nat list \<Rightarrow> usize \<Rightarrow> scheduler \<Rightarrow> scheduler" where
  "steal_from threshold sizes i s =
     (if threshold < sizes ! i then
        (case steal_target threshold sizes i of
           None \<Rightarrow> s
         | Some j \<Rightarrow>
             if ml_queues s ! i = [] then s
             else let t = last (ml_queues s ! i);
                      s1 = s\<lparr>ml_queues := (ml_queues s)[i := butlast (ml_queues s ! i)]\<rparr>;
                      s2 = note_level (ta_task_id t) j (push_back j t s1) in
               s2\<lparr>ml_stats := (ml_stats s2)\<lparr>ss_work_steals := ss_work_steals (ml_stats s2) + 1\<rparr>\<rparr>)
      else s)"

definition perform_work_stealing :: "scheduler \<Rightarrow> scheduler" where
  "perform_work_stealing s =
     (if \<not> sd_enable_work_stealing (ml_config s) then s
      else let sizes = map length (ml_queues s) in
        fold (steal_from (sd_work_steal_threshold (ml_config s)) sizes) [0..<length sizes] s)"

definition get_queue_sizes :: "scheduler \<Rightarrow> usize list" where
  "get_queue_sizes s = map length (ml_queues s)"

section \<open>Tasks are neither lost nor duplicated\<close>

text \<open>
  The state beside the scheduler is the list of tasks handed out. A well-formed state has one queue per
  level, every queued task is recorded at the level of its queue, every task handed out at some level,
  and no task id occurs twice.
\<close>

definition task_ids :: "scheduler \<Rightarrow> schedulable_task list \<Rightarrow> task_id list" where
  "task_ids s running = map ta_task_id (concat (ml_queues s) @ running)"

definition sched_ok :: "scheduler \<Rightarrow> schedulable_task list \<Rightarrow> bool" where
  "sched_ok s running =
     (0 < sd_priority_levels (ml_config s)
      \<and> length (ml_queues s) = sd_priority_levels (ml_config s)
      \<and> ml_current_queue s < sd_priority_levels (ml_config s)
      \<and> (\<forall>i<length (ml_queues s). \<forall>t\<in>set (ml_queues s ! i). hm_get (ml_task_lookup s) (ta_task_id t) = Some i)
      \<and> (\<forall>t\<in>set running. \<exists>l<length (ml_queues s). hm_get (ml_task_lookup s) (ta_task_id t) = Some l)
      \<and> distinct (task_ids s running))"

text \<open>A task moves into a queue, its level recorded.\<close>

lemma place_ids:
  assumes "l < length (ml_queues s)" "ta_task_id t' = ta_task_id t"
  shows "mset (task_ids (note_level k l (push_back l t' s)) rs) = mset (task_ids s (t # rs))"
proof -
  have "mset (concat ((ml_queues s)[l := ml_queues s ! l @ [t']])) = mset (concat (ml_queues s)) + {#t'#}"
    using mset_concat_update[OF assms(1), of "ml_queues s ! l @ [t']"] by simp
  then show ?thesis
    using assms(2) unfolding task_ids_def
    by (simp add: note_level_def push_back_def)
qed

lemma in_queue: "l < length (ml_queues s) \<Longrightarrow> t \<in> set (ml_queues s ! l) \<Longrightarrow> t \<in> set (concat (ml_queues s))"
  by auto

lemma place_ok:
  assumes ok: "sched_ok s (t # rs)" and l: "l < length (ml_queues s)" and id: "ta_task_id t' = ta_task_id t"
  shows "sched_ok (note_level (ta_task_id t) l (push_back l t' s)) rs"
proof -
  let ?s = "note_level (ta_task_id t) l (push_back l t' s)"
  have "distinct (task_ids s (t # rs))" using ok by (simp add: sched_ok_def)
  then have fresh: "\<And>x. x \<in> set (concat (ml_queues s)) \<union> set rs \<Longrightarrow> ta_task_id x \<noteq> ta_task_id t"
    by (fastforce simp: task_ids_def image_iff)
  have "distinct (task_ids ?s rs)"
    using \<open>distinct _\<close> place_ids[OF l id] mset_eq_imp_distinct_iff by blast
  moreover have "hm_get (ml_task_lookup ?s) (ta_task_id x) = Some i"
    if "i < length (ml_queues ?s)" "x \<in> set (ml_queues ?s ! i)" for i x
  proof (cases "x = t' \<and> i = l")
    case False
    with that have x: "x \<in> set (ml_queues s ! i)" "i < length (ml_queues s)" using l
      by (auto simp: note_level_def push_back_def nth_list_update split: if_splits)
    then have "ta_task_id x \<noteq> ta_task_id t" using fresh in_queue by blast
    with x ok show ?thesis by (simp add: note_level_def push_back_def sched_ok_def)
  qed (simp add: note_level_def id)
  moreover have "\<exists>j<length (ml_queues ?s). hm_get (ml_task_lookup ?s) (ta_task_id x) = Some j"
    if "x \<in> set rs" for x
    using that ok fresh[of x] by (auto simp: note_level_def push_back_def sched_ok_def)
  ultimately show ?thesis using ok by (simp add: sched_ok_def note_level_def push_back_def)
qed

text \<open>Tasks leave a queue and are handed out.\<close>

lemma withdraw_ok:
  assumes ok: "sched_ok s rs" and i: "i < length (ml_queues s)"
    and split: "mset (ml_queues s ! i) = mset q + mset out"
  shows "sched_ok (s\<lparr>ml_queues := (ml_queues s)[i := q]\<rparr>) (out @ rs)
         \<and> mset (task_ids (s\<lparr>ml_queues := (ml_queues s)[i := q]\<rparr>) (out @ rs)) = mset (task_ids s rs)"
proof -
  let ?s = "s\<lparr>ml_queues := (ml_queues s)[i := q]\<rparr>"
  have "mset (concat (ml_queues ?s)) + mset out = mset (concat (ml_queues s))"
    using mset_concat_update[OF i, of q] split by (simp del: mset_concat add: ac_simps)
  then have "mset (concat (ml_queues ?s) @ out @ rs) = mset (concat (ml_queues s) @ rs)"
    by (simp del: mset_concat add: union_assoc[symmetric])
  then have ids: "mset (task_ids ?s (out @ rs)) = mset (task_ids s rs)"
    unfolding task_ids_def mset_map by (rule arg_cong)
  have sub: "set q \<subseteq> set (ml_queues s ! i)" "set out \<subseteq> set (ml_queues s ! i)"
    using split by (metis set_mset_mset set_mset_union sup_ge1 sup_ge2)+
  have "distinct (task_ids ?s (out @ rs))"
    using ids ok mset_eq_imp_distinct_iff by (auto simp: sched_ok_def)
  then have "sched_ok ?s (out @ rs)"
    using ok sub i by (auto simp: sched_ok_def nth_list_update subset_iff)
  with ids show ?thesis by blast
qed

lemma sched_ok_cong:
  "sched_ok s rs \<Longrightarrow> ml_queues s' = ml_queues s \<Longrightarrow> ml_task_lookup s' = ml_task_lookup s \<Longrightarrow>
   ml_config s' = ml_config s \<Longrightarrow> ml_current_queue s' < sd_priority_levels (ml_config s) \<Longrightarrow> sched_ok s' rs"
  by (auto simp: sched_ok_def task_ids_def)

lemma task_ids_cong: "ml_queues s' = ml_queues s \<Longrightarrow> task_ids s' rs = task_ids s rs"
  by (simp add: task_ids_def)

lemma next_from_ok:
  "sched_ok s rs \<Longrightarrow> next_from k s = (s', r) \<Longrightarrow>
     (case r of None \<Rightarrow> sched_ok s' rs \<and> task_ids s' rs = task_ids s rs
              | Some t \<Rightarrow> sched_ok s' (t # rs) \<and> mset (task_ids s' (t # rs)) = mset (task_ids s rs))"
proof (induction k arbitrary: s)
  case (Suc k)
  let ?i = "ml_current_queue s"
  let ?s1 = "s\<lparr>ml_current_queue := (?i + 1) mod length (ml_queues s)\<rparr>"
  have i: "?i < length (ml_queues s)" using Suc.prems(1) by (simp add: sched_ok_def)
  then have next_i: "(?i + 1) mod length (ml_queues s) < length (ml_queues s)"
    by (intro mod_less_divisor) linarith
  have ok1: "sched_ok ?s1 rs"
    using Suc.prems(1) next_i by (intro sched_ok_cong[OF Suc.prems(1)]) (auto simp: sched_ok_def)
  show ?case
  proof (cases "ml_queues s ! ?i")
    case Nil
    then have "next_from k ?s1 = (s', r)" using Suc.prems(2) by (simp add: Let_def)
    from Suc.IH[OF ok1 this] show ?thesis by (simp add: task_ids_def split: option.splits)
  next
    case (Cons t ts)
    have w: "sched_ok (?s1\<lparr>ml_queues := (ml_queues ?s1)[?i := ts]\<rparr>) ([t] @ rs)
        \<and> mset (task_ids (?s1\<lparr>ml_queues := (ml_queues ?s1)[?i := ts]\<rparr>) ([t] @ rs)) = mset (task_ids ?s1 rs)"
      by (rule withdraw_ok[OF ok1]) (use i Cons in auto)
    have s': "s' = ?s1\<lparr>ml_queues := (ml_queues s)[?i := ts],
        ml_stats := (ml_stats s)\<lparr>ss_tasks_scheduled := ss_tasks_scheduled (ml_stats s) + 1\<rparr>\<rparr>" and r: "r = Some t"
      using Suc.prems(2) Cons by (auto simp: Let_def)
    have "sched_ok s' (t # rs)"
      by (rule sched_ok_cong[OF conjunct1[OF w, simplified]]) (use s' next_i Suc.prems(1) in \<open>auto simp: sched_ok_def\<close>)
    moreover have "task_ids s' (t # rs) = task_ids (?s1\<lparr>ml_queues := (ml_queues ?s1)[?i := ts]\<rparr>) ([t] @ rs)"
      "task_ids ?s1 rs = task_ids s rs"
      by (simp_all add: s' task_ids_def)
    ultimately show ?thesis using w r by simp
  qed
qed simp

lemma update_after_execution_id [simp]: "ta_task_id (update_after_execution now d t) = ta_task_id t"
  by (simp add: update_after_execution_def)

lemma slice_for_id [simp]: "ta_task_id (slice_for l s t) = ta_task_id t"
  by (simp add: slice_for_def reset_time_slice_def)

lemma stats_ok [simp]: "sched_ok (s\<lparr>ml_stats := x\<rparr>) rs = sched_ok s rs"
  "task_ids (s\<lparr>ml_stats := x\<rparr>) rs = task_ids s rs"
  by (simp_all add: sched_ok_def task_ids_def)

lemma note_level_same:
  "hm_get (ml_task_lookup s) k = Some l \<Longrightarrow> sched_ok (note_level k l s) rs = sched_ok s rs"
  by (auto simp: note_level_def sched_ok_def task_ids_def)

lemma update_task_ok:
  assumes ok: "sched_ok s (t # rs)" and u: "update_task_after_execution now t d s = (s', r)"
  shows "r = Ok () \<and> sched_ok s' rs \<and> mset (task_ids s' rs) = mset (task_ids s (t # rs))"
proof -
  let ?t = "update_after_execution now d t"
  obtain l where l: "l < length (ml_queues s)" "hm_get (ml_task_lookup s) (ta_task_id t) = Some l"
    using ok by (auto simp: sched_ok_def)
  then have level: "hm_get_or 0 (ml_task_lookup s) (ta_task_id t) = l" by (simp add: hm_get_or_def)
  have n: "length (ml_queues s) = sd_priority_levels (ml_config s)" "0 < sd_priority_levels (ml_config s)"
    using ok by (auto simp: sched_ok_def)
  show ?thesis
  proof (cases "needs_demotion ?t")
    case True
    define L where "L = min (l + 1) (sd_priority_levels (ml_config s) - 1)"
    let ?s1 = "note_level (ta_task_id t) L (push_back L (slice_for L s ?t) s)"
    have inside: "L < length (ml_queues s)" using n by (simp add: L_def)
    have "sched_ok ?s1 rs" "mset (task_ids ?s1 rs) = mset (task_ids s (t # rs))"
      by (rule place_ok[OF ok inside], simp) (rule place_ids[OF inside], simp)
    then show ?thesis
      using u True inside
      unfolding update_task_after_execution_def Let_def update_after_execution_id level L_def[symmetric] by auto
  next
    case False
    let ?s1 = "push_back l ?t s"
    have "sched_ok (note_level (ta_task_id t) l ?s1) rs" by (rule place_ok[OF ok l(1)]) simp
    moreover have "sched_ok (note_level (ta_task_id t) l ?s1) rs = sched_ok ?s1 rs"
      by (rule note_level_same) (simp add: push_back_def l(2))
    moreover have "mset (task_ids (note_level (ta_task_id t) l ?s1) rs) = mset (task_ids s (t # rs))"
      by (rule place_ids[OF l(1)]) simp
    ultimately show ?thesis
      using u False l(1)
      unfolding update_task_after_execution_def Let_def update_after_execution_id level
      by (auto simp: note_level_def task_ids_def)
  qed
qed

lemma promote_ok:
  assumes "sched_ok s (t # rs)" "l < length (ml_queues s)"
  shows "sched_ok (promote (t, l) s) rs" "mset (task_ids (promote (t, l) s) rs) = mset (task_ids s (t # rs))"
    "length (ml_queues (promote (t, l) s)) = length (ml_queues s)"
  using place_ok[OF assms] place_ids[OF assms(2)]
  by (simp_all add: promote_def) (simp add: note_level_def push_back_def)

lemma fold_promote_ok:
  "sched_ok s (map fst ps @ rs) \<Longrightarrow> \<forall>(t, l)\<in>set ps. l < length (ml_queues s) \<Longrightarrow>
     sched_ok (fold promote ps s) rs \<and> mset (task_ids (fold promote ps s) rs) = mset (task_ids s (map fst ps @ rs))"
proof (induction ps arbitrary: s)
  case (Cons p ps)
  obtain t l where p: "p = (t, l)" by fastforce
  have one: "sched_ok (promote p s) (map fst ps @ rs)"
    "mset (task_ids (promote p s) (map fst ps @ rs)) = mset (task_ids s (map fst (p # ps) @ rs))"
    "length (ml_queues (promote p s)) = length (ml_queues s)"
    using promote_ok[of s t "map fst ps @ rs" l] Cons.prems by (auto simp: p)
  from Cons.IH[OF one(1)] Cons.prems(2) one(2,3) show ?case by simp
qed simp

text \<open>The first half of aging: the tasks that waited long leave the lower queues.\<close>

lemma age_split:
  fixes queues :: "schedulable_task list list"
  shows "mset (concat (map (\<lambda>l. if l = 0 then queues ! 0 else filter (\<lambda>t. \<not> old t) (queues ! l)) [0..<n]))
    + mset (concat (map (\<lambda>l. filter old (queues ! l)) [1..<n]))
    = mset (concat (map (\<lambda>l. queues ! l) [0..<n]))"
proof (induction n)
  case (Suc n)
  have part: "mset (filter (\<lambda>t. \<not> old t) (queues ! n)) + mset (filter old (queues ! n)) = mset (queues ! n)"
    by (metis mset_filter multiset_partition union_commute)
  show ?case
  proof (cases "n = 0")
    case False
    then have "[1..<Suc n] = [1..<n] @ [n]" by simp
    with False Suc part show ?thesis
      by (simp del: mset_concat add: ac_simps)
  qed simp
qed simp

lemma map_fst_promoted:
  "map fst (concat (map (\<lambda>l. map (\<lambda>t. (t, l - 1)) (f l)) ls)) = concat (map f ls)"
  by (induction ls) (auto simp: comp_def)

lemma perform_aging_ok:
  assumes ok: "sched_ok s rs"
  shows "sched_ok (perform_aging now s) rs \<and> mset (task_ids (perform_aging now s) rs) = mset (task_ids s rs)"
proof (cases "now - ml_last_aging s < 10 ^ 9")
  case True
  then show ?thesis using ok by (simp add: perform_aging_def)
next
  case False
  define old where "old = waited_long now (duration_from_millis (sd_aging_threshold (ml_config s)))"
  let ?n = "length (ml_queues s)"
  define ps where "ps = concat (map (\<lambda>l. map (\<lambda>t. (t, l - 1)) (filter old (ml_queues s ! l))) [1..<?n])"
  define qs where "qs = map (\<lambda>l. if l = 0 then ml_queues s ! 0 else filter (\<lambda>t. \<not> old t) (ml_queues s ! l)) [0..<?n]"
  define s1 where "s1 = s\<lparr>ml_last_aging := now, ml_queues := qs,
    ml_stats := (ml_stats s)\<lparr>ss_task_promotions := ss_task_promotions (ml_stats s) + of_nat (length ps)\<rparr>\<rparr>"
  have queues1: "ml_queues s1 = qs" by (simp add: s1_def)
  have result: "perform_aging now s = fold promote ps s1"
    unfolding perform_aging_def Let_def s1_def qs_def ps_def old_def using False by simp
  have fst_ps: "map fst ps = concat (map (\<lambda>l. filter old (ml_queues s ! l)) [1..<?n])"
    unfolding ps_def by (rule map_fst_promoted)
  have "mset (concat qs) + mset (map fst ps) = mset (concat (ml_queues s))"
    using age_split[of "ml_queues s" old ?n] unfolding fst_ps qs_def map_nth .
  then have "mset (concat qs @ map fst ps @ rs) = mset (concat (ml_queues s) @ rs)"
    by (simp del: mset_concat add: union_assoc[symmetric])
  then have ids: "mset (task_ids s1 (map fst ps @ rs)) = mset (task_ids s rs)"
    unfolding task_ids_def mset_map queues1 by (rule arg_cong)
  have sub: "set (qs ! i) \<subseteq> set (ml_queues s ! i)" if "i < ?n" for i using that by (auto simp: qs_def)
  have origin: "t \<in> set (map fst ps) \<Longrightarrow> \<exists>i<?n. t \<in> set (ml_queues s ! i)" for t
    unfolding fst_ps by auto
  have "distinct (task_ids s1 (map fst ps @ rs))"
    using ids ok mset_eq_imp_distinct_iff by (auto simp: sched_ok_def)
  moreover have "length qs = ?n" by (simp add: qs_def)
  ultimately have ok1: "sched_ok s1 (map fst ps @ rs)"
    using ok sub origin unfolding sched_ok_def s1_def by (simp add: subset_iff) fastforce
  have "\<forall>(t, l)\<in>set ps. l < length (ml_queues s1)" by (auto simp: ps_def s1_def qs_def)
  from fold_promote_ok[OF ok1 this] ids show ?thesis unfolding result by simp
qed

lemma steal_from_ok:
  assumes ok: "sched_ok s rs" and i: "i < length (ml_queues s)" and len: "length sizes = length (ml_queues s)"
  shows "sched_ok (steal_from th sizes i s) rs \<and> mset (task_ids (steal_from th sizes i s) rs) = mset (task_ids s rs)
         \<and> length (ml_queues (steal_from th sizes i s)) = length (ml_queues s)"
proof (cases "th < sizes ! i \<and> steal_target th sizes i \<noteq> None \<and> ml_queues s ! i \<noteq> []")
  case False
  then show ?thesis using ok by (auto simp: steal_from_def split: option.splits)
next
  case True
  then obtain j where j: "steal_target th sizes i = Some j" by blast
  then have jn: "j < length (ml_queues s)" using len by (auto simp: steal_target_def find_Some_iff)
  let ?q = "ml_queues s ! i"
  let ?s1 = "s\<lparr>ml_queues := (ml_queues s)[i := butlast ?q]\<rparr>"
  have "mset ?q = mset (butlast ?q) + mset [last ?q]"
    using True by (metis append_butlast_last_id mset_append)
  note w = withdraw_ok[OF ok i this, simplified]
  let ?s2 = "note_level (ta_task_id (last ?q)) j (push_back j (last ?q) ?s1)"
  have "sched_ok ?s2 rs" "mset (task_ids ?s2 rs) = mset (task_ids ?s1 (last ?q # rs))"
    using place_ok[OF conjunct1[OF w], of j "last ?q"] place_ids[of j ?s1 "last ?q" "last ?q"] jn by auto
  then show ?thesis
    using True w j by (simp add: steal_from_def Let_def) (simp add: note_level_def push_back_def)
qed

lemma fold_steal_ok:
  "sched_ok s rs \<Longrightarrow> \<forall>i\<in>set is. i < length (ml_queues s) \<Longrightarrow> length sizes = length (ml_queues s) \<Longrightarrow>
     sched_ok (fold (steal_from th sizes) is s) rs
     \<and> mset (task_ids (fold (steal_from th sizes) is s) rs) = mset (task_ids s rs)"
proof (induction "is" arbitrary: s)
  case (Cons i "is")
  then have "sched_ok (steal_from th sizes i s) rs \<and> mset (task_ids (steal_from th sizes i s) rs) = mset (task_ids s rs)
      \<and> length (ml_queues (steal_from th sizes i s)) = length (ml_queues s)"
    by (intro steal_from_ok) auto
  with Cons show ?case by simp
qed simp

lemma work_stealing_ok:
  assumes "sched_ok s rs"
  shows "sched_ok (perform_work_stealing s) rs \<and> mset (task_ids (perform_work_stealing s) rs) = mset (task_ids s rs)"
  using fold_steal_ok[OF assms, of "[0..<length (ml_queues s)]" "map length (ml_queues s)"] assms
  by (simp add: perform_work_stealing_def Let_def)

lemma sched_ok_lookup_cong:
  assumes "sched_ok s rs" "ml_queues s' = ml_queues s" "ml_config s' = ml_config s"
    "ml_current_queue s' = ml_current_queue s" "hm_get (ml_task_lookup s') = hm_get (ml_task_lookup s)"
  shows "sched_ok s' rs"
  using assms(1) unfolding sched_ok_def task_ids_def assms(2-5) .

lemma add_task_ok:
  assumes ok: "sched_ok s rs" and fresh: "ta_task_id t \<notin> set (task_ids s rs)" and a: "add_task t s = (s', r)"
  shows "sched_ok s' rs \<and> mset (task_ids s' rs) = mset (task_ids s rs) + (if is_ok r then {#ta_task_id t#} else {#})"
proof -
  define l where "l = priority_to_queue_level (ml_config s) (ta_priority t)"
  have l: "l < length (ml_queues s)" using ok by (auto simp: l_def priority_to_queue_level_def sched_ok_def)
  let ?s0 = "note_level (ta_task_id t) l s"
  have "ta_task_id x \<noteq> ta_task_id t" if "i < length (ml_queues s)" "x \<in> set (ml_queues s ! i)" for i x
    using fresh in_queue[OF that] by (fastforce simp: task_ids_def image_iff)
  then have "sched_ok ?s0 (t # rs)"
    using ok fresh l by (auto simp: sched_ok_def note_level_def task_ids_def)
  from place_ok[OF this, of l t] place_ids[of l ?s0 t t] l
  have p: "sched_ok (note_level (ta_task_id t) l (push_back l t ?s0)) rs"
    "mset (task_ids (note_level (ta_task_id t) l (push_back l t ?s0)) rs) = mset (task_ids ?s0 (t # rs))"
    by (auto simp: note_level_def)
  have same: "task_ids (note_level (ta_task_id t) l (push_back l t s)) rs
      = task_ids (note_level (ta_task_id t) l (push_back l t ?s0)) rs"
    "task_ids ?s0 (t # rs) = task_ids s (t # rs)"
    by (simp_all add: task_ids_def note_level_def push_back_def)
  have "sched_ok (note_level (ta_task_id t) l (push_back l t s)) rs"
    by (rule sched_ok_lookup_cong[OF p(1)]) (simp_all add: note_level_def push_back_def fun_eq_iff)
  moreover have "mset (task_ids s (t # rs)) = mset (task_ids s rs) + {#ta_task_id t#}"
    by (simp add: task_ids_def)
  ultimately show ?thesis
    using a l p(2) ok same unfolding add_task_def Let_def l_def[symmetric] by (auto split: if_splits)
qed

section \<open>Executions\<close>

datatype sched_op =
    AddTask schedulable_task
  | NextTask
  | FinishTask nat instant duration
  | AgeTasks instant
  | StealWork

fun sched_step :: "sched_op \<Rightarrow> scheduler \<times> schedulable_task list \<Rightarrow> scheduler \<times> schedulable_task list" where
  "sched_step (AddTask t) (s, rs) = (fst (add_task t s), rs)"
| "sched_step NextTask (s, rs) =
     (case get_next_task s of (s', None) \<Rightarrow> (s', rs) | (s', Some t) \<Rightarrow> (s', t # rs))"
| "sched_step (FinishTask i now d) (s, rs) =
     (if i < length rs then (fst (update_task_after_execution now (rs ! i) d s), take i rs @ drop (Suc i) rs)
      else (s, rs))"
| "sched_step (AgeTasks now) (s, rs) = (perform_aging now s, rs)"
| "sched_step StealWork (s, rs) = (perform_work_stealing s, rs)"

fun accepted_tasks :: "sched_op list \<Rightarrow> scheduler \<times> schedulable_task list \<Rightarrow> task_id list" where
  "accepted_tasks [] x = []"
| "accepted_tasks (op # ops) x =
     (case op of
        AddTask t \<Rightarrow> (if is_ok (snd (add_task t (fst x))) then [ta_task_id t] else [])
      | _ \<Rightarrow> []) @ accepted_tasks ops (sched_step op x)"

fun added_ids :: "sched_op list \<Rightarrow> task_id list" where
  "added_ids [] = []"
| "added_ids (AddTask t # ops) = ta_task_id t # added_ids ops"
| "added_ids (op # ops) = added_ids ops"

lemma sched_step_ok:
  assumes ok: "sched_ok s rs" and step: "sched_step op (s, rs) = (s', rs')"
    and fresh: "\<And>t. op = AddTask t \<Longrightarrow> ta_task_id t \<notin> set (task_ids s rs)"
  shows "sched_ok s' rs' \<and> mset (task_ids s' rs') = mset (task_ids s rs) + mset (accepted_tasks [op] (s, rs))"
proof (cases op)
  case (AddTask t)
  obtain s1 r where a: "add_task t s = (s1, r)" by fastforce
  from add_task_ok[OF ok fresh[OF AddTask] a] show ?thesis using step AddTask a by auto
next
  case NextTask
  obtain s1 r where n: "next_from (length (ml_queues s)) s = (s1, r)" by fastforce
  from next_from_ok[OF ok n] show ?thesis
    using step NextTask n by (auto simp: get_next_task_def split: option.splits)
next
  case (FinishTask i now d)
  show ?thesis
  proof (cases "i < length rs")
    case True
    let ?rest = "take i rs @ drop (Suc i) rs"
    have m: "mset rs = mset (rs ! i # ?rest)" using True id_take_nth_drop[OF True] by (metis mset.simps(2) mset_append union_mset_add_mset_right)
    then have "set (rs ! i # ?rest) = set rs" by (metis set_mset_mset)
    moreover have ids: "mset (task_ids s (rs ! i # ?rest)) = mset (task_ids s rs)"
      using m unfolding task_ids_def mset_map by (metis mset_append)
    ultimately have "sched_ok s (rs ! i # ?rest)"
      using ok mset_eq_imp_distinct_iff[OF ids] unfolding sched_ok_def by metis
    moreover obtain s1 r where u: "update_task_after_execution now (rs ! i) d s = (s1, r)" by fastforce
    ultimately have "sched_ok s1 ?rest \<and> mset (task_ids s1 ?rest) = mset (task_ids s rs)"
      using update_task_ok ids by metis
    then show ?thesis using step FinishTask True u by auto
  qed (use ok step FinishTask in auto)
next
  case (AgeTasks now)
  then show ?thesis using perform_aging_ok[OF ok, of now] step by auto
next
  case StealWork
  then show ?thesis using work_stealing_ok[OF ok] step by auto
qed

lemma sched_run_ok:
  "sched_ok s rs \<Longrightarrow> distinct (added_ids ops) \<Longrightarrow> set (added_ids ops) \<inter> set (task_ids s rs) = {} \<Longrightarrow>
   fold sched_step ops (s, rs) = (s', rs') \<Longrightarrow>
     sched_ok s' rs' \<and> mset (task_ids s' rs') = mset (task_ids s rs) + mset (accepted_tasks ops (s, rs))"
proof (induction ops arbitrary: s rs)
  case (Cons op ops)
  obtain s1 rs1 where step: "sched_step op (s, rs) = (s1, rs1)" by fastforce
  have one: "sched_ok s1 rs1 \<and> mset (task_ids s1 rs1) = mset (task_ids s rs) + mset (accepted_tasks [op] (s, rs))"
    by (rule sched_step_ok[OF Cons.prems(1) step]) (use Cons.prems(3) in auto)
  have "set (task_ids s1 rs1) \<subseteq> set (task_ids s rs) \<union> set (added_ids [op])"
    using one by (cases op) (auto simp: set_mset_mset[symmetric] simp del: set_mset_mset split: if_splits)
  moreover have "distinct (added_ids ops)" "set (added_ids ops) \<inter> set (added_ids [op]) = {}"
    "set (added_ids ops) \<inter> set (task_ids s rs) = {}"
    using Cons.prems(2,3) by (cases op; auto)+
  ultimately have "sched_ok s' rs' \<and> mset (task_ids s' rs') = mset (task_ids s1 rs1) + mset (accepted_tasks ops (s1, rs1))"
    using Cons.prems(4) step one by (intro Cons.IH) auto
  with one step show ?case by (auto simp: ac_simps)
qed simp

text \<open>
  C26: the scheduler neither loses nor duplicates a task. Whatever sequence of additions of tasks with distinct
  ids, dispatches, completions, agings and work stealing is run on a new scheduler with at least one level, the
  tasks in its queues and those handed out are, by id, exactly the accepted ones, and every queued task is
  recorded in the lookup table at the level of the queue it is in. (\<open>add_task\<close> does not refuse an id that is
  in use; see \<open>repeated_id_misfiled\<close>.)
\<close>

theorem scheduler_conserves_tasks:
  assumes "0 < sd_priority_levels cfg" "distinct (added_ids ops)"
    and "fold sched_step ops (scheduler_new now cfg, []) = (s, running)"
  shows "mset (map ta_task_id (concat (ml_queues s) @ running))
           = mset (accepted_tasks ops (scheduler_new now cfg, []))
     \<and> (\<forall>i<length (ml_queues s). \<forall>t\<in>set (ml_queues s ! i). hm_get (ml_task_lookup s) (ta_task_id t) = Some i)"
proof -
  have start: "sched_ok (scheduler_new now cfg) []" "task_ids (scheduler_new now cfg) [] = []"
    using assms(1) by (auto simp: sched_ok_def scheduler_new_def task_ids_def)
  have run: "sched_ok s running" "mset (task_ids s running) = mset (accepted_tasks ops (scheduler_new now cfg, []))"
    using sched_run_ok[OF start(1) assms(2) _ assms(3)] unfolding start(2) by simp_all
  then show ?thesis unfolding task_ids_def sched_ok_def by blast
qed

definition sample_sched :: scheduler_config where
  "sample_sched = \<lparr>sd_priority_levels = 3, sd_time_slices = [1, 2, 4], sd_aging_threshold = 1,
     sd_max_tasks_per_queue = 4, sd_enable_work_stealing = True, sd_work_steal_threshold = 1\<rparr>"

definition sample_task :: "task_id \<Rightarrow> u8 \<Rightarrow> schedulable_task" where
  "sample_task tid priority = \<lparr>ta_task_id = tid, ta_stream_id = 1, ta_priority = priority, ta_created_at = 0,
     ta_last_executed = None, ta_execution_count = 0, ta_remaining_time_slice = 3, ta_total_runtime = 0\<rparr>"

definition sample_ops :: "sched_op list" where
  "sample_ops = [AddTask (sample_task 1 0), AddTask (sample_task 2 0), AddTask (sample_task 3 255), NextTask,
     StealWork, NextTask, NextTask]"

theorem scheduler_conserves_tasks_witness:
  "mset (map ta_task_id (concat (ml_queues (fst (fold sched_step sample_ops (scheduler_new 0 sample_sched, []))))
       @ snd (fold sched_step sample_ops (scheduler_new 0 sample_sched, [])))) = mset [1, 2, 3]"
proof -
  have "0 < sd_priority_levels sample_sched" "distinct (added_ids sample_ops)"
    by (simp_all add: sample_sched_def sample_ops_def sample_task_def)
  moreover have "accepted_tasks sample_ops (scheduler_new 0 sample_sched, []) = [1, 2, 3]" by code_simp
  ultimately show ?thesis
    using scheduler_conserves_tasks[of sample_sched sample_ops 0] by (metis prod.collapse)
qed

text \<open>
  A second task with an id that is in use is accepted, and the table then records the first one, which is still
  queued, at the level of the second.
\<close>

lemma repeated_id_misfiled:
  "case fold sched_step [AddTask (sample_task 1 0), AddTask (sample_task 1 255)] (scheduler_new 0 sample_sched, []) of
     (s, rs) \<Rightarrow> map (map ta_task_id) (ml_queues s) = [[1], [], [1]] \<and> hm_get (ml_task_lookup s) 1 = Some 2"
  by code_simp

section \<open>No starvation\<close>

text \<open>How far the round-robin cursor is from a queue, and the tasks handed out by an execution.\<close>

definition turns_until :: "nat \<Rightarrow> nat \<Rightarrow> nat \<Rightarrow> nat" where
  "turns_until n c i = (if c \<le> i then i - c else i + n - c)"

fun dispatched :: "sched_op list \<Rightarrow> scheduler \<times> schedulable_task list \<Rightarrow> schedulable_task list" where
  "dispatched [] x = []"
| "dispatched (op # ops) x =
     (case op of
        NextTask \<Rightarrow> (case snd (get_next_task (fst x)) of Some t \<Rightarrow> [t] | None \<Rightarrow> [])
      | _ \<Rightarrow> []) @ dispatched ops (sched_step op x)"

fun appends_only :: "sched_op \<Rightarrow> bool" where
  "appends_only (AgeTasks now) = False"
| "appends_only StealWork = False"
| "appends_only op = True"

lemma turns_until_step:
  assumes "c < n" "i < n" "c \<noteq> i"
  shows "Suc (turns_until n ((c + 1) mod n) i) = turns_until n c i"
  using assms by (cases "c + 1 = n") (auto simp: turns_until_def)

lemma turns_until_less: "c < n \<Longrightarrow> i < n \<Longrightarrow> turns_until n c i < n"
  by (auto simp: turns_until_def)

lemma turns_until_wrap: "i < n \<Longrightarrow> turns_until n ((i + 1) mod n) i = n - 1"
  by (cases "i + 1 = n") (auto simp: turns_until_def)

lemma next_from_progress:
  assumes "next_from k s = (s', r)" and "i < length (ml_queues s)" "ml_current_queue s < length (ml_queues s)"
    and "ml_queues s ! i = pre @ t # post" "turns_until (length (ml_queues s)) (ml_current_queue s) i < k"
  shows "length (ml_queues s') = length (ml_queues s) \<and> ml_current_queue s' < length (ml_queues s)
     \<and> (r = Some t \<or> (\<exists>pre'. ml_queues s' ! i = pre' @ t # post
          \<and> length pre' * length (ml_queues s) + turns_until (length (ml_queues s)) (ml_current_queue s') i
            < length pre * length (ml_queues s) + turns_until (length (ml_queues s)) (ml_current_queue s) i))"
  using assms
proof (induction k arbitrary: s)
  case (Suc k)
  let ?n = "length (ml_queues s)" and ?c = "ml_current_queue s"
  let ?s1 = "s\<lparr>ml_current_queue := (?c + 1) mod ?n\<rparr>"
  have c1: "(?c + 1) mod ?n < ?n" using Suc.prems(2) by (intro mod_less_divisor) linarith
  show ?case
  proof (cases "ml_queues s ! ?c")
    case Nil
    with Suc.prems(4) have "?c \<noteq> i" by auto
    note step = turns_until_step[OF Suc.prems(3,2) this]
    have "next_from k ?s1 = (s', r)" using Suc.prems(1) Nil by (simp add: Let_def)
    from Suc.IH[OF this] Suc.prems(2,4,5) c1 step show ?thesis by (simp; fastforce)
  next
    case (Cons u us)
    then have s': "ml_queues s' = (ml_queues s)[?c := us]" "ml_current_queue s' = (?c + 1) mod ?n" "r = Some u"
      using Suc.prems(1) by (auto simp: Let_def)
    show ?thesis
    proof (cases "?c = i")
      case False
      with s' c1 Suc.prems(4) turns_until_step[OF Suc.prems(3,2) False] show ?thesis by simp
    next
      case True
      show ?thesis
      proof (cases pre)
        case Nil
        with True Cons s' c1 Suc.prems(4) show ?thesis by simp
      next
        case (Cons p pre')
        then have "ml_queues s' ! i = pre' @ t # post"
          using True \<open>ml_queues s ! ?c = u # us\<close> s' Suc.prems(2,4) by simp
        moreover have "turns_until ?n (ml_current_queue s') i = ?n - 1"
          using s'(2) True turns_until_wrap[OF Suc.prems(2)] by simp
        ultimately show ?thesis using Cons s' c1 Suc.prems(2) by auto
      qed
    qed
  qed
qed simp

text \<open>Additions and completions only append to the queues and leave the cursor alone.\<close>

lemma push_back_grows:
  assumes "i < length (ml_queues s)" "ml_queues s ! i = pre @ t # post"
  shows "\<exists>post'. (ml_queues s)[l := ml_queues s ! l @ [u]] ! i = pre @ t # post'"
  using assms by (cases "l = i") auto

lemmas grow_simps = add_task_def update_task_after_execution_def Let_def note_level_def push_back_def

lemma append_step_keeps:
  assumes "appends_only op" "op \<noteq> NextTask" "sched_step op (s, rs) = (s', rs')"
    and "i < length (ml_queues s)" "ml_queues s ! i = pre @ t # post"
  shows "length (ml_queues s') = length (ml_queues s) \<and> ml_current_queue s' = ml_current_queue s
     \<and> (\<exists>post'. ml_queues s' ! i = pre @ t # post')"
proof (cases op)
  case (AddTask u)
  then show ?thesis using assms(3,4,5) push_back_grows[OF assms(4,5)]
    by (auto simp: grow_simps split: if_splits)
next
  case (FinishTask j now d)
  then show ?thesis using assms(3,4,5) push_back_grows[OF assms(4,5)]
    by (auto simp: grow_simps split: if_splits)
qed (use assms in auto)

lemma next_steps_reach:
  assumes "i < length (ml_queues s)" "ml_current_queue s < length (ml_queues s)"
    and "ml_queues s ! i = pre @ t # post" "list_all appends_only ops"
    and "length pre * length (ml_queues s) + turns_until (length (ml_queues s)) (ml_current_queue s) i
           < length (filter (\<lambda>op. op = NextTask) ops)"
  shows "t \<in> set (dispatched ops (s, rs))"
  using assms
proof (induction ops arbitrary: s rs pre post)
  case (Cons op ops)
  obtain s1 rs1 where step: "sched_step op (s, rs) = (s1, rs1)" by fastforce
  show ?case
  proof (cases "op = NextTask")
    case True
    obtain s2 r where n: "next_from (length (ml_queues s)) s = (s2, r)" by fastforce
    then have s1: "s1 = s2" using step True by (auto simp: get_next_task_def split: option.splits)
    note p = next_from_progress[OF n Cons.prems(1,2,3) turns_until_less[OF Cons.prems(2,1)]]
    show ?thesis
    proof (cases "r = Some t")
      case False
      with p obtain pre' where "ml_queues s2 ! i = pre' @ t # post"
        "length pre' * length (ml_queues s) + turns_until (length (ml_queues s)) (ml_current_queue s2) i
          < length pre * length (ml_queues s) + turns_until (length (ml_queues s)) (ml_current_queue s) i" by blast
      then have "t \<in> set (dispatched ops (s1, rs1))"
        using p Cons.prems(1,4,5) True s1 by (intro Cons.IH) auto
      then show ?thesis by (simp add: step)
    qed (simp add: True n get_next_task_def)
  next
    case False
    from append_step_keeps[OF _ False step Cons.prems(1,3)] Cons.prems(4)
    obtain post' where "length (ml_queues s1) = length (ml_queues s)" "ml_current_queue s1 = ml_current_queue s"
      "ml_queues s1 ! i = pre @ t # post'" by auto
    then have "t \<in> set (dispatched ops (s1, rs1))"
      using Cons.prems False by (intro Cons.IH) auto
    then show ?thesis by (simp add: step)
  qed
qed simp

text \<open>
  C27: no task starves. A task at position \<open>j\<close> of a queue is handed out by the time \<open>get_next_task\<close> has been
  called \<open>(j + 1) * priority_levels\<close> times, however many tasks are added to or given back to any queue in
  between; the queue's level plays no part in the bound.
\<close>

theorem queued_task_is_dispatched:
  assumes "sched_ok s running" "i < length (ml_queues s)" "j < length (ml_queues s ! i)"
    and "list_all appends_only ops"
    and "(j + 1) * sd_priority_levels (ml_config s) \<le> length (filter (\<lambda>op. op = NextTask) ops)"
  shows "ml_queues s ! i ! j \<in> set (dispatched ops (s, running))"
proof -
  let ?q = "ml_queues s ! i"
  have n: "length (ml_queues s) = sd_priority_levels (ml_config s)" and c: "ml_current_queue s < length (ml_queues s)"
    using assms(1) by (auto simp: sched_ok_def)
  have "?q = take j ?q @ ?q ! j # drop (Suc j) ?q" using assms(3) by (rule id_take_nth_drop)
  moreover have "length (take j ?q) * length (ml_queues s) + turns_until (length (ml_queues s)) (ml_current_queue s) i
      < length (filter (\<lambda>op. op = NextTask) ops)"
    using turns_until_less[OF c assms(2)] assms(3,5) n by simp
  ultimately show ?thesis using next_steps_reach[OF assms(2) c _ assms(4)] by blast
qed

definition sample_queued :: scheduler where
  "sample_queued = fst (fold sched_step [AddTask (sample_task 1 0), AddTask (sample_task 2 255), AddTask (sample_task 3 255)]
     (scheduler_new 0 sample_sched, []))"

theorem queued_task_is_dispatched_witness:
  "ml_queues sample_queued ! 2 ! 1 \<in> set (dispatched (replicate 6 NextTask) (sample_queued, []))"
proof (rule queued_task_is_dispatched)
  show "sched_ok sample_queued []" "2 < length (ml_queues sample_queued)" "1 < length (ml_queues sample_queued ! 2)"
    "list_all appends_only (replicate 6 NextTask)"
    "(1 + 1) * sd_priority_levels (ml_config sample_queued) \<le> length (filter (\<lambda>op. op = NextTask) (replicate 6 NextTask))"
    by code_simp+
qed

text \<open>The level of a queue does not order the dispatch: a task of the lowest level goes before one of the highest.\<close>

theorem low_priority_first:
  "map ta_task_id (dispatched [NextTask, NextTask, NextTask]
     (fst (sched_step (AddTask (sample_task 4 0)) (sample_queued, [])), [])) = [1, 2, 4]"
  by code_simp

text \<open>
  Removing a task while it is handed out succeeds but does not last: giving the task back queues it again,
  now at level 0 and unknown to the lookup table.
\<close>

theorem removed_task_returns:
  "(let s = fst (add_task (sample_task 7 255) (scheduler_new 0 sample_sched));
        (s1, r1) = get_next_task s;
        (s2, r2) = remove_task 7 s1;
        s3 = fst (update_task_after_execution 5 (the r1) 1 s2)
    in r2 = Ok () \<and> map (map ta_task_id) (ml_queues s3) = [[7], [], []] \<and> ml_task_lookup s3 = [])"
  by code_simp

end
