(* ===== verification/Mux_Registry.thy ===== *)
theory Mux_Registry
  imports Mux_Backpressure
begin

text \<open>
  The stream registry of \<^verbatim>\<open>src/kaelix-core/src/multiplexing/registry.rs\<close>: the metadata of the streams,
  spread over 64 shards by a hash of the stream id, with a Bloom filter in front of the duplicate
  check. \<open>Arc\<close> handles on metadata are addresses in a list of objects, since closing a stream is seen
  by whoever still holds its handle. \<open>sip\<close> is the standard library's \<open>DefaultHasher\<close>, whose algorithm is
  not specified, applied to the words hashed into it. The hit rates, floating-point ratios of two
  counters, and the parts of the memory pool that nothing uses are left out.
\<close>

section \<open>Stream metadata\<close>

datatype stream_state = Initializing | Active | Paused | Draining | Closed | ErrorState

definition state_code :: "stream_state \<Rightarrow> u8" where
  "state_code s = (case s of Initializing \<Rightarrow> 0 | Active \<Rightarrow> 1 | Paused \<Rightarrow> 2 | Draining \<Rightarrow> 3 | Closed \<Rightarrow> 4 | ErrorState \<Rightarrow> 5)"

definition state_from_u8 :: "u8 \<Rightarrow> (stream_state, multiplexer_error) result" where
  "state_from_u8 v =
     (if v = 0 then Ok Initializing else if v = 1 then Ok Active else if v = 2 then Ok Paused
      else if v = 3 then Ok Draining else if v = 4 then Ok Closed else if v = 5 then Ok ErrorState
      else Err (InternalErr (''Invalid stream state value: '' @ decimal (unat v))))"

datatype stream_priority = CriticalPriority | HighPriority | MediumPriority | LowPriority | BackgroundPriority

definition default_stream_priority :: stream_priority where
  "default_stream_priority = MediumPriority"

record stream_metadata =
  md_stream_id :: stream_id
  md_state :: u8
  md_priority :: stream_priority
  md_buffer_capacity :: usize
  md_buffer_size :: u64
  md_message_count :: u64
  md_credits :: i32
  md_created_at :: instant
  md_last_activity :: instant
  md_topics :: "string list"
  md_custom_metadata :: "(string, string) hash_map"

definition metadata_new :: "instant \<Rightarrow> stream_id \<Rightarrow> stream_priority \<Rightarrow> usize \<Rightarrow> stream_metadata" where
  "metadata_new now sid priority capacity =
     \<lparr>md_stream_id = sid, md_state = state_code Initializing, md_priority = priority,
      md_buffer_capacity = capacity, md_buffer_size = 0, md_message_count = 0, md_credits = 1000,
      md_created_at = now, md_last_activity = now, md_topics = [], md_custom_metadata = []\<rparr>"

definition get_state :: "stream_metadata \<Rightarrow> stream_state" where
  "get_state md = (case state_from_u8 (md_state md) of Ok s \<Rightarrow> s | _ \<Rightarrow> ErrorState)"

definition set_state :: "stream_state \<Rightarrow> stream_metadata \<Rightarrow> stream_metadata" where
  "set_state s md = md\<lparr>md_state := state_code s\<rparr>"

text \<open>The weak exchange may fail although the values agree: \<open>spurious\<close>.\<close>

definition compare_and_swap_state ::
    "bool \<Rightarrow> stream_state \<Rightarrow> stream_state \<Rightarrow> stream_metadata \<Rightarrow> stream_metadata \<times> bool" where
  "compare_and_swap_state spurious expected new_state md =
     (if md_state md = state_code expected \<and> \<not> spurious then (set_state new_state md, True) else (md, False))"

definition update_activity :: "instant \<Rightarrow> stream_metadata \<Rightarrow> stream_metadata" where
  "update_activity now md = md\<lparr>md_last_activity := now\<rparr>"

definition increment_message_count :: "stream_metadata \<Rightarrow> stream_metadata \<times> u64" where
  "increment_message_count md = (md\<lparr>md_message_count := md_message_count md + 1\<rparr>, md_message_count md)"

definition add_credits :: "i32 \<Rightarrow> stream_metadata \<Rightarrow> stream_metadata \<times> i32" where
  "add_credits amount md = (md\<lparr>md_credits := wrap32 (md_credits md + amount)\<rparr>, md_credits md)"

definition consume_credits :: "i32 \<Rightarrow> stream_metadata \<Rightarrow> stream_metadata \<times> (i32, multiplexer_error) result" where
  "consume_credits amount md =
     (let current = md_credits md;
          md1 = md\<lparr>md_credits := wrap32 (current - amount)\<rparr> in
      if current < amount
      then (fst (add_credits amount md1),
            Err (BackpressureErr (''Insufficient credits for stream '' @ decimal (unat (md_stream_id md)) @ '': ''
              @ signed_decimal current @ '' available, '' @ signed_decimal amount @ '' required'')))
      else (md1, Ok (wrap32 (current - amount))))"

definition is_active :: "stream_metadata \<Rightarrow> bool" where
  "is_active md = (get_state md = Active)"

definition can_accept_messages :: "stream_metadata \<Rightarrow> bool" where
  "can_accept_messages md = (get_state md = Active \<or> get_state md = Paused)"

lemma state_from_code [simp]: "state_from_u8 (state_code s) = Ok s"
  by (cases s) (simp_all add: state_from_u8_def state_code_def)

lemma get_set_state [simp]: "get_state (set_state s md) = s"
  by (simp add: get_state_def set_state_def)

section \<open>The Bloom filter\<close>

definition BLOOM_FILTER_SIZE :: usize where
  "BLOOM_FILTER_SIZE = 1024 * 1024 * 8"

record bloom_filter =
  bl_bits :: "u64 list"
  bl_size :: usize
  bl_hash_functions :: usize

definition bloom_new :: "usize \<Rightarrow> bloom_filter" where
  "bloom_new n = \<lparr>bl_bits = replicate ((n + 63) div 64) 0, bl_size = n, bl_hash_functions = 3\<rparr>"

definition bloom_hash :: "(u64 list \<Rightarrow> u64) \<Rightarrow> bloom_filter \<Rightarrow> stream_id \<Rightarrow> usize \<Rightarrow> usize" where
  "bloom_hash sip b item seed = unat (sip [item, of_nat seed]) mod bl_size b"

definition bloom_word :: "bloom_filter \<Rightarrow> usize \<Rightarrow> usize" where
  "bloom_word b hash = hash div 64 mod length (bl_bits b)"

definition bloom_set :: "usize \<Rightarrow> bloom_filter \<Rightarrow> bloom_filter" where
  "bloom_set hash b =
     b\<lparr>bl_bits := (bl_bits b)[bloom_word b hash := bl_bits b ! bloom_word b hash OR push_bit (hash mod 64) 1]\<rparr>"

definition bloom_insert :: "(u64 list \<Rightarrow> u64) \<Rightarrow> stream_id \<Rightarrow> bloom_filter \<Rightarrow> bloom_filter" where
  "bloom_insert sip item b =
     fold (\<lambda>i f. bloom_set (bloom_hash sip f item i) f) [0..<bl_hash_functions b] b"

definition might_contain :: "(u64 list \<Rightarrow> u64) \<Rightarrow> stream_id \<Rightarrow> bloom_filter \<Rightarrow> bool" where
  "might_contain sip item b =
     list_all (\<lambda>i. let hash = bloom_hash sip b item i in
                   (bl_bits b ! bloom_word b hash) AND push_bit (hash mod 64) 1 \<noteq> 0)
       [0..<bl_hash_functions b]"

definition bloom_bit :: "bloom_filter \<Rightarrow> usize \<Rightarrow> bool" where
  "bloom_bit b hash = bit (bl_bits b ! bloom_word b hash) (hash mod 64)"

lemma might_contain_bits:
  "might_contain sip item b \<longleftrightarrow> (\<forall>i<bl_hash_functions b. bloom_bit b (bloom_hash sip b item i))"
  by (auto simp: might_contain_def bloom_bit_def list_all_iff Let_def bit_iff_and_push_bit_not_eq_0)

lemma bloom_set_simps [simp]:
  "bl_size (bloom_set h b) = bl_size b" "bl_hash_functions (bloom_set h b) = bl_hash_functions b"
  "length (bl_bits (bloom_set h b)) = length (bl_bits b)" "bloom_word (bloom_set h b) = bloom_word b"
  "bloom_hash sip (bloom_set h b) = bloom_hash sip b"
  by (auto simp: bloom_set_def bloom_word_def bloom_hash_def fun_eq_iff)

lemma bloom_bit_set:
  assumes "bl_bits b \<noteq> []"
  shows "bloom_bit (bloom_set h b) h" "bloom_bit b k \<Longrightarrow> bloom_bit (bloom_set h b) k"
proof -
  have w: "bloom_word b k < length (bl_bits b)" for k
    using assms by (simp add: bloom_word_def)
  have w': "bloom_word (b\<lparr>bl_bits := (bl_bits b)[i := v]\<rparr>) k = bloom_word b k" for k i v
    by (simp add: bloom_word_def)
  show "bloom_bit (bloom_set h b) h"
    using w[of h] by (simp add: bloom_bit_def bloom_set_def w' bit_or_iff bit_push_bit_iff bit_exp_iff)
  show "bloom_bit b k \<Longrightarrow> bloom_bit (bloom_set h b) k"
    using w[of k] w[of h] by (auto simp: bloom_bit_def bloom_set_def w' nth_list_update bit_or_iff)
qed

lemma bloom_fold:
  fixes sip and item and ns :: "usize list"
  assumes "bl_bits b \<noteq> []"
  defines "b' \<equiv> fold (\<lambda>i f. bloom_set (bloom_hash sip f item i) f) ns b"
  shows "bl_bits b' \<noteq> []" "bl_size b' = bl_size b" "bl_hash_functions b' = bl_hash_functions b"
    "bloom_hash sip b' = bloom_hash sip b"
    "bloom_bit b k \<Longrightarrow> bloom_bit b' k" "i \<in> set ns \<Longrightarrow> bloom_bit b' (bloom_hash sip b item i)"
proof -
  have "bl_bits b' \<noteq> [] \<and> bl_size b' = bl_size b \<and> bl_hash_functions b' = bl_hash_functions b
      \<and> bloom_hash sip b' = bloom_hash sip b \<and> (\<forall>k. bloom_bit b k \<longrightarrow> bloom_bit b' k)
      \<and> (\<forall>i\<in>set ns. bloom_bit b' (bloom_hash sip b item i))"
    unfolding b'_def using assms(1)
  proof (induction ns arbitrary: b)
    case (Cons j ns)
    let ?b = "bloom_set (bloom_hash sip b item j) b"
    have "bl_bits ?b \<noteq> []" using Cons.prems by (metis bloom_set_simps(3) length_0_conv)
    from Cons.IH[OF this] bloom_bit_set[OF Cons.prems] show ?case by auto
  qed simp
  then show "bl_bits b' \<noteq> []" "bl_size b' = bl_size b" "bl_hash_functions b' = bl_hash_functions b"
    "bloom_hash sip b' = bloom_hash sip b"
    "bloom_bit b k \<Longrightarrow> bloom_bit b' k" "i \<in> set ns \<Longrightarrow> bloom_bit b' (bloom_hash sip b item i)" by blast+
qed

lemma bloom_insert_contains:
  assumes "bl_bits b \<noteq> []"
  shows "might_contain sip item (bloom_insert sip item b)"
    "might_contain sip other b \<Longrightarrow> might_contain sip other (bloom_insert sip item b)"
    "bl_bits (bloom_insert sip item b) \<noteq> []"
  using bloom_fold[OF assms, where sip = sip and item = item and ns = "[0..<bl_hash_functions b]"]
  by (simp_all add: might_contain_bits bloom_insert_def)

section \<open>The registry\<close>

definition SHARD_COUNT :: usize where
  "SHARD_COUNT = 64"

record registry_config =
  rc_max_streams :: usize
  rc_enable_bloom_filter :: bool
  rc_memory_pool_size :: usize
  rc_enable_statistics :: bool
  rc_cleanup_interval_ms :: u64
  rc_stream_timeout_ms :: u64

definition high_performance_registry :: registry_config where
  "high_performance_registry = \<lparr>rc_max_streams = 10000000, rc_enable_bloom_filter = True,
     rc_memory_pool_size = 1024 * 1024 * 1024, rc_enable_statistics = True,
     rc_cleanup_interval_ms = 1000, rc_stream_timeout_ms = 300000\<rparr>"

definition memory_optimized_registry :: registry_config where
  "memory_optimized_registry = \<lparr>rc_max_streams = 1000000, rc_enable_bloom_filter = False,
     rc_memory_pool_size = 64 * 1024 * 1024, rc_enable_statistics = False,
     rc_cleanup_interval_ms = 5000, rc_stream_timeout_ms = 60000\<rparr>"

record registry_metrics =
  rm_streams_created :: u64
  rm_streams_destroyed :: u64
  rm_lookup_hits :: u64
  rm_lookup_misses :: u64
  rm_state_transitions :: u64
  rm_bloom_filter_hits :: u64
  rm_bloom_filter_false_positives :: u64

record stream_registry =
  rg_objects :: "stream_metadata list"
  rg_shards :: "(stream_id, usize) hash_map list"
  rg_bloom_filter :: "bloom_filter option"
  rg_config :: registry_config
  rg_metrics :: registry_metrics
  rg_stream_count :: u64

definition registry_new :: "registry_config \<Rightarrow> stream_registry" where
  "registry_new cfg =
     \<lparr>rg_objects = [], rg_shards = replicate SHARD_COUNT [],
      rg_bloom_filter = (if rc_enable_bloom_filter cfg then Some (bloom_new BLOOM_FILTER_SIZE) else None),
      rg_config = cfg,
      rg_metrics = \<lparr>rm_streams_created = 0, rm_streams_destroyed = 0, rm_lookup_hits = 0, rm_lookup_misses = 0,
        rm_state_transitions = 0, rm_bloom_filter_hits = 0, rm_bloom_filter_false_positives = 0\<rparr>,
      rg_stream_count = 0\<rparr>"

definition shard_for_stream :: "(u64 list \<Rightarrow> u64) \<Rightarrow> stream_id \<Rightarrow> usize" where
  "shard_for_stream sip sid = unat (sip [sid]) mod SHARD_COUNT"

definition count_metric :: "(registry_metrics \<Rightarrow> registry_metrics) \<Rightarrow> stream_registry \<Rightarrow> stream_registry" where
  "count_metric f r = r\<lparr>rg_metrics := f (rg_metrics r)\<rparr>"

definition get_stream_metadata ::
    "(u64 list \<Rightarrow> u64) \<Rightarrow> stream_id \<Rightarrow> stream_registry \<Rightarrow> stream_registry \<times> usize option" where
  "get_stream_metadata sip sid r =
     (case hm_get (rg_shards r ! shard_for_stream sip sid) sid of
        Some a \<Rightarrow> (count_metric (\<lambda>m. m\<lparr>rm_lookup_hits := rm_lookup_hits m + 1\<rparr>) r, Some a)
      | None \<Rightarrow> (count_metric (\<lambda>m. m\<lparr>rm_lookup_misses := rm_lookup_misses m + 1\<rparr>) r, None))"

definition stream_exists_error :: "stream_id \<Rightarrow> multiplexer_error" where
  "stream_exists_error sid = StreamErr (''Stream already exists: '' @ decimal (unat sid))"

definition stream_missing_error :: "stream_id \<Rightarrow> multiplexer_error" where
  "stream_missing_error sid = StreamErr (''Stream not found: '' @ decimal (unat sid))"

definition check_duplicate ::
    "(u64 list \<Rightarrow> u64) \<Rightarrow> stream_id \<Rightarrow> stream_registry \<Rightarrow> stream_registry \<times> (unit, multiplexer_error) result" where
  "check_duplicate sip sid r =
     (case rg_bloom_filter r of
        None \<Rightarrow> (r, Ok ())
      | Some bloom \<Rightarrow>
          if might_contain sip sid bloom then
            (case get_stream_metadata sip sid r of
               (r1, Some a) \<Rightarrow> (r1, Err (stream_exists_error sid))
             | (r1, None) \<Rightarrow>
                 (count_metric (\<lambda>m. m\<lparr>rm_bloom_filter_false_positives := rm_bloom_filter_false_positives m + 1\<rparr>) r1,
                  Ok ()))
          else (count_metric (\<lambda>m. m\<lparr>rm_bloom_filter_hits := rm_bloom_filter_hits m + 1\<rparr>)
                  (r\<lparr>rg_bloom_filter := Some (bloom_insert sip sid bloom)\<rparr>), Ok ()))"

definition store_stream ::
    "(u64 list \<Rightarrow> u64) \<Rightarrow> stream_id \<Rightarrow> stream_metadata \<Rightarrow> stream_registry
      \<Rightarrow> stream_registry \<times> (unit, multiplexer_error) result" where
  "store_stream sip sid metadata r =
     (let i = shard_for_stream sip sid;
          a = length (rg_objects r);
          r1 = r\<lparr>rg_objects := rg_objects r @ [metadata],
                  rg_shards := (rg_shards r)[i := hm_insert sid a (rg_shards r ! i)]\<rparr> in
      if hm_get (rg_shards r ! i) sid \<noteq> None then (r1, Err (stream_exists_error sid))
      else (count_metric (\<lambda>m. m\<lparr>rm_streams_created := rm_streams_created m + 1\<rparr>)
              (r1\<lparr>rg_stream_count := rg_stream_count r1 + 1\<rparr>), Ok ()))"

definition register_stream ::
    "(u64 list \<Rightarrow> u64) \<Rightarrow> stream_id \<Rightarrow> stream_metadata \<Rightarrow> stream_registry
      \<Rightarrow> stream_registry \<times> (unit, multiplexer_error) result" where
  "register_stream sip sid metadata r =
     (if of_nat (rc_max_streams (rg_config r)) \<le> rg_stream_count r
      then (r, Err (ResourceExhaustedErr (''Maximum streams exceeded: '' @ decimal (unat (rg_stream_count r))
              @ ''/'' @ decimal (rc_max_streams (rg_config r)))))
      else case check_duplicate sip sid r of
             (r1, Ok u) \<Rightarrow> store_stream sip sid metadata r1
           | (r1, e) \<Rightarrow> (r1, e))"

definition modify_object :: "(stream_metadata \<Rightarrow> stream_metadata) \<Rightarrow> usize \<Rightarrow> stream_registry \<Rightarrow> stream_registry" where
  "modify_object f a r = r\<lparr>rg_objects := (rg_objects r)[a := f (rg_objects r ! a)]\<rparr>"

definition drop_from_shard :: "usize \<Rightarrow> stream_id \<Rightarrow> stream_registry \<Rightarrow> stream_registry \<times> bool" where
  "drop_from_shard i sid r =
     (case hm_get (rg_shards r ! i) sid of
        None \<Rightarrow> (r, False)
      | Some a \<Rightarrow>
          let r1 = modify_object (set_state Closed) a
                     (r\<lparr>rg_shards := (rg_shards r)[i := hm_remove sid (rg_shards r ! i)]\<rparr>) in
          (count_metric (\<lambda>m. m\<lparr>rm_streams_destroyed := rm_streams_destroyed m + 1\<rparr>)
             (r1\<lparr>rg_stream_count := rg_stream_count r1 - 1\<rparr>), True))"

definition unregister_stream ::
    "(u64 list \<Rightarrow> u64) \<Rightarrow> stream_id \<Rightarrow> stream_registry \<Rightarrow> stream_registry \<times> (unit, multiplexer_error) result" where
  "unregister_stream sip sid r =
     (case drop_from_shard (shard_for_stream sip sid) sid r of
        (r1, True) \<Rightarrow> (r1, Ok ())
      | (r1, False) \<Rightarrow> (r1, Err (stream_missing_error sid)))"

definition update_stream_state ::
    "(u64 list \<Rightarrow> u64) \<Rightarrow> instant \<Rightarrow> stream_id \<Rightarrow> stream_state \<Rightarrow> stream_registry
      \<Rightarrow> stream_registry \<times> (stream_state, multiplexer_error) result" where
  "update_stream_state sip now sid new_state r =
     (case get_stream_metadata sip sid r of
        (r1, Some a) \<Rightarrow>
          (count_metric (\<lambda>m. m\<lparr>rm_state_transitions := rm_state_transitions m + 1\<rparr>)
             (modify_object (update_activity now \<circ> set_state new_state) a r1),
           Ok (get_state (rg_objects r ! a)))
      | (r1, None) \<Rightarrow> (r1, Err (stream_missing_error sid)))"

definition list_active_streams :: "stream_registry \<Rightarrow> stream_id list" where
  "list_active_streams r =
     concat (map (\<lambda>shard. map fst (filter (\<lambda>(sid, a). is_active (rg_objects r ! a)) shard)) (rg_shards r))"

definition active_stream_count :: "stream_registry \<Rightarrow> usize" where
  "active_stream_count r = unat (rg_stream_count r)"

definition is_stale :: "instant \<Rightarrow> duration \<Rightarrow> stream_metadata \<Rightarrow> bool" where
  "is_stale now timeout md = (timeout < now - md_last_activity md)"

definition cleanup_shard :: "instant \<Rightarrow> duration \<Rightarrow> usize \<Rightarrow> stream_registry \<times> nat \<Rightarrow> stream_registry \<times> nat" where
  "cleanup_shard now timeout i = (\<lambda>(r, n).
     fold (\<lambda>sid (r, n). case drop_from_shard i sid r of (r1, gone) \<Rightarrow> (r1, if gone then n + 1 else n))
       (map fst (filter (\<lambda>(sid, a). is_stale now timeout (rg_objects r ! a)) (rg_shards r ! i))) (r, n))"

definition cleanup_inactive_streams :: "instant \<Rightarrow> stream_registry \<Rightarrow> stream_registry \<times> nat" where
  "cleanup_inactive_streams now r =
     (let timeout = duration_from_millis (rc_stream_timeout_ms (rg_config r)) in
      if timeout = 0 then (r, 0)
      else fold (cleanup_shard now timeout) [0..<SHARD_COUNT] (r, 0))"

section \<open>The registry refines one map\<close>

definition entries :: "stream_registry \<Rightarrow> (stream_id \<times> usize) list" where
  "entries r = concat (rg_shards r)"

definition registry_ok :: "(u64 list \<Rightarrow> u64) \<Rightarrow> stream_registry \<Rightarrow> bool" where
  "registry_ok sip r =
     (length (rg_shards r) = SHARD_COUNT
      \<and> (\<forall>i<SHARD_COUNT. \<forall>(sid, a)\<in>set (rg_shards r ! i). shard_for_stream sip sid = i)
      \<and> (\<forall>(sid, a)\<in>set (entries r). a < length (rg_objects r))
      \<and> distinct (map fst (entries r)) \<and> distinct (map snd (entries r))
      \<and> unat (rg_stream_count r) = length (entries r)
      \<and> (case rg_bloom_filter r of None \<Rightarrow> True
         | Some b \<Rightarrow> bl_bits b \<noteq> [] \<and> (\<forall>(sid, a)\<in>set (entries r). might_contain sip sid b)))"

definition view :: "(u64 list \<Rightarrow> u64) \<Rightarrow> stream_registry \<Rightarrow> stream_id \<Rightarrow> stream_metadata option" where
  "view sip r sid = map_option ((!) (rg_objects r)) (hm_get (rg_shards r ! shard_for_stream sip sid) sid)"

lemma SHARD_COUNT_pos: "0 < SHARD_COUNT" by (simp add: SHARD_COUNT_def)

lemma registry_okD:
  assumes "registry_ok sip r"
  shows "length (rg_shards r) = SHARD_COUNT" "distinct (map fst (entries r))" "distinct (map snd (entries r))"
    "unat (rg_stream_count r) = length (entries r)" "(sid, a) \<in> set (entries r) \<Longrightarrow> a < length (rg_objects r)"
    "i < SHARD_COUNT \<Longrightarrow> (sid, a) \<in> set (rg_shards r ! i) \<Longrightarrow> shard_for_stream sip sid = i"
    "rg_bloom_filter r = Some b \<Longrightarrow> bl_bits b \<noteq> []"
    "rg_bloom_filter r = Some b \<Longrightarrow> (sid, a) \<in> set (entries r) \<Longrightarrow> might_contain sip sid b"
  using assms unfolding registry_ok_def by (auto split: option.splits)

lemma shard_in_range: "registry_ok sip r \<Longrightarrow> shard_for_stream sip sid < length (rg_shards r)"
  by (simp add: registry_ok_def shard_for_stream_def SHARD_COUNT_pos)

lemma count_metric_simps [simp]:
  "registry_ok sip (count_metric f r) = registry_ok sip r" "view sip (count_metric f r) = view sip r"
  "rg_objects (count_metric f r) = rg_objects r" "rg_shards (count_metric f r) = rg_shards r"
  "rg_config (count_metric f r) = rg_config r" "rg_bloom_filter (count_metric f r) = rg_bloom_filter r"
  "rg_stream_count (count_metric f r) = rg_stream_count r" "entries (count_metric f r) = entries r"
  by (simp_all add: count_metric_def registry_ok_def view_def entries_def fun_eq_iff cong: option.case_cong)

lemma distinct_concat_nth:
  assumes "distinct (map f (concat xss))" "i < length xss"
  shows "distinct (map f (xss ! i))"
proof -
  have "concat xss = concat (take i xss) @ xss ! i @ concat (drop (Suc i) xss)"
    using assms(2) by (metis concat.simps(2) concat_append id_take_nth_drop)
  with assms(1) show ?thesis by simp
qed

lemma lookup_entries:
  assumes ok: "registry_ok sip r"
  shows "hm_get (rg_shards r ! shard_for_stream sip sid) sid = Some a \<longleftrightarrow> (sid, a) \<in> set (entries r)"
proof -
  let ?i = "shard_for_stream sip sid"
  have "distinct (map fst (rg_shards r ! ?i))"
    by (rule distinct_concat_nth[OF registry_okD(2)[OF ok, unfolded entries_def] shard_in_range[OF ok]])
  then have "hm_get (rg_shards r ! ?i) sid = Some a \<longleftrightarrow> (sid, a) \<in> set (rg_shards r ! ?i)" by simp
  also have "\<dots> \<longleftrightarrow> (sid, a) \<in> set (entries r)"
    using shard_in_range[OF ok] registry_okD(6)[OF ok] registry_okD(1)[OF ok]
    by (auto simp: entries_def in_set_conv_nth[of _ "rg_shards r"]) (metis nth_mem)
  finally show ?thesis .
qed

lemma view_entries:
  assumes "registry_ok sip r"
  shows "view sip r sid = Some md \<longleftrightarrow> (\<exists>a. (sid, a) \<in> set (entries r) \<and> md = rg_objects r ! a)"
  by (auto simp: view_def lookup_entries[OF assms])

lemma view_dom:
  assumes "registry_ok sip r"
  shows "dom (view sip r) = fst ` set (entries r)"
  by (auto simp: view_entries[OF assms] dom_def image_iff) force+

lemma card_view: "registry_ok sip r \<Longrightarrow> card (dom (view sip r)) = unat (rg_stream_count r)"
  using distinct_card[of "map fst (entries r)"] by (simp add: view_dom registry_ok_def)

lemma hm_insert_fresh: "map_of m k = None \<Longrightarrow> hm_insert k v m = m @ [(k, v)]"
  unfolding hm_insert_def by (induction m) auto

lemma mset_hm_remove:
  "distinct (map fst m) \<Longrightarrow> map_of m k = Some v \<Longrightarrow> mset m = add_mset (k, v) (mset (hm_remove k m))"
proof (induction m)
  case (Cons e m)
  obtain j w where e: "e = (j, w)" by fastforce
  show ?case
  proof (cases "j = k")
    case True
    then have "k \<notin> fst ` set m" using Cons.prems e by auto
    then have "AList.delete k m = m" by simp
    with True Cons.prems e show ?thesis by (simp add: hm_remove_def)
  qed (use Cons e in \<open>auto simp: hm_remove_def\<close>)
qed simp

text \<open>The well-formedness of a registry in terms of the multiset of its entries.\<close>

lemma registry_ok_entries:
  assumes ok: "registry_ok sip r" and len: "length (rg_shards r') = length (rg_shards r)"
    and place: "\<And>i sid a. i < SHARD_COUNT \<Longrightarrow> (sid, a) \<in> set (rg_shards r' ! i) \<Longrightarrow> shard_for_stream sip sid = i"
    and m: "mset (entries r') = mset es" and d: "distinct (map fst es)" "distinct (map snd es)"
    and b: "\<And>sid a. (sid, a) \<in> set es \<Longrightarrow> a < length (rg_objects r')" and c: "unat (rg_stream_count r') = length es"
    and f: "case rg_bloom_filter r' of None \<Rightarrow> True
         | Some bl \<Rightarrow> bl_bits bl \<noteq> [] \<and> (\<forall>(sid, a)\<in>set es. might_contain sip sid bl)"
  shows "registry_ok sip r'"
proof -
  have s: "set (entries r') = set es" "length (entries r') = length es"
    using m mset_eq_setD mset_eq_length by blast+
  have "distinct (map fst (entries r'))" "distinct (map snd (entries r'))"
    using d m by (metis mset_eq_imp_distinct_iff mset_map)+
  then show ?thesis
    using ok len place b c f unfolding registry_ok_def s by auto
qed

text \<open>Storing a stream the registry does not have.\<close>

lemma store_stream_ok:
  assumes ok: "registry_ok sip r" and absent: "view sip r sid = None"
    and room: "Suc (unat (rg_stream_count r)) < 2 ^ 64"
    and bloom: "\<And>b. rg_bloom_filter r = Some b \<Longrightarrow> might_contain sip sid b"
    and step: "store_stream sip sid md r = (r', res)"
  shows "registry_ok sip r' \<and> res = Ok () \<and> view sip r' = (view sip r)(sid \<mapsto> md) \<and> rg_config r' = rg_config r
     \<and> rg_bloom_filter r' = rg_bloom_filter r"
proof -
  let ?i = "shard_for_stream sip sid" and ?a = "length (rg_objects r)"
  have i: "?i < length (rg_shards r)" by (rule shard_in_range[OF ok])
  have none: "hm_get (rg_shards r ! ?i) sid = None" using absent by (simp add: view_def)
  have r': "rg_objects r' = rg_objects r @ [md]" "rg_config r' = rg_config r" "rg_bloom_filter r' = rg_bloom_filter r"
    "rg_shards r' = (rg_shards r)[?i := rg_shards r ! ?i @ [(sid, ?a)]]" "rg_stream_count r' = rg_stream_count r + 1"
    "res = Ok ()"
    using step none by (auto simp: store_stream_def Let_def hm_insert_fresh)
  have "mset (entries r') = mset (entries r @ [(sid, ?a)])"
    using mset_concat_update[OF i, of "rg_shards r ! ?i @ [(sid, ?a)]"] by (simp add: entries_def r' del: mset_concat)
  moreover have "sid \<notin> fst ` set (entries r)" using absent view_dom[OF ok] by blast
  moreover have "?a \<notin> snd ` set (entries r)" using registry_okD(5)[OF ok] by fastforce
  ultimately have ok': "registry_ok sip r'"
    using ok room i bloom
    by (intro registry_ok_entries[OF ok, where es = "entries r @ [(sid, ?a)]"])
      (auto simp: registry_ok_def r' nth_list_update unat_plus_one less_Suc_eq split: if_splits option.splits)
  have "view sip r' x = ((view sip r)(sid \<mapsto> md)) x" for x
  proof (cases "x = sid")
    case True
    then show ?thesis using i none by (simp add: view_def r' map_add_def)
  next
    case False
    then have "hm_get (rg_shards r' ! shard_for_stream sip x) x = hm_get (rg_shards r ! shard_for_stream sip x) x"
      using i by (auto simp: r' nth_list_update map_add_def split: option.splits)
    moreover have "a < ?a" if "hm_get (rg_shards r ! shard_for_stream sip x) x = Some a" for a
      using that registry_okD(5)[OF ok] by (simp add: lookup_entries[OF ok])
    ultimately show ?thesis
      using False by (cases "hm_get (rg_shards r ! shard_for_stream sip x) x") (auto simp: view_def r'(1) nth_append)
  qed
  with ok' r'(2,3,6) show ?thesis by auto
qed

text \<open>Changing the metadata of one stream through its handle.\<close>

lemma modify_object_simps [simp]:
  "rg_shards (modify_object f a r) = rg_shards r" "rg_config (modify_object f a r) = rg_config r"
  "rg_bloom_filter (modify_object f a r) = rg_bloom_filter r" "entries (modify_object f a r) = entries r"
  "rg_stream_count (modify_object f a r) = rg_stream_count r"
  "registry_ok sip (modify_object f a r) = registry_ok sip r"
  by (simp_all add: modify_object_def entries_def registry_ok_def cong: option.case_cong)

lemma same_handle:
  assumes "registry_ok sip r" "(x, a) \<in> set (entries r)" "(y, a) \<in> set (entries r)"
  shows "x = y"
  using registry_okD(3)[OF assms(1)] assms(2,3) inj_onD[of snd "set (entries r)" "(x, a)" "(y, a)"]
  by (simp add: distinct_map)

lemma view_modify_object:
  assumes ok: "registry_ok sip r" and a: "(sid, a) \<in> set (entries r)"
  shows "view sip (modify_object f a r) = (view sip r)(sid := map_option f (view sip r sid))"
proof
  fix x
  have here: "hm_get (rg_shards r ! shard_for_stream sip sid) sid = Some a" "a < length (rg_objects r)"
    using a registry_okD(5)[OF ok] by (auto simp: lookup_entries[OF ok])
  show "view sip (modify_object f a r) x = ((view sip r)(sid := map_option f (view sip r sid))) x"
  proof (cases "x = sid")
    case False
    then have "hm_get (rg_shards r ! shard_for_stream sip x) x \<noteq> Some a"
      using same_handle[OF ok a] by (auto simp: lookup_entries[OF ok])
    with False show ?thesis
      by (cases "hm_get (rg_shards r ! shard_for_stream sip x) x") (auto simp: view_def modify_object_def)
  qed (use here in \<open>simp add: view_def modify_object_def\<close>)
qed

text \<open>Dropping a stream: its entry goes and whoever holds its handle sees it closed.\<close>

lemma drop_from_shard_None:
  "view sip r sid = None \<Longrightarrow> drop_from_shard (shard_for_stream sip sid) sid r = (r, False)"
  by (simp add: drop_from_shard_def view_def)

lemma drop_from_shard_ok:
  assumes ok: "registry_ok sip r" and a: "(sid, a) \<in> set (entries r)"
    and step: "drop_from_shard (shard_for_stream sip sid) sid r = (r', gone)"
  shows "registry_ok sip r' \<and> gone \<and> view sip r' = (view sip r)(sid := None) \<and> rg_config r' = rg_config r
     \<and> rg_bloom_filter r' = rg_bloom_filter r
     \<and> unat (rg_stream_count r) = Suc (unat (rg_stream_count r'))
     \<and> mset (entries r) = add_mset (sid, a) (mset (entries r'))
     \<and> get_state (rg_objects r' ! a) = Closed"
proof -
  let ?i = "shard_for_stream sip sid"
  have i: "?i < length (rg_shards r)" by (rule shard_in_range[OF ok])
  have here: "hm_get (rg_shards r ! ?i) sid = Some a" and bound: "a < length (rg_objects r)"
    using a registry_okD(5)[OF ok] by (auto simp: lookup_entries[OF ok])
  define r1 where "r1 = r\<lparr>rg_shards := (rg_shards r)[?i := hm_remove sid (rg_shards r ! ?i)]\<rparr>"
  have r': "rg_objects r' = (rg_objects r)[a := set_state Closed (rg_objects r ! a)]" "rg_config r' = rg_config r"
    "rg_bloom_filter r' = rg_bloom_filter r" "rg_stream_count r' = rg_stream_count r - 1" "gone"
    "rg_shards r' = (rg_shards r)[?i := hm_remove sid (rg_shards r ! ?i)]"
    using step here by (auto simp: drop_from_shard_def Let_def) (auto simp: modify_object_def)
  have "distinct (map fst (rg_shards r ! ?i))"
    by (rule distinct_concat_nth[OF registry_okD(2)[OF ok, unfolded entries_def] i])
  note rest = mset_hm_remove[OF this here]
  have m: "mset (entries r) = add_mset (sid, a) (mset (entries r'))"
    using mset_concat_update[OF i, of "hm_remove sid (rg_shards r ! ?i)"] rest
    by (simp add: entries_def r' del: mset_concat)
  then have "mset (map fst (entries r)) = add_mset sid (mset (map fst (entries r')))"
    "mset (map snd (entries r)) = add_mset a (mset (map snd (entries r')))" by simp_all
  then have d: "distinct (map fst (entries r'))" "distinct (map snd (entries r'))"
    using registry_okD(2,3)[OF ok] by (metis distinct.simps(2) mset.simps(2) mset_eq_imp_distinct_iff)+
  have sub: "set (entries r') \<subseteq> set (entries r)" using m by (metis set_mset_mset set_mset_add_mset_insert subset_insertI)
  have n: "length (entries r) = Suc (length (entries r'))" using m by (metis size_add_mset size_mset)
  have c: "unat (rg_stream_count r) = Suc (unat (rg_stream_count r'))"
  proof -
    have pos: "unat (rg_stream_count r) = Suc (length (entries r'))" using registry_okD(4)[OF ok] n by simp
    then have "rg_stream_count r \<noteq> 0" by (metis unat_0 nat.distinct(1))
    with pos show ?thesis by (simp add: r'(4) unat_minus_one)
  qed
  have place: "shard_for_stream sip x = j" if "j < SHARD_COUNT" "(x, b) \<in> set (rg_shards r' ! j)" for j x b
    using that i registry_okD(6)[OF ok, of j x b]
    by (cases "j = ?i") (auto simp: r' hm_remove_def AList.delete_eq)
  have ok': "registry_ok sip r'"
    by (rule registry_ok_entries[OF ok _ place refl d])
      (use sub registry_okD(5,7,8)[OF ok] registry_okD(4)[OF ok] c n in \<open>auto simp: r'(1,3,6) split: option.splits\<close>)
  have "view sip r' x = ((view sip r)(sid := None)) x" for x
  proof (cases "x = sid")
    case False
    then have "hm_get (rg_shards r' ! shard_for_stream sip x) x = hm_get (rg_shards r ! shard_for_stream sip x) x"
      using i by (auto simp: r' nth_list_update)
    moreover have "hm_get (rg_shards r ! shard_for_stream sip x) x \<noteq> Some a"
      using same_handle[OF ok a] False by (auto simp: lookup_entries[OF ok])
    ultimately show ?thesis
      using False by (cases "hm_get (rg_shards r ! shard_for_stream sip x) x") (auto simp: view_def r'(1))
  qed (use i in \<open>simp add: view_def r'\<close>)
  then have "view sip r' = (view sip r)(sid := None)" by blast
  with ok' r' c m bound show ?thesis by simp
qed

lemma get_stream_metadata_simps:
  assumes "registry_ok sip r" "get_stream_metadata sip sid r = (r', h)"
  shows "registry_ok sip r'" "view sip r' = view sip r" "rg_config r' = rg_config r" "rg_objects r' = rg_objects r"
    "rg_bloom_filter r' = rg_bloom_filter r" "rg_stream_count r' = rg_stream_count r" "entries r' = entries r"
    "h = hm_get (rg_shards r ! shard_for_stream sip sid) sid"
  using assms by (auto simp: get_stream_metadata_def split: option.splits)

text \<open>The duplicate check with the filter on: it refuses exactly the streams the registry has.\<close>

lemma bloom_update_ok:
  assumes "registry_ok sip r" "rg_bloom_filter r = Some b"
  shows "registry_ok sip (r\<lparr>rg_bloom_filter := Some (bloom_insert sip sid b)\<rparr>)"
    "view sip (r\<lparr>rg_bloom_filter := f\<rparr>) = view sip r"
proof -
  show "view sip (r\<lparr>rg_bloom_filter := f\<rparr>) = view sip r" by (simp add: view_def fun_eq_iff)
  show "registry_ok sip (r\<lparr>rg_bloom_filter := Some (bloom_insert sip sid b)\<rparr>)"
    using assms bloom_insert_contains[OF registry_okD(7)[OF assms]]
    unfolding registry_ok_def entries_def by fastforce
qed

lemma check_duplicate_ok:
  assumes ok: "registry_ok sip r" and b: "rg_bloom_filter r = Some b" and step: "check_duplicate sip sid r = (r', res)"
  shows "registry_ok sip r' \<and> view sip r' = view sip r \<and> rg_config r' = rg_config r
     \<and> rg_stream_count r' = rg_stream_count r \<and> rg_bloom_filter r' \<noteq> None
     \<and> (case view sip r sid of Some md \<Rightarrow> res = Err (stream_exists_error sid)
        | None \<Rightarrow> res = Ok () \<and> (\<exists>b'. rg_bloom_filter r' = Some b' \<and> might_contain sip sid b'))"
proof (cases "might_contain sip sid b")
  case True
  obtain r1 h where g: "get_stream_metadata sip sid r = (r1, h)" by fastforce
  note g1 = get_stream_metadata_simps[OF ok g]
  have "h = None \<longleftrightarrow> view sip r sid = None" by (simp add: g1(8) view_def)
  with step True b g g1 show ?thesis
    by (cases h) (auto simp: check_duplicate_def split: option.splits)
next
  case False
  then have "(sid, a) \<notin> set (entries r)" for a using registry_okD(8)[OF ok b] by blast
  then have "view sip r sid = None" using view_entries[OF ok] by (metis option.exhaust)
  with step False b bloom_update_ok[OF ok b] bloom_insert_contains(1)[OF registry_okD(7)[OF ok b]]
  show ?thesis by (auto simp: check_duplicate_def)
qed

section \<open>Operations and their specification\<close>

datatype registry_op =
    RegisterOp stream_id stream_metadata
  | UnregisterOp stream_id
  | SetStateOp instant stream_id stream_state
  | CleanupOp instant

datatype registry_reply = Accepted | Refused | Previous stream_state | Cleaned nat

definition registry_step ::
    "(u64 list \<Rightarrow> u64) \<Rightarrow> registry_op \<Rightarrow> stream_registry \<Rightarrow> stream_registry \<times> registry_reply" where
  "registry_step sip x r =
     (case x of
        RegisterOp sid md \<Rightarrow>
          (case register_stream sip sid md r of (r', res) \<Rightarrow> (r', if is_ok res then Accepted else Refused))
      | UnregisterOp sid \<Rightarrow>
          (case unregister_stream sip sid r of (r', res) \<Rightarrow> (r', if is_ok res then Accepted else Refused))
      | SetStateOp now sid st \<Rightarrow>
          (case update_stream_state sip now sid st r of
             (r', Ok old) \<Rightarrow> (r', Previous old) | (r', _) \<Rightarrow> (r', Refused))
      | CleanupOp now \<Rightarrow> (case cleanup_inactive_streams now r of (r', n) \<Rightarrow> (r', Cleaned n)))"

definition drop_stale :: "instant \<Rightarrow> duration \<Rightarrow> (stream_id \<Rightarrow> stream_metadata option) \<Rightarrow> stream_id \<Rightarrow> stream_metadata option" where
  "drop_stale now timeout m sid =
     (case m sid of None \<Rightarrow> None | Some md \<Rightarrow> if is_stale now timeout md then None else Some md)"

definition registry_spec ::
    "registry_config \<Rightarrow> registry_op \<Rightarrow> (stream_id \<Rightarrow> stream_metadata option)
      \<Rightarrow> (stream_id \<Rightarrow> stream_metadata option) \<times> registry_reply" where
  "registry_spec cfg x m =
     (case x of
        RegisterOp sid md \<Rightarrow>
          if card (dom m) < rc_max_streams cfg \<and> m sid = None then (m(sid \<mapsto> md), Accepted) else (m, Refused)
      | UnregisterOp sid \<Rightarrow> (m(sid := None), if m sid = None then Refused else Accepted)
      | SetStateOp now sid st \<Rightarrow>
          (case m sid of None \<Rightarrow> (m, Refused)
           | Some md \<Rightarrow> (m(sid \<mapsto> update_activity now (set_state st md)), Previous (get_state md)))
      | CleanupOp now \<Rightarrow>
          let timeout = duration_from_millis (rc_stream_timeout_ms cfg);
              m' = (if timeout = 0 then m else drop_stale now timeout m) in
          (m', Cleaned (card (dom m) - card (dom m'))))"

definition refines_ok :: "(u64 list \<Rightarrow> u64) \<Rightarrow> registry_config \<Rightarrow> stream_registry \<Rightarrow> bool" where
  "refines_ok sip cfg r = (registry_ok sip r \<and> rg_bloom_filter r \<noteq> None \<and> rg_config r = cfg)"

lemma register_refines:
  assumes ok: "refines_ok sip cfg r" and cap: "rc_max_streams cfg < 2 ^ 64"
    and step: "register_stream sip sid md r = (r', res)"
  shows "refines_ok sip cfg r'
    \<and> registry_spec cfg (RegisterOp sid md) (view sip r) = (view sip r', if is_ok res then Accepted else Refused)"
proof -
  have ok1: "registry_ok sip r" and cfg: "rg_config r = cfg" using ok by (auto simp: refines_ok_def)
  obtain b where b: "rg_bloom_filter r = Some b" using ok by (auto simp: refines_ok_def)
  have cmp: "of_nat (rc_max_streams (rg_config r)) \<le> rg_stream_count r \<longleftrightarrow> rc_max_streams cfg \<le> card (dom (view sip r))"
    using cap by (simp add: cfg card_view[OF ok1] word_le_nat_alt take_bit_nat_eq_self unat_of_nat)
  show ?thesis
  proof (cases "of_nat (rc_max_streams (rg_config r)) \<le> rg_stream_count r")
    case True
    with step ok cmp show ?thesis by (auto simp: register_stream_def registry_spec_def)
  next
    case False
    obtain r1 res1 where c: "check_duplicate sip sid r = (r1, res1)" by fastforce
    note c1 = check_duplicate_ok[OF ok1 b c]
    show ?thesis
    proof (cases "view sip r sid")
      case None
      have "Suc (unat (rg_stream_count r1)) < 2 ^ 64"
        using False cmp cap c1 by (simp add: card_view[OF ok1])
      moreover have "store_stream sip sid md r1 = (r', res)"
        using step False c c1 None by (simp add: register_stream_def)
      ultimately show ?thesis
        using store_stream_ok[of sip r1 sid md r' res] c1 None False cmp cfg
        by (auto simp: registry_spec_def refines_ok_def)
    next
      case (Some old)
      with step False c c1 cfg show ?thesis
        by (auto simp: register_stream_def registry_spec_def refines_ok_def)
    qed
  qed
qed

lemma unregister_refines:
  assumes ok: "refines_ok sip cfg r" and step: "unregister_stream sip sid r = (r', res)"
  shows "refines_ok sip cfg r'
    \<and> registry_spec cfg (UnregisterOp sid) (view sip r) = (view sip r', if is_ok res then Accepted else Refused)"
proof (cases "view sip r sid")
  case None
  with step drop_from_shard_None[OF None] ok show ?thesis
    by (auto simp: unregister_stream_def registry_spec_def fun_upd_idem)
next
  case (Some md)
  have ok1: "registry_ok sip r" using ok by (simp add: refines_ok_def)
  obtain a where a: "(sid, a) \<in> set (entries r)" using Some view_entries[OF ok1] by blast
  obtain r1 gone where d: "drop_from_shard (shard_for_stream sip sid) sid r = (r1, gone)" by fastforce
  from drop_from_shard_ok[OF ok1 a d] step d Some ok show ?thesis
    by (auto simp: unregister_stream_def registry_spec_def refines_ok_def)
qed

lemma set_state_refines:
  assumes ok: "refines_ok sip cfg r" and step: "update_stream_state sip now sid st r = (r', res)"
  shows "refines_ok sip cfg r' \<and> registry_spec cfg (SetStateOp now sid st) (view sip r)
           = (view sip r', case res of Ok old \<Rightarrow> Previous old | _ \<Rightarrow> Refused)"
proof -
  have ok1: "registry_ok sip r" using ok by (simp add: refines_ok_def)
  obtain r1 h where g: "get_stream_metadata sip sid r = (r1, h)" by fastforce
  note g1 = get_stream_metadata_simps[OF ok1 g]
  show ?thesis
  proof (cases h)
    case None
    then have "view sip r sid = None" using g1(8) by (simp add: view_def)
    with None step g g1 ok show ?thesis
      by (auto simp: update_stream_state_def registry_spec_def refines_ok_def)
  next
    case (Some a)
    then have a: "(sid, a) \<in> set (entries r1)" using g1(7,8) lookup_entries[OF ok1] by simp
    have v: "view sip r sid = Some (rg_objects r ! a)" using Some g1(8) by (simp add: view_def)
    from view_modify_object[OF g1(1) a] Some step g g1 v ok show ?thesis
      by (auto simp: update_stream_state_def registry_spec_def refines_ok_def)
  qed
qed

text \<open>The clean-up drops, shard by shard, the streams that are stale when it starts.\<close>

definition drops :: "usize \<Rightarrow> stream_id list \<Rightarrow> stream_registry \<times> nat \<Rightarrow> stream_registry \<times> nat" where
  "drops i sids = fold (\<lambda>sid (r, n). case drop_from_shard i sid r of (r1, gone) \<Rightarrow> (r1, if gone then n + 1 else n)) sids"

lemma drops_refines:
  "refines_ok sip cfg r \<Longrightarrow> distinct sids \<Longrightarrow> \<forall>sid\<in>set sids. shard_for_stream sip sid = i \<and> view sip r sid \<noteq> None \<Longrightarrow>
   drops i sids (r, n) = (r', n') \<Longrightarrow>
     refines_ok sip cfg r' \<and> view sip r' = (\<lambda>x. if x \<in> set sids then None else view sip r x)
     \<and> n' + card (dom (view sip r')) = n + card (dom (view sip r))"
proof (induction sids arbitrary: r n)
  case (Cons sid sids)
  have ok: "registry_ok sip r" using Cons.prems(1) by (simp add: refines_ok_def)
  obtain a where a: "(sid, a) \<in> set (entries r)" using Cons.prems(3) view_dom[OF ok] by fastforce
  obtain r1 gone where d: "drop_from_shard i sid r = (r1, gone)" by fastforce
  have here: "shard_for_stream sip sid = i" using Cons.prems(3) by simp
  note d1 = drop_from_shard_ok[OF ok a d[folded here]]
  have ok1: "refines_ok sip cfg r1" using d1 Cons.prems(1) by (simp add: refines_ok_def)
  have c: "card (dom (view sip r)) = Suc (card (dom (view sip r1)))"
    using d1 card_view[OF ok] card_view[of sip r1] by simp
  have rest: "drops i sids (r1, n + 1) = (r', n')" using Cons.prems(4) d d1 by (simp add: drops_def)
  have ih: "refines_ok sip cfg r' \<and> view sip r' = (\<lambda>x. if x \<in> set sids then None else view sip r1 x)
      \<and> n' + card (dom (view sip r')) = (n + 1) + card (dom (view sip r1))"
    using Cons.prems(2,3) d1 by (intro Cons.IH[OF ok1 _ _ rest]) auto
  have "(\<lambda>x. if x \<in> set sids then None else view sip r1 x) = (\<lambda>x. if x \<in> set (sid # sids) then None else view sip r x)"
    using d1 by (intro ext) simp
  with ih have "view sip r' = (\<lambda>x. if x \<in> set (sid # sids) then None else view sip r x)" by argo
  moreover have "n' + card (dom (view sip r')) = n + card (dom (view sip r))" using ih c by linarith
  ultimately show ?case using ih by blast
qed (simp add: drops_def)

lemma cleanup_shard_refines:
  assumes ok: "refines_ok sip cfg r" and i: "i < SHARD_COUNT" and step: "cleanup_shard now timeout i (r, n) = (r', n')"
  shows "refines_ok sip cfg r'
     \<and> view sip r' = (\<lambda>x. if shard_for_stream sip x = i then drop_stale now timeout (view sip r) x else view sip r x)
     \<and> n' + card (dom (view sip r')) = n + card (dom (view sip r))"
proof -
  have ok1: "registry_ok sip r" using ok by (simp add: refines_ok_def)
  let ?sh = "rg_shards r ! i"
  define sids where "sids = map fst (filter (\<lambda>(sid, a). is_stale now timeout (rg_objects r ! a)) ?sh)"
  have "distinct (map fst ?sh)"
    using distinct_concat_nth[OF registry_okD(2)[OF ok1, unfolded entries_def]] i registry_okD(1)[OF ok1] by simp
  then have d: "distinct sids" and look: "\<And>sid a. (sid, a) \<in> set ?sh \<longleftrightarrow> hm_get ?sh sid = Some a"
    by (auto simp: sids_def distinct_map_filter)
  have mem: "sid \<in> set sids \<longleftrightarrow> shard_for_stream sip sid = i \<and> (\<exists>md. view sip r sid = Some md \<and> is_stale now timeout md)" for sid
  proof -
    have "sid \<in> set sids \<longleftrightarrow> (\<exists>a. (sid, a) \<in> set ?sh \<and> is_stale now timeout (rg_objects r ! a))"
      by (force simp: sids_def)
    also have "\<dots> \<longleftrightarrow> shard_for_stream sip sid = i \<and> (\<exists>a. hm_get ?sh sid = Some a \<and> is_stale now timeout (rg_objects r ! a))"
      using registry_okD(6)[OF ok1 i] look by blast
    finally show ?thesis by (auto simp: view_def)
  qed
  have "drops i sids (r, n) = (r', n')" using step by (simp add: cleanup_shard_def drops_def sids_def)
  from drops_refines[OF ok d _ this] mem
  have "refines_ok sip cfg r'" "view sip r' = (\<lambda>x. if x \<in> set sids then None else view sip r x)"
    "n' + card (dom (view sip r')) = n + card (dom (view sip r))" by auto
  moreover have "(\<lambda>x. if x \<in> set sids then None else view sip r x)
      = (\<lambda>x. if shard_for_stream sip x = i then drop_stale now timeout (view sip r) x else view sip r x)"
    by (rule ext) (auto simp: mem drop_stale_def split: option.splits)
  ultimately show ?thesis by simp
qed

lemma cleanup_shards_refine:
  "refines_ok sip cfg r \<Longrightarrow> k \<le> SHARD_COUNT \<Longrightarrow> fold (cleanup_shard now timeout) [0..<k] (r, 0) = (r', n) \<Longrightarrow>
     refines_ok sip cfg r'
     \<and> view sip r' = (\<lambda>x. if shard_for_stream sip x < k then drop_stale now timeout (view sip r) x else view sip r x)
     \<and> n + card (dom (view sip r')) = card (dom (view sip r))"
proof (induction k arbitrary: r' n)
  case (Suc k)
  obtain r1 n1 where s: "fold (cleanup_shard now timeout) [0..<k] (r, 0) = (r1, n1)" by fastforce
  have ih: "refines_ok sip cfg r1
     \<and> view sip r1 = (\<lambda>x. if shard_for_stream sip x < k then drop_stale now timeout (view sip r) x else view sip r x)
     \<and> n1 + card (dom (view sip r1)) = card (dom (view sip r))"
    using Suc.prems by (intro Suc.IH[OF _ _ s]) auto
  have "cleanup_shard now timeout k (r1, n1) = (r', n)" using Suc.prems(3) s by simp
  from cleanup_shard_refines[OF conjunct1[OF ih] _ this] Suc.prems(2)
  have one: "refines_ok sip cfg r'" "n + card (dom (view sip r')) = n1 + card (dom (view sip r1))"
    "view sip r' = (\<lambda>x. if shard_for_stream sip x = k then drop_stale now timeout (view sip r1) x else view sip r1 x)"
    by auto
  have "(\<lambda>x. if shard_for_stream sip x = k then drop_stale now timeout (view sip r1) x else view sip r1 x)
      = (\<lambda>x. if shard_for_stream sip x < Suc k then drop_stale now timeout (view sip r) x else view sip r x)"
    using ih by (intro ext) (auto simp: drop_stale_def)
  with one(3) have "view sip r' = (\<lambda>x. if shard_for_stream sip x < Suc k then drop_stale now timeout (view sip r) x else view sip r x)"
    by argo
  moreover have "n + card (dom (view sip r')) = card (dom (view sip r))" using ih one(2) by linarith
  ultimately show ?case using one(1) by blast
qed simp

lemma cleanup_refines:
  assumes ok: "refines_ok sip cfg r" and step: "cleanup_inactive_streams now r = (r', n)"
  shows "refines_ok sip cfg r' \<and> registry_spec cfg (CleanupOp now) (view sip r) = (view sip r', Cleaned n)"
proof (cases "duration_from_millis (rc_stream_timeout_ms cfg) = 0")
  case True
  with step ok show ?thesis
    by (auto simp: cleanup_inactive_streams_def registry_spec_def refines_ok_def)
next
  case False
  let ?t = "duration_from_millis (rc_stream_timeout_ms cfg)"
  have "fold (cleanup_shard now ?t) [0..<SHARD_COUNT] (r, 0) = (r', n)"
    using step False ok by (simp add: cleanup_inactive_streams_def refines_ok_def Let_def)
  from cleanup_shards_refine[OF ok _ this] have
    "refines_ok sip cfg r'" "view sip r' = drop_stale now ?t (view sip r)"
    "n + card (dom (view sip r')) = card (dom (view sip r))"
    by (auto simp: fun_eq_iff shard_for_stream_def SHARD_COUNT_pos)
  then show ?thesis using False by (auto simp: registry_spec_def Let_def)
qed

text \<open>A capacity that does not fit into 64 bits would be truncated by the code, hence the side condition.\<close>

definition capped :: "registry_config \<Rightarrow> bool" where
  "capped cfg = (rc_max_streams cfg < 2 ^ 64)"

lemma registry_simulates:
  assumes ok: "refines_ok sip cfg r \<and> capped cfg" and step: "registry_step sip x r = (r', rep)"
  shows "(refines_ok sip cfg r' \<and> capped cfg) \<and> registry_spec cfg x (view sip r) = (view sip r', rep)"
proof (cases x)
  case (RegisterOp sid md)
  then show ?thesis using step ok register_refines[of sip cfg r sid md]
    by (auto simp: registry_step_def capped_def split: prod.splits)
next
  case (UnregisterOp sid)
  then show ?thesis using step ok unregister_refines[of sip cfg r sid]
    by (auto simp: registry_step_def split: prod.splits)
next
  case (SetStateOp now sid st)
  obtain r1 res where u: "update_stream_state sip now sid st r = (r1, res)" by fastforce
  from SetStateOp set_state_refines[OF conjunct1[OF ok] u] step ok u show ?thesis
    by (cases res) (auto simp: registry_step_def)
next
  case (CleanupOp now)
  then show ?thesis using step ok cleanup_refines[of sip cfg r now]
    by (auto simp: registry_step_def split: prod.splits)
qed

interpretation stream_map: functional_refinement
  "\<lambda>r. refines_ok sip cfg r \<and> capped cfg" "\<lambda>x r. True" "view sip" "registry_step sip" "registry_spec cfg" for sip cfg
  by unfold_locales (rule registry_simulates)

lemma registry_new_refines: "rc_enable_bloom_filter cfg \<Longrightarrow> refines_ok sip cfg (registry_new cfg)"
  "view sip (registry_new cfg) = Map.empty"
proof -
  have "entries (registry_new cfg) = []" by (simp add: entries_def registry_new_def)
  then show "rc_enable_bloom_filter cfg \<Longrightarrow> refines_ok sip cfg (registry_new cfg)"
    by (simp add: refines_ok_def registry_ok_def) (simp add: registry_new_def bloom_new_def BLOOM_FILTER_SIZE_def)
  show "view sip (registry_new cfg) = Map.empty"
    by (simp add: view_def registry_new_def shard_for_stream_def SHARD_COUNT_pos fun_eq_iff)
qed

text \<open>
  C25: the sharded registry refines one map. Started empty with the Bloom filter on (the default), any
  sequence of registrations, removals, state changes and clean-ups gets the replies, and ends with the
  contents, of the specification on a single map: a registration is refused exactly when the map is at
  capacity or has the stream, a removal exactly when it has not, a state change returns the previous
  state, a clean-up removes the streams idle for longer than the timeout and counts them; the stream
  counter is the size of the map, and a lookup returns a handle on what the map has.
\<close>

theorem registry_refines_map:
  assumes "rc_enable_bloom_filter cfg" "rc_max_streams cfg < 2 ^ 64"
    and run: "run_ops (registry_step sip) ops (registry_new cfg) = (r, replies)"
  shows "run_ops (registry_spec cfg) ops Map.empty = (view sip r, replies)
     \<and> active_stream_count r = card (dom (view sip r))
     \<and> map_option ((!) (rg_objects r)) (snd (get_stream_metadata sip sid r)) = view sip r sid"
proof -
  have "refines_ok sip cfg (registry_new cfg) \<and> capped cfg"
    using registry_new_refines(1)[OF assms(1)] assms(2) by (simp add: capped_def)
  from stream_map.run_simulates[OF this all_legal_True run] registry_new_refines(2)[of sip cfg]
  have "run_ops (registry_spec cfg) ops Map.empty = (view sip r, replies)" "registry_ok sip r"
    by (auto simp: refines_ok_def)
  then show ?thesis
    using card_view[of sip r] get_stream_metadata_simps(8)[of sip r sid]
    by (auto simp: active_stream_count_def view_def get_stream_metadata_def split: option.splits)
qed

definition sample_registry_config :: registry_config where
  "sample_registry_config = \<lparr>rc_max_streams = 2, rc_enable_bloom_filter = True, rc_memory_pool_size = 0,
     rc_enable_statistics = False, rc_cleanup_interval_ms = 1, rc_stream_timeout_ms = 0\<rparr>"

definition sample_metadata :: "stream_id \<Rightarrow> stream_metadata" where
  "sample_metadata sid = metadata_new 0 sid MediumPriority 16"

definition sample_registry_ops :: "registry_op list" where
  "sample_registry_ops = [RegisterOp 1 (sample_metadata 1), RegisterOp 1 (sample_metadata 1),
     SetStateOp 5 1 Active, UnregisterOp 2, UnregisterOp 1, RegisterOp 1 (sample_metadata 1)]"

theorem registry_refines_map_witness:
  "snd (run_ops (registry_step hd) sample_registry_ops (registry_new sample_registry_config))
     = [Accepted, Refused, Previous Initializing, Refused, Accepted, Accepted]"
proof -
  obtain r replies where run:
    "run_ops (registry_step hd) sample_registry_ops (registry_new sample_registry_config) = (r, replies)" by fastforce
  have "rc_enable_bloom_filter sample_registry_config" "rc_max_streams sample_registry_config < 2 ^ 64"
    by (simp_all add: sample_registry_config_def)
  from registry_refines_map[OF this run, of 1] have
    "replies = snd (run_ops (registry_spec sample_registry_config) sample_registry_ops Map.empty)" by simp
  also have "\<dots> = [Accepted, Refused, Previous Initializing, Refused, Accepted, Accepted]"
    by (simp add: sample_registry_ops_def registry_spec_def sample_registry_config_def sample_metadata_def
        metadata_new_def get_state_def)
  finally show ?thesis using run by simp
qed

text \<open>
  a stream that is unregistered is closed for everyone. Whoever looked the stream up before and still
  holds the handle reads the state \<open>Closed\<close> through it; no other stream's metadata changes.
\<close>

theorem unregistered_stream_closed:
  assumes ok: "registry_ok sip r" and look: "get_stream_metadata sip sid r = (r1, Some a)"
    and un: "unregister_stream sip sid r1 = (r2, res)"
  shows "res = Ok () \<and> get_state (rg_objects r2 ! a) = Closed \<and> \<not> can_accept_messages (rg_objects r2 ! a)
     \<and> view sip r2 sid = None \<and> (\<forall>x. x \<noteq> sid \<longrightarrow> view sip r2 x = view sip r x)"
proof -
  note g = get_stream_metadata_simps[OF ok look]
  have "(sid, a) \<in> set (entries r1)" using g(7) g(8)[symmetric] lookup_entries[OF ok] by simp
  moreover obtain r3 gone where d: "drop_from_shard (shard_for_stream sip sid) sid r1 = (r3, gone)" by fastforce
  ultimately have "gone" "view sip r3 = (view sip r1)(sid := None)" "get_state (rg_objects r3 ! a) = Closed"
    using drop_from_shard_ok[OF g(1) _ d] by blast+
  moreover from this un d have "r2 = r3" "res = Ok ()" by (auto simp: unregister_stream_def)
  ultimately show ?thesis using g(2) by (simp add: can_accept_messages_def)
qed

definition sample_plain_config :: registry_config where
  "sample_plain_config = sample_registry_config\<lparr>rc_enable_bloom_filter := False\<rparr>"

definition sample_registry :: stream_registry where
  "sample_registry = fst (register_stream hd 1 (sample_metadata 1) (registry_new sample_plain_config))"

theorem unregistered_stream_closed_witness:
  "get_state (rg_objects (fst (unregister_stream hd 1 (fst (get_stream_metadata hd 1 sample_registry)))) ! 0) = Closed"
proof -
  have "registry_ok hd sample_registry" "snd (get_stream_metadata hd 1 sample_registry) = Some 0" by code_simp+
  then show ?thesis
    using unregistered_stream_closed[of hd sample_registry 1 "fst (get_stream_metadata hd 1 sample_registry)" 0]
    by (metis prod.collapse)
qed

text \<open>
  without the Bloom filter (the memory-optimised configuration) a refused duplicate still replaces the
  stream. Registering an id the registry has returns the error \<open>Stream already exists\<close>, and yet a later lookup
  finds the refused metadata and not the original, which keeps running detached from the registry.
\<close>

theorem refused_duplicate_replaces:
  assumes ok: "registry_ok sip r" and off: "rg_bloom_filter r = None" and old: "view sip r sid = Some md0"
    and room: "rg_stream_count r < of_nat (rc_max_streams (rg_config r))"
    and step: "register_stream sip sid md r = (r', res)"
  shows "res = Err (stream_exists_error sid) \<and> view sip r' sid = Some md \<and> rg_stream_count r' = rg_stream_count r"
proof -
  have present: "hm_get (rg_shards r ! shard_for_stream sip sid) sid \<noteq> None" using old by (auto simp: view_def)
  have "store_stream sip sid md r = (r', res)"
    using step off room by (simp add: register_stream_def check_duplicate_def not_le[symmetric])
  then show ?thesis
    using present shard_in_range[OF ok, of sid] by (auto simp: store_stream_def Let_def view_def)
qed

theorem refused_duplicate_replaces_witness:
  "view hd (fst (register_stream hd 1 (sample_metadata 9) sample_registry)) 1 = Some (sample_metadata 9)"
proof -
  have "registry_ok hd sample_registry" "rg_bloom_filter sample_registry = None"
    "view hd sample_registry 1 = Some (sample_metadata 1)"
    "rg_stream_count sample_registry < of_nat (rc_max_streams (rg_config sample_registry))" by code_simp+
  then show ?thesis
    using refused_duplicate_replaces[of hd sample_registry 1 "sample_metadata 1" "sample_metadata 9"] by (metis prod.collapse)
qed

end
