(* ===== verification/Mux_Router.thy ===== *)
theory Mux_Router
  imports Mux_Backpressure
begin

text \<open>
  The message router of \<^verbatim>\<open>src/kaelix-core/src/multiplexing/router.rs\<close>: a consistent-hash ring and the
  routing strategies over the streams and their load. What is proved holds whatever the floating-point
  rounding; \<open>str_hash\<close> is the standard library's \<open>DefaultHasher\<close> on a string. The priority queues, which nothing reads, and the
  derived averages of the statistics are left out.
\<close>

section \<open>The consistent-hash ring\<close>

record hash_ring =
  hr_ring :: "(u64, stream_id) btree_map"
  hr_nodes :: "(stream_id, u64 list) hash_map"
  hr_virtual_nodes :: usize

definition ring_new :: hash_ring where
  "ring_new = \<lparr>hr_ring = [], hr_nodes = [], hr_virtual_nodes = 150\<rparr>"

definition virtual_hashes :: "(string \<Rightarrow> u64) \<Rightarrow> stream_id \<Rightarrow> hash_ring \<Rightarrow> u64 list" where
  "virtual_hashes str_hash node r =
     map (\<lambda>i. str_hash (decimal (unat node) @ '':'' @ decimal i)) [0..<hr_virtual_nodes r]"

definition add_node :: "(string \<Rightarrow> u64) \<Rightarrow> stream_id \<Rightarrow> hash_ring \<Rightarrow> hash_ring" where
  "add_node str_hash node r =
     (let hashes = virtual_hashes str_hash node r in
      r\<lparr>hr_ring := fold (\<lambda>h. bt_insert h node) hashes (hr_ring r),
        hr_nodes := hm_insert node hashes (hr_nodes r)\<rparr>)"

definition bt_remove :: "'k \<Rightarrow> ('k, 'v) btree_map \<Rightarrow> ('k, 'v) btree_map" where
  "bt_remove k m = filter (\<lambda>e. fst e \<noteq> k) m"

definition remove_node :: "stream_id \<Rightarrow> hash_ring \<Rightarrow> hash_ring" where
  "remove_node node r =
     (case hm_get (hr_nodes r) node of
        None \<Rightarrow> r
      | Some hashes \<Rightarrow> r\<lparr>hr_nodes := hm_remove node (hr_nodes r), hr_ring := fold bt_remove hashes (hr_ring r)\<rparr>)"

definition get_node :: "(string \<Rightarrow> u64) \<Rightarrow> string \<Rightarrow> hash_ring \<Rightarrow> stream_id option" where
  "get_node str_hash key r =
     (if hr_ring r = [] then None
      else case find (\<lambda>e. str_hash key \<le> fst e) (hr_ring r) of
             Some e \<Rightarrow> Some (snd e)
           | None \<Rightarrow> Some (snd (hd (hr_ring r))))"

section \<open>Streams and messages\<close>

datatype routing_strategy =
  RoundRobin | LeastLoaded | ConsistentHash | Geographic | PriorityBased | Adaptive | Custom

definition default_routing_strategy :: routing_strategy where
  "default_routing_strategy = LeastLoaded"

record routing_config =
  rt_strategy :: routing_strategy
  rt_fallback_strategy :: "routing_strategy option"
  rt_adaptive_routing :: bool
  rt_load_window_size :: usize
  rt_max_routing_attempts :: u32
  rt_routing_timeout :: duration
  rt_geographic_routing :: bool

definition default_routing_config :: routing_config where
  "default_routing_config = \<lparr>rt_strategy = default_routing_strategy, rt_fallback_strategy = Some RoundRobin,
     rt_adaptive_routing = True, rt_load_window_size = 1000, rt_max_routing_attempts = 3,
     rt_routing_timeout = duration_from_millis 100, rt_geographic_routing = False\<rparr>"

record 'f stream_load_metrics =
  lm_stream_id :: stream_id
  lm_current_load :: 'f
  lm_average_load :: 'f
  lm_peak_load :: 'f
  lm_queue_depth :: usize
  lm_latency_ms :: 'f
  lm_error_rate :: 'f
  lm_available_capacity :: 'f
  lm_last_update :: instant
  lm_region :: "string option"

definition load_metrics_new :: "'f float_ops \<Rightarrow> instant \<Rightarrow> stream_id \<Rightarrow> 'f stream_load_metrics" where
  "load_metrics_new fl now sid =
     \<lparr>lm_stream_id = sid, lm_current_load = fl_tenths fl 0, lm_average_load = fl_tenths fl 0,
      lm_peak_load = fl_tenths fl 0, lm_queue_depth = 0, lm_latency_ms = fl_tenths fl 0,
      lm_error_rate = fl_tenths fl 0, lm_available_capacity = fl_tenths fl 1000, lm_last_update = now,
      lm_region = None\<rparr>"

definition health_score :: "'f float_ops \<Rightarrow> 'f stream_load_metrics \<Rightarrow> 'f" where
  "health_score fl m =
     (let capacity_score = fl_div fl (lm_available_capacity m) (fl_tenths fl 1000);
          latency_score = fl_div fl (fl_sub fl (fl_tenths fl 2000) (fl_min fl (lm_latency_ms m) (fl_tenths fl 2000)))
                            (fl_tenths fl 2000);
          error_score = fl_div fl (fl_sub fl (fl_tenths fl 1000) (fl_min fl (lm_error_rate m) (fl_tenths fl 1000)))
                          (fl_tenths fl 1000) in
      fl_div fl (fl_add fl (fl_add fl capacity_score latency_score) error_score) (fl_tenths fl 30))"

definition is_overloaded :: "'f float_ops \<Rightarrow> 'f stream_load_metrics \<Rightarrow> bool" where
  "is_overloaded fl m =
     (fl_less fl (lm_available_capacity m) (fl_tenths fl 100) \<or> fl_less fl (fl_tenths fl 50) (lm_error_rate m)
      \<or> fl_less fl (fl_tenths fl 10000) (lm_latency_ms m))"

record message_metadata =
  mm_message_id :: string
  mm_priority :: u8
  mm_target_stream :: "stream_id option"
  mm_origin_region :: "string option"
  mm_size_bytes :: usize

record 'f routing_result =
  rr_target_stream :: stream_id
  rr_strategy_used :: routing_strategy
  rr_confidence :: 'f
  rr_estimated_latency :: duration
  rr_alternatives :: "stream_id list"

datatype routing_error = RuntimeError string

section \<open>The router\<close>

record routing_stats =
  rs_total_requests :: u64
  rs_successful_routes :: u64
  rs_failed_routes :: u64
  rs_fallback_used :: u64
  rs_total_latency :: duration

definition routing_stats_new :: routing_stats where
  "routing_stats_new = \<lparr>rs_total_requests = 0, rs_successful_routes = 0, rs_failed_routes = 0,
     rs_fallback_used = 0, rs_total_latency = 0\<rparr>"

record 'f router =
  ro_config :: routing_config
  ro_streams :: "(stream_id, 'f stream_load_metrics) hash_map"
  ro_round_robin_counter :: u64
  ro_hash_ring :: hash_ring
  ro_stats :: routing_stats
  ro_region_mapping :: "(string, stream_id list) hash_map"

definition router_new :: "routing_config \<Rightarrow> 'f router" where
  "router_new cfg = \<lparr>ro_config = cfg, ro_streams = [], ro_round_robin_counter = 0, ro_hash_ring = ring_new,
     ro_stats = routing_stats_new, ro_region_mapping = []\<rparr>"

definition router_add_stream ::
    "'f float_ops \<Rightarrow> (string \<Rightarrow> u64) \<Rightarrow> instant \<Rightarrow> stream_id \<Rightarrow> string option \<Rightarrow> 'f router \<Rightarrow> 'f router" where
  "router_add_stream fl str_hash now sid region r =
     r\<lparr>ro_streams := hm_insert sid ((load_metrics_new fl now sid)\<lparr>lm_region := region\<rparr>) (ro_streams r),
       ro_hash_ring := add_node str_hash sid (ro_hash_ring r),
       ro_region_mapping :=
         (case region of
            None \<Rightarrow> ro_region_mapping r
          | Some reg \<Rightarrow> hm_insert reg (hm_get_or [] (ro_region_mapping r) reg @ [sid]) (ro_region_mapping r))\<rparr>"

definition router_remove_stream :: "stream_id \<Rightarrow> 'f router \<Rightarrow> 'f router" where
  "router_remove_stream sid r =
     r\<lparr>ro_streams := hm_remove sid (ro_streams r),
       ro_hash_ring := remove_node sid (ro_hash_ring r),
       ro_region_mapping :=
         (case map_option lm_region (hm_get (ro_streams r) sid) of
            Some (Some reg) \<Rightarrow>
              (case hm_get (ro_region_mapping r) reg of
                 None \<Rightarrow> ro_region_mapping r
               | Some sids \<Rightarrow>
                   let rest = filter (\<lambda>x. x \<noteq> sid) sids in
                   if rest = [] then hm_remove reg (ro_region_mapping r)
                   else hm_insert reg rest (ro_region_mapping r))
          | _ \<Rightarrow> ro_region_mapping r)\<rparr>"

definition update_stream_metrics :: "'f stream_load_metrics \<Rightarrow> 'f router \<Rightarrow> 'f router" where
  "update_stream_metrics m r = r\<lparr>ro_streams := hm_insert (lm_stream_id m) m (ro_streams r)\<rparr>"

definition no_streams :: routing_error where
  "no_streams = RuntimeError ''No streams available for routing''"

definition route_round_robin :: "'f float_ops \<Rightarrow> 'f router \<Rightarrow> 'f router \<times> ('f routing_result, routing_error) result" where
  "route_round_robin fl r =
     (let stream_ids = hm_keys (ro_streams r) in
      if stream_ids = [] then (r, Err no_streams)
      else
        let index = unat (ro_round_robin_counter r);
            target = stream_ids ! (index mod length stream_ids) in
        (r\<lparr>ro_round_robin_counter := ro_round_robin_counter r + 1\<rparr>,
         Ok \<lparr>rr_target_stream = target, rr_strategy_used = RoundRobin, rr_confidence = fl_tenths fl 7,
             rr_estimated_latency = duration_from_millis 50,
             rr_alternatives = filter (\<lambda>s. s \<noteq> target) stream_ids\<rparr>))"

text \<open>\<open>Iterator::max_by\<close> keeps the later of two elements that compare equal; incomparable scores do.\<close>

definition healthier :: "'f float_ops \<Rightarrow> stream_id \<times> 'f stream_load_metrics \<Rightarrow> stream_id \<times> 'f stream_load_metrics
    \<Rightarrow> stream_id \<times> 'f stream_load_metrics" where
  "healthier fl x best = (if fl_less fl (health_score fl (snd x)) (health_score fl (snd best)) then best else x)"

definition healthiest :: "'f float_ops \<Rightarrow> (stream_id \<times> 'f stream_load_metrics) list
    \<Rightarrow> (stream_id \<times> 'f stream_load_metrics) option" where
  "healthiest fl xs =
     (case filter (\<lambda>x. \<not> is_overloaded fl (snd x)) xs of
        [] \<Rightarrow> None
      | y # ys \<Rightarrow> Some (fold (healthier fl) ys y))"

definition route_least_loaded :: "'f float_ops \<Rightarrow> 'f router \<Rightarrow> ('f routing_result, routing_error) result" where
  "route_least_loaded fl r =
     (if ro_streams r = [] then Err no_streams
      else case healthiest fl (ro_streams r) of
             None \<Rightarrow> Err (RuntimeError ''No healthy streams available'')
           | Some (target, m) \<Rightarrow>
               Ok \<lparr>rr_target_stream = target, rr_strategy_used = LeastLoaded, rr_confidence = health_score fl m,
                   rr_estimated_latency = duration_from_millis (fl_as_u64 fl (lm_latency_ms m)),
                   rr_alternatives = filter (\<lambda>s. s \<noteq> target) (hm_keys (ro_streams r))\<rparr>)"

definition route_consistent_hash ::
    "'f float_ops \<Rightarrow> (string \<Rightarrow> u64) \<Rightarrow> message_metadata \<Rightarrow> 'f router \<Rightarrow> ('f routing_result, routing_error) result" where
  "route_consistent_hash fl str_hash md r =
     (case get_node str_hash (mm_message_id md) (ro_hash_ring r) of
        None \<Rightarrow> Err (RuntimeError ''No nodes in hash ring'')
      | Some target \<Rightarrow>
          Ok \<lparr>rr_target_stream = target, rr_strategy_used = ConsistentHash, rr_confidence = fl_tenths fl 9,
              rr_estimated_latency = duration_from_millis 30, rr_alternatives = []\<rparr>)"

definition region_candidates :: "stream_id list \<Rightarrow> 'f router \<Rightarrow> (stream_id \<times> 'f stream_load_metrics) list" where
  "region_candidates sids r =
     concat (map (\<lambda>s. case hm_get (ro_streams r) s of None \<Rightarrow> [] | Some m \<Rightarrow> [(s, m)]) sids)"

definition route_geographic ::
    "'f float_ops \<Rightarrow> message_metadata \<Rightarrow> 'f router \<Rightarrow> ('f routing_result, routing_error) result" where
  "route_geographic fl md r =
     (case mm_origin_region md of
        None \<Rightarrow> route_least_loaded fl r
      | Some region \<Rightarrow>
          (case hm_get (ro_region_mapping r) region of
             None \<Rightarrow> route_least_loaded fl r
           | Some [] \<Rightarrow> route_least_loaded fl r
           | Some (s # ss) \<Rightarrow>
               (case healthiest fl (region_candidates (s # ss) r) of
                  None \<Rightarrow> Err (RuntimeError ''No healthy streams in region'')
                | Some (target, m) \<Rightarrow>
                    Ok \<lparr>rr_target_stream = target, rr_strategy_used = Geographic, rr_confidence = health_score fl m,
                        rr_estimated_latency = duration_from_millis (fl_as_u64 fl (lm_latency_ms m) div 2),
                        rr_alternatives = filter (\<lambda>x. x \<noteq> target) (s # ss)\<rparr>)))"

definition route_priority_based :: "'f float_ops \<Rightarrow> 'f router \<Rightarrow> ('f routing_result, routing_error) result" where
  "route_priority_based fl r =
     and_then (route_least_loaded fl r) (\<lambda>res. Ok (res\<lparr>rr_strategy_used := PriorityBased\<rparr>))"

definition average_load :: "'f float_ops \<Rightarrow> 'f router \<Rightarrow> 'f" where
  "average_load fl r =
     fl_div fl (foldl (fl_add fl) (fl_tenths fl 0) (map (lm_current_load \<circ> snd) (ro_streams r)))
       (fl_of_usize fl (length (ro_streams r)))"

definition route_adaptive ::
    "'f float_ops \<Rightarrow> (string \<Rightarrow> u64) \<Rightarrow> message_metadata \<Rightarrow> 'f router \<Rightarrow> ('f routing_result, routing_error) result" where
  "route_adaptive fl str_hash md r =
     (if fl_less fl (fl_tenths fl 10000) (average_load fl r) then route_least_loaded fl r
      else if mm_origin_region md \<noteq> None then route_geographic fl md r
      else route_consistent_hash fl str_hash md r)"

definition route_primary ::
    "'f float_ops \<Rightarrow> (string \<Rightarrow> u64) \<Rightarrow> message_metadata \<Rightarrow> 'f router
      \<Rightarrow> 'f router \<times> ('f routing_result, routing_error) result" where
  "route_primary fl str_hash md r =
     (case rt_strategy (ro_config r) of
        RoundRobin \<Rightarrow> route_round_robin fl r
      | LeastLoaded \<Rightarrow> (r, route_least_loaded fl r)
      | ConsistentHash \<Rightarrow> (r, route_consistent_hash fl str_hash md r)
      | Geographic \<Rightarrow> (r, route_geographic fl md r)
      | PriorityBased \<Rightarrow> (r, route_priority_based fl r)
      | Adaptive \<Rightarrow> (r, route_adaptive fl str_hash md r)
      | Custom \<Rightarrow> (r, route_least_loaded fl r))"

definition count_stat :: "(routing_stats \<Rightarrow> routing_stats) \<Rightarrow> 'f router \<Rightarrow> 'f router" where
  "count_stat f r = r\<lparr>ro_stats := f (ro_stats r)\<rparr>"

definition route_fallback :: "'f float_ops \<Rightarrow> routing_strategy \<Rightarrow> 'f router
    \<Rightarrow> 'f router \<times> ('f routing_result, routing_error) result" where
  "route_fallback fl fallback r =
     (case fallback of
        RoundRobin \<Rightarrow> route_round_robin fl r
      | LeastLoaded \<Rightarrow> (r, route_least_loaded fl r)
      | _ \<Rightarrow> (r, Err (RuntimeError ''No viable routing strategy'')))"

definition route_message ::
    "'f float_ops \<Rightarrow> (string \<Rightarrow> u64) \<Rightarrow> duration \<Rightarrow> message_metadata \<Rightarrow> 'f router
      \<Rightarrow> 'f router \<times> ('f routing_result, routing_error) result" where
  "route_message fl str_hash elapsed md r =
     (let r0 = count_stat (\<lambda>s. s\<lparr>rs_total_requests := rs_total_requests s + 1\<rparr>) r;
          succeed = count_stat (\<lambda>s. s\<lparr>rs_total_latency := rs_total_latency s + elapsed,
                                     rs_successful_routes := rs_successful_routes s + 1\<rparr>) in
      case route_primary fl str_hash md r0 of
        (r1, Ok res) \<Rightarrow> (succeed r1, Ok res)
      | (r1, e) \<Rightarrow>
          (case rt_fallback_strategy (ro_config r) of
             None \<Rightarrow> (r1, e)
           | Some fallback \<Rightarrow>
               (case route_fallback fl fallback
                       (count_stat (\<lambda>s. s\<lparr>rs_fallback_used := rs_fallback_used s + 1\<rparr>) r1) of
                  (r2, Ok res) \<Rightarrow> (succeed r2, Ok res)
                | (r2, e2) \<Rightarrow> (r2, e2))))"

section \<open>Consistent hashing\<close>

definition ring_ok :: "hash_ring \<Rightarrow> bool" where
  "ring_ok r =
     (bt_ok (hr_ring r)
      \<and> (\<forall>(h, n)\<in>set (hr_ring r). h \<in> set (hm_get_or [] (hr_nodes r) n))
      \<and> (\<forall>n\<in>set (hm_keys (hr_nodes r)). \<forall>h\<in>set (hm_get_or [] (hr_nodes r) n). map_of (hr_ring r) h = Some n))"

lemma bt_entry: "bt_ok m \<Longrightarrow> (k, v) \<in> set m \<longleftrightarrow> map_of m k = Some v"
  by (simp add: bt_ok_def strict_sorted_iff)

lemma ring_ok_maps:
  "ring_ok r \<longleftrightarrow> bt_ok (hr_ring r)
     \<and> (\<forall>h n. map_of (hr_ring r) h = Some n \<longrightarrow> (\<exists>hs. hm_get (hr_nodes r) n = Some hs \<and> h \<in> set hs))
     \<and> (\<forall>n hs. hm_get (hr_nodes r) n = Some hs \<longrightarrow> (\<forall>h\<in>set hs. map_of (hr_ring r) h = Some n))"
proof (cases "bt_ok (hr_ring r)")
  case True
  have "(\<forall>(h, n)\<in>set (hr_ring r). h \<in> set (hm_get_or [] (hr_nodes r) n))
      \<longleftrightarrow> (\<forall>h n. map_of (hr_ring r) h = Some n \<longrightarrow> (\<exists>hs. hm_get (hr_nodes r) n = Some hs \<and> h \<in> set hs))"
  proof -
    have in_get: "h \<in> set (hm_get_or [] (hr_nodes r) n) \<longleftrightarrow> (\<exists>hs. hm_get (hr_nodes r) n = Some hs \<and> h \<in> set hs)" for h n
      by (cases "hm_get (hr_nodes r) n") (auto simp: hm_get_or_def)
    show ?thesis unfolding in_get bt_entry[OF True, symmetric] by blast
  qed
  moreover have "(\<forall>n\<in>set (hm_keys (hr_nodes r)). \<forall>h\<in>set (hm_get_or [] (hr_nodes r) n). map_of (hr_ring r) h = Some n)
      \<longleftrightarrow> (\<forall>n hs. hm_get (hr_nodes r) n = Some hs \<longrightarrow> (\<forall>h\<in>set hs. map_of (hr_ring r) h = Some n))"
    by (auto simp: set_hm_keys dom_def hm_get_or_def)
  ultimately show ?thesis using True by (simp add: ring_ok_def)
qed (simp add: ring_ok_def)

text \<open>The entry of the ring that serves a hash.\<close>

definition serving :: "u64 \<Rightarrow> (u64, stream_id) btree_map \<Rightarrow> (u64 \<times> stream_id) option" where
  "serving x m = (if m = [] then None
     else case find (\<lambda>e. x \<le> fst e) m of Some e \<Rightarrow> Some e | None \<Rightarrow> Some (hd m))"

lemma get_node_serving: "get_node str_hash key r = map_option snd (serving (str_hash key) (hr_ring r))"
  by (auto simp: get_node_def serving_def split: option.splits)

lemma serving_in: "serving x m = Some e \<Longrightarrow> e \<in> set m"
  by (auto simp: serving_def find_Some_iff split: if_splits option.splits)

lemma find_filter_keep: "find P m = Some e \<Longrightarrow> Q e \<Longrightarrow> find P (filter Q m) = Some e"
  by (induction m) (auto split: if_splits)

lemma serving_filter:
  assumes "serving x m = Some e" "Q e"
  shows "serving x (filter Q m) = Some e"
proof (cases "find (\<lambda>e. x \<le> fst e) m")
  case (Some d)
  with assms have "find (\<lambda>e. x \<le> fst e) (filter Q m) = Some e"
    by (intro find_filter_keep) (auto simp: serving_def split: if_splits)
  moreover have "filter Q m \<noteq> []" using serving_in[OF assms(1)] assms(2) by (auto simp: filter_empty_conv)
  ultimately show ?thesis by (simp add: serving_def)
next
  case None
  then obtain m' where m: "m = e # m'" using assms(1) by (cases m) (auto simp: serving_def)
  have "find (\<lambda>e. x \<le> fst e) (filter Q m) = None" using None by (auto simp: find_None_iff)
  then show ?thesis using m assms(2) by (simp add: serving_def)
qed

lemma find_bt_insert: "find (\<lambda>e. P (fst e)) (bt_insert k v m) \<in> {Some (k, v), find (\<lambda>e. P (fst e)) m}"
  by (induction k v m rule: bt_insert.induct) auto

lemma hd_bt_insert: "m \<noteq> [] \<Longrightarrow> hd (bt_insert k v m) \<in> {(k, v), hd m}"
  by (cases m) (auto split: if_splits)

lemma bt_insert_not_Nil: "bt_insert k v m \<noteq> []"
  by (cases m) (auto split: if_splits)

lemma serving_bt_insert: "serving x (bt_insert k v m) \<in> {Some (k, v), serving x m}"
  using find_bt_insert[of "\<lambda>y. x \<le> y" k v m] hd_bt_insert[of m k v] bt_insert_not_Nil[of k v m]
  by (cases "m = []") (auto simp: serving_def split: option.splits)

lemma fold_bt_insert:
  "map_option snd (serving x (fold (\<lambda>h. bt_insert h node) hs m)) \<in> {Some node, map_option snd (serving x m)}"
proof (induction hs arbitrary: m)
  case (Cons h hs)
  from Cons.IH[of "bt_insert h node m"] serving_bt_insert[of x h node m] show ?case by auto
qed simp

lemma fold_bt_remove: "fold bt_remove hs m = filter (\<lambda>e. fst e \<notin> set hs) m"
proof (induction hs arbitrary: m)
  case (Cons h hs)
  then show ?case by (simp add: bt_remove_def conj_commute)
qed simp

lemma ring_entry_owner:
  assumes "ring_ok r" "hm_get (hr_nodes r) node = Some hs" "(h, n) \<in> set (hr_ring r)"
  shows "h \<in> set hs \<longleftrightarrow> n = node"
proof -
  have "map_of (hr_ring r) h = Some n" using assms(1,3) by (simp add: bt_entry ring_ok_maps)
  with assms(1,2) show ?thesis unfolding ring_ok_maps by force
qed

lemma remove_node_ring:
  assumes "ring_ok r"
  shows "hr_ring (remove_node node r) = filter (\<lambda>e. snd e \<noteq> node) (hr_ring r)"
proof (cases "hm_get (hr_nodes r) node")
  case None
  then have "snd e \<noteq> node" if "e \<in> set (hr_ring r)" for e using assms that by (auto simp: ring_ok_def hm_get_or_def)
  with None show ?thesis by (simp add: remove_node_def filter_id_conv)
next
  case (Some hs)
  have "filter (\<lambda>e. fst e \<notin> set hs) (hr_ring r) = filter (\<lambda>e. snd e \<noteq> node) (hr_ring r)"
    using ring_entry_owner[OF assms Some] by (intro filter_cong) force+
  with Some show ?thesis by (simp add: remove_node_def fold_bt_remove)
qed

text \<open>What keeps the ring consistent: a new node whose points are not on the ring yet, any removal.\<close>

lemma fold_bt_insert_get:
  "bt_ok m \<Longrightarrow> bt_ok (fold (\<lambda>h. bt_insert h node) hs m)
     \<and> map_of (fold (\<lambda>h. bt_insert h node) hs m) = (\<lambda>h. if h \<in> set hs then Some node else map_of m h)"
proof (induction hs arbitrary: m)
  case (Cons h hs)
  from Cons.IH[OF bt_ok_insert[OF Cons.prems, of h node]] bt_get_insert[OF Cons.prems, of h node]
  show ?case by auto
qed simp

lemma filter_bt_insert:
  "\<forall>e\<in>set m. fst e = h \<longrightarrow> snd e = node \<Longrightarrow>
     filter (\<lambda>e. snd e \<noteq> node) (bt_insert h node m) = filter (\<lambda>e. snd e \<noteq> node) m"
  by (induction h node m rule: bt_insert.induct) auto

lemma set_bt_insert_sub: "set (bt_insert k v m) \<subseteq> insert (k, v) (set m)"
  by (induction k v m rule: bt_insert.induct) auto

lemma filter_fold_insert:
  "\<forall>e\<in>set m. fst e \<in> set hs \<longrightarrow> snd e = node \<Longrightarrow>
     filter (\<lambda>e. snd e \<noteq> node) (fold (\<lambda>h. bt_insert h node) hs m) = filter (\<lambda>e. snd e \<noteq> node) m"
proof (induction hs arbitrary: m)
  case (Cons h hs)
  have "\<forall>e\<in>set (bt_insert h node m). fst e \<in> set hs \<longrightarrow> snd e = node"
    using Cons.prems set_bt_insert_sub[of h node m] by auto
  from Cons.IH[OF this] filter_bt_insert[of m h node] Cons.prems show ?case by simp
qed simp

lemma add_node_ring_ok:
  assumes ok: "ring_ok r" and fresh: "hm_get (hr_nodes r) node = None"
    and apart: "\<forall>h\<in>set (virtual_hashes str_hash node r). map_of (hr_ring r) h = None"
  shows "ring_ok (add_node str_hash node r)"
    "hr_ring (remove_node node (add_node str_hash node r)) = hr_ring r"
proof -
  let ?hs = "virtual_hashes str_hash node r" and ?r = "add_node str_hash node r"
  have b: "bt_ok (hr_ring r)" using ok by (simp add: ring_ok_def)
  have m: "bt_ok (hr_ring ?r)" "map_of (hr_ring ?r) = (\<lambda>h. if h \<in> set ?hs then Some node else map_of (hr_ring r) h)"
    "hm_get (hr_nodes ?r) = (hm_get (hr_nodes r))(node \<mapsto> ?hs)"
    using fold_bt_insert_get[OF b, of node ?hs] by (auto simp: add_node_def Let_def)
  have o1: "\<exists>hs. hm_get (hr_nodes r) n = Some hs \<and> h \<in> set hs" if "map_of (hr_ring r) h = Some n" for h n
    using ok that by (auto simp: ring_ok_maps)
  have o2: "map_of (hr_ring r) h = Some n" if "hm_get (hr_nodes r) n = Some hs" "h \<in> set hs" for h n hs
    using ok that by (auto simp: ring_ok_maps)
  have "\<exists>hs. hm_get (hr_nodes ?r) n = Some hs \<and> h \<in> set hs" if "map_of (hr_ring ?r) h = Some n" for h n
    using that o1[of h n] fresh by (auto simp: m(2,3) split: if_splits)
  moreover have "map_of (hr_ring ?r) h = Some n" if "hm_get (hr_nodes ?r) n = Some hs" "h \<in> set hs" for h n hs
    using that o2[of n hs h] apart by (auto simp: m(2,3) split: if_splits)
  ultimately show ok': "ring_ok ?r" using m(1) unfolding ring_ok_maps by blast
  have "snd e \<noteq> node" if "e \<in> set (hr_ring r)" for e using ok fresh that by (auto simp: ring_ok_def hm_get_or_def)
  then have "filter (\<lambda>e. snd e \<noteq> node) (hr_ring r) = hr_ring r" by (simp add: filter_id_conv)
  moreover have "\<forall>e\<in>set (hr_ring r). fst e \<in> set ?hs \<longrightarrow> snd e = node" using apart bt_entry[OF b] by fastforce
  ultimately show "hr_ring (remove_node node ?r) = hr_ring r"
    unfolding remove_node_ring[OF ok'] by (simp add: add_node_def Let_def filter_fold_insert)
qed

lemma bt_ok_filter: "bt_ok m \<Longrightarrow> bt_ok (filter P m)"
  by (simp add: bt_ok_def sorted_wrt_map sorted_wrt_filter)

lemma remove_node_ring_ok:
  assumes ok: "ring_ok r"
  shows "ring_ok (remove_node node r)"
proof -
  let ?r = "remove_node node r"
  have b: "bt_ok (hr_ring r)" using ok by (simp add: ring_ok_def)
  have b': "bt_ok (hr_ring ?r)" unfolding remove_node_ring[OF ok] using b by (rule bt_ok_filter)
  have ring: "map_of (hr_ring ?r) h = Some n \<longleftrightarrow> map_of (hr_ring r) h = Some n \<and> n \<noteq> node" for h n
    using bt_entry[OF b] bt_entry[OF b'] by (simp add: remove_node_ring[OF ok])
  have nodes: "hm_get (hr_nodes ?r) = (hm_get (hr_nodes r))(node := None)"
    by (auto simp: remove_node_def split: option.splits)
  show ?thesis using ok b' unfolding ring_ok_maps ring nodes by auto
qed

text \<open>
  C28: consistent hashing disturbs as few keys as possible. On a ring where every stream stands at all of
  its own points (no two points have collided), adding a stream moves a key to the
  new stream or leaves it where it is; removing a stream moves only the keys it served, and none of them
  back to it; adding a stream none of whose points is taken and removing it again restores every route.
\<close>

theorem consistent_hash_minimal_disruption:
  assumes "ring_ok r"
  shows "get_node str_hash key (add_node str_hash node r) \<in> {Some node, get_node str_hash key r}
     \<and> (get_node str_hash key r = Some n \<and> n \<noteq> node \<longrightarrow> get_node str_hash key (remove_node node r) = Some n)
     \<and> get_node str_hash key (remove_node node r) \<noteq> Some node
     \<and> (hm_get (hr_nodes r) node = None \<and> (\<forall>h\<in>set (virtual_hashes str_hash node r). map_of (hr_ring r) h = None)
         \<longrightarrow> get_node str_hash key (remove_node node (add_node str_hash node r)) = get_node str_hash key r)"
proof -
  let ?x = "str_hash key"
  have "get_node str_hash key (add_node str_hash node r) \<in> {Some node, get_node str_hash key r}"
    using fold_bt_insert[of ?x node "virtual_hashes str_hash node r" "hr_ring r"]
    by (simp add: get_node_serving add_node_def Let_def)
  moreover have "get_node str_hash key (remove_node node r) = Some n" if "get_node str_hash key r = Some n" "n \<noteq> node"
  proof -
    from that(1) obtain e where e: "serving ?x (hr_ring r) = Some e" "snd e = n" by (auto simp: get_node_serving)
    then have "serving ?x (hr_ring (remove_node node r)) = Some e"
      unfolding remove_node_ring[OF assms] using that(2) by (intro serving_filter) auto
    then show ?thesis using e(2) by (simp add: get_node_serving)
  qed
  moreover have "get_node str_hash key (remove_node node r) \<noteq> Some node"
  proof
    assume "get_node str_hash key (remove_node node r) = Some node"
    then obtain e where "serving ?x (hr_ring (remove_node node r)) = Some e" "snd e = node" by (auto simp: get_node_serving)
    then have "e \<in> set (filter (\<lambda>e. snd e \<noteq> node) (hr_ring r))" "snd e = node"
      using serving_in[of ?x "hr_ring (remove_node node r)" e] by (simp_all add: remove_node_ring[OF assms])
    then show False by simp
  qed
  moreover have "get_node str_hash key (remove_node node (add_node str_hash node r)) = get_node str_hash key r"
    if "hm_get (hr_nodes r) node = None" "\<forall>h\<in>set (virtual_hashes str_hash node r). map_of (hr_ring r) h = None"
    using add_node_ring_ok(2)[OF assms that] by (simp add: get_node_serving)
  ultimately show ?thesis by blast
qed

definition sample_str_hash :: "string \<Rightarrow> u64" where
  "sample_str_hash s = fold (\<lambda>c acc. acc * 31 + of_char c) s 7"

definition sample_ring :: hash_ring where
  "sample_ring = fold (add_node sample_str_hash) [1, 2, 3] (ring_new\<lparr>hr_virtual_nodes := 2\<rparr>)"

theorem consistent_hash_minimal_disruption_witness:
  "get_node sample_str_hash ''2:0'' sample_ring = Some 2
   \<and> get_node sample_str_hash ''2:0'' (remove_node 1 sample_ring) = Some 2"
proof -
  have "ring_ok sample_ring" "get_node sample_str_hash ''2:0'' sample_ring = Some 2" by code_simp+
  then show ?thesis
    using consistent_hash_minimal_disruption[of sample_ring sample_str_hash "''2:0''" 1 2] by simp
qed

section \<open>Routing\<close>

text \<open>What holds between the ring and the stream table, colliding points included.\<close>

definition router_ok :: "(string \<Rightarrow> u64) \<Rightarrow> 'f router \<Rightarrow> bool" where
  "router_ok str_hash r =
     ((\<forall>e\<in>set (hr_ring (ro_hash_ring r)). snd e \<in> dom (hm_get (hr_nodes (ro_hash_ring r)))
         \<and> fst e \<in> set (virtual_hashes str_hash (snd e) (ro_hash_ring r)))
      \<and> (\<forall>n hs. hm_get (hr_nodes (ro_hash_ring r)) n = Some hs \<longrightarrow> hs = virtual_hashes str_hash n (ro_hash_ring r))
      \<and> (\<forall>n. hm_get (hr_nodes (ro_hash_ring r)) n \<noteq> None \<longrightarrow> hm_get (ro_streams r) n \<noteq> None))"

datatype 'f router_op =
    AddStreamOp instant stream_id "string option"
  | RemoveStreamOp stream_id
  | UpdateMetricsOp "'f stream_load_metrics"
  | RouteOp duration message_metadata

definition router_step ::
    "'f float_ops \<Rightarrow> (string \<Rightarrow> u64) \<Rightarrow> 'f router_op \<Rightarrow> 'f router
      \<Rightarrow> 'f router \<times> ('f routing_result, routing_error) result option" where
  "router_step fl str_hash x r =
     (case x of
        AddStreamOp now sid region \<Rightarrow> (router_add_stream fl str_hash now sid region r, None)
      | RemoveStreamOp sid \<Rightarrow> (router_remove_stream sid r, None)
      | UpdateMetricsOp m \<Rightarrow> (update_stream_metrics m r, None)
      | RouteOp elapsed md \<Rightarrow> (case route_message fl str_hash elapsed md r of (r', res) \<Rightarrow> (r', Some res)))"

lemma virtual_hashes_cong: "hr_virtual_nodes r' = hr_virtual_nodes r \<Longrightarrow> virtual_hashes str_hash n r' = virtual_hashes str_hash n r"
  by (simp add: virtual_hashes_def)

lemma ring_virtual_nodes [simp]:
  "hr_virtual_nodes (add_node str_hash n r) = hr_virtual_nodes r" "hr_virtual_nodes (remove_node n r) = hr_virtual_nodes r"
  by (auto simp: add_node_def remove_node_def Let_def split: option.splits)

lemma ring_virtual_hashes [simp]:
  "virtual_hashes str_hash n (add_node str_hash m r) = virtual_hashes str_hash n r"
  "virtual_hashes str_hash n (remove_node m r) = virtual_hashes str_hash n r"
  by (rule virtual_hashes_cong, simp)+

lemma set_fold_bt_insert:
  "set (fold (\<lambda>h. bt_insert h node) hs m) \<subseteq> set m \<union> (\<lambda>h. (h, node)) ` set hs"
proof (induction hs arbitrary: m)
  case (Cons h hs)
  from Cons.IH[of "bt_insert h node m"] set_bt_insert_sub[of h node m] show ?case by auto
qed simp

lemma add_stream_ok: "router_ok str_hash r \<Longrightarrow> router_ok str_hash (router_add_stream fl str_hash now sid region r)"
  using set_fold_bt_insert[of sid "virtual_hashes str_hash sid (ro_hash_ring r)" "hr_ring (ro_hash_ring r)"]
  unfolding router_ok_def router_add_stream_def by (auto simp: add_node_def Let_def virtual_hashes_def)

lemma remove_stream_ok:
  assumes "router_ok str_hash r"
  shows "router_ok str_hash (router_remove_stream sid r)"
proof (cases "hm_get (hr_nodes (ro_hash_ring r)) sid")
  case None
  then show ?thesis using assms by (fastforce simp: router_ok_def router_remove_stream_def remove_node_def dom_def)
next
  case (Some hs)
  let ?g = "ro_hash_ring r"
  have hs: "hs = virtual_hashes str_hash sid ?g" using assms Some by (auto simp: router_ok_def)
  have ring: "hr_ring (remove_node sid ?g) = filter (\<lambda>e. fst e \<notin> set hs) (hr_ring ?g)"
    "hm_get (hr_nodes (remove_node sid ?g)) = (hm_get (hr_nodes ?g))(sid := None)"
    using Some by (auto simp: remove_node_def fold_bt_remove)
  have "snd e \<noteq> sid" if "e \<in> set (hr_ring (remove_node sid ?g))" for e
    using assms that hs by (auto simp: ring router_ok_def)
  then show ?thesis using assms by (auto simp: router_ok_def router_remove_stream_def ring)
qed

lemma update_metrics_ok: "router_ok str_hash r \<Longrightarrow> router_ok str_hash (update_stream_metrics m r)"
  by (auto simp: router_ok_def update_stream_metrics_def)

lemma router_ok_cong:
  "ro_streams r' = ro_streams r \<Longrightarrow> ro_hash_ring r' = ro_hash_ring r \<Longrightarrow> router_ok str_hash r' = router_ok str_hash r"
  by (simp add: router_ok_def)

definition result_ok :: "'f router \<Rightarrow> 'f routing_result \<Rightarrow> bool" where
  "result_ok r res = (rr_target_stream res \<in> dom (hm_get (ro_streams r)) \<and> rr_target_stream res \<notin> set (rr_alternatives res))"

lemma fold_healthier_in: "fold (healthier fl) xs y \<in> insert y (set xs)"
proof (induction xs arbitrary: y)
  case (Cons x xs)
  from Cons.IH[of "healthier fl x y"] show ?case by (auto simp: healthier_def split: if_splits)
qed simp

lemma healthiest_in:
  assumes "healthiest fl xs = Some x"
  shows "x \<in> set xs \<and> \<not> is_overloaded fl (snd x)"
proof -
  obtain y ys where f: "filter (\<lambda>x. \<not> is_overloaded fl (snd x)) xs = y # ys"
    using assms by (auto simp: healthiest_def split: list.splits)
  then have "x \<in> set (filter (\<lambda>x. \<not> is_overloaded fl (snd x)) xs)"
    using assms fold_healthier_in[of fl ys y] by (auto simp: healthiest_def)
  then show ?thesis by simp
qed

lemma round_robin_ok:
  assumes "route_round_robin fl r = (r', res)"
  shows "ro_streams r' = ro_streams r \<and> ro_hash_ring r' = ro_hash_ring r \<and> ro_config r' = ro_config r
     \<and> (case res of Ok x \<Rightarrow> result_ok r x | _ \<Rightarrow> True)"
proof (cases "hm_keys (ro_streams r) = []")
  case False
  then have "hm_keys (ro_streams r) ! (unat (ro_round_robin_counter r) mod length (hm_keys (ro_streams r)))
      \<in> set (hm_keys (ro_streams r))" by (intro nth_mem) simp
  then show ?thesis using assms False
    by (auto simp: route_round_robin_def Let_def result_ok_def set_hm_keys)
qed (use assms in \<open>auto simp: route_round_robin_def\<close>)

lemma least_loaded_ok: "route_least_loaded fl r = Ok x \<Longrightarrow> result_ok r x"
  using healthiest_in[of fl "ro_streams r"]
  by (force simp: route_least_loaded_def result_ok_def domIff map_of_eq_None_iff split: if_splits option.splits prod.splits)

lemma consistent_hash_ok:
  assumes "router_ok str_hash r" "route_consistent_hash fl str_hash md r = Ok x"
  shows "result_ok r x"
proof -
  obtain e where "serving (str_hash (mm_message_id md)) (hr_ring (ro_hash_ring r)) = Some e" "rr_target_stream x = snd e"
    "rr_alternatives x = []"
    using assms(2) by (auto simp: route_consistent_hash_def get_node_serving split: option.splits)
  moreover from serving_in[OF this(1)] assms(1) have "snd e \<in> dom (hm_get (ro_streams r))"
    unfolding router_ok_def by (auto simp: dom_def)
  ultimately show ?thesis by (simp add: result_ok_def)
qed

lemma region_candidates_in: "(s, m) \<in> set (region_candidates sids r) \<Longrightarrow> hm_get (ro_streams r) s = Some m"
  by (auto simp: region_candidates_def split: option.splits)

lemma geographic_ok: "route_geographic fl md r = Ok x \<Longrightarrow> result_ok r x"
  using least_loaded_ok[of fl r x]
  by (auto simp: route_geographic_def result_ok_def split: option.splits list.splits if_splits
      dest!: healthiest_in region_candidates_in)

lemmas route_oks = least_loaded_ok consistent_hash_ok geographic_ok

lemma primary_ok:
  assumes "router_ok str_hash r" "route_primary fl str_hash md r = (r', res)"
  shows "ro_streams r' = ro_streams r \<and> ro_hash_ring r' = ro_hash_ring r \<and> ro_config r' = ro_config r
     \<and> (case res of Ok x \<Rightarrow> result_ok r x | _ \<Rightarrow> True)"
proof (cases "rt_strategy (ro_config r)")
  case RoundRobin
  then show ?thesis using assms(2) round_robin_ok[of fl r] by (simp add: route_primary_def)
next
  case PriorityBased
  then show ?thesis using assms(2) least_loaded_ok[of fl r]
    by (cases "route_least_loaded fl r") (auto simp: route_primary_def route_priority_based_def result_ok_def split: result.splits)
qed (use assms in \<open>auto simp: route_primary_def route_adaptive_def split: if_splits result.splits intro: route_oks\<close>)

lemma fallback_ok:
  assumes "route_fallback fl s r = (r', res)"
  shows "ro_streams r' = ro_streams r \<and> ro_hash_ring r' = ro_hash_ring r \<and> ro_config r' = ro_config r
     \<and> (case res of Ok x \<Rightarrow> result_ok r x | _ \<Rightarrow> True)"
  using assms round_robin_ok[of fl r] least_loaded_ok[of fl r]
  by (cases s) (auto simp: route_fallback_def split: result.splits)

lemma count_stat_simps [simp]:
  "ro_streams (count_stat f r) = ro_streams r" "ro_hash_ring (count_stat f r) = ro_hash_ring r"
  "ro_config (count_stat f r) = ro_config r" "ro_round_robin_counter (count_stat f r) = ro_round_robin_counter r"
  "ro_region_mapping (count_stat f r) = ro_region_mapping r"
  "router_ok str_hash (count_stat f r) = router_ok str_hash r" "result_ok (count_stat f r) x = result_ok r x"
  by (simp_all add: count_stat_def router_ok_def result_ok_def)

lemma route_message_ok:
  assumes ok: "router_ok str_hash r" and step: "route_message fl str_hash elapsed md r = (r', res)"
  shows "ro_streams r' = ro_streams r \<and> ro_hash_ring r' = ro_hash_ring r \<and> ro_config r' = ro_config r
     \<and> (case res of Ok x \<Rightarrow> result_ok r x | _ \<Rightarrow> True)"
proof -
  let ?r0 = "count_stat (\<lambda>s. s\<lparr>rs_total_requests := rs_total_requests s + 1\<rparr>) r"
  obtain r1 res1 where p: "route_primary fl str_hash md ?r0 = (r1, res1)" by fastforce
  have "router_ok str_hash ?r0" using ok by simp
  note p1 = primary_ok[OF this p]
  show ?thesis
  proof (cases "is_ok res1 \<or> rt_fallback_strategy (ro_config r) = None")
    case True
    then show ?thesis using step p p1
      by (cases res1) (auto simp: route_message_def Let_def)
  next
    case False
    then obtain f where f: "rt_fallback_strategy (ro_config r) = Some f" by blast
    let ?r1 = "count_stat (\<lambda>s. s\<lparr>rs_fallback_used := rs_fallback_used s + 1\<rparr>) r1"
    obtain r2 res2 where g: "route_fallback fl f ?r1 = (r2, res2)" by fastforce
    from fallback_ok[OF g] p1 have g1: "ro_streams r2 = ro_streams r \<and> ro_hash_ring r2 = ro_hash_ring r
        \<and> ro_config r2 = ro_config r \<and> (case res2 of Ok x \<Rightarrow> result_ok r x | _ \<Rightarrow> True)"
      by (auto simp: result_ok_def split: result.splits)
    have "(r', res) = (case res2 of Ok x \<Rightarrow> (count_stat (\<lambda>s. s\<lparr>rs_total_latency := rs_total_latency s + elapsed,
        rs_successful_routes := rs_successful_routes s + 1\<rparr>) r2, res2) | _ \<Rightarrow> (r2, res2))"
      using step p f g False by (cases res1; cases res2) (auto simp: route_message_def Let_def)
    then show ?thesis using g1 by (cases res2) auto
  qed
qed

lemma router_step_ok:
  assumes "router_ok str_hash r" "router_step fl str_hash x r = (r', rep)"
  shows "router_ok str_hash r'"
proof (cases x)
  case (RouteOp elapsed md)
  then show ?thesis using assms route_message_ok[OF assms(1), of fl elapsed md] router_ok_cong[of r' r str_hash]
    by (auto simp: router_step_def split: prod.splits)
qed (use assms add_stream_ok remove_stream_ok update_metrics_ok in \<open>auto simp: router_step_def\<close>)

lemma router_run_ok:
  "router_ok str_hash r \<Longrightarrow> run_ops (router_step fl str_hash) xs r = (r', reps) \<Longrightarrow> router_ok str_hash r'"
proof (induction xs arbitrary: r reps)
  case (Cons x xs)
  then show ?case by (auto split: prod.splits dest: router_step_ok)
qed simp

text \<open>
  messages are routed to registered streams. After any sequence of additions, removals, metric updates
  and routings, and for every strategy, hash function (colliding points included) and floating-point
  arithmetic, a message that is routed goes to a stream of the stream table, and the target is not
  among the alternatives offered for failover.
\<close>

theorem routed_to_registered_stream:
  assumes "run_ops (router_step fl str_hash) ops (router_new cfg) = (r, replies)"
    and "route_message fl str_hash elapsed md r = (r', Ok res)"
  shows "rr_target_stream res \<in> dom (hm_get (ro_streams r)) \<and> rr_target_stream res \<notin> set (rr_alternatives res)"
proof -
  have "router_ok str_hash (router_new cfg)" by (auto simp: router_ok_def router_new_def ring_new_def)
  from router_run_ok[OF this assms(1)] route_message_ok[OF _ assms(2)] show ?thesis by (simp add: result_ok_def)
qed

definition sample_message :: message_metadata where
  "sample_message = \<lparr>mm_message_id = ''m'', mm_priority = 0, mm_target_stream = None,
     mm_origin_region = Some ''eu'', mm_size_bytes = 1\<rparr>"

definition sample_setup :: "int router_op list" where
  "sample_setup = [AddStreamOp 0 1 (Some ''eu''), AddStreamOp 0 2 None, AddStreamOp 0 3 (Some ''eu''), RemoveStreamOp 1]"

definition sample_router :: "int router" where
  "sample_router = fst (run_ops (router_step sample_floats (\<lambda>s. 5)) sample_setup
     (router_new (default_routing_config\<lparr>rt_strategy := Geographic\<rparr>)))"

lemma sample_router_streams:
  "ro_streams sample_router = [(2, load_metrics_new sample_floats 0 2), (3, (load_metrics_new sample_floats 0 3)\<lparr>lm_region := Some ''eu''\<rparr>)]"
  "hm_get (ro_region_mapping sample_router) ''eu'' = Some [3]"
  "ro_config sample_router = default_routing_config\<lparr>rt_strategy := Geographic\<rparr>"
  by (simp_all add: sample_router_def sample_setup_def router_step_def router_add_stream_def router_remove_stream_def
      router_new_def hm_insert_def hm_remove_def hm_get_or_def load_metrics_new_def Let_def)

theorem routed_to_registered_stream_witness:
  "\<exists>res. snd (route_message sample_floats (\<lambda>s. 5) 0 sample_message sample_router) = Ok res
     \<and> rr_target_stream res \<in> {2, 3}"
proof -
  have "is_ok (snd (route_message sample_floats (\<lambda>s. 5) 0 sample_message sample_router))"
    by (simp add: route_message_def route_primary_def route_geographic_def healthiest_def region_candidates_def
        sample_router_streams sample_message_def is_overloaded_def sample_floats_def load_metrics_new_def Let_def)
  then obtain r' res where m: "route_message sample_floats (\<lambda>s. 5) 0 sample_message sample_router = (r', Ok res)"
    by (cases "snd (route_message sample_floats (\<lambda>s. 5) 0 sample_message sample_router)") (auto simp: prod_eq_iff)
  have "rr_target_stream res \<in> dom (hm_get (ro_streams sample_router))"
    using routed_to_registered_stream[OF _ m] unfolding sample_router_def by (metis prod.collapse)
  then show ?thesis using m by (auto simp: sample_router_streams dom_def split: if_splits)
qed

fun route_all :: "'f float_ops \<Rightarrow> (string \<Rightarrow> u64) \<Rightarrow> (duration \<times> message_metadata) list \<Rightarrow> 'f router
    \<Rightarrow> 'f router \<times> stream_id list" where
  "route_all fl str_hash [] r = (r, [])"
| "route_all fl str_hash (m # ms) r =
     (case route_message fl str_hash (fst m) (snd m) r of
        (r1, Ok res) \<Rightarrow> (case route_all fl str_hash ms r1 of (r2, ts) \<Rightarrow> (r2, rr_target_stream res # ts))
      | (r1, _) \<Rightarrow> route_all fl str_hash ms r1)"

lemma round_robin_step:
  assumes "rt_strategy (ro_config r) = RoundRobin" "ro_streams r \<noteq> []"
    and "route_message fl str_hash elapsed md r = (r1, res)"
  shows "ro_config r1 = ro_config r" "ro_streams r1 = ro_streams r"
    "ro_round_robin_counter r1 = ro_round_robin_counter r + 1"
    "\<exists>x. res = Ok x \<and> rr_target_stream x
       = hm_keys (ro_streams r) ! (unat (ro_round_robin_counter r) mod length (ro_streams r))"
  using assms by (auto simp: route_message_def route_primary_def route_round_robin_def Let_def hm_keys_def)

lemma route_all_round_robin:
  "rt_strategy (ro_config r) = RoundRobin \<Longrightarrow> ro_streams r \<noteq> [] \<Longrightarrow>
   unat (ro_round_robin_counter r) + length ms < 2 ^ 64 \<Longrightarrow>
   snd (route_all fl str_hash ms r)
     = map (\<lambda>i. hm_keys (ro_streams r) ! ((unat (ro_round_robin_counter r) + i) mod length (ro_streams r))) [0..<length ms]"
proof (induction ms arbitrary: r)
  case (Cons m ms)
  obtain r1 res where s: "route_message fl str_hash (fst m) (snd m) r = (r1, res)" by fastforce
  note r1 = round_robin_step[OF Cons.prems(1,2) s]
  have c: "unat (ro_round_robin_counter r1) = Suc (unat (ro_round_robin_counter r))"
    using Cons.prems(3) unfolding r1(3) by (intro unat_plus_one) simp
  have "snd (route_all fl str_hash ms r1)
      = map (\<lambda>i. hm_keys (ro_streams r1) ! ((unat (ro_round_robin_counter r1) + i) mod length (ro_streams r1))) [0..<length ms]"
    using Cons.prems r1 c by (intro Cons.IH) auto
  moreover have "[0..<length (m # ms)] = 0 # map Suc [0..<length ms]"
    unfolding map_Suc_upt by (subst upt_conv_Cons) simp_all
  ultimately show ?case using r1 s c by (auto simp: comp_def split: prod.splits)
qed simp

text \<open>
  round robin serves every stream once per round. With that strategy, as many messages as there are
  streams are routed one to each stream, whatever the counter is, unless it wraps in between.
\<close>

theorem round_robin_fair:
  assumes "rt_strategy (ro_config r) = RoundRobin" "hm_ok (ro_streams r)"
    and "length ms = length (ro_streams r)" "unat (ro_round_robin_counter r) + length ms < 2 ^ 64"
  shows "distinct (snd (route_all fl str_hash ms r))
     \<and> set (snd (route_all fl str_hash ms r)) = dom (hm_get (ro_streams r))"
proof (cases "ro_streams r = []")
  case False
  let ?ks = "hm_keys (ro_streams r)" and ?c = "unat (ro_round_robin_counter r)"
  have n: "length ?ks = length (ro_streams r)" by (simp add: hm_keys_def)
  have "snd (route_all fl str_hash ms r) = map (\<lambda>i. ?ks ! ((?c + i) mod length ?ks)) [0..<length ?ks]"
    using route_all_round_robin[OF assms(1) False assms(4)] assms(3) by (simp add: n)
  also have "\<dots> = rotate ?c ?ks" by (rule nth_equalityI) (simp_all add: nth_rotate)
  finally show ?thesis using assms(2) by (simp add: hm_ok_def hm_keys_def[symmetric] set_hm_keys)
qed (use assms(3) in simp)

theorem round_robin_fair_witness:
  "distinct (snd (route_all sample_floats (\<lambda>s. 5) [(0, sample_message), (1, sample_message)]
     (sample_router\<lparr>ro_config := default_routing_config\<lparr>rt_strategy := RoundRobin\<rparr>, ro_round_robin_counter := 7\<rparr>)))"
proof -
  let ?r = "sample_router\<lparr>ro_config := default_routing_config\<lparr>rt_strategy := RoundRobin\<rparr>, ro_round_robin_counter := 7\<rparr>"
  have "rt_strategy (ro_config ?r) = RoundRobin" "hm_ok (ro_streams ?r)"
    "length [(0, sample_message), (1, sample_message)] = length (ro_streams ?r)"
    "unat (ro_round_robin_counter ?r) + length [(0 :: duration, sample_message), (1, sample_message)] < 2 ^ 64"
    by (simp_all add: sample_router_streams hm_ok_def)
  from conjunct1[OF round_robin_fair[OF this]] show ?thesis .
qed

text \<open>
  the default router routes every message as long as a stream is registered: when all streams are
  overloaded the primary strategy fails and the round-robin fallback takes over.
\<close>

theorem default_routing_total:
  assumes "ro_config r = default_routing_config" "ro_streams r \<noteq> []"
  shows "\<exists>r' res. route_message fl str_hash elapsed md r = (r', Ok res)
     \<and> (rr_strategy_used res = LeastLoaded
        \<or> rr_strategy_used res = RoundRobin \<and> (\<forall>(s, m)\<in>set (ro_streams r). is_overloaded fl m))"
proof (cases "healthiest fl (ro_streams r)")
  case None
  then have "\<forall>(s, m)\<in>set (ro_streams r). is_overloaded fl m"
    by (auto simp: healthiest_def filter_empty_conv split: list.splits)
  with None assms show ?thesis
    by (simp add: route_message_def route_primary_def route_least_loaded_def route_fallback_def route_round_robin_def
        default_routing_config_def default_routing_strategy_def Let_def hm_keys_def)
next
  case (Some x)
  with assms show ?thesis
    by (cases x) (simp add: route_message_def route_primary_def route_least_loaded_def
        default_routing_config_def default_routing_strategy_def Let_def)
qed

theorem default_routing_total_witness:
  "\<exists>r' res. route_message sample_floats (\<lambda>s. 5) 0 sample_message (sample_router\<lparr>ro_config := default_routing_config\<rparr>) = (r', Ok res)"
  using default_routing_total[of "sample_router\<lparr>ro_config := default_routing_config\<rparr>" sample_floats "\<lambda>s. 5" 0 sample_message]
  by (auto simp: sample_router_streams)

text \<open>
  A stream added twice under two regions stays in the first region's list when it is removed: the
  geographic strategy then offers the removed stream as an alternative.
\<close>

definition sample_moves :: "int router_op list" where
  "sample_moves = [AddStreamOp 0 1 (Some ''eu''), AddStreamOp 0 1 (Some ''us''), AddStreamOp 0 2 (Some ''eu''), RemoveStreamOp 1]"

theorem removed_stream_still_offered:
  "(let r = fst (run_ops (router_step sample_floats (\<lambda>s. 5)) sample_moves
       (router_new (default_routing_config\<lparr>rt_strategy := Geographic\<rparr>))) in
    hm_keys (ro_streams r) = [2]
    \<and> (case snd (route_message sample_floats (\<lambda>s. 5) 0 sample_message r) of
         Ok res \<Rightarrow> rr_target_stream res = 2 \<and> rr_alternatives res = [1] | _ \<Rightarrow> False))"
  by (simp add: sample_moves_def router_step_def router_add_stream_def router_remove_stream_def
      router_new_def hm_insert_def hm_remove_def hm_get_or_def load_metrics_new_def Let_def hm_keys_def
      route_message_def route_primary_def route_geographic_def healthiest_def region_candidates_def
      sample_message_def is_overloaded_def sample_floats_def healthier_def)

end
