(* ===== verification/Node_Registry.thy ===== *)
theory Node_Registry
  imports Clocks
begin

text \<open>
  Node addresses, metadata, selection and the registry of \<^verbatim>\<open>src/kaelix-cluster/src/node/mod.rs\<close>.
  An IP address is the number its octets make, a path a string. The text form of a socket address is
  the standard library's and is an argument where addresses are printed and parsed. The registry keeps
  the nodes and two indices, by role and by region; what is proved is when the indices agree with the
  nodes and when they do not. The derived display strings and ratios are left out.
\<close>

section \<open>Protocols and addresses\<close>

datatype protocol = Tcp | Udp | Unix | Quic

definition default_protocol :: protocol where
  "default_protocol = Tcp"

definition protocol_connection_oriented :: "protocol \<Rightarrow> bool" where
  "protocol_connection_oriented p = (p \<in> {Tcp, Unix, Quic})"

definition protocol_local_only :: "protocol \<Rightarrow> bool" where
  "protocol_local_only p = (p = Unix)"

definition default_port :: "protocol \<Rightarrow> u16 option" where
  "default_port p = (case p of Tcp \<Rightarrow> Some 8080 | Udp \<Rightarrow> Some 8081 | Quic \<Rightarrow> Some 8443 | Unix \<Rightarrow> None)"

definition protocol_str :: "protocol \<Rightarrow> string" where
  "protocol_str p = (case p of Tcp \<Rightarrow> ''tcp'' | Udp \<Rightarrow> ''udp'' | Unix \<Rightarrow> ''unix'' | Quic \<Rightarrow> ''quic'')"

definition is_high_throughput :: "protocol \<Rightarrow> bool" where
  "is_high_throughput p = (p \<in> {Tcp, Quic, Unix})"

definition is_low_latency :: "protocol \<Rightarrow> bool" where
  "is_low_latency p = (p \<in> {Udp, Quic, Unix})"

definition recommended_buffer_size :: "protocol \<Rightarrow> usize" where
  "recommended_buffer_size p = (case p of Tcp \<Rightarrow> 65536 | Udp \<Rightarrow> 8192 | Unix \<Rightarrow> 131072 | Quic \<Rightarrow> 65536)"

datatype ip_addr = V4 u32 | V6 u128

record sock_addr =
  sa_ip :: ip_addr
  sa_port :: u16

definition ip_is_unspecified :: "ip_addr \<Rightarrow> bool" where
  "ip_is_unspecified ip = (case ip of V4 w \<Rightarrow> w = 0 | V6 w \<Rightarrow> w = 0)"

definition ip_is_loopback :: "ip_addr \<Rightarrow> bool" where
  "ip_is_loopback ip = (case ip of V4 w \<Rightarrow> drop_bit 24 w = 127 | V6 w \<Rightarrow> w = 1)"

datatype endpoint = TcpAddr sock_addr | UdpAddr sock_addr | UnixAddr string | QuicAddr sock_addr "string option"

definition address_protocol :: "endpoint \<Rightarrow> protocol" where
  "address_protocol a = (case a of TcpAddr _ \<Rightarrow> Tcp | UdpAddr _ \<Rightarrow> Udp | UnixAddr _ \<Rightarrow> Unix | QuicAddr _ _ \<Rightarrow> Quic)"

definition address_socket :: "endpoint \<Rightarrow> sock_addr option" where
  "address_socket a = (case a of TcpAddr s \<Rightarrow> Some s | UdpAddr s \<Rightarrow> Some s | QuicAddr s _ \<Rightarrow> Some s | UnixAddr _ \<Rightarrow> None)"

definition unix_path :: "endpoint \<Rightarrow> string option" where
  "unix_path a = (case a of UnixAddr p \<Rightarrow> Some p | _ \<Rightarrow> None)"

definition socket_valid :: "sock_addr \<Rightarrow> bool" where
  "socket_valid s = (\<not> ip_is_unspecified (sa_ip s) \<and> sa_port s \<noteq> 0)"

definition address_is_valid :: "endpoint \<Rightarrow> bool" where
  "address_is_valid a =
     (case a of
        TcpAddr s \<Rightarrow> socket_valid s
      | UdpAddr s \<Rightarrow> socket_valid s
      | UnixAddr path \<Rightarrow> path \<noteq> [] \<and> hd path = CHR ''/''
      | QuicAddr s _ \<Rightarrow> socket_valid s)"

definition address_is_local :: "endpoint \<Rightarrow> bool" where
  "address_is_local a =
     (case a of
        TcpAddr s \<Rightarrow> ip_is_loopback (sa_ip s)
      | UdpAddr s \<Rightarrow> ip_is_loopback (sa_ip s)
      | UnixAddr _ \<Rightarrow> True
      | QuicAddr s _ \<Rightarrow> ip_is_loopback (sa_ip s))"

definition address_port :: "endpoint \<Rightarrow> u16 option" where
  "address_port a = (case a of TcpAddr s \<Rightarrow> Some (sa_port s) | UdpAddr s \<Rightarrow> Some (sa_port s)
     | QuicAddr s _ \<Rightarrow> Some (sa_port s) | UnixAddr _ \<Rightarrow> None)"

definition address_ip :: "endpoint \<Rightarrow> ip_addr option" where
  "address_ip a = (case a of TcpAddr s \<Rightarrow> Some (sa_ip s) | UdpAddr s \<Rightarrow> Some (sa_ip s)
     | QuicAddr s _ \<Rightarrow> Some (sa_ip s) | UnixAddr _ \<Rightarrow> None)"

definition address_connection_oriented :: "endpoint \<Rightarrow> bool" where
  "address_connection_oriented a = protocol_connection_oriented (address_protocol a)"

definition connection_overhead :: "endpoint \<Rightarrow> usize" where
  "connection_overhead a = (case a of TcpAddr _ \<Rightarrow> 240 | UdpAddr _ \<Rightarrow> 28 | UnixAddr _ \<Rightarrow> 16 | QuicAddr _ _ \<Rightarrow> 200)"

datatype node_error = ConfigurationError string | NodeNotFound node_id

fun strip_prefix :: "string \<Rightarrow> string \<Rightarrow> string option" where
  "strip_prefix [] s = Some s"
| "strip_prefix (c # cs) [] = None"
| "strip_prefix (c # cs) (d # ds) = (if c = d then strip_prefix cs ds else None)"

definition parse_address :: "(string \<Rightarrow> sock_addr option) \<Rightarrow> string \<Rightarrow> (endpoint, node_error) result" where
  "parse_address parse_socket s =
     (case strip_prefix ''unix:'' s of
        Some path \<Rightarrow> Ok (UnixAddr path)
      | None \<Rightarrow>
     (case strip_prefix ''tcp://'' s of
        Some str \<Rightarrow>
          (case parse_socket str of
             Some a \<Rightarrow> Ok (TcpAddr a) | None \<Rightarrow> Err (ConfigurationError (''Invalid TCP address: '' @ str)))
      | None \<Rightarrow>
     (case strip_prefix ''udp://'' s of
        Some str \<Rightarrow>
          (case parse_socket str of
             Some a \<Rightarrow> Ok (UdpAddr a) | None \<Rightarrow> Err (ConfigurationError (''Invalid UDP address: '' @ str)))
      | None \<Rightarrow>
     (case strip_prefix ''quic://'' s of
        Some str \<Rightarrow>
          (case parse_socket str of
             Some a \<Rightarrow> Ok (QuicAddr a None) | None \<Rightarrow> Err (ConfigurationError (''Invalid QUIC address: '' @ str)))
      | None \<Rightarrow>
          (case parse_socket s of
             Some a \<Rightarrow> Ok (TcpAddr a) | None \<Rightarrow> Err (ConfigurationError (''Invalid address format: '' @ s)))))))"

definition show_address :: "(sock_addr \<Rightarrow> string) \<Rightarrow> endpoint \<Rightarrow> string" where
  "show_address show_socket a =
     (case a of
        TcpAddr s \<Rightarrow> ''tcp://'' @ show_socket s
      | UdpAddr s \<Rightarrow> ''udp://'' @ show_socket s
      | UnixAddr path \<Rightarrow> ''unix:'' @ path
      | QuicAddr s (Some server) \<Rightarrow> ''quic://'' @ show_socket s @ ''#'' @ server
      | QuicAddr s None \<Rightarrow> ''quic://'' @ show_socket s)"

section \<open>Roles, capabilities and status\<close>

datatype node_role = RoleLeader | RoleFollower | RoleCandidate | RoleLearner | RoleObserver

definition default_role :: node_role where
  "default_role = RoleFollower"

definition can_vote :: "node_role \<Rightarrow> bool" where
  "can_vote r = (r \<in> {RoleLeader, RoleFollower, RoleCandidate})"

definition can_lead :: "node_role \<Rightarrow> bool" where
  "can_lead r = (r \<in> {RoleFollower, RoleCandidate})"

definition receives_replication :: "node_role \<Rightarrow> bool" where
  "receives_replication r = (r \<noteq> RoleObserver)"

definition election_priority :: "node_role \<Rightarrow> u8" where
  "election_priority r = (case r of RoleLeader \<Rightarrow> 255 | RoleFollower \<Rightarrow> 200 | RoleCandidate \<Rightarrow> 150
     | RoleLearner \<Rightarrow> 50 | RoleObserver \<Rightarrow> 0)"

definition role_str :: "node_role \<Rightarrow> string" where
  "role_str r = (case r of RoleLeader \<Rightarrow> ''leader'' | RoleFollower \<Rightarrow> ''follower'' | RoleCandidate \<Rightarrow> ''candidate''
     | RoleLearner \<Rightarrow> ''learner'' | RoleObserver \<Rightarrow> ''observer'')"

definition MAX_TAGS_PER_NODE :: usize where
  "MAX_TAGS_PER_NODE = 32"

record node_capabilities =
  nc_cpu_cores :: u16
  nc_memory_mb :: u64
  nc_disk_gb :: u64
  nc_network_bandwidth_mbps :: u32
  nc_supported_protocols :: "protocol list"
  nc_hardware_features :: "string list"
  nc_software_features :: "string list"
  nc_region :: "string option"
  nc_availability_zone :: "string option"
  nc_tags :: "(string, string) hash_map"

definition capabilities_new :: "u16 \<Rightarrow> u64 \<Rightarrow> u64 \<Rightarrow> node_capabilities" where
  "capabilities_new cpu memory disk =
     \<lparr>nc_cpu_cores = cpu, nc_memory_mb = memory, nc_disk_gb = disk, nc_network_bandwidth_mbps = 1000,
      nc_supported_protocols = [], nc_hardware_features = [], nc_software_features = [], nc_region = None,
      nc_availability_zone = None, nc_tags = []\<rparr>"

definition cap_with_protocol :: "protocol \<Rightarrow> node_capabilities \<Rightarrow> node_capabilities" where
  "cap_with_protocol p c = c\<lparr>nc_supported_protocols := List.insert p (nc_supported_protocols c)\<rparr>"

definition cap_with_hardware_feature :: "string \<Rightarrow> node_capabilities \<Rightarrow> node_capabilities" where
  "cap_with_hardware_feature f c = c\<lparr>nc_hardware_features := List.insert f (nc_hardware_features c)\<rparr>"

definition cap_with_software_feature :: "string \<Rightarrow> node_capabilities \<Rightarrow> node_capabilities" where
  "cap_with_software_feature f c = c\<lparr>nc_software_features := List.insert f (nc_software_features c)\<rparr>"

definition cap_with_tag :: "string \<Rightarrow> string \<Rightarrow> node_capabilities \<Rightarrow> node_capabilities" where
  "cap_with_tag k v c =
     (if length (nc_tags c) < MAX_TAGS_PER_NODE then c\<lparr>nc_tags := hm_insert k v (nc_tags c)\<rparr> else c)"

definition supports_protocol :: "protocol \<Rightarrow> node_capabilities \<Rightarrow> bool" where
  "supports_protocol p c = (p \<in> set (nc_supported_protocols c))"

definition capped_score :: "'f float_ops \<Rightarrow> usize \<Rightarrow> usize \<Rightarrow> 'f" where
  "capped_score fl x limit =
     fl_div fl (fl_min fl (fl_of_usize fl x) (fl_tenths fl (10 * limit))) (fl_tenths fl (10 * limit))"

definition capacity_score :: "'f float_ops \<Rightarrow> node_capabilities \<Rightarrow> 'f" where
  "capacity_score fl c =
     (let cpu = capped_score fl (unat (nc_cpu_cores c)) 32;
          memory = capped_score fl (unat (nc_memory_mb c)) 131072;
          disk = capped_score fl (unat (nc_disk_gb c)) 10240;
          network = capped_score fl (unat (nc_network_bandwidth_mbps c)) 100000 in
      fl_div fl (fl_add fl (fl_add fl (fl_add fl cpu memory) disk) network) (fl_tenths fl 40))"

definition overlap_score :: "'f float_ops \<Rightarrow> 'a list \<Rightarrow> 'a list \<Rightarrow> 'f" where
  "overlap_score fl xs ys =
     (let overlap = fl_of_usize fl (length (filter (\<lambda>x. x \<in> set ys) xs));
          total = fl_of_usize fl (length xs + length ys) in
      if fl_less fl (fl_tenths fl 0) total then fl_div fl (fl_mul fl (fl_tenths fl 20) overlap) total
      else fl_tenths fl 10)"

definition compatibility_score :: "'f float_ops \<Rightarrow> node_capabilities \<Rightarrow> node_capabilities \<Rightarrow> 'f" where
  "compatibility_score fl c other =
     fl_div fl
       (fl_add fl
          (fl_add fl (overlap_score fl (nc_supported_protocols c) (nc_supported_protocols other))
             (overlap_score fl (nc_hardware_features c) (nc_hardware_features other)))
          (overlap_score fl (nc_software_features c) (nc_software_features other)))
       (fl_tenths fl 30)"

definition default_capabilities :: node_capabilities where
  "default_capabilities = cap_with_protocol Tcp (capabilities_new 1 1024 10)"

datatype member_status = StatusJoining | StatusActive | StatusLeaving | StatusFailed | StatusSuspected | StatusUnknown

definition default_status :: member_status where
  "default_status = StatusUnknown"

definition is_available :: "member_status \<Rightarrow> bool" where
  "is_available s = (s \<in> {StatusActive, StatusJoining})"

definition is_operational :: "member_status \<Rightarrow> bool" where
  "is_operational s = (s = StatusActive)"

definition is_transitioning :: "member_status \<Rightarrow> bool" where
  "is_transitioning s = (s \<in> {StatusJoining, StatusLeaving})"

definition is_unhealthy :: "member_status \<Rightarrow> bool" where
  "is_unhealthy s = (s \<in> {StatusFailed, StatusSuspected})"

definition status_priority :: "member_status \<Rightarrow> u8" where
  "status_priority s = (case s of StatusActive \<Rightarrow> 255 | StatusJoining \<Rightarrow> 200 | StatusLeaving \<Rightarrow> 100
     | StatusSuspected \<Rightarrow> 50 | StatusUnknown \<Rightarrow> 25 | StatusFailed \<Rightarrow> 0)"

definition status_str :: "member_status \<Rightarrow> string" where
  "status_str s = (case s of StatusJoining \<Rightarrow> ''joining'' | StatusActive \<Rightarrow> ''active'' | StatusLeaving \<Rightarrow> ''leaving''
     | StatusFailed \<Rightarrow> ''failed'' | StatusSuspected \<Rightarrow> ''suspected'' | StatusUnknown \<Rightarrow> ''unknown'')"

section \<open>Node metadata and selection\<close>

record 'f node_metadata =
  nm_node_id :: node_id
  nm_address :: endpoint
  nm_role :: node_role
  nm_status :: member_status
  nm_capabilities :: node_capabilities
  nm_health_score :: 'f
  nm_created_at :: system_time
  nm_last_seen :: system_time
  nm_last_active :: system_time
  nm_term :: u64
  nm_version :: string
  nm_metadata :: "(string, string) hash_map"

definition node_metadata_new :: "'f float_ops \<Rightarrow> string \<Rightarrow> system_time \<Rightarrow> node_id \<Rightarrow> endpoint \<Rightarrow> 'f node_metadata" where
  "node_metadata_new fl version now nid address =
     \<lparr>nm_node_id = nid, nm_address = address, nm_role = default_role, nm_status = default_status,
      nm_capabilities = default_capabilities, nm_health_score = fl_tenths fl 10, nm_created_at = now,
      nm_last_seen = now, nm_last_active = now, nm_term = 0, nm_version = version, nm_metadata = []\<rparr>"

definition with_health_score :: "'f float_ops \<Rightarrow> 'f \<Rightarrow> 'f node_metadata \<Rightarrow> 'f node_metadata" where
  "with_health_score fl score n = n\<lparr>nm_health_score := fl_clamp fl (fl_tenths fl 0) (fl_tenths fl 10) score\<rparr>"

definition with_region :: "string \<Rightarrow> 'f node_metadata \<Rightarrow> 'f node_metadata" where
  "with_region region n = n\<lparr>nm_capabilities := (nm_capabilities n)\<lparr>nc_region := Some region\<rparr>\<rparr>"

definition with_node_metadata :: "string \<Rightarrow> string \<Rightarrow> 'f node_metadata \<Rightarrow> 'f node_metadata" where
  "with_node_metadata k v n = n\<lparr>nm_metadata := hm_insert k v (nm_metadata n)\<rparr>"

definition update_health :: "'f float_ops \<Rightarrow> system_time \<Rightarrow> 'f \<Rightarrow> 'f node_metadata \<Rightarrow> 'f node_metadata" where
  "update_health fl now score n =
     n\<lparr>nm_health_score := fl_clamp fl (fl_tenths fl 0) (fl_tenths fl 10) score, nm_last_seen := now\<rparr>"

definition mark_active :: "system_time \<Rightarrow> 'f node_metadata \<Rightarrow> 'f node_metadata" where
  "mark_active now n = n\<lparr>nm_last_active := now, nm_last_seen := now\<rparr>"

definition is_healthy :: "'f float_ops \<Rightarrow> 'f node_metadata \<Rightarrow> bool" where
  "is_healthy fl n = (fl_le fl (fl_tenths fl 7) (nm_health_score n) \<and> is_available (nm_status n))"

definition node_is_stale :: "system_time \<Rightarrow> duration \<Rightarrow> 'f node_metadata \<Rightarrow> bool" where
  "node_is_stale now threshold n = (threshold < or_zero (duration_since now (nm_last_seen n)))"

definition availability_score :: "'f float_ops \<Rightarrow> system_time \<Rightarrow> duration \<Rightarrow> 'f node_metadata \<Rightarrow> 'f" where
  "availability_score fl now threshold n =
     (let score0 = nm_health_score n;
          score1 = (case duration_since now (nm_last_seen n) of
                      None \<Rightarrow> score0
                    | Some elapsed \<Rightarrow>
                        if threshold < elapsed then
                          let penalty = fl_div fl (fl_of_usize fl (elapsed div 10 ^ 9)) (fl_of_usize fl (threshold div 10 ^ 9)) in
                          fl_mul fl score0
                            (fl_min fl (fl_div fl (fl_tenths fl 10) (fl_add fl (fl_tenths fl 10) penalty)) (fl_tenths fl 10))
                        else score0);
          score2 = fl_mul fl score1 (fl_div fl (fl_of_usize fl (unat (status_priority (nm_status n)))) (fl_tenths fl 2550)) in
      fl_clamp fl (fl_tenths fl 0) (fl_tenths fl 10) score2)"

definition node_is_valid :: "'f float_ops \<Rightarrow> 'f node_metadata \<Rightarrow> bool" where
  "node_is_valid fl n =
     (address_is_valid (nm_address n) \<and> fl_le fl (fl_tenths fl 0) (nm_health_score n)
      \<and> fl_le fl (nm_health_score n) (fl_tenths fl 10))"

record 'f node_selector =
  sel_role :: "node_role option"
  sel_status :: "member_status option"
  sel_min_health_score :: 'f
  sel_region :: "string option"
  sel_required_protocol :: "protocol option"
  sel_required_tags :: "(string, string) hash_map"
  sel_max_staleness :: "duration option"
  sel_min_capacity_score :: 'f

definition selector_new :: "'f float_ops \<Rightarrow> 'f node_selector" where
  "selector_new fl = \<lparr>sel_role = None, sel_status = None, sel_min_health_score = fl_tenths fl 0, sel_region = None,
     sel_required_protocol = None, sel_required_tags = [], sel_max_staleness = None,
     sel_min_capacity_score = fl_tenths fl 0\<rparr>"

definition sel_with_min_health_score :: "'f float_ops \<Rightarrow> 'f \<Rightarrow> 'f node_selector \<Rightarrow> 'f node_selector" where
  "sel_with_min_health_score fl score s = s\<lparr>sel_min_health_score := fl_clamp fl (fl_tenths fl 0) (fl_tenths fl 10) score\<rparr>"

definition sel_with_min_capacity_score :: "'f float_ops \<Rightarrow> 'f \<Rightarrow> 'f node_selector \<Rightarrow> 'f node_selector" where
  "sel_with_min_capacity_score fl score s = s\<lparr>sel_min_capacity_score := fl_clamp fl (fl_tenths fl 0) (fl_tenths fl 10) score\<rparr>"

definition sel_with_tag :: "string \<Rightarrow> string \<Rightarrow> 'f node_selector \<Rightarrow> 'f node_selector" where
  "sel_with_tag k v s = s\<lparr>sel_required_tags := hm_insert k v (sel_required_tags s)\<rparr>"

definition voting_nodes :: "'f float_ops \<Rightarrow> 'f node_selector" where
  "voting_nodes fl = (sel_with_min_health_score fl (fl_tenths fl 8) (selector_new fl))\<lparr>sel_status := Some StatusActive\<rparr>"

definition leadership_candidates :: "'f float_ops \<Rightarrow> 'f node_selector" where
  "leadership_candidates fl =
     (sel_with_min_capacity_score fl (fl_tenths fl 7)
       (sel_with_min_health_score fl (fl_tenths fl 9) ((selector_new fl)\<lparr>sel_role := Some RoleFollower\<rparr>)))
     \<lparr>sel_status := Some StatusActive\<rparr>"

fun required :: "'a option \<Rightarrow> 'a \<Rightarrow> bool" where
  "required None x = True"
| "required (Some y) x = (x = y)"

definition node_matches :: "'f float_ops \<Rightarrow> 'f node_selector \<Rightarrow> 'f node_metadata \<Rightarrow> bool" where
  "node_matches fl s n =
     (required (sel_role s) (nm_role n) \<and> required (sel_status s) (nm_status n)
      \<and> \<not> fl_less fl (nm_health_score n) (sel_min_health_score s)
      \<and> required (map_option Some (sel_region s)) (nc_region (nm_capabilities n))
      \<and> (case sel_required_protocol s of None \<Rightarrow> True | Some p \<Rightarrow> supports_protocol p (nm_capabilities n))
      \<and> list_all (\<lambda>(k, v). hm_get (nm_metadata n) k = Some v) (sel_required_tags s))"

section \<open>The registry\<close>

record 'f node_registry =
  nr_nodes :: "(node_id, 'f node_metadata) hash_map"
  nr_nodes_by_role :: "(node_role, node_id list) hash_map"
  nr_nodes_by_region :: "(string, node_id list) hash_map"
  nr_health_check_interval :: duration
  nr_staleness_threshold :: duration

definition node_registry_new :: "'f node_registry" where
  "node_registry_new = \<lparr>nr_nodes = [], nr_nodes_by_role = [], nr_nodes_by_region = [],
     nr_health_check_interval = 30 * 10 ^ 9, nr_staleness_threshold = 300 * 10 ^ 9\<rparr>"

definition node_region :: "'f node_metadata \<Rightarrow> string option" where
  "node_region n = nc_region (nm_capabilities n)"

definition index_add :: "'k option \<Rightarrow> node_id \<Rightarrow> ('k, node_id list) hash_map \<Rightarrow> ('k, node_id list) hash_map" where
  "index_add k nid m = (case k of None \<Rightarrow> m | Some j \<Rightarrow> set_insert j nid m)"

definition index_drop :: "'k option \<Rightarrow> node_id \<Rightarrow> ('k, node_id list) hash_map \<Rightarrow> ('k, node_id list) hash_map" where
  "index_drop k nid m =
     (case k of
        None \<Rightarrow> m
      | Some j \<Rightarrow>
          (case hm_get m j of
             None \<Rightarrow> m
           | Some ids \<Rightarrow> if removeAll nid ids = [] then hm_remove j m else hm_insert j (removeAll nid ids) m))"

definition register_node :: "'f float_ops \<Rightarrow> 'f node_metadata \<Rightarrow> 'f node_registry \<Rightarrow> 'f node_registry \<times> (unit, node_error) result" where
  "register_node fl n r =
     (if \<not> node_is_valid fl n then (r, Err (ConfigurationError ''Invalid node metadata''))
      else (r\<lparr>nr_nodes_by_role := index_add (Some (nm_role n)) (nm_node_id n) (nr_nodes_by_role r),
              nr_nodes_by_region := index_add (node_region n) (nm_node_id n) (nr_nodes_by_region r),
              nr_nodes := hm_insert (nm_node_id n) n (nr_nodes r)\<rparr>, Ok ()))"

definition unregister_node :: "node_id \<Rightarrow> 'f node_registry \<Rightarrow> 'f node_registry \<times> ('f node_metadata, node_error) result" where
  "unregister_node nid r =
     (case hm_get (nr_nodes r) nid of
        None \<Rightarrow> (r, Err (NodeNotFound nid))
      | Some n \<Rightarrow>
          (r\<lparr>nr_nodes := hm_remove nid (nr_nodes r),
             nr_nodes_by_role := index_drop (Some (nm_role n)) nid (nr_nodes_by_role r),
             nr_nodes_by_region := index_drop (node_region n) nid (nr_nodes_by_region r)\<rparr>, Ok n))"

definition update_node :: "node_id \<Rightarrow> 'f node_metadata \<Rightarrow> 'f node_registry \<Rightarrow> 'f node_registry \<times> (unit, node_error) result" where
  "update_node nid n r =
     (case hm_get (nr_nodes r) nid of
        None \<Rightarrow> (r, Err (NodeNotFound nid))
      | Some old \<Rightarrow>
          (r\<lparr>nr_nodes_by_role :=
               (if nm_role old \<noteq> nm_role n
                then index_add (Some (nm_role n)) nid (index_drop (Some (nm_role old)) nid (nr_nodes_by_role r))
                else nr_nodes_by_role r),
             nr_nodes_by_region :=
               (if node_region old \<noteq> node_region n
                then index_add (node_region n) nid (index_drop (node_region old) nid (nr_nodes_by_region r))
                else nr_nodes_by_region r),
             nr_nodes := hm_insert nid n (nr_nodes r)\<rparr>, Ok ()))"

definition known_nodes :: "node_id list \<Rightarrow> 'f node_registry \<Rightarrow> 'f node_metadata list" where
  "known_nodes ids r = concat (map (\<lambda>i. case hm_get (nr_nodes r) i of None \<Rightarrow> [] | Some n \<Rightarrow> [n]) ids)"

definition nodes_by_role :: "node_role \<Rightarrow> 'f node_registry \<Rightarrow> 'f node_metadata list" where
  "nodes_by_role role r = (case hm_get (nr_nodes_by_role r) role of None \<Rightarrow> [] | Some ids \<Rightarrow> known_nodes ids r)"

definition nodes_by_region :: "string \<Rightarrow> 'f node_registry \<Rightarrow> 'f node_metadata list" where
  "nodes_by_region region r = (case hm_get (nr_nodes_by_region r) region of None \<Rightarrow> [] | Some ids \<Rightarrow> known_nodes ids r)"

definition select_nodes :: "'f float_ops \<Rightarrow> system_time \<Rightarrow> 'f node_selector \<Rightarrow> 'f node_registry \<Rightarrow> 'f node_metadata list" where
  "select_nodes fl now s r =
     filter (\<lambda>n. node_matches fl s n
               \<and> (case sel_max_staleness s of None \<Rightarrow> True | Some d \<Rightarrow> \<not> node_is_stale now d n)
               \<and> \<not> fl_less fl (capacity_score fl (nm_capabilities n)) (sel_min_capacity_score s))
       (map snd (nr_nodes r))"

definition healthy_nodes :: "'f float_ops \<Rightarrow> 'f node_registry \<Rightarrow> 'f node_metadata list" where
  "healthy_nodes fl r = filter (is_healthy fl) (map snd (nr_nodes r))"

definition leader_nodes :: "'f node_registry \<Rightarrow> 'f node_metadata list" where
  "leader_nodes r = nodes_by_role RoleLeader r"

record 'f cluster_stats =
  cs_total_nodes :: usize
  cs_active_nodes :: usize
  cs_failed_nodes :: usize
  cs_suspected_nodes :: usize
  cs_healthy_nodes :: usize
  cs_average_health :: 'f
  cs_leader_count :: usize
  cs_follower_count :: usize
  cs_candidate_count :: usize
  cs_learner_count :: usize
  cs_observer_count :: usize

definition count_node :: "'f float_ops \<Rightarrow> 'f node_metadata \<Rightarrow> 'f cluster_stats \<Rightarrow> 'f cluster_stats" where
  "count_node fl n s =
     (let s1 = s\<lparr>cs_total_nodes := cs_total_nodes s + 1\<rparr>;
          s2 = (case nm_status n of
                  StatusActive \<Rightarrow> s1\<lparr>cs_active_nodes := cs_active_nodes s1 + 1\<rparr>
                | StatusFailed \<Rightarrow> s1\<lparr>cs_failed_nodes := cs_failed_nodes s1 + 1\<rparr>
                | StatusSuspected \<Rightarrow> s1\<lparr>cs_suspected_nodes := cs_suspected_nodes s1 + 1\<rparr>
                | _ \<Rightarrow> s1);
          s3 = (case nm_role n of
                  RoleLeader \<Rightarrow> s2\<lparr>cs_leader_count := cs_leader_count s2 + 1\<rparr>
                | RoleFollower \<Rightarrow> s2\<lparr>cs_follower_count := cs_follower_count s2 + 1\<rparr>
                | RoleCandidate \<Rightarrow> s2\<lparr>cs_candidate_count := cs_candidate_count s2 + 1\<rparr>
                | RoleLearner \<Rightarrow> s2\<lparr>cs_learner_count := cs_learner_count s2 + 1\<rparr>
                | RoleObserver \<Rightarrow> s2\<lparr>cs_observer_count := cs_observer_count s2 + 1\<rparr>);
          s4 = (if is_healthy fl n then s3\<lparr>cs_healthy_nodes := cs_healthy_nodes s3 + 1\<rparr> else s3) in
      s4\<lparr>cs_average_health := fl_add fl (cs_average_health s4) (nm_health_score n)\<rparr>)"

definition empty_stats :: "'f float_ops \<Rightarrow> 'f cluster_stats" where
  "empty_stats fl = \<lparr>cs_total_nodes = 0, cs_active_nodes = 0, cs_failed_nodes = 0, cs_suspected_nodes = 0,
     cs_healthy_nodes = 0, cs_average_health = fl_tenths fl 0, cs_leader_count = 0, cs_follower_count = 0,
     cs_candidate_count = 0, cs_learner_count = 0, cs_observer_count = 0\<rparr>"

definition cluster_stats_of :: "'f float_ops \<Rightarrow> 'f node_registry \<Rightarrow> 'f cluster_stats" where
  "cluster_stats_of fl r =
     (let s = fold (count_node fl) (map snd (nr_nodes r)) (empty_stats fl) in
      if 0 < cs_total_nodes s
      then s\<lparr>cs_average_health := fl_div fl (cs_average_health s) (fl_of_usize fl (cs_total_nodes s))\<rparr> else s)"

definition has_quorum :: "'f cluster_stats \<Rightarrow> bool" where
  "has_quorum s = (cs_total_nodes s div 2 < cs_healthy_nodes s)"

definition health_ratio :: "'f float_ops \<Rightarrow> 'f cluster_stats \<Rightarrow> 'f" where
  "health_ratio fl s =
     (if cs_total_nodes s = 0 then fl_tenths fl 0
      else fl_div fl (fl_of_usize fl (cs_healthy_nodes s)) (fl_of_usize fl (cs_total_nodes s)))"

definition stability_score :: "'f float_ops \<Rightarrow> 'f cluster_stats \<Rightarrow> 'f" where
  "stability_score fl s =
     (let penalty = (if 0 < cs_total_nodes s
                     then fl_div fl (fl_of_usize fl (cs_failed_nodes s)) (fl_of_usize fl (cs_total_nodes s))
                     else fl_tenths fl 0) in
      fl_clamp fl (fl_tenths fl 0) (fl_tenths fl 10) (fl_sub fl (health_ratio fl s) (fl_mul fl penalty (fl_tenths fl 5))))"

definition cleanup_stale_nodes :: "system_time \<Rightarrow> 'f node_registry \<Rightarrow> 'f node_registry \<times> node_id list" where
  "cleanup_stale_nodes now r =
     fold (\<lambda>nid (r, removed). case unregister_node nid r of
              (r1, Ok n) \<Rightarrow> (r1, removed @ [nid]) | (r1, _) \<Rightarrow> (r1, removed))
       (map fst (filter (\<lambda>(nid, n). node_is_stale now (nr_staleness_threshold r) n) (nr_nodes r))) (r, [])"

definition node_count :: "'f node_registry \<Rightarrow> usize" where
  "node_count r = length (nr_nodes r)"

definition contains_node :: "node_id \<Rightarrow> 'f node_registry \<Rightarrow> bool" where
  "contains_node nid r = (hm_get (nr_nodes r) nid \<noteq> None)"

section \<open>Addresses read back\<close>

lemma strip_prefix_append [simp]: "strip_prefix p (p @ s) = Some s"
  by (induction p) auto

text \<open>
  printing and parsing an address are inverse, as long as the standard library reads back the socket
  addresses it prints. The exception is a QUIC address with a server name: the name is printed after the
  socket address and nothing parses it, so the printed address is rejected.
\<close>

theorem address_roundtrip:
  assumes "\<And>s. address_socket a = Some s \<Longrightarrow> parse_socket (show_socket s) = Some s"
    and "\<And>s server. a = QuicAddr s (Some server) \<Longrightarrow> parse_socket (show_socket s @ ''#'' @ server) = None"
  shows "parse_address parse_socket (show_address show_socket a) =
     (case a of
        QuicAddr s (Some server) \<Rightarrow> Err (ConfigurationError (''Invalid QUIC address: '' @ show_socket s @ ''#'' @ server))
      | _ \<Rightarrow> Ok a)"
proof (cases a)
  case (TcpAddr s)
  then show ?thesis using assms(1)[of s] by (simp add: parse_address_def show_address_def address_socket_def)
next
  case (UdpAddr s)
  then show ?thesis using assms(1)[of s] by (simp add: parse_address_def show_address_def address_socket_def)
next
  case (UnixAddr path)
  then show ?thesis by (simp add: parse_address_def show_address_def)
next
  case (QuicAddr s server)
  then show ?thesis using assms(1)[of s] assms(2)[of s]
    by (cases server) (auto simp: parse_address_def show_address_def address_socket_def)
qed

definition sample_socket :: sock_addr where
  "sample_socket = \<lparr>sa_ip = V4 0x7F000001, sa_port = 8443\<rparr>"

theorem address_roundtrip_witness:
  "parse_address (\<lambda>str. if str = ''127.0.0.1:8443'' then Some sample_socket else None)
     (show_address (\<lambda>s. ''127.0.0.1:8443'') (QuicAddr sample_socket None)) = Ok (QuicAddr sample_socket None)"
  using address_roundtrip[of "QuicAddr sample_socket None"
      "\<lambda>str. if str = ''127.0.0.1:8443'' then Some sample_socket else None" "\<lambda>s. ''127.0.0.1:8443''"]
  by (simp add: address_socket_def)

section \<open>The indices\<close>

definition index_ok :: "('f node_metadata \<Rightarrow> 'k option) \<Rightarrow> ('k, node_id list) hash_map \<Rightarrow> (node_id, 'f node_metadata) hash_map \<Rightarrow> bool" where
  "index_ok key idx nodes =
     (\<forall>k. set (hm_get_or [] idx k) = {nid. \<exists>n. hm_get nodes nid = Some n \<and> key n = Some k})"

definition registry_wf :: "'f node_registry \<Rightarrow> bool" where
  "registry_wf r =
     (hm_ok (nr_nodes r) \<and> index_ok (\<lambda>n. Some (nm_role n)) (nr_nodes_by_role r) (nr_nodes r)
      \<and> index_ok node_region (nr_nodes_by_region r) (nr_nodes r))"

lemma index_add_get:
  "set (hm_get_or [] (index_add k nid m) j) = set (hm_get_or [] m j) \<union> (if k = Some j then {nid} else {})"
  by (cases k) (auto simp: index_add_def set_insert_get)

lemma index_drop_get:
  "set (hm_get_or [] (index_drop k nid m) j) = set (hm_get_or [] m j) - (if k = Some j then {nid} else {})"
proof (cases k)
  case (Some i)
  show ?thesis
  proof (cases "hm_get m i")
    case None
    with Some show ?thesis by (auto simp: index_drop_def hm_get_or_None)
  next
    case (Some ids)
    have rest: "set ids - {nid} = set (removeAll nid ids)" by simp
    show ?thesis
    proof (cases "j = i")
      case True
      with Some \<open>k = Some i\<close> rest show ?thesis
        by (simp add: index_drop_def hm_get_or_remove hm_get_or_Some del: set_removeAll)
    qed (use Some \<open>k = Some i\<close> in \<open>simp add: index_drop_def hm_get_or_remove\<close>)
  qed
qed (simp add: index_drop_def)

text \<open>Moving a node from its old index entry, if it has one, to the new one.\<close>

lemma index_ok_drop:
  assumes "index_ok key idx nodes" "hm_get nodes nid = Some n"
  shows "index_ok key (index_drop (key n) nid idx) (hm_remove nid nodes)"
  using assms by (auto simp: index_ok_def index_drop_get)

lemma index_ok_add:
  assumes "index_ok key idx nodes" "\<And>old. hm_get nodes nid = Some old \<Longrightarrow> key old = key n"
  shows "index_ok key (index_add (key n) nid idx) (hm_insert nid n nodes)"
  using assms by (auto simp: index_ok_def index_add_get)

lemma index_ok_move:
  assumes "index_ok key idx nodes" "hm_get nodes nid = Some old" "key old \<noteq> key n"
  shows "index_ok key (index_add (key n) nid (index_drop (key old) nid idx)) (hm_insert nid n nodes)"
  using assms by (auto simp: index_ok_def index_add_get index_drop_get)

lemma index_ok_keep:
  assumes "index_ok key idx nodes" "hm_get nodes nid = Some old" "key old = key n"
  shows "index_ok key idx (hm_insert nid n nodes)"
  using assms by (auto simp: index_ok_def)

definition same_place :: "'f node_metadata \<Rightarrow> 'f node_registry \<Rightarrow> bool" where
  "same_place n r =
     (case hm_get (nr_nodes r) (nm_node_id n) of
        None \<Rightarrow> True
      | Some old \<Rightarrow> nm_role old = nm_role n \<and> node_region old = node_region n)"

lemma register_node_wf:
  assumes "registry_wf r" "same_place n r"
  shows "registry_wf (fst (register_node fl n r))"
proof -
  have p: "\<And>old. hm_get (nr_nodes r) (nm_node_id n) = Some old \<Longrightarrow> nm_role old = nm_role n \<and> node_region old = node_region n"
    using assms(2) by (simp add: same_place_def)
  show ?thesis
    using assms(1) index_ok_add[of "\<lambda>n. Some (nm_role n)" "nr_nodes_by_role r" "nr_nodes r" "nm_node_id n" n]
      index_ok_add[of node_region "nr_nodes_by_region r" "nr_nodes r" "nm_node_id n" n] p
    by (simp add: registry_wf_def register_node_def)
qed

lemma unregister_node_wf:
  assumes "registry_wf r"
  shows "registry_wf (fst (unregister_node nid r))"
  using assms index_ok_drop[of "\<lambda>n. Some (nm_role n)" "nr_nodes_by_role r" "nr_nodes r" nid]
    index_ok_drop[of node_region "nr_nodes_by_region r" "nr_nodes r" nid]
  by (simp add: registry_wf_def unregister_node_def split: option.splits)

lemma update_node_wf:
  assumes "registry_wf r"
  shows "registry_wf (fst (update_node nid n r))"
proof (cases "hm_get (nr_nodes r) nid")
  case (Some old)
  note w = assms[unfolded registry_wf_def]
  have "index_ok (\<lambda>n. Some (nm_role n)) (nr_nodes_by_role (fst (update_node nid n r))) (hm_insert nid n (nr_nodes r))"
    using index_ok_move[OF conjunct1[OF conjunct2[OF w]] Some, of n] index_ok_keep[OF conjunct1[OF conjunct2[OF w]] Some, of n] Some
    by (simp add: update_node_def)
  moreover have "index_ok node_region (nr_nodes_by_region (fst (update_node nid n r))) (hm_insert nid n (nr_nodes r))"
    using index_ok_move[OF conjunct2[OF conjunct2[OF w]] Some, of n] index_ok_keep[OF conjunct2[OF conjunct2[OF w]] Some, of n] Some
    by (simp add: update_node_def)
  ultimately show ?thesis using w Some by (simp add: registry_wf_def update_node_def)
qed (use assms in \<open>simp add: update_node_def\<close>)

lemma cleanup_wf: "registry_wf r \<Longrightarrow> registry_wf (fst (cleanup_stale_nodes now r))"
proof -
  have "registry_wf (fst (fold (\<lambda>nid (r, removed). case unregister_node nid r of
              (r1, Ok n) \<Rightarrow> (r1, removed @ [nid]) | (r1, _) \<Rightarrow> (r1, removed)) ids (r, rem)))"
    if "registry_wf r" for r :: "'a node_registry" and ids rem
    using that
  proof (induction ids arbitrary: r rem)
    case (Cons i ids)
    obtain r1 res where u: "unregister_node i r = (r1, res)" by fastforce
    have "registry_wf r1" using unregister_node_wf[OF Cons.prems, of i] u by simp
    from Cons.IH[OF this] u show ?case by (cases res) auto
  qed simp
  then show "registry_wf r \<Longrightarrow> registry_wf (fst (cleanup_stale_nodes now r))" by (simp add: cleanup_stale_nodes_def)
qed

datatype 'f node_op =
    RegisterNode "'f node_metadata"
  | UnregisterNode node_id
  | UpdateNode node_id "'f node_metadata"
  | CleanupNodes system_time

fun node_step :: "'f float_ops \<Rightarrow> 'f node_op \<Rightarrow> 'f node_registry \<Rightarrow> 'f node_registry" where
  "node_step fl (RegisterNode n) r = fst (register_node fl n r)"
| "node_step fl (UnregisterNode nid) r = fst (unregister_node nid r)"
| "node_step fl (UpdateNode nid n) r = fst (update_node nid n r)"
| "node_step fl (CleanupNodes now) r = fst (cleanup_stale_nodes now r)"

text \<open>A registration is in order when the node is new or keeps its role and region.\<close>

fun in_order :: "'f float_ops \<Rightarrow> 'f node_op list \<Rightarrow> 'f node_registry \<Rightarrow> bool" where
  "in_order fl [] r = True"
| "in_order fl (x # xs) r =
     ((case x of RegisterNode n \<Rightarrow> same_place n r | _ \<Rightarrow> True) \<and> in_order fl xs (node_step fl x r))"

lemma node_run_wf: "registry_wf r \<Longrightarrow> in_order fl xs r \<Longrightarrow> registry_wf (fold (node_step fl) xs r)"
proof (induction xs arbitrary: r)
  case (Cons x xs)
  have "registry_wf (node_step fl x r)"
    using Cons.prems by (cases x) (auto intro: register_node_wf unregister_node_wf update_node_wf cleanup_wf)
  with Cons show ?case by simp
qed simp

lemma set_known_nodes: "set (known_nodes ids r) = {n. \<exists>i\<in>set ids. hm_get (nr_nodes r) i = Some n}"
  by (auto simp: known_nodes_def split: option.splits)

lemma index_query:
  assumes "index_ok key idx (nr_nodes r)" "hm_ok (nr_nodes r)"
  shows "set (case hm_get idx k of None \<Rightarrow> [] | Some ids \<Rightarrow> known_nodes ids r) = {n \<in> snd ` set (nr_nodes r). key n = Some k}"
proof -
  have "set (case hm_get idx k of None \<Rightarrow> [] | Some ids \<Rightarrow> known_nodes ids r) = set (known_nodes (hm_get_or [] idx k) r)"
    by (cases "hm_get idx k") (simp_all add: hm_get_or_def known_nodes_def)
  also have "\<dots> = {n. \<exists>i. hm_get (nr_nodes r) i = Some n \<and> key n = Some k}"
    using assms(1) unfolding set_known_nodes index_ok_def by force
  also have "\<dots> = {n \<in> snd ` set (nr_nodes r). key n = Some k}"
    using hm_entry[OF assms(2)] by (force simp: image_iff)
  finally show ?thesis .
qed

text \<open>
  C30: the role and region queries are exact. After any sequence of registrations, removals, updates and
  clean-ups in which a node registered again keeps its role and region, \<open>nodes_by_role\<close> returns the
  registered nodes with that role and \<open>nodes_by_region\<close> those of that region, and no others.
\<close>

theorem node_queries_exact:
  assumes "in_order fl ops node_registry_new" "r = fold (node_step fl) ops node_registry_new"
  shows "set (nodes_by_role role r) = {n \<in> snd ` set (nr_nodes r). nm_role n = role}
     \<and> set (nodes_by_region region r) = {n \<in> snd ` set (nr_nodes r). node_region n = Some region}"
proof -
  have "registry_wf node_registry_new" by (simp add: registry_wf_def node_registry_new_def index_ok_def hm_get_or_def)
  with assms have "registry_wf r" using node_run_wf by blast
  then show ?thesis
    using index_query[of "\<lambda>n. Some (nm_role n)" "nr_nodes_by_role r" r role]
      index_query[of node_region "nr_nodes_by_region r" r region]
    by (simp add: registry_wf_def nodes_by_role_def nodes_by_region_def)
qed

definition sample_node :: "node_id \<Rightarrow> node_role \<Rightarrow> string \<Rightarrow> int node_metadata" where
  "sample_node nid role region =
     with_region region ((node_metadata_new sample_floats ''0.1.0'' 0 nid (TcpAddr sample_socket))\<lparr>nm_role := role\<rparr>)"

definition sample_node_ops :: "int node_op list" where
  "sample_node_ops = [RegisterNode (sample_node 1 RoleLeader ''eu''), RegisterNode (sample_node 2 RoleFollower ''eu''),
     UpdateNode 2 (sample_node 2 RoleLeader ''us''), UnregisterNode 1]"

theorem node_queries_exact_witness:
  "set (nodes_by_role RoleLeader (fold (node_step sample_floats) sample_node_ops node_registry_new))
     = {sample_node 2 RoleLeader ''us''}"
proof -
  let ?r = "fold (node_step sample_floats) sample_node_ops node_registry_new"
  have "in_order sample_floats sample_node_ops node_registry_new" "nr_nodes ?r = [(2, sample_node 2 RoleLeader ''us'')]"
    by (simp_all add: sample_node_ops_def register_node_def update_node_def unregister_node_def same_place_def
        node_registry_new_def hm_insert_def hm_remove_def node_is_valid_def sample_node_def with_region_def
        node_metadata_new_def address_is_valid_def socket_valid_def sample_socket_def ip_is_unspecified_def sample_floats_def)
  then show ?thesis
    using node_queries_exact[of sample_floats sample_node_ops ?r RoleLeader]
    by (auto simp: sample_node_def with_region_def)
qed

text \<open>
  a node registered again with another role stays indexed under the old one. The query for the old role
  then returns a node that does not have it, and after the node is removed the old entry is still there:
  should the node come back as a follower, it is listed among the leaders again.
\<close>

theorem reregistered_node_keeps_old_role:
  assumes valid: "node_is_valid fl n" "node_is_valid fl n'" and nid: "nm_node_id n' = nm_node_id n"
    and roles: "nm_role n = RoleLeader" "nm_role n' = RoleFollower"
    and r: "r = fst (register_node fl n' (fst (register_node fl n node_registry_new)))"
  shows "leader_nodes r = [n'] \<and> nodes_by_role RoleFollower r = [n']
     \<and> leader_nodes (fst (register_node fl n' (fst (unregister_node (nm_node_id n) r)))) = [n']"
  using assms
  by (simp add: register_node_def unregister_node_def node_registry_new_def leader_nodes_def nodes_by_role_def
      index_add_def index_drop_def set_insert_def hm_insert_def hm_remove_def hm_get_or_def known_nodes_def)

theorem reregistered_node_keeps_old_role_witness:
  "leader_nodes (fst (register_node sample_floats (sample_node 1 RoleFollower ''eu'')
     (fst (register_node sample_floats (sample_node 1 RoleLeader ''eu'') node_registry_new))))
   = [sample_node 1 RoleFollower ''eu'']"
proof -
  have "node_is_valid sample_floats (sample_node 1 role ''eu'')" for role
    by (simp add: node_is_valid_def sample_node_def with_region_def node_metadata_new_def address_is_valid_def
        socket_valid_def sample_socket_def ip_is_unspecified_def sample_floats_def)
  then show ?thesis
    using reregistered_node_keeps_old_role[of sample_floats "sample_node 1 RoleLeader ''eu''" "sample_node 1 RoleFollower ''eu''"]
    by (simp add: sample_node_def with_region_def node_metadata_new_def)
qed

section \<open>Statistics\<close>

lemma count_node_counts:
  "cs_total_nodes (fold (count_node fl) ns s) = cs_total_nodes s + length ns
   \<and> cs_healthy_nodes (fold (count_node fl) ns s) = cs_healthy_nodes s + length (filter (is_healthy fl) ns)
   \<and> cs_leader_count (fold (count_node fl) ns s) + cs_follower_count (fold (count_node fl) ns s)
       + cs_candidate_count (fold (count_node fl) ns s) + cs_learner_count (fold (count_node fl) ns s)
       + cs_observer_count (fold (count_node fl) ns s)
     = cs_leader_count s + cs_follower_count s + cs_candidate_count s + cs_learner_count s + cs_observer_count s + length ns"
proof (induction ns arbitrary: s)
  case (Cons n ns)
  have "cs_total_nodes (count_node fl n s) = cs_total_nodes s + 1
    \<and> cs_healthy_nodes (count_node fl n s) = cs_healthy_nodes s + (if is_healthy fl n then 1 else 0)
    \<and> cs_leader_count (count_node fl n s) + cs_follower_count (count_node fl n s) + cs_candidate_count (count_node fl n s)
       + cs_learner_count (count_node fl n s) + cs_observer_count (count_node fl n s)
      = cs_leader_count s + cs_follower_count s + cs_candidate_count s + cs_learner_count s + cs_observer_count s + 1"
    by (cases "nm_status n"; cases "nm_role n"; simp add: count_node_def Let_def)
  with Cons.IH[of "count_node fl n s"] show ?case by simp
qed simp

text \<open>
  the statistics count every node once, by role, and the quorum verdict is that more than half of the
  registered nodes are healthy.
\<close>

theorem cluster_stats_counts:
  "(let s = cluster_stats_of fl r in
    cs_total_nodes s = node_count r
    \<and> cs_leader_count s + cs_follower_count s + cs_candidate_count s + cs_learner_count s + cs_observer_count s = node_count r
    \<and> (has_quorum s \<longleftrightarrow> node_count r < 2 * length (healthy_nodes fl r)))"
  using count_node_counts[of fl "map snd (nr_nodes r)" "empty_stats fl"]
  by (auto simp: cluster_stats_of_def Let_def node_count_def healthy_nodes_def has_quorum_def empty_stats_def)

end
