(* ===== verification/Consistency.thy ===== *)
theory Consistency
  imports Quorum
begin

text \<open>
  Consistency levels, \<^verbatim>\<open>src/kaelix-storage/src/replication/consistency.rs\<close>: sessions, the sequence numbers
  known per node, and the checks a read or a write is subjected to; with the configuration and the
  in-memory log of \<^verbatim>\<open>replication/mod.rs\<close>. The system clock is an argument; the polls of a wait are the list
  of what it observes.
\<close>

section \<open>Levels, sessions, preferences\<close>

datatype consistency_level = Eventual | ReadYourWrites | MonotonicLevel | Strong

definition default_consistency :: consistency_level where
  "default_consistency = ReadYourWrites"

fun consistency_str :: "consistency_level \<Rightarrow> string" where
  "consistency_str Eventual = ''eventual''"
| "consistency_str ReadYourWrites = ''read-your-writes''"
| "consistency_str MonotonicLevel = ''monotonic''"
| "consistency_str Strong = ''strong''"

record session_info =
  si_session_id :: string
  si_last_write_sequence :: u64
  si_last_read_timestamp :: system_time
  si_origin_node :: node_id

datatype read_preference = ReadPrimary | PrimaryPreferred | ReadAny | Nearest

datatype write_preference = WritePrimary | Majority | WriteAll

fun get_read_preference :: "consistency_level \<Rightarrow> read_preference" where
  "get_read_preference Eventual = ReadAny"
| "get_read_preference ReadYourWrites = PrimaryPreferred"
| "get_read_preference MonotonicLevel = PrimaryPreferred"
| "get_read_preference Strong = ReadPrimary"

fun get_write_preference :: "consistency_level \<Rightarrow> write_preference" where
  "get_write_preference Eventual = WritePrimary"
| "get_write_preference ReadYourWrites = WritePrimary"
| "get_write_preference MonotonicLevel = WritePrimary"
| "get_write_preference Strong = Majority"

section \<open>The manager\<close>

record consistency_manager =
  cm_sessions :: "(string, session_info) hash_map"
  cm_vector_clocks :: "(node_id, u64) hash_map"
  cm_node_sequences :: "(node_id, u64) hash_map"
  cm_local_node_id :: node_id

definition consistency_manager_new :: "node_id \<Rightarrow> consistency_manager" where
  "consistency_manager_new n =
     \<lparr>cm_sessions = [], cm_vector_clocks = [], cm_node_sequences = [], cm_local_node_id = n\<rparr>"

definition create_session :: "system_time \<Rightarrow> string \<Rightarrow> consistency_manager \<Rightarrow> consistency_manager \<times> session_info" where
  "create_session now sid m =
     (let session = \<lparr>si_session_id = sid, si_last_write_sequence = 0, si_last_read_timestamp = now,
                     si_origin_node = cm_local_node_id m\<rparr> in
      (m\<lparr>cm_sessions := hm_insert sid session (cm_sessions m)\<rparr>, session))"

definition update_session_write :: "string \<Rightarrow> u64 \<Rightarrow> consistency_manager \<Rightarrow> consistency_manager" where
  "update_session_write sid sq m =
     (case hm_get (cm_sessions m) sid of
        None \<Rightarrow> m
      | Some session \<Rightarrow>
          m\<lparr>cm_sessions := hm_insert sid
              (session\<lparr>si_last_write_sequence := max (si_last_write_sequence session) sq\<rparr>) (cm_sessions m)\<rparr>)"

definition check_read_consistency ::
    "consistency_level \<Rightarrow> string option \<Rightarrow> u64 \<Rightarrow> node_id \<Rightarrow> consistency_manager \<Rightarrow> bool" where
  "check_read_consistency level sid read_sequence read_node m =
     (case level of
        Eventual \<Rightarrow> True
      | ReadYourWrites \<Rightarrow>
          (case sid of
             None \<Rightarrow> False
           | Some i \<Rightarrow>
               (case hm_get (cm_sessions m) i of
                  None \<Rightarrow> False
                | Some session \<Rightarrow> si_last_write_sequence session \<le> read_sequence))
      | MonotonicLevel \<Rightarrow>
          (case hm_get (cm_node_sequences m) read_node of
             None \<Rightarrow> True
           | Some last_sequence \<Rightarrow> last_sequence \<le> read_sequence)
      | Strong \<Rightarrow> True)"

definition check_write_consistency :: "consistency_level \<Rightarrow> u64 \<Rightarrow> node_id list \<Rightarrow> usize \<Rightarrow> bool" where
  "check_write_consistency level write_sequence replicated total_replicas =
     (case level of
        Strong \<Rightarrow> total_replicas div 2 + 1 \<le> length replicated
      | _ \<Rightarrow> replicated \<noteq> [])"

definition update_vector_clock :: "node_id \<Rightarrow> u64 \<Rightarrow> consistency_manager \<Rightarrow> consistency_manager" where
  "update_vector_clock n sq m =
     m\<lparr>cm_vector_clocks := hm_insert n (max (hm_get_or 0 (cm_vector_clocks m) n) sq) (cm_vector_clocks m)\<rparr>"

definition update_node_sequence :: "node_id \<Rightarrow> u64 \<Rightarrow> consistency_manager \<Rightarrow> consistency_manager" where
  "update_node_sequence n sq m =
     m\<lparr>cm_node_sequences := hm_insert n (max (hm_get_or 0 (cm_node_sequences m) n) sq) (cm_node_sequences m)\<rparr>"

text \<open>
  A wait polls until the timeout; each observation is the time elapsed at the check of the loop and the
  manager it then finds. \<open>None\<close>: the observations ended before the wait did. The error carries the timeout.
\<close>

fun wait_polls :: "u64 \<Rightarrow> duration \<Rightarrow> (duration \<times> consistency_manager) list \<Rightarrow> (unit, duration) result option" where
  "wait_polls target timeout [] = None"
| "wait_polls target timeout ((elapsed, m) # polls) =
     (if elapsed < timeout then
        if (case hm_get (cm_node_sequences m) (cm_local_node_id m) of None \<Rightarrow> False | Some current \<Rightarrow> target \<le> current)
        then Some (Ok ())
        else wait_polls target timeout polls
      else Some (Err timeout))"

definition wait_for_consistency ::
    "consistency_level \<Rightarrow> u64 \<Rightarrow> duration \<Rightarrow> (duration \<times> consistency_manager) list \<Rightarrow> (unit, duration) result option" where
  "wait_for_consistency level target timeout polls =
     (case level of
        Eventual \<Rightarrow> Some (Ok ())
      | Strong \<Rightarrow> Some (Ok ())
      | _ \<Rightarrow> wait_polls target timeout polls)"

definition get_session :: "string \<Rightarrow> consistency_manager \<Rightarrow> session_info option" where
  "get_session sid m = hm_get (cm_sessions m) sid"

definition cleanup_expired_sessions :: "system_time \<Rightarrow> duration \<Rightarrow> consistency_manager \<Rightarrow> consistency_manager \<times> usize" where
  "cleanup_expired_sessions now max_age m =
     (let cutoff = now - int max_age;
          kept = hm_retain (\<lambda>_ session. cutoff < si_last_read_timestamp session) (cm_sessions m) in
      (m\<lparr>cm_sessions := kept\<rparr>, length (cm_sessions m) - length kept))"

definition get_consistency_stats :: "consistency_manager \<Rightarrow> usize \<times> usize \<times> usize" where
  "get_consistency_stats m = (length (cm_sessions m), length (cm_vector_clocks m), length (cm_node_sequences m))"

section \<open>Configuration of the replication\<close>

record replication_config =
  rp_replica_count :: usize
  rp_heartbeat_interval :: duration
  rp_operation_timeout :: duration
  rp_max_batch_size :: usize
  rp_enable_compression :: bool
  rp_buffer_size :: usize
  rp_max_retries :: usize
  rp_retry_backoff :: duration
  rp_enable_auto_failover :: bool
  rp_quorum :: quorum_config

definition replication_config_default :: replication_config where
  "replication_config_default =
     \<lparr>rp_replica_count = 3, rp_heartbeat_interval = 1000 * 1000000, rp_operation_timeout = 10000 * 1000000,
      rp_max_batch_size = 100, rp_enable_compression = True, rp_buffer_size = 10000, rp_max_retries = 3,
      rp_retry_backoff = 100 * 1000000, rp_enable_auto_failover = True, rp_quorum = quorum_config_default\<rparr>"

definition replication_config_validate :: "replication_config \<Rightarrow> (unit, replication_error) result" where
  "replication_config_validate c =
     (if rp_replica_count c = 0 then Err (RConfigurationError ''replica_count must be greater than 0'')
      else if rp_heartbeat_interval c = 0 then Err (RConfigurationError ''heartbeat_interval must be greater than 0'')
      else if rp_operation_timeout c < rp_heartbeat_interval c
        then Err (RConfigurationError ''operation_timeout should be greater than heartbeat_interval'')
      else if rp_max_batch_size c = 0 then Err (RConfigurationError ''max_batch_size must be greater than 0'')
      else if rp_buffer_size c = 0 then Err (RConfigurationError ''buffer_size must be greater than 0'')
      else quorum_validate (rp_quorum c))"

section \<open>The log the replication reads\<close>

definition log_append :: "'m \<Rightarrow> 'm list \<Rightarrow> 'm list \<times> u64" where
  "log_append entry entries = (entries @ [entry], of_nat (length entries))"

definition log_read_from :: "u64 \<Rightarrow> 'm list \<Rightarrow> (u64 \<times> 'm) list" where
  "log_read_from sq entries =
     (let start_idx = unat sq in
      if length entries < start_idx then []
      else map (\<lambda>(i, e). (of_nat start_idx + of_nat i, e)) (enumerate 0 (drop start_idx entries)))"

definition log_truncate :: "u64 \<Rightarrow> 'm list \<Rightarrow> 'm list" where
  "log_truncate sq entries = (if unat sq \<le> length entries then take (unat sq) entries else entries)"

section \<open>What the checks guarantee\<close>

datatype consistency_op =
    CreateSession system_time string
  | SessionWrite string u64
  | VectorClock node_id u64
  | NodeSequence node_id u64
  | CleanupSessions system_time duration

fun consistency_step :: "consistency_op \<Rightarrow> consistency_manager \<Rightarrow> consistency_manager" where
  "consistency_step (CreateSession now sid) m = fst (create_session now sid m)"
| "consistency_step (SessionWrite sid sq) m = update_session_write sid sq m"
| "consistency_step (VectorClock n sq) m = update_vector_clock n sq m"
| "consistency_step (NodeSequence n sq) m = update_node_sequence n sq m"
| "consistency_step (CleanupSessions now max_age) m = fst (cleanup_expired_sessions now max_age m)"

text \<open>
  What a history says: of a live session, when it was created and the writes recorded in it since; of a
  node, the sequence numbers reported for it.
\<close>

fun note_session :: "consistency_op \<Rightarrow> (string \<Rightarrow> (system_time \<times> u64 list) option) \<Rightarrow> string \<Rightarrow> (system_time \<times> u64 list) option" where
  "note_session (CreateSession now sid) S = S(sid \<mapsto> (now, []))"
| "note_session (SessionWrite sid sq) S =
     (case S sid of None \<Rightarrow> S | Some (t, ws) \<Rightarrow> S(sid \<mapsto> (t, sq # ws)))"
| "note_session (CleanupSessions now max_age) S =
     (\<lambda>sid. case S sid of Some (t, ws) \<Rightarrow> if now - int max_age < t then Some (t, ws) else None | None \<Rightarrow> None)"
| "note_session _ S = S"

fun note_node :: "consistency_op \<Rightarrow> (node_id \<Rightarrow> u64 list) \<Rightarrow> node_id \<Rightarrow> u64 list" where
  "note_node (NodeSequence n sq) N = N(n := sq # N n)"
| "note_node _ N = N"

definition agrees :: "node_id \<Rightarrow> consistency_manager \<Rightarrow> (string \<Rightarrow> (system_time \<times> u64 list) option) \<Rightarrow> (node_id \<Rightarrow> u64 list) \<Rightarrow> bool" where
  "agrees n m S N =
     (hm_ok (cm_sessions m) \<and> cm_local_node_id m = n
      \<and> (\<forall>sid. hm_get (cm_sessions m) sid =
           map_option (\<lambda>(t, ws). \<lparr>si_session_id = sid, si_last_write_sequence = foldr max ws 0,
             si_last_read_timestamp = t, si_origin_node = n\<rparr>) (S sid))
      \<and> (\<forall>k. hm_get (cm_node_sequences m) k = (if N k = [] then None else Some (foldr max (N k) 0))))"

lemma agrees_new: "agrees n (consistency_manager_new n) Map.empty (\<lambda>_. [])"
  by (simp add: agrees_def consistency_manager_new_def)

lemma agrees_step: "agrees n m S N \<Longrightarrow> agrees n (consistency_step x m) (note_session x S) (note_node x N)"
proof (cases x)
  case (SessionWrite sid sq)
  assume a: "agrees n m S N"
  show ?thesis
  proof (cases "S sid")
    case None
    with a SessionWrite show ?thesis by (simp add: agrees_def update_session_write_def)
  next
    case (Some p)
    with a SessionWrite show ?thesis
      by (cases p) (auto simp: agrees_def update_session_write_def max.commute)
  qed
next
  case (CleanupSessions now max_age)
  assume a: "agrees n m S N"
  have "hm_get (hm_retain (\<lambda>_ session. now - int max_age < si_last_read_timestamp session) (cm_sessions m)) sid =
      map_option (\<lambda>(t, ws). \<lparr>si_session_id = sid, si_last_write_sequence = foldr max ws 0,
             si_last_read_timestamp = t, si_origin_node = n\<rparr>) (note_session x S sid)" for sid
    using a by (cases "S sid") (auto simp: agrees_def hm_get_retain CleanupSessions)
  with a show ?thesis by (simp add: agrees_def CleanupSessions cleanup_expired_sessions_def Let_def)
qed (auto simp: agrees_def create_session_def update_vector_clock_def update_node_sequence_def hm_get_or_def Let_def max.commute
    split: if_splits)

lemma agrees_run:
  "agrees n m S N \<Longrightarrow> agrees n (fold consistency_step xs m) (fold note_session xs S) (fold note_node xs N)"
  by (induction xs arbitrary: m S N) (auto simp: agrees_step)

lemma foldr_max_le: "foldr max ws 0 \<le> (k :: u64) \<longleftrightarrow> (\<forall>w\<in>set ws. w \<le> k)"
  by (induction ws) auto

lemma run_agrees: "agrees n (fold consistency_step xs (consistency_manager_new n)) (fold note_session xs Map.empty) (fold note_node xs (\<lambda>_. []))"
  by (rule agrees_run[OF agrees_new])

lemma ryw_check:
  "check_read_consistency ReadYourWrites (Some sid) sq node (fold consistency_step xs (consistency_manager_new n))
       = (case fold note_session xs Map.empty sid of None \<Rightarrow> False | Some (t, ws) \<Rightarrow> \<forall>w\<in>set ws. w \<le> sq)"
  using run_agrees[of n xs] by (auto simp: agrees_def check_read_consistency_def foldr_max_le split: option.splits)

lemma monotonic_check:
  "check_read_consistency MonotonicLevel s sq node (fold consistency_step xs (consistency_manager_new n))
       = (\<forall>v\<in>set (fold note_node xs (\<lambda>_. []) node). v \<le> sq)"
  using run_agrees[of n xs] by (auto simp: agrees_def check_read_consistency_def foldr_max_le split: option.splits)

text \<open>
  the checks of reads are exact. After any history of sessions created, writes recorded, clocks and
  node sequences reported and sessions cleaned up, a read passes the read-your-writes check exactly when its
  session is live and it is at least as new as every write recorded in the session since its
  creation (a read without a session never passes), and the monotonic check exactly when it is at least
  as new as every sequence number reported for its node.
\<close>

theorem read_checks_exact:
  "check_read_consistency ReadYourWrites (Some sid) sq node (fold consistency_step xs (consistency_manager_new n))
       = (case fold note_session xs Map.empty sid of None \<Rightarrow> False | Some (t, ws) \<Rightarrow> \<forall>w\<in>set ws. w \<le> sq)
   \<and> \<not> check_read_consistency ReadYourWrites None sq node (fold consistency_step xs (consistency_manager_new n))
   \<and> check_read_consistency MonotonicLevel s sq node (fold consistency_step xs (consistency_manager_new n))
       = (\<forall>v\<in>set (fold note_node xs (\<lambda>_. []) node). v \<le> sq)"
  using ryw_check[of sid sq node xs n] monotonic_check[of s sq node xs n] by (simp add: check_read_consistency_def)

theorem read_checks_exact_witness:
  "\<not> check_read_consistency ReadYourWrites (Some ''s'') 6 1
      (fold consistency_step [CreateSession 5 ''s'', SessionWrite ''s'' 7, NodeSequence 1 4, CleanupSessions 9 5] (consistency_manager_new 1))
   \<and> check_read_consistency MonotonicLevel None 4 1
      (fold consistency_step [CreateSession 5 ''s'', SessionWrite ''s'' 7, NodeSequence 1 4, CleanupSessions 9 5] (consistency_manager_new 1))"
proof -
  let ?xs = "[CreateSession 5 ''s'', SessionWrite ''s'' 7, NodeSequence 1 4, CleanupSessions 9 5]"
  have "(case fold note_session ?xs Map.empty ''s'' of None \<Rightarrow> False | Some (t, ws) \<Rightarrow> \<forall>w\<in>set ws. w \<le> 6) = False"
    "(\<forall>v\<in>set (fold note_node ?xs (\<lambda>_. []) 1). v \<le> 4) = True"
    by simp_all
  with read_checks_exact[of "''s''" 6 1 ?xs 1 None] read_checks_exact[of "''s''" 4 1 ?xs 1 None]
  show ?thesis by (simp only: simp_thms)
qed

text \<open>
  The time a session is judged by is that of its creation: no operation moves it, so a clean-up drops a
  session that is in use once it is older than the limit, and its reads fail from then on.
\<close>

lemma session_dropped_in_use:
  assumes "m = fold consistency_step (CreateSession t sid # map (SessionWrite sid) ws) (consistency_manager_new n)"
    and "t + int max_age \<le> now"
  shows "\<not> check_read_consistency ReadYourWrites (Some sid) sq node (fst (cleanup_expired_sessions now max_age m))"
proof -
  have S: "fold note_session (map (SessionWrite sid) ws) (S(sid \<mapsto> (t, vs))) sid = Some (t, rev ws @ vs)" for S vs
    by (induction ws arbitrary: S vs) (auto simp: fun_upd_twist)
  have m: "fst (cleanup_expired_sessions now max_age m) =
      fold consistency_step ((CreateSession t sid # map (SessionWrite sid) ws) @ [CleanupSessions now max_age]) (consistency_manager_new n)"
    using assms(1) by simp
  show ?thesis
    unfolding m ryw_check using S[of Map.empty "[]"] assms(2) by auto
qed

text \<open>Strong writes: a majority of the replicas each.\<close>

definition strong_acks :: "node_id set \<Rightarrow> node_id set \<Rightarrow> bool" where
  "strong_acks replicas A = (\<exists>ns sq. A = set ns \<and> distinct ns \<and> set ns \<subseteq> replicas \<and> finite replicas
     \<and> check_write_consistency Strong sq ns (card replicas))"

interpretation strong: intersecting_quorums strong_acks strong_acks
proof
  fix u A B assume "strong_acks u A" "strong_acks u B"
  then obtain as bs where a: "A = set as" "distinct as" "set as \<subseteq> u" "finite u" "card u div 2 + 1 \<le> length as"
    and b: "B = set bs" "distinct bs" "set bs \<subseteq> u" "card u div 2 + 1 \<le> length bs"
    by (auto simp: strong_acks_def check_write_consistency_def)
  have "card (A \<union> B) \<le> card u" using a b by (intro card_mono) auto
  moreover have "card A = length as" "card B = length bs" using a b by (auto simp: distinct_card)
  ultimately show "A \<inter> B \<noteq> {}" using a(5) b(4) card_Un_Int[of A B] a(1) b(1) by auto
qed

text \<open>
  strong writes are ordered by a common witness. Any two writes that pass the strong check
  with acknowledgements of distinct replicas were acknowledged by a common replica, so two versions that every
  acknowledging replica holds at most one of are the same; the other levels accept a single one.
\<close>

theorem strong_writes_share_replica:
  assumes "check_write_consistency Strong s1 as n" "check_write_consistency Strong s2 bs n"
    and "distinct as" "distinct bs" "set as \<subseteq> replicas" "set bs \<subseteq> replicas" "finite replicas" "card replicas = n"
  shows "set as \<inter> set bs \<noteq> {}"
  by (rule strong.intersect[of replicas]) (use assms in \<open>auto simp: strong_acks_def\<close>)

theorem strong_writes_share_replica_witness: "set [1, 2 :: node_id] \<inter> set [3, 2] \<noteq> {}"
  by (rule strong_writes_share_replica[of 0 "[1, 2]" 3 0 "[3, 2]" "{1, 2, 3}"]) (simp_all add: check_write_consistency_def)

text \<open>A wait ends as soon as a check of its loop finds the timeout passed, and succeeds exactly when the
  sequence number is reached in a poll before that.\<close>

lemma wait_returns:
  "\<exists>p\<in>set polls. timeout \<le> fst p \<Longrightarrow> \<exists>r. wait_for_consistency level target timeout polls = Some r"
proof -
  have "\<exists>p\<in>set polls. timeout \<le> fst p \<Longrightarrow> \<exists>r. wait_polls target timeout polls = Some r"
    by (induction target timeout polls rule: wait_polls.induct) auto
  then show "\<exists>p\<in>set polls. timeout \<le> fst p \<Longrightarrow> ?thesis"
    by (cases level) (auto simp: wait_for_consistency_def)
qed

lemma log_read_after_append:
  assumes "length entries < 2 ^ 64" "log_append e entries = (entries', sq)"
  shows "log_read_from sq entries' = [(sq, e)]"
  using assms by (auto simp: log_append_def log_read_from_def unat_of_nat take_bit_nat_eq_self Let_def)

lemma replication_config_default_valid: "replication_config_validate replication_config_default = Ok ()"
  by (simp add: replication_config_validate_def replication_config_default_def quorum_validate_def quorum_config_default_def)

end
