(* ===== verification/Replication.thy ===== *)
theory Replication
  imports Consistency
begin

text \<open>
  Replication, \<^verbatim>\<open>src/kaelix-storage/src/replication\<close>: the topology of replicas and the periodic failure
  check of \<^verbatim>\<open>manager.rs\<close>, the batches of \<^verbatim>\<open>protocol.rs\<close> and the recovery tasks of \<^verbatim>\<open>recovery.rs\<close>. The standard
  library's hasher, clock readings and floating-point operations are arguments. The locks of the
  recovery manager are taken one at a time, so a recovery is a sequence of atomic steps that other calls can
  come between: \<open>recovery_begin\<close>, \<open>recovery_progress\<close>, \<open>recovery_complete\<close>; \<open>start_recovery\<close> is their sequence
  when none does.
\<close>

section \<open>Replicas and the topology\<close>

datatype replica_role = PrimaryRole | SecondaryRole | ReadOnly | CatchingUp | FailedRole

definition role_can_write :: "replica_role \<Rightarrow> bool" where
  "role_can_write r = (r = PrimaryRole)"

definition role_can_read :: "replica_role \<Rightarrow> bool" where
  "role_can_read r = (r \<in> {PrimaryRole, SecondaryRole, ReadOnly})"

definition participates_in_consensus :: "replica_role \<Rightarrow> bool" where
  "participates_in_consensus r = (r \<in> {PrimaryRole, SecondaryRole})"

record replica_node =
  rn_node_id :: node_id
  rn_address :: string
  rn_role :: replica_role
  rn_last_sequence :: u64
  rn_last_heartbeat :: system_time
  rn_is_healthy :: bool
  rn_lag_ms :: u64
  rn_failure_count :: u32

definition replica_node_new :: "system_time \<Rightarrow> node_id \<Rightarrow> string \<Rightarrow> replica_role \<Rightarrow> replica_node" where
  "replica_node_new now n address role =
     \<lparr>rn_node_id = n, rn_address = address, rn_role = role, rn_last_sequence = 0, rn_last_heartbeat = now,
      rn_is_healthy = True, rn_lag_ms = 0, rn_failure_count = 0\<rparr>"

definition replica_update_health :: "system_time \<Rightarrow> u64 \<Rightarrow> replica_node \<Rightarrow> replica_node" where
  "replica_update_health now sq r =
     r\<lparr>rn_last_sequence := sq, rn_last_heartbeat := now, rn_is_healthy := True, rn_failure_count := 0\<rparr>"

definition replica_mark_failed :: "replica_node \<Rightarrow> replica_node" where
  "replica_mark_failed r = r\<lparr>rn_is_healthy := False, rn_failure_count := rn_failure_count r + 1\<rparr>"

definition is_lagging :: "u64 \<Rightarrow> u64 \<Rightarrow> replica_node \<Rightarrow> bool" where
  "is_lagging primary_sequence threshold_ms r =
     (0 < saturating_sub primary_sequence (rn_last_sequence r) \<and> threshold_ms < rn_lag_ms r)"

definition heartbeat_age :: "system_time \<Rightarrow> replica_node \<Rightarrow> duration" where
  "heartbeat_age now r = nat (now - rn_last_heartbeat r)"

record replication_topology =
  tp_primary :: "node_id option"
  tp_replicas :: "(node_id, replica_node) hash_map"
  tp_replication_factor :: usize
  tp_healthy_count :: usize
  tp_last_updated :: system_time

definition topology_new :: "system_time \<Rightarrow> usize \<Rightarrow> replication_topology" where
  "topology_new now factor =
     \<lparr>tp_primary = None, tp_replicas = [], tp_replication_factor = factor, tp_healthy_count = 0, tp_last_updated = now\<rparr>"

definition update_replica :: "system_time \<Rightarrow> replica_node \<Rightarrow> replication_topology \<Rightarrow> replication_topology" where
  "update_replica now r t =
     (let was_healthy = (case hm_get (tp_replicas t) (rn_node_id r) of None \<Rightarrow> False | Some q \<Rightarrow> rn_is_healthy q);
          t1 = (if rn_role r = PrimaryRole then t\<lparr>tp_primary := Some (rn_node_id r)\<rparr> else t);
          t2 = t1\<lparr>tp_replicas := hm_insert (rn_node_id r) r (tp_replicas t1)\<rparr>;
          t3 = (if rn_is_healthy r \<and> \<not> was_healthy then t2\<lparr>tp_healthy_count := tp_healthy_count t2 + 1\<rparr>
                else if \<not> rn_is_healthy r \<and> was_healthy then t2\<lparr>tp_healthy_count := tp_healthy_count t2 - 1\<rparr>
                else t2) in
      t3\<lparr>tp_last_updated := now\<rparr>)"

definition topology_remove_replica :: "system_time \<Rightarrow> node_id \<Rightarrow> replication_topology \<Rightarrow> replication_topology \<times> replica_node option" where
  "topology_remove_replica now n t =
     (case hm_get (tp_replicas t) n of
        None \<Rightarrow> (t, None)
      | Some r \<Rightarrow>
          (t\<lparr>tp_replicas := hm_remove n (tp_replicas t),
             tp_healthy_count := (if rn_is_healthy r then tp_healthy_count t - 1 else tp_healthy_count t),
             tp_primary := (if tp_primary t = Some n then None else tp_primary t),
             tp_last_updated := now\<rparr>, Some r))"

definition healthy_replicas :: "replication_topology \<Rightarrow> replica_node list" where
  "healthy_replicas t = filter rn_is_healthy (map snd (tp_replicas t))"

definition secondary_replicas :: "replication_topology \<Rightarrow> replica_node list" where
  "secondary_replicas t = filter (\<lambda>r. rn_role r = SecondaryRole \<and> rn_is_healthy r) (map snd (tp_replicas t))"

definition topology_has_quorum :: "replication_topology \<Rightarrow> bool" where
  "topology_has_quorum t = (tp_replication_factor t div 2 < tp_healthy_count t)"

definition get_primary :: "replication_topology \<Rightarrow> replica_node option" where
  "get_primary t = Option.bind (tp_primary t) (hm_get (tp_replicas t))"

text \<open>Below a replication factor of one the subtraction wraps and the healthy count is the limit.\<close>

definition select_target_replicas :: "consistency_level \<Rightarrow> replication_topology \<Rightarrow> node_id list" where
  "select_target_replicas level t =
     (if level = Strong then map rn_node_id (secondary_replicas t)
      else
        let target_count = (if tp_replication_factor t = 0 then tp_healthy_count t
                            else min (tp_replication_factor t - 1) (tp_healthy_count t)) in
        map rn_node_id (take target_count (secondary_replicas t)))"

text \<open>One tick of the recovery task: the replicas marked failed are changed in place; their ids go to the
  recovery manager.\<close>

definition recovery_tick :: "system_time \<Rightarrow> replication_config \<Rightarrow> replication_topology \<Rightarrow> replication_topology \<times> node_id list" where
  "recovery_tick now c t =
     (let late = (\<lambda>r. rp_heartbeat_interval c * 3 < heartbeat_age now r) in
      (t\<lparr>tp_replicas := map (\<lambda>(n, r). (n, if late r then replica_mark_failed r else r)) (tp_replicas t)\<rparr>,
       map rn_node_id (filter late (map snd (tp_replicas t)))))"

section \<open>Batches\<close>

record replication_entry =
  rpe_offset :: u64
  rpe_term :: u64
  rpe_data :: bytes
  rpe_checksum :: u64
  rpe_timestamp :: system_time
  rpe_metadata :: "(string, string) hash_map"

datatype batch_compression = BcNone | BcLz4 | BcZstd | BcSnappy

record replication_batch =
  rb_batch_id :: u64
  rb_start_offset :: u64
  rb_entries :: "replication_entry list"
  rb_total_size :: usize
  rb_compression :: "batch_compression option"
  rb_timestamp :: system_time

record replication_protocol =
  pr_config :: replication_config
  pr_next_batch_id :: u64
  pr_active_batches :: "(u64, replication_batch) hash_map"

record repl_batch_result =
  br_batch_id :: u64
  br_processed_entries :: usize
  br_failed_entries :: usize
  br_duplicate_entries :: usize
  br_success :: bool
  br_error_message :: "string option"

datatype process_result = Processed | Duplicate

definition protocol_new :: "replication_config \<Rightarrow> replication_protocol" where
  "protocol_new c = \<lparr>pr_config = c, pr_next_batch_id = 1, pr_active_batches = []\<rparr>"

definition protocol_clone :: "replication_protocol \<Rightarrow> replication_protocol" where
  "protocol_clone p = \<lparr>pr_config = pr_config p, pr_next_batch_id = pr_next_batch_id p, pr_active_batches = []\<rparr>"

definition create_batch :: "system_time \<Rightarrow> replication_entry list \<Rightarrow> replication_protocol \<Rightarrow> replication_protocol \<times> replication_batch" where
  "create_batch now entries p =
     (let total_size = sum_list (map (length \<circ> rpe_data) entries);
          batch = \<lparr>rb_batch_id = pr_next_batch_id p,
                   rb_start_offset = (case entries of [] \<Rightarrow> 0 | e # _ \<Rightarrow> rpe_offset e),
                   rb_entries = entries, rb_total_size = total_size,
                   rb_compression = (if rp_enable_compression (pr_config p) \<and> 1024 < total_size then Some BcLz4 else None),
                   rb_timestamp = now\<rparr> in
      (p\<lparr>pr_next_batch_id := pr_next_batch_id p + 1,
         pr_active_batches := hm_insert (pr_next_batch_id p) batch (pr_active_batches p)\<rparr>, batch))"

type_synonym entry_hasher = "u64 \<Rightarrow> u64 \<Rightarrow> bytes \<Rightarrow> u64"

definition calculate_entry_checksum :: "entry_hasher \<Rightarrow> replication_entry \<Rightarrow> u64" where
  "calculate_entry_checksum hash e = hash (rpe_offset e) (rpe_term e) (rpe_data e)"

fun ascending :: "replication_entry list \<Rightarrow> bool" where
  "ascending (a # b # es) = (rpe_offset a < rpe_offset b \<and> ascending (b # es))"
| "ascending _ = True"

definition verify_batch_integrity :: "entry_hasher \<Rightarrow> replication_batch \<Rightarrow> (unit, string) result" where
  "verify_batch_integrity hash b =
     (if rb_entries b = [] then Err ''Batch cannot be empty''
      else case find (\<lambda>e. calculate_entry_checksum hash e \<noteq> rpe_checksum e) (rb_entries b) of
        Some e \<Rightarrow>
          Err (''Checksum mismatch for entry at offset '' @ decimal (unat (rpe_offset e)) @ '': expected ''
            @ decimal (unat (rpe_checksum e)) @ '', got '' @ decimal (unat (calculate_entry_checksum hash e)))
      | None \<Rightarrow>
          if ascending (rb_entries b) then Ok ()
          else Err ''Batch entries must be in ascending order by offset'')"

definition process_entry :: "replication_entry \<Rightarrow> (process_result, string) result" where
  "process_entry e = (if rpe_offset e mod 100 = 0 then Ok Duplicate else Ok Processed)"

definition process_batch :: "entry_hasher \<Rightarrow> replication_batch \<Rightarrow> replication_protocol \<Rightarrow> replication_protocol \<times> repl_batch_result" where
  "process_batch hash b p =
     (case verify_batch_integrity hash b of
        Ok u \<Rightarrow>
          let rs = map process_entry (rb_entries b); failed = length (filter (\<lambda>r. \<not> is_ok r) rs) in
          (p\<lparr>pr_active_batches := hm_remove (rb_batch_id b) (pr_active_batches p)\<rparr>,
           \<lparr>br_batch_id = rb_batch_id b, br_processed_entries = length (filter (\<lambda>r. r = Ok Processed) rs),
            br_failed_entries = failed, br_duplicate_entries = length (filter (\<lambda>r. r = Ok Duplicate) rs),
            br_success = (failed = 0), br_error_message = None\<rparr>)
      | Err msg \<Rightarrow>
          (p, \<lparr>br_batch_id = rb_batch_id b, br_processed_entries = 0, br_failed_entries = length (rb_entries b),
               br_duplicate_entries = 0, br_success = False, br_error_message = Some msg\<rparr>)
      | Panic \<Rightarrow>
          (p, \<lparr>br_batch_id = rb_batch_id b, br_processed_entries = 0, br_failed_entries = length (rb_entries b),
               br_duplicate_entries = 0, br_success = False, br_error_message = None\<rparr>))"

text \<open>\<open>succeeds\<close> is what the simulation of the network says: a function of the thread, so the same for all replicas.\<close>

definition replicate_entry :: "system_time \<Rightarrow> bool \<Rightarrow> replication_entry \<Rightarrow> node_id list \<Rightarrow> replication_protocol
    \<Rightarrow> replication_protocol \<times> node_id list \<times> node_id list" where
  "replicate_entry now succeeds e targets p =
     (let (p1, b) = create_batch now [e] p in
      (p1, filter (\<lambda>_. succeeds) targets, filter (\<lambda>_. \<not> succeeds) targets))"

section \<open>Recovery tasks\<close>

datatype repl_recovery_strategy = Immediate | Gradual | Manual | Replace

datatype failure_type = NetworkFailure | NodeFailure | PerformanceDegradation | DataCorruption | ExcessiveLag

record 'f recovery_task =
  rt_task_id :: u64
  rt_replica_id :: node_id
  rt_failure_type :: failure_type
  rt_strategy :: repl_recovery_strategy
  rt_started_at :: instant
  rt_progress :: 'f
  rt_last_activity :: instant
  rt_error_count :: usize
  rt_max_errors :: usize

record 'f recovery_statistics =
  rs_total_recoveries :: u64
  rs_successful_recoveries :: u64
  rs_failed_recoveries :: u64
  rs_active_recoveries :: usize
  rs_avg_recovery_time :: duration
  rs_success_rate :: 'f

record 'f failure_thresholds =
  ft_max_heartbeat_misses :: u32
  ft_max_lag_offset :: u64
  ft_max_response_time :: duration
  ft_min_health_score :: 'f

record completed_recovery =
  cr_task_id :: u64
  cr_replica_id :: node_id
  cr_failure_type :: failure_type
  cr_strategy :: repl_recovery_strategy
  cr_started_at :: instant
  cr_completed_at :: instant
  cr_success :: bool
  cr_entries_recovered :: u64
  cr_error_count :: usize

record 'f recovery_manager =
  rm_local_node_id :: node_id
  rm_config :: replication_config
  rm_active_tasks :: "(u64, 'f recovery_task) hash_map"
  rm_history :: "completed_recovery list"
  rm_next_task_id :: u64
  rm_thresholds :: "'f failure_thresholds"
  rm_statistics :: "'f recovery_statistics"

definition failure_thresholds_default :: "'f float_ops \<Rightarrow> 'f failure_thresholds" where
  "failure_thresholds_default fl =
     \<lparr>ft_max_heartbeat_misses = 3, ft_max_lag_offset = 1000, ft_max_response_time = 5000 * 1000000,
      ft_min_health_score = fl_tenths fl 3\<rparr>"

definition recovery_manager_new :: "'f float_ops \<Rightarrow> node_id \<Rightarrow> replication_config \<Rightarrow> 'f recovery_manager" where
  "recovery_manager_new fl n c =
     \<lparr>rm_local_node_id = n, rm_config = c, rm_active_tasks = [], rm_history = [], rm_next_task_id = 1,
      rm_thresholds = failure_thresholds_default fl,
      rm_statistics = \<lparr>rs_total_recoveries = 0, rs_successful_recoveries = 0, rs_failed_recoveries = 0,
        rs_active_recoveries = 0, rs_avg_recovery_time = 0, rs_success_rate = fl_tenths fl 0\<rparr>\<rparr>"

definition detect_failure_type ::
    "'f float_ops \<Rightarrow> duration \<Rightarrow> u64 \<Rightarrow> 'f \<Rightarrow> duration \<Rightarrow> 'f recovery_manager \<Rightarrow> failure_type option" where
  "detect_failure_type fl since_heartbeat lag_offset health_score response_time m =
     (if rp_heartbeat_interval (rm_config m) * 3 < since_heartbeat then Some NetworkFailure
      else if ft_max_lag_offset (rm_thresholds m) < lag_offset then Some ExcessiveLag
      else if ft_max_response_time (rm_thresholds m) < response_time then Some PerformanceDegradation
      else if fl_less fl health_score (ft_min_health_score (rm_thresholds m)) then Some NodeFailure
      else None)"

fun select_recovery_strategy :: "failure_type \<Rightarrow> repl_recovery_strategy" where
  "select_recovery_strategy NetworkFailure = Immediate"
| "select_recovery_strategy ExcessiveLag = Gradual"
| "select_recovery_strategy PerformanceDegradation = Gradual"
| "select_recovery_strategy NodeFailure = Replace"
| "select_recovery_strategy DataCorruption = Manual"

definition recovery_begin :: "'f float_ops \<Rightarrow> instant \<Rightarrow> node_id \<Rightarrow> failure_type \<Rightarrow> 'f recovery_manager
    \<Rightarrow> 'f recovery_manager \<times> u64 \<times> 'f recovery_task option" where
  "recovery_begin fl now replica failure m =
     (case find (\<lambda>t. rt_replica_id t = replica) (map snd (rm_active_tasks m)) of
        Some t \<Rightarrow> (m, rt_task_id t, None)
      | None \<Rightarrow>
          let task = \<lparr>rt_task_id = rm_next_task_id m, rt_replica_id = replica, rt_failure_type = failure,
                      rt_strategy = select_recovery_strategy failure, rt_started_at = now, rt_progress = fl_tenths fl 0,
                      rt_last_activity = now, rt_error_count = 0, rt_max_errors = 5\<rparr>;
              st = rm_statistics m in
          (m\<lparr>rm_next_task_id := rm_next_task_id m + 1,
             rm_active_tasks := hm_insert (rm_next_task_id m) task (rm_active_tasks m),
             rm_statistics := st\<lparr>rs_total_recoveries := rs_total_recoveries st + 1,
               rs_active_recoveries := rs_active_recoveries st + 1\<rparr>\<rparr>,
           rm_next_task_id m, Some task))"

definition update_active_task :: "'f recovery_task \<Rightarrow> 'f recovery_manager \<Rightarrow> 'f recovery_manager" where
  "update_active_task task m = m\<lparr>rm_active_tasks := hm_insert (rt_task_id task) task (rm_active_tasks m)\<rparr>"

text \<open>The progress of each step of a strategy; a manual recovery has one step, which stays at zero.\<close>

fun strategy_progress :: "'f float_ops \<Rightarrow> repl_recovery_strategy \<Rightarrow> 'f list" where
  "strategy_progress fl Immediate = map (\<lambda>step. fl_div fl (fl_of_usize fl step) (fl_of_usize fl 10)) [1..<11]"
| "strategy_progress fl Gradual = map (\<lambda>step. fl_div fl (fl_of_usize fl step) (fl_of_usize fl 20)) [1..<21]"
| "strategy_progress fl Manual = [fl_tenths fl 0]"
| "strategy_progress fl Replace = map (\<lambda>step. fl_div fl (fl_of_usize fl step) (fl_of_usize fl 15)) [1..<16]"

definition recovery_progress :: "instant \<Rightarrow> 'f \<Rightarrow> 'f recovery_task \<times> 'f recovery_manager \<Rightarrow> 'f recovery_task \<times> 'f recovery_manager" where
  "recovery_progress now progress = (\<lambda>(task, m).
     let task1 = task\<lparr>rt_progress := progress, rt_last_activity := now\<rparr> in (task1, update_active_task task1 m))"

definition record_completed_recovery :: "completed_recovery \<Rightarrow> 'f recovery_manager \<Rightarrow> 'f recovery_manager" where
  "record_completed_recovery c m =
     m\<lparr>rm_history := (if 1000 \<le> length (rm_history m) then tl (rm_history m) else rm_history m) @ [c]\<rparr>"

definition update_success_rate :: "'f float_ops \<Rightarrow> 'f recovery_statistics \<Rightarrow> 'f recovery_statistics" where
  "update_success_rate fl st =
     (let total = rs_successful_recoveries st + rs_failed_recoveries st in
      if 0 < total
      then st\<lparr>rs_success_rate := fl_div fl (fl_of_usize fl (unat (rs_successful_recoveries st))) (fl_of_usize fl (unat total))\<rparr>
      else st)"

definition update_avg_recovery_time :: "'f float_ops \<Rightarrow> duration \<Rightarrow> 'f recovery_statistics \<Rightarrow> 'f recovery_statistics" where
  "update_avg_recovery_time fl recovery_time st =
     (if rs_successful_recoveries st + rs_failed_recoveries st = 1 then st\<lparr>rs_avg_recovery_time := recovery_time\<rparr>
      else
        let alpha = fl_tenths fl 1 in
        st\<lparr>rs_avg_recovery_time :=
             unat (fl_as_u64 fl (fl_add fl (fl_mul fl alpha (fl_of_usize fl recovery_time))
               (fl_mul fl (fl_sub fl (fl_tenths fl 10) alpha) (fl_of_usize fl (rs_avg_recovery_time st)))))\<rparr>)"

definition completed_of :: "instant \<Rightarrow> bool \<Rightarrow> u64 \<Rightarrow> 'f recovery_task \<Rightarrow> completed_recovery" where
  "completed_of now success entries task =
     \<lparr>cr_task_id = rt_task_id task, cr_replica_id = rt_replica_id task, cr_failure_type = rt_failure_type task,
      cr_strategy = rt_strategy task, cr_started_at = rt_started_at task, cr_completed_at = now,
      cr_success = success, cr_entries_recovered = entries, cr_error_count = rt_error_count task\<rparr>"

definition recovery_complete :: "'f float_ops \<Rightarrow> instant \<Rightarrow> bool \<Rightarrow> 'f recovery_task \<Rightarrow> 'f recovery_manager \<Rightarrow> 'f recovery_manager" where
  "recovery_complete fl now success task m =
     (let m1 = record_completed_recovery (completed_of now success (if success then 1000 else 0) task)
                 (m\<lparr>rm_active_tasks := hm_remove (rt_task_id task) (rm_active_tasks m)\<rparr>);
          st = (rm_statistics m1)\<lparr>rs_active_recoveries := rs_active_recoveries (rm_statistics m1) - 1\<rparr>;
          st1 = (if success then st\<lparr>rs_successful_recoveries := rs_successful_recoveries st + 1\<rparr>
                 else st\<lparr>rs_failed_recoveries := rs_failed_recoveries st + 1\<rparr>) in
      m1\<lparr>rm_statistics := update_avg_recovery_time fl (now - rt_started_at task) (update_success_rate fl st1)\<rparr>)"

text \<open>Every strategy returns \<open>Ok\<close>.\<close>

definition start_recovery :: "'f float_ops \<Rightarrow> (nat \<Rightarrow> instant) \<Rightarrow> node_id \<Rightarrow> failure_type \<Rightarrow> 'f recovery_manager \<Rightarrow> 'f recovery_manager \<times> u64" where
  "start_recovery fl clock replica failure m =
     (case recovery_begin fl (clock 0) replica failure m of
        (m1, task_id, None) \<Rightarrow> (m1, task_id)
      | (m1, task_id, Some task) \<Rightarrow>
          let ps = strategy_progress fl (rt_strategy task);
              (task2, m2) = fold (\<lambda>(k, p). recovery_progress (clock k) p) (enumerate 1 ps) (task, m1) in
          (recovery_complete fl (clock (length ps + 1)) True task2 m2, task_id))"

definition cancel_recovery :: "'f float_ops \<Rightarrow> instant \<Rightarrow> u64 \<Rightarrow> 'f recovery_manager \<Rightarrow> 'f recovery_manager" where
  "cancel_recovery fl now task_id m =
     (case hm_get (rm_active_tasks m) task_id of
        None \<Rightarrow> m
      | Some task \<Rightarrow>
          let m1 = record_completed_recovery (completed_of now False 0 task)
                     (m\<lparr>rm_active_tasks := hm_remove task_id (rm_active_tasks m)\<rparr>);
              st = rm_statistics m1 in
          m1\<lparr>rm_statistics := update_success_rate fl
               (st\<lparr>rs_active_recoveries := rs_active_recoveries st - 1,
                   rs_failed_recoveries := rs_failed_recoveries st + 1\<rparr>)\<rparr>)"

definition cleanup_stale_tasks :: "instant \<Rightarrow> 'f recovery_manager \<Rightarrow> 'f recovery_manager \<times> usize" where
  "cleanup_stale_tasks now m =
     (let kept = hm_retain (\<lambda>_ task. now - rt_last_activity task \<le> 3600 * 1000000000) (rm_active_tasks m) in
      (m\<lparr>rm_active_tasks := kept\<rparr>, length (rm_active_tasks m) - length kept))"

section \<open>The topology counts its healthy replicas\<close>

datatype topology_op = UpdateReplica system_time replica_node | RemoveReplica system_time node_id

fun topology_step :: "topology_op \<Rightarrow> replication_topology \<Rightarrow> replication_topology" where
  "topology_step (UpdateReplica now r) t = update_replica now r t"
| "topology_step (RemoveReplica now n) t = fst (topology_remove_replica now n t)"

definition healthy_ids :: "replication_topology \<Rightarrow> node_id set" where
  "healthy_ids t = {n. \<exists>r. hm_get (tp_replicas t) n = Some r \<and> rn_is_healthy r}"

definition topology_ok :: "replication_topology \<Rightarrow> bool" where
  "topology_ok t =
     (tp_healthy_count t = card (healthy_ids t)
      \<and> (\<forall>n r. hm_get (tp_replicas t) n = Some r \<longrightarrow> rn_node_id r = n)
      \<and> (\<forall>p. tp_primary t = Some p \<longrightarrow> p \<in> dom (hm_get (tp_replicas t))))"

lemma finite_healthy_ids [simp]: "finite (healthy_ids t)"
proof -
  have "healthy_ids t \<subseteq> dom (hm_get (tp_replicas t))" by (auto simp: healthy_ids_def)
  then show ?thesis by (rule finite_subset) (simp add: finite_dom_map_of)
qed

lemma healthy_ids_update:
  "healthy_ids (update_replica now r t) =
     (if rn_is_healthy r then insert (rn_node_id r) (healthy_ids t) else healthy_ids t - {rn_node_id r})"
  by (auto simp: healthy_ids_def update_replica_def Let_def split: if_splits)

lemma update_replica_count:
  "tp_healthy_count (update_replica now r t) =
     (if rn_is_healthy r \<and> rn_node_id r \<notin> healthy_ids t then tp_healthy_count t + 1
      else if \<not> rn_is_healthy r \<and> rn_node_id r \<in> healthy_ids t then tp_healthy_count t - 1
      else tp_healthy_count t)"
  by (auto simp: healthy_ids_def update_replica_def Let_def split: option.splits)

lemma update_replica_ok:
  assumes "topology_ok t"
  shows "topology_ok (update_replica now r t)"
proof -
  have count: "tp_healthy_count t = card (healthy_ids t)" using assms by (simp add: topology_ok_def)
  have "tp_healthy_count (update_replica now r t) = card (healthy_ids (update_replica now r t))"
    unfolding update_replica_count healthy_ids_update by (auto simp: count card_Diff_singleton insert_absorb)
  moreover have "hm_get (tp_replicas (update_replica now r t)) = (hm_get (tp_replicas t))(rn_node_id r \<mapsto> r)"
    "tp_primary (update_replica now r t) = (if rn_role r = PrimaryRole then Some (rn_node_id r) else tp_primary t)"
    by (auto simp: update_replica_def Let_def)
  ultimately show ?thesis using assms by (auto simp: topology_ok_def split: if_splits)
qed

lemma remove_replica_ok:
  assumes "topology_ok t"
  shows "topology_ok (fst (topology_remove_replica now n t))"
proof (cases "hm_get (tp_replicas t) n")
  case None
  with assms show ?thesis by (simp add: topology_remove_replica_def)
next
  case (Some r)
  let ?t = "fst (topology_remove_replica now n t)"
  have ids: "healthy_ids ?t = healthy_ids t - {n}" using Some by (auto simp: topology_remove_replica_def healthy_ids_def)
  have "n \<in> healthy_ids t \<longleftrightarrow> rn_is_healthy r" using Some by (simp add: healthy_ids_def)
  then have "tp_healthy_count ?t = card (healthy_ids ?t)"
    unfolding ids using assms Some by (auto simp: topology_remove_replica_def topology_ok_def card_Diff_singleton)
  then show ?thesis using assms Some by (auto simp: topology_ok_def topology_remove_replica_def)
qed

lemma topology_run_ok: "topology_ok t \<Longrightarrow> topology_ok (fold topology_step xs t)"
proof (induction xs arbitrary: t)
  case (Cons x xs)
  then show ?case by (cases x) (auto simp: update_replica_ok remove_replica_ok)
qed simp

text \<open>
  the topology's verdict on the quorum is exact as long as replicas change through it. After any
  updates and removals the healthy count is the number of healthy replicas, so there is a quorum exactly
  when more than half of the replication factor are healthy, and the primary, if one is named, is a
  replica of the topology.
\<close>

theorem topology_quorum_exact:
  "topology_has_quorum (fold topology_step xs (topology_new now factor)) \<longleftrightarrow>
     tp_replication_factor (fold topology_step xs (topology_new now factor)) div 2
       < card (healthy_ids (fold topology_step xs (topology_new now factor)))"
proof -
  have "topology_ok (topology_new now factor)" by (simp add: topology_ok_def topology_new_def healthy_ids_def)
  from topology_run_ok[OF this, of xs] show ?thesis by (simp add: topology_ok_def topology_has_quorum_def)
qed

text \<open>
  the periodic failure check bypasses the count. It marks replicas failed in place, so when the heartbeats of all
  replicas are overdue, none is healthy afterwards, and the topology still reports the quorum
  it had.
\<close>

theorem quorum_survives_all_failures:
  assumes "topology_has_quorum t" "\<forall>r\<in>set (map snd (tp_replicas t)). rp_heartbeat_interval c * 3 < heartbeat_age now r"
  shows "topology_has_quorum (fst (recovery_tick now c t)) \<and> healthy_replicas (fst (recovery_tick now c t)) = []"
  using assms by (auto simp: topology_has_quorum_def recovery_tick_def healthy_replicas_def replica_mark_failed_def Let_def
      filter_empty_conv)

definition sample_topology :: replication_topology where
  "sample_topology = fold topology_step
     [UpdateReplica 0 (replica_node_new 0 1 ''a'' PrimaryRole), UpdateReplica 0 (replica_node_new 0 2 ''b'' SecondaryRole)]
     (topology_new 0 3)"

theorem quorum_survives_all_failures_witness:
  "topology_has_quorum (fst (recovery_tick 5000000000 replication_config_default sample_topology))
   \<and> healthy_replicas (fst (recovery_tick 5000000000 replication_config_default sample_topology)) = []"
  by (rule quorum_survives_all_failures)
    (simp_all add: sample_topology_def topology_new_def update_replica_def replica_node_new_def topology_has_quorum_def
      replication_config_default_def heartbeat_age_def hm_insert_def Let_def)

section \<open>Batches\<close>

lemma ascending_sorted: "ascending es \<longleftrightarrow> sorted_wrt (<) (map rpe_offset es)"
  by (induction es rule: ascending.induct) (auto intro: less_trans)

lemma process_entry_counts:
  "length (filter (\<lambda>r. r = Ok Processed) (map process_entry es)) + length (filter (\<lambda>r. r = Ok Duplicate) (map process_entry es)) = length es"
  "filter (\<lambda>r. \<not> is_ok r) (map process_entry es) = []"
  by (induction es) (auto simp: process_entry_def)

lemma verify_batch_exact:
  "verify_batch_integrity hash b = Ok () \<longleftrightarrow> rb_entries b \<noteq> []
     \<and> (\<forall>e\<in>set (rb_entries b). calculate_entry_checksum hash e = rpe_checksum e)
     \<and> sorted_wrt (<) (map rpe_offset (rb_entries b))"
proof (cases "find (\<lambda>e. calculate_entry_checksum hash e \<noteq> rpe_checksum e) (rb_entries b)")
  case None
  then have "\<forall>e\<in>set (rb_entries b). calculate_entry_checksum hash e = rpe_checksum e" by (auto simp: find_None_iff)
  with None show ?thesis by (simp add: verify_batch_integrity_def ascending_sorted)
next
  case (Some e)
  then have "\<not> (\<forall>e\<in>set (rb_entries b). calculate_entry_checksum hash e = rpe_checksum e)"
    unfolding find_Some_iff using nth_mem by blast
  with Some show ?thesis by (auto simp: verify_batch_integrity_def)
qed

text \<open>
  a batch is accepted exactly when it is sound. Processing a batch reports success exactly when the
  batch has an entry, every checksum is that of the entry's offset, term and data, and the offsets
  strictly increase; the processed, duplicate and failed entries add up to its length in every case,
  and the batch stops being active exactly on success, so a rejected one stays active.
\<close>

theorem batch_verdict:
  assumes "process_batch hash b p = (p', r)"
  shows "(br_success r \<longleftrightarrow> rb_entries b \<noteq> [] \<and> (\<forall>e\<in>set (rb_entries b). calculate_entry_checksum hash e = rpe_checksum e)
         \<and> sorted_wrt (<) (map rpe_offset (rb_entries b)))
     \<and> br_processed_entries r + br_duplicate_entries r + br_failed_entries r = length (rb_entries b)
     \<and> hm_get (pr_active_batches p')
         = (if br_success r then (hm_get (pr_active_batches p))(rb_batch_id b := None) else hm_get (pr_active_batches p))"
proof -
  note ok = verify_batch_exact[of hash b]
  show ?thesis
  proof (cases "verify_batch_integrity hash b = Ok ()")
    case True
    then have r: "p' = p\<lparr>pr_active_batches := hm_remove (rb_batch_id b) (pr_active_batches p)\<rparr>" "br_success r" "br_failed_entries r = 0"
      "br_processed_entries r + br_duplicate_entries r = length (rb_entries b)"
      using assms process_entry_counts[of "rb_entries b"] by (auto simp: process_batch_def Let_def)
    with True ok show ?thesis by (simp add: fun_eq_iff)
  next
    case False
    then have "\<not> br_success r" "p' = p" "br_failed_entries r = length (rb_entries b)" "br_processed_entries r = 0"
        "br_duplicate_entries r = 0"
      using assms by (auto simp: process_batch_def split: result.splits)
    with False ok show ?thesis by simp
  qed
qed

definition sample_repl_entry :: "u64 \<Rightarrow> replication_entry" where
  "sample_repl_entry k = \<lparr>rpe_offset = k, rpe_term = 1, rpe_data = [1, 2], rpe_checksum = k + 3, rpe_timestamp = 0, rpe_metadata = []\<rparr>"

theorem batch_verdict_witness:
  "\<exists>p b p' r. create_batch 0 [sample_repl_entry 7, sample_repl_entry 100] (protocol_new replication_config_default) = (p, b)
     \<and> process_batch (\<lambda>off t d. off + t + of_nat (length d)) b p = (p', r)
     \<and> br_success r \<and> br_duplicate_entries r = 1 \<and> hm_get (pr_active_batches p') 1 = None"
proof -
  obtain p b where c: "create_batch 0 [sample_repl_entry 7, sample_repl_entry 100] (protocol_new replication_config_default) = (p, b)"
    by fastforce
  obtain p' r where d: "process_batch (\<lambda>off t d. off + t + of_nat (length d)) b p = (p', r)" by fastforce
  have b: "rb_entries b = [sample_repl_entry 7, sample_repl_entry 100]" "rb_batch_id b = 1"
    using c by (auto simp: create_batch_def protocol_new_def Let_def)
  have s: "br_success r" "hm_get (pr_active_batches p') 1 = None"
    using batch_verdict[OF d] by (simp_all add: b sample_repl_entry_def calculate_entry_checksum_def)
  have "br_duplicate_entries r = 1"
    using d s(1) by (auto simp: process_batch_def b process_entry_def sample_repl_entry_def Let_def split: result.splits)
  with c d s show ?thesis by blast
qed

text \<open>Replicating an entry leaves its batch active: nothing on the sender's side removes it.\<close>

lemma replicate_entry_leaks:
  assumes "replicate_entry now succeeds e targets p = (p', good, bad)"
  shows "hm_get (pr_active_batches p') (pr_next_batch_id p) \<noteq> None \<and> pr_next_batch_id p' = pr_next_batch_id p + 1
     \<and> good @ bad = targets"
  using assms by (cases succeeds) (auto simp: replicate_entry_def create_batch_def Let_def)

section \<open>Recovery tasks are accounted for, unless they are cancelled while they run\<close>

lemma record_completed_simps [simp]:
  "rm_active_tasks (record_completed_recovery c m) = rm_active_tasks m"
  "rm_statistics (record_completed_recovery c m) = rm_statistics m"
  "rm_next_task_id (record_completed_recovery c m) = rm_next_task_id m"
  by (simp_all add: record_completed_recovery_def)

lemma stats_updates [simp]:
  "rs_total_recoveries (update_success_rate fl st) = rs_total_recoveries st"
  "rs_successful_recoveries (update_success_rate fl st) = rs_successful_recoveries st"
  "rs_failed_recoveries (update_success_rate fl st) = rs_failed_recoveries st"
  "rs_active_recoveries (update_success_rate fl st) = rs_active_recoveries st"
  "rs_total_recoveries (update_avg_recovery_time fl d st) = rs_total_recoveries st"
  "rs_successful_recoveries (update_avg_recovery_time fl d st) = rs_successful_recoveries st"
  "rs_failed_recoveries (update_avg_recovery_time fl d st) = rs_failed_recoveries st"
  "rs_active_recoveries (update_avg_recovery_time fl d st) = rs_active_recoveries st"
  by (simp_all add: update_success_rate_def update_avg_recovery_time_def Let_def)

lemma progress_fold:
  assumes "hm_get (rm_active_tasks m) (rt_task_id task) = Some task"
    and "fold (\<lambda>(k, p). recovery_progress (clock k) p) kps (task, m) = (task', m')"
  shows "rt_task_id task' = rt_task_id task \<and> rm_statistics m' = rm_statistics m \<and> rm_next_task_id m' = rm_next_task_id m
     \<and> (\<forall>a. a \<noteq> rt_task_id task \<longrightarrow> hm_get (rm_active_tasks m') a = hm_get (rm_active_tasks m) a)"
  using assms
proof (induction kps arbitrary: task m)
  case (Cons kp kps)
  obtain k p where kp: "kp = (k, p)" by fastforce
  define task1 where "task1 = task\<lparr>rt_progress := p, rt_last_activity := clock k\<rparr>"
  have "recovery_progress (clock k) p (task, m) = (task1, update_active_task task1 m)"
    by (simp add: recovery_progress_def task1_def Let_def)
  moreover have "rt_task_id task1 = rt_task_id task" by (simp add: task1_def)
  ultimately show ?case
    using Cons.IH[of "update_active_task task1 m" task1] Cons.prems(2) by (simp add: kp update_active_task_def)
qed simp

text \<open>
  a recovery that runs undisturbed is accounted for. For every failure, and a replica without an active
  recovery, starting one returns a new task id and ends with the tasks that were active before, one more recovery in
  total and one more successful, none more failed and as many active as before. A manual recovery, which only
  asks for an operator, is counted as successful too.
\<close>

theorem start_recovery_accounts:
  assumes "\<forall>t\<in>set (map snd (rm_active_tasks m)). rt_replica_id t \<noteq> replica"
    and fresh: "hm_get (rm_active_tasks m) (rm_next_task_id m) = None"
    and run: "start_recovery fl clock replica failure m = (m', tid)"
  shows "tid = rm_next_task_id m \<and> hm_get (rm_active_tasks m') = hm_get (rm_active_tasks m)
     \<and> rs_total_recoveries (rm_statistics m') = rs_total_recoveries (rm_statistics m) + 1
     \<and> rs_successful_recoveries (rm_statistics m') = rs_successful_recoveries (rm_statistics m) + 1
     \<and> rs_failed_recoveries (rm_statistics m') = rs_failed_recoveries (rm_statistics m)
     \<and> rs_active_recoveries (rm_statistics m') = rs_active_recoveries (rm_statistics m)"
proof -
  have none: "find (\<lambda>t. rt_replica_id t = replica) (map snd (rm_active_tasks m)) = None"
    using assms(1) by (simp add: find_None_iff)
  obtain m1 task where b: "recovery_begin fl (clock 0) replica failure m = (m1, rm_next_task_id m, Some task)"
    and m1: "rt_task_id task = rm_next_task_id m" "hm_get (rm_active_tasks m1) = (hm_get (rm_active_tasks m))(rm_next_task_id m \<mapsto> task)"
      "rs_total_recoveries (rm_statistics m1) = rs_total_recoveries (rm_statistics m) + 1"
      "rs_successful_recoveries (rm_statistics m1) = rs_successful_recoveries (rm_statistics m)"
      "rs_failed_recoveries (rm_statistics m1) = rs_failed_recoveries (rm_statistics m)"
      "rs_active_recoveries (rm_statistics m1) = rs_active_recoveries (rm_statistics m) + 1"
    unfolding recovery_begin_def none by (auto simp: Let_def)
  let ?kps = "enumerate 1 (strategy_progress fl (rt_strategy task))"
  obtain task2 m2 where f: "fold (\<lambda>(k, p). recovery_progress (clock k) p) ?kps (task, m1) = (task2, m2)" by fastforce
  have "hm_get (rm_active_tasks m1) (rt_task_id task) = Some task" by (simp add: m1(1,2))
  note two = progress_fold[OF this f]
  have m': "m' = recovery_complete fl (clock (length (strategy_progress fl (rt_strategy task)) + 1)) True task2 m2" "tid = rm_next_task_id m"
    using run f by (simp_all add: start_recovery_def b Let_def)
  have "hm_get (rm_active_tasks m') = (hm_get (rm_active_tasks m2))(rm_next_task_id m := None)"
    using two m1(1) by (simp add: m' recovery_complete_def Let_def fun_eq_iff)
  also have "\<dots> = hm_get (rm_active_tasks m)" using two m1(1,2) fresh by (auto simp: fun_eq_iff)
  finally show ?thesis using two m1 by (simp add: m' recovery_complete_def Let_def)
qed

theorem start_recovery_accounts_witness:
  "\<exists>m'. start_recovery sample_floats id 5 DataCorruption (recovery_manager_new sample_floats 1 replication_config_default) = (m', 1)
     \<and> rs_successful_recoveries (rm_statistics m') = 1 \<and> hm_get (rm_active_tasks m') 1 = None"
proof -
  let ?m = "recovery_manager_new sample_floats 1 replication_config_default"
  obtain m' tid where r: "start_recovery sample_floats id 5 DataCorruption ?m = (m', tid)" by fastforce
  with start_recovery_accounts[OF _ _ r] show ?thesis by (simp add: recovery_manager_new_def)
qed

text \<open>
  a recovery cancelled while it runs comes back. The next step of the recovery makes the task active
  again, and its end counts it a second time: one recovery in total, one failed and one successful.
\<close>

theorem cancelled_recovery_counts_twice:
  assumes "recovery_begin fl t0 replica failure m = (m1, tid, Some task)"
    and "m2 = cancel_recovery fl t1 tid m1" "recovery_progress t2 p (task, m2) = (task3, m3)"
    and "m4 = recovery_complete fl t3 True task3 m3"
  shows "hm_get (rm_active_tasks m2) tid = None \<and> hm_get (rm_active_tasks m3) tid = Some task3
     \<and> rs_total_recoveries (rm_statistics m4) = rs_total_recoveries (rm_statistics m) + 1
     \<and> rs_failed_recoveries (rm_statistics m4) = rs_failed_recoveries (rm_statistics m) + 1
     \<and> rs_successful_recoveries (rm_statistics m4) = rs_successful_recoveries (rm_statistics m) + 1
     \<and> rs_active_recoveries (rm_statistics m4) = rs_active_recoveries (rm_statistics m) - 1"
proof -
  have m1: "rt_task_id task = tid" "hm_get (rm_active_tasks m1) tid = Some task"
      "rs_total_recoveries (rm_statistics m1) = rs_total_recoveries (rm_statistics m) + 1"
      "rs_successful_recoveries (rm_statistics m1) = rs_successful_recoveries (rm_statistics m)"
      "rs_failed_recoveries (rm_statistics m1) = rs_failed_recoveries (rm_statistics m)"
      "rs_active_recoveries (rm_statistics m1) = rs_active_recoveries (rm_statistics m) + 1"
    using assms(1) by (auto simp: recovery_begin_def Let_def split: option.splits)
  have m2: "hm_get (rm_active_tasks m2) tid = None"
      "rs_total_recoveries (rm_statistics m2) = rs_total_recoveries (rm_statistics m) + 1"
      "rs_successful_recoveries (rm_statistics m2) = rs_successful_recoveries (rm_statistics m)"
      "rs_failed_recoveries (rm_statistics m2) = rs_failed_recoveries (rm_statistics m) + 1"
      "rs_active_recoveries (rm_statistics m2) = rs_active_recoveries (rm_statistics m)"
    unfolding assms(2) using m1 by (simp_all add: cancel_recovery_def Let_def)
  have m3: "rt_task_id task3 = tid" "hm_get (rm_active_tasks m3) tid = Some task3" "rm_statistics m3 = rm_statistics m2"
    using assms(3) m1(1) by (auto simp: recovery_progress_def update_active_task_def Let_def)
  show ?thesis using m2 m3 by (simp add: assms(4) recovery_complete_def Let_def)
qed

theorem cancelled_recovery_counts_twice_witness:
  "\<exists>m1 task task3 m3. recovery_begin sample_floats 0 5 NodeFailure (recovery_manager_new sample_floats 1 replication_config_default)
        = (m1, 1, Some task)
     \<and> recovery_progress 2 7 (task, cancel_recovery sample_floats 1 1 m1) = (task3, m3)
     \<and> rs_failed_recoveries (rm_statistics (recovery_complete sample_floats 3 True task3 m3)) = 1
     \<and> rs_successful_recoveries (rm_statistics (recovery_complete sample_floats 3 True task3 m3)) = 1"
proof -
  let ?m = "recovery_manager_new sample_floats 1 replication_config_default"
  obtain m1 task where b: "recovery_begin sample_floats 0 5 NodeFailure ?m = (m1, 1, Some task)"
    by (auto simp: recovery_begin_def recovery_manager_new_def Let_def)
  obtain task3 m3 where g: "recovery_progress 2 7 (task, cancel_recovery sample_floats 1 1 m1) = (task3, m3)" by fastforce
  from cancelled_recovery_counts_twice[OF b refl g refl, of 3] b g show ?thesis
    by (auto simp: recovery_manager_new_def)
qed

text \<open>The history keeps the last thousand recoveries.\<close>

lemma history_bounded: "length (rm_history m) \<le> 1000 \<Longrightarrow> length (rm_history (record_completed_recovery c m)) \<le> 1000"
  by (auto simp: record_completed_recovery_def)

end
