(* ===== verification/Plugin_Lifecycle.thy ===== *)
theory Plugin_Lifecycle
  imports Clocks "HOL-Library.Sublist"
begin

text \<open>
  The life of a plugin, \<^verbatim>\<open>src/kaelix-core/src/plugin/lifecycle.rs\<close>: its states, the transitions between them, and
  restarts. The clock, floating-point operations and the power function of the back-off are arguments.
\<close>

section \<open>States\<close>

datatype plugin_state = Unloaded | Loading | Initializing | Running | Paused | Stopped | Reloading | Failed

definition default_plugin_state :: plugin_state where
  "default_plugin_state = Unloaded"

fun plugin_state_str :: "plugin_state \<Rightarrow> string" where
  "plugin_state_str Unloaded = ''Unloaded''"
| "plugin_state_str Loading = ''Loading''"
| "plugin_state_str Initializing = ''Initializing''"
| "plugin_state_str Running = ''Running''"
| "plugin_state_str Paused = ''Paused''"
| "plugin_state_str Stopped = ''Stopped''"
| "plugin_state_str Reloading = ''Reloading''"
| "plugin_state_str Failed = ''Failed''"

definition state_is_active :: "plugin_state \<Rightarrow> bool" where
  "state_is_active s = (s \<in> {Running, Paused})"

definition state_is_transitional :: "plugin_state \<Rightarrow> bool" where
  "state_is_transitional s = (s \<in> {Loading, Initializing, Reloading})"

definition state_is_terminal :: "plugin_state \<Rightarrow> bool" where
  "state_is_terminal s = (s \<in> {Stopped, Failed})"

fun valid_transitions :: "plugin_state \<Rightarrow> plugin_state list" where
  "valid_transitions Unloaded = [Loading]"
| "valid_transitions Loading = [Initializing, Failed]"
| "valid_transitions Initializing = [Running, Failed]"
| "valid_transitions Running = [Paused, Stopped, Reloading, Failed]"
| "valid_transitions Paused = [Running, Stopped, Failed]"
| "valid_transitions Stopped = [Loading]"
| "valid_transitions Reloading = [Running, Failed]"
| "valid_transitions Failed = [Loading]"

definition can_transition_to :: "plugin_state \<Rightarrow> plugin_state \<Rightarrow> bool" where
  "can_transition_to s target = (target \<in> set (valid_transitions s))"

section \<open>Restart policies\<close>

datatype 'f restart_policy =
    Never
  | Always u32 duration
  | OnFailure u32 duration 'f

definition policy_conservative :: "'f float_ops \<Rightarrow> 'f restart_policy" where
  "policy_conservative fl = OnFailure 3 (5000 * 1000000) (fl_tenths fl 20)"

definition policy_aggressive :: "'f restart_policy" where
  "policy_aggressive = Always 10 (1000 * 1000000)"

section \<open>The life-cycle manager\<close>

record lifecycle_stats =
  ls_state_transitions :: u64
  ls_forced_transitions :: u64
  ls_restart_attempts :: u64

record 'f plugin_lifecycle =
  pl_plugin_id :: string
  pl_current_state :: plugin_state
  pl_previous_state :: "plugin_state option"
  pl_restart_policy :: "'f restart_policy"
  pl_restart_attempts :: u32
  pl_last_restart :: "instant option"
  pl_created_at :: instant
  pl_stats :: lifecycle_stats

datatype lifecycle_error = InvalidStateTransition string string string

definition lifecycle_new :: "instant \<Rightarrow> string \<Rightarrow> 'f restart_policy \<Rightarrow> 'f plugin_lifecycle" where
  "lifecycle_new now pid policy =
     \<lparr>pl_plugin_id = pid, pl_current_state = Unloaded, pl_previous_state = None, pl_restart_policy = policy,
      pl_restart_attempts = 0, pl_last_restart = None, pl_created_at = now,
      pl_stats = \<lparr>ls_state_transitions = 0, ls_forced_transitions = 0, ls_restart_attempts = 0\<rparr>\<rparr>"

definition transition_to :: "plugin_state \<Rightarrow> 'f plugin_lifecycle \<Rightarrow> 'f plugin_lifecycle \<times> (unit, lifecycle_error) result" where
  "transition_to new_state l =
     (if \<not> can_transition_to (pl_current_state l) new_state
      then (l, Err (InvalidStateTransition (pl_plugin_id l) (plugin_state_str (pl_current_state l)) (plugin_state_str new_state)))
      else (l\<lparr>pl_previous_state := Some (pl_current_state l), pl_current_state := new_state,
              pl_stats := (pl_stats l)\<lparr>ls_state_transitions := ls_state_transitions (pl_stats l) + 1\<rparr>\<rparr>, Ok ()))"

definition force_transition_to :: "plugin_state \<Rightarrow> 'f plugin_lifecycle \<Rightarrow> 'f plugin_lifecycle" where
  "force_transition_to new_state l =
     l\<lparr>pl_previous_state := Some (pl_current_state l), pl_current_state := new_state,
       pl_stats := (pl_stats l)\<lparr>ls_forced_transitions := ls_forced_transitions (pl_stats l) + 1\<rparr>\<rparr>"

definition should_restart :: "'f plugin_lifecycle \<Rightarrow> bool" where
  "should_restart l =
     (case pl_restart_policy l of
        Never \<Rightarrow> False
      | Always max_attempts delay \<Rightarrow> pl_restart_attempts l < max_attempts
      | OnFailure max_attempts delay multiplier \<Rightarrow> pl_current_state l = Failed \<and> pl_restart_attempts l < max_attempts)"

definition get_restart_delay :: "'f float_ops \<Rightarrow> ('f \<Rightarrow> u32 \<Rightarrow> 'f) \<Rightarrow> 'f plugin_lifecycle \<Rightarrow> duration option" where
  "get_restart_delay fl power_fn l =
     (if \<not> should_restart l then None
      else case pl_restart_policy l of
        Never \<Rightarrow> None
      | Always max_attempts delay \<Rightarrow> Some delay
      | OnFailure max_attempts delay multiplier \<Rightarrow>
          Some (unat (fl_as_u64 fl (fl_mul fl (fl_of_usize fl (delay div 1000000)) (power_fn multiplier (pl_restart_attempts l)))) * 1000000))"

definition increment_restart_attempts :: "instant \<Rightarrow> 'f plugin_lifecycle \<Rightarrow> 'f plugin_lifecycle" where
  "increment_restart_attempts now l =
     l\<lparr>pl_restart_attempts := pl_restart_attempts l + 1, pl_last_restart := Some now,
       pl_stats := (pl_stats l)\<lparr>ls_restart_attempts := ls_restart_attempts (pl_stats l) + 1\<rparr>\<rparr>"

definition reset_restart_attempts :: "'f plugin_lifecycle \<Rightarrow> 'f plugin_lifecycle" where
  "reset_restart_attempts l = l\<lparr>pl_restart_attempts := 0, pl_last_restart := None\<rparr>"

definition lifecycle_is_healthy :: "'f plugin_lifecycle \<Rightarrow> bool" where
  "lifecycle_is_healthy l = (\<not> state_is_terminal (pl_current_state l) \<and> pl_restart_attempts l < 10)"

definition has_excessive_forced_transitions :: "'f float_ops \<Rightarrow> lifecycle_stats \<Rightarrow> bool" where
  "has_excessive_forced_transitions fl st =
     (if ls_state_transitions st = 0 then False
      else fl_less fl (fl_tenths fl 1)
        (fl_div fl (fl_of_usize fl (unat (ls_forced_transitions st))) (fl_of_usize fl (unat (ls_state_transitions st)))))"

section \<open>A plugin runs only after it was loaded and initialised\<close>

text \<open>The states a sequence of requested transitions passes through: a refused one changes nothing.\<close>

fun visited :: "plugin_state list \<Rightarrow> 'f plugin_lifecycle \<Rightarrow> plugin_state list" where
  "visited [] l = []"
| "visited (s # ss) l = (case transition_to s l of (l', Ok u) \<Rightarrow> s # visited ss l' | (l', _) \<Rightarrow> visited ss l')"

fun run_transitions :: "plugin_state list \<Rightarrow> 'f plugin_lifecycle \<Rightarrow> 'f plugin_lifecycle" where
  "run_transitions [] l = l"
| "run_transitions (s # ss) l = run_transitions ss (fst (transition_to s l))"

inductive life :: "plugin_state \<Rightarrow> plugin_state list \<Rightarrow> bool" where
  life_Nil: "life s []"
| life_Cons: "can_transition_to s t \<Longrightarrow> life t ss \<Longrightarrow> life s (t # ss)"

inductive_cases life_ConsE: "life s (t # ss)"

inductive_simps life_simps: "life s []" "life s (t # ss)"

lemma visited_life: "life (pl_current_state l) (visited ss l)"
proof (induction ss l rule: visited.induct)
  case (2 s ss l)
  then show ?case by (auto simp: transition_to_def intro: life.intros)
qed (simp add: life_Nil)

lemma life_snoc: "life s (xs @ [y]) \<Longrightarrow> life s xs \<and> can_transition_to (last (s # xs)) y"
  by (induction xs arbitrary: s) (auto simp: life_simps)

text \<open>What must have come before each state on a life that starts unloaded.\<close>

fun prerequisites :: "plugin_state \<Rightarrow> plugin_state list" where
  "prerequisites Unloaded = []"
| "prerequisites Loading = []"
| "prerequisites Initializing = [Loading]"
| "prerequisites Running = [Loading, Initializing]"
| "prerequisites Paused = [Loading, Initializing, Running]"
| "prerequisites Stopped = [Loading, Initializing, Running]"
| "prerequisites Reloading = [Loading, Initializing, Running]"
| "prerequisites Failed = [Loading]"

lemma life_last: "life s xs \<Longrightarrow> xs \<noteq> [] \<Longrightarrow> last xs \<noteq> Unloaded"
proof (induction rule: life.induct)
  case (life_Cons s t ss)
  have "t \<noteq> Unloaded" using life_Cons.hyps(1) by (cases s) (auto simp: can_transition_to_def)
  with life_Cons show ?case by simp
qed simp

lemma prerequisites_step:
  assumes "can_transition_to s t" "s \<noteq> Unloaded" "subseq (prerequisites s) xs"
  shows "subseq (prerequisites t) (xs @ [s])"
proof -
  have step: "subseq (prerequisites s @ [s]) (xs @ [s])" using assms(3) by (intro list_emb_append_mono) auto
  moreover have sub: "subseq (prerequisites s) (xs @ [s])" using assms(3) by (rule subseq_order.order_trans) (rule subseq_rev_drop_many, simp)
  moreover have "subseq (prerequisites t) (prerequisites s @ [s]) \<or> subseq (prerequisites t) (prerequisites s)"
    using assms(1,2) by (cases s) (auto simp: can_transition_to_def)
  ultimately show ?thesis using subseq_order.order_trans by blast
qed

lemma life_prerequisites: "life Unloaded (xs @ [s]) \<Longrightarrow> subseq (prerequisites s) xs"
proof (induction xs arbitrary: s rule: rev_induct)
  case Nil
  then show ?case by (auto simp: life_simps can_transition_to_def)
next
  case (snoc x xs)
  have life: "life Unloaded (xs @ [x])" "can_transition_to x s" using life_snoc[OF snoc.prems] by simp_all
  then have "x \<noteq> Unloaded" using life_last[OF life(1)] by simp
  with snoc.IH[OF life(1)] life(2) show ?case by (intro prerequisites_step)
qed

lemma life_prefix: "life s (xs @ ys) \<Longrightarrow> life s xs"
  by (induction xs arbitrary: s) (auto simp: life_simps)

lemma visited_last: "pl_current_state (run_transitions ss l) = last (pl_current_state l # visited ss l)"
  by (induction ss l rule: visited.induct) (auto simp: transition_to_def)

lemma visited_count:
  "ls_state_transitions (pl_stats (run_transitions ss l)) = ls_state_transitions (pl_stats l) + of_nat (length (visited ss l))"
  by (induction ss l rule: visited.induct) (auto simp: transition_to_def)

text \<open>
  a plugin runs only after it was loaded and initialised. Whatever transitions are requested of a new plugin,
  in any order, every state it comes to is preceded by what that state needs: initialising by loading, running by
  loading and initialising in this order, and pausing, stopping and reloading by running as well; a refused
  request leaves the plugin as it is, and the statistics count exactly the accepted ones.
\<close>

theorem plugin_life_ordered:
  assumes "l = lifecycle_new now pid policy"
  shows "(visited ss l = before @ s # after \<longrightarrow> subseq (prerequisites s) before)
     \<and> pl_current_state (run_transitions ss l) = last (Unloaded # visited ss l)
     \<and> ls_state_transitions (pl_stats (run_transitions ss l)) = of_nat (length (visited ss l))"
proof -
  have "subseq (prerequisites s) before" if v: "visited ss l = before @ s # after"
  proof -
    have "life Unloaded (before @ s # after)" using visited_life[of l ss] v by (simp add: assms lifecycle_new_def)
    then have "life Unloaded (before @ [s])" using life_prefix[of Unloaded "before @ [s]" after] by simp
    then show ?thesis by (rule life_prerequisites)
  qed
  then show ?thesis using visited_last[of ss l] visited_count[of ss l] by (simp add: assms lifecycle_new_def)
qed

theorem plugin_life_ordered_witness:
  "subseq [Loading, Initializing] [Loading, Initializing, Running, Paused]
   \<and> visited [Running, Loading, Initializing, Paused, Running, Paused, Running]
       (lifecycle_new 0 ''p'' (Never :: int restart_policy)) = [Loading, Initializing, Running, Paused, Running]"
proof -
  let ?v = "visited [Running, Loading, Initializing, Paused, Running, Paused, Running] (lifecycle_new 0 ''p'' (Never :: int restart_policy))"
  have v: "?v = [Loading, Initializing, Running, Paused] @ Running # []"
    by (simp add: lifecycle_new_def transition_to_def can_transition_to_def)
  with plugin_life_ordered[OF refl, of "[Running, Loading, Initializing, Paused, Running, Paused, Running]" 0 "''p''" Never
      "[Loading, Initializing, Running, Paused]" Running "[]"]
  show ?thesis by simp
qed

text \<open>From every state a plugin can be brought to run again.\<close>

lemma running_reachable: "\<exists>ss. life s (ss @ [Running]) \<and> length ss \<le> 2"
proof (cases s)
  case Unloaded
  then show ?thesis by (intro exI[of _ "[Loading, Initializing]"]) (auto simp: life_simps can_transition_to_def)
next
  case Loading
  then show ?thesis by (intro exI[of _ "[Initializing]"]) (auto simp: life_simps can_transition_to_def)
next
  case Running
  then show ?thesis by (intro exI[of _ "[Paused]"]) (auto simp: life_simps can_transition_to_def)
next
  case Stopped
  then show ?thesis by (intro exI[of _ "[Loading, Initializing]"]) (auto simp: life_simps can_transition_to_def)
next
  case Failed
  then show ?thesis by (intro exI[of _ "[Loading, Initializing]"]) (auto simp: life_simps can_transition_to_def)
qed (auto intro!: exI[of _ "[]"] simp: life_simps can_transition_to_def)

section \<open>Restarts are bounded\<close>

text \<open>A supervisor that restarts whenever the policy says so; the result is the number of restarts.\<close>

fun supervise :: "instant list \<Rightarrow> 'f plugin_lifecycle \<Rightarrow> 'f plugin_lifecycle \<times> nat" where
  "supervise [] l = (l, 0)"
| "supervise (now # ts) l =
     (if should_restart l
      then (let (l', n) = supervise ts (increment_restart_attempts now l) in (l', n + 1))
      else supervise ts l)"

fun max_attempts_of :: "'f restart_policy \<Rightarrow> u32" where
  "max_attempts_of Never = 0"
| "max_attempts_of (Always m d) = m"
| "max_attempts_of (OnFailure m d f) = m"

lemma should_restart_below: "should_restart l \<Longrightarrow> pl_restart_attempts l < max_attempts_of (pl_restart_policy l)"
  by (auto simp: should_restart_def split: restart_policy.splits)

lemma increment_attempts:
  assumes "should_restart l"
  shows "unat (pl_restart_attempts (increment_restart_attempts now l)) = Suc (unat (pl_restart_attempts l))"
    "pl_restart_policy (increment_restart_attempts now l) = pl_restart_policy l"
    "pl_current_state (increment_restart_attempts now l) = pl_current_state l"
proof -
  have "unat (pl_restart_attempts l) < unat (max_attempts_of (pl_restart_policy l))"
    using should_restart_below[OF assms] by (simp add: word_less_nat_alt)
  moreover have "unat (max_attempts_of (pl_restart_policy l)) < 2 ^ 32" using unsigned_less[of "max_attempts_of (pl_restart_policy l)"] by simp
  ultimately have "Suc (unat (pl_restart_attempts l)) < 2 ^ LENGTH(32)" by simp
  from unat_plus_one[OF this] show "unat (pl_restart_attempts (increment_restart_attempts now l)) = Suc (unat (pl_restart_attempts l))"
    by (simp add: increment_restart_attempts_def)
qed (simp_all add: increment_restart_attempts_def)

lemma supervise_count:
  assumes "supervise ts l = (l', n)"
  shows "n \<le> unat (max_attempts_of (pl_restart_policy l)) - unat (pl_restart_attempts l)
     \<and> (pl_current_state l = Failed \<and> pl_restart_policy l \<noteq> Never \<longrightarrow>
          n = min (length ts) (unat (max_attempts_of (pl_restart_policy l)) - unat (pl_restart_attempts l)))"
  using assms
proof (induction ts arbitrary: l n)
  case (Cons now ts)
  show ?case
  proof (cases "should_restart l")
    case True
    obtain m where m: "supervise ts (increment_restart_attempts now l) = (l', m)" "n = m + 1"
      using Cons.prems True by (auto split: prod.splits)
    note inc = increment_attempts[OF True, of now]
    have "unat (pl_restart_attempts l) < unat (max_attempts_of (pl_restart_policy l))"
      using should_restart_below[OF True] by (simp add: word_less_nat_alt)
    with Cons.IH[OF m(1)] inc m(2) show ?thesis by auto
  next
    case False
    then have r: "supervise ts l = (l', n)" using Cons.prems by simp
    have "unat (max_attempts_of (pl_restart_policy l)) \<le> unat (pl_restart_attempts l)"
      if "pl_current_state l = Failed" "pl_restart_policy l \<noteq> Never"
      using False that by (auto simp: should_restart_def not_less word_le_nat_alt split: restart_policy.splits)
    with Cons.IH[OF r] show ?thesis by auto
  qed
qed simp

text \<open>
  restarts are bounded by the policy. However often a new plugin is supervised, it is restarted at most as
  often as its policy allows; and a failed plugin is restarted each time until that number is reached.
\<close>

theorem restarts_bounded:
  assumes "supervise ts (force_transition_to s (lifecycle_new now pid policy)) = (l', n)"
  shows "n \<le> unat (max_attempts_of policy)
     \<and> (s = Failed \<and> policy \<noteq> Never \<longrightarrow> n = min (length ts) (unat (max_attempts_of policy)))"
  using supervise_count[OF assms] by (simp add: force_transition_to_def lifecycle_new_def)

theorem restarts_bounded_witness:
  "snd (supervise [1, 2, 3, 4, 5] (force_transition_to Failed (lifecycle_new 0 ''p'' (policy_conservative sample_floats)))) = 3"
proof -
  let ?l = "force_transition_to Failed (lifecycle_new 0 ''p'' (policy_conservative sample_floats))"
  obtain l' n where s: "supervise [1, 2, 3, 4, 5] ?l = (l', n)" by fastforce
  have "n = 3" using restarts_bounded[OF s] by (simp add: policy_conservative_def)
  then show ?thesis by (simp only: s snd_conv)
qed

text \<open>The policy named \<open>Always\<close> asks for a restart in every state, not only after a failure.\<close>

lemma always_restarts_running: "0 < m \<Longrightarrow> should_restart (force_transition_to Running (lifecycle_new now pid (Always m d)))"
  by (simp add: should_restart_def force_transition_to_def lifecycle_new_def)

end
