(* ===== verification/Plugin_Registry.thy ===== *)
theory Plugin_Registry
  imports Clocks
begin

text \<open>
  The registry of plugins, \<^verbatim>\<open>src/kaelix-core/src/plugin/registry.rs\<close>. What the loader, the security policy and
  the plugins themselves answer is an argument of each operation (\<open>None\<close> where the call times out), as are the
  clock and the random id of a new entry. A plugin and its metadata other than the name are opaque.
\<close>

section \<open>Entries\<close>

type_synonym uuid = "128 word"

datatype entry_state = EsRegistered | EsInitializing | EsActive | EsPaused | EsStopping | EsStopped | EsError

datatype registry_error = RegConfiguration string | RegPlugin string

datatype registry_event =
    PluginRegistered uuid string instant
  | PluginUnregistered uuid instant

record 'p plugin_entry =
  pe_id :: uuid
  pe_plugin :: 'p
  pe_name :: string
  pe_state :: entry_state
  pe_registered_at :: instant
  pe_last_activity :: instant
  pe_error_count :: u64

definition plugin_entry_new :: "instant \<Rightarrow> uuid \<Rightarrow> 'p \<Rightarrow> string \<Rightarrow> 'p plugin_entry" where
  "plugin_entry_new now i plugin name =
     \<lparr>pe_id = i, pe_plugin = plugin, pe_name = name, pe_state = EsRegistered, pe_registered_at = now,
      pe_last_activity = now, pe_error_count = 0\<rparr>"

definition set_entry_state :: "instant \<Rightarrow> entry_state \<Rightarrow> 'p plugin_entry \<Rightarrow> 'p plugin_entry" where
  "set_entry_state now new_state e = e\<lparr>pe_state := new_state, pe_last_activity := now\<rparr>"

definition increment_error_count :: "'p plugin_entry \<Rightarrow> 'p plugin_entry" where
  "increment_error_count e = e\<lparr>pe_error_count := pe_error_count e + 1\<rparr>"

section \<open>Dependencies\<close>

record dependency_graph =
  dg_dependencies :: "(uuid, uuid list) hash_map"
  dg_dependents :: "(uuid, uuid list) hash_map"

definition empty_graph :: dependency_graph where
  "empty_graph = \<lparr>dg_dependencies = [], dg_dependents = []\<rparr>"

definition add_dependency :: "uuid \<Rightarrow> uuid \<Rightarrow> dependency_graph \<Rightarrow> dependency_graph" where
  "add_dependency p d g =
     \<lparr>dg_dependencies = hm_insert p (hm_get_or [] (dg_dependencies g) p @ [d]) (dg_dependencies g),
      dg_dependents = hm_insert d (hm_get_or [] (dg_dependents g) d @ [p]) (dg_dependents g)\<rparr>"

definition get_dependencies :: "uuid \<Rightarrow> dependency_graph \<Rightarrow> uuid list" where
  "get_dependencies p g = hm_get_or [] (dg_dependencies g) p"

definition get_dependents :: "uuid \<Rightarrow> dependency_graph \<Rightarrow> uuid list" where
  "get_dependents d g = hm_get_or [] (dg_dependents g) d"

definition has_cycles :: "dependency_graph \<Rightarrow> bool" where
  "has_cycles g = False"

definition get_startup_order :: "dependency_graph \<Rightarrow> uuid list" where
  "get_startup_order g = hm_keys (dg_dependencies g)"

section \<open>The registry\<close>

record plugin_registry_config =
  prc_max_plugins :: usize
  prc_init_timeout :: duration
  prc_shutdown_timeout :: duration
  prc_event_buffer_size :: usize
  prc_enforce_security :: bool
  prc_enable_hot_reload :: bool
  prc_health_check_interval :: duration
  prc_max_plugin_errors :: u64

definition plugin_registry_config_default :: plugin_registry_config where
  "plugin_registry_config_default =
     \<lparr>prc_max_plugins = 1000, prc_init_timeout = 30 * 1000000000, prc_shutdown_timeout = 10 * 1000000000,
      prc_event_buffer_size = 10000, prc_enforce_security = True, prc_enable_hot_reload = False,
      prc_health_check_interval = 60 * 1000000000, prc_max_plugin_errors = 10\<rparr>"

record 'p plugin_registry =
  pg_config :: plugin_registry_config
  pg_plugins :: "(uuid, 'p plugin_entry) hash_map"
  pg_names :: "(string, uuid) hash_map"
  pg_graph :: dependency_graph
  pg_events :: "registry_event list"
  pg_total_plugins :: usize
  pg_active_plugins :: usize
  pg_is_running :: bool

definition plugin_registry_new :: "plugin_registry_config \<Rightarrow> 'p plugin_registry" where
  "plugin_registry_new c =
     \<lparr>pg_config = c, pg_plugins = [], pg_names = [], pg_graph = empty_graph, pg_events = [], pg_total_plugins = 0,
      pg_active_plugins = 0, pg_is_running = False\<rparr>"

definition modify_entry :: "uuid \<Rightarrow> ('p plugin_entry \<Rightarrow> 'p plugin_entry) \<Rightarrow> 'p plugin_registry \<Rightarrow> 'p plugin_registry" where
  "modify_entry i f r =
     (case hm_get (pg_plugins r) i of None \<Rightarrow> r | Some e \<Rightarrow> r\<lparr>pg_plugins := hm_insert i (f e) (pg_plugins r)\<rparr>)"

definition plugin_not_found :: "(uuid \<Rightarrow> string) \<Rightarrow> uuid \<Rightarrow> registry_error" where
  "plugin_not_found show_id i = RegConfiguration (''Plugin '' @ show_id i @ '' not found'')"

text \<open>\<open>loaded\<close>: the loader's answer; \<open>context\<close>: whether the policy makes a security context for the plugin.\<close>

definition register_plugin_from_path ::
    "instant \<Rightarrow> uuid \<Rightarrow> ('p \<times> string, string) result option \<Rightarrow> (unit, string) result \<Rightarrow> 'p plugin_registry
      \<Rightarrow> 'p plugin_registry \<times> (uuid, registry_error) result" where
  "register_plugin_from_path now i loaded context_result r =
     (if prc_max_plugins (pg_config r) \<le> length (pg_plugins r)
      then (r, Err (RegConfiguration ''Maximum number of plugins reached''))
      else case loaded of
        None \<Rightarrow> (r, Err (RegConfiguration ''Plugin load timeout''))
      | Some (Err msg) \<Rightarrow> (r, Err (RegPlugin msg))
      | Some Panic \<Rightarrow> (r, Panic)
      | Some (Ok (plugin, name)) \<Rightarrow>
          (case context_result of
             Err msg \<Rightarrow> (r, Err (RegPlugin msg))
           | Panic \<Rightarrow> (r, Panic)
           | Ok u \<Rightarrow>
               if hm_get (pg_names r) name \<noteq> None
               then (r, Err (RegConfiguration (''Plugin with name '' @ [CHR 0x27] @ name @ [CHR 0x27] @ '' is already registered'')))
               else (r\<lparr>pg_plugins := hm_insert i (plugin_entry_new now i plugin name) (pg_plugins r),
                       pg_names := hm_insert name i (pg_names r),
                       pg_total_plugins := pg_total_plugins r + 1,
                       pg_events := pg_events r @ [PluginRegistered i name now]\<rparr>, Ok i)))"

definition start_plugin :: "(uuid \<Rightarrow> string) \<Rightarrow> instant \<Rightarrow> uuid \<Rightarrow> (unit, string) result option \<Rightarrow> 'p plugin_registry
    \<Rightarrow> 'p plugin_registry \<times> (unit, registry_error) result" where
  "start_plugin show_id now i initialized r =
     (case hm_get (pg_plugins r) i of
        None \<Rightarrow> (r, Err (plugin_not_found show_id i))
      | Some e \<Rightarrow>
          if pe_state e = EsActive then (r, Ok ())
          else
            let r1 = modify_entry i (set_entry_state now EsInitializing) r in
            (case initialized of
               Some (Ok u) \<Rightarrow>
                 ((modify_entry i (set_entry_state now EsActive) r1)\<lparr>pg_active_plugins := pg_active_plugins r1 + 1\<rparr>, Ok ())
             | Some (Err msg) \<Rightarrow>
                 (modify_entry i (increment_error_count \<circ> set_entry_state now EsError) r1, Err (RegPlugin msg))
             | Some Panic \<Rightarrow> (r1, Panic)
             | None \<Rightarrow>
                 (modify_entry i (increment_error_count \<circ> set_entry_state now EsError) r1,
                  Err (RegConfiguration ''Plugin initialization timeout''))))"

definition stop_plugin :: "(uuid \<Rightarrow> string) \<Rightarrow> instant \<Rightarrow> uuid \<Rightarrow> (unit, string) result option \<Rightarrow> 'p plugin_registry
    \<Rightarrow> 'p plugin_registry \<times> (unit, registry_error) result" where
  "stop_plugin show_id now i stopped r =
     (case hm_get (pg_plugins r) i of
        None \<Rightarrow> (r, Err (plugin_not_found show_id i))
      | Some e \<Rightarrow>
          if pe_state e = EsStopped then (r, Ok ())
          else
            let r1 = modify_entry i (set_entry_state now EsStopping) r in
            (case stopped of
               Some (Ok u) \<Rightarrow>
                 ((modify_entry i (set_entry_state now EsStopped) r1)\<lparr>pg_active_plugins := pg_active_plugins r1 - 1\<rparr>, Ok ())
             | Some (Err msg) \<Rightarrow>
                 (modify_entry i (increment_error_count \<circ> set_entry_state now EsError) r1, Err (RegPlugin msg))
             | Some Panic \<Rightarrow> (r1, Panic)
             | None \<Rightarrow>
                 (modify_entry i (increment_error_count \<circ> set_entry_state now EsError) r1,
                  Err (RegConfiguration ''Plugin shutdown timeout''))))"

definition unregister_plugin :: "(uuid \<Rightarrow> string) \<Rightarrow> instant \<Rightarrow> uuid \<Rightarrow> (unit, string) result option \<Rightarrow> 'p plugin_registry
    \<Rightarrow> 'p plugin_registry \<times> (unit, registry_error) result" where
  "unregister_plugin show_id now i stopped r =
     (case hm_get (pg_plugins r) i of
        None \<Rightarrow> (r, Err (plugin_not_found show_id i))
      | Some e \<Rightarrow>
          (case (if pe_state e = EsActive then stop_plugin show_id now i stopped r else (r, Ok ())) of
             (r1, Err x) \<Rightarrow> (r1, Err x)
           | (r1, Panic) \<Rightarrow> (r1, Panic)
           | (r1, Ok u) \<Rightarrow>
               (r1\<lparr>pg_plugins := hm_remove i (pg_plugins r1), pg_names := hm_remove (pe_name e) (pg_names r1),
                   pg_total_plugins := pg_total_plugins r1 - 1,
                   pg_events := pg_events r1 @ [PluginUnregistered i now]\<rparr>, Ok ())))"

definition get_plugin :: "uuid \<Rightarrow> 'p plugin_registry \<Rightarrow> 'p plugin_entry option" where
  "get_plugin i r = hm_get (pg_plugins r) i"

definition get_plugin_by_name :: "string \<Rightarrow> 'p plugin_registry \<Rightarrow> 'p plugin_entry option" where
  "get_plugin_by_name name r = Option.bind (hm_get (pg_names r) name) (hm_get (pg_plugins r))"

definition list_plugins :: "'p plugin_registry \<Rightarrow> 'p plugin_entry list" where
  "list_plugins r = map snd (pg_plugins r)"

definition registry_stats :: "'p plugin_registry \<Rightarrow> usize \<times> usize \<times> usize" where
  "registry_stats r =
     (length (pg_plugins r),
      length (filter (\<lambda>e. pe_state e = EsActive) (list_plugins r)),
      length (filter (\<lambda>e. pe_state e = EsError) (list_plugins r)))"

text \<open>The answers of the plugins to being stopped are a function of the id.\<close>

definition stop_all_plugins :: "(uuid \<Rightarrow> string) \<Rightarrow> instant \<Rightarrow> (uuid \<Rightarrow> (unit, string) result option) \<Rightarrow> 'p plugin_registry \<Rightarrow> 'p plugin_registry" where
  "stop_all_plugins show_id now answers r =
     fold (\<lambda>i r. fst (stop_plugin show_id now i (answers i) r)) (hm_keys (pg_plugins r)) r"

definition registry_start :: "'p plugin_registry \<Rightarrow> 'p plugin_registry \<times> (unit, registry_error) result" where
  "registry_start r =
     (if pg_is_running r then (r, Err (RegConfiguration ''Plugin registry is already running''))
      else (r\<lparr>pg_is_running := True\<rparr>, Ok ()))"

definition registry_stop :: "(uuid \<Rightarrow> string) \<Rightarrow> instant \<Rightarrow> (uuid \<Rightarrow> (unit, string) result option) \<Rightarrow> 'p plugin_registry
    \<Rightarrow> 'p plugin_registry \<times> (unit, registry_error) result" where
  "registry_stop show_id now answers r =
     (if \<not> pg_is_running r then (r, Ok ())
      else (stop_all_plugins show_id now answers (r\<lparr>pg_is_running := False\<rparr>), Ok ()))"

section \<open>Names, ids and the bound\<close>

datatype 'p plugin_registry_op =
    Register instant uuid "('p \<times> string, string) result option" "(unit, string) result"
  | Unregister instant uuid "(unit, string) result option"
  | StartPlugin instant uuid "(unit, string) result option"
  | StopPlugin instant uuid "(unit, string) result option"
  | StartRegistry
  | StopRegistry instant "uuid \<Rightarrow> (unit, string) result option"

fun plugin_registry_step :: "(uuid \<Rightarrow> string) \<Rightarrow> 'p plugin_registry_op \<Rightarrow> 'p plugin_registry \<Rightarrow> 'p plugin_registry" where
  "plugin_registry_step show_id (Register now i loaded ctx) r = fst (register_plugin_from_path now i loaded ctx r)"
| "plugin_registry_step show_id (Unregister now i stopped) r = fst (unregister_plugin show_id now i stopped r)"
| "plugin_registry_step show_id (StartPlugin now i initialized) r = fst (start_plugin show_id now i initialized r)"
| "plugin_registry_step show_id (StopPlugin now i stopped) r = fst (stop_plugin show_id now i stopped r)"
| "plugin_registry_step show_id StartRegistry r = fst (registry_start r)"
| "plugin_registry_step show_id (StopRegistry now answers) r = fst (registry_stop show_id now answers r)"

definition plugins_ok :: "'p plugin_registry \<Rightarrow> bool" where
  "plugins_ok r =
     (hm_ok (pg_plugins r) \<and> (\<forall>i e. hm_get (pg_plugins r) i = Some e \<longrightarrow> pe_id e = i)
      \<and> (\<forall>name i. hm_get (pg_names r) name = Some i \<longleftrightarrow> (\<exists>e. hm_get (pg_plugins r) i = Some e \<and> pe_name e = name))
      \<and> length (pg_plugins r) \<le> prc_max_plugins (pg_config r)
      \<and> pg_total_plugins r = length (pg_plugins r))"

text \<open>Random ids do not repeat.\<close>

fun fresh_ids :: "'p plugin_registry_op \<Rightarrow> 'p plugin_registry \<Rightarrow> bool" where
  "fresh_ids (Register now i loaded ctx) r = (hm_get (pg_plugins r) i = None)"
| "fresh_ids _ r = True"

lemma length_hm_remove: "hm_ok m \<Longrightarrow> hm_get m k \<noteq> None \<Longrightarrow> length (hm_remove k m) = length m - 1"
proof (induction m)
  case (Cons p m)
  then show ?case
  proof (cases "fst p = k")
    case True
    then have "hm_get m k = None" using Cons.prems(1) by (auto simp: hm_ok_def map_of_eq_None_iff)
    then have "k \<notin> fst ` set m" by (simp add: map_of_eq_None_iff)
    then have "hm_remove k m = m" unfolding hm_remove_def by (simp add: delete_id)
    with True show ?thesis by (cases p) (simp add: hm_remove_def)
  next
    case False
    then have "hm_get m k \<noteq> None" using Cons.prems(2) by (cases p) auto
    then have "0 < length m" by (cases m) auto
    with False Cons show ?thesis using \<open>hm_get m k \<noteq> None\<close> by (cases p) (auto simp: hm_remove_def hm_ok_def)
  qed
qed simp

lemma length_hm_insert: "length (hm_insert k v m) = (if hm_get m k = None then length m + 1 else length m)"
  by (induction m) (auto simp: hm_insert_def split: if_splits)

lemma modify_entry_ok:
  assumes "plugins_ok r" "\<And>e. pe_id (f e) = pe_id e" "\<And>e. pe_name (f e) = pe_name e"
  shows "plugins_ok (modify_entry i f r)"
proof (cases "hm_get (pg_plugins r) i")
  case None
  with assms(1) show ?thesis by (simp add: modify_entry_def)
next
  case (Some e)
  have "(\<exists>e'. ((hm_get (pg_plugins r))(i \<mapsto> f e)) j = Some e' \<and> pe_name e' = name) \<longleftrightarrow>
      (\<exists>e'. hm_get (pg_plugins r) j = Some e' \<and> pe_name e' = name)" for j name
    using Some assms(3) by auto
  with Some assms show ?thesis by (auto simp: modify_entry_def plugins_ok_def length_hm_insert)
qed

lemma plugins_ok_cong:
  "pg_plugins r' = pg_plugins r \<Longrightarrow> pg_names r' = pg_names r \<Longrightarrow> pg_config r' = pg_config r \<Longrightarrow>
     pg_total_plugins r' = pg_total_plugins r \<Longrightarrow> plugins_ok r' = plugins_ok r"
  by (simp add: plugins_ok_def)

lemma set_entry_state_simps [simp]: "pe_id (set_entry_state now s e) = pe_id e" "pe_name (set_entry_state now s e) = pe_name e"
  "pe_id (increment_error_count e) = pe_id e" "pe_name (increment_error_count e) = pe_name e"
  by (simp_all add: set_entry_state_def increment_error_count_def)

lemma active_count_ok [simp]: "plugins_ok (r\<lparr>pg_active_plugins := n\<rparr>) = plugins_ok r"
  by (rule plugins_ok_cong) simp_all

lemma start_plugin_ok: "plugins_ok r \<Longrightarrow> plugins_ok (fst (start_plugin show_id now i initialized r))"
  by (auto simp: start_plugin_def Let_def modify_entry_ok split: option.splits result.splits)

lemma stop_plugin_ok: "plugins_ok r \<Longrightarrow> plugins_ok (fst (stop_plugin show_id now i stopped r))"
  by (auto simp: stop_plugin_def Let_def modify_entry_ok split: option.splits result.splits)

lemma stop_plugin_keeps:
  assumes "hm_get (pg_plugins r) i = Some e" "stop_plugin show_id now i stopped r = (r1, x)"
  shows "\<exists>e1. hm_get (pg_plugins r1) i = Some e1 \<and> pe_name e1 = pe_name e"
  using assms by (auto simp: stop_plugin_def modify_entry_def Let_def split: option.splits result.splits if_splits)

lemma plugins_ok_names:
  "plugins_ok r \<Longrightarrow> hm_get (pg_names r) name = Some i \<longleftrightarrow> (\<exists>e. hm_get (pg_plugins r) i = Some e \<and> pe_name e = name)"
  by (simp add: plugins_ok_def)

lemma plugins_ok_inj:
  assumes "plugins_ok r" "hm_get (pg_plugins r) i = Some e" "hm_get (pg_plugins r) j = Some e'" "pe_name e' = pe_name e"
  shows "j = i"
proof -
  have "hm_get (pg_names r) (pe_name e) = Some i" using plugins_ok_names[OF assms(1)] assms(2) by blast
  moreover have "hm_get (pg_names r) (pe_name e) = Some j" using plugins_ok_names[OF assms(1)] assms(3,4) by blast
  ultimately show ?thesis by simp
qed

lemma remove_entry_ok:
  assumes "plugins_ok r" "hm_get (pg_plugins r) i = Some e"
  shows "plugins_ok (r\<lparr>pg_plugins := hm_remove i (pg_plugins r), pg_names := hm_remove (pe_name e) (pg_names r),
           pg_total_plugins := pg_total_plugins r - 1, pg_events := ev\<rparr>)" (is "plugins_ok ?r")
proof -
  have len: "length (hm_remove i (pg_plugins r)) = length (pg_plugins r) - 1"
    using assms by (intro length_hm_remove) (auto simp: plugins_ok_def)
  have ok: "hm_ok (pg_plugins r)" "\<And>i e. hm_get (pg_plugins r) i = Some e \<Longrightarrow> pe_id e = i"
    "length (pg_plugins r) \<le> prc_max_plugins (pg_config r)" "pg_total_plugins r = length (pg_plugins r)"
    using assms(1) by (simp_all add: plugins_ok_def)
  have names: "hm_get (hm_remove (pe_name e) (pg_names r)) name = Some j \<longleftrightarrow>
      (\<exists>e'. hm_get (hm_remove i (pg_plugins r)) j = Some e' \<and> pe_name e' = name)" for name j
  proof (cases "name = pe_name e")
    case True
    then show ?thesis using plugins_ok_inj[OF assms] by auto
  next
    case False
    then show ?thesis using plugins_ok_names[OF assms(1), of name j] assms(2) by auto
  qed
  have ids: "hm_get (hm_remove i (pg_plugins r)) j = Some e' \<longrightarrow> pe_id e' = j" for j e'
    using ok(2) by simp
  have "length (hm_remove i (pg_plugins r)) \<le> prc_max_plugins (pg_config r)" using ok(3) len by linarith
  moreover have sel: "pg_plugins ?r = hm_remove i (pg_plugins r)" "pg_names ?r = hm_remove (pe_name e) (pg_names r)"
    "pg_config ?r = pg_config r" "pg_total_plugins ?r = pg_total_plugins r - 1" by simp_all
  ultimately show ?thesis
    unfolding plugins_ok_def sel using ids names ok(1,4) len by (intro conjI allI) (simp_all only: hm_ok_remove)
qed

lemma unregister_ok:
  assumes "plugins_ok r"
  shows "plugins_ok (fst (unregister_plugin show_id now i stopped r))"
proof (cases "hm_get (pg_plugins r) i")
  case None
  with assms show ?thesis by (simp add: unregister_plugin_def)
next
  case (Some e)
  obtain r1 x where s: "(if pe_state e = EsActive then stop_plugin show_id now i stopped r else (r, Ok ())) = (r1, x)" by fastforce
  have ok1: "plugins_ok r1" using s assms stop_plugin_ok[OF assms] by (metis fst_conv prod.inject)
  obtain e1 where e1: "hm_get (pg_plugins r1) i = Some e1" "pe_name e1 = pe_name e"
  proof (cases "pe_state e = EsActive")
    case True
    with s have "stop_plugin show_id now i stopped r = (r1, x)" by simp
    from stop_plugin_keeps[OF Some this] that show ?thesis by blast
  next
    case False
    with s Some that show ?thesis by auto
  qed
  show ?thesis
    using Some s ok1 remove_entry_ok[OF ok1 e1(1)] e1(2) by (cases x) (auto simp: unregister_plugin_def)
qed

lemma register_ok:
  assumes "plugins_ok r" "hm_get (pg_plugins r) i = None"
  shows "plugins_ok (fst (register_plugin_from_path now i loaded ctx r))"
proof -
  have "plugins_ok (r\<lparr>pg_plugins := hm_insert i (plugin_entry_new now i plugin name) (pg_plugins r),
       pg_names := hm_insert name i (pg_names r), pg_total_plugins := pg_total_plugins r + 1, pg_events := ev\<rparr>)"
    if new: "hm_get (pg_names r) name = None" "length (pg_plugins r) < prc_max_plugins (pg_config r)" for plugin name ev
  proof -
    have "\<And>j e. hm_get (pg_plugins r) j = Some e \<Longrightarrow> pe_name e \<noteq> name"
      using assms(1) new(1) unfolding plugins_ok_def by (metis option.distinct(1))
    with assms new show ?thesis by (auto simp: plugins_ok_def plugin_entry_new_def length_hm_insert)
  qed
  then show ?thesis
    using assms by (auto simp: register_plugin_from_path_def split: option.splits result.splits)
qed

lemma fold_stop_ok: "plugins_ok r \<Longrightarrow> plugins_ok (fold (\<lambda>i r. fst (stop_plugin show_id now i (answers i) r)) ids r)"
  by (induction ids arbitrary: r) (auto simp: stop_plugin_ok)

lemma registry_stop_ok: "plugins_ok r \<Longrightarrow> plugins_ok (fst (registry_stop show_id now answers r))"
proof -
  have "plugins_ok (r\<lparr>pg_is_running := False\<rparr>) = plugins_ok r" by (rule plugins_ok_cong) simp_all
  then show "plugins_ok r \<Longrightarrow> ?thesis" by (simp add: registry_stop_def stop_all_plugins_def fold_stop_ok)
qed

lemma registry_step_ok: "plugins_ok r \<Longrightarrow> fresh_ids x r \<Longrightarrow> plugins_ok (plugin_registry_step show_id x r)"
proof (cases x)
  case StartRegistry
  have "plugins_ok (r\<lparr>pg_is_running := True\<rparr>) = plugins_ok r" by (rule plugins_ok_cong) simp_all
  then show "plugins_ok r \<Longrightarrow> ?thesis" by (simp add: StartRegistry registry_start_def)
qed (auto simp: register_ok unregister_ok start_plugin_ok stop_plugin_ok registry_stop_ok)

fun fresh_run :: "(uuid \<Rightarrow> string) \<Rightarrow> 'p plugin_registry_op list \<Rightarrow> 'p plugin_registry \<Rightarrow> bool" where
  "fresh_run show_id [] r = True"
| "fresh_run show_id (x # xs) r = (fresh_ids x r \<and> fresh_run show_id xs (plugin_registry_step show_id x r))"

lemma registry_run_ok: "plugins_ok r \<Longrightarrow> fresh_run show_id xs r \<Longrightarrow> plugins_ok (fold (plugin_registry_step show_id) xs r)"
  by (induction xs arbitrary: r) (auto simp: registry_step_ok)

text \<open>
  the registry keeps its bound and its two maps agree. After any sequence of registrations, removals,
  starts and stops, one at a time, with whatever the loader and the plugins answer, and ids that do not repeat, there are never more plugins
  than the configuration allows, the counter of plugins is exact, and looking a name up finds the one
  plugin of that name if there is one.
\<close>

theorem plugin_registry_consistent:
  assumes "fresh_run show_id xs (plugin_registry_new c)" "r = fold (plugin_registry_step show_id) xs (plugin_registry_new c)"
  shows "length (pg_plugins r) \<le> prc_max_plugins (pg_config r) \<and> pg_total_plugins r = length (pg_plugins r)
     \<and> (get_plugin_by_name name r = Some e \<longleftrightarrow> e \<in> set (list_plugins r) \<and> pe_name e = name)"
proof -
  have "plugins_ok (plugin_registry_new c)" by (simp add: plugins_ok_def plugin_registry_new_def)
  from registry_run_ok[OF this assms(1)] have ok: "plugins_ok r" by (simp add: assms(2))
  have listed: "e \<in> set (list_plugins r) \<longleftrightarrow> (\<exists>i. hm_get (pg_plugins r) i = Some e)"
    using ok by (force simp: plugins_ok_def list_plugins_def hm_entry[symmetric])
  have named: "get_plugin_by_name name r = Some e \<longleftrightarrow> (\<exists>i. hm_get (pg_plugins r) i = Some e \<and> pe_name e = name)"
    unfolding get_plugin_by_name_def bind_eq_Some_conv plugins_ok_names[OF ok] by auto
  from ok have "length (pg_plugins r) \<le> prc_max_plugins (pg_config r)" "pg_total_plugins r = length (pg_plugins r)"
    by (simp_all add: plugins_ok_def)
  then show ?thesis by (auto simp: listed named)
qed

theorem plugin_registry_consistent_witness:
  "\<exists>r. r = fold (plugin_registry_step (\<lambda>i. ''id''))
         [Register 1 7 (Some (Ok ((), ''echo''))) (Ok ()), StartPlugin 2 7 (Some (Ok ())), Register 3 8 (Some (Ok ((), ''echo''))) (Ok ())]
         (plugin_registry_new plugin_registry_config_default)
     \<and> pg_total_plugins r = 1 \<and> map_option pe_state (get_plugin_by_name ''echo'' r) = Some EsActive"
proof -
  let ?ops = "[Register 1 7 (Some (Ok ((), ''echo''))) (Ok ()), StartPlugin 2 7 (Some (Ok ())), Register 3 8 (Some (Ok ((), ''echo''))) (Ok ())]"
  let ?c = plugin_registry_config_default
  define r where "r = fold (plugin_registry_step (\<lambda>i. ''id'')) ?ops (plugin_registry_new ?c)"
  note defs = register_plugin_from_path_def start_plugin_def modify_entry_def plugin_registry_new_def plugin_entry_new_def
    set_entry_state_def plugin_registry_config_default_def hm_insert_def
  have fresh: "fresh_run (\<lambda>i. ''id'') ?ops (plugin_registry_new ?c)" by (simp add: defs Let_def)
  have plugins: "pg_plugins r = [(7, \<lparr>pe_id = 7, pe_plugin = (), pe_name = ''echo'', pe_state = EsActive, pe_registered_at = 1,
      pe_last_activity = 2, pe_error_count = 0\<rparr>)]"
    by (simp add: r_def defs Let_def)
  let ?e = "\<lparr>pe_id = 7, pe_plugin = (), pe_name = ''echo'', pe_state = EsActive, pe_registered_at = 1,
      pe_last_activity = 2, pe_error_count = 0\<rparr>"
  from plugin_registry_consistent[OF fresh r_def, of "''echo''" ?e] plugins
  have "pg_total_plugins r = 1" "get_plugin_by_name ''echo'' r = Some ?e" by (simp_all add: list_plugins_def)
  then show ?thesis by (intro exI[of _ r]) (simp add: r_def)
qed

text \<open>A plugin whose shutdown fails stays registered as failed, and a second removal drops it without another
  shutdown.\<close>

lemma failed_unregister_retry:
  assumes "hm_get (pg_plugins r) i = Some e" "pe_state e = EsActive"
    and "unregister_plugin show_id t1 i None r = (r1, x)" "unregister_plugin show_id t2 i answer r1 = (r2, y)"
  shows "x = Err (RegConfiguration ''Plugin shutdown timeout'') \<and> map_option pe_state (hm_get (pg_plugins r1) i) = Some EsError
     \<and> y = Ok () \<and> hm_get (pg_plugins r2) i = None"
  using assms
  by (auto simp: unregister_plugin_def stop_plugin_def modify_entry_def set_entry_state_def increment_error_count_def Let_def)

section \<open>The dependency graph\<close>

lemma dependents_mirror_step:
  assumes "\<forall>p d. d \<in> set (get_dependencies p g) \<longleftrightarrow> p \<in> set (get_dependents d g)"
  shows "\<forall>p d. d \<in> set (get_dependencies p (add_dependency a b g)) \<longleftrightarrow> p \<in> set (get_dependents d (add_dependency a b g))"
  using assms by (auto simp: add_dependency_def get_dependencies_def get_dependents_def)

lemma dependents_mirror:
  "d \<in> set (get_dependencies p (fold (\<lambda>(a, b). add_dependency a b) es empty_graph)) \<longleftrightarrow>
   p \<in> set (get_dependents d (fold (\<lambda>(a, b). add_dependency a b) es empty_graph))"
proof -
  have "\<forall>p d. d \<in> set (get_dependencies p g) \<longleftrightarrow> p \<in> set (get_dependents d g) \<Longrightarrow>
      \<forall>p d. d \<in> set (get_dependencies p (fold (\<lambda>(a, b). add_dependency a b) es g))
        \<longleftrightarrow> p \<in> set (get_dependents d (fold (\<lambda>(a, b). add_dependency a b) es g))" for g
    by (induction es arbitrary: g) (auto simp: dependents_mirror_step)
  moreover have "\<forall>p d. d \<in> set (get_dependencies p empty_graph) \<longleftrightarrow> p \<in> set (get_dependents d empty_graph)"
    by (simp add: empty_graph_def get_dependencies_def get_dependents_def hm_get_or_def)
  ultimately show ?thesis by blast
qed

text \<open>
  the start-up order does not honour dependencies. A plugin that others depend on but that depends on none is not
  in the order at all, and two plugins that depend on each other are not reported as a cycle.
\<close>

theorem startup_order_ignores_dependencies:
  assumes "a \<noteq> b"
  shows "b \<notin> set (get_startup_order (add_dependency a b empty_graph))
     \<and> \<not> has_cycles (add_dependency b a (add_dependency a b empty_graph))"
  using assms by (simp add: get_startup_order_def add_dependency_def empty_graph_def has_cycles_def hm_keys_def hm_insert_def)

theorem startup_order_ignores_dependencies_witness:
  "2 \<notin> set (get_startup_order (add_dependency 1 2 empty_graph))"
  using startup_order_ignores_dependencies[of 1 2] by simp

end
