(* ===== verification/Plugin_Security.thy ===== *)
theory Plugin_Security
  imports Clocks "HOL-Library.Sublist"
begin

text \<open>
  What a plugin may do, \<^verbatim>\<open>src/kaelix-core/src/plugin/security.rs\<close>, \<^verbatim>\<open>capabilities.rs\<close> and
  \<^verbatim>\<open>sandbox.rs\<close>: capability sets, the checks of the security context with its custom rules and its audit
  trail, the threat level, and the sandbox with its statistics. The text of an operation in an error and
  \<open>str::parse\<close> for floating-point numbers are arguments, as are the clock and what a plugin's operation returns.
\<close>

section \<open>Declared capabilities\<close>

record message_capabilities =
  mp_can_read :: bool
  mp_can_modify :: bool
  mp_can_route :: bool
  mp_can_split :: bool
  mp_can_merge :: bool

record io_capabilities =
  io_can_read_files :: bool
  io_can_write_files :: bool
  io_can_create_directories :: bool
  io_can_delete :: bool
  io_allowed_paths :: "string list"

record network_capabilities =
  nw_can_http_client :: bool
  nw_can_http_server :: bool
  nw_can_tcp_client :: bool
  nw_can_tcp_server :: bool
  nw_can_udp :: bool
  nw_allowed_hosts :: "string list"
  nw_allowed_ports :: "u16 list"

record system_capabilities =
  sc_can_execute_commands :: bool
  sc_can_access_env :: bool
  sc_can_spawn_processes :: bool
  sc_can_access_time :: bool
  sc_can_access_random :: bool

record plugin_capabilities =
  cap_message_processing :: message_capabilities
  cap_io :: io_capabilities
  cap_network :: network_capabilities
  cap_system :: system_capabilities
  cap_custom :: "string set"

definition plugin_capabilities_new :: plugin_capabilities where
  "plugin_capabilities_new =
     \<lparr>cap_message_processing = \<lparr>mp_can_read = False, mp_can_modify = False, mp_can_route = False, mp_can_split = False,
        mp_can_merge = False\<rparr>,
      cap_io = \<lparr>io_can_read_files = False, io_can_write_files = False, io_can_create_directories = False,
        io_can_delete = False, io_allowed_paths = []\<rparr>,
      cap_network = \<lparr>nw_can_http_client = False, nw_can_http_server = False, nw_can_tcp_client = False,
        nw_can_tcp_server = False, nw_can_udp = False, nw_allowed_hosts = [], nw_allowed_ports = []\<rparr>,
      cap_system = \<lparr>sc_can_execute_commands = False, sc_can_access_env = False, sc_can_spawn_processes = False,
        sc_can_access_time = False, sc_can_access_random = False\<rparr>,
      cap_custom = {}\<rparr>"

definition message_processor :: plugin_capabilities where
  "message_processor = plugin_capabilities_new\<lparr>cap_message_processing :=
     \<lparr>mp_can_read = True, mp_can_modify = False, mp_can_route = False, mp_can_split = False, mp_can_merge = False\<rparr>\<rparr>"

definition message_transformer :: plugin_capabilities where
  "message_transformer = plugin_capabilities_new\<lparr>cap_message_processing :=
     \<lparr>mp_can_read = True, mp_can_modify = True, mp_can_route = False, mp_can_split = False, mp_can_merge = False\<rparr>\<rparr>"

definition message_router :: plugin_capabilities where
  "message_router = plugin_capabilities_new\<lparr>cap_message_processing :=
     \<lparr>mp_can_read = True, mp_can_modify = False, mp_can_route = True, mp_can_split = True, mp_can_merge = True\<rparr>\<rparr>"

definition with_custom_capability :: "string \<Rightarrow> plugin_capabilities \<Rightarrow> plugin_capabilities" where
  "with_custom_capability c caps = caps\<lparr>cap_custom := insert c (cap_custom caps)\<rparr>"

definition has_custom_capability :: "string \<Rightarrow> plugin_capabilities \<Rightarrow> bool" where
  "has_custom_capability c caps = (c \<in> cap_custom caps)"

section \<open>Granted capabilities\<close>

datatype permission_level = PermNone | PermRead | PermWrite | PermAdmin

type_synonym capability_set = "(string, permission_level) hash_map"

definition default_safe :: capability_set where
  "default_safe = hm_insert ''memory'' PermRead (hm_insert ''log'' PermWrite [])"

definition grant :: "string \<Rightarrow> permission_level \<Rightarrow> capability_set \<Rightarrow> capability_set" where
  "grant c level caps = hm_insert c level caps"

definition revoke :: "string \<Rightarrow> capability_set \<Rightarrow> capability_set" where
  "revoke c caps = hm_remove c caps"

definition has_capability :: "string \<Rightarrow> capability_set \<Rightarrow> bool" where
  "has_capability c caps = (case hm_get caps c of None \<Rightarrow> False | Some level \<Rightarrow> level \<noteq> PermNone)"

definition get_permission_level :: "string \<Rightarrow> capability_set \<Rightarrow> permission_level" where
  "get_permission_level c caps = (case hm_get caps c of None \<Rightarrow> PermNone | Some level \<Rightarrow> level)"

definition capabilities_count :: "capability_set \<Rightarrow> usize" where
  "capabilities_count caps = length caps"

definition granted_capabilities :: "capability_set \<Rightarrow> string list" where
  "granted_capabilities caps = hm_keys caps"

section \<open>Threat levels\<close>

datatype threat_level = Minimal | LowThreat | MediumThreat | HighThreat | CriticalThreat

fun threat_str :: "threat_level \<Rightarrow> string" where
  "threat_str Minimal = ''MINIMAL''"
| "threat_str LowThreat = ''LOW''"
| "threat_str MediumThreat = ''MEDIUM''"
| "threat_str HighThreat = ''HIGH''"
| "threat_str CriticalThreat = ''CRITICAL''"

fun threat_score :: "threat_level \<Rightarrow> u8" where
  "threat_score Minimal = 1"
| "threat_score LowThreat = 2"
| "threat_score MediumThreat = 3"
| "threat_score HighThreat = 4"
| "threat_score CriticalThreat = 5"

definition from_score :: "u8 \<Rightarrow> threat_level" where
  "from_score s =
     (if s = 1 then Minimal else if s = 2 then LowThreat else if s = 3 then MediumThreat else if s = 4 then HighThreat
      else CriticalThreat)"

section \<open>Operations and rules\<close>

datatype security_operation =
    NetworkAccess string u16
  | FileSystemRead string
  | FileSystemWrite string
  | MemoryAllocation usize
  | SystemCall string
  | IpcMessage string usize

datatype security_rule_type = AllowRule | DenyRule

datatype condition_operator =
  OpEquals | OpNotEquals | OpContains | OpStartsWith | OpEndsWith | OpGreaterThan | OpLessThan

record security_condition =
  sco_field :: string
  sco_operator :: condition_operator
  sco_value :: string

record security_rule =
  srl_name :: string
  srl_description :: string
  srl_rule_type :: security_rule_type
  srl_conditions :: "security_condition list"

type_synonym 'f parse_f64 = "string \<Rightarrow> 'f option"

definition parsed_or_zero :: "'f float_ops \<Rightarrow> 'f parse_f64 \<Rightarrow> string \<Rightarrow> 'f" where
  "parsed_or_zero fl parse s = (case parse s of None \<Rightarrow> fl_tenths fl 0 | Some x \<Rightarrow> x)"

definition str_contains :: "string \<Rightarrow> string \<Rightarrow> bool" where
  "str_contains pat s = list_ex (prefix pat) (suffixes s)"

fun operator_matches :: "'f float_ops \<Rightarrow> 'f parse_f64 \<Rightarrow> condition_operator \<Rightarrow> string \<Rightarrow> string \<Rightarrow> bool" where
  "operator_matches fl parse OpEquals field_value value = (field_value = value)"
| "operator_matches fl parse OpNotEquals field_value value = (field_value \<noteq> value)"
| "operator_matches fl parse OpContains field_value value = str_contains value field_value"
| "operator_matches fl parse OpStartsWith field_value value = prefix value field_value"
| "operator_matches fl parse OpEndsWith field_value value = suffix value field_value"
| "operator_matches fl parse OpGreaterThan field_value value =
     fl_less fl (parsed_or_zero fl parse value) (parsed_or_zero fl parse field_value)"
| "operator_matches fl parse OpLessThan field_value value =
     fl_less fl (parsed_or_zero fl parse field_value) (parsed_or_zero fl parse value)"

fun extract_field_value :: "string \<Rightarrow> security_operation \<Rightarrow> string" where
  "extract_field_value f (NetworkAccess host port) =
     (if f = ''host'' then host else if f = ''port'' then decimal (unat port) else [])"
| "extract_field_value f (FileSystemRead path) = (if f = ''path'' then path else [])"
| "extract_field_value f (FileSystemWrite path) = (if f = ''path'' then path else [])"
| "extract_field_value f (MemoryAllocation n) = (if f = ''size'' then decimal n else [])"
| "extract_field_value f (SystemCall call) = (if f = ''call'' then call else [])"
| "extract_field_value f (IpcMessage target n) = (if f = ''target'' then target else [])"

definition matches_operation :: "'f float_ops \<Rightarrow> 'f parse_f64 \<Rightarrow> security_operation \<Rightarrow> security_condition \<Rightarrow> bool" where
  "matches_operation fl parse op c =
     operator_matches fl parse (sco_operator c) (extract_field_value (sco_field c) op) (sco_value c)"

definition rule_allows_operation :: "'f float_ops \<Rightarrow> 'f parse_f64 \<Rightarrow> security_operation \<Rightarrow> security_rule \<Rightarrow> bool" where
  "rule_allows_operation fl parse op r =
     (case srl_rule_type r of
        AllowRule \<Rightarrow> list_ex (matches_operation fl parse op) (srl_conditions r)
      | DenyRule \<Rightarrow> \<not> list_ex (matches_operation fl parse op) (srl_conditions r))"

section \<open>The security context\<close>

record security_event =
  sev_timestamp :: system_time
  sev_operation :: security_operation
  sev_allowed :: bool
  sev_threat_level :: "threat_level option"

definition security_event_new :: "system_time \<Rightarrow> security_operation \<Rightarrow> bool \<Rightarrow> security_event" where
  "security_event_new now op allowed =
     \<lparr>sev_timestamp = now, sev_operation = op, sev_allowed = allowed, sev_threat_level = None\<rparr>"

definition with_threat_level :: "threat_level \<Rightarrow> security_event \<Rightarrow> security_event" where
  "with_threat_level t e = e\<lparr>sev_threat_level := Some t\<rparr>"

record audit_config =
  aud_enabled :: bool
  aud_log_all_operations :: bool
  aud_log_denied_operations :: bool
  aud_max_audit_entries :: usize
  aud_audit_file_path :: "string option"

definition audit_config_default :: audit_config where
  "audit_config_default =
     \<lparr>aud_enabled = True, aud_log_all_operations = False, aud_log_denied_operations = True, aud_max_audit_entries = 10000,
      aud_audit_file_path = Some ''plugin_security_audit.log''\<rparr>"

record security_policy =
  spo_default_capabilities :: capability_set
  spo_max_threat_level :: threat_level
  spo_sandbox_enabled :: bool
  spo_custom_rules :: "security_rule list"
  spo_audit_config :: audit_config

definition security_policy_default :: security_policy where
  "security_policy_default =
     \<lparr>spo_default_capabilities = default_safe, spo_max_threat_level = MediumThreat, spo_sandbox_enabled = True,
      spo_custom_rules = [], spo_audit_config = audit_config_default\<rparr>"

record security_context =
  sx_id :: u128
  sx_policy :: security_policy
  sx_capabilities :: capability_set
  sx_threat_level :: threat_level
  sx_audit_trail :: "security_event list"

definition assess_threat_level :: "security_policy \<Rightarrow> capability_set \<Rightarrow> threat_level" where
  "assess_threat_level policy caps =
     (let n = capabilities_count caps in
      if n \<le> 2 then Minimal else if n \<le> 5 then LowThreat else if n \<le> 10 then MediumThreat else if n \<le> 20 then HighThreat
      else CriticalThreat)"

definition security_context_with_policy :: "u128 \<Rightarrow> security_policy \<Rightarrow> capability_set \<Rightarrow> security_context" where
  "security_context_with_policy i policy caps =
     \<lparr>sx_id = i, sx_policy = policy, sx_capabilities = caps, sx_threat_level = assess_threat_level policy caps,
      sx_audit_trail = []\<rparr>"

definition security_context_new :: "u128 \<Rightarrow> capability_set \<Rightarrow> security_context" where
  "security_context_new i caps =
     \<lparr>sx_id = i, sx_policy = security_policy_default, sx_capabilities = caps,
      sx_threat_level = assess_threat_level security_policy_default caps, sx_audit_trail = []\<rparr>"

fun required_capability :: "security_operation \<Rightarrow> string" where
  "required_capability (NetworkAccess host port) = ''network''"
| "required_capability (FileSystemRead path) = ''filesystem_read''"
| "required_capability (FileSystemWrite path) = ''filesystem_write''"
| "required_capability (MemoryAllocation n) = ''memory''"
| "required_capability (SystemCall call) = ''system''"
| "required_capability (IpcMessage target n) = ''ipc''"

definition context_allows_operation :: "security_operation \<Rightarrow> security_context \<Rightarrow> bool" where
  "context_allows_operation op c = has_capability (required_capability op) (sx_capabilities c)"

definition check_capability :: "string \<Rightarrow> security_context \<Rightarrow> bool" where
  "check_capability cap c = has_capability cap (sx_capabilities c)"

datatype security_error = SecurityViolation string

definition check_operation ::
    "'f float_ops \<Rightarrow> 'f parse_f64 \<Rightarrow> (security_operation \<Rightarrow> string) \<Rightarrow> system_time \<Rightarrow> security_operation
      \<Rightarrow> security_context \<Rightarrow> security_context \<times> (unit, security_error) result" where
  "check_operation fl parse show_op now op c =
     (if \<not> context_allows_operation op c
      then (c, Err (SecurityViolation (''Operation not allowed by capabilities: '' @ show_op op)))
      else case find (\<lambda>r. \<not> rule_allows_operation fl parse op r) (spo_custom_rules (sx_policy c)) of
        Some r \<Rightarrow> (c, Err (SecurityViolation (''Operation blocked by security rule: '' @ srl_name r)))
      | None \<Rightarrow> (c\<lparr>sx_audit_trail := sx_audit_trail c @ [security_event_new now op True]\<rparr>, Ok ()))"

text \<open>The score and the change are added as \<open>i8\<close>, then bounded.\<close>

definition update_threat_level :: "8 word \<Rightarrow> security_context \<Rightarrow> security_context" where
  "update_threat_level delta c =
     (let new_score = min (max (sint (threat_score (sx_threat_level c) + delta)) 1) 5
      in c\<lparr>sx_threat_level := from_score (of_int new_score)\<rparr>)"

section \<open>What the context lets through, and what it records\<close>

definition permitted :: "'f float_ops \<Rightarrow> 'f parse_f64 \<Rightarrow> security_operation \<Rightarrow> security_context \<Rightarrow> bool" where
  "permitted fl parse op c =
     (has_capability (required_capability op) (sx_capabilities c)
      \<and> (\<forall>r\<in>set (spo_custom_rules (sx_policy c)). rule_allows_operation fl parse op r))"

lemma check_operation_cases:
  "permitted fl parse op c \<Longrightarrow> check_operation fl parse show_op now op c =
     (c\<lparr>sx_audit_trail := sx_audit_trail c @ [security_event_new now op True]\<rparr>, Ok ())"
  "\<not> permitted fl parse op c \<Longrightarrow> \<exists>e. check_operation fl parse show_op now op c = (c, Err e)"
  by (auto simp: check_operation_def permitted_def context_allows_operation_def find_None_iff split: option.split)

lemma permitted_audit [simp]: "permitted fl parse op (c\<lparr>sx_audit_trail := t\<rparr>) = permitted fl parse op c"
  by (simp add: permitted_def)

definition run_checks :: "'f float_ops \<Rightarrow> 'f parse_f64 \<Rightarrow> (security_operation \<Rightarrow> string) \<Rightarrow> (system_time \<times> security_operation) list
    \<Rightarrow> security_context \<Rightarrow> security_context" where
  "run_checks fl parse show_op = fold (\<lambda>(now, op) c. fst (check_operation fl parse show_op now op c))"

lemma run_checks_trail:
  "run_checks fl parse show_op xs c =
     c\<lparr>sx_audit_trail := sx_audit_trail c @
         map (\<lambda>(now, op). security_event_new now op True) (filter (\<lambda>(now, op). permitted fl parse op c) xs)\<rparr>"
proof (induction xs arbitrary: c)
  case Nil
  show ?case by (simp add: run_checks_def)
next
  case (Cons x xs)
  obtain now op where x: "x = (now, op)" by fastforce
  let ?c = "fst (check_operation fl parse show_op now op c)"
  have "run_checks fl parse show_op (x # xs) c = run_checks fl parse show_op xs ?c" by (simp add: run_checks_def x)
  moreover have "?c = c\<lparr>sx_audit_trail := sx_audit_trail c @ (if permitted fl parse op c then [security_event_new now op True] else [])\<rparr>"
    using check_operation_cases(1)[of fl parse op c show_op now] check_operation_cases(2)[of fl parse op c show_op now]
    by (cases "permitted fl parse op c") (simp, fastforce)
  ultimately show ?case by (simp add: Cons.IH x)
qed

text \<open>
  access control is complete and its audit trail holds what was allowed. A check succeeds exactly if the operation's
  capability is granted above \<open>None\<close> and every custom rule lets it through; and after any sequence of checks the trail has gained
  exactly the operations that were let through, in order, each marked as allowed: a denied operation is never
  recorded, although the audit settings ask for it by default.
\<close>

theorem access_control_exact:
  "is_ok (snd (check_operation fl parse show_op now op c)) =
     (get_permission_level (required_capability op) (sx_capabilities c) \<noteq> PermNone
      \<and> list_all (rule_allows_operation fl parse op) (spo_custom_rules (sx_policy c)))
   \<and> sx_audit_trail (run_checks fl parse show_op xs c) =
       sx_audit_trail c @ map (\<lambda>(now, op). security_event_new now op True)
         (filter (\<lambda>(now, op). is_ok (snd (check_operation fl parse show_op now op c))) xs)"
proof -
  have ok: "is_ok (snd (check_operation fl parse show_op t x c)) = permitted fl parse x c" for t x
    using check_operation_cases(1)[of fl parse x c show_op t] check_operation_cases(2)[of fl parse x c show_op t]
    by (cases "permitted fl parse x c") auto
  have "has_capability cap caps \<longleftrightarrow> get_permission_level cap caps \<noteq> PermNone" for cap caps
    by (simp add: has_capability_def get_permission_level_def split: option.split)
  then show ?thesis by (simp add: ok run_checks_trail permitted_def list_all_iff)
qed

lemma one_rule_blocks:
  assumes "r \<in> set (spo_custom_rules (sx_policy c))" "\<not> rule_allows_operation fl parse op r"
  shows "\<not> is_ok (snd (check_operation fl parse show_op now op c))"
proof -
  have "\<not> permitted fl parse op c" using assms by (auto simp: permitted_def)
  from check_operation_cases(2)[OF this, of show_op now] show ?thesis by auto
qed

definition allow_equal :: "string \<Rightarrow> string \<Rightarrow> string \<Rightarrow> string \<Rightarrow> security_rule" where
  "allow_equal n d f v = \<lparr>srl_name = n, srl_description = d, srl_rule_type = AllowRule,
     srl_conditions = [\<lparr>sco_field = f, sco_operator = OpEquals, sco_value = v\<rparr>]\<rparr>"

lemma allow_equal_iff: "rule_allows_operation fl parse op (allow_equal n d f v) \<longleftrightarrow> extract_field_value f op = v"
  by (simp add: rule_allows_operation_def allow_equal_def matches_operation_def)

text \<open>Two \<open>Allow\<close> rules for the same field exclude each other, so a list of permitted hosts permits none; and an
  \<open>Allow\<close> rule for a host also forbids everything that is not a network access.\<close>

lemma allow_rules_exclude:
  assumes "allow_equal n1 d1 f v1 \<in> set (spo_custom_rules (sx_policy c))"
    "allow_equal n2 d2 f v2 \<in> set (spo_custom_rules (sx_policy c))" "v1 \<noteq> v2"
  shows "\<not> is_ok (snd (check_operation fl parse show_op now op c))"
proof (cases "extract_field_value f op = v1")
  case True
  with assms(3) show ?thesis by (intro one_rule_blocks[OF assms(2)]) (simp add: allow_equal_iff)
next
  case False
  then show ?thesis by (intro one_rule_blocks[OF assms(1)]) (simp add: allow_equal_iff)
qed

lemma allow_rule_blocks_others:
  assumes "allow_equal n d ''host'' h \<in> set (spo_custom_rules (sx_policy c))" "h \<noteq> []" "\<And>host port. op \<noteq> NetworkAccess host port"
  shows "\<not> is_ok (snd (check_operation fl parse show_op now op c))"
proof (rule one_rule_blocks[OF assms(1)])
  have "extract_field_value ''host'' op = []" using assms(3) by (cases op) auto
  with assms(2) show "\<not> rule_allows_operation fl parse op (allow_equal n d ''host'' h)" by (simp add: allow_equal_iff)
qed

lemma str_contains_iff: "str_contains pat s \<longleftrightarrow> (\<exists>a b. s = a @ pat @ b)"
proof -
  have "str_contains pat s \<longleftrightarrow> (\<exists>x. suffix x s \<and> prefix pat x)" by (auto simp: str_contains_def list_ex_iff)
  then show ?thesis by (simp add: suffix_def prefix_def) blast
qed

section \<open>The threat level\<close>

lemma from_score_score [simp]: "from_score (threat_score t) = t"
  by (cases t) (simp_all add: from_score_def)

lemma score_from_score: "1 \<le> s \<Longrightarrow> s \<le> 5 \<Longrightarrow> threat_score (from_score s) = s"
proof -
  assume "1 \<le> s" "s \<le> 5"
  then have "unat s \<in> {1, 2, 3, 4, 5}" by (auto simp: word_le_nat_alt)
  then have "s \<in> {1, 2, 3, 4, 5}" by (auto simp: unat_arith_simps)
  then show ?thesis by (auto simp: from_score_def)
qed

lemma sint_plus_i8:
  assumes "0 \<le> a" "a \<le> 5" "sint (w :: 8 word) = a"
  shows "sint (w + d) = (if a + sint d > 127 then a + sint d - 256 else a + sint d)"
proof -
  have "- 128 \<le> sint d" "sint d \<le> 127" using sint_range_size[of d] by (simp_all add: word_size)
  moreover have "sint (w + d) = signed_take_bit 7 (a + sint d)" by (simp add: signed_take_bit_add sint_word_ariths assms(3))
  moreover have "signed_take_bit 7 x = (x + 128) mod 256 - 128" for x :: int
    by (simp add: signed_take_bit_eq_take_bit_shift take_bit_eq_mod)
  moreover have "(x + 128) mod 256 = (if 127 < x then x - 128 else x + 128)" if "- 128 \<le> x" "x \<le> 132" for x :: int
  proof (cases "127 < x")
    case True
    have "(x + 128) mod 256 = ((x - 128) + 256) mod 256" by (rule arg_cong[of _ _ "\<lambda>y. y mod 256"]) simp
    also have "\<dots> = (x - 128) mod 256" by (rule mod_add_self2)
    also have "\<dots> = x - 128" using True that(2) by (intro mod_pos_pos_trivial) simp_all
    finally show ?thesis using True by simp
  next
    case False
    with that show ?thesis by (simp add: mod_pos_pos_trivial)
  qed
  ultimately show ?thesis using assms(1,2) by simp
qed

text \<open>
  the threat level stays within its five grades and follows the change, saturating at both ends, up to
  the width of the sum: a change so large that score and change exceed 127 wraps and sets the level to the lowest.
\<close>

theorem threat_level_bounds:
  "uint (threat_score (sx_threat_level (update_threat_level delta c))) =
     (let s = uint (threat_score (sx_threat_level c)) + sint delta
      in if s > 127 then 1 else min (max s 1) 5)"
proof -
  let ?t = "sx_threat_level c"
  let ?s = "threat_score ?t"
  have s: "sint ?s = uint ?s" "1 \<le> uint ?s" "uint ?s \<le> 5" by (cases ?t; simp)+
  have sum: "sint (?s + delta) = (if uint ?s + sint delta > 127 then uint ?s + sint delta - 256 else uint ?s + sint delta)"
    using sint_plus_i8[of "uint ?s" ?s delta] s by simp
  define n where "n = min (max (sint (?s + delta)) 1) 5"
  have n: "1 \<le> n" "n \<le> 5" by (simp_all add: n_def)
  have u: "uint (of_int n :: u8) = n" using n by (simp add: uint_word_of_int_eq take_bit_int_eq_self)
  have "threat_score (from_score (of_int n)) = of_int n"
    using n u by (intro score_from_score) (simp_all add: word_le_def)
  then have "uint (threat_score (sx_threat_level (update_threat_level delta c))) = n"
    by (simp add: update_threat_level_def Let_def n_def[symmetric] u)
  moreover have "sint delta \<le> 127" using sint_range_size[of delta] by (simp add: word_size)
  ultimately show ?thesis using sum s by (auto simp: n_def Let_def)
qed

end
