(* ===== verification/Plugin_Sandbox.thy ===== *)
theory Plugin_Sandbox
  imports Plugin_Security
begin

text \<open>
  The sandbox a plugin runs in, \<^verbatim>\<open>src/kaelix-core/src/plugin/sandbox.rs\<close>: limits, capabilities, the
  execution of an operation under a time limit and the statistics. Cloning a sandbox copies its counters but
  shares the cell of the total execution time, so that cell lives in a store and a sandbox holds its
  address. Whether an operation ends in time, with what and after how long, is an argument.
\<close>

section \<open>Limits\<close>

type_synonym byte_size = u64

definition kib :: "u64 \<Rightarrow> byte_size" where "kib n = n * 1024"

definition mib :: "u64 \<Rightarrow> byte_size" where "mib n = n * 1024 * 1024"

definition gib :: "u64 \<Rightarrow> byte_size" where "gib n = n * 1024 * 1024 * 1024"

record 'f resource_limits =
  rl_max_memory :: "byte_size option"
  rl_max_cpu_percent :: "'f option"
  rl_max_execution_time :: "duration option"
  rl_max_file_descriptors :: "u32 option"
  rl_max_disk_usage :: "byte_size option"
  rl_max_network_bandwidth :: "byte_size option"
  rl_max_network_connections :: "u32 option"

definition limits_conservative :: "'f float_ops \<Rightarrow> 'f resource_limits" where
  "limits_conservative fl =
     \<lparr>rl_max_memory = Some (mib 50), rl_max_cpu_percent = Some (fl_tenths fl 250),
      rl_max_execution_time = Some (10 * 1000000000), rl_max_file_descriptors = Some 100, rl_max_disk_usage = Some (mib 100),
      rl_max_network_bandwidth = Some (mib 10), rl_max_network_connections = Some 10\<rparr>"

definition limits_aggressive :: "'f float_ops \<Rightarrow> 'f resource_limits" where
  "limits_aggressive fl =
     \<lparr>rl_max_memory = Some (gib 1), rl_max_cpu_percent = Some (fl_tenths fl 750),
      rl_max_execution_time = Some (60 * 1000000000), rl_max_file_descriptors = Some 1000, rl_max_disk_usage = Some (gib 1),
      rl_max_network_bandwidth = Some (mib 100), rl_max_network_connections = Some 100\<rparr>"

definition limits_unlimited :: "'f resource_limits" where
  "limits_unlimited =
     \<lparr>rl_max_memory = None, rl_max_cpu_percent = None, rl_max_execution_time = None, rl_max_file_descriptors = None,
      rl_max_disk_usage = None, rl_max_network_bandwidth = None, rl_max_network_connections = None\<rparr>"

datatype network_access = NetNone | NetLimited "string list" "u16 list" | NetFull

datatype 'f sandbox_isolation =
    IsoNone
  | IsoThread byte_size 'f
  | IsoProcess byte_size 'f "string list" network_access

datatype capability_level = LevelRead | LevelWrite | LevelAdmin

type_synonym sandbox_capabilities = "(string, capability_level) hash_map"

definition grant_capability :: "string \<Rightarrow> capability_level \<Rightarrow> sandbox_capabilities \<Rightarrow> sandbox_capabilities" where
  "grant_capability c level caps = hm_insert c level caps"

definition revoke_capability :: "string \<Rightarrow> sandbox_capabilities \<Rightarrow> sandbox_capabilities" where
  "revoke_capability c caps = hm_remove c caps"

definition sandbox_has_capability :: "string \<Rightarrow> sandbox_capabilities \<Rightarrow> bool" where
  "sandbox_has_capability c caps = (hm_get caps c \<noteq> None)"

definition sandbox_capability_level :: "string \<Rightarrow> sandbox_capabilities \<Rightarrow> capability_level option" where
  "sandbox_capability_level c caps = hm_get caps c"

section \<open>Statistics\<close>

type_synonym address = nat
type_synonym time_store = "address \<Rightarrow> duration"

datatype violation_type = VMemory | VCpu | VExecutionTime | VTimeout | VCapability | VFileDescriptor | VNetwork

record sandbox_stats =
  sst_total_operations :: u64
  sst_successful_operations :: u64
  sst_failed_operations :: u64
  sst_total_execution_time :: address
  sst_resource_violations :: u64
  sst_capability_violations :: u64

definition sandbox_stats_new :: "address \<Rightarrow> time_store \<Rightarrow> sandbox_stats \<times> time_store" where
  "sandbox_stats_new a h =
     (\<lparr>sst_total_operations = 0, sst_successful_operations = 0, sst_failed_operations = 0, sst_total_execution_time = a,
       sst_resource_violations = 0, sst_capability_violations = 0\<rparr>, h(a := 0))"

definition sandbox_record_execution :: "duration \<Rightarrow> bool \<Rightarrow> sandbox_stats \<Rightarrow> time_store \<Rightarrow> sandbox_stats \<times> time_store" where
  "sandbox_record_execution d success s h =
     (let s1 = s\<lparr>sst_total_operations := sst_total_operations s + 1\<rparr>;
          s2 = (if success then s1\<lparr>sst_successful_operations := sst_successful_operations s1 + 1\<rparr>
                else s1\<lparr>sst_failed_operations := sst_failed_operations s1 + 1\<rparr>);
          a = sst_total_execution_time s2
      in (s2, h(a := h a + d)))"

definition record_violation :: "violation_type \<Rightarrow> sandbox_stats \<Rightarrow> sandbox_stats" where
  "record_violation v s =
     (if v = VCapability then s\<lparr>sst_capability_violations := sst_capability_violations s + 1\<rparr>
      else s\<lparr>sst_resource_violations := sst_resource_violations s + 1\<rparr>)"

record sandbox_snapshot =
  ssn_total_operations :: u64
  ssn_successful_operations :: u64
  ssn_failed_operations :: u64
  ssn_total_execution_time :: duration
  ssn_resource_violations :: u64
  ssn_capability_violations :: u64
  ssn_total_violations :: u64

definition sandbox_snapshot_of :: "sandbox_stats \<Rightarrow> time_store \<Rightarrow> sandbox_snapshot" where
  "sandbox_snapshot_of s h =
     \<lparr>ssn_total_operations = sst_total_operations s, ssn_successful_operations = sst_successful_operations s,
      ssn_failed_operations = sst_failed_operations s, ssn_total_execution_time = h (sst_total_execution_time s),
      ssn_resource_violations = sst_resource_violations s, ssn_capability_violations = sst_capability_violations s,
      ssn_total_violations = sst_resource_violations s + sst_capability_violations s\<rparr>"

definition sandbox_stats_clone :: "sandbox_stats \<Rightarrow> sandbox_stats" where
  "sandbox_stats_clone s =
     \<lparr>sst_total_operations = sst_total_operations s, sst_successful_operations = sst_successful_operations s,
      sst_failed_operations = sst_failed_operations s, sst_total_execution_time = sst_total_execution_time s,
      sst_resource_violations = sst_resource_violations s, sst_capability_violations = sst_capability_violations s\<rparr>"

definition sandbox_success_rate :: "'f float_ops \<Rightarrow> sandbox_snapshot \<Rightarrow> 'f" where
  "sandbox_success_rate fl n =
     (if ssn_total_operations n = 0 then fl_tenths fl 0
      else fl_mul fl (fl_div fl (fl_of_usize fl (unat (ssn_successful_operations n))) (fl_of_usize fl (unat (ssn_total_operations n))))
        (fl_tenths fl 1000))"

definition violation_rate :: "'f float_ops \<Rightarrow> sandbox_snapshot \<Rightarrow> 'f" where
  "violation_rate fl n =
     (if ssn_total_operations n = 0 then fl_tenths fl 0
      else fl_div fl (fl_of_usize fl (unat (ssn_total_violations n))) (fl_of_usize fl (unat (ssn_total_operations n))))"

text \<open>The count is cut to 32 bits, and a duration divided by zero panics.\<close>

definition average_execution_time :: "sandbox_snapshot \<Rightarrow> (duration, unit) result" where
  "average_execution_time n =
     (if ssn_total_operations n = 0 then Ok 0
      else let d = (ucast (ssn_total_operations n) :: u32)
           in if d = 0 then Panic else Ok (ssn_total_execution_time n div unat d))"

section \<open>The sandbox\<close>

datatype sandbox_error =
    CreationFailed string string
  | EnforcementFailed string string
  | ResourceLimitExceeded string string u64 u64
  | CapabilityViolation string string

record 'f plugin_sandbox =
  psb_isolation_level :: "'f sandbox_isolation"
  psb_resource_limits :: "'f resource_limits"
  psb_capabilities :: sandbox_capabilities
  psb_stats :: sandbox_stats
  psb_created_at :: instant

definition sandbox_new :: "instant \<Rightarrow> address \<Rightarrow> 'f sandbox_isolation \<Rightarrow> 'f resource_limits \<Rightarrow> sandbox_capabilities \<Rightarrow> time_store
    \<Rightarrow> 'f plugin_sandbox \<times> time_store" where
  "sandbox_new now a level limits caps h =
     (let (s, h') = sandbox_stats_new a h
      in (\<lparr>psb_isolation_level = level, psb_resource_limits = limits, psb_capabilities = caps, psb_stats = s,
           psb_created_at = now\<rparr>, h'))"

definition operation_timeout :: "'f plugin_sandbox \<Rightarrow> duration" where
  "operation_timeout b = (case rl_max_execution_time (psb_resource_limits b) of None \<Rightarrow> 30 * 1000000000 | Some d \<Rightarrow> d)"

definition execute_plugin_operation :: "('t \<times> duration) option \<Rightarrow> 'f plugin_sandbox \<Rightarrow> time_store
    \<Rightarrow> 'f plugin_sandbox \<times> time_store \<times> ('t, sandbox_error) result" where
  "execute_plugin_operation outcome b h =
     (case outcome of
        None \<Rightarrow>
          let limit = of_nat (as_millis (operation_timeout b))
          in (b\<lparr>psb_stats := record_violation VTimeout (psb_stats b)\<rparr>, h,
              Err (ResourceLimitExceeded ''unknown'' ''execution_time'' limit (limit + 1)))
      | Some (v, elapsed) \<Rightarrow>
          let (s, h') = sandbox_record_execution elapsed True (psb_stats b) h
          in (b\<lparr>psb_stats := s\<rparr>, h', Ok v))"

definition sandbox_clone :: "'f plugin_sandbox \<Rightarrow> 'f plugin_sandbox" where
  "sandbox_clone b = b\<lparr>psb_stats := sandbox_stats_clone (psb_stats b)\<rparr>"

datatype sandbox_health = SbHealthy | SbWarning | SbCritical

record 'f sandbox_health_report =
  shr_isolation_level :: "'f sandbox_isolation"
  shr_memory_usage :: usize
  shr_uptime :: duration
  shr_total_operations :: u64
  shr_successful_operations :: u64
  shr_violation_count :: u64
  shr_health_status :: sandbox_health

text \<open>\<open>hundredth\<close> is the literal \<open>0.01\<close>.\<close>

definition sandbox_health_check :: "'f float_ops \<Rightarrow> 'f \<Rightarrow> instant \<Rightarrow> 'f plugin_sandbox \<Rightarrow> time_store \<Rightarrow> 'f sandbox_health_report" where
  "sandbox_health_check fl hundredth now b h =
     (let n = sandbox_snapshot_of (psb_stats b) h
      in \<lparr>shr_isolation_level = psb_isolation_level b, shr_memory_usage = 0, shr_uptime = now - psb_created_at b,
          shr_total_operations = ssn_total_operations n, shr_successful_operations = ssn_successful_operations n,
          shr_violation_count = ssn_total_violations n,
          shr_health_status =
            (if fl_less fl (violation_rate fl n) hundredth then SbHealthy
             else if fl_less fl (violation_rate fl n) (fl_tenths fl 1) then SbWarning else SbCritical)\<rparr>)"

section \<open>What the statistics count\<close>

definition run_outcomes :: "('t \<times> duration) option list \<Rightarrow> 'f plugin_sandbox \<times> time_store \<Rightarrow> 'f plugin_sandbox \<times> time_store" where
  "run_outcomes = fold (\<lambda>x (b, h). let (b', h', r) = execute_plugin_operation x b h in (b', h'))"

lemma run_outcomes_Cons:
  "run_outcomes (None # xs) (b, h) = run_outcomes xs (b\<lparr>psb_stats := record_violation VTimeout (psb_stats b)\<rparr>, h)"
  "run_outcomes (Some (v, d) # xs) (b, h) =
     run_outcomes xs (b\<lparr>psb_stats := (psb_stats b)\<lparr>sst_total_operations := sst_total_operations (psb_stats b) + 1,
       sst_successful_operations := sst_successful_operations (psb_stats b) + 1\<rparr>\<rparr>,
       h(sst_total_execution_time (psb_stats b) := h (sst_total_execution_time (psb_stats b)) + d))"
  by (simp_all add: run_outcomes_def execute_plugin_operation_def Let_def sandbox_record_execution_def)

abbreviation completions :: "('t \<times> duration) option list \<Rightarrow> ('t \<times> duration) list" where
  "completions xs \<equiv> List.map_filter id xs"

lemma run_outcomes_counts:
  assumes "run_outcomes xs (b, h) = (b', h')"
  shows "sst_total_operations (psb_stats b') = sst_total_operations (psb_stats b) + of_nat (length (completions xs))
     \<and> sst_successful_operations (psb_stats b') = sst_successful_operations (psb_stats b) + of_nat (length (completions xs))
     \<and> sst_failed_operations (psb_stats b') = sst_failed_operations (psb_stats b)
     \<and> sst_resource_violations (psb_stats b') = sst_resource_violations (psb_stats b) + of_nat (length (filter ((=) None) xs))
     \<and> sst_capability_violations (psb_stats b') = sst_capability_violations (psb_stats b)
     \<and> sst_total_execution_time (psb_stats b') = sst_total_execution_time (psb_stats b)
     \<and> psb_created_at b' = psb_created_at b
     \<and> h' = h(sst_total_execution_time (psb_stats b) := h (sst_total_execution_time (psb_stats b)) + sum_list (map snd (completions xs)))"
  using assms
proof (induction xs arbitrary: b h)
  case Nil
  then show ?case by (simp add: run_outcomes_def map_filter_simps)
next
  case (Cons x xs)
  show ?case
  proof (cases x)
    case None
    with Cons.IH[OF Cons.prems[unfolded None run_outcomes_Cons]] show ?thesis
      by (simp add: map_filter_simps record_violation_def)
  next
    case (Some p)
    then obtain v d where p: "x = Some (v, d)" by (cases p) simp
    from Cons.IH[OF Cons.prems[unfolded p run_outcomes_Cons]] p show ?thesis
      by (simp add: map_filter_simps add.assoc fun_eq_iff)
  qed
qed

text \<open>
  a timed-out operation is a violation but not an operation. After any run of a fresh sandbox the statistics count the
  completed operations, their time and, apart, the timeouts; no operation ever counts as failed. So a sandbox in which every
  operation times out reports itself healthy, with no operations.
\<close>

theorem sandbox_counts:
  assumes "run_outcomes xs (sandbox_new t0 a level limits caps h) = (b, h')"
  shows "sandbox_snapshot_of (psb_stats b) h' =
      \<lparr>ssn_total_operations = of_nat (length (completions xs)), ssn_successful_operations = of_nat (length (completions xs)),
       ssn_failed_operations = 0, ssn_total_execution_time = sum_list (map snd (completions xs)),
       ssn_resource_violations = of_nat (length (filter ((=) None) xs)), ssn_capability_violations = 0,
       ssn_total_violations = of_nat (length (filter ((=) None) xs))\<rparr>
    \<and> (set xs \<subseteq> {None} \<and> fl_less fl (fl_tenths fl 0) hundredth \<longrightarrow>
         shr_health_status (sandbox_health_check fl hundredth now b h') = SbHealthy)"
proof -
  have "sandbox_new t0 a level limits caps h = (fst (sandbox_new t0 a level limits caps h), h(a := 0))"
    by (simp add: sandbox_new_def sandbox_stats_new_def)
  with assms have "run_outcomes xs (fst (sandbox_new t0 a level limits caps h), h(a := 0)) = (b, h')" by simp
  from run_outcomes_counts[OF this]
  have snap: "sandbox_snapshot_of (psb_stats b) h' =
      \<lparr>ssn_total_operations = of_nat (length (completions xs)), ssn_successful_operations = of_nat (length (completions xs)),
       ssn_failed_operations = 0, ssn_total_execution_time = sum_list (map snd (completions xs)),
       ssn_resource_violations = of_nat (length (filter ((=) None) xs)), ssn_capability_violations = 0,
       ssn_total_violations = of_nat (length (filter ((=) None) xs))\<rparr>"
    by (simp add: sandbox_snapshot_of_def sandbox_new_def sandbox_stats_new_def)
  moreover have "completions xs = []" if "set xs \<subseteq> {None}"
    using that by (induction xs) (auto simp: map_filter_simps)
  ultimately show ?thesis by (simp add: sandbox_health_check_def violation_rate_def Let_def)
qed

theorem sandbox_counts_witness:
  "\<exists>b h'. run_outcomes [None, None :: (unit \<times> duration) option] (sandbox_new 0 0 IsoNone (limits_conservative sample_floats) [] (\<lambda>_. 0)) = (b, h')
     \<and> ssn_total_operations (sandbox_snapshot_of (psb_stats b) h') = 0
     \<and> ssn_resource_violations (sandbox_snapshot_of (psb_stats b) h') = 2
     \<and> shr_health_status (sandbox_health_check sample_floats 1 5 b h') = SbHealthy"
proof -
  obtain b h' where run: "run_outcomes [None, None :: (unit \<times> duration) option]
      (sandbox_new 0 0 IsoNone (limits_conservative sample_floats) [] (\<lambda>_. 0)) = (b, h')" by fastforce
  from sandbox_counts[OF this, of sample_floats 1 5]
  have "ssn_total_operations (sandbox_snapshot_of (psb_stats b) h') = 0
     \<and> ssn_resource_violations (sandbox_snapshot_of (psb_stats b) h') = 2
     \<and> shr_health_status (sandbox_health_check sample_floats 1 5 b h') = SbHealthy"
    by (simp add: map_filter_simps sample_floats_def)
  with run show ?thesis by blast
qed

text \<open>
  the average execution time cannot be asked for after a multiple of \<open>2\<^sup>3\<^sup>2\<close> operations: the count is cut to 32 bits
  and the division by zero panics. For any other count below that it is the exact average.
\<close>

theorem average_panics_exactly:
  "(average_execution_time n = Panic \<longleftrightarrow> ssn_total_operations n \<noteq> 0 \<and> 2 ^ 32 dvd unat (ssn_total_operations n))
   \<and> (unat (ssn_total_operations n) < 2 ^ 32 \<longrightarrow>
        average_execution_time n = Ok (ssn_total_execution_time n div unat (ssn_total_operations n)))"
proof -
  have u: "unat (ucast (ssn_total_operations n) :: u32) = unat (ssn_total_operations n) mod 2 ^ 32"
    by (simp add: unsigned_ucast_eq take_bit_eq_mod)
  have zero: "(ucast (ssn_total_operations n) :: u32) = 0 \<longleftrightarrow> 2 ^ 32 dvd unat (ssn_total_operations n)"
    using u by (simp only: unat_eq_0[symmetric] dvd_eq_mod_eq_0)
  have "unat (ssn_total_operations n) \<noteq> 0 \<and> unat (ssn_total_operations n) < 2 ^ 32 \<Longrightarrow> \<not> 2 ^ 32 dvd unat (ssn_total_operations n)"
    using nat_dvd_not_less by blast
  with zero u show ?thesis by (auto simp: average_execution_time_def Let_def unat_eq_0)
qed

theorem average_panics_exactly_witness:
  "average_execution_time \<lparr>ssn_total_operations = 2, ssn_successful_operations = 2, ssn_failed_operations = 0,
     ssn_total_execution_time = 10, ssn_resource_violations = 0, ssn_capability_violations = 0, ssn_total_violations = 0\<rparr> = Ok 5"
  using average_panics_exactly[of "\<lparr>ssn_total_operations = 2, ssn_successful_operations = 2, ssn_failed_operations = 0,
     ssn_total_execution_time = 10, ssn_resource_violations = 0, ssn_capability_violations = 0, ssn_total_violations = 0\<rparr>"]
  by simp

text \<open>What a clone executes is added to the time of the original, but not to its number of operations.\<close>

lemma clone_shares_time:
  assumes "execute_plugin_operation (Some (v, d)) (sandbox_clone b) h = (c, h', r)"
  shows "ssn_total_execution_time (sandbox_snapshot_of (psb_stats b) h') = ssn_total_execution_time (sandbox_snapshot_of (psb_stats b) h) + d
     \<and> ssn_total_operations (sandbox_snapshot_of (psb_stats b) h') = ssn_total_operations (sandbox_snapshot_of (psb_stats b) h)"
  using assms by (auto simp: execute_plugin_operation_def Let_def sandbox_record_execution_def sandbox_clone_def
      sandbox_stats_clone_def sandbox_snapshot_of_def)

end
