(* ===== verification/Plugin_Hooks.thy ===== *)
theory Plugin_Hooks
  imports Clocks "HOL-Library.Multiset"
begin

text \<open>
  Hooks of plugins into the processing of a message, \<^verbatim>\<open>src/kaelix-core/src/plugin/hooks.rs\<close>: points,
  priorities, registration, execution and metrics. A hook, a message and a processing context are opaque; what
  a hook answers to a message and how long it takes is an argument, as is the hash of a custom point's name.
\<close>

section \<open>Points, priorities and results\<close>

datatype hook_point =
    PreValidation | PostValidation | PreTransformation | PostTransformation | PreRouting | PostRouting
  | PreSerialization | PostSerialization | PreProcessing | PostProcessing | PreError | PostError
  | CustomPoint u64

definition custom_point :: "(string \<Rightarrow> u64) \<Rightarrow> string \<Rightarrow> hook_point" where
  "custom_point hash name = CustomPoint (hash name)"

fun hook_point_name :: "hook_point \<Rightarrow> string" where
  "hook_point_name PreValidation = ''pre_validation''"
| "hook_point_name PostValidation = ''post_validation''"
| "hook_point_name PreTransformation = ''pre_transformation''"
| "hook_point_name PostTransformation = ''post_transformation''"
| "hook_point_name PreRouting = ''pre_routing''"
| "hook_point_name PostRouting = ''post_routing''"
| "hook_point_name PreSerialization = ''pre_serialization''"
| "hook_point_name PostSerialization = ''post_serialization''"
| "hook_point_name PreProcessing = ''pre_processing''"
| "hook_point_name PostProcessing = ''post_processing''"
| "hook_point_name PreError = ''pre_error''"
| "hook_point_name PostError = ''post_error''"
| "hook_point_name (CustomPoint h) = ''custom''"

definition is_pre_hook :: "hook_point \<Rightarrow> bool" where
  "is_pre_hook p = (p \<in> {PreValidation, PreTransformation, PreRouting, PreSerialization, PreProcessing, PreError})"

definition is_post_hook :: "hook_point \<Rightarrow> bool" where
  "is_post_hook p = (p \<in> {PostValidation, PostTransformation, PostRouting, PostSerialization, PostProcessing, PostError})"

text \<open>A priority is an \<open>i32\<close>; the smaller runs first.\<close>

type_synonym hook_priority = "32 word"

definition highest_priority :: hook_priority where "highest_priority = - 1000"

definition high_priority :: hook_priority where "high_priority = - 100"

definition normal_priority :: hook_priority where "normal_priority = 0"

definition low_priority :: hook_priority where "low_priority = 100"

definition lowest_priority :: hook_priority where "lowest_priority = 1000"

datatype ('m, 'c) hook_result =
    Continue
  | Stop
  | ModifyAndContinue 'm
  | UpdateContext 'c
  | ModifyBoth 'm 'c

fun hook_result_eq :: "('m, 'c) hook_result \<Rightarrow> ('m, 'c) hook_result \<Rightarrow> bool" where
  "hook_result_eq Continue Continue = True"
| "hook_result_eq Stop Stop = True"
| "hook_result_eq (ModifyAndContinue m1) (ModifyAndContinue m2) = (m1 = m2)"
| "hook_result_eq (ModifyBoth m1 c1) (ModifyBoth m2 c2) = (m1 = m2)"
| "hook_result_eq _ _ = False"

datatype hook_error = HookExecutionFailed string string string

record 'h hook_registration =
  hr_plugin_id :: u128
  hr_hook_point :: hook_point
  hr_priority :: hook_priority
  hr_hook :: 'h
  hr_registered_at :: instant
  hr_metadata :: "(string, string) hash_map"

definition hook_registration_new :: "instant \<Rightarrow> u128 \<Rightarrow> hook_point \<Rightarrow> hook_priority \<Rightarrow> 'h \<Rightarrow> 'h hook_registration" where
  "hook_registration_new now i p prio hook =
     \<lparr>hr_plugin_id = i, hr_hook_point = p, hr_priority = prio, hr_hook = hook, hr_registered_at = now, hr_metadata = []\<rparr>"

definition hook_with_metadata :: "string \<Rightarrow> string \<Rightarrow> 'h hook_registration \<Rightarrow> 'h hook_registration" where
  "hook_with_metadata k v r = r\<lparr>hr_metadata := hm_insert k v (hr_metadata r)\<rparr>"

section \<open>Metrics\<close>

record hook_metrics =
  hk_total_registrations :: u64
  hk_total_unregistrations :: u64
  hk_total_executions :: u64
  hk_successful_executions :: u64
  hk_failed_executions :: u64
  hk_avg_execution_time :: duration

definition hook_metrics_new :: hook_metrics where
  "hook_metrics_new =
     \<lparr>hk_total_registrations = 0, hk_total_unregistrations = 0, hk_total_executions = 0, hk_successful_executions = 0,
      hk_failed_executions = 0, hk_avg_execution_time = 0\<rparr>"

text \<open>Both counts are cut to 32 bits, and dividing a duration by zero panics.\<close>

definition hook_record_execution :: "duration \<Rightarrow> bool \<Rightarrow> hook_metrics \<Rightarrow> hook_metrics option" where
  "hook_record_execution d success m =
     (let total = hk_total_executions m + 1;
          m1 = (if success then m\<lparr>hk_total_executions := total, hk_successful_executions := hk_successful_executions m + 1\<rparr>
                else m\<lparr>hk_total_executions := total, hk_failed_executions := hk_failed_executions m + 1\<rparr>)
      in if (ucast total :: u32) = 0 then None
         else Some (m1\<lparr>hk_avg_execution_time :=
                (hk_avg_execution_time m * unat (ucast (total - 1) :: u32) + d) div unat (ucast total :: u32)\<rparr>))"

definition execution_success_rate :: "'f float_ops \<Rightarrow> hook_metrics \<Rightarrow> 'f" where
  "execution_success_rate fl m =
     (if 0 < hk_total_executions m
      then fl_mul fl (fl_div fl (fl_of_usize fl (unat (hk_successful_executions m))) (fl_of_usize fl (unat (hk_total_executions m))))
             (fl_tenths fl 1000)
      else fl_tenths fl 0)"

section \<open>The manager\<close>

record 'h hook_manager =
  hkm_hooks :: "(hook_point, 'h hook_registration list) hash_map"
  hkm_plugin_hooks :: "(u128, hook_point list) hash_map"
  hkm_metrics :: hook_metrics

definition hook_manager_new :: "'h hook_manager" where
  "hook_manager_new = \<lparr>hkm_hooks = [], hkm_plugin_hooks = [], hkm_metrics = hook_metrics_new\<rparr>"

definition register_hook :: "'h hook_registration \<Rightarrow> 'h hook_manager \<Rightarrow> 'h hook_manager" where
  "register_hook r m =
     (let i = hr_plugin_id r; p = hr_hook_point r;
          mt = hkm_metrics m
      in m\<lparr>hkm_plugin_hooks := hm_insert i (hm_get_or [] (hkm_plugin_hooks m) i @ [p]) (hkm_plugin_hooks m),
           hkm_hooks := hm_insert p (sort_key (\<lambda>r. sint (hr_priority r)) (hm_get_or [] (hkm_hooks m) p @ [r])) (hkm_hooks m),
           hkm_metrics := mt\<lparr>hk_total_registrations := hk_total_registrations mt + 1\<rparr>\<rparr>)"

fun retain_other :: "u128 \<Rightarrow> hook_point list \<Rightarrow> (hook_point, 'h hook_registration list) hash_map \<Rightarrow> nat
    \<Rightarrow> (hook_point, 'h hook_registration list) hash_map \<times> nat" where
  "retain_other i [] hooks n = (hooks, n)"
| "retain_other i (p # ps) hooks n =
     (case hm_get hooks p of
        None \<Rightarrow> retain_other i ps hooks n
      | Some rs \<Rightarrow>
          let rs' = filter (\<lambda>r. hr_plugin_id r \<noteq> i) rs
          in retain_other i ps (hm_insert p rs' hooks) (n + (length rs - length rs')))"

definition unregister_plugin_hooks :: "u128 \<Rightarrow> 'h hook_manager \<Rightarrow> 'h hook_manager \<times> usize" where
  "unregister_plugin_hooks i m =
     (case hm_get (hkm_plugin_hooks m) i of
        None \<Rightarrow> (m, 0)
      | Some ps \<Rightarrow>
          let (hooks, n) = retain_other i ps (hkm_hooks m) 0; mt = hkm_metrics m
          in (m\<lparr>hkm_plugin_hooks := hm_remove i (hkm_plugin_hooks m), hkm_hooks := hooks,
                hkm_metrics := mt\<lparr>hk_total_unregistrations := hk_total_unregistrations mt + of_nat n\<rparr>\<rparr>, n))"

definition hook_details :: "hook_point \<Rightarrow> 'h hook_manager \<Rightarrow> 'h hook_registration list" where
  "hook_details p m = hm_get_or [] (hkm_hooks m) p"

definition hook_count :: "hook_point \<Rightarrow> 'h hook_manager \<Rightarrow> usize" where
  "hook_count p m = (case hm_get (hkm_hooks m) p of None \<Rightarrow> 0 | Some rs \<Rightarrow> length rs)"

definition total_hook_count :: "'h hook_manager \<Rightarrow> usize" where
  "total_hook_count m = sum_list (map (length \<circ> snd) (hkm_hooks m))"

definition active_hook_points :: "'h hook_manager \<Rightarrow> hook_point list" where
  "active_hook_points m = map fst (filter (\<lambda>(p, rs). rs \<noteq> []) (hkm_hooks m))"

definition plugin_hook_count :: "u128 \<Rightarrow> 'h hook_manager \<Rightarrow> usize" where
  "plugin_hook_count i m = (case hm_get (hkm_plugin_hooks m) i of None \<Rightarrow> 0 | Some ps \<Rightarrow> length ps)"

definition has_hooks :: "hook_point \<Rightarrow> 'h hook_manager \<Rightarrow> bool" where
  "has_hooks p m = (0 < hook_count p m)"

definition clear_all_hooks :: "'h hook_manager \<Rightarrow> 'h hook_manager" where
  "clear_all_hooks m = m\<lparr>hkm_hooks := [], hkm_plugin_hooks := []\<rparr>"

text \<open>\<open>answer\<close>: what a hook returns for the message and the context, and how long it takes. Every hook gets the same
  message and context.\<close>

type_synonym ('h, 'm, 'c) answers = "'h hook_registration \<Rightarrow> 'm \<Rightarrow> 'c \<Rightarrow> (('m, 'c) hook_result, string) result \<times> duration"

fun run_hooks :: "(u128 \<Rightarrow> string) \<Rightarrow> ('h, 'm, 'c) answers \<Rightarrow> 'm \<Rightarrow> 'c \<Rightarrow> hook_point \<Rightarrow> 'h hook_registration list
    \<Rightarrow> ('m, 'c) hook_result list \<Rightarrow> hook_metrics \<Rightarrow> hook_metrics \<times> (('m, 'c) hook_result list, hook_error) result" where
  "run_hooks show_id answer msg ctx p [] results mt = (mt, Ok results)"
| "run_hooks show_id answer msg ctx p (r # rs) results mt =
     (case answer r msg ctx of
        (Panic, d) \<Rightarrow> (mt, Panic)
      | (Ok x, d) \<Rightarrow>
          (case hook_record_execution d True mt of
             None \<Rightarrow> (mt, Panic)
           | Some mt' \<Rightarrow>
               if x = Stop then (mt', Ok (results @ [x]))
               else run_hooks show_id answer msg ctx p rs (results @ [x]) mt')
      | (Err e, d) \<Rightarrow>
          (case hook_record_execution d False mt of
             None \<Rightarrow> (mt, Panic)
           | Some mt' \<Rightarrow> (mt', Err (HookExecutionFailed (show_id (hr_plugin_id r)) (hook_point_name p) e))))"

definition execute_hooks :: "(u128 \<Rightarrow> string) \<Rightarrow> ('h, 'm, 'c) answers \<Rightarrow> hook_point \<Rightarrow> 'm \<Rightarrow> 'c \<Rightarrow> 'h hook_manager
    \<Rightarrow> 'h hook_manager \<times> (('m, 'c) hook_result list, hook_error) result" where
  "execute_hooks show_id answer p msg ctx m =
     (case hm_get (hkm_hooks m) p of
        None \<Rightarrow> (m, Ok [])
      | Some rs \<Rightarrow> let (mt, r) = run_hooks show_id answer msg ctx p rs [] (hkm_metrics m) in (m\<lparr>hkm_metrics := mt\<rparr>, r))"

text \<open>With \<open>Some n\<close> the time is over when \<open>n\<close> hooks have answered; what they did to the metrics stays.\<close>

definition execute_hooks_with_timeout :: "(u128 \<Rightarrow> string) \<Rightarrow> (duration \<Rightarrow> string) \<Rightarrow> ('h, 'm, 'c) answers \<Rightarrow> nat option \<Rightarrow> duration
    \<Rightarrow> hook_point \<Rightarrow> 'm \<Rightarrow> 'c \<Rightarrow> 'h hook_manager \<Rightarrow> 'h hook_manager \<times> (('m, 'c) hook_result list, hook_error) result" where
  "execute_hooks_with_timeout show_id show_duration answer over limit p msg ctx m =
     (case over of
        None \<Rightarrow> execute_hooks show_id answer p msg ctx m
      | Some n \<Rightarrow>
          (m\<lparr>hkm_metrics := fst (run_hooks show_id answer msg ctx p (take n (hook_details p m)) [] (hkm_metrics m))\<rparr>,
           Err (HookExecutionFailed ''timeout'' (hook_point_name p) (''Hook execution timed out after '' @ show_duration limit))))"

section \<open>The registrations, in order\<close>

abbreviation prio :: "'h hook_registration \<Rightarrow> int" where
  "prio r \<equiv> sint (hr_priority r)"

lemma sort_key_snoc_sorted: "sort_key f (sort_key f xs @ [x]) = sort_key f (xs @ [x])"
proof (rule properties_for_sort_key)
  show "mset (sort_key f (xs @ [x])) = mset (sort_key f xs @ [x])" by simp
  show "filter (\<lambda>y. f k = f y) (sort_key f (xs @ [x])) = filter (\<lambda>y. f k = f y) (sort_key f xs @ [x])" for k
    by (simp add: sort_key_stable eq_commute[of "f k"])
qed simp

datatype 'h hook_op = RegisterHook "'h hook_registration" | UnregisterHooks u128 | ClearHooks

fun hook_step :: "'h hook_op \<Rightarrow> 'h hook_manager \<Rightarrow> 'h hook_manager" where
  "hook_step (RegisterHook r) m = register_hook r m"
| "hook_step (UnregisterHooks i) m = fst (unregister_plugin_hooks i m)"
| "hook_step ClearHooks m = clear_all_hooks m"

text \<open>The abstract state: the live registrations in the order they were made.\<close>

fun live_step :: "'h hook_op \<Rightarrow> 'h hook_registration list \<Rightarrow> 'h hook_registration list" where
  "live_step (RegisterHook r) rs = rs @ [r]"
| "live_step (UnregisterHooks i) rs = filter (\<lambda>r. hr_plugin_id r \<noteq> i) rs"
| "live_step ClearHooks rs = []"

definition hooks_refine :: "'h hook_manager \<Rightarrow> 'h hook_registration list \<Rightarrow> bool" where
  "hooks_refine m rs \<longleftrightarrow>
     (\<forall>p. hook_details p m = sort_key prio (filter (\<lambda>r. hr_hook_point r = p) rs))
     \<and> (\<forall>i. hm_get_or [] (hkm_plugin_hooks m) i = map hr_hook_point (filter (\<lambda>r. hr_plugin_id r = i) rs))"

lemma retain_other_details:
  "hm_get_or [] (fst (retain_other i ps hooks n)) q =
     (if q \<in> set ps then filter (\<lambda>r. hr_plugin_id r \<noteq> i) (hm_get_or [] hooks q) else hm_get_or [] hooks q)"
  by (induction ps arbitrary: hooks n) (auto simp: Let_def hm_get_or_None hm_get_or_Some split: option.split)

lemma retain_other_count:
  "snd (retain_other i ps hooks n) = n + (\<Sum>p\<in>set ps. length (filter (\<lambda>r. hr_plugin_id r = i) (hm_get_or [] hooks p)))"
proof (induction ps arbitrary: hooks n)
  case (Cons p ps)
  let ?own = "\<lambda>hooks q. length (filter (\<lambda>r. hr_plugin_id r = i) (hm_get_or [] hooks q))"
  have split: "(\<Sum>q\<in>set (p # ps). ?own hooks q) = ?own hooks p + (\<Sum>q\<in>set ps - {p}. ?own hooks q)"
    by (simp add: sum.insert_remove)
  show ?case
  proof (cases "hm_get hooks p")
    case None
    then have "?own hooks p = 0" by (simp add: hm_get_or_None)
    then have "(\<Sum>q\<in>set ps. ?own hooks q) = (\<Sum>q\<in>set ps - {p}. ?own hooks q)"
      by (intro sum.mono_neutral_right) auto
    with None Cons.IH split \<open>?own hooks p = 0\<close> show ?thesis by simp
  next
    case (Some rs)
    let ?rs = "filter (\<lambda>r. hr_plugin_id r \<noteq> i) rs"
    let ?hooks = "hm_insert p ?rs hooks"
    have "length rs - length ?rs = ?own hooks p"
      using sum_length_filter_compl[of "\<lambda>r. hr_plugin_id r = i" rs] Some by (simp add: hm_get_or_Some)
    moreover have "(\<Sum>q\<in>set ps. ?own ?hooks q) = (\<Sum>q\<in>set ps - {p}. ?own hooks q)"
      by (rule sum.mono_neutral_cong_right) (auto simp: filter_empty_conv)
    ultimately show ?thesis using Some Cons.IH split by (simp add: Let_def)
  qed
qed simp

lemma sum_length_classes: "(\<Sum>k\<in>set (map f xs). length (filter (\<lambda>x. f x = k) xs)) = length xs"
proof -
  have "length (filter (\<lambda>x. f x = k) xs) = count_list (map f xs) k" for k
    by (induction xs) auto
  then show ?thesis using sum_count_set[of "map f xs" "set (map f xs)"] by simp
qed

lemma hook_register_refines: "hooks_refine m rs \<Longrightarrow> hooks_refine (register_hook r m) (rs @ [r])"
  by (auto simp: hooks_refine_def hook_details_def register_hook_def Let_def sort_key_snoc_sorted)

lemma unregister_details:
  assumes "hooks_refine m rs"
  shows "hook_details p (fst (unregister_plugin_hooks i m)) = filter (\<lambda>r. hr_plugin_id r \<noteq> i) (hook_details p m)"
proof -
  have plain: "filter (\<lambda>r. hr_plugin_id r \<noteq> i) (hook_details p m) = hook_details p m"
    if "p \<notin> set (hm_get_or [] (hkm_plugin_hooks m) i)"
    using assms that by (auto simp: hooks_refine_def filter_id_conv)
  show ?thesis
  proof (cases "hm_get (hkm_plugin_hooks m) i")
    case None
    with plain show ?thesis by (simp add: unregister_plugin_hooks_def hm_get_or_None)
  next
    case (Some ps)
    then have "hook_details p (fst (unregister_plugin_hooks i m)) = hm_get_or [] (fst (retain_other i ps (hkm_hooks m) 0)) p"
      by (simp add: unregister_plugin_hooks_def hook_details_def Let_def split: prod.split)
    with Some plain show ?thesis by (auto simp: retain_other_details hm_get_or_Some hook_details_def)
  qed
qed

lemma hook_unregister_refines:
  assumes "hooks_refine m rs"
  shows "hooks_refine (fst (unregister_plugin_hooks i m)) (filter (\<lambda>r. hr_plugin_id r \<noteq> i) rs)"
proof -
  have "hm_get_or [] (hkm_plugin_hooks (fst (unregister_plugin_hooks i m))) j =
      (if j = i then [] else hm_get_or [] (hkm_plugin_hooks m) j)" for j
    by (auto simp: unregister_plugin_hooks_def Let_def hm_get_or_remove hm_get_or_None split: option.split prod.split)
  moreover have "filter (\<lambda>r. hr_plugin_id r = j) (filter (\<lambda>r. hr_plugin_id r \<noteq> i) rs) =
      (if j = i then [] else filter (\<lambda>r. hr_plugin_id r = j) rs)" for j
    by (auto simp: filter_empty_conv intro: filter_cong)
  ultimately show ?thesis
    using assms by (simp add: hooks_refine_def unregister_details[OF assms] filter_sort conj_commute)
qed

lemma unregister_count:
  assumes "hooks_refine m rs"
  shows "snd (unregister_plugin_hooks i m) = length (filter (\<lambda>r. hr_plugin_id r = i) rs)"
proof -
  let ?own = "filter (\<lambda>r. hr_plugin_id r = i) rs"
  have points: "hm_get_or [] (hkm_plugin_hooks m) i = map hr_hook_point ?own" using assms by (simp add: hooks_refine_def)
  show ?thesis
  proof (cases "hm_get (hkm_plugin_hooks m) i")
    case None
    with points have "?own = []" by (simp add: hm_get_or_None)
    with None show ?thesis by (simp only: unregister_plugin_hooks_def) simp
  next
    case (Some ps)
    with points have ps: "ps = map hr_hook_point ?own" by (simp add: hm_get_or_Some)
    have at: "length (filter (\<lambda>r. hr_plugin_id r = i) (hm_get_or [] (hkm_hooks m) p)) = length (filter (\<lambda>r. hr_hook_point r = p) ?own)" for p
    proof -
      have "filter (\<lambda>r. hr_plugin_id r = i) (hm_get_or [] (hkm_hooks m) p) = sort_key prio (filter (\<lambda>r. hr_hook_point r = p) ?own)"
        using assms by (simp add: hooks_refine_def hook_details_def filter_sort conj_commute)
      then show ?thesis by simp
    qed
    have "snd (unregister_plugin_hooks i m) = (\<Sum>p\<in>set ps. length (filter (\<lambda>r. hr_hook_point r = p) ?own))"
      using Some retain_other_count[of i ps "hkm_hooks m" 0] at
      by (cases "retain_other i ps (hkm_hooks m) 0") (simp add: unregister_plugin_hooks_def Let_def)
    also have "\<dots> = length ?own" unfolding ps by (rule sum_length_classes)
    finally show ?thesis .
  qed
qed

lemma hooks_run_refine: "hooks_refine m rs \<Longrightarrow> hooks_refine (fold hook_step xs m) (fold live_step xs rs)"
proof (induction xs arbitrary: m rs)
  case (Cons x xs)
  have "hooks_refine (hook_step x m) (live_step x rs)"
    using Cons.prems
    by (cases x) (auto simp: hook_register_refines hook_unregister_refines, simp add: hooks_refine_def clear_all_hooks_def hook_details_def hm_get_or_def)
  from Cons.IH[OF this] show ?case by simp
qed simp

lemma hook_manager_new_refines: "hooks_refine hook_manager_new []"
  by (simp add: hooks_refine_def hook_manager_new_def hook_details_def hm_get_or_def)

text \<open>
  the hooks of a point run in order of priority, and hooks of equal priority in the order they were registered. After any
  sequence of registrations and removals the list of a point is the stable sort, by priority, of the registrations that are
  still live; and removing a plugin removes exactly its live registrations and returns their number.
\<close>

theorem hooks_sorted_stably:
  "hook_details p (fold hook_step xs hook_manager_new) =
     sort_key (\<lambda>r. sint (hr_priority r)) (filter (\<lambda>r. hr_hook_point r = p) (fold live_step xs []))
   \<and> snd (unregister_plugin_hooks i (fold hook_step xs hook_manager_new)) =
       length (filter (\<lambda>r. hr_plugin_id r = i) (fold live_step xs []))
   \<and> hook_details p (fst (unregister_plugin_hooks i (fold hook_step xs hook_manager_new))) =
       filter (\<lambda>r. hr_plugin_id r \<noteq> i) (hook_details p (fold hook_step xs hook_manager_new))"
proof -
  have ok: "hooks_refine (fold hook_step xs hook_manager_new) (fold live_step xs [])"
    by (rule hooks_run_refine[OF hook_manager_new_refines])
  then show ?thesis using unregister_count[OF ok] unregister_details[OF ok] by (simp add: hooks_refine_def)
qed

section \<open>Execution\<close>

fun goes_on :: "(('m, 'c) hook_result, string) result \<Rightarrow> bool" where
  "goes_on (Ok x) = (x \<noteq> Stop)"
| "goes_on _ = False"

fun ok_value :: "('a, 'e) result \<Rightarrow> 'a list" where
  "ok_value (Ok x) = [x]"
| "ok_value _ = []"

text \<open>What the chain of answers amounts to, without the metrics.\<close>

definition chain_result :: "(u128 \<Rightarrow> string) \<Rightarrow> hook_point \<Rightarrow> (u128 \<times> (('m, 'c) hook_result, string) result) list
    \<Rightarrow> (('m, 'c) hook_result list, hook_error) result" where
  "chain_result show_id p as =
     (let before = takeWhile (goes_on \<circ> snd) as
      in case drop (length before) as of
           [] \<Rightarrow> Ok (concat (map (ok_value \<circ> snd) as))
         | (i, Ok x) # _ \<Rightarrow> Ok (concat (map (ok_value \<circ> snd) before) @ [x])
         | (i, Err e) # _ \<Rightarrow> Err (HookExecutionFailed (show_id i) (hook_point_name p) e)
         | (i, Panic) # _ \<Rightarrow> Panic)"

lemma hook_record_some:
  assumes "unat (hk_total_executions mt) + 1 < 2 ^ 32"
  shows "\<exists>mt'. hook_record_execution d b mt = Some mt' \<and> unat (hk_total_executions mt') = unat (hk_total_executions mt) + 1"
proof -
  have u: "unat (hk_total_executions mt + 1) = unat (hk_total_executions mt) + 1"
    using assms unat_plus_one[of "hk_total_executions mt"] by simp
  have "unat (ucast (hk_total_executions mt + 1) :: u32) = unat (hk_total_executions mt) + 1"
    using assms by (simp add: unsigned_ucast_eq take_bit_nat_eq_self u)
  then have "(ucast (hk_total_executions mt + 1) :: u32) \<noteq> 0" by auto
  then show ?thesis using u by (auto simp: hook_record_execution_def Let_def)
qed

lemma run_hooks_chain:
  assumes "unat (hk_total_executions mt) + length rs < 2 ^ 32"
  shows "snd (run_hooks show_id answer msg ctx p rs results mt) =
     (case chain_result show_id p (map (\<lambda>r. (hr_plugin_id r, fst (answer r msg ctx))) rs) of
        Ok xs \<Rightarrow> Ok (results @ xs) | Err e \<Rightarrow> Err e | Panic \<Rightarrow> Panic)"
  using assms
proof (induction rs arbitrary: results mt)
  case Nil
  then show ?case by (simp add: chain_result_def)
next
  case (Cons r rs)
  obtain a d where a: "answer r msg ctx = (a, d)" by fastforce
  have "unat (hk_total_executions mt) + 1 < 2 ^ 32" using Cons.prems by simp
  note rec = hook_record_some[OF this, of d]
  show ?case
  proof (cases "goes_on a")
    case True
    then obtain x where x: "a = Ok x" "x \<noteq> Stop" by (cases a) auto
    obtain mt' where mt': "hook_record_execution d True mt = Some mt'" "unat (hk_total_executions mt') = unat (hk_total_executions mt) + 1"
      using rec by blast
    then have "unat (hk_total_executions mt') + length rs < 2 ^ 32" using Cons.prems by simp
    from Cons.IH[OF this, of "results @ [x]"] show ?thesis
      using a x mt'(1) by (auto simp: chain_result_def Let_def split: list.splits prod.splits result.splits)
  next
    case False
    obtain m1 where m1: "hook_record_execution d True mt = Some m1" using rec by blast
    obtain m2 where m2: "hook_record_execution d False mt = Some m2" using rec by blast
    from False a m1 m2 show ?thesis by (cases a) (auto simp: chain_result_def)
  qed
qed

text \<open>
  executing a point is the chain of its hooks. As long as fewer than \<open>2\<^sup>3\<^sup>2\<close> executions have been counted, the
  result is that of the hooks in their order, each on the original message: all results up to and with the
  first \<open>Stop\<close>; or, if a hook fails before one stops, its error alone, the results of the earlier hooks being lost.
\<close>

theorem execute_hooks_chain:
  assumes "unat (hk_total_executions (hkm_metrics m)) + length (hook_details p m) < 2 ^ 32"
  shows "snd (execute_hooks show_id answer p msg ctx m) =
     chain_result show_id p (map (\<lambda>r. (hr_plugin_id r, fst (answer r msg ctx))) (hook_details p m))"
proof (cases "hm_get (hkm_hooks m) p")
  case None
  then show ?thesis by (simp add: execute_hooks_def hook_details_def hm_get_or_None chain_result_def)
next
  case (Some rs)
  then have rs: "hook_details p m = rs" by (simp add: hook_details_def hm_get_or_Some)
  have "snd (execute_hooks show_id answer p msg ctx m) = snd (run_hooks show_id answer msg ctx p rs [] (hkm_metrics m))"
    using Some by (simp add: execute_hooks_def split: prod.split)
  also have "\<dots> = chain_result show_id p (map (\<lambda>r. (hr_plugin_id r, fst (answer r msg ctx))) rs)"
    using run_hooks_chain[OF assms[unfolded rs], of show_id answer msg ctx p "[]"] by (auto split: result.splits)
  finally show ?thesis by (simp add: rs)
qed

theorem execute_hooks_chain_witness:
  "snd (execute_hooks (\<lambda>i. ''p'') (\<lambda>r msg ctx. (if hr_plugin_id r = 2 then Ok Stop else Ok (ModifyAndContinue (0 :: nat)), 5)) PreRouting 7 ()
     (fold register_hook [hook_registration_new 0 1 PreRouting low_priority (), hook_registration_new 0 2 PreRouting normal_priority (),
        hook_registration_new 0 3 PreRouting high_priority ()] hook_manager_new)) = Ok [ModifyAndContinue 0, Stop]"
proof -
  let ?m = "fold register_hook [hook_registration_new 0 1 PreRouting low_priority (), hook_registration_new 0 2 PreRouting normal_priority (),
        hook_registration_new 0 3 PreRouting high_priority ()] hook_manager_new"
  have d: "hook_details PreRouting ?m = [hook_registration_new 0 3 PreRouting high_priority (), hook_registration_new 0 2 PreRouting normal_priority (),
      hook_registration_new 0 1 PreRouting low_priority ()]"
    by (simp add: register_hook_def hook_manager_new_def hook_details_def hm_get_or_def hm_insert_def hook_registration_new_def
        low_priority_def normal_priority_def high_priority_def Let_def)
  have "hk_total_executions (hkm_metrics ?m) = 0"
    by (simp add: register_hook_def hook_manager_new_def hook_metrics_new_def Let_def)
  with d have "unat (hk_total_executions (hkm_metrics ?m)) + length (hook_details PreRouting ?m) < 2 ^ 32" by simp
  then show ?thesis
    by (rule trans[OF execute_hooks_chain]) (unfold d, simp add: chain_result_def hook_registration_new_def)
qed

text \<open>The execution that brings the count to \<open>2\<^sup>3\<^sup>2\<close> panics in the metrics, after the hook has run.\<close>

lemma metrics_panic:
  assumes "hk_total_executions mt = 2 ^ 32 - 1"
  shows "hook_record_execution d b mt = None"
  using assms by (simp add: hook_record_execution_def Let_def)

text \<open>A result that updates the context is not equal to itself.\<close>

lemma update_context_not_reflexive: "\<not> hook_result_eq (UpdateContext c) (UpdateContext c)"
  by simp

end
