(* ===== verification/Runtime_Topology.thy ===== *)
theory Runtime_Topology
  imports Wal Plugin_Security
begin

text \<open>
  CPU sets and the NUMA topology, \<^verbatim>\<open>src/kaelix-core/src/runtime/affinity.rs\<close>: the parsers of the kernel's files, the
  detection of the nodes and the placement of workers. The file system is an argument (the entries of the node
  directory with the contents of their files), as are the number of CPUs and the text of a parse error. Text is ASCII.
\<close>

section \<open>CPU sets and nodes\<close>

record cpu_set =
  cps_cores :: "usize set"
  cps_numa_node :: "usize option"

definition cpu_set_new :: cpu_set where
  "cpu_set_new = \<lparr>cps_cores = {}, cps_numa_node = None\<rparr>"

definition from_cores :: "usize list \<Rightarrow> cpu_set" where
  "from_cores cores = \<lparr>cps_cores = set cores, cps_numa_node = None\<rparr>"

definition with_numa_node :: "usize list \<Rightarrow> usize \<Rightarrow> cpu_set" where
  "with_numa_node cores node = \<lparr>cps_cores = set cores, cps_numa_node = Some node\<rparr>"

definition add_core :: "usize \<Rightarrow> cpu_set \<Rightarrow> cpu_set" where
  "add_core c s = s\<lparr>cps_cores := insert c (cps_cores s)\<rparr>"

definition remove_core :: "usize \<Rightarrow> cpu_set \<Rightarrow> cpu_set \<times> bool" where
  "remove_core c s = (s\<lparr>cps_cores := cps_cores s - {c}\<rparr>, c \<in> cps_cores s)"

definition set_numa_node :: "usize \<Rightarrow> cpu_set \<Rightarrow> cpu_set" where
  "set_numa_node node s = s\<lparr>cps_numa_node := Some node\<rparr>"

definition all_cores :: "usize \<Rightarrow> cpu_set" where
  "all_cores num_cpus = from_cores [0..<num_cpus]"

fun comma_separated :: "string list \<Rightarrow> string" where
  "comma_separated [] = []"
| "comma_separated [x] = x"
| "comma_separated (x # xs) = x @ '','' @ comma_separated xs"

definition cpu_set_str :: "cpu_set \<Rightarrow> string" where
  "cpu_set_str s =
     ''CpuSet{'' @ comma_separated (map decimal (sorted_list_of_set (cps_cores s)))
     @ (case cps_numa_node s of None \<Rightarrow> [] | Some node \<Rightarrow> '' numa:'' @ decimal node) @ ''}''"

record numa_node =
  nn_id :: usize
  nn_cores :: "usize list"
  nn_memory_size :: u64
  nn_available_memory :: u64
  nn_distances :: "(usize, u32) hash_map"

definition numa_node_new :: "usize \<Rightarrow> usize list \<Rightarrow> numa_node" where
  "numa_node_new i cores =
     \<lparr>nn_id = i, nn_cores = cores, nn_memory_size = 0, nn_available_memory = 0, nn_distances = []\<rparr>"

definition node_contains_core :: "usize \<Rightarrow> numa_node \<Rightarrow> bool" where
  "node_contains_core c n = (c \<in> set (nn_cores n))"

definition distance_to :: "usize \<Rightarrow> numa_node \<Rightarrow> u32 option" where
  "distance_to other n = hm_get (nn_distances n) other"

definition memory_utilization :: "'f float_ops \<Rightarrow> numa_node \<Rightarrow> 'f" where
  "memory_utilization fl n =
     (if nn_memory_size n = 0 then fl_tenths fl 0
      else fl_sub fl (fl_tenths fl 10)
        (fl_div fl (fl_of_usize fl (unat (nn_available_memory n))) (fl_of_usize fl (unat (nn_memory_size n)))))"

record memory_topology =
  mt_total_memory :: u64
  mt_available_memory :: u64
  mt_numa_memory :: "(usize, u64) hash_map"

record numa_topology =
  nt_nodes :: "numa_node list"
  nt_cpu_mapping :: "(usize, usize) hash_map"
  nt_memory_info :: memory_topology
  nt_numa_available :: bool

section \<open>The kernel's files\<close>

datatype topology_error = NumaTopologyError string

definition is_space :: "char \<Rightarrow> bool" where
  "is_space c = ((of_char c :: nat) = 32 \<or> 9 \<le> (of_char c :: nat) \<and> (of_char c :: nat) \<le> 13)"

definition trim :: "string \<Rightarrow> string" where
  "trim s = rev (dropWhile is_space (rev (dropWhile is_space s)))"

type_synonym parse_error_text = "string \<Rightarrow> string"

definition parse_usize :: "parse_error_text \<Rightarrow> string \<Rightarrow> string \<Rightarrow> (usize, topology_error) result" where
  "parse_usize err what s =
     (case parse_u64 s of None \<Rightarrow> Err (NumaTopologyError (what @ err s)) | Some n \<Rightarrow> Ok (unat n))"

definition parse_cpu_range :: "parse_error_text \<Rightarrow> string \<Rightarrow> (usize list, topology_error) result" where
  "parse_cpu_range err part =
     (let r = trim part in
      if r = [] then Ok []
      else if CHR ''-'' \<in> set r then
        and_then (parse_usize err ''Invalid CPU range start: '' (takeWhile (\<lambda>c. c \<noteq> CHR ''-'') r)) (\<lambda>lo.
        and_then (parse_usize err ''Invalid CPU range end: '' (tl (dropWhile (\<lambda>c. c \<noteq> CHR ''-'') r))) (\<lambda>hi.
          Ok [lo..<Suc hi]))
      else and_then (parse_usize err ''Invalid CPU ID: '' r) (\<lambda>cpu. Ok [cpu]))"

fun parse_cpu_ranges :: "parse_error_text \<Rightarrow> string list \<Rightarrow> (usize list, topology_error) result" where
  "parse_cpu_ranges err [] = Ok []"
| "parse_cpu_ranges err (r # rs) =
     and_then (parse_cpu_range err r) (\<lambda>xs. and_then (parse_cpu_ranges err rs) (\<lambda>ys. Ok (xs @ ys)))"

definition parse_cpulist :: "parse_error_text \<Rightarrow> string \<Rightarrow> (usize list, topology_error) result" where
  "parse_cpulist err cpulist = parse_cpu_ranges err (split_on CHR '','' cpulist)"

text \<open>\<open>str::lines\<close>; \<open>rfind\<close> is the position of the last occurrence.\<close>

definition strip_cr :: "string \<Rightarrow> string" where
  "strip_cr l = (if l \<noteq> [] \<and> last l = CHR 0x0D then butlast l else l)"

definition text_lines :: "string \<Rightarrow> string list" where
  "text_lines s =
     (let ls = split_on CHR 0x0A s in map strip_cr (if last ls = [] then butlast ls else ls))"

definition positions :: "string \<Rightarrow> string \<Rightarrow> nat list" where
  "positions pat s = filter (\<lambda>i. prefix pat (drop i s)) [0..<Suc (length s)]"

definition rfind :: "string \<Rightarrow> string \<Rightarrow> nat option" where
  "rfind pat s = (let ps = positions pat s in if ps = [] then None else Some (last ps))"

fun node_memory_of_lines :: "string list \<Rightarrow> (u64, unit) result" where
  "node_memory_of_lines [] = Ok 0"
| "node_memory_of_lines (line # lines) =
     (if prefix ''Node'' line \<and> str_contains ''MemTotal:'' line then
        (case rfind '' kB'' line of
           None \<Rightarrow> node_memory_of_lines lines
         | Some kb_pos \<Rightarrow>
             (case rfind '' '' line of
                None \<Rightarrow> node_memory_of_lines lines
              | Some size_start \<Rightarrow>
                  if kb_pos < size_start + 1 then Panic
                  else (case parse_u64 (drop (size_start + 1) (take kb_pos line)) of
                          Some kb \<Rightarrow> Ok (kb * 1024)
                        | None \<Rightarrow> node_memory_of_lines lines)))
      else node_memory_of_lines lines)"

definition parse_node_memory :: "string \<Rightarrow> (u64, unit) result" where
  "parse_node_memory meminfo = node_memory_of_lines (text_lines meminfo)"

section \<open>Detection\<close>

text \<open>An entry of the node directory: its name, its file \<^verbatim>\<open>cpulist\<close> (missing, or an error or the text when read) and its
  file \<^verbatim>\<open>meminfo\<close> (if it can be read).\<close>

record node_dir_entry =
  nd_name :: string
  nd_cpulist :: "(string, string) result option"
  nd_meminfo :: "string option"

definition create_single_node :: "usize \<Rightarrow> numa_node list \<times> (usize, usize) hash_map" where
  "create_single_node num_cpus =
     ([numa_node_new 0 [0..<num_cpus]], fold (\<lambda>c m. hm_insert c 0 m) [0..<num_cpus] [])"

definition detect_node :: "parse_error_text \<Rightarrow> usize \<Rightarrow> string \<Rightarrow> string option \<Rightarrow> numa_node list \<times> (usize, usize) hash_map
    \<Rightarrow> (numa_node list \<times> (usize, usize) hash_map, topology_error) result" where
  "detect_node err node_id cpulist meminfo acc =
     and_then (parse_cpulist err (trim cpulist)) (\<lambda>cores.
       let mapping = fold (\<lambda>c m. hm_insert c node_id m) cores (snd acc); node = numa_node_new node_id cores
       in case meminfo of
            None \<Rightarrow> Ok (fst acc @ [node], mapping)
          | Some txt \<Rightarrow>
              (case parse_node_memory txt of
                 Ok n \<Rightarrow> Ok (fst acc @ [node\<lparr>nn_memory_size := n\<rparr>], mapping)
               | _ \<Rightarrow> Panic))"

fun detect_entries :: "parse_error_text \<Rightarrow> (node_dir_entry, string) result list \<Rightarrow> numa_node list \<times> (usize, usize) hash_map
    \<Rightarrow> (numa_node list \<times> (usize, usize) hash_map, topology_error) result" where
  "detect_entries err [] acc = Ok acc"
| "detect_entries err (Err msg # es) acc = Err (NumaTopologyError msg)"
| "detect_entries err (Panic # es) acc = Panic"
| "detect_entries err (Ok e # es) acc =
     (if \<not> prefix ''node'' (nd_name e) then detect_entries err es acc
      else case parse_u64 (drop 4 (nd_name e)) of
        None \<Rightarrow> detect_entries err es acc
      | Some i \<Rightarrow>
          (case nd_cpulist e of
             None \<Rightarrow> detect_entries err es acc
           | Some (Err msg) \<Rightarrow> Err (NumaTopologyError msg)
           | Some Panic \<Rightarrow> Panic
           | Some (Ok cpulist) \<Rightarrow>
               and_then (detect_node err (unat i) cpulist (nd_meminfo e) acc) (detect_entries err es)))"

definition detect_numa_nodes :: "parse_error_text \<Rightarrow> usize \<Rightarrow> ((node_dir_entry, string) result list, string) result
    \<Rightarrow> (numa_node list \<times> (usize, usize) hash_map, topology_error) result" where
  "detect_numa_nodes err num_cpus dir =
     (case dir of
        Err msg \<Rightarrow> Err (NumaTopologyError msg)
      | Panic \<Rightarrow> Panic
      | Ok es \<Rightarrow>
          and_then (detect_entries err es ([], [])) (\<lambda>(nodes, mapping).
            if nodes = [] then Ok (create_single_node num_cpus) else Ok (sort_key nn_id nodes, mapping)))"

definition detect_memory_topology :: "u64 \<Rightarrow> numa_node list \<Rightarrow> memory_topology" where
  "detect_memory_topology available nodes =
     \<lparr>mt_total_memory = sum_list (map nn_memory_size nodes), mt_available_memory = available,
      mt_numa_memory = fold (\<lambda>n m. hm_insert (nn_id n) (nn_memory_size n) m) nodes []\<rparr>"

text \<open>\<open>dir\<close> is \<open>None\<close> where the node directory does not exist.\<close>

definition topology_detect :: "parse_error_text \<Rightarrow> usize \<Rightarrow> u64 \<Rightarrow> ((node_dir_entry, string) result list, string) result option
    \<Rightarrow> (numa_topology, topology_error) result" where
  "topology_detect err num_cpus available dir =
     and_then (case dir of None \<Rightarrow> Ok (create_single_node num_cpus) | Some d \<Rightarrow> detect_numa_nodes err num_cpus d) (\<lambda>(nodes, mapping).
       Ok \<lparr>nt_nodes = nodes, nt_cpu_mapping = mapping, nt_memory_info = detect_memory_topology available nodes,
           nt_numa_available = (dir \<noteq> None)\<rparr>)"

definition topology_node :: "usize \<Rightarrow> numa_topology \<Rightarrow> numa_node option" where
  "topology_node i t = find (\<lambda>n. nn_id n = i) (nt_nodes t)"

definition node_for_cpu :: "usize \<Rightarrow> numa_topology \<Rightarrow> usize option" where
  "node_for_cpu c t = hm_get (nt_cpu_mapping t) c"

definition optimal_worker_count :: "usize \<Rightarrow> numa_topology \<Rightarrow> usize" where
  "optimal_worker_count num_cpus t =
     (if nt_numa_available t then min (length (nt_nodes t) * 4) (length (nt_cpu_mapping t)) else num_cpus)"

section \<open>Placement of workers\<close>

definition flat_placement :: "usize \<Rightarrow> usize \<Rightarrow> (cpu_set list, unit) result" where
  "flat_placement total_cores worker_count =
     (if worker_count = 0 then Panic
      else let cores_per_worker = max 1 (total_cores div worker_count) in
        if total_cores = 0 then Panic
        else Ok (map (\<lambda>w. let start = (w * cores_per_worker) mod total_cores;
                              stop = min (start + cores_per_worker) total_cores
                          in from_cores [start..<stop]) [0..<worker_count]))"

fun place_on_node :: "usize \<Rightarrow> numa_node \<Rightarrow> usize \<Rightarrow> nat list \<Rightarrow> cpu_set list \<Rightarrow> cpu_set list" where
  "place_on_node worker_count node cores_per_worker [] acc = acc"
| "place_on_node worker_count node cores_per_worker (w # ws) acc =
     (if worker_count \<le> length acc then acc
      else let start = w * cores_per_worker; stop = min (start + cores_per_worker) (length (nn_cores node))
        in place_on_node worker_count node cores_per_worker ws
             (if start < length (nn_cores node)
              then acc @ [set_numa_node (nn_id node) (from_cores (drop start (take stop (nn_cores node))))] else acc))"

definition fill_worker :: "numa_node list \<Rightarrow> nat \<Rightarrow> cpu_set list" where
  "fill_worker nodes w =
     (let node = nodes ! (w mod length nodes) in
      if nn_cores node \<noteq> [] then [set_numa_node (nn_id node) (from_cores [nn_cores node ! (w mod length (nn_cores node))])] else [])"

definition numa_placement :: "numa_node list \<Rightarrow> usize \<Rightarrow> cpu_set list" where
  "numa_placement nodes worker_count =
     (let workers_per_node = max 1 (worker_count div length nodes);
          placed = fold (\<lambda>node acc.
              place_on_node worker_count node (max 1 (length (nn_cores node) div workers_per_node)) [0..<workers_per_node] acc) nodes []
      in placed @ concat (map (fill_worker nodes) [length placed..<worker_count]))"

definition optimal_worker_placement :: "usize \<Rightarrow> usize \<Rightarrow> numa_topology \<Rightarrow> (cpu_set list, unit) result" where
  "optimal_worker_placement num_cpus worker_count t =
     (if \<not> nt_numa_available t \<or> nt_nodes t = [] then flat_placement num_cpus worker_count
      else Ok (numa_placement (nt_nodes t) worker_count))"

section \<open>The memory of a node is never read\<close>

lemma set_positions: "set (positions pat s) = {i. i \<le> length s \<and> prefix pat (drop i s)}"
  unfolding positions_def by (auto simp del: upt_Suc)

lemma sorted_positions: "sorted (positions pat s)"
  unfolding positions_def by (simp add: sorted_wrt_filter del: upt_Suc)

lemma sorted_le_last: "sorted xs \<Longrightarrow> x \<in> set xs \<Longrightarrow> x \<le> last (xs :: nat list)"
  by (induction xs) (auto simp: last_in_set)

lemma rfind_Some: "rfind pat s = Some i \<Longrightarrow> i \<le> length s \<and> prefix pat (drop i s)"
  using set_positions[of pat s] last_in_set[of "positions pat s"] by (auto simp: rfind_def Let_def split: if_splits)

lemma rfind_ge:
  assumes "prefix pat (drop i s)" "i \<le> length s"
  shows "\<exists>j. rfind pat s = Some j \<and> i \<le> j"
proof -
  have i: "i \<in> set (positions pat s)" using assms by (simp add: set_positions)
  then have "positions pat s \<noteq> []" by auto
  with sorted_le_last[OF sorted_positions i] show ?thesis by (simp add: rfind_def Let_def)
qed

lemma rfind_None: "rfind pat s = None \<longleftrightarrow> \<not> str_contains pat s"
proof
  show "rfind pat s = None \<Longrightarrow> \<not> str_contains pat s"
  proof
    assume none: "rfind pat s = None" and "str_contains pat s"
    then obtain a b where "s = a @ pat @ b" by (auto simp: str_contains_iff)
    then have "prefix pat (drop (length a) s)" "length a \<le> length s" by simp_all
    from rfind_ge[OF this] none show False by simp
  qed
  show "\<not> str_contains pat s \<Longrightarrow> rfind pat s = None"
  proof (rule ccontr)
    assume no: "\<not> str_contains pat s" and "rfind pat s \<noteq> None"
    then obtain i where "prefix pat (drop i s)" using rfind_Some by (cases "rfind pat s") auto
    then obtain b where "s = take i s @ pat @ b" unfolding prefix_def by (metis append_take_drop_id)
    with no show False unfolding str_contains_iff by blast
  qed
qed

definition total_line :: "string \<Rightarrow> bool" where
  "total_line l = (prefix ''Node'' l \<and> str_contains ''MemTotal:'' l \<and> str_contains '' kB'' l)"

lemma node_memory_panics: "node_memory_of_lines ls = (if list_ex total_line ls then Panic else Ok 0)"
proof (induction ls)
  case (Cons l ls)
  show ?case
  proof (cases "prefix ''Node'' l \<and> str_contains ''MemTotal:'' l")
    case True
    show ?thesis
    proof (cases "rfind '' kB'' l")
      case None
      then have "\<not> str_contains '' kB'' l" using rfind_None by blast
      with True None Cons show ?thesis by (simp add: total_line_def)
    next
      case (Some i)
      then have "str_contains '' kB'' l" using rfind_None[of "'' kB''" l] by auto
      moreover obtain j where "rfind '' '' l = Some j" "i \<le> j"
        using rfind_ge[of "'' ''" i l] rfind_Some[OF Some] by (auto simp: prefix_def)
      ultimately show ?thesis using True Some by (simp add: total_line_def)
    qed
  next
    case False
    with Cons show ?thesis by (auto simp: total_line_def)
  qed
qed simp

text \<open>
  C1: the memory of a NUMA node is never read. On any text \<open>
  parse_node_memory\<close> either finds no line of the form the
  kernel writes and answers 0, or it finds one and panics: the last space of such a line is the one before
  \<^verbatim>\<open>kB\<close>, so the range it cuts the number from ends before it starts.
\<close>

theorem node_memory_never_read:
  "parse_node_memory txt =
     (if list_ex (\<lambda>l. prefix ''Node'' l \<and> str_contains ''MemTotal:'' l \<and> str_contains '' kB'' l) (text_lines txt)
      then Panic else Ok 0)"
  using node_memory_panics[of "text_lines txt"] by (simp add: parse_node_memory_def total_line_def[abs_def])

text \<open>So detection panics on a machine whose first node has such a file.\<close>

lemma detection_panics:
  assumes "nd_name e = ''node0''" "nd_cpulist e = Some (Ok ''0-3'')" "nd_meminfo e = Some ''Node 0 MemTotal: 16 kB''"
  shows "topology_detect err n a (Some (Ok (Ok e # es))) = Panic"
proof -
  have "parse_u64 ''0'' = Some 0" "parse_u64 ''3'' = Some 3" by (simp_all add: parse_u64_def is_digit_def digits_value_def)
  then have cpus: "parse_cpulist err (trim ''0-3'') = Ok [0, 1, 2, 3]"
    by (simp add: parse_cpulist_def parse_cpu_range_def trim_def is_space_def parse_usize_def upt_rec)
  have "parse_node_memory ''Node 0 MemTotal: 16 kB'' = Panic"
    by (simp add: node_memory_never_read text_lines_def strip_cr_def str_contains_def Let_def)
  with cpus assms \<open>parse_u64 ''0'' = Some 0\<close> show ?thesis
    by (simp add: topology_detect_def detect_numa_nodes_def detect_node_def Let_def)
qed

section \<open>CPU lists\<close>

datatype cpu_range = OneCpu nat | CpuRange nat nat

fun range_text :: "cpu_range \<Rightarrow> string" where
  "range_text (OneCpu n) = decimal n"
| "range_text (CpuRange lo hi) = decimal lo @ ''-'' @ decimal hi"

fun range_cpus :: "cpu_range \<Rightarrow> nat list" where
  "range_cpus (OneCpu n) = [n]"
| "range_cpus (CpuRange lo hi) = [lo..<Suc hi]"

fun range_fits :: "cpu_range \<Rightarrow> bool" where
  "range_fits (OneCpu n) = (n < 2 ^ 64)"
| "range_fits (CpuRange lo hi) = (lo < 2 ^ 64 \<and> hi < 2 ^ 64)"

lemma decimal_plain: "c \<in> set (decimal n) \<Longrightarrow> c \<noteq> CHR ''-'' \<and> c \<noteq> CHR '','' \<and> \<not> is_space c"
  using decimal_char[of c n] by (auto simp: is_digit_def is_space_def)

lemma range_text_plain: "c \<in> set (range_text r) \<Longrightarrow> c \<noteq> CHR '','' \<and> \<not> is_space c"
  by (cases r) (auto dest: decimal_plain simp: is_space_def)

lemma dropWhile_none: "(\<And>c. c \<in> set s \<Longrightarrow> \<not> P c) \<Longrightarrow> dropWhile P s = s"
  by (cases s) auto

lemma trim_plain: "(\<And>c. c \<in> set s \<Longrightarrow> \<not> is_space c) \<Longrightarrow> trim s = s"
proof -
  assume a: "\<And>c. c \<in> set s \<Longrightarrow> \<not> is_space c"
  have "dropWhile is_space s = s" "dropWhile is_space (rev s) = rev s" by (rule dropWhile_none, simp add: a)+
  then show ?thesis by (simp add: trim_def)
qed

lemma span_first: "c \<notin> set a \<Longrightarrow> takeWhile (\<lambda>x. x \<noteq> c) (a @ c # b) = a \<and> dropWhile (\<lambda>x. x \<noteq> c) (a @ c # b) = c # b"
  by (induction a) auto

lemma range_text_not_Nil: "range_text r \<noteq> []"
  by (cases r) (simp_all add: decimal_not_Nil)

lemma parse_usize_decimal: "n < 2 ^ 64 \<Longrightarrow> parse_usize err w (decimal n) = Ok n"
  by (simp add: parse_usize_def parse_u64_decimal unat_of_nat take_bit_nat_eq_self)

lemma parse_range_text: "range_fits r \<Longrightarrow> parse_cpu_range err (range_text r) = Ok (range_cpus r)"
proof -
  assume fits: "range_fits r"
  have t: "trim (range_text r) = range_text r" using range_text_plain by (intro trim_plain) blast
  show ?thesis
  proof (cases r)
    case (OneCpu n)
    have "CHR ''-'' \<notin> set (decimal n)" using decimal_plain by blast
    with OneCpu fits t show ?thesis by (simp add: parse_cpu_range_def parse_usize_decimal decimal_not_Nil)
  next
    case (CpuRange lo hi)
    have no: "CHR ''-'' \<notin> set (decimal lo)" using decimal_plain by blast
    show ?thesis using CpuRange fits t span_first[OF no, of "decimal hi"] by (simp add: parse_cpu_range_def parse_usize_decimal)
  qed
qed

lemma split_comma_separated:
  assumes "\<And>w. w \<in> set ws \<Longrightarrow> CHR '','' \<notin> set w" "ws \<noteq> []"
  shows "split_on CHR '','' (comma_separated ws) = ws"
  using assms
proof (induction ws rule: comma_separated.induct)
  case (3 x y ws)
  then have "split_on CHR '','' x = [x]" by (simp add: split_on_no)
  with 3 show ?case by (simp add: split_on_sep)
qed (simp_all add: split_on_no)

lemma parse_ranges_concat:
  assumes "\<And>r. r \<in> set rs \<Longrightarrow> range_fits r"
  shows "parse_cpu_ranges err (map range_text rs) = Ok (concat (map range_cpus rs))"
  using assms by (induction rs) (simp_all add: parse_range_text)

lemma trim_newline: "(\<And>c. c \<in> set s \<Longrightarrow> \<not> is_space c) \<Longrightarrow> trim (s @ [CHR 0x0A]) = s"
proof -
  assume a: "\<And>c. c \<in> set s \<Longrightarrow> \<not> is_space c"
  have sp: "is_space CHR 0x0A" by (simp add: is_space_def)
  show ?thesis
  proof (cases s)
    case Nil
    then show ?thesis using sp by (simp add: trim_def)
  next
    case (Cons c cs)
    then have "dropWhile is_space (s @ [CHR 0x0A]) = s @ [CHR 0x0A]" using a by simp
    then have "trim (s @ [CHR 0x0A]) = rev (dropWhile is_space (rev s))" using sp by (simp add: trim_def)
    also have "dropWhile is_space (rev s) = rev s" by (rule dropWhile_none) (simp add: a)
    finally show ?thesis by simp
  qed
qed

lemma comma_separated_chars: "c \<in> set (comma_separated ws) \<Longrightarrow> c = CHR '','' \<or> (\<exists>w\<in>set ws. c \<in> set w)"
  by (induction ws rule: comma_separated.induct) auto

text \<open>
  a CPU list in the kernel's format is read back. For any list of CPUs and ranges whose numbers fit 64 bits, printed in decimal
  with commas and hyphens and ended by a newline, the parser returns the CPUs of all parts in order.
\<close>

theorem cpulist_roundtrip:
  assumes "list_all range_fits rs"
  shows "parse_cpulist err (trim (comma_separated (map range_text rs) @ [CHR 0x0A])) = Ok (concat (map range_cpus rs))"
proof (cases "rs = []")
  case True
  then show ?thesis by (simp add: trim_def is_space_def parse_cpulist_def parse_cpu_range_def)
next
  case False
  have "\<not> is_space c" if "c \<in> set (comma_separated (map range_text rs))" for c
    using comma_separated_chars[OF that] range_text_plain by (auto simp: is_space_def)
  then have "trim (comma_separated (map range_text rs) @ [CHR 0x0A]) = comma_separated (map range_text rs)"
    by (rule trim_newline)
  moreover have "split_on CHR '','' (comma_separated (map range_text rs)) = map range_text rs"
    using False range_text_plain by (intro split_comma_separated) auto
  ultimately show ?thesis using assms by (simp add: parse_cpulist_def parse_ranges_concat list_all_iff)
qed

theorem cpulist_roundtrip_witness:
  "parse_cpulist (\<lambda>t. t) (trim (comma_separated (map range_text [CpuRange 0 2, OneCpu 5]) @ [CHR 0x0A])) = Ok [0, 1, 2, 5]"
  using cpulist_roundtrip[of "[CpuRange 0 2, OneCpu 5]" "\<lambda>t. t"] by (simp add: upt_rec)

section \<open>Every worker gets a place\<close>

definition placed_well :: "numa_node list \<Rightarrow> cpu_set \<Rightarrow> bool" where
  "placed_well nodes s =
     (cps_cores s \<noteq> {} \<and> (\<exists>n\<in>set nodes. cps_numa_node s = Some (nn_id n) \<and> cps_cores s \<subseteq> set (nn_cores n)))"

lemma placed_slice:
  assumes "n \<in> set nodes" "start < length (nn_cores n)" "0 < k"
  shows "placed_well nodes (set_numa_node (nn_id n) (from_cores (drop start (take (min (start + k) (length (nn_cores n))) (nn_cores n)))))"
proof -
  have "drop start (take (min (start + k) (length (nn_cores n))) (nn_cores n)) \<noteq> []" using assms(2,3) by simp
  moreover have "set (drop start (take (min (start + k) (length (nn_cores n))) (nn_cores n))) \<subseteq> set (nn_cores n)"
    by (meson set_drop_subset set_take_subset subset_trans)
  ultimately show ?thesis using assms(1) by (auto simp: placed_well_def set_numa_node_def from_cores_def)
qed

lemma place_on_node_ok:
  assumes "n \<in> set nodes" "0 < k" "list_all (placed_well nodes) acc" "length acc \<le> wc"
  shows "list_all (placed_well nodes) (place_on_node wc n k ws acc) \<and> length (place_on_node wc n k ws acc) \<le> wc"
  using assms(3,4)
proof (induction ws arbitrary: acc)
  case (Cons w ws)
  show ?case
  proof (cases "wc \<le> length acc")
    case True
    with Cons.prems show ?thesis by simp
  next
    case False
    then show ?thesis
      using Cons.prems placed_slice[OF assms(1) _ assms(2), of "w * k"] by (simp add: Let_def Cons.IH)
  qed
qed simp

lemma place_nodes_ok:
  assumes "set ns \<subseteq> set nodes" "\<And>n. 0 < k n" "list_all (placed_well nodes) acc" "length acc \<le> wc"
  shows "list_all (placed_well nodes) (fold (\<lambda>n acc. place_on_node wc n (k n) (ws n) acc) ns acc)
     \<and> length (fold (\<lambda>n acc. place_on_node wc n (k n) (ws n) acc) ns acc) \<le> wc"
  using assms by (induction ns arbitrary: acc) (auto simp: place_on_node_ok)

lemma fill_worker_ok:
  assumes "nodes \<noteq> []"
  shows "list_all (placed_well nodes) (fill_worker nodes w)"
proof -
  let ?n = "nodes ! (w mod length nodes)"
  have "?n \<in> set nodes" using assms by simp
  then show ?thesis by (auto simp: fill_worker_def Let_def placed_well_def set_numa_node_def from_cores_def)
qed

text \<open>
  workers are placed on cores of one node each. On a topology with NUMA every set of the placement is non-empty and holds
  cores of the node it names, and if every node has cores there is exactly one set for each worker asked for.
  Without NUMA the placement has one non-empty set of existing cores for each worker, and it panics if no worker is asked for.
\<close>

theorem workers_placed:
  assumes "0 < num_cpus"
  shows "case optimal_worker_placement num_cpus worker_count t of
      Ok ps \<Rightarrow>
        (if nt_numa_available t \<and> nt_nodes t \<noteq> []
         then list_all (placed_well (nt_nodes t)) ps
           \<and> (list_all (\<lambda>n. nn_cores n \<noteq> []) (nt_nodes t) \<longrightarrow> length ps = worker_count)
         else length ps = worker_count \<and> list_all (\<lambda>s. cps_cores s \<noteq> {} \<and> cps_cores s \<subseteq> {..<num_cpus}) ps)
    | Err e \<Rightarrow> False
    | Panic \<Rightarrow> worker_count = 0 \<and> \<not> (nt_numa_available t \<and> nt_nodes t \<noteq> [])"
proof (cases "nt_numa_available t \<and> nt_nodes t \<noteq> []")
  case True
  let ?nodes = "nt_nodes t"
  define wpn where "wpn = max 1 (worker_count div length ?nodes)"
  define placed where "placed = fold (\<lambda>n acc. place_on_node worker_count n (max 1 (length (nn_cores n) div wpn)) [0..<wpn] acc) ?nodes []"
  have ps: "numa_placement ?nodes worker_count = placed @ concat (map (fill_worker ?nodes) [length placed..<worker_count])"
    by (simp add: numa_placement_def Let_def wpn_def placed_def)
  have "list_all (placed_well ?nodes) placed" and len: "length placed \<le> worker_count"
    unfolding placed_def using place_nodes_ok[of ?nodes ?nodes "\<lambda>n. max 1 (length (nn_cores n) div wpn)" "[]" worker_count "\<lambda>n. [0..<wpn]"]
    by simp_all
  then have well: "list_all (placed_well ?nodes) (numa_placement ?nodes worker_count)"
    using True fill_worker_ok[of ?nodes] by (auto simp: ps list_all_iff)
  have "length (fill_worker ?nodes w) = 1" if "list_all (\<lambda>n. nn_cores n \<noteq> []) ?nodes" for w
    using that True by (auto simp: fill_worker_def Let_def list_all_iff)
  then have "length (numa_placement ?nodes worker_count) = worker_count" if "list_all (\<lambda>n. nn_cores n \<noteq> []) ?nodes"
    using that len by (simp add: ps length_concat comp_def sum_list_triv)
  with True well show ?thesis by (simp add: optimal_worker_placement_def)
next
  case False
  have core: "(w * k) mod num_cpus < min ((w * k) mod num_cpus + k) num_cpus" if "0 < k" for w k
    using assms that by simp
  show ?thesis
  proof (cases "worker_count = 0")
    case True
    with False show ?thesis by (auto simp: optimal_worker_placement_def flat_placement_def)
  next
    case wc: False
    define k where "k = max 1 (num_cpus div worker_count)"
    have "0 < k" by (simp add: k_def)
    have "flat_placement num_cpus worker_count =
        Ok (map (\<lambda>w. from_cores [(w * k) mod num_cpus..<min ((w * k) mod num_cpus + k) num_cpus]) [0..<worker_count])"
      using wc assms by (simp add: flat_placement_def Let_def k_def)
    with False core[OF \<open>0 < k\<close>] show ?thesis
      by (auto simp: optimal_worker_placement_def list_all_iff from_cores_def)
  qed
qed

theorem workers_placed_witness:
  "\<exists>ps. optimal_worker_placement 4 2 \<lparr>nt_nodes = [numa_node_new 0 [0, 1], numa_node_new 1 [2, 3]], nt_cpu_mapping = [],
      nt_memory_info = detect_memory_topology 0 [], nt_numa_available = True\<rparr> = Ok ps \<and> length ps = 2"
  using workers_placed[where num_cpus = 4 and worker_count = 2 and t = "\<lparr>nt_nodes = [numa_node_new 0 [0, 1], numa_node_new 1 [2, 3]], nt_cpu_mapping = [],
      nt_memory_info = detect_memory_topology 0 [], nt_numa_available = True\<rparr>"]
  by (auto simp: numa_node_new_def split: result.splits)

end
