(* ===== verification/Runtime_Scheduler.thy ===== *)
theory Runtime_Scheduler
  imports Clocks
begin

text \<open>
  The scheduler of the runtime, \<^verbatim>\<open>src/kaelix-core/src/runtime/scheduler.rs\<close>: the priority queues and their statistics behind a
  reader-writer lock, submission and dispatch of tasks, and the assignment of workers to NUMA nodes. The lock is explicit: an
  operation either returns or blocks, and a blocked operation leaves behind what it has done and the guards it holds.
  A task's future runs from its submission on (\<^verbatim>\<open>tokio::spawn\<close>); the queues hold its handle, which is opaque.
\<close>

section \<open>The lock\<close>

text \<open>
  \<open>parking_lot::RwLock\<close>, by its documentation: any number of readers or one writer; the lock is task-fair, so that
  a reader waits while a writer is waiting; and it is not reentrant, so that a thread that asks for a write guard
  while it holds a read guard waits for itself.
\<close>

record rwlock =
  lk_readers :: nat
  lk_writer :: bool
  lk_writer_waiting :: bool

definition free_lock :: rwlock where
  "free_lock = \<lparr>lk_readers = 0, lk_writer = False, lk_writer_waiting = False\<rparr>"

datatype ('s, 'a) outcome = Returns 's 'a | Blocks 's

fun and_next :: "('s, 'a) outcome \<Rightarrow> ('s \<Rightarrow> 'a \<Rightarrow> ('s, 'b) outcome) \<Rightarrow> ('s, 'b) outcome" where
  "and_next (Returns s a) f = f s a"
| "and_next (Blocks s) f = Blocks s"

section \<open>The queues\<close>

record queue_stats =
  qs_total_pending :: usize
  qs_high_priority_pending :: usize
  qs_medium_priority_pending :: usize
  qs_low_priority_pending :: usize
  qs_average_wait_time :: duration
  qs_throughput :: u64

datatype task_type = MessageProcess | StreamManagement | TelemetryCollection | PluginExecution | MaintenanceTask | HotReload

datatype task_priority = TpLow | TpNormal | TpHigh | TpCritical

record 'h scheduled_task =
  sk_id :: u64
  sk_task_type :: task_type
  sk_priority :: task_priority
  sk_submitted_at :: instant
  sk_estimated_duration :: "duration option"
  sk_numa_preference :: "usize option"
  sk_handle :: 'h

record 'h task_queues =
  tq_high :: "'h scheduled_task list"
  tq_medium :: "'h scheduled_task list"
  tq_low :: "'h scheduled_task list"
  tq_stats :: queue_stats
  tq_lock :: rwlock

definition queues_new :: "'h task_queues" where
  "queues_new = \<lparr>tq_high = [], tq_medium = [], tq_low = [],
     tq_stats = \<lparr>qs_total_pending = 0, qs_high_priority_pending = 0, qs_medium_priority_pending = 0, qs_low_priority_pending = 0,
       qs_average_wait_time = 0, qs_throughput = 0\<rparr>,
     tq_lock = free_lock\<rparr>"

definition lock_read :: "'h task_queues \<Rightarrow> ('h task_queues, unit) outcome" where
  "lock_read q =
     (let l = tq_lock q in
      if lk_writer l \<or> lk_writer_waiting l then Blocks q
      else Returns (q\<lparr>tq_lock := l\<lparr>lk_readers := lk_readers l + 1\<rparr>\<rparr>) ())"

definition unlock_read :: "'h task_queues \<Rightarrow> 'h task_queues" where
  "unlock_read q = (let l = tq_lock q in q\<lparr>tq_lock := l\<lparr>lk_readers := lk_readers l - 1\<rparr>\<rparr>)"

definition lock_write :: "'h task_queues \<Rightarrow> ('h task_queues, unit) outcome" where
  "lock_write q =
     (let l = tq_lock q in
      if lk_writer l \<or> 0 < lk_readers l then Blocks (q\<lparr>tq_lock := l\<lparr>lk_writer_waiting := True\<rparr>\<rparr>)
      else Returns (q\<lparr>tq_lock := l\<lparr>lk_writer := True\<rparr>\<rparr>) ())"

definition unlock_write :: "'h task_queues \<Rightarrow> 'h task_queues" where
  "unlock_write q = (let l = tq_lock q in q\<lparr>tq_lock := l\<lparr>lk_writer := False\<rparr>\<rparr>)"

text \<open>\<^verbatim>\<open>self.stats.write().x += 1\<close>.\<close>

definition update_stats :: "(queue_stats \<Rightarrow> queue_stats) \<Rightarrow> 'h task_queues \<Rightarrow> ('h task_queues, unit) outcome" where
  "update_stats f q =
     and_next (lock_write q) (\<lambda>q u. Returns (unlock_write (q\<lparr>tq_stats := f (tq_stats q)\<rparr>)) ())"

text \<open>
  \<^verbatim>\<open>self.stats.write().x = self.stats.read().x.saturating_sub(1)\<close>: the right side is evaluated first, and its read guard
  is a temporary that lives to the end of the statement.
\<close>

definition assign_from_read :: "(queue_stats \<Rightarrow> usize) \<Rightarrow> (usize \<Rightarrow> queue_stats \<Rightarrow> queue_stats) \<Rightarrow> 'h task_queues \<Rightarrow> ('h task_queues, unit) outcome" where
  "assign_from_read get put q =
     and_next (lock_read q) (\<lambda>q u.
       let v = get (tq_stats q) - 1 in
       and_next (lock_write q) (\<lambda>q u. Returns (unlock_read (unlock_write (q\<lparr>tq_stats := put v (tq_stats q)\<rparr>))) ()))"

definition queues_push :: "'h scheduled_task \<Rightarrow> 'h task_queues \<Rightarrow> ('h task_queues, unit) outcome" where
  "queues_push t q =
     and_next
       (case sk_priority t of
          TpHigh \<Rightarrow> update_stats (\<lambda>s. s\<lparr>qs_high_priority_pending := qs_high_priority_pending s + 1\<rparr>) (q\<lparr>tq_high := tq_high q @ [t]\<rparr>)
        | TpCritical \<Rightarrow> update_stats (\<lambda>s. s\<lparr>qs_high_priority_pending := qs_high_priority_pending s + 1\<rparr>) (q\<lparr>tq_high := tq_high q @ [t]\<rparr>)
        | TpNormal \<Rightarrow> update_stats (\<lambda>s. s\<lparr>qs_medium_priority_pending := qs_medium_priority_pending s + 1\<rparr>) (q\<lparr>tq_medium := tq_medium q @ [t]\<rparr>)
        | TpLow \<Rightarrow> update_stats (\<lambda>s. s\<lparr>qs_low_priority_pending := qs_low_priority_pending s + 1\<rparr>) (q\<lparr>tq_low := tq_low q @ [t]\<rparr>))
       (\<lambda>q u. update_stats (\<lambda>s. s\<lparr>qs_total_pending := qs_total_pending s + 1\<rparr>) q)"

definition take_total :: "'h scheduled_task \<Rightarrow> 'h task_queues \<Rightarrow> ('h task_queues, 'h scheduled_task option) outcome" where
  "take_total t q =
     and_next (assign_from_read qs_total_pending (\<lambda>v s. s\<lparr>qs_total_pending := v\<rparr>) q) (\<lambda>q u. Returns q (Some t))"

definition queues_pop :: "'h task_queues \<Rightarrow> ('h task_queues, 'h scheduled_task option) outcome" where
  "queues_pop q =
     (case tq_high q of
        t # ts \<Rightarrow>
          and_next (assign_from_read qs_high_priority_pending (\<lambda>v s. s\<lparr>qs_high_priority_pending := v\<rparr>) (q\<lparr>tq_high := ts\<rparr>)) (\<lambda>q u. take_total t q)
      | [] \<Rightarrow> (case tq_medium q of
          t # ts \<Rightarrow>
            and_next (assign_from_read qs_medium_priority_pending (\<lambda>v s. s\<lparr>qs_medium_priority_pending := v\<rparr>) (q\<lparr>tq_medium := ts\<rparr>)) (\<lambda>q u. take_total t q)
        | [] \<Rightarrow> (case tq_low q of
            t # ts \<Rightarrow>
              and_next (assign_from_read qs_low_priority_pending (\<lambda>v s. s\<lparr>qs_low_priority_pending := v\<rparr>) (q\<lparr>tq_low := ts\<rparr>)) (\<lambda>q u. take_total t q)
          | [] \<Rightarrow> Returns q None)))"

definition queues_is_empty :: "'h task_queues \<Rightarrow> bool" where
  "queues_is_empty q = (tq_high q = [] \<and> tq_medium q = [] \<and> tq_low q = [])"

definition queues_stats :: "'h task_queues \<Rightarrow> ('h task_queues, queue_stats) outcome" where
  "queues_stats q = and_next (lock_read q) (\<lambda>q u. Returns (unlock_read q) (tq_stats q))"

section \<open>The scheduler\<close>

datatype load_balancing_strategy = RoundRobin | LeastLoaded | NumaAware | WeightedRoundRobin

datatype rt_scheduler_error = SchedAlreadyRunning | SchedNotRunning

record rt_scheduler_config =
  shc_max_pending_per_priority :: usize
  shc_task_timeout :: duration
  shc_load_balancing_strategy :: load_balancing_strategy
  shc_numa_affinity_enabled :: bool
  shc_work_stealing_enabled :: bool
  shc_metrics_interval :: duration

definition scheduler_config_default :: rt_scheduler_config where
  "scheduler_config_default =
     \<lparr>shc_max_pending_per_priority = 10000, shc_task_timeout = 30 * 1000000000, shc_load_balancing_strategy = RoundRobin,
      shc_numa_affinity_enabled = True, shc_work_stealing_enabled = True, shc_metrics_interval = 1000000000\<rparr>"

text \<open>\<open>ash_nodes\<close>: the nodes the topology reports as available.\<close>

record 'h advanced_scheduler =
  ash_queues :: "'h task_queues"
  ash_worker_assignments :: "(usize, usize) hash_map"
  ash_nodes :: "usize list"
  ash_config :: rt_scheduler_config
  ash_tasks_scheduled :: nat
  ash_task_id_counter :: u64
  ash_is_running :: bool

definition adv_scheduler_new :: "usize list \<Rightarrow> rt_scheduler_config \<Rightarrow> 'h advanced_scheduler" where
  "adv_scheduler_new nodes c =
     \<lparr>ash_queues = queues_new, ash_worker_assignments = [], ash_nodes = nodes, ash_config = c, ash_tasks_scheduled = 0,
      ash_task_id_counter = 0, ash_is_running = False\<rparr>"

definition initialize_worker_assignments :: "'h advanced_scheduler \<Rightarrow> 'h advanced_scheduler option" where
  "initialize_worker_assignments s =
     (if ash_nodes s = [] then None
      else Some (s\<lparr>ash_worker_assignments :=
        fold (\<lambda>w m. hm_insert w (ash_nodes s ! (w mod length (ash_nodes s))) m) [0..<8] (ash_worker_assignments s)\<rparr>))"

definition adv_scheduler_start :: "'h advanced_scheduler \<Rightarrow> 'h advanced_scheduler \<times> (unit, rt_scheduler_error) result" where
  "adv_scheduler_start s =
     (if ash_is_running s then (s, Err SchedAlreadyRunning)
      else let s1 = s\<lparr>ash_is_running := True\<rparr> in
        case initialize_worker_assignments s1 of None \<Rightarrow> (s1, Panic) | Some s2 \<Rightarrow> (s2, Ok ()))"

text \<open>The queues as seen at each poll, with the time elapsed then; the wait ends by itself.\<close>

fun wait_for_pending_tasks :: "duration \<Rightarrow> (duration \<times> bool) list \<Rightarrow> nat option" where
  "wait_for_pending_tasks limit [] = None"
| "wait_for_pending_tasks limit ((elapsed, is_empty) # polls) =
     (if \<not> is_empty \<and> elapsed < limit then map_option Suc (wait_for_pending_tasks limit polls) else Some 0)"

definition adv_scheduler_stop :: "'h advanced_scheduler \<Rightarrow> 'h advanced_scheduler \<times> (unit, rt_scheduler_error) result" where
  "adv_scheduler_stop s =
     (if \<not> ash_is_running s then (s, Err SchedNotRunning) else (s\<lparr>ash_is_running := False\<rparr>, Ok ()))"

definition select_numa_worker :: "usize \<Rightarrow> 'h advanced_scheduler \<Rightarrow> usize option" where
  "select_numa_worker node s = map_option fst (find (\<lambda>(w, n). n = node) (ash_worker_assignments s))"

definition select_worker :: "'h scheduled_task \<Rightarrow> 'h advanced_scheduler \<Rightarrow> usize option" where
  "select_worker t s =
     (case shc_load_balancing_strategy (ash_config s) of
        NumaAware \<Rightarrow> (case sk_numa_preference t of Some node \<Rightarrow> select_numa_worker node s | None \<Rightarrow> Some 0)
      | _ \<Rightarrow> Some 0)"

definition schedule_task :: "instant \<Rightarrow> task_type \<Rightarrow> task_priority \<Rightarrow> duration option \<Rightarrow> usize option \<Rightarrow> 'h \<Rightarrow> 'h advanced_scheduler
    \<Rightarrow> ('h advanced_scheduler, (u64, rt_scheduler_error) result) outcome" where
  "schedule_task now ty prio est numa h s =
     (if \<not> ash_is_running s then Returns s (Err SchedNotRunning)
      else
        let i = ash_task_id_counter s;
            t = \<lparr>sk_id = i, sk_task_type = ty, sk_priority = prio, sk_submitted_at = now, sk_estimated_duration = est,
                 sk_numa_preference = numa, sk_handle = h\<rparr>;
            s1 = s\<lparr>ash_task_id_counter := i + 1\<rparr>
        in case queues_push t (ash_queues s1) of
             Blocks q \<Rightarrow> Blocks (s1\<lparr>ash_queues := q\<rparr>)
           | Returns q u \<Rightarrow> Returns (s1\<lparr>ash_queues := q, ash_tasks_scheduled := ash_tasks_scheduled s1 + 1\<rparr>) (Ok i))"

definition pop_into :: "'h advanced_scheduler \<Rightarrow> ('h advanced_scheduler, 'h scheduled_task option) outcome" where
  "pop_into s =
     (case queues_pop (ash_queues s) of
        Blocks q \<Rightarrow> Blocks (s\<lparr>ash_queues := q\<rparr>) | Returns q r \<Rightarrow> Returns (s\<lparr>ash_queues := q\<rparr>) r)"

definition get_numa_preferred_task :: "usize \<Rightarrow> 'h advanced_scheduler \<Rightarrow> ('h advanced_scheduler, 'h scheduled_task option) outcome" where
  "get_numa_preferred_task w s = pop_into s"

definition scheduler_get_next_task :: "usize \<Rightarrow> 'h advanced_scheduler \<Rightarrow> ('h advanced_scheduler, 'h scheduled_task option) outcome" where
  "scheduler_get_next_task w s =
     (if shc_numa_affinity_enabled (ash_config s)
      then and_next (get_numa_preferred_task w s) (\<lambda>s r. case r of Some t \<Rightarrow> Returns s (Some t) | None \<Rightarrow> pop_into s)
      else pop_into s)"

definition scheduler_update_config :: "rt_scheduler_config \<Rightarrow> 'h advanced_scheduler \<Rightarrow> 'h advanced_scheduler option" where
  "scheduler_update_config c s =
     (let s1 = s\<lparr>ash_config := c\<rparr> in
      if shc_numa_affinity_enabled c then initialize_worker_assignments s1 else Some s1)"

section \<open>Dispatch blocks\<close>

definition pending :: "'h task_queues \<Rightarrow> 'h scheduled_task list" where
  "pending q = tq_high q @ tq_medium q @ tq_low q"

definition stuck :: "'h task_queues \<Rightarrow> bool" where
  "stuck q = (0 < lk_readers (tq_lock q) \<and> \<not> lk_writer (tq_lock q) \<and> lk_writer_waiting (tq_lock q))"

lemmas queue_defs = assign_from_read_def update_stats_def lock_read_def lock_write_def unlock_read_def unlock_write_def Let_def

lemma assign_blocks:
  assumes "tq_lock q = free_lock"
  shows "\<exists>q'. assign_from_read get put q = Blocks q' \<and> stuck q' \<and> pending q' = pending q"
  using assms by (simp add: queue_defs free_lock_def stuck_def pending_def)

lemma stuck_push: "stuck q \<Longrightarrow> \<exists>q'. queues_push t q = Blocks q' \<and> stuck q'"
  by (cases "sk_priority t") (simp_all add: queues_push_def queue_defs stuck_def)

lemma stuck_assign: "stuck q \<Longrightarrow> assign_from_read get put q = Blocks q"
  by (simp add: queue_defs stuck_def)

lemma stuck_fields [simp]:
  "stuck (q\<lparr>tq_high := ts\<rparr>) = stuck q" "stuck (q\<lparr>tq_medium := ts\<rparr>) = stuck q" "stuck (q\<lparr>tq_low := ts\<rparr>) = stuck q"
  by (simp_all add: stuck_def)

lemma stuck_pop: "stuck q \<Longrightarrow> \<not> queues_is_empty q \<Longrightarrow> \<exists>q'. queues_pop q = Blocks q' \<and> stuck q'"
  by (auto simp: queues_pop_def queues_is_empty_def stuck_assign split: list.split)

lemma stuck_stats: "stuck q \<Longrightarrow> queues_stats q = Blocks q"
  by (simp add: queues_stats_def queue_defs stuck_def)

lemma pop_blocks:
  assumes "tq_lock q = free_lock" "\<not> queues_is_empty q"
  shows "\<exists>q'. queues_pop q = Blocks q' \<and> stuck q' \<and> pending q' = tl (pending q)"
proof (cases "tq_high q")
  case (Cons t ts)
  have "tq_lock (q\<lparr>tq_high := ts\<rparr>) = free_lock" using assms(1) by simp
  from assign_blocks[OF this, of qs_high_priority_pending "\<lambda>v s. s\<lparr>qs_high_priority_pending := v\<rparr>"] Cons
  show ?thesis by (auto simp: queues_pop_def pending_def)
next
  case high: Nil
  show ?thesis
  proof (cases "tq_medium q")
    case (Cons t ts)
    have "tq_lock (q\<lparr>tq_medium := ts\<rparr>) = free_lock" using assms(1) by simp
    from assign_blocks[OF this, of qs_medium_priority_pending "\<lambda>v s. s\<lparr>qs_medium_priority_pending := v\<rparr>"] Cons high
    show ?thesis by (auto simp: queues_pop_def pending_def)
  next
    case medium: Nil
    then obtain t ts where low: "tq_low q = t # ts" using assms(2) high by (cases "tq_low q") (auto simp: queues_is_empty_def)
    have "tq_lock (q\<lparr>tq_low := ts\<rparr>) = free_lock" using assms(1) by simp
    from assign_blocks[OF this, of qs_low_priority_pending "\<lambda>v s. s\<lparr>qs_low_priority_pending := v\<rparr>"] low high medium
    show ?thesis by (auto simp: queues_pop_def pending_def)
  qed
qed

text \<open>
  C38: taking a task never returns. On queues whose lock is free, \<open>pop\<close> returns only if there is no task; otherwise it
  blocks on itself, since the statement that lowers a counter still holds the read guard when it asks for the write guard.
  The task it took is in no queue any more, and from then on every \<open>push\<close>, every other \<open>pop\<close> of a task and every read of the statistics blocks too.
\<close>

theorem pop_deadlocks:
  assumes "tq_lock q = free_lock"
  shows "case queues_pop q of
      Returns q' r \<Rightarrow> r = None \<and> q' = q \<and> queues_is_empty q
    | Blocks q' \<Rightarrow> \<not> queues_is_empty q \<and> pending q' = tl (pending q)
        \<and> (\<forall>t. \<exists>q''. queues_push t q' = Blocks q'') \<and> (queues_is_empty q' \<or> (\<exists>q''. queues_pop q' = Blocks q''))
        \<and> queues_stats q' = Blocks q'"
proof (cases "queues_is_empty q")
  case True
  then show ?thesis by (simp add: queues_pop_def queues_is_empty_def)
next
  case False
  then obtain q' where q': "queues_pop q = Blocks q'" "stuck q'" "pending q' = tl (pending q)"
    using pop_blocks[OF assms] by blast
  with False stuck_push[OF q'(2)] stuck_pop[OF q'(2)] stuck_stats[OF q'(2)] show ?thesis by auto
qed

theorem pop_deadlocks_witness:
  "\<exists>q q'. queues_push \<lparr>sk_id = 0, sk_task_type = MessageProcess, sk_priority = TpNormal, sk_submitted_at = 0,
        sk_estimated_duration = None, sk_numa_preference = None, sk_handle = ()\<rparr> queues_new = Returns q ()
     \<and> queues_pop q = Blocks q' \<and> queues_stats q' = Blocks q'"
proof -
  let ?t = "\<lparr>sk_id = 0, sk_task_type = MessageProcess, sk_priority = TpNormal, sk_submitted_at = 0,
        sk_estimated_duration = None, sk_numa_preference = None, sk_handle = ()\<rparr>"
  obtain q where q: "queues_push ?t queues_new = Returns q ()" "tq_lock q = free_lock" "tq_medium q = [?t]"
    by (simp add: queues_push_def queue_defs queues_new_def free_lock_def)
  from pop_deadlocks[OF q(2)] q(1,3) show ?thesis
    by (cases "queues_pop q") (auto simp: queues_is_empty_def)
qed

section \<open>Submission\<close>

definition queues_counted :: "'h task_queues \<Rightarrow> bool" where
  "queues_counted q =
     (tq_lock q = free_lock \<and> qs_high_priority_pending (tq_stats q) = length (tq_high q)
      \<and> qs_medium_priority_pending (tq_stats q) = length (tq_medium q)
      \<and> qs_low_priority_pending (tq_stats q) = length (tq_low q)
      \<and> qs_total_pending (tq_stats q) = length (pending q))"

lemma push_counted:
  assumes "queues_counted q"
  shows "\<exists>q'. queues_push t q = Returns q' () \<and> queues_counted q' \<and> set (pending q') = insert t (set (pending q))
     \<and> length (pending q') = length (pending q) + 1"
  using assms by (cases "sk_priority t") (auto simp: queues_push_def queue_defs queues_counted_def free_lock_def pending_def)

type_synonym 'h request = "instant \<times> task_type \<times> task_priority \<times> duration option \<times> usize option \<times> 'h"

fun submit_all :: "'h request list \<Rightarrow> 'h advanced_scheduler \<Rightarrow> ('h advanced_scheduler, (u64, rt_scheduler_error) result list) outcome" where
  "submit_all [] s = Returns s []"
| "submit_all ((now, ty, p, est, numa, h) # rs) s =
     and_next (schedule_task now ty p est numa h s) (\<lambda>s r. and_next (submit_all rs s) (\<lambda>s xs. Returns s (r # xs)))"

lemma submit_all_ids:
  assumes "ash_is_running s" "queues_counted (ash_queues s)"
  shows "\<exists>s'. submit_all rs s = Returns s' (map (\<lambda>k. Ok (ash_task_id_counter s + of_nat k)) [0..<length rs])
     \<and> ash_is_running s' \<and> queues_counted (ash_queues s') \<and> length (pending (ash_queues s')) = length (pending (ash_queues s)) + length rs
     \<and> ash_config s' = ash_config s"
  using assms
proof (induction rs arbitrary: s)
  case (Cons r rs)
  obtain now ty p est numa h where r: "r = (now, ty, p, est, numa, h)" by (cases r) auto
  let ?t = "\<lparr>sk_id = ash_task_id_counter s, sk_task_type = ty, sk_priority = p, sk_submitted_at = now, sk_estimated_duration = est,
      sk_numa_preference = numa, sk_handle = h\<rparr>"
  obtain q where q: "queues_push ?t (ash_queues s) = Returns q ()" "queues_counted q" "length (pending q) = length (pending (ash_queues s)) + 1"
    using push_counted[OF Cons.prems(2)] by blast
  define s1 where "s1 = s\<lparr>ash_task_id_counter := ash_task_id_counter s + 1, ash_queues := q, ash_tasks_scheduled := ash_tasks_scheduled s + 1\<rparr>"
  have step: "schedule_task now ty p est numa h s = Returns s1 (Ok (ash_task_id_counter s))"
    using Cons.prems(1) q(1) by (simp add: schedule_task_def s1_def Let_def)
  have s1: "ash_is_running s1" "queues_counted (ash_queues s1)" "ash_task_id_counter s1 = ash_task_id_counter s + 1" "ash_config s1 = ash_config s"
    using Cons.prems(1) q(2) by (simp_all add: s1_def)
  have ids: "map (\<lambda>k. Ok (ash_task_id_counter s1 + of_nat k)) [0..<length rs] =
      map (\<lambda>k. Ok (ash_task_id_counter s + of_nat k)) [Suc 0..<Suc (length rs)]"
    unfolding s1(3) map_Suc_upt[symmetric] by (simp add: comp_def add.assoc)
  have "[0..<length (r # rs)] = 0 # [Suc 0..<Suc (length rs)]" by (simp add: upt_conv_Cons del: upt_Suc)
  with Cons.IH[OF s1(1,2)] step ids s1(4) q(3) show ?case by (auto simp: r s1_def simp del: upt_Suc)
qed simp

text \<open>
  a started scheduler accepts every task, with consecutive identifiers from 0 and no bound on what is pending, and the statistics are
  exact; but the first worker that asks for a task blocks for good, and so does every later submission.
\<close>

theorem scheduler_accepts_then_hangs:
  assumes "adv_scheduler_start (adv_scheduler_new nodes c) = (s, Ok ())" "rs \<noteq> []"
  shows "\<exists>s1 s2. submit_all rs s = Returns s1 (map (\<lambda>k. Ok (of_nat k)) [0..<length rs])
     \<and> qs_total_pending (tq_stats (ash_queues s1)) = length rs
     \<and> scheduler_get_next_task w s1 = Blocks s2
     \<and> (\<exists>s3. schedule_task now ty p est numa h s2 = Blocks s3)"
proof -
  have s: "ash_is_running s" "ash_queues s = queues_new" "ash_task_id_counter s = 0"
    using assms(1) by (auto simp: adv_scheduler_start_def adv_scheduler_new_def initialize_worker_assignments_def Let_def split: if_splits)
  have "queues_counted queues_new" by (simp add: queues_counted_def queues_new_def pending_def)
  then obtain s1 where s1: "submit_all rs s = Returns s1 (map (\<lambda>k. Ok (of_nat k)) [0..<length rs])" "ash_is_running s1"
      "queues_counted (ash_queues s1)" "length (pending (ash_queues s1)) = length rs"
    using submit_all_ids[OF s(1), of rs] s(2,3) by (auto simp: pending_def queues_new_def)
  have "\<not> queues_is_empty (ash_queues s1)" using s1(4) assms(2) by (auto simp: queues_is_empty_def pending_def)
  then obtain q where q: "queues_pop (ash_queues s1) = Blocks q" "stuck q"
    using pop_blocks s1(3) unfolding queues_counted_def by blast
  have block: "scheduler_get_next_task w s1 = Blocks (s1\<lparr>ash_queues := q\<rparr>)"
    using q(1) by (simp add: scheduler_get_next_task_def get_numa_preferred_task_def pop_into_def)
  have "\<exists>s3. schedule_task now ty p est numa h (s1\<lparr>ash_queues := q\<rparr>) = Blocks s3"
    using s1(2) stuck_push[OF q(2)] by (auto simp: schedule_task_def Let_def split: outcome.split) (metis outcome.distinct(1))
  moreover have "qs_total_pending (tq_stats (ash_queues s1)) = length rs" using s1(3,4) by (simp add: queues_counted_def)
  ultimately show ?thesis using s1(1) block by blast
qed

theorem scheduler_accepts_then_hangs_witness:
  "\<exists>s s1 s2. adv_scheduler_start (adv_scheduler_new [0, 1] scheduler_config_default) = (s, Ok ())
     \<and> submit_all [(0, MessageProcess, TpHigh, None, None, ())] s = Returns s1 [Ok 0]
     \<and> scheduler_get_next_task 3 s1 = Blocks s2"
proof -
  obtain s :: "unit advanced_scheduler" where s: "adv_scheduler_start (adv_scheduler_new [0, 1] scheduler_config_default) = (s, Ok ())"
    by (simp add: adv_scheduler_start_def adv_scheduler_new_def initialize_worker_assignments_def Let_def)
  show ?thesis
    using scheduler_accepts_then_hangs[OF s, of "[(0, MessageProcess, TpHigh, None, None, ())]" 3 0 MessageProcess TpHigh None None "()"] s
    by auto
qed

text \<open>The eight workers are assigned to the nodes in turn.\<close>

lemma worker_assigned:
  assumes "initialize_worker_assignments s = Some s'" "w < 8"
  shows "hm_get (ash_worker_assignments s') w = Some (ash_nodes s ! (w mod length (ash_nodes s)))"
proof -
  have "hm_get (fold (\<lambda>w m. hm_insert w (f w) m) ws m) w = (if w \<in> set ws then Some (f w) else hm_get m w)" for f ws and m :: "(usize, usize) hash_map"
    by (induction ws arbitrary: m) auto
  with assms show ?thesis by (auto simp: initialize_worker_assignments_def simp del: upt_Suc upt_rec_numeral split: if_splits)
qed

text \<open>Waiting for the queues at shutdown ends at the latest at the first poll after the time limit.\<close>

lemma wait_ends:
  assumes "list_ex (\<lambda>(elapsed, e). limit \<le> elapsed) polls"
  shows "\<exists>n. wait_for_pending_tasks limit polls = Some n \<and> n < length polls"
  using assms by (induction limit polls rule: wait_for_pending_tasks.induct) auto

end
