(* ===== verification/Runtime_Executor.thy ===== *)
theory Runtime_Executor
  imports Clocks "HOL-Library.Multiset"
begin

text \<open>
  The executor and the workers of the runtime, \<^verbatim>\<open>src/kaelix-core/src/runtime/executor.rs\<close> and \<^verbatim>\<open>worker.rs\<close>. A pool has one worker
  task behind an unbounded channel; what the worker of a pool does between two waits is one step, so that a task that was taken and
  whose future has not completed is a state of its worker, and the sequence of steps of the executor and of its workers is
  explicit. Futures are opaque: they complete or panic at some later step of their worker.
\<close>

section \<open>Tasks and pools\<close>

datatype exec_priority = ExCritical | ExHigh | ExNormal | ExBackground

record task_context =
  tc_id :: u64
  tc_priority :: exec_priority
  tc_pool_id :: usize
  tc_created_at :: instant
  tc_started_at :: "instant option"
  tc_completed_at :: "instant option"

definition task_context_new :: "instant \<Rightarrow> u64 \<Rightarrow> exec_priority \<Rightarrow> usize \<Rightarrow> task_context" where
  "task_context_new now i p pool =
     \<lparr>tc_id = i, tc_priority = p, tc_pool_id = pool, tc_created_at = now, tc_started_at = None, tc_completed_at = None\<rparr>"

definition task_start :: "instant \<Rightarrow> task_context \<Rightarrow> task_context" where
  "task_start now c = c\<lparr>tc_started_at := Some now\<rparr>"

definition task_complete :: "instant \<Rightarrow> task_context \<Rightarrow> task_context" where
  "task_complete now c = c\<lparr>tc_completed_at := Some now\<rparr>"

definition queue_latency :: "task_context \<Rightarrow> duration option" where
  "queue_latency c = map_option (\<lambda>s. s - tc_created_at c) (tc_started_at c)"

definition execution_duration :: "task_context \<Rightarrow> duration option" where
  "execution_duration c =
     (case (tc_started_at c, tc_completed_at c) of (Some s, Some e) \<Rightarrow> Some (e - s) | _ \<Rightarrow> None)"

definition total_duration :: "task_context \<Rightarrow> duration option" where
  "total_duration c = map_option (\<lambda>e. e - tc_created_at c) (tc_completed_at c)"

record pool_stats =
  pst_tasks_executed :: u64
  pst_total_execution_time :: duration
  pst_avg_execution_time :: duration
  pst_peak_queue_depth :: usize
  pst_active_tasks :: usize

definition pool_stats_default :: pool_stats where
  "pool_stats_default =
     \<lparr>pst_tasks_executed = 0, pst_total_execution_time = 0, pst_avg_execution_time = 0, pst_peak_queue_depth = 0, pst_active_tasks = 0\<rparr>"

text \<open>
  The worker of a pool: not yet scheduled, waiting for a task, awaiting the future of a task it has started, or ended (its
  receiver is dropped, and the channel closed).
\<close>

datatype 'f worker_phase = Spawned | Receiving | Running task_context 'f | Ended

record 'f exec_pool =
  xp_queue :: "(task_context \<times> 'f) list"
  xp_worker :: "'f worker_phase"
  xp_stats :: pool_stats

definition exec_pool_new :: "'f exec_pool" where
  "exec_pool_new = \<lparr>xp_queue = [], xp_worker = Spawned, xp_stats = pool_stats_default\<rparr>"

datatype executor_error = ExAlreadyRunning | ExNotRunning | ExTaskQueueFull

record 'f executor =
  xe_task_pools :: usize
  xe_pools :: "'f exec_pool list"
  xe_task_counter :: nat
  xe_is_running :: bool

definition executor_new :: "usize \<Rightarrow> 'f executor" where
  "executor_new task_pools = \<lparr>xe_task_pools = task_pools, xe_pools = [], xe_task_counter = 0, xe_is_running = False\<rparr>"

text \<open>
  The statistics after a task: the average is the total divided by the count cut to 32 bits, and the division panics
  when that is 0; the count and the total are then already stored. The second component tells whether it panicked.
\<close>

definition pool_record :: "duration option \<Rightarrow> pool_stats \<Rightarrow> pool_stats \<times> bool" where
  "pool_record d s =
     (let s1 = s\<lparr>pst_tasks_executed := pst_tasks_executed s + 1\<rparr> in
      case d of
        None \<Rightarrow> (s1, False)
      | Some duration \<Rightarrow>
          let s2 = s1\<lparr>pst_total_execution_time := pst_total_execution_time s1 + duration\<rparr>;
              n = ucast (pst_tasks_executed s2) :: u32
          in if n = 0 then (s2, True)
             else (s2\<lparr>pst_avg_execution_time := pst_total_execution_time s2 div unat n\<rparr>, False))"

text \<open>The head of the worker's loop: it goes on to wait for a task while the executor runs, and ends otherwise.\<close>

definition worker_end :: "'f exec_pool \<Rightarrow> 'f exec_pool" where
  "worker_end p = p\<lparr>xp_worker := Ended, xp_queue := []\<rparr>"

definition worker_loop_head :: "bool \<Rightarrow> 'f exec_pool \<Rightarrow> 'f exec_pool" where
  "worker_loop_head running p = (if running then p\<lparr>xp_worker := Receiving\<rparr> else worker_end p)"

text \<open>
  What the worker does when it is scheduled at \<open>now\<close>: it enters its loop, takes the oldest task and starts it, or, when the
  future it awaits has completed, records the task and goes back to the head of the loop; \<open>panics\<close>: the future panicked instead,
  which ends the worker. The second component is the task it completed.
\<close>

definition worker_step :: "bool \<Rightarrow> instant \<Rightarrow> bool \<Rightarrow> 'f exec_pool \<Rightarrow> 'f exec_pool \<times> (task_context \<times> 'f) option" where
  "worker_step running now panics p =
     (case xp_worker p of
        Ended \<Rightarrow> (p, None)
      | Spawned \<Rightarrow> (worker_loop_head running p, None)
      | Receiving \<Rightarrow>
          (case xp_queue p of
             [] \<Rightarrow> (p, None)
           | (c, f) # q \<Rightarrow> (p\<lparr>xp_worker := Running (task_start now c) f, xp_queue := q\<rparr>, None))
      | Running c f \<Rightarrow>
          if panics then (worker_end p, None)
          else let c' = task_complete now c in
            (case pool_record (execution_duration c') (xp_stats p) of
               (s, True) \<Rightarrow> (worker_end (p\<lparr>xp_stats := s\<rparr>), Some (c', f))
             | (s, False) \<Rightarrow> (worker_loop_head running (p\<lparr>xp_stats := s\<rparr>), Some (c', f))))"

text \<open>
  Starting: the pools are created, their workers are spawned, and only then is the flag set. \<open>early\<close>: the
  workers that are scheduled before that.
\<close>

definition executor_start :: "(nat \<Rightarrow> bool) \<Rightarrow> 'f executor \<Rightarrow> 'f executor \<times> (unit, executor_error) result" where
  "executor_start early x =
     (if xe_is_running x then (x, Err ExAlreadyRunning)
      else
        let fresh = map (\<lambda>i. if early i then fst (worker_step False 0 False exec_pool_new) else exec_pool_new) [0..<xe_task_pools x]
        in (x\<lparr>xe_pools := xe_pools x @ fresh, xe_is_running := True\<rparr>, Ok ()))"

definition executor_stop :: "'f executor \<Rightarrow> 'f executor" where
  "executor_stop x = (if \<not> xe_is_running x then x else x\<lparr>xe_is_running := False, xe_pools := []\<rparr>)"

text \<open>\<open>None\<close>: no such pool. With no pools the subtraction and the remainder go out of range.\<close>

definition select_pool :: "exec_priority \<Rightarrow> 'f executor \<Rightarrow> nat option" where
  "select_pool p x =
     (let n = length (xe_pools x) in
      if n = 0 then None
      else case p of
        ExCritical \<Rightarrow> Some 0
      | ExHigh \<Rightarrow> Some (min n 2 - 1)
      | _ \<Rightarrow> Some (xe_task_counter x mod n))"

definition spawn_with_priority :: "instant \<Rightarrow> 'f \<Rightarrow> exec_priority \<Rightarrow> 'f executor \<Rightarrow> 'f executor \<times> (u64, executor_error) result" where
  "spawn_with_priority now f p x =
     (if \<not> xe_is_running x then (x, Err ExNotRunning)
      else
        let i = xe_task_counter x; x1 = x\<lparr>xe_task_counter := i + 1\<rparr> in
        case select_pool p x1 of
          None \<Rightarrow> (x1, Panic)
        | Some k \<Rightarrow>
            let pool = xe_pools x1 ! k in
            if xp_worker pool = Ended then (x1, Err ExTaskQueueFull)
            else (x1\<lparr>xe_pools := (xe_pools x1)[k := pool\<lparr>xp_queue := xp_queue pool @ [(task_context_new now (of_nat i) p k, f)]\<rparr>]\<rparr>,
                  Ok (of_nat i)))"

definition exec_spawn :: "instant \<Rightarrow> 'f \<Rightarrow> 'f executor \<Rightarrow> 'f executor \<times> (u64, executor_error) result" where
  "exec_spawn now f x = spawn_with_priority now f ExNormal x"

definition executor_stats :: "'f executor \<Rightarrow> (usize \<times> usize \<times> u64 \<times> duration, unit) result" where
  "executor_stats x =
     (let ss = map xp_stats (xe_pools x);
          total_time = sum_list (map pst_total_execution_time ss);
          total_tasks = sum_list (map pst_tasks_executed ss)
      in if 0 < total_tasks then
           (if (ucast total_tasks :: u32) = 0 then Panic
            else Ok (length (xe_pools x), sum_list (map pst_active_tasks ss), total_tasks, total_time div unat (ucast total_tasks :: u32)))
         else Ok (length (xe_pools x), sum_list (map pst_active_tasks ss), total_tasks, 0))"

section \<open>The worker threads\<close>

datatype worker_state = WIdle | WProcessing | WWorkStealing | WBlocked | WStopping | WStopped

fun worker_state_code :: "worker_state \<Rightarrow> u64" where
  "worker_state_code WIdle = 0"
| "worker_state_code WProcessing = 1"
| "worker_state_code WWorkStealing = 2"
| "worker_state_code WBlocked = 3"
| "worker_state_code WStopping = 4"
| "worker_state_code WStopped = 5"

definition worker_state_of :: "u64 \<Rightarrow> worker_state" where
  "worker_state_of c =
     (if c = 0 then WIdle else if c = 1 then WProcessing else if c = 2 then WWorkStealing else if c = 3 then WBlocked
      else if c = 4 then WStopping else if c = 5 then WStopped else WIdle)"

record worker_stats =
  wk_state :: worker_state
  wk_tasks_processed :: u64
  wk_total_execution_time :: duration
  wk_avg_task_time :: duration
  wk_work_steal_attempts :: u64
  wk_work_steal_successes :: u64
  wk_last_activity :: instant

record hp_worker =
  hw_id :: usize
  hw_state :: u64
  hw_stats :: worker_stats
  hw_shutdown_signal :: bool
  hw_thread :: bool

definition hp_worker_new :: "instant \<Rightarrow> usize \<Rightarrow> hp_worker" where
  "hp_worker_new now i =
     \<lparr>hw_id = i, hw_state = worker_state_code WIdle,
      hw_stats = \<lparr>wk_state = WIdle, wk_tasks_processed = 0, wk_total_execution_time = 0, wk_avg_task_time = 0,
        wk_work_steal_attempts = 0, wk_work_steal_successes = 0, wk_last_activity = now\<rparr>,
      hw_shutdown_signal = False, hw_thread = False\<rparr>"

definition hp_worker_start :: "hp_worker \<Rightarrow> hp_worker \<times> (unit, string) result" where
  "hp_worker_start w =
     (if hw_thread w then (w, Err ''Worker thread already started'') else (w\<lparr>hw_thread := True\<rparr>, Ok ()))"

text \<open>No task is taken from anywhere: the worker sleeps, counts a processed task and reports that it processed none.\<close>

definition try_process_task :: "duration \<Rightarrow> hp_worker \<Rightarrow> hp_worker option" where
  "try_process_task d w =
     (let s = hw_stats w; n = wk_tasks_processed s + 1; t = wk_total_execution_time s + d in
      if (ucast n :: u32) = 0 then None
      else Some (w\<lparr>hw_state := worker_state_code WProcessing,
        hw_stats := s\<lparr>wk_tasks_processed := n, wk_total_execution_time := t, wk_avg_task_time := t div unat (ucast n :: u32),
          wk_state := WProcessing\<rparr>\<rparr>))"

definition try_work_stealing :: "hp_worker \<Rightarrow> hp_worker" where
  "try_work_stealing w =
     w\<lparr>hw_state := worker_state_code WWorkStealing,
       hw_stats := (hw_stats w)\<lparr>wk_work_steal_attempts := wk_work_steal_attempts (hw_stats w) + 1\<rparr>\<rparr>"

text \<open>One round of the main loop; \<open>since_steal\<close> is the time since the last attempt to steal.\<close>

definition worker_round :: "duration \<Rightarrow> duration \<Rightarrow> instant \<Rightarrow> hp_worker \<Rightarrow> hp_worker option" where
  "worker_round d since_steal now w =
     (if hw_shutdown_signal w
      then Some (w\<lparr>hw_state := worker_state_code WStopped, hw_stats := (hw_stats w)\<lparr>wk_state := WStopped\<rparr>\<rparr>)
      else case try_process_task d (w\<lparr>hw_state := worker_state_code WIdle\<rparr>) of
        None \<Rightarrow> None
      | Some w1 \<Rightarrow>
          let w2 = (if 50000000 < since_steal then try_work_stealing w1 else w1)
          in Some (w2\<lparr>hw_stats := (hw_stats w2)\<lparr>wk_last_activity := now\<rparr>\<rparr>))"

text \<open>\<open>finishes\<close>: whether the thread ends before the time is over.\<close>

definition hp_worker_stop :: "bool \<Rightarrow> hp_worker \<Rightarrow> hp_worker \<times> (unit, string) result" where
  "hp_worker_stop finishes w =
     (let w1 = w\<lparr>hw_shutdown_signal := True, hw_state := worker_state_code WStopping\<rparr>;
          stopped = w1\<lparr>hw_thread := False, hw_state := worker_state_code WStopped, hw_stats := (hw_stats w1)\<lparr>wk_state := WStopped\<rparr>\<rparr>
      in if hw_thread w \<and> \<not> finishes then (w1\<lparr>hw_thread := False\<rparr>, Err ''Worker thread shutdown timeout'')
         else (stopped, Ok ()))"

definition worker_health_check :: "instant \<Rightarrow> hp_worker \<Rightarrow> bool" where
  "worker_health_check now w =
     (let st = worker_state_of (hw_state w) in
      if st = WStopped \<or> st = WStopping then False
      else now - wk_last_activity (hw_stats w) < 30 * 1000000000)"

definition worker_pool_new :: "instant \<Rightarrow> usize \<Rightarrow> 'c list \<Rightarrow> hp_worker list" where
  "worker_pool_new now num_workers cpu_sets = map (hp_worker_new now) [0..<min num_workers (length cpu_sets)]"

fun stop_workers :: "(usize \<Rightarrow> bool) \<Rightarrow> hp_worker list \<Rightarrow> hp_worker list \<times> (unit, string) result" where
  "stop_workers finishes [] = ([], Ok ())"
| "stop_workers finishes (w # ws) =
     (case hp_worker_stop (finishes (hw_id w)) w of
        (w', Ok u) \<Rightarrow> (case stop_workers finishes ws of (ws', r) \<Rightarrow> (w' # ws', r))
      | (w', Err e) \<Rightarrow> (w' # ws, Err e)
      | (w', Panic) \<Rightarrow> (w' # ws, Panic))"

section \<open>Tasks are run once, in order\<close>

lemma worker_state_roundtrip: "worker_state_of (worker_state_code s) = s"
  by (cases s) (simp_all add: worker_state_of_def)

datatype 'f exec_op =
    ExSpawn instant 'f exec_priority
  | ExWork nat instant bool

text \<open>Next to the executor: the completed tasks, and the accepted ones with their pools, in order.\<close>

type_synonym 'f exec_trace = "'f executor \<times> (task_context \<times> 'f) list \<times> (nat \<times> u64 \<times> 'f) list"

fun exec_step :: "'f exec_op \<Rightarrow> 'f exec_trace \<Rightarrow> 'f exec_trace" where
  "exec_step (ExSpawn now f p) (x, fin, acc) =
     (case spawn_with_priority now f p x of
        (x', Ok i) \<Rightarrow> (x', fin, acc @ [(the (select_pool p (x\<lparr>xe_task_counter := xe_task_counter x + 1\<rparr>)), i, f)])
      | (x', _) \<Rightarrow> (x', fin, acc))"
| "exec_step (ExWork k now panics) (x, fin, acc) =
     (if k < length (xe_pools x) then
        (case worker_step (xe_is_running x) now panics (xe_pools x ! k) of
           (p, t) \<Rightarrow> (x\<lparr>xe_pools := (xe_pools x)[k := p]\<rparr>, fin @ (case t of None \<Rightarrow> [] | Some y \<Rightarrow> [y]), acc))
      else (x, fin, acc))"

definition task_key :: "task_context \<times> 'f \<Rightarrow> u64 \<times> 'f" where
  "task_key = (\<lambda>(c, f). (tc_id c, f))"

definition of_pool :: "nat \<Rightarrow> (task_context \<times> 'f) list \<Rightarrow> (task_context \<times> 'f) list" where
  "of_pool k = filter (\<lambda>(c, f). tc_pool_id c = k)"

text \<open>The task a worker has taken and not completed.\<close>

definition in_hand :: "'f exec_pool \<Rightarrow> (task_context \<times> 'f) list" where
  "in_hand p = (case xp_worker p of Running c f \<Rightarrow> [(c, f)] | _ \<Rightarrow> [])"

definition accepted_for :: "nat \<Rightarrow> (nat \<times> u64 \<times> 'f) list \<Rightarrow> (u64 \<times> 'f) list" where
  "accepted_for k acc = map snd (filter (\<lambda>(j, y). j = k) acc)"

definition fifo_pool :: "nat \<Rightarrow> bool \<Rightarrow> 'f exec_pool \<Rightarrow> (task_context \<times> 'f) list \<Rightarrow> (nat \<times> u64 \<times> 'f) list \<Rightarrow> bool" where
  "fifo_pool k crashed p fin acc \<longleftrightarrow>
     (\<forall>(c, f)\<in>set (in_hand p @ xp_queue p). tc_pool_id c = k) \<and> (\<forall>c f. xp_worker p = Running c f \<longrightarrow> tc_started_at c \<noteq> None)
     \<and> pst_tasks_executed (xp_stats p) = of_nat (length (of_pool k fin))
     \<and> (if xp_worker p = Ended
        then (\<exists>lost. map task_key (of_pool k fin) @ lost = accepted_for k acc) \<and> (length (of_pool k fin) = 2 ^ 32 \<or> crashed)
        else map task_key (of_pool k fin @ in_hand p @ xp_queue p) = accepted_for k acc \<and> length (of_pool k fin) < 2 ^ 32)"

definition fifo_ok :: "nat \<Rightarrow> (nat \<Rightarrow> bool) \<Rightarrow> 'f exec_trace \<Rightarrow> bool" where
  "fifo_ok n crashed s \<longleftrightarrow>
     (case s of (x, fin, acc) \<Rightarrow> xe_is_running x \<and> length (xe_pools x) = n \<and> (\<forall>k<n. fifo_pool k (crashed k) (xe_pools x ! k) fin acc))"

lemma select_pool_bound: "select_pool p x = Some k \<Longrightarrow> k < length (xe_pools x)"
  by (auto simp: select_pool_def Let_def min_def split: if_splits exec_priority.splits)

lemma accepted_for_append: "accepted_for k (acc @ [(j, y)]) = accepted_for k acc @ (if j = k then [y] else [])"
  by (simp add: accepted_for_def)

lemma spawn_fifo:
  assumes "fifo_ok n crashed (x, fin, acc)"
  shows "fifo_ok n crashed (exec_step (ExSpawn now f p) (x, fin, acc))"
proof (cases "select_pool p (x\<lparr>xe_task_counter := xe_task_counter x + 1\<rparr>)")
  case None
  with assms show ?thesis by (simp add: fifo_ok_def spawn_with_priority_def Let_def)
next
  case (Some k)
  let ?t = "(task_context_new now (of_nat (xe_task_counter x)) p k, f)"
  let ?pool = "xe_pools x ! k"
  have k: "k < n" using select_pool_bound[OF Some] assms by (simp add: fifo_ok_def)
  then have pool: "fifo_pool k (crashed k) ?pool fin acc" using assms by (simp add: fifo_ok_def)
  show ?thesis
  proof (cases "xp_worker ?pool = Ended")
    case True
    with assms Some show ?thesis by (simp add: spawn_with_priority_def Let_def fifo_ok_def)
  next
    case alive: False
    have step: "exec_step (ExSpawn now f p) (x, fin, acc) =
        (x\<lparr>xe_task_counter := xe_task_counter x + 1, xe_pools := (xe_pools x)[k := ?pool\<lparr>xp_queue := xp_queue ?pool @ [?t]\<rparr>]\<rparr>, fin,
         acc @ [(k, of_nat (xe_task_counter x), f)])"
      using assms alive Some by (simp add: spawn_with_priority_def Let_def fifo_ok_def)
    have "in_hand (?pool\<lparr>xp_queue := xp_queue ?pool @ [?t]\<rparr>) = in_hand ?pool" by (simp add: in_hand_def)
    then have "fifo_pool k (crashed k) (?pool\<lparr>xp_queue := xp_queue ?pool @ [?t]\<rparr>) fin (acc @ [(k, of_nat (xe_task_counter x), f)])"
      using pool alive by (auto simp: fifo_pool_def accepted_for_append task_key_def task_context_new_def)
    moreover have "fifo_pool j (crashed j) (xe_pools x ! j) fin (acc @ [(k, of_nat (xe_task_counter x), f)])" if "j < n" "j \<noteq> k" for j
      using that assms by (auto simp: fifo_ok_def fifo_pool_def accepted_for_append)
    ultimately show ?thesis unfolding step using assms k by (auto simp: fifo_ok_def nth_list_update)
  qed
qed

text \<open>The division panics exactly at the \<open>2\<^sup>3\<^sup>2\<close>-th task.\<close>

lemma pool_record_effect:
  assumes "pst_tasks_executed s = of_nat m" "m < 2 ^ 32"
  shows "\<exists>s'. pool_record (Some d) s = (s', Suc m = 2 ^ 32) \<and> pst_tasks_executed s' = of_nat (Suc m)"
proof -
  have "(ucast (of_nat (Suc m) :: u64) :: u32) = 0 \<longleftrightarrow> Suc m = 2 ^ 32"
  proof -
    have "unat (of_nat (Suc m) :: u64) = Suc m" using assms(2) by (simp only: unat_of_nat) (simp add: take_bit_nat_eq_self)
    then have "unat (ucast (of_nat (Suc m) :: u64) :: u32) = Suc m mod 2 ^ 32"
      by (simp only: unsigned_ucast_eq) (simp add: take_bit_eq_mod)
    then show ?thesis using assms(2) by (auto simp: unat_eq_zero [symmetric] simp del: unsigned_eq_0_iff dest: dvd_imp_le)
  qed
  then show ?thesis using assms(1) by (simp add: pool_record_def Let_def add.commute)
qed

lemma worker_fifo:
  assumes pool: "fifo_pool k crashed p fin acc" and step: "worker_step True now panics p = (p', t)"
    and "panics \<Longrightarrow> crashed"
  shows "fifo_pool k crashed p' (fin @ (case t of None \<Rightarrow> [] | Some y \<Rightarrow> [y])) acc
    \<and> (\<forall>c f. t = Some (c, f) \<longrightarrow> tc_pool_id c = k)"
proof (cases "xp_worker p")
  case Spawned
  with pool step show ?thesis by (auto simp: worker_step_def worker_loop_head_def fifo_pool_def in_hand_def)
next
  case Receiving
  with pool step show ?thesis
    by (cases "xp_queue p") (auto simp: worker_step_def fifo_pool_def in_hand_def task_key_def task_start_def)
next
  case Ended
  with pool step show ?thesis by (auto simp: worker_step_def fifo_pool_def in_hand_def)
next
  case (Running c f)
  let ?c = "task_complete now c"
  have c: "tc_pool_id ?c = k" "task_key (?c, f) = task_key (c, f)"
    using pool Running by (auto simp: fifo_pool_def in_hand_def task_complete_def task_key_def)
  have acc: "map task_key (of_pool k fin) @ task_key (c, f) # map task_key (xp_queue p) = accepted_for k acc"
    and few: "length (of_pool k fin) < 2 ^ 32" and count: "pst_tasks_executed (xp_stats p) = of_nat (length (of_pool k fin))"
    using pool Running by (auto simp: fifo_pool_def in_hand_def)
  have grown: "of_pool k (fin @ [(?c, f)]) = of_pool k fin @ [(?c, f)]" using c by (simp add: of_pool_def)
  show ?thesis
  proof (cases panics)
    case True
    with assms(3) step Running acc count show ?thesis
      by (auto simp: worker_step_def worker_end_def fifo_pool_def in_hand_def)
  next
    case False
    obtain d where "execution_duration ?c = Some d"
      using pool Running by (auto simp: fifo_pool_def execution_duration_def task_complete_def)
    with pool_record_effect [OF count few, of d] obtain s where
      s: "pool_record (execution_duration ?c) (xp_stats p) = (s, Suc (length (of_pool k fin)) = 2 ^ 32)"
        "pst_tasks_executed s = of_nat (Suc (length (of_pool k fin)))" by auto
    show ?thesis
    proof (cases "Suc (length (of_pool k fin)) = 2 ^ 32")
      case full: True
      then have "worker_step True now panics p = (worker_end (p\<lparr>xp_stats := s\<rparr>), Some (?c, f))"
        using Running False s(1) by (simp add: worker_step_def Let_def)
      moreover have "map task_key (of_pool k (fin @ [(?c, f)])) @ map task_key (xp_queue p) = accepted_for k acc"
        unfolding grown using acc c(2) by simp
      ultimately show ?thesis using step s(2) full c(1) grown
        by (auto simp: worker_end_def fifo_pool_def in_hand_def)
    next
      case part: False
      then have "worker_step True now panics p = (worker_loop_head True (p\<lparr>xp_stats := s\<rparr>), Some (?c, f))"
        using Running False s(1) by (simp add: worker_step_def Let_def)
      moreover have "map task_key (of_pool k (fin @ [(?c, f)]) @ xp_queue p) = accepted_for k acc"
        unfolding grown using acc c(2) by simp
      moreover have "length (of_pool k (fin @ [(?c, f)])) < 2 ^ 32" unfolding grown using part few by simp
      ultimately show ?thesis using step s(2) c(1) pool grown
        by (auto simp: worker_loop_head_def fifo_pool_def in_hand_def)
    qed
  qed
qed

lemma work_fifo:
  assumes ok: "fifo_ok n crashed (x, fin, acc)" and "panics \<Longrightarrow> crashed k"
  shows "fifo_ok n crashed (exec_step (ExWork k now panics) (x, fin, acc))"
proof (cases "k < n")
  case False
  with ok show ?thesis by (simp add: fifo_ok_def)
next
  case True
  obtain p' t where step: "worker_step True now panics (xe_pools x ! k) = (p', t)" by fastforce
  have pool: "fifo_pool k (crashed k) (xe_pools x ! k) fin acc" and run: "xe_is_running x" "length (xe_pools x) = n"
    using ok True by (simp_all add: fifo_ok_def)
  note new = worker_fifo [OF pool step assms(2)]
  have "fifo_pool j (crashed j) (xe_pools x ! j) (fin @ (case t of None \<Rightarrow> [] | Some y \<Rightarrow> [y])) acc" if "j < n" "j \<noteq> k" for j
    using that ok new by (cases t) (auto simp: fifo_ok_def fifo_pool_def of_pool_def)
  with new show ?thesis using run True step by (auto simp: fifo_ok_def nth_list_update)
qed

lemma exec_run_fifo:
  assumes "fifo_ok n crashed s" "\<And>k now. ExWork k now True \<in> set ops \<Longrightarrow> crashed k"
  shows "fifo_ok n crashed (fold exec_step ops s)"
  using assms
proof (induction ops arbitrary: s)
  case (Cons a ops)
  obtain x fin acc where s: "s = (x, fin, acc)" by (cases s) auto
  have "fifo_ok n crashed (exec_step a s)"
  proof (cases a)
    case (ExSpawn now f p)
    with Cons.prems(1) show ?thesis unfolding s by (simp only: spawn_fifo)
  next
    case (ExWork k now panics)
    have "panics \<Longrightarrow> crashed k" using Cons.prems(2) ExWork by auto
    with ExWork Cons.prems(1) show ?thesis unfolding s by (simp only: work_fifo)
  qed
  with Cons.IH Cons.prems(2) show ?case by (metis fold_simps(2) list.set_intros(2))
qed simp

text \<open>
  C37: no accepted task is lost, run twice or overtaken in its pool. If the workers are first scheduled after the executor is
  running, then after any interleaving of submissions and steps of the workers the tasks a pool has completed, followed by the
  one its worker has started and not completed, if any, and those it has queued, are the tasks accepted for that pool in the
  order of their submission. The exception is a pool whose worker has ended: its completed tasks are the first of the accepted
  ones and the others are lost, and this happens only when a task panics or at task number \<open>2 ^ 32\<close>, where the division for
  the average panics.
\<close>

theorem executor_fifo:
  assumes "executor_start (\<lambda>i. False) (executor_new n) = (x, Ok ())"
    and "fold exec_step ops (x, [], []) = (x', fin, acc)" "k < n"
  shows "if xp_worker (xe_pools x' ! k) = Ended
    then (\<exists>lost. map task_key (of_pool k fin) @ lost = accepted_for k acc)
      \<and> (length (of_pool k fin) = 2 ^ 32 \<or> (\<exists>now. ExWork k now True \<in> set ops))
    else map task_key (of_pool k fin @ in_hand (xe_pools x' ! k) @ xp_queue (xe_pools x' ! k)) = accepted_for k acc"
proof -
  let ?crashed = "\<lambda>k. \<exists>now. ExWork k now True \<in> set ops"
  have "fifo_ok n ?crashed (x, [], [])"
    using assms(1) by (auto simp: executor_start_def executor_new_def Let_def fifo_ok_def fifo_pool_def exec_pool_new_def
        pool_stats_default_def of_pool_def in_hand_def accepted_for_def)
  from exec_run_fifo[OF this, of ops] assms(2,3) have "fifo_pool k (?crashed k) (xe_pools x' ! k) fin acc"
    by (auto simp: fifo_ok_def)
  then show ?thesis unfolding fifo_pool_def by presburger
qed

theorem executor_fifo_witness:
  "\<exists>x x' fin acc. executor_start (\<lambda>i. False) (executor_new 2) = (x, Ok ())
     \<and> fold exec_step [ExSpawn 0 ''a'' ExCritical, ExSpawn 1 ''b'' ExCritical, ExWork 0 2 False, ExWork 0 3 False] (x, [], []) = (x', fin, acc)
     \<and> map task_key (of_pool 0 fin @ in_hand (xe_pools x' ! 0) @ xp_queue (xe_pools x' ! 0)) = [(0, ''a''), (1, ''b'')]"
proof -
  obtain x :: "string executor" where x: "executor_start (\<lambda>i. False) (executor_new 2) = (x, Ok ())"
    by (simp add: executor_start_def executor_new_def Let_def)
  let ?ops = "[ExSpawn 0 ''a'' ExCritical, ExSpawn 1 ''b'' ExCritical, ExWork 0 2 False, ExWork 0 3 False]"
  obtain x' fin acc where r: "fold exec_step ?ops (x, [], []) = (x', fin, acc)" by (cases "fold exec_step ?ops (x, [], [])") auto
  have "acc = [(0, 0, ''a''), (0, 1, ''b'')]" "xp_worker (xe_pools x' ! 0) \<noteq> Ended"
    using r x by (auto simp: executor_start_def executor_new_def Let_def spawn_with_priority_def select_pool_def exec_pool_new_def
        worker_step_def worker_loop_head_def upt_rec split: prod.splits)
  with executor_fifo[OF x r, of 0] x r show ?thesis by (auto simp: accepted_for_def)
qed

text \<open>
  a started executor may accept nothing. The workers look at the running flag before \<open>start\<close> sets it; if the workers of all pools
  are scheduled in between, they end, and the executor, although it is running, refuses every task as if
  its queues were full.
\<close>

theorem executor_start_race:
  assumes "executor_start (\<lambda>i. True) (executor_new n) = (x, Ok ())" "0 < n"
  shows "xe_is_running x \<and> snd (spawn_with_priority now f p x) = Err ExTaskQueueFull"
proof -
  have x: "xe_is_running x" "length (xe_pools x) = n" "\<forall>k<n. xp_worker (xe_pools x ! k) = Ended"
    using assms(1) by (auto simp: executor_start_def executor_new_def Let_def worker_step_def worker_loop_head_def worker_end_def exec_pool_new_def)
  obtain k where k: "select_pool p (x\<lparr>xe_task_counter := xe_task_counter x + 1\<rparr>) = Some k"
    using x(2) assms(2) by (cases p) (auto simp: select_pool_def Let_def)
  then have "k < n" using select_pool_bound[OF k] x(2) by simp
  with x k show ?thesis by (simp add: spawn_with_priority_def Let_def)
qed

theorem executor_start_race_witness:
  "\<exists>x. executor_start (\<lambda>i. True) (executor_new 4) = (x, Ok ()) \<and> snd (spawn_with_priority 0 () ExHigh x) = Err ExTaskQueueFull"
proof -
  obtain x :: "unit executor" where x: "executor_start (\<lambda>i. True) (executor_new 4) = (x, Ok ())"
    by (simp add: executor_start_def executor_new_def Let_def)
  with executor_start_race[OF x, of 0 "()" ExHigh] show ?thesis by auto
qed

text \<open>With no pools configured, spawning panics; and stopping drops what is queued.\<close>

lemma no_pools_panics:
  assumes "executor_start early (executor_new 0) = (x, Ok ())"
  shows "snd (spawn_with_priority now f p x) = Panic"
  using assms by (auto simp: executor_start_def executor_new_def Let_def spawn_with_priority_def select_pool_def)

text \<open>A worker thread counts a processed task in every round, although there is none.\<close>

lemma idle_rounds_count:
  assumes "worker_round d since now w = Some w'" "\<not> hw_shutdown_signal w"
  shows "wk_tasks_processed (hw_stats w') = wk_tasks_processed (hw_stats w) + 1"
  using assms by (auto simp: worker_round_def try_process_task_def try_work_stealing_def Let_def split: if_splits)

end
