(* ===== verification/Runtime_Metrics.thy ===== *)
theory Runtime_Metrics
  imports Clocks "HOL-Library.Multiset"
begin

text \<open>
  The measurements of the runtime, \<^verbatim>\<open>src/kaelix-core/src/runtime/metrics.rs\<close>: the latency histogram with its percentiles and the
  counters of tasks; and the health monitor of \<^verbatim>\<open>src/kaelix-core/src/runtime/mod.rs\<close>.
\<close>

section \<open>The latency histogram\<close>

definition boundaries :: "u64 list" where
  "boundaries = [1, 2, 5, 10, 20, 50, 100, 200, 500, 1000, 2000, 5000, 10000, 20000, 50000,
     100000, 200000, 500000, 1000000, 2000000, 5000000, 10000000]"

record latency_histogram =
  lh_buckets :: "u64 list"
  lh_total_samples :: u64
  lh_sum_latencies :: u64
  lh_min_latency :: u64
  lh_max_latency :: u64

definition histogram_new :: latency_histogram where
  "histogram_new =
     \<lparr>lh_buckets = replicate (length boundaries + 1) 0, lh_total_samples = 0, lh_sum_latencies = 0, lh_min_latency = - 1,
      lh_max_latency = 0\<rparr>"

text \<open>\<open>binary_search\<close> finds the boundary or the place where it belongs.\<close>

definition bucket_index :: "u64 \<Rightarrow> nat" where
  "bucket_index v = length (filter (\<lambda>b. b < v) boundaries)"

definition record_latency :: "u64 \<Rightarrow> latency_histogram \<Rightarrow> latency_histogram" where
  "record_latency v h =
     (let i = bucket_index v in
      \<lparr>lh_buckets = (lh_buckets h)[i := lh_buckets h ! i + 1], lh_total_samples = lh_total_samples h + 1,
       lh_sum_latencies = lh_sum_latencies h + v,
       lh_min_latency = (if v < lh_min_latency h then v else lh_min_latency h),
       lh_max_latency = (if lh_max_latency h < v then v else lh_max_latency h)\<rparr>)"

definition bucket_estimate :: "nat \<Rightarrow> u64" where
  "bucket_estimate i =
     (if i = 0 then boundaries ! 0 div 2
      else if length boundaries \<le> i then boundaries ! (length boundaries - 1) * 2
      else boundaries ! (i - 1))"

fun walk_buckets :: "u64 \<Rightarrow> nat \<Rightarrow> u64 \<Rightarrow> u64 list \<Rightarrow> nat option" where
  "walk_buckets target i running [] = None"
| "walk_buckets target i running (b # bs) =
     (if target \<le> running + b then Some i else walk_buckets target (i + 1) (running + b) bs)"

definition target_count :: "'f float_ops \<Rightarrow> 'f \<Rightarrow> u64 \<Rightarrow> u64" where
  "target_count fl p n = fl_as_u64 fl (fl_div fl (fl_mul fl (fl_of_usize fl (unat n)) p) (fl_tenths fl 1000))"

definition percentile :: "'f float_ops \<Rightarrow> 'f \<Rightarrow> latency_histogram \<Rightarrow> u64" where
  "percentile fl p h =
     (if lh_total_samples h = 0 then 0
      else case walk_buckets (target_count fl p (lh_total_samples h)) 0 0 (lh_buckets h) of
             Some i \<Rightarrow> bucket_estimate i
           | None \<Rightarrow> lh_max_latency h)"

definition histogram_mean :: "latency_histogram \<Rightarrow> u64" where
  "histogram_mean h = (if lh_total_samples h = 0 then 0 else lh_sum_latencies h div lh_total_samples h)"

definition histogram_min :: "latency_histogram \<Rightarrow> u64" where
  "histogram_min h = (if lh_min_latency h = - 1 then 0 else lh_min_latency h)"

definition histogram_reset :: "latency_histogram \<Rightarrow> latency_histogram" where
  "histogram_reset h =
     \<lparr>lh_buckets = map (\<lambda>_. 0) (lh_buckets h), lh_total_samples = 0, lh_sum_latencies = 0, lh_min_latency = - 1, lh_max_latency = 0\<rparr>"

section \<open>Counters of tasks\<close>

record runtime_metrics =
  rm_task_latency :: latency_histogram
  rm_io_latency :: latency_histogram
  rm_cpu_utilization :: u64
  rm_memory_usage :: u64
  rm_active_tasks :: u64
  rm_completed_tasks :: u64
  rm_failed_tasks :: u64

definition runtime_metrics_new :: runtime_metrics where
  "runtime_metrics_new =
     \<lparr>rm_task_latency = histogram_new, rm_io_latency = histogram_new, rm_cpu_utilization = 0, rm_memory_usage = 0,
      rm_active_tasks = 0, rm_completed_tasks = 0, rm_failed_tasks = 0\<rparr>"

definition as_micros_u64 :: "duration \<Rightarrow> u64" where
  "as_micros_u64 d = of_nat (d div 1000)"

definition record_task_start :: "runtime_metrics \<Rightarrow> runtime_metrics" where
  "record_task_start m = m\<lparr>rm_active_tasks := rm_active_tasks m + 1\<rparr>"

definition record_task_completion :: "duration \<Rightarrow> runtime_metrics \<Rightarrow> runtime_metrics" where
  "record_task_completion d m =
     m\<lparr>rm_task_latency := record_latency (as_micros_u64 d) (rm_task_latency m), rm_active_tasks := rm_active_tasks m - 1,
       rm_completed_tasks := rm_completed_tasks m + 1\<rparr>"

definition record_task_failure :: "duration \<Rightarrow> runtime_metrics \<Rightarrow> runtime_metrics" where
  "record_task_failure d m =
     m\<lparr>rm_task_latency := record_latency (as_micros_u64 d) (rm_task_latency m), rm_active_tasks := rm_active_tasks m - 1,
       rm_failed_tasks := rm_failed_tasks m + 1\<rparr>"

definition record_io_operation :: "duration \<Rightarrow> runtime_metrics \<Rightarrow> runtime_metrics" where
  "record_io_operation d m = m\<lparr>rm_io_latency := record_latency (as_micros_u64 d) (rm_io_latency m)\<rparr>"

definition update_cpu_utilization :: "u64 \<Rightarrow> runtime_metrics \<Rightarrow> runtime_metrics" where
  "update_cpu_utilization u m = m\<lparr>rm_cpu_utilization := u\<rparr>"

definition update_memory_usage :: "u64 \<Rightarrow> runtime_metrics \<Rightarrow> runtime_metrics" where
  "update_memory_usage b m = m\<lparr>rm_memory_usage := b\<rparr>"

section \<open>The health monitor\<close>

datatype runtime_health = RhHealthy | RhDegraded | RhUnhealthy | RhUnknown

record health_monitor =
  hmo_status :: runtime_health
  hmo_last_check :: "instant option"
  hmo_error_count :: u64
  hmo_total_checks :: u64

definition health_monitor_new :: health_monitor where
  "health_monitor_new = \<lparr>hmo_status = RhUnknown, hmo_last_check = None, hmo_error_count = 0, hmo_total_checks = 0\<rparr>"

definition health_update_status :: "instant \<Rightarrow> runtime_health \<Rightarrow> health_monitor \<Rightarrow> health_monitor" where
  "health_update_status now st m =
     m\<lparr>hmo_status := st, hmo_last_check := Some now, hmo_total_checks := hmo_total_checks m + 1\<rparr>"

definition get_error_rate :: "'f float_ops \<Rightarrow> health_monitor \<Rightarrow> 'f" where
  "get_error_rate fl m =
     (if hmo_total_checks m = 0 then fl_tenths fl 0
      else fl_div fl (fl_of_usize fl (unat (hmo_error_count m))) (fl_of_usize fl (unat (hmo_total_checks m))))"

definition health_record_error :: "'f float_ops \<Rightarrow> instant \<Rightarrow> health_monitor \<Rightarrow> health_monitor" where
  "health_record_error fl now m =
     (let m1 = m\<lparr>hmo_error_count := hmo_error_count m + 1\<rparr> in
      if 0 < hmo_total_checks m1
         \<and> fl_less fl (fl_tenths fl 1) (fl_div fl (fl_of_usize fl (unat (hmo_error_count m1))) (fl_of_usize fl (unat (hmo_total_checks m1))))
      then health_update_status now RhDegraded m1 else m1)"

record optimized_runtime =
  or_health_monitor :: health_monitor
  or_is_running :: bool

datatype optimized_runtime_error = AlreadyStarted | RuntimeNotStarted

definition optimized_runtime_new :: optimized_runtime where
  "optimized_runtime_new = \<lparr>or_health_monitor = health_monitor_new, or_is_running = False\<rparr>"

definition optimized_runtime_start :: "instant \<Rightarrow> optimized_runtime \<Rightarrow> optimized_runtime \<times> (unit, optimized_runtime_error) result" where
  "optimized_runtime_start now r =
     (if or_is_running r then (r, Err AlreadyStarted)
      else (r\<lparr>or_is_running := True, or_health_monitor := health_update_status now RhHealthy (or_health_monitor r)\<rparr>, Ok ()))"

definition optimized_runtime_shutdown :: "instant \<Rightarrow> optimized_runtime \<Rightarrow> optimized_runtime \<times> (unit, optimized_runtime_error) result" where
  "optimized_runtime_shutdown now r =
     (if \<not> or_is_running r then (r, Ok ())
      else (r\<lparr>or_is_running := False, or_health_monitor := health_update_status now RhUnknown (or_health_monitor r)\<rparr>, Ok ()))"

text \<open>The task is dropped: it is neither queued nor run.\<close>

definition optimized_runtime_schedule :: "'t \<Rightarrow> optimized_runtime \<Rightarrow> (unit, optimized_runtime_error) result" where
  "optimized_runtime_schedule task r = (if \<not> or_is_running r then Err RuntimeNotStarted else Ok ())"

section \<open>What the histogram knows of its samples\<close>

lemma sorted_boundaries: "sorted boundaries" "length boundaries = 22"
  by (simp_all add: boundaries_def)

lemma bucket_index_le: "bucket_index v \<le> 22"
  unfolding bucket_index_def using length_filter_le[of "\<lambda>b. b < v" boundaries] sorted_boundaries(2) by simp

lemma bucket_index_mono: "v \<le> w \<Longrightarrow> bucket_index v \<le> bucket_index w"
  unfolding bucket_index_def
proof -
  assume "v \<le> w"
  then have "filter (\<lambda>b. b < v) (filter (\<lambda>b. b < w) boundaries) = filter (\<lambda>b. b < v) boundaries"
    by (auto intro!: filter_cong)
  then show "length (filter (\<lambda>b. b < v) boundaries) \<le> length (filter (\<lambda>b. b < w) boundaries)"
    by (metis length_filter_le)
qed

definition holds_samples :: "u64 list \<Rightarrow> latency_histogram \<Rightarrow> bool" where
  "holds_samples xs h =
     (lh_buckets h = map (\<lambda>i. of_nat (length (filter (\<lambda>x. bucket_index x = i) xs))) [0..<23]
      \<and> lh_total_samples h = of_nat (length xs) \<and> lh_sum_latencies h = sum_list xs
      \<and> lh_min_latency h = foldr min xs (- 1) \<and> lh_max_latency h = foldr max xs 0)"

lemma holds_new: "holds_samples [] histogram_new"
  by (simp add: holds_samples_def histogram_new_def sorted_boundaries(2) map_replicate_const del: upt_Suc)

lemma foldr_min_snoc: "foldr min (xs @ [x]) (b :: 'a :: linorder) = min (foldr min xs b) x"
  by (induction xs) (simp_all add: min.commute min.left_commute)

lemma foldr_max_snoc: "foldr max (xs @ [x]) (b :: 'a :: linorder) = max (foldr max xs b) x"
  by (induction xs) (simp_all add: max.commute max.left_commute)

lemma holds_record: "holds_samples xs h \<Longrightarrow> holds_samples (xs @ [v]) (record_latency v h)"
proof -
  assume h: "holds_samples xs h"
  define count where "count xs i = (of_nat (length (filter (\<lambda>x. bucket_index x = i) xs)) :: u64)" for xs i
  have buckets: "lh_buckets h = map (count xs) [0..<23]" using h by (simp add: holds_samples_def count_def del: upt_Suc upt_rec_numeral)
  have "lh_buckets (record_latency v h) = (map (count xs) [0..<23])[bucket_index v := count xs (bucket_index v) + 1]"
    using bucket_index_le[of v] by (simp add: record_latency_def Let_def buckets del: upt_Suc upt_rec_numeral)
  also have "\<dots> = map (count (xs @ [v])) [0..<23]"
    using bucket_index_le[of v] by (intro nth_equalityI) (auto simp: nth_list_update count_def simp del: upt_Suc upt_rec_numeral)
  finally have "lh_buckets (record_latency v h) = map (count (xs @ [v])) [0..<23]" .
  moreover have "lh_total_samples (record_latency v h) = of_nat (length (xs @ [v]))" "lh_sum_latencies (record_latency v h) = sum_list (xs @ [v])"
    using h by (simp_all add: holds_samples_def record_latency_def Let_def)
  moreover have "lh_min_latency (record_latency v h) = foldr min (xs @ [v]) (- 1)" "lh_max_latency (record_latency v h) = foldr max (xs @ [v]) 0"
    using h unfolding foldr_min_snoc foldr_max_snoc by (auto simp: holds_samples_def record_latency_def Let_def min_def max_def)
  ultimately show ?thesis unfolding holds_samples_def count_def by blast
qed

lemma holds_run: "holds_samples ys h \<Longrightarrow> holds_samples (ys @ xs) (fold record_latency xs h)"
proof (induction xs arbitrary: ys h)
  case (Cons x xs)
  from Cons.IH[OF holds_record[OF Cons.prems]] show ?case by simp
qed simp

lemma histogram_holds: "holds_samples xs (fold record_latency xs histogram_new)"
  using holds_run[OF holds_new] by simp

lemma of_nat_le_u64: "a < 2 ^ 64 \<Longrightarrow> b < 2 ^ 64 \<Longrightarrow> (of_nat a \<le> (of_nat b :: u64)) = (a \<le> b)"
  by (simp add: word_le_nat_alt unat_of_nat take_bit_nat_eq_self)

definition count_below :: "u64 list \<Rightarrow> nat \<Rightarrow> nat" where
  "count_below xs i = length (filter (\<lambda>x. bucket_index x < i) xs)"

lemma count_below_Suc: "count_below xs (Suc i) = count_below xs i + length (filter (\<lambda>x. bucket_index x = i) xs)"
  unfolding count_below_def by (induction xs) (auto simp: less_Suc_eq)

lemma count_below_le: "count_below xs i \<le> length xs"
  by (simp add: count_below_def)

lemma walk_buckets_find:
  assumes "length xs < 2 ^ 64" "n < 2 ^ 64" "i + d = 23"
  shows "walk_buckets (of_nat n) i (of_nat (count_below xs i)) (map (\<lambda>i. of_nat (length (filter (\<lambda>x. bucket_index x = i) xs))) [i..<23])
     = find (\<lambda>k. n \<le> count_below xs (Suc k)) [i..<23]"
  using assms(3)
proof (induction d arbitrary: i)
  case (Suc d)
  have upt: "[i..<23] = i # [Suc i..<23]" using Suc.prems by (intro upt_conv_Cons) simp
  have sum: "of_nat (count_below xs i) + of_nat (length (filter (\<lambda>x. bucket_index x = i) xs)) = (of_nat (count_below xs (Suc i)) :: u64)"
    by (simp add: count_below_Suc)
  have "(of_nat n \<le> (of_nat (count_below xs (Suc i)) :: u64)) = (n \<le> count_below xs (Suc i))"
    using assms(1,2) count_below_le[of xs "Suc i"] by (intro of_nat_le_u64) simp_all
  with Suc show ?case by (simp add: upt sum del: upt_Suc upt_rec_numeral of_nat_add)
qed simp

lemma sorted_count:
  assumes "sorted (ks :: nat list)" "0 < n" "n \<le> length ks"
  shows "n \<le> length (filter (\<lambda>k. k < j) ks) \<longleftrightarrow> ks ! (n - 1) < j"
  using assms
proof (induction ks arbitrary: n)
  case (Cons k ks)
  show ?case
  proof (cases "k < j")
    case True
    show ?thesis
    proof (cases n)
      case (Suc m)
      with True Cons show ?thesis by (cases m) (auto simp: nth_Cons')
    qed (use Cons.prems in simp)
  next
    case False
    then have none: "filter (\<lambda>k. k < j) (k # ks) = []" using Cons.prems(1) by (auto simp: filter_empty_conv)
    have "(k # ks) ! (n - 1) \<in> set (k # ks)" using Cons.prems(2,3) by (intro nth_mem) simp
    then have "k \<le> (k # ks) ! (n - 1)" using Cons.prems(1) by auto
    with False none Cons.prems(2) show ?thesis by simp
  qed
qed simp

lemma find_ge: "b < m \<Longrightarrow> find (\<lambda>k. b \<le> k) [0..<m] = Some b"
  by (auto simp: find_Some_iff intro!: exI[of _ b])

lemma count_below_nth:
  assumes "0 < n" "n \<le> length xs"
  shows "n \<le> count_below xs (Suc k) \<longleftrightarrow> bucket_index (sort xs ! (n - 1)) \<le> k"
proof -
  let ?ks = "map bucket_index (sort xs)"
  have "sorted_wrt (\<lambda>x y. bucket_index x \<le> bucket_index y) (sort xs)"
    by (rule sorted_wrt_mono_rel[of _ "(\<le>)"]) (simp_all add: bucket_index_mono)
  then have "sorted ?ks" by (simp add: sorted_wrt_map)
  moreover have "length (filter (\<lambda>k'. k' < Suc k) ?ks) = count_below xs (Suc k)"
    by (simp add: filter_map comp_def filter_sort count_below_def)
  ultimately show ?thesis using sorted_count[of ?ks n "Suc k"] assms by (simp add: less_Suc_eq_le)
qed


lemma estimate_of_bucket:
  "bucket_estimate (bucket_index v) =
     (if v \<le> 1 then 0 else if 10000000 < v then 20000000 else last (filter (\<lambda>b. b < v) boundaries))"
proof -
  have pre: "filter (\<lambda>b. b < v) boundaries = take (bucket_index v) boundaries"
  proof -
    have "filter (\<lambda>b. b < v) bs = take (length (filter (\<lambda>b. b < v) bs)) bs" if "sorted bs" for bs :: "u64 list"
      using that by (induction bs) (auto simp: filter_empty_conv not_less order_trans intro: le_less_trans)
    from this[OF sorted_boundaries(1)] show ?thesis by (simp add: bucket_index_def)
  qed
  have zero: "bucket_index v = 0 \<longleftrightarrow> v \<le> 1"
  proof
    assume "bucket_index v = 0"
    moreover have "1 \<in> set boundaries" by (simp add: boundaries_def)
    ultimately show "v \<le> 1" by (auto simp: bucket_index_def filter_empty_conv not_less)
  next
    assume v: "v \<le> 1"
    have "list_all (\<lambda>b. 1 \<le> b) boundaries" by (simp add: boundaries_def)
    with v have "\<forall>b\<in>set boundaries. \<not> b < v" by (auto simp: list_all_iff not_less intro: order_trans)
    then show "bucket_index v = 0" by (simp add: bucket_index_def filter_empty_conv)
  qed
  have full: "22 \<le> bucket_index v \<longleftrightarrow> 10000000 < v"
  proof -
    have "22 \<le> bucket_index v \<longleftrightarrow> length (filter (\<lambda>b. b < v) boundaries) = length boundaries"
      using bucket_index_le[of v] sorted_boundaries(2) by (simp add: bucket_index_def)
    also have "\<dots> \<longleftrightarrow> (\<forall>b\<in>set boundaries. b < v)" by (metis filter_True length_filter_less less_irrefl)
    also have "\<dots> \<longleftrightarrow> 10000000 < v"
    proof
      assume v: "10000000 < v"
      have "list_all (\<lambda>b. b \<le> 10000000) boundaries" by (simp add: boundaries_def)
      with v show "\<forall>b\<in>set boundaries. b < v" by (auto simp: list_all_iff)
    qed (simp add: boundaries_def)
    finally show ?thesis .
  qed
  have mid: "last (filter (\<lambda>b. b < v) boundaries) = boundaries ! (bucket_index v - 1)" if "bucket_index v \<noteq> 0"
    unfolding pre using that bucket_index_le[of v] sorted_boundaries(2) by (subst last_conv_nth) auto
  have "boundaries ! 0 div 2 = 0" "boundaries ! (22 - 1) * 2 = 20000000" by (simp_all add: boundaries_def)
  with zero full mid sorted_boundaries(2) show ?thesis by (auto simp: bucket_estimate_def)
qed

text \<open>
  a percentile is the lower end of the bucket of the exact one. After recording any samples, with the target rank the floating-point
  arithmetic computes, the result is the largest boundary below the sample of that rank: it underestimates the exact
  percentile by less than a bucket. At most one microsecond is reported as 0, and everything above ten
  seconds as twenty.
\<close>

theorem percentile_brackets:
  assumes "target_count fl p (of_nat (length xs)) = of_nat n" "0 < n" "n \<le> length xs" "length xs < 2 ^ 64"
  shows "percentile fl p (fold record_latency xs histogram_new) =
     (let s = sort xs ! (n - 1)
      in if s \<le> 1 then 0 else if 10000000 < s then 20000000 else last (filter (\<lambda>b. b < s) boundaries))"
proof -
  let ?h = "fold record_latency xs histogram_new"
  let ?s = "sort xs ! (n - 1)"
  have total: "lh_total_samples ?h = of_nat (length xs)"
    and buckets: "lh_buckets ?h = map (\<lambda>i. of_nat (length (filter (\<lambda>x. bucket_index x = i) xs))) [0..<23]"
    using histogram_holds[of xs] by (simp_all add: holds_samples_def del: upt_Suc upt_rec_numeral)
  have "length xs \<noteq> 0" using assms(2,3) by linarith
  then have "unat (of_nat (length xs) :: u64) \<noteq> 0" using assms(4) by (simp add: unat_of_nat take_bit_nat_eq_self)
  then have nz: "(of_nat (length xs) :: u64) \<noteq> 0" by (metis unat_0)
  have "count_below xs 0 = 0" by (simp add: count_below_def)
  then have "walk_buckets (of_nat n) 0 0 (lh_buckets ?h) = find (\<lambda>k. n \<le> count_below xs (Suc k)) [0..<23]"
    using walk_buckets_find[of xs n 0 23] assms(3,4) unfolding buckets by simp
  also have "\<dots> = find (\<lambda>k. bucket_index ?s \<le> k) [0..<23]" using count_below_nth[OF assms(2,3)] by simp
  also have "\<dots> = Some (bucket_index ?s)" using bucket_index_le[of ?s] by (intro find_ge) simp
  finally have "percentile fl p ?h = bucket_estimate (bucket_index ?s)" using nz assms(1) by (simp add: percentile_def total)
  then show ?thesis by (simp add: estimate_of_bucket Let_def)
qed

theorem percentile_brackets_witness:
  "percentile sample_floats 500 (fold record_latency [7, 300, 40, 2] histogram_new) = 5"
proof -
  have "sort [7, 300, 40, 2 :: u64] = [2, 7, 40, 300]" by simp
  moreover have "target_count sample_floats 500 (of_nat (length [7, 300, 40, 2 :: u64])) = of_nat 2"
    by (simp add: target_count_def sample_floats_def)
  ultimately show ?thesis using percentile_brackets[of sample_floats 500 "[7, 300, 40, 2]" 2] by (simp add: boundaries_def word_le_nat_alt)
qed

text \<open>Completing a task that was not announced as started wraps the number of active tasks.\<close>

lemma active_tasks_wrap: "rm_active_tasks (record_task_completion d runtime_metrics_new) = - 1"
  by (simp add: record_task_completion_def runtime_metrics_new_def)

text \<open>Each error that degrades the status also counts as a check, so the rate is bounded by errors alone only for the first error.\<close>

lemma errors_count_checks:
  assumes "0 < hmo_total_checks m" "fl_less fl (fl_tenths fl 1)
      (fl_div fl (fl_of_usize fl (unat (hmo_error_count m + 1))) (fl_of_usize fl (unat (hmo_total_checks m))))"
  shows "hmo_total_checks (health_record_error fl now m) = hmo_total_checks m + 1 \<and> hmo_status (health_record_error fl now m) = RhDegraded"
  using assms by (simp add: health_record_error_def health_update_status_def Let_def)

end
