(* ===== verification/Broker.thy ===== *)
theory Broker
  imports Clocks
begin

text \<open>
  The message broker and its network side, \<^verbatim>\<open>src/kaelix-broker/src/broker.rs\<close>, \<^verbatim>\<open>network/connection.rs\<close>,
  \<^verbatim>\<open>network/listener.rs\<close> and \<^verbatim>\<open>network/server.rs\<close>, and the clients' offset manager, \<^verbatim>\<open>src/kaelix-consumer/src/offset.rs\<close>.
  A broadcast channel is a value of a type \<open>'ch\<close> in a store; what a channel is when made and after a send, received or not, are
  arguments. Sockets are opaque; ids and clock readings are arguments.
\<close>

section \<open>Publish and subscribe\<close>

datatype broker_error = Internal string | NetworkError string

record ('t, 'ch) message_broker =
  mbr_running :: bool
  mbr_subscriptions :: "('t, nat list) hash_map"
  mbr_message_counter :: u64
  mbr_channels :: "'ch list"

definition message_broker_new :: "('t, 'ch) message_broker" where
  "message_broker_new = \<lparr>mbr_running = False, mbr_subscriptions = [], mbr_message_counter = 0, mbr_channels = []\<rparr>"

definition broker_start :: "('t, 'ch) message_broker \<Rightarrow> ('t, 'ch) message_broker \<times> (unit, broker_error) result" where
  "broker_start b =
     (if mbr_running b then (b, Err (Internal ''Broker is already running'')) else (b\<lparr>mbr_running := True\<rparr>, Ok ()))"

definition broker_stop :: "('t, 'ch) message_broker \<Rightarrow> ('t, 'ch) message_broker \<times> (unit, broker_error) result" where
  "broker_stop b =
     (if \<not> mbr_running b then (b, Ok ()) else (b\<lparr>mbr_running := False, mbr_subscriptions := []\<rparr>, Ok ()))"

definition send_all :: "('m \<Rightarrow> 'ch \<Rightarrow> 'ch) \<Rightarrow> 'm \<Rightarrow> nat list \<Rightarrow> 'ch list \<Rightarrow> 'ch list" where
  "send_all send m ids chans = fold (\<lambda>i cs. cs[i := send m (cs ! i)]) ids chans"

text \<open>
  A publication is one call of \<open>send\<close> on each channel of the topic. What receivers do with a channel in between
  (take messages, fall behind, go away) does not change what is sent to it: it is part of the channel, not of the
  broker, and a send that nobody receives is not reported.
\<close>

definition broker_publish :: "('m \<Rightarrow> 'ch \<Rightarrow> 'ch) \<Rightarrow> 't \<Rightarrow> 'm \<Rightarrow> ('t, 'ch) message_broker \<Rightarrow> ('t, 'ch) message_broker \<times> (unit, broker_error) result" where
  "broker_publish send topic m b =
     (if \<not> mbr_running b then (b, Err (Internal ''Broker is not running''))
      else
        let chans = (case hm_get (mbr_subscriptions b) topic of None \<Rightarrow> mbr_channels b | Some ids \<Rightarrow> send_all send m ids (mbr_channels b))
        in (b\<lparr>mbr_channels := chans, mbr_message_counter := mbr_message_counter b + 1\<rparr>, Ok ()))"

text \<open>The receiver is the index of its channel.\<close>

definition broker_subscribe :: "'ch \<Rightarrow> 't \<Rightarrow> ('t, 'ch) message_broker \<Rightarrow> ('t, 'ch) message_broker \<times> (nat, broker_error) result" where
  "broker_subscribe fresh topic b =
     (if \<not> mbr_running b then (b, Err (Internal ''Broker is not running''))
      else
        let i = length (mbr_channels b)
        in (b\<lparr>mbr_channels := mbr_channels b @ [fresh],
              mbr_subscriptions := hm_insert topic (hm_get_or [] (mbr_subscriptions b) topic @ [i]) (mbr_subscriptions b)\<rparr>, Ok i))"

definition broker_state :: "('t, 'ch) message_broker \<Rightarrow> bool \<times> u64 \<times> usize" where
  "broker_state b = (mbr_running b, mbr_message_counter b, length (mbr_subscriptions b))"

section \<open>Connections\<close>

datatype connection_state = CsConnecting | CsActive | CsClosing | CsClosed | CsError

fun connection_state_str :: "connection_state \<Rightarrow> string" where
  "connection_state_str CsConnecting = ''connecting''"
| "connection_state_str CsActive = ''active''"
| "connection_state_str CsClosing = ''closing''"
| "connection_state_str CsClosed = ''closed''"
| "connection_state_str CsError = ''error''"

definition saturating_add64 :: "u64 \<Rightarrow> u64 \<Rightarrow> u64" where
  "saturating_add64 a b = (if unat a + unat b < 2 ^ 64 then a + b else - 1)"

record connection_stats =
  cst_bytes_received :: u64
  cst_bytes_sent :: u64
  cst_messages_received :: u64
  cst_messages_sent :: u64
  cst_connected_at :: instant
  cst_last_activity :: instant

definition connection_stats_new :: "instant \<Rightarrow> connection_stats" where
  "connection_stats_new now =
     \<lparr>cst_bytes_received = 0, cst_bytes_sent = 0, cst_messages_received = 0, cst_messages_sent = 0, cst_connected_at = now,
      cst_last_activity = now\<rparr>"

definition add_bytes_received :: "instant \<Rightarrow> u64 \<Rightarrow> connection_stats \<Rightarrow> connection_stats" where
  "add_bytes_received now n s = s\<lparr>cst_bytes_received := saturating_add64 (cst_bytes_received s) n, cst_last_activity := now\<rparr>"

definition add_bytes_sent :: "instant \<Rightarrow> u64 \<Rightarrow> connection_stats \<Rightarrow> connection_stats" where
  "add_bytes_sent now n s = s\<lparr>cst_bytes_sent := saturating_add64 (cst_bytes_sent s) n, cst_last_activity := now\<rparr>"

definition add_message_received :: "instant \<Rightarrow> connection_stats \<Rightarrow> connection_stats" where
  "add_message_received now s = s\<lparr>cst_messages_received := saturating_add64 (cst_messages_received s) 1, cst_last_activity := now\<rparr>"

definition add_message_sent :: "instant \<Rightarrow> connection_stats \<Rightarrow> connection_stats" where
  "add_message_sent now s = s\<lparr>cst_messages_sent := saturating_add64 (cst_messages_sent s) 1, cst_last_activity := now\<rparr>"

record 'a connection =
  con_id :: u128
  con_remote_addr :: 'a
  con_state :: connection_state
  con_stats :: connection_stats
  con_has_stream :: bool
  con_timeout :: duration

definition connection_new :: "instant \<Rightarrow> u128 \<Rightarrow> 'a \<Rightarrow> 'a connection" where
  "connection_new now i addr =
     \<lparr>con_id = i, con_remote_addr = addr, con_state = CsConnecting, con_stats = connection_stats_new now, con_has_stream = False,
      con_timeout = 30 * 1000000000\<rparr>"

definition connection_with_stream :: "instant \<Rightarrow> u128 \<Rightarrow> 'a \<Rightarrow> 'a connection" where
  "connection_with_stream now i addr =
     \<lparr>con_id = i, con_remote_addr = addr, con_state = CsActive, con_stats = connection_stats_new now, con_has_stream = True,
      con_timeout = 30 * 1000000000\<rparr>"

definition set_connection_state :: "connection_state \<Rightarrow> 'a connection \<Rightarrow> 'a connection" where
  "set_connection_state st c = c\<lparr>con_state := st\<rparr>"

definition is_idle :: "instant \<Rightarrow> 'a connection \<Rightarrow> bool" where
  "is_idle now c = (con_timeout c < now - cst_last_activity (con_stats c))"

definition connection_is_active :: "'a connection \<Rightarrow> bool" where
  "connection_is_active c = (con_state c = CsActive)"

text \<open>An error of the socket's shutdown is only logged.\<close>

definition connection_close :: "'a connection \<Rightarrow> 'a connection" where
  "connection_close c = set_connection_state CsClosed (set_connection_state CsClosing c)"

definition connection_set_error :: "'a connection \<Rightarrow> 'a connection" where
  "connection_set_error c = set_connection_state CsError c"

record 'a connection_manager =
  cmg_connections :: "(u128, 'a connection) hash_map"
  cmg_max_connections :: usize
  cmg_connection_counter :: u64

definition connection_manager_new :: "usize \<Rightarrow> 'a connection_manager" where
  "connection_manager_new n = \<lparr>cmg_connections = [], cmg_max_connections = n, cmg_connection_counter = 0\<rparr>"

definition add_connection :: "'a connection \<Rightarrow> 'a connection_manager \<Rightarrow> 'a connection_manager \<times> (u128, broker_error) result" where
  "add_connection c m =
     (if cmg_max_connections m \<le> length (cmg_connections m) then (m, Err (NetworkError ''Maximum connections exceeded''))
      else (m\<lparr>cmg_connections := hm_insert (con_id c) c (cmg_connections m), cmg_connection_counter := cmg_connection_counter m + 1\<rparr>, Ok (con_id c)))"

definition remove_connection :: "u128 \<Rightarrow> 'a connection_manager \<Rightarrow> 'a connection_manager \<times> 'a connection option" where
  "remove_connection i m =
     (case hm_get (cmg_connections m) i of
        None \<Rightarrow> (m, None) | Some c \<Rightarrow> (m\<lparr>cmg_connections := hm_remove i (cmg_connections m)\<rparr>, Some c))"

definition get_connection :: "u128 \<Rightarrow> 'a connection_manager \<Rightarrow> 'a connection option" where
  "get_connection i m = hm_get (cmg_connections m) i"

definition can_accept_connection :: "'a connection_manager \<Rightarrow> bool" where
  "can_accept_connection m = (length (cmg_connections m) < cmg_max_connections m)"

definition cleanup_idle_connections :: "instant \<Rightarrow> 'a connection_manager \<Rightarrow> 'a connection_manager \<times> 'a connection list" where
  "cleanup_idle_connections now m =
     (let ids = map fst (filter (\<lambda>(i, c). is_idle now c) (cmg_connections m))
      in fold (\<lambda>i (m, closed). case remove_connection i m of
                 (m', Some c) \<Rightarrow> (m', closed @ [connection_close c]) | (m', None) \<Rightarrow> (m', closed)) ids (m, []))"

section \<open>The listener\<close>

text \<open>
  A handler owns its connection from its registration on; the manager and the handler share it, so a change of the
  connection goes to the manager's entry while it is there. \<open>served\<close>: how the handler's work ends (\<open>None\<close>: over time).
\<close>

definition process_new_connection :: "instant \<Rightarrow> u128 \<Rightarrow> 'a \<Rightarrow> 'a connection_manager \<Rightarrow> 'a connection_manager \<times> (unit, broker_error) result" where
  "process_new_connection now i addr m =
     (if \<not> can_accept_connection m then (m, Ok ())
      else case add_connection (connection_with_stream now i addr) m of
        (m', Ok j) \<Rightarrow> (m', Ok ())
      | (m', Err e) \<Rightarrow> (m', Err e)
      | (m', Panic) \<Rightarrow> (m', Panic))"

definition process_connection_result :: "(unit, broker_error) result option \<Rightarrow> 'a connection \<Rightarrow> 'a connection" where
  "process_connection_result served c = (case served of Some (Ok u) \<Rightarrow> c | _ \<Rightarrow> connection_set_error c)"

definition handle_connection :: "(unit, broker_error) result option \<Rightarrow> 'a connection \<Rightarrow> 'a connection_manager \<Rightarrow> 'a connection_manager \<times> 'a connection" where
  "handle_connection served c m =
     (let c1 = process_connection_result served c
      in (fst (remove_connection (con_id c) m), connection_close c1))"

definition shutdown_all_connections :: "'a connection_manager \<Rightarrow> 'a connection_manager" where
  "shutdown_all_connections m = m\<lparr>cmg_connections := map (\<lambda>(i, c). (i, connection_close c)) (cmg_connections m)\<rparr>"

section \<open>The server\<close>

record 'a network_config =
  nwc_bind_address :: 'a
  nwc_max_connections :: usize
  nwc_connection_timeout :: duration
  nwc_tls_enabled :: bool

definition validate_network_config :: "'a network_config \<Rightarrow> (unit, broker_error) result" where
  "validate_network_config c =
     (if nwc_max_connections c = 0 then Err (NetworkError ''Maximum connections must be greater than 0'')
      else if nwc_connection_timeout c = 0 then Err (NetworkError ''Connection timeout must be greater than 0'')
      else Ok ())"

datatype server_task = NoTask | TaskRunning | TaskFinished

record 'a tcp_server =
  srv_config :: "'a network_config"
  srv_shutdown_tx :: bool
  srv_server_task :: server_task
  srv_metrics_task :: bool

definition tcp_server_new :: "'a network_config \<Rightarrow> ('a tcp_server, broker_error) result" where
  "tcp_server_new c =
     and_then (validate_network_config c) (\<lambda>u.
       Ok \<lparr>srv_config = c, srv_shutdown_tx = False, srv_server_task = NoTask, srv_metrics_task = False\<rparr>)"

definition server_is_running :: "'a tcp_server \<Rightarrow> bool" where
  "server_is_running s = (srv_server_task s = TaskRunning)"

definition server_start :: "'a tcp_server \<Rightarrow> 'a tcp_server \<times> (unit, broker_error) result" where
  "server_start s =
     (if server_is_running s then (s, Err (NetworkError ''Server is already running''))
      else (s\<lparr>srv_shutdown_tx := True, srv_server_task := TaskRunning, srv_metrics_task := True\<rparr>, Ok ()))"

text \<open>The metrics task listens until it is told to stop, so the signal always finds a receiver.\<close>

definition server_stop :: "'a tcp_server \<Rightarrow> 'a tcp_server \<times> (unit, broker_error) result" where
  "server_stop s =
     (if \<not> srv_shutdown_tx s then (s, Err (NetworkError ''Server is not running''))
      else (s\<lparr>srv_shutdown_tx := False, srv_server_task := NoTask, srv_metrics_task := False\<rparr>, Ok ()))"

definition server_update_config :: "'a network_config \<Rightarrow> 'a tcp_server \<Rightarrow> 'a tcp_server \<times> (unit, broker_error) result" where
  "server_update_config c s =
     (if server_is_running s then (s, Err (NetworkError ''Cannot update configuration while server is running''))
      else case validate_network_config c of
        Ok u \<Rightarrow> (s\<lparr>srv_config := c\<rparr>, Ok ()) | Err e \<Rightarrow> (s, Err e) | Panic \<Rightarrow> (s, Panic))"

record 'a tcp_server_builder =
  tsb_bind_address :: "'a option"
  tsb_max_connections :: "usize option"
  tsb_connection_timeout :: "duration option"
  tsb_tls_enabled :: "bool option"

definition or_default :: "'a \<Rightarrow> 'a option \<Rightarrow> 'a" where
  "or_default d x = (case x of None \<Rightarrow> d | Some y \<Rightarrow> y)"

text \<open>\<open>local_addr\<close> is the parsed literal \<^verbatim>\<open>127.0.0.1:9092\<close>.\<close>

definition server_build :: "'a \<Rightarrow> 'a tcp_server_builder \<Rightarrow> ('a tcp_server, broker_error) result" where
  "server_build local_addr b =
     tcp_server_new \<lparr>nwc_bind_address = or_default local_addr (tsb_bind_address b),
       nwc_max_connections = or_default 10000 (tsb_max_connections b),
       nwc_connection_timeout = or_default (30 * 1000000000) (tsb_connection_timeout b),
       nwc_tls_enabled = or_default False (tsb_tls_enabled b)\<rparr>"

section \<open>Clients\<close>

type_synonym ('p, 'o) offset_manager = "('p, 'o) hash_map"

definition update_offset :: "'p \<Rightarrow> 'o \<Rightarrow> ('p, 'o) offset_manager \<Rightarrow> ('p, 'o) offset_manager" where
  "update_offset p off m = hm_insert p off m"

definition get_offset :: "'p \<Rightarrow> ('p, 'o) offset_manager \<Rightarrow> 'o option" where
  "get_offset p m = hm_get m p"

definition reset_offset :: "'p \<Rightarrow> ('p, 'o) offset_manager \<Rightarrow> ('p, 'o) offset_manager" where
  "reset_offset p m = hm_remove p m"

text \<open>Committing does nothing yet.\<close>

definition commit_offset :: "'p \<Rightarrow> 'o \<Rightarrow> ('p, 'o) offset_manager \<Rightarrow> (unit, broker_error) result" where
  "commit_offset p off m = Ok ()"

definition commit_all :: "('p, 'o) offset_manager \<Rightarrow> (unit, broker_error) result" where
  "commit_all m = Ok ()"

section \<open>Delivery\<close>

datatype ('t, 'm) broker_op = BStart | BStop | BSubscribe 't | BPublish 't 'm

fun broker_step :: "('m \<Rightarrow> 'ch \<Rightarrow> 'ch) \<Rightarrow> 'ch \<Rightarrow> ('t, 'm) broker_op \<Rightarrow> ('t, 'ch) message_broker \<Rightarrow> ('t, 'ch) message_broker" where
  "broker_step send fresh BStart b = fst (broker_start b)"
| "broker_step send fresh BStop b = fst (broker_stop b)"
| "broker_step send fresh (BSubscribe t) b = fst (broker_subscribe fresh t b)"
| "broker_step send fresh (BPublish t m) b = fst (broker_publish send t m b)"

text \<open>
  The specification: whether the broker runs, and for each subscription, in order, its topic, whether it is live, and the
  messages it was sent.
\<close>

type_synonym ('t, 'm) delivery = "bool \<times> ('t \<times> bool \<times> 'm list) list"

fun delivery_step :: "('t, 'm) broker_op \<Rightarrow> ('t, 'm) delivery \<Rightarrow> ('t, 'm) delivery" where
  "delivery_step BStart (running, subs) = (True, subs)"
| "delivery_step BStop (running, subs) = (False, map (\<lambda>(t, live, ms). (t, False, ms)) subs)"
| "delivery_step (BSubscribe t) (running, subs) = (running, if running then subs @ [(t, True, [])] else subs)"
| "delivery_step (BPublish t m) (running, subs) =
     (running, if running then map (\<lambda>(u, live, ms). (u, live, if live \<and> u = t then ms @ [m] else ms)) subs else subs)"

definition broker_refines :: "('m \<Rightarrow> 'ch \<Rightarrow> 'ch) \<Rightarrow> 'ch \<Rightarrow> ('t, 'ch) message_broker \<Rightarrow> ('t, 'm) delivery \<Rightarrow> bool" where
  "broker_refines send fresh b d =
     (mbr_running b = fst d
      \<and> mbr_channels b = map (\<lambda>(t, live, ms). fold send ms fresh) (snd d)
      \<and> (\<forall>t. distinct (hm_get_or [] (mbr_subscriptions b) t)
             \<and> set (hm_get_or [] (mbr_subscriptions b) t) = {i. i < length (snd d) \<and> fst (snd d ! i) = t \<and> fst (snd (snd d ! i))})
      \<and> (\<not> fst d \<longrightarrow> (\<forall>x\<in>set (snd d). \<not> fst (snd x))))"

lemma send_all_nth:
  assumes "distinct ids" "\<And>i. i \<in> set ids \<Longrightarrow> i < length chans"
  shows "length (send_all send m ids chans) = length chans
     \<and> (\<forall>i<length chans. send_all send m ids chans ! i = (if i \<in> set ids then send m (chans ! i) else chans ! i))"
  using assms
proof (induction ids arbitrary: chans)
  case (Cons j ids)
  let ?cs = "chans[j := send m (chans ! j)]"
  have "send_all send m (j # ids) chans = send_all send m ids ?cs" by (simp add: send_all_def)
  moreover have "length (send_all send m ids ?cs) = length ?cs
      \<and> (\<forall>i<length ?cs. send_all send m ids ?cs ! i = (if i \<in> set ids then send m (?cs ! i) else ?cs ! i))"
    using Cons.prems by (intro Cons.IH) auto
  moreover have "j < length chans" using Cons.prems(2) by simp
  ultimately show ?case using Cons.prems(1) by (auto simp: nth_list_update)
qed (simp add: send_all_def)

lemma publish_refines:
  assumes "broker_refines send fresh b (running, subs)"
  shows "broker_refines send fresh (fst (broker_publish send t m b)) (delivery_step (BPublish t m) (running, subs))"
proof (cases running)
  case False
  with assms show ?thesis by (simp add: broker_publish_def broker_refines_def)
next
  case True
  let ?ids = "hm_get_or [] (mbr_subscriptions b) t"
  let ?subs = "map (\<lambda>(u, live, ms). (u, live, if live \<and> u = t then ms @ [m] else ms)) subs"
  have run: "mbr_running b" and chans: "mbr_channels b = map (\<lambda>(t, live, ms). fold send ms fresh) subs"
    and ids: "distinct ?ids" "set ?ids = {i. i < length subs \<and> fst (subs ! i) = t \<and> fst (snd (subs ! i))}"
    using assms True by (auto simp: broker_refines_def)
  have pub: "fst (broker_publish send t m b) = b\<lparr>mbr_channels := send_all send m ?ids (mbr_channels b), mbr_message_counter := mbr_message_counter b + 1\<rparr>"
    using run by (simp add: broker_publish_def Let_def hm_get_or_def send_all_def split: option.split)
  have len: "length (mbr_channels b) = length subs" by (simp add: chans)
  have sent: "length (send_all send m ?ids (mbr_channels b)) = length (mbr_channels b)
      \<and> (\<forall>i<length (mbr_channels b). send_all send m ?ids (mbr_channels b) ! i =
          (if i \<in> set ?ids then send m (mbr_channels b ! i) else mbr_channels b ! i))"
    using ids len by (intro send_all_nth) auto
  have "send_all send m ?ids (mbr_channels b) = map (\<lambda>(t, live, ms). fold send ms fresh) ?subs"
  proof (rule nth_equalityI)
    fix i assume "i < length (send_all send m ?ids (mbr_channels b))"
    then have i: "i < length subs" using sent len by simp
    obtain u live ms where e: "subs ! i = (u, live, ms)" by (cases "subs ! i") auto
    have "mbr_channels b ! i = fold send ms fresh" using i e by (simp add: chans)
    moreover have "i \<in> set ?ids \<longleftrightarrow> live \<and> u = t" using i e by (auto simp: ids(2))
    ultimately show "send_all send m ?ids (mbr_channels b) ! i = map (\<lambda>(t, live, ms). fold send ms fresh) ?subs ! i"
      using sent i e len by simp
  qed (use sent len in simp)
  moreover have same: "fst (?subs ! i) = fst (subs ! i) \<and> fst (snd (?subs ! i)) = fst (snd (subs ! i))" if "i < length subs" for i
    using that by (cases "subs ! i") auto
  then have "{i. i < length ?subs \<and> fst (?subs ! i) = u \<and> fst (snd (?subs ! i))} = {i. i < length subs \<and> fst (subs ! i) = u \<and> fst (snd (subs ! i))}" for u
    by auto
  ultimately show ?thesis using assms True by (simp add: pub broker_refines_def)
qed

lemma subscribe_refines:
  assumes "broker_refines send fresh b (running, subs)"
  shows "broker_refines send fresh (fst (broker_subscribe fresh t b)) (delivery_step (BSubscribe t) (running, subs))"
proof (cases running)
  case False
  with assms show ?thesis by (simp add: broker_subscribe_def broker_refines_def)
next
  case True
  have len: "length (mbr_channels b) = length subs" using assms by (simp add: broker_refines_def)
  have ids: "distinct (hm_get_or [] (mbr_subscriptions b) u)"
      "set (hm_get_or [] (mbr_subscriptions b) u) = {i. i < length subs \<and> fst (subs ! i) = u \<and> fst (snd (subs ! i))}" for u
    using assms by (auto simp: broker_refines_def)
  let ?subs = "subs @ [(t, True, [])]"
  have "{i. i < length ?subs \<and> fst (?subs ! i) = u \<and> fst (snd (?subs ! i))} =
      {i. i < length subs \<and> fst (subs ! i) = u \<and> fst (snd (subs ! i))} \<union> (if u = t then {length subs} else {})" for u
    by (auto simp: nth_append less_Suc_eq split: if_splits)
  moreover have "length subs \<notin> set (hm_get_or [] (mbr_subscriptions b) t)" by (simp add: ids(2))
  ultimately show ?thesis using assms True ids by (auto simp: broker_subscribe_def broker_refines_def Let_def len)
qed

lemma stop_refines:
  assumes "broker_refines send fresh b (running, subs)"
  shows "broker_refines send fresh (fst (broker_stop b)) (delivery_step BStop (running, subs))"
proof -
  define ended where "ended = map (\<lambda>(t, live, ms). (t, False, ms)) subs"
  have dead: "\<forall>x\<in>set ended. \<not> fst (snd x)" by (auto simp: ended_def)
  have chans: "map (\<lambda>(t, live, ms). fold send ms fresh) ended = mbr_channels b"
    using assms by (auto simp: ended_def broker_refines_def)
  have "\<not> fst (snd (ended ! i))" if "i < length ended" for i using bspec[OF dead nth_mem[OF that]] .
  then have none: "{i. i < length ended \<and> fst (ended ! i) = u \<and> fst (snd (ended ! i))} = {}" for u by auto
  have step: "delivery_step BStop (running, subs) = (False, ended)" by (simp add: ended_def)
  show ?thesis
  proof (cases running)
    case True
    then have "fst (broker_stop b) = b\<lparr>mbr_running := False, mbr_subscriptions := []\<rparr>"
      using assms by (simp add: broker_stop_def broker_refines_def)
    then show ?thesis unfolding step broker_refines_def using dead by (simp add: chans none hm_get_or_def)
  next
    case False
    have "ended = subs" using assms False by (auto simp: ended_def broker_refines_def intro!: map_idI)
    with assms False show ?thesis unfolding step by (simp add: broker_stop_def broker_refines_def)
  qed
qed

lemma broker_step_refines: "broker_refines send fresh b d \<Longrightarrow> broker_refines send fresh (broker_step send fresh x b) (delivery_step x d)"
proof (cases d; cases x)
  fix running subs assume "broker_refines send fresh b d" "d = (running, subs)" "x = BStart"
  then show ?thesis by (auto simp: broker_start_def broker_refines_def)
qed (auto simp: publish_refines subscribe_refines stop_refines simp del: delivery_step.simps)

lemma broker_run_refines:
  "broker_refines send fresh b d \<Longrightarrow> broker_refines send fresh (fold (broker_step send fresh) xs b) (fold delivery_step xs d)"
  by (induction xs arbitrary: b d) (simp_all add: broker_step_refines)

text \<open>
  C40: every subscriber is sent exactly the messages of its topic. After any sequence of operations the channel of each subscription
  has received, in the order of publication, the messages published on its topic after it subscribed and before the broker was
  stopped, each once, and nothing else.
\<close>

theorem broker_delivers:
  "mbr_channels (fold (broker_step send fresh) xs message_broker_new) =
     map (\<lambda>(topic, live, ms). fold send ms fresh) (snd (fold delivery_step xs (False, [])))"
proof -
  have "broker_refines send fresh message_broker_new (False, [])"
    by (simp add: broker_refines_def message_broker_new_def hm_get_or_def)
  from broker_run_refines[OF this, of xs] show ?thesis unfolding broker_refines_def by blast
qed

section \<open>Connections are bounded and end closed\<close>

datatype 'a listener_op =
    Accept instant u128 'a
  | HandlerEnds "(unit, broker_error) result option" u128
  | Cleanup instant
  | Shutdown

fun listener_step :: "'a listener_op \<Rightarrow> 'a connection_manager \<Rightarrow> 'a connection_manager" where
  "listener_step (Accept now i addr) m = fst (process_new_connection now i addr m)"
| "listener_step (HandlerEnds served i) m =
     (case get_connection i m of None \<Rightarrow> m | Some c \<Rightarrow> fst (handle_connection served c m))"
| "listener_step (Cleanup now) m = fst (cleanup_idle_connections now m)"
| "listener_step Shutdown m = shutdown_all_connections m"

definition manager_ok :: "'a connection_manager \<Rightarrow> bool" where
  "manager_ok m =
     (hm_ok (cmg_connections m) \<and> length (cmg_connections m) \<le> cmg_max_connections m
      \<and> (\<forall>i c. hm_get (cmg_connections m) i = Some c \<longrightarrow> con_id c = i \<and> con_state c \<in> {CsActive, CsClosed}))"

lemma remove_connection_ok: "manager_ok m \<Longrightarrow> manager_ok (fst (remove_connection i m)) \<and> cmg_max_connections (fst (remove_connection i m)) = cmg_max_connections m"
proof -
  assume "manager_ok m"
  moreover have "length (hm_remove i (cmg_connections m)) \<le> length (cmg_connections m)"
    unfolding hm_remove_def AList.delete_eq by (rule length_filter_le)
  ultimately show ?thesis by (auto simp: remove_connection_def manager_ok_def split: option.split)
qed

lemma cleanup_ok: "manager_ok m \<Longrightarrow> manager_ok (fst (cleanup_idle_connections now m)) \<and> cmg_max_connections (fst (cleanup_idle_connections now m)) = cmg_max_connections m"
proof -
  let ?f = "\<lambda>i (m, closed). case remove_connection i m of (m', Some c) \<Rightarrow> (m', closed @ [connection_close c]) | (m', None) \<Rightarrow> (m', closed)"
  have "manager_ok m \<Longrightarrow> manager_ok (fst (fold ?f ids (m, xs))) \<and> cmg_max_connections (fst (fold ?f ids (m, xs))) = cmg_max_connections m" for ids and m :: "'a connection_manager" and xs
  proof (induction ids arbitrary: m xs)
    case (Cons i ids)
    obtain m' o' where r: "remove_connection i m = (m', o')" by fastforce
    with remove_connection_ok[OF Cons.prems, of i] have m': "manager_ok m'" "cmg_max_connections m' = cmg_max_connections m" by simp_all
    from Cons.IH[OF m'(1)] m'(2) show ?case by (cases o') (simp_all add: r)
  qed simp
  then show "manager_ok m \<Longrightarrow> ?thesis" by (simp add: cleanup_idle_connections_def)
qed

lemma accept_ok: "manager_ok m \<Longrightarrow> manager_ok (fst (process_new_connection now i addr m)) \<and> cmg_max_connections (fst (process_new_connection now i addr m)) = cmg_max_connections m"
proof -
  have "length (hm_insert i c xs) \<le> Suc (length xs)" for c and xs :: "(u128, 'a connection) hash_map"
    by (induction xs) (auto simp: hm_insert_def)
  then have "length (cmg_connections m) < cmg_max_connections m \<Longrightarrow> length (hm_insert i c (cmg_connections m)) \<le> cmg_max_connections m" for c
    using le_trans Suc_leI by blast
  then show "manager_ok m \<Longrightarrow> ?thesis"
    by (auto simp: process_new_connection_def can_accept_connection_def add_connection_def connection_with_stream_def manager_ok_def)
qed

lemma shutdown_ok: "manager_ok m \<Longrightarrow> manager_ok (shutdown_all_connections m) \<and> cmg_max_connections (shutdown_all_connections m) = cmg_max_connections m"
  by (auto simp: manager_ok_def shutdown_all_connections_def hm_ok_def comp_def case_prod_beta map_of_map connection_close_def set_connection_state_def)

lemma listener_step_ok: "manager_ok m \<Longrightarrow> manager_ok (listener_step x m) \<and> cmg_max_connections (listener_step x m) = cmg_max_connections m"
  by (cases x) (auto simp: accept_ok cleanup_ok shutdown_ok remove_connection_ok handle_connection_def Let_def split: option.split)

lemma listener_run_ok: "manager_ok m \<Longrightarrow> manager_ok (fold listener_step xs m) \<and> cmg_max_connections (fold listener_step xs m) = cmg_max_connections m"
proof (induction xs arbitrary: m)
  case (Cons x xs)
  from Cons.IH[OF conjunct1[OF listener_step_ok[OF Cons.prems, of x]]] listener_step_ok[OF Cons.prems, of x] show ?case by simp
qed simp

text \<open>
  the number of connections never exceeds the configured maximum, and a registered connection is active until it is closed. After any sequence of accepted
  connections, ended handlers, clean-ups and a shutdown, whatever the handlers return; and a connection whose handler has
  ended is closed and unregistered, also when the handler failed: the error state does not survive.
\<close>

theorem connections_bounded:
  assumes "m = fold listener_step xs (connection_manager_new n)" "get_connection i m = Some c"
  shows "length (cmg_connections m) \<le> n \<and> con_id c = i \<and> (connection_is_active c \<or> con_state c = CsClosed)
     \<and> get_connection i (fst (handle_connection served c m)) = None \<and> con_state (snd (handle_connection served c m)) = CsClosed"
proof -
  have "manager_ok (connection_manager_new n)" by (simp add: manager_ok_def connection_manager_new_def)
  from listener_run_ok[OF this, of xs] assms(1) have ok: "manager_ok m" "cmg_max_connections m = n"
    by (simp_all add: connection_manager_new_def)
  with assms(2) have "con_id c = i" "con_state c \<in> {CsActive, CsClosed}" by (auto simp: manager_ok_def get_connection_def)
  then show ?thesis using ok assms(2)
    by (auto simp: manager_ok_def connection_is_active_def handle_connection_def Let_def get_connection_def remove_connection_def
        connection_close_def set_connection_state_def split: option.splits)
qed

theorem connections_bounded_witness:
  "\<exists>m c. m = fold listener_step [Accept 0 1 ''a'', Accept 1 2 ''b''] (connection_manager_new 1) \<and> get_connection 1 m = Some c
     \<and> length (cmg_connections m) \<le> 1 \<and> connection_is_active c"
proof -
  define m where "m = fold listener_step [Accept 0 1 ''a'', Accept 1 2 ''b''] (connection_manager_new 1)"
  have c: "get_connection 1 m = Some (connection_with_stream 0 1 ''a'')"
    by (simp add: m_def process_new_connection_def connection_manager_new_def can_accept_connection_def add_connection_def
        connection_with_stream_def get_connection_def hm_insert_def)
  from connections_bounded[OF m_def c] c show ?thesis
    by (intro exI[of _ m] exI[of _ "connection_with_stream 0 1 ''a''"]) (simp add: m_def connection_with_stream_def connection_is_active_def)
qed

text \<open>A server built or updated successfully has a configuration that allows a connection.\<close>

lemma built_server_valid: "server_build a b = Ok s \<Longrightarrow> 0 < nwc_max_connections (srv_config s) \<and> 0 < nwc_connection_timeout (srv_config s)"
  by (auto simp: server_build_def tcp_server_new_def validate_network_config_def split: if_splits)

lemma running_config_fixed: "server_is_running s \<Longrightarrow> fst (server_update_config c s) = s"
  by (simp add: server_update_config_def)

end
