(* ===== verification/Messages.thy ===== *)
theory Messages
  imports Clocks
begin

text \<open>
  Messages, topics, batches and stream traits, \<^verbatim>\<open>src/kaelix-core/src/message.rs\<close>, \<^verbatim>\<open>types.rs\<close> and \<^verbatim>\<open>stream.rs\<close>. A topic name is a list
  of Unicode code points; \<open>alnum\<close> is the standard library's \<open>char::is_alphanumeric\<close>. Random ids and the clock are arguments.
\<close>

section \<open>Topics\<close>

type_synonym unicode = "nat list"

definition utf8_len :: "nat \<Rightarrow> nat" where
  "utf8_len c = (if c < 128 then 1 else if c < 2048 then 2 else if c < 65536 then 3 else 4)"

definition byte_len :: "unicode \<Rightarrow> usize" where
  "byte_len s = sum_list (map utf8_len s)"

datatype message_error = MessageFormat string

definition topic_char :: "(nat \<Rightarrow> bool) \<Rightarrow> nat \<Rightarrow> bool" where
  "topic_char alnum c = (alnum c \<or> c = 45 \<or> c = 95 \<or> c = 46)"

definition topic_new :: "(nat \<Rightarrow> bool) \<Rightarrow> unicode \<Rightarrow> (unicode, message_error) result" where
  "topic_new alnum name =
     (if name = [] then Err (MessageFormat ''Topic name cannot be empty'')
      else if 255 < byte_len name then Err (MessageFormat ''Topic name cannot exceed 255 characters'')
      else if \<not> list_all (topic_char alnum) name then Err (MessageFormat ''Topic name contains invalid characters'')
      else Ok name)"

section \<open>Messages\<close>

type_synonym message_offset = u64

record core_message =
  msg_id :: u128
  msg_topic :: unicode
  msg_payload :: bytes
  msg_timestamp :: system_time
  msg_partition :: "u32 option"
  msg_offset :: "message_offset option"
  msg_headers :: "(string, string) hash_map option"

definition message_offset_next :: "message_offset \<Rightarrow> message_offset" where
  "message_offset_next n = n + 1"

definition core_message_new :: "(nat \<Rightarrow> bool) \<Rightarrow> u128 \<Rightarrow> system_time \<Rightarrow> unicode \<Rightarrow> bytes \<Rightarrow> (core_message, message_error) result" where
  "core_message_new alnum i now topic payload =
     and_then (topic_new alnum topic) (\<lambda>t.
       Ok \<lparr>msg_id = i, msg_topic = t, msg_payload = payload, msg_timestamp = now, msg_partition = None, msg_offset = None,
           msg_headers = None\<rparr>)"

definition message_payload_size :: "core_message \<Rightarrow> usize" where
  "message_payload_size m = length (msg_payload m)"

text \<open>The sizes in memory are 16 for an id, 12 for a timestamp, 8 and 16 for the optional partition and offset.\<close>

definition estimated_size :: "core_message \<Rightarrow> usize" where
  "estimated_size m =
     16 + byte_len (msg_topic m) + length (msg_payload m) + 12 + 8 + 16
     + (case msg_headers m of None \<Rightarrow> 0 | Some h \<Rightarrow> sum_list (map (\<lambda>(k, v). length k + length v) h))"

definition has_headers :: "core_message \<Rightarrow> bool" where
  "has_headers m = (msg_headers m \<noteq> None)"

definition message_header :: "string \<Rightarrow> core_message \<Rightarrow> string option" where
  "message_header k m = Option.bind (msg_headers m) (\<lambda>h. hm_get h k)"

definition set_header :: "string \<Rightarrow> string \<Rightarrow> core_message \<Rightarrow> core_message" where
  "set_header k v m =
     m\<lparr>msg_headers := Some (hm_insert k v (case msg_headers m of None \<Rightarrow> [] | Some h \<Rightarrow> h))\<rparr>"

definition remove_header :: "string \<Rightarrow> core_message \<Rightarrow> core_message \<times> string option" where
  "remove_header k m =
     (case msg_headers m of None \<Rightarrow> (m, None) | Some h \<Rightarrow> (m\<lparr>msg_headers := Some (hm_remove k h)\<rparr>, hm_get h k))"

definition clone_with_new_id :: "u128 \<Rightarrow> core_message \<Rightarrow> core_message" where
  "clone_with_new_id i m = m\<lparr>msg_id := i\<rparr>"

definition clone_with_new_timestamp :: "system_time \<Rightarrow> core_message \<Rightarrow> core_message" where
  "clone_with_new_timestamp now m = m\<lparr>msg_timestamp := now\<rparr>"

record compact_message =
  cmp_id :: u128
  cmp_topic :: unicode
  cmp_payload :: bytes
  cmp_timestamp :: system_time
  cmp_partition :: "u32 option"
  cmp_offset :: "message_offset option"

definition to_compact :: "core_message \<Rightarrow> compact_message" where
  "to_compact m =
     \<lparr>cmp_id = msg_id m, cmp_topic = msg_topic m, cmp_payload = msg_payload m, cmp_timestamp = msg_timestamp m,
      cmp_partition = msg_partition m, cmp_offset = msg_offset m\<rparr>"

definition to_full :: "compact_message \<Rightarrow> core_message" where
  "to_full c =
     \<lparr>msg_id = cmp_id c, msg_topic = cmp_topic c, msg_payload = cmp_payload c, msg_timestamp = cmp_timestamp c,
      msg_partition = cmp_partition c, msg_offset = cmp_offset c, msg_headers = None\<rparr>"

section \<open>The builder\<close>

record message_builder =
  mbd_topic :: "unicode option"
  mbd_payload :: "bytes option"
  mbd_partition :: "u32 option"
  mbd_offset :: "message_offset option"
  mbd_headers :: "(string, string) hash_map option"

definition message_builder_default :: message_builder where
  "message_builder_default =
     \<lparr>mbd_topic = None, mbd_payload = None, mbd_partition = None, mbd_offset = None, mbd_headers = None\<rparr>"

definition builder_header :: "string \<Rightarrow> string \<Rightarrow> message_builder \<Rightarrow> message_builder" where
  "builder_header k v b =
     b\<lparr>mbd_headers := Some (hm_insert k v (case mbd_headers b of None \<Rightarrow> [] | Some h \<Rightarrow> h))\<rparr>"

definition builder_headers :: "(string, string) hash_map \<Rightarrow> message_builder \<Rightarrow> message_builder" where
  "builder_headers hs b =
     b\<lparr>mbd_headers := Some (case mbd_headers b of None \<Rightarrow> hs | Some h \<Rightarrow> fold (\<lambda>(k, v) m. hm_insert k v m) hs h)\<rparr>"

definition message_build :: "(nat \<Rightarrow> bool) \<Rightarrow> u128 \<Rightarrow> system_time \<Rightarrow> message_builder \<Rightarrow> (core_message, message_error) result" where
  "message_build alnum i now b =
     (case mbd_topic b of
        None \<Rightarrow> Err (MessageFormat ''Topic is required'')
      | Some topic \<Rightarrow>
          and_then (topic_new alnum topic) (\<lambda>t.
            Ok \<lparr>msg_id = i, msg_topic = t, msg_payload = (case mbd_payload b of None \<Rightarrow> [] | Some p \<Rightarrow> p), msg_timestamp = now,
                msg_partition = mbd_partition b, msg_offset = mbd_offset b, msg_headers = mbd_headers b\<rparr>))"

section \<open>Batches\<close>

record message_batch =
  mbt_messages :: "core_message list"
  mbt_batch_id :: u128
  mbt_created_at :: system_time

definition message_batch_new :: "u128 \<Rightarrow> system_time \<Rightarrow> core_message list \<Rightarrow> message_batch" where
  "message_batch_new i now ms = \<lparr>mbt_messages = ms, mbt_batch_id = i, mbt_created_at = now\<rparr>"

definition total_payload_size :: "message_batch \<Rightarrow> usize" where
  "total_payload_size b = sum_list (map message_payload_size (mbt_messages b))"

definition batch_estimated_size :: "message_batch \<Rightarrow> usize" where
  "batch_estimated_size b = 16 + 12 + sum_list (map estimated_size (mbt_messages b))"

function chunks :: "nat \<Rightarrow> 'a list \<Rightarrow> 'a list list" where
  "chunks n xs = (if n = 0 \<or> xs = [] then [] else take n xs # chunks n (drop n xs))"
  by pat_completeness auto
termination by (relation "measure (\<lambda>(n, xs). length xs)") auto

declare chunks.simps [simp del]

text \<open>Every piece gets an id and a time of its own.\<close>

definition batch_split :: "(nat \<Rightarrow> u128) \<Rightarrow> (nat \<Rightarrow> system_time) \<Rightarrow> usize \<Rightarrow> message_batch \<Rightarrow> message_batch list" where
  "batch_split ids now n b =
     (if n = 0 then [b] else map (\<lambda>(k, ms). message_batch_new (ids k) (now k) ms) (List.enumerate 0 (chunks n (mbt_messages b))))"

definition batch_merge :: "u128 \<Rightarrow> system_time \<Rightarrow> message_batch list \<Rightarrow> message_batch" where
  "batch_merge i now bs = message_batch_new i now (concat (map mbt_messages bs))"

section \<open>Stream traits\<close>

text \<open>The default methods, over the \<open>process\<close> and \<open>send\<close> of an implementation with state \<open>'s\<close>.\<close>

fun process_messages :: "('s \<Rightarrow> 'm \<Rightarrow> 's \<times> ('m list, 'e) result) \<Rightarrow> 'm list \<Rightarrow> 's \<Rightarrow> 's \<times> ('m list, 'e) result" where
  "process_messages proc [] s = (s, Ok [])"
| "process_messages proc (m # ms) s =
     (case proc s m of
        (s', Err e) \<Rightarrow> (s', Err e)
      | (s', Panic) \<Rightarrow> (s', Panic)
      | (s', Ok out) \<Rightarrow>
          (case process_messages proc ms s' of
             (s'', Ok rest) \<Rightarrow> (s'', Ok (out @ rest)) | (s'', r) \<Rightarrow> (s'', r)))"

fun send_messages :: "('s \<Rightarrow> 'm \<Rightarrow> 's \<times> (unit, 'e) result) \<Rightarrow> 'm list \<Rightarrow> 's \<Rightarrow> 's \<times> (unit, 'e) result" where
  "send_messages snd1 [] s = (s, Ok ())"
| "send_messages snd1 (m # ms) s =
     (case snd1 s m of
        (s', Ok u) \<Rightarrow> send_messages snd1 ms s' | (s', r) \<Rightarrow> (s', r))"

section \<open>Well-formed messages\<close>

definition valid_topic :: "(nat \<Rightarrow> bool) \<Rightarrow> unicode \<Rightarrow> bool" where
  "valid_topic alnum t = (t \<noteq> [] \<and> byte_len t \<le> 255 \<and> list_all (topic_char alnum) t)"

lemma topic_new_iff: "topic_new alnum name = Ok t \<longleftrightarrow> t = name \<and> valid_topic alnum name"
  by (auto simp: topic_new_def valid_topic_def)

datatype message_op =
    SetHeader string string
  | RemoveHeader string
  | NewId u128
  | NewTimestamp system_time
  | Compact

fun message_step :: "message_op \<Rightarrow> core_message \<Rightarrow> core_message" where
  "message_step (SetHeader k v) m = set_header k v m"
| "message_step (RemoveHeader k) m = fst (remove_header k m)"
| "message_step (NewId i) m = clone_with_new_id i m"
| "message_step (NewTimestamp now) m = clone_with_new_timestamp now m"
| "message_step Compact m = to_full (to_compact m)"

definition well_formed :: "(nat \<Rightarrow> bool) \<Rightarrow> core_message \<Rightarrow> bool" where
  "well_formed alnum m = (valid_topic alnum (msg_topic m) \<and> (\<forall>h. msg_headers m = Some h \<longrightarrow> hm_ok h))"

lemma message_step_ok: "well_formed alnum m \<Longrightarrow> well_formed alnum (message_step x m) \<and> msg_topic (message_step x m) = msg_topic m
    \<and> msg_payload (message_step x m) = msg_payload m"
proof -
  assume "well_formed alnum m"
  moreover have "hm_ok ([] :: (string, string) hash_map)" by (simp add: hm_ok_def)
  ultimately show ?thesis
    by (cases x) (auto simp: well_formed_def set_header_def remove_header_def clone_with_new_id_def clone_with_new_timestamp_def
      to_full_def to_compact_def split: option.splits)
qed

lemma message_run_ok: "well_formed alnum m \<Longrightarrow> well_formed alnum (fold message_step xs m) \<and> msg_topic (fold message_step xs m) = msg_topic m
    \<and> msg_payload (fold message_step xs m) = msg_payload m"
proof (induction xs arbitrary: m)
  case (Cons x xs)
  from message_step_ok[OF Cons.prems, of x] Cons.IH[of "message_step x m"] show ?case by simp
qed simp

text \<open>
  Messages are well formed. A builder yields a message exactly if a topic was set and it is valid: not empty, at most 255 bytes, and of letters, digits,
  hyphens, underscores and dots; and whatever is then done to the message (headers set or removed, new id or timestamp, compaction) the topic stays valid,
  the header keys stay distinct, and topic and payload stay what they were built with.
\<close>

theorem messages_well_formed:
  assumes "case mbd_headers b of None \<Rightarrow> True | Some h \<Rightarrow> hm_ok h"
  shows "case message_build alnum i now b of
      Ok m \<Rightarrow> well_formed alnum (fold message_step xs m) \<and> mbd_topic b = Some (msg_topic (fold message_step xs m))
        \<and> msg_payload (fold message_step xs m) = (case mbd_payload b of None \<Rightarrow> [] | Some p \<Rightarrow> p)
    | Err e \<Rightarrow> (case mbd_topic b of None \<Rightarrow> True | Some t \<Rightarrow> \<not> valid_topic alnum t)
    | Panic \<Rightarrow> False"
proof (cases "message_build alnum i now b")
  case (Ok m)
  then obtain t where t: "mbd_topic b = Some t" "topic_new alnum t = Ok (msg_topic m)" "msg_payload m = (case mbd_payload b of None \<Rightarrow> [] | Some p \<Rightarrow> p)"
      "msg_headers m = mbd_headers b"
    by (auto simp: message_build_def and_then_Ok_iff split: option.splits)
  then have "msg_topic m = t" "valid_topic alnum t" by (simp_all add: topic_new_iff)
  with t assms have "well_formed alnum m" by (auto simp: well_formed_def)
  from message_run_ok[OF this, of xs] t \<open>msg_topic m = t\<close> Ok show ?thesis by simp
next
  case (Err e)
  then show ?thesis
    by (auto simp: message_build_def topic_new_def valid_topic_def split: option.splits if_splits)
next
  case Panic
  then show ?thesis by (auto simp: message_build_def topic_new_def split: option.splits if_splits)
qed

theorem messages_well_formed_witness:
  "\<exists>m. message_build (\<lambda>c. 97 \<le> c \<and> c \<le> 122) 7 0 (message_builder_default\<lparr>mbd_topic := Some [97, 45, 98]\<rparr>) = Ok m
     \<and> well_formed (\<lambda>c. 97 \<le> c \<and> c \<le> 122) (set_header ''k'' ''v'' m)"
proof -
  let ?a = "\<lambda>c. 97 \<le> c \<and> c \<le> (122 :: nat)"
  let ?b = "message_builder_default\<lparr>mbd_topic := Some [97, 45, 98]\<rparr>"
  obtain m where m: "message_build ?a 7 0 ?b = Ok m"
    by (simp add: message_build_def message_builder_default_def topic_new_def byte_len_def utf8_len_def topic_char_def)
  with messages_well_formed[where b = ?b and alnum = ?a and i = 7 and now = 0 and xs = "[SetHeader ''k'' ''v'']"] show ?thesis by (simp add: message_builder_default_def)
qed

text \<open>The length is counted in bytes, not characters: 128 letters of two bytes are refused.\<close>

lemma long_letters_refused:
  assumes "128 \<le> c" "c < 2048"
  shows "topic_new alnum (replicate 128 c) = Err (MessageFormat ''Topic name cannot exceed 255 characters'')"
  using assms by (simp add: topic_new_def byte_len_def utf8_len_def sum_list_replicate)

section \<open>Splitting and merging\<close>

lemma concat_chunks: "0 < n \<Longrightarrow> concat (chunks n xs) = xs"
  by (induction n xs rule: chunks.induct) (subst chunks.simps, auto)

lemma chunks_sizes: "ys \<in> set (chunks n xs) \<Longrightarrow> ys \<noteq> [] \<and> length ys \<le> n"
proof (induction n xs rule: chunks.induct)
  case (1 n xs)
  then show ?case by (subst (asm) chunks.simps) (auto split: if_splits)
qed

lemma length_chunks: "0 < n \<Longrightarrow> length (chunks n xs) = (length xs + n - 1) div n"
proof (induction n xs rule: chunks.induct)
  case (1 n xs)
  show ?case
  proof (cases "xs = []")
    case True
    with 1(2) show ?thesis by (subst chunks.simps) simp
  next
    case False
    with 1 have IH: "length (chunks n (drop n xs)) = (length xs - n + n - 1) div n" by simp
    have "(length xs + n - 1) div n = Suc ((length xs - n + n - 1) div n)"
    proof (cases "n \<le> length xs")
      case True
      then have "length xs + n - 1 = (length xs - n + n - 1) + n" using 1(2) by simp
      then show ?thesis using 1(2) by (simp only: div_add_self2)
    next
      case le: False
      have "(length xs + n - 1) div n = 1" using le length_greater_0_conv[of xs] False 1(2) by (intro div_nat_eqI) (auto simp del: length_greater_0_conv)
      moreover have "(length xs - n + n - 1) div n = 0" using le 1(2) by simp
      ultimately show ?thesis by simp
    qed
    with IH False 1(2) show ?thesis by (subst chunks.simps) simp
  qed
qed

lemma split_messages: "0 < n \<Longrightarrow> map mbt_messages (batch_split ids now n b) = chunks n (mbt_messages b)"
  by (simp add: batch_split_def message_batch_new_def comp_def case_prod_beta)

text \<open>
  C31: Splitting a batch loses nothing. For a size above zero the pieces are non-empty and have at most that many messages, their number is the number of messages
  divided by the size, rounded up, and merging them gives the messages back in order; with size zero the batch stays whole.
\<close>

theorem split_merge_roundtrip:
  "mbt_messages (batch_merge i t (batch_split ids now n b)) = mbt_messages b
   \<and> length (batch_split ids now n b) = (if n = 0 then 1 else (length (mbt_messages b) + n - 1) div n)
   \<and> list_all (\<lambda>p. n = 0 \<or> 0 < length (mbt_messages p) \<and> length (mbt_messages p) \<le> n) (batch_split ids now n b)"
proof (cases "n = 0")
  case True
  then show ?thesis by (simp add: batch_split_def batch_merge_def message_batch_new_def)
next
  case False
  then have ms: "map mbt_messages (batch_split ids now n b) = chunks n (mbt_messages b)" by (simp add: split_messages)
  then have "length (batch_split ids now n b) = length (chunks n (mbt_messages b))" by (metis length_map)
  moreover have "0 < length (mbt_messages p) \<and> length (mbt_messages p) \<le> n" if "p \<in> set (batch_split ids now n b)" for p
  proof -
    from that have "mbt_messages p \<in> set (map mbt_messages (batch_split ids now n b))" by simp
    then show ?thesis unfolding ms using chunks_sizes by blast
  qed
  ultimately show ?thesis
    using False by (simp add: batch_merge_def message_batch_new_def ms concat_chunks length_chunks list_all_iff)
qed

lemma compact_roundtrip: "to_full (to_compact m) = m\<lparr>msg_headers := None\<rparr>"
  by (simp add: to_full_def to_compact_def)

lemma header_after_set: "message_header k (set_header k' v m) = (if k = k' then Some v else message_header k m)"
  by (auto simp: message_header_def set_header_def split: option.split)

end
