(* ===== verification/Config_Network.thy ===== *)
theory Config_Network
  imports Prelude Complex_Main
begin

text \<open>
  The network part of the configuration schema, \<^verbatim>\<open>src/kaelix-core/src/config/schema.rs\<close>, and the
  result of the validation that \<^verbatim>\<open>derive(Validate)\<close> gives a struct. Per struct: the record, its default and
  the check of its attributes. A validation lists the fields that fail, each with the code and the
  parameters of its error; the errors of a nested struct stay below the name of the field that holds
  it. Lengths of strings count characters, an absent option passes. A float is the rational number it
  denotes. Whether a string is a URL is an argument.
\<close>

section \<open>Results of a validation\<close>

record verror =
  ve_code :: string
  ve_params :: "(string \<times> string) list"

datatype vkind = VField "verror list" | VStruct "(string \<times> vkind) list"

type_synonym verrors = "(string \<times> vkind) list"

definition field :: "string \<Rightarrow> bool \<Rightarrow> verror \<Rightarrow> verrors" where
  "field name ok e = (if ok then [] else [(name, VField [e])])"

definition nested :: "string \<Rightarrow> verrors \<Rightarrow> verrors" where
  "nested name es = (if es = [] then [] else [(name, VStruct es)])"

definition optional :: "('a \<Rightarrow> verrors) \<Rightarrow> 'a option \<Rightarrow> verrors" where
  "optional f x = (case x of None \<Rightarrow> [] | Some a \<Rightarrow> f a)"

definition opt_all :: "('a \<Rightarrow> bool) \<Rightarrow> 'a option \<Rightarrow> bool" where
  "opt_all P x = (case x of None \<Rightarrow> True | Some a \<Rightarrow> P a)"

definition in_range :: "'a::linorder \<Rightarrow> 'a \<Rightarrow> 'a \<Rightarrow> bool" where
  "in_range lo hi x \<longleftrightarrow> lo \<le> x \<and> x \<le> hi"

definition len_in :: "nat \<Rightarrow> nat \<Rightarrow> string \<Rightarrow> bool" where
  "len_in lo hi s \<longleftrightarrow> in_range lo hi (length s)"

definition range_error :: "string \<Rightarrow> string \<Rightarrow> verror" where
  "range_error lo hi = \<lparr>ve_code = ''range'', ve_params = [(''min'', lo), (''max'', hi)]\<rparr>"

definition length_error :: "string \<Rightarrow> string \<Rightarrow> verror" where
  "length_error lo hi = \<lparr>ve_code = ''length'', ve_params = [(''min'', lo), (''max'', hi)]\<rparr>"

definition length_max_error :: "string \<Rightarrow> verror" where
  "length_max_error hi = \<lparr>ve_code = ''length'', ve_params = [(''max'', hi)]\<rparr>"

definition url_error :: verror where
  "url_error = \<lparr>ve_code = ''url'', ve_params = []\<rparr>"

named_theorems schema_defs \<open>the defaults and the validations of the schema\<close>

lemma field_nil [simp]: "field n ok e = [] \<longleftrightarrow> ok"
  by (simp add: field_def)

lemma field_ok [simp]: "field n True e = []"
  by (simp add: field_def)

lemma nested_nil [simp]: "nested n es = [] \<longleftrightarrow> es = []"
  by (simp add: nested_def)

lemma nested_ok [simp]: "nested n [] = []"
  by (simp add: nested_def)

lemma optional_None [simp]: "optional f None = []"
  by (simp add: optional_def)

lemma opt_all_None [simp]: "opt_all P None"
  by (simp add: opt_all_def)

section \<open>The network part\<close>

datatype schema_compression_algorithm =
  CompressionAlgorithm_None | CompressionAlgorithm_Lz4 | CompressionAlgorithm_Snappy |
  CompressionAlgorithm_Zstd | CompressionAlgorithm_Gzip

definition schema_compression_algorithm_default :: schema_compression_algorithm where
  "schema_compression_algorithm_default = CompressionAlgorithm_Lz4"

record compression_settings =
  compression_enabled :: bool
  compression_algorithm :: schema_compression_algorithm
  compression_level :: u8
  compression_threshold_bytes :: usize

definition compression_settings_default :: "compression_settings" where
  "compression_settings_default =
     \<lparr>compression_enabled = False, compression_algorithm = CompressionAlgorithm_Lz4,
     compression_level = 3, compression_threshold_bytes = 1024\<rparr>"

definition validate_compression_settings :: "compression_settings \<Rightarrow> verrors" where
  "validate_compression_settings c =
     field ''level'' (in_range 0 9 (compression_level c)) (range_error ''0'' ''9'') @
     field ''threshold_bytes'' (in_range 1 1048576 (compression_threshold_bytes c)) (range_error ''1'' ''1048576'')"

record batching_settings =
  batching_enabled :: bool
  batching_max_batch_size :: u32
  batching_max_batch_bytes :: usize
  batching_flush_interval_ms :: u64

definition batching_settings_default :: "batching_settings" where
  "batching_settings_default =
     \<lparr>batching_enabled = True, batching_max_batch_size = 100,
     batching_max_batch_bytes = 1048576, batching_flush_interval_ms = 10\<rparr>"

definition validate_batching_settings :: "batching_settings \<Rightarrow> verrors" where
  "validate_batching_settings c =
     field ''max_batch_size'' (in_range 1 10000 (batching_max_batch_size c)) (range_error ''1'' ''10000'') @
     field ''max_batch_bytes'' (in_range 1024 16777216 (batching_max_batch_bytes c)) (range_error ''1024'' ''16777216'') @
     field ''flush_interval_ms'' (in_range 1 10000 (batching_flush_interval_ms c)) (range_error ''1'' ''10000'')"

record flow_control_settings =
  flow_control_enabled :: bool
  flow_control_window_size :: u32
  flow_control_low_watermark_percent :: u8
  flow_control_high_watermark_percent :: u8

definition flow_control_settings_default :: "flow_control_settings" where
  "flow_control_settings_default =
     \<lparr>flow_control_enabled = True, flow_control_window_size = 10000,
     flow_control_low_watermark_percent = 25, flow_control_high_watermark_percent = 75\<rparr>"

definition validate_flow_control_settings :: "flow_control_settings \<Rightarrow> verrors" where
  "validate_flow_control_settings c =
     field ''window_size'' (in_range 1 1048576 (flow_control_window_size c)) (range_error ''1'' ''1048576'') @
     field ''low_watermark_percent'' (in_range 10 90 (flow_control_low_watermark_percent c)) (range_error ''10'' ''90'') @
     field ''high_watermark_percent'' (in_range 10 100 (flow_control_high_watermark_percent c)) (range_error ''10'' ''100'')"

record protocol_config =
  protocol_version :: string
  protocol_compression :: compression_settings
  protocol_batching :: batching_settings
  protocol_flow_control :: flow_control_settings

definition protocol_config_default :: "protocol_config" where
  "protocol_config_default =
     \<lparr>protocol_version = ''1.0'', protocol_compression = compression_settings_default,
     protocol_batching = batching_settings_default,
     protocol_flow_control = flow_control_settings_default\<rparr>"

definition validate_protocol_config :: "protocol_config \<Rightarrow> verrors" where
  "validate_protocol_config c =
     field ''version'' (len_in 1 10 (protocol_version c)) (length_error ''1'' ''10'') @
     nested ''compression'' (validate_compression_settings (protocol_compression c)) @
     nested ''batching'' (validate_batching_settings (protocol_batching c)) @
     nested ''flow_control'' (validate_flow_control_settings (protocol_flow_control c))"

record net_config =
  net_host :: string
  net_port :: u16
  net_max_connections :: usize
  net_max_frame_size :: usize
  net_read_timeout_ms :: u64
  net_write_timeout_ms :: u64
  net_keep_alive_seconds :: u64
  net_protocol :: protocol_config

definition net_config_default :: "net_config" where
  "net_config_default =
     \<lparr>net_host = ''127.0.0.1'', net_port = 8080, net_max_connections = 10000,
     net_max_frame_size = 16777216, net_read_timeout_ms = 30000, net_write_timeout_ms = 30000,
     net_keep_alive_seconds = 300, net_protocol = protocol_config_default\<rparr>"

definition validate_net_config :: "net_config \<Rightarrow> verrors" where
  "validate_net_config c =
     field ''host'' (len_in 1 255 (net_host c)) (length_error ''1'' ''255'') @
     field ''port'' (in_range 1 65535 (net_port c)) (range_error ''1'' ''65535'') @
     field ''max_connections'' (in_range 1 1000000 (net_max_connections c)) (range_error ''1'' ''1000000'') @
     field ''max_frame_size'' (in_range 1024 67108864 (net_max_frame_size c)) (range_error ''1024'' ''67108864'') @
     field ''read_timeout_ms'' (in_range 100 300000 (net_read_timeout_ms c)) (range_error ''100'' ''300000'') @
     field ''write_timeout_ms'' (in_range 100 300000 (net_write_timeout_ms c)) (range_error ''100'' ''300000'') @
     field ''keep_alive_seconds'' (in_range 10 3600 (net_keep_alive_seconds c)) (range_error ''10'' ''3600'') @
     nested ''protocol'' (validate_protocol_config (net_protocol c))"

section \<open>Defaults\<close>

lemmas config_network_defs [schema_defs] =
  compression_settings_default_def validate_compression_settings_def
  batching_settings_default_def validate_batching_settings_def flow_control_settings_default_def
  validate_flow_control_settings_def protocol_config_default_def validate_protocol_config_def
  net_config_default_def validate_net_config_def

lemma net_default_ok: "validate_net_config net_config_default = []"
  by (simp add: schema_defs in_range_def len_in_def)

end
