(* ===== verification/Config_Security.thy ===== *)
theory Config_Security
  imports Config_Network
begin

text \<open>
  The security part of the configuration schema, \<^verbatim>\<open>src/kaelix-core/src/config/schema.rs\<close>: TLS,
  authentication, authorization, rate limits, address filters and encryption.
\<close>

section \<open>Schema\<close>

datatype tls_version =
  TlsVersion_V1_2 | TlsVersion_V1_3

definition tls_version_default :: tls_version where
  "tls_version_default = TlsVersion_V1_3"

record tls_config =
  tls_enabled :: bool
  tls_cert_path :: string
  tls_key_path :: string
  tls_ca_path :: "string option"
  tls_version :: tls_version
  tls_cipher_suites :: "string list"
  tls_require_client_cert :: bool
  tls_session_timeout_seconds :: u64

definition tls_config_default :: "tls_config" where
  "tls_config_default =
     \<lparr>tls_enabled = False, tls_cert_path = '''', tls_key_path = '''', tls_ca_path = None,
     tls_version = TlsVersion_V1_3, tls_cipher_suites = [], tls_require_client_cert = False,
     tls_session_timeout_seconds = 3600\<rparr>"

definition validate_tls_config :: "tls_config \<Rightarrow> verrors" where
  "validate_tls_config c =
     field ''cert_path'' (len_in 1 512 (tls_cert_path c)) (length_error ''1'' ''512'') @
     field ''key_path'' (len_in 1 512 (tls_key_path c)) (length_error ''1'' ''512'') @
     field ''ca_path'' (opt_all (len_in 0 512) (tls_ca_path c)) (length_max_error ''512'') @
     field ''session_timeout_seconds'' (in_range 60 86400 (tls_session_timeout_seconds c)) (range_error ''60'' ''86400'')"

record token_auth_config =
  token_auth_secret_key :: string
  token_auth_expiration_seconds :: u64
  token_auth_refresh_threshold_seconds :: u64

definition token_auth_config_default :: "token_auth_config" where
  "token_auth_config_default =
     \<lparr>token_auth_secret_key = '''', token_auth_expiration_seconds = 3600,
     token_auth_refresh_threshold_seconds = 300\<rparr>"

definition validate_token_auth_config :: "token_auth_config \<Rightarrow> verrors" where
  "validate_token_auth_config c =
     field ''secret_key'' (len_in 32 512 (token_auth_secret_key c)) (length_error ''32'' ''512'') @
     field ''expiration_seconds'' (in_range 300 86400 (token_auth_expiration_seconds c)) (range_error ''300'' ''86400'') @
     field ''refresh_threshold_seconds'' (in_range 60 43200 (token_auth_refresh_threshold_seconds c)) (range_error ''60'' ''43200'')"

datatype jwt_algorithm =
  JwtAlgorithm_HS256 | JwtAlgorithm_HS384 | JwtAlgorithm_HS512 | JwtAlgorithm_RS256 |
  JwtAlgorithm_RS384 | JwtAlgorithm_RS512 | JwtAlgorithm_ES256 | JwtAlgorithm_ES384 |
  JwtAlgorithm_ES512

definition jwt_algorithm_default :: jwt_algorithm where
  "jwt_algorithm_default = JwtAlgorithm_HS256"

record jwt_auth_config =
  jwt_auth_secret_or_key :: string
  jwt_auth_algorithm :: jwt_algorithm
  jwt_auth_issuer :: string
  jwt_auth_audience :: string
  jwt_auth_expiration_seconds :: u64
  jwt_auth_clock_skew_seconds :: u64

definition jwt_auth_config_default :: "jwt_auth_config" where
  "jwt_auth_config_default =
     \<lparr>jwt_auth_secret_or_key = '''', jwt_auth_algorithm = JwtAlgorithm_HS256,
     jwt_auth_issuer = ''kaelix'', jwt_auth_audience = ''kaelix-users'',
     jwt_auth_expiration_seconds = 3600, jwt_auth_clock_skew_seconds = 60\<rparr>"

definition validate_jwt_auth_config :: "jwt_auth_config \<Rightarrow> verrors" where
  "validate_jwt_auth_config c =
     field ''secret_or_key'' (len_in 32 2048 (jwt_auth_secret_or_key c)) (length_error ''32'' ''2048'') @
     field ''issuer'' (len_in 1 255 (jwt_auth_issuer c)) (length_error ''1'' ''255'') @
     field ''audience'' (len_in 1 255 (jwt_auth_audience c)) (length_error ''1'' ''255'') @
     field ''expiration_seconds'' (in_range 300 86400 (jwt_auth_expiration_seconds c)) (range_error ''300'' ''86400'') @
     field ''clock_skew_seconds'' (in_range 0 300 (jwt_auth_clock_skew_seconds c)) (range_error ''0'' ''300'')"

record o_auth_config =
  o_auth_provider_url :: string
  o_auth_client_id :: string
  o_auth_client_secret :: string
  o_auth_redirect_uri :: string
  o_auth_scopes :: "string list"

definition o_auth_config_default :: "o_auth_config" where
  "o_auth_config_default =
     \<lparr>o_auth_provider_url = '''', o_auth_client_id = '''', o_auth_client_secret = '''',
     o_auth_redirect_uri = '''', o_auth_scopes = []\<rparr>"

definition validate_o_auth_config :: "(string \<Rightarrow> bool) \<Rightarrow> o_auth_config \<Rightarrow> verrors" where
  "validate_o_auth_config is_url c =
     field ''provider_url'' (is_url (o_auth_provider_url c)) url_error @
     field ''client_id'' (len_in 1 255 (o_auth_client_id c)) (length_error ''1'' ''255'') @
     field ''client_secret'' (len_in 1 255 (o_auth_client_secret c)) (length_error ''1'' ''255'') @
     field ''redirect_uri'' (is_url (o_auth_redirect_uri c)) url_error"

record ldap_config =
  ldap_server_url :: string
  ldap_bind_dn :: string
  ldap_bind_password :: string
  ldap_user_base_dn :: string
  ldap_user_filter :: string
  ldap_group_base_dn :: "string option"
  ldap_timeout_seconds :: u64

definition ldap_config_default :: "ldap_config" where
  "ldap_config_default =
     \<lparr>ldap_server_url = '''', ldap_bind_dn = '''', ldap_bind_password = '''',
     ldap_user_base_dn = '''', ldap_user_filter = ''(&(objectClass=person)(uid={}))'',
     ldap_group_base_dn = None, ldap_timeout_seconds = 10\<rparr>"

definition validate_ldap_config :: "(string \<Rightarrow> bool) \<Rightarrow> ldap_config \<Rightarrow> verrors" where
  "validate_ldap_config is_url c =
     field ''server_url'' (is_url (ldap_server_url c)) url_error @
     field ''bind_dn'' (len_in 1 512 (ldap_bind_dn c)) (length_error ''1'' ''512'') @
     field ''bind_password'' (len_in 1 255 (ldap_bind_password c)) (length_error ''1'' ''255'') @
     field ''user_base_dn'' (len_in 1 512 (ldap_user_base_dn c)) (length_error ''1'' ''512'') @
     field ''user_filter'' (len_in 1 255 (ldap_user_filter c)) (length_error ''1'' ''255'') @
     field ''group_base_dn'' (opt_all (len_in 0 512) (ldap_group_base_dn c)) (length_max_error ''512'') @
     field ''timeout_seconds'' (in_range 1 60 (ldap_timeout_seconds c)) (range_error ''1'' ''60'')"

record authentication_config =
  authentication_enabled :: bool
  authentication_method :: string
  authentication_token :: "token_auth_config option"
  authentication_jwt :: "jwt_auth_config option"
  authentication_oauth :: "o_auth_config option"
  authentication_ldap :: "ldap_config option"
  authentication_session_timeout_seconds :: u64
  authentication_max_sessions_per_user :: u32

definition authentication_config_default :: "authentication_config" where
  "authentication_config_default =
     \<lparr>authentication_enabled = False, authentication_method = ''none'',
     authentication_token = None, authentication_jwt = None, authentication_oauth = None,
     authentication_ldap = None, authentication_session_timeout_seconds = 3600,
     authentication_max_sessions_per_user = 5\<rparr>"

definition validate_authentication_config :: "(string \<Rightarrow> bool) \<Rightarrow> authentication_config \<Rightarrow> verrors" where
  "validate_authentication_config is_url c =
     field ''method'' (len_in 1 50 (authentication_method c)) (length_error ''1'' ''50'') @
     nested ''token'' (optional validate_token_auth_config (authentication_token c)) @
     nested ''jwt'' (optional validate_jwt_auth_config (authentication_jwt c)) @
     nested ''oauth'' (optional (validate_o_auth_config is_url) (authentication_oauth c)) @
     nested ''ldap'' (optional (validate_ldap_config is_url) (authentication_ldap c)) @
     field ''session_timeout_seconds'' (in_range 300 86400 (authentication_session_timeout_seconds c)) (range_error ''300'' ''86400'') @
     field ''max_sessions_per_user'' (in_range 1 100 (authentication_max_sessions_per_user c)) (range_error ''1'' ''100'')"

datatype authorization_model =
  AuthorizationModel_None | AuthorizationModel_RBAC | AuthorizationModel_ABAC |
  AuthorizationModel_ACL

definition authorization_model_default :: authorization_model where
  "authorization_model_default = AuthorizationModel_None"

record permission =
  permission_resource :: string
  permission_actions :: "string list"
  permission_conditions :: "(string, string) hash_map option"

definition validate_permission :: "permission \<Rightarrow> verrors" where
  "validate_permission c =
     field ''resource'' (len_in 1 100 (permission_resource c)) (length_error ''1'' ''100'')"

record role =
  role_name :: string
  role_description :: "string option"
  role_permissions :: "permission list"
  role_inherits_from :: "string list"

definition validate_role :: "role \<Rightarrow> verrors" where
  "validate_role c =
     field ''name'' (len_in 1 50 (role_name c)) (length_error ''1'' ''50'') @
     field ''description'' (opt_all (len_in 0 255) (role_description c)) (length_max_error ''255'')"

record rbac_config =
  rbac_default_role :: string
  rbac_roles :: "(string, role) hash_map"
  rbac_user_roles :: "(string, string list) hash_map"

definition rbac_config_default :: "rbac_config" where
  "rbac_config_default =
     \<lparr>rbac_default_role = ''user'', rbac_roles = [], rbac_user_roles = []\<rparr>"

definition validate_rbac_config :: "rbac_config \<Rightarrow> verrors" where
  "validate_rbac_config c =
     field ''default_role'' (len_in 1 50 (rbac_default_role c)) (length_error ''1'' ''50'')"

datatype policy_effect =
  PolicyEffect_Allow | PolicyEffect_Deny

definition policy_effect_default :: policy_effect where
  "policy_effect_default = PolicyEffect_Deny"

record abac_policy =
  abac_name :: string
  abac_description :: "string option"
  abac_rule :: string
  abac_effect :: policy_effect
  abac_priority :: u32

definition validate_abac_policy :: "abac_policy \<Rightarrow> verrors" where
  "validate_abac_policy c =
     field ''name'' (len_in 1 100 (abac_name c)) (length_error ''1'' ''100'') @
     field ''description'' (opt_all (len_in 0 255) (abac_description c)) (length_max_error ''255'') @
     field ''rule'' (len_in 1 1000 (abac_rule c)) (length_error ''1'' ''1000'')"

datatype attribute_source_type =
  AttributeSourceType_Static | AttributeSourceType_Database | AttributeSourceType_Service |
  AttributeSourceType_Ldap

definition attribute_source_type_default :: attribute_source_type where
  "attribute_source_type_default = AttributeSourceType_Static"

record attribute_source =
  attribute_source_source_type :: attribute_source_type
  attribute_source_config :: "(string, string) hash_map"
  attribute_source_cache_ttl_seconds :: u64

definition validate_attribute_source :: "attribute_source \<Rightarrow> verrors" where
  "validate_attribute_source c =
     field ''cache_ttl_seconds'' (in_range 0 86400 (attribute_source_cache_ttl_seconds c)) (range_error ''0'' ''86400'')"

record abac_config =
  abac_policies :: "abac_policy list"
  abac_attribute_sources :: "(string, attribute_source) hash_map"

definition abac_config_default :: "abac_config" where
  "abac_config_default =
     \<lparr>abac_policies = [], abac_attribute_sources = []\<rparr>"

definition validate_abac_config :: "abac_config \<Rightarrow> verrors" where
  "validate_abac_config c = []"

datatype principal_type =
  PrincipalType_User | PrincipalType_Group | PrincipalType_Role | PrincipalType_Service

definition principal_type_default :: principal_type where
  "principal_type_default = PrincipalType_User"

record access_control_entry =
  access_control_entry_principal :: string
  access_control_entry_principal_type :: principal_type
  access_control_entry_resource :: string
  access_control_entry_actions :: "string list"
  access_control_entry_effect :: policy_effect
  access_control_entry_conditions :: "(string, string) hash_map option"

definition validate_access_control_entry :: "access_control_entry \<Rightarrow> verrors" where
  "validate_access_control_entry c =
     field ''principal'' (len_in 1 100 (access_control_entry_principal c)) (length_error ''1'' ''100'') @
     field ''resource'' (len_in 1 255 (access_control_entry_resource c)) (length_error ''1'' ''255'')"

record authorization_config =
  authorization_enabled :: bool
  authorization_model :: authorization_model
  authorization_rbac :: "rbac_config option"
  authorization_abac :: "abac_config option"
  authorization_acls :: "access_control_entry list"

definition authorization_config_default :: "authorization_config" where
  "authorization_config_default =
     \<lparr>authorization_enabled = False, authorization_model = AuthorizationModel_None,
     authorization_rbac = None, authorization_abac = None, authorization_acls = []\<rparr>"

definition validate_authorization_config :: "authorization_config \<Rightarrow> verrors" where
  "validate_authorization_config c =
     nested ''rbac'' (optional validate_rbac_config (authorization_rbac c)) @
     nested ''abac'' (optional validate_abac_config (authorization_abac c))"

datatype rate_limit_strategy =
  RateLimitStrategy_TokenBucket | RateLimitStrategy_FixedWindow |
  RateLimitStrategy_SlidingWindow | RateLimitStrategy_LeakyBucket

definition rate_limit_strategy_default :: rate_limit_strategy where
  "rate_limit_strategy_default = RateLimitStrategy_TokenBucket"

record user_rate_limit =
  user_rate_limit_user_id :: string
  user_rate_limit_requests_per_second :: u32
  user_rate_limit_burst_size :: u32

definition validate_user_rate_limit :: "user_rate_limit \<Rightarrow> verrors" where
  "validate_user_rate_limit c =
     field ''user_id'' (len_in 1 255 (user_rate_limit_user_id c)) (length_error ''1'' ''255'') @
     field ''requests_per_second'' (in_range 1 1000000 (user_rate_limit_requests_per_second c)) (range_error ''1'' ''1000000'') @
     field ''burst_size'' (in_range 1 10000 (user_rate_limit_burst_size c)) (range_error ''1'' ''10000'')"

record rate_limiting_config =
  rate_limiting_enabled :: bool
  rate_limiting_requests_per_second :: u32
  rate_limiting_burst_size :: u32
  rate_limiting_window_seconds :: u64
  rate_limiting_strategy :: rate_limit_strategy
  rate_limiting_per_user_limits :: "(string, user_rate_limit) hash_map"

definition rate_limiting_config_default :: "rate_limiting_config" where
  "rate_limiting_config_default =
     \<lparr>rate_limiting_enabled = False, rate_limiting_requests_per_second = 1000,
     rate_limiting_burst_size = 100, rate_limiting_window_seconds = 60,
     rate_limiting_strategy = RateLimitStrategy_TokenBucket,
     rate_limiting_per_user_limits = []\<rparr>"

definition validate_rate_limiting_config :: "rate_limiting_config \<Rightarrow> verrors" where
  "validate_rate_limiting_config c =
     field ''requests_per_second'' (in_range 1 1000000 (rate_limiting_requests_per_second c)) (range_error ''1'' ''1000000'') @
     field ''burst_size'' (in_range 1 10000 (rate_limiting_burst_size c)) (range_error ''1'' ''10000'') @
     field ''window_seconds'' (in_range 1 3600 (rate_limiting_window_seconds c)) (range_error ''1'' ''3600'')"

datatype ip_filter_policy =
  IpFilterPolicy_Allow | IpFilterPolicy_Deny

definition ip_filter_policy_default :: ip_filter_policy where
  "ip_filter_policy_default = IpFilterPolicy_Allow"

record ip_filtering_config =
  ip_filtering_enabled :: bool
  ip_filtering_default_policy :: ip_filter_policy
  ip_filtering_allowed_ips :: "string list"
  ip_filtering_denied_ips :: "string list"
  ip_filtering_trusted_proxies :: "string list"
  ip_filtering_use_forwarded_header :: bool

definition ip_filtering_config_default :: "ip_filtering_config" where
  "ip_filtering_config_default =
     \<lparr>ip_filtering_enabled = False, ip_filtering_default_policy = IpFilterPolicy_Allow,
     ip_filtering_allowed_ips = [], ip_filtering_denied_ips = [],
     ip_filtering_trusted_proxies = [], ip_filtering_use_forwarded_header = False\<rparr>"

definition validate_ip_filtering_config :: "ip_filtering_config \<Rightarrow> verrors" where
  "validate_ip_filtering_config c = []"

datatype encryption_algorithm =
  EncryptionAlgorithm_Aes128Gcm | EncryptionAlgorithm_Aes256Gcm |
  EncryptionAlgorithm_ChaCha20Poly1305 | EncryptionAlgorithm_XChaCha20Poly1305

definition encryption_algorithm_default :: encryption_algorithm where
  "encryption_algorithm_default = EncryptionAlgorithm_Aes256Gcm"

datatype key_derivation_function =
  KeyDerivationFunction_PBKDF2 | KeyDerivationFunction_Scrypt | KeyDerivationFunction_Argon2

definition key_derivation_function_default :: key_derivation_function where
  "key_derivation_function_default = KeyDerivationFunction_PBKDF2"

datatype key_storage_type =
  KeyStorageType_File | KeyStorageType_Environment | KeyStorageType_External |
  KeyStorageType_HSM

definition key_storage_type_default :: key_storage_type where
  "key_storage_type_default = KeyStorageType_File"

record hsm_config =
  hsm_provider :: string
  hsm_slot_id :: u32
  hsm_pin :: string
  hsm_key_label_prefix :: string

definition hsm_config_default :: "hsm_config" where
  "hsm_config_default =
     \<lparr>hsm_provider = '''', hsm_slot_id = 0, hsm_pin = '''',
     hsm_key_label_prefix = ''kaelix''\<rparr>"

definition validate_hsm_config :: "hsm_config \<Rightarrow> verrors" where
  "validate_hsm_config c =
     field ''provider'' (len_in 1 50 (hsm_provider c)) (length_error ''1'' ''50'') @
     field ''pin'' (len_in 4 255 (hsm_pin c)) (length_error ''4'' ''255'') @
     field ''key_label_prefix'' (len_in 1 50 (hsm_key_label_prefix c)) (length_error ''1'' ''50'')"

record key_management_config =
  key_management_storage_type :: key_storage_type
  key_management_storage_config :: "(string, string) hash_map"
  key_management_use_hsm :: bool
  key_management_hsm_config :: "hsm_config option"

definition key_management_config_default :: "key_management_config" where
  "key_management_config_default =
     \<lparr>key_management_storage_type = KeyStorageType_File,
     key_management_storage_config = [], key_management_use_hsm = False,
     key_management_hsm_config = None\<rparr>"

definition validate_key_management_config :: "key_management_config \<Rightarrow> verrors" where
  "validate_key_management_config c =
     nested ''hsm_config'' (optional validate_hsm_config (key_management_hsm_config c))"

record encryption_config =
  encryption_enabled :: bool
  encryption_algorithm :: encryption_algorithm
  encryption_key_derivation :: key_derivation_function
  encryption_key_size_bits :: u16
  encryption_key_rotation_hours :: u64
  encryption_key_management :: key_management_config

definition encryption_config_default :: "encryption_config" where
  "encryption_config_default =
     \<lparr>encryption_enabled = False, encryption_algorithm = EncryptionAlgorithm_Aes256Gcm,
     encryption_key_derivation = KeyDerivationFunction_PBKDF2, encryption_key_size_bits = 256,
     encryption_key_rotation_hours = 168,
     encryption_key_management = key_management_config_default\<rparr>"

definition validate_encryption_config :: "encryption_config \<Rightarrow> verrors" where
  "validate_encryption_config c =
     field ''key_size_bits'' (in_range 128 512 (encryption_key_size_bits c)) (range_error ''128'' ''512'') @
     field ''key_rotation_hours'' (in_range 1 8760 (encryption_key_rotation_hours c)) (range_error ''1'' ''8760'') @
     nested ''key_management'' (validate_key_management_config (encryption_key_management c))"

record security_config =
  security_tls :: tls_config
  security_authentication :: authentication_config
  security_authorization :: authorization_config
  security_rate_limiting :: rate_limiting_config
  security_ip_filtering :: ip_filtering_config
  security_encryption :: encryption_config

definition security_config_default :: "security_config" where
  "security_config_default =
     \<lparr>security_tls = tls_config_default,
     security_authentication = authentication_config_default,
     security_authorization = authorization_config_default,
     security_rate_limiting = rate_limiting_config_default,
     security_ip_filtering = ip_filtering_config_default,
     security_encryption = encryption_config_default\<rparr>"

definition validate_security_config :: "(string \<Rightarrow> bool) \<Rightarrow> security_config \<Rightarrow> verrors" where
  "validate_security_config is_url c =
     nested ''tls'' (validate_tls_config (security_tls c)) @
     nested ''authentication'' (validate_authentication_config is_url (security_authentication c)) @
     nested ''authorization'' (validate_authorization_config (security_authorization c)) @
     nested ''rate_limiting'' (validate_rate_limiting_config (security_rate_limiting c)) @
     nested ''ip_filtering'' (validate_ip_filtering_config (security_ip_filtering c)) @
     nested ''encryption'' (validate_encryption_config (security_encryption c))"

section \<open>Defaults\<close>

lemmas config_security_defs [schema_defs] =
  tls_config_default_def validate_tls_config_def token_auth_config_default_def
  validate_token_auth_config_def jwt_auth_config_default_def validate_jwt_auth_config_def
  o_auth_config_default_def validate_o_auth_config_def ldap_config_default_def
  validate_ldap_config_def authentication_config_default_def validate_authentication_config_def
  validate_permission_def validate_role_def rbac_config_default_def validate_rbac_config_def
  validate_abac_policy_def validate_attribute_source_def abac_config_default_def
  validate_abac_config_def validate_access_control_entry_def authorization_config_default_def
  validate_authorization_config_def validate_user_rate_limit_def
  rate_limiting_config_default_def validate_rate_limiting_config_def
  ip_filtering_config_default_def validate_ip_filtering_config_def hsm_config_default_def
  validate_hsm_config_def key_management_config_default_def validate_key_management_config_def
  encryption_config_default_def validate_encryption_config_def security_config_default_def
  validate_security_config_def

lemma security_default_errors: "validate_security_config is_url security_config_default =
    [(''tls'', VStruct [(''cert_path'', VField [length_error ''1'' ''512'']),
                        (''key_path'', VField [length_error ''1'' ''512''])])]"
  by (simp add: schema_defs in_range_def len_in_def nested_def field_def)

end
