(* ===== verification/Config_Telemetry.thy ===== *)
theory Config_Telemetry
  imports Config_Network
begin

text \<open>
  The telemetry part of the configuration schema, \<^verbatim>\<open>src/kaelix-core/src/config/schema.rs\<close>: logging,
  metrics, tracing, performance monitoring and health checks.
\<close>

section \<open>Schema\<close>

datatype tracing_level =
  TracingLevel_Trace | TracingLevel_Debug | TracingLevel_Info | TracingLevel_Warn |
  TracingLevel_Error

definition tracing_level_default :: tracing_level where
  "tracing_level_default = TracingLevel_Info"

datatype log_format =
  LogFormat_Text | LogFormat_Json | LogFormat_Compact | LogFormat_Pretty

definition log_format_default :: log_format where
  "log_format_default = LogFormat_Json"

datatype log_target =
  LogTarget_Console | LogTarget_File | LogTarget_Syslog |
  LogTarget_Custom string "(string, string) hash_map"

datatype log_rotation =
  LogRotation_None | LogRotation_Daily | LogRotation_Hourly | LogRotation_Size |
  LogRotation_Weekly | LogRotation_Monthly

definition log_rotation_default :: log_rotation where
  "log_rotation_default = LogRotation_Daily"

record log_rate_limit_config =
  log_rate_limit_enabled :: bool
  log_rate_limit_max_messages_per_second :: u32
  log_rate_limit_burst_size :: u32

definition log_rate_limit_config_default :: "log_rate_limit_config" where
  "log_rate_limit_config_default =
     \<lparr>log_rate_limit_enabled = False, log_rate_limit_max_messages_per_second = 100,
     log_rate_limit_burst_size = 10\<rparr>"

definition validate_log_rate_limit_config :: "log_rate_limit_config \<Rightarrow> verrors" where
  "validate_log_rate_limit_config c =
     field ''max_messages_per_second'' (in_range 1 10000 (log_rate_limit_max_messages_per_second c)) (range_error ''1'' ''10000'') @
     field ''burst_size'' (in_range 1 1000 (log_rate_limit_burst_size c)) (range_error ''1'' ''1000'')"

record log_filtering_config =
  log_filtering_module_levels :: "(string, tracing_level) hash_map"
  log_filtering_sampling_enabled :: bool
  log_filtering_sampling_rate :: rat
  log_filtering_rate_limiting :: log_rate_limit_config

definition log_filtering_config_default :: "log_filtering_config" where
  "log_filtering_config_default =
     \<lparr>log_filtering_module_levels = [], log_filtering_sampling_enabled = False,
     log_filtering_sampling_rate = 1,
     log_filtering_rate_limiting = log_rate_limit_config_default\<rparr>"

definition validate_log_filtering_config :: "log_filtering_config \<Rightarrow> verrors" where
  "validate_log_filtering_config c =
     field ''sampling_rate'' (in_range 0 1 (log_filtering_sampling_rate c)) (range_error ''0.0'' ''1.0'') @
     nested ''rate_limiting'' (validate_log_rate_limit_config (log_filtering_rate_limiting c))"

record logging_config =
  logging_enabled :: bool
  logging_level :: tracing_level
  logging_format :: log_format
  logging_targets :: "log_target list"
  logging_max_file_size_mb :: u64
  logging_max_files :: u32
  logging_rotation :: log_rotation
  logging_compress_rotated :: bool
  logging_filtering :: log_filtering_config

definition logging_config_default :: "logging_config" where
  "logging_config_default =
     \<lparr>logging_enabled = True, logging_level = TracingLevel_Info,
     logging_format = LogFormat_Json, logging_targets = [LogTarget_Console, LogTarget_File],
     logging_max_file_size_mb = 100, logging_max_files = 10,
     logging_rotation = LogRotation_Daily, logging_compress_rotated = True,
     logging_filtering = log_filtering_config_default\<rparr>"

definition validate_logging_config :: "logging_config \<Rightarrow> verrors" where
  "validate_logging_config c =
     field ''max_file_size_mb'' (in_range 1 1024 (logging_max_file_size_mb c)) (range_error ''1'' ''1024'') @
     field ''max_files'' (in_range 1 100 (logging_max_files c)) (range_error ''1'' ''100'') @
     nested ''filtering'' (validate_log_filtering_config (logging_filtering c))"

record prometheus_config =
  prometheus_enabled :: bool
  prometheus_port :: u16
  prometheus_path :: string
  prometheus_labels :: "(string, string) hash_map"
  prometheus_namespace :: "string option"

definition prometheus_config_default :: "prometheus_config" where
  "prometheus_config_default =
     \<lparr>prometheus_enabled = True, prometheus_port = 9090, prometheus_path = ''/metrics'',
     prometheus_labels = [], prometheus_namespace = Some ''kaelix''\<rparr>"

definition validate_prometheus_config :: "prometheus_config \<Rightarrow> verrors" where
  "validate_prometheus_config c =
     field ''port'' (in_range 1 65535 (prometheus_port c)) (range_error ''1'' ''65535'') @
     field ''path'' (len_in 1 100 (prometheus_path c)) (length_error ''1'' ''100'') @
     field ''namespace'' (opt_all (len_in 0 50) (prometheus_namespace c)) (length_max_error ''50'')"

record stats_d_config =
  stats_d_host :: string
  stats_d_port :: u16
  stats_d_prefix :: "string option"
  stats_d_sample_rate :: rat

definition stats_d_config_default :: "stats_d_config" where
  "stats_d_config_default =
     \<lparr>stats_d_host = ''localhost'', stats_d_port = 8125,
     stats_d_prefix = Some ''kaelix'', stats_d_sample_rate = 1\<rparr>"

definition validate_stats_d_config :: "stats_d_config \<Rightarrow> verrors" where
  "validate_stats_d_config c =
     field ''host'' (len_in 1 255 (stats_d_host c)) (length_error ''1'' ''255'') @
     field ''port'' (in_range 1 65535 (stats_d_port c)) (range_error ''1'' ''65535'') @
     field ''prefix'' (opt_all (len_in 0 50) (stats_d_prefix c)) (length_max_error ''50'') @
     field ''sample_rate'' (in_range 0 1 (stats_d_sample_rate c)) (range_error ''0.0'' ''1.0'')"

datatype metrics_exporter_type =
  MetricsExporterType_InfluxDB | MetricsExporterType_Graphite | MetricsExporterType_Custom

record metrics_exporter =
  metrics_exporter_name :: string
  metrics_exporter_exporter_type :: metrics_exporter_type
  metrics_exporter_config :: "(string, string) hash_map"
  metrics_exporter_interval_seconds :: u64

definition validate_metrics_exporter :: "metrics_exporter \<Rightarrow> verrors" where
  "validate_metrics_exporter c =
     field ''name'' (len_in 1 50 (metrics_exporter_name c)) (length_error ''1'' ''50'') @
     field ''interval_seconds'' (in_range 1 3600 (metrics_exporter_interval_seconds c)) (range_error ''1'' ''3600'')"

datatype aggregation_interval =
  AggregationInterval_Minute | AggregationInterval_Hour | AggregationInterval_Day |
  AggregationInterval_Week

datatype aggregation_function =
  AggregationFunction_Average | AggregationFunction_Sum | AggregationFunction_Max |
  AggregationFunction_Min | AggregationFunction_Count | AggregationFunction_P95 |
  AggregationFunction_P99

record metrics_aggregation_config =
  metrics_aggregation_enabled :: bool
  metrics_aggregation_intervals :: "aggregation_interval list"
  metrics_aggregation_functions :: "aggregation_function list"

definition metrics_aggregation_config_default :: "metrics_aggregation_config" where
  "metrics_aggregation_config_default =
     \<lparr>metrics_aggregation_enabled = True,
     metrics_aggregation_intervals = [AggregationInterval_Minute, AggregationInterval_Hour, AggregationInterval_Day],
     metrics_aggregation_functions = [AggregationFunction_Average, AggregationFunction_Sum, AggregationFunction_Max, AggregationFunction_Min]\<rparr>"

definition validate_metrics_aggregation_config :: "metrics_aggregation_config \<Rightarrow> verrors" where
  "validate_metrics_aggregation_config c = []"

record metrics_retention_config =
  metrics_retention_default_retention_hours :: u64
  metrics_retention_per_metric_retention :: "(string, u64) hash_map"
  metrics_retention_aggregation :: metrics_aggregation_config

definition metrics_retention_config_default :: "metrics_retention_config" where
  "metrics_retention_config_default =
     \<lparr>metrics_retention_default_retention_hours = 168,
     metrics_retention_per_metric_retention = [],
     metrics_retention_aggregation = metrics_aggregation_config_default\<rparr>"

definition validate_metrics_retention_config :: "metrics_retention_config \<Rightarrow> verrors" where
  "validate_metrics_retention_config c =
     field ''default_retention_hours'' (in_range 1 8760 (metrics_retention_default_retention_hours c)) (range_error ''1'' ''8760'') @
     nested ''aggregation'' (validate_metrics_aggregation_config (metrics_retention_aggregation c))"

record metrics_config =
  metrics_enabled :: bool
  metrics_collection_interval_seconds :: u64
  metrics_prometheus :: prometheus_config
  metrics_statsd :: "stats_d_config option"
  metrics_custom_exporters :: "metrics_exporter list"
  metrics_retention :: metrics_retention_config

definition metrics_config_default :: "metrics_config" where
  "metrics_config_default =
     \<lparr>metrics_enabled = True, metrics_collection_interval_seconds = 15,
     metrics_prometheus = prometheus_config_default, metrics_statsd = None,
     metrics_custom_exporters = [],
     metrics_retention = metrics_retention_config_default\<rparr>"

definition validate_metrics_config :: "metrics_config \<Rightarrow> verrors" where
  "validate_metrics_config c =
     field ''collection_interval_seconds'' (in_range 1 3600 (metrics_collection_interval_seconds c)) (range_error ''1'' ''3600'') @
     nested ''prometheus'' (validate_prometheus_config (metrics_prometheus c)) @
     nested ''statsd'' (optional validate_stats_d_config (metrics_statsd c)) @
     nested ''retention'' (validate_metrics_retention_config (metrics_retention c))"

datatype sampling_strategy =
  SamplingStrategy_Always | SamplingStrategy_Never | SamplingStrategy_Probabilistic |
  SamplingStrategy_RateLimiting | SamplingStrategy_Adaptive

definition sampling_strategy_default :: sampling_strategy where
  "sampling_strategy_default = SamplingStrategy_Probabilistic"

record tracing_sampling_config =
  tracing_sampling_strategy :: sampling_strategy
  tracing_sampling_rate :: rat
  tracing_sampling_max_traces_per_second :: u32

definition tracing_sampling_config_default :: "tracing_sampling_config" where
  "tracing_sampling_config_default =
     \<lparr>tracing_sampling_strategy = SamplingStrategy_Probabilistic,
     tracing_sampling_rate = 1 / 10, tracing_sampling_max_traces_per_second = 100\<rparr>"

definition validate_tracing_sampling_config :: "tracing_sampling_config \<Rightarrow> verrors" where
  "validate_tracing_sampling_config c =
     field ''rate'' (in_range 0 1 (tracing_sampling_rate c)) (range_error ''0.0'' ''1.0'') @
     field ''max_traces_per_second'' (in_range 1 10000 (tracing_sampling_max_traces_per_second c)) (range_error ''1'' ''10000'')"

record jaeger_config =
  jaeger_enabled :: bool
  jaeger_endpoint :: string
  jaeger_auth_token :: "string option"
  jaeger_username :: "string option"
  jaeger_password :: "string option"

definition jaeger_config_default :: "jaeger_config" where
  "jaeger_config_default =
     \<lparr>jaeger_enabled = False, jaeger_endpoint = ''http://localhost:14268/api/traces'',
     jaeger_auth_token = None, jaeger_username = None, jaeger_password = None\<rparr>"

definition validate_jaeger_config :: "jaeger_config \<Rightarrow> verrors" where
  "validate_jaeger_config c =
     field ''endpoint'' (len_in 1 255 (jaeger_endpoint c)) (length_error ''1'' ''255'') @
     field ''auth_token'' (opt_all (len_in 0 255) (jaeger_auth_token c)) (length_max_error ''255'') @
     field ''username'' (opt_all (len_in 0 100) (jaeger_username c)) (length_max_error ''100'') @
     field ''password'' (opt_all (len_in 0 100) (jaeger_password c)) (length_max_error ''100'')"

record zipkin_config =
  zipkin_endpoint :: string
  zipkin_timeout_seconds :: u64

definition zipkin_config_default :: "zipkin_config" where
  "zipkin_config_default =
     \<lparr>zipkin_endpoint = ''http://localhost:9411/api/v2/spans'',
     zipkin_timeout_seconds = 10\<rparr>"

definition validate_zipkin_config :: "(string \<Rightarrow> bool) \<Rightarrow> zipkin_config \<Rightarrow> verrors" where
  "validate_zipkin_config is_url c =
     field ''endpoint'' (is_url (zipkin_endpoint c)) url_error @
     field ''timeout_seconds'' (in_range 1 60 (zipkin_timeout_seconds c)) (range_error ''1'' ''60'')"

datatype otlp_protocol =
  OtlpProtocol_Grpc | OtlpProtocol_Http

definition otlp_protocol_default :: otlp_protocol where
  "otlp_protocol_default = OtlpProtocol_Grpc"

record open_telemetry_config =
  open_telemetry_enabled :: bool
  open_telemetry_endpoint :: string
  open_telemetry_protocol :: otlp_protocol
  open_telemetry_headers :: "(string, string) hash_map"
  open_telemetry_timeout_seconds :: u64

definition open_telemetry_config_default :: "open_telemetry_config" where
  "open_telemetry_config_default =
     \<lparr>open_telemetry_enabled = False,
     open_telemetry_endpoint = ''http://localhost:4317'',
     open_telemetry_protocol = OtlpProtocol_Grpc, open_telemetry_headers = [],
     open_telemetry_timeout_seconds = 10\<rparr>"

definition validate_open_telemetry_config :: "open_telemetry_config \<Rightarrow> verrors" where
  "validate_open_telemetry_config c =
     field ''endpoint'' (len_in 1 255 (open_telemetry_endpoint c)) (length_error ''1'' ''255'') @
     field ''timeout_seconds'' (in_range 1 60 (open_telemetry_timeout_seconds c)) (range_error ''1'' ''60'')"

record tracing_config =
  tracing_enabled :: bool
  tracing_service_name :: string
  tracing_service_version :: string
  tracing_sampling :: tracing_sampling_config
  tracing_jaeger :: jaeger_config
  tracing_zipkin :: "zipkin_config option"
  tracing_opentelemetry :: open_telemetry_config

definition tracing_config_default :: "tracing_config" where
  "tracing_config_default =
     \<lparr>tracing_enabled = False, tracing_service_name = ''kaelix'',
     tracing_service_version = ''1.0.0'', tracing_sampling = tracing_sampling_config_default,
     tracing_jaeger = jaeger_config_default, tracing_zipkin = None,
     tracing_opentelemetry = open_telemetry_config_default\<rparr>"

definition validate_tracing_config :: "(string \<Rightarrow> bool) \<Rightarrow> tracing_config \<Rightarrow> verrors" where
  "validate_tracing_config is_url c =
     field ''service_name'' (len_in 1 100 (tracing_service_name c)) (length_error ''1'' ''100'') @
     field ''service_version'' (len_in 1 50 (tracing_service_version c)) (length_error ''1'' ''50'') @
     nested ''sampling'' (validate_tracing_sampling_config (tracing_sampling c)) @
     nested ''jaeger'' (validate_jaeger_config (tracing_jaeger c)) @
     nested ''zipkin'' (optional (validate_zipkin_config is_url) (tracing_zipkin c)) @
     nested ''opentelemetry'' (validate_open_telemetry_config (tracing_opentelemetry c))"

record cpu_profiling_config =
  cpu_profiling_enabled :: bool
  cpu_profiling_frequency_hz :: u32
  cpu_profiling_stack_depth :: u32

definition cpu_profiling_config_default :: "cpu_profiling_config" where
  "cpu_profiling_config_default =
     \<lparr>cpu_profiling_enabled = False, cpu_profiling_frequency_hz = 100,
     cpu_profiling_stack_depth = 64\<rparr>"

definition validate_cpu_profiling_config :: "cpu_profiling_config \<Rightarrow> verrors" where
  "validate_cpu_profiling_config c =
     field ''frequency_hz'' (in_range 1 1000 (cpu_profiling_frequency_hz c)) (range_error ''1'' ''1000'') @
     field ''stack_depth'' (in_range 1 100 (cpu_profiling_stack_depth c)) (range_error ''1'' ''100'')"

record memory_profiling_config =
  memory_profiling_enabled :: bool
  memory_profiling_allocation_threshold_bytes :: usize
  memory_profiling_track_stack_traces :: bool

definition memory_profiling_config_default :: "memory_profiling_config" where
  "memory_profiling_config_default =
     \<lparr>memory_profiling_enabled = False,
     memory_profiling_allocation_threshold_bytes = 1024,
     memory_profiling_track_stack_traces = False\<rparr>"

definition validate_memory_profiling_config :: "memory_profiling_config \<Rightarrow> verrors" where
  "validate_memory_profiling_config c =
     field ''allocation_threshold_bytes'' (in_range 1 1048576 (memory_profiling_allocation_threshold_bytes c)) (range_error ''1'' ''1048576'')"

record io_profiling_config =
  io_profiling_enabled :: bool
  io_profiling_track_file_operations :: bool
  io_profiling_track_network_operations :: bool
  io_profiling_min_duration_micros :: u64

definition io_profiling_config_default :: "io_profiling_config" where
  "io_profiling_config_default =
     \<lparr>io_profiling_enabled = False, io_profiling_track_file_operations = True,
     io_profiling_track_network_operations = True,
     io_profiling_min_duration_micros = 100\<rparr>"

definition validate_io_profiling_config :: "io_profiling_config \<Rightarrow> verrors" where
  "validate_io_profiling_config c =
     field ''min_duration_micros'' (in_range 1 1000000 (io_profiling_min_duration_micros c)) (range_error ''1'' ''1000000'')"

record performance_monitoring_config =
  performance_monitoring_enabled :: bool
  performance_monitoring_worker_threads :: "usize option"
  performance_monitoring_buffer_size :: usize
  performance_monitoring_batch_size :: u32
  performance_monitoring_collection_interval_ms :: u64
  performance_monitoring_cpu_profiling :: cpu_profiling_config
  performance_monitoring_memory_profiling :: memory_profiling_config
  performance_monitoring_io_profiling :: io_profiling_config

definition performance_monitoring_config_default :: "performance_monitoring_config" where
  "performance_monitoring_config_default =
     \<lparr>performance_monitoring_enabled = True,
     performance_monitoring_worker_threads = None, performance_monitoring_buffer_size = 1048576,
     performance_monitoring_batch_size = 100,
     performance_monitoring_collection_interval_ms = 1000,
     performance_monitoring_cpu_profiling = cpu_profiling_config_default,
     performance_monitoring_memory_profiling = memory_profiling_config_default,
     performance_monitoring_io_profiling = io_profiling_config_default\<rparr>"

definition validate_performance_monitoring_config :: "performance_monitoring_config \<Rightarrow> verrors" where
  "validate_performance_monitoring_config c =
     field ''worker_threads'' (opt_all (in_range 1 64) (performance_monitoring_worker_threads c)) (range_error ''1'' ''64'') @
     field ''buffer_size'' (in_range 1024 16777216 (performance_monitoring_buffer_size c)) (range_error ''1024'' ''16777216'') @
     field ''batch_size'' (in_range 1 1000 (performance_monitoring_batch_size c)) (range_error ''1'' ''1000'') @
     field ''collection_interval_ms'' (in_range 100 60000 (performance_monitoring_collection_interval_ms c)) (range_error ''100'' ''60000'') @
     nested ''cpu_profiling'' (validate_cpu_profiling_config (performance_monitoring_cpu_profiling c)) @
     nested ''memory_profiling'' (validate_memory_profiling_config (performance_monitoring_memory_profiling c)) @
     nested ''io_profiling'' (validate_io_profiling_config (performance_monitoring_io_profiling c))"

datatype health_probe =
  HealthProbe_Liveness | HealthProbe_Readiness | HealthProbe_Startup |
  HealthProbe_Custom string "(string, string) hash_map"

record health_check_config =
  health_check_enabled :: bool
  health_check_port :: u16
  health_check_path :: string
  health_check_interval_seconds :: u64
  health_check_timeout_seconds :: u64
  health_check_probes :: "health_probe list"

definition health_check_config_default :: "health_check_config" where
  "health_check_config_default =
     \<lparr>health_check_enabled = True, health_check_port = 8081,
     health_check_path = ''/health'', health_check_interval_seconds = 30,
     health_check_timeout_seconds = 5,
     health_check_probes = [HealthProbe_Liveness, HealthProbe_Readiness]\<rparr>"

definition validate_health_check_config :: "health_check_config \<Rightarrow> verrors" where
  "validate_health_check_config c =
     field ''port'' (in_range 1 65535 (health_check_port c)) (range_error ''1'' ''65535'') @
     field ''path'' (len_in 1 100 (health_check_path c)) (length_error ''1'' ''100'') @
     field ''interval_seconds'' (in_range 1 3600 (health_check_interval_seconds c)) (range_error ''1'' ''3600'') @
     field ''timeout_seconds'' (in_range 1 60 (health_check_timeout_seconds c)) (range_error ''1'' ''60'')"

record telemetry_config =
  telemetry_logging :: logging_config
  telemetry_metrics :: metrics_config
  telemetry_tracing :: tracing_config
  telemetry_performance :: performance_monitoring_config
  telemetry_health :: health_check_config

definition telemetry_config_default :: "telemetry_config" where
  "telemetry_config_default =
     \<lparr>telemetry_logging = logging_config_default,
     telemetry_metrics = metrics_config_default, telemetry_tracing = tracing_config_default,
     telemetry_performance = performance_monitoring_config_default,
     telemetry_health = health_check_config_default\<rparr>"

definition validate_telemetry_config :: "(string \<Rightarrow> bool) \<Rightarrow> telemetry_config \<Rightarrow> verrors" where
  "validate_telemetry_config is_url c =
     nested ''logging'' (validate_logging_config (telemetry_logging c)) @
     nested ''metrics'' (validate_metrics_config (telemetry_metrics c)) @
     nested ''tracing'' (validate_tracing_config is_url (telemetry_tracing c)) @
     nested ''performance'' (validate_performance_monitoring_config (telemetry_performance c)) @
     nested ''health'' (validate_health_check_config (telemetry_health c))"

section \<open>Defaults\<close>

lemmas config_telemetry_defs [schema_defs] =
  log_rate_limit_config_default_def validate_log_rate_limit_config_def
  log_filtering_config_default_def validate_log_filtering_config_def logging_config_default_def
  validate_logging_config_def prometheus_config_default_def validate_prometheus_config_def
  stats_d_config_default_def validate_stats_d_config_def validate_metrics_exporter_def
  metrics_aggregation_config_default_def validate_metrics_aggregation_config_def
  metrics_retention_config_default_def validate_metrics_retention_config_def
  metrics_config_default_def validate_metrics_config_def tracing_sampling_config_default_def
  validate_tracing_sampling_config_def jaeger_config_default_def validate_jaeger_config_def
  zipkin_config_default_def validate_zipkin_config_def open_telemetry_config_default_def
  validate_open_telemetry_config_def tracing_config_default_def validate_tracing_config_def
  cpu_profiling_config_default_def validate_cpu_profiling_config_def
  memory_profiling_config_default_def validate_memory_profiling_config_def
  io_profiling_config_default_def validate_io_profiling_config_def
  performance_monitoring_config_default_def validate_performance_monitoring_config_def
  health_check_config_default_def validate_health_check_config_def telemetry_config_default_def
  validate_telemetry_config_def

lemma telemetry_default_ok: "validate_telemetry_config is_url telemetry_config_default = []"
  by (simp add: schema_defs in_range_def len_in_def opt_all_def)

end
