(* ===== verification/Config_Runtime.thy ===== *)
theory Config_Runtime
  imports Config_Security
begin

text \<open>
  The runtime part of the configuration schema, \<^verbatim>\<open>src/kaelix-core/src/config/schema.rs\<close>: storage with
  backups, memory and thread pools, limits and maintenance. The number of processors is an argument of
  the defaults.
\<close>

section \<open>Schema\<close>

datatype storage_engine =
  StorageEngine_Memory | StorageEngine_RocksDB | StorageEngine_LMDB |
  StorageEngine_Custom string "(string, string) hash_map"

definition storage_engine_default :: storage_engine where
  "storage_engine_default = StorageEngine_RocksDB"

datatype wal_sync_mode =
  WalSyncMode_None | WalSyncMode_Periodic | WalSyncMode_Always

definition wal_sync_mode_default :: wal_sync_mode where
  "wal_sync_mode_default = WalSyncMode_Periodic"

record schema_wal_config =
  wal_enabled :: bool
  wal_wal_dir :: string
  wal_file_size_mb :: u64
  wal_max_files :: u32
  wal_sync_mode :: wal_sync_mode
  wal_compress :: bool

definition schema_wal_config_default :: "schema_wal_config" where
  "schema_wal_config_default =
     \<lparr>wal_enabled = True, wal_wal_dir = ''./wal'', wal_file_size_mb = 64,
     wal_max_files = 10, wal_sync_mode = WalSyncMode_Periodic, wal_compress = False\<rparr>"

definition validate_schema_wal_config :: "schema_wal_config \<Rightarrow> verrors" where
  "validate_schema_wal_config c =
     field ''wal_dir'' (len_in 1 512 (wal_wal_dir c)) (length_error ''1'' ''512'') @
     field ''file_size_mb'' (in_range 1 1024 (wal_file_size_mb c)) (range_error ''1'' ''1024'') @
     field ''max_files'' (in_range 1 100 (wal_max_files c)) (range_error ''1'' ''100'')"

record storage_compression_config =
  storage_compression_enabled :: bool
  storage_compression_algorithm :: schema_compression_algorithm
  storage_compression_level :: u8
  storage_compression_block_size_kb :: u32

definition storage_compression_config_default :: "storage_compression_config" where
  "storage_compression_config_default =
     \<lparr>storage_compression_enabled = True,
     storage_compression_algorithm = CompressionAlgorithm_Lz4, storage_compression_level = 3,
     storage_compression_block_size_kb = 64\<rparr>"

definition validate_storage_compression_config :: "storage_compression_config \<Rightarrow> verrors" where
  "validate_storage_compression_config c =
     field ''level'' (in_range 0 9 (storage_compression_level c)) (range_error ''0'' ''9'') @
     field ''block_size_kb'' (in_range 4 1024 (storage_compression_block_size_kb c)) (range_error ''4'' ''1024'')"

record backup_retention_policy =
  backup_retention_daily_backups :: u32
  backup_retention_weekly_backups :: u32
  backup_retention_monthly_backups :: u32
  backup_retention_yearly_backups :: u32

definition backup_retention_policy_default :: "backup_retention_policy" where
  "backup_retention_policy_default =
     \<lparr>backup_retention_daily_backups = 7, backup_retention_weekly_backups = 4,
     backup_retention_monthly_backups = 6, backup_retention_yearly_backups = 2\<rparr>"

definition validate_backup_retention_policy :: "backup_retention_policy \<Rightarrow> verrors" where
  "validate_backup_retention_policy c =
     field ''daily_backups'' (in_range 0 365 (backup_retention_daily_backups c)) (range_error ''0'' ''365'') @
     field ''weekly_backups'' (in_range 0 52 (backup_retention_weekly_backups c)) (range_error ''0'' ''52'') @
     field ''monthly_backups'' (in_range 0 12 (backup_retention_monthly_backups c)) (range_error ''0'' ''12'') @
     field ''yearly_backups'' (in_range 0 10 (backup_retention_yearly_backups c)) (range_error ''0'' ''10'')"

datatype backup_destination =
  BackupDestination_Local string | BackupDestination_S3 string string string string |
  BackupDestination_Gcs string string | BackupDestination_Azure string string string

record backup_compression_config =
  backup_compression_enabled :: bool
  backup_compression_algorithm :: schema_compression_algorithm
  backup_compression_level :: u8

definition backup_compression_config_default :: "backup_compression_config" where
  "backup_compression_config_default =
     \<lparr>backup_compression_enabled = True,
     backup_compression_algorithm = CompressionAlgorithm_Zstd,
     backup_compression_level = 3\<rparr>"

definition validate_backup_compression_config :: "backup_compression_config \<Rightarrow> verrors" where
  "validate_backup_compression_config c =
     field ''level'' (in_range 0 9 (backup_compression_level c)) (range_error ''0'' ''9'')"

record backup_encryption_config =
  backup_encryption_enabled :: bool
  backup_encryption_key :: string
  backup_encryption_algorithm :: encryption_algorithm

definition backup_encryption_config_default :: "backup_encryption_config" where
  "backup_encryption_config_default =
     \<lparr>backup_encryption_enabled = False, backup_encryption_key = '''',
     backup_encryption_algorithm = EncryptionAlgorithm_Aes256Gcm\<rparr>"

definition validate_backup_encryption_config :: "backup_encryption_config \<Rightarrow> verrors" where
  "validate_backup_encryption_config c =
     field ''key'' (len_in 32 512 (backup_encryption_key c)) (length_error ''32'' ''512'')"

record backup_config =
  backup_enabled :: bool
  backup_schedule :: string
  backup_retention :: backup_retention_policy
  backup_destinations :: "backup_destination list"
  backup_compression :: backup_compression_config
  backup_encryption :: backup_encryption_config

definition backup_config_default :: "backup_config" where
  "backup_config_default =
     \<lparr>backup_enabled = False, backup_schedule = ''0 2 * * *'',
     backup_retention = backup_retention_policy_default,
     backup_destinations = [BackupDestination_Local ''./backups''],
     backup_compression = backup_compression_config_default,
     backup_encryption = backup_encryption_config_default\<rparr>"

definition validate_backup_config :: "backup_config \<Rightarrow> verrors" where
  "validate_backup_config c =
     field ''schedule'' (len_in 9 100 (backup_schedule c)) (length_error ''9'' ''100'') @
     nested ''retention'' (validate_backup_retention_policy (backup_retention c)) @
     nested ''compression'' (validate_backup_compression_config (backup_compression c)) @
     nested ''encryption'' (validate_backup_encryption_config (backup_encryption c))"

datatype cleanup_strategy =
  CleanupStrategy_ExpiredData | CleanupStrategy_CompactLogs | CleanupStrategy_TempFiles |
  CleanupStrategy_Vacuum

record storage_cleanup_config =
  storage_cleanup_enabled :: bool
  storage_cleanup_interval_hours :: u64
  storage_cleanup_strategies :: "cleanup_strategy list"

definition storage_cleanup_config_default :: "storage_cleanup_config" where
  "storage_cleanup_config_default =
     \<lparr>storage_cleanup_enabled = True, storage_cleanup_interval_hours = 24,
     storage_cleanup_strategies = [CleanupStrategy_ExpiredData, CleanupStrategy_CompactLogs]\<rparr>"

definition validate_storage_cleanup_config :: "storage_cleanup_config \<Rightarrow> verrors" where
  "validate_storage_cleanup_config c =
     field ''interval_hours'' (in_range 1 168 (storage_cleanup_interval_hours c)) (range_error ''1'' ''168'')"

record storage_config =
  storage_enabled :: bool
  storage_engine :: storage_engine
  storage_data_dir :: string
  storage_wal :: schema_wal_config
  storage_compression :: storage_compression_config
  storage_backup :: backup_config
  storage_retention_hours :: u64
  storage_cleanup :: storage_cleanup_config

definition storage_config_default :: "storage_config" where
  "storage_config_default =
     \<lparr>storage_enabled = True, storage_engine = StorageEngine_RocksDB,
     storage_data_dir = ''./data'', storage_wal = schema_wal_config_default,
     storage_compression = storage_compression_config_default,
     storage_backup = backup_config_default, storage_retention_hours = 168,
     storage_cleanup = storage_cleanup_config_default\<rparr>"

definition validate_storage_config :: "storage_config \<Rightarrow> verrors" where
  "validate_storage_config c =
     field ''data_dir'' (len_in 1 512 (storage_data_dir c)) (length_error ''1'' ''512'') @
     nested ''wal'' (validate_schema_wal_config (storage_wal c)) @
     nested ''compression'' (validate_storage_compression_config (storage_compression c)) @
     nested ''backup'' (validate_backup_config (storage_backup c)) @
     field ''retention_hours'' (in_range 1 8760 (storage_retention_hours c)) (range_error ''1'' ''8760'') @
     nested ''cleanup'' (validate_storage_cleanup_config (storage_cleanup c))"

datatype allocation_strategy =
  AllocationStrategy_FirstFit | AllocationStrategy_BestFit | AllocationStrategy_WorstFit |
  AllocationStrategy_Buddy

definition allocation_strategy_default :: allocation_strategy where
  "allocation_strategy_default = AllocationStrategy_FirstFit"

record memory_pool_config =
  memory_pool_enabled :: bool
  memory_pool_size :: usize
  memory_pool_growth_factor :: rat
  memory_pool_max_size :: usize
  memory_pool_allocation_strategy :: allocation_strategy
  memory_pool_alignment :: usize

definition memory_pool_config_default :: "memory_pool_config" where
  "memory_pool_config_default =
     \<lparr>memory_pool_enabled = True, memory_pool_size = 67108864,
     memory_pool_growth_factor = 15 / 10, memory_pool_max_size = 1073741824,
     memory_pool_allocation_strategy = AllocationStrategy_FirstFit,
     memory_pool_alignment = 64\<rparr>"

definition validate_memory_pool_config :: "memory_pool_config \<Rightarrow> verrors" where
  "validate_memory_pool_config c =
     field ''size'' (in_range 1048576 1073741824 (memory_pool_size c)) (range_error ''1048576'' ''1073741824'') @
     field ''growth_factor'' (in_range (11 / 10) 3 (memory_pool_growth_factor c)) (range_error ''1.1'' ''3.0'') @
     field ''max_size'' (in_range 1048576 1073741824 (memory_pool_max_size c)) (range_error ''1048576'' ''1073741824'') @
     field ''alignment'' (in_range 8 4096 (memory_pool_alignment c)) (range_error ''8'' ''4096'')"

datatype thread_priority =
  ThreadPriority_Low | ThreadPriority_Normal | ThreadPriority_High

definition thread_priority_default :: thread_priority where
  "thread_priority_default = ThreadPriority_Normal"

record thread_pool_config =
  thread_pool_core_threads :: usize
  thread_pool_max_threads :: usize
  thread_pool_keep_alive_seconds :: u64
  thread_pool_queue_size :: usize
  thread_pool_thread_priority :: thread_priority
  thread_pool_thread_name_pattern :: string

definition thread_pool_config_default :: "usize \<Rightarrow> thread_pool_config" where
  "thread_pool_config_default cpus =
     \<lparr>thread_pool_core_threads = cpus, thread_pool_max_threads = cpus * 4,
     thread_pool_keep_alive_seconds = 60, thread_pool_queue_size = 10000,
     thread_pool_thread_priority = ThreadPriority_Normal,
     thread_pool_thread_name_pattern = ''kaelix-worker-{}''\<rparr>"

definition validate_thread_pool_config :: "thread_pool_config \<Rightarrow> verrors" where
  "validate_thread_pool_config c =
     field ''core_threads'' (in_range 1 128 (thread_pool_core_threads c)) (range_error ''1'' ''128'') @
     field ''max_threads'' (in_range 1 1024 (thread_pool_max_threads c)) (range_error ''1'' ''1024'') @
     field ''keep_alive_seconds'' (in_range 1 3600 (thread_pool_keep_alive_seconds c)) (range_error ''1'' ''3600'') @
     field ''queue_size'' (in_range 1 1000000 (thread_pool_queue_size c)) (range_error ''1'' ''1000000'') @
     field ''thread_name_pattern'' (len_in 1 50 (thread_pool_thread_name_pattern c)) (length_error ''1'' ''50'')"

datatype pressure_action =
  PressureAction_GarbageCollect | PressureAction_FlushCaches | PressureAction_CompactMemory |
  PressureAction_ReduceBuffers | PressureAction_DropNonEssential

record memory_pressure_config =
  memory_pressure_low_threshold_percent :: u8
  memory_pressure_high_threshold_percent :: u8
  memory_pressure_critical_threshold_percent :: u8
  memory_pressure_pressure_actions :: "pressure_action list"

definition memory_pressure_config_default :: "memory_pressure_config" where
  "memory_pressure_config_default =
     \<lparr>memory_pressure_low_threshold_percent = 70,
     memory_pressure_high_threshold_percent = 85,
     memory_pressure_critical_threshold_percent = 95,
     memory_pressure_pressure_actions = [PressureAction_GarbageCollect, PressureAction_FlushCaches, PressureAction_CompactMemory]\<rparr>"

definition validate_memory_pressure_config :: "memory_pressure_config \<Rightarrow> verrors" where
  "validate_memory_pressure_config c =
     field ''low_threshold_percent'' (in_range 50 80 (memory_pressure_low_threshold_percent c)) (range_error ''50'' ''80'') @
     field ''high_threshold_percent'' (in_range 80 95 (memory_pressure_high_threshold_percent c)) (range_error ''80'' ''95'') @
     field ''critical_threshold_percent'' (in_range 90 99 (memory_pressure_critical_threshold_percent c)) (range_error ''90'' ''99'')"

record resource_limits_config =
  resource_limits_max_memory_bytes :: u64
  resource_limits_max_cpu_percent :: u8
  resource_limits_max_file_descriptors :: u32
  resource_limits_max_network_connections :: u32
  resource_limits_memory_pressure :: memory_pressure_config

definition resource_limits_config_default :: "resource_limits_config" where
  "resource_limits_config_default =
     \<lparr>resource_limits_max_memory_bytes = 0, resource_limits_max_cpu_percent = 0,
     resource_limits_max_file_descriptors = 10000,
     resource_limits_max_network_connections = 10000,
     resource_limits_memory_pressure = memory_pressure_config_default\<rparr>"

definition validate_resource_limits_config :: "resource_limits_config \<Rightarrow> verrors" where
  "validate_resource_limits_config c =
     field ''max_cpu_percent'' (in_range 0 100 (resource_limits_max_cpu_percent c)) (range_error ''0'' ''100'') @
     field ''max_file_descriptors'' (in_range 100 1000000 (resource_limits_max_file_descriptors c)) (range_error ''100'' ''1000000'') @
     field ''max_network_connections'' (in_range 1 1000000 (resource_limits_max_network_connections c)) (range_error ''1'' ''1000000'') @
     nested ''memory_pressure'' (validate_memory_pressure_config (resource_limits_memory_pressure c))"

datatype gc_strategy =
  GcStrategy_None | GcStrategy_MarkSweep | GcStrategy_Generational | GcStrategy_Incremental |
  GcStrategy_Concurrent

definition gc_strategy_default :: gc_strategy where
  "gc_strategy_default = GcStrategy_Generational"

record gc_config =
  gc_enabled :: bool
  gc_strategy :: gc_strategy
  gc_interval_seconds :: u64
  gc_memory_threshold_percent :: u8
  gc_pause_target_ms :: u64

definition gc_config_default :: "gc_config" where
  "gc_config_default =
     \<lparr>gc_enabled = True, gc_strategy = GcStrategy_Generational, gc_interval_seconds = 60,
     gc_memory_threshold_percent = 80, gc_pause_target_ms = 10\<rparr>"

definition validate_gc_config :: "gc_config \<Rightarrow> verrors" where
  "validate_gc_config c =
     field ''interval_seconds'' (in_range 1 3600 (gc_interval_seconds c)) (range_error ''1'' ''3600'') @
     field ''memory_threshold_percent'' (in_range 50 95 (gc_memory_threshold_percent c)) (range_error ''50'' ''95'') @
     field ''pause_target_ms'' (in_range 1 1000 (gc_pause_target_ms c)) (range_error ''1'' ''1000'')"

record maintenance_window =
  maintenance_window_schedule :: string
  maintenance_window_max_duration_minutes :: u64
  maintenance_window_allow_during_high_load :: bool
  maintenance_window_load_threshold :: rat

definition maintenance_window_default :: "maintenance_window" where
  "maintenance_window_default =
     \<lparr>maintenance_window_schedule = ''0 3 * * *'',
     maintenance_window_max_duration_minutes = 30,
     maintenance_window_allow_during_high_load = False,
     maintenance_window_load_threshold = 7 / 10\<rparr>"

definition validate_maintenance_window :: "maintenance_window \<Rightarrow> verrors" where
  "validate_maintenance_window c =
     field ''max_duration_minutes'' (in_range 1 480 (maintenance_window_max_duration_minutes c)) (range_error ''1'' ''480'') @
     field ''load_threshold'' (in_range 0 1 (maintenance_window_load_threshold c)) (range_error ''0.0'' ''1.0'')"

datatype cleanup_type =
  CleanupType_ExpiredMessages | CleanupType_OldMetrics | CleanupType_TempFiles |
  CleanupType_LogFiles | CleanupType_BackupFiles

record cleanup_thresholds =
  cleanup_thresholds_disk_usage_percent :: u8
  cleanup_thresholds_age_threshold_hours :: u64
  cleanup_thresholds_size_threshold_mb :: u64

definition cleanup_thresholds_default :: "cleanup_thresholds" where
  "cleanup_thresholds_default =
     \<lparr>cleanup_thresholds_disk_usage_percent = 80,
     cleanup_thresholds_age_threshold_hours = 168,
     cleanup_thresholds_size_threshold_mb = 1024\<rparr>"

definition validate_cleanup_thresholds :: "cleanup_thresholds \<Rightarrow> verrors" where
  "validate_cleanup_thresholds c =
     field ''disk_usage_percent'' (in_range 50 95 (cleanup_thresholds_disk_usage_percent c)) (range_error ''50'' ''95'') @
     field ''age_threshold_hours'' (in_range 1 8760 (cleanup_thresholds_age_threshold_hours c)) (range_error ''1'' ''8760'') @
     field ''size_threshold_mb'' (in_range 1 102400 (cleanup_thresholds_size_threshold_mb c)) (range_error ''1'' ''102400'')"

record cleanup_config =
  cleanup_enabled :: bool
  cleanup_cleanup_types :: "cleanup_type list"
  cleanup_thresholds :: cleanup_thresholds

definition cleanup_config_default :: "cleanup_config" where
  "cleanup_config_default =
     \<lparr>cleanup_enabled = True,
     cleanup_cleanup_types = [CleanupType_ExpiredMessages, CleanupType_OldMetrics, CleanupType_TempFiles],
     cleanup_thresholds = cleanup_thresholds_default\<rparr>"

definition validate_cleanup_config :: "cleanup_config \<Rightarrow> verrors" where
  "validate_cleanup_config c =
     nested ''thresholds'' (validate_cleanup_thresholds (cleanup_thresholds c))"

datatype compaction_strategy =
  CompactionStrategy_None | CompactionStrategy_SizeTiered |
  CompactionStrategy_LeveledCompaction | CompactionStrategy_Universal

definition compaction_strategy_default :: compaction_strategy where
  "compaction_strategy_default = CompactionStrategy_LeveledCompaction"

datatype compaction_trigger =
  CompactionTrigger_SizeThreshold | CompactionTrigger_FragmentationRatio |
  CompactionTrigger_TimeInterval | CompactionTrigger_Manual

record compaction_settings =
  compaction_max_parallel_compactions :: u32
  compaction_size_threshold_mb :: u64
  compaction_fragmentation_threshold :: rat
  compaction_interval_hours :: u64

definition compaction_settings_default :: "compaction_settings" where
  "compaction_settings_default =
     \<lparr>compaction_max_parallel_compactions = 2, compaction_size_threshold_mb = 100,
     compaction_fragmentation_threshold = 3 / 10, compaction_interval_hours = 24\<rparr>"

definition validate_compaction_settings :: "compaction_settings \<Rightarrow> verrors" where
  "validate_compaction_settings c =
     field ''max_parallel_compactions'' (in_range 1 16 (compaction_max_parallel_compactions c)) (range_error ''1'' ''16'') @
     field ''size_threshold_mb'' (in_range 1 10240 (compaction_size_threshold_mb c)) (range_error ''1'' ''10240'') @
     field ''fragmentation_threshold'' (in_range (1 / 10) (9 / 10) (compaction_fragmentation_threshold c)) (range_error ''0.1'' ''0.9'') @
     field ''interval_hours'' (in_range 1 168 (compaction_interval_hours c)) (range_error ''1'' ''168'')"

record compaction_config =
  compaction_enabled :: bool
  compaction_strategy :: compaction_strategy
  compaction_triggers :: "compaction_trigger list"
  compaction_settings :: compaction_settings

definition compaction_config_default :: "compaction_config" where
  "compaction_config_default =
     \<lparr>compaction_enabled = True,
     compaction_strategy = CompactionStrategy_LeveledCompaction,
     compaction_triggers = [CompactionTrigger_SizeThreshold, CompactionTrigger_FragmentationRatio],
     compaction_settings = compaction_settings_default\<rparr>"

definition validate_compaction_config :: "compaction_config \<Rightarrow> verrors" where
  "validate_compaction_config c =
     nested ''settings'' (validate_compaction_settings (compaction_settings c))"

record maintenance_config =
  maintenance_enabled :: bool
  maintenance_window :: maintenance_window
  maintenance_cleanup :: cleanup_config
  maintenance_compaction :: compaction_config

definition maintenance_config_default :: "maintenance_config" where
  "maintenance_config_default =
     \<lparr>maintenance_enabled = False, maintenance_window = maintenance_window_default,
     maintenance_cleanup = cleanup_config_default,
     maintenance_compaction = compaction_config_default\<rparr>"

definition validate_maintenance_config :: "maintenance_config \<Rightarrow> verrors" where
  "validate_maintenance_config c =
     nested ''window'' (validate_maintenance_window (maintenance_window c)) @
     nested ''cleanup'' (validate_cleanup_config (maintenance_cleanup c)) @
     nested ''compaction'' (validate_compaction_config (maintenance_compaction c))"

record runtime_config =
  runtime_storage :: storage_config
  runtime_memory_pool :: memory_pool_config
  runtime_thread_pool :: thread_pool_config
  runtime_resource_limits :: resource_limits_config
  runtime_gc :: gc_config
  runtime_maintenance :: maintenance_config

definition runtime_config_default :: "usize \<Rightarrow> runtime_config" where
  "runtime_config_default cpus =
     \<lparr>runtime_storage = storage_config_default,
     runtime_memory_pool = memory_pool_config_default,
     runtime_thread_pool = thread_pool_config_default cpus,
     runtime_resource_limits = resource_limits_config_default, runtime_gc = gc_config_default,
     runtime_maintenance = maintenance_config_default\<rparr>"

definition validate_runtime_config :: "runtime_config \<Rightarrow> verrors" where
  "validate_runtime_config c =
     nested ''storage'' (validate_storage_config (runtime_storage c)) @
     nested ''memory_pool'' (validate_memory_pool_config (runtime_memory_pool c)) @
     nested ''thread_pool'' (validate_thread_pool_config (runtime_thread_pool c)) @
     nested ''resource_limits'' (validate_resource_limits_config (runtime_resource_limits c)) @
     nested ''gc'' (validate_gc_config (runtime_gc c)) @
     nested ''maintenance'' (validate_maintenance_config (runtime_maintenance c))"

section \<open>Defaults\<close>

lemmas config_runtime_defs [schema_defs] =
  schema_wal_config_default_def validate_schema_wal_config_def
  storage_compression_config_default_def validate_storage_compression_config_def
  backup_retention_policy_default_def validate_backup_retention_policy_def
  backup_compression_config_default_def validate_backup_compression_config_def
  backup_encryption_config_default_def validate_backup_encryption_config_def
  backup_config_default_def validate_backup_config_def storage_cleanup_config_default_def
  validate_storage_cleanup_config_def storage_config_default_def validate_storage_config_def
  memory_pool_config_default_def validate_memory_pool_config_def thread_pool_config_default_def
  validate_thread_pool_config_def memory_pressure_config_default_def
  validate_memory_pressure_config_def resource_limits_config_default_def
  validate_resource_limits_config_def gc_config_default_def validate_gc_config_def
  maintenance_window_default_def validate_maintenance_window_def cleanup_thresholds_default_def
  validate_cleanup_thresholds_def cleanup_config_default_def validate_cleanup_config_def
  compaction_settings_default_def validate_compaction_settings_def compaction_config_default_def
  validate_compaction_config_def maintenance_config_default_def validate_maintenance_config_def
  runtime_config_default_def validate_runtime_config_def

lemma runtime_default_errors:
  assumes "1 \<le> cpus" and "cpus \<le> 128"
  shows "validate_runtime_config (runtime_config_default cpus) =
    [(''storage'', VStruct [(''backup'', VStruct [(''encryption'',
       VStruct [(''key'', VField [length_error ''32'' ''512''])])])])]"
  using assms by (simp add: schema_defs in_range_def len_in_def nested_def field_def)

end
