(* ===== verification/Config_Validator.thy ===== *)
theory Config_Validator
  imports Config_Telemetry Config_Runtime
begin

text \<open>
  The configuration as a whole (\<^verbatim>\<open>src/kaelix-core/src/config/schema.rs\<close>) and its validator
  (\<^verbatim>\<open>validator.rs\<close>): the derived validation of the schema first, then one check per part, each with its
  early returns. The error of parsing a socket address, the recognition of URLs, the text of a validation's errors and
  whether warnings are recorded are arguments; a recorded warning evaluates its operands, so that a
  division in one can panic.
\<close>

section \<open>The whole configuration\<close>

record memory_streamer_config =
  ms_network :: net_config
  ms_security :: security_config
  ms_telemetry :: telemetry_config
  ms_runtime :: runtime_config

definition memory_streamer_config_default :: "usize \<Rightarrow> memory_streamer_config" where
  "memory_streamer_config_default cpus =
     \<lparr>ms_network = net_config_default, ms_security = security_config_default,
     ms_telemetry = telemetry_config_default, ms_runtime = runtime_config_default cpus\<rparr>"

definition validate_memory_streamer_config ::
  "(string \<Rightarrow> bool) \<Rightarrow> memory_streamer_config \<Rightarrow> verrors" where
  "validate_memory_streamer_config is_url c =
     nested ''network'' (validate_net_config (ms_network c)) @
     nested ''security'' (validate_security_config is_url (ms_security c)) @
     nested ''telemetry'' (validate_telemetry_config is_url (ms_telemetry c)) @
     nested ''runtime'' (validate_runtime_config (ms_runtime c))"

datatype authentication_method =
  AuthenticationMethod_None | AuthenticationMethod_Token | AuthenticationMethod_Jwt |
  AuthenticationMethod_OAuth2 | AuthenticationMethod_Saml | AuthenticationMethod_OpenIdConnect |
  AuthenticationMethod_Ldap | AuthenticationMethod_Custom string "(string, string) hash_map"

record validation_context =
  vctx_cpu_cores :: usize
  vctx_available_memory_mb :: u64
  vctx_available_disk_space_mb :: u64
  vctx_os :: string
  vctx_arch :: string

definition validation_context_detect :: "usize \<Rightarrow> string \<Rightarrow> string \<Rightarrow> validation_context" where
  "validation_context_detect cpus os arch =
     \<lparr>vctx_cpu_cores = cpus, vctx_available_memory_mb = 8192, vctx_available_disk_space_mb = 102400,
     vctx_os = os, vctx_arch = arch\<rparr>"

section \<open>The validator\<close>

datatype config_error = Configuration string

definition bind_addr :: "net_config \<Rightarrow> string" where
  "bind_addr n = net_host n @ '':'' @ decimal (unat (net_port n))"

definition validator_network ::
  "(string \<Rightarrow> string option) \<Rightarrow> memory_streamer_config \<Rightarrow> (unit, config_error) result" where
  "validator_network addr_error c = (let n = ms_network c in
     case addr_error (bind_addr n) of
       Some e \<Rightarrow> Err (Configuration (''Invalid bind address '' @ bind_addr n @ '': '' @ e))
     | None \<Rightarrow>
     if net_max_connections n = 0
     then Err (Configuration ''Maximum connections must be greater than 0'')
     else if net_read_timeout_ms n = 0 \<or> net_write_timeout_ms n = 0
     then Err (Configuration ''Network timeouts must be greater than 0'')
     else Ok ())"

definition config_workers :: "validation_context \<Rightarrow> memory_streamer_config \<Rightarrow> usize" where
  "config_workers ctx c =
     (case performance_monitoring_worker_threads (telemetry_performance (ms_telemetry c)) of
        Some w \<Rightarrow> w | None \<Rightarrow> vctx_cpu_cores ctx)"

definition estimate_memory_usage :: "validation_context \<Rightarrow> memory_streamer_config \<Rightarrow> u64" where
  "estimate_memory_usage ctx c =
     (let worker_threads = word_of_nat (config_workers ctx c) :: u64;
          buffer_size_kb = word_of_nat (performance_monitoring_buffer_size
                             (telemetry_performance (ms_telemetry c))) div 1024;
          max_connections = word_of_nat (net_max_connections (ms_network c)) :: u64;
          worker_memory = worker_threads * buffer_size_kb div 1024;
          connection_memory = max_connections * 64 div 1024
      in worker_memory + connection_memory + 100)"

definition validator_performance ::
  "bool \<Rightarrow> validation_context \<Rightarrow> memory_streamer_config \<Rightarrow> (unit, config_error) result" where
  "validator_performance warn_enabled ctx c =
     (let p = telemetry_performance (ms_telemetry c) in
      if config_workers ctx c = 0
      then Err (Configuration ''Worker threads must be greater than 0'')
      else if performance_monitoring_buffer_size p = 0
      then Err (Configuration ''Buffer size must be greater than 0'')
      else if performance_monitoring_batch_size p
                > word_of_nat (performance_monitoring_buffer_size p)
      then Err (Configuration ''Batch size cannot exceed buffer size'')
      else if estimate_memory_usage ctx c > vctx_available_memory_mb ctx * 80 div 100
              \<and> warn_enabled \<and> vctx_available_memory_mb ctx = 0
      then Panic
      else Ok ())"

definition validator_security :: "memory_streamer_config \<Rightarrow> (unit, config_error) result" where
  "validator_security c =
     (let tls = security_tls (ms_security c); auth = security_authentication (ms_security c);
          rl = security_rate_limiting (ms_security c) in
      if tls_enabled tls \<and> tls_cert_path tls = []
      then Err (Configuration ''TLS certificate path cannot be empty when TLS is enabled'')
      else if tls_enabled tls \<and> tls_key_path tls = []
      then Err (Configuration ''TLS key path cannot be empty when TLS is enabled'')
      else if authentication_enabled auth
              \<and> authentication_method auth \<notin> {''token'', ''jwt'', ''oauth''}
      then Err (Configuration (''Unsupported authentication method: '' @ authentication_method auth))
      else if rate_limiting_enabled rl \<and> rate_limiting_requests_per_second rl = 0
      then Err (Configuration ''Rate limit requests per second must be greater than 0'')
      else if rate_limiting_enabled rl \<and> rate_limiting_burst_size rl = 0
      then Err (Configuration ''Rate limit burst size must be greater than 0'')
      else Ok ())"

definition validator_telemetry :: "memory_streamer_config \<Rightarrow> (unit, config_error) result" where
  "validator_telemetry c =
     (let t = ms_telemetry c; m = telemetry_metrics t; prom = metrics_prometheus m in
      if metrics_enabled m \<and> prometheus_enabled prom \<and> prometheus_port prom = net_port (ms_network c)
      then Err (Configuration ''Metrics port cannot be the same as the main service port'')
      else if tracing_enabled (telemetry_tracing t)
              \<and> jaeger_endpoint (tracing_jaeger (telemetry_tracing t)) = []
      then Err (Configuration ''Jaeger endpoint cannot be empty when tracing is enabled'')
      else if logging_max_file_size_mb (telemetry_logging t) = 0
      then Err (Configuration ''Log file max size must be greater than 0'')
      else if logging_max_files (telemetry_logging t) = 0
      then Err (Configuration ''Max log files must be greater than 0'')
      else Ok ())"

definition validator_storage :: "memory_streamer_config \<Rightarrow> (unit, config_error) result" where
  "validator_storage c =
     (let s = runtime_storage (ms_runtime c) in
      if storage_data_dir s = [] then Err (Configuration ''Data directory cannot be empty'')
      else if storage_retention_hours s = 0
      then Err (Configuration ''Retention hours must be greater than 0'')
      else if storage_compression_enabled (storage_compression s)
              \<and> storage_compression_level (storage_compression s) > 9
      then Err (Configuration ''Compression level cannot exceed 9'')
      else Ok ())"

definition validator_integration :: "memory_streamer_config \<Rightarrow> (unit, config_error) result" where
  "validator_integration c =
     (let b = protocol_batching (net_protocol (ms_network c)) in
      if batching_enabled b
         \<and> batching_max_batch_size b * 1024 > word_of_nat (net_max_frame_size (ms_network c))
      then Err (Configuration ''Maximum batch size may exceed network frame size limits'')
      else Ok ())"

definition validate_config ::
  "(string \<Rightarrow> bool) \<Rightarrow> (verrors \<Rightarrow> string) \<Rightarrow> (string \<Rightarrow> string option) \<Rightarrow> bool \<Rightarrow> validation_context
     \<Rightarrow> memory_streamer_config \<Rightarrow> (unit, config_error) result" where
  "validate_config is_url show_errors addr_error warn_enabled ctx c =
     (let es = validate_memory_streamer_config is_url c in
      if es \<noteq> [] then Err (Configuration (''Validation failed: '' @ show_errors es))
      else and_then (validator_network addr_error c) (\<lambda>_.
           and_then (validator_performance warn_enabled ctx c) (\<lambda>_.
           and_then (validator_security c) (\<lambda>_.
           and_then (validator_telemetry c) (\<lambda>_.
           and_then (validator_storage c) (\<lambda>_. validator_integration c))))))"

definition validate_environment_compatibility ::
  "validation_context \<Rightarrow> memory_streamer_config \<Rightarrow> string list" where
  "validate_environment_compatibility ctx c =
     (if estimate_memory_usage ctx c > vctx_available_memory_mb ctx
      then [''Configuration requires '' @ decimal (unat (estimate_memory_usage ctx c))
              @ ''MB but only '' @ decimal (unat (vctx_available_memory_mb ctx)) @ ''MB available'']
      else []) @
     (if config_workers ctx c > vctx_cpu_cores ctx
      then [''Configuration requires '' @ decimal (config_workers ctx c)
              @ '' worker threads but only '' @ decimal (vctx_cpu_cores ctx) @ '' CPU cores available'']
      else []) @
     (if storage_enabled (runtime_storage (ms_runtime c))
      then [''Disk space validation not implemented''] else [])"

definition validate_port :: "u16 \<Rightarrow> (unit, string) result" where
  "validate_port port = (if port = 0 then Err ''port_zero'' else Ok ())"

definition whitespace :: "char \<Rightarrow> bool" where
  "whitespace ch \<longleftrightarrow> (let n = of_char ch :: nat in 9 \<le> n \<and> n \<le> 13 \<or> n \<in> {32, 133, 160})"

definition validate_non_empty_path :: "string \<Rightarrow> (unit, string) result" where
  "validate_non_empty_path path = (if \<forall>ch \<in> set path. whitespace ch then Err ''empty_path'' else Ok ())"

definition validate_memory_size :: "u64 \<Rightarrow> (unit, string) result" where
  "validate_memory_size n =
     (if n = 0 then Err ''zero_memory''
      else if n > 1024 * 1024 * 1024 * 100 then Err ''excessive_memory'' else Ok ())"

definition format_error :: "verror \<Rightarrow> string" where
  "format_error e = (let lo = map_of (ve_params e) ''min''; hi = map_of (ve_params e) ''max'' in
     if ve_code e = ''port_zero'' then ''Port cannot be zero''
     else if ve_code e = ''empty_path'' then ''Path cannot be empty''
     else if ve_code e = ''zero_memory'' then ''Memory size must be greater than zero''
     else if ve_code e = ''excessive_memory'' then ''Memory size is too large''
     else if ve_code e = ''length'' then
       (case (lo, hi) of (Some a, _) \<Rightarrow> ''Value must be at least '' @ a @ '' characters''
        | (None, Some b) \<Rightarrow> ''Value must be at most '' @ b @ '' characters''
        | (None, None) \<Rightarrow> ''Invalid length'')
     else if ve_code e = ''range'' then
       (case (lo, hi) of (Some a, Some b) \<Rightarrow> ''Value must be between '' @ a @ '' and '' @ b
        | (Some a, None) \<Rightarrow> ''Value must be at least '' @ a
        | (None, Some b) \<Rightarrow> ''Value must be at most '' @ b
        | (None, None) \<Rightarrow> ''Value out of range'')
     else ''Invalid value'')"

definition format_validation_errors :: "verrors \<Rightarrow> string list" where
  "format_validation_errors es =
     concat (map (\<lambda>(_, k). case k of VField fs \<Rightarrow> map format_error fs | VStruct _ \<Rightarrow> []) es)"

section \<open>What the schema already guarantees\<close>

lemma worker_range: "in_range (1::nat) 64 w \<Longrightarrow> w \<noteq> 0"
  by (simp add: in_range_def)

lemma len_in_nonempty: "len_in (Suc lo) hi s \<Longrightarrow> s \<noteq> []"
  by (auto simp: len_in_def in_range_def)

lemma schema_network:
  assumes "validate_net_config n = []"
  shows "net_max_connections n \<noteq> 0" and "net_read_timeout_ms n \<noteq> 0" and "net_write_timeout_ms n \<noteq> 0"
    and "net_max_frame_size n \<le> 67108864"
    and "batching_max_batch_size (protocol_batching (net_protocol n)) \<le> 10000"
  using assms
  by (auto simp: validate_net_config_def validate_protocol_config_def validate_batching_settings_def in_range_def)

lemma schema_security:
  assumes "validate_security_config is_url s = []"
  shows "tls_cert_path (security_tls s) \<noteq> []" and "tls_key_path (security_tls s) \<noteq> []"
    and "rate_limiting_requests_per_second (security_rate_limiting s) \<noteq> 0"
    and "rate_limiting_burst_size (security_rate_limiting s) \<noteq> 0"
  using assms
  by (auto simp: validate_security_config_def validate_tls_config_def validate_rate_limiting_config_def
      in_range_def len_in_def)

lemma schema_telemetry:
  assumes "validate_telemetry_config is_url t = []"
  shows "jaeger_endpoint (tracing_jaeger (telemetry_tracing t)) \<noteq> []"
    and "logging_max_file_size_mb (telemetry_logging t) \<noteq> 0"
    and "logging_max_files (telemetry_logging t) \<noteq> 0"
    and "performance_monitoring_worker_threads (telemetry_performance t) \<noteq> Some 0"
    and "1024 \<le> performance_monitoring_buffer_size (telemetry_performance t)"
    and "performance_monitoring_buffer_size (telemetry_performance t) \<le> 16777216"
    and "performance_monitoring_batch_size (telemetry_performance t) \<le> 1000"
  using assms
  by (auto simp: validate_telemetry_config_def validate_tracing_config_def validate_jaeger_config_def
      validate_logging_config_def validate_performance_monitoring_config_def in_range_def len_in_def
      opt_all_def)

lemma schema_runtime:
  assumes "validate_runtime_config r = []"
  shows "storage_data_dir (runtime_storage r) \<noteq> []" and "storage_retention_hours (runtime_storage r) \<noteq> 0"
    and "storage_compression_level (storage_compression (runtime_storage r)) \<le> 9"
  using assms
  by (auto simp: validate_runtime_config_def validate_storage_config_def validate_storage_compression_config_def
      in_range_def len_in_def)

lemma schema_parts:
  assumes "validate_memory_streamer_config is_url c = []"
  shows "validate_net_config (ms_network c) = []" and "validate_security_config is_url (ms_security c) = []"
    and "validate_telemetry_config is_url (ms_telemetry c) = []" and "validate_runtime_config (ms_runtime c) = []"
  using assms by (simp_all add: validate_memory_streamer_config_def)

section \<open>The checks after the schema's\<close>

lemma batch_times_1024:
  fixes b :: u32
  assumes "b \<le> 10000" and "frame \<le> 67108864"
  shows "(b * 1024 > word_of_nat frame) \<longleftrightarrow> unat b * 1024 > frame"
proof -
  have "unat b \<le> 10000" using assms(1) by (simp add: word_le_nat_alt)
  then have "unat (b * 1024) = unat b * 1024" by (simp add: unat_word_ariths)
  moreover have "unat (word_of_nat frame :: u32) = frame"
    using assms(2) by (simp add: unat_of_nat)
  ultimately show ?thesis by (simp add: word_less_nat_alt)
qed

lemma batch_fits_buffer:
  fixes b :: u32
  assumes "b \<le> 1000" and "1024 \<le> buf" and "buf \<le> 16777216"
  shows "b \<le> word_of_nat buf"
proof -
  have "unat b \<le> 1000" using assms(1) by (simp add: word_le_nat_alt)
  moreover have "unat (word_of_nat buf :: u32) = buf" using assms(3) by (simp add: unat_of_nat)
  ultimately show ?thesis using assms(2) by (simp add: word_le_nat_alt)
qed

lemma validator_network_ok:
  assumes "validate_net_config (ms_network c) = []" and "addr_error (bind_addr (ms_network c)) = None"
  shows "validator_network addr_error c = Ok ()"
  using assms(2) schema_network [OF assms(1)] by (simp add: validator_network_def Let_def)

text \<open>The estimate is never 0: its two products may wrap, but both are divided by 1024 before they are added.\<close>

lemma estimate_positive: "0 < estimate_memory_usage ctx c"
proof -
  have small: "unat (x div 1024 :: u64) < 2 ^ 54" for x
    using unsigned_less [of x, where ?'a = nat] by (simp add: unat_div less_mult_imp_div_less)
  have pos: "0 < a div 1024 + b div 1024 + 100" for a b :: u64
  proof -
    have "unat (a div 1024 + b div 1024) = unat (a div 1024) + unat (b div 1024)"
      using small [of a] small [of b] by (simp add: unat_word_ariths)
    then have "unat (a div 1024 + b div 1024 + 100) = unat (a div 1024) + unat (b div 1024) + 100"
      using small [of a] small [of b] by (simp add: unat_word_ariths)
    then show ?thesis by (simp add: word_less_nat_alt)
  qed
  show ?thesis unfolding estimate_memory_usage_def Let_def by (rule pos)
qed

lemma validator_performance_verdict:
  assumes "validate_telemetry_config is_url (ms_telemetry c) = []"
  shows "validator_performance warn_enabled ctx c =
    (if config_workers ctx c = 0 then Err (Configuration ''Worker threads must be greater than 0'')
     else if warn_enabled \<and> vctx_available_memory_mb ctx = 0 then Panic else Ok ())"
  using estimate_positive [of ctx c] schema_telemetry(5-7) [OF assms] batch_fits_buffer [OF schema_telemetry(7,5,6) [OF assms]]
  by (auto simp: validator_performance_def Let_def)

lemma validator_security_verdict:
  assumes "validate_security_config is_url (ms_security c) = []"
  shows "validator_security c = (let auth = security_authentication (ms_security c) in
     if authentication_enabled auth \<and> authentication_method auth \<notin> {''token'', ''jwt'', ''oauth''}
     then Err (Configuration (''Unsupported authentication method: '' @ authentication_method auth)) else Ok ())"
  using schema_security [OF assms] by (simp add: validator_security_def Let_def)

lemma validator_telemetry_verdict:
  assumes "validate_telemetry_config is_url (ms_telemetry c) = []"
  shows "validator_telemetry c = (let m = telemetry_metrics (ms_telemetry c) in
     if metrics_enabled m \<and> prometheus_enabled (metrics_prometheus m)
        \<and> prometheus_port (metrics_prometheus m) = net_port (ms_network c)
     then Err (Configuration ''Metrics port cannot be the same as the main service port'') else Ok ())"
  using schema_telemetry(1-3) [OF assms] by (simp add: validator_telemetry_def Let_def)

lemma validator_storage_ok:
  assumes "validate_runtime_config (ms_runtime c) = []"
  shows "validator_storage c = Ok ()"
  using schema_runtime [OF assms] by (auto simp: validator_storage_def Let_def not_less)

lemma validator_integration_verdict:
  assumes "validate_net_config (ms_network c) = []"
  shows "validator_integration c = (let b = protocol_batching (net_protocol (ms_network c)) in
     if batching_enabled b \<and> unat (batching_max_batch_size b) * 1024 > net_max_frame_size (ms_network c)
     then Err (Configuration ''Maximum batch size may exceed network frame size limits'') else Ok ())"
  using batch_times_1024 [OF schema_network(5,4) [OF assms]] by (simp add: validator_integration_def Let_def)

lemmas validator_verdicts =
  validator_network_ok validator_performance_verdict validator_security_verdict validator_telemetry_verdict
  validator_storage_ok validator_integration_verdict

lemma validator_network_fails:
  assumes "addr_error (bind_addr (ms_network c)) = Some e"
  shows "validator_network addr_error c =
    Err (Configuration (''Invalid bind address '' @ bind_addr (ms_network c) @ '': '' @ e))"
  using assms by (simp add: validator_network_def Let_def)

section \<open>Properties of the validator\<close>

definition checks_that_decide ::
  "(string \<Rightarrow> string option) \<Rightarrow> validation_context \<Rightarrow> memory_streamer_config \<Rightarrow> (unit, config_error) result" where
  "checks_that_decide addr_error ctx c =
     (let n = ms_network c; auth = security_authentication (ms_security c);
          m = telemetry_metrics (ms_telemetry c); b = protocol_batching (net_protocol n) in
      case addr_error (bind_addr n) of
        Some e \<Rightarrow> Err (Configuration (''Invalid bind address '' @ bind_addr n @ '': '' @ e))
      | None \<Rightarrow>
      if config_workers ctx c = 0 then Err (Configuration ''Worker threads must be greater than 0'')
      else if authentication_enabled auth \<and> authentication_method auth \<notin> {''token'', ''jwt'', ''oauth''}
      then Err (Configuration (''Unsupported authentication method: '' @ authentication_method auth))
      else if metrics_enabled m \<and> prometheus_enabled (metrics_prometheus m)
              \<and> prometheus_port (metrics_prometheus m) = net_port n
      then Err (Configuration ''Metrics port cannot be the same as the main service port'')
      else if batching_enabled b \<and> unat (batching_max_batch_size b) * 1024 > net_max_frame_size n
      then Err (Configuration ''Maximum batch size may exceed network frame size limits'')
      else Ok ())"

lemma validator_runs:
  "validate_config is_url show_errors addr_error warn_enabled ctx c =
    (if validate_memory_streamer_config is_url c \<noteq> []
     then Err (Configuration (''Validation failed: '' @ show_errors (validate_memory_streamer_config is_url c)))
     else if addr_error (bind_addr (ms_network c)) = None \<and> config_workers ctx c \<noteq> 0
        \<and> warn_enabled \<and> vctx_available_memory_mb ctx = 0 then Panic
     else checks_that_decide addr_error ctx c)"
proof (cases "validate_memory_streamer_config is_url c = []")
  case True
  note parts = schema_parts [OF True]
  show ?thesis
  proof (cases "addr_error (bind_addr (ms_network c))")
    case None
    with True parts show ?thesis
      by (simp add: validate_config_def checks_that_decide_def validator_verdicts Let_def)
  next
    case (Some e)
    with True show ?thesis
      by (simp add: validate_config_def checks_that_decide_def validator_network_fails Let_def)
  qed
qed (simp add: validate_config_def Let_def)

lemma validator_checks:
  assumes "vctx_available_memory_mb ctx \<noteq> 0"
  shows "validate_config is_url show_errors addr_error warn_enabled ctx c =
    (if validate_memory_streamer_config is_url c \<noteq> []
     then Err (Configuration (''Validation failed: '' @ show_errors (validate_memory_streamer_config is_url c)))
     else checks_that_decide addr_error ctx c)"
  using assms by (simp add: validator_runs)

text \<open>
  C34: The verdict of the validator on every configuration and in every context. Once the attributes of the
  schema hold, five of its nineteen checks can still fail, and the verdict is the one of these five in order,
  with the sizes compared as numbers although the code multiplies and truncates them to 32 bits. The
  exception is a context that reports no memory while warnings are logged: there a configuration whose
  address is valid and which has workers makes the memory warning divide by zero, and the validator panics.
\<close>

theorem validator_verdict:
  "validate_config is_url show_errors addr_error warn_enabled ctx c =
    (if validate_memory_streamer_config is_url c \<noteq> []
     then Err (Configuration (''Validation failed: '' @ show_errors (validate_memory_streamer_config is_url c)))
     else if addr_error (bind_addr (ms_network c)) = None \<and> config_workers ctx c \<noteq> 0
        \<and> warn_enabled \<and> vctx_available_memory_mb ctx = 0 then Panic
     else checks_that_decide addr_error ctx c)"
  by (rule validator_runs)

definition sample_streamer_config :: "usize \<Rightarrow> memory_streamer_config" where
  "sample_streamer_config cpus =
     \<lparr>ms_network = net_config_default,
      ms_security = security_config_default\<lparr>security_tls := tls_config_default
        \<lparr>tls_cert_path := ''cert.pem'', tls_key_path := ''key.pem''\<rparr>\<rparr>,
      ms_telemetry = telemetry_config_default,
      ms_runtime = (runtime_config_default cpus)\<lparr>runtime_storage := storage_config_default
        \<lparr>storage_backup := backup_config_default\<lparr>backup_encryption := backup_encryption_config_default
          \<lparr>backup_encryption_key := replicate 32 (CHR ''k'')\<rparr>\<rparr>\<rparr>\<rparr>\<rparr>"

lemma sample_config_valid: "validate_memory_streamer_config is_url (sample_streamer_config 8) = []"
proof -
  have "validate_security_config is_url (ms_security (sample_streamer_config 8)) = []"
    by (simp add: sample_streamer_config_def schema_defs in_range_def len_in_def)
  moreover have "validate_runtime_config (ms_runtime (sample_streamer_config 8)) = []"
    by (simp add: sample_streamer_config_def schema_defs in_range_def len_in_def)
  ultimately show ?thesis
    by (simp add: validate_memory_streamer_config_def telemetry_default_ok net_default_ok sample_streamer_config_def)
qed

theorem validator_verdict_witness:
  "validate_config (\<lambda>_. False) (\<lambda>_. ''errors'') (\<lambda>_. None) True (validation_context_detect 8 ''linux'' ''x86_64'')
     (sample_streamer_config 8) = Ok ()"
proof -
  have "checks_that_decide (\<lambda>_. None) (validation_context_detect 8 ''linux'' ''x86_64'') (sample_streamer_config 8) = Ok ()"
    by (simp add: checks_that_decide_def sample_streamer_config_def config_workers_def validation_context_detect_def
        schema_defs)
  then show ?thesis using validator_verdict by (simp add: sample_config_valid validation_context_detect_def)
qed

lemma default_config_not_accepted:
  "\<exists>es. es \<noteq> [] \<and> validate_config is_url show_errors addr_error warn_enabled ctx (memory_streamer_config_default cpus)
         = Err (Configuration (''Validation failed: '' @ show_errors es))"
  by (rule exI [of _ "validate_memory_streamer_config is_url (memory_streamer_config_default cpus)"])
    (simp add: validate_config_def Let_def validate_memory_streamer_config_def memory_streamer_config_default_def
      security_default_errors)

text \<open>
  The default configuration is never accepted: TLS is off and backups are off, but the schema still
  asks for the paths of a certificate and of a key and for a backup key of 32 characters.
\<close>

theorem default_config_rejected:
  "\<exists>es. validate_config is_url show_errors addr_error warn_enabled ctx (memory_streamer_config_default cpus)
         = Err (Configuration (''Validation failed: '' @ show_errors es))
     \<and> (''security'', VStruct [(''tls'', VStruct [(''cert_path'', VField [length_error ''1'' ''512'']),
                                               (''key_path'', VField [length_error ''1'' ''512''])])]) \<in> set es"
proof -
  let ?es = "validate_memory_streamer_config is_url (memory_streamer_config_default cpus)"
  have "(''security'', VStruct [(''tls'', VStruct [(''cert_path'', VField [length_error ''1'' ''512'']),
          (''key_path'', VField [length_error ''1'' ''512''])])]) \<in> set ?es"
    by (simp add: validate_memory_streamer_config_def memory_streamer_config_default_def
        security_default_errors nested_def)
  moreover from this have "?es \<noteq> []" by auto
  ultimately show ?thesis by (auto simp: validate_config_def Let_def)
qed

lemma default_config_errors:
  assumes "1 \<le> cpus" and "cpus \<le> 128"
  shows "validate_memory_streamer_config is_url (memory_streamer_config_default cpus) =
    [(''security'', VStruct [(''tls'', VStruct [(''cert_path'', VField [length_error ''1'' ''512'']),
                                             (''key_path'', VField [length_error ''1'' ''512''])])]),
     (''runtime'', VStruct [(''storage'', VStruct [(''backup'', VStruct [(''encryption'',
       VStruct [(''key'', VField [length_error ''32'' ''512''])])])])])]"
  by (simp add: validate_memory_streamer_config_def memory_streamer_config_default_def net_default_ok
      telemetry_default_ok security_default_errors runtime_default_errors [OF assms])
    (simp add: nested_def)

text \<open>
  The formatter looks at the errors of the struct's own fields, and those of the configuration are all
  nested: it reports nothing, whatever is wrong.
\<close>

lemma formatter_is_silent: "format_validation_errors (validate_memory_streamer_config is_url c) = []"
  by (simp add: format_validation_errors_def validate_memory_streamer_config_def nested_def)

text \<open>A string that is too long is reported as too short when its attribute has both bounds.\<close>

lemma too_long_reported_as_too_short:
  "format_validation_errors (field ''version'' (len_in 1 10 ''1.0.0-alpha.1'') (length_error ''1'' ''10''))
     = [''Value must be at least 1 characters'']"
  by (simp add: format_validation_errors_def field_def len_in_def in_range_def format_error_def length_error_def)

text \<open>
  Without the schema's bounds the comparison of sizes wraps: a batch of four million messages passes
  against a frame of one kilobyte.
\<close>

lemma unchecked_batch_wraps:
  "validator_integration ((sample_streamer_config 8)\<lparr>ms_network := net_config_default
     \<lparr>net_max_frame_size := 1024, net_protocol := protocol_config_default
       \<lparr>protocol_batching := batching_settings_default\<lparr>batching_max_batch_size := 4194304\<rparr>\<rparr>\<rparr>\<rparr>) = Ok ()"
  by (simp add: validator_integration_def schema_defs)

text \<open>With no memory reported, the warning about memory divides by zero.\<close>

lemma no_memory_panics:
  "validate_config is_url show_errors (\<lambda>_. None) True
     ((validation_context_detect 8 os arch)\<lparr>vctx_available_memory_mb := 0\<rparr>) (sample_streamer_config 8) = Panic"
proof -
  have n: "validator_network (\<lambda>_. None) (sample_streamer_config 8) = Ok ()"
    by (simp add: sample_streamer_config_def validator_network_def schema_defs)
  have "validator_performance True ((validation_context_detect 8 os arch)\<lparr>vctx_available_memory_mb := 0\<rparr>)
     (sample_streamer_config 8) = Panic"
    by (simp add: validator_performance_def estimate_memory_usage_def config_workers_def sample_streamer_config_def
        validation_context_detect_def schema_defs)
  then show ?thesis by (simp add: validate_config_def Let_def sample_config_valid n)
qed

end
