(* ===== verification/Config_Toml.thy ===== *)
theory Config_Toml
  imports Prelude
begin

text \<open>
  TOML values as \<^verbatim>\<open>src/kaelix-core/src/config/loader.rs\<close> merges them and writes environment variables into
  them. A table is an association list with distinct keys. The type of floats and the parsing of a float
  are parameters. Names of environment variables are ASCII.
\<close>

section \<open>TOML values\<close>

datatype 'f toml =
  TString string | TInteger int | TFloat 'f | TBoolean bool | TDatetime string
| TArray "'f toml list" | TTable "(string \<times> 'f toml) list"

fun is_table :: "'f toml \<Rightarrow> bool" where
  "is_table (TTable _) = True"
| "is_table _ = False"

fun merge_config :: "'f toml \<Rightarrow> 'f toml \<Rightarrow> 'f toml"
and merge_entries :: "(string \<times> 'f toml) list \<Rightarrow> (string \<times> 'f toml) list \<Rightarrow> (string \<times> 'f toml) list" where
  "merge_config (TTable base) (TTable over) = TTable (merge_entries base over)"
| "merge_config base over = base"
| "merge_entries base [] = base"
| "merge_entries base ((key, value) # over) =
     merge_entries
       (hm_insert key
          (case hm_get base key of
             Some existing \<Rightarrow> if is_table existing \<and> is_table value then merge_config existing value else value
           | None \<Rightarrow> value) base)
       over"

section \<open>Environment variables\<close>

definition parse_bool :: "string \<Rightarrow> bool option" where
  "parse_bool s = (if s = ''true'' then Some True else if s = ''false'' then Some False else None)"

definition env_digit :: "char \<Rightarrow> bool" where
  "env_digit ch \<longleftrightarrow> 48 \<le> (of_char ch :: nat) \<and> (of_char ch :: nat) \<le> 57"

definition env_digits_value :: "string \<Rightarrow> int" where
  "env_digits_value ds = foldl (\<lambda>n ch. n * 10 + (of_char ch - 48)) 0 ds"

definition parse_i64 :: "string \<Rightarrow> int option" where
  "parse_i64 s =
     (let (neg, ds) = (case s of c # cs \<Rightarrow> if c = CHR ''-'' then (True, cs)
                                          else if c = CHR ''+'' then (False, cs) else (False, s)
                       | [] \<Rightarrow> (False, s));
          v = (if neg then - env_digits_value ds else env_digits_value ds)
      in if ds \<noteq> [] \<and> list_all env_digit ds \<and> - (2 ^ 63) \<le> v \<and> v < 2 ^ 63 then Some v else None)"

definition parse_env_value :: "(string \<Rightarrow> 'f option) \<Rightarrow> string \<Rightarrow> 'f toml" where
  "parse_env_value parse_f64 value =
     (case parse_bool value of Some b \<Rightarrow> TBoolean b | None \<Rightarrow>
      (case parse_i64 value of Some i \<Rightarrow> TInteger i | None \<Rightarrow>
       (case parse_f64 value of Some f \<Rightarrow> TFloat f | None \<Rightarrow> TString value)))"

fun set_nested_value :: "(string \<Rightarrow> 'f option) \<Rightarrow> 'f toml \<Rightarrow> string list \<Rightarrow> string \<Rightarrow> 'f toml" where
  "set_nested_value parse_f64 config [] value = config"
| "set_nested_value parse_f64 config [part] value =
     (case config of TTable table \<Rightarrow> TTable (hm_insert part (parse_env_value parse_f64 value) table)
      | _ \<Rightarrow> config)"
| "set_nested_value parse_f64 config (part # next_part # parts) value =
     (case config of
        TTable table \<Rightarrow>
          TTable (hm_insert part
            (set_nested_value parse_f64 (hm_get_or (TTable []) table part) (next_part # parts) value) table)
      | _ \<Rightarrow> config)"

fun split_dots :: "string \<Rightarrow> string list" where
  "split_dots [] = [[]]"
| "split_dots (c # cs) = (if c = CHR ''.'' then [] # split_dots cs
     else (case split_dots cs of p # ps \<Rightarrow> (c # p) # ps | [] \<Rightarrow> [[c]]))"

definition apply_env_var :: "(string \<Rightarrow> 'f option) \<Rightarrow> 'f toml \<Rightarrow> string \<times> string \<Rightarrow> 'f toml" where
  "apply_env_var parse_f64 config kv = set_nested_value parse_f64 config (split_dots (fst kv)) (snd kv)"

definition to_lowercase :: "char \<Rightarrow> char" where
  "to_lowercase ch = (let n = of_char ch :: nat in if 65 \<le> n \<and> n \<le> 90 then char_of (n + 32) else ch)"

definition config_key :: "string \<Rightarrow> string" where
  "config_key key = map (\<lambda>ch. if ch = CHR ''_'' then CHR ''.'' else ch) (map to_lowercase key)"

definition strip_env_prefix :: "string \<Rightarrow> string \<Rightarrow> string option" where
  "strip_env_prefix p s = (if take (length p) s = p then Some (drop (length p) s) else None)"

fun collect_env_vars :: "string \<Rightarrow> (string \<times> string) list \<Rightarrow> (string, string) hash_map \<Rightarrow> (string, string) hash_map" where
  "collect_env_vars prefix [] env_vars = env_vars"
| "collect_env_vars prefix ((key, value) # vars) env_vars =
     collect_env_vars prefix vars
       (case strip_env_prefix (prefix @ ''_'') key of
          Some rest \<Rightarrow> hm_insert (config_key rest) value env_vars | None \<Rightarrow> env_vars)"

definition apply_env_vars ::
  "(string \<Rightarrow> 'f option) \<Rightarrow> string \<Rightarrow> (string \<times> string) list \<Rightarrow> 'f toml \<Rightarrow> 'f toml" where
  "apply_env_vars parse_f64 prefix vars config =
     foldl (apply_env_var parse_f64) config (collect_env_vars prefix vars [])"

section \<open>Reading a merged value\<close>

fun toml_get :: "'f toml \<Rightarrow> string list \<Rightarrow> 'f toml option" where
  "toml_get v [] = Some v"
| "toml_get (TTable t) (p # ps) = (case hm_get t p of Some v \<Rightarrow> toml_get v ps | None \<Rightarrow> None)"
| "toml_get v (p # ps) = None"

fun toml_ok :: "'f toml \<Rightarrow> bool" where
  "toml_ok (TTable t) \<longleftrightarrow> hm_ok t \<and> (\<forall>(k, v) \<in> set t. toml_ok v)"
| "toml_ok (TArray vs) \<longleftrightarrow> (\<forall>v \<in> set vs. toml_ok v)"
| "toml_ok v \<longleftrightarrow> True"

definition overlay :: "'f toml option \<Rightarrow> 'f toml option \<Rightarrow> 'f toml option" where
  "overlay old new =
     (case (old, new) of
        (Some e, Some v) \<Rightarrow> Some (if is_table e \<and> is_table v then merge_config e v else v)
      | (None, Some v) \<Rightarrow> Some v
      | (old, None) \<Rightarrow> old)"

lemma toml_merge_entries_get:
  "hm_ok over \<Longrightarrow> hm_get (merge_entries base over) k = overlay (hm_get base k) (hm_get over k)"
proof (induction over arbitrary: base)
  case (Cons kv over)
  obtain key v where kv: "kv = (key, v)" by (cases kv)
  from Cons.prems kv have ok: "hm_ok over" and fresh: "hm_get over key = None"
    by (auto simp: hm_ok_def map_of_eq_None_iff)
  from Cons.IH [OF ok] fresh show ?case
    by (cases "k = key") (simp_all add: kv overlay_def split: option.split)
qed (simp add: overlay_def split: option.splits)

lemma merge_get:
  assumes "hm_ok over"
  shows "toml_get (merge_config (TTable base) (TTable over)) (k # ks) =
    (case overlay (hm_get base k) (hm_get over k) of Some v \<Rightarrow> toml_get v ks | None \<Rightarrow> None)"
  by (simp add: toml_merge_entries_get [OF assms])

lemma is_table_cases: "is_table v \<longleftrightarrow> (\<exists>t. v = TTable t)"
  by (cases v) auto

lemma toml_get_scalar: "\<not> is_table v \<Longrightarrow> toml_get v (p # ps) = None"
  by (cases v) auto

lemma toml_ok_entry: "toml_ok (TTable t) \<Longrightarrow> hm_get t k = Some v \<Longrightarrow> toml_ok v"
  by (auto dest!: map_of_SomeD)

lemma merge_override:
  assumes "toml_ok over" and "is_table base" and "is_table over"
    and "toml_get over path = Some v" and "\<not> is_table v"
  shows "toml_get (merge_config base over) path = Some v"
  using assms
proof (induction path arbitrary: base over)
  case (Cons k ks)
  then obtain b t where tabs: "base = TTable b" "over = TTable t" by (auto simp: is_table_cases)
  with Cons.prems obtain w where w: "hm_get t k = Some w" "toml_get w ks = Some v"
    by (auto split: option.splits)
  have ok: "toml_ok w" "hm_ok t" using Cons.prems(1) tabs toml_ok_entry [OF _ w(1)] by auto
  show ?case
    using Cons.IH [OF ok(1) _ _ w(2) Cons.prems(5)] w
    unfolding tabs merge_get [OF ok(2)] overlay_def by (simp split: option.split)
qed simp

lemma merge_untouched:
  assumes "toml_ok over" and "is_table base" and "is_table over" and "toml_get over path = None"
    and "\<And>n v. toml_get over (take n path) = Some v \<Longrightarrow> is_table v"
  shows "toml_get (merge_config base over) path = toml_get base path"
  using assms
proof (induction path arbitrary: base over)
  case (Cons k ks)
  then obtain b t where tabs: "base = TTable b" "over = TTable t" by (auto simp: is_table_cases)
  have ok: "hm_ok t" using Cons.prems(1) tabs by simp
  show ?case
  proof (cases "hm_get t k")
    case None
    then show ?thesis unfolding tabs merge_get [OF ok] overlay_def by (simp split: option.split)
  next
    case (Some w)
    have sub: "toml_get w (take n ks) = Some v \<Longrightarrow> is_table v" for n v
      using Cons.prems(5) [of "Suc n" v] tabs Some by simp
    have w: "toml_ok w" "is_table w" "toml_get w ks = None"
      using Cons.prems(1,4) tabs Some toml_ok_entry [OF _ Some] sub [of 0] by auto
    have "ks \<noteq> []" using w(3) by auto
    then have scalar: "toml_get x ks = None" if "\<not> is_table x" for x :: "'a toml"
      using toml_get_scalar [OF that] by (cases ks) auto
    show ?thesis
      using Cons.IH [OF w(1) _ w(2,3) sub] w scalar Some
      unfolding tabs merge_get [OF ok] overlay_def by (auto split: option.split)
  qed
qed simp

text \<open>
  Merging gives the overriding file precedence setting by setting: a value it has replaces the
  base's, and where it has nothing, neither at the path nor in place of a table on the way, the base's
  value stays, whatever else the two tables hold beside it.
\<close>

theorem merge_precedence:
  assumes "toml_ok over" and "is_table base" and "is_table over"
  shows "(\<forall>path v. toml_get over path = Some v \<and> \<not> is_table v
            \<longrightarrow> toml_get (merge_config base over) path = Some v)
       \<and> (\<forall>path. toml_get over path = None
            \<and> (\<forall>n v. toml_get over (take n path) = Some v \<longrightarrow> is_table v)
            \<longrightarrow> toml_get (merge_config base over) path = toml_get base path)"
  using merge_override [OF assms] merge_untouched [OF assms] by blast

theorem merge_precedence_witness:
  "toml_get (merge_config (TTable [(''network'', TTable [(''port'', TInteger 8080), (''host'', TString ''a'')])])
      (TTable [(''network'', TTable [(''port'', TInteger 9000)])] :: bool toml)) [''network'', ''port''] = Some (TInteger 9000)
   \<and> toml_get (merge_config (TTable [(''network'', TTable [(''port'', TInteger 8080), (''host'', TString ''a'')])])
      (TTable [(''network'', TTable [(''port'', TInteger 9000)])] :: bool toml)) [''network'', ''host''] = Some (TString ''a'')"
  (is "toml_get (merge_config ?base ?over) _ = _ \<and> _")
proof -
  have h: "toml_ok ?over" "is_table ?base" "is_table ?over" by (simp_all add: hm_ok_def)
  have "is_table v" if "toml_get ?over (take n [''network'', ''host'']) = Some v" for n v
    using that by (cases n; cases "n - 1") auto
  then show ?thesis using merge_precedence [OF h] by fastforce
qed

section \<open>What the environment can set\<close>

lemma split_dots_nonempty: "split_dots s \<noteq> []"
  by (induction s) (auto split: list.splits)

lemma split_dots_chars: "p \<in> set (split_dots s) \<Longrightarrow> set p \<subseteq> set s"
proof (induction s arbitrary: p)
  case (Cons c cs)
  then show ?case using split_dots_nonempty [of cs] by (fastforce split: if_splits list.splits)
qed auto

lemma config_key_chars: "CHR ''_'' \<notin> set (config_key key)"
  by (auto simp: config_key_def)

lemma env_parts_plain: "p \<in> set (split_dots (config_key key)) \<Longrightarrow> CHR ''_'' \<notin> set p"
  using split_dots_chars config_key_chars by blast

lemma parse_env_value_scalar: "\<not> is_table (parse_env_value parse_f64 v)"
  by (auto simp: parse_env_value_def split: option.splits)

lemma toml_get_env_value [simp]: "toml_get (parse_env_value parse_f64 v) (p # ps) = None"
  by (rule toml_get_scalar [OF parse_env_value_scalar])

definition underscored :: "string list \<Rightarrow> bool" where
  "underscored path \<longleftrightarrow> (\<exists>p \<in> set path. CHR ''_'' \<in> set p)"

lemma set_nested_underscored:
  assumes "underscored path" and "\<forall>p \<in> set parts. CHR ''_'' \<notin> set p"
  shows "toml_get (set_nested_value parse_f64 config parts v) path \<in> {toml_get config path, None}"
  using assms
proof (induction parse_f64 config parts v arbitrary: path rule: set_nested_value.induct)
  case (2 parse_f64 config part v)
  then obtain k ks where path: "path = k # ks" by (cases path) (auto simp: underscored_def)
  show ?case
  proof (cases "k = part")
    case True
    then obtain j js where "ks = j # js" using 2 path by (cases ks) (auto simp: underscored_def)
    then show ?thesis using path True by (simp split: toml.split)
  qed (auto simp: path split: toml.split)
next
  case (3 parse_f64 config part next_part parts v)
  then obtain k ks where path: "path = k # ks" by (cases path) (auto simp: underscored_def)
  show ?case
  proof (cases "k = part \<and> is_table config")
    case True
    then obtain t where t: "config = TTable t" by (auto simp: is_table_cases)
    have ks: "underscored ks" "ks \<noteq> []" using 3(2,3) path True by (auto simp: underscored_def)
    have "toml_get (TTable []) ks = (None :: 'a toml option)" using ks(2) by (cases ks) auto
    then show ?thesis using 3(1) [OF t ks(1)] 3(3) path True t
      by (auto simp: hm_get_or_def split: option.splits)
  qed (auto simp: path split: toml.split)
qed auto

lemma hm_insert_entry: "kv \<in> set (hm_insert k v m) \<Longrightarrow> kv = (k, v) \<or> kv \<in> set m"
  unfolding hm_insert_def by (induction m) (auto split: if_splits)

lemma collect_env_vars_keys:
  assumes "kv \<in> set (collect_env_vars prefix vars acc)"
  shows "kv \<in> set acc \<or> (\<exists>key. fst kv = config_key key)"
  using assms
proof (induction prefix vars acc rule: collect_env_vars.induct)
  case (2 pre key val vars acc)
  then show ?case
    using hm_insert_entry [of kv "config_key rest" for rest]
    by (fastforce split: option.splits)
qed simp

text \<open>
  A variable's name is split at every underscore, so a setting whose name has one is out of the
  environment's reach: whatever the variables are, such a setting keeps its value or disappears
  together with a table a variable overwrote.
\<close>

theorem environment_cannot_set_underscored:
  assumes "underscored path"
  shows "toml_get (apply_env_vars parse_f64 prefix vars config) path \<in> {toml_get config path, None}"
proof -
  have "toml_get (foldl (apply_env_var parse_f64) config kvs) path \<in> {toml_get config path, None}"
    if "\<forall>kv \<in> set kvs. \<exists>key. fst kv = config_key key" for kvs
    using that
  proof (induction kvs rule: rev_induct)
    case (snoc kv kvs)
    then obtain key where key: "fst kv = config_key key" by auto
    let ?before = "foldl (apply_env_var parse_f64) config kvs"
    have "\<forall>p \<in> set (split_dots (fst kv)). CHR ''_'' \<notin> set p"
      unfolding key using env_parts_plain by blast
    from set_nested_underscored [OF assms this]
    have "toml_get (apply_env_var parse_f64 ?before kv) path \<in> {toml_get ?before path, None}"
      by (simp only: apply_env_var_def)
    moreover have "toml_get ?before path \<in> {toml_get config path, None}" using snoc by simp
    ultimately show ?case by auto
  qed simp
  then show ?thesis using collect_env_vars_keys [of _ prefix vars "[]"]
    by (auto simp: apply_env_vars_def)
qed

theorem environment_cannot_set_underscored_witness:
  "toml_get (apply_env_vars (\<lambda>_. None :: bool option) ''KAELIX'' [(''KAELIX_NETWORK_MAX_CONNECTIONS'', ''5'')]
     (TTable [(''network'', TTable [(''max_connections'', TInteger 10000)])])) [''network'', ''max_connections'']
   \<in> {Some (TInteger 10000), None}"
  using environment_cannot_set_underscored [of "[''network'', ''max_connections'']" "\<lambda>_. None :: bool option" "''KAELIX''"
      "[(''KAELIX_NETWORK_MAX_CONNECTIONS'', ''5'')]" "TTable [(''network'', TTable [(''max_connections'', TInteger 10000)])]"]
  by (simp add: underscored_def)

lemma environment_sets_plain:
  "apply_env_vars (\<lambda>_. None :: bool option) ''KAELIX'' [(''HOME'', ''x''), (''KAELIX_NETWORK_PORT'', ''9000'')]
     (TTable [(''network'', TTable [(''port'', TInteger 8080)])])
   = TTable [(''network'', TTable [(''port'', TInteger 9000)])]"
  by code_simp

text \<open>The value of a variable that looks like a number is never a string, also where the setting is one.\<close>

lemma number_is_no_string:
  "parse_i64 v = Some i \<Longrightarrow> parse_env_value parse_f64 v \<noteq> TString s"
  by (auto simp: parse_env_value_def split: option.splits)

end
