(* ===== verification/Config_Loader.thy ===== *)
theory Config_Loader
  imports Config_Toml Config_Validator
begin

text \<open>
  The loader of \<^verbatim>\<open>src/kaelix-core/src/config/loader.rs\<close> and the reload manager of \<^verbatim>\<open>hot_reload.rs\<close>: the
  default configuration as a TOML value, a configuration file merged over it, environment variables
  written into the result, and the validation of what comes out. The file system, the environment, the
  TOML parser and the conversion between TOML and the configuration are arguments.
\<close>

section \<open>The loader\<close>

record config_loader =
  cl_search_paths :: "string list"
  cl_env_prefix :: string

definition config_loader_new :: "string option \<Rightarrow> config_loader" where
  "config_loader_new config_dir =
     \<lparr>cl_search_paths = [''.'', ''./config'', ''../config'', case config_dir of Some d \<Rightarrow> d | None \<Rightarrow> ''/etc''],
      cl_env_prefix = ''KAELIX''\<rparr>"

definition with_path :: "string \<Rightarrow> config_loader \<Rightarrow> config_loader" where
  "with_path p l = l\<lparr>cl_search_paths := cl_search_paths l @ [p]\<rparr>"

definition with_env_prefix :: "string \<Rightarrow> config_loader \<Rightarrow> config_loader" where
  "with_env_prefix p l = l\<lparr>cl_env_prefix := p\<rparr>"

definition with_file :: "(string \<Rightarrow> string option) \<Rightarrow> string \<Rightarrow> config_loader \<Rightarrow> config_loader" where
  "with_file parent p l =
     (case parent p of Some d \<Rightarrow> l\<lparr>cl_search_paths := d # cl_search_paths l\<rparr> | None \<Rightarrow> l)"

definition config_path_join :: "string \<Rightarrow> string \<Rightarrow> string" where
  "config_path_join dir name = (if dir = [] \<or> List.last dir = CHR ''/'' then dir @ name else dir @ ''/'' @ name)"

definition config_names :: "string list" where
  "config_names = [''kaelix.toml'', ''config.toml'', ''memorystreamer.toml'', ''kaelix-config.toml'']"

definition find_config_file :: "(string \<Rightarrow> bool) \<Rightarrow> config_loader \<Rightarrow> string option" where
  "find_config_file exists l =
     find exists (concat (map (\<lambda>dir. map (config_path_join dir) config_names) (cl_search_paths l)))"

record 'f config_env =
  ce_exists :: "string \<Rightarrow> bool"
  ce_read :: "string \<Rightarrow> (string, string) result"
  ce_parse :: "string \<Rightarrow> ('f toml, string) result"
  ce_to_toml :: "memory_streamer_config \<Rightarrow> ('f toml, string) result"
  ce_from_toml :: "'f toml \<Rightarrow> (memory_streamer_config, string) result"
  ce_parse_f64 :: "string \<Rightarrow> 'f option"
  ce_vars :: "(string \<times> string) list"
  ce_is_url :: "string \<Rightarrow> bool"
  ce_show_errors :: "verrors \<Rightarrow> string"
  ce_addr_error :: "string \<Rightarrow> string option"
  ce_warn_enabled :: bool
  ce_cpus :: usize
  ce_os :: string
  ce_arch :: string

definition validator_validate :: "'f config_env \<Rightarrow> memory_streamer_config \<Rightarrow> (unit, config_error) result" where
  "validator_validate env c =
     validate_config (ce_is_url env) (ce_show_errors env) (ce_addr_error env) (ce_warn_enabled env)
       (validation_context_detect (ce_cpus env) (ce_os env) (ce_arch env)) c"

fun config_err :: "(string \<Rightarrow> string) \<Rightarrow> ('a, string) result \<Rightarrow> ('a, config_error) result" where
  "config_err f (Ok a) = Ok a"
| "config_err f (Err e) = Err (Configuration (f e))"
| "config_err f Panic = Panic"

definition load_config_file :: "'f config_env \<Rightarrow> string \<Rightarrow> ('f toml, config_error) result" where
  "load_config_file env p =
     and_then (config_err (\<lambda>e. ''Failed to read config file '' @ p @ '': '' @ e) (ce_read env p)) (\<lambda>content.
       config_err (\<lambda>e. ''Failed to parse config file '' @ p @ '': '' @ e) (ce_parse env content))"

definition load :: "'f config_env \<Rightarrow> config_loader \<Rightarrow> (memory_streamer_config, config_error) result" where
  "load env l =
     and_then (config_err (\<lambda>e. ''Failed to serialize default config: '' @ e)
                 (ce_to_toml env (memory_streamer_config_default (ce_cpus env)))) (\<lambda>base.
     and_then (case find_config_file (ce_exists env) l of
                 Some p \<Rightarrow> and_then (load_config_file env p) (\<lambda>file_config. Ok (merge_config base file_config))
               | None \<Rightarrow> Ok base) (\<lambda>merged.
     and_then (config_err (\<lambda>e. ''Failed to deserialize config: '' @ e)
                 (ce_from_toml env (apply_env_vars (ce_parse_f64 env) (cl_env_prefix l) (ce_vars env) merged))) (\<lambda>config.
     and_then (validator_validate env config) (\<lambda>_. Ok config))))"

definition load_from_file :: "'f config_env \<Rightarrow> string \<Rightarrow> (memory_streamer_config, config_error) result" where
  "load_from_file env p =
     and_then (load_config_file env p) (\<lambda>v.
     and_then (config_err (\<lambda>e. ''Failed to parse config file: '' @ e) (ce_from_toml env v)) (\<lambda>config.
     and_then (validator_validate env config) (\<lambda>_. Ok config)))"

fun merge_files :: "'f config_env \<Rightarrow> 'f toml \<Rightarrow> string list \<Rightarrow> ('f toml, config_error) result" where
  "merge_files env v [] = Ok v"
| "merge_files env v (p # ps) =
     and_then (load_config_file env p) (\<lambda>file_config. merge_files env (merge_config v file_config) ps)"

definition load_from_files :: "'f config_env \<Rightarrow> string list \<Rightarrow> (memory_streamer_config, config_error) result" where
  "load_from_files env ps =
     and_then (merge_files env (TTable []) ps) (\<lambda>v.
     and_then (config_err (\<lambda>e. ''Failed to parse merged config: '' @ e) (ce_from_toml env v)) (\<lambda>config.
     and_then (validator_validate env config) (\<lambda>_. Ok config)))"

definition validate_search_paths :: "(string \<Rightarrow> bool) \<Rightarrow> config_loader \<Rightarrow> (string list, config_error) result" where
  "validate_search_paths exists l =
     (let valid_paths = filter exists (cl_search_paths l) in
      if valid_paths = [] then Err (Configuration ''No valid search paths found for configuration files'')
      else Ok valid_paths)"

section \<open>The reload manager\<close>

record hot_reload_settings =
  hr_debounce_delay_ms :: u64
  hr_validate_before_apply :: bool
  hr_backup_on_change :: bool
  hr_max_backups :: u32

definition hot_reload_settings_default :: hot_reload_settings where
  "hot_reload_settings_default =
     \<lparr>hr_debounce_delay_ms = 1000, hr_validate_before_apply = True, hr_backup_on_change = True,
      hr_max_backups = 10\<rparr>"

record hot_reload_manager =
  hm_current_config :: memory_streamer_config
  hm_config_path :: string
  hm_loader :: config_loader
  hm_settings :: hot_reload_settings
  hm_sequence :: u64
  hm_active :: bool

definition hot_reload_manager_new ::
  "(string \<Rightarrow> bool) \<Rightarrow> string option \<Rightarrow> string \<Rightarrow> memory_streamer_config \<Rightarrow> hot_reload_settings option
     \<Rightarrow> (hot_reload_manager, config_error) result" where
  "hot_reload_manager_new exists config_dir p config settings =
     (if \<not> exists p then Err (Configuration (''Configuration file does not exist: '' @ p))
      else Ok \<lparr>hm_current_config = config, hm_config_path = p, hm_loader = config_loader_new config_dir,
               hm_settings = (case settings of Some s \<Rightarrow> s | None \<Rightarrow> hot_reload_settings_default),
               hm_sequence = 0, hm_active = True\<rparr>)"

definition hot_reload_stop :: "hot_reload_manager \<Rightarrow> hot_reload_manager" where
  "hot_reload_stop m = m\<lparr>hm_active := False\<rparr>"

section \<open>Properties of loading\<close>

lemma config_err_Ok [simp]: "config_err f r = Ok a \<longleftrightarrow> r = Ok a"
  by (cases r) simp_all

lemma validator_validate_Ok:
  assumes "validator_validate env c = Ok ()"
  shows "validate_memory_streamer_config (ce_is_url env) c = []
    \<and> checks_that_decide (ce_addr_error env)
        (validation_context_detect (ce_cpus env) (ce_os env) (ce_arch env)) c = Ok ()"
  using assms validator_checks [of "validation_context_detect (ce_cpus env) (ce_os env) (ce_arch env)"]
  by (auto simp: validator_validate_def validation_context_detect_def split: if_splits)

lemma load_Ok_validated: "load env l = Ok c \<Longrightarrow> validator_validate env c = Ok ()"
  by (auto simp: load_def and_then_Ok_iff)

lemma load_from_file_Ok_validated: "load_from_file env p = Ok c \<Longrightarrow> validator_validate env c = Ok ()"
  by (auto simp: load_from_file_def and_then_Ok_iff)

lemma load_from_files_Ok_validated: "load_from_files env ps = Ok c \<Longrightarrow> validator_validate env c = Ok ()"
  by (auto simp: load_from_files_def and_then_Ok_iff)

text \<open>
  Whichever way a configuration is loaded, it satisfies every attribute of the schema and every check
  of the validator, whatever the files and the environment hold.
\<close>

theorem loaded_config_valid:
  assumes "load env l = Ok c \<or> load_from_file env p = Ok c \<or> load_from_files env ps = Ok c"
  shows "validate_memory_streamer_config (ce_is_url env) c = []
    \<and> checks_that_decide (ce_addr_error env)
        (validation_context_detect (ce_cpus env) (ce_os env) (ce_arch env)) c = Ok ()"
  using assms load_Ok_validated load_from_file_Ok_validated load_from_files_Ok_validated validator_validate_Ok
  by blast

text \<open>
  With no configuration file and no environment variable, loading fails: what is left is the
  default configuration, and the validator refuses it. The conversion to TOML and back is assumed to
  give the default back.
\<close>

theorem load_without_sources_fails:
  assumes "ce_to_toml env (memory_streamer_config_default (ce_cpus env)) = Ok v"
    and "ce_from_toml env v = Ok (memory_streamer_config_default (ce_cpus env))"
    and "find_config_file (ce_exists env) l = None" and "collect_env_vars (cl_env_prefix l) (ce_vars env) [] = []"
  shows "\<exists>es. es \<noteq> [] \<and> load env l = Err (Configuration (''Validation failed: '' @ ce_show_errors env es))"
  using assms default_config_not_accepted [of "ce_is_url env" "ce_show_errors env" "ce_addr_error env" "ce_warn_enabled env"
      "validation_context_detect (ce_cpus env) (ce_os env) (ce_arch env)" "ce_cpus env"]
  by (auto simp: load_def apply_env_vars_def validator_validate_def)

definition sample_env :: "memory_streamer_config \<Rightarrow> bool config_env" where
  "sample_env c =
     \<lparr>ce_exists = (\<lambda>p. False), ce_read = (\<lambda>p. Ok []), ce_parse = (\<lambda>s. Ok (TTable [])),
      ce_to_toml = (\<lambda>_. Ok (TTable [])), ce_from_toml = (\<lambda>_. Ok c), ce_parse_f64 = (\<lambda>_. None),
      ce_vars = [(''HOME'', ''/root'')], ce_is_url = (\<lambda>_. False), ce_show_errors = (\<lambda>_. ''errors''),
      ce_addr_error = (\<lambda>_. None), ce_warn_enabled = True, ce_cpus = 8, ce_os = ''linux'', ce_arch = ''x86_64''\<rparr>"

lemma sample_env_finds_nothing:
  "find_config_file (ce_exists (sample_env c)) l = None"
  by (simp add: find_config_file_def sample_env_def find_None_iff)

lemma sample_env_no_vars: "collect_env_vars ''KAELIX'' (ce_vars (sample_env c)) [] = []"
  by (simp add: sample_env_def strip_env_prefix_def)

lemma sample_validate: "validator_validate (sample_env c) (sample_streamer_config 8) = Ok ()"
proof -
  have "checks_that_decide (\<lambda>_. None) (validation_context_detect 8 ''linux'' ''x86_64'') (sample_streamer_config 8) = Ok ()"
    by (simp add: checks_that_decide_def sample_streamer_config_def config_workers_def validation_context_detect_def
        schema_defs)
  then show ?thesis
    using validator_checks [of "validation_context_detect 8 ''linux'' ''x86_64''"] sample_config_valid
    by (simp add: validator_validate_def sample_env_def validation_context_detect_def)
qed

theorem loaded_config_valid_witness:
  "load (sample_env (sample_streamer_config 8)) (config_loader_new None) = Ok (sample_streamer_config 8)
   \<and> validate_memory_streamer_config (\<lambda>_. False) (sample_streamer_config 8) = []
   \<and> checks_that_decide (\<lambda>_. None) (validation_context_detect 8 ''linux'' ''x86_64'') (sample_streamer_config 8) = Ok ()"
proof -
  let ?e = "sample_env (sample_streamer_config 8)"
  have l: "load ?e (config_loader_new None) = Ok (sample_streamer_config 8)"
    using sample_env_finds_nothing [of "sample_streamer_config 8"] sample_env_no_vars [of "sample_streamer_config 8"]
      sample_validate [of "sample_streamer_config 8"]
    by (simp add: load_def apply_env_vars_def config_loader_new_def) (simp add: sample_env_def)
  with loaded_config_valid [of ?e "config_loader_new None" "sample_streamer_config 8"] show ?thesis
    by (simp add: sample_env_def)
qed

theorem load_without_sources_fails_witness:
  "load (sample_env (memory_streamer_config_default 8)) (config_loader_new None)
     = Err (Configuration (''Validation failed: '' @ ''errors''))"
proof -
  let ?e = "sample_env (memory_streamer_config_default 8)"
  have "\<exists>es. es \<noteq> [] \<and> load ?e (config_loader_new None)
          = Err (Configuration (''Validation failed: '' @ ce_show_errors ?e es))"
  proof (rule load_without_sources_fails)
    show "ce_to_toml ?e (memory_streamer_config_default (ce_cpus ?e)) = Ok (TTable [])" by (simp add: sample_env_def)
    show "ce_from_toml ?e (TTable []) = Ok (memory_streamer_config_default (ce_cpus ?e))" by (simp add: sample_env_def)
    show "find_config_file (ce_exists ?e) (config_loader_new None) = None" by (rule sample_env_finds_nothing)
    show "collect_env_vars (cl_env_prefix (config_loader_new None)) (ce_vars ?e) [] = []"
      by (simp add: config_loader_new_def sample_env_no_vars)
  qed
  then show ?thesis by (auto simp: sample_env_def)
qed

text \<open>A file given by name is not loaded: its directory is searched for the four fixed names.\<close>

lemma with_file_ignores_name:
  assumes "parent p = parent q"
  shows "with_file parent p l = with_file parent q l"
  using assms by (simp add: with_file_def)

lemma reload_manager_keeps_config:
  assumes "hot_reload_manager_new exists dir p config settings = Ok m"
  shows "exists p \<and> hm_current_config (hot_reload_stop m) = config"
  using assms by (auto simp: hot_reload_manager_new_def hot_reload_stop_def split: if_splits)

end
