(* ===== verification/Cluster_Config.thy ===== *)
theory Cluster_Config
  imports Config_Network Clocks
begin

text \<open>
  The configuration of a cluster node, \<^verbatim>\<open>src/kaelix-cluster/src/config/mod.rs\<close>: its parts with their
  defaults and attributes, the builder and the checks it runs. Socket addresses are values of a type
  of their own whose port is an argument; a set of nodes is a list. None of the fields of
  \<open>ClusterConfig\<close> that hold another struct is marked as nested, so the attributes of the parts are not
  part of the validation of the whole.
\<close>

section \<open>The parts\<close>

datatype cluster_node_role = Bootstrap | Member | Observer

record node_config =
  ncfg_role :: cluster_node_role
  ncfg_capabilities :: "string list"

definition node_config_default :: node_config where
  "node_config_default = \<lparr>ncfg_role = Member, ncfg_capabilities = [''storage'', ''compute'']\<rparr>"

record interface_config =
  icfg_interface :: string
  icfg_timeout_ms :: u64

definition interface_config_default :: interface_config where
  "interface_config_default = \<lparr>icfg_interface = ''0.0.0.0'', icfg_timeout_ms = 5000\<rparr>"

definition validate_interface_config :: "interface_config \<Rightarrow> verrors" where
  "validate_interface_config c =
     field ''timeout_ms'' (in_range 100 30000 (icfg_timeout_ms c)) (range_error ''100'' ''30000'')"

record ha_config_cluster =
  hacc_enable_auto_failover :: bool
  hacc_failover_timeout_ms :: u64
  hacc_enable_health_monitoring :: bool

definition ha_config_cluster_default :: ha_config_cluster where
  "ha_config_cluster_default =
     \<lparr>hacc_enable_auto_failover = True, hacc_failover_timeout_ms = 30000,
      hacc_enable_health_monitoring = True\<rparr>"

record ha_config =
  hac_enable_auto_failover :: bool
  hac_failover_timeout_ms :: u64

definition ha_config_default :: ha_config where
  "ha_config_default = \<lparr>hac_enable_auto_failover = True, hac_failover_timeout_ms = 30000\<rparr>"

record cluster_telemetry_config =
  ctc_enable_metrics :: bool
  ctc_metrics_endpoint :: string

definition cluster_telemetry_config_default :: cluster_telemetry_config where
  "cluster_telemetry_config_default = \<lparr>ctc_enable_metrics = True, ctc_metrics_endpoint = ''127.0.0.1:9090''\<rparr>"

datatype membership_protocol = MpSwim | MpRapid | MpHybrid

record membership_config =
  mcfg_protocol :: membership_protocol
  mcfg_failure_timeout_ms :: u64
  mcfg_heartbeat_interval_ms :: u64
  mcfg_max_nodes :: usize
  mcfg_gossip_fanout :: usize
  mcfg_suspicion_multiplier :: u32

definition membership_config_default :: membership_config where
  "membership_config_default =
     \<lparr>mcfg_protocol = MpSwim, mcfg_failure_timeout_ms = 5000, mcfg_heartbeat_interval_ms = 1000,
      mcfg_max_nodes = 10000, mcfg_gossip_fanout = 3, mcfg_suspicion_multiplier = 3\<rparr>"

definition validate_membership_config :: "membership_config \<Rightarrow> verrors" where
  "validate_membership_config c =
     field ''failure_timeout_ms'' (in_range 100 30000 (mcfg_failure_timeout_ms c)) (range_error ''100'' ''30000'') @
     field ''heartbeat_interval_ms'' (in_range 50 10000 (mcfg_heartbeat_interval_ms c)) (range_error ''50'' ''10000'') @
     field ''max_nodes'' (in_range 1 100000 (mcfg_max_nodes c)) (range_error ''1'' ''100000'') @
     field ''gossip_fanout'' (in_range 1 20 (mcfg_gossip_fanout c)) (range_error ''1'' ''20'') @
     field ''suspicion_multiplier'' (in_range 1 10 (mcfg_suspicion_multiplier c)) (range_error ''1'' ''10'')"

datatype consensus_algorithm = AlgRaft | AlgFastRaft | AlgPipelineRaft | AlgMultiRaft

record raft_lease_config =
  rlc_enable_leadership_lease :: bool
  rlc_leadership_lease_timeout_ms :: u64

definition raft_lease_config_default :: raft_lease_config where
  "raft_lease_config_default = \<lparr>rlc_enable_leadership_lease = True, rlc_leadership_lease_timeout_ms = 5000\<rparr>"

record consensus_config =
  ccfg_algorithm :: consensus_algorithm
  ccfg_election_timeout_ms :: "u64 \<times> u64"
  ccfg_heartbeat_interval_ms :: u64
  ccfg_max_entries_per_request :: usize
  ccfg_log_compaction_threshold :: u64
  ccfg_snapshot_threshold :: u64
  ccfg_enable_pre_vote :: bool
  ccfg_enable_pipelining :: bool
  ccfg_enabled :: bool
  ccfg_cluster_size :: usize
  ccfg_algorithm_name :: string
  ccfg_raft :: raft_lease_config

definition consensus_config_default :: consensus_config where
  "consensus_config_default =
     \<lparr>ccfg_algorithm = AlgRaft, ccfg_election_timeout_ms = (1500, 3000), ccfg_heartbeat_interval_ms = 500,
      ccfg_max_entries_per_request = 1000, ccfg_log_compaction_threshold = 10000,
      ccfg_snapshot_threshold = 100000, ccfg_enable_pre_vote = True, ccfg_enable_pipelining = True,
      ccfg_enabled = True, ccfg_cluster_size = 3, ccfg_algorithm_name = ''raft'',
      ccfg_raft = raft_lease_config_default\<rparr>"

definition validate_consensus_config :: "consensus_config \<Rightarrow> verrors" where
  "validate_consensus_config c =
     field ''heartbeat_interval_ms'' (in_range 10 5000 (ccfg_heartbeat_interval_ms c)) (range_error ''10'' ''5000'') @
     field ''max_entries_per_request'' (in_range 1 10000 (ccfg_max_entries_per_request c)) (range_error ''1'' ''10000'') @
     field ''log_compaction_threshold'' (in_range 100 1000000 (ccfg_log_compaction_threshold c)) (range_error ''100'' ''1000000'') @
     field ''snapshot_threshold'' (in_range 1000 10000000 (ccfg_snapshot_threshold c)) (range_error ''1000'' ''10000000'')"

datatype cluster_compression = CompNone | CompLz4 | CompZstd | CompGzip

record communication_config =
  cocfg_max_connections :: usize
  cocfg_connection_timeout_ms :: u64
  cocfg_keepalive_interval_ms :: u64
  cocfg_max_message_size :: usize
  cocfg_send_buffer_size :: usize
  cocfg_recv_buffer_size :: usize
  cocfg_enable_quic :: bool
  cocfg_enable_zero_copy :: bool
  cocfg_compression :: cluster_compression

definition communication_config_default :: communication_config where
  "communication_config_default =
     \<lparr>cocfg_max_connections = 10000, cocfg_connection_timeout_ms = 5000, cocfg_keepalive_interval_ms = 30000,
      cocfg_max_message_size = 16 * 1024 * 1024, cocfg_send_buffer_size = 64 * 1024,
      cocfg_recv_buffer_size = 64 * 1024, cocfg_enable_quic = True, cocfg_enable_zero_copy = True,
      cocfg_compression = CompLz4\<rparr>"

definition validate_communication_config :: "communication_config \<Rightarrow> verrors" where
  "validate_communication_config c =
     field ''max_connections'' (in_range 1 100000 (cocfg_max_connections c)) (range_error ''1'' ''100000'') @
     field ''connection_timeout_ms'' (in_range 100 30000 (cocfg_connection_timeout_ms c)) (range_error ''100'' ''30000'') @
     field ''keepalive_interval_ms'' (in_range 1000 60000 (cocfg_keepalive_interval_ms c)) (range_error ''1000'' ''60000'') @
     field ''max_message_size'' (in_range 1024 134217728 (cocfg_max_message_size c)) (range_error ''1024'' ''134217728'') @
     field ''send_buffer_size'' (in_range 4096 16777216 (cocfg_send_buffer_size c)) (range_error ''4096'' ''16777216'') @
     field ''recv_buffer_size'' (in_range 4096 16777216 (cocfg_recv_buffer_size c)) (range_error ''4096'' ''16777216'')"

datatype cluster_tls_version = ClusterTls_V1_2 | ClusterTls_V1_3

record cluster_security_config =
  csc_enable_tls :: bool
  csc_cert_path :: "string option"
  csc_key_path :: "string option"
  csc_ca_path :: "string option"
  csc_require_client_cert :: bool
  csc_enable_message_auth :: bool
  csc_cipher_suites :: "string list"
  csc_min_tls_version :: cluster_tls_version
  csc_auth_token :: "string option"
  csc_trusted_nodes :: "node_id list"

definition cluster_security_config_default :: cluster_security_config where
  "cluster_security_config_default =
     \<lparr>csc_enable_tls = True, csc_cert_path = None, csc_key_path = None, csc_ca_path = None,
      csc_require_client_cert = False, csc_enable_message_auth = True,
      csc_cipher_suites = [''TLS_AES_256_GCM_SHA384'', ''TLS_CHACHA20_POLY1305_SHA256'', ''TLS_AES_128_GCM_SHA256''],
      csc_min_tls_version = ClusterTls_V1_3, csc_auth_token = None, csc_trusted_nodes = []\<rparr>"

datatype allocator = AllocSystem | AllocJemalloc | AllocMimalloc

record cluster_performance_config =
  cpc_worker_threads :: usize
  cpc_io_threads :: usize
  cpc_numa_aware :: bool
  cpc_cpu_affinity :: "usize list"
  cpc_allocator :: allocator
  cpc_pre_allocate_memory :: bool
  cpc_memory_pool_size :: usize
  cpc_enable_lock_free :: bool
  cpc_batch_size :: usize
  cpc_enable_metrics :: bool
  cpc_metrics_interval_ms :: u64

definition cluster_performance_config_default :: cluster_performance_config where
  "cluster_performance_config_default =
     \<lparr>cpc_worker_threads = 0, cpc_io_threads = 0, cpc_numa_aware = True, cpc_cpu_affinity = [],
      cpc_allocator = AllocSystem, cpc_pre_allocate_memory = True, cpc_memory_pool_size = 128 * 1024 * 1024,
      cpc_enable_lock_free = True, cpc_batch_size = 100, cpc_enable_metrics = True,
      cpc_metrics_interval_ms = 5000\<rparr>"

definition validate_cluster_performance_config :: "cluster_performance_config \<Rightarrow> verrors" where
  "validate_cluster_performance_config c =
     field ''memory_pool_size'' (in_range 1048576 68719476736 (cpc_memory_pool_size c)) (range_error ''1048576'' ''68719476736'') @
     field ''batch_size'' (in_range 1 10000 (cpc_batch_size c)) (range_error ''1'' ''10000'') @
     field ''metrics_interval_ms'' (in_range 100 60000 (cpc_metrics_interval_ms c)) (range_error ''100'' ''60000'')"

section \<open>The configuration and its builder\<close>

record 'a cluster_config =
  clc_node_id :: node_id
  clc_bind_address :: 'a
  clc_cluster_name :: string
  clc_seed_nodes :: "'a list"
  clc_membership :: membership_config
  clc_consensus :: consensus_config
  clc_communication :: communication_config
  clc_security :: cluster_security_config
  clc_performance :: cluster_performance_config
  clc_ha :: ha_config_cluster

definition validate_cluster_attributes :: "'a cluster_config \<Rightarrow> verrors" where
  "validate_cluster_attributes c =
     field ''cluster_name'' (len_in 1 128 (clc_cluster_name c)) (length_error ''1'' ''128'')"

definition validate_cluster_config ::
  "('a \<Rightarrow> u16) \<Rightarrow> (verrors \<Rightarrow> string) \<Rightarrow> 'a cluster_config \<Rightarrow> (unit, string) result" where
  "validate_cluster_config port show_errors c =
     (let (lo, hi) = ccfg_election_timeout_ms (clc_consensus c) in
      if validate_cluster_attributes c \<noteq> []
      then Err (''Configuration validation failed: '' @ show_errors (validate_cluster_attributes c))
      else if port (clc_bind_address c) = 0 then Err ''Bind address port cannot be 0''
      else if lo \<ge> hi then Err ''Min election timeout must be less than max timeout''
      else if lo < 150 \<or> hi > 10000 then Err ''Election timeout must be between 150ms and 10000ms''
      else Ok ())"

record 'a cluster_config_builder =
  clb_node_id :: "node_id option"
  clb_bind_address :: "'a option"
  clb_cluster_name :: "string option"
  clb_seed_nodes :: "'a list"
  clb_membership :: "membership_config option"
  clb_consensus :: "consensus_config option"
  clb_communication :: "communication_config option"
  clb_security :: "cluster_security_config option"
  clb_performance :: "cluster_performance_config option"
  clb_ha :: "ha_config_cluster option"

definition cluster_config_builder_default :: "'a cluster_config_builder" where
  "cluster_config_builder_default =
     \<lparr>clb_node_id = None, clb_bind_address = None, clb_cluster_name = None, clb_seed_nodes = [],
      clb_membership = None, clb_consensus = None, clb_communication = None, clb_security = None,
      clb_performance = None, clb_ha = None\<rparr>"

definition builder_add_seed_node :: "'a \<Rightarrow> 'a cluster_config_builder \<Rightarrow> 'a cluster_config_builder" where
  "builder_add_seed_node addr b = b\<lparr>clb_seed_nodes := clb_seed_nodes b @ [addr]\<rparr>"

definition or_else :: "'b \<Rightarrow> 'b option \<Rightarrow> 'b" where
  "or_else d x = (case x of Some v \<Rightarrow> v | None \<Rightarrow> d)"

definition built_config :: "'a cluster_config_builder \<Rightarrow> node_id \<Rightarrow> 'a \<Rightarrow> string \<Rightarrow> 'a cluster_config" where
  "built_config b n addr name =
     \<lparr>clc_node_id = n, clc_bind_address = addr, clc_cluster_name = name,
      clc_seed_nodes = clb_seed_nodes b,
      clc_membership = or_else membership_config_default (clb_membership b),
      clc_consensus = or_else consensus_config_default (clb_consensus b),
      clc_communication = or_else communication_config_default (clb_communication b),
      clc_security = or_else cluster_security_config_default (clb_security b),
      clc_performance = or_else cluster_performance_config_default (clb_performance b),
      clc_ha = or_else ha_config_cluster_default (clb_ha b)\<rparr>"

definition cluster_config_build ::
  "('a \<Rightarrow> u16) \<Rightarrow> (verrors \<Rightarrow> string) \<Rightarrow> 'a cluster_config_builder \<Rightarrow> ('a cluster_config, string) result" where
  "cluster_config_build port show_errors b =
     (case clb_node_id b of None \<Rightarrow> Err ''Node ID is required'' | Some n \<Rightarrow>
      (case clb_bind_address b of None \<Rightarrow> Err ''Bind address is required'' | Some addr \<Rightarrow>
       (case clb_cluster_name b of None \<Rightarrow> Err ''Cluster name is required'' | Some name \<Rightarrow>
          let c = built_config b n addr name
          in and_then (validate_cluster_config port show_errors c) (\<lambda>_. Ok c))))"

section \<open>What a built configuration satisfies\<close>

lemma or_else_simps [simp]: "or_else d None = d" "or_else d (Some v) = v"
  by (simp_all add: or_else_def)

lemma validate_cluster_config_iff:
  "validate_cluster_config port show_errors c = Ok () \<longleftrightarrow>
     len_in 1 128 (clc_cluster_name c) \<and> port (clc_bind_address c) \<noteq> 0
   \<and> 150 \<le> fst (ccfg_election_timeout_ms (clc_consensus c))
   \<and> fst (ccfg_election_timeout_ms (clc_consensus c)) < snd (ccfg_election_timeout_ms (clc_consensus c))
   \<and> snd (ccfg_election_timeout_ms (clc_consensus c)) \<le> 10000"
  by (auto simp: validate_cluster_config_def validate_cluster_attributes_def case_prod_beta not_le not_less)

lemma built_config_fields [simp]:
  "clc_cluster_name (built_config b n addr name) = name" "clc_bind_address (built_config b n addr name) = addr"
  by (simp_all add: built_config_def)

text \<open>
  The builder accepts exactly the settings with a node, an address with a port, a name of 1 to 128
  characters and an election timeout between 150 and 10000 milliseconds; the parts it was given are kept
  and the others are the defaults. No other attribute of the parts is looked at.
\<close>

theorem cluster_build_exact:
  "cluster_config_build port show_errors b = Ok c \<longleftrightarrow>
     (\<exists>n addr name. clb_node_id b = Some n \<and> clb_bind_address b = Some addr \<and> clb_cluster_name b = Some name
        \<and> c = built_config b n addr name \<and> len_in 1 128 name \<and> port addr \<noteq> 0
        \<and> 150 \<le> fst (ccfg_election_timeout_ms (clc_consensus c))
        \<and> fst (ccfg_election_timeout_ms (clc_consensus c)) < snd (ccfg_election_timeout_ms (clc_consensus c))
        \<and> snd (ccfg_election_timeout_ms (clc_consensus c)) \<le> 10000)"
  by (auto simp: cluster_config_build_def and_then_Ok_iff validate_cluster_config_iff Let_def split: option.splits)

definition sample_builder :: "nat cluster_config_builder" where
  "sample_builder = cluster_config_builder_default
     \<lparr>clb_node_id := Some 1, clb_bind_address := Some 7000, clb_cluster_name := Some ''c'',
      clb_membership := Some (membership_config_default\<lparr>mcfg_gossip_fanout := 0, mcfg_max_nodes := 0\<rparr>),
      clb_consensus := Some (consensus_config_default\<lparr>ccfg_heartbeat_interval_ms := 60000\<rparr>)\<rparr>"

text \<open>
  Attributes of the parts that the validation of the whole leaves out: a gossip to no node and a
  heartbeat twenty times as long as the election timeout are accepted.
\<close>

lemma parts_not_validated:
  "\<exists>c. cluster_config_build word_of_nat (\<lambda>_. ''errors'') sample_builder = Ok c
     \<and> validate_membership_config (clc_membership c) \<noteq> []
     \<and> validate_consensus_config (clc_consensus c) \<noteq> []
     \<and> ccfg_heartbeat_interval_ms (clc_consensus c) > snd (ccfg_election_timeout_ms (clc_consensus c))"
  by (simp add: cluster_config_build_def built_config_def sample_builder_def cluster_config_builder_default_def Let_def
      validate_cluster_config_def validate_cluster_attributes_def validate_membership_config_def
      membership_config_default_def validate_consensus_config_def consensus_config_default_def
      in_range_def len_in_def)

lemma part_defaults_valid:
  "validate_membership_config membership_config_default = []"
  "validate_consensus_config consensus_config_default = []"
  "validate_communication_config communication_config_default = []"
  "validate_cluster_performance_config cluster_performance_config_default = []"
  "validate_interface_config interface_config_default = []"
  by (simp_all add: validate_membership_config_def membership_config_default_def validate_consensus_config_def
      consensus_config_default_def validate_communication_config_def communication_config_default_def
      validate_cluster_performance_config_def cluster_performance_config_default_def validate_interface_config_def
      interface_config_default_def in_range_def)

end
