(* ===== verification/Communication.thy ===== *)
theory Communication
  imports Raft
begin

unbundle bit_operations_syntax

text \<open>
  The cluster's messages (\<^verbatim>\<open>src/kaelix-cluster/src/messages/mod.rs\<close>) and their transport
  (\<^verbatim>\<open>communication/mod.rs\<close>): identifiers and kinds of messages, the table of connections with its
  counters, and the router above it. Serialization and the outcome of opening a connection are
  arguments, as is every reading of the clock; a counter is a 64-bit word that wraps. Handlers are
  values of a type of their own. The texts of errors leave out the node they are about.
\<close>

section \<open>Cluster messages\<close>

datatype message_payload =
  RequestVote u64 node_id u64 u64
| RequestVoteResponse u64 bool
| AppendEntries u64 node_id bytes
| AppendEntriesResponse u64 bool
| JoinRequest node_id
| JoinResponse bool
| LeaveRequest node_id
| PayloadPing node_id
| PayloadPong node_id
| HealthCheck
| HealthResponse string

record cluster_header =
  mh_message_id :: u64
  mh_source :: node_id
  mh_destination :: node_id
  mh_timestamp :: u64
  mh_message_type :: u32

record cluster_message =
  cm_header :: cluster_header
  cm_payload :: message_payload

fun payload_to_type_id :: "message_payload \<Rightarrow> u32" where
  "payload_to_type_id (RequestVote _ _ _ _) = 1000"
| "payload_to_type_id (RequestVoteResponse _ _) = 1001"
| "payload_to_type_id (AppendEntries _ _ _) = 1010"
| "payload_to_type_id (AppendEntriesResponse _ _) = 1011"
| "payload_to_type_id (JoinRequest _) = 2000"
| "payload_to_type_id (JoinResponse _) = 2001"
| "payload_to_type_id (LeaveRequest _) = 2010"
| "payload_to_type_id (PayloadPing _) = 3000"
| "payload_to_type_id (PayloadPong _) = 3001"
| "payload_to_type_id HealthCheck = 4000"
| "payload_to_type_id (HealthResponse _) = 4001"

fun payload_type_name :: "message_payload \<Rightarrow> string" where
  "payload_type_name (RequestVote _ _ _ _) = ''RequestVote''"
| "payload_type_name (RequestVoteResponse _ _) = ''RequestVoteResponse''"
| "payload_type_name (AppendEntries _ _ _) = ''AppendEntries''"
| "payload_type_name (AppendEntriesResponse _ _) = ''AppendEntriesResponse''"
| "payload_type_name (JoinRequest _) = ''JoinRequest''"
| "payload_type_name (JoinResponse _) = ''JoinResponse''"
| "payload_type_name (LeaveRequest _) = ''LeaveRequest''"
| "payload_type_name (PayloadPing _) = ''Ping''"
| "payload_type_name (PayloadPong _) = ''Pong''"
| "payload_type_name HealthCheck = ''HealthCheck''"
| "payload_type_name (HealthResponse _) = ''HealthResponse''"

fun payload_is_request :: "message_payload \<Rightarrow> bool" where
  "payload_is_request (RequestVote _ _ _ _) = True"
| "payload_is_request (AppendEntries _ _ _) = True"
| "payload_is_request (JoinRequest _) = True"
| "payload_is_request (LeaveRequest _) = True"
| "payload_is_request (PayloadPing _) = True"
| "payload_is_request HealthCheck = True"
| "payload_is_request _ = False"

fun payload_is_response :: "message_payload \<Rightarrow> bool" where
  "payload_is_response (RequestVoteResponse _ _) = True"
| "payload_is_response (AppendEntriesResponse _ _) = True"
| "payload_is_response (JoinResponse _) = True"
| "payload_is_response (PayloadPong _) = True"
| "payload_is_response (HealthResponse _) = True"
| "payload_is_response _ = False"

definition generate_message_id :: "u64 \<Rightarrow> u64 \<Rightarrow> u64" where
  "generate_message_id timestamp counter =
     push_bit 32 (timestamp AND 0xFFFFFFFF) OR (counter AND 0xFFFFFFFF)"

definition cluster_message_new ::
  "u64 \<times> u64 \<Rightarrow> node_id \<Rightarrow> node_id \<Rightarrow> message_payload \<Rightarrow> u64 \<Rightarrow> u64 \<times> cluster_message" where
  "cluster_message_new clk source destination payload counter =
     (counter + 1,
      \<lparr>cm_header = \<lparr>mh_message_id = generate_message_id (fst clk) counter, mh_source = source,
                    mh_destination = destination, mh_timestamp = snd clk,
                    mh_message_type = payload_to_type_id payload\<rparr>,
       cm_payload = payload\<rparr>)"

fun send_cluster_messages ::
  "((u64 \<times> u64) \<times> node_id \<times> node_id \<times> message_payload) list \<Rightarrow> u64 \<Rightarrow> cluster_message list" where
  "send_cluster_messages [] counter = []"
| "send_cluster_messages ((clk, source, destination, payload) # reqs) counter =
     (let (counter', m) = cluster_message_new clk source destination payload counter
      in m # send_cluster_messages reqs counter')"

section \<open>Network messages\<close>

record install_snapshot_request =
  sq_term :: raft_term
  sq_leader_id :: node_id
  sq_last_included_index :: log_index
  sq_last_included_term :: raft_term
  sq_data :: bytes
  sq_done :: bool

record install_snapshot_response =
  sr_term :: raft_term

datatype network_message =
  NetPing u64
| NetPong u64
| MembershipUpdate bytes
| ConsensusData bytes
| Application bytes
| RaftRequestVote request_vote_request
| RaftRequestVoteResponse request_vote_response
| RaftAppendEntries append_entries_request
| RaftAppendEntriesResponse append_entries_response
| RaftInstallSnapshot install_snapshot_request
| RaftInstallSnapshotResponse install_snapshot_response

fun is_raft_message :: "network_message \<Rightarrow> bool" where
  "is_raft_message (RaftRequestVote _) = True"
| "is_raft_message (RaftRequestVoteResponse _) = True"
| "is_raft_message (RaftAppendEntries _) = True"
| "is_raft_message (RaftAppendEntriesResponse _) = True"
| "is_raft_message (RaftInstallSnapshot _) = True"
| "is_raft_message (RaftInstallSnapshotResponse _) = True"
| "is_raft_message _ = False"

fun network_message_type :: "network_message \<Rightarrow> string" where
  "network_message_type (NetPing _) = ''Ping''"
| "network_message_type (NetPong _) = ''Pong''"
| "network_message_type (MembershipUpdate _) = ''MembershipUpdate''"
| "network_message_type (ConsensusData _) = ''Consensus''"
| "network_message_type (Application _) = ''Application''"
| "network_message_type (RaftRequestVote _) = ''RaftRequestVote''"
| "network_message_type (RaftRequestVoteResponse _) = ''RaftRequestVoteResponse''"
| "network_message_type (RaftAppendEntries _) = ''RaftAppendEntries''"
| "network_message_type (RaftAppendEntriesResponse _) = ''RaftAppendEntriesResponse''"
| "network_message_type (RaftInstallSnapshot _) = ''RaftInstallSnapshot''"
| "network_message_type (RaftInstallSnapshotResponse _) = ''RaftInstallSnapshotResponse''"

fun network_is_request :: "network_message \<Rightarrow> bool" where
  "network_is_request (NetPing _) = True"
| "network_is_request (RaftRequestVote _) = True"
| "network_is_request (RaftAppendEntries _) = True"
| "network_is_request (RaftInstallSnapshot _) = True"
| "network_is_request _ = False"

fun network_is_response :: "network_message \<Rightarrow> bool" where
  "network_is_response (NetPong _) = True"
| "network_is_response (RaftRequestVoteResponse _) = True"
| "network_is_response (RaftAppendEntriesResponse _) = True"
| "network_is_response (RaftInstallSnapshotResponse _) = True"
| "network_is_response _ = False"

fun network_estimated_size :: "network_message \<Rightarrow> usize" where
  "network_estimated_size (NetPing _) = 16"
| "network_estimated_size (NetPong _) = 16"
| "network_estimated_size (MembershipUpdate updates) = 32 + length updates"
| "network_estimated_size (ConsensusData data) = 32 + length data"
| "network_estimated_size (Application payload) = 32 + length payload"
| "network_estimated_size (RaftRequestVote _) = 128"
| "network_estimated_size (RaftRequestVoteResponse _) = 64"
| "network_estimated_size (RaftAppendEntries request) = 128 + length (aq_entries request) * 256"
| "network_estimated_size (RaftAppendEntriesResponse _) = 64"
| "network_estimated_size (RaftInstallSnapshot request) = 128 + length (sq_data request)"
| "network_estimated_size (RaftInstallSnapshotResponse _) = 32"

section \<open>Connections\<close>

record 'a connection_info =
  ci_node_id :: node_id
  ci_address :: 'a
  ci_established_at :: u64
  ci_bytes_sent :: u64
  ci_bytes_received :: u64
  ci_messages_sent :: u64
  ci_messages_received :: u64
  ci_raft_messages_sent :: u64
  ci_raft_messages_received :: u64
  ci_last_activity :: u64

definition connection_info_new :: "u64 \<Rightarrow> node_id \<Rightarrow> 'a \<Rightarrow> 'a connection_info" where
  "connection_info_new now n addr =
     \<lparr>ci_node_id = n, ci_address = addr, ci_established_at = now, ci_bytes_sent = 0,
      ci_bytes_received = 0, ci_messages_sent = 0, ci_messages_received = 0,
      ci_raft_messages_sent = 0, ci_raft_messages_received = 0, ci_last_activity = now\<rparr>"

definition record_bytes_sent :: "u64 \<Rightarrow> u64 \<Rightarrow> 'a connection_info \<Rightarrow> 'a connection_info" where
  "record_bytes_sent now k c = c\<lparr>ci_bytes_sent := ci_bytes_sent c + k, ci_last_activity := now\<rparr>"

definition record_bytes_received :: "u64 \<Rightarrow> u64 \<Rightarrow> 'a connection_info \<Rightarrow> 'a connection_info" where
  "record_bytes_received now k c =
     c\<lparr>ci_bytes_received := ci_bytes_received c + k, ci_last_activity := now\<rparr>"

definition record_message_sent :: "u64 \<Rightarrow> network_message \<Rightarrow> 'a connection_info \<Rightarrow> 'a connection_info" where
  "record_message_sent now m c =
     c\<lparr>ci_messages_sent := ci_messages_sent c + 1,
       ci_raft_messages_sent := ci_raft_messages_sent c + (if is_raft_message m then 1 else 0),
       ci_last_activity := now\<rparr>"

definition record_message_received ::
  "u64 \<Rightarrow> network_message \<Rightarrow> 'a connection_info \<Rightarrow> 'a connection_info" where
  "record_message_received now m c =
     c\<lparr>ci_messages_received := ci_messages_received c + 1,
       ci_raft_messages_received := ci_raft_messages_received c + (if is_raft_message m then 1 else 0),
       ci_last_activity := now\<rparr>"

definition connection_is_idle :: "u64 \<Rightarrow> u64 \<Rightarrow> 'a connection_info \<Rightarrow> bool" where
  "connection_is_idle now idle_threshold_ms c \<longleftrightarrow> now - ci_last_activity c > idle_threshold_ms"

section \<open>The transport\<close>

datatype comm_error = CommunicationFailed string | CommConfiguration string

record 'a tcp_transport =
  tt_bind_address :: 'a
  tt_connections :: "(node_id, 'a connection_info) hash_map"

definition tcp_transport_new :: "'a \<Rightarrow> 'a tcp_transport" where
  "tcp_transport_new addr = \<lparr>tt_bind_address = addr, tt_connections = []\<rparr>"

definition tcp_connect ::
  "(unit, string) result \<Rightarrow> u64 \<Rightarrow> node_id \<Rightarrow> 'a \<Rightarrow> 'a tcp_transport \<Rightarrow> 'a tcp_transport \<times> (unit, comm_error) result" where
  "tcp_connect opened now n addr t =
     (case opened of
        Ok _ \<Rightarrow> (t\<lparr>tt_connections := hm_insert n (connection_info_new now n addr) (tt_connections t)\<rparr>, Ok ())
      | Err e \<Rightarrow> (t, Err (CommunicationFailed e))
      | Panic \<Rightarrow> (t, Panic))"

definition note_sent :: "u64 \<times> u64 \<Rightarrow> bytes \<Rightarrow> network_message \<Rightarrow> 'a connection_info \<Rightarrow> 'a connection_info" where
  "note_sent clk serialized m c =
     record_message_sent (snd clk) m (record_bytes_sent (fst clk) (word_of_nat (length serialized)) c)"

definition tcp_send_message ::
  "(network_message \<Rightarrow> (bytes, string) result) \<Rightarrow> u64 \<times> u64 \<Rightarrow> node_id \<Rightarrow> network_message
     \<Rightarrow> 'a tcp_transport \<Rightarrow> 'a tcp_transport \<times> (unit, comm_error) result" where
  "tcp_send_message serialize clk n m t =
     (case hm_get (tt_connections t) n of
        None \<Rightarrow> (t, Err (CommunicationFailed ''No connection to node''))
      | Some c \<Rightarrow>
          (case serialize m of
             Ok s \<Rightarrow> (t\<lparr>tt_connections := hm_insert n (note_sent clk s m c) (tt_connections t)\<rparr>, Ok ())
           | Err e \<Rightarrow> (t, Err (CommConfiguration (''Failed to serialize message: '' @ e)))
           | Panic \<Rightarrow> (t, Panic)))"

definition tcp_broadcast_raft_message ::
  "(network_message \<Rightarrow> (bytes, string) result) \<Rightarrow> (node_id \<Rightarrow> u64 \<times> u64) \<Rightarrow> network_message
     \<Rightarrow> 'a tcp_transport \<Rightarrow> 'a tcp_transport \<times> (node_id list, comm_error) result" where
  "tcp_broadcast_raft_message serialize clks m t =
     (case serialize m of
        Ok s \<Rightarrow> (t\<lparr>tt_connections := map (\<lambda>(n, c). (n, note_sent (clks n) s m c)) (tt_connections t)\<rparr>,
                 Ok (hm_keys (tt_connections t)))
      | Err e \<Rightarrow> (t, Err (CommConfiguration (''Failed to serialize message: '' @ e)))
      | Panic \<Rightarrow> (t, Panic))"

definition tcp_disconnect :: "node_id \<Rightarrow> 'a tcp_transport \<Rightarrow> 'a tcp_transport \<times> (unit, comm_error) result" where
  "tcp_disconnect n t =
     (case hm_get (tt_connections t) n of
        Some _ \<Rightarrow> (t\<lparr>tt_connections := hm_remove n (tt_connections t)\<rparr>, Ok ())
      | None \<Rightarrow> (t, Err (CommunicationFailed ''No connection to node'')))"

definition cleanup_idle :: "(node_id \<Rightarrow> u64) \<Rightarrow> u64 \<Rightarrow> 'a tcp_transport \<Rightarrow> 'a tcp_transport \<times> usize" where
  "cleanup_idle nows idle_threshold_ms t =
     (let kept = hm_retain (\<lambda>n c. \<not> connection_is_idle (nows n) idle_threshold_ms c) (tt_connections t)
      in (t\<lparr>tt_connections := kept\<rparr>, length (tt_connections t) - length kept))"

section \<open>The router\<close>

record ('a, 'h) cluster_router =
  cr_node_id :: node_id
  cr_transport :: "'a tcp_transport"
  cr_handlers :: "(string, 'h) hash_map"

definition cluster_router_new :: "node_id \<Rightarrow> 'a tcp_transport \<Rightarrow> ('a, 'h) cluster_router" where
  "cluster_router_new n t = \<lparr>cr_node_id = n, cr_transport = t, cr_handlers = []\<rparr>"

definition register_handler :: "string \<Rightarrow> 'h \<Rightarrow> ('a, 'h) cluster_router \<Rightarrow> ('a, 'h) cluster_router" where
  "register_handler message_type h r = r\<lparr>cr_handlers := hm_insert message_type h (cr_handlers r)\<rparr>"

definition router_send_raft_message ::
  "(network_message \<Rightarrow> (bytes, string) result) \<Rightarrow> u64 \<times> u64 \<Rightarrow> node_id \<Rightarrow> network_message
     \<Rightarrow> ('a, 'h) cluster_router \<Rightarrow> ('a, 'h) cluster_router \<times> (unit, comm_error) result" where
  "router_send_raft_message serialize clk n m r =
     (if \<not> is_raft_message m then (r, Err (CommConfiguration ''Expected Raft message''))
      else let (t, res) = tcp_send_message serialize clk n m (cr_transport r) in (r\<lparr>cr_transport := t\<rparr>, res))"

fun broadcast_to ::
  "(network_message \<Rightarrow> (bytes, string) result) \<Rightarrow> (node_id \<Rightarrow> u64 \<times> u64) \<Rightarrow> node_id \<Rightarrow> network_message
     \<Rightarrow> node_id list \<Rightarrow> 'a tcp_transport \<Rightarrow> 'a tcp_transport \<times> node_id list" where
  "broadcast_to serialize clks self m [] t = (t, [])"
| "broadcast_to serialize clks self m (n # ns) t =
     (if n = self then broadcast_to serialize clks self m ns t
      else let (t1, res) = tcp_send_message serialize (clks n) n m t;
               (t2, sent) = broadcast_to serialize clks self m ns t1
           in (t2, case res of Ok _ \<Rightarrow> n # sent | _ \<Rightarrow> sent))"

definition router_broadcast ::
  "(network_message \<Rightarrow> (bytes, string) result) \<Rightarrow> (node_id \<Rightarrow> u64 \<times> u64) \<Rightarrow> network_message
     \<Rightarrow> ('a, 'h) cluster_router \<Rightarrow> ('a, 'h) cluster_router \<times> (node_id list, comm_error) result" where
  "router_broadcast serialize clks m r =
     (let (t, sent) = broadcast_to serialize clks (cr_node_id r) m (hm_keys (tt_connections (cr_transport r))) (cr_transport r)
      in (r\<lparr>cr_transport := t\<rparr>, Ok sent))"

definition router_broadcast_raft_message ::
  "(network_message \<Rightarrow> (bytes, string) result) \<Rightarrow> (node_id \<Rightarrow> u64 \<times> u64) \<Rightarrow> network_message
     \<Rightarrow> ('a, 'h) cluster_router \<Rightarrow> ('a, 'h) cluster_router \<times> (node_id list, comm_error) result" where
  "router_broadcast_raft_message serialize clks m r =
     (if \<not> is_raft_message m then (r, Err (CommConfiguration ''Expected Raft message''))
      else let (t, res) = tcp_broadcast_raft_message serialize clks m (cr_transport r) in (r\<lparr>cr_transport := t\<rparr>, res))"

definition router_maintenance :: "(node_id \<Rightarrow> u64) \<Rightarrow> ('a, 'h) cluster_router \<Rightarrow> ('a, 'h) cluster_router" where
  "router_maintenance nows r = r\<lparr>cr_transport := fst (cleanup_idle nows 30000 (cr_transport r))\<rparr>"

section \<open>Identifiers of messages\<close>

lemma low_half: "x AND 0xFFFFFFFF = take_bit 32 (x :: u64)"
proof -
  have "(0xFFFFFFFF :: u64) = mask 32" by (simp add: mask_eq_exp_minus_1)
  then show ?thesis by (simp only: take_bit_eq_mask)
qed

lemma message_id_low: "take_bit 32 (generate_message_id ts c) = take_bit 32 c"
  unfolding generate_message_id_def low_half
  by (rule bit_eqI) (auto simp: bit_simps)

lemma counter_low: "unat (take_bit 32 (s + word_of_nat i :: u64)) = (unat s + i) mod 2 ^ 32"
proof -
  have "unat (s + word_of_nat i :: u64) = (unat s + i) mod 2 ^ 64"
    by (simp add: unat_word_ariths unat_of_nat mod_simps take_bit_eq_mod)
  then have "unat (take_bit 32 (s + word_of_nat i :: u64)) = (unat s + i) mod 2 ^ 64 mod 2 ^ 32"
    by (subst unsigned_take_bit_eq) (simp add: take_bit_eq_mod)
  then show ?thesis using mod_mod_cancel [of "2 ^ 32" "2 ^ 64" "unat s + i"] by (simp add: le_imp_power_dvd)
qed

lemma add_mod_cancel:
  fixes a i j n :: nat
  assumes "(a + i) mod n = (a + j) mod n" and "i < n" and "j \<le> i"
  shows "i = j"
proof (rule ccontr)
  assume "i \<noteq> j"
  with assms have "n dvd (a + i) - (a + j)" using mod_eq_dvd_iff_nat [of "a + j" "a + i" n] by simp
  then show False using \<open>i \<noteq> j\<close> assms(2,3) dvd_imp_le [of n "i - j"] by simp
qed

lemma message_ids_of: "map (\<lambda>m. mh_message_id (cm_header m)) (send_cluster_messages reqs c)
  = map (\<lambda>i. generate_message_id (fst (fst (reqs ! i))) (c + word_of_nat i)) [0..<length reqs]"
proof (induction reqs c rule: send_cluster_messages.induct)
  case (2 clk source destination payload reqs c)
  have "[0..<length ((clk, source, destination, payload) # reqs)] = 0 # map Suc [0..<length reqs]"
    by (simp add: upt_conv_Cons map_Suc_upt del: upt_Suc)
  then show ?case using 2 [of "(c + 1, _)" "c + 1"]
    by (simp add: cluster_message_new_def algebra_simps o_def)
qed simp

text \<open>
  The identifiers a node gives to up to 2^32 messages in a row are all different, whatever its clock
  does in the meantime: runs backwards, stands still or wraps.
\<close>

theorem message_ids_distinct:
  assumes "length reqs \<le> 2 ^ 32"
  shows "distinct (map (\<lambda>m. mh_message_id (cm_header m)) (send_cluster_messages reqs counter))"
proof -
  have "i = j" if "i < length reqs" "j < length reqs"
    "generate_message_id t (counter + word_of_nat i) = generate_message_id u (counter + word_of_nat j)" for i j t u
  proof -
    from that(3) have "unat (take_bit 32 (counter + word_of_nat i)) = unat (take_bit 32 (counter + word_of_nat j))"
      by (metis message_id_low)
    then have "(unat counter + i) mod 2 ^ 32 = (unat counter + j) mod 2 ^ 32" by (simp only: counter_low)
    then show ?thesis using that(1,2) assms add_mod_cancel [of "unat counter" i "2 ^ 32" j]
        add_mod_cancel [of "unat counter" j "2 ^ 32" i] by (cases "j \<le> i") auto
  qed
  then show ?thesis unfolding message_ids_of by (auto simp: distinct_map inj_on_def)
qed

theorem message_ids_distinct_witness:
  "length [((9, 9), 1, 2, HealthCheck), ((5, 5), 1, 2, PayloadPing 1)] \<le> (2 ^ 32 :: nat)
   \<and> distinct (map (\<lambda>m. mh_message_id (cm_header m))
       (send_cluster_messages [((9, 9), 1, 2, HealthCheck), ((5, 5), 1, 2, PayloadPing 1)] (- 1)))"
  using message_ids_distinct [of "[((9, 9), 1, 2, HealthCheck), ((5, 5), 1, 2, PayloadPing 1)]" "- 1"] by simp

text \<open>Message number 2^32 after another gets its identifier when the low halves of the clock agree.\<close>

lemma message_id_repeats: "generate_message_id (ts + 2 ^ 32) (c + 2 ^ 32) = generate_message_id ts c"
proof -
  have "take_bit 32 (x + 2 ^ 32) = take_bit 32 (x :: u64)" for x
    by (rule unsigned_word_eqI [where 'a = nat]) (use counter_low [of x "2 ^ 32"] counter_low [of x 0] in simp)
  then show ?thesis by (simp only: generate_message_id_def low_half)
qed

lemma type_id_decides_name: "payload_to_type_id p = payload_to_type_id q \<longleftrightarrow> payload_type_name p = payload_type_name q"
  by (cases p; cases q) simp_all

lemma request_or_response: "payload_is_request p \<longleftrightarrow> \<not> payload_is_response p"
  by (cases p) simp_all

section \<open>What the transport counts\<close>

text \<open>
  The specification keeps, per connected node, the time of the last activity and the messages sent
  since the connection was made; the code keeps counters.
\<close>

datatype 'a transport_op =
  TConnect "(unit, string) result" u64 node_id 'a
| TSend "u64 \<times> u64" node_id network_message
| TBroadcast "node_id \<Rightarrow> u64 \<times> u64" network_message
| TDisconnect node_id
| TCleanup "node_id \<Rightarrow> u64" u64

definition drop_value :: "'s \<times> ('r, comm_error) result \<Rightarrow> 's \<times> (unit, comm_error) result" where
  "drop_value x = (fst x, case snd x of Ok _ \<Rightarrow> Ok () | Err e \<Rightarrow> Err e | Panic \<Rightarrow> Panic)"

fun transport_step :: "(network_message \<Rightarrow> (bytes, string) result) \<Rightarrow> 'a transport_op \<Rightarrow> 'a tcp_transport
    \<Rightarrow> 'a tcp_transport \<times> (unit, comm_error) result" where
  "transport_step serialize (TConnect opened now n addr) t = tcp_connect opened now n addr t"
| "transport_step serialize (TSend clk n m) t = tcp_send_message serialize clk n m t"
| "transport_step serialize (TBroadcast clks m) t = drop_value (tcp_broadcast_raft_message serialize clks m t)"
| "transport_step serialize (TDisconnect n) t = tcp_disconnect n t"
| "transport_step serialize (TCleanup nows threshold) t = (fst (cleanup_idle nows threshold t), Ok ())"

type_synonym ledger = "node_id \<Rightarrow> (u64 \<times> network_message list) option"

fun ledger_step :: "(network_message \<Rightarrow> (bytes, string) result) \<Rightarrow> 'a transport_op \<Rightarrow> ledger
    \<Rightarrow> ledger \<times> (unit, comm_error) result" where
  "ledger_step serialize (TConnect opened now n addr) l =
     (case opened of Ok _ \<Rightarrow> (l(n \<mapsto> (now, [])), Ok ()) | Err e \<Rightarrow> (l, Err (CommunicationFailed e)) | Panic \<Rightarrow> (l, Panic))"
| "ledger_step serialize (TSend clk n m) l =
     (case l n of None \<Rightarrow> (l, Err (CommunicationFailed ''No connection to node''))
      | Some (_, ms) \<Rightarrow> (case serialize m of Ok _ \<Rightarrow> (l(n \<mapsto> (snd clk, ms @ [m])), Ok ())
          | Err e \<Rightarrow> (l, Err (CommConfiguration (''Failed to serialize message: '' @ e))) | Panic \<Rightarrow> (l, Panic)))"
| "ledger_step serialize (TBroadcast clks m) l =
     (case serialize m of
        Ok _ \<Rightarrow> (\<lambda>n. map_option (\<lambda>(_, ms). (snd (clks n), ms @ [m])) (l n), Ok ())
      | Err e \<Rightarrow> (l, Err (CommConfiguration (''Failed to serialize message: '' @ e))) | Panic \<Rightarrow> (l, Panic))"
| "ledger_step serialize (TDisconnect n) l =
     (case l n of Some _ \<Rightarrow> (l(n := None), Ok ()) | None \<Rightarrow> (l, Err (CommunicationFailed ''No connection to node'')))"
| "ledger_step serialize (TCleanup nows threshold) l =
     (\<lambda>n. case l n of Some (a, ms) \<Rightarrow> if nows n - a > threshold then None else Some (a, ms) | None \<Rightarrow> None, Ok ())"

definition sent_size :: "(network_message \<Rightarrow> (bytes, string) result) \<Rightarrow> network_message \<Rightarrow> u64" where
  "sent_size serialize m = (case serialize m of Ok s \<Rightarrow> word_of_nat (length s) | _ \<Rightarrow> 0)"

definition counts_of :: "(network_message \<Rightarrow> (bytes, string) result) \<Rightarrow> network_message list \<Rightarrow> u64 \<times> u64 \<times> u64" where
  "counts_of serialize ms =
     (sum_list (map (sent_size serialize) ms), word_of_nat (length ms), word_of_nat (length (filter is_raft_message ms)))"

definition ledger_view :: "'a connection_info \<Rightarrow> u64 \<times> (u64 \<times> u64 \<times> u64)" where
  "ledger_view c = (ci_last_activity c, ci_bytes_sent c, ci_messages_sent c, ci_raft_messages_sent c)"

definition ledger_ok :: "(network_message \<Rightarrow> (bytes, string) result) \<Rightarrow> ledger \<Rightarrow> 'a tcp_transport \<Rightarrow> bool" where
  "ledger_ok serialize l t \<longleftrightarrow> hm_ok (tt_connections t) \<and>
     (\<forall>n. map_option ledger_view (hm_get (tt_connections t) n)
        = map_option (\<lambda>(a, ms). (a, counts_of serialize ms)) (l n))"

lemma ledger_cases:
  assumes "ledger_ok serialize l t"
  obtains "hm_get (tt_connections t) n = None" "l n = None"
  | c a ms where "hm_get (tt_connections t) n = Some c" "l n = Some (a, ms)" "ledger_view c = (a, counts_of serialize ms)"
proof -
  from assms have "map_option ledger_view (hm_get (tt_connections t) n)
      = map_option (\<lambda>(a, ms). (a, counts_of serialize ms)) (l n)"
    by (simp add: ledger_ok_def)
  then show ?thesis using that by (cases "l n"; cases "hm_get (tt_connections t) n") auto
qed

lemma note_sent_view:
  assumes "ledger_view c = (a, counts_of serialize ms)" and "serialize m = Ok s"
  shows "ledger_view (note_sent clk s m c) = (snd clk, counts_of serialize (ms @ [m]))"
  using assms
  by (simp add: ledger_view_def note_sent_def record_message_sent_def record_bytes_sent_def counts_of_def
      sent_size_def)

lemma hm_get_map: "map_of (map (\<lambda>(n, c). (n, f n c)) m) k = map_option (f k) (map_of m k)"
  by (induction m) auto

lemma hm_ok_map: "hm_ok (map (\<lambda>(n, c). (n, f n c)) m) = hm_ok m"
  by (simp add: hm_ok_def o_def case_prod_beta)

lemma ledger_okI:
  assumes "hm_ok (tt_connections t)"
    and "\<And>n. map_option ledger_view (hm_get (tt_connections t) n)
        = map_option (\<lambda>(a, ms). (a, counts_of serialize ms)) (l n)"
  shows "ledger_ok serialize l t"
  using assms by (simp add: ledger_ok_def)

lemma ledger_get:
  "ledger_ok serialize l t \<Longrightarrow> map_option ledger_view (hm_get (tt_connections t) n)
     = map_option (\<lambda>(a, ms). (a, counts_of serialize ms)) (l n)"
  by (simp add: ledger_ok_def)

lemma ledger_hm_ok: "ledger_ok serialize l t \<Longrightarrow> hm_ok (tt_connections t)"
  by (simp add: ledger_ok_def)

lemma connection_new_view: "ledger_view (connection_info_new now n addr) = (now, counts_of serialize [])"
  by (simp add: ledger_view_def connection_info_new_def counts_of_def)

lemma ledger_broadcast:
  assumes "ledger_ok serialize l t" and "serialize m = Ok s"
  shows "ledger_ok serialize (\<lambda>n. map_option (\<lambda>(_, ms). (snd (clks n), ms @ [m])) (l n))
    (t\<lparr>tt_connections := map (\<lambda>(n, c). (n, note_sent (clks n) s m c)) (tt_connections t)\<rparr>)"
proof (rule ledger_okI)
  fix n
  show "map_option ledger_view (hm_get (tt_connections
      (t\<lparr>tt_connections := map (\<lambda>(n, c). (n, note_sent (clks n) s m c)) (tt_connections t)\<rparr>)) n)
    = map_option (\<lambda>(a, ms). (a, counts_of serialize ms)) (map_option (\<lambda>(_, ms). (snd (clks n), ms @ [m])) (l n))"
    using assms(1) by (rule ledger_cases [of _ _ _ n]) (simp_all add: hm_get_map note_sent_view [where serialize = serialize, OF _ assms(2)])
qed (simp add: hm_ok_map ledger_hm_ok [OF assms(1)])

lemma ledger_cleanup:
  assumes "ledger_ok serialize l t"
  shows "ledger_ok serialize
    (\<lambda>n. case l n of Some (a, ms) \<Rightarrow> if nows n - a > threshold then None else Some (a, ms) | None \<Rightarrow> None)
    (fst (cleanup_idle nows threshold t))"
proof (rule ledger_okI)
  fix n
  show "map_option ledger_view (hm_get (tt_connections (fst (cleanup_idle nows threshold t))) n)
    = map_option (\<lambda>(a, ms). (a, counts_of serialize ms))
        (case l n of Some (a, ms) \<Rightarrow> if nows n - a > threshold then None else Some (a, ms) | None \<Rightarrow> None)"
    using assms
    by (rule ledger_cases [of _ _ _ n])
      (auto simp: cleanup_idle_def Let_def hm_get_retain [OF ledger_hm_ok [OF assms]] connection_is_idle_def ledger_view_def)
qed (simp add: cleanup_idle_def Let_def ledger_hm_ok [OF assms])

lemma ledger_simulates:
  assumes "ledger_ok serialize l t"
  shows "snd (transport_step serialize x t) = snd (ledger_step serialize x l)
    \<and> ledger_ok serialize (fst (ledger_step serialize x l)) (fst (transport_step serialize x t))"
proof (cases x)
  case (TConnect opened now n addr)
  then show ?thesis using assms connection_new_view [of now n addr serialize]
    by (cases opened) (auto simp: tcp_connect_def ledger_ok_def)
next
  case (TSend clk n m)
  from assms show ?thesis
  proof (rule ledger_cases [of _ _ _ n])
    assume "hm_get (tt_connections t) n = None" "l n = None"
    with TSend assms show ?thesis by (simp add: tcp_send_message_def)
  next
    fix c a ms
    assume "hm_get (tt_connections t) n = Some c" "l n = Some (a, ms)" "ledger_view c = (a, counts_of serialize ms)"
    with TSend assms note_sent_view [of c a serialize ms m] show ?thesis
      by (cases "serialize m") (auto simp: tcp_send_message_def ledger_ok_def)
  qed
next
  case (TBroadcast clks m)
  then show ?thesis using assms ledger_broadcast [OF assms]
    by (cases "serialize m") (simp_all add: tcp_broadcast_raft_message_def drop_value_def)
next
  case (TDisconnect n)
  from assms show ?thesis
    by (rule ledger_cases [of _ _ _ n]) (use assms TDisconnect in \<open>auto simp: tcp_disconnect_def ledger_ok_def\<close>)
next
  case (TCleanup nows threshold)
  then show ?thesis using ledger_cleanup [OF assms] by simp
qed

interpretation tl: relational_refinement "ledger_ok serialize" "transport_step serialize" "ledger_step serialize"
  by unfold_locales (rule ledger_simulates)

text \<open>
  The transport refines a ledger of the messages sent over each connection: every operation answers
  as on the ledger, and afterwards the counters of a connection are the bytes, the number and the
  number of Raft messages in its ledger, up to the wrap of 64 bits. A new connection to the same node
  starts an empty ledger.
\<close>

theorem transport_refines_ledger:
  "snd (run_ops (transport_step serialize) xs (tcp_transport_new addr))
     = snd (run_ops (ledger_step serialize) xs (\<lambda>_. None))
   \<and> (\<forall>n. map_option ledger_view (hm_get (tt_connections (fst (run_ops (transport_step serialize) xs (tcp_transport_new addr)))) n)
        = map_option (\<lambda>(a, ms). (a, counts_of serialize ms)) (fst (run_ops (ledger_step serialize) xs (\<lambda>_. None)) n))"
proof -
  have "ledger_ok serialize (\<lambda>_. None) (tcp_transport_new addr)"
    by (simp add: ledger_ok_def tcp_transport_new_def)
  from tl.run_related [OF this, of xs] show ?thesis by (simp add: ledger_ok_def)
qed

section \<open>Clocks that step back\<close>

text \<open>
  The age of a connection is a difference of 64-bit numbers: when the clock has stepped back by a
  millisecond since the last activity the age is huge and the maintenance closes the connection.
\<close>

lemma clock_step_back_closes:
  "connection_is_idle (now - 1) 30000 (record_message_sent now m c)"
  by (simp add: connection_is_idle_def record_message_sent_def word_less_nat_alt unsigned_minus_1_eq_mask mask_eq_exp_minus_1)

text \<open>A broadcast of the router leaves the node itself out; the one for Raft messages does not.\<close>

lemma broadcast_skips_self: "self \<notin> set (snd (broadcast_to serialize clks self m ns t))"
  by (induction ns arbitrary: t) (auto simp: Let_def case_prod_beta split: result.split)

end
