(* ===== verification/Ha_Client.thy ===== *)
theory Ha_Client
  imports Clocks
begin

text \<open>
  The client of \<^verbatim>\<open>src/kaelix-cluster/src/ha/client.rs\<close> that retries a request on the endpoints of a
  cluster. Addresses are values of a type of their own, the request and the clock are arguments: for an
  attempt on an endpoint they give its response, or nothing for an error or a timeout, its duration and
  the time at its end. The delay before a retry is left out. A request runs alone; the two tasks of the
  client are steps of their own. The scores that rank endpoints use the floating-point operations given
  as an argument.
\<close>

section \<open>Endpoints\<close>

datatype ha_error =
  HaConfiguration string | HaNetwork string | HaTimeout string | NoHealthyEndpoints
| EndpointAlreadyExists | EndpointNotFound | AllEndpointsFailed | LeadershipTransferFailed string
| FailoverFailed string | HealthCheckFailed string | ClusterNotReady

record failover_client_config =
  fc_max_retries :: usize
  fc_initial_retry_delay :: duration
  fc_max_retry_delay :: duration
  fc_health_check_interval :: duration
  fc_circuit_breaker_threshold :: usize
  fc_circuit_breaker_timeout :: duration
  fc_request_timeout :: duration

definition failover_client_config_default :: failover_client_config where
  "failover_client_config_default =
     \<lparr>fc_max_retries = 3, fc_initial_retry_delay = 100 * 1000000, fc_max_retry_delay = 30 * 1000000000,
      fc_health_check_interval = 5 * 1000000000, fc_circuit_breaker_threshold = 5,
      fc_circuit_breaker_timeout = 60 * 1000000000, fc_request_timeout = 30 * 1000000000\<rparr>"

datatype endpoint_health = EhHealthy | EhDegraded | EhFailed | EhRecovering

record 'a endpoint_info =
  ei_address :: 'a
  ei_health :: endpoint_health
  ei_consecutive_failures :: usize
  ei_last_success :: "instant option"
  ei_last_failure :: "instant option"
  ei_response_times :: "duration list"
  ei_total_requests :: u64
  ei_successful_requests :: u64

definition endpoint_info_new :: "'a \<Rightarrow> 'a endpoint_info" where
  "endpoint_info_new addr =
     \<lparr>ei_address = addr, ei_health = EhHealthy, ei_consecutive_failures = 0, ei_last_success = None,
      ei_last_failure = None, ei_response_times = [], ei_total_requests = 0, ei_successful_requests = 0\<rparr>"

definition endpoint_record_success :: "instant \<Rightarrow> duration \<Rightarrow> 'a endpoint_info \<Rightarrow> 'a endpoint_info" where
  "endpoint_record_success now response_time e =
     (let kept = (if length (ei_response_times e) \<ge> 100 then tl (ei_response_times e) else ei_response_times e)
      in e\<lparr>ei_health := EhHealthy, ei_consecutive_failures := 0, ei_last_success := Some now,
           ei_successful_requests := ei_successful_requests e + 1,
           ei_response_times := kept @ [response_time]\<rparr>)"

definition endpoint_record_failure :: "instant \<Rightarrow> 'a endpoint_info \<Rightarrow> 'a endpoint_info" where
  "endpoint_record_failure now e =
     (let failures = ei_consecutive_failures e + 1
      in e\<lparr>ei_consecutive_failures := failures, ei_last_failure := Some now,
           ei_health := (if 1 \<le> failures \<and> failures \<le> 2 then EhDegraded else EhFailed)\<rparr>)"

definition endpoint_is_healthy :: "'a endpoint_info \<Rightarrow> bool" where
  "endpoint_is_healthy e \<longleftrightarrow> ei_health e = EhHealthy \<or> ei_health e = EhRecovering"

definition average_response_time :: "'a endpoint_info \<Rightarrow> duration option" where
  "average_response_time e =
     (if ei_response_times e = [] then None
      else Some (sum_list (ei_response_times e) div length (ei_response_times e)))"

definition endpoint_success_rate :: "'f float_ops \<Rightarrow> 'a endpoint_info \<Rightarrow> 'f" where
  "endpoint_success_rate fl e =
     (if ei_total_requests e = 0 then fl_of_usize fl 1
      else fl_div fl (fl_of_usize fl (unat (ei_successful_requests e))) (fl_of_usize fl (unat (ei_total_requests e))))"

definition endpoint_score :: "'f float_ops \<Rightarrow> 'a endpoint_info \<Rightarrow> 'f" where
  "endpoint_score fl e =
     (let avg = (case average_response_time e of Some d \<Rightarrow> d | None \<Rightarrow> 100 * 1000000)
      in fl_add fl (fl_mul fl (fl_sub fl (fl_of_usize fl 1) (endpoint_success_rate fl e)) (fl_of_usize fl 1000))
           (fl_of_usize fl (as_millis avg)))"

section \<open>The client\<close>

record client_metrics =
  fm_total_requests :: u64
  fm_successful_requests :: u64
  fm_failed_requests :: u64
  fm_total_retries :: u64

definition client_metrics_default :: client_metrics where
  "client_metrics_default =
     \<lparr>fm_total_requests = 0, fm_successful_requests = 0, fm_failed_requests = 0, fm_total_retries = 0\<rparr>"

record 'a failover_client =
  fcl_config :: failover_client_config
  fcl_endpoints :: "'a endpoint_info list"
  fcl_metrics :: client_metrics

definition failover_client_new :: "failover_client_config \<Rightarrow> 'a list \<Rightarrow> 'a failover_client" where
  "failover_client_new config initial_endpoints =
     \<lparr>fcl_config = config, fcl_endpoints = map endpoint_info_new initial_endpoints,
      fcl_metrics = client_metrics_default\<rparr>"

text \<open>\<open>iter().min_by\<close> keeps the first of equal elements; scores that cannot be compared count as equal.\<close>

fun min_by_score :: "'f float_ops \<Rightarrow> 'a endpoint_info \<Rightarrow> 'a endpoint_info list \<Rightarrow> 'a endpoint_info" where
  "min_by_score fl best [] = best"
| "min_by_score fl best (e # es) =
     min_by_score fl (if fl_less fl (endpoint_score fl e) (endpoint_score fl best) then e else best) es"

definition select_endpoint :: "'f float_ops \<Rightarrow> 'a endpoint_info list \<Rightarrow> ('a, ha_error) result" where
  "select_endpoint fl endpoints =
     (case filter endpoint_is_healthy endpoints of
        e # es \<Rightarrow> Ok (ei_address (min_by_score fl e es))
      | [] \<Rightarrow>
      (case filter (\<lambda>e. ei_health e = EhRecovering) endpoints of
         e # _ \<Rightarrow> Ok (ei_address e)
       | [] \<Rightarrow>
       (case filter (\<lambda>e. ei_health e = EhDegraded) endpoints of
          e # _ \<Rightarrow> Ok (ei_address e)
        | [] \<Rightarrow> Err NoHealthyEndpoints)))"

fun on_endpoint :: "'a \<Rightarrow> ('a endpoint_info \<Rightarrow> 'a endpoint_info) \<Rightarrow> 'a endpoint_info list \<Rightarrow> 'a endpoint_info list" where
  "on_endpoint a f [] = []"
| "on_endpoint a f (e # es) = (if ei_address e = a then f e # es else e # on_endpoint a f es)"

definition count_request :: "'a endpoint_info \<Rightarrow> 'a endpoint_info" where
  "count_request e = e\<lparr>ei_total_requests := ei_total_requests e + 1\<rparr>"

definition note_request_success :: "usize \<Rightarrow> client_metrics \<Rightarrow> client_metrics" where
  "note_request_success retries m =
     m\<lparr>fm_total_requests := fm_total_requests m + 1, fm_successful_requests := fm_successful_requests m + 1,
       fm_total_retries := fm_total_retries m + word_of_nat retries\<rparr>"

definition note_request_failure :: "usize \<Rightarrow> client_metrics \<Rightarrow> client_metrics" where
  "note_request_failure retries m =
     m\<lparr>fm_total_requests := fm_total_requests m + 1, fm_failed_requests := fm_failed_requests m + 1,
       fm_total_retries := fm_total_retries m + word_of_nat retries\<rparr>"

type_synonym ('a, 't) request_answers = "nat \<Rightarrow> 'a \<Rightarrow> 't option \<times> duration \<times> instant"

function execute_loop ::
  "'f float_ops \<Rightarrow> ('a, 't) request_answers \<Rightarrow> usize \<Rightarrow> 'a failover_client
     \<Rightarrow> 'a failover_client \<times> ('t \<times> 'a \<times> usize, ha_error) result" where
  "execute_loop fl answer retries c =
     (case select_endpoint fl (fcl_endpoints c) of
        Err e \<Rightarrow> (c, Err e)
      | Panic \<Rightarrow> (c, Panic)
      | Ok endpoint \<Rightarrow>
          (let counted = on_endpoint endpoint count_request (fcl_endpoints c);
               (response, dur, now) = answer retries endpoint
           in case response of
                Some r \<Rightarrow>
                  (c\<lparr>fcl_endpoints := on_endpoint endpoint (endpoint_record_success now dur) counted,
                     fcl_metrics := note_request_success retries (fcl_metrics c)\<rparr>, Ok (r, endpoint, retries))
              | None \<Rightarrow>
                  (let failed = c\<lparr>fcl_endpoints := on_endpoint endpoint (endpoint_record_failure now) counted\<rparr>
                   in if retries \<ge> fc_max_retries (fcl_config c)
                      then (failed\<lparr>fcl_metrics := note_request_failure retries (fcl_metrics c)\<rparr>, Err AllEndpointsFailed)
                      else execute_loop fl answer (retries + 1) failed)))"
  by pat_completeness auto

termination
  by (relation "measure (\<lambda>(fl, answer, retries, c). fc_max_retries (fcl_config c) - retries)") auto

declare execute_loop.simps [simp del]

definition execute_request ::
  "'f float_ops \<Rightarrow> ('a, 't) request_answers \<Rightarrow> 'a failover_client
     \<Rightarrow> 'a failover_client \<times> ('t \<times> 'a \<times> usize, ha_error) result" where
  "execute_request fl answer c = execute_loop fl answer 0 c"

definition client_add_endpoint :: "'a \<Rightarrow> 'a failover_client \<Rightarrow> 'a failover_client \<times> (unit, ha_error) result" where
  "client_add_endpoint a c =
     (if \<exists>e \<in> set (fcl_endpoints c). ei_address e = a then (c, Err EndpointAlreadyExists)
      else (c\<lparr>fcl_endpoints := fcl_endpoints c @ [endpoint_info_new a]\<rparr>, Ok ()))"

definition client_remove_endpoint :: "'a \<Rightarrow> 'a failover_client \<Rightarrow> 'a failover_client \<times> (unit, ha_error) result" where
  "client_remove_endpoint a c =
     (let kept = filter (\<lambda>e. ei_address e \<noteq> a) (fcl_endpoints c)
      in (c\<lparr>fcl_endpoints := kept\<rparr>,
          if length kept = length (fcl_endpoints c) then Err EndpointNotFound else Ok ()))"

datatype 'a topology_change = NodeAdded node_id 'a "string list" | NodeRemoved node_id 'a string
| NodeUpdated node_id 'a "string list" "string list"

fun apply_topology_change :: "'a topology_change \<Rightarrow> 'a failover_client \<Rightarrow> 'a failover_client" where
  "apply_topology_change (NodeAdded _ a _) c =
     (if \<exists>e \<in> set (fcl_endpoints c). ei_address e = a then c
      else c\<lparr>fcl_endpoints := fcl_endpoints c @ [endpoint_info_new a]\<rparr>)"
| "apply_topology_change (NodeRemoved _ a _) c =
     c\<lparr>fcl_endpoints := filter (\<lambda>e. ei_address e \<noteq> a) (fcl_endpoints c)\<rparr>"
| "apply_topology_change (NodeUpdated _ a _ _) c =
     c\<lparr>fcl_endpoints := on_endpoint a (\<lambda>e. e\<lparr>ei_health := EhRecovering\<rparr>) (fcl_endpoints c)\<rparr>"

definition health_tick :: "instant \<Rightarrow> 'a failover_client \<Rightarrow> 'a failover_client" where
  "health_tick now c =
     c\<lparr>fcl_endpoints := map (\<lambda>e. case ei_last_failure e of
          Some t \<Rightarrow> if ei_health e = EhFailed \<and> now - t > fc_circuit_breaker_timeout (fcl_config c)
                    then e\<lparr>ei_health := EhRecovering\<rparr> else e
        | None \<Rightarrow> e) (fcl_endpoints c)\<rparr>"

definition client_metrics_of :: "'a failover_client \<Rightarrow> client_metrics \<times> usize \<times> usize" where
  "client_metrics_of c =
     (fcl_metrics c, length (filter endpoint_is_healthy (fcl_endpoints c)),
      length (filter (\<lambda>e. ei_health e = EhFailed) (fcl_endpoints c)))"

definition endpoint_status :: "'f float_ops \<Rightarrow> 'a failover_client \<Rightarrow> ('a \<times> endpoint_health \<times> 'f) list" where
  "endpoint_status fl c = map (\<lambda>e. (ei_address e, ei_health e, endpoint_success_rate fl e)) (fcl_endpoints c)"

section \<open>Which endpoint is selected\<close>

lemma min_by_score_in: "min_by_score fl e es \<in> set (e # es)"
proof (induction es arbitrary: e)
  case (Cons x es)
  then show ?case using Cons.IH [of x] Cons.IH [of e] by auto
qed simp

lemma min_by_score_filter:
  assumes "filter P es = x # xs"
  shows "min_by_score fl x xs \<in> set es \<and> P (min_by_score fl x xs)"
proof -
  have "min_by_score fl x xs \<in> set (filter P es)" unfolding assms by (rule min_by_score_in)
  then show ?thesis by simp
qed

lemma select_healthy:
  assumes "e \<in> set es" and "endpoint_is_healthy e"
  obtains s where "select_endpoint fl es = Ok (ei_address s)" "s \<in> set es" "endpoint_is_healthy s"
proof -
  obtain x xs where f: "filter endpoint_is_healthy es = x # xs"
    using assms by (metis filter_empty_conv neq_Nil_conv)
  then show ?thesis using that [of "min_by_score fl x xs"] min_by_score_filter [OF f, of fl]
    by (simp add: select_endpoint_def)
qed

lemma recovering_branch_dead: "filter endpoint_is_healthy es = [] \<Longrightarrow> filter (\<lambda>e. ei_health e = EhRecovering) es = []"
  by (auto simp: filter_empty_conv endpoint_is_healthy_def)

text \<open>A failed endpoint is never selected, and the selection fails only when all endpoints have failed.\<close>

lemma select_endpoint_verdict:
  "case select_endpoint fl es of
     Ok a \<Rightarrow> \<exists>e \<in> set es. ei_address e = a \<and> ei_health e \<noteq> EhFailed
   | Err er \<Rightarrow> er = NoHealthyEndpoints \<and> (\<forall>e \<in> set es. ei_health e = EhFailed)
   | Panic \<Rightarrow> False"
proof (cases "filter endpoint_is_healthy es")
  case Nil
  note rec = recovering_branch_dead [OF Nil]
  show ?thesis
  proof (cases "filter (\<lambda>e. ei_health e = EhDegraded) es")
    case n: Nil
    have "ei_health e = EhFailed" if "e \<in> set es" for e
      using that Nil n rec by (cases "ei_health e") (auto simp: filter_empty_conv endpoint_is_healthy_def)
    then show ?thesis using Nil n rec by (simp add: select_endpoint_def)
  next
    case (Cons e t)
    then have "e \<in> set es" "ei_health e = EhDegraded" by (auto simp: filter_eq_Cons_iff)
    then show ?thesis using Nil Cons rec by (auto simp: select_endpoint_def)
  qed
next
  case (Cons e t)
  then show ?thesis using min_by_score_filter [OF Cons, of fl] by (auto simp: select_endpoint_def endpoint_is_healthy_def)
qed

section \<open>A request fails over to an endpoint that answers\<close>

definition healthy_count :: "'a endpoint_info list \<Rightarrow> nat" where
  "healthy_count es = length (filter endpoint_is_healthy es)"

lemma on_endpoint_addresses:
  "(\<And>e. ei_address (f e) = ei_address e) \<Longrightarrow> map ei_address (on_endpoint a f es) = map ei_address es"
  by (induction es) auto

lemma count_request_simps [simp]:
  "ei_address (count_request e) = ei_address e" "ei_health (count_request e) = ei_health e"
  "endpoint_is_healthy (count_request e) = endpoint_is_healthy e"
  by (simp_all add: count_request_def endpoint_is_healthy_def)

lemma record_failure_simps [simp]:
  "ei_address (endpoint_record_failure now e) = ei_address e"
  "\<not> endpoint_is_healthy (endpoint_record_failure now e)"
  by (simp_all add: endpoint_record_failure_def endpoint_is_healthy_def Let_def)

lemma record_success_address [simp]: "ei_address (endpoint_record_success now d e) = ei_address e"
  by (simp add: endpoint_record_success_def Let_def)

lemma on_endpoint_twice:
  "(\<And>e. ei_address (g e) = ei_address e) \<Longrightarrow> on_endpoint a f (on_endpoint a g es) = on_endpoint a (f \<circ> g) es"
  by (induction es) auto

lemma on_endpoint_other: "e \<in> set es \<Longrightarrow> ei_address e \<noteq> a \<Longrightarrow> e \<in> set (on_endpoint a f es)"
  by (induction es) auto

lemma on_endpoint_unhealthy:
  assumes "s \<in> set es" and "endpoint_is_healthy s" and "distinct (map ei_address es)"
    and "\<And>e. \<not> endpoint_is_healthy (f e)"
  shows "Suc (healthy_count (on_endpoint (ei_address s) f es)) = healthy_count es"
  using assms(1-3)
proof (induction es)
  case (Cons e es)
  show ?case
  proof (cases "ei_address e = ei_address s")
    case True
    then have "e = s" using Cons.prems by (auto simp: image_iff)
    then show ?thesis using Cons.prems(2) assms(4) by (simp add: healthy_count_def)
  next
    case False
    then show ?thesis using Cons by (auto simp: healthy_count_def)
  qed
qed simp

definition good_endpoint :: "('a, 't) request_answers \<Rightarrow> 'a endpoint_info list \<Rightarrow> 'a \<Rightarrow> bool" where
  "good_endpoint answer es g \<longleftrightarrow>
     (\<exists>e \<in> set es. ei_address e = g \<and> endpoint_is_healthy e) \<and> (\<forall>k. fst (answer k g) \<noteq> None)"

lemma execute_loop_reaches_good:
  assumes "distinct (map ei_address (fcl_endpoints c))" and "good_endpoint answer (fcl_endpoints c) g"
    and "healthy_count (fcl_endpoints c) + retries \<le> fc_max_retries (fcl_config c) + 1"
  shows "\<exists>c' r a k. execute_loop fl answer retries c = (c', Ok (r, a, k)) \<and> fst (answer k a) = Some r
    \<and> k < retries + healthy_count (fcl_endpoints c)"
  using assms
proof (induction fl answer retries c rule: execute_loop.induct)
  case (1 fl answer retries c)
  obtain e0 where e0: "e0 \<in> set (fcl_endpoints c)" "ei_address e0 = g" "endpoint_is_healthy e0"
    and ans: "\<And>k. fst (answer k g) \<noteq> None"
    using "1.prems"(2) by (auto simp: good_endpoint_def)
  obtain s where s: "select_endpoint fl (fcl_endpoints c) = Ok (ei_address s)" "s \<in> set (fcl_endpoints c)"
      "endpoint_is_healthy s"
    using select_healthy [OF e0(1,3)] .
  have pos: "0 < healthy_count (fcl_endpoints c)"
    using e0 by (auto simp: healthy_count_def filter_empty_conv)
  obtain response dur now where resp: "answer retries (ei_address s) = (response, dur, now)"
    by (cases "answer retries (ei_address s)")
  show ?case
  proof (cases response)
    case (Some r)
    with s(1) resp pos show ?thesis
      by (intro exI conjI) (auto simp: execute_loop.simps [of _ _ _ c])
  next
    case None
    then have ne: "ei_address s \<noteq> g" using ans [of retries] resp by auto
    let ?es = "on_endpoint (ei_address s) (endpoint_record_failure now \<circ> count_request) (fcl_endpoints c)"
    let ?c = "c\<lparr>fcl_endpoints := ?es\<rparr>"
    have eq: "on_endpoint (ei_address s) (endpoint_record_failure now)
        (on_endpoint (ei_address s) count_request (fcl_endpoints c)) = ?es"
      by (rule on_endpoint_twice) simp
    have less: "Suc (healthy_count ?es) = healthy_count (fcl_endpoints c)"
      using s "1.prems"(1) by (intro on_endpoint_unhealthy) auto
    have in_es: "e0 \<in> set ?es" using e0 ne by (intro on_endpoint_other) auto
    have good: "good_endpoint answer ?es g" using in_es e0 ans by (auto simp: good_endpoint_def)
    have pos': "0 < healthy_count ?es" using in_es e0 by (auto simp: healthy_count_def filter_empty_conv)
    have retry: "\<not> retries \<ge> fc_max_retries (fcl_config c)" using less pos' "1.prems"(3) by simp
    have dist: "distinct (map ei_address ?es)" using "1.prems"(1) by (simp add: on_endpoint_addresses)
    have step: "execute_loop fl answer retries c = execute_loop fl answer (retries + 1) ?c"
      using s(1) resp None retry by (simp add: execute_loop.simps [of _ _ _ c] eq)
    have "\<exists>c' r a k. execute_loop fl answer (retries + 1) ?c = (c', Ok (r, a, k)) \<and> fst (answer k a) = Some r
        \<and> k < retries + 1 + healthy_count (fcl_endpoints ?c)"
      by (rule "1.IH" [OF s(1) refl refl resp [symmetric] refl None refl retry, unfolded eq])
        (use dist good less "1.prems"(3) in simp_all)
    then show ?thesis unfolding step less [symmetric] by simp
  qed
qed

text \<open>
  C23: A request that runs alone on a client whose endpoints have distinct addresses succeeds when one healthy
  endpoint answers every attempt and the retries suffice to try each healthy endpoint once: an endpoint that
  fails is set aside until the others have been tried. The number of retries is less than the number of
  healthy endpoints.
\<close>

theorem request_fails_over:
  assumes "distinct (map ei_address (fcl_endpoints c))"
    and "\<exists>e \<in> set (fcl_endpoints c). ei_address e = g \<and> endpoint_is_healthy e"
    and "\<forall>k. fst (answer k g) \<noteq> None"
    and "healthy_count (fcl_endpoints c) \<le> fc_max_retries (fcl_config c) + 1"
  shows "\<exists>c' r a k. execute_request fl answer c = (c', Ok (r, a, k)) \<and> fst (answer k a) = Some r
    \<and> k < healthy_count (fcl_endpoints c)"
  using execute_loop_reaches_good [of c answer g 0 fl] assms
  by (simp add: execute_request_def good_endpoint_def)

theorem request_fails_over_witness:
  "\<exists>c' r a k. execute_request sample_floats (\<lambda>k a. (if a = 3 then Some ''ok'' else None, 5, 7))
       (failover_client_new failover_client_config_default [1, 2, 3 :: nat]) = (c', Ok (r, a, k)) \<and> k < 3"
  using request_fails_over [of "failover_client_new failover_client_config_default [1, 2, 3 :: nat]" 3
      "\<lambda>k a. (if a = 3 then Some ''ok'' else None, 5, 7)" sample_floats]
  by (fastforce simp: failover_client_new_def failover_client_config_default_def endpoint_info_new_def
      healthy_count_def endpoint_is_healthy_def)

text \<open>
  The addresses have to be distinct, and \<open>FailoverClient::new\<close> does not see to it: the failure of an endpoint is
  recorded at the first one with its address, so that a second one with that address stays healthy and is
  tried until the retries are used up, although another endpoint would answer.
\<close>

lemma repeated_address_blocks:
  "snd (execute_request sample_floats (\<lambda>k a. (if a = 2 then Some ''ok'' else None, 5, 7))
     (failover_client_new failover_client_config_default [1, 1, 2 :: nat])) = Err AllEndpointsFailed"
  by (simp add: execute_request_def execute_loop.simps select_endpoint_def failover_client_new_def
      failover_client_config_default_def endpoint_info_new_def endpoint_is_healthy_def endpoint_record_failure_def
      endpoint_score_def average_response_time_def endpoint_success_rate_def count_request_def sample_floats_def Let_def)

section \<open>Invariants of the client\<close>

datatype ('a, 't) client_op =
  CoRequest "('a, 't) request_answers" | CoAdd 'a | CoRemove 'a | CoTopology "'a topology_change" | CoTick instant

fun client_step :: "'f float_ops \<Rightarrow> ('a, 't) client_op \<Rightarrow> 'a failover_client \<Rightarrow> 'a failover_client" where
  "client_step fl (CoRequest answer) c = fst (execute_request fl answer c)"
| "client_step fl (CoAdd a) c = fst (client_add_endpoint a c)"
| "client_step fl (CoRemove a) c = fst (client_remove_endpoint a c)"
| "client_step fl (CoTopology ch) c = apply_topology_change ch c"
| "client_step fl (CoTick now) c = health_tick now c"

definition client_ok :: "'a failover_client \<Rightarrow> bool" where
  "client_ok c \<longleftrightarrow> distinct (map ei_address (fcl_endpoints c))
     \<and> fm_total_requests (fcl_metrics c) = fm_successful_requests (fcl_metrics c) + fm_failed_requests (fcl_metrics c)"

lemma execute_loop_ok: "client_ok c \<Longrightarrow> client_ok (fst (execute_loop fl answer retries c))"
proof (induction fl answer retries c rule: execute_loop.induct)
  case (1 fl answer retries c)
  show ?case
  proof (cases "select_endpoint fl (fcl_endpoints c)")
    case (Ok a)
    obtain response dur now where resp: "answer retries a = (response, dur, now)" by (cases "answer retries a")
    show ?thesis
    proof (cases "response = None \<and> \<not> retries \<ge> fc_max_retries (fcl_config c)")
      case True
      then show ?thesis
        using "1.IH" [OF Ok refl refl resp [symmetric] refl _ refl] "1.prems" Ok resp
        by (simp add: execute_loop.simps [of _ _ _ c] client_ok_def on_endpoint_addresses)
    next
      case False
      then show ?thesis using "1.prems" Ok resp
        by (cases response)
          (auto simp: execute_loop.simps [of _ _ _ c] client_ok_def on_endpoint_addresses
            note_request_success_def note_request_failure_def)
    qed
  qed (use "1.prems" in \<open>simp_all add: execute_loop.simps [of _ _ _ c]\<close>)
qed

lemma client_step_ok:
  assumes "client_ok c"
  shows "client_ok (client_step fl x c)"
proof (cases x)
  case (CoRequest answer)
  then show ?thesis using execute_loop_ok [OF assms] by (simp add: execute_request_def)
next
  case (CoTopology ch)
  then show ?thesis using assms
    by (cases ch) (auto simp: client_ok_def on_endpoint_addresses distinct_map_filter endpoint_info_new_def image_iff)
next
  case (CoTick now)
  have "map ei_address (fcl_endpoints (health_tick now c)) = map ei_address (fcl_endpoints c)"
    by (auto simp: health_tick_def split: option.split)
  then show ?thesis using assms CoTick by (simp add: client_ok_def) (simp add: health_tick_def)
qed (use assms in \<open>auto simp: client_ok_def client_add_endpoint_def client_remove_endpoint_def Let_def
      distinct_map_filter endpoint_info_new_def image_iff\<close>)

lemma client_always_ok:
  assumes "distinct initial"
  shows "client_ok (foldl (\<lambda>c x. client_step fl x c) (failover_client_new config initial) xs)"
proof (induction xs rule: rev_induct)
  case Nil
  then show ?case using assms
    by (simp add: client_ok_def failover_client_new_def client_metrics_default_def endpoint_info_new_def o_def)
qed (simp add: client_step_ok)

text \<open>
  A client of one endpoint that is down: the third failure marks it as failed, the fourth attempt
  finds no endpoint and returns early, and no metric records that there was a request.
\<close>

lemma lost_request_uncounted:
  "case execute_request sample_floats (\<lambda>k a. (None :: unit option, 5, 7))
       (failover_client_new failover_client_config_default [1 :: nat]) of
     (c, r) \<Rightarrow> r = Err NoHealthyEndpoints \<and> fcl_metrics c = client_metrics_default"
  unfolding execute_request_def
  by (simp add: execute_loop.simps failover_client_new_def failover_client_config_default_def
      endpoint_info_new_def select_endpoint_def endpoint_is_healthy_def count_request_def
      endpoint_record_failure_def)

end
