(* ===== verification/Ha_Control.thy ===== *)
theory Ha_Control
  imports Clocks
begin

text \<open>
  Health monitoring, leadership and failover of a cluster, \<^verbatim>\<open>src/kaelix-cluster/src/ha/monitor.rs\<close>, \<^verbatim>\<open>mod.rs\<close>
  and \<^verbatim>\<open>coordinator.rs\<close>. Floating-point operations, readings of the clock, generated node identifiers and the
  time a step takes beyond its own waiting are arguments. The kinds of failover and the states of a
  member are those the two files match on. \<open>score.max(0.0).min(1.0)\<close> is the clamp to 0 and 1.
\<close>

section \<open>Health of nodes\<close>

record ('a, 'f) node_health =
  nh_node_id :: node_id
  nh_address :: 'a
  nh_is_alive :: bool
  nh_load_average :: 'f
  nh_memory_usage :: 'f
  nh_network_latency :: duration
  nh_last_heartbeat :: instant
  nh_failure_count :: u32
  nh_health_score :: 'f
  nh_predicted_failure_time :: "instant option"

definition node_health_new :: "'f float_ops \<Rightarrow> instant \<Rightarrow> node_id \<Rightarrow> 'a \<Rightarrow> ('a, 'f) node_health" where
  "node_health_new fl now n a =
     \<lparr>nh_node_id = n, nh_address = a, nh_is_alive = True, nh_load_average = fl_tenths fl 0,
      nh_memory_usage = fl_tenths fl 0, nh_network_latency = 0, nh_last_heartbeat = now,
      nh_failure_count = 0, nh_health_score = fl_tenths fl 10, nh_predicted_failure_time = None\<rparr>"

definition calculate_health_score :: "'f float_ops \<Rightarrow> ('a, 'f) node_health \<Rightarrow> ('a, 'f) node_health" where
  "calculate_health_score fl h =
     (if \<not> nh_is_alive h then h\<lparr>nh_health_score := fl_tenths fl 0\<rparr>
      else let s0 = fl_tenths fl 10;
        s1 = (if fl_less fl (fl_tenths fl 8) (nh_load_average h)
              then fl_sub fl s0 (fl_mul fl (fl_sub fl (nh_load_average h) (fl_tenths fl 8)) (fl_tenths fl 5)) else s0);
        s2 = (if fl_less fl (fl_tenths fl 9) (nh_memory_usage h)
              then fl_sub fl s1 (fl_mul fl (fl_sub fl (nh_memory_usage h) (fl_tenths fl 9)) (fl_of_usize fl 2)) else s1);
        s3 = (if nh_network_latency h > 100 * 1000000
              then fl_sub fl s2 (fl_mul fl (fl_div fl (fl_sub fl (fl_of_usize fl (as_millis (nh_network_latency h)))
                     (fl_of_usize fl 100)) (fl_of_usize fl 1000)) (fl_tenths fl 1)) else s2);
        s4 = fl_sub fl s3 (fl_mul fl (fl_of_usize fl (unat (nh_failure_count h))) (fl_tenths fl 1))
      in h\<lparr>nh_health_score := fl_clamp fl (fl_tenths fl 0) (fl_tenths fl 10) s4\<rparr>)"

definition health_update_metrics ::
  "'f float_ops \<Rightarrow> instant \<Rightarrow> 'f \<Rightarrow> 'f \<Rightarrow> duration \<Rightarrow> ('a, 'f) node_health \<Rightarrow> ('a, 'f) node_health" where
  "health_update_metrics fl now load_avg memory_usage latency h =
     calculate_health_score fl (h\<lparr>nh_load_average := load_avg, nh_memory_usage := memory_usage,
       nh_network_latency := latency, nh_last_heartbeat := now\<rparr>)"

definition health_mark_failure :: "'f float_ops \<Rightarrow> ('a, 'f) node_health \<Rightarrow> ('a, 'f) node_health" where
  "health_mark_failure fl h =
     h\<lparr>nh_is_alive := False, nh_failure_count := nh_failure_count h + 1, nh_health_score := fl_tenths fl 0\<rparr>"

definition health_mark_recovery :: "'f float_ops \<Rightarrow> instant \<Rightarrow> ('a, 'f) node_health \<Rightarrow> ('a, 'f) node_health" where
  "health_mark_recovery fl now h =
     calculate_health_score fl (h\<lparr>nh_is_alive := True, nh_failure_count := 0, nh_last_heartbeat := now\<rparr>)"

definition health_is_healthy :: "'f float_ops \<Rightarrow> ('a, 'f) node_health \<Rightarrow> bool" where
  "health_is_healthy fl h \<longleftrightarrow> nh_is_alive h \<and> fl_less fl (fl_tenths fl 5) (nh_health_score h)"

record 'f capacity_status =
  cs_total_cpu_capacity :: 'f
  cs_used_cpu_capacity :: 'f
  cs_total_memory_capacity :: u64
  cs_used_memory_capacity :: u64
  cs_total_storage_capacity :: u64
  cs_used_storage_capacity :: u64
  cs_healthy_nodes :: usize
  cs_total_nodes :: usize

definition capacity_cpu_utilization :: "'f float_ops \<Rightarrow> 'f capacity_status \<Rightarrow> 'f" where
  "capacity_cpu_utilization fl c =
     (if \<not> fl_less fl (cs_total_cpu_capacity c) (fl_tenths fl 0) \<and> \<not> fl_less fl (fl_tenths fl 0) (cs_total_cpu_capacity c)
      then fl_tenths fl 0
      else fl_min fl (fl_div fl (cs_used_cpu_capacity c) (cs_total_cpu_capacity c)) (fl_tenths fl 10))"

definition capacity_memory_utilization :: "'f float_ops \<Rightarrow> 'f capacity_status \<Rightarrow> 'f" where
  "capacity_memory_utilization fl c =
     (if cs_total_memory_capacity c = 0 then fl_tenths fl 0
      else fl_min fl (fl_div fl (fl_of_usize fl (unat (cs_used_memory_capacity c)))
             (fl_of_usize fl (unat (cs_total_memory_capacity c)))) (fl_tenths fl 10))"

definition availability_ratio :: "'f float_ops \<Rightarrow> 'f capacity_status \<Rightarrow> 'f" where
  "availability_ratio fl c =
     (if cs_total_nodes c = 0 then fl_tenths fl 0
      else fl_div fl (fl_of_usize fl (cs_healthy_nodes c)) (fl_of_usize fl (cs_total_nodes c)))"

definition is_under_stress :: "'f float_ops \<Rightarrow> 'f capacity_status \<Rightarrow> bool" where
  "is_under_stress fl c \<longleftrightarrow> fl_less fl (fl_tenths fl 8) (capacity_cpu_utilization fl c)
     \<or> fl_less fl (fl_tenths fl 9) (capacity_memory_utilization fl c) \<or> fl_less fl (availability_ratio fl c) (fl_tenths fl 7)"

record ('a, 'f) health_report =
  hr_timestamp :: system_time
  hr_node_healths :: "('a, 'f) node_health list"
  hr_capacity_status :: "'f capacity_status"
  hr_cluster_health_score :: 'f
  hr_recommendations :: "string list"

definition is_cluster_healthy :: "'f float_ops \<Rightarrow> ('a, 'f) health_report \<Rightarrow> bool" where
  "is_cluster_healthy fl r \<longleftrightarrow> fl_less fl (fl_tenths fl 7) (hr_cluster_health_score r)
     \<and> \<not> is_under_stress fl (hr_capacity_status r)"

definition get_critical_nodes :: "'f float_ops \<Rightarrow> ('a, 'f) health_report \<Rightarrow> ('a, 'f) node_health list" where
  "get_critical_nodes fl r =
     filter (\<lambda>h. \<not> nh_is_alive h \<or> fl_less fl (nh_health_score h) (fl_tenths fl 3)) (hr_node_healths r)"

section \<open>The monitor\<close>

datatype monitored_status = MsAlive | MsSuspected | MsDead

record ('a, 'f) ha_monitor =
  hmo_node_healths :: "(node_id, ('a, 'f) node_health) hash_map"
  hmo_health_history :: "('a, 'f) health_report list"

definition ha_monitor_new :: "('a, 'f) ha_monitor" where
  "ha_monitor_new = \<lparr>hmo_node_healths = [], hmo_health_history = []\<rparr>"

definition check_node :: "'f float_ops \<Rightarrow> instant \<Rightarrow> monitored_status \<Rightarrow> ('a, 'f) node_health \<Rightarrow> ('a, 'f) node_health" where
  "check_node fl now status h =
     (case status of
        MsAlive \<Rightarrow>
          health_update_metrics fl now (fl_tenths fl 5) (fl_tenths fl 6) (50 * 1000000)
            (if \<not> nh_is_alive h then health_mark_recovery fl now h else h)
      | _ \<Rightarrow> if nh_is_alive h then health_mark_failure fl h else h)"

fun check_members ::
  "'f float_ops \<Rightarrow> instant \<Rightarrow> (node_id \<times> 'a \<times> monitored_status) list \<Rightarrow> (node_id, ('a, 'f) node_health) hash_map
     \<Rightarrow> (node_id, ('a, 'f) node_health) hash_map" where
  "check_members fl now [] healths = healths"
| "check_members fl now ((n, a, status) # members) healths =
     check_members fl now members
       (hm_insert n (check_node fl now status
          (case hm_get healths n of Some h \<Rightarrow> h | None \<Rightarrow> node_health_new fl now n a)) healths)"

definition perform_health_check ::
  "'f float_ops \<Rightarrow> instant \<Rightarrow> (node_id \<times> 'a \<times> monitored_status) list \<Rightarrow> ('a, 'f) ha_monitor \<Rightarrow> ('a, 'f) ha_monitor" where
  "perform_health_check fl now members m =
     m\<lparr>hmo_node_healths := hm_retain (\<lambda>n _. n \<in> set (map fst members))
         (check_members fl now members (hmo_node_healths m))\<rparr>"

definition fl_sum :: "'f float_ops \<Rightarrow> 'f list \<Rightarrow> 'f" where
  "fl_sum fl xs = foldl (fl_add fl) (fl_tenths fl 0) xs"

definition generate_health_report ::
  "'f float_ops \<Rightarrow> system_time \<Rightarrow> ('a, 'f) ha_monitor \<Rightarrow> ('a, 'f) ha_monitor \<times> ('a, 'f) health_report" where
  "generate_health_report fl now m =
     (let hs = map snd (hmo_node_healths m); n = length hs;
          healthy = length (filter (health_is_healthy fl) hs);
          gib = 1024 * 1024 * 1024;
          capacity = \<lparr>cs_total_cpu_capacity = fl_mul fl (fl_of_usize fl n) (fl_of_usize fl 4),
            cs_used_cpu_capacity = fl_sum fl (map (\<lambda>h. fl_mul fl (nh_load_average h) (fl_of_usize fl 4)) hs),
            cs_total_memory_capacity = word_of_nat n * 16 * gib,
            cs_used_memory_capacity = sum_list (map (\<lambda>h. fl_as_u64 fl (fl_mul fl (fl_mul fl (fl_mul fl (fl_mul fl
               (nh_memory_usage h) (fl_of_usize fl 16)) (fl_of_usize fl 1024)) (fl_of_usize fl 1024)) (fl_of_usize fl 1024))) hs),
            cs_total_storage_capacity = word_of_nat n * 1024 * gib,
            cs_used_storage_capacity = word_of_nat n * 512 * gib,
            cs_healthy_nodes = healthy, cs_total_nodes = n\<rparr>;
          score = (if n = 0 then fl_tenths fl 0
            else fl_mul fl (fl_div fl (fl_sum fl (map nh_health_score hs)) (fl_of_usize fl n))
                   (fl_div fl (fl_of_usize fl healthy) (fl_of_usize fl n)));
          report = \<lparr>hr_timestamp = now, hr_node_healths = hs, hr_capacity_status = capacity,
            hr_cluster_health_score = score,
            hr_recommendations =
              (if is_under_stress fl capacity then [''Cluster is under stress - consider adding more nodes''] else []) @
              (if fl_less fl (availability_ratio fl capacity) (fl_tenths fl 8)
               then [''Low cluster availability - investigate failed nodes''] else [])\<rparr>;
          history = hmo_health_history m @ [report]
      in (m\<lparr>hmo_health_history := (if length history > 100 then tl history else history)\<rparr>, report))"

definition is_node_healthy :: "'f float_ops \<Rightarrow> node_id \<Rightarrow> ('a, 'f) ha_monitor \<Rightarrow> bool" where
  "is_node_healthy fl n m =
     (case hm_get (hmo_node_healths m) n of Some h \<Rightarrow> health_is_healthy fl h | None \<Rightarrow> False)"

section \<open>Leadership\<close>

record leadership_change =
  lc_previous_leader :: "node_id option"
  lc_new_leader :: node_id
  lc_reason :: string

definition leadership_tick :: "node_id \<Rightarrow> bool \<Rightarrow> bool \<times> leadership_change option" where
  "leadership_tick n is_leader =
     (let should_be_leader = True in
      if should_be_leader \<and> \<not> is_leader
      then (True, Some \<lparr>lc_previous_leader = None, lc_new_leader = n, lc_reason = ''Election won''\<rparr>)
      else if \<not> should_be_leader \<and> is_leader
      then (False, Some \<lparr>lc_previous_leader = Some n, lc_new_leader = n, lc_reason = ''Stepping down''\<rparr>)
      else (is_leader, None))"

section \<open>Failover\<close>

datatype failover_type = FoPlanned | FoUnplanned | FoLeader | FoReplica | FoNetworkPartition

datatype failover_error =
  NoSuitableReplacement node_id | CoordinationTimeout string | InvalidState string
| ConsensusFailed string | ReplicationFailed string

datatype failover_step =
  DetectFailure | SelectReplacement | PromoteReplacement | UpdateRouting | NotifyClients
| ValidateFailover | DrainConnections | TransferData | InitiateLeaderElection | ConductElection
| UpdateConsensus | SynchronizeData | UpdateReplication | DetectPartition | SelectActivePartition
| QuiescePartitions | ReconfigureCluster

record failover_plan =
  fp_plan_id :: u128
  fp_failed_node :: node_id
  fp_failover_type :: failover_type
  fp_replacement_node :: "node_id option"
  fp_steps :: "failover_step list"
  fp_expected_duration :: duration
  fp_coordinator :: node_id

fun plan_steps :: "failover_type \<Rightarrow> failover_step list \<times> nat" where
  "plan_steps FoPlanned =
     ([NotifyClients, DrainConnections, TransferData, UpdateRouting, ValidateFailover], 2000)"
| "plan_steps FoUnplanned =
     ([DetectFailure, SelectReplacement, PromoteReplacement, UpdateRouting, NotifyClients, ValidateFailover], 500)"
| "plan_steps FoLeader =
     ([InitiateLeaderElection, ConductElection, UpdateConsensus, NotifyClients, ValidateFailover], 200)"
| "plan_steps FoReplica =
     ([SelectReplacement, SynchronizeData, PromoteReplacement, UpdateReplication, ValidateFailover], 300)"
| "plan_steps FoNetworkPartition =
     ([DetectPartition, SelectActivePartition, QuiescePartitions, ReconfigureCluster, ValidateFailover], 1000)"

definition failover_plan_new :: "u128 \<Rightarrow> node_id \<Rightarrow> failover_type \<Rightarrow> node_id option \<Rightarrow> node_id \<Rightarrow> failover_plan" where
  "failover_plan_new plan_id failed_node ty replacement coordinator =
     \<lparr>fp_plan_id = plan_id, fp_failed_node = failed_node, fp_failover_type = ty,
      fp_replacement_node = replacement, fp_steps = fst (plan_steps ty),
      fp_expected_duration = snd (plan_steps ty) * 1000000, fp_coordinator = coordinator\<rparr>"

record failover_execution =
  fe_plan :: failover_plan
  fe_current_step :: usize
  fe_step_results :: "(failover_step \<times> bool \<times> failover_error option) list"
  fe_start_time :: instant

record failover_coordinator =
  fco_coordinator_id :: node_id
  fco_failover_timeout :: duration
  fco_active_executions :: "(u128, failover_execution) hash_map"
  fco_execution_counter :: u64

definition failover_coordinator_new :: "node_id \<Rightarrow> duration \<Rightarrow> failover_coordinator" where
  "failover_coordinator_new n limit =
     \<lparr>fco_coordinator_id = n, fco_failover_timeout = limit, fco_active_executions = [], fco_execution_counter = 0\<rparr>"

text \<open>A replacement is a generated identifier: \<open>gen k\<close> is the \<open>k\<close>-th one, and the count is passed on.\<close>

definition select_replacement_node ::
  "(nat \<Rightarrow> node_id) \<Rightarrow> nat \<Rightarrow> nat \<times> (node_id option, failover_error) result" where
  "select_replacement_node gen k = (k + 1, Ok (Some (gen k)))"

definition create_failover_plan ::
  "(nat \<Rightarrow> node_id) \<Rightarrow> nat \<Rightarrow> u128 \<Rightarrow> node_id \<Rightarrow> failover_type \<Rightarrow> failover_coordinator
     \<Rightarrow> nat \<times> (failover_plan, failover_error) result" where
  "create_failover_plan gen k plan_id failed_node ty c =
     (let (k1, res) = (if ty = FoUnplanned \<or> ty = FoReplica then select_replacement_node gen k else (k, Ok None))
      in (k1, and_then res (\<lambda>replacement. Ok (failover_plan_new plan_id failed_node ty replacement (fco_coordinator_id c)))))"

text \<open>The waiting of each step in milliseconds, and its effect on the replacement.\<close>

fun step_millis :: "failover_step \<Rightarrow> nat" where
  "step_millis DetectFailure = 0"
| "step_millis SelectReplacement = 0"
| "step_millis PromoteReplacement = 50"
| "step_millis UpdateRouting = 25"
| "step_millis NotifyClients = 30"
| "step_millis ValidateFailover = 20"
| "step_millis DrainConnections = 100"
| "step_millis TransferData = 150"
| "step_millis InitiateLeaderElection = 10"
| "step_millis ConductElection = 80"
| "step_millis UpdateConsensus = 15"
| "step_millis SynchronizeData = 75"
| "step_millis UpdateReplication = 40"
| "step_millis DetectPartition = 30"
| "step_millis SelectActivePartition = 50"
| "step_millis QuiescePartitions = 100"
| "step_millis ReconfigureCluster = 200"

definition execute_single_step ::
  "(nat \<Rightarrow> node_id) \<Rightarrow> nat \<Rightarrow> failover_step \<Rightarrow> node_id option \<Rightarrow> nat \<times> (node_id option, failover_error) result" where
  "execute_single_step gen k step current =
     (let need = (\<lambda>what. case current of Some r \<Rightarrow> (k, Ok (Some r)) | None \<Rightarrow> (k, Err (InvalidState what))) in
      case step of
        SelectReplacement \<Rightarrow> (if current \<noteq> None then (k, Ok current) else select_replacement_node gen k)
      | PromoteReplacement \<Rightarrow> need ''No replacement node to promote''
      | TransferData \<Rightarrow> need ''No replacement node for data transfer''
      | SynchronizeData \<Rightarrow> need ''No replacement node for data sync''
      | ConductElection \<Rightarrow> (k + 1, Ok (Some (gen k)))
      | SelectActivePartition \<Rightarrow> (k + 1, Ok (Some (gen k)))
      | _ \<Rightarrow> (k, Ok current))"

definition record_step ::
  "u128 \<Rightarrow> nat \<Rightarrow> failover_step \<times> bool \<times> failover_error option \<Rightarrow> failover_coordinator \<Rightarrow> failover_coordinator" where
  "record_step plan_id i res c =
     (case hm_get (fco_active_executions c) plan_id of
        Some e \<Rightarrow> c\<lparr>fco_active_executions := hm_insert plan_id
            (e\<lparr>fe_current_step := i + 1, fe_step_results := fe_step_results e @ [res]\<rparr>) (fco_active_executions c)\<rparr>
      | None \<Rightarrow> c)"

fun execute_plan_steps ::
  "(nat \<Rightarrow> node_id) \<Rightarrow> (nat \<Rightarrow> duration) \<Rightarrow> u128 \<Rightarrow> nat \<Rightarrow> nat \<Rightarrow> failover_step list \<Rightarrow> node_id option \<Rightarrow> duration
     \<Rightarrow> failover_coordinator \<Rightarrow> failover_coordinator \<times> nat \<times> duration \<times> (node_id option, failover_error) result" where
  "execute_plan_steps gen extra plan_id k i [] replacement t c = (c, k, t, Ok replacement)"
| "execute_plan_steps gen extra plan_id k i (step # steps) replacement t c =
     (let (k1, res) = execute_single_step gen k step replacement;
          t1 = t + step_millis step * 1000000 + extra i in
      case res of
        Ok r \<Rightarrow> execute_plan_steps gen extra plan_id k1 (i + 1) steps
                 (case r of Some n \<Rightarrow> Some n | None \<Rightarrow> replacement) t1
                 (record_step plan_id i (step, True, None) c)
      | Err e \<Rightarrow> (record_step plan_id i (step, False, Some e) c, k1, t1, Err e)
      | Panic \<Rightarrow> (c, k1, t1, Panic))"

definition execute_failover ::
  "(nat \<Rightarrow> node_id) \<Rightarrow> (nat \<Rightarrow> duration) \<Rightarrow> instant \<Rightarrow> nat \<Rightarrow> failover_plan \<Rightarrow> failover_coordinator
     \<Rightarrow> failover_coordinator \<times> (node_id, failover_error) result" where
  "execute_failover gen extra now k plan c =
     (let begun = c\<lparr>fco_execution_counter := fco_execution_counter c + 1,
            fco_active_executions := hm_insert (fp_plan_id plan)
              \<lparr>fe_plan = plan, fe_current_step = 0, fe_step_results = [], fe_start_time = now\<rparr> (fco_active_executions c)\<rparr>;
          (c1, k1, t, res) = execute_plan_steps gen extra (fp_plan_id plan) k 0 (fp_steps plan) (fp_replacement_node plan) 0 begun;
          c2 = c1\<lparr>fco_active_executions := hm_remove (fp_plan_id plan) (fco_active_executions c1)\<rparr>
      in if t > fco_failover_timeout c then (c2, Err (CoordinationTimeout ''failover_execution''))
         else (c2, and_then res (\<lambda>r. Ok (case r of Some n \<Rightarrow> n | None \<Rightarrow> fp_failed_node plan))))"

definition execute_leader_election ::
  "(nat \<Rightarrow> node_id) \<Rightarrow> (nat \<Rightarrow> duration) \<Rightarrow> u128 \<Rightarrow> nat \<Rightarrow> failover_coordinator
     \<Rightarrow> failover_coordinator \<times> (node_id, failover_error) result" where
  "execute_leader_election gen extra plan_id k c =
     (let plan = failover_plan_new plan_id (gen k) FoLeader None (fco_coordinator_id c);
          (c1, k1, t, res) = execute_plan_steps gen extra plan_id (k + 1) 0 (fp_steps plan) None 0 c
      in (c1, and_then res (\<lambda>r. case r of Some n \<Rightarrow> Ok n
            | None \<Rightarrow> Err (ConsensusFailed ''Leader election did not produce a leader''))))"

definition run_coordination_cycle :: "instant \<Rightarrow> failover_coordinator \<Rightarrow> failover_coordinator" where
  "run_coordination_cycle now c =
     c\<lparr>fco_active_executions := hm_retain (\<lambda>_ e. \<not> now - fe_start_time e > fp_expected_duration (fe_plan e) * 2)
         (fco_active_executions c)\<rparr>"

section \<open>What the monitor knows\<close>

definition health_consistent :: "('a, 'f) node_health \<Rightarrow> bool" where
  "health_consistent h \<longleftrightarrow> nh_failure_count h = (if nh_is_alive h then 0 else 1)"

definition monitor_ok :: "('a, 'f) ha_monitor \<Rightarrow> bool" where
  "monitor_ok m \<longleftrightarrow> hm_ok (hmo_node_healths m) \<and> (\<forall>n h. hm_get (hmo_node_healths m) n = Some h \<longrightarrow> health_consistent h)
     \<and> length (hmo_health_history m) \<le> 100"

lemma calculate_health_score_keeps [simp]:
  "nh_is_alive (calculate_health_score fl h) = nh_is_alive h"
  "nh_failure_count (calculate_health_score fl h) = nh_failure_count h"
  by (simp_all add: calculate_health_score_def Let_def)

lemma check_node_consistent:
  "health_consistent h \<Longrightarrow> health_consistent (check_node fl now st h) \<and> nh_is_alive (check_node fl now st h) = (st = MsAlive)"
  by (cases st) (auto simp: health_consistent_def check_node_def health_update_metrics_def health_mark_recovery_def
      health_mark_failure_def)

lemma node_health_new_consistent: "health_consistent (node_health_new fl now n a)"
  by (simp add: health_consistent_def node_health_new_def)

lemma check_members_get:
  assumes "distinct (map fst members)"
  shows "hm_get (check_members fl now members healths) n =
    (case map_of members n of
       Some (a, st) \<Rightarrow> Some (check_node fl now st
          (case hm_get healths n of Some h \<Rightarrow> h | None \<Rightarrow> node_health_new fl now n a))
     | None \<Rightarrow> hm_get healths n)"
  using assms
proof (induction fl now members healths rule: check_members.induct)
  case (2 fl now m a status members healths)
  then have fresh: "map_of members m = None" and dist: "distinct (map fst members)"
    by (auto simp: map_of_eq_None_iff)
  from "2.IH" [OF dist] fresh show ?case by (cases "n = m") (simp_all split: option.split)
qed simp

lemma check_members_hm_ok: "hm_ok healths \<Longrightarrow> hm_ok (check_members fl now members healths)"
  by (induction fl now members healths rule: check_members.induct) auto

text \<open>
  After a check the monitor knows exactly the members, each one alive when the membership says so. A
  node that is down has been counted as failed once however many checks have seen it down, so the
  configured thresholds of failures and recoveries play no part.
\<close>

theorem health_check_exact:
  assumes "monitor_ok m" and "distinct (map fst members)"
  shows "monitor_ok (perform_health_check fl now members m)
    \<and> (\<forall>n. hm_get (hmo_node_healths (perform_health_check fl now members m)) n = None \<longleftrightarrow> map_of members n = None)
    \<and> (\<forall>n a st h. map_of members n = Some (a, st)
         \<and> hm_get (hmo_node_healths (perform_health_check fl now members m)) n = Some h
         \<longrightarrow> nh_is_alive h = (st = MsAlive) \<and> nh_failure_count h = (if st = MsAlive then 0 else 1))"
proof -
  have ok: "hm_ok (check_members fl now members (hmo_node_healths m))"
    using assms(1) by (simp add: monitor_ok_def check_members_hm_ok)
  have get: "hm_get (hmo_node_healths (perform_health_check fl now members m)) n =
      (case map_of members n of
         Some (a, st) \<Rightarrow> Some (check_node fl now st
            (case hm_get (hmo_node_healths m) n of Some h \<Rightarrow> h | None \<Rightarrow> node_health_new fl now n a))
       | None \<Rightarrow> None)" for n
    by (auto simp: perform_health_check_def hm_get_retain [OF ok] check_members_get [OF assms(2)]
        map_of_eq_None_iff dom_map_of_conv_image_fst [symmetric] split: option.splits)
  have cons: "health_consistent (case hm_get (hmo_node_healths m) n of Some h \<Rightarrow> h | None \<Rightarrow> node_health_new fl now n a)" for n a
    using assms(1) by (auto simp: monitor_ok_def node_health_new_consistent split: option.split)
  have known: "nh_is_alive h = (st = MsAlive) \<and> health_consistent h"
    if "map_of members n = Some (a, st)"
      "hm_get (hmo_node_healths (perform_health_check fl now members m)) n = Some h" for n a st h
    using that get [of n] check_node_consistent [OF cons, of fl now st n a] by auto
  have "monitor_ok (perform_health_check fl now members m)"
    using assms(1) known get ok
    by (fastforce simp: monitor_ok_def perform_health_check_def split: option.splits)
  moreover have "hm_get (hmo_node_healths (perform_health_check fl now members m)) n = None \<longleftrightarrow> map_of members n = None" for n
    by (auto simp: get split: option.split)
  ultimately show ?thesis using known by (auto simp: health_consistent_def)
qed

lemma report_keeps_monitor_ok: "monitor_ok m \<Longrightarrow> monitor_ok (fst (generate_health_report fl now m))"
  by (auto simp: monitor_ok_def generate_health_report_def Let_def)

section \<open>What a failover achieves\<close>

definition run_failover ::
  "(nat \<Rightarrow> node_id) \<Rightarrow> (nat \<Rightarrow> duration) \<Rightarrow> instant \<Rightarrow> u128 \<Rightarrow> node_id \<Rightarrow> failover_type \<Rightarrow> failover_coordinator
     \<Rightarrow> failover_coordinator \<times> (node_id, failover_error) result" where
  "run_failover gen extra now plan_id failed_node ty c =
     (case create_failover_plan gen 0 plan_id failed_node ty c of
        (k, Ok plan) \<Rightarrow> execute_failover gen extra now k plan c
      | (k, Err e) \<Rightarrow> (c, Err e) | (k, Panic) \<Rightarrow> (c, Panic))"

text \<open>
  A planned failover never succeeds: its plan transfers data to a replacement and has none, so it
  stops with an error unless the time limit is hit first. Each other kind succeeds within the limit,
  and the node it reports is a freshly generated identifier and not a member of the cluster.
\<close>

theorem failover_outcomes:
  "snd (run_failover gen extra now plan_id failed_node ty c) =
     (case ty of
        FoPlanned \<Rightarrow>
          if 280 * 1000000 + extra 0 + extra 1 + extra 2 > fco_failover_timeout c
          then Err (CoordinationTimeout ''failover_execution'')
          else Err (InvalidState ''No replacement node for data transfer'')
      | _ \<Rightarrow>
          if sum_list (map step_millis (fst (plan_steps ty))) * 1000000
               + sum_list (map extra [0..<length (fst (plan_steps ty))]) > fco_failover_timeout c
          then Err (CoordinationTimeout ''failover_execution'') else Ok (gen 0))"
  by (cases ty) (simp_all add: run_failover_def create_failover_plan_def failover_plan_new_def execute_failover_def
      select_replacement_node_def execute_single_step_def Let_def case_prod_beta upt_rec numeral_2_eq_2 algebra_simps)

lemma record_step_ids: "hm_keys (fco_active_executions (record_step p i r c)) = hm_keys (fco_active_executions c)"
  by (auto simp: record_step_def hm_keys_def hm_insert_def update_keys map_of_eq_None_iff dest!: map_of_SomeD split: option.split)

lemma execute_plan_steps_ids:
  "hm_keys (fco_active_executions (fst (execute_plan_steps gen extra p k i steps r t c))) = hm_keys (fco_active_executions c)"
  by (induction steps arbitrary: k i r t c)
    (auto simp: Let_def case_prod_beta record_step_ids split: result.split)

text \<open>However it ends, an execution is no longer registered afterwards, and the others still are.\<close>

lemma execution_unregistered:
  "set (hm_keys (fco_active_executions (fst (execute_failover gen extra now k plan c))))
     = set (hm_keys (fco_active_executions c)) - {fp_plan_id plan}"
proof -
  have ins: "set (hm_keys (hm_insert x v m)) = insert x (set (hm_keys m))" for x v and m :: "(u128, failover_execution) hash_map"
    by (simp add: set_hm_keys)
  have rem: "set (hm_keys (hm_remove x m)) = set (hm_keys m) - {x}" for x and m :: "(u128, failover_execution) hash_map"
    by (auto simp: set_hm_keys)
  show ?thesis
    by (simp add: execute_failover_def Let_def case_prod_beta execute_plan_steps_ids ins rem)
qed

text \<open>Every manager takes the lead at its first check, so two nodes lead at once.\<close>

lemma every_manager_leads: "fst (leadership_tick n was_leader)"
  by (simp add: leadership_tick_def)

lemma leader_elected_by_plan:
  "snd (execute_leader_election gen extra plan_id k c) = Ok (gen (k + 1))"
  by (simp add: execute_leader_election_def failover_plan_new_def execute_single_step_def Let_def case_prod_beta)

end
