(* ===== verification/Plugin_Errors.thy ===== *)
theory Plugin_Errors
  imports Prelude
begin

text \<open>
  The errors of the plugin system, \<^verbatim>\<open>src/kaelix-core/src/plugin/error.rs\<close>: the error type of each
  subsystem with its text, and the conversions into the error of the plugin interface. A constructor
  carries its fields in the order of the source. The debug text of a list of strings is an argument.
\<close>

section \<open>Errors and their texts\<close>

datatype plugin_err =
  PluginError_Registration string
| PluginError_LoadingFailed string string
| PluginError_InitializationFailed string string
| PluginError_ExecutionError string string string
| PluginError_LifecycleError string string string
| PluginError_InvalidStateTransition string string string
| PluginError_ConfigurationError string string string
| PluginError_DependencyError string string string
| PluginError_CompatibilityError string string string
| PluginError_SecurityViolation string string
| PluginError_ResourceLimitExceeded string string string string
| PluginError_NotFound string
| PluginError_AlreadyExists string
| PluginError_CommunicationError string string
| PluginError_TimeoutError string string u64
| PluginError_ValidationError string string string
| PluginError_SerializationError string string string
| PluginError_IoError string string string
| PluginError_Internal string string

fun show_plugin_err :: "plugin_err \<Rightarrow> string" where
  "show_plugin_err (PluginError_Registration message) =
     ''Plugin registration failed: '' @ message"
| "show_plugin_err (PluginError_LoadingFailed plugin_id reason) =
     ''Plugin loading failed: '' @ plugin_id @ '', reason: '' @ reason"
| "show_plugin_err (PluginError_InitializationFailed plugin_id reason) =
     ''Plugin initialization failed: '' @ plugin_id @ '', reason: '' @ reason"
| "show_plugin_err (PluginError_ExecutionError plugin_id operation reason) =
     ''Plugin execution error: '' @ plugin_id @ '', operation: '' @ operation @ '', reason: '' @ reason"
| "show_plugin_err (PluginError_LifecycleError plugin_id state reason) =
     ''Plugin lifecycle error: '' @ plugin_id @ '', state: '' @ state @ '', reason: '' @ reason"
| "show_plugin_err (PluginError_InvalidStateTransition plugin_id old_state new_state) =
     ''Invalid state transition: plugin '' @ plugin_id @ '', from '' @ old_state @ '' to '' @ new_state"
| "show_plugin_err (PluginError_ConfigurationError plugin_id config_key reason) =
     ''Plugin configuration error: '' @ plugin_id @ '', config_key: '' @ config_key @ '', reason: '' @ reason"
| "show_plugin_err (PluginError_DependencyError plugin_id dependency reason) =
     ''Plugin dependency error: '' @ plugin_id @ '', dependency: '' @ dependency @ '', reason: '' @ reason"
| "show_plugin_err (PluginError_CompatibilityError plugin_id required_version actual_version) =
     ''Plugin compatibility error: '' @ plugin_id @ '', required_version: '' @ required_version @ '', actual_version: '' @ actual_version"
| "show_plugin_err (PluginError_SecurityViolation plugin_id violation) =
     ''Plugin security violation: '' @ plugin_id @ '', violation: '' @ violation"
| "show_plugin_err (PluginError_ResourceLimitExceeded plugin_id resource limit actual) =
     ''Plugin resource limit exceeded: '' @ plugin_id @ '', resource: '' @ resource @ '', limit: '' @ limit @ '', actual: '' @ actual"
| "show_plugin_err (PluginError_NotFound plugin_id) =
     ''Plugin not found: '' @ plugin_id"
| "show_plugin_err (PluginError_AlreadyExists plugin_id) =
     ''Plugin already exists: '' @ plugin_id"
| "show_plugin_err (PluginError_CommunicationError plugin_id reason) =
     ''Plugin communication error: '' @ plugin_id @ '', reason: '' @ reason"
| "show_plugin_err (PluginError_TimeoutError plugin_id operation timeout) =
     ''Plugin timeout: '' @ plugin_id @ '', operation: '' @ operation @ '', timeout: '' @ decimal (unat timeout) @ ''ms''"
| "show_plugin_err (PluginError_ValidationError plugin_id field reason) =
     ''Plugin validation error: '' @ plugin_id @ '', field: '' @ field @ '', reason: '' @ reason"
| "show_plugin_err (PluginError_SerializationError plugin_id operation reason) =
     ''Plugin serialization error: '' @ plugin_id @ '', operation: '' @ operation @ '', reason: '' @ reason"
| "show_plugin_err (PluginError_IoError plugin_id operation reason) =
     ''Plugin I/O error: '' @ plugin_id @ '', operation: '' @ operation @ '', reason: '' @ reason"
| "show_plugin_err (PluginError_Internal operation reason) =
     ''Internal plugin system error: operation: '' @ operation @ '', reason: '' @ reason"

datatype registry_err =
  RegistryError_AlreadyRegistered string
| RegistryError_NotFound string
| RegistryError_CapacityExceeded usize usize
| RegistryError_OperationFailed string string
| RegistryError_CorruptionDetected string
| RegistryError_AccessDenied string string

fun show_registry_err :: "registry_err \<Rightarrow> string" where
  "show_registry_err (RegistryError_AlreadyRegistered plugin_id) =
     ''Plugin already registered: '' @ plugin_id"
| "show_registry_err (RegistryError_NotFound plugin_id) =
     ''Plugin not found in registry: '' @ plugin_id"
| "show_registry_err (RegistryError_CapacityExceeded current maximum) =
     ''Registry capacity exceeded: current '' @ decimal current @ '', maximum '' @ decimal maximum"
| "show_registry_err (RegistryError_OperationFailed operation reason) =
     ''Registry operation failed: '' @ operation @ '', reason: '' @ reason"
| "show_registry_err (RegistryError_CorruptionDetected description) =
     ''Registry corruption detected: '' @ description"
| "show_registry_err (RegistryError_AccessDenied plugin_id reason) =
     ''Registry access denied: '' @ plugin_id @ '', reason: '' @ reason"

datatype lifecycle_err =
  LifecycleError_InvalidTransition string string
| LifecycleError_TransitionTimeout string string u64
| LifecycleError_OperationFailed string string string
| LifecycleError_RestartPolicyViolation string u32 u32
| LifecycleError_HealthCheckFailed string string

fun show_lifecycle_err :: "lifecycle_err \<Rightarrow> string" where
  "show_lifecycle_err (LifecycleError_InvalidTransition old_state new_state) =
     ''Invalid state transition: from '' @ old_state @ '' to '' @ new_state"
| "show_lifecycle_err (LifecycleError_TransitionTimeout old_state new_state timeout) =
     ''State transition timeout: from '' @ old_state @ '' to '' @ new_state @ '', timeout: '' @ decimal (unat timeout) @ ''ms''"
| "show_lifecycle_err (LifecycleError_OperationFailed operation current_state reason) =
     ''Lifecycle operation failed: '' @ operation @ '', current_state: '' @ current_state @ '', reason: '' @ reason"
| "show_lifecycle_err (LifecycleError_RestartPolicyViolation plugin_id attempts max_attempts) =
     ''Restart policy violation: '' @ plugin_id @ '', attempts: '' @ decimal (unat attempts) @ '', max_attempts: '' @ decimal (unat max_attempts)"
| "show_lifecycle_err (LifecycleError_HealthCheckFailed plugin_id reason) =
     ''Health check failed: '' @ plugin_id @ '', reason: '' @ reason"

datatype loader_err =
  LoaderError_FileNotFound string
| LoaderError_InvalidFormat string string
| LoaderError_SignatureVerificationFailed string string
| LoaderError_DependencyResolutionFailed string "string list"
| LoaderError_DynamicLibraryError string string
| LoaderError_SymbolResolutionFailed string string
| LoaderError_InvalidMetadata string string string
| LoaderError_VersionIncompatible string string string
| LoaderError_PermissionDenied string string
| LoaderError_LoadingFailed string string

fun show_loader_err :: "(string list \<Rightarrow> string) \<Rightarrow> loader_err \<Rightarrow> string" where
  "show_loader_err show_list (LoaderError_FileNotFound path) =
     ''Plugin file not found: '' @ path"
| "show_loader_err show_list (LoaderError_InvalidFormat path reason) =
     ''Invalid plugin file format: '' @ path @ '', reason: '' @ reason"
| "show_loader_err show_list (LoaderError_SignatureVerificationFailed path reason) =
     ''Plugin signature verification failed: '' @ path @ '', reason: '' @ reason"
| "show_loader_err show_list (LoaderError_DependencyResolutionFailed plugin_id missing_dependencies) =
     ''Plugin dependency resolution failed: '' @ plugin_id @ '', missing_dependencies: '' @ show_list missing_dependencies"
| "show_loader_err show_list (LoaderError_DynamicLibraryError path reason) =
     ''Dynamic loading failed: '' @ path @ '', reason: '' @ reason"
| "show_loader_err show_list (LoaderError_SymbolResolutionFailed symbol reason) =
     ''Symbol resolution failed: '' @ symbol @ '', reason: '' @ reason"
| "show_loader_err show_list (LoaderError_InvalidMetadata path field reason) =
     ''Plugin metadata invalid: '' @ path @ '', field: '' @ field @ '', reason: '' @ reason"
| "show_loader_err show_list (LoaderError_VersionIncompatible plugin_id plugin_version required_version) =
     ''Plugin version incompatible: '' @ plugin_id @ '', plugin_version: '' @ plugin_version @ '', required_version: '' @ required_version"
| "show_loader_err show_list (LoaderError_PermissionDenied path reason) =
     ''Loading permission denied: '' @ path @ '', reason: '' @ reason"
| "show_loader_err show_list (LoaderError_LoadingFailed path reason) =
     ''Loading failed: '' @ path @ '', reason: '' @ reason"

datatype sandbox_err =
  SandboxError_CreationFailed string string
| SandboxError_EnforcementFailed string string
| SandboxError_ResourceLimitExceeded string string u64 u64
| SandboxError_CapabilityViolation string string
| SandboxError_IsolationBreach string string

fun show_sandbox_err :: "sandbox_err \<Rightarrow> string" where
  "show_sandbox_err (SandboxError_CreationFailed plugin_id reason) =
     ''Sandbox creation failed: '' @ plugin_id @ '', reason: '' @ reason"
| "show_sandbox_err (SandboxError_EnforcementFailed plugin_id violation) =
     ''Sandbox enforcement failed: '' @ plugin_id @ '', violation: '' @ violation"
| "show_sandbox_err (SandboxError_ResourceLimitExceeded plugin_id resource limit usage) =
     ''Resource limit exceeded: '' @ plugin_id @ '', resource: '' @ resource @ '', limit: '' @ decimal (unat limit) @ '', usage: '' @ decimal (unat usage)"
| "show_sandbox_err (SandboxError_CapabilityViolation plugin_id required_capability) =
     ''Capability violation: '' @ plugin_id @ '', required_capability: '' @ required_capability"
| "show_sandbox_err (SandboxError_IsolationBreach plugin_id breach_type) =
     ''Isolation breach detected: '' @ plugin_id @ '', breach_type: '' @ breach_type"

datatype hook_err =
  HookError_RegistrationFailed string string string
| HookError_ExecutionFailed string string string
| HookError_PriorityConflict string string string
| HookError_ChainBroken string string string
| HookError_NotFound string string

fun show_hook_err :: "hook_err \<Rightarrow> string" where
  "show_hook_err (HookError_RegistrationFailed plugin_id hook_point reason) =
     ''Hook registration failed: '' @ plugin_id @ '', hook_point: '' @ hook_point @ '', reason: '' @ reason"
| "show_hook_err (HookError_ExecutionFailed plugin_id hook_point reason) =
     ''Hook execution failed: '' @ plugin_id @ '', hook_point: '' @ hook_point @ '', reason: '' @ reason"
| "show_hook_err (HookError_PriorityConflict plugin_id hook_point conflicting_plugin) =
     ''Hook priority conflict: '' @ plugin_id @ '', hook_point: '' @ hook_point @ '', conflicting_plugin: '' @ conflicting_plugin"
| "show_hook_err (HookError_ChainBroken hook_point failed_plugin reason) =
     ''Hook chain broken: '' @ hook_point @ '', failed_plugin: '' @ failed_plugin @ '', reason: '' @ reason"
| "show_hook_err (HookError_NotFound plugin_id hook_point) =
     ''Hook not found: '' @ plugin_id @ '', hook_point: '' @ hook_point"

datatype reload_err =
  ReloadError_OperationFailed string string string
| ReloadError_NotSupported string string
| ReloadError_StatePreservationFailed string string
| ReloadError_VersionMismatch string string string
| ReloadError_RollbackFailed string string

fun show_reload_err :: "reload_err \<Rightarrow> string" where
  "show_reload_err (ReloadError_OperationFailed plugin_id phase reason) =
     ''Reload operation failed: '' @ plugin_id @ '', phase: '' @ phase @ '', reason: '' @ reason"
| "show_reload_err (ReloadError_NotSupported plugin_id reason) =
     ''Hot reload not supported: '' @ plugin_id @ '', reason: '' @ reason"
| "show_reload_err (ReloadError_StatePreservationFailed plugin_id reason) =
     ''State preservation failed: '' @ plugin_id @ '', reason: '' @ reason"
| "show_reload_err (ReloadError_VersionMismatch plugin_id old_version new_version) =
     ''Version mismatch during reload: '' @ plugin_id @ '', old_version: '' @ old_version @ '', new_version: '' @ new_version"
| "show_reload_err (ReloadError_RollbackFailed plugin_id reason) =
     ''Reload rollback failed: '' @ plugin_id @ '', reason: '' @ reason"

datatype security_err =
  SecurityError_AuthenticationFailed string string
| SecurityError_AuthorizationFailed string string string
| SecurityError_CertificateValidationFailed string string
| SecurityError_CryptographicOperationFailed string string
| SecurityError_TrustVerificationFailed string string

fun show_security_err :: "security_err \<Rightarrow> string" where
  "show_security_err (SecurityError_AuthenticationFailed plugin_id reason) =
     ''Authentication failed: '' @ plugin_id @ '', reason: '' @ reason"
| "show_security_err (SecurityError_AuthorizationFailed plugin_id operation reason) =
     ''Authorization failed: '' @ plugin_id @ '', operation: '' @ operation @ '', reason: '' @ reason"
| "show_security_err (SecurityError_CertificateValidationFailed plugin_id reason) =
     ''Certificate validation failed: '' @ plugin_id @ '', reason: '' @ reason"
| "show_security_err (SecurityError_CryptographicOperationFailed operation reason) =
     ''Cryptographic operation failed: '' @ operation @ '', reason: '' @ reason"
| "show_security_err (SecurityError_TrustVerificationFailed plugin_id reason) =
     ''Trust verification failed: '' @ plugin_id @ '', reason: '' @ reason"

datatype enforcement_err =
  EnforcementError_PolicyViolation string string string
| EnforcementError_QuotaExceeded string string u64 u64
| EnforcementError_RateLimitExceeded string string u64 u64
| EnforcementError_MechanismFailed string string
| EnforcementError_ComplianceCheckFailed string string string

fun show_enforcement_err :: "enforcement_err \<Rightarrow> string" where
  "show_enforcement_err (EnforcementError_PolicyViolation plugin_id policy violation) =
     ''Policy violation: '' @ plugin_id @ '', policy: '' @ policy @ '', violation: '' @ violation"
| "show_enforcement_err (EnforcementError_QuotaExceeded plugin_id quota_type limit usage) =
     ''Quota exceeded: '' @ plugin_id @ '', quota_type: '' @ quota_type @ '', limit: '' @ decimal (unat limit) @ '', usage: '' @ decimal (unat usage)"
| "show_enforcement_err (EnforcementError_RateLimitExceeded plugin_id operation limit window) =
     ''Rate limit exceeded: '' @ plugin_id @ '', operation: '' @ operation @ '', limit: '' @ decimal (unat limit) @ '', window: '' @ decimal (unat window) @ ''ms''"
| "show_enforcement_err (EnforcementError_MechanismFailed mechanism reason) =
     ''Enforcement mechanism failed: '' @ mechanism @ '', reason: '' @ reason"
| "show_enforcement_err (EnforcementError_ComplianceCheckFailed plugin_id requirement reason) =
     ''Compliance check failed: '' @ plugin_id @ '', requirement: '' @ requirement @ '', reason: '' @ reason"

section \<open>Conversions\<close>

definition plugin_err_from_io :: "string \<Rightarrow> plugin_err" where
  "plugin_err_from_io e = PluginError_IoError ''unknown'' ''io_operation'' e"

definition plugin_err_from_json :: "string \<Rightarrow> plugin_err" where
  "plugin_err_from_json e = PluginError_SerializationError ''unknown'' ''json_serialization'' e"

fun plugin_err_from_registry :: "registry_err \<Rightarrow> plugin_err" where
  "plugin_err_from_registry (RegistryError_AlreadyRegistered plugin_id) = PluginError_AlreadyExists plugin_id"
| "plugin_err_from_registry (RegistryError_NotFound plugin_id) = PluginError_NotFound plugin_id"
| "plugin_err_from_registry (RegistryError_CapacityExceeded current maximum) =
     PluginError_Internal ''registry_operation''
       (''Registry capacity exceeded: '' @ decimal current @ ''/'' @ decimal maximum)"
| "plugin_err_from_registry (RegistryError_OperationFailed operation reason) =
     PluginError_Internal operation (''Registry operation failed: '' @ reason)"
| "plugin_err_from_registry (RegistryError_CorruptionDetected description) =
     PluginError_Internal ''registry_operation'' (''Registry corruption: '' @ description)"
| "plugin_err_from_registry (RegistryError_AccessDenied plugin_id reason) =
     PluginError_SecurityViolation plugin_id (''Registry access denied: '' @ reason)"

fun plugin_err_from_lifecycle :: "lifecycle_err \<Rightarrow> plugin_err" where
  "plugin_err_from_lifecycle (LifecycleError_InvalidTransition old_state new_state) =
     PluginError_LifecycleError ''unknown'' old_state (''Invalid transition to '' @ new_state)"
| "plugin_err_from_lifecycle (LifecycleError_TransitionTimeout old_state new_state timeout) =
     PluginError_TimeoutError ''unknown'' (''transition_'' @ old_state @ ''_'' @ new_state) timeout"
| "plugin_err_from_lifecycle (LifecycleError_OperationFailed operation current_state reason) =
     PluginError_LifecycleError ''unknown'' current_state
       (''Operation '' @ [CHR 0x27] @ operation @ [CHR 0x27] @ '' failed: '' @ reason)"
| "plugin_err_from_lifecycle (LifecycleError_RestartPolicyViolation plugin_id attempts max_attempts) =
     PluginError_LifecycleError plugin_id ''failed''
       (''Restart attempts '' @ decimal (unat attempts) @ ''/'' @ decimal (unat max_attempts) @ '' exceeded'')"
| "plugin_err_from_lifecycle (LifecycleError_HealthCheckFailed plugin_id reason) =
     PluginError_LifecycleError plugin_id ''unhealthy'' (''Health check failed: '' @ reason)"

fun join_commas :: "string list \<Rightarrow> string" where
  "join_commas [] = []"
| "join_commas [s] = s"
| "join_commas (s # t # ss) = s @ '', '' @ join_commas (t # ss)"

fun plugin_err_from_loader :: "loader_err \<Rightarrow> plugin_err" where
  "plugin_err_from_loader (LoaderError_FileNotFound path) =
     PluginError_LoadingFailed path (''File not found: '' @ path)"
| "plugin_err_from_loader (LoaderError_InvalidFormat path reason) =
     PluginError_LoadingFailed path (''Invalid format: '' @ reason)"
| "plugin_err_from_loader (LoaderError_SignatureVerificationFailed path reason) =
     PluginError_SecurityViolation path (''Signature verification failed: '' @ reason)"
| "plugin_err_from_loader (LoaderError_DependencyResolutionFailed plugin_id missing_dependencies) =
     PluginError_DependencyError plugin_id (join_commas missing_dependencies) ''Missing dependencies''"
| "plugin_err_from_loader (LoaderError_DynamicLibraryError path reason) =
     PluginError_LoadingFailed path (''Dynamic loading failed: '' @ reason)"
| "plugin_err_from_loader (LoaderError_SymbolResolutionFailed symbol reason) =
     PluginError_LoadingFailed ''unknown''
       (''Symbol '' @ [CHR 0x27] @ symbol @ [CHR 0x27] @ '' resolution failed: '' @ reason)"
| "plugin_err_from_loader (LoaderError_InvalidMetadata path fld reason) =
     PluginError_ValidationError path fld (''Invalid metadata: '' @ reason)"
| "plugin_err_from_loader (LoaderError_VersionIncompatible plugin_id plugin_version required_version) =
     PluginError_CompatibilityError plugin_id required_version plugin_version"
| "plugin_err_from_loader (LoaderError_PermissionDenied path reason) =
     PluginError_SecurityViolation path (''Permission denied: '' @ reason)"
| "plugin_err_from_loader (LoaderError_LoadingFailed path reason) = PluginError_LoadingFailed path reason"

fun plugin_err_from_sandbox :: "sandbox_err \<Rightarrow> plugin_err" where
  "plugin_err_from_sandbox (SandboxError_CreationFailed plugin_id reason) =
     PluginError_InitializationFailed plugin_id (''Sandbox creation failed: '' @ reason)"
| "plugin_err_from_sandbox (SandboxError_EnforcementFailed plugin_id violation) =
     PluginError_SecurityViolation plugin_id violation"
| "plugin_err_from_sandbox (SandboxError_ResourceLimitExceeded plugin_id resource limit usage) =
     PluginError_ResourceLimitExceeded plugin_id resource (decimal (unat limit)) (decimal (unat usage))"
| "plugin_err_from_sandbox (SandboxError_CapabilityViolation plugin_id required_capability) =
     PluginError_SecurityViolation plugin_id (''Missing capability: '' @ required_capability)"
| "plugin_err_from_sandbox (SandboxError_IsolationBreach plugin_id breach_type) =
     PluginError_SecurityViolation plugin_id (''Isolation breach: '' @ breach_type)"

fun plugin_err_from_hook :: "hook_err \<Rightarrow> plugin_err" where
  "plugin_err_from_hook (HookError_RegistrationFailed plugin_id hook_point reason) =
     PluginError_Registration
       (''Hook registration failed for plugin '' @ plugin_id @ '' at '' @ hook_point @ '': '' @ reason)"
| "plugin_err_from_hook (HookError_ExecutionFailed plugin_id hook_point reason) =
     PluginError_ExecutionError plugin_id (''hook_'' @ hook_point) reason"
| "plugin_err_from_hook (HookError_PriorityConflict plugin_id hook_point conflicting_plugin) =
     PluginError_ConfigurationError plugin_id ''hook_priority''
       (''Priority conflict at '' @ hook_point @ '' with plugin '' @ conflicting_plugin)"
| "plugin_err_from_hook (HookError_ChainBroken hook_point failed_plugin reason) =
     PluginError_ExecutionError failed_plugin (''hook_chain_'' @ hook_point) reason"
| "plugin_err_from_hook (HookError_NotFound plugin_id hook_point) =
     PluginError_NotFound (plugin_id @ ''::'' @ hook_point)"

fun plugin_err_from_security :: "security_err \<Rightarrow> plugin_err" where
  "plugin_err_from_security (SecurityError_AuthenticationFailed plugin_id reason) =
     PluginError_SecurityViolation plugin_id (''Authentication failed: '' @ reason)"
| "plugin_err_from_security (SecurityError_AuthorizationFailed plugin_id operation reason) =
     PluginError_SecurityViolation plugin_id
       (''Authorization failed for operation '' @ [CHR 0x27] @ operation @ [CHR 0x27] @ '': '' @ reason)"
| "plugin_err_from_security (SecurityError_CertificateValidationFailed plugin_id reason) =
     PluginError_SecurityViolation plugin_id (''Certificate validation failed: '' @ reason)"
| "plugin_err_from_security (SecurityError_CryptographicOperationFailed operation reason) =
     PluginError_Internal operation (''Cryptographic operation failed: '' @ reason)"
| "plugin_err_from_security (SecurityError_TrustVerificationFailed plugin_id reason) =
     PluginError_SecurityViolation plugin_id (''Trust verification failed: '' @ reason)"

section \<open>To which plugin a converted error belongs\<close>

datatype subsystem_err =
  FromRegistry registry_err | FromLifecycle lifecycle_err | FromLoader loader_err
| FromSandbox sandbox_err | FromHook hook_err | FromSecurity security_err

fun to_plugin_err :: "subsystem_err \<Rightarrow> plugin_err" where
  "to_plugin_err (FromRegistry e) = plugin_err_from_registry e"
| "to_plugin_err (FromLifecycle e) = plugin_err_from_lifecycle e"
| "to_plugin_err (FromLoader e) = plugin_err_from_loader e"
| "to_plugin_err (FromSandbox e) = plugin_err_from_sandbox e"
| "to_plugin_err (FromHook e) = plugin_err_from_hook e"
| "to_plugin_err (FromSecurity e) = plugin_err_from_security e"

text \<open>The plugin (or, for the loader, the file) that an error of a subsystem names.\<close>

fun named_by :: "subsystem_err \<Rightarrow> string option" where
  "named_by (FromRegistry (RegistryError_AlreadyRegistered p)) = Some p"
| "named_by (FromRegistry (RegistryError_NotFound p)) = Some p"
| "named_by (FromRegistry (RegistryError_AccessDenied p _)) = Some p"
| "named_by (FromLifecycle (LifecycleError_RestartPolicyViolation p _ _)) = Some p"
| "named_by (FromLifecycle (LifecycleError_HealthCheckFailed p _)) = Some p"
| "named_by (FromLoader (LoaderError_FileNotFound p)) = Some p"
| "named_by (FromLoader (LoaderError_InvalidFormat p _)) = Some p"
| "named_by (FromLoader (LoaderError_SignatureVerificationFailed p _)) = Some p"
| "named_by (FromLoader (LoaderError_DependencyResolutionFailed p _)) = Some p"
| "named_by (FromLoader (LoaderError_DynamicLibraryError p _)) = Some p"
| "named_by (FromLoader (LoaderError_InvalidMetadata p _ _)) = Some p"
| "named_by (FromLoader (LoaderError_VersionIncompatible p _ _)) = Some p"
| "named_by (FromLoader (LoaderError_PermissionDenied p _)) = Some p"
| "named_by (FromLoader (LoaderError_LoadingFailed p _)) = Some p"
| "named_by (FromSandbox (SandboxError_CreationFailed p _)) = Some p"
| "named_by (FromSandbox (SandboxError_EnforcementFailed p _)) = Some p"
| "named_by (FromSandbox (SandboxError_ResourceLimitExceeded p _ _ _)) = Some p"
| "named_by (FromSandbox (SandboxError_CapabilityViolation p _)) = Some p"
| "named_by (FromSandbox (SandboxError_IsolationBreach p _)) = Some p"
| "named_by (FromHook (HookError_RegistrationFailed p _ _)) = Some p"
| "named_by (FromHook (HookError_ExecutionFailed p _ _)) = Some p"
| "named_by (FromHook (HookError_PriorityConflict p _ _)) = Some p"
| "named_by (FromHook (HookError_ChainBroken _ p _)) = Some p"
| "named_by (FromHook (HookError_NotFound p _)) = Some p"
| "named_by (FromSecurity (SecurityError_AuthenticationFailed p _)) = Some p"
| "named_by (FromSecurity (SecurityError_AuthorizationFailed p _ _)) = Some p"
| "named_by (FromSecurity (SecurityError_CertificateValidationFailed p _)) = Some p"
| "named_by (FromSecurity (SecurityError_TrustVerificationFailed p _)) = Some p"
| "named_by _ = None"

fun plugin_of :: "plugin_err \<Rightarrow> string option" where
  "plugin_of (PluginError_Registration _) = None"
| "plugin_of (PluginError_LoadingFailed p _) = Some p"
| "plugin_of (PluginError_InitializationFailed p _) = Some p"
| "plugin_of (PluginError_ExecutionError p _ _) = Some p"
| "plugin_of (PluginError_LifecycleError p _ _) = Some p"
| "plugin_of (PluginError_InvalidStateTransition p _ _) = Some p"
| "plugin_of (PluginError_ConfigurationError p _ _) = Some p"
| "plugin_of (PluginError_DependencyError p _ _) = Some p"
| "plugin_of (PluginError_CompatibilityError p _ _) = Some p"
| "plugin_of (PluginError_SecurityViolation p _) = Some p"
| "plugin_of (PluginError_ResourceLimitExceeded p _ _ _) = Some p"
| "plugin_of (PluginError_NotFound p) = Some p"
| "plugin_of (PluginError_AlreadyExists p) = Some p"
| "plugin_of (PluginError_CommunicationError p _) = Some p"
| "plugin_of (PluginError_TimeoutError p _ _) = Some p"
| "plugin_of (PluginError_ValidationError p _ _) = Some p"
| "plugin_of (PluginError_SerializationError p _ _) = Some p"
| "plugin_of (PluginError_IoError p _ _) = Some p"
| "plugin_of (PluginError_Internal _ _) = None"

fun loses_plugin :: "subsystem_err \<Rightarrow> bool" where
  "loses_plugin (FromHook (HookError_RegistrationFailed _ _ _)) = True"
| "loses_plugin (FromHook (HookError_NotFound _ _)) = True"
| "loses_plugin _ = False"

lemma conversion_cases:
  "plugin_of (to_plugin_err e) =
     (if loses_plugin e then plugin_of (to_plugin_err e)
      else case named_by e of Some p \<Rightarrow> Some p
           | None \<Rightarrow> plugin_of (to_plugin_err e)) \<and>
   (named_by e = None \<longrightarrow> plugin_of (to_plugin_err e) \<in> {None, Some ''unknown''})"
proof (cases e)
  case (FromRegistry r) then show ?thesis by (cases r) simp_all
next
  case (FromLifecycle r) then show ?thesis by (cases r) simp_all
next
  case (FromLoader r) then show ?thesis by (cases r) simp_all
next
  case (FromSandbox r) then show ?thesis by (cases r) simp_all
next
  case (FromHook r) then show ?thesis by (cases r) simp_all
next
  case (FromSecurity r) then show ?thesis by (cases r) simp_all
qed

text \<open>
  An error of a subsystem that names a plugin is converted into an error of that plugin, except for the
  two hook errors that fold the name into a text; one that names none is never blamed on a plugin.
\<close>

theorem conversions_attribute:
  assumes "\<not> loses_plugin e"
  shows "plugin_of (to_plugin_err e) \<in> (case named_by e of Some p \<Rightarrow> {Some p} | None \<Rightarrow> {None, Some ''unknown''})"
  using assms conversion_cases [of e] by (cases "named_by e") auto

lemma hook_errors_lose_plugin:
  "named_by e = Some p \<Longrightarrow> loses_plugin e \<Longrightarrow> plugin_of (to_plugin_err e) \<noteq> Some p"
  by (induction e rule: loses_plugin.induct) auto

text \<open>Different errors of the sandbox may become the same error of a plugin.\<close>

lemma conversion_not_injective:
  "plugin_err_from_sandbox (SandboxError_EnforcementFailed p ''Missing capability: network'')
     = plugin_err_from_sandbox (SandboxError_CapabilityViolation p ''network'')"
  by simp

end
