(* ===== verification/Plugin_Context.thy ===== *)
theory Plugin_Context
  imports Messages "HOL-Library.Sublist"
begin

text \<open>
  The context in which plugins process a message, \<^verbatim>\<open>src/kaelix-core/src/plugin/context.rs\<close>: its limits
  and permissions, its metadata and children, the chain of plugins and the checks. The identifiers and
  the readings of the clock are arguments; a child is returned beside the changed parent. The debug
  text of a duration is an argument.
\<close>

section \<open>Limits and permissions\<close>

record processing_limits =
  pl_max_memory :: usize
  pl_max_duration :: duration
  pl_max_children :: usize
  pl_max_cpu_time :: u64
  pl_max_syscalls :: u64

definition processing_limits_default :: processing_limits where
  "processing_limits_default =
     \<lparr>pl_max_memory = 64 * 1024 * 1024, pl_max_duration = 30 * 1000000000, pl_max_children = 100,
      pl_max_cpu_time = 10000000000, pl_max_syscalls = 10000\<rparr>"

record fs_permissions =
  fsp_read_paths :: "string list"
  fsp_write_paths :: "string list"
  fsp_max_file_size :: usize

definition fs_permissions_default :: fs_permissions where
  "fs_permissions_default =
     \<lparr>fsp_read_paths = [''/tmp''], fsp_write_paths = [''/tmp''], fsp_max_file_size = 10 * 1024 * 1024\<rparr>"

record net_permissions =
  np_allowed_hosts :: "string list"
  np_allowed_ports :: "u16 list"
  np_max_bandwidth :: usize

definition net_permissions_default :: net_permissions where
  "net_permissions_default =
     \<lparr>np_allowed_hosts = [''localhost''], np_allowed_ports = [8080, 9090], np_max_bandwidth = 1024 * 1024\<rparr>"

record sys_permissions =
  sp_can_spawn_processes :: bool
  sp_can_access_env :: bool
  sp_can_access_sysinfo :: bool

definition sys_permissions_default :: sys_permissions where
  "sys_permissions_default =
     \<lparr>sp_can_spawn_processes = False, sp_can_access_env = False, sp_can_access_sysinfo = False\<rparr>"

record security_permissions =
  secp_filesystem :: fs_permissions
  secp_network :: net_permissions
  secp_system :: sys_permissions

definition security_permissions_default :: security_permissions where
  "security_permissions_default =
     \<lparr>secp_filesystem = fs_permissions_default, secp_network = net_permissions_default,
      secp_system = sys_permissions_default\<rparr>"

record kdf_parameters =
  kdf_algorithm :: string
  kdf_salt :: bytes
  kdf_iterations :: u32

record crypto_context =
  cry_encryption_key :: bytes
  cry_signing_key :: bytes
  cry_kdf_params :: kdf_parameters

record context_security =
  ctxs_security_level :: u8
  ctxs_capabilities :: "string list"
  ctxs_permissions :: security_permissions
  ctxs_crypto :: "crypto_context option"

definition context_security_default :: context_security where
  "context_security_default =
     \<lparr>ctxs_security_level = 50, ctxs_capabilities = [''read_config'', ''write_temp''],
      ctxs_permissions = security_permissions_default, ctxs_crypto = None\<rparr>"

section \<open>The chain of plugins\<close>

datatype chain_state = ChainReady | ChainExecuting | ChainCompleted | ChainFailed string | ChainCancelled

record chain_plugin_metrics =
  cpm_execution_count :: u64
  cpm_total_execution_time :: u64
  cpm_success_count :: u64
  cpm_failure_count :: u64
  cpm_avg_memory_usage :: u64

definition chain_plugin_metrics_default :: chain_plugin_metrics where
  "chain_plugin_metrics_default =
     \<lparr>cpm_execution_count = 0, cpm_total_execution_time = 0, cpm_success_count = 0, cpm_failure_count = 0,
      cpm_avg_memory_usage = 0\<rparr>"

record plugin_chain =
  pc_plugins :: "string list"
  pc_current_index :: usize
  pc_state :: chain_state
  pc_plugin_metrics :: "(string, chain_plugin_metrics) hash_map"

definition plugin_chain_new :: plugin_chain where
  "plugin_chain_new =
     \<lparr>pc_plugins = [], pc_current_index = 0, pc_state = ChainReady, pc_plugin_metrics = []\<rparr>"

definition chain_add_plugin :: "string \<Rightarrow> plugin_chain \<Rightarrow> plugin_chain" where
  "chain_add_plugin name ch =
     ch\<lparr>pc_plugins := pc_plugins ch @ [name],
        pc_plugin_metrics := hm_insert name chain_plugin_metrics_default (pc_plugin_metrics ch)\<rparr>"

definition chain_advance :: "plugin_chain \<Rightarrow> plugin_chain \<times> bool" where
  "chain_advance ch =
     (if pc_current_index ch < length (pc_plugins ch)
      then (ch\<lparr>pc_current_index := pc_current_index ch + 1\<rparr>, True) else (ch, False))"

definition chain_completion :: "'f float_ops \<Rightarrow> plugin_chain \<Rightarrow> 'f" where
  "chain_completion fl ch =
     (if pc_plugins ch = [] then fl_of_usize fl 100
      else fl_mul fl (fl_div fl (fl_of_usize fl (pc_current_index ch)) (fl_of_usize fl (length (pc_plugins ch))))
             (fl_of_usize fl 100))"

section \<open>The context\<close>

record context_metrics =
  ctxm_children_created :: u64
  ctxm_memory_allocated :: u64
  ctxm_peak_memory_usage :: u64
  ctxm_cpu_time_used :: u64
  ctxm_security_violations :: u64
  ctxm_metadata_operations :: u64

definition context_metrics_default :: context_metrics where
  "context_metrics_default =
     \<lparr>ctxm_children_created = 0, ctxm_memory_allocated = 0, ctxm_peak_memory_usage = 0,
      ctxm_cpu_time_used = 0, ctxm_security_violations = 0, ctxm_metadata_operations = 0\<rparr>"

record context_data =
  ctx_id :: u128
  ctx_message :: core_message
  ctx_start_time :: instant
  ctx_limits :: processing_limits
  ctx_security :: "context_security option"
  ctx_metadata :: "(string, string) hash_map"
  ctx_plugin_chain :: plugin_chain
  ctx_metrics :: context_metrics

datatype processing_context = Ctx context_data "processing_context list"

fun ctx_data :: "processing_context \<Rightarrow> context_data" where
  "ctx_data (Ctx d _) = d"

fun ctx_children :: "processing_context \<Rightarrow> processing_context list" where
  "ctx_children (Ctx _ cs) = cs"

definition processing_context_new :: "u128 \<Rightarrow> instant \<Rightarrow> core_message \<Rightarrow> processing_context" where
  "processing_context_new i now m =
     Ctx \<lparr>ctx_id = i, ctx_message = m, ctx_start_time = now, ctx_limits = processing_limits_default,
          ctx_security = None, ctx_metadata = [], ctx_plugin_chain = plugin_chain_new,
          ctx_metrics = context_metrics_default\<rparr> []"

fun with_limits :: "processing_limits \<Rightarrow> processing_context \<Rightarrow> processing_context" where
  "with_limits l (Ctx d cs) = Ctx (d\<lparr>ctx_limits := l\<rparr>) cs"

fun with_security :: "context_security \<Rightarrow> processing_context \<Rightarrow> processing_context" where
  "with_security s (Ctx d cs) = Ctx (d\<lparr>ctx_security := Some s\<rparr>) cs"

fun add_metadata :: "string \<Rightarrow> string \<Rightarrow> processing_context \<Rightarrow> processing_context" where
  "add_metadata k v (Ctx d cs) =
     Ctx (d\<lparr>ctx_metadata := hm_insert k v (ctx_metadata d),
            ctx_metrics := (ctx_metrics d)\<lparr>ctxm_metadata_operations := ctxm_metadata_operations (ctx_metrics d) + 1\<rparr>\<rparr>) cs"

definition context_get_metadata :: "string \<Rightarrow> processing_context \<Rightarrow> string option" where
  "context_get_metadata k c = hm_get (ctx_metadata (ctx_data c)) k"

fun context_clone :: "u128 \<Rightarrow> instant \<Rightarrow> processing_context \<Rightarrow> processing_context" where
  "context_clone i now (Ctx d _) =
     Ctx \<lparr>ctx_id = i, ctx_message = ctx_message d, ctx_start_time = now, ctx_limits = ctx_limits d,
          ctx_security = ctx_security d, ctx_metadata = ctx_metadata d, ctx_plugin_chain = plugin_chain_new,
          ctx_metrics = context_metrics_default\<rparr> []"

definition inherit_security :: "context_security option \<Rightarrow> processing_context \<Rightarrow> processing_context" where
  "inherit_security s c = (case s of Some x \<Rightarrow> with_security x c | None \<Rightarrow> c)"

definition create_child_context ::
  "u128 \<times> u128 \<Rightarrow> instant \<times> instant \<Rightarrow> core_message \<Rightarrow> processing_context \<Rightarrow> processing_context \<times> processing_context" where
  "create_child_context ids nows m c =
     (case c of Ctx d cs \<Rightarrow>
        let child0 = inherit_security (ctx_security d)
                       (with_limits (ctx_limits d) (processing_context_new (fst ids) (fst nows) m));
            child = foldl (\<lambda>ch (k, v). add_metadata k v ch) child0 (ctx_metadata d)
        in (Ctx (d\<lparr>ctx_metrics := (ctx_metrics d)\<lparr>ctxm_children_created := ctxm_children_created (ctx_metrics d) + 1\<rparr>\<rparr>)
              (cs @ [context_clone (snd ids) (snd nows) child]), child))"

fun add_plugin_to_chain :: "string \<Rightarrow> processing_context \<Rightarrow> processing_context" where
  "add_plugin_to_chain name (Ctx d cs) = Ctx (d\<lparr>ctx_plugin_chain := chain_add_plugin name (ctx_plugin_chain d)\<rparr>) cs"

fun execute_chain :: "processing_context \<Rightarrow> processing_context" where
  "execute_chain (Ctx d cs) = Ctx (d\<lparr>ctx_plugin_chain := (ctx_plugin_chain d)\<lparr>pc_state := ChainCompleted\<rparr>\<rparr>) cs"

datatype context_error = CtxResourceLimit string string | CtxSecurityViolation string

definition context_check_limits ::
  "(duration \<Rightarrow> string) \<Rightarrow> instant \<Rightarrow> processing_context \<Rightarrow> (unit, context_error) result" where
  "context_check_limits show_duration now c =
     (let d = ctx_data c; l = ctx_limits d; elapsed = now - ctx_start_time d in
      if elapsed > pl_max_duration l
      then Err (CtxResourceLimit ''execution_time'' (''Execution time limit exceeded: '' @ show_duration elapsed
             @ '' > '' @ show_duration (pl_max_duration l)))
      else if ctxm_memory_allocated (ctx_metrics d) > word_of_nat (pl_max_memory l)
      then Err (CtxResourceLimit ''memory'' (''Memory limit exceeded: '' @ decimal (unat (ctxm_memory_allocated (ctx_metrics d)))
             @ '' > '' @ decimal (pl_max_memory l)))
      else if length (ctx_children c) > pl_max_children l
      then Err (CtxResourceLimit ''child_contexts'' (''Child context limit exceeded: '' @ decimal (length (ctx_children c))
             @ '' > '' @ decimal (pl_max_children l)))
      else Ok ())"

definition allows :: "context_security \<Rightarrow> string \<Rightarrow> string \<Rightarrow> bool" where
  "allows s operation resource =
     (let fs = secp_filesystem (ctxs_permissions s) in
      if operation = ''read_file'' then list_ex (\<lambda>p. prefix p resource) (fsp_read_paths fs)
      else if operation = ''write_file'' then list_ex (\<lambda>p. prefix p resource) (fsp_write_paths fs)
      else if operation = ''network_connect''
      then list_ex (\<lambda>h. sublist h resource) (np_allowed_hosts (secp_network (ctxs_permissions s)))
      else False)"

definition denial_text :: "string \<Rightarrow> string \<Rightarrow> string" where
  "denial_text operation resource =
     (if operation = ''read_file'' then ''File read access denied: '' @ resource
      else if operation = ''write_file'' then ''File write access denied: '' @ resource
      else if operation = ''network_connect'' then ''Network access denied: '' @ resource
      else ''Unknown operation denied: '' @ operation)"

fun validate_security :: "string \<Rightarrow> string \<Rightarrow> processing_context \<Rightarrow> processing_context \<times> (unit, context_error) result" where
  "validate_security operation resource (Ctx d cs) =
     (case ctx_security d of
        None \<Rightarrow> (Ctx d cs, Ok ())
      | Some s \<Rightarrow>
          if allows s operation resource then (Ctx d cs, Ok ())
          else (Ctx (d\<lparr>ctx_metrics := (ctx_metrics d)\<lparr>ctxm_security_violations := ctxm_security_violations (ctx_metrics d) + 1\<rparr>\<rparr>) cs,
                Err (CtxSecurityViolation (denial_text operation resource))))"

section \<open>Invariants\<close>

datatype context_op =
  CxMetadata string string | CxChild "u128 \<times> u128" "instant \<times> instant" core_message | CxAddPlugin string
| CxExecute | CxValidate string string

fun context_step :: "context_op \<Rightarrow> processing_context \<Rightarrow> processing_context \<times> (unit, context_error) result" where
  "context_step (CxMetadata k v) c = (add_metadata k v c, Ok ())"
| "context_step (CxChild ids nows m) c = (fst (create_child_context ids nows m c), Ok ())"
| "context_step (CxAddPlugin p) c = (add_plugin_to_chain p c, Ok ())"
| "context_step CxExecute c = (execute_chain c, Ok ())"
| "context_step (CxValidate operation resource) c = validate_security operation resource c"

abbreviation metrics_of :: "processing_context \<Rightarrow> context_metrics" where
  "metrics_of c \<equiv> ctx_metrics (ctx_data c)"

fun was_denied :: "(unit, context_error) result \<Rightarrow> bool" where
  "was_denied (Err (CtxSecurityViolation _)) = True"
| "was_denied _ = False"

definition accounted :: "processing_context \<Rightarrow> nat \<Rightarrow> processing_context \<Rightarrow> bool" where
  "accounted c denied c' \<longleftrightarrow>
     ctx_security (ctx_data c') = ctx_security (ctx_data c)
   \<and> ctx_limits (ctx_data c') = ctx_limits (ctx_data c)
   \<and> ctxm_memory_allocated (metrics_of c') = ctxm_memory_allocated (metrics_of c)
   \<and> ctxm_security_violations (metrics_of c') = ctxm_security_violations (metrics_of c) + word_of_nat denied
   \<and> ctxm_children_created (metrics_of c') - word_of_nat (length (ctx_children c'))
       = ctxm_children_created (metrics_of c) - word_of_nat (length (ctx_children c))"

lemma accounted_trans: "accounted a m b \<Longrightarrow> accounted b n c \<Longrightarrow> accounted a (m + n) c"
  by (simp add: accounted_def)

lemma child_accounted: "accounted c 0 (fst (create_child_context ids nows m c))"
  by (cases c) (simp add: create_child_context_def accounted_def Let_def)

lemma validate_accounted:
  "accounted c (if was_denied (snd (validate_security operation resource c)) then 1 else 0)
     (fst (validate_security operation resource c))"
  by (cases c) (simp add: accounted_def split: option.split)

lemma context_step_accounted:
  "accounted c (if was_denied (snd (context_step x c)) then 1 else 0) (fst (context_step x c))"
proof (cases x)
  case (CxChild ids nows m)
  then show ?thesis using child_accounted by simp
next
  case (CxValidate operation resource)
  then show ?thesis using validate_accounted by simp
qed (cases c; simp add: accounted_def)+

lemma run_context_accounted:
  "accounted c (length (filter was_denied (snd (run_ops context_step xs c)))) (fst (run_ops context_step xs c))"
proof (induction xs arbitrary: c)
  case (Cons x xs)
  show ?case
    using accounted_trans [OF context_step_accounted [of c x] Cons.IH [of "fst (context_step x c)"]]
    by (simp add: split_beta split: if_splits)
qed (simp add: accounted_def)

text \<open>
  Whatever a context is used for, it counts the accesses it denied and the children it made, and its
  memory counter stays 0, so that the limit on memory is never exceeded.
\<close>

theorem context_accounts:
  assumes "run_ops context_step xs (with_security s (with_limits l (processing_context_new i t m))) = (c, rs)"
  shows "ctxm_security_violations (metrics_of c) = word_of_nat (length (filter was_denied rs))
    \<and> ctxm_children_created (metrics_of c) = word_of_nat (length (ctx_children c))
    \<and> ctxm_memory_allocated (metrics_of c) = 0
    \<and> context_check_limits show_duration now c
        \<noteq> Err (CtxResourceLimit ''memory'' text)"
proof -
  let ?c = "with_security s (with_limits l (processing_context_new i t m))"
  have "accounted ?c (length (filter was_denied rs)) c"
    using run_context_accounted [of ?c xs] by (simp only: assms fst_conv snd_conv)
  then show ?thesis
    by (simp add: accounted_def processing_context_new_def context_metrics_default_def
        context_check_limits_def Let_def)
qed

text \<open>
  The permission to read below a directory is a test of the first characters of the path: it lets a path
  leave the directory again and admits every path whose name begins with that of the directory. The
  permission to connect admits every host whose name contains an allowed one.
\<close>

lemma path_traversal_allowed:
  "snd (validate_security ''read_file'' ''/tmp/../etc/shadow''
     (with_security context_security_default (processing_context_new i t m))) = Ok ()"
  "snd (validate_security ''write_file'' ''/tmpfiles''
     (with_security context_security_default (processing_context_new i t m))) = Ok ()"
  "snd (validate_security ''network_connect'' ''localhost.example.org''
     (with_security context_security_default (processing_context_new i t m))) = Ok ()"
proof -
  have h: "sublist ''localhost'' ''localhost.example.org''"
    using prefix_imp_sublist [of "''localhost''" "''localhost.example.org''"] by simp
  show "snd (validate_security ''network_connect'' ''localhost.example.org''
     (with_security context_security_default (processing_context_new i t m))) = Ok ()"
    using h by (simp add: processing_context_new_def context_security_default_def allows_def Let_def
      security_permissions_default_def net_permissions_default_def)
qed (simp_all add: processing_context_new_def context_security_default_def allows_def Let_def
      security_permissions_default_def fs_permissions_default_def)

text \<open>A context without permissions allows everything.\<close>

lemma no_security_allows_all: "snd (validate_security operation resource (processing_context_new i t m)) = Ok ()"
  by (simp add: processing_context_new_def)

text \<open>The child a context keeps is a copy: what is done to the child it returned does not reach it.\<close>

lemma child_is_copy:
  "create_child_context ids nows m c = (c', child) \<Longrightarrow>
     \<exists>kept. ctx_children c' = ctx_children c @ [kept] \<and> ctx_id (ctx_data kept) = snd ids
       \<and> ctx_metadata (ctx_data kept) = ctx_metadata (ctx_data child)"
  by (cases c; cases child) (auto simp: create_child_context_def Let_def)

end
