(* ===== verification/Plugin_Metrics.thy ===== *)
theory Plugin_Metrics
  imports Clocks
begin

text \<open>
  The metrics of plugins, \<^verbatim>\<open>src/kaelix-core/src/plugin/metrics.rs\<close>: the counters and times of one plugin, the
  counters over all of them and the monitor that holds both. Counters are 64-bit words, times natural
  numbers of nanoseconds; floating-point operations, the text of a floating-point number and every
  reading of a clock are arguments.
\<close>

section \<open>Metric values\<close>

datatype 'f metric_value =
  MvCounter u64 | MvGauge 'f | MvDuration u64 | MvText string | MvBoolean bool | MvTimestamp u64

fun metric_as_u64 :: "'f float_ops \<Rightarrow> 'f metric_value \<Rightarrow> u64 option" where
  "metric_as_u64 fl (MvCounter v) = Some v"
| "metric_as_u64 fl (MvGauge v) = Some (fl_as_u64 fl v)"
| "metric_as_u64 fl (MvDuration v) = Some v"
| "metric_as_u64 fl (MvTimestamp v) = Some v"
| "metric_as_u64 fl (MvBoolean b) = Some (if b then 1 else 0)"
| "metric_as_u64 fl (MvText _) = None"

fun metric_as_f64 :: "'f float_ops \<Rightarrow> 'f metric_value \<Rightarrow> 'f option" where
  "metric_as_f64 fl (MvCounter v) = Some (fl_of_usize fl (unat v))"
| "metric_as_f64 fl (MvGauge v) = Some v"
| "metric_as_f64 fl (MvDuration v) = Some (fl_of_usize fl (unat v))"
| "metric_as_f64 fl (MvTimestamp v) = Some (fl_of_usize fl (unat v))"
| "metric_as_f64 fl (MvBoolean b) = Some (if b then fl_tenths fl 10 else fl_tenths fl 0)"
| "metric_as_f64 fl (MvText _) = None"

fun metric_as_string :: "('f \<Rightarrow> string) \<Rightarrow> 'f metric_value \<Rightarrow> string" where
  "metric_as_string show_f (MvCounter v) = decimal (unat v)"
| "metric_as_string show_f (MvGauge v) = show_f v"
| "metric_as_string show_f (MvDuration v) = decimal (unat v) @ ''ms''"
| "metric_as_string show_f (MvText t) = t"
| "metric_as_string show_f (MvBoolean b) = (if b then ''true'' else ''false'')"
| "metric_as_string show_f (MvTimestamp v) = decimal (unat v)"

section \<open>One plugin\<close>

record 'f plugin_metrics =
  pm_invocation_count :: u64
  pm_successful_invocations :: u64
  pm_failed_invocations :: u64
  pm_total_processing_time :: duration
  pm_min_processing_time :: "duration option"
  pm_max_processing_time :: "duration option"
  pm_last_invocation :: "instant option"
  pm_current_memory_usage :: u64
  pm_peak_memory_usage :: u64
  pm_current_cpu_usage :: 'f
  pm_peak_cpu_usage :: 'f
  pm_custom_metrics :: "(string, 'f metric_value) hash_map"
  pm_created_at :: instant

definition plugin_metrics_new :: "'f float_ops \<Rightarrow> instant \<Rightarrow> 'f plugin_metrics" where
  "plugin_metrics_new fl now =
     \<lparr>pm_invocation_count = 0, pm_successful_invocations = 0, pm_failed_invocations = 0,
      pm_total_processing_time = 0, pm_min_processing_time = None, pm_max_processing_time = None,
      pm_last_invocation = None, pm_current_memory_usage = 0, pm_peak_memory_usage = 0,
      pm_current_cpu_usage = fl_tenths fl 0, pm_peak_cpu_usage = fl_tenths fl 0, pm_custom_metrics = [],
      pm_created_at = now\<rparr>"

definition lower_min :: "duration \<Rightarrow> duration option \<Rightarrow> duration option" where
  "lower_min d m = (case m of None \<Rightarrow> Some d | Some current \<Rightarrow> if d < current then Some d else m)"

definition raise_max :: "duration \<Rightarrow> duration option \<Rightarrow> duration option" where
  "raise_max d m = (case m of None \<Rightarrow> Some d | Some current \<Rightarrow> if d > current then Some d else m)"

text \<open>
  The sum of the times is unbounded here. The \<open>Duration\<close> of the code holds \<open>2 ^ 64\<close> seconds, more than half a
  trillion years, and panics beyond them.
\<close>

definition pm_record_invocation :: "instant \<Rightarrow> duration \<Rightarrow> bool \<Rightarrow> 'f plugin_metrics \<Rightarrow> 'f plugin_metrics" where
  "pm_record_invocation now d success m =
     m\<lparr>pm_invocation_count := pm_invocation_count m + 1,
       pm_successful_invocations := (if success then pm_successful_invocations m + 1 else pm_successful_invocations m),
       pm_failed_invocations := (if success then pm_failed_invocations m else pm_failed_invocations m + 1),
       pm_total_processing_time := pm_total_processing_time m + d,
       pm_min_processing_time := lower_min d (pm_min_processing_time m),
       pm_max_processing_time := raise_max d (pm_max_processing_time m),
       pm_last_invocation := Some now\<rparr>"

definition rate_of :: "'f float_ops \<Rightarrow> u64 \<Rightarrow> u64 \<Rightarrow> 'f" where
  "rate_of fl successful all =
     (if all > 0
      then fl_mul fl (fl_div fl (fl_of_usize fl (unat successful)) (fl_of_usize fl (unat all))) (fl_of_usize fl 100)
      else fl_tenths fl 0)"

definition pm_success_rate :: "'f float_ops \<Rightarrow> 'f plugin_metrics \<Rightarrow> 'f" where
  "pm_success_rate fl m = rate_of fl (pm_successful_invocations m) (pm_invocation_count m)"

definition pm_failure_rate :: "'f float_ops \<Rightarrow> 'f plugin_metrics \<Rightarrow> 'f" where
  "pm_failure_rate fl m = fl_sub fl (fl_of_usize fl 100) (pm_success_rate fl m)"

text \<open>The divisor is the count cut to 32 bits; a duration divided by zero panics.\<close>

definition average_processing_time :: "'f plugin_metrics \<Rightarrow> (duration, unit) result" where
  "average_processing_time m =
     (if pm_invocation_count m > 0
      then let divisor = (ucast (pm_invocation_count m) :: u32) in
           if divisor = 0 then Panic else Ok (pm_total_processing_time m div unat divisor)
      else Ok 0)"

definition pm_update_memory_usage :: "u64 \<Rightarrow> 'f plugin_metrics \<Rightarrow> 'f plugin_metrics" where
  "pm_update_memory_usage current m =
     m\<lparr>pm_current_memory_usage := current,
       pm_peak_memory_usage := (if current \<le> pm_peak_memory_usage m then pm_peak_memory_usage m else current)\<rparr>"

definition pm_update_cpu_usage :: "'f float_ops \<Rightarrow> 'f \<Rightarrow> 'f plugin_metrics \<Rightarrow> 'f plugin_metrics" where
  "pm_update_cpu_usage fl percentage m =
     (let clamped = fl_clamp fl (fl_tenths fl 0) (fl_of_usize fl 100) percentage in
      m\<lparr>pm_current_cpu_usage := clamped,
        pm_peak_cpu_usage := (if fl_less fl (pm_peak_cpu_usage m) percentage then clamped else pm_peak_cpu_usage m)\<rparr>)"

definition set_custom_metric :: "string \<Rightarrow> 'f metric_value \<Rightarrow> 'f plugin_metrics \<Rightarrow> 'f plugin_metrics" where
  "set_custom_metric name v m = m\<lparr>pm_custom_metrics := hm_insert name v (pm_custom_metrics m)\<rparr>"

definition get_custom_metric :: "string \<Rightarrow> 'f plugin_metrics \<Rightarrow> 'f metric_value option" where
  "get_custom_metric name m = hm_get (pm_custom_metrics m) name"

record 'f plugin_metrics_snapshot =
  psn_invocation_count :: u64
  psn_successful_invocations :: u64
  psn_failed_invocations :: u64
  psn_success_rate :: 'f
  psn_average_processing_time :: duration
  psn_min_processing_time :: "duration option"
  psn_max_processing_time :: "duration option"
  psn_current_memory_usage :: u64
  psn_peak_memory_usage :: u64
  psn_current_cpu_usage :: 'f
  psn_peak_cpu_usage :: 'f
  psn_custom_metrics :: "(string, 'f metric_value) hash_map"
  psn_uptime :: duration
  psn_created_at_timestamp :: u64

definition pm_to_snapshot ::
  "'f float_ops \<Rightarrow> instant \<Rightarrow> u64 \<Rightarrow> 'f plugin_metrics \<Rightarrow> ('f plugin_metrics_snapshot, unit) result" where
  "pm_to_snapshot fl now unix_secs m =
     and_then (average_processing_time m) (\<lambda>avg.
       Ok \<lparr>psn_invocation_count = pm_invocation_count m, psn_successful_invocations = pm_successful_invocations m,
           psn_failed_invocations = pm_failed_invocations m, psn_success_rate = pm_success_rate fl m,
           psn_average_processing_time = avg, psn_min_processing_time = pm_min_processing_time m,
           psn_max_processing_time = pm_max_processing_time m, psn_current_memory_usage = pm_current_memory_usage m,
           psn_peak_memory_usage = pm_peak_memory_usage m, psn_current_cpu_usage = pm_current_cpu_usage m,
           psn_peak_cpu_usage = pm_peak_cpu_usage m, psn_custom_metrics = pm_custom_metrics m,
           psn_uptime = now - pm_created_at m, psn_created_at_timestamp = unix_secs\<rparr>)"

section \<open>All plugins\<close>

record global_metrics =
  gm_total_invocations :: u64
  gm_total_successful :: u64
  gm_total_failed :: u64
  gm_created_at :: instant

definition global_metrics_new :: "instant \<Rightarrow> global_metrics" where
  "global_metrics_new now =
     \<lparr>gm_total_invocations = 0, gm_total_successful = 0, gm_total_failed = 0, gm_created_at = now\<rparr>"

definition gm_record_invocation :: "bool \<Rightarrow> global_metrics \<Rightarrow> global_metrics" where
  "gm_record_invocation success g =
     g\<lparr>gm_total_invocations := gm_total_invocations g + 1,
       gm_total_successful := (if success then gm_total_successful g + 1 else gm_total_successful g),
       gm_total_failed := (if success then gm_total_failed g else gm_total_failed g + 1)\<rparr>"

definition global_success_rate :: "'f float_ops \<Rightarrow> global_metrics \<Rightarrow> 'f" where
  "global_success_rate fl g = rate_of fl (gm_total_successful g) (gm_total_invocations g)"

definition global_failure_rate :: "'f float_ops \<Rightarrow> global_metrics \<Rightarrow> 'f" where
  "global_failure_rate fl g = fl_sub fl (fl_of_usize fl 100) (global_success_rate fl g)"

definition gm_reset :: "global_metrics \<Rightarrow> global_metrics" where
  "gm_reset g = g\<lparr>gm_total_invocations := 0, gm_total_successful := 0, gm_total_failed := 0\<rparr>"

section \<open>The monitor\<close>

record monitor_config =
  moc_enabled :: bool
  moc_collection_interval_ms :: u64
  moc_max_plugins :: "usize option"
  moc_track_memory :: bool
  moc_track_cpu :: bool
  moc_enable_custom_metrics :: bool
  moc_max_custom_metrics :: usize
  moc_retention_duration_secs :: u64

definition monitor_config_default :: monitor_config where
  "monitor_config_default =
     \<lparr>moc_enabled = True, moc_collection_interval_ms = 1000, moc_max_plugins = Some 1000, moc_track_memory = True,
      moc_track_cpu = True, moc_enable_custom_metrics = True, moc_max_custom_metrics = 100,
      moc_retention_duration_secs = 3600\<rparr>"

definition monitor_config_high_performance :: monitor_config where
  "monitor_config_high_performance =
     \<lparr>moc_enabled = True, moc_collection_interval_ms = 100, moc_max_plugins = Some 100, moc_track_memory = False,
      moc_track_cpu = False, moc_enable_custom_metrics = False, moc_max_custom_metrics = 10,
      moc_retention_duration_secs = 300\<rparr>"

definition monitor_config_development :: monitor_config where
  "monitor_config_development =
     \<lparr>moc_enabled = True, moc_collection_interval_ms = 500, moc_max_plugins = None, moc_track_memory = True,
      moc_track_cpu = True, moc_enable_custom_metrics = True, moc_max_custom_metrics = 1000,
      moc_retention_duration_secs = 7200\<rparr>"

definition monitor_config_minimal :: monitor_config where
  "monitor_config_minimal =
     \<lparr>moc_enabled = True, moc_collection_interval_ms = 10000, moc_max_plugins = Some 50, moc_track_memory = False,
      moc_track_cpu = False, moc_enable_custom_metrics = False, moc_max_custom_metrics = 0,
      moc_retention_duration_secs = 600\<rparr>"

definition monitor_collection_interval :: "monitor_config \<Rightarrow> duration" where
  "monitor_collection_interval c = duration_from_millis (moc_collection_interval_ms c)"

definition monitor_retention_duration :: "monitor_config \<Rightarrow> duration" where
  "monitor_retention_duration c = unat (moc_retention_duration_secs c) * 1000000000"

record ('p, 'f) plugin_monitor =
  mon_config :: monitor_config
  mon_plugin_metrics :: "('p, 'f plugin_metrics) hash_map"
  mon_global_metrics :: global_metrics
  mon_created_at :: instant

definition plugin_monitor_with_config :: "instant \<times> instant \<Rightarrow> monitor_config \<Rightarrow> ('p, 'f) plugin_monitor" where
  "plugin_monitor_with_config nows c =
     \<lparr>mon_config = c, mon_plugin_metrics = [], mon_global_metrics = global_metrics_new (fst nows),
      mon_created_at = snd nows\<rparr>"

definition plugin_monitor_new :: "instant \<times> instant \<Rightarrow> ('p, 'f) plugin_monitor" where
  "plugin_monitor_new nows = plugin_monitor_with_config nows monitor_config_default"

definition monitor_record_invocation ::
  "'f float_ops \<Rightarrow> instant \<Rightarrow> 'p \<Rightarrow> duration \<Rightarrow> bool \<Rightarrow> ('p, 'f) plugin_monitor \<Rightarrow> ('p, 'f) plugin_monitor" where
  "monitor_record_invocation fl now p d success m =
     (let current = (case hm_get (mon_plugin_metrics m) p of Some x \<Rightarrow> x | None \<Rightarrow> plugin_metrics_new fl now) in
      m\<lparr>mon_plugin_metrics := hm_insert p (pm_record_invocation now d success current) (mon_plugin_metrics m),
        mon_global_metrics := gm_record_invocation success (mon_global_metrics m)\<rparr>)"

definition track_invocation ::
  "'f float_ops \<Rightarrow> instant \<times> instant \<times> instant \<Rightarrow> 'p \<Rightarrow> 't \<Rightarrow> ('p, 'f) plugin_monitor \<Rightarrow> ('p, 'f) plugin_monitor \<times> 't" where
  "track_invocation fl clk p outcome m =
     (case clk of (start, stop, now) \<Rightarrow> (monitor_record_invocation fl now p (stop - start) True m, outcome))"

definition track_invocation_result ::
  "'f float_ops \<Rightarrow> instant \<times> instant \<times> instant \<Rightarrow> 'p \<Rightarrow> ('t, 'e) result \<Rightarrow> ('p, 'f) plugin_monitor
     \<Rightarrow> ('p, 'f) plugin_monitor \<times> ('t, 'e) result" where
  "track_invocation_result fl clk p outcome m =
     (case clk of (start, stop, now) \<Rightarrow> (monitor_record_invocation fl now p (stop - start) (is_ok outcome) m, outcome))"

definition collect_metrics ::
  "'f float_ops \<Rightarrow> instant \<Rightarrow> u64 \<Rightarrow> 'p \<Rightarrow> ('p, 'f) plugin_monitor
     \<Rightarrow> ('f plugin_metrics_snapshot option, unit) result" where
  "collect_metrics fl now unix_secs p m =
     (case hm_get (mon_plugin_metrics m) p of
        None \<Rightarrow> Ok None
      | Some x \<Rightarrow> and_then (pm_to_snapshot fl now unix_secs x) (\<lambda>s. Ok (Some s)))"

fun snapshot_all ::
  "'f float_ops \<Rightarrow> instant \<Rightarrow> u64 \<Rightarrow> ('p \<times> 'f plugin_metrics) list \<Rightarrow> (('p, 'f plugin_metrics_snapshot) hash_map, unit) result" where
  "snapshot_all fl now unix_secs [] = Ok []"
| "snapshot_all fl now unix_secs ((p, x) # xs) =
     and_then (pm_to_snapshot fl now unix_secs x) (\<lambda>s.
     and_then (snapshot_all fl now unix_secs xs) (\<lambda>r. Ok (hm_insert p s r)))"

definition collect_all_metrics ::
  "'f float_ops \<Rightarrow> instant \<Rightarrow> u64 \<Rightarrow> ('p, 'f) plugin_monitor
     \<Rightarrow> (('p, 'f plugin_metrics_snapshot) hash_map, unit) result" where
  "collect_all_metrics fl now unix_secs m = snapshot_all fl now unix_secs (mon_plugin_metrics m)"

definition clear_plugin_metrics :: "'p \<Rightarrow> ('p, 'f) plugin_monitor \<Rightarrow> ('p, 'f) plugin_monitor" where
  "clear_plugin_metrics p m = m\<lparr>mon_plugin_metrics := hm_remove p (mon_plugin_metrics m)\<rparr>"

definition clear_all_metrics :: "('p, 'f) plugin_monitor \<Rightarrow> ('p, 'f) plugin_monitor" where
  "clear_all_metrics m = m\<lparr>mon_plugin_metrics := [], mon_global_metrics := gm_reset (mon_global_metrics m)\<rparr>"

definition is_monitoring :: "'p \<Rightarrow> ('p, 'f) plugin_monitor \<Rightarrow> bool" where
  "is_monitoring p m \<longleftrightarrow> hm_get (mon_plugin_metrics m) p \<noteq> None"

definition monitored_plugin_count :: "('p, 'f) plugin_monitor \<Rightarrow> usize" where
  "monitored_plugin_count m = length (mon_plugin_metrics m)"

section \<open>Tallies\<close>

text \<open>What the counters of one plugin and those of all plugins have in common.\<close>

locale invocation_tally =
  fixes mark :: "'x \<Rightarrow> 's \<Rightarrow> 's"
    and succeeded :: "'x \<Rightarrow> bool"
    and count good bad :: "'s \<Rightarrow> u64"
  assumes count_note: "count (mark x s) = count s + 1"
    and good_note: "good (mark x s) = good s + (if succeeded x then 1 else 0)"
    and bad_note: "bad (mark x s) = bad s + (if succeeded x then 0 else 1)"
begin

definition tallies :: "'x list \<Rightarrow> 's \<Rightarrow> bool" where
  "tallies xs s \<longleftrightarrow> count s = of_nat (length xs) \<and> good s = of_nat (length (filter succeeded xs))
     \<and> bad s = of_nat (length (filter (\<lambda>x. \<not> succeeded x) xs))"

lemma tallies_note: "tallies xs s \<Longrightarrow> tallies (xs @ [x]) (mark x s)"
  by (simp add: tallies_def count_note good_note bad_note)

lemma tallies_balance: "tallies xs s \<Longrightarrow> count s = good s + bad s"
  by (simp add: tallies_def flip: of_nat_add sum_length_filter_compl [of succeeded xs])

end

definition pm_note :: "instant \<times> duration \<times> bool \<Rightarrow> 'f plugin_metrics \<Rightarrow> 'f plugin_metrics" where
  "pm_note x = (case x of (now, d, success) \<Rightarrow> pm_record_invocation now d success)"

abbreviation call_succeeded :: "instant \<times> duration \<times> bool \<Rightarrow> bool" where
  "call_succeeded x \<equiv> snd (snd x)"

abbreviation call_time :: "instant \<times> duration \<times> bool \<Rightarrow> duration" where
  "call_time x \<equiv> fst (snd x)"

interpretation pmt: invocation_tally pm_note call_succeeded
  pm_invocation_count pm_successful_invocations pm_failed_invocations
  by unfold_locales (simp_all add: pm_note_def pm_record_invocation_def split: prod.split)

interpretation gmt: invocation_tally gm_record_invocation "\<lambda>b. b"
  gm_total_invocations gm_total_successful gm_total_failed
  by unfold_locales (simp_all add: gm_record_invocation_def)

section \<open>The monitor refines a history\<close>

text \<open>
  The history the monitor summarises: the calls of each plugin since it was last forgotten, and the
  outcomes of all calls since everything was last forgotten.
\<close>

type_synonym 'p call_history = "('p \<Rightarrow> (instant \<times> duration \<times> bool) list option) \<times> bool list"

definition describes :: "(instant \<times> duration \<times> bool) list \<Rightarrow> 'f plugin_metrics \<Rightarrow> bool" where
  "describes xs m \<longleftrightarrow> xs \<noteq> [] \<and> pmt.tallies xs m \<and> pm_total_processing_time m = sum_list (map call_time xs)
     \<and> pm_min_processing_time m = Some (Min (call_time ` set xs))
     \<and> pm_max_processing_time m = Some (Max (call_time ` set xs))
     \<and> pm_last_invocation m = Some (fst (last xs))"

lemma lower_min_Some [simp]: "lower_min d (Some x) = Some (min d x)"
  by (simp add: lower_min_def min_def)

lemma raise_max_Some [simp]: "raise_max d (Some x) = Some (max d x)"
  by (simp add: raise_max_def max_def)

lemma describes_note:
  assumes "describes xs m"
  shows "describes (xs @ [x]) (pm_note x m)"
proof -
  have "xs \<noteq> []" using assms by (simp add: describes_def)
  then show ?thesis
    using assms pmt.tallies_note [of xs m x]
    by (cases x) (simp add: describes_def pm_note_def pm_record_invocation_def)
qed

lemma describes_first: "describes [x] (pm_note x (plugin_metrics_new fl now))"
  using pmt.tallies_note [of "[]" "plugin_metrics_new fl now" x]
  by (cases x) (simp add: describes_def pm_note_def pm_record_invocation_def plugin_metrics_new_def lower_min_def
      raise_max_def pmt.tallies_def)

datatype 'p monitor_op = MoRecord instant 'p duration bool | MoClear 'p | MoClearAll | MoMonitoring 'p

fun monitor_step :: "'f float_ops \<Rightarrow> 'p monitor_op \<Rightarrow> ('p, 'f) plugin_monitor \<Rightarrow> ('p, 'f) plugin_monitor \<times> bool option" where
  "monitor_step fl (MoRecord now p d success) m = (monitor_record_invocation fl now p d success m, None)"
| "monitor_step fl (MoClear p) m = (clear_plugin_metrics p m, None)"
| "monitor_step fl MoClearAll m = (clear_all_metrics m, None)"
| "monitor_step fl (MoMonitoring p) m = (m, Some (is_monitoring p m))"

fun history_step :: "'p monitor_op \<Rightarrow> 'p call_history \<Rightarrow> 'p call_history \<times> bool option" where
  "history_step (MoRecord now p d success) (h, all) =
     ((h(p \<mapsto> (case h p of None \<Rightarrow> [] | Some xs \<Rightarrow> xs) @ [(now, d, success)]), all @ [success]), None)"
| "history_step (MoClear p) (h, all) = ((h(p := None), all), None)"
| "history_step MoClearAll (h, all) = ((Map.empty, []), None)"
| "history_step (MoMonitoring p) (h, all) = ((h, all), Some (h p \<noteq> None))"

definition summarises :: "'p call_history \<Rightarrow> ('p, 'f) plugin_monitor \<Rightarrow> bool" where
  "summarises hs m \<longleftrightarrow> rel_fun (=) (rel_option describes) (fst hs) (map_of (mon_plugin_metrics m))
     \<and> gmt.tallies (snd hs) (mon_global_metrics m)"

lemma summarises_plugin: "summarises hs m \<Longrightarrow> rel_option describes (fst hs p) (map_of (mon_plugin_metrics m) p)"
  by (auto simp: summarises_def rel_fun_def)

lemma record_summarised:
  assumes "summarises (h, all) m"
  shows "summarises (fst (history_step (MoRecord now p d success) (h, all))) (monitor_record_invocation fl now p d success m)"
proof -
  let ?current = "case map_of (mon_plugin_metrics m) p of Some x \<Rightarrow> x | None \<Rightarrow> plugin_metrics_new fl now"
  have "describes ((case h p of None \<Rightarrow> [] | Some xs \<Rightarrow> xs) @ [(now, d, success)]) (pm_record_invocation now d success ?current)"
    using summarises_plugin [OF assms, of p] describes_first [of "(now, d, success)" fl now]
      describes_note [of _ _ "(now, d, success)"]
    by (auto simp: pm_note_def split: option.splits)
  then show ?thesis
    using assms gmt.tallies_note [of all "mon_global_metrics m" success]
    by (auto simp: summarises_def rel_fun_def monitor_record_invocation_def Let_def)
qed

lemma monitor_simulates:
  assumes "summarises hs m"
  shows "snd (monitor_step fl x m) = snd (history_step x hs)
    \<and> summarises (fst (history_step x hs)) (fst (monitor_step fl x m))"
proof (cases x)
  case (MoRecord now p d success)
  then show ?thesis using record_summarised [of "fst hs" "snd hs" m] assms by (cases hs) simp
next
  case (MoClear p)
  then show ?thesis using assms by (cases hs) (auto simp: summarises_def rel_fun_def clear_plugin_metrics_def)
next
  case MoClearAll
  then show ?thesis
    using assms by (cases hs) (auto simp: summarises_def rel_fun_def clear_all_metrics_def gmt.tallies_def gm_reset_def)
next
  case (MoMonitoring p)
  have "(map_of (mon_plugin_metrics m) p \<noteq> None) = (fst hs p \<noteq> None)"
    using summarises_plugin [OF assms, of p] by (cases "fst hs p"; cases "map_of (mon_plugin_metrics m) p") auto
  then show ?thesis using MoMonitoring assms by (cases hs) (auto simp: is_monitoring_def)
qed

interpretation mon: relational_refinement summarises "monitor_step fl" history_step
  by unfold_locales (rule monitor_simulates)

lemma new_monitor_summarises: "summarises (Map.empty, []) (plugin_monitor_with_config nows c)"
  by (simp add: summarises_def rel_fun_def plugin_monitor_with_config_def gmt.tallies_def global_metrics_new_def)

text \<open>
  C36: The monitor refines the history of the calls it was told: whatever is recorded and forgotten in
  whatever order, the numbers of a plugin count its calls since it was last forgotten, its times are
  their sum, minimum and maximum, and the global numbers count the calls since everything was last
  forgotten.
\<close>

theorem monitor_refines_history:
  "snd (run_ops (monitor_step fl) ops (plugin_monitor_with_config nows c)) = snd (run_ops history_step ops (Map.empty, []))
   \<and> summarises (fst (run_ops history_step ops (Map.empty, [])))
       (fst (run_ops (monitor_step fl) ops (plugin_monitor_with_config nows c)))"
  using mon.run_related [OF new_monitor_summarises] by blast

text \<open>
  The average time lies between the shortest and the longest call as long as there were fewer than
  \<open>2\<^sup>3\<^sup>2\<close> calls; at exactly that many, reading it panics, and with it every snapshot of the plugin.
\<close>

lemma average_of_calls:
  assumes "describes xs m" "length xs < 2 ^ 32"
  shows "average_processing_time m = Ok (sum_list (map call_time xs) div length xs)"
proof -
  have n: "0 < length xs" "pm_invocation_count m = of_nat (length xs)"
    "pm_total_processing_time m = sum_list (map call_time xs)"
    using assms(1) by (auto simp: describes_def pmt.tallies_def)
  have "0 < pm_invocation_count m" "unat (ucast (pm_invocation_count m) :: u32) = length xs"
    using n(1,2) assms(2)
    by (simp_all add: word_less_nat_alt unat_of_nat unsigned_ucast_eq take_bit_nat_eq_self)
  then show ?thesis
    using n(1,3) by (auto simp: average_processing_time_def Let_def unat_eq_0)
qed

lemma average_panics:
  assumes "describes xs m" "length xs = 2 ^ 32"
  shows "average_processing_time m = Panic \<and> pm_to_snapshot fl now unix_secs m = Panic"
proof -
  have n: "pm_invocation_count m = of_nat (2 ^ 32)"
    using assms by (auto simp: describes_def pmt.tallies_def)
  have "average_processing_time m = Panic" by (simp add: average_processing_time_def n)
  then show ?thesis by (simp add: pm_to_snapshot_def)
qed

lemma describes_run: "xs \<noteq> [] \<Longrightarrow> describes xs (fold pm_note xs (plugin_metrics_new fl now))"
proof (induction xs rule: rev_induct)
  case (snoc x xs)
  then show ?case by (cases "xs = []") (simp_all add: describes_first describes_note)
qed simp

text \<open>
  For every nonempty sequence of fewer than \<open>2\<^sup>3\<^sup>2\<close> calls the average processing time is defined and lies
  between the shortest and the longest time.
\<close>

theorem average_time_bounds:
  assumes "xs \<noteq> []" "length xs < 2 ^ 32" "m = fold pm_note xs (plugin_metrics_new fl now)"
  shows "\<exists>lo avg hi. pm_min_processing_time m = Some lo \<and> average_processing_time m = Ok avg
    \<and> pm_max_processing_time m = Some hi \<and> lo \<le> avg \<and> avg \<le> hi"
proof -
  let ?ts = "map call_time xs" and ?n = "length xs"
  have d: "describes xs m" using describes_run assms(1,3) by blast
  have "Min (set ?ts) \<le> sum_list ?ts div ?n \<and> sum_list ?ts div ?n \<le> Max (set ?ts)"
    using mean_between [of ?ts] assms(1) by simp
  then show ?thesis using average_of_calls [OF d assms(2)] d by (simp add: describes_def)
qed

theorem average_time_bounds_witness:
  "\<exists>lo avg hi. pm_min_processing_time (fold pm_note [(1, 30, True), (2, 51, False)] (plugin_metrics_new sample_floats 0)) = Some lo
    \<and> average_processing_time (fold pm_note [(1, 30, True), (2, 51, False)] (plugin_metrics_new sample_floats 0)) = Ok avg
    \<and> pm_max_processing_time (fold pm_note [(1, 30, True), (2, 51, False)] (plugin_metrics_new sample_floats 0)) = Some hi
    \<and> lo \<le> avg \<and> avg \<le> hi"
  by (rule average_time_bounds [where xs = "[(1, 30, True), (2, 51, False)]", OF _ _ refl]) simp_all

text \<open>A plugin's peak memory is the largest value reported.\<close>

lemma peak_memory_is_max:
  "pm_peak_memory_usage (fold pm_update_memory_usage xs m) = fold max xs (pm_peak_memory_usage m)"
  by (induction xs arbitrary: m) (simp_all add: pm_update_memory_usage_def max.commute max_def)

text \<open>The limit on the number of plugins is never consulted.\<close>

lemma max_plugins_not_enforced:
  "\<exists>m :: (nat, int) plugin_monitor. moc_max_plugins (mon_config m) = Some 0 \<and> 0 < monitored_plugin_count m
     \<and> m = monitor_record_invocation sample_floats 0 7 1 True
         (plugin_monitor_with_config (0, 0) (monitor_config_default\<lparr>moc_max_plugins := Some 0\<rparr>))"
  by (simp add: plugin_monitor_with_config_def monitor_record_invocation_def monitored_plugin_count_def hm_insert_def Let_def)

end
