(* ===== verification/Storage_Types.thy ===== *)
theory Storage_Types
  imports Storage Communication
begin

text \<open>
  The types of the storage layer (\<^verbatim>\<open>src/kaelix-storage/src/types.rs\<close>): stored messages with
  their checksum, age and expiry, and the results of writes, flushes and batches; and the texts of its
  errors with their cloneable form (\<^verbatim>\<open>error.rs\<close>). Serialization, the CRC, the protocol
  version and the text of a node are arguments. Sums of 64-bit counters wrap.
\<close>

section \<open>Texts of errors\<close>

definition num64 :: "u64 \<Rightarrow> string" where
  "num64 x = decimal (unat x)"

fun show_storage_error :: "(node_id \<Rightarrow> string) \<Rightarrow> storage_error \<Rightarrow> string" where
  "show_storage_error nd (InitializationFailed reason) = ''Storage initialization failed: '' @ reason"
| "show_storage_error nd (ShutdownFailed reason) = ''Storage shutdown failed: '' @ reason"
| "show_storage_error nd (WriteFailed offset reason) = ''Write operation failed at offset '' @ num64 offset @ '': '' @ reason"
| "show_storage_error nd (ReadFailed offset reason) = ''Read operation failed at offset '' @ num64 offset @ '': '' @ reason"
| "show_storage_error nd (SeekFailed offset reason) = ''Seek operation failed to offset '' @ num64 offset @ '': '' @ reason"
| "show_storage_error nd (FileSystemError operation path reason) =
     ''File system operation '' @ [CHR 0x27] @ operation @ [CHR 0x27] @ '' failed on path '' @ [CHR 0x27] @ path @ [CHR 0x27] @ '': '' @ reason"
| "show_storage_error nd (BackendUnavailable reason) = ''Storage backend unavailable: '' @ reason"
| "show_storage_error nd (DataCorrupted offset details) = ''Data corruption detected at offset '' @ num64 offset @ '': '' @ details"
| "show_storage_error nd (MessageCorrupted offset details) =
     ''Message corruption detected at offset '' @ num64 offset @ '': '' @ details"
| "show_storage_error nd (MessageNotFound i) = ''Message with ID '' @ i @ '' not found''"
| "show_storage_error nd (SequenceNotFound s) = ''Sequence number '' @ num64 s @ '' not found''"
| "show_storage_error nd (InvalidOffset offset segment_size) =
     ''Invalid offset: '' @ num64 offset @ '' exceeds segment size '' @ num64 segment_size"
| "show_storage_error nd (SerializationError details) = ''Serialization failed: '' @ details"
| "show_storage_error nd (DeserializationError offset details) =
     ''Deserialization failed at offset '' @ num64 offset @ '': '' @ details"
| "show_storage_error nd (LockAcquisitionFailed resource reason) =
     ''Lock acquisition failed for resource '' @ [CHR 0x27] @ resource @ [CHR 0x27] @ '': '' @ reason"
| "show_storage_error nd (OperationTimeout operation ms) = ''Operation timeout after '' @ num64 ms @ ''ms: '' @ operation"
| "show_storage_error nd (NetworkPartitionS k) = ''Network partition detected: isolated from '' @ decimal k @ '' nodes''"
| "show_storage_error nd (ReplicationFailed node reason) = ''Replication failed to '' @ nd node @ '': '' @ reason"
| "show_storage_error nd (ConsensusFailed operation t) = ''Consensus failed: '' @ operation @ '' (term: '' @ num64 t @ '')''"
| "show_storage_error nd (ResourceExhausted resource current limit) =
     ''Resource exhausted: '' @ resource @ '' limit exceeded ('' @ num64 current @ ''/'' @ num64 limit @ '')''"
| "show_storage_error nd (ConfigurationError parameter reason) =
     ''Configuration error: '' @ parameter @ '' is invalid: '' @ reason"
| "show_storage_error nd (AuthenticationFailed node reason) = ''Authentication failed for node '' @ nd node @ '': '' @ reason"
| "show_storage_error nd (AuthorizationFailed operation) =
     ''Authorization failed: operation '' @ [CHR 0x27] @ operation @ [CHR 0x27] @ '' not permitted''"
| "show_storage_error nd (CapacityExceeded used capacity) =
     ''Storage capacity exceeded: '' @ num64 used @ ''/'' @ num64 capacity @ '' bytes used''"
| "show_storage_error nd (VersionMismatch component actual expected) =
     ''Version mismatch: '' @ component @ '' version '' @ actual @ '' incompatible with expected '' @ expected"
| "show_storage_error nd (OperationNotSupported operation reason) =
     ''Operation not supported: '' @ operation @ '' - '' @ reason"
| "show_storage_error nd (InvalidState operation st) =
     ''Invalid operation state: cannot perform '' @ [CHR 0x27] @ operation @ [CHR 0x27] @ '' in state '' @ [CHR 0x27] @ st @ [CHR 0x27]"
| "show_storage_error nd (IoErrorS operation source) = ''I/O error during '' @ operation @ '': '' @ source"
| "show_storage_error nd (ProtocolVersionMismatch expected actual) =
     ''Protocol version mismatch: expected '' @ decimal (unat expected) @ '', got '' @ decimal (unat actual)"
| "show_storage_error nd (WalErrorS operation reason) = ''WAL error: '' @ operation @ '' failed: '' @ reason"
| "show_storage_error nd (SegmentError operation i reason) =
     ''Segment error: '' @ operation @ '' on segment '' @ num64 i @ '': '' @ reason"
| "show_storage_error nd (RecoveryFailed stage recovered all) =
     ''Recovery failed: '' @ stage @ '' (recovered '' @ decimal recovered @ '' of '' @ decimal all @ '' items)''"
| "show_storage_error nd (TransactionFailed i reason) = ''Transaction '' @ num64 i @ '' failed: '' @ reason"
| "show_storage_error nd (ReplayError reason) = ''Replay operation failed: '' @ reason"
| "show_storage_error nd (InternalError message) = ''Internal storage error: '' @ message"

datatype cloneable_storage_error = ClIoError string string | ClOther string

fun to_cloneable :: "(node_id \<Rightarrow> string) \<Rightarrow> storage_error \<Rightarrow> cloneable_storage_error" where
  "to_cloneable nd (IoErrorS operation source) = ClIoError operation source"
| "to_cloneable nd e = ClOther (show_storage_error nd e)"

fun show_cloneable :: "cloneable_storage_error \<Rightarrow> string" where
  "show_cloneable (ClIoError operation error_message) = ''I/O error during '' @ operation @ '': '' @ error_message"
| "show_cloneable (ClOther msg) = msg"

fun show_severity :: "error_severity \<Rightarrow> string" where
  "show_severity SevLow = ''LOW''"
| "show_severity SevMedium = ''MEDIUM''"
| "show_severity SevHigh = ''HIGH''"
| "show_severity SevCritical = ''CRITICAL''"

datatype conversion_error =
  CvSerializationFailed string | CvDeserializationFailed string | CvInvalidFormat string | CvTopicConversionFailed string

fun storage_error_from_conversion :: "conversion_error \<Rightarrow> storage_error" where
  "storage_error_from_conversion (CvSerializationFailed reason) = SerializationError reason"
| "storage_error_from_conversion (CvDeserializationFailed reason) = DeserializationError 0 reason"
| "storage_error_from_conversion (CvInvalidFormat details) = SerializationError details"
| "storage_error_from_conversion (CvTopicConversionFailed topic) =
     SerializationError (''Topic conversion failed: '' @ topic)"

section \<open>Stored messages\<close>

datatype stored_compression = CtNone | CtLz4 | CtGzip | CtSnappy

datatype stored_encryption = EtNone | EtAes256Gcm | EtChaCha20Poly1305

datatype storage_priority = SpLow | SpNormal | SpHigh | SpCritical

fun show_stored_compression :: "stored_compression \<Rightarrow> string" where
  "show_stored_compression CtNone = ''none''"
| "show_stored_compression CtLz4 = ''lz4''"
| "show_stored_compression CtGzip = ''gzip''"
| "show_stored_compression CtSnappy = ''snappy''"

fun show_stored_encryption :: "stored_encryption \<Rightarrow> string" where
  "show_stored_encryption EtNone = ''none''"
| "show_stored_encryption EtAes256Gcm = ''aes256-gcm''"
| "show_stored_encryption EtChaCha20Poly1305 = ''chacha20-poly1305''"

fun show_storage_priority :: "storage_priority \<Rightarrow> string" where
  "show_storage_priority SpLow = ''low''"
| "show_storage_priority SpNormal = ''normal''"
| "show_storage_priority SpHigh = ''high''"
| "show_storage_priority SpCritical = ''critical''"

fun priority_rank :: "storage_priority \<Rightarrow> nat" where
  "priority_rank SpLow = 0"
| "priority_rank SpNormal = 1"
| "priority_rank SpHigh = 2"
| "priority_rank SpCritical = 3"

instantiation storage_priority :: linorder
begin

definition less_eq_storage_priority :: "storage_priority \<Rightarrow> storage_priority \<Rightarrow> bool" where
  "less_eq_storage_priority a b \<longleftrightarrow> priority_rank a \<le> priority_rank b"

definition less_storage_priority :: "storage_priority \<Rightarrow> storage_priority \<Rightarrow> bool" where
  "less_storage_priority a b \<longleftrightarrow> priority_rank a < priority_rank b"

instance
proof
  fix x y :: storage_priority
  assume "x \<le> y" "y \<le> x"
  then show "x = y" by (cases x; cases y) (simp_all add: less_eq_storage_priority_def)
qed (auto simp: less_eq_storage_priority_def less_storage_priority_def)

end

record storage_metadata =
  smd_compression :: "stored_compression option"
  smd_encryption :: "stored_encryption option"
  smd_priority :: storage_priority
  smd_ttl :: "duration option"
  smd_replica_count :: u8
  smd_tags :: "string list"

definition storage_metadata_default :: storage_metadata where
  "storage_metadata_default =
     \<lparr>smd_compression = None, smd_encryption = None, smd_priority = SpNormal, smd_ttl = None,
      smd_replica_count = 1, smd_tags = []\<rparr>"

record storage_message =
  sm_version :: u32
  sm_offset :: log_offset
  sm_timestamp :: hlc
  sm_stored_by :: node_id
  sm_size_bytes :: u32
  sm_checksum :: u64
  sm_cluster_message :: cluster_message
  sm_metadata :: storage_metadata

definition message_checksum :: "(bytes \<Rightarrow> u32) \<Rightarrow> bytes \<Rightarrow> u64" where
  "message_checksum crc data = ucast (crc data)"

definition storage_message_new ::
  "u32 \<Rightarrow> (cluster_message \<Rightarrow> bytes option) \<Rightarrow> (bytes \<Rightarrow> u32) \<Rightarrow> system_time
     \<Rightarrow> cluster_message \<Rightarrow> node_id \<Rightarrow> log_offset \<Rightarrow> storage_message" where
  "storage_message_new version ser crc now m stored_by offset =
     (let serialized = (case ser m of Some b \<Rightarrow> b | None \<Rightarrow> []) in
      \<lparr>sm_version = version, sm_offset = offset, sm_timestamp = hlc_now now, sm_stored_by = stored_by,
       sm_size_bytes = word_of_nat (length serialized), sm_checksum = message_checksum crc serialized,
       sm_cluster_message = m, sm_metadata = storage_metadata_default\<rparr>)"

definition storage_message_from ::
  "u32 \<Rightarrow> (cluster_message \<Rightarrow> bytes option) \<Rightarrow> (bytes \<Rightarrow> u32) \<Rightarrow> system_time \<Rightarrow> node_id
     \<Rightarrow> cluster_message \<Rightarrow> storage_message" where
  "storage_message_from version ser crc now generated m = storage_message_new version ser crc now m generated 0"

definition verify_message_integrity ::
  "(cluster_message \<Rightarrow> bytes option) \<Rightarrow> (bytes \<Rightarrow> u32) \<Rightarrow> storage_message \<Rightarrow> bool" where
  "verify_message_integrity ser crc s =
     (case ser (sm_cluster_message s) of
        Some serialized \<Rightarrow> message_checksum crc serialized = sm_checksum s
                         \<and> length serialized = unat (sm_size_bytes s)
      | None \<Rightarrow> False)"

definition storage_message_age :: "system_time \<Rightarrow> storage_message \<Rightarrow> duration" where
  "storage_message_age now s = duration_from_millis (hlc_time_diff_millis (hlc_now now) (sm_timestamp s))"

definition storage_message_is_expired :: "system_time \<Rightarrow> storage_message \<Rightarrow> bool" where
  "storage_message_is_expired now s =
     (case smd_ttl (sm_metadata s) of None \<Rightarrow> False | Some ttl \<Rightarrow> storage_message_age now s > ttl)"

section \<open>Results\<close>

datatype read_position = RpOffset log_offset | RpBeginning | RpEnd | RpRelative "64 word" | RpTimestamp hlc

record storage_write_result =
  swr_offset :: log_offset
  swr_bytes_written :: u32
  swr_latency :: duration
  swr_fsync_performed :: bool
  swr_replicas_written :: u8

record flush_result =
  flr_bytes_flushed :: u64
  flr_messages_flushed :: usize
  flr_latency :: duration
  flr_fsync_performed :: bool

record batch_write_result =
  bwr_message_results :: "storage_write_result list"
  bwr_messages_written :: usize
  bwr_total_bytes_written :: u64
  bwr_total_latency :: duration
  bwr_average_latency :: duration
  bwr_success :: bool
  bwr_first_error :: "string option"

definition bytes_of_results :: "storage_write_result list \<Rightarrow> u64" where
  "bytes_of_results rs = sum_list (map (\<lambda>r. ucast (swr_bytes_written r)) rs)"

definition latency_sum :: "storage_write_result list \<Rightarrow> u64" where
  "latency_sum rs = sum_list (map (\<lambda>r. word_of_nat (swr_latency r)) rs)"

definition batch_success :: "storage_write_result list \<Rightarrow> batch_write_result" where
  "batch_success rs =
     \<lparr>bwr_message_results = rs, bwr_messages_written = length rs, bwr_total_bytes_written = bytes_of_results rs,
      bwr_total_latency = (if rs = [] then 0 else Max (set (map swr_latency rs))),
      bwr_average_latency = (if length rs > 0 then unat (latency_sum rs div word_of_nat (length rs)) else 0),
      bwr_success = True, bwr_first_error = None\<rparr>"

definition batch_failure :: "(node_id \<Rightarrow> string) \<Rightarrow> storage_write_result list \<Rightarrow> storage_error \<Rightarrow> batch_write_result" where
  "batch_failure nd rs e =
     \<lparr>bwr_message_results = rs, bwr_messages_written = length rs, bwr_total_bytes_written = bytes_of_results rs,
      bwr_total_latency = 0, bwr_average_latency = 0, bwr_success = False,
      bwr_first_error = Some (show_storage_error nd e)\<rparr>"

record 'f storage_metrics =
  stm_writes_total :: u64
  stm_reads_total :: u64
  stm_batch_operations_total :: u64
  stm_flush_operations_total :: u64
  stm_write_latency_avg :: duration
  stm_write_latency_p99 :: duration
  stm_read_latency_avg :: duration
  stm_read_latency_p99 :: duration
  stm_write_throughput_mps :: 'f
  stm_read_throughput_mps :: 'f
  stm_write_throughput_bps :: u64
  stm_read_throughput_bps :: u64
  stm_total_bytes_stored :: u64
  stm_total_messages_stored :: u64
  stm_available_capacity :: u64
  stm_utilization_percentage :: 'f
  stm_active_readers :: u32
  stm_active_writers :: u32
  stm_pending_operations :: u32
  stm_read_errors_total :: u64
  stm_write_errors_total :: u64
  stm_corruption_errors_total :: u64
  stm_active_replicas :: u8
  stm_replication_lag_ms :: u64
  stm_replication_failures :: u64

definition storage_metrics_default :: "'f float_ops \<Rightarrow> 'f storage_metrics" where
  "storage_metrics_default fl =
     \<lparr>stm_writes_total = 0, stm_reads_total = 0, stm_batch_operations_total = 0, stm_flush_operations_total = 0,
      stm_write_latency_avg = 0, stm_write_latency_p99 = 0, stm_read_latency_avg = 0, stm_read_latency_p99 = 0,
      stm_write_throughput_mps = fl_tenths fl 0, stm_read_throughput_mps = fl_tenths fl 0,
      stm_write_throughput_bps = 0, stm_read_throughput_bps = 0, stm_total_bytes_stored = 0,
      stm_total_messages_stored = 0, stm_available_capacity = 0, stm_utilization_percentage = fl_tenths fl 0,
      stm_active_readers = 0, stm_active_writers = 0, stm_pending_operations = 0, stm_read_errors_total = 0,
      stm_write_errors_total = 0, stm_corruption_errors_total = 0, stm_active_replicas = 1,
      stm_replication_lag_ms = 0, stm_replication_failures = 0\<rparr>"

section \<open>Properties\<close>

lemma unat_widen: "unat (ucast x :: u64) = unat x" for x :: u32
proof -
  have "unat x < 2 ^ LENGTH(32)" by (rule unsigned_less)
  then show ?thesis by (simp add: unsigned_ucast_eq take_bit_nat_eq_self)
qed

lemma widen_inj: "(ucast x :: u64) = ucast y \<longleftrightarrow> x = y" for x y :: u32
  by (metis unat_widen unsigned_word_eqI)

text \<open>Cloning an error keeps its text.\<close>

lemma cloneable_keeps_text: "show_cloneable (to_cloneable nd e) = show_storage_error nd e"
  by (cases e) simp_all

text \<open>
  A message just stored passes its integrity check exactly when it could be serialized and its length
  fits the 32 bits of the size field.
\<close>

theorem fresh_message_verifies:
  "verify_message_integrity ser crc (storage_message_new version ser crc now m node offset)
     \<longleftrightarrow> (\<exists>b. ser m = Some b \<and> length b < 2 ^ 32)"
proof (cases "ser m")
  case (Some b)
  have "(length b = unat (word_of_nat (length b) :: u32)) \<longleftrightarrow> length b < 2 ^ 32"
    using unsigned_less [of "word_of_nat (length b) :: u32"] by (auto simp: unat_of_nat take_bit_eq_mod)
  with Some show ?thesis
    by (simp add: verify_message_integrity_def storage_message_new_def Let_def)
qed (simp add: verify_message_integrity_def storage_message_new_def Let_def)

text \<open>
  A change of the stored message goes unnoticed only where it keeps both the length of the serialized
  form and its CRC.
\<close>

lemma tampering_detected:
  assumes "verify_message_integrity ser crc s" "ser (sm_cluster_message s) = Some b" "ser m = Some b'"
  shows "verify_message_integrity ser crc (s\<lparr>sm_cluster_message := m\<rparr>) \<longleftrightarrow> length b' = length b \<and> crc b' = crc b"
proof -
  have "message_checksum crc b' = message_checksum crc b \<longleftrightarrow> crc b' = crc b"
    by (simp add: message_checksum_def widen_inj)
  with assms show ?thesis by (auto simp: verify_message_integrity_def)
qed

text \<open>The age is the distance of two clock readings: a message from the future is as old as one from the past.\<close>

lemma age_ignores_direction:
  "sm_timestamp s = hlc_now past \<Longrightarrow> sm_timestamp s' = hlc_now now
     \<Longrightarrow> storage_message_age now s = storage_message_age past s'"
  by (auto simp: storage_message_age_def hlc_time_diff_millis_def hlc_now_def abs_diff_def)

section \<open>Batches\<close>

lemma unat_latency_sum_le: "unat (latency_sum rs) \<le> sum_list (map swr_latency rs)"
proof (induction rs)
  case (Cons r rs)
  have "unat (latency_sum (r # rs)) \<le> unat (word_of_nat (swr_latency r) :: u64) + unat (latency_sum rs)"
    by (simp add: latency_sum_def unat_word_ariths)
  also have "\<dots> \<le> swr_latency r + sum_list (map swr_latency rs)"
    by (intro add_mono Cons.IH) (simp add: unat_of_nat)
  finally show ?case by simp
qed (simp add: latency_sum_def)

text \<open>
  The average latency of a batch never exceeds its longest latency, and it counts one write per message,
  also where the 64-bit sum of the latencies wraps.
\<close>

theorem average_latency_bounded:
  assumes "length rs < 2 ^ 64"
  shows "bwr_average_latency (batch_success rs) \<le> bwr_total_latency (batch_success rs)"
proof (cases "rs = []")
  case False
  let ?n = "length rs" and ?m = "Max (set (map swr_latency rs))"
  have "unat (latency_sum rs div word_of_nat ?n) = unat (latency_sum rs) div ?n"
    using assms by (simp add: unat_div unat_of_nat take_bit_nat_eq_self)
  also have "\<dots> \<le> (?n * ?m) div ?n"
    using unat_latency_sum_le [of rs] sum_list_between [of "map swr_latency rs"] False
    by (intro div_le_mono) simp
  finally show ?thesis using False by (simp add: batch_success_def)
qed (simp add: batch_success_def)

definition sample_write_result :: "duration \<Rightarrow> storage_write_result" where
  "sample_write_result latency = \<lparr>swr_offset = 1, swr_bytes_written = 100, swr_latency = latency, swr_fsync_performed = False,
     swr_replicas_written = 1\<rparr>"

theorem average_latency_bounded_witness:
  "length [sample_write_result 50, sample_write_result 75] < (2::nat) ^ 64
   \<and> bwr_average_latency (batch_success [sample_write_result 50, sample_write_result 75])
       \<le> bwr_total_latency (batch_success [sample_write_result 50, sample_write_result 75])"
  using average_latency_bounded [of "[sample_write_result 50, sample_write_result 75]"] by simp

text \<open>The bytes of a batch are the sum of those of its messages, up to wrap-around.\<close>

lemma batch_bytes_sum:
  "unat (bytes_of_results rs) = sum_list (map (\<lambda>r. unat (swr_bytes_written r)) rs) mod 2 ^ 64"
  by (induction rs) (simp_all add: bytes_of_results_def unat_word_ariths mod_add_right_eq unat_widen)

lemma failed_batch_reports:
  "bwr_first_error (batch_failure nd rs e) = Some (show_cloneable (to_cloneable nd e))
   \<and> bwr_total_bytes_written (batch_failure nd rs e) = bwr_total_bytes_written (batch_success rs)"
  by (simp add: batch_failure_def batch_success_def cloneable_keeps_text)

end
