(* ===== verification/Storage_Engine.thy ===== *)
theory Storage_Engine
  imports Wal_Log Transactions Segment_Storage Consistency Communication
begin

text \<open>
  The storage engine, \<^verbatim>\<open>src/kaelix-storage/src/lib.rs\<close>: its configuration, its construction from the
  write-ahead log, the transaction manager and the segment storage, its writes and its shutdown. The
  components are the models of their own theories. The replication manager is a value of a type of its
  own and its operations are arguments; the outcomes of the file system are collected in a record; the
  counter of message identifiers, a static of the messages, is passed along.
\<close>

section \<open>Errors and configuration\<close>

datatype engine_error =
  EngWal wal_error
| EngTransaction transaction_error
| EngSegment segments_error
| EngReplication replication_error
| EngIo string
| EngSerialization string
| EngConfiguration string
| EngNotFound string
| EngAlreadyExists string
| EngInvalidOperation string
| EngShutdown

fun show_segments_error :: "segments_error \<Rightarrow> string" where
  "show_segments_error (SsIo m) = ''I/O error: '' @ m"
| "show_segments_error (SsSerialization m) = ''Serialization error: '' @ m"
| "show_segments_error (SsCorruption m) = ''Data corruption detected: '' @ m"
| "show_segments_error (SsSegmentNotFound i) = ''Segment not found: '' @ decimal (unat i)"
| "show_segments_error (SsEntryNotFound m) = ''Entry not found: '' @ m"
| "show_segments_error (SsConfiguration m) = ''Configuration error: '' @ m"
| "show_segments_error (SsResourceExhausted m) = ''Resource exhausted: '' @ m"

record 'f engine_config =
  stc_wal :: wal_config
  stc_segment_storage :: "'f segment_config"
  stc_transaction_manager :: transaction_config
  stc_replication :: "replication_config option"
  stc_data_dir :: string
  stc_enable_compression :: bool
  stc_compression_level :: u8
  stc_buffer_size :: usize

definition engine_config_default :: "'f float_ops \<Rightarrow> string \<Rightarrow> 'f engine_config" where
  "engine_config_default fl current_dir =
     \<lparr>stc_wal = default_wal_config, stc_segment_storage = segment_config_default fl,
      stc_transaction_manager = transaction_config_default, stc_replication = None,
      stc_data_dir = current_dir @ ''/storage'', stc_enable_compression = True, stc_compression_level = 6,
      stc_buffer_size = 64 * 1024\<rparr>"

definition storage_config_validate :: "'f float_ops \<Rightarrow> bool \<Rightarrow> 'f engine_config \<Rightarrow> (unit, engine_error) result" where
  "storage_config_validate fl wal_dir c =
     and_then (map_err EngConfiguration (wal_config_validate wal_dir (stc_wal c))) (\<lambda>_.
     and_then (map_err (\<lambda>e. EngConfiguration (show_segments_error e))
                 (segment_config_validate fl (stc_segment_storage c))) (\<lambda>_.
     and_then (map_err EngConfiguration (transaction_config_validate (stc_transaction_manager c))) (\<lambda>_.
     and_then (case stc_replication c of
                 None \<Rightarrow> Ok ()
               | Some r \<Rightarrow> map_err EngReplication (replication_config_validate r)) (\<lambda>_.
       if stc_compression_level c > 9 then Err (EngConfiguration ''compression_level must be between 0 and 9'')
       else if stc_buffer_size c = 0 then Err (EngConfiguration ''buffer_size must be greater than 0'')
       else Ok ()))))"

section \<open>The engine\<close>

record ('f, 'rm) engine =
  eng_config :: "'f engine_config"
  eng_wal :: wal
  eng_transaction_manager :: transaction_manager
  eng_segment_storage :: "'f segment_storage"
  eng_replication_manager :: "'rm option"
  eng_is_shutdown :: bool

record engine_env =
  ee_wal_dir :: bool
  ee_create_data_dir :: "string option"
  ee_create_segment :: "create_fault option"
  ee_now :: instant
  ee_now_system :: system_time
  ee_create_log_dir :: "string option"
  ee_segment_content :: bytes

definition storage_engine_new ::
  "'f float_ops \<Rightarrow> (wal_config \<Rightarrow> batch_config) \<Rightarrow> engine_env \<Rightarrow> 'f engine_config
     \<Rightarrow> (('f, 'rm) engine, engine_error) result" where
  "storage_engine_new fl batch_of env c =
     and_then (storage_config_validate fl (ee_wal_dir env) c) (\<lambda>_.
     and_then (case ee_create_data_dir env of Some e \<Rightarrow> Err (EngIo e) | None \<Rightarrow> Ok ()) (\<lambda>_.
     and_then (map_err EngWal (wal_new batch_of (ee_wal_dir env) (ee_create_segment env) (ee_now env)
                 (ee_now_system env) (stc_wal c))) (\<lambda>w.
     and_then (map_err EngTransaction (transaction_manager_new (ee_create_log_dir env) (stc_transaction_manager c))) (\<lambda>tm.
     and_then (map_err EngSegment (segment_storage_new fl (ee_segment_content env) (stc_segment_storage c))) (\<lambda>ss.
       Ok \<lparr>eng_config = c, eng_wal = w, eng_transaction_manager = tm, eng_segment_storage = ss,
           eng_replication_manager = None, eng_is_shutdown = False\<rparr>)))))"

definition storage_engine_new_with_replication ::
  "'f float_ops \<Rightarrow> (wal_config \<Rightarrow> batch_config) \<Rightarrow> (replication_config \<Rightarrow> ('rm, engine_error) result) \<Rightarrow> engine_env
     \<Rightarrow> 'f engine_config \<Rightarrow> (('f, 'rm) engine, engine_error) result" where
  "storage_engine_new_with_replication fl batch_of manager_new env c =
     (if stc_replication c = None
      then Err (EngConfiguration ''Replication config required for replicated storage'')
      else and_then (storage_engine_new fl batch_of env c) (\<lambda>e.
        case stc_replication (eng_config e) of
          None \<Rightarrow> Ok e
        | Some r \<Rightarrow> and_then (manager_new r) (\<lambda>m. Ok (e\<lparr>eng_replication_manager := Some m\<rparr>))))"

record engine_write_env =
  ew_ids :: "node_id \<times> node_id"
  ew_clock :: "u64 \<times> u64"
  ew_io :: "write_fault option"
  ew_now :: system_time

definition engine_write ::
  "checksum_fn \<Rightarrow> (cluster_message \<Rightarrow> (bytes, string) result) \<Rightarrow> entry_encoder \<Rightarrow> engine_write_env \<Rightarrow> bytes
     \<Rightarrow> u64 \<times> ('f, 'rm) engine \<Rightarrow> (u64 \<times> ('f, 'rm) engine) \<times> (u64, engine_error) result" where
  "engine_write crc ser_msg ser env data st =
     (case st of (counter, e) \<Rightarrow>
        if eng_is_shutdown e then (st, Err EngShutdown)
        else
          let (source, destination) = ew_ids env;
              (counter', message) = cluster_message_new (ew_clock env) source destination (PayloadPing source) counter;
              (w, r) = wal_write crc ser_msg ser (ew_io env) (ew_now env) message (eng_wal e)
          in ((counter', e\<lparr>eng_wal := w\<rparr>), map_err EngWal r))"

definition engine_write_consistent ::
  "(bytes \<Rightarrow> consistency_level \<Rightarrow> 'rm \<Rightarrow> 'rm \<times> ('w, replication_error) result) \<Rightarrow> bytes \<Rightarrow> consistency_level
     \<Rightarrow> ('f, 'rm) engine \<Rightarrow> ('f, 'rm) engine \<times> ('w, engine_error) result" where
  "engine_write_consistent rm_write data level e =
     (if eng_is_shutdown e then (e, Err EngShutdown)
      else case eng_replication_manager e of
        Some m \<Rightarrow> (case rm_write data level m of (m', r) \<Rightarrow>
          (e\<lparr>eng_replication_manager := Some m'\<rparr>, map_err EngReplication r))
      | None \<Rightarrow> (e, Err (EngConfiguration ''Replication not enabled - use regular write() method'')))"

definition engine_read_consistent ::
  "(string \<Rightarrow> consistency_level \<Rightarrow> string option \<Rightarrow> 'rm \<Rightarrow> ('r, replication_error) result) \<Rightarrow> string \<Rightarrow> consistency_level
     \<Rightarrow> string option \<Rightarrow> ('f, 'rm) engine \<Rightarrow> ('r, engine_error) result" where
  "engine_read_consistent rm_read key level session e =
     (if eng_is_shutdown e then Err EngShutdown
      else case eng_replication_manager e of
        Some m \<Rightarrow> map_err EngReplication (rm_read key level session m)
      | None \<Rightarrow> Err (EngConfiguration ''Replication not enabled''))"

definition get_replication_status :: "('rm \<Rightarrow> 's) \<Rightarrow> ('f, 'rm) engine \<Rightarrow> 's option" where
  "get_replication_status rm_status e = map_option rm_status (eng_replication_manager e)"

definition has_replication :: "('f, 'rm) engine \<Rightarrow> bool" where
  "has_replication e \<longleftrightarrow> eng_replication_manager e \<noteq> None"

fun chain :: "('s \<Rightarrow> 's \<times> (unit, 'e) result) list \<Rightarrow> 's \<Rightarrow> 's \<times> (unit, 'e) result" where
  "chain [] s = (s, Ok ())"
| "chain (f # fs) s = (case f s of (s1, Ok _) \<Rightarrow> chain fs s1 | (s1, x) \<Rightarrow> (s1, x))"

definition shutdown_replication ::
  "('rm \<Rightarrow> 'rm \<times> (unit, replication_error) result) \<Rightarrow> ('f, 'rm) engine
     \<Rightarrow> ('f, 'rm) engine \<times> (unit, engine_error) result" where
  "shutdown_replication rm_shutdown e =
     (case eng_replication_manager e of
        None \<Rightarrow> (e, Ok ())
      | Some m \<Rightarrow> (case rm_shutdown m of (m', r) \<Rightarrow>
          (e\<lparr>eng_replication_manager := Some m'\<rparr>, map_err EngReplication r)))"

definition shutdown_wal ::
  "rotation_env \<Rightarrow> ('f, 'rm) engine \<Rightarrow> ('f, 'rm) engine \<times> (unit, engine_error) result" where
  "shutdown_wal env e = (case wal_shutdown env (eng_wal e) of (w, r) \<Rightarrow> (e\<lparr>eng_wal := w\<rparr>, map_err EngWal r))"

definition shutdown_transactions :: "('f, 'rm) engine \<Rightarrow> ('f, 'rm) engine \<times> (unit, engine_error) result" where
  "shutdown_transactions e =
     (case tm_shutdown (eng_transaction_manager e) of (t, r) \<Rightarrow>
        (e\<lparr>eng_transaction_manager := t\<rparr>, map_err EngTransaction r))"

definition shutdown_segments ::
  "string option \<Rightarrow> ('f, 'rm) engine \<Rightarrow> ('f, 'rm) engine \<times> (unit, engine_error) result" where
  "shutdown_segments flush e =
     (case storage_shutdown flush (eng_segment_storage e) of (s, r) \<Rightarrow>
        (e\<lparr>eng_segment_storage := s\<rparr>, map_err EngSegment r))"

definition engine_shutdown ::
  "('rm \<Rightarrow> 'rm \<times> (unit, replication_error) result) \<Rightarrow> rotation_env \<Rightarrow> string option
     \<Rightarrow> ('f, 'rm) engine \<Rightarrow> ('f, 'rm) engine \<times> (unit, engine_error) result" where
  "engine_shutdown rm_shutdown env flush e =
     chain [shutdown_replication rm_shutdown, shutdown_wal env, shutdown_transactions, shutdown_segments flush]
       (e\<lparr>eng_is_shutdown := True\<rparr>)"

record engine_stats =
  est_wal_stats :: wal_stats
  est_transaction_stats :: transaction_stats
  est_segment_stats :: segment_stats
  est_replication_stats :: "unit option"

definition engine_stats_of :: "('f, 'rm) engine \<Rightarrow> engine_stats" where
  "engine_stats_of e =
     \<lparr>est_wal_stats = wl_stats (eng_wal e), est_transaction_stats = tm_stats (eng_transaction_manager e),
      est_segment_stats = ss_stats (eng_segment_storage e), est_replication_stats = None\<rparr>"

section \<open>What the engine stores\<close>

fun engine_writes ::
  "checksum_fn \<Rightarrow> (cluster_message \<Rightarrow> (bytes, string) result) \<Rightarrow> entry_encoder \<Rightarrow> (engine_write_env \<times> bytes) list
     \<Rightarrow> u64 \<times> ('f, 'rm) engine \<Rightarrow> u64 \<times> ('f, 'rm) engine" where
  "engine_writes crc ser_msg ser [] st = st"
| "engine_writes crc ser_msg ser ((env, data) # ws) st =
     engine_writes crc ser_msg ser ws (fst (engine_write crc ser_msg ser env data st))"

definition is_ping_of :: "(cluster_message \<Rightarrow> (bytes, string) result) \<Rightarrow> wal_entry \<Rightarrow> bool" where
  "is_ping_of ser_msg e \<longleftrightarrow> (\<exists>m. ser_msg m = Ok (we_payload e) \<and> cm_payload m = PayloadPing (mh_source (cm_header m)))"

lemma entry_new_payload: "entry_new crc ser_msg q t m = Ok e \<Longrightarrow> ser_msg m = Ok (we_payload e)"
  by (auto simp: entry_new_def and_then_Ok_iff raw_entry_def map_err_def split: result.splits)

lemma engine_write_wal:
  "\<exists>m r. cm_payload m = PayloadPing (mh_source (cm_header m))
     \<and> (eng_wal (snd (fst (engine_write crc ser_msg ser env data st))) = eng_wal (snd st)
        \<or> wal_write crc ser_msg ser (ew_io env) (ew_now env) m (eng_wal (snd st))
            = (eng_wal (snd (fst (engine_write crc ser_msg ser env data st))), r))"
proof -
  obtain counter e where st: "st = (counter, e)" by fastforce
  obtain source destination where ids: "ew_ids env = (source, destination)" by fastforce
  obtain counter' m where m: "cluster_message_new (ew_clock env) source destination (PayloadPing source) counter = (counter', m)"
    by fastforce
  obtain w r where w: "wal_write crc ser_msg ser (ew_io env) (ew_now env) m (eng_wal e) = (w, r)" by fastforce
  have "cm_payload m = PayloadPing (mh_source (cm_header m))"
    using m by (auto simp: cluster_message_new_def)
  then show ?thesis
    by (intro exI [of _ m] exI [of _ r]) (simp add: engine_write_def st ids m w)
qed

definition holds_pings ::
  "checksum_fn \<Rightarrow> (cluster_message \<Rightarrow> (bytes, string) result) \<Rightarrow> entry_encoder \<Rightarrow> ('f, 'rm) engine \<Rightarrow> bool" where
  "holds_pings crc ser_msg ser e \<longleftrightarrow> (\<exists>es. wal_holds crc ser es (eng_wal e) \<and> list_all (is_ping_of ser_msg) es)"

lemma engine_write_holds:
  assumes small: "\<forall>e bs. ser e = Ok bs \<longrightarrow> length bs < 2 ^ 63" and h: "holds_pings crc ser_msg ser (snd st)"
  shows "holds_pings crc ser_msg ser (snd (fst (engine_write crc ser_msg ser env data st)))"
proof -
  let ?e = "snd (fst (engine_write crc ser_msg ser env data st))"
  from h obtain es where es: "wal_holds crc ser es (eng_wal (snd st))" "list_all (is_ping_of ser_msg) es"
    by (auto simp: holds_pings_def)
  obtain m r where m: "cm_payload m = PayloadPing (mh_source (cm_header m))"
    and out: "eng_wal ?e = eng_wal (snd st)
      \<or> wal_write crc ser_msg ser (ew_io env) (ew_now env) m (eng_wal (snd st)) = (eng_wal ?e, r)"
    using engine_write_wal by blast
  from out show ?thesis
  proof
    assume w: "wal_write crc ser_msg ser (ew_io env) (ew_now env) m (eng_wal (snd st)) = (eng_wal ?e, r)"
    from wal_write_holds [OF small es(1) w] obtain es' where es': "wal_holds crc ser es' (eng_wal ?e)"
      and grown: "es' = es \<or> (\<exists>e. es' = es @ [e] \<and> entry_new crc ser_msg 1 (of_nat (nat (ew_now env))) m = Ok e)"
      by blast
    have "list_all (is_ping_of ser_msg) es'"
      using grown es(2) m entry_new_payload by (fastforce simp: is_ping_of_def)
    with es' show ?thesis by (auto simp: holds_pings_def)
  qed (use es in \<open>auto simp: holds_pings_def\<close>)
qed

lemma engine_writes_holds:
  assumes "\<forall>e bs. ser e = Ok bs \<longrightarrow> length bs < 2 ^ 63"
  shows "holds_pings crc ser_msg ser (snd st) \<Longrightarrow> holds_pings crc ser_msg ser (snd (engine_writes crc ser_msg ser ws st))"
proof (induction ws arbitrary: st)
  case (Cons x ws)
  obtain env data where x: "x = (env, data)" by fastforce
  show ?case using Cons.IH [OF engine_write_holds [OF assms Cons.prems]] by (simp add: x)
qed simp

text \<open>
  C32: After any sequence of writes, with whatever data and faults, the log of a fresh engine holds exactly
  entries whose payload is a serialized ping: nothing of the data handed to the engine is stored.
\<close>

theorem engine_stores_pings:
  assumes small: "\<forall>e bs. ser e = Ok bs \<longrightarrow> length bs < 2 ^ 63" and cap: "unat (wc_segment_size (stc_wal c)) < 2 ^ 63"
    and new: "storage_engine_new fl batch_of env c = Ok e"
  shows "\<exists>es. wal_holds crc ser es (eng_wal (snd (engine_writes crc ser_msg ser ws (counter, e))))
            \<and> list_all (is_ping_of ser_msg) es"
proof -
  have "wal_holds crc ser [] (eng_wal e)"
    using new cap by (auto simp: storage_engine_new_def and_then_Ok_iff map_err_def wal_new_holds split: result.splits option.splits)
  then have "holds_pings crc ser_msg ser e" by (auto simp: holds_pings_def)
  from engine_writes_holds [OF small, where st = "(counter, e)", simplified, OF this] show ?thesis
    by (simp add: holds_pings_def)
qed

definition sample_engine_config :: "int engine_config" where
  "sample_engine_config =
     \<lparr>stc_wal = small_wal_config, stc_segment_storage = \<lparr>sc_max_segment_size = 64, sc_max_entries_per_segment = 9,
        sc_enable_compression = False, sc_compression_level = 6, sc_write_buffer_size = 4, sc_sync_on_write = False,
        sc_sync_interval_ms = 9, sc_max_concurrent_readers = 2, sc_enable_compaction = True, sc_compaction_threshold = 3\<rparr>,
      stc_transaction_manager = \<lparr>tc_log_dir = ''log'', tc_max_duration = 5, tc_distributed_mode = False,
        tc_isolation_level = ReadCommitted\<rparr>,
      stc_replication = None, stc_data_dir = ''data'', stc_enable_compression = True, stc_compression_level = 6,
      stc_buffer_size = 1\<rparr>"

definition sample_engine_env :: engine_env where
  "sample_engine_env =
     \<lparr>ee_wal_dir = True, ee_create_data_dir = None, ee_create_segment = None, ee_now = 0, ee_now_system = 0,
      ee_create_log_dir = None, ee_segment_content = []\<rparr>"

definition sample_batching :: "wal_config \<Rightarrow> batch_config" where
  "sample_batching c = \<lparr>bc_max_batch_size = 2, bc_max_batch_duration = 1, bc_max_memory_usage = 4, bc_adaptive_batching = True\<rparr>"

definition sample_engine :: "(int, unit) engine" where
  "sample_engine = (case storage_engine_new sample_floats sample_batching sample_engine_env sample_engine_config of
     Ok e \<Rightarrow> e | _ \<Rightarrow> undefined)"

definition sample_engine_run :: "(int, unit) engine" where
  "sample_engine_run = snd (engine_writes (\<lambda>bs. 7) (\<lambda>m. Ok [0, 0, 1]) sample_ser
     [(\<lparr>ew_ids = (1, 2), ew_clock = (0, 0), ew_io = None, ew_now = 1\<rparr>, [9, 9, 9])] (0, sample_engine))"

theorem engine_stores_pings_witness:
  "\<exists>es. wal_holds (\<lambda>bs. 7) sample_ser es (eng_wal sample_engine_run) \<and> list_all (is_ping_of (\<lambda>m. Ok [0, 0, 1])) es
      \<and> wst_entries_written (wl_stats (eng_wal sample_engine_run)) = 1"
proof -
  have new: "storage_engine_new sample_floats sample_batching sample_engine_env sample_engine_config = Ok sample_engine"
    by code_simp
  have cap: "unat (wc_segment_size (stc_wal sample_engine_config)) < 2 ^ 63"
    by (simp add: sample_engine_config_def small_wal_config_def)
  have one: "wst_entries_written (wl_stats (eng_wal sample_engine_run)) = 1" by code_simp
  from engine_stores_pings [OF sample_ser_small cap new, of "\<lambda>bs. 7" "\<lambda>m. Ok [0, 0, 1]"
      "[(\<lparr>ew_ids = (1, 2), ew_clock = (0, 0), ew_io = None, ew_now = 1\<rparr>, [9, 9, 9])]" 0] one
  show ?thesis unfolding sample_engine_run_def by blast
qed

section \<open>Construction and shutdown\<close>

text \<open>
  An engine made without replication, which is also what a configuration with replication gives unless
  the other constructor is used, refuses every replicated operation.
\<close>

theorem plain_engine_has_no_replication:
  assumes "storage_engine_new fl batch_of env c = Ok e"
  shows "\<not> has_replication e
    \<and> snd (engine_write_consistent rm_write data level e)
        = Err (EngConfiguration ''Replication not enabled - use regular write() method'')
    \<and> engine_read_consistent rm_read key level session e = Err (EngConfiguration ''Replication not enabled'')"
  using assms
  by (auto simp: storage_engine_new_def and_then_Ok_iff has_replication_def engine_write_consistent_def
      engine_read_consistent_def)

text \<open>An engine exists only under a valid configuration.\<close>

lemma engine_configuration_valid:
  "storage_engine_new fl batch_of env c = Ok e
     \<Longrightarrow> storage_config_validate fl (ee_wal_dir env) c = Ok () \<and> stc_compression_level c \<le> 9 \<and> 0 < stc_buffer_size c"
  by (auto simp: storage_engine_new_def storage_config_validate_def and_then_Ok_iff split: if_splits)

text \<open>A step that fails ends the shutdown; what the steps keep, the shutdown keeps.\<close>

lemma chain_keeps:
  assumes "\<And>f s. f \<in> set fs \<Longrightarrow> P s \<Longrightarrow> P (fst (f s))"
  shows "P s \<Longrightarrow> P (fst (chain fs s))"
  using assms
proof (induction fs arbitrary: s)
  case (Cons f fs)
  have one: "P (fst (f s))" using Cons.prems by simp
  have all: "P (fst (chain fs (fst (f s))))"
    using Cons.IH [OF one] Cons.prems(2) by simp
  from one all show ?case by (auto split: prod.splits result.splits)
qed simp

text \<open>
  Once the shutdown was called the engine accepts no operation, even where the shutdown itself failed
  half-way.
\<close>

theorem shutdown_refuses_writes:
  assumes "engine_shutdown rm_shutdown env flush e = (e', r)"
  shows "engine_write crc ser_msg ser wenv data (counter, e') = ((counter, e'), Err EngShutdown)
    \<and> engine_write_consistent rm_write data level e' = (e', Err EngShutdown)
    \<and> engine_read_consistent rm_read key level session e' = Err EngShutdown"
proof -
  have "eng_is_shutdown (fst (engine_shutdown rm_shutdown env flush e))"
    unfolding engine_shutdown_def
    by (rule chain_keeps [where P = eng_is_shutdown])
      (auto simp: shutdown_replication_def shutdown_wal_def shutdown_transactions_def shutdown_segments_def
        split: option.splits prod.splits)
  with assms show ?thesis
    by (simp add: engine_write_def engine_write_consistent_def engine_read_consistent_def)
qed

text \<open>Where the write-ahead log cannot be stopped, the segment storage stays open.\<close>

lemma failed_wal_leaves_segments_open:
  assumes "eng_replication_manager e = None" "snd (wal_shutdown env (eng_wal e)) = Err x"
  shows "snd (engine_shutdown rm_shutdown env flush e) = Err (EngWal x)
    \<and> eng_segment_storage (fst (engine_shutdown rm_shutdown env flush e)) = eng_segment_storage e"
  using assms
  by (cases "wal_shutdown env (eng_wal e)")
    (simp add: engine_shutdown_def shutdown_replication_def shutdown_wal_def map_err_def)

text \<open>A clean shutdown reaches the log and the segment storage.\<close>

lemma clean_shutdown_stops_all:
  assumes "eng_replication_manager e = None" "snd (wal_shutdown env (eng_wal e)) = Ok u"
  shows "engine_shutdown rm_shutdown env None e
    = (e\<lparr>eng_is_shutdown := True, eng_wal := fst (wal_shutdown env (eng_wal e)),
         eng_segment_storage := (eng_segment_storage e)\<lparr>ss_is_shutdown := True, ss_active_segments := []\<rparr>\<rparr>, Ok ())"
  using assms
  by (cases "wal_shutdown env (eng_wal e)")
    (simp add: engine_shutdown_def shutdown_replication_def shutdown_wal_def map_err_def shutdown_transactions_def
      tm_shutdown_def shutdown_segments_def storage_shutdown_def Let_def)

end
