(* ===== verification/Broker_Bridge.thy ===== *)
theory Broker_Bridge
  imports Messages Storage_Types
begin

text \<open>
  The bridge between broker and storage, \<^verbatim>\<open>src/kaelix-storage/src/integration/broker_bridge.rs\<close>: conversion of
  messages, transactions, subscriptions and their replay. The storage behind it is a state of a type of
  its own, with the operations the bridge calls on it as arguments; its entries have the fields the
  bridge gives them, and its errors are the ones the bridge names. The functions of \<open>chrono\<close> between a
  time and its seconds, the CRC and the clocks are arguments too.
\<close>

section \<open>Data\<close>

datatype bridge_error =
  BrShutdown | BrTransactionNotFound | BrInvalidTransactionState | BrTransactionFailed | BrConversionFailed string
| BrSubscriptionNotFound | BrStorage string

fun show_conversion_error :: "conversion_error \<Rightarrow> string" where
  "show_conversion_error (CvSerializationFailed reason) = ''Message serialization failed: '' @ reason"
| "show_conversion_error (CvDeserializationFailed reason) = ''Message deserialization failed: '' @ reason"
| "show_conversion_error (CvInvalidFormat details) = ''Invalid message format: '' @ details"
| "show_conversion_error (CvTopicConversionFailed topic) = ''Topic conversion failed: '' @ topic"

record bridge_entry =
  be_sequence :: u64
  be_timestamp :: u64
  be_payload :: bytes
  be_checksum :: u32

datatype bridge_tx_status = BtPreparing | BtPrepared | BtCommitted | BtAborted | BtFailed

datatype bridge_operation =
  BoStore unicode bridge_entry | BoDelete unicode u64 | BoUpdateSubscription unicode string u64

record bridge_transaction =
  bt_id :: u64
  bt_status :: bridge_tx_status
  bt_operations :: "bridge_operation list"
  bt_created_at :: system_time
  bt_timeout :: "duration option"

record replay_cursor =
  rc_topic :: unicode
  rc_sequence :: u64
  rc_timestamp :: u64
  rc_subscriber :: string

record subscription_info =
  sui_subscriber_id :: string
  sui_topics :: "unicode list"
  sui_cursor :: replay_cursor
  sui_created_at :: system_time
  sui_last_activity :: system_time
  sui_persistent :: bool

record bridge_metrics =
  brm_messages_converted :: u64
  brm_conversion_errors :: u64
  brm_transactions_processed :: u64
  brm_transactions_failed :: u64
  brm_messages_replayed :: u64
  brm_active_subscriptions :: "64 word"
  brm_avg_conversion_latency_us :: u64
  brm_peak_memory_usage :: usize

definition bridge_metrics_default :: bridge_metrics where
  "bridge_metrics_default =
     \<lparr>brm_messages_converted = 0, brm_conversion_errors = 0, brm_transactions_processed = 0, brm_transactions_failed = 0,
      brm_messages_replayed = 0, brm_active_subscriptions = 0, brm_avg_conversion_latency_us = 0, brm_peak_memory_usage = 0\<rparr>"

definition record_conversion :: "u64 \<Rightarrow> bridge_metrics \<Rightarrow> bridge_metrics" where
  "record_conversion latency_us m =
     m\<lparr>brm_messages_converted := brm_messages_converted m + 1, brm_avg_conversion_latency_us := latency_us\<rparr>"

definition record_conversion_error :: "bridge_metrics \<Rightarrow> bridge_metrics" where
  "record_conversion_error m = m\<lparr>brm_conversion_errors := brm_conversion_errors m + 1\<rparr>"

definition record_transaction :: "bool \<Rightarrow> bridge_metrics \<Rightarrow> bridge_metrics" where
  "record_transaction success m =
     m\<lparr>brm_transactions_processed := brm_transactions_processed m + 1,
       brm_transactions_failed := (if success then brm_transactions_failed m else brm_transactions_failed m + 1)\<rparr>"

record bridge_config =
  brc_max_concurrent_transactions :: usize
  brc_transaction_timeout :: duration
  brc_batch_size :: usize
  brc_channel_buffer_size :: usize
  brc_enable_compression :: bool
  brc_compression_threshold :: usize
  brc_replay_buffer_size :: usize

definition bridge_config_default :: bridge_config where
  "bridge_config_default =
     \<lparr>brc_max_concurrent_transactions = 1000, brc_transaction_timeout = 30 * 1000000000, brc_batch_size = 100,
      brc_channel_buffer_size = 1000, brc_enable_compression = True, brc_compression_threshold = 1024,
      brc_replay_buffer_size = 10000\<rparr>"

record 's broker_bridge =
  brg_storage :: 's
  brg_config :: bridge_config
  brg_transactions :: "(u64, bridge_transaction) hash_map"
  brg_next_transaction_id :: u64
  brg_subscriptions :: "(string, subscription_info) hash_map"
  brg_metrics :: bridge_metrics
  brg_shutdown :: bool

definition broker_bridge_new :: "'s \<Rightarrow> bridge_config \<Rightarrow> 's broker_bridge" where
  "broker_bridge_new s c =
     \<lparr>brg_storage = s, brg_config = c, brg_transactions = [], brg_next_transaction_id = 1, brg_subscriptions = [],
      brg_metrics = bridge_metrics_default, brg_shutdown = False\<rparr>"

abbreviation on_metrics :: "(bridge_metrics \<Rightarrow> bridge_metrics) \<Rightarrow> 's broker_bridge \<Rightarrow> 's broker_bridge" where
  "on_metrics f b \<equiv> b\<lparr>brg_metrics := f (brg_metrics b)\<rparr>"

section \<open>Conversion\<close>

definition message_to_storage_entry ::
  "(bytes \<Rightarrow> u32) \<Rightarrow> (system_time \<Rightarrow> int) \<Rightarrow> u64 \<Rightarrow> core_message \<Rightarrow> 's broker_bridge \<Rightarrow> 's broker_bridge \<times> bridge_entry" where
  "message_to_storage_entry crc to_secs latency_us m b =
     (on_metrics (record_conversion latency_us) b,
      \<lparr>be_sequence = (case msg_offset m of Some n \<Rightarrow> n | None \<Rightarrow> 0), be_timestamp = word_of_int (to_secs (msg_timestamp m)),
       be_payload = msg_payload m, be_checksum = crc (msg_payload m)\<rparr>)"

record convert_env =
  cv_alnum :: "nat \<Rightarrow> bool"
  cv_from_secs :: "int \<Rightarrow> system_time option"
  cv_show :: "message_error \<Rightarrow> string"
  cv_id :: u128
  cv_now :: system_time
  cv_latency_us :: u64

definition storage_entry_to_message ::
  "convert_env \<Rightarrow> bridge_entry \<Rightarrow> unicode \<Rightarrow> 's broker_bridge \<Rightarrow> 's broker_bridge \<times> (core_message, conversion_error) result" where
  "storage_entry_to_message env e topic b =
     (case core_message_new (cv_alnum env) (cv_id env) (cv_now env) topic (be_payload e) of
        Err x \<Rightarrow> (b, Err (CvSerializationFailed (''Failed to create message: '' @ cv_show env x)))
      | Panic \<Rightarrow> (b, Panic)
      | Ok m \<Rightarrow>
          (on_metrics (record_conversion (cv_latency_us env)) b,
           Ok (m\<lparr>msg_offset := Some (be_sequence e),
                 msg_timestamp := (case cv_from_secs env (sint (be_timestamp e)) of Some t \<Rightarrow> t | None \<Rightarrow> cv_now env)\<rparr>)))"

section \<open>Transactions\<close>

definition bridge_begin :: "system_time \<Rightarrow> 's broker_bridge \<Rightarrow> 's broker_bridge \<times> (u64, bridge_error) result" where
  "bridge_begin now b =
     (if brg_shutdown b then (b, Err BrShutdown)
      else let i = brg_next_transaction_id b in
        (b\<lparr>brg_next_transaction_id := i + 1,
           brg_transactions := hm_insert i
             \<lparr>bt_id = i, bt_status = BtPreparing, bt_operations = [], bt_created_at = now,
              bt_timeout = Some (brc_transaction_timeout (brg_config b))\<rparr> (brg_transactions b)\<rparr>, Ok i))"

definition add_to_transaction ::
  "u64 \<Rightarrow> bridge_operation \<Rightarrow> 's broker_bridge \<Rightarrow> 's broker_bridge \<times> (unit, bridge_error) result" where
  "add_to_transaction i x b =
     (case hm_get (brg_transactions b) i of
        None \<Rightarrow> (b, Err BrTransactionNotFound)
      | Some t \<Rightarrow>
          if bt_status t \<noteq> BtPreparing then (b, Err BrInvalidTransactionState)
          else (b\<lparr>brg_transactions := hm_insert i (t\<lparr>bt_operations := bt_operations t @ [x]\<rparr>) (brg_transactions b)\<rparr>, Ok ()))"

fun apply_operations ::
  "(bridge_entry \<Rightarrow> 's \<Rightarrow> 's \<times> (unit, bridge_error) result) \<Rightarrow> bridge_operation list \<Rightarrow> 's
     \<Rightarrow> 's \<times> (unit, bridge_error) result list" where
  "apply_operations store [] s = (s, [])"
| "apply_operations store (BoStore topic e # xs) s =
     (let (s1, r) = store e s; (s2, rs) = apply_operations store xs s1 in (s2, r # rs))"
| "apply_operations store (BoDelete topic n # xs) s =
     (let (s2, rs) = apply_operations store xs s in (s2, Ok () # rs))"
| "apply_operations store (BoUpdateSubscription topic who n # xs) s =
     (let (s2, rs) = apply_operations store xs s in (s2, Ok () # rs))"

text \<open>
  The operations are applied one after the other, whatever the outcome of the earlier ones; the storage either
  stores an entry or refuses it (a storage that panics would end the call, and is not considered).
\<close>

definition commit_transaction ::
  "(bridge_entry \<Rightarrow> 's \<Rightarrow> 's \<times> (unit, bridge_error) result) \<Rightarrow> u64 \<Rightarrow> 's broker_bridge
     \<Rightarrow> 's broker_bridge \<times> (unit, bridge_error) result" where
  "commit_transaction store i b =
     (case hm_get (brg_transactions b) i of
        None \<Rightarrow> (b, Err BrTransactionNotFound)
      | Some t \<Rightarrow>
          let (s, rs) = apply_operations store (bt_operations t) (brg_storage b);
              success = list_all is_ok rs
          in (on_metrics (record_transaction success) b
                \<lparr>brg_storage := s, brg_transactions := hm_remove i (brg_transactions b)\<rparr>,
              if success then Ok () else Err BrTransactionFailed))"

definition abort_transaction :: "u64 \<Rightarrow> 's broker_bridge \<Rightarrow> 's broker_bridge \<times> (unit, bridge_error) result" where
  "abort_transaction i b =
     (case hm_get (brg_transactions b) i of
        None \<Rightarrow> (b, Err BrTransactionNotFound)
      | Some t \<Rightarrow>
          (on_metrics (record_transaction False) b\<lparr>brg_transactions := hm_remove i (brg_transactions b)\<rparr>, Ok ()))"

definition bridge_shutdown :: "'s broker_bridge \<Rightarrow> 's broker_bridge \<times> (unit, bridge_error) result" where
  "bridge_shutdown b =
     (b\<lparr>brg_shutdown := True,
        brg_transactions := map (\<lambda>(i, t). (i,
          if bt_status t = BtPreparing \<or> bt_status t = BtPrepared then t\<lparr>bt_status := BtAborted\<rparr> else t)) (brg_transactions b)\<rparr>,
      Ok ())"

section \<open>Messages and subscriptions\<close>

definition bridge_store_message ::
  "(bytes \<Rightarrow> u32) \<Rightarrow> (system_time \<Rightarrow> int) \<Rightarrow> (bridge_entry \<Rightarrow> 's \<Rightarrow> 's \<times> (unit, bridge_error) result) \<Rightarrow> u64
     \<Rightarrow> unicode \<Rightarrow> core_message \<Rightarrow> 's broker_bridge \<Rightarrow> 's broker_bridge \<times> (unit, bridge_error) result" where
  "bridge_store_message crc to_secs store latency_us topic m b =
     (let (b1, e) = message_to_storage_entry crc to_secs latency_us m b; (s, r) = store e (brg_storage b1)
      in (b1\<lparr>brg_storage := s\<rparr>, r))"

definition retrieve_message ::
  "convert_env \<Rightarrow> (u64 \<Rightarrow> 's \<Rightarrow> (bridge_entry option, bridge_error) result) \<Rightarrow> unicode \<Rightarrow> u64 \<Rightarrow> 's broker_bridge
     \<Rightarrow> 's broker_bridge \<times> (core_message option, bridge_error) result" where
  "retrieve_message env fetch topic n b =
     (case fetch n (brg_storage b) of
        Err x \<Rightarrow> (b, Err x)
      | Panic \<Rightarrow> (b, Panic)
      | Ok None \<Rightarrow> (b, Ok None)
      | Ok (Some e) \<Rightarrow>
          (case storage_entry_to_message env e topic b of
             (b1, Ok m) \<Rightarrow> (b1, Ok (Some m))
           | (b1, Err x) \<Rightarrow> (b1, Err (BrConversionFailed (show_conversion_error x)))
           | (b1, Panic) \<Rightarrow> (b1, Panic)))"

definition create_subscription ::
  "system_time \<times> system_time \<Rightarrow> string \<Rightarrow> unicode list \<Rightarrow> replay_cursor option \<Rightarrow> 's broker_bridge
     \<Rightarrow> 's broker_bridge \<times> (unit, bridge_error) result" where
  "create_subscription nows who topics cursor b =
     (let start = (case cursor of
            Some c \<Rightarrow> c
          | None \<Rightarrow> \<lparr>rc_topic = (case topics of [] \<Rightarrow> [] | t # _ \<Rightarrow> t), rc_sequence = 0, rc_timestamp = 0, rc_subscriber = who\<rparr>);
          info = \<lparr>sui_subscriber_id = who, sui_topics = topics, sui_cursor = start, sui_created_at = fst nows,
                  sui_last_activity = snd nows, sui_persistent = True\<rparr>
      in (on_metrics (\<lambda>m. m\<lparr>brm_active_subscriptions := brm_active_subscriptions m + 1\<rparr>) b
            \<lparr>brg_subscriptions := hm_insert who info (brg_subscriptions b)\<rparr>, Ok ()))"

definition remove_subscription :: "string \<Rightarrow> 's broker_bridge \<Rightarrow> 's broker_bridge \<times> (unit, bridge_error) result" where
  "remove_subscription who b =
     (case hm_get (brg_subscriptions b) who of
        None \<Rightarrow> (b, Err BrSubscriptionNotFound)
      | Some _ \<Rightarrow>
          (on_metrics (\<lambda>m. m\<lparr>brm_active_subscriptions := brm_active_subscriptions m - 1\<rparr>) b
             \<lparr>brg_subscriptions := hm_remove who (brg_subscriptions b)\<rparr>, Ok ()))"

fun replay_loop ::
  "convert_env \<Rightarrow> (u64 \<Rightarrow> 's \<Rightarrow> (bridge_entry option, bridge_error) result) \<Rightarrow> unicode \<Rightarrow> usize \<Rightarrow> u64 \<Rightarrow> 's broker_bridge
     \<Rightarrow> 's broker_bridge \<times> (core_message list, bridge_error) result" where
  "replay_loop env fetch topic 0 n b = (b, Ok [])"
| "replay_loop env fetch topic (Suc k) n b =
     (case retrieve_message env fetch topic n b of
        (b1, Err x) \<Rightarrow> (b1, Err x)
      | (b1, Panic) \<Rightarrow> (b1, Panic)
      | (b1, Ok None) \<Rightarrow> (b1, Ok [])
      | (b1, Ok (Some m)) \<Rightarrow>
          (case replay_loop env fetch topic k (n + 1) b1 of
             (b2, Ok ms) \<Rightarrow> (b2, Ok (m # ms))
           | (b2, x) \<Rightarrow> (b2, x)))"

definition replay_messages ::
  "convert_env \<Rightarrow> (u64 \<Rightarrow> 's \<Rightarrow> (bridge_entry option, bridge_error) result) \<Rightarrow> string \<Rightarrow> usize option \<Rightarrow> 's broker_bridge
     \<Rightarrow> 's broker_bridge \<times> (core_message list, bridge_error) result" where
  "replay_messages env fetch who limit b =
     (case hm_get (brg_subscriptions b) who of
        None \<Rightarrow> (b, Err BrSubscriptionNotFound)
      | Some sub \<Rightarrow>
          let k = (case limit of Some k \<Rightarrow> k | None \<Rightarrow> brc_replay_buffer_size (brg_config b)) in
          (case replay_loop env fetch (rc_topic (sui_cursor sub)) k (rc_sequence (sui_cursor sub) + 1) b of
             (b1, Ok ms) \<Rightarrow>
               (on_metrics (\<lambda>m. m\<lparr>brm_messages_replayed := brm_messages_replayed m + of_nat (length ms)\<rparr>) b1, Ok ms)
           | (b1, x) \<Rightarrow> (b1, x)))"

definition update_cursor ::
  "system_time \<Rightarrow> string \<Rightarrow> replay_cursor \<Rightarrow> 's broker_bridge \<Rightarrow> 's broker_bridge \<times> (unit, bridge_error) result" where
  "update_cursor now who cursor b =
     (case hm_get (brg_subscriptions b) who of
        None \<Rightarrow> (b, Err BrSubscriptionNotFound)
      | Some sub \<Rightarrow>
          (b\<lparr>brg_subscriptions := hm_insert who (sub\<lparr>sui_cursor := cursor, sui_last_activity := now\<rparr>) (brg_subscriptions b)\<rparr>, Ok ()))"

section \<open>Conversion keeps the payload\<close>

text \<open>
  A message that is stored and read back keeps its payload, its offset (0 where it had none) and its
  time in whole seconds; it gets a new identity and loses its partition and its headers.
\<close>

theorem conversion_roundtrip:
  assumes m: "valid_topic (cv_alnum env) topic"
    and secs: "- (2 ^ 63) \<le> to_secs (msg_timestamp m)" "to_secs (msg_timestamp m) < 2 ^ 63"
    and again: "cv_from_secs env (to_secs (msg_timestamp m)) = Some t"
  shows "snd (storage_entry_to_message env (snd (message_to_storage_entry crc to_secs us m b)) topic b')
    = Ok \<lparr>msg_id = cv_id env, msg_topic = topic, msg_payload = msg_payload m, msg_timestamp = t, msg_partition = None,
          msg_offset = Some (case msg_offset m of Some n \<Rightarrow> n | None \<Rightarrow> 0), msg_headers = None\<rparr>"
proof -
  have "sint (word_of_int (to_secs (msg_timestamp m)) :: u64) = to_secs (msg_timestamp m)"
    using secs by (simp add: signed_of_int signed_take_bit_int_eq_self)
  with m again show ?thesis
    by (simp add: storage_entry_to_message_def message_to_storage_entry_def core_message_new_def iffD2 [OF topic_new_iff])
qed

section \<open>Commits\<close>

fun stored_entries :: "bridge_operation list \<Rightarrow> bridge_entry list" where
  "stored_entries [] = []"
| "stored_entries (BoStore topic e # xs) = e # stored_entries xs"
| "stored_entries (_ # xs) = stored_entries xs"

fun store_each ::
  "(bridge_entry \<Rightarrow> 's \<Rightarrow> 's \<times> (unit, bridge_error) result) \<Rightarrow> bridge_entry list \<Rightarrow> 's \<Rightarrow> 's \<times> bool" where
  "store_each store [] s = (s, True)"
| "store_each store (e # es) s =
     (case store e s of (s1, r) \<Rightarrow> case store_each store es s1 of (s2, all) \<Rightarrow> (s2, is_ok r \<and> all))"

lemma apply_is_store_each:
  "(fst (apply_operations store xs s), list_all is_ok (snd (apply_operations store xs s)))
     = store_each store (stored_entries xs) s"
proof (induction store xs s rule: apply_operations.induct)
  case (2 store topic e xs s)
  obtain s1 r where "store e s = (s1, r)" by fastforce
  with 2 [of "(s1, r)" s1 r] show ?case
    by (cases "apply_operations store xs s1"; cases "store_each store (stored_entries xs) s1") simp
qed (auto split: prod.splits)

text \<open>
  C33: A commit hands every entry of the transaction to the storage in order, also after one was refused; it
  answers Ok exactly when none was refused, and forgets the transaction in either case, so that a
  failed commit has stored what was accepted and cannot be repeated or undone.
\<close>

theorem commit_outcome:
  assumes t: "map_of (brg_transactions b) i = Some t"
    and stored: "store_each store (stored_entries (bt_operations t)) (brg_storage b) = (s, all)"
    and run: "commit_transaction store i b = (b', r)"
  shows "r = (if all then Ok () else Err BrTransactionFailed) \<and> brg_storage b' = s
    \<and> snd (commit_transaction store i b') = Err BrTransactionNotFound
    \<and> snd (abort_transaction i b') = Err BrTransactionNotFound"
proof -
  have "fst (apply_operations store (bt_operations t) (brg_storage b)) = s"
    "list_all is_ok (snd (apply_operations store (bt_operations t) (brg_storage b))) = all"
    using apply_is_store_each [of store "bt_operations t" "brg_storage b"] stored by auto
  then show ?thesis
    using t run by (auto simp: commit_transaction_def abort_transaction_def Let_def split_beta)
qed

definition limited_store :: "nat \<Rightarrow> bridge_entry \<Rightarrow> bridge_entry list \<Rightarrow> bridge_entry list \<times> (unit, bridge_error) result" where
  "limited_store k e es = (if length es < k then (es @ [e], Ok ()) else (es, Err (BrStorage ''full'')))"

definition sample_bridge_entry :: "u64 \<Rightarrow> bridge_entry" where
  "sample_bridge_entry n = \<lparr>be_sequence = n, be_timestamp = 0, be_payload = [], be_checksum = 0\<rparr>"

definition sample_bridge :: "bridge_entry list broker_bridge" where
  "sample_bridge =
     fst (add_to_transaction 1 (BoStore [] (sample_bridge_entry 2)) (fst (add_to_transaction 1 (BoStore [] (sample_bridge_entry 1))
       (fst (bridge_begin 0 (broker_bridge_new [] bridge_config_default))))))"

lemma sample_transaction:
  "map_of (brg_transactions sample_bridge) 1
     = Some \<lparr>bt_id = 1, bt_status = BtPreparing, bt_operations = [BoStore [] (sample_bridge_entry 1), BoStore [] (sample_bridge_entry 2)],
             bt_created_at = 0, bt_timeout = Some (30 * 1000000000)\<rparr>"
  "brg_storage sample_bridge = []"
  by (simp_all add: sample_bridge_def broker_bridge_new_def bridge_begin_def add_to_transaction_def bridge_config_default_def
      Let_def)

theorem commit_outcome_witness:
  "snd (commit_transaction (limited_store 1) 1 sample_bridge) = Err BrTransactionFailed
   \<and> brg_storage (fst (commit_transaction (limited_store 1) 1 sample_bridge)) = [sample_bridge_entry 1]"
  using commit_outcome [OF sample_transaction(1), of "limited_store 1" "[sample_bridge_entry 1]" False
      "fst (commit_transaction (limited_store 1) 1 sample_bridge)"
      "snd (commit_transaction (limited_store 1) 1 sample_bridge)"]
  by (simp add: sample_transaction limited_store_def)

text \<open>
  A shutdown marks the open transactions as aborted and leaves them in the table; a commit does not look
  at the mark, so that an aborted transaction can still be committed.
\<close>

lemma shutdown_lookup:
  "map_of (brg_transactions (fst (bridge_shutdown b))) i = map_option (\<lambda>t.
     if bt_status t = BtPreparing \<or> bt_status t = BtPrepared then t\<lparr>bt_status := BtAborted\<rparr> else t) (map_of (brg_transactions b) i)"
  by (simp add: bridge_shutdown_def map_of_map)

theorem aborted_transaction_commits:
  "(\<exists>t. map_of (brg_transactions (fst (bridge_shutdown sample_bridge))) 1 = Some t \<and> bt_status t = BtAborted)
   \<and> snd (bridge_begin 0 (fst (bridge_shutdown sample_bridge))) = Err BrShutdown
   \<and> snd (commit_transaction (limited_store 9) 1 (fst (bridge_shutdown sample_bridge))) = Ok ()
   \<and> brg_storage (fst (commit_transaction (limited_store 9) 1 (fst (bridge_shutdown sample_bridge)))) = [sample_bridge_entry 1, sample_bridge_entry 2]"
proof -
  let ?b = "fst (bridge_shutdown sample_bridge)"
  have t: "map_of (brg_transactions ?b) 1
     = Some \<lparr>bt_id = 1, bt_status = BtAborted, bt_operations = [BoStore [] (sample_bridge_entry 1), BoStore [] (sample_bridge_entry 2)],
             bt_created_at = 0, bt_timeout = Some (30 * 1000000000)\<rparr>"
    by (simp add: shutdown_lookup sample_transaction)
  have s: "brg_storage ?b = []" "brg_shutdown ?b" by (simp_all add: bridge_shutdown_def sample_transaction)
  show ?thesis by (simp add: t s bridge_begin_def commit_transaction_def limited_store_def Let_def)
qed

section \<open>Transaction identifiers\<close>

text \<open>No identifier is given out twice while the 64-bit counter has not wrapped.\<close>

definition ids_below :: "'s broker_bridge \<Rightarrow> bool" where
  "ids_below b \<longleftrightarrow> (\<forall>i\<in>dom (map_of (brg_transactions b)). i < brg_next_transaction_id b)"

lemma ids_below_new: "ids_below (broker_bridge_new s c)"
  by (simp add: ids_below_def broker_bridge_new_def)

lemma begin_fresh:
  assumes "ids_below b" "bridge_begin now b = (b', Ok i)" "brg_next_transaction_id b < - 1"
  shows "map_of (brg_transactions b) i = None \<and> ids_below b'"
proof -
  have i: "i = brg_next_transaction_id b" "i < i + 1"
    using assms(2,3) by (auto simp: bridge_begin_def Let_def word_less_plus_one split: if_splits)
  have old: "j < i" if "j \<in> dom (map_of (brg_transactions b))" for j
    using assms(1) that by (simp add: ids_below_def i(1))
  have "brg_next_transaction_id b' = i + 1" "dom (map_of (brg_transactions b')) = insert i (dom (map_of (brg_transactions b)))"
    using assms(2) i(1) by (auto simp: bridge_begin_def Let_def split: if_splits)
  then show ?thesis using old i(2) by (fastforce simp: ids_below_def domIff)
qed

lemma others_keep_ids:
  assumes "ids_below b"
  shows "ids_below (fst (commit_transaction store i b))" "ids_below (fst (abort_transaction i b))"
    "ids_below (fst (add_to_transaction i x b))" "ids_below (fst (bridge_shutdown b))"
proof -
  show "ids_below (fst (bridge_shutdown b))"
    using assms by (auto simp: ids_below_def dom_def shutdown_lookup) (auto simp: bridge_shutdown_def)
qed (use assms in \<open>auto simp: ids_below_def commit_transaction_def abort_transaction_def add_to_transaction_def
    Let_def split_beta split: option.splits\<close>)

section \<open>Replay\<close>

text \<open>
  Replaying returns the messages at the positions after the cursor, one by one, up to the first that is
  missing or the limit. What the storage returns is decided by \<open>fetch\<close>.
\<close>

lemma retrieve_keeps_storage: "brg_storage (fst (retrieve_message env fetch topic n b)) = brg_storage b"
  by (auto simp: retrieve_message_def storage_entry_to_message_def split: result.splits option.splits)

lemma retrieved:
  "snd (retrieve_message env fetch topic n b) = Ok x \<Longrightarrow>
     (x = None \<longleftrightarrow> fetch n (brg_storage b) = Ok None)
     \<and> (\<forall>m. x = Some m \<longrightarrow> msg_topic m = topic \<and> (\<exists>e. fetch n (brg_storage b) = Ok (Some e)
            \<and> msg_payload m = be_payload e \<and> msg_offset m = Some (be_sequence e)))"
  by (auto simp: retrieve_message_def storage_entry_to_message_def core_message_new_def and_then_Ok_iff topic_new_iff
      split: result.splits option.splits prod.splits)

lemma replay_loop_correct:
  "replay_loop env fetch topic k n b = (b', Ok ms) \<Longrightarrow>
     length ms \<le> k
   \<and> (\<forall>j < length ms. \<exists>e. fetch (n + of_nat j) (brg_storage b) = Ok (Some e) \<and> msg_payload (ms ! j) = be_payload e
        \<and> msg_offset (ms ! j) = Some (be_sequence e))
   \<and> (length ms < k \<longrightarrow> fetch (n + of_nat (length ms)) (brg_storage b) = Ok None)"
proof (induction k arbitrary: n b b' ms)
  case (Suc k)
  obtain b1 r where r: "retrieve_message env fetch topic n b = (b1, r)" by fastforce
  have keep: "brg_storage b1 = brg_storage b" using retrieve_keeps_storage [of env fetch topic n b] r by simp
  obtain x where x: "r = Ok x" using Suc.prems r by (cases r) auto
  show ?case
  proof (cases x)
    case None
    then show ?thesis using Suc.prems r x retrieved [of env fetch topic n b None] by auto
  next
    case (Some m)
    obtain b2 q where q: "replay_loop env fetch topic k (n + 1) b1 = (b2, q)" by fastforce
    obtain ms' where ms: "q = Ok ms'" "ms = m # ms'" using Suc.prems r x Some q by (cases q) auto
    note ih = Suc.IH [OF q [unfolded ms(1)], unfolded keep]
    have head: "\<exists>e. fetch n (brg_storage b) = Ok (Some e) \<and> msg_payload m = be_payload e \<and> msg_offset m = Some (be_sequence e)"
      using retrieved [of env fetch topic n b x] r x Some by simp
    show ?thesis
      using ih head by (auto simp: ms(2) nth_Cons less_Suc_eq_0_disj simp flip: add.assoc split: nat.split)
  qed
qed simp

theorem replay_window:
  assumes sub: "map_of (brg_subscriptions b) who = Some info"
    and out: "replay_messages env fetch who (Some k) b = (b', Ok ms)"
  shows "length ms \<le> k
   \<and> (\<forall>j < length ms. \<exists>e. fetch (rc_sequence (sui_cursor info) + 1 + of_nat j) (brg_storage b) = Ok (Some e)
        \<and> msg_payload (ms ! j) = be_payload e \<and> msg_offset (ms ! j) = Some (be_sequence e))
   \<and> (length ms < k \<longrightarrow> fetch (rc_sequence (sui_cursor info) + 1 + of_nat (length ms)) (brg_storage b) = Ok None)"
proof -
  obtain b1 q where q: "replay_loop env fetch (rc_topic (sui_cursor info)) k (rc_sequence (sui_cursor info) + 1) b = (b1, q)"
    by fastforce
  then have "q = Ok ms" using sub out by (cases q) (auto simp: replay_messages_def)
  with replay_loop_correct q show ?thesis by metis
qed

text \<open>
  Creating a subscription a second time replaces it and still counts one more, so that removing it leaves
  a count without a subscription.
\<close>

lemma subscription_count_drifts:
  "\<exists>b. b = fst (remove_subscription ''s'' (fst (create_subscription (0, 0) ''s'' [] None
           (fst (create_subscription (0, 0) ''s'' [] None (broker_bridge_new () bridge_config_default))))))
     \<and> map_of (brg_subscriptions b) ''s'' = None \<and> brm_active_subscriptions (brg_metrics b) = 1"
  by (simp add: broker_bridge_new_def bridge_metrics_default_def create_subscription_def remove_subscription_def Let_def)

end
