(* ===== verification/Replication_Metrics.thy ===== *)
theory Replication_Metrics
  imports Clocks
begin

text \<open>
  The metrics of the replication, \<^verbatim>\<open>src/kaelix-storage/src/replication/metrics.rs\<close>: the counters, the bounded
  histories of latencies and throughput, the periodic collection and the statistics read off them.
  Floating-point numbers are values of a type \<open>'f\<close>; their operations, among them the position of a
  percentile (\<open>index p n\<close> is the product of \<open>n\<close> and \<open>p / 100\<close> cut to an integer), and every reading of a
  clock are arguments.
\<close>

section \<open>Data\<close>

record 'f throughput_metrics =
  thr_total_ops_per_sec :: 'f
  thr_write_ops_per_sec :: 'f
  thr_read_ops_per_sec :: 'f
  thr_bytes_per_sec :: 'f
  thr_peak_ops_per_sec :: 'f
  thr_avg_batch_size :: 'f

record latency_metrics =
  lam_avg_replication_latency :: duration
  lam_p50_replication_latency :: duration
  lam_p95_replication_latency :: duration
  lam_p99_replication_latency :: duration
  lam_max_replication_latency :: duration
  lam_avg_quorum_write_latency :: duration
  lam_avg_quorum_read_latency :: duration

record 'f reliability_metrics =
  rel_total_operations :: u64
  rel_successful_operations :: u64
  rel_failed_operations :: u64
  rel_success_rate :: 'f
  rel_consistency_violations :: u64
  rel_replica_failures :: u64
  rel_recovery_operations :: u64
  rel_availability_percentage :: 'f

record 'f resource_metrics =
  rsm_memory_usage_bytes :: u64
  rsm_network_bandwidth_usage :: 'f
  rsm_cpu_usage_percentage :: 'f
  rsm_active_connections :: usize
  rsm_buffer_utilization :: 'f

datatype replica_connection = RcConnected | RcDegraded | RcUnstable | RcDisconnected

record 'f replica_metrics =
  rpm_replica_id :: node_id
  rpm_lag_offset :: u64
  rpm_health_score :: 'f
  rpm_last_heartbeat :: system_time
  rpm_avg_response_time :: duration
  rpm_failed_operations :: u64
  rpm_bytes_replicated :: u64
  rpm_connection_status :: replica_connection

record 'f replication_metrics =
  rmx_throughput :: "'f throughput_metrics"
  rmx_latency :: latency_metrics
  rmx_reliability :: "'f reliability_metrics"
  rmx_resources :: "'f resource_metrics"
  rmx_per_replica :: "(node_id, 'f replica_metrics) hash_map"
  rmx_collected_at :: system_time

record 'f data_point =
  dp_timestamp :: instant
  dp_value :: 'f

record 'f metrics_collector =
  rmc_current_metrics :: "'f replication_metrics"
  rmc_throughput_history :: "'f data_point list"
  rmc_latency_history :: "duration list"
  rmc_start_time :: instant
  rmc_collection_interval :: duration
  rmc_max_history_size :: usize

definition throughput_metrics_default :: "'f float_ops \<Rightarrow> 'f throughput_metrics" where
  "throughput_metrics_default fl =
     \<lparr>thr_total_ops_per_sec = fl_tenths fl 0, thr_write_ops_per_sec = fl_tenths fl 0, thr_read_ops_per_sec = fl_tenths fl 0,
      thr_bytes_per_sec = fl_tenths fl 0, thr_peak_ops_per_sec = fl_tenths fl 0, thr_avg_batch_size = fl_tenths fl 0\<rparr>"

definition latency_metrics_default :: latency_metrics where
  "latency_metrics_default =
     \<lparr>lam_avg_replication_latency = 0, lam_p50_replication_latency = 0, lam_p95_replication_latency = 0,
      lam_p99_replication_latency = 0, lam_max_replication_latency = 0, lam_avg_quorum_write_latency = 0,
      lam_avg_quorum_read_latency = 0\<rparr>"

definition reliability_metrics_default :: "'f float_ops \<Rightarrow> 'f reliability_metrics" where
  "reliability_metrics_default fl =
     \<lparr>rel_total_operations = 0, rel_successful_operations = 0, rel_failed_operations = 0, rel_success_rate = fl_tenths fl 0,
      rel_consistency_violations = 0, rel_replica_failures = 0, rel_recovery_operations = 0,
      rel_availability_percentage = fl_of_usize fl 100\<rparr>"

definition resource_metrics_default :: "'f float_ops \<Rightarrow> 'f resource_metrics" where
  "resource_metrics_default fl =
     \<lparr>rsm_memory_usage_bytes = 0, rsm_network_bandwidth_usage = fl_tenths fl 0, rsm_cpu_usage_percentage = fl_tenths fl 0,
      rsm_active_connections = 0, rsm_buffer_utilization = fl_tenths fl 0\<rparr>"

definition metrics_collector_new :: "'f float_ops \<Rightarrow> system_time \<Rightarrow> instant \<Rightarrow> 'f metrics_collector" where
  "metrics_collector_new fl now start =
     \<lparr>rmc_current_metrics =
        \<lparr>rmx_throughput = throughput_metrics_default fl, rmx_latency = latency_metrics_default,
         rmx_reliability = reliability_metrics_default fl, rmx_resources = resource_metrics_default fl,
         rmx_per_replica = [], rmx_collected_at = now\<rparr>,
      rmc_throughput_history = [], rmc_latency_history = [], rmc_start_time = start,
      rmc_collection_interval = 1000000000, rmc_max_history_size = 3600\<rparr>"

section \<open>Recording\<close>

definition note_latency :: "duration \<Rightarrow> 'f metrics_collector \<Rightarrow> 'f metrics_collector" where
  "note_latency d c = c\<lparr>rmc_latency_history := push_bounded (rmc_max_history_size c) d (rmc_latency_history c)\<rparr>"

definition count_operation :: "'f float_ops \<Rightarrow> bool \<Rightarrow> 'f reliability_metrics \<Rightarrow> 'f reliability_metrics" where
  "count_operation fl success r =
     (let n = rel_total_operations r + 1;
          s = (if success then rel_successful_operations r + 1 else rel_successful_operations r)
      in r\<lparr>rel_total_operations := n, rel_successful_operations := s,
           rel_failed_operations := (if success then rel_failed_operations r else rel_failed_operations r + 1),
           rel_success_rate := fl_div fl (fl_of_usize fl (unat s)) (fl_of_usize fl (unat n))\<rparr>)"

definition on_reliability ::
  "('f reliability_metrics \<Rightarrow> 'f reliability_metrics) \<Rightarrow> 'f metrics_collector \<Rightarrow> 'f metrics_collector" where
  "on_reliability f c =
     c\<lparr>rmc_current_metrics := (rmc_current_metrics c)\<lparr>rmx_reliability := f (rmx_reliability (rmc_current_metrics c))\<rparr>\<rparr>"

definition record_write_operation :: "'f float_ops \<Rightarrow> duration \<Rightarrow> usize \<Rightarrow> bool \<Rightarrow> 'f metrics_collector \<Rightarrow> 'f metrics_collector" where
  "record_write_operation fl latency nbytes success c = note_latency latency (on_reliability (count_operation fl success) c)"

definition record_read_operation :: "'f float_ops \<Rightarrow> duration \<Rightarrow> bool \<Rightarrow> 'f metrics_collector \<Rightarrow> 'f metrics_collector" where
  "record_read_operation fl latency success c = note_latency latency (on_reliability (count_operation fl success) c)"

definition record_replica_metrics :: "node_id \<Rightarrow> 'f replica_metrics \<Rightarrow> 'f metrics_collector \<Rightarrow> 'f metrics_collector" where
  "record_replica_metrics n r c =
     c\<lparr>rmc_current_metrics := (rmc_current_metrics c)\<lparr>rmx_per_replica := hm_insert n r (rmx_per_replica (rmc_current_metrics c))\<rparr>\<rparr>"

definition record_consistency_violation :: "'f metrics_collector \<Rightarrow> 'f metrics_collector" where
  "record_consistency_violation = on_reliability (\<lambda>r. r\<lparr>rel_consistency_violations := rel_consistency_violations r + 1\<rparr>)"

definition record_replica_failure :: "'f float_ops \<Rightarrow> node_id \<Rightarrow> 'f metrics_collector \<Rightarrow> 'f metrics_collector" where
  "record_replica_failure fl n c =
     (let c1 = on_reliability (\<lambda>r. r\<lparr>rel_replica_failures := rel_replica_failures r + 1\<rparr>) c;
          m = rmc_current_metrics c1
      in case hm_get (rmx_per_replica m) n of
           None \<Rightarrow> c1
         | Some r \<Rightarrow> c1\<lparr>rmc_current_metrics :=
             m\<lparr>rmx_per_replica := hm_insert n (r\<lparr>rpm_connection_status := RcDisconnected, rpm_health_score := fl_tenths fl 0\<rparr>)
                 (rmx_per_replica m)\<rparr>\<rparr>)"

definition record_recovery_operation :: "'f metrics_collector \<Rightarrow> 'f metrics_collector" where
  "record_recovery_operation = on_reliability (\<lambda>r. r\<lparr>rel_recovery_operations := rel_recovery_operations r + 1\<rparr>)"

definition update_resource_metrics :: "'f resource_metrics \<Rightarrow> 'f metrics_collector \<Rightarrow> 'f metrics_collector" where
  "update_resource_metrics r c = c\<lparr>rmc_current_metrics := (rmc_current_metrics c)\<lparr>rmx_resources := r\<rparr>\<rparr>"

definition get_current_metrics :: "system_time \<Rightarrow> 'f metrics_collector \<Rightarrow> 'f metrics_collector \<times> 'f replication_metrics" where
  "get_current_metrics now c =
     (let m = (rmc_current_metrics c)\<lparr>rmx_collected_at := now\<rparr> in (c\<lparr>rmc_current_metrics := m\<rparr>, m))"

text \<open>One round of the collecting task; it carries the operations and the time of its last round.\<close>

definition collection_round ::
  "'f float_ops \<Rightarrow> (duration \<Rightarrow> 'f) \<Rightarrow> instant \<Rightarrow> (u64 \<times> instant) \<times> 'f metrics_collector
     \<Rightarrow> (u64 \<times> instant) \<times> 'f metrics_collector" where
  "collection_round fl as_secs now st =
     (case st of ((last_operations, last_collection), c) \<Rightarrow>
        let m = rmc_current_metrics c;
            current = rel_total_operations (rmx_reliability m);
            rate = fl_div fl (fl_of_usize fl (unat (current - last_operations))) (as_secs (now - last_collection));
            thr = rmx_throughput m;
            peak = (if fl_less fl (thr_peak_ops_per_sec thr) rate then rate else thr_peak_ops_per_sec thr)
        in ((current, now),
            c\<lparr>rmc_current_metrics := m\<lparr>rmx_throughput := thr\<lparr>thr_total_ops_per_sec := rate, thr_peak_ops_per_sec := peak\<rparr>\<rparr>,
              rmc_throughput_history :=
                push_bounded (rmc_max_history_size c) \<lparr>dp_timestamp = now, dp_value = rate\<rparr> (rmc_throughput_history c)\<rparr>))"

section \<open>Statistics\<close>

record 'f throughput_statistics =
  tps_average :: 'f
  tps_maximum :: 'f
  tps_minimum :: 'f
  tps_data_points :: usize

record latency_percentiles =
  lpc_p50 :: duration
  lpc_p95 :: duration
  lpc_p99 :: duration
  lpc_max :: duration
  lpc_sample_size :: usize

record 'f float_extrema =
  fx_max :: "'f \<Rightarrow> 'f \<Rightarrow> 'f"
  fx_min :: "'f \<Rightarrow> 'f \<Rightarrow> 'f"
  fx_neg_infinity :: 'f
  fx_infinity :: 'f

definition throughput_statistics_default :: "'f float_ops \<Rightarrow> 'f throughput_statistics" where
  "throughput_statistics_default fl =
     \<lparr>tps_average = fl_tenths fl 0, tps_maximum = fl_tenths fl 0, tps_minimum = fl_tenths fl 0, tps_data_points = 0\<rparr>"

definition latency_percentiles_default :: latency_percentiles where
  "latency_percentiles_default = \<lparr>lpc_p50 = 0, lpc_p95 = 0, lpc_p99 = 0, lpc_max = 0, lpc_sample_size = 0\<rparr>"

definition get_throughput_statistics ::
  "'f float_ops \<Rightarrow> 'f float_extrema \<Rightarrow> instant \<Rightarrow> duration \<Rightarrow> 'f metrics_collector \<Rightarrow> 'f throughput_statistics" where
  "get_throughput_statistics fl fx now window c =
     (let recent = map dp_value (filter (\<lambda>dp. dp_timestamp dp \<ge> now - window) (rmc_throughput_history c)) in
      if recent = [] then throughput_statistics_default fl
      else \<lparr>tps_average = fl_div fl (foldl (fl_add fl) (fl_tenths fl 0) recent) (fl_of_usize fl (length recent)),
            tps_maximum = foldl (fx_max fx) (fx_neg_infinity fx) recent,
            tps_minimum = foldl (fx_min fx) (fx_infinity fx) recent,
            tps_data_points = length recent\<rparr>)"

definition get_latency_percentiles :: "(nat \<Rightarrow> usize \<Rightarrow> usize) \<Rightarrow> 'f metrics_collector \<Rightarrow> latency_percentiles" where
  "get_latency_percentiles index c =
     (if rmc_latency_history c = [] then latency_percentiles_default
      else let sorted_latencies = sort (rmc_latency_history c);
               n = length sorted_latencies;
               at = (\<lambda>p. sorted_latencies ! min (index p n) (n - 1))
           in \<lparr>lpc_p50 = at 50, lpc_p95 = at 95, lpc_p99 = at 99, lpc_max = sorted_latencies ! (n - 1), lpc_sample_size = n\<rparr>)"

record 'f metrics_report =
  mrp_timestamp :: system_time
  mrp_uptime :: duration
  mrp_current_metrics :: "'f replication_metrics"
  mrp_throughput_statistics :: "'f throughput_statistics"
  mrp_latency_percentiles :: latency_percentiles

definition generate_report ::
  "'f float_ops \<Rightarrow> 'f float_extrema \<Rightarrow> (nat \<Rightarrow> usize \<Rightarrow> usize) \<Rightarrow> system_time \<times> system_time \<Rightarrow> instant \<times> instant
     \<Rightarrow> 'f metrics_collector \<Rightarrow> 'f metrics_collector \<times> 'f metrics_report" where
  "generate_report fl fx index sys nows c =
     (let (c1, current) = get_current_metrics (fst sys) c in
      (c1, \<lparr>mrp_timestamp = snd sys, mrp_uptime = snd nows - rmc_start_time c1, mrp_current_metrics = current,
            mrp_throughput_statistics = get_throughput_statistics fl fx (fst nows) (5 * 60 * 1000000000) c1,
            mrp_latency_percentiles = get_latency_percentiles index c1\<rparr>))"

section \<open>Histories are windows\<close>

datatype 'f metrics_op =
  RmWrite duration usize bool
| RmRead duration bool
| RmReplica node_id "'f replica_metrics"
| RmViolation
| RmFailure node_id
| RmRecovery
| RmResources "'f resource_metrics"
| RmCurrent system_time

fun metrics_step :: "'f float_ops \<Rightarrow> 'f metrics_op \<Rightarrow> 'f metrics_collector \<Rightarrow> 'f metrics_collector" where
  "metrics_step fl (RmWrite d n b) c = record_write_operation fl d n b c"
| "metrics_step fl (RmRead d b) c = record_read_operation fl d b c"
| "metrics_step fl (RmReplica n r) c = record_replica_metrics n r c"
| "metrics_step fl RmViolation c = record_consistency_violation c"
| "metrics_step fl (RmFailure n) c = record_replica_failure fl n c"
| "metrics_step fl RmRecovery c = record_recovery_operation c"
| "metrics_step fl (RmResources r) c = update_resource_metrics r c"
| "metrics_step fl (RmCurrent t) c = fst (get_current_metrics t c)"

fun operation_of :: "'f metrics_op \<Rightarrow> (duration \<times> bool) option" where
  "operation_of (RmWrite d n b) = Some (d, b)"
| "operation_of (RmRead d b) = Some (d, b)"
| "operation_of _ = None"

definition operations :: "'f metrics_op list \<Rightarrow> (duration \<times> bool) list" where
  "operations xs = List.map_filter operation_of xs"

abbreviation reliability_of :: "'f metrics_collector \<Rightarrow> 'f reliability_metrics" where
  "reliability_of c \<equiv> rmx_reliability (rmc_current_metrics c)"

definition records :: "(duration \<times> bool) list \<Rightarrow> 'f metrics_collector \<Rightarrow> bool" where
  "records os c \<longleftrightarrow> rmc_max_history_size c = 3600
     \<and> rmc_latency_history c = drop (length os - 3600) (map fst os)
     \<and> rel_total_operations (reliability_of c) = of_nat (length os)
     \<and> rel_successful_operations (reliability_of c) = of_nat (length (filter snd os))
     \<and> rel_failed_operations (reliability_of c) = of_nat (length (filter (\<lambda>x. \<not> snd x) os))"

lemma records_new: "records [] (metrics_collector_new fl now start)"
  by (simp add: records_def metrics_collector_new_def reliability_metrics_default_def)

lemma records_operation:
  assumes "records os c"
  shows "records (os @ [(d, b)]) (note_latency d (on_reliability (count_operation fl b) c))"
  using assms push_window [of 3600 d "map fst os"]
  by (simp add: records_def note_latency_def on_reliability_def count_operation_def Let_def)

lemma records_other:
  assumes "records os c"
  shows "records os (on_reliability (\<lambda>r. r\<lparr>rel_consistency_violations := f r\<rparr>) c)"
    "records os (on_reliability (\<lambda>r. r\<lparr>rel_replica_failures := f r\<rparr>) c)"
    "records os (on_reliability (\<lambda>r. r\<lparr>rel_recovery_operations := f r\<rparr>) c)"
    "records os (record_replica_metrics n rp c)"
    "records os (update_resource_metrics rs c)"
    "records os (fst (get_current_metrics t c))"
  using assms
  by (simp_all add: records_def on_reliability_def record_replica_metrics_def update_resource_metrics_def
      get_current_metrics_def Let_def)

lemma records_failure: "records os c \<Longrightarrow> records os (record_replica_failure fl n c)"
  using records_other(2) [of os c "\<lambda>r. rel_replica_failures r + 1"]
  by (simp add: record_replica_failure_def Let_def records_def split: option.split)

lemma records_step:
  assumes "records os c"
  shows "records (os @ operations [x]) (metrics_step fl x c)"
  using records_operation [OF assms] records_other [OF assms] records_failure [OF assms]
  by (cases x) (simp_all add: operations_def record_write_operation_def record_read_operation_def
      record_consistency_violation_def record_recovery_operation_def)

lemma operations_Cons: "operations (x # xs) = operations [x] @ operations xs"
  by (simp add: operations_def split: option.split)

lemma records_run: "records os c \<Longrightarrow> records (os @ operations xs) (fold (metrics_step fl) xs c)"
proof (induction xs arbitrary: os c)
  case (Cons x xs)
  show ?case
    using Cons.IH [OF records_step [OF Cons.prems, of x fl]] operations_Cons [of x xs] by simp
qed (simp add: operations_def)

text \<open>
  After any sequence of recordings the counters count the reads and writes by their outcome, and the
  history is the latencies of the last 3600 of them, in order.
\<close>

theorem metrics_record_operations:
  assumes "c = fold (metrics_step fl) xs (metrics_collector_new fl now start)"
  shows "records (operations xs) c \<and> length (rmc_latency_history c) \<le> 3600
    \<and> rel_total_operations (reliability_of c)
        = rel_successful_operations (reliability_of c) + rel_failed_operations (reliability_of c)"
proof -
  have r: "records (operations xs) c"
    using records_run [OF records_new [of fl now start], of xs fl] by (simp add: assms)
  have "rel_total_operations (reliability_of c)
      = rel_successful_operations (reliability_of c) + rel_failed_operations (reliability_of c)"
    using r by (simp add: records_def flip: of_nat_add sum_length_filter_compl [of snd "operations xs"])
  with r show ?thesis by (auto simp: records_def)
qed

section \<open>Percentiles\<close>

text \<open>
  The percentiles are latencies of the history, in increasing order up to the largest of it, whatever the
  rounding, as long as the computed position grows with the percentage.
\<close>

theorem percentiles_ordered:
  assumes grows: "\<And>n. index 50 n \<le> index 95 n \<and> index 95 n \<le> index 99 n"
    and some: "rmc_latency_history c \<noteq> []"
  shows "lpc_p50 (get_latency_percentiles index c) \<le> lpc_p95 (get_latency_percentiles index c)
    \<and> lpc_p95 (get_latency_percentiles index c) \<le> lpc_p99 (get_latency_percentiles index c)
    \<and> lpc_p99 (get_latency_percentiles index c) \<le> lpc_max (get_latency_percentiles index c)
    \<and> lpc_max (get_latency_percentiles index c) = Max (set (rmc_latency_history c))
    \<and> {lpc_p50 (get_latency_percentiles index c), lpc_p95 (get_latency_percentiles index c),
        lpc_p99 (get_latency_percentiles index c)} \<subseteq> set (rmc_latency_history c)"
proof -
  let ?s = "sort (rmc_latency_history c)" and ?n = "length (rmc_latency_history c)"
  have n: "0 < ?n" using some by simp
  have less_length: "min i (?n - 1) < ?n" for i
    using n by (simp add: min_less_iff_disj)
  have mono: "?s ! min i (?n - 1) \<le> ?s ! min j (?n - 1)" if "i \<le> j" for i j
    using that n less_length [of j] by (intro sorted_nth_mono) (auto simp: min.coboundedI1)
  have top: "?s ! i \<le> ?s ! (?n - 1)" if "i < ?n" for i
    using that by (intro sorted_nth_mono) auto
  have elem: "?s ! i \<in> set (rmc_latency_history c)" if "i < ?n" for i
    using that nth_mem [of i ?s] by simp
  have "?s ! (?n - 1) = Max (set (rmc_latency_history c))"
  proof (rule Max_eqI [symmetric])
    fix y assume "y \<in> set (rmc_latency_history c)"
    then obtain i where "i < ?n" "y = ?s ! i" by (metis in_set_conv_nth length_sort set_sort)
    then show "y \<le> ?s ! (?n - 1)" using top by simp
  qed (use n elem in auto)
  then show ?thesis
    using some mono [OF conjunct1 [OF grows]] mono [OF conjunct2 [OF grows]] top [OF less_length] elem [OF less_length]
    by (simp add: get_latency_percentiles_def Let_def)
qed

definition sample_collector :: "duration list \<Rightarrow> int metrics_collector" where
  "sample_collector ds = fold (metrics_step sample_floats) (map (\<lambda>d. RmRead d True) ds) (metrics_collector_new sample_floats 0 0)"

lemma sample_history: "rmc_latency_history (sample_collector [30, 10, 20]) = [30, 10, 20]"
  by (simp add: sample_collector_def metrics_collector_new_def record_read_operation_def note_latency_def
      on_reliability_def push_bounded_def)

theorem percentiles_ordered_witness:
  "\<exists>p. p = get_latency_percentiles (\<lambda>p n. n * p div 100) (sample_collector [30, 10, 20])
     \<and> lpc_p50 p \<le> lpc_p95 p \<and> lpc_p95 p \<le> lpc_p99 p \<and> lpc_max p = 30"
proof -
  have "rmc_latency_history (sample_collector [30, 10, 20]) \<noteq> []" using sample_history by simp
  moreover have "n * 50 div 100 \<le> n * 95 div 100 \<and> n * 95 div 100 \<le> n * 99 div 100" for n :: nat
    by (intro conjI div_le_mono) simp_all
  ultimately show ?thesis
    using percentiles_ordered [where index = "\<lambda>p n. n * p div 100" and c = "sample_collector [30, 10, 20]"]
    by (simp only: sample_history) (simp del: One_nat_def)
qed

end
