(* ===== verification/Telemetry_Metrics.thy ===== *)
theory Telemetry_Metrics
  imports Clocks "HOL-Library.Finite_Map" "HOL-Library.Sublist"
begin

text \<open>
  The registry of metrics, \<^verbatim>\<open>src/kaelix-core/src/telemetry/metrics.rs\<close>: counters, gauges, histograms and
  summaries behind the trait \<open>MetricStorage\<close>, the bounded table of them and its own counters; and the
  registry of definitions, \<^verbatim>\<open>telemetry/registry.rs\<close>. A trait object is a value of a datatype with one
  constructor per implementation, the trait is the locale \<open>metric_storage\<close>. The bits of a stored
  floating-point number are the number itself; floating-point operations and clocks are arguments.
\<close>

section \<open>Keys, samples and statistics\<close>

record metric_key =
  mk_name :: string
  mk_labels :: "(string, string) fmap"

definition metric_key_new :: "string \<Rightarrow> metric_key" where
  "metric_key_new name = \<lparr>mk_name = name, mk_labels = fmempty\<rparr>"

definition key_with_label :: "string \<Rightarrow> string \<Rightarrow> metric_key \<Rightarrow> metric_key" where
  "key_with_label k v key = key\<lparr>mk_labels := fmupd k v (mk_labels key)\<rparr>"

datatype metric_type = MtCounter | MtGauge | MtHistogram | MtSummary

type_synonym labels = "(string, string) fmap option"

record 'f metric_sample =
  ms_value :: 'f
  ms_labels :: labels
  ms_timestamp :: instant

record 'f metric_statistics =
  mst_count :: u64
  mst_sum :: 'f
  mst_min :: 'f
  mst_max :: 'f
  mst_mean :: 'f
  mst_std_dev :: 'f

record 'f float_stats =
  fs_min :: "'f \<Rightarrow> 'f \<Rightarrow> 'f"
  fs_max :: "'f \<Rightarrow> 'f \<Rightarrow> 'f"
  fs_infinity :: 'f
  fs_neg_infinity :: 'f
  fs_square :: "'f \<Rightarrow> 'f"
  fs_sqrt :: "'f \<Rightarrow> 'f"

definition calculate_stats :: "'f float_ops \<Rightarrow> 'f float_stats \<Rightarrow> 'f list \<Rightarrow> 'f metric_statistics" where
  "calculate_stats fl fs vs =
     (let zero = fl_tenths fl 0; total_of = foldl (fl_add fl) zero in
      if vs = [] then \<lparr>mst_count = 0, mst_sum = zero, mst_min = zero, mst_max = zero, mst_mean = zero, mst_std_dev = zero\<rparr>
      else let s = total_of vs; n = fl_of_usize fl (length vs); mean = fl_div fl s n;
               variance = fl_div fl (total_of (map (\<lambda>x. fs_square fs (fl_sub fl x mean)) vs)) n
           in \<lparr>mst_count = of_nat (length vs), mst_sum = s, mst_min = foldl (fs_min fs) (fs_infinity fs) vs,
               mst_max = foldl (fs_max fs) (fs_neg_infinity fs) vs, mst_mean = mean, mst_std_dev = fs_sqrt fs variance\<rparr>)"

section \<open>The four storages\<close>

record 'f counter_storage =
  cst_value :: 'f
  cst_samples :: "'f metric_sample list"

definition counter_new :: "'f float_ops \<Rightarrow> 'f counter_storage" where
  "counter_new fl = \<lparr>cst_value = fl_tenths fl 0, cst_samples = []\<rparr>"

definition counter_record :: "'f float_ops \<Rightarrow> instant \<Rightarrow> 'f \<Rightarrow> labels \<Rightarrow> 'f counter_storage \<Rightarrow> 'f counter_storage" where
  "counter_record fl now v ls s =
     (let new_value = fl_add fl (cst_value s) v in
      s\<lparr>cst_value := new_value, cst_samples := cst_samples s @ [\<lparr>ms_value = new_value, ms_labels = ls, ms_timestamp = now\<rparr>]\<rparr>)"

definition counter_reset :: "'f float_ops \<Rightarrow> 'f counter_storage \<Rightarrow> 'f counter_storage" where
  "counter_reset fl s = s\<lparr>cst_value := fl_tenths fl 0, cst_samples := []\<rparr>"

record 'f gauge_storage =
  gst_value :: 'f
  gst_samples :: "'f metric_sample list"

definition gauge_new :: "'f float_ops \<Rightarrow> 'f gauge_storage" where
  "gauge_new fl = \<lparr>gst_value = fl_tenths fl 0, gst_samples = []\<rparr>"

definition gauge_record :: "instant \<Rightarrow> 'f \<Rightarrow> labels \<Rightarrow> 'f gauge_storage \<Rightarrow> 'f gauge_storage" where
  "gauge_record now v ls s =
     s\<lparr>gst_value := v, gst_samples := gst_samples s @ [\<lparr>ms_value = v, ms_labels = ls, ms_timestamp = now\<rparr>]\<rparr>"

definition gauge_reset :: "'f float_ops \<Rightarrow> 'f gauge_storage \<Rightarrow> 'f gauge_storage" where
  "gauge_reset fl s = s\<lparr>gst_value := fl_tenths fl 0, gst_samples := []\<rparr>"

text \<open>The least power of two that is not below a number; beyond \<open>2\<^sup>6\<^sup>3\<close> it wraps to 0.\<close>

definition next_power_of_two :: "u64 \<Rightarrow> u64" where
  "next_power_of_two w = (case find (\<lambda>p. w \<le> p) (map (\<lambda>k. 2 ^ k) [0..<64]) of Some p \<Rightarrow> p | None \<Rightarrow> 0)"

record 'f histogram_storage =
  hst_buckets :: "(string, u64) hash_map"
  hst_samples :: "'f metric_sample list"

definition histogram_storage_new :: "'f histogram_storage" where
  "histogram_storage_new = \<lparr>hst_buckets = [], hst_samples = []\<rparr>"

definition bucket_key :: "'f float_ops \<Rightarrow> 'f \<Rightarrow> string" where
  "bucket_key fl v = ''le_'' @ decimal (unat (next_power_of_two (fl_as_u64 fl v + 1)))"

definition histogram_storage_record :: "'f float_ops \<Rightarrow> instant \<Rightarrow> 'f \<Rightarrow> labels \<Rightarrow> 'f histogram_storage \<Rightarrow> 'f histogram_storage" where
  "histogram_storage_record fl now v ls s =
     s\<lparr>hst_buckets := hm_insert (bucket_key fl v) (hm_get_or 0 (hst_buckets s) (bucket_key fl v) + 1) (hst_buckets s),
       hst_samples := hst_samples s @ [\<lparr>ms_value = v, ms_labels = ls, ms_timestamp = now\<rparr>]\<rparr>"

definition histogram_storage_value :: "'f float_ops \<Rightarrow> 'f histogram_storage \<Rightarrow> 'f" where
  "histogram_storage_value fl s = fl_of_usize fl (unat (sum_list (map snd (hst_buckets s))))"

definition histogram_storage_reset :: "'f histogram_storage \<Rightarrow> 'f histogram_storage" where
  "histogram_storage_reset s = s\<lparr>hst_buckets := [], hst_samples := []\<rparr>"

record 'f summary_storage =
  sst_count :: u64
  sst_sum :: 'f
  sst_samples :: "'f metric_sample list"

definition summary_new :: "'f float_ops \<Rightarrow> 'f summary_storage" where
  "summary_new fl = \<lparr>sst_count = 0, sst_sum = fl_tenths fl 0, sst_samples = []\<rparr>"

definition summary_record :: "'f float_ops \<Rightarrow> instant \<Rightarrow> 'f \<Rightarrow> labels \<Rightarrow> 'f summary_storage \<Rightarrow> 'f summary_storage" where
  "summary_record fl now v ls s =
     s\<lparr>sst_count := sst_count s + 1, sst_sum := fl_add fl (sst_sum s) v,
       sst_samples := sst_samples s @ [\<lparr>ms_value = v, ms_labels = ls, ms_timestamp = now\<rparr>]\<rparr>"

definition summary_reset :: "'f float_ops \<Rightarrow> 'f summary_storage \<Rightarrow> 'f summary_storage" where
  "summary_reset fl s = s\<lparr>sst_count := 0, sst_sum := fl_tenths fl 0, sst_samples := []\<rparr>"

datatype 'f any_storage =
  StCounter "'f counter_storage" | StGauge "'f gauge_storage" | StHistogram "'f histogram_storage" | StSummary "'f summary_storage"

fun any_record :: "'f float_ops \<Rightarrow> instant \<Rightarrow> 'f \<Rightarrow> labels \<Rightarrow> 'f any_storage \<Rightarrow> 'f any_storage" where
  "any_record fl now v ls (StCounter s) = StCounter (counter_record fl now v ls s)"
| "any_record fl now v ls (StGauge s) = StGauge (gauge_record now v ls s)"
| "any_record fl now v ls (StHistogram s) = StHistogram (histogram_storage_record fl now v ls s)"
| "any_record fl now v ls (StSummary s) = StSummary (summary_record fl now v ls s)"

fun any_value :: "'f float_ops \<Rightarrow> 'f any_storage \<Rightarrow> 'f" where
  "any_value fl (StCounter s) = cst_value s"
| "any_value fl (StGauge s) = gst_value s"
| "any_value fl (StHistogram s) = histogram_storage_value fl s"
| "any_value fl (StSummary s) = sst_sum s"

fun any_reset :: "'f float_ops \<Rightarrow> 'f any_storage \<Rightarrow> 'f any_storage" where
  "any_reset fl (StCounter s) = StCounter (counter_reset fl s)"
| "any_reset fl (StGauge s) = StGauge (gauge_reset fl s)"
| "any_reset fl (StHistogram s) = StHistogram (histogram_storage_reset s)"
| "any_reset fl (StSummary s) = StSummary (summary_reset fl s)"

fun any_samples :: "'f any_storage \<Rightarrow> 'f metric_sample list" where
  "any_samples (StCounter s) = cst_samples s"
| "any_samples (StGauge s) = gst_samples s"
| "any_samples (StHistogram s) = hst_samples s"
| "any_samples (StSummary s) = sst_samples s"

fun any_type :: "'f any_storage \<Rightarrow> metric_type" where
  "any_type (StCounter _) = MtCounter"
| "any_type (StGauge _) = MtGauge"
| "any_type (StHistogram _) = MtHistogram"
| "any_type (StSummary _) = MtSummary"

section \<open>The registry\<close>

record metrics_limits =
  mcg_enabled :: bool
  mcg_collection_interval_ms :: u64
  mcg_max_metric_keys :: usize
  mcg_retention_seconds :: u64
  mcg_targets :: "string list"

definition metrics_limits_default :: metrics_limits where
  "metrics_limits_default =
     \<lparr>mcg_enabled = True, mcg_collection_interval_ms = 1000, mcg_max_metric_keys = 100000, mcg_retention_seconds = 3600,
      mcg_targets = [''prometheus'']\<rparr>"

record collection_metrics =
  cme_records_processed :: u64
  cme_record_time_ns :: u64
  cme_registry_lookups :: u64
  cme_failed_operations :: u64

definition collection_metrics_default :: collection_metrics where
  "collection_metrics_default =
     \<lparr>cme_records_processed = 0, cme_record_time_ns = 0, cme_registry_lookups = 0, cme_failed_operations = 0\<rparr>"

record 'f metrics_registry =
  mrg_metrics :: "(metric_key, 'f any_storage) hash_map"
  mrg_collection_metrics :: collection_metrics
  mrg_overhead_per_op_ns :: u64
  mrg_config :: metrics_limits
  mrg_created_at :: instant

datatype telemetry_error = CapacityExceededT string | MetricAlreadyExists string | FamilyAlreadyExists string
| MetricNotFound string | FamilyNotFound string | InvalidMetricName string

definition metrics_registry_new :: "instant \<Rightarrow> metrics_limits \<Rightarrow> 'f metrics_registry" where
  "metrics_registry_new now c =
     \<lparr>mrg_metrics = [], mrg_collection_metrics = collection_metrics_default, mrg_overhead_per_op_ns = 0, mrg_config = c,
      mrg_created_at = now\<rparr>"

definition determine_metric_type :: "metric_key \<Rightarrow> metric_type" where
  "determine_metric_type key =
     (let name = mk_name key in
      if suffix ''_total'' name \<or> suffix ''_count'' name then MtCounter
      else if sublist ''_duration'' name \<or> sublist ''_latency'' name then MtHistogram
      else if sublist ''_ratio'' name \<or> sublist ''_percent'' name then MtSummary
      else MtGauge)"

fun storage_for :: "'f float_ops \<Rightarrow> metric_type \<Rightarrow> 'f any_storage" where
  "storage_for fl MtCounter = StCounter (counter_new fl)"
| "storage_for fl MtGauge = StGauge (gauge_new fl)"
| "storage_for fl MtHistogram = StHistogram histogram_storage_new"
| "storage_for fl MtSummary = StSummary (summary_new fl)"

abbreviation on_collection :: "(collection_metrics \<Rightarrow> collection_metrics) \<Rightarrow> 'f metrics_registry \<Rightarrow> 'f metrics_registry" where
  "on_collection f r \<equiv> r\<lparr>mrg_collection_metrics := f (mrg_collection_metrics r)\<rparr>"

definition create_new_metric ::
  "'f float_ops \<Rightarrow> metric_key \<Rightarrow> 'f metrics_registry \<Rightarrow> 'f metrics_registry \<times> ('f any_storage, telemetry_error) result" where
  "create_new_metric fl key r =
     (if length (mrg_metrics r) \<ge> mcg_max_metric_keys (mrg_config r)
      then (on_collection (\<lambda>c. c\<lparr>cme_failed_operations := cme_failed_operations c + 1\<rparr>) r,
            Err (CapacityExceededT (''Maximum metric keys exceeded: '' @ decimal (mcg_max_metric_keys (mrg_config r)))))
      else let s = storage_for fl (determine_metric_type key)
           in (r\<lparr>mrg_metrics := hm_insert key s (mrg_metrics r)\<rparr>, Ok s))"

definition get_or_create_storage ::
  "'f float_ops \<Rightarrow> metric_key \<Rightarrow> 'f metrics_registry \<Rightarrow> 'f metrics_registry \<times> ('f any_storage, telemetry_error) result" where
  "get_or_create_storage fl key r =
     (case hm_get (mrg_metrics r) key of
        Some s \<Rightarrow> (on_collection (\<lambda>c. c\<lparr>cme_registry_lookups := cme_registry_lookups c + 1\<rparr>) r, Ok s)
      | None \<Rightarrow> create_new_metric fl key r)"

definition registry_record ::
  "'f float_ops \<Rightarrow> instant \<times> u64 \<Rightarrow> metric_key \<Rightarrow> 'f \<Rightarrow> labels \<Rightarrow> 'f metrics_registry
     \<Rightarrow> 'f metrics_registry \<times> (unit, telemetry_error) result" where
  "registry_record fl clk key v ls r =
     (case get_or_create_storage fl key r of
        (r1, Ok s) \<Rightarrow>
          (on_collection (\<lambda>c. c\<lparr>cme_records_processed := cme_records_processed c + 1,
                               cme_record_time_ns := cme_record_time_ns c + snd clk\<rparr>) r1
             \<lparr>mrg_metrics := hm_insert key (any_record fl (fst clk) v ls s) (mrg_metrics r1)\<rparr>, Ok ())
      | (r1, Err e) \<Rightarrow> (r1, Err e)
      | (r1, Panic) \<Rightarrow> (r1, Panic))"

definition get_metric_type :: "metric_key \<Rightarrow> 'f metrics_registry \<Rightarrow> metric_type option" where
  "get_metric_type key r = map_option any_type (hm_get (mrg_metrics r) key)"

definition registry_memory_usage :: "'f metrics_registry \<Rightarrow> usize" where
  "registry_memory_usage r = length (mrg_metrics r) * 1024"

record metrics_registry_stats =
  mrs_total_metrics :: usize
  mrs_memory_usage :: usize
  mrs_uptime :: duration

definition metrics_registry_stats_of :: "instant \<Rightarrow> 'f metrics_registry \<Rightarrow> metrics_registry_stats" where
  "metrics_registry_stats_of now r =
     \<lparr>mrs_total_metrics = length (mrg_metrics r), mrs_memory_usage = registry_memory_usage r,
      mrs_uptime = now - mrg_created_at r\<rparr>"

record collector_snapshot =
  csn_total_records :: u64
  csn_total_time_ns :: u64
  csn_avg_record_time_ns :: u64
  csn_overhead_per_op_ns :: u64
  csn_registry_lookups :: u64
  csn_failed_operations :: u64
  csn_uptime :: duration
  csn_last_collection :: "instant option"
  csn_avg_collection_time :: u64

definition get_performance_metrics :: "instant \<Rightarrow> 'f metrics_registry \<Rightarrow> collector_snapshot" where
  "get_performance_metrics now r =
     (let c = mrg_collection_metrics r;
          avg = (if cme_records_processed c > 0 then cme_record_time_ns c div cme_records_processed c else 0)
      in \<lparr>csn_total_records = cme_records_processed c, csn_total_time_ns = cme_record_time_ns c, csn_avg_record_time_ns = avg,
          csn_overhead_per_op_ns = mrg_overhead_per_op_ns r, csn_registry_lookups = cme_registry_lookups c,
          csn_failed_operations = cme_failed_operations c, csn_uptime = now - mrg_created_at r, csn_last_collection = None,
          csn_avg_collection_time = avg\<rparr>)"

definition reset_all :: "'f float_ops \<Rightarrow> 'f metrics_registry \<Rightarrow> 'f metrics_registry" where
  "reset_all fl r = r\<lparr>mrg_metrics := map (\<lambda>(k, s). (k, any_reset fl s)) (mrg_metrics r)\<rparr>"

section \<open>The contract of a storage\<close>

locale metric_storage =
  fixes put :: "instant \<Rightarrow> 'f \<Rightarrow> labels \<Rightarrow> 's \<Rightarrow> 's"
    and samples :: "'s \<Rightarrow> 'f metric_sample list"
    and wipe :: "'s \<Rightarrow> 's"
    and kind :: "'s \<Rightarrow> metric_type"
  assumes put_samples: "\<exists>x. samples (put now v ls s) = samples s @ [x] \<and> ms_timestamp x = now \<and> ms_labels x = ls"
    and put_kind: "kind (put now v ls s) = kind s"
    and wipe_samples: "samples (wipe s) = []"
    and wipe_kind: "kind (wipe s) = kind s"
begin

definition put_all :: "(instant \<times> 'f \<times> labels) list \<Rightarrow> 's \<Rightarrow> 's" where
  "put_all xs s = fold (\<lambda>(now, v, ls). put now v ls) xs s"

lemma put_all_samples:
  "map ms_timestamp (samples (put_all xs s)) = map ms_timestamp (samples s) @ map fst xs \<and> kind (put_all xs s) = kind s"
proof (induction xs arbitrary: s)
  case (Cons x xs)
  obtain now v ls where x: "x = (now, v, ls)" by (cases x)
  obtain y where "samples (put now v ls s) = samples s @ [y]" "ms_timestamp y = now" using put_samples by blast
  then show ?case using Cons.IH [of "put now v ls s"] by (simp add: put_all_def x put_kind)
qed (simp add: put_all_def)

end

interpretation counter: metric_storage "counter_record fl" cst_samples "counter_reset fl" "\<lambda>_. MtCounter"
  by unfold_locales (simp_all add: counter_record_def counter_reset_def Let_def)

interpretation gauge: metric_storage gauge_record gst_samples "gauge_reset fl" "\<lambda>_. MtGauge"
  by unfold_locales (simp_all add: gauge_record_def gauge_reset_def)

interpretation histogram: metric_storage "histogram_storage_record fl" hst_samples histogram_storage_reset "\<lambda>_. MtHistogram"
  by unfold_locales (simp_all add: histogram_storage_record_def histogram_storage_reset_def)

interpretation summary: metric_storage "summary_record fl" sst_samples "summary_reset fl" "\<lambda>_. MtSummary"
  by unfold_locales (simp_all add: summary_record_def summary_reset_def)

interpretation anyst: metric_storage "any_record fl" any_samples "any_reset fl" any_type
proof
  fix now v ls and s :: "'a any_storage"
  show "\<exists>x. any_samples (any_record fl now v ls s) = any_samples s @ [x] \<and> ms_timestamp x = now \<and> ms_labels x = ls"
    using counter.put_samples gauge.put_samples histogram.put_samples summary.put_samples by (cases s) auto
  show "any_type (any_record fl now v ls s) = any_type s" by (cases s) simp_all
  show "any_samples (any_reset fl s) = []"
    using counter.wipe_samples gauge.wipe_samples histogram.wipe_samples summary.wipe_samples by (cases s) auto
  show "any_type (any_reset fl s) = any_type s" by (cases s) simp_all
qed

section \<open>What each storage keeps\<close>

lemma update_sum:
  "sum_list (map snd (AList.update k (hm_get_or 0 m k + 1) m)) = sum_list (map snd m) + (1 :: u64)" if "distinct (map fst m)"
  using that
proof (induction m)
  case (Cons x m)
  obtain a b where x: "x = (a, b)" by fastforce
  show ?case
  proof (cases "a = k")
    case False
    then show ?thesis using Cons by (auto simp: x hm_get_or_def algebra_simps)
  qed (simp add: x hm_get_or_def)
qed (simp add: hm_get_or_def)

fun storage_counts :: "'f any_storage \<Rightarrow> bool" where
  "storage_counts (StHistogram s) \<longleftrightarrow> hm_ok (hst_buckets s)
     \<and> sum_list (map snd (hst_buckets s)) = of_nat (length (hst_samples s))"
| "storage_counts (StSummary s) \<longleftrightarrow> sst_count s = of_nat (length (sst_samples s))"
| "storage_counts _ \<longleftrightarrow> True"

lemma record_counts: "storage_counts s \<Longrightarrow> storage_counts (any_record fl now v ls s)"
  by (cases s) (auto simp: histogram_storage_record_def summary_record_def hm_insert_def hm_ok_def distinct_update update_sum)

lemma reset_counts: "storage_counts (any_reset fl s)"
  by (cases s) (simp_all add: histogram_storage_reset_def summary_reset_def)

lemma new_storage: "any_samples (storage_for fl t) = [] \<and> any_type (storage_for fl t) = t \<and> storage_counts (storage_for fl t)"
  by (cases t) (simp_all add: counter_new_def gauge_new_def histogram_storage_new_def summary_new_def)

text \<open>The value of a histogram is the number of its samples, up to the wrap of 64 bits.\<close>

lemma histogram_counts_samples:
  "storage_counts (StHistogram s) \<Longrightarrow> histogram_storage_value fl s = fl_of_usize fl (length (hst_samples s) mod 2 ^ 64)"
  by (simp add: histogram_storage_value_def unat_of_nat take_bit_eq_mod)

section \<open>The registry refines a bounded table of histories\<close>

datatype 'f metrics_registry_op = RgRecord "instant \<times> u64" metric_key 'f labels | RgReset | RgType metric_key

type_synonym registry_answer = "(metric_type option, telemetry_error) result"

fun metrics_registry_step :: "'f float_ops \<Rightarrow> 'f metrics_registry_op \<Rightarrow> 'f metrics_registry \<Rightarrow> 'f metrics_registry \<times> registry_answer" where
  "metrics_registry_step fl (RgRecord clk key v ls) r =
     (case registry_record fl clk key v ls r of (r', x) \<Rightarrow> (r', and_then x (\<lambda>_. Ok None)))"
| "metrics_registry_step fl RgReset r = (reset_all fl r, Ok None)"
| "metrics_registry_step fl (RgType key) r = (r, Ok (get_metric_type key r))"

fun table_step :: "usize \<Rightarrow> 'f metrics_registry_op \<Rightarrow> (metric_key \<Rightarrow> instant list option) \<Rightarrow> (metric_key \<Rightarrow> instant list option) \<times> registry_answer" where
  "table_step k (RgRecord clk key v ls) h =
     (case h key of
        Some ts \<Rightarrow> (h(key \<mapsto> ts @ [fst clk]), Ok None)
      | None \<Rightarrow> if k \<le> card (dom h) then (h, Err (CapacityExceededT (''Maximum metric keys exceeded: '' @ decimal k)))
                else (h(key \<mapsto> [fst clk]), Ok None))"
| "table_step k RgReset h = (\<lambda>key. map_option (\<lambda>_. []) (h key), Ok None)"
| "table_step k (RgType key) h = (h, Ok (map_option (\<lambda>_. determine_metric_type key) (h key)))"

definition keeps_times :: "metric_key \<Rightarrow> instant list \<Rightarrow> 'f any_storage \<Rightarrow> bool" where
  "keeps_times key ts s \<longleftrightarrow> map ms_timestamp (any_samples s) = ts \<and> any_type s = determine_metric_type key \<and> storage_counts s"

lemma keeps_times_record:
  assumes "keeps_times key ts s"
  shows "keeps_times key (ts @ [now]) (any_record fl now v ls s)"
proof -
  obtain x where "any_samples (any_record fl now v ls s) = any_samples s @ [x]" "ms_timestamp x = now"
    using anyst.put_samples [of fl now v ls s] by auto
  with assms show ?thesis by (auto simp: keeps_times_def anyst.put_kind record_counts)
qed

lemma keeps_times_new: "keeps_times key [] (storage_for fl (determine_metric_type key))"
  using new_storage by (simp add: keeps_times_def)

lemma keeps_times_reset: "keeps_times key ts s \<Longrightarrow> keeps_times key [] (any_reset fl s)"
  by (simp add: keeps_times_def anyst.wipe_samples anyst.wipe_kind reset_counts)

definition tabulates :: "usize \<Rightarrow> (metric_key \<Rightarrow> instant list option) \<Rightarrow> 'f metrics_registry \<Rightarrow> bool" where
  "tabulates k h r \<longleftrightarrow> mcg_max_metric_keys (mrg_config r) = k \<and> hm_ok (mrg_metrics r)
     \<and> (\<forall>key. rel_option (keeps_times key) (h key) (map_of (mrg_metrics r) key))"

lemma tabulates_dom:
  assumes "tabulates k h r"
  shows "card (dom h) = length (mrg_metrics r)"
proof -
  have "h key = None \<longleftrightarrow> map_of (mrg_metrics r) key = None" for key
    using assms unfolding tabulates_def by (metis option.rel_sel)
  then have "dom h = dom (map_of (mrg_metrics r))" by (auto simp: dom_def)
  moreover have "card (set (map fst (mrg_metrics r))) = length (mrg_metrics r)"
    using assms distinct_card [of "map fst (mrg_metrics r)"] by (simp add: tabulates_def hm_ok_def)
  ultimately show ?thesis by (simp add: dom_map_of_conv_image_fst)
qed

lemma tabulates_update:
  assumes "tabulates k h r" "keeps_times key ts s"
  shows "tabulates k (h(key \<mapsto> ts)) (r\<lparr>mrg_collection_metrics := c, mrg_metrics := hm_insert key s (mrg_metrics r)\<rparr>)"
  using assms by (auto simp: tabulates_def)

lemma tabulates_collection: "tabulates k h r \<Longrightarrow> tabulates k h (r\<lparr>mrg_collection_metrics := c\<rparr>)"
  by (simp add: tabulates_def)

lemma record_simulates:
  assumes "tabulates k h r"
  shows "snd (metrics_registry_step fl (RgRecord clk key v ls) r) = snd (table_step k (RgRecord clk key v ls) h)
    \<and> tabulates k (fst (table_step k (RgRecord clk key v ls) h)) (fst (metrics_registry_step fl (RgRecord clk key v ls) r))"
proof (cases "map_of (mrg_metrics r) key")
  case (Some s)
  then obtain ts where ts: "h key = Some ts" "keeps_times key ts s"
    using assms unfolding tabulates_def by (metis option.rel_cases option.distinct(1) option.inject)
  from tabulates_update [OF assms keeps_times_record [OF ts(2)]] show ?thesis
    by (simp add: registry_record_def get_or_create_storage_def Some ts(1))
next
  case None
  then have h: "h key = None" using assms unfolding tabulates_def by (metis option.rel_distinct(2) option.exhaust)
  have kmax: "mcg_max_metric_keys (mrg_config r) = k" using assms by (simp add: tabulates_def)
  show ?thesis
  proof (cases "k \<le> length (mrg_metrics r)")
    case True
    then show ?thesis
      using tabulates_collection [OF assms]
      by (simp add: registry_record_def get_or_create_storage_def create_new_metric_def None h kmax tabulates_dom [OF assms])
  next
    case False
    let ?s = "storage_for fl (determine_metric_type key)"
    have made: "tabulates k (h(key \<mapsto> [])) (r\<lparr>mrg_metrics := hm_insert key ?s (mrg_metrics r)\<rparr>)"
      using tabulates_update [OF assms keeps_times_new [of key fl], where c = "mrg_collection_metrics r"] by simp
    have "keeps_times key [fst clk] (any_record fl (fst clk) v ls ?s)"
      using keeps_times_record [OF keeps_times_new, of key "fst clk" fl v ls fl] by simp
    from tabulates_update [OF made this] show ?thesis
      using False
      by (simp add: registry_record_def get_or_create_storage_def create_new_metric_def None h kmax tabulates_dom [OF assms]
          Let_def)
  qed
qed

lemma metrics_registry_simulates:
  assumes "tabulates k h r"
  shows "snd (metrics_registry_step fl x r) = snd (table_step k x h) \<and> tabulates k (fst (table_step k x h)) (fst (metrics_registry_step fl x r))"
proof (cases x)
  case (RgRecord clk key v ls)
  then show ?thesis using record_simulates [OF assms] by simp
next
  case RgReset
  have "map_of (mrg_metrics (reset_all fl r)) key = map_option (any_reset fl) (map_of (mrg_metrics r) key)" for key
    by (simp add: reset_all_def map_of_map)
  moreover have "hm_ok (mrg_metrics (reset_all fl r))" "mrg_config (reset_all fl r) = mrg_config r"
    using assms by (simp_all add: tabulates_def reset_all_def hm_ok_def case_prod_unfold comp_def)
  moreover have "rel_option (keeps_times key) (map_option (\<lambda>_. []) (h key)) (map_option (any_reset fl) (map_of (mrg_metrics r) key))" for key
    using assms unfolding tabulates_def option.rel_map by (blast intro: option.rel_mono_strong keeps_times_reset)
  ultimately show ?thesis using assms RgReset by (simp add: tabulates_def)
next
  case (RgType key)
  have "rel_option (keeps_times key) (h key) (map_of (mrg_metrics r) key)" using assms by (simp add: tabulates_def)
  then have "get_metric_type key r = map_option (\<lambda>_. determine_metric_type key) (h key)"
    by (cases "h key"; cases "map_of (mrg_metrics r) key") (auto simp: get_metric_type_def keeps_times_def)
  then show ?thesis using assms RgType by simp
qed

interpretation reg: relational_refinement "tabulates k" "metrics_registry_step fl" "table_step k"
  by unfold_locales (rule metrics_registry_simulates)

text \<open>
  C29: The registry refines a table of histories with at most the configured number of keys: a known key is
  always recorded, a new one is refused exactly when the table is full, and a reset empties the
  histories and keeps the keys. Each storage holds one sample per recording since then, and a histogram
  counts as many values as it holds samples.
\<close>

theorem registry_refines_table:
  "snd (run_ops (metrics_registry_step fl) ops (metrics_registry_new now c))
     = snd (run_ops (table_step (mcg_max_metric_keys c)) ops Map.empty)
   \<and> tabulates (mcg_max_metric_keys c) (fst (run_ops (table_step (mcg_max_metric_keys c)) ops Map.empty))
       (fst (run_ops (metrics_registry_step fl) ops (metrics_registry_new now c)))"
proof -
  have "tabulates (mcg_max_metric_keys c) Map.empty (metrics_registry_new now c)"
    by (simp add: tabulates_def metrics_registry_new_def)
  from reg.run_related [OF this] show ?thesis by blast
qed

section \<open>Concurrent recordings of a counter\<close>

text \<open>
  \<open>CounterStorage::record\<close> loads the value, adds to it and stores the sum, without a lock: two threads can
  load the same value. A thread's load and its store with the recorded value are the steps.
\<close>

datatype 'f counter_event = CeLoad nat | CeStore nat 'f instant

fun counter_event_step ::
  "'f float_ops \<Rightarrow> 'f counter_event \<Rightarrow> (nat \<Rightarrow> 'f) \<times> 'f counter_storage \<Rightarrow> (nat \<Rightarrow> 'f) \<times> 'f counter_storage" where
  "counter_event_step fl (CeLoad t) (loaded, s) = (loaded(t := cst_value s), s)"
| "counter_event_step fl (CeStore t v now) (loaded, s) =
     (let new_value = fl_add fl (loaded t) v in
      (loaded, s\<lparr>cst_value := new_value,
                 cst_samples := cst_samples s @ [\<lparr>ms_value = new_value, ms_labels = None, ms_timestamp = now\<rparr>]\<rparr>))"

text \<open>
  Undisturbed, load and store are the recording; where a second thread loads before the first has stored,
  the first recording is lost from the value although both are among the samples.
\<close>

theorem counter_lost_update:
  "snd (fold (counter_event_step fl) [CeLoad t, CeStore t v now] (loaded, s)) = counter_record fl now v None s"
  "t \<noteq> u \<Longrightarrow>
     cst_value (snd (fold (counter_event_step fl) [CeLoad t, CeLoad u, CeStore t v now, CeStore u w later] (loaded, s)))
       = fl_add fl (cst_value s) w
   \<and> length (cst_samples (snd (fold (counter_event_step fl) [CeLoad t, CeLoad u, CeStore t v now, CeStore u w later] (loaded, s))))
       = length (cst_samples s) + 2"
  by (simp_all add: counter_record_def Let_def)

end
