(* ===== verification/Telemetry_Registry.thy ===== *)
theory Telemetry_Registry
  imports Telemetry_Metrics
begin

text \<open>
  The registry of metric definitions, \<^verbatim>\<open>src/kaelix-core/src/telemetry/registry.rs\<close>, with the keys of
  \<^verbatim>\<open>telemetry/mod.rs\<close>. The order in which a key prints its labels and the sizes of types in memory are
  arguments.
\<close>

section \<open>Definitions and families\<close>

record metric_definition =
  mdf_key :: metric_key
  mdf_metric_type :: metric_type
  mdf_description :: string
  mdf_unit :: "string option"
  mdf_labels :: "string list"
  mdf_created_at :: system_time
  mdf_metadata :: "(string, string) hash_map"

record metric_family =
  mfa_name :: string
  mfa_description :: string
  mfa_metric_type :: metric_type
  mfa_metrics :: "metric_key list"
  mfa_created_at :: system_time

definition type_from_key :: "metric_key \<Rightarrow> metric_type" where
  "type_from_key key =
     (let name = mk_name key in
      if suffix ''_total'' name \<or> suffix ''_count'' name then MtCounter
      else if sublist ''_histogram'' name \<or> sublist ''_bucket'' name then MtHistogram
      else if sublist ''_summary'' name \<or> sublist ''_quantile'' name then MtSummary
      else MtGauge)"

fun default_unit :: "metric_type \<Rightarrow> string option" where
  "default_unit MtCounter = Some ''total''"
| "default_unit MtGauge = None"
| "default_unit MtHistogram = Some ''seconds''"
| "default_unit MtSummary = Some ''seconds''"

definition metric_definition_new :: "system_time \<Rightarrow> metric_key \<Rightarrow> metric_type \<Rightarrow> string \<Rightarrow> metric_definition" where
  "metric_definition_new now key t description =
     \<lparr>mdf_key = key, mdf_metric_type = t, mdf_description = description, mdf_unit = default_unit t, mdf_labels = [],
      mdf_created_at = now, mdf_metadata = []\<rparr>"

definition definition_with_label :: "string \<Rightarrow> metric_definition \<Rightarrow> metric_definition" where
  "definition_with_label l d = d\<lparr>mdf_labels := mdf_labels d @ [l]\<rparr>"

definition definition_with_unit :: "string \<Rightarrow> metric_definition \<Rightarrow> metric_definition" where
  "definition_with_unit u d = d\<lparr>mdf_unit := Some u\<rparr>"

definition definition_with_metadata :: "string \<Rightarrow> string \<Rightarrow> metric_definition \<Rightarrow> metric_definition" where
  "definition_with_metadata k v d = d\<lparr>mdf_metadata := hm_insert k v (mdf_metadata d)\<rparr>"

definition metric_family_new :: "system_time \<Rightarrow> string \<Rightarrow> string \<Rightarrow> metric_type \<Rightarrow> metric_family" where
  "metric_family_new now name description t =
     \<lparr>mfa_name = name, mfa_description = description, mfa_metric_type = t, mfa_metrics = [], mfa_created_at = now\<rparr>"

definition family_add_metric :: "metric_key \<Rightarrow> metric_family \<Rightarrow> metric_family" where
  "family_add_metric key f = (if key \<in> set (mfa_metrics f) then f else f\<lparr>mfa_metrics := mfa_metrics f @ [key]\<rparr>)"

definition family_remove_metric :: "metric_key \<Rightarrow> metric_family \<Rightarrow> metric_family" where
  "family_remove_metric key f = f\<lparr>mfa_metrics := filter (\<lambda>k. k \<noteq> key) (mfa_metrics f)\<rparr>"

section \<open>The registry\<close>

record definition_stats =
  dst_total_metrics :: u64
  dst_total_families :: u64
  dst_registration_count :: u64
  dst_lookup_count :: u64
  dst_memory_usage_bytes :: u64

record definition_registry =
  drg_metrics :: "(metric_key, metric_definition) hash_map"
  drg_families :: "(string, metric_family) hash_map"
  drg_config :: metrics_limits
  drg_stats :: definition_stats

definition definition_registry_new :: "metrics_limits \<Rightarrow> definition_registry" where
  "definition_registry_new c =
     \<lparr>drg_metrics = [], drg_families = [], drg_config = c,
      drg_stats = \<lparr>dst_total_metrics = 0, dst_total_families = 0, dst_registration_count = 0, dst_lookup_count = 0,
                   dst_memory_usage_bytes = 0\<rparr>\<rparr>"

definition register_metric ::
  "(metric_key \<Rightarrow> string) \<Rightarrow> metric_definition \<Rightarrow> definition_registry \<Rightarrow> definition_registry \<times> (unit, telemetry_error) result" where
  "register_metric shown d r =
     (if hm_get (drg_metrics r) (mdf_key d) \<noteq> None then (r, Err (MetricAlreadyExists (shown (mdf_key d))))
      else (r\<lparr>drg_metrics := hm_insert (mdf_key d) d (drg_metrics r),
              drg_stats := (drg_stats r)\<lparr>dst_total_metrics := dst_total_metrics (drg_stats r) + 1,
                dst_registration_count := dst_registration_count (drg_stats r) + 1\<rparr>\<rparr>, Ok ()))"

definition get_metric_definition :: "metric_key \<Rightarrow> definition_registry \<Rightarrow> definition_registry \<times> metric_definition option" where
  "get_metric_definition key r =
     (r\<lparr>drg_stats := (drg_stats r)\<lparr>dst_lookup_count := dst_lookup_count (drg_stats r) + 1\<rparr>\<rparr>, hm_get (drg_metrics r) key)"

definition list_metrics :: "definition_registry \<Rightarrow> metric_key list" where
  "list_metrics r = hm_keys (drg_metrics r)"

definition register_family :: "metric_family \<Rightarrow> definition_registry \<Rightarrow> definition_registry \<times> (unit, telemetry_error) result" where
  "register_family f r =
     (if hm_get (drg_families r) (mfa_name f) \<noteq> None then (r, Err (FamilyAlreadyExists (mfa_name f)))
      else (r\<lparr>drg_families := hm_insert (mfa_name f) f (drg_families r),
              drg_stats := (drg_stats r)\<lparr>dst_total_families := dst_total_families (drg_stats r) + 1\<rparr>\<rparr>, Ok ()))"

definition get_family :: "string \<Rightarrow> definition_registry \<Rightarrow> metric_family option" where
  "get_family name r = hm_get (drg_families r) name"

definition list_families :: "definition_registry \<Rightarrow> string list" where
  "list_families r = hm_keys (drg_families r)"

definition unregister_metric ::
  "(metric_key \<Rightarrow> string) \<Rightarrow> metric_key \<Rightarrow> definition_registry \<Rightarrow> definition_registry \<times> (unit, telemetry_error) result" where
  "unregister_metric shown key r =
     (if hm_get (drg_metrics r) key \<noteq> None
      then (r\<lparr>drg_metrics := hm_remove key (drg_metrics r),
              drg_stats := (drg_stats r)\<lparr>dst_total_metrics := dst_total_metrics (drg_stats r) - 1\<rparr>\<rparr>, Ok ())
      else (r, Err (MetricNotFound (shown key))))"

definition unregister_family :: "string \<Rightarrow> definition_registry \<Rightarrow> definition_registry \<times> (unit, telemetry_error) result" where
  "unregister_family name r =
     (if hm_get (drg_families r) name \<noteq> None
      then (r\<lparr>drg_families := hm_remove name (drg_families r),
              drg_stats := (drg_stats r)\<lparr>dst_total_families := dst_total_families (drg_stats r) - 1\<rparr>\<rparr>, Ok ())
      else (r, Err (FamilyNotFound name)))"

definition registry_clear :: "definition_registry \<Rightarrow> definition_registry" where
  "registry_clear r =
     r\<lparr>drg_metrics := [], drg_families := [],
       drg_stats := (drg_stats r)\<lparr>dst_total_metrics := 0, dst_total_families := 0\<rparr>\<rparr>"

definition search_metrics :: "string \<Rightarrow> definition_registry \<Rightarrow> metric_key list" where
  "search_metrics pattern r = filter (\<lambda>k. sublist pattern (mk_name k)) (hm_keys (drg_metrics r))"

definition get_metrics_by_type :: "metric_type \<Rightarrow> definition_registry \<Rightarrow> metric_key list" where
  "get_metrics_by_type t r = map fst (filter (\<lambda>(k, d). mdf_metric_type d = t) (drg_metrics r))"

definition validate_definition :: "metric_definition \<Rightarrow> (unit, telemetry_error) result" where
  "validate_definition d =
     (if mk_name (mdf_key d) = [] then Err (InvalidMetricName ''Empty metric name'')
      else if mdf_description d = [] then Err (InvalidMetricName ''Empty description'')
      else if list_ex (\<lambda>l. l = []) (mdf_labels d) then Err (InvalidMetricName ''Empty label'')
      else Ok ())"

record type_sizes =
  tsz_registry :: u64
  tsz_key :: u64
  tsz_arc :: u64
  tsz_definition :: u64
  tsz_string :: u64
  tsz_family :: u64

definition calculate_memory_usage :: "type_sizes \<Rightarrow> definition_registry \<Rightarrow> u64" where
  "calculate_memory_usage sz r =
     tsz_registry sz + of_nat (length (drg_metrics r)) * (tsz_key sz + tsz_arc sz + tsz_definition sz)
     + of_nat (length (drg_families r)) * (tsz_string sz + tsz_family sz)"

definition definition_stats_of :: "type_sizes \<Rightarrow> definition_registry \<Rightarrow> definition_stats" where
  "definition_stats_of sz r = (drg_stats r)\<lparr>dst_memory_usage_bytes := calculate_memory_usage sz r\<rparr>"

section \<open>The counters count\<close>

datatype definition_op =
  DrRegister metric_definition | DrUnregister metric_key | DrLookup metric_key | DrFamily metric_family | DrDropFamily string | DrClear

fun definition_step :: "(metric_key \<Rightarrow> string) \<Rightarrow> definition_op \<Rightarrow> definition_registry \<Rightarrow> definition_registry" where
  "definition_step shown (DrRegister d) r = fst (register_metric shown d r)"
| "definition_step shown (DrUnregister key) r = fst (unregister_metric shown key r)"
| "definition_step shown (DrLookup key) r = fst (get_metric_definition key r)"
| "definition_step shown (DrFamily f) r = fst (register_family f r)"
| "definition_step shown (DrDropFamily name) r = fst (unregister_family name r)"
| "definition_step shown DrClear r = registry_clear r"

definition definitions_ok :: "definition_registry \<Rightarrow> bool" where
  "definitions_ok r \<longleftrightarrow> hm_ok (drg_metrics r) \<and> hm_ok (drg_families r)
     \<and> dst_total_metrics (drg_stats r) = of_nat (length (drg_metrics r))
     \<and> dst_total_families (drg_stats r) = of_nat (length (drg_families r))
     \<and> (\<forall>(key, d) \<in> set (drg_metrics r). mdf_key d = key) \<and> (\<forall>(name, f) \<in> set (drg_families r). mfa_name f = name)"

lemma in_insert: "(a, b) \<in> set (hm_insert k v m) \<Longrightarrow> (a, b) = (k, v) \<or> (a, b) \<in> set m"
  by (induction m) (auto simp: hm_insert_def split: if_splits)

lemma in_remove: "(a, b) \<in> set (hm_remove k m) \<Longrightarrow> (a, b) \<in> set m"
  by (auto simp: hm_remove_def AList.delete_eq)

lemma definitions_ok_new: "definitions_ok (definition_registry_new c)"
  by (simp add: definitions_ok_def definition_registry_new_def)

lemma definition_register_ok: "definitions_ok r \<Longrightarrow> definitions_ok (fst (register_metric shown d r))"
  by (auto simp: definitions_ok_def register_metric_def hm_length_insert dest: in_insert)

lemma register_family_ok: "definitions_ok r \<Longrightarrow> definitions_ok (fst (register_family f r))"
  by (auto simp: definitions_ok_def register_family_def hm_length_insert dest: in_insert)

lemma definition_unregister_ok:
  assumes "definitions_ok r"
  shows "definitions_ok (fst (unregister_metric shown key r))"
proof (cases "map_of (drg_metrics r) key")
  case (Some d)
  have "length (drg_metrics r) = Suc (length (hm_remove key (drg_metrics r)))"
    using assms Some by (intro hm_length_remove) (auto simp: definitions_ok_def)
  then show ?thesis using assms Some by (auto simp: definitions_ok_def unregister_metric_def dest: in_remove)
qed (use assms in \<open>simp add: unregister_metric_def\<close>)

lemma unregister_family_ok:
  assumes "definitions_ok r"
  shows "definitions_ok (fst (unregister_family name r))"
proof (cases "map_of (drg_families r) name")
  case (Some d)
  have "length (drg_families r) = Suc (length (hm_remove name (drg_families r)))"
    using assms Some by (intro hm_length_remove) (auto simp: definitions_ok_def)
  then show ?thesis using assms Some by (auto simp: definitions_ok_def unregister_family_def dest: in_remove)
qed (use assms in \<open>simp add: unregister_family_def\<close>)

lemma lookup_ok: "definitions_ok r \<Longrightarrow> definitions_ok (fst (get_metric_definition key r))"
  by (simp add: definitions_ok_def get_metric_definition_def)

lemma clear_ok: "definitions_ok (registry_clear r)"
  by (simp add: definitions_ok_def registry_clear_def)

lemma definition_step_ok: "definitions_ok r \<Longrightarrow> definitions_ok (definition_step shown x r)"
  by (cases x) (simp_all add: definition_register_ok register_family_ok definition_unregister_ok unregister_family_ok lookup_ok clear_ok)

lemma fold_definitions_ok: "definitions_ok r \<Longrightarrow> definitions_ok (fold (definition_step shown) xs r)"
  by (induction xs arbitrary: r) (simp_all add: definition_step_ok)

text \<open>
  However metrics and families are registered, dropped and looked up, the counters are the numbers of
  entries, and every definition is filed under its own key.
\<close>

theorem definition_registry_consistent:
  "definitions_ok (fold (definition_step shown) xs (definition_registry_new c))"
  by (rule fold_definitions_ok [OF definitions_ok_new])

lemma register_then_get:
  assumes "register_metric shown d r = (r', Ok ())"
  shows "snd (get_metric_definition (mdf_key d) r') = Some d \<and> map_of (drg_metrics r) (mdf_key d) = None"
  using assms by (auto simp: register_metric_def get_metric_definition_def split: if_splits)

text \<open>
  The two modules classify a key by its name differently: what the registry of values keeps as a histogram
  is a gauge to the registry of definitions.
\<close>

lemma classification_differs:
  "determine_metric_type (metric_key_new ''request_latency'') = MtHistogram
   \<and> type_from_key (metric_key_new ''request_latency'') = MtGauge"
  by (simp add: determine_metric_type_def type_from_key_def metric_key_new_def Let_def suffix_def sublist_code)

text \<open>The check of a definition is not part of its registration.\<close>

lemma invalid_definition_registered:
  "snd (register_metric shown (metric_definition_new now (metric_key_new []) t []) (definition_registry_new c)) = Ok ()
   \<and> validate_definition (metric_definition_new now (metric_key_new []) t []) = Err (InvalidMetricName ''Empty metric name'')"
  by (simp add: register_metric_def definition_registry_new_def validate_definition_def metric_definition_new_def metric_key_new_def)

end
