(* ===== verification/Telemetry_Tracing.thy ===== *)
theory Telemetry_Tracing
  imports Clocks "HOL-Library.Multiset"
begin

text \<open>
  Tracing and logging, \<^verbatim>\<open>src/kaelix-core/src/telemetry/tracing.rs\<close> and \<^verbatim>\<open>logging.rs\<close>: samplers, traces and
  their spans, the bounded span buffer and the logging system. A span that two places hold is a value
  with the number of its holders, because the timeout of a trace only changes spans with one holder.
  Identifiers, the sampler's floating-point computation, clocks, sizes in memory and the outcome of sending into a
  channel are arguments.
\<close>

section \<open>Spans and samplers\<close>

datatype span_status = SpActive | SpOk | SpError string | SpCancelled | SpTimeout

record span_log =
  slg_timestamp :: system_time
  slg_message :: string
  slg_level :: string
  slg_fields :: "(string, string) hash_map"

record span =
  spn_span_id :: u64
  spn_parent_span_id :: "u64 option"
  spn_trace_id :: u128
  spn_operation_name :: string
  spn_start_time :: system_time
  spn_end_time :: "system_time option"
  spn_tags :: "(string, string) hash_map"
  spn_logs :: "span_log list"
  spn_status :: span_status

datatype 'f sampler = AlwaysOnSampler | AlwaysOffSampler | PercentageSampler 'f

definition percentage_sampler_new :: "'f float_ops \<Rightarrow> 'f \<Rightarrow> 'f sampler" where
  "percentage_sampler_new fl rate = PercentageSampler (fl_clamp fl (fl_tenths fl 0) (fl_tenths fl 10) rate)"

fun sampler_sample :: "'f float_ops \<Rightarrow> (u128 \<Rightarrow> 'f) \<Rightarrow> 'f sampler \<Rightarrow> u128 \<Rightarrow> bool" where
  "sampler_sample fl fraction AlwaysOnSampler i = True"
| "sampler_sample fl fraction AlwaysOffSampler i = False"
| "sampler_sample fl fraction (PercentageSampler rate) i = fl_less fl (fraction i) rate"

fun sampling_rate :: "'f float_ops \<Rightarrow> 'f sampler \<Rightarrow> 'f" where
  "sampling_rate fl AlwaysOnSampler = fl_tenths fl 10"
| "sampling_rate fl AlwaysOffSampler = fl_tenths fl 0"
| "sampling_rate fl (PercentageSampler rate) = rate"

datatype 'f trace_sampling = SgAlwaysOn | SgAlwaysOff | SgPercentage 'f | SgRateLimit u64 | SgAdaptive

fun create_sampler :: "'f float_ops \<Rightarrow> 'f trace_sampling \<Rightarrow> 'f sampler" where
  "create_sampler fl SgAlwaysOn = AlwaysOnSampler"
| "create_sampler fl SgAlwaysOff = AlwaysOffSampler"
| "create_sampler fl (SgPercentage rate) = percentage_sampler_new fl rate"
| "create_sampler fl (SgRateLimit _) = percentage_sampler_new fl (fl_tenths fl 1)"
| "create_sampler fl SgAdaptive = percentage_sampler_new fl (fl_tenths fl 1)"

section \<open>The span buffer\<close>

record span_buffer =
  sbf_spans :: "span list"
  sbf_capacity :: usize
  sbf_bytes_used :: usize

definition span_buffer_new :: "usize \<Rightarrow> span_buffer" where
  "span_buffer_new capacity = \<lparr>sbf_spans = [], sbf_capacity = capacity, sbf_bytes_used = 0\<rparr>"

definition span_push :: "usize \<Rightarrow> span \<Rightarrow> span_buffer \<Rightarrow> span_buffer \<times> bool" where
  "span_push span_size s b =
     (if length (sbf_spans b) < sbf_capacity b
      then (b\<lparr>sbf_bytes_used := sbf_bytes_used b + (span_size + length (spn_operation_name s) + length (spn_tags s) * 64),
              sbf_spans := sbf_spans b @ [s]\<rparr>, True)
      else (b, False))"

definition span_drain :: "span_buffer \<Rightarrow> span_buffer \<times> span list" where
  "span_drain b = (b\<lparr>sbf_spans := [], sbf_bytes_used := 0\<rparr>, sbf_spans b)"

section \<open>The tracing system\<close>

record trace_context =
  tcx_trace_id :: u128
  tcx_root_span :: span
  tcx_spans :: "(u64, span \<times> nat) hash_map"
  tcx_created_at :: instant
  tcx_completed :: bool

record tracing_metrics =
  trm_traces_started :: u64
  trm_traces_completed :: u64
  trm_spans_started :: u64
  trm_spans_completed :: u64
  trm_spans_sampled :: u64
  trm_spans_exported :: u64
  trm_export_failures :: u64
  trm_active_traces :: u64
  trm_active_spans :: u64

definition tracing_metrics_default :: tracing_metrics where
  "tracing_metrics_default =
     \<lparr>trm_traces_started = 0, trm_traces_completed = 0, trm_spans_started = 0, trm_spans_completed = 0,
      trm_spans_sampled = 0, trm_spans_exported = 0, trm_export_failures = 0, trm_active_traces = 0, trm_active_spans = 0\<rparr>"

record 'f tracing_settings =
  tcs_enabled :: bool
  tcs_sampling_strategy :: "'f trace_sampling"
  tcs_max_span_duration_ms :: u64
  tcs_max_active_traces :: usize
  tcs_batch_size :: usize
  tcs_export_endpoint :: "string option"

definition tracing_settings_default :: "'f float_ops \<Rightarrow> 'f tracing_settings" where
  "tracing_settings_default fl =
     \<lparr>tcs_enabled = True, tcs_sampling_strategy = SgPercentage (fl_tenths fl 1), tcs_max_span_duration_ms = 30000,
      tcs_max_active_traces = 1000, tcs_batch_size = 100, tcs_export_endpoint = None\<rparr>"

record 'f tracing_system =
  trs_config :: "'f tracing_settings"
  trs_active_traces :: "(u128, trace_context) hash_map"
  trs_span_buffer :: span_buffer
  trs_metrics :: tracing_metrics
  trs_sampler :: "'f sampler"
  trs_export_enabled :: bool

datatype tracing_error = TracingFailed string

definition tracing_system_new :: "'f float_ops \<Rightarrow> 'f tracing_settings \<Rightarrow> 'f tracing_system" where
  "tracing_system_new fl c =
     \<lparr>trs_config = c, trs_active_traces = [], trs_span_buffer = span_buffer_new (tcs_batch_size c),
      trs_metrics = tracing_metrics_default, trs_sampler = create_sampler fl (tcs_sampling_strategy c),
      trs_export_enabled = False\<rparr>"

definition start_trace ::
  "'f float_ops \<Rightarrow> (u128 \<Rightarrow> 'f) \<Rightarrow> u128 \<times> u64 \<Rightarrow> system_time \<times> instant \<Rightarrow> string \<Rightarrow> 'f tracing_system
     \<Rightarrow> 'f tracing_system \<times> (trace_context, tracing_error) result" where
  "start_trace fl fraction ids clk operation t =
     (case ids of (trace_id, span_id) \<Rightarrow>
        if \<not> sampler_sample fl fraction (trs_sampler t) trace_id then (t, Err (TracingFailed ''Trace not sampled''))
        else
          let root = \<lparr>spn_span_id = span_id, spn_parent_span_id = None, spn_trace_id = trace_id, spn_operation_name = operation,
                      spn_start_time = fst clk, spn_end_time = None, spn_tags = [], spn_logs = [], spn_status = SpActive\<rparr>;
              ctx = \<lparr>tcx_trace_id = trace_id, tcx_root_span = root, tcx_spans = hm_insert span_id (root, 2) [],
                     tcx_created_at = snd clk, tcx_completed = False\<rparr>;
              m = trs_metrics t
          in (t\<lparr>trs_active_traces := hm_insert trace_id ctx (trs_active_traces t),
                trs_metrics := m\<lparr>trm_traces_started := trm_traces_started m + 1, trm_spans_started := trm_spans_started m + 1,
                  trm_spans_sampled := trm_spans_sampled m + 1, trm_active_traces := trm_active_traces m + 1,
                  trm_active_spans := trm_active_spans m + 1\<rparr>\<rparr>, Ok ctx))"

definition export_span :: "usize \<Rightarrow> span \<Rightarrow> 'f tracing_system \<Rightarrow> 'f tracing_system \<times> (unit, tracing_error) result" where
  "export_span span_size s t =
     (let m = trs_metrics t in
      case span_push span_size s (trs_span_buffer t) of
        (b, True) \<Rightarrow> (t\<lparr>trs_span_buffer := b, trs_metrics := m\<lparr>trm_spans_exported := trm_spans_exported m + 1\<rparr>\<rparr>, Ok ())
      | (b, False) \<Rightarrow> (t\<lparr>trs_span_buffer := b, trs_metrics := m\<lparr>trm_export_failures := trm_export_failures m + 1\<rparr>\<rparr>,
                     Err (TracingFailed ''Span buffer full'')))"

fun export_spans :: "usize \<Rightarrow> span list \<Rightarrow> 'f tracing_system \<Rightarrow> 'f tracing_system \<times> (unit, tracing_error) result" where
  "export_spans span_size [] t = (t, Ok ())"
| "export_spans span_size (s # ss) t =
     (case export_span span_size s t of (t1, Ok _) \<Rightarrow> export_spans span_size ss t1 | (t1, x) \<Rightarrow> (t1, x))"

definition finish_trace ::
  "usize \<Rightarrow> u128 \<Rightarrow> 'f tracing_system \<Rightarrow> 'f tracing_system \<times> (unit, tracing_error) result" where
  "finish_trace span_size i t =
     (case hm_get (trs_active_traces t) i of
        None \<Rightarrow> (t, Err (TracingFailed (''Trace not found: '' @ decimal (unat i))))
      | Some ctx \<Rightarrow>
          (case export_spans span_size (map (fst \<circ> snd) (tcx_spans ctx))
                  (t\<lparr>trs_active_traces := hm_remove i (trs_active_traces t)\<rparr>) of
             (t1, Ok _) \<Rightarrow>
               let m = trs_metrics t1 in
               (t1\<lparr>trs_metrics := m\<lparr>trm_traces_completed := trm_traces_completed m + 1,
                    trm_active_traces := trm_active_traces m - 1\<rparr>\<rparr>, Ok ())
           | (t1, x) \<Rightarrow> (t1, x)))"

definition time_out_span :: "system_time \<Rightarrow> span \<times> nat \<Rightarrow> span \<times> nat" where
  "time_out_span now x =
     (case x of (s, holders) \<Rightarrow>
        if holders = 1 then (s\<lparr>spn_status := SpTimeout, spn_end_time := Some now\<rparr>, holders) else (s, holders))"

definition time_out_trace :: "system_time \<Rightarrow> trace_context \<Rightarrow> trace_context" where
  "time_out_trace now ctx =
     ctx\<lparr>tcx_completed := True, tcx_spans := map (\<lambda>(i, x). (i, time_out_span now x)) (tcx_spans ctx)\<rparr>"

definition expired_traces :: "instant \<Rightarrow> 'f tracing_system \<Rightarrow> u128 list" where
  "expired_traces now t =
     map fst (filter (\<lambda>(i, ctx). now - tcx_created_at ctx > duration_from_millis (tcs_max_span_duration_ms (trs_config t)))
       (trs_active_traces t))"

text \<open>The contexts that leave the table are part of the answer: whoever holds one still sees it.\<close>

definition cleanup_expired_traces ::
  "instant \<times> system_time \<Rightarrow> 'f tracing_system \<Rightarrow> 'f tracing_system \<times> usize \<times> trace_context list" where
  "cleanup_expired_traces clk t =
     (let gone = expired_traces (fst clk) t; m = trs_metrics t in
      (t\<lparr>trs_active_traces := fold hm_remove gone (trs_active_traces t),
         trs_metrics := m\<lparr>trm_active_traces := trm_active_traces m - of_nat (length gone)\<rparr>\<rparr>, length gone,
       map (time_out_trace (snd clk)) (List.map_filter (hm_get (trs_active_traces t)) gone)))"

definition trace_flush :: "'f tracing_system \<Rightarrow> 'f tracing_system \<times> span list" where
  "trace_flush t = (case span_drain (trs_span_buffer t) of (b, ss) \<Rightarrow> (t\<lparr>trs_span_buffer := b\<rparr>, ss))"

definition tracing_shutdown :: "usize \<Rightarrow> 'f tracing_system \<Rightarrow> 'f tracing_system" where
  "tracing_shutdown span_size t =
     fst (trace_flush (fold (\<lambda>i t. fst (finish_trace span_size i t)) (hm_keys (trs_active_traces t)) t))"

definition tracing_memory_usage :: "usize \<Rightarrow> usize \<Rightarrow> 'f tracing_system \<Rightarrow> usize" where
  "tracing_memory_usage system_size entry_size t =
     system_size + length (trs_active_traces t) * entry_size + sbf_bytes_used (trs_span_buffer t)"

section \<open>Logging\<close>

datatype log_level = LlTrace | LlDebug | LlInfo | LlWarn | LlError

datatype text_format = LfText | LfJson | LfBinary

record logging_settings =
  lgs_enabled :: bool
  lgs_level :: log_level
  lgs_format :: text_format
  lgs_file_path :: "string option"
  lgs_rotation_size_mb :: u64
  lgs_max_files :: u32

definition logging_settings_default :: logging_settings where
  "logging_settings_default =
     \<lparr>lgs_enabled = True, lgs_level = LlInfo, lgs_format = LfJson, lgs_file_path = None, lgs_rotation_size_mb = 100,
      lgs_max_files = 10\<rparr>"

fun show_log_level :: "log_level \<Rightarrow> string" where
  "show_log_level LlTrace = ''TRACE''"
| "show_log_level LlDebug = ''DEBUG''"
| "show_log_level LlInfo = ''INFO''"
| "show_log_level LlWarn = ''WARN''"
| "show_log_level LlError = ''ERROR''"

fun level_priority :: "log_level \<Rightarrow> nat" where
  "level_priority LlError = 5"
| "level_priority LlWarn = 4"
| "level_priority LlInfo = 3"
| "level_priority LlDebug = 2"
| "level_priority LlTrace = 1"

record log_entry_text =
  let_level :: log_level
  let_target :: string
  let_message :: string
  let_fields :: "(string, string) hash_map"
  let_timestamp :: instant
  let_thread_id :: string

definition log_entry_text_new :: "instant \<Rightarrow> string \<Rightarrow> log_level \<Rightarrow> string \<Rightarrow> string \<Rightarrow> log_entry_text" where
  "log_entry_text_new now thread level target message =
     \<lparr>let_level = level, let_target = target, let_message = message, let_fields = [], let_timestamp = now, let_thread_id = thread\<rparr>"

definition with_field :: "string \<Rightarrow> string \<Rightarrow> log_entry_text \<Rightarrow> log_entry_text" where
  "with_field k v e = e\<lparr>let_fields := hm_insert k v (let_fields e)\<rparr>"

definition with_fields :: "(string, string) hash_map \<Rightarrow> log_entry_text \<Rightarrow> log_entry_text" where
  "with_fields fs e = e\<lparr>let_fields := foldl (\<lambda>m (k, v). hm_insert k v m) (let_fields e) fs\<rparr>"

definition quoted :: "string \<Rightarrow> string" where
  "quoted s = [CHR 0x22] @ s @ [CHR 0x22]"

definition format_entry :: "instant \<Rightarrow> text_format \<Rightarrow> log_entry_text \<Rightarrow> string" where
  "format_entry now f e =
     (let ms = decimal ((now - let_timestamp e) div 1000000); level = show_log_level (let_level e) in
      case f of
        LfJson \<Rightarrow> ''{'' @ quoted ''level'' @ '':'' @ quoted level @ '','' @ quoted ''target'' @ '':'' @ quoted (let_target e)
                  @ '','' @ quoted ''message'' @ '':'' @ quoted (let_message e)
                  @ '','' @ quoted ''timestamp'' @ '':'' @ quoted ms @ ''}''
      | LfText \<Rightarrow> ''['' @ ms @ ''] '' @ level @ '' '' @ let_target e @ '': '' @ let_message e
      | LfBinary \<Rightarrow> level @ ''|'' @ let_target e @ ''|'' @ let_message e @ ''|'' @ ms)"

record logging_metrics =
  lgm_entries_processed :: u64
  lgm_entries_dropped :: u64
  lgm_formatting_errors :: u64
  lgm_bytes_written :: u64
  lgm_flush_operations :: u64

definition logging_metrics_default :: logging_metrics where
  "logging_metrics_default =
     \<lparr>lgm_entries_processed = 0, lgm_entries_dropped = 0, lgm_formatting_errors = 0, lgm_bytes_written = 0,
      lgm_flush_operations = 0\<rparr>"

text \<open>
  The channel of a logging system: whether its receiver still exists, and what was sent. \<open>new\<close> binds the
  receiver to a local variable, which is dropped when \<open>new\<close> returns.
\<close>

record logging_system =
  lsy_config :: logging_settings
  lsy_receiver_alive :: bool
  lsy_sent :: "log_entry_text list"
  lsy_metrics :: logging_metrics

definition logging_system_new :: "logging_settings \<Rightarrow> logging_system" where
  "logging_system_new c = \<lparr>lsy_config = c, lsy_receiver_alive = False, lsy_sent = [], lsy_metrics = logging_metrics_default\<rparr>"

definition should_log :: "log_level \<Rightarrow> logging_system \<Rightarrow> bool" where
  "should_log level s \<longleftrightarrow> level_priority level \<ge> level_priority (lgs_level (lsy_config s))"

definition log_with_fields ::
  "instant \<Rightarrow> string \<Rightarrow> log_level \<Rightarrow> string \<Rightarrow> string \<Rightarrow> (string, string) hash_map \<Rightarrow> logging_system \<Rightarrow> logging_system" where
  "log_with_fields now thread level target message fs s =
     (if \<not> lgs_enabled (lsy_config s) \<or> \<not> should_log level s then s
      else let m = lsy_metrics s; e = with_fields fs (log_entry_text_new now thread level target message) in
        if lsy_receiver_alive s
        then s\<lparr>lsy_sent := lsy_sent s @ [e], lsy_metrics := m\<lparr>lgm_entries_processed := lgm_entries_processed m + 1\<rparr>\<rparr>
        else s\<lparr>lsy_metrics := m\<lparr>lgm_entries_dropped := lgm_entries_dropped m + 1\<rparr>\<rparr>)"

definition log_message :: "instant \<Rightarrow> string \<Rightarrow> log_level \<Rightarrow> string \<Rightarrow> string \<Rightarrow> logging_system \<Rightarrow> logging_system" where
  "log_message now thread level target message s = log_with_fields now thread level target message [] s"

definition log_flush :: "logging_system \<Rightarrow> logging_system" where
  "log_flush s = s\<lparr>lsy_metrics := (lsy_metrics s)\<lparr>lgm_flush_operations := lgm_flush_operations (lsy_metrics s) + 1\<rparr>\<rparr>"

datatype logging_health = LogHealthy | LogUnhealthy string

definition logging_check_health :: "'f float_ops \<Rightarrow> logging_system \<Rightarrow> logging_health" where
  "logging_check_health fl s =
     (let m = lsy_metrics s in
      if lgm_entries_dropped m > 0 \<and> lgm_entries_processed m > 0
       \<and> fl_less fl (fl_tenths fl 1) (fl_div fl (fl_of_usize fl (unat (lgm_entries_dropped m))) (fl_of_usize fl (unat (lgm_entries_processed m))))
      then LogUnhealthy ''High log drop rate'' else LogHealthy)"

section \<open>Every log entry is dropped\<close>

datatype log_op = LogCall instant string log_level string string "(string, string) hash_map" | LogFlush

fun log_step :: "log_op \<Rightarrow> logging_system \<Rightarrow> logging_system" where
  "log_step (LogCall now thread level target message fs) s = log_with_fields now thread level target message fs s"
| "log_step LogFlush s = log_flush s"

fun is_logged :: "logging_settings \<Rightarrow> log_op \<Rightarrow> bool" where
  "is_logged c (LogCall now thread level target message fs) \<longleftrightarrow>
     lgs_enabled c \<and> level_priority level \<ge> level_priority (lgs_level c)"
| "is_logged c LogFlush \<longleftrightarrow> False"

definition drops_entries :: "logging_settings \<Rightarrow> nat \<Rightarrow> logging_system \<Rightarrow> bool" where
  "drops_entries c n s \<longleftrightarrow> lsy_config s = c \<and> \<not> lsy_receiver_alive s \<and> lsy_sent s = [] \<and> lgm_entries_processed (lsy_metrics s) = 0
     \<and> lgm_entries_dropped (lsy_metrics s) = of_nat n"

lemma drops_step: "drops_entries c n s \<Longrightarrow> drops_entries c (n + (if is_logged c x then 1 else 0)) (log_step x s)"
  by (cases x) (auto simp: drops_entries_def log_with_fields_def should_log_def log_flush_def Let_def)

lemma drops_run: "drops_entries c n s \<Longrightarrow> drops_entries c (n + length (filter (is_logged c) xs)) (fold log_step xs s)"
proof (induction xs arbitrary: n s)
  case (Cons x xs)
  show ?case using Cons.IH [OF drops_step [OF Cons.prems, of x]] by (simp split: if_splits)
qed simp

text \<open>
  A logging system delivers nothing: after any sequence of calls no entry was sent, every call above the
  level was counted as dropped, and the health check, which compares the dropped entries with the
  processed ones only where there are processed ones, reports a healthy system.
\<close>

theorem logging_drops_everything:
  "lsy_sent (fold log_step xs (logging_system_new c)) = []
   \<and> lgm_entries_dropped (lsy_metrics (fold log_step xs (logging_system_new c))) = of_nat (length (filter (is_logged c) xs))
   \<and> logging_check_health fl (fold log_step xs (logging_system_new c)) = LogHealthy"
proof -
  have "drops_entries c 0 (logging_system_new c)" by (simp add: drops_entries_def logging_system_new_def logging_metrics_default_def)
  from drops_run [OF this, of xs] show ?thesis by (simp add: drops_entries_def logging_check_health_def)
qed

text \<open>Nothing is escaped in the text of an entry, so that different entries have the same JSON text.\<close>

lemma json_ambiguous:
  "format_entry now LfJson (log_entry_text_new t th level x (y @ quoted '','' @ ''message'' @ quoted '':'' @ z))
     = format_entry now LfJson (log_entry_text_new t th level (x @ quoted '','' @ ''message'' @ quoted '':'' @ y) z)"
  by (simp add: format_entry_def log_entry_text_new_def quoted_def Let_def)

section \<open>The counters of the tracing system\<close>

lemma export_span_effect:
  assumes "export_span z s t = (t', r)"
  shows "trs_active_traces t' = trs_active_traces t \<and> trs_config t' = trs_config t \<and> trs_sampler t' = trs_sampler t
    \<and> trm_active_traces (trs_metrics t') = trm_active_traces (trs_metrics t)
    \<and> trm_traces_started (trs_metrics t') = trm_traces_started (trs_metrics t)
    \<and> trm_active_spans (trs_metrics t') = trm_active_spans (trs_metrics t)
    \<and> trm_spans_completed (trs_metrics t') = trm_spans_completed (trs_metrics t)"
  using assms by (auto simp: export_span_def Let_def split: prod.splits bool.splits)

lemma export_spans_effect:
  "export_spans z ss t = (t', r) \<Longrightarrow>
    trs_active_traces t' = trs_active_traces t \<and> trs_config t' = trs_config t \<and> trs_sampler t' = trs_sampler t
    \<and> trm_active_traces (trs_metrics t') = trm_active_traces (trs_metrics t)
    \<and> trm_traces_started (trs_metrics t') = trm_traces_started (trs_metrics t)
    \<and> trm_active_spans (trs_metrics t') = trm_active_spans (trs_metrics t)
    \<and> trm_spans_completed (trs_metrics t') = trm_spans_completed (trs_metrics t)"
proof (induction ss arbitrary: t)
  case (Cons s ss)
  obtain t1 q where q: "export_span z s t = (t1, q)" by fastforce
  show ?case
  proof (cases q)
    case (Ok u)
    then show ?thesis using Cons.IH [of t1] Cons.prems q export_span_effect [OF q] by simp
  qed (use Cons.prems q export_span_effect [OF q] in auto)
qed simp

lemma buffer_bounded:
  "length (sbf_spans b) \<le> sbf_capacity b \<Longrightarrow>
     length (sbf_spans (fst (span_push z s b))) \<le> sbf_capacity (fst (span_push z s b))
   \<and> sbf_capacity (fst (span_push z s b)) = sbf_capacity b"
  by (simp add: span_push_def)

datatype trace_op = ToStart "u128 \<times> u64" "system_time \<times> instant" string | ToFinish u128 | ToCleanup "instant \<times> system_time" | ToFlush

fun trace_step ::
  "'f float_ops \<Rightarrow> (u128 \<Rightarrow> 'f) \<Rightarrow> usize \<Rightarrow> trace_op \<Rightarrow> 'f tracing_system \<Rightarrow> 'f tracing_system" where
  "trace_step fl fraction z (ToStart ids clk operation) t = fst (start_trace fl fraction ids clk operation t)"
| "trace_step fl fraction z (ToFinish i) t = fst (finish_trace z i t)"
| "trace_step fl fraction z (ToCleanup clk) t = fst (cleanup_expired_traces clk t)"
| "trace_step fl fraction z ToFlush t = fst (trace_flush t)"

fun starts_trace :: "'f float_ops \<Rightarrow> (u128 \<Rightarrow> 'f) \<Rightarrow> trace_op \<Rightarrow> 'f tracing_system \<Rightarrow> bool" where
  "starts_trace fl fraction (ToStart ids clk operation) t \<longleftrightarrow> sampler_sample fl fraction (trs_sampler t) (fst ids)"
| "starts_trace fl fraction _ t \<longleftrightarrow> False"

fun loses_trace :: "usize \<Rightarrow> trace_op \<Rightarrow> 'f tracing_system \<Rightarrow> bool" where
  "loses_trace z (ToFinish i) t \<longleftrightarrow> map_of (trs_active_traces t) i \<noteq> None \<and> \<not> is_ok (snd (finish_trace z i t))"
| "loses_trace z _ t \<longleftrightarrow> False"

fun trace_ids_fresh :: "trace_op \<Rightarrow> 'f tracing_system \<Rightarrow> bool" where
  "trace_ids_fresh (ToStart ids clk operation) t \<longleftrightarrow> map_of (trs_active_traces t) (fst ids) = None"
| "trace_ids_fresh _ t \<longleftrightarrow> True"

definition traced :: "nat \<Rightarrow> nat \<Rightarrow> 'f tracing_system \<Rightarrow> bool" where
  "traced started lost t \<longleftrightarrow> hm_ok (trs_active_traces t)
     \<and> trm_traces_started (trs_metrics t) = of_nat started
     \<and> trm_active_spans (trs_metrics t) = of_nat started
     \<and> trm_spans_completed (trs_metrics t) = 0
     \<and> trm_active_traces (trs_metrics t) = of_nat (length (trs_active_traces t) + lost)"

lemma traced_start:
  assumes "traced n k t" "map_of (trs_active_traces t) (fst ids) = None"
  shows "traced (n + (if sampler_sample fl fraction (trs_sampler t) (fst ids) then 1 else 0)) k
    (fst (start_trace fl fraction ids clk operation t))"
  using assms by (cases ids) (simp add: traced_def start_trace_def Let_def hm_length_insert)

lemma traced_finish:
  assumes "traced n k t"
  shows "traced n (k + (if loses_trace z (ToFinish i) t then 1 else 0)) (fst (finish_trace z i t))"
proof (cases "map_of (trs_active_traces t) i")
  case (Some ctx)
  let ?t = "t\<lparr>trs_active_traces := hm_remove i (trs_active_traces t)\<rparr>"
  obtain t1 q where q: "export_spans z (map (fst \<circ> snd) (tcx_spans ctx)) ?t = (t1, q)" by fastforce
  have ok: "hm_ok (trs_active_traces t)" using assms by (simp add: traced_def)
  have len: "length (trs_active_traces t) = Suc (length (hm_remove i (trs_active_traces t)))"
    using hm_length_remove [OF ok] Some by simp
  note eff = export_spans_effect [OF q]
  show ?thesis using assms Some q eff len ok
    by (cases q) (simp_all add: traced_def finish_trace_def Let_def)
qed (use assms in \<open>simp add: finish_trace_def\<close>)

lemma remove_all_length:
  "hm_ok m \<Longrightarrow> distinct ks \<Longrightarrow> set ks \<subseteq> dom (map_of m) \<Longrightarrow>
     hm_ok (fold hm_remove ks m) \<and> length m = length (fold hm_remove ks m) + length ks"
proof (induction ks arbitrary: m)
  case (Cons k ks)
  have "length m = Suc (length (hm_remove k m))" using Cons.prems by (intro hm_length_remove) auto
  with Cons.IH [of "hm_remove k m"] Cons.prems show ?case by (auto simp: subset_iff domIff split: if_splits)
qed simp

lemma traced_cleanup:
  assumes "traced n k t"
  shows "traced n k (fst (cleanup_expired_traces clk t))"
proof -
  let ?gone = "expired_traces (fst clk) t"
  have ok: "hm_ok (trs_active_traces t)" using assms by (simp add: traced_def)
  then have "distinct ?gone" by (simp add: hm_ok_def expired_traces_def distinct_map_filter)
  moreover have "set ?gone \<subseteq> dom (map_of (trs_active_traces t))"
    by (auto simp: expired_traces_def dom_map_of_conv_image_fst)
  ultimately show ?thesis using assms remove_all_length [OF ok, of ?gone]
    by (simp add: traced_def cleanup_expired_traces_def Let_def)
qed

lemma traced_step:
  assumes "traced n k t" "trace_ids_fresh x t"
  shows "traced (n + (if starts_trace fl fraction x t then 1 else 0)) (k + (if loses_trace z x t then 1 else 0))
    (trace_step fl fraction z x t)"
proof (cases x)
  case (ToStart ids clk operation)
  then show ?thesis using traced_start [OF assms(1), of ids fl fraction clk operation] assms(2) by simp
next
  case (ToFinish i)
  then show ?thesis using traced_finish [OF assms(1), of z i] by simp
next
  case (ToCleanup clk)
  then show ?thesis using traced_cleanup [OF assms(1)] by simp
next
  case ToFlush
  then show ?thesis using assms(1) by (simp add: traced_def trace_flush_def span_drain_def)
qed

fun trace_run ::
  "'f float_ops \<Rightarrow> (u128 \<Rightarrow> 'f) \<Rightarrow> usize \<Rightarrow> trace_op list \<Rightarrow> nat \<times> nat \<times> 'f tracing_system \<Rightarrow> nat \<times> nat \<times> 'f tracing_system" where
  "trace_run fl fraction z [] s = s"
| "trace_run fl fraction z (x # xs) (n, k, t) =
     trace_run fl fraction z xs
       (n + (if starts_trace fl fraction x t then 1 else 0), k + (if loses_trace z x t then 1 else 0), trace_step fl fraction z x t)"

fun run_fresh :: "'f float_ops \<Rightarrow> (u128 \<Rightarrow> 'f) \<Rightarrow> usize \<Rightarrow> trace_op list \<Rightarrow> 'f tracing_system \<Rightarrow> bool" where
  "run_fresh fl fraction z [] t \<longleftrightarrow> True"
| "run_fresh fl fraction z (x # xs) t \<longleftrightarrow> trace_ids_fresh x t \<and> run_fresh fl fraction z xs (trace_step fl fraction z x t)"

lemma traced_run:
  "traced n k t \<Longrightarrow> run_fresh fl fraction z xs t \<Longrightarrow> trace_run fl fraction z xs (n, k, t) = (n', k', t') \<Longrightarrow> traced n' k' t'"
proof (induction xs arbitrary: n k t)
  case (Cons x xs)
  have "trace_ids_fresh x t" "run_fresh fl fraction z xs (trace_step fl fraction z x t)" using Cons.prems(2) by simp_all
  from Cons.IH [OF traced_step [OF Cons.prems(1) this(1), of fl fraction z] this(2)] Cons.prems(3) show ?case by simp
qed simp

text \<open>
  The number of active traces the system reports is the number of traces in its table and the number of
  traces it lost: finishing a trace while the span buffer is full takes it out of the table and leaves it
  counted as active for ever. The number of active spans never goes down.
\<close>

theorem active_traces_drift:
  assumes "run_fresh fl fraction z xs (tracing_system_new fl c)"
    and "trace_run fl fraction z xs (0, 0, tracing_system_new fl c) = (started, lost, t)"
  shows "trm_active_traces (trs_metrics t) = of_nat (length (trs_active_traces t) + lost)
    \<and> trm_active_spans (trs_metrics t) = of_nat started \<and> trm_traces_started (trs_metrics t) = of_nat started"
proof -
  have "traced 0 0 (tracing_system_new fl c)" by (simp add: traced_def tracing_system_new_def tracing_metrics_default_def)
  from traced_run [OF this assms] show ?thesis by (simp add: traced_def)
qed

definition tiny_tracing :: "int tracing_settings" where
  "tiny_tracing = (tracing_settings_default sample_floats)\<lparr>tcs_sampling_strategy := SgAlwaysOn, tcs_batch_size := 0\<rparr>"

theorem active_traces_drift_witness:
  "\<exists>t. trace_run sample_floats (\<lambda>i. 0) 1 [ToStart (7, 1) (0, 0) ''op'', ToFinish 7] (0, 0, tracing_system_new sample_floats tiny_tracing)
         = (1, 1, t)
     \<and> trs_active_traces t = [] \<and> trm_active_traces (trs_metrics t) = 1"
proof -
  let ?xs = "[ToStart (7, 1) (0, 0) ''op'', ToFinish 7]" and ?t = "tracing_system_new sample_floats tiny_tracing"
  obtain t where run: "trace_run sample_floats (\<lambda>i. 0) 1 ?xs (0, 0, ?t) = (1, 1, t)" "trs_active_traces t = []"
    by (simp add: tracing_system_new_def tiny_tracing_def tracing_settings_default_def span_buffer_new_def start_trace_def
        finish_trace_def hm_insert_def hm_remove_def export_span_def span_push_def Let_def)
  have fresh: "run_fresh sample_floats (\<lambda>i. 0) 1 ?xs ?t" by (simp add: tracing_system_new_def)
  from active_traces_drift [OF fresh run(1)] run show ?thesis by auto
qed

text \<open>The root span of a trace is held by the trace and by its table of spans: it never times out.\<close>

lemma root_never_times_out:
  assumes "start_trace fl fraction ids clk operation t = (t', Ok ctx)"
  shows "tcx_spans (time_out_trace now ctx) = tcx_spans ctx \<and> spn_status (tcx_root_span ctx) = SpActive"
  using assms by (auto simp: start_trace_def time_out_trace_def time_out_span_def hm_insert_def Let_def split: prod.splits if_splits)

end
