(* ===== verification/Telemetry_Performance.thy ===== *)
theory Telemetry_Performance
  imports Telemetry_Metrics
begin

text \<open>
  Timings and performance counters, \<^verbatim>\<open>src/kaelix-core/src/telemetry/performance.rs\<close>. Counters are 64-bit words
  that wrap. The position of a percentile (\<open>index p n\<close>, the product of \<open>n\<close> and \<open>p / 1000\<close> cut to an
  integer), the random number of the sampling, the sizes of types and the clocks are arguments.
\<close>

section \<open>Counters\<close>

record performance_counters =
  pfc_operations_total :: u64
  pfc_operations_per_second :: u64
  pfc_active_operations :: u64
  pfc_bytes_processed :: u64
  pfc_memory_allocations :: u64
  pfc_memory_deallocations :: u64
  pfc_cache_misses :: u64
  pfc_context_switches :: u64

definition performance_counters_new :: performance_counters where
  "performance_counters_new =
     \<lparr>pfc_operations_total = 0, pfc_operations_per_second = 0, pfc_active_operations = 0, pfc_bytes_processed = 0,
      pfc_memory_allocations = 0, pfc_memory_deallocations = 0, pfc_cache_misses = 0, pfc_context_switches = 0\<rparr>"

definition increment_operations :: "performance_counters \<Rightarrow> performance_counters" where
  "increment_operations c = c\<lparr>pfc_operations_total := pfc_operations_total c + 1\<rparr>"

definition record_bytes_processed :: "u64 \<Rightarrow> performance_counters \<Rightarrow> performance_counters" where
  "record_bytes_processed n c = c\<lparr>pfc_bytes_processed := pfc_bytes_processed c + n\<rparr>"

definition start_operation :: "performance_counters \<Rightarrow> performance_counters" where
  "start_operation c = c\<lparr>pfc_active_operations := pfc_active_operations c + 1\<rparr>"

definition end_operation :: "performance_counters \<Rightarrow> performance_counters" where
  "end_operation c = c\<lparr>pfc_active_operations := pfc_active_operations c - 1\<rparr>"

definition counters_snapshot :: "system_time \<Rightarrow> performance_counters \<Rightarrow> performance_counters \<times> system_time" where
  "counters_snapshot now c = (c, now)"

section \<open>Timings\<close>

record timing_metric =
  tmg_count :: u64
  tmg_total_ns :: u64
  tmg_min_ns :: u64
  tmg_max_ns :: u64
  tmg_recent_measurements :: "u64 list"
  tmg_last_updated :: system_time

definition timing_metric_new :: "system_time \<Rightarrow> timing_metric" where
  "timing_metric_new now =
     \<lparr>tmg_count = 0, tmg_total_ns = 0, tmg_min_ns = - 1, tmg_max_ns = 0, tmg_recent_measurements = [], tmg_last_updated = now\<rparr>"

definition timing_record :: "system_time \<Rightarrow> duration \<Rightarrow> timing_metric \<Rightarrow> timing_metric" where
  "timing_record now d m =
     (let ns = word_of_nat d in
      m\<lparr>tmg_count := tmg_count m + 1, tmg_total_ns := tmg_total_ns m + ns, tmg_min_ns := min (tmg_min_ns m) ns,
        tmg_max_ns := max (tmg_max_ns m) ns, tmg_recent_measurements := push_bounded 1000 ns (tmg_recent_measurements m),
        tmg_last_updated := now\<rparr>)"

definition timing_average :: "timing_metric \<Rightarrow> duration option" where
  "timing_average m = (if tmg_count m > 0 then Some (unat (tmg_total_ns m div tmg_count m)) else None)"

definition timing_percentile :: "(nat \<Rightarrow> usize \<Rightarrow> usize) \<Rightarrow> nat \<Rightarrow> timing_metric \<Rightarrow> (duration option, unit) result" where
  "timing_percentile index p m =
     (if tmg_recent_measurements m = [] then Ok None
      else let sorted_ns = sort (tmg_recent_measurements m); i = index p (length sorted_ns - 1) in
        if i < length sorted_ns then Ok (Some (unat (sorted_ns ! i))) else Panic)"

record timing_statistics =
  tgs_count :: u64
  tgs_average :: "duration option"
  tgs_min :: "duration option"
  tgs_max :: "duration option"
  tgs_p50 :: "duration option"
  tgs_p95 :: "duration option"
  tgs_p99 :: "duration option"
  tgs_p999 :: "duration option"

definition timing_statistics_of :: "(nat \<Rightarrow> usize \<Rightarrow> usize) \<Rightarrow> timing_metric \<Rightarrow> (timing_statistics, unit) result" where
  "timing_statistics_of index m =
     and_then (timing_percentile index 500 m) (\<lambda>p50.
     and_then (timing_percentile index 950 m) (\<lambda>p95.
     and_then (timing_percentile index 990 m) (\<lambda>p99.
     and_then (timing_percentile index 999 m) (\<lambda>p999.
       Ok \<lparr>tgs_count = tmg_count m, tgs_average = timing_average m,
           tgs_min = (if tmg_min_ns m \<noteq> - 1 then Some (unat (tmg_min_ns m)) else None),
           tgs_max = (if tmg_max_ns m > 0 then Some (unat (tmg_max_ns m)) else None),
           tgs_p50 = p50, tgs_p95 = p95, tgs_p99 = p99, tgs_p999 = p999\<rparr>))))"

section \<open>The tracker\<close>

record 'f performance_settings =
  pst_detailed_timing :: bool
  pst_track_allocations :: bool
  pst_track_cache_performance :: bool
  pst_max_timing_metrics :: usize
  pst_sampling_rate :: 'f
  pst_numa_aware :: bool

definition performance_settings_default :: "'f float_ops \<Rightarrow> 'f performance_settings" where
  "performance_settings_default fl =
     \<lparr>pst_detailed_timing = True, pst_track_allocations = True, pst_track_cache_performance = False,
      pst_max_timing_metrics = 1000, pst_sampling_rate = fl_tenths fl 10, pst_numa_aware = True\<rparr>"

record 'f performance_metric =
  pfm_name :: string
  pfm_value :: 'f
  pfm_unit :: string
  pfm_last_updated :: system_time
  pfm_update_count :: u64

record 'f performance_tracker =
  pft_metrics :: "(metric_key, 'f performance_metric) hash_map"
  pft_counters :: performance_counters
  pft_timings :: "(string, timing_metric) hash_map"
  pft_created_at :: instant
  pft_config :: "'f performance_settings"

definition performance_tracker_new :: "instant \<Rightarrow> 'f performance_settings \<Rightarrow> 'f performance_tracker" where
  "performance_tracker_new now c =
     \<lparr>pft_metrics = [], pft_counters = performance_counters_new, pft_timings = [], pft_created_at = now, pft_config = c\<rparr>"

definition tracker_record_metric ::
  "system_time \<Rightarrow> metric_key \<Rightarrow> 'f \<Rightarrow> string \<Rightarrow> 'f performance_tracker \<Rightarrow> 'f performance_tracker" where
  "tracker_record_metric now key v u t =
     (let m = (case hm_get (pft_metrics t) key of
            Some existing \<Rightarrow> existing\<lparr>pfm_value := v, pfm_last_updated := now, pfm_update_count := pfm_update_count existing + 1\<rparr>
          | None \<Rightarrow> \<lparr>pfm_name = mk_name key, pfm_value = v, pfm_unit = u, pfm_last_updated = now, pfm_update_count = 1\<rparr>)
      in t\<lparr>pft_metrics := hm_insert key m (pft_metrics t)\<rparr>)"

definition record_timing :: "system_time \<times> system_time \<Rightarrow> string \<Rightarrow> duration \<Rightarrow> 'f performance_tracker \<Rightarrow> 'f performance_tracker" where
  "record_timing nows name d t =
     (let m = (case hm_get (pft_timings t) name of Some m \<Rightarrow> m | None \<Rightarrow> timing_metric_new (fst nows)) in
      t\<lparr>pft_timings := hm_insert name (timing_record (snd nows) d m) (pft_timings t)\<rparr>)"

definition get_timing_stats ::
  "(nat \<Rightarrow> usize \<Rightarrow> usize) \<Rightarrow> string \<Rightarrow> 'f performance_tracker \<Rightarrow> (timing_statistics option, unit) result" where
  "get_timing_stats index name t =
     (case hm_get (pft_timings t) name of
        None \<Rightarrow> Ok None
      | Some m \<Rightarrow> and_then (timing_statistics_of index m) (\<lambda>s. Ok (Some s)))"

definition tracker_memory_usage :: "usize \<Rightarrow> usize \<Rightarrow> 'f performance_tracker \<Rightarrow> usize" where
  "tracker_memory_usage entry_size timing_size t =
     length (pft_metrics t) * entry_size
     + sum_list (map (\<lambda>(n, m). timing_size + length (tmg_recent_measurements m) * 8) (pft_timings t))"

definition cleanup_old_data :: "system_time \<Rightarrow> duration \<Rightarrow> 'f performance_tracker \<Rightarrow> 'f performance_tracker" where
  "cleanup_old_data now max_age t =
     t\<lparr>pft_timings := map (\<lambda>(n, m). (n, m\<lparr>tmg_recent_measurements := []\<rparr>))
         (hm_retain (\<lambda>n m. tmg_last_updated m > now - int max_age) (pft_timings t))\<rparr>"

record timing_guard =
  tgd_name :: string
  tgd_start_time :: instant
  tgd_should_record :: bool

definition timing_guard_new :: "'f float_ops \<Rightarrow> 'f \<Rightarrow> instant \<Rightarrow> string \<Rightarrow> 'f \<Rightarrow> timing_guard" where
  "timing_guard_new fl random now name rate =
     \<lparr>tgd_name = name, tgd_start_time = now,
      tgd_should_record = (if fl_le fl (fl_tenths fl 10) rate then True else fl_less fl random rate)\<rparr>"

definition start_timing :: "'f float_ops \<Rightarrow> 'f \<Rightarrow> instant \<Rightarrow> string \<Rightarrow> 'f performance_tracker \<Rightarrow> timing_guard" where
  "start_timing fl random now name t = timing_guard_new fl random now name (pst_sampling_rate (pft_config t))"

definition timing_guard_drop ::
  "instant \<Rightarrow> system_time \<times> system_time \<Rightarrow> timing_guard \<Rightarrow> 'f performance_tracker \<Rightarrow> 'f performance_tracker" where
  "timing_guard_drop now nows g t =
     (if tgd_should_record g then record_timing nows (tgd_name g) (now - tgd_start_time g) t else t)"

section \<open>What a timing keeps\<close>

definition times_of :: "duration list \<Rightarrow> u64 list" where
  "times_of ds = map word_of_nat ds"

definition measures :: "duration list \<Rightarrow> timing_metric \<Rightarrow> bool" where
  "measures ds m \<longleftrightarrow> tmg_count m = of_nat (length ds) \<and> tmg_total_ns m = of_nat (sum_list ds)
     \<and> tmg_min_ns m = fold min (times_of ds) (- 1) \<and> tmg_max_ns m = fold max (times_of ds) 0
     \<and> tmg_recent_measurements m = drop (length ds - 1000) (times_of ds)"

lemma measures_new: "measures [] (timing_metric_new now)"
  by (simp add: measures_def timing_metric_new_def times_of_def)

lemma measures_record:
  assumes "measures ds m"
  shows "measures (ds @ [d]) (timing_record now d m)"
  using assms push_window [of 1000 "word_of_nat d" "times_of ds"]
  by (simp add: measures_def timing_record_def Let_def times_of_def min.commute max.commute)

lemma measures_run: "measures ds m \<Longrightarrow> measures (ds @ map snd xs) (fold (\<lambda>(now, d). timing_record now d) xs m)"
proof (induction xs arbitrary: ds m)
  case (Cons x xs)
  show ?case using Cons.IH [OF measures_record [OF Cons.prems, of "snd x" "fst x"]] by (simp add: split_beta)
qed simp

lemma fold_max_ge: "x \<in> set xs \<Longrightarrow> x \<le> fold max xs acc" for acc :: u64
  unfolding Max.set_eq_fold [symmetric] by (rule Max_ge) simp_all

lemma fold_min_le: "x \<in> set xs \<Longrightarrow> fold min xs acc \<le> x" for acc :: u64
  unfolding Min.set_eq_fold [symmetric] by (rule Min_le) simp_all

text \<open>
  After recording any durations the statistics exist, as long as the position of a percentile stays inside
  the measurements, and every percentile is one of the last thousand durations and lies between the
  minimum and the maximum.
\<close>

theorem timing_statistics_total:
  assumes index: "\<And>p n. p < 1000 \<Longrightarrow> index p n \<le> n"
    and m: "m = fold (\<lambda>(now, d). timing_record now d) xs (timing_metric_new t0)"
  shows "\<exists>s. timing_statistics_of index m = Ok s \<and> tgs_count s = of_nat (length xs)
    \<and> (\<forall>q. q \<in> {tgs_p50 s, tgs_p95 s, tgs_p99 s, tgs_p999 s} \<longrightarrow>
         (if xs = [] then q = None
          else \<exists>v \<in> set (times_of (map snd xs)). q = Some (unat v) \<and> tmg_min_ns m \<le> v \<and> v \<le> tmg_max_ns m))"
proof -
  let ?ts = "times_of (map snd xs)" and ?r = "tmg_recent_measurements m"
  have ms: "measures (map snd xs) m" using measures_run [OF measures_new, of xs t0] m by simp
  have r: "?r = drop (length xs - 1000) ?ts" using ms by (simp add: measures_def)
  have empty: "?r = [] \<longleftrightarrow> xs = []" by (cases xs) (auto simp: r times_of_def)
  have bounds: "tmg_min_ns m \<le> v \<and> v \<le> tmg_max_ns m" if "v \<in> set ?ts" for v
    using that ms by (simp add: measures_def fold_min_le fold_max_ge)
  have sub: "set ?r \<subseteq> set ?ts" by (simp add: r set_drop_subset)
  have pct: "\<exists>q. timing_percentile index p m = Ok q \<and> (if xs = [] then q = None
      else \<exists>v \<in> set ?ts. q = Some (unat v) \<and> tmg_min_ns m \<le> v \<and> v \<le> tmg_max_ns m)" if "p < 1000" for p
  proof (cases "xs = []")
    case False
    let ?i = "index p (length ?r - 1)"
    have i: "?i < length ?r" using index [OF that, of "length ?r - 1"] False empty by (cases ?r) auto
    then have "sort ?r ! ?i \<in> set ?ts" using sub nth_mem [of ?i "sort ?r"] by auto
    with bounds i False empty show ?thesis by (auto simp: timing_percentile_def)
  qed (use empty in \<open>simp add: timing_percentile_def\<close>)
  obtain q1 q2 q3 q4 where "timing_percentile index 500 m = Ok q1" "timing_percentile index 950 m = Ok q2"
    "timing_percentile index 990 m = Ok q3" "timing_percentile index 999 m = Ok q4"
    using pct [of 500] pct [of 950] pct [of 990] pct [of 999] by auto
  with pct [of 500] pct [of 950] pct [of 990] pct [of 999] ms show ?thesis
    by (auto simp: timing_statistics_of_def measures_def)
qed

theorem timing_statistics_total_witness:
  "\<exists>s. timing_statistics_of (\<lambda>p n. n * p div 1000) (fold (\<lambda>(now, d). timing_record now d) [(1, 5), (2, 9)] (timing_metric_new 0)) = Ok s
     \<and> tgs_count s = 2"
proof -
  have idx: "n * p div 1000 \<le> n" if "p < 1000" for n p :: nat
    using that div_le_mono [of "n * p" "n * 1000" 1000] by simp
  from timing_statistics_total [where index = "\<lambda>p n. n * p div 1000", OF idx refl, of "[(1, 5), (2, 9)]" 0] show ?thesis
    by auto
qed

text \<open>
  A duration of zero is a measurement without a maximum, and cleaning up takes the percentiles of a metric
  that it keeps.
\<close>

lemma zero_has_no_maximum:
  "\<exists>s. timing_statistics_of index (timing_record now 0 (timing_metric_new now)) = Ok s \<and> tgs_min s = Some 0 \<and> tgs_max s = None"
  if "\<And>p. index p 0 = 0"
  using that by (simp add: timing_statistics_of_def timing_percentile_def timing_record_def timing_metric_new_def Let_def
      push_bounded_def)

lemma cleanup_forgets_percentiles:
  assumes "hm_ok (pft_timings t)" "map_of (pft_timings t) name = Some m" "tmg_last_updated m > now - int max_age"
  shows "map_of (pft_timings (cleanup_old_data now max_age t)) name = Some (m\<lparr>tmg_recent_measurements := []\<rparr>)"
  using assms by (simp add: cleanup_old_data_def map_of_map hm_get_retain)

text \<open>Ending an operation that was not started wraps the count of active operations.\<close>

lemma active_operations_wrap: "pfc_active_operations (end_operation performance_counters_new) = - 1"
  by (simp add: end_operation_def performance_counters_new_def)

end
