(* ===== verification/Telemetry_Export.thy ===== *)
theory Telemetry_Export
  imports Telemetry_Metrics
begin

text \<open>
  The export of metrics, \<^verbatim>\<open>src/kaelix-core/src/telemetry/exporter.rs\<close>, with its targets from
  \<^verbatim>\<open>telemetry/config.rs\<close>: the statistics, the buffer of snapshots with its retries, and the texts sent. The
  outcome of sending a batch, the text of a floating-point number and the clocks are arguments.
\<close>

section \<open>Targets and statistics\<close>

datatype export_target_type = EtPrometheus | EtOtlp | EtStatsD | EtInfluxDb | EtHttp

record basic_auth =
  bau_username :: string
  bau_password :: string

record export_target =
  ext_name :: string
  ext_target_type :: export_target_type
  ext_endpoint :: string
  ext_auth :: "basic_auth option"
  ext_headers :: "(string, string) hash_map"
  ext_enabled :: bool
  ext_max_buffer_size :: usize
  ext_batch_size :: usize
  ext_max_batch_delay :: duration

definition validate_target :: "(string \<Rightarrow> bool) \<Rightarrow> export_target \<Rightarrow> (unit, string) result" where
  "validate_target parses_url t = (if parses_url (ext_endpoint t) then Ok () else Err ''invalid_url'')"

record export_stats =
  exs_total_exports :: u64
  exs_successful_exports :: u64
  exs_failed_exports :: u64
  exs_total_metrics :: u64
  exs_avg_export_latency :: u64
  exs_last_export :: u64
  exs_backlog_size :: u64

definition export_stats_new :: export_stats where
  "export_stats_new =
     \<lparr>exs_total_exports = 0, exs_successful_exports = 0, exs_failed_exports = 0, exs_total_metrics = 0,
      exs_avg_export_latency = 0, exs_last_export = 0, exs_backlog_size = 0\<rparr>"

text \<open>A division by a count that wrapped to zero panics.\<close>

definition record_export :: "u64 \<Rightarrow> bool \<Rightarrow> u64 \<Rightarrow> u64 \<Rightarrow> export_stats \<Rightarrow> (export_stats, unit) result" where
  "record_export unix_secs success latency_us metrics_count s =
     (let n = exs_total_exports s + 1; current = exs_avg_export_latency s in
      if n = 0 then Panic
      else Ok (s\<lparr>exs_total_exports := n,
                 exs_successful_exports := (if success then exs_successful_exports s + 1 else exs_successful_exports s),
                 exs_failed_exports := (if success then exs_failed_exports s else exs_failed_exports s + 1),
                 exs_total_metrics := exs_total_metrics s + metrics_count,
                 exs_avg_export_latency := (if n = 1 then latency_us else (current * (n - 1) + latency_us) div n),
                 exs_last_export := unix_secs\<rparr>))"

definition export_success_rate :: "'f float_ops \<Rightarrow> export_stats \<Rightarrow> 'f" where
  "export_success_rate fl s =
     (if exs_total_exports s = 0 then fl_tenths fl 0
      else fl_div fl (fl_of_usize fl (unat (exs_successful_exports s))) (fl_of_usize fl (unat (exs_total_exports s))))"

section \<open>Snapshots and their texts\<close>

text \<open>The two methods of a snapshot the exporter reads are placeholders: no metrics and their number 0.\<close>

record 'a metrics_snapshot =
  msn_timestamp :: instant
  msn_metrics :: "(metric_key, 'a) hash_map"

definition snapshot_metrics_count :: "'a metrics_snapshot \<Rightarrow> usize" where
  "snapshot_metrics_count s = 0"

definition snapshot_metrics :: "'a metrics_snapshot \<Rightarrow> (string \<times> 'f) list" where
  "snapshot_metrics s = []"

definition newline :: string where
  "newline = [CHR 0x0A]"

definition serialize_to_prometheus :: "('f \<Rightarrow> string) \<Rightarrow> 'a metrics_snapshot list \<Rightarrow> string" where
  "serialize_to_prometheus show_f ss =
     concat (map (\<lambda>s. concat (map (\<lambda>(n, v). n @ '' '' @ show_f v @ newline) (snapshot_metrics s))) ss)"

definition serialize_to_statsd :: "('f \<Rightarrow> string) \<Rightarrow> 'a metrics_snapshot list \<Rightarrow> string" where
  "serialize_to_statsd show_f ss =
     concat (map (\<lambda>s. concat (map (\<lambda>(n, v). n @ '':'' @ show_f v @ ''|g'' @ newline) (snapshot_metrics s))) ss)"

definition serialize_to_influxdb :: "('f \<Rightarrow> string) \<Rightarrow> 'a metrics_snapshot list \<Rightarrow> string" where
  "serialize_to_influxdb show_f ss =
     concat (map (\<lambda>s. concat (map (\<lambda>(n, v). n @ '' value='' @ show_f v @ newline) (snapshot_metrics s))) ss)"

datatype export_error = ExportConfigInvalid string

fun split_once :: "char \<Rightarrow> string \<Rightarrow> (string \<times> string) option" where
  "split_once c [] = None"
| "split_once c (x # xs) = (if x = c then Some ([], xs) else map_option (\<lambda>(a, b). (x # a, b)) (split_once c xs))"

definition parse_statsd_endpoint :: "(string \<Rightarrow> u16 option) \<Rightarrow> string \<Rightarrow> (string \<times> u16, export_error) result" where
  "parse_statsd_endpoint parse_u16 endpoint =
     (case split_once (CHR '':'') endpoint of
        None \<Rightarrow> Err (ExportConfigInvalid (''Invalid StatsD endpoint format: '' @ endpoint))
      | Some (host, port) \<Rightarrow>
          (case parse_u16 port of
             None \<Rightarrow> Err (ExportConfigInvalid (''Invalid port in StatsD endpoint: '' @ endpoint))
           | Some p \<Rightarrow> Ok (host, p)))"

section \<open>The export task\<close>

record 'a export_task =
  ext_buffer :: "'a metrics_snapshot list"
  ext_backoff :: duration
  ext_stats :: export_stats

definition export_task_new :: "'a export_task" where
  "export_task_new = \<lparr>ext_buffer = [], ext_backoff = 100 * 1000000, ext_stats = export_stats_new\<rparr>"

definition should_export :: "export_target \<Rightarrow> instant \<Rightarrow> 'a metrics_snapshot list \<Rightarrow> bool" where
  "should_export target now buffer \<longleftrightarrow> length buffer \<ge> ext_batch_size target
     \<or> (case buffer of [] \<Rightarrow> False | s # _ \<Rightarrow> now - msn_timestamp s \<ge> ext_max_batch_delay target)"

record export_tick =
  etk_sent :: bool
  etk_now :: instant
  etk_latency_us :: u64
  etk_unix_secs :: u64

definition trim_buffer :: "export_target \<Rightarrow> 'a list \<Rightarrow> 'a list" where
  "trim_buffer target b =
     (if length b > ext_max_buffer_size target then drop (length b - ext_max_buffer_size target) b else b)"

definition export_tick_step ::
  "export_target \<Rightarrow> export_tick \<Rightarrow> 'a metrics_snapshot \<Rightarrow> 'a export_task \<Rightarrow> ('a export_task, unit) result" where
  "export_tick_step target tick snapshot t =
     (let buffer = ext_buffer t @ [snapshot]; count = word_of_nat (snapshot_metrics_count snapshot);
          backlog = (\<lambda>t'. t'\<lparr>ext_stats := (ext_stats t')\<lparr>exs_backlog_size := of_nat (length (ext_buffer t'))\<rparr>\<rparr>)
      in if should_export target (etk_now tick) buffer
         then and_then (record_export (etk_unix_secs tick) (etk_sent tick) (etk_latency_us tick) count (ext_stats t)) (\<lambda>st.
           Ok (backlog (if etk_sent tick
             then \<lparr>ext_buffer = [], ext_backoff = 100 * 1000000, ext_stats = st\<rparr>
             else \<lparr>ext_buffer = trim_buffer target buffer, ext_backoff = min (ext_backoff t * 2) (60 * 1000000000),
                   ext_stats = st\<rparr>)))
         else Ok (backlog (t\<lparr>ext_buffer := buffer\<rparr>)))"

definition export_on_shutdown :: "'a export_task \<Rightarrow> 'a metrics_snapshot list option" where
  "export_on_shutdown t = (if ext_buffer t \<noteq> [] then Some (ext_buffer t) else None)"

section \<open>What is exported\<close>

text \<open>
  Whatever was measured, the Prometheus, StatsD and InfluxDB texts are empty, and the statistics count no
  metrics.
\<close>

theorem exports_are_empty:
  "serialize_to_prometheus show_f ss = '''' \<and> serialize_to_statsd show_f ss = '''' \<and> serialize_to_influxdb show_f ss = ''''"
  by (simp add: serialize_to_prometheus_def serialize_to_statsd_def serialize_to_influxdb_def snapshot_metrics_def)

text \<open>An endpoint splits at its first colon, so that the address of an IPv6 host is refused or cut.\<close>

lemma split_once_first: "split_once c xs = Some (a, b) \<longleftrightarrow> xs = a @ c # b \<and> c \<notin> set a"
proof (induction xs arbitrary: a)
  case (Cons x xs)
  show ?case by (cases a) (auto simp: Cons.IH split: if_splits)
qed simp

lemma statsd_endpoint:
  "parse_statsd_endpoint parse_u16 endpoint = Ok (host, port)
     \<longleftrightarrow> (\<exists>p. endpoint = host @ CHR '':'' # p \<and> CHR '':'' \<notin> set host \<and> parse_u16 p = Some port)"
proof
  assume "\<exists>p. endpoint = host @ CHR '':'' # p \<and> CHR '':'' \<notin> set host \<and> parse_u16 p = Some port"
  then obtain p where "split_once (CHR '':'') endpoint = Some (host, p)" "parse_u16 p = Some port"
    using split_once_first by blast
  then show "parse_statsd_endpoint parse_u16 endpoint = Ok (host, port)" by (simp add: parse_statsd_endpoint_def)
qed (auto simp: parse_statsd_endpoint_def split_once_first split: option.splits)

section \<open>The buffer\<close>

fun export_run ::
  "export_target \<Rightarrow> (export_tick \<times> 'a metrics_snapshot) list \<Rightarrow> 'a export_task \<Rightarrow> ('a export_task, unit) result" where
  "export_run target [] t = Ok t"
| "export_run target ((tick, s) # xs) t = and_then (export_tick_step target tick s t) (export_run target xs)"

text \<open>
  What a tick amounts to, and the two things to be accounted for: the snapshots taken since the last
  successful export, and the number of failed exports since then.
\<close>

datatype tick_outcome = Waited | Exported | ExportFailed

definition outcome_of :: "export_target \<Rightarrow> export_tick \<Rightarrow> 'a metrics_snapshot \<Rightarrow> 'a export_task \<Rightarrow> tick_outcome" where
  "outcome_of target tick s t =
     (if \<not> should_export target (etk_now tick) (ext_buffer t @ [s]) then Waited
      else if etk_sent tick then Exported else ExportFailed)"

fun account_step :: "tick_outcome \<Rightarrow> 'a metrics_snapshot \<Rightarrow> 'a metrics_snapshot list \<times> nat \<Rightarrow> 'a metrics_snapshot list \<times> nat" where
  "account_step Waited s (since, failures) = (since @ [s], failures)"
| "account_step Exported s (since, failures) = ([], 0)"
| "account_step ExportFailed s (since, failures) = (since @ [s], failures + 1)"

fun account_run ::
  "export_target \<Rightarrow> (export_tick \<times> 'a metrics_snapshot) list \<Rightarrow> 'a export_task \<Rightarrow> 'a metrics_snapshot list \<times> nat
     \<Rightarrow> 'a metrics_snapshot list \<times> nat" where
  "account_run target [] t a = a"
| "account_run target ((tick, s) # xs) t a =
     (case export_tick_step target tick s t of
        Ok t1 \<Rightarrow> account_run target xs t1 (account_step (outcome_of target tick s t) s a) | _ \<Rightarrow> a)"

definition accounts_for :: "export_target \<Rightarrow> 'a metrics_snapshot list \<times> nat \<Rightarrow> 'a export_task \<Rightarrow> bool" where
  "accounts_for target a t \<longleftrightarrow>
     suffix (ext_buffer t) (fst a)
     \<and> min (length (fst a)) (ext_max_buffer_size target) \<le> length (ext_buffer t)
     \<and> length (ext_buffer t) \<le> max (ext_batch_size target) (ext_max_buffer_size target)
     \<and> ext_backoff t = min (2 ^ snd a * 100000000) 60000000000"

lemma trim_suffix: "suffix (trim_buffer target b) b"
  by (simp add: trim_buffer_def suffix_drop)

lemma double_backoff: "min (min (a * 100000000) 60000000000 * 2) 60000000000 = min (2 * a * 100000000) (60000000000 :: nat)"
  by (simp add: min_def)

lemma step_accounts:
  assumes h: "accounts_for target a t" and step: "export_tick_step target tick s t = Ok t'"
  shows "accounts_for target (account_step (outcome_of target tick s t) s a) t'"
proof (cases a)
  case (Pair since n)
  let ?b = "ext_buffer t @ [s]"
  have b: "suffix ?b (since @ [s])" and low: "min (length (since @ [s])) (ext_max_buffer_size target) \<le> length ?b"
    using h Pair by (auto simp: accounts_for_def)
  show ?thesis
  proof (cases "should_export target (etk_now tick) ?b")
    case True
    obtain st where st: "record_export (etk_unix_secs tick) (etk_sent tick) (etk_latency_us tick) 0 (ext_stats t) = Ok st"
      using step True by (auto simp: export_tick_step_def Let_def snapshot_metrics_count_def and_then_Ok_iff)
    show ?thesis
    proof (cases "etk_sent tick")
      case sent: True
      then show ?thesis using step True st Pair
        by (auto simp: export_tick_step_def Let_def snapshot_metrics_count_def outcome_of_def accounts_for_def)
    next
      case False
      let ?t = "trim_buffer target ?b"
      have "suffix ?t (since @ [s])" using trim_suffix b by (rule suffix_order.trans)
      moreover have "min (length (since @ [s])) (ext_max_buffer_size target) \<le> length ?t \<and> length ?t \<le> ext_max_buffer_size target"
        using low by (auto simp: trim_buffer_def)
      moreover have "ext_buffer t' = ?t" "ext_backoff t' = min (ext_backoff t * 2) 60000000000"
        using step True st False by (auto simp: export_tick_step_def Let_def snapshot_metrics_count_def)
      moreover have "ext_backoff t = min (2 ^ n * 100000000) 60000000000" using h Pair by (simp add: accounts_for_def)
      ultimately show ?thesis using True False Pair double_backoff [of "2 ^ n"]
        by (simp add: outcome_of_def accounts_for_def le_max_iff_disj)
    qed
  next
    case False
    then have "length ?b < ext_batch_size target" by (auto simp: should_export_def)
    moreover have "ext_buffer t' = ?b" "ext_backoff t' = ext_backoff t" using step False by (auto simp: export_tick_step_def Let_def)
    ultimately show ?thesis using False h b low Pair by (simp add: outcome_of_def accounts_for_def)
  qed
qed

lemma run_accounts:
  "accounts_for target a t \<Longrightarrow> export_run target xs t = Ok t' \<Longrightarrow> accounts_for target (account_run target xs t a) t'"
proof (induction xs arbitrary: a t)
  case (Cons x xs)
  obtain tick s where x: "x = (tick, s)" by fastforce
  obtain t1 where t1: "export_tick_step target tick s t = Ok t1" "export_run target xs t1 = Ok t'"
    using Cons.prems(2) by (auto simp: x and_then_Ok_iff)
  show ?case using Cons.IH [OF step_accounts [OF Cons.prems(1) t1(1)] t1(2)] by (simp add: x t1(1))
qed simp

text \<open>
  C16: The export task of a target gives up no snapshot it has room for. After any sequence of ticks, with
  exports that succeed and fail, its buffer holds the newest of the snapshots taken since the last successful
  export: all of them while they are no more than the buffer's size, never fewer than that size once there
  are more, and never more than the larger of the batch size and the buffer's size. Its delay before a retry
  is 100 milliseconds doubled for every failure since that export, up to a minute.
\<close>

theorem export_buffer_bounded:
  assumes "export_run target xs export_task_new = Ok t" and "account_run target xs export_task_new ([], 0) = (since, failures)"
  shows "suffix (ext_buffer t) since
    \<and> min (length since) (ext_max_buffer_size target) \<le> length (ext_buffer t)
    \<and> length (ext_buffer t) \<le> max (ext_batch_size target) (ext_max_buffer_size target)
    \<and> ext_backoff t = min (2 ^ failures * 100000000) 60000000000"
proof -
  have "accounts_for target ([], 0) (export_task_new :: 'a export_task)"
    by (simp add: accounts_for_def export_task_new_def)
  from run_accounts [OF this assms(1)] assms(2) show ?thesis by (simp add: accounts_for_def)
qed

definition sample_target :: export_target where
  "sample_target = \<lparr>ext_name = ''t'', ext_target_type = EtHttp, ext_endpoint = ''http://x'', ext_auth = None, ext_headers = [],
     ext_enabled = True, ext_max_buffer_size = 1, ext_batch_size = 1, ext_max_batch_delay = 9\<rparr>"

definition failed_tick :: export_tick where
  "failed_tick = \<lparr>etk_sent = False, etk_now = 0, etk_latency_us = 0, etk_unix_secs = 0\<rparr>"

theorem export_buffer_bounded_witness:
  "\<exists>t :: unit export_task. export_run sample_target
      [(failed_tick, \<lparr>msn_timestamp = 0, msn_metrics = []\<rparr>), (failed_tick, \<lparr>msn_timestamp = 1, msn_metrics = []\<rparr>)] export_task_new = Ok t
    \<and> ext_buffer t = [\<lparr>msn_timestamp = 1, msn_metrics = []\<rparr>] \<and> ext_backoff t = 400000000"
proof -
  let ?xs = "[(failed_tick, \<lparr>msn_timestamp = 0, msn_metrics = []\<rparr>), (failed_tick, \<lparr>msn_timestamp = 1, msn_metrics = []\<rparr>)]
    :: (export_tick \<times> unit metrics_snapshot) list"
  obtain t where t: "export_run sample_target ?xs export_task_new = Ok t"
    by (simp add: export_tick_step_def should_export_def sample_target_def failed_tick_def export_task_new_def record_export_def
        export_stats_new_def Let_def)
  have a: "account_run sample_target ?xs export_task_new ([], 0)
      = ([\<lparr>msn_timestamp = 0, msn_metrics = []\<rparr>, \<lparr>msn_timestamp = 1, msn_metrics = []\<rparr>], 2)"
    by (simp add: export_tick_step_def should_export_def sample_target_def failed_tick_def export_task_new_def record_export_def
        export_stats_new_def Let_def outcome_of_def)
  from export_buffer_bounded [OF t a] have "length (ext_buffer t) = Suc 0" "ext_backoff t = 400000000"
    "suffix (ext_buffer t) [\<lparr>msn_timestamp = 0, msn_metrics = []\<rparr>, \<lparr>msn_timestamp = 1, msn_metrics = []\<rparr>]"
    by (simp_all add: sample_target_def)
  with t show ?thesis by (auto simp: suffix_Cons)
qed

end
