(* ===== verification/Replication_Transport.thy ===== *)
theory Replication_Transport
  imports Replication
begin

text \<open>
  The transport between replicas, \<^verbatim>\<open>src/kaelix-storage/src/replication/transport.rs\<close>: the messages, the table of
  connections with the health of each, sending and broadcasting, the periodic health check and the
  statistics. Nothing crosses a network in the code: a message to a connected replica is counted. Clock
  readings and floating-point operations are arguments, and calls do not interleave. Shown: the transport refines a ledger of the messages
  it accepted beside a table of leases, a lease is lost exactly after five idle checks in a row, and the
  statistics count connections that are gone.
\<close>

section \<open>Messages\<close>

datatype replication_message =
    RmEntry (rm_from: node_id) (rm_to: node_id) (rm_entry: replication_entry) (rm_timestamp: system_time)
  | RmBatch (rm_from: node_id) (rm_to: node_id) (rm_batch: replication_batch) (rm_timestamp: system_time)
  | RmBatchAck (rm_from: node_id) (rm_to: node_id) (rm_result: repl_batch_result) (rm_timestamp: system_time)
  | RmHeartbeat (rm_from: node_id) (rm_to: node_id) (rm_sequence: u64) (rm_timestamp: system_time)
  | RmCatchupRequest (rm_from: node_id) (rm_to: node_id) (rm_from_offset: u64) (rm_limit: usize) (rm_timestamp: system_time)
  | RmCatchupResponse (rm_from: node_id) (rm_to: node_id) (rm_entries: "replication_entry list") (rm_has_more: bool)
      (rm_timestamp: system_time)

fun message_source :: "replication_message \<Rightarrow> node_id" where
  "message_source (RmEntry f t e ts) = f"
| "message_source (RmBatch f t b ts) = f"
| "message_source (RmBatchAck f t r ts) = f"
| "message_source (RmHeartbeat f t s ts) = f"
| "message_source (RmCatchupRequest f t off l ts) = f"
| "message_source (RmCatchupResponse f t es h ts) = f"

fun message_target :: "replication_message \<Rightarrow> node_id" where
  "message_target (RmEntry f t e ts) = t"
| "message_target (RmBatch f t b ts) = t"
| "message_target (RmBatchAck f t r ts) = t"
| "message_target (RmHeartbeat f t s ts) = t"
| "message_target (RmCatchupRequest f t off l ts) = t"
| "message_target (RmCatchupResponse f t es h ts) = t"

fun message_timestamp :: "replication_message \<Rightarrow> system_time" where
  "message_timestamp (RmEntry f t e ts) = ts"
| "message_timestamp (RmBatch f t b ts) = ts"
| "message_timestamp (RmBatchAck f t r ts) = ts"
| "message_timestamp (RmHeartbeat f t s ts) = ts"
| "message_timestamp (RmCatchupRequest f t off l ts) = ts"
| "message_timestamp (RmCatchupResponse f t es h ts) = ts"

fun message_estimated_size :: "replication_message \<Rightarrow> usize" where
  "message_estimated_size (RmEntry f t e ts) = length (rpe_data e) + 64"
| "message_estimated_size (RmBatch f t b ts) = rb_total_size b + 128"
| "message_estimated_size (RmBatchAck f t r ts) = 128"
| "message_estimated_size (RmHeartbeat f t s ts) = 64"
| "message_estimated_size (RmCatchupRequest f t off l ts) = 96"
| "message_estimated_size (RmCatchupResponse f t es h ts) = sum_list (map (\<lambda>e. length (rpe_data e)) es) + 128"

fun is_time_sensitive :: "replication_message \<Rightarrow> bool" where
  "is_time_sensitive (RmHeartbeat f t s ts) = True"
| "is_time_sensitive (RmEntry f t e ts) = True"
| "is_time_sensitive _ = False"

text \<open>The assignment of another target, which a broadcast makes in its copy of the message.\<close>

fun retarget :: "node_id \<Rightarrow> replication_message \<Rightarrow> replication_message" where
  "retarget n (RmEntry f t e ts) = RmEntry f n e ts"
| "retarget n (RmBatch f t b ts) = RmBatch f n b ts"
| "retarget n (RmBatchAck f t r ts) = RmBatchAck f n r ts"
| "retarget n (RmHeartbeat f t s ts) = RmHeartbeat f n s ts"
| "retarget n (RmCatchupRequest f t off l ts) = RmCatchupRequest f n off l ts"
| "retarget n (RmCatchupResponse f t es h ts) = RmCatchupResponse f n es h ts"

lemma retarget_keeps [simp]:
  "message_target (retarget n m) = n" "message_source (retarget n m) = message_source m"
  "message_timestamp (retarget n m) = message_timestamp m"
  "message_estimated_size (retarget n m) = message_estimated_size m"
  by (cases m; simp)+

section \<open>Connections\<close>

record ('a, 'f) replica_link =
  rl_node_id :: node_id
  rl_endpoint :: 'a
  rl_connected_at :: system_time
  rl_last_activity :: system_time
  rl_health_score :: 'f
  rl_failure_count :: u32
  rl_is_active :: bool

definition replica_link_new :: "'f float_ops \<Rightarrow> system_time \<Rightarrow> node_id \<Rightarrow> 'a \<Rightarrow> ('a, 'f) replica_link" where
  "replica_link_new fl now n endpoint =
     \<lparr>rl_node_id = n, rl_endpoint = endpoint, rl_connected_at = now, rl_last_activity = now,
      rl_health_score = fl_tenths fl 10, rl_failure_count = 0, rl_is_active = True\<rparr>"

definition link_update_activity :: "'f float_ops \<Rightarrow> system_time \<Rightarrow> ('a, 'f) replica_link \<Rightarrow> ('a, 'f) replica_link" where
  "link_update_activity fl now c =
     (let c1 = c\<lparr>rl_last_activity := now\<rparr>;
          c2 = (if 0 < rl_failure_count c1 then c1\<lparr>rl_failure_count := 0\<rparr> else c1)
      in c2\<lparr>rl_health_score := fl_min fl (fl_add fl (rl_health_score c2) (fl_tenths fl 1)) (fl_tenths fl 10)\<rparr>)"

definition link_record_failure :: "'f float_ops \<Rightarrow> ('a, 'f) replica_link \<Rightarrow> ('a, 'f) replica_link" where
  "link_record_failure fl c =
     (let lower = fl_sub fl (rl_health_score c) (fl_tenths fl 2);
          c1 = c\<lparr>rl_failure_count := rl_failure_count c + 1,
                 rl_health_score := (if fl_less fl lower (fl_tenths fl 0) then fl_tenths fl 0 else lower)\<rparr>
      in if 5 \<le> rl_failure_count c1 then c1\<lparr>rl_is_active := False\<rparr> else c1)"

text \<open>\<open>duration_since\<close> with \<open>unwrap_or_default\<close>: a time in the future counts as no time.\<close>

definition link_age :: "system_time \<Rightarrow> ('a, 'f) replica_link \<Rightarrow> duration" where
  "link_age now c = nat (now - rl_connected_at c)"

definition link_idle_time :: "system_time \<Rightarrow> ('a, 'f) replica_link \<Rightarrow> duration" where
  "link_idle_time now c = nat (now - rl_last_activity c)"

section \<open>The transport\<close>

record 'f transport_stats =
  tst_messages_sent :: u64
  tst_messages_received :: u64
  tst_bytes_sent :: u64
  tst_bytes_received :: u64
  tst_total_connections :: usize
  tst_healthy_connections :: usize
  tst_avg_health_score :: 'f
  tst_buffer_size :: usize
  tst_last_health_check :: system_time

definition transport_stats_default :: "'f float_ops \<Rightarrow> 'f transport_stats" where
  "transport_stats_default fl =
     \<lparr>tst_messages_sent = 0, tst_messages_received = 0, tst_bytes_sent = 0, tst_bytes_received = 0,
      tst_total_connections = 0, tst_healthy_connections = 0, tst_avg_health_score = fl_tenths fl 0,
      tst_buffer_size = 0, tst_last_health_check = 0\<rparr>"

record ('a, 'f) replication_transport =
  rt_local_node_id :: node_id
  rt_connections :: "(node_id, ('a, 'f) replica_link) hash_map"
  rt_buffer_size :: usize
  rt_stats :: "'f transport_stats"

definition replication_transport_new :: "'f float_ops \<Rightarrow> node_id \<Rightarrow> usize \<Rightarrow> ('a, 'f) replication_transport" where
  "replication_transport_new fl n buffer_size =
     \<lparr>rt_local_node_id = n, rt_connections = [], rt_buffer_size = buffer_size, rt_stats = transport_stats_default fl\<rparr>"

definition connect_to_replica ::
  "'f float_ops \<Rightarrow> system_time \<Rightarrow> node_id \<Rightarrow> 'a \<Rightarrow> ('a, 'f) replication_transport \<Rightarrow> ('a, 'f) replication_transport" where
  "connect_to_replica fl now n endpoint t =
     t\<lparr>rt_connections := hm_insert n (replica_link_new fl now n endpoint) (rt_connections t),
       rt_stats := (rt_stats t)\<lparr>tst_total_connections := tst_total_connections (rt_stats t) + 1\<rparr>\<rparr>"

definition disconnect_from_replica :: "node_id \<Rightarrow> ('a, 'f) replication_transport \<Rightarrow> ('a, 'f) replication_transport" where
  "disconnect_from_replica n t =
     (if hm_get (rt_connections t) n \<noteq> None
      then t\<lparr>rt_connections := hm_remove n (rt_connections t),
             rt_stats := (rt_stats t)\<lparr>tst_total_connections := tst_total_connections (rt_stats t) - 1\<rparr>\<rparr>
      else t)"

datatype transport_error = ReplicaUnreachable node_id string

definition transport_send ::
  "'f float_ops \<Rightarrow> system_time \<Rightarrow> replication_message \<Rightarrow> ('a, 'f) replication_transport
     \<Rightarrow> ('a, 'f) replication_transport \<times> (unit, transport_error) result" where
  "transport_send fl now m t =
     (let target = message_target m in
      case hm_get (rt_connections t) target of
        None \<Rightarrow> (t, Err (ReplicaUnreachable target ''No connection available''))
      | Some c \<Rightarrow>
          (t\<lparr>rt_connections := hm_insert target (link_update_activity fl now c) (rt_connections t),
             rt_stats := (rt_stats t)\<lparr>tst_messages_sent := tst_messages_sent (rt_stats t) + 1,
               tst_bytes_sent := tst_bytes_sent (rt_stats t) + of_nat (message_estimated_size m)\<rparr>\<rparr>, Ok ()))"

text \<open>
  The loop over the targets, each with the reading of the clock that its send takes; the result is the list of
  the targets that were reached.
\<close>

fun broadcast_message ::
  "'f float_ops \<Rightarrow> replication_message \<Rightarrow> (node_id \<times> system_time) list \<Rightarrow> ('a, 'f) replication_transport
     \<Rightarrow> ('a, 'f) replication_transport \<times> node_id list" where
  "broadcast_message fl m [] t = (t, [])"
| "broadcast_message fl m ((n, now) # ns) t =
     (case transport_send fl now (retarget n m) t of (t1, r) \<Rightarrow>
      case broadcast_message fl m ns t1 of (t2, reached) \<Rightarrow>
        (t2, if is_ok r then n # reached else reached))"

definition get_connection_health :: "node_id \<Rightarrow> ('a, 'f) replication_transport \<Rightarrow> 'f option" where
  "get_connection_health n t = map_option rl_health_score (hm_get (rt_connections t) n)"

definition get_connected_replicas :: "('a, 'f) replication_transport \<Rightarrow> node_id list" where
  "get_connected_replicas t = map fst (filter (\<lambda>(n, c). rl_is_active c) (rt_connections t))"

text \<open>
  The health check visits every connection: one idle for more than 30 seconds has a failure recorded, and is
  removed afterwards when that made it inactive; the others are counted. The clock is read for each connection,
  \<open>clock n\<close> being the reading for \<open>n\<close>, and once more at the end. Times are in nanoseconds.
\<close>

abbreviation idle_threshold :: duration where
  "idle_threshold \<equiv> 30000000000"

fun check_links ::
  "'f float_ops \<Rightarrow> (node_id \<Rightarrow> system_time) \<Rightarrow> (node_id, ('a, 'f) replica_link) hash_map
     \<Rightarrow> (node_id, ('a, 'f) replica_link) hash_map \<times> node_id list \<times> usize" where
  "check_links fl clock [] = ([], [], 0)"
| "check_links fl clock ((n, c) # m) =
     (case check_links fl clock m of (m1, to_remove, healthy) \<Rightarrow>
      if idle_threshold < link_idle_time (clock n) c
      then let c1 = link_record_failure fl c
           in ((n, c1) # m1, if rl_is_active c1 then to_remove else n # to_remove, healthy)
      else ((n, c) # m1, to_remove, healthy + 1))"

definition health_check ::
  "'f float_ops \<Rightarrow> (node_id \<Rightarrow> system_time) \<Rightarrow> system_time \<Rightarrow> ('a, 'f) replication_transport
     \<Rightarrow> ('a, 'f) replication_transport \<times> usize" where
  "health_check fl clock now t =
     (case check_links fl clock (rt_connections t) of (m, to_remove, healthy) \<Rightarrow>
        (t\<lparr>rt_connections := fold hm_remove to_remove m,
           rt_stats := (rt_stats t)\<lparr>tst_healthy_connections := healthy, tst_last_health_check := now\<rparr>\<rparr>, healthy))"

definition transport_shutdown :: "('a, 'f) replication_transport \<Rightarrow> ('a, 'f) replication_transport" where
  "transport_shutdown t = t\<lparr>rt_connections := []\<rparr>"

section \<open>Leases\<close>

text \<open>
  The specification: a table that gives for each replica the time of its last activity and the number of idle
  checks since then, and the list of the messages accepted so far.
\<close>

type_synonym leases = "(node_id \<Rightarrow> (system_time \<times> nat) option) \<times> replication_message list"

datatype 'a lease_op =
    TrConnect system_time node_id 'a
  | TrDisconnect node_id
  | TrSend system_time replication_message
  | TrBroadcast replication_message "(node_id \<times> system_time) list"
  | TrCheck "node_id \<Rightarrow> system_time" system_time
  | TrShutdown

datatype transport_answer = TrDone | TrSent bool | TrReached "node_id list" | TrHealthy usize

fun repl_transport_step ::
  "'f float_ops \<Rightarrow> 'a lease_op \<Rightarrow> ('a, 'f) replication_transport \<Rightarrow> ('a, 'f) replication_transport \<times> transport_answer" where
  "repl_transport_step fl (TrConnect now n a) t = (connect_to_replica fl now n a t, TrDone)"
| "repl_transport_step fl (TrDisconnect n) t = (disconnect_from_replica n t, TrDone)"
| "repl_transport_step fl (TrSend now m) t = (case transport_send fl now m t of (t1, r) \<Rightarrow> (t1, TrSent (is_ok r)))"
| "repl_transport_step fl (TrBroadcast m ns) t = (case broadcast_message fl m ns t of (t1, reached) \<Rightarrow> (t1, TrReached reached))"
| "repl_transport_step fl (TrCheck clock now) t = (case health_check fl clock now t of (t1, h) \<Rightarrow> (t1, TrHealthy h))"
| "repl_transport_step fl TrShutdown t = (transport_shutdown t, TrDone)"

definition idle_since :: "system_time \<Rightarrow> system_time \<Rightarrow> bool" where
  "idle_since now l \<longleftrightarrow> idle_threshold < nat (now - l)"

definition checked_lease :: "system_time \<Rightarrow> system_time \<times> nat \<Rightarrow> (system_time \<times> nat) option" where
  "checked_lease now = (\<lambda>(l, k). if idle_since now l then (if k < 4 then Some (l, Suc k) else None) else Some (l, k))"

fun lease_step :: "'a lease_op \<Rightarrow> leases \<Rightarrow> leases \<times> transport_answer" where
  "lease_step (TrConnect now n a) (tbl, sent) = ((tbl(n \<mapsto> (now, 0)), sent), TrDone)"
| "lease_step (TrDisconnect n) (tbl, sent) = ((tbl(n := None), sent), TrDone)"
| "lease_step (TrSend now m) (tbl, sent) =
     (if message_target m \<in> dom tbl
      then ((tbl(message_target m \<mapsto> (now, 0)), sent @ [m]), TrSent True)
      else ((tbl, sent), TrSent False))"
| "lease_step (TrBroadcast m ns) (tbl, sent) =
     (let reached = filter (\<lambda>(n, now). n \<in> dom tbl) ns
      in ((fold (\<lambda>(n, now) tbl. tbl(n \<mapsto> (now, 0))) reached tbl, sent @ map (\<lambda>(n, now). retarget n m) reached),
          TrReached (map fst reached)))"
| "lease_step (TrCheck clock now) (tbl, sent) =
     ((\<lambda>n. Option.bind (tbl n) (checked_lease (clock n)), sent),
      TrHealthy (card {n. \<exists>l k. tbl n = Some (l, k) \<and> \<not> idle_since (clock n) l}))"
| "lease_step TrShutdown (tbl, sent) = ((Map.empty, sent), TrDone)"

definition lease_of :: "('a, 'f) replica_link \<Rightarrow> system_time \<times> nat" where
  "lease_of c = (rl_last_activity c, unat (rl_failure_count c))"

definition leases_of :: "(node_id, ('a, 'f) replica_link) hash_map \<Rightarrow> node_id \<Rightarrow> (system_time \<times> nat) option" where
  "leases_of m n = map_option lease_of (map_of m n)"

definition links_ok :: "(node_id, ('a, 'f) replica_link) hash_map \<Rightarrow> bool" where
  "links_ok m \<longleftrightarrow> hm_ok m \<and> (\<forall>n c. map_of m n = Some c \<longrightarrow> rl_is_active c \<and> unat (rl_failure_count c) < 5)"

definition holds_leases :: "leases \<Rightarrow> ('a, 'f) replication_transport \<Rightarrow> bool" where
  "holds_leases a t \<longleftrightarrow> links_ok (rt_connections t) \<and> fst a = leases_of (rt_connections t)
     \<and> tst_messages_sent (rt_stats t) = of_nat (length (snd a))
     \<and> tst_bytes_sent (rt_stats t) = of_nat (sum_list (map message_estimated_size (snd a)))"

lemma links_ok_insert: "links_ok m \<Longrightarrow> rl_is_active c \<Longrightarrow> unat (rl_failure_count c) < 5 \<Longrightarrow> links_ok (hm_insert n c m)"
  by (simp add: links_ok_def)

lemma leases_of_insert [simp]: "leases_of (hm_insert n c m) = (leases_of m)(n \<mapsto> lease_of c)"
  by (simp add: leases_of_def fun_eq_iff)

lemma leases_of_remove [simp]: "leases_of (hm_remove n m) = (leases_of m)(n := None)"
  by (simp add: leases_of_def fun_eq_iff)

lemma lease_of_new [simp]: "lease_of (replica_link_new fl now n a) = (now, 0)"
  by (simp add: lease_of_def replica_link_new_def)

lemma update_activity_effect [simp]:
  "lease_of (link_update_activity fl now c) = (now, 0)" "rl_is_active (link_update_activity fl now c) = rl_is_active c"
  "rl_failure_count (link_update_activity fl now c) = 0"
  by (auto simp: lease_of_def link_update_activity_def Let_def word_gt_0)

subsection \<open>Sending and broadcasting\<close>

lemma send_simulates:
  assumes "holds_leases (tbl, sent) t" "transport_send fl now m t = (t', r)"
  shows "is_ok r = (message_target m \<in> dom tbl)
    \<and> holds_leases (if is_ok r then (tbl(message_target m \<mapsto> (now, 0)), sent @ [m]) else (tbl, sent)) t'"
proof (cases "map_of (rt_connections t) (message_target m)")
  case None
  with assms show ?thesis by (auto simp: transport_send_def holds_leases_def leases_of_def)
next
  case (Some c)
  with assms(1) have "links_ok (hm_insert (message_target m) (link_update_activity fl now c) (rt_connections t))"
    by (auto simp: holds_leases_def links_ok_def)
  moreover have "message_target m \<in> dom tbl" using Some assms(1) by (auto simp: holds_leases_def leases_of_def)
  ultimately show ?thesis using Some assms by (auto simp: transport_send_def holds_leases_def)
qed

lemma broadcast_simulates:
  assumes "holds_leases (tbl, sent) t" "broadcast_message fl m ns t = (t', reached)"
  shows "reached = map fst (filter (\<lambda>(n, now). n \<in> dom tbl) ns)
    \<and> holds_leases (fold (\<lambda>(n, now) tbl. tbl(n \<mapsto> (now, 0))) (filter (\<lambda>(n, now). n \<in> dom tbl) ns) tbl,
        sent @ map (\<lambda>(n, now). retarget n m) (filter (\<lambda>(n, now). n \<in> dom tbl) ns)) t'"
  using assms
proof (induction ns arbitrary: tbl sent t reached)
  case (Cons x ns)
  obtain n now where x: "x = (n, now)" by fastforce
  obtain t1 r where one: "transport_send fl now (retarget n m) t = (t1, r)" by fastforce
  obtain rest where more: "broadcast_message fl m ns t1 = (t', rest)"
    and reached: "reached = (if is_ok r then n # rest else rest)"
    using Cons.prems(2) one x by (auto split: prod.splits)
  note first = send_simulates [OF Cons.prems(1) one, simplified]
  show ?case
  proof (cases "n \<in> dom tbl")
    case True
    then have ok: "is_ok r" using first by blast
    have h: "holds_leases (tbl(n \<mapsto> (now, 0)), sent @ [retarget n m]) t1" using first ok by simp
    have d: "dom (tbl(n \<mapsto> (now, 0))) = dom tbl" using True by auto
    from Cons.IH [OF h more, unfolded d] True ok reached x show ?thesis by (intro conjI) simp_all
  next
    case False
    then have no: "\<not> is_ok r" using first by blast
    then have "holds_leases (tbl, sent) t1" using first by auto
    note IH = Cons.IH [OF this more]
    have "reached = rest" using no reached by simp
    moreover have "filter (\<lambda>(n, now). n \<in> dom tbl) (x # ns) = filter (\<lambda>(n, now). n \<in> dom tbl) ns" using False x by simp
    ultimately show ?thesis using IH by metis
  qed
qed simp

subsection \<open>The health check\<close>

lemma check_links_effect:
  "check_links fl clock m =
     (map (\<lambda>(n, c). (n, if idle_since (clock n) (rl_last_activity c) then link_record_failure fl c else c)) m,
      map fst (filter (\<lambda>(n, c). idle_since (clock n) (rl_last_activity c) \<and> \<not> rl_is_active (link_record_failure fl c)) m),
      length (filter (\<lambda>(n, c). \<not> idle_since (clock n) (rl_last_activity c)) m))"
  by (induction fl clock m rule: check_links.induct) (auto simp: Let_def idle_since_def link_idle_time_def)

lemma fold_hm_remove:
  "map_of (fold hm_remove ns m) n = (if n \<in> set ns then None else map_of m n)" "hm_ok m \<Longrightarrow> hm_ok (fold hm_remove ns m)"
  by (induction ns arbitrary: m) auto

lemma hm_count:
  assumes "hm_ok m"
  shows "length (filter (\<lambda>(k, v). P k v) m) = card {k. \<exists>v. map_of m k = Some v \<and> P k v}"
proof -
  have "distinct (map fst (filter (\<lambda>(k, v). P k v) m))" using assms by (simp add: hm_ok_def distinct_map_filter)
  then have "length (filter (\<lambda>(k, v). P k v) m) = card (fst ` set (filter (\<lambda>(k, v). P k v) m))"
    using distinct_card [of "map fst (filter (\<lambda>(k, v). P k v) m)"] by simp
  also have "fst ` set (filter (\<lambda>(k, v). P k v) m) = {k. \<exists>v. map_of m k = Some v \<and> P k v}"
    using hm_entry [OF assms] by (force simp: image_iff)
  finally show ?thesis .
qed

lemma map_values: "map_of (map (\<lambda>(k, v). (k, f k v)) m) k = map_option (f k) (map_of m k)"
  by (induction m) auto

lemma record_failure_effect:
  assumes "rl_is_active c" "unat (rl_failure_count c) < 5"
  shows "rl_is_active (link_record_failure fl c) = (unat (rl_failure_count c) < 4)"
    and "lease_of (link_record_failure fl c) = (rl_last_activity c, Suc (unat (rl_failure_count c)))"
proof -
  have "unat (rl_failure_count c + 1) = Suc (unat (rl_failure_count c))" using assms(2) by (simp add: unat_plus_one)
  then show "rl_is_active (link_record_failure fl c) = (unat (rl_failure_count c) < 4)"
    "lease_of (link_record_failure fl c) = (rl_last_activity c, Suc (unat (rl_failure_count c)))"
    using assms by (auto simp: link_record_failure_def Let_def lease_of_def word_le_nat_alt)
qed

lemma check_simulates:
  assumes "holds_leases (tbl, sent) t" "health_check fl clock now t = (t', h)"
  shows "h = card {n. \<exists>l k. tbl n = Some (l, k) \<and> \<not> idle_since (clock n) l}
    \<and> holds_leases (\<lambda>n. Option.bind (tbl n) (checked_lease (clock n)), sent) t'"
proof -
  let ?m = "rt_connections t" and ?m' = "rt_connections t'"
  let ?new = "\<lambda>n c. if idle_since (clock n) (rl_last_activity c) then link_record_failure fl c else c"
  have ok: "hm_ok ?m" and all: "\<And>n c. map_of ?m n = Some c \<Longrightarrow> rl_is_active c \<and> unat (rl_failure_count c) < 5"
    and tbl: "tbl = leases_of ?m" using assms(1) by (auto simp: holds_leases_def links_ok_def)
  have keys: "n \<in> fst ` {x \<in> set ?m. case x of (n, c) \<Rightarrow> Q n c} \<longleftrightarrow> (\<exists>c. map_of ?m n = Some c \<and> Q n c)" for n Q
    using hm_entry [OF ok] by (force simp: image_iff)
  have m': "map_of ?m' n = (case map_of ?m n of None \<Rightarrow> None
      | Some c \<Rightarrow> if idle_since (clock n) (rl_last_activity c) \<and> \<not> rl_is_active (link_record_failure fl c) then None else Some (?new n c))" for n
    using assms(2) by (auto simp: health_check_def check_links_effect fold_hm_remove keys map_values split: option.split)
  have "hm_ok ?m'"
    using assms(2) ok by (auto simp: health_check_def check_links_effect hm_ok_def comp_def case_prod_beta
        intro!: fold_hm_remove(2) [unfolded hm_ok_def])
  moreover have "rl_is_active c' \<and> unat (rl_failure_count c') < 5" if c': "map_of ?m' n = Some c'" for n c'
  proof -
    obtain c where c: "map_of ?m n = Some c" using c' m' [of n] by (cases "map_of ?m n") auto
    show ?thesis using c' m' [of n] c all [OF c] record_failure_effect [of c fl]
      by (auto simp: lease_of_def split: if_splits)
  qed
  moreover have "leases_of ?m' n = Option.bind (tbl n) (checked_lease (clock n))" for n
  proof (cases "map_of ?m n")
    case (Some c)
    with all [OF Some] record_failure_effect [of c fl] m' [of n] tbl show ?thesis
      by (auto simp: leases_of_def checked_lease_def lease_of_def split: if_splits)
  qed (simp add: m' leases_of_def tbl)
  moreover have "{n. \<exists>l k. tbl n = Some (l, k) \<and> \<not> idle_since (clock n) l}
      = {n. \<exists>c. map_of ?m n = Some c \<and> \<not> idle_since (clock n) (rl_last_activity c)}"
    by (auto simp: tbl leases_of_def lease_of_def)
  then have "h = card {n. \<exists>l k. tbl n = Some (l, k) \<and> \<not> idle_since (clock n) l}"
    using assms(2) hm_count [OF ok, of "\<lambda>n c. \<not> idle_since (clock n) (rl_last_activity c)"]
    by (auto simp: health_check_def check_links_effect)
  moreover have "rt_stats t' = (rt_stats t)\<lparr>tst_healthy_connections := h, tst_last_health_check := now\<rparr>"
    using assms(2) by (auto simp: health_check_def split: prod.splits)
  ultimately show ?thesis using assms(1) by (auto simp: holds_leases_def links_ok_def fun_eq_iff)
qed

lemma transport_simulates:
  assumes "holds_leases a t"
  shows "snd (repl_transport_step fl x t) = snd (lease_step x a) \<and> holds_leases (fst (lease_step x a)) (fst (repl_transport_step fl x t))"
proof (cases a)
  case (Pair tbl sent)
  note h = assms [unfolded Pair]
  show ?thesis
  proof (cases x)
    case (TrConnect now n e)
    with h show ?thesis by (simp add: Pair holds_leases_def connect_to_replica_def links_ok_insert replica_link_new_def
          del: lease_of_new) (simp add: lease_of_def)
  next
    case (TrDisconnect n)
    with h show ?thesis
      by (cases "map_of (rt_connections t) n")
        (auto simp: Pair holds_leases_def disconnect_from_replica_def links_ok_def leases_of_def fun_eq_iff)
  next
    case (TrSend now m)
    obtain t1 r where one: "transport_send fl now m t = (t1, r)" by fastforce
    from send_simulates [OF h one] show ?thesis by (simp add: TrSend Pair one split: if_splits)
  next
    case (TrBroadcast m ns)
    obtain t1 reached where one: "broadcast_message fl m ns t = (t1, reached)" by fastforce
    from broadcast_simulates [OF h one] show ?thesis by (simp add: TrBroadcast Pair one Let_def)
  next
    case (TrCheck clock now)
    with check_simulates [OF h] show ?thesis by (auto simp: Pair split: prod.split)
  next
    case TrShutdown
    with h show ?thesis by (simp add: Pair holds_leases_def transport_shutdown_def links_ok_def leases_of_def fun_eq_iff)
  qed
qed

interpretation rtl: relational_refinement holds_leases "repl_transport_step fl" lease_step
  by unfold_locales (rule transport_simulates)

text \<open>
  C39: The transport refines the leases: whatever is connected, sent, broadcast and checked in whatever order, and
  whatever the clock reads each time it is read, every
  answer is the one of the specification, the statistics count the messages accepted and their bytes, and
  every connection in the table is active, so that the list of connected replicas is the whole table.
\<close>

theorem transport_refines_leases:
  "snd (run_ops (repl_transport_step fl) xs (replication_transport_new fl n k)) = snd (run_ops lease_step xs (Map.empty, []))
   \<and> holds_leases (fst (run_ops lease_step xs (Map.empty, []))) (fst (run_ops (repl_transport_step fl) xs (replication_transport_new fl n k)))"
proof -
  have "holds_leases (Map.empty, []) (replication_transport_new fl n k)"
    by (simp add: holds_leases_def replication_transport_new_def transport_stats_default_def links_ok_def leases_of_def fun_eq_iff)
  from rtl.run_related [OF this] show ?thesis .
qed

lemma connected_are_all:
  assumes "holds_leases a t"
  shows "get_connected_replicas t = hm_keys (rt_connections t)"
proof -
  have "filter (\<lambda>(n, c). rl_is_active c) (rt_connections t) = rt_connections t"
    using assms hm_entry [of "rt_connections t"] by (auto simp: holds_leases_def links_ok_def filter_id_conv)
  then show ?thesis by (simp add: get_connected_replicas_def hm_keys_def)
qed

subsection \<open>Silent replicas\<close>

lemma lease_runs_out:
  assumes "tbl n = Some (l, k)" "k < 5" "list_all (\<lambda>(clock, now). idle_since (clock n) l) ts" "5 \<le> length ts + k"
  shows "fst (fst (run_ops lease_step (map (\<lambda>x. TrCheck (fst x) (snd x)) ts) (tbl, sent))) n = None"
  using assms
proof (induction ts arbitrary: tbl k)
  case (Cons x ts)
  obtain clock now where x: "x = (clock, now)" by fastforce
  have gone: "tbl' n = None \<Longrightarrow> fst (fst (run_ops lease_step (map (\<lambda>x. TrCheck (fst x) (snd x)) ts) (tbl', sent))) n = None" for tbl'
    by (induction ts arbitrary: tbl') (auto simp: split_beta)
  let ?tbl = "\<lambda>n. Option.bind (tbl n) (checked_lease (clock n))"
  show ?case
  proof (cases "k < 4")
    case True
    then have "?tbl n = Some (l, Suc k)" using Cons.prems x by (simp add: checked_lease_def)
    from Cons.IH [where tbl = ?tbl and k = "Suc k", OF this] True Cons.prems x show ?thesis by (simp add: split_beta)
  next
    case False
    then have "?tbl n = None" using Cons.prems x by (simp add: checked_lease_def)
    from gone [of ?tbl, OF this] x show ?thesis by (simp add: split_beta)
  qed
qed simp

text \<open>
  A replica that is silent through five health checks, each more than 30 seconds after its last activity, is
  taken out of the table, and a message to it is refused from then on.
\<close>

theorem silent_replica_dropped:
  assumes "holds_leases a t" "map_of (rt_connections t) n = Some c"
    and "length ts = 5" "list_all (\<lambda>(clock, now). idle_since (clock n) (rl_last_activity c)) ts" "message_target m = n"
  shows "snd (transport_send fl now m (fst (run_ops (repl_transport_step fl) (map (\<lambda>x. TrCheck (fst x) (snd x)) ts) t)))
    = Err (ReplicaUnreachable n ''No connection available'')"
proof -
  let ?t = "fst (run_ops (repl_transport_step fl) (map (\<lambda>x. TrCheck (fst x) (snd x)) ts) t)"
  let ?a = "fst (run_ops lease_step (map (\<lambda>x. TrCheck (fst x) (snd x)) ts :: 'a lease_op list) a)"
  have "fst a n = Some (rl_last_activity c, unat (rl_failure_count c))" "unat (rl_failure_count c) < 5"
    using assms(1,2) by (auto simp: holds_leases_def links_ok_def leases_of_def lease_of_def)
  then have "fst ?a n = None" using lease_runs_out [of "fst a" n _ _ ts "snd a"] assms(3,4) by simp
  moreover have "holds_leases ?a ?t" using rtl.run_related [OF assms(1)] by blast
  ultimately have "map_of (rt_connections ?t) n = None" by (simp add: holds_leases_def leases_of_def)
  then show ?thesis using assms(5) by (simp add: transport_send_def)
qed

section \<open>What the statistics say\<close>

text \<open>
  The number of connections counts a replica again on each reconnection, and neither the health check nor a
  shutdown takes anything off it; the size of the buffer is never copied into the statistics.
\<close>

lemma connection_count_drifts:
  "map_of (rt_connections t) n = Some c \<Longrightarrow>
     tst_total_connections (rt_stats (connect_to_replica fl now n e t)) = Suc (tst_total_connections (rt_stats t))
     \<and> map fst (rt_connections (connect_to_replica fl now n e t)) = map fst (rt_connections t)"
  "tst_total_connections (rt_stats (fst (health_check fl clock now t))) = tst_total_connections (rt_stats t)"
  "tst_total_connections (rt_stats (transport_shutdown t)) = tst_total_connections (rt_stats t)"
  by (auto simp: connect_to_replica_def health_check_def transport_shutdown_def hm_insert_def update_keys
      dest: map_of_SomeD split: prod.splits) (force dest: map_of_SomeD)+

lemma buffer_size_not_reported:
  "tst_buffer_size (rt_stats (replication_transport_new fl n k)) = 0"
  by (simp add: replication_transport_new_def transport_stats_default_def)

end
