(* ===== verification/Plugin_Loader.thy ===== *)
theory Plugin_Loader
  imports Plugin_Errors Clocks
begin

text \<open>
  The loader of plugins, \<^verbatim>\<open>src/kaelix-core/src/plugin/loader.rs\<close>: the strategies, the configuration, the cache and
  the loading of a plugin by each strategy. A plugin is a value of a type \<open>'p\<close>; what the operating system's
  loader answers for a shared library is an argument (\<open>libloading\<close> is not part of the sources), as is the
  order of a map, which decides the entry the cache gives up. Shown: no strategy ever yields a plugin, whatever the
  system answers, so that the cache stays empty; the cache keeps its bound and its keys do not
  tell all strategies apart.
\<close>

section \<open>Strategies\<close>

record wasm_config =
  wsm_max_memory :: usize
  wsm_max_execution_time :: duration
  wsm_enable_wasi :: bool
  wsm_allowed_host_functions :: "string list"
  wsm_environment :: "(string, string) hash_map"

definition wasm_config_default :: wasm_config where
  "wasm_config_default =
     \<lparr>wsm_max_memory = 64 * 1024 * 1024, wsm_max_execution_time = 30000000000, wsm_enable_wasi = False,
      wsm_allowed_host_functions = [], wsm_environment = []\<rparr>"

text \<open>A semantic version is its text.\<close>

record plugin_spec =
  psp_name :: string
  psp_version :: string
  psp_architecture :: "string option"
  psp_platform :: "string option"

datatype registry_auth = AuBearer | AuApiKey | AuBasic | AuOAuth2

record registry_credentials =
  rcr_auth_type :: registry_auth
  rcr_credentials :: string

datatype load_strategy =
    LsStatic string
  | LsDynamic string string
  | LsWasm string wasm_config
  | LsRemote string plugin_spec "registry_credentials option"

datatype load_strategy_config =
    LcStatic string
  | LcDynamic string string
  | LcWasm string wasm_config
  | LcRemote string plugin_spec "registry_credentials option"

fun load_strategy_from :: "load_strategy_config \<Rightarrow> load_strategy" where
  "load_strategy_from (LcStatic name) = LsStatic name"
| "load_strategy_from (LcDynamic library_path symbol_name) = LsDynamic library_path symbol_name"
| "load_strategy_from (LcWasm module_path runtime_config) = LsWasm module_path runtime_config"
| "load_strategy_from (LcRemote registry_url spec credentials) = LsRemote registry_url spec credentials"

section \<open>Configuration\<close>

record 'p validation_rule =
  vrl_name :: string
  vrl_description :: string
  vrl_validator :: "'p \<Rightarrow> (unit, string) result"

record 'p loader_config =
  ldc_enable_security_validation :: bool
  ldc_enable_signature_verification :: bool
  ldc_enable_dependency_resolution :: bool
  ldc_max_plugin_size :: usize
  ldc_loading_timeout :: duration
  ldc_cache_size :: usize
  ldc_allowed_directories :: "string list"
  ldc_trusted_signers :: "string list"
  ldc_validation_rules :: "'p validation_rule list"

definition loader_config_production :: "'p loader_config" where
  "loader_config_production =
     \<lparr>ldc_enable_security_validation = True, ldc_enable_signature_verification = True,
      ldc_enable_dependency_resolution = True, ldc_max_plugin_size = 100 * 1024 * 1024,
      ldc_loading_timeout = 60000000000, ldc_cache_size = 50,
      ldc_allowed_directories = [''/usr/lib/kaelix/plugins'', ''/opt/kaelix/plugins''],
      ldc_trusted_signers = [], ldc_validation_rules = []\<rparr>"

definition loader_config_development :: "'p loader_config" where
  "loader_config_development =
     \<lparr>ldc_enable_security_validation = False, ldc_enable_signature_verification = False,
      ldc_enable_dependency_resolution = True, ldc_max_plugin_size = 500 * 1024 * 1024,
      ldc_loading_timeout = 120000000000, ldc_cache_size = 20,
      ldc_allowed_directories = [''./plugins'', ''./target/release'', ''./target/debug''],
      ldc_trusted_signers = [], ldc_validation_rules = []\<rparr>"

definition loader_config_minimal_security :: "'p loader_config" where
  "loader_config_minimal_security =
     \<lparr>ldc_enable_security_validation = True, ldc_enable_signature_verification = False,
      ldc_enable_dependency_resolution = False, ldc_max_plugin_size = 50 * 1024 * 1024,
      ldc_loading_timeout = 30000000000, ldc_cache_size = 10,
      ldc_allowed_directories = [''/usr/lib/kaelix/plugins''],
      ldc_trusted_signers = [], ldc_validation_rules = []\<rparr>"

section \<open>The cache\<close>

record cached_plugin =
  cpl_created_at :: instant
  cpl_last_accessed :: instant

definition cached_is_expired :: "instant \<Rightarrow> cached_plugin \<Rightarrow> bool" where
  "cached_is_expired now e \<longleftrightarrow> 300000000000 < now - cpl_created_at e"

record plugin_cache =
  pch_cache :: "(string, cached_plugin) hash_map"
  pch_max_size :: usize

definition plugin_cache_new :: "usize \<Rightarrow> plugin_cache" where
  "plugin_cache_new max_size = \<lparr>pch_cache = [], pch_max_size = max_size\<rparr>"

fun strategy_to_key :: "load_strategy \<Rightarrow> string" where
  "strategy_to_key (LsStatic name) = ''static:'' @ name"
| "strategy_to_key (LsDynamic library_path symbol_name) = ''dynamic:'' @ library_path @ '':'' @ symbol_name"
| "strategy_to_key (LsWasm module_path runtime_config) = ''wasm:'' @ module_path"
| "strategy_to_key (LsRemote registry_url spec credentials) =
     ''remote:'' @ registry_url @ '':'' @ psp_name spec @ '':'' @ psp_version spec"

text \<open>The cache holds no plugin, only times; an entry that is found and not expired is answered with \<open>None\<close>.\<close>

definition plugin_cache_get :: "instant \<Rightarrow> load_strategy \<Rightarrow> plugin_cache \<Rightarrow> 'p option" where
  "plugin_cache_get now strategy c =
     (case hm_get (pch_cache c) (strategy_to_key strategy) of
        Some e \<Rightarrow> if \<not> cached_is_expired now e then None else None
      | None \<Rightarrow> None)"

definition plugin_cache_insert :: "instant \<Rightarrow> load_strategy \<Rightarrow> plugin_cache \<Rightarrow> plugin_cache" where
  "plugin_cache_insert now strategy c =
     (let m = pch_cache c;
          m1 = (if pch_max_size c \<le> length m
                then (case hm_keys m of k # _ \<Rightarrow> hm_remove k m | [] \<Rightarrow> m) else m)
      in c\<lparr>pch_cache := hm_insert (strategy_to_key strategy) \<lparr>cpl_created_at = now, cpl_last_accessed = now\<rparr> m1\<rparr>)"

definition plugin_cache_clear :: "plugin_cache \<Rightarrow> plugin_cache" where
  "plugin_cache_clear c = c\<lparr>pch_cache := []\<rparr>"

record plugin_cache_stats =
  pcs_size :: usize
  pcs_max_size :: usize
  pcs_hit_count :: u64
  pcs_miss_count :: u64

definition plugin_cache_stats_of :: "plugin_cache \<Rightarrow> plugin_cache_stats" where
  "plugin_cache_stats_of c =
     \<lparr>pcs_size = length (pch_cache c), pcs_max_size = pch_max_size c, pcs_hit_count = 0, pcs_miss_count = 0\<rparr>"

definition plugin_cache_hit_rate :: "'f float_ops \<Rightarrow> plugin_cache_stats \<Rightarrow> 'f" where
  "plugin_cache_hit_rate fl s =
     (let total = pcs_hit_count s + pcs_miss_count s in
      if 0 < total
      then fl_mul fl (fl_div fl (fl_of_usize fl (unat (pcs_hit_count s))) (fl_of_usize fl (unat total))) (fl_tenths fl 1000)
      else fl_tenths fl 0)"

definition plugin_cache_is_full :: "plugin_cache_stats \<Rightarrow> bool" where
  "plugin_cache_is_full s \<longleftrightarrow> pcs_max_size s \<le> pcs_size s"

definition plugin_cache_utilization :: "'f float_ops \<Rightarrow> plugin_cache_stats \<Rightarrow> 'f" where
  "plugin_cache_utilization fl s =
     (if 0 < pcs_max_size s
      then fl_mul fl (fl_div fl (fl_of_usize fl (pcs_size s)) (fl_of_usize fl (pcs_max_size s))) (fl_tenths fl 1000)
      else fl_tenths fl 0)"

section \<open>The loader\<close>

record 'p plugin_loader =
  plo_config :: "'p loader_config"
  plo_cache :: plugin_cache
  plo_created_at :: instant

definition plugin_loader_with_config :: "instant \<Rightarrow> 'p loader_config \<Rightarrow> 'p plugin_loader" where
  "plugin_loader_with_config now config =
     \<lparr>plo_config = config, plo_cache = plugin_cache_new (ldc_cache_size config), plo_created_at = now\<rparr>"

text \<open>
  What the system's loader answers: the library or its symbol may be missing, with a text, and the plugin's
  creation function returns a pointer or null.
\<close>

datatype library_answer = LibraryMissing string | SymbolMissing string | CreatedNull | CreatedPointer

definition load_static_plugin :: "string \<Rightarrow> ('p, plugin_err) result" where
  "load_static_plugin name =
     Err (PluginError_Internal ''static_plugin_loading''
       (''Static plugin '' @ [CHR 0x27] @ name @ [CHR 0x27] @ '' not found or not yet implemented''))"

text \<open>\<open>dynamic_loading\<close> is the feature the loader is compiled with.\<close>

definition load_dynamic_plugin :: "bool \<Rightarrow> (string \<Rightarrow> string \<Rightarrow> library_answer) \<Rightarrow> string \<Rightarrow> string \<Rightarrow> ('p, plugin_err) result" where
  "load_dynamic_plugin dynamic_loading system library_path symbol_name =
     (if dynamic_loading
      then (case system library_path symbol_name of
              LibraryMissing text \<Rightarrow> Err (PluginError_LoadingFailed library_path text)
            | SymbolMissing text \<Rightarrow>
                Err (PluginError_LoadingFailed library_path (''Symbol '' @ [CHR 0x27] @ symbol_name @ [CHR 0x27] @ '' not found: '' @ text))
            | CreatedNull \<Rightarrow> Err (PluginError_LoadingFailed library_path ''Plugin creation function returned null'')
            | CreatedPointer \<Rightarrow>
                Err (PluginError_Internal ''dynamic_plugin_conversion'' ''Dynamic plugin conversion not yet fully implemented''))
      else Err (PluginError_Internal ''dynamic_plugin_loading'' ''Dynamic plugin loading not enabled (missing feature flag)''))"

definition load_wasm_plugin :: "string \<Rightarrow> wasm_config \<Rightarrow> ('p, plugin_err) result" where
  "load_wasm_plugin module_path runtime_config =
     Err (PluginError_Internal ''wasm_plugin_loading'' ''WASM plugin loading not yet implemented'')"

definition load_remote_plugin :: "string \<Rightarrow> plugin_spec \<Rightarrow> registry_credentials option \<Rightarrow> ('p, plugin_err) result" where
  "load_remote_plugin registry_url spec credentials =
     Err (PluginError_Internal ''remote_plugin_loading'' ''Remote plugin loading not yet implemented'')"

definition validate_plugin :: "'p loader_config \<Rightarrow> 'p \<Rightarrow> (unit, plugin_err) result" where
  "validate_plugin config plugin = (if \<not> ldc_enable_security_validation config then Ok () else Ok ())"

definition resolve_dependencies :: "'p loader_config \<Rightarrow> 'p \<Rightarrow> (unit, plugin_err) result" where
  "resolve_dependencies config plugin = (if \<not> ldc_enable_dependency_resolution config then Ok () else Ok ())"

fun load_by_strategy :: "bool \<Rightarrow> (string \<Rightarrow> string \<Rightarrow> library_answer) \<Rightarrow> load_strategy \<Rightarrow> ('p, plugin_err) result" where
  "load_by_strategy dynamic_loading system (LsStatic name) = load_static_plugin name"
| "load_by_strategy dynamic_loading system (LsDynamic library_path symbol_name) =
     load_dynamic_plugin dynamic_loading system library_path symbol_name"
| "load_by_strategy dynamic_loading system (LsWasm module_path runtime_config) = load_wasm_plugin module_path runtime_config"
| "load_by_strategy dynamic_loading system (LsRemote registry_url spec credentials) =
     load_remote_plugin registry_url spec credentials"

definition load_plugin ::
  "bool \<Rightarrow> (string \<Rightarrow> string \<Rightarrow> library_answer) \<Rightarrow> instant \<Rightarrow> load_strategy \<Rightarrow> 'p plugin_loader
     \<Rightarrow> 'p plugin_loader \<times> ('p, plugin_err) result" where
  "load_plugin dynamic_loading system now strategy l =
     (case plugin_cache_get now strategy (plo_cache l) of
        Some plugin \<Rightarrow> (l, Ok plugin)
      | None \<Rightarrow>
          (let r = and_then (load_by_strategy dynamic_loading system strategy) (\<lambda>plugin.
                   and_then (validate_plugin (plo_config l) plugin) (\<lambda>_.
                   and_then (resolve_dependencies (plo_config l) plugin) (\<lambda>_. Ok plugin)))
           in (if is_ok r then l\<lparr>plo_cache := plugin_cache_insert now strategy (plo_cache l)\<rparr> else l, r)))"

definition validate_hot_reload_compatibility :: "'p \<Rightarrow> (unit, plugin_err) result" where
  "validate_hot_reload_compatibility new_plugin = Ok ()"

definition hot_reload_plugin ::
  "bool \<Rightarrow> (string \<Rightarrow> string \<Rightarrow> library_answer) \<Rightarrow> instant \<Rightarrow> string \<Rightarrow> load_strategy \<Rightarrow> 'p plugin_loader
     \<Rightarrow> 'p plugin_loader \<times> ('p, plugin_err) result" where
  "hot_reload_plugin dynamic_loading system now plugin_id new_strategy l =
     (case load_plugin dynamic_loading system now new_strategy l of
        (l1, r) \<Rightarrow> (l1, and_then r (\<lambda>p. and_then (validate_hot_reload_compatibility p) (\<lambda>_. Ok p))))"

definition loader_clear_cache :: "'p plugin_loader \<Rightarrow> 'p plugin_loader" where
  "loader_clear_cache l = l\<lparr>plo_cache := plugin_cache_clear (plo_cache l)\<rparr>"

section \<open>What the loader does\<close>

datatype loader_op = LoLoad instant load_strategy | LoReload instant string load_strategy | LoClear

fun loader_step ::
  "bool \<Rightarrow> (string \<Rightarrow> string \<Rightarrow> library_answer) \<Rightarrow> loader_op \<Rightarrow> 'p plugin_loader
     \<Rightarrow> 'p plugin_loader \<times> ('p, plugin_err) result option" where
  "loader_step dl system (LoLoad now strategy) l = (case load_plugin dl system now strategy l of (l1, r) \<Rightarrow> (l1, Some r))"
| "loader_step dl system (LoReload now i strategy) l = (case hot_reload_plugin dl system now i strategy l of (l1, r) \<Rightarrow> (l1, Some r))"
| "loader_step dl system LoClear l = (loader_clear_cache l, None)"

text \<open>The text of the refusal, by strategy and by what the system answers.\<close>

fun refusal :: "bool \<Rightarrow> (string \<Rightarrow> string \<Rightarrow> library_answer) \<Rightarrow> load_strategy \<Rightarrow> plugin_err" where
  "refusal dl system strategy =
     (case load_by_strategy dl system strategy :: (unit, plugin_err) result of Err e \<Rightarrow> e | _ \<Rightarrow> PluginError_NotFound [])"

lemma load_by_strategy_refuses: "load_by_strategy dl system strategy = Err (refusal dl system strategy)"
  by (cases strategy) (auto simp: load_static_plugin_def load_dynamic_plugin_def load_wasm_plugin_def load_remote_plugin_def
      split: library_answer.split)

lemma cache_get_None: "plugin_cache_get now strategy c = None"
  by (simp add: plugin_cache_get_def split: option.split)

lemma load_plugin_refuses: "load_plugin dl system now strategy l = (l, Err (refusal dl system strategy))"
  by (simp add: load_plugin_def cache_get_None load_by_strategy_refuses del: refusal.simps)

lemma reload_refuses: "hot_reload_plugin dl system now i strategy l = (l, Err (refusal dl system strategy))"
  by (simp add: hot_reload_plugin_def load_plugin_refuses del: refusal.simps)

fun refused_as :: "bool \<Rightarrow> (string \<Rightarrow> string \<Rightarrow> library_answer) \<Rightarrow> loader_op \<Rightarrow> ('p, plugin_err) result option" where
  "refused_as dl system (LoLoad now strategy) = Some (Err (refusal dl system strategy))"
| "refused_as dl system (LoReload now i strategy) = Some (Err (refusal dl system strategy))"
| "refused_as dl system LoClear = None"

text \<open>
  A loader never yields a plugin: whatever is asked of it in whatever order, and whatever the system's loader
  answers, each loading and each hot reload is refused with the error of its strategy, also where a library was
  opened and its plugin created, and the cache stays empty.
\<close>

theorem loader_never_loads:
  "snd (run_ops (loader_step dl system) xs (plugin_loader_with_config now config)) = map (refused_as dl system) xs
   \<and> fst (run_ops (loader_step dl system) xs (plugin_loader_with_config now config)) = plugin_loader_with_config now config"
proof -
  let ?l = "plugin_loader_with_config now config"
  have one: "loader_step dl system x ?l = (?l, refused_as dl system x)" for x
    by (cases x) (simp_all add: load_plugin_refuses reload_refuses loader_clear_cache_def plugin_cache_clear_def
        plugin_loader_with_config_def plugin_cache_new_def del: refusal.simps)
  show ?thesis by (induction xs) (simp_all add: one case_prod_beta del: loader_step.simps refused_as.simps)
qed

section \<open>What the cache would do\<close>

text \<open>
  Insertions keep the cache within its size, or at one entry when the size is 0. It gives up an entry whenever
  it is full, also when the key inserted is already there, so that it can shrink.
\<close>

definition cache_bounded :: "plugin_cache \<Rightarrow> bool" where
  "cache_bounded c \<longleftrightarrow> hm_ok (pch_cache c) \<and> length (pch_cache c) \<le> max 1 (pch_max_size c)"

lemma length_insert_le: "length (hm_insert k v m) \<le> Suc (length m)"
  by (induction m) (auto simp: hm_insert_def)

lemma cache_insert_bounded:
  assumes "cache_bounded c"
  shows "cache_bounded (plugin_cache_insert now strategy c)"
proof -
  let ?m1 = "if pch_max_size c \<le> length (pch_cache c)
     then (case hm_keys (pch_cache c) of k # _ \<Rightarrow> hm_remove k (pch_cache c) | [] \<Rightarrow> pch_cache c) else pch_cache c"
  have "hm_ok ?m1 \<and> Suc (length ?m1) \<le> max 1 (pch_max_size c)"
  proof (cases "pch_cache c")
    case (Cons x m)
    have "hm_ok (pch_cache c)" using assms by (simp add: cache_bounded_def)
    moreover have "length (pch_cache c) = Suc (length (hm_remove (fst x) (pch_cache c)))"
      using hm_length_remove [OF calculation, of "fst x"] Cons by (cases x) simp
    ultimately show ?thesis using assms Cons by (auto simp: cache_bounded_def hm_keys_def)
  qed (use assms in \<open>auto simp: cache_bounded_def hm_keys_def\<close>)
  then show ?thesis using le_trans [OF length_insert_le [of _ _ ?m1]]
    by (simp add: cache_bounded_def plugin_cache_insert_def Let_def)
qed

theorem cache_stays_bounded:
  "cache_bounded (fold (\<lambda>(now, strategy). plugin_cache_insert now strategy) xs (plugin_cache_new k))"
proof -
  have "cache_bounded c \<Longrightarrow> cache_bounded (fold (\<lambda>(now, strategy). plugin_cache_insert now strategy) xs c)" for c
    by (induction xs arbitrary: c) (auto simp: cache_insert_bounded)
  then show ?thesis by (simp add: cache_bounded_def plugin_cache_new_def)
qed

text \<open>
  Different strategies share a key: a library's path and its symbol are joined by a character either may hold, the
  limits a WASM plugin runs under are not part of its key, and neither are the credentials and the platform of
  a remote one.
\<close>

lemma keys_collide:
  "strategy_to_key (LsDynamic ''a:b'' ''c'') = strategy_to_key (LsDynamic ''a'' ''b:c'')"
  "strategy_to_key (LsWasm p c) = strategy_to_key (LsWasm p c')"
  "strategy_to_key (LsRemote u s cr) = strategy_to_key (LsRemote u (s\<lparr>psp_platform := x, psp_architecture := y\<rparr>) cr')"
  by simp_all

lemma strategy_from_injective: "load_strategy_from a = load_strategy_from b \<longleftrightarrow> a = b"
  by (cases a; cases b) auto

end
