(* ===== verification/Mock_Network.thy ===== *)
theory Mock_Network
  imports Clocks
begin

text \<open>
  The simulated network of the cluster, \<^verbatim>\<open>src/kaelix-cluster/src/test_utils/mock_network.rs\<close>: network conditions and
  their builder, partitions, metrics, and the network with its queue of envelopes. Random draws, clock
  readings and the hash of a name are arguments. Every accepted message starts a task that takes envelopes from
  the queue, sleeps until they are due and counts them; these tasks run beside each other and beside the
  callers, so a network with its tasks and its senders is a step relation, a step being what is done between two
  waits. Shown: messages are conserved, a waiting message always has a task that will take it, flushing does
  not wait for messages that are asleep, and which nodes a partition separates. Times are in nanoseconds.
\<close>

section \<open>Nodes and envelopes\<close>

type_synonym mock_node_id = u64

definition show_mock_node :: "mock_node_id \<Rightarrow> string" where
  "show_mock_node n = ''node-'' @ decimal (unat n)"

record message_envelope =
  env_id :: u64
  env_from :: mock_node_id
  env_to :: mock_node_id
  env_data :: bytes
  env_sent_at :: instant
  env_deliver_at :: instant
  env_duplicate_count :: u32

section \<open>Conditions\<close>

record 'f network_conditions =
  nwc_enabled :: bool
  nwc_min_latency :: duration
  nwc_max_latency :: duration
  nwc_packet_loss_rate :: 'f
  nwc_bandwidth_limit :: "u64 option"
  nwc_jitter_factor :: 'f
  nwc_duplicate_probability :: 'f
  nwc_reorder_probability :: 'f

text \<open>A decimal literal such as \<open>0.001\<close> is the quotient of two whole numbers.\<close>

definition fl_quotient :: "'f float_ops \<Rightarrow> nat \<Rightarrow> nat \<Rightarrow> 'f" where
  "fl_quotient fl a b = fl_div fl (fl_of_usize fl a) (fl_of_usize fl b)"

definition network_conditions_default :: "'f float_ops \<Rightarrow> 'f network_conditions" where
  "network_conditions_default fl =
     \<lparr>nwc_enabled = False, nwc_min_latency = 1000, nwc_max_latency = 10000, nwc_packet_loss_rate = fl_tenths fl 0,
      nwc_bandwidth_limit = None, nwc_jitter_factor = fl_tenths fl 0, nwc_duplicate_probability = fl_tenths fl 0,
      nwc_reorder_probability = fl_tenths fl 0\<rparr>"

definition network_conditions_perfect :: "'f float_ops \<Rightarrow> 'f network_conditions" where
  "network_conditions_perfect fl =
     \<lparr>nwc_enabled = True, nwc_min_latency = 1, nwc_max_latency = 100, nwc_packet_loss_rate = fl_tenths fl 0,
      nwc_bandwidth_limit = None, nwc_jitter_factor = fl_tenths fl 0, nwc_duplicate_probability = fl_tenths fl 0,
      nwc_reorder_probability = fl_tenths fl 0\<rparr>"

definition lan_preset :: "'f float_ops \<Rightarrow> 'f network_conditions" where
  "lan_preset fl =
     \<lparr>nwc_enabled = True, nwc_min_latency = 10000, nwc_max_latency = 100000, nwc_packet_loss_rate = fl_quotient fl 1 10000,
      nwc_bandwidth_limit = Some 1000000000, nwc_jitter_factor = fl_tenths fl 1, nwc_duplicate_probability = fl_tenths fl 0,
      nwc_reorder_probability = fl_quotient fl 1 1000\<rparr>"

definition wan_preset :: "'f float_ops \<Rightarrow> 'f network_conditions" where
  "wan_preset fl =
     \<lparr>nwc_enabled = True, nwc_min_latency = 20000000, nwc_max_latency = 200000000, nwc_packet_loss_rate = fl_quotient fl 1 100,
      nwc_bandwidth_limit = Some 100000000, nwc_jitter_factor = fl_tenths fl 3, nwc_duplicate_probability = fl_quotient fl 1 1000,
      nwc_reorder_probability = fl_quotient fl 1 100\<rparr>"

definition unreliable_preset :: "'f float_ops \<Rightarrow> 'f network_conditions" where
  "unreliable_preset fl =
     \<lparr>nwc_enabled = True, nwc_min_latency = 50000000, nwc_max_latency = 1000000000, nwc_packet_loss_rate = fl_tenths fl 1,
      nwc_bandwidth_limit = Some 10000000, nwc_jitter_factor = fl_tenths fl 5, nwc_duplicate_probability = fl_quotient fl 2 100,
      nwc_reorder_probability = fl_quotient fl 5 100\<rparr>"

text \<open>The builder holds the conditions it builds; each method sets one field, the rates clamped to \<open>[0, 1]\<close>.\<close>

definition conditions_builder :: "'f float_ops \<Rightarrow> 'f network_conditions" where
  "conditions_builder fl = (network_conditions_default fl)\<lparr>nwc_enabled := True\<rparr>"

definition with_latency :: "duration \<Rightarrow> duration \<Rightarrow> 'f network_conditions \<Rightarrow> 'f network_conditions" where
  "with_latency lo hi c = c\<lparr>nwc_min_latency := lo, nwc_max_latency := max hi lo\<rparr>"

definition with_packet_loss :: "'f float_ops \<Rightarrow> 'f \<Rightarrow> 'f network_conditions \<Rightarrow> 'f network_conditions" where
  "with_packet_loss fl rate c = c\<lparr>nwc_packet_loss_rate := fl_clamp fl (fl_tenths fl 0) (fl_tenths fl 10) rate\<rparr>"

definition with_bandwidth_limit :: "u64 \<Rightarrow> 'f network_conditions \<Rightarrow> 'f network_conditions" where
  "with_bandwidth_limit bytes_per_second c = c\<lparr>nwc_bandwidth_limit := Some bytes_per_second\<rparr>"

definition with_jitter :: "'f float_ops \<Rightarrow> 'f \<Rightarrow> 'f network_conditions \<Rightarrow> 'f network_conditions" where
  "with_jitter fl factor c = c\<lparr>nwc_jitter_factor := fl_clamp fl (fl_tenths fl 0) (fl_tenths fl 10) factor\<rparr>"

definition with_duplicate_probability :: "'f float_ops \<Rightarrow> 'f \<Rightarrow> 'f network_conditions \<Rightarrow> 'f network_conditions" where
  "with_duplicate_probability fl p c = c\<lparr>nwc_duplicate_probability := fl_clamp fl (fl_tenths fl 0) (fl_tenths fl 10) p\<rparr>"

definition with_reorder_probability :: "'f float_ops \<Rightarrow> 'f \<Rightarrow> 'f network_conditions \<Rightarrow> 'f network_conditions" where
  "with_reorder_probability fl p c = c\<lparr>nwc_reorder_probability := fl_clamp fl (fl_tenths fl 0) (fl_tenths fl 10) p\<rparr>"

section \<open>Partitions\<close>

text \<open>The groups of a partition, each a set of nodes as a list.\<close>

type_synonym network_partition = "mock_node_id list list"

definition partition_split :: "mock_node_id list \<Rightarrow> mock_node_id list \<Rightarrow> network_partition \<Rightarrow> network_partition" where
  "partition_split group1 group2 p = [remdups group1, remdups group2]"

definition add_partition :: "mock_node_id list \<Rightarrow> network_partition \<Rightarrow> network_partition" where
  "add_partition nodes p = p @ [remdups nodes]"

definition partition_of :: "network_partition \<Rightarrow> mock_node_id \<Rightarrow> usize option" where
  "partition_of p n = find (\<lambda>i. n \<in> set (p ! i)) [0..<length p]"

definition can_communicate :: "network_partition \<Rightarrow> mock_node_id \<Rightarrow> mock_node_id \<Rightarrow> bool" where
  "can_communicate p a b =
     (if p = [] then True
      else (case (partition_of p a, partition_of p b) of
              (Some fp, Some tp) \<Rightarrow> fp = tp
            | _ \<Rightarrow> True))"

definition create_two_way_partition :: "mock_node_id list \<Rightarrow> usize \<Rightarrow> network_partition" where
  "create_two_way_partition nodes split_index =
     (if length nodes \<le> split_index then []
      else partition_split (take split_index nodes) (drop split_index nodes) [])"

definition create_multi_way_partition :: "mock_node_id list list \<Rightarrow> network_partition" where
  "create_multi_way_partition groups = foldl (\<lambda>p g. add_partition g p) [] groups"

section \<open>Metrics\<close>

record mock_metrics =
  nme_messages_sent :: u64
  nme_messages_delivered :: u64
  nme_messages_dropped :: u64
  nme_messages_duplicated :: u64
  nme_bytes_transferred :: u64
  nme_avg_latency_us :: u64
  nme_partition_active :: bool

definition mock_metrics_new :: mock_metrics where
  "mock_metrics_new =
     \<lparr>nme_messages_sent = 0, nme_messages_delivered = 0, nme_messages_dropped = 0, nme_messages_duplicated = 0,
      nme_bytes_transferred = 0, nme_avg_latency_us = 0, nme_partition_active = False\<rparr>"

definition mock_record_sent :: "usize \<Rightarrow> mock_metrics \<Rightarrow> mock_metrics" where
  "mock_record_sent bytes m =
     m\<lparr>nme_messages_sent := nme_messages_sent m + 1, nme_bytes_transferred := nme_bytes_transferred m + of_nat bytes\<rparr>"

text \<open>The latency of the message replaces the average.\<close>

definition mock_record_delivered :: "duration \<Rightarrow> mock_metrics \<Rightarrow> mock_metrics" where
  "mock_record_delivered latency m =
     m\<lparr>nme_messages_delivered := nme_messages_delivered m + 1, nme_avg_latency_us := of_nat (latency div 1000)\<rparr>"

definition mock_record_dropped :: "mock_metrics \<Rightarrow> mock_metrics" where
  "mock_record_dropped m = m\<lparr>nme_messages_dropped := nme_messages_dropped m + 1\<rparr>"

definition mock_record_duplicated :: "mock_metrics \<Rightarrow> mock_metrics" where
  "mock_record_duplicated m = m\<lparr>nme_messages_duplicated := nme_messages_duplicated m + 1\<rparr>"

section \<open>The network\<close>

record ('a, 'f) mock_network =
  mnw_nodes :: "(mock_node_id, 'a) hash_map"
  mnw_conditions :: "'f network_conditions"
  mnw_partition :: network_partition
  mnw_queue :: "message_envelope list"
  mnw_metrics :: mock_metrics
  mnw_message_counter :: u64
  mnw_node_counter :: u64

definition mock_network_new :: "'f float_ops \<Rightarrow> ('a, 'f) mock_network" where
  "mock_network_new fl =
     \<lparr>mnw_nodes = [], mnw_conditions = network_conditions_default fl, mnw_partition = [], mnw_queue = [],
      mnw_metrics = mock_metrics_new, mnw_message_counter = 1, mnw_node_counter = 1\<rparr>"

datatype mock_error = MockCommunication string | MockConfiguration string

definition mock_register_node ::
  "(string \<Rightarrow> u64) \<Rightarrow> string \<Rightarrow> 'a \<Rightarrow> ('a, 'f) mock_network \<Rightarrow> ('a, 'f) mock_network \<times> mock_node_id" where
  "mock_register_node hash name address w =
     (let node_id = hash name in (w\<lparr>mnw_nodes := hm_insert node_id address (mnw_nodes w)\<rparr>, node_id))"

definition mock_unregister_node ::
  "mock_node_id \<Rightarrow> ('a, 'f) mock_network \<Rightarrow> ('a, 'f) mock_network \<times> (unit, mock_error) result" where
  "mock_unregister_node n w =
     (if hm_get (mnw_nodes w) n \<noteq> None then (w\<lparr>mnw_nodes := hm_remove n (mnw_nodes w)\<rparr>, Ok ())
      else (w, Err (MockCommunication (''Node '' @ show_mock_node n @ '' not found''))))"

definition apply_conditions :: "'f network_conditions \<Rightarrow> ('a, 'f) mock_network \<Rightarrow> ('a, 'f) mock_network" where
  "apply_conditions c w = w\<lparr>mnw_conditions := c\<rparr>"

definition apply_partition :: "network_partition \<Rightarrow> ('a, 'f) mock_network \<Rightarrow> ('a, 'f) mock_network" where
  "apply_partition p w =
     w\<lparr>mnw_partition := p, mnw_metrics := (mnw_metrics w)\<lparr>nme_partition_active := p \<noteq> []\<rparr>\<rparr>"

definition heal_partition :: "('a, 'f) mock_network \<Rightarrow> ('a, 'f) mock_network" where
  "heal_partition w = apply_partition [] w"

text \<open>
  The random draws of one message: a number in \<open>[0, 1)\<close> for its loss and its duplication, and samplers of
  the two ranges.
\<close>

record 'f draws =
  drw_loss :: 'f
  drw_latency :: "u64 \<Rightarrow> u64 \<Rightarrow> u64"
  drw_jitter :: "int \<Rightarrow> int \<Rightarrow> int"
  drw_duplicate :: 'f

definition apply_conditions_to_envelope ::
  "'f float_ops \<Rightarrow> 'f draws \<Rightarrow> 'f network_conditions \<Rightarrow> message_envelope \<Rightarrow> (message_envelope, mock_error) result" where
  "apply_conditions_to_envelope fl d c e =
     (if \<not> nwc_enabled c then Ok (e\<lparr>env_deliver_at := env_sent_at e\<rparr>)
      else if fl_less fl (fl_tenths fl 0) (nwc_packet_loss_rate c) \<and> fl_less fl (drw_loss d) (nwc_packet_loss_rate c)
      then Err (MockCommunication ''Message dropped due to simulated packet loss'')
      else
        let min_us = of_nat (nwc_min_latency c div 1000) :: u64;
            max_us = of_nat (nwc_max_latency c div 1000) :: u64;
            base = (if max_us \<le> min_us then min_us else drw_latency d min_us (max_us + 1));
            jitter_range = fl_as_u64 fl (fl_mul fl (fl_of_usize fl (unat base)) (nwc_jitter_factor c));
            final = (if 0 < jitter_range
                     then nat (max 0 (int (unat base) + drw_jitter d (- int (unat jitter_range)) (int (unat jitter_range) + 1)))
                     else unat base)
        in Ok (e\<lparr>env_deliver_at := env_sent_at e + final * 1000\<rparr>))"

text \<open>
  Sending: an unknown node is refused, a message between separated nodes disappears, and any other is counted
  and, unless it is lost, queued once or twice. The answer \<open>True\<close> tells that a task was started for it.
\<close>

definition mock_send ::
  "'f float_ops \<Rightarrow> 'f draws \<Rightarrow> instant \<Rightarrow> mock_node_id \<Rightarrow> mock_node_id \<Rightarrow> bytes \<Rightarrow> ('a, 'f) mock_network
     \<Rightarrow> ('a, 'f) mock_network \<times> (bool, mock_error) result" where
  "mock_send fl d now a b data w =
     (if hm_get (mnw_nodes w) a = None
      then (w, Err (MockCommunication (''Source node '' @ show_mock_node a @ '' not found'')))
      else if hm_get (mnw_nodes w) b = None
      then (w, Err (MockCommunication (''Destination node '' @ show_mock_node b @ '' not found'')))
      else if \<not> can_communicate (mnw_partition w) a b then (w, Ok False)
      else
        let message_id = mnw_message_counter w;
            w1 = w\<lparr>mnw_message_counter := message_id + 1, mnw_metrics := mock_record_sent (length data) (mnw_metrics w)\<rparr>;
            e = \<lparr>env_id = message_id, env_from = a, env_to = b, env_data = data, env_sent_at = now,
                 env_deliver_at = now, env_duplicate_count = 0\<rparr>;
            c = mnw_conditions w1
        in (case apply_conditions_to_envelope fl d c e of
              Err x \<Rightarrow> (w1\<lparr>mnw_metrics := mock_record_dropped (mnw_metrics w1)\<rparr>, Err x)
            | Panic \<Rightarrow> (w1, Panic)
            | Ok e1 \<Rightarrow>
                if nwc_enabled c \<and> fl_less fl (fl_tenths fl 0) (nwc_duplicate_probability c)
                   \<and> fl_less fl (drw_duplicate d) (nwc_duplicate_probability c)
                then (w1\<lparr>mnw_metrics := mock_record_duplicated (mnw_metrics w1),
                         mnw_queue := mnw_queue w1 @ [e1, e1\<lparr>env_duplicate_count := 1\<rparr>]\<rparr>, Ok True)
                else (w1\<lparr>mnw_queue := mnw_queue w1 @ [e1]\<rparr>, Ok True)))"

text \<open>
  The same in the pieces between two waits: a sender has found its nodes; has passed the partition, been counted
  and built its envelope; has read the conditions; has applied them; has decided on a duplicate; or has queued its
  envelopes and has still to start the task. A piece ends in the next one or in the answer.
\<close>

datatype 'f sender =
    Checked mock_node_id mock_node_id bytes
  | Counted message_envelope
  | Conditioned "'f network_conditions" message_envelope
  | Delayed "'f network_conditions" message_envelope
  | Copied "message_envelope list"
  | Pushed

definition send_begin ::
  "mock_node_id \<Rightarrow> mock_node_id \<Rightarrow> bytes \<Rightarrow> ('a, 'f) mock_network \<Rightarrow> 'f sender + (bool, mock_error) result" where
  "send_begin a b data w =
     (if hm_get (mnw_nodes w) a = None
      then Inr (Err (MockCommunication (''Source node '' @ show_mock_node a @ '' not found'')))
      else if hm_get (mnw_nodes w) b = None
      then Inr (Err (MockCommunication (''Destination node '' @ show_mock_node b @ '' not found'')))
      else Inl (Checked a b data))"

fun send_phase ::
  "'f float_ops \<Rightarrow> 'f draws \<Rightarrow> instant \<Rightarrow> 'f sender \<Rightarrow> ('a, 'f) mock_network
     \<Rightarrow> ('a, 'f) mock_network \<times> ('f sender + (bool, mock_error) result)" where
  "send_phase fl d now (Checked a b data) w =
     (if \<not> can_communicate (mnw_partition w) a b then (w, Inr (Ok False))
      else (w\<lparr>mnw_message_counter := mnw_message_counter w + 1, mnw_metrics := mock_record_sent (length data) (mnw_metrics w)\<rparr>,
            Inl (Counted \<lparr>env_id = mnw_message_counter w, env_from = a, env_to = b, env_data = data, env_sent_at = now,
              env_deliver_at = now, env_duplicate_count = 0\<rparr>)))"
| "send_phase fl d now (Counted e) w = (w, Inl (Conditioned (mnw_conditions w) e))"
| "send_phase fl d now (Conditioned c e) w =
     (case apply_conditions_to_envelope fl d c e of
        Err x \<Rightarrow> (w\<lparr>mnw_metrics := mock_record_dropped (mnw_metrics w)\<rparr>, Inr (Err x))
      | Panic \<Rightarrow> (w, Inr Panic)
      | Ok e1 \<Rightarrow> (w, Inl (Delayed c e1)))"
| "send_phase fl d now (Delayed c e) w =
     (if nwc_enabled c \<and> fl_less fl (fl_tenths fl 0) (nwc_duplicate_probability c)
         \<and> fl_less fl (drw_duplicate d) (nwc_duplicate_probability c)
      then (w\<lparr>mnw_metrics := mock_record_duplicated (mnw_metrics w)\<rparr>, Inl (Copied [e, e\<lparr>env_duplicate_count := 1\<rparr>]))
      else (w, Inl (Copied [e])))"
| "send_phase fl d now (Copied es) w = (w\<lparr>mnw_queue := mnw_queue w @ es\<rparr>, Inl Pushed)"
| "send_phase fl d now Pushed w = (w, Inr (Ok True))"

fun run_phases ::
  "'f float_ops \<Rightarrow> 'f draws \<Rightarrow> instant \<Rightarrow> nat \<Rightarrow> 'f sender + (bool, mock_error) result \<Rightarrow> ('a, 'f) mock_network
     \<Rightarrow> ('a, 'f) mock_network \<times> ('f sender + (bool, mock_error) result)" where
  "run_phases fl d now 0 x w = (w, x)"
| "run_phases fl d now (Suc n) (Inr r) w = (w, Inr r)"
| "run_phases fl d now (Suc n) (Inl x) w = (case send_phase fl d now x w of (w1, y) \<Rightarrow> run_phases fl d now n y w1)"

text \<open>Without interruption the six pieces are the whole call.\<close>

lemma run_phases_send:
  "run_phases fl d now 6 (send_begin a b data w) w = (case mock_send fl d now a b data w of (w1, r) \<Rightarrow> (w1, Inr r))"
  by (auto simp: eval_nat_numeral send_begin_def mock_send_def Let_def split: result.split)

text \<open>
  A reset sets the conditions, removes the partition, clears the queue and then stores zero in the metrics, with a
  wait before each of the first three. The stores at the end are taken together.
\<close>

definition mock_clear_queue :: "('a, 'f) mock_network \<Rightarrow> ('a, 'f) mock_network" where
  "mock_clear_queue w = w\<lparr>mnw_queue := []\<rparr>"

definition mock_clear_metrics :: "('a, 'f) mock_network \<Rightarrow> ('a, 'f) mock_network" where
  "mock_clear_metrics w = w\<lparr>mnw_metrics := mock_metrics_new\<rparr>"

definition mock_reset :: "'f float_ops \<Rightarrow> ('a, 'f) mock_network \<Rightarrow> ('a, 'f) mock_network" where
  "mock_reset fl w =
     mock_clear_metrics (mock_clear_queue (w\<lparr>mnw_conditions := network_conditions_default fl, mnw_partition := []\<rparr>))"

text \<open>
  \<open>flush_messages\<close> looks at the queue every 10 milliseconds until it is empty, at most 100 times;
  \<open>observed i\<close> is the size of the queue at look \<open>i\<close>. The result is the number of looks that found messages.
\<close>

function flush_messages :: "(nat \<Rightarrow> usize) \<Rightarrow> nat \<Rightarrow> nat" where
  "flush_messages observed retries =
     (if retries < 100 then (if observed retries = 0 then retries else flush_messages observed (retries + 1)) else retries)"
  by pat_completeness auto
termination by (relation "measure (\<lambda>(observed, retries). 100 - retries)") auto

declare flush_messages.simps [simp del]

section \<open>Setting up nodes\<close>

text \<open>The parser of addresses is an argument; a port is a 16-bit number in one of the two functions.\<close>

fun register_all ::
  "(string \<Rightarrow> u64) \<Rightarrow> (string \<Rightarrow> ('a, string) result) \<Rightarrow> (nat \<Rightarrow> string \<times> string) \<Rightarrow> nat list \<Rightarrow> ('a, 'f) mock_network
     \<Rightarrow> ('a, 'f) mock_network \<times> (mock_node_id list, mock_error) result" where
  "register_all hash parse text [] w = (w, Ok [])"
| "register_all hash parse text (i # rest) w =
     (case parse (snd (text i)) of
        Err e \<Rightarrow> (w, Err (MockConfiguration (''Invalid address '' @ [CHR 0x27] @ snd (text i) @ [CHR 0x27] @ '': '' @ e)))
      | Panic \<Rightarrow> (w, Panic)
      | Ok address \<Rightarrow>
          (case mock_register_node hash (fst (text i)) address w of (w1, n) \<Rightarrow>
           case register_all hash parse text rest w1 of (w2, r) \<Rightarrow> (w2, and_then r (\<lambda>ns. Ok (n # ns)))))"

definition setup_test_network ::
  "(string \<Rightarrow> u64) \<Rightarrow> (string \<Rightarrow> ('a, string) result) \<Rightarrow> usize \<Rightarrow> ('a, 'f) mock_network
     \<Rightarrow> ('a, 'f) mock_network \<times> (mock_node_id list, mock_error) result" where
  "setup_test_network hash parse node_count w =
     register_all hash parse (\<lambda>i. (''test-node-'' @ decimal i, ''127.0.0.1:'' @ decimal (8000 + i))) [0..<node_count] w"

definition register_test_nodes ::
  "(string \<Rightarrow> u64) \<Rightarrow> (string \<Rightarrow> ('a, string) result) \<Rightarrow> usize \<Rightarrow> u16 \<Rightarrow> ('a, 'f) mock_network
     \<Rightarrow> ('a, 'f) mock_network \<times> (mock_node_id list, mock_error) result" where
  "register_test_nodes hash parse count base_port w =
     register_all hash parse (\<lambda>i. (''node-'' @ decimal i, ''127.0.0.1:'' @ decimal (unat (base_port + of_nat i)))) [0..<count] w"

section \<open>The network, its senders and its tasks\<close>

text \<open>
  A task is the envelope it holds asleep, if any. The senders, the tasks and the other callers interleave: a task
  takes the oldest envelope when it holds none, delivers the one it holds when it is due, and ends when it finds
  the queue empty. The last field is not part of the program: it accounts for resets, as the number of messages
  in flight when the metrics were last cleared, less those thrown away with the queue since then.
\<close>

record ('a, 'f) mock_system =
  msy_net :: "('a, 'f) mock_network"
  msy_tasks :: "message_envelope option list"
  msy_senders :: "'f sender list"
  msy_surplus :: u64

definition without_nth :: "nat \<Rightarrow> 'a list \<Rightarrow> 'a list" where
  "without_nth i xs = take i xs @ drop (Suc i) xs"

definition asleep :: "message_envelope option list \<Rightarrow> nat" where
  "asleep ts = sum_list (map (\<lambda>t. if t = None then 0 else 1) ts)"

fun carried :: "'f sender \<Rightarrow> nat" where
  "carried (Checked a b data) = 0"
| "carried (Counted e) = 1"
| "carried (Conditioned c e) = 1"
| "carried (Delayed c e) = 1"
| "carried (Copied es) = length es"
| "carried Pushed = 0"

definition in_flight :: "('a, 'f) mock_system \<Rightarrow> nat" where
  "in_flight s = sum_list (map carried (msy_senders s)) + length (mnw_queue (msy_net s)) + asleep (msy_tasks s)"

inductive task_step :: "('a, 'f) mock_system \<Rightarrow> ('a, 'f) mock_system \<Rightarrow> bool" where
  take_oldest: "i < length (msy_tasks s) \<Longrightarrow> msy_tasks s ! i = None \<Longrightarrow> mnw_queue (msy_net s) = e # q \<Longrightarrow>
    task_step s (s\<lparr>msy_net := (msy_net s)\<lparr>mnw_queue := q\<rparr>, msy_tasks := (msy_tasks s)[i := Some e]\<rparr>)"
| deliver_due: "i < length (msy_tasks s) \<Longrightarrow> msy_tasks s ! i = Some e \<Longrightarrow> env_deliver_at e \<le> now \<Longrightarrow>
    task_step s (s\<lparr>msy_net := (msy_net s)\<lparr>mnw_metrics := mock_record_delivered (now - env_sent_at e) (mnw_metrics (msy_net s))\<rparr>,
      msy_tasks := (msy_tasks s)[i := None]\<rparr>)"
| end_task: "i < length (msy_tasks s) \<Longrightarrow> msy_tasks s ! i = None \<Longrightarrow> mnw_queue (msy_net s) = [] \<Longrightarrow>
    task_step s (s\<lparr>msy_tasks := without_nth i (msy_tasks s)\<rparr>)"

inductive mock_step :: "'f float_ops \<Rightarrow> ('a, 'f) mock_system \<Rightarrow> ('a, 'f) mock_system \<Rightarrow> bool" for fl where
  send_call: "send_begin a b data (msy_net s) = Inl x \<Longrightarrow> mock_step fl s (s\<lparr>msy_senders := msy_senders s @ [x]\<rparr>)"
| send_on: "i < length (msy_senders s) \<Longrightarrow> send_phase fl d now (msy_senders s ! i) (msy_net s) = (w, Inl x) \<Longrightarrow>
    mock_step fl s (s\<lparr>msy_net := w, msy_senders := (msy_senders s)[i := x]\<rparr>)"
| send_return: "i < length (msy_senders s) \<Longrightarrow> send_phase fl d now (msy_senders s ! i) (msy_net s) = (w, Inr r) \<Longrightarrow>
    mock_step fl s (s\<lparr>msy_net := w, msy_senders := without_nth i (msy_senders s),
      msy_tasks := (if r = Ok True then msy_tasks s @ [None] else msy_tasks s)\<rparr>)"
| register: "mock_register_node hash name address (msy_net s) = (w, n) \<Longrightarrow> mock_step fl s (s\<lparr>msy_net := w\<rparr>)"
| unregister: "mock_unregister_node n (msy_net s) = (w, u) \<Longrightarrow> mock_step fl s (s\<lparr>msy_net := w\<rparr>)"
| conditions: "mock_step fl s (s\<lparr>msy_net := apply_conditions c (msy_net s)\<rparr>)"
| partition: "mock_step fl s (s\<lparr>msy_net := apply_partition p (msy_net s)\<rparr>)"
| reset_partition: "mock_step fl s (s\<lparr>msy_net := (msy_net s)\<lparr>mnw_partition := []\<rparr>\<rparr>)"
| clear_queue: "mock_step fl s (s\<lparr>msy_net := mock_clear_queue (msy_net s),
      msy_surplus := msy_surplus s - of_nat (length (mnw_queue (msy_net s)))\<rparr>)"
| clear_metrics: "mock_step fl s (s\<lparr>msy_net := mock_clear_metrics (msy_net s), msy_surplus := of_nat (in_flight s)\<rparr>)"
| task: "task_step s s' \<Longrightarrow> mock_step fl s s'"

definition mock_initial :: "'f float_ops \<Rightarrow> ('a, 'f) mock_system" where
  "mock_initial fl = \<lparr>msy_net = mock_network_new fl, msy_tasks = [], msy_senders = [], msy_surplus = 0\<rparr>"

inductive mock_reachable :: "'f float_ops \<Rightarrow> ('a, 'f) mock_system \<Rightarrow> bool" for fl where
  start: "mock_reachable fl (mock_initial fl)"
| step: "mock_reachable fl s \<Longrightarrow> mock_step fl s s' \<Longrightarrow> mock_reachable fl s'"

definition mock_balanced :: "('a, 'f) mock_system \<Rightarrow> bool" where
  "mock_balanced s \<longleftrightarrow> (let m = mnw_metrics (msy_net s) in
     nme_messages_sent m + nme_messages_duplicated m + msy_surplus s
       = nme_messages_delivered m + nme_messages_dropped m + of_nat (in_flight s))
   \<and> (mnw_queue (msy_net s) \<noteq> [] \<longrightarrow> msy_tasks s \<noteq> [] \<or> Pushed \<in> set (msy_senders s))"

lemma asleep_simps [simp]: "asleep [] = 0" "asleep (ts @ us) = asleep ts + asleep us" "asleep (t # ts) = (if t = None then 0 else 1) + asleep ts"
  by (simp_all add: asleep_def)

lemma sum_nth:
  fixes g :: "'a \<Rightarrow> nat"
  assumes "i < length xs"
  shows "sum_list (map g xs) = g (xs ! i) + sum_list (map g (without_nth i xs))"
    and "sum_list (map g (xs[i := x])) = g x + sum_list (map g (without_nth i xs))"
proof -
  show "sum_list (map g xs) = g (xs ! i) + sum_list (map g (without_nth i xs))"
    using arg_cong [OF id_take_nth_drop [OF assms], of "\<lambda>ys. sum_list (map g ys)"] by (simp add: without_nth_def)
  show "sum_list (map g (xs[i := x])) = g x + sum_list (map g (without_nth i xs))"
    using assms by (simp add: upd_conv_take_nth_drop without_nth_def)
qed

lemma asleep_nth:
  assumes "i < length ts"
  shows "asleep ts = asleep [ts ! i] + asleep (without_nth i ts)" and "asleep (ts[i := t]) = asleep [t] + asleep (without_nth i ts)"
  using sum_nth [OF assms, where g = "\<lambda>t. if t = None then 0 else 1"] by (simp_all only: asleep_def) simp_all

lemma in_without_nth: "i < length xs \<Longrightarrow> set xs = insert (xs ! i) (set (without_nth i xs))"
  using arg_cong [OF id_take_nth_drop [of i xs], of set] by (simp add: without_nth_def)

lemma task_step_balanced:
  assumes "task_step s s'" "mock_balanced s"
  shows "mock_balanced s' \<and> msy_senders s' = msy_senders s \<and> nme_messages_delivered (mnw_metrics (msy_net s')) + of_nat (in_flight s')
    = nme_messages_delivered (mnw_metrics (msy_net s)) + of_nat (in_flight s)"
  using assms
proof cases
  case (take_oldest i e q)
  then have "in_flight s' = in_flight s"
    using asleep_nth [of i "msy_tasks s"] by (simp add: in_flight_def)
  with take_oldest assms(2) show ?thesis by (auto simp: mock_balanced_def Let_def)
next
  case (deliver_due i e now)
  then have "in_flight s = Suc (in_flight s')"
    using asleep_nth [of i "msy_tasks s"] by (simp add: in_flight_def)
  with deliver_due assms(2) show ?thesis by (auto simp: mock_balanced_def mock_record_delivered_def Let_def)
next
  case (end_task i)
  then have "in_flight s' = in_flight s" using asleep_nth [of i "msy_tasks s"] by (simp add: in_flight_def)
  with end_task assms(2) show ?thesis by (auto simp: mock_balanced_def Let_def)
qed

text \<open>What one piece of a sender does to the sum: it counts what it carries and hands over what it stops carrying.\<close>

definition counted_less :: "('a, 'f) mock_network \<Rightarrow> u64" where
  "counted_less w = (let m = mnw_metrics w in
     nme_messages_sent m + nme_messages_duplicated m - nme_messages_delivered m - nme_messages_dropped m - of_nat (length (mnw_queue w)))"

lemma conditions_never_panic: "apply_conditions_to_envelope fl d c e \<noteq> Panic"
  by (simp add: apply_conditions_to_envelope_def Let_def)

lemma send_phase_balanced:
  assumes "send_phase fl d now x w = (w', y)"
  shows "counted_less w' - counted_less w = (case y of Inl x' \<Rightarrow> of_nat (carried x') | Inr r \<Rightarrow> 0) - of_nat (carried x)
    \<and> (x \<noteq> Pushed \<longrightarrow> mnw_queue w' \<noteq> [] \<longrightarrow> mnw_queue w \<noteq> [] \<or> y = Inl Pushed) \<and> (x = Pushed \<longrightarrow> y = Inr (Ok True) \<and> w' = w)"
  using assms
  by (cases x) (auto simp: counted_less_def Let_def mock_record_sent_def mock_record_dropped_def mock_record_duplicated_def
      algebra_simps conditions_never_panic split: if_splits result.splits)

lemma mock_balanced_alt:
  "mock_balanced s \<longleftrightarrow> counted_less (msy_net s) + msy_surplus s = of_nat (sum_list (map carried (msy_senders s)) + asleep (msy_tasks s))
   \<and> (mnw_queue (msy_net s) \<noteq> [] \<longrightarrow> msy_tasks s \<noteq> [] \<or> Pushed \<in> set (msy_senders s))"
  by (simp add: mock_balanced_def counted_less_def in_flight_def Let_def) (simp add: algebra_simps)

lemma sender_moved:
  assumes i: "i < length (msy_senders s)" and b: "mock_balanced s"
    and move: "counted_less w - counted_less (msy_net s) = k - of_nat (carried (msy_senders s ! i))"
  shows "counted_less w + msy_surplus s
    = k + of_nat (sum_list (map carried (without_nth i (msy_senders s)))) + of_nat (asleep (msy_tasks s))"
proof -
  have "counted_less (msy_net s) + msy_surplus s
      = of_nat (carried (msy_senders s ! i)) + of_nat (sum_list (map carried (without_nth i (msy_senders s)))) + of_nat (asleep (msy_tasks s))"
    using b sum_nth(1) [OF i, of carried] by (simp add: mock_balanced_alt)
  then have "counted_less (msy_net s)
      = of_nat (carried (msy_senders s ! i)) + of_nat (sum_list (map carried (without_nth i (msy_senders s)))) + of_nat (asleep (msy_tasks s))
        - msy_surplus s" by (simp add: eq_diff_eq)
  moreover have "counted_less w = counted_less (msy_net s) + k - of_nat (carried (msy_senders s ! i))"
    using move by (simp add: algebra_simps)
  ultimately show ?thesis by simp
qed

lemma send_on_balanced:
  assumes i: "i < length (msy_senders s)" and "send_phase fl d now (msy_senders s ! i) (msy_net s) = (w, Inl x)" and b: "mock_balanced s"
  shows "mock_balanced (s\<lparr>msy_net := w, msy_senders := (msy_senders s)[i := x]\<rparr>)"
proof -
  note one = send_phase_balanced [OF assms(2)]
  have "counted_less w + msy_surplus s = of_nat (sum_list (map carried ((msy_senders s)[i := x])) + asleep (msy_tasks s))"
    using sender_moved [OF i b, of w "of_nat (carried x)"] one sum_nth(2) [OF i, of carried] by simp
  moreover have "set ((msy_senders s)[i := x]) = insert x (set (without_nth i (msy_senders s)))"
    using in_without_nth [of i "(msy_senders s)[i := x]"] i by (simp add: without_nth_def)
  moreover have "msy_senders s ! i \<noteq> Pushed" using one by auto
  ultimately show ?thesis
    using one b in_without_nth [OF i] unfolding mock_balanced_alt by auto
qed

lemma send_return_balanced:
  assumes i: "i < length (msy_senders s)" and "send_phase fl d now (msy_senders s ! i) (msy_net s) = (w, Inr r)" and b: "mock_balanced s"
  shows "mock_balanced (s\<lparr>msy_net := w, msy_senders := without_nth i (msy_senders s),
    msy_tasks := (if r = Ok True then msy_tasks s @ [None] else msy_tasks s)\<rparr>)"
proof -
  note one = send_phase_balanced [OF assms(2)]
  have "counted_less w + msy_surplus s = of_nat (sum_list (map carried (without_nth i (msy_senders s))) + asleep (msy_tasks s))"
    using sender_moved [OF i b, of w 0] one by simp
  then show ?thesis
    using one b in_without_nth [OF i] unfolding mock_balanced_alt by auto
qed

lemma mock_step_balanced: "mock_step fl s s' \<Longrightarrow> mock_balanced s \<Longrightarrow> mock_balanced s'"
proof (induction rule: mock_step.induct)
  case (send_call a b data s x)
  then have "carried x = 0" by (auto simp: send_begin_def split: if_splits)
  with send_call show ?case by (auto simp: mock_balanced_alt)
next
  case (send_on i s d now w x)
  then show ?case by (rule send_on_balanced)
next
  case (send_return i s d now w r)
  then show ?case by (rule send_return_balanced)
next
  case (task s s')
  then show ?case using task_step_balanced by blast
next
  case (clear_queue s)
  then show ?case by (auto simp: mock_balanced_def in_flight_def Let_def mock_clear_queue_def algebra_simps)
next
  case (clear_metrics s)
  then show ?case by (auto simp: mock_balanced_def in_flight_def Let_def mock_clear_metrics_def mock_metrics_new_def)
qed (auto simp: mock_balanced_def in_flight_def Let_def mock_register_node_def mock_unregister_node_def apply_conditions_def
    apply_partition_def split: if_splits)

lemma reachable_balanced: "mock_reachable fl s \<Longrightarrow> mock_balanced s"
proof (induction rule: mock_reachable.induct)
  case start
  then show ?case by (simp add: mock_balanced_def mock_initial_def mock_network_new_def mock_metrics_new_def in_flight_def)
next
  case (step s s')
  then show ?case using mock_step_balanced by blast
qed

text \<open>
  C35: Messages are conserved, however the senders, the delivery tasks, the other callers and resets interleave at
  their waits. Those counted as sent and as duplicates, and those that were in flight when a reset last cleared
  the metrics less those it threw away with the queue since, are exactly the ones delivered, dropped, queued,
  asleep in a task or in the hands of a sender; and while a message is queued there is a task to take it or a
  sender about to start one.
\<close>

theorem mock_network_conserves:
  assumes "mock_reachable fl s"
  shows "nme_messages_sent (mnw_metrics (msy_net s)) + nme_messages_duplicated (mnw_metrics (msy_net s)) + msy_surplus s
      = nme_messages_delivered (mnw_metrics (msy_net s)) + nme_messages_dropped (mnw_metrics (msy_net s)) + of_nat (in_flight s)
    \<and> (mnw_queue (msy_net s) \<noteq> [] \<longrightarrow> msy_tasks s \<noteq> [] \<or> Pushed \<in> set (msy_senders s))"
  using reachable_balanced [OF assms] by (simp add: mock_balanced_def Let_def)

subsection \<open>Everything can be delivered\<close>

lemma some_asleep: "0 < asleep ts \<Longrightarrow> \<exists>i e. i < length ts \<and> ts ! i = Some e"
proof (induction ts)
  case (Cons t ts)
  then show ?case by (cases t) (auto intro: exI [of _ 0] exI [of _ "Suc _"])
qed simp

lemma task_progress:
  assumes "mock_balanced s" "0 < in_flight s" "msy_senders s = []"
  shows "\<exists>s'. task_step s s' \<and> 2 * length (mnw_queue (msy_net s')) + asleep (msy_tasks s')
    < 2 * length (mnw_queue (msy_net s)) + asleep (msy_tasks s)"
proof (cases "asleep (msy_tasks s) = 0")
  case True
  then obtain e q where q: "mnw_queue (msy_net s) = e # q"
    using assms(2,3) by (cases "mnw_queue (msy_net s)") (auto simp: in_flight_def)
  then have pos: "0 < length (msy_tasks s)" using assms(1,3) by (auto simp: mock_balanced_def)
  then have none: "msy_tasks s ! 0 = None" using True asleep_nth [OF pos] by (auto split: if_splits)
  show ?thesis
    by (rule exI, rule conjI [OF task_step.take_oldest [OF pos none q]])
      (use q asleep_nth(1) [OF pos] asleep_nth(2) [OF pos, of "Some e"] none in simp)
next
  case False
  then obtain i e where i: "i < length (msy_tasks s)" "msy_tasks s ! i = Some e" using some_asleep by blast
  show ?thesis
    by (rule exI, rule conjI [OF task_step.deliver_due [OF i order_refl]])
      (use i asleep_nth(1) [OF i(1)] asleep_nth(2) [OF i(1), of None] in simp)
qed

lemma drains:
  assumes "mock_balanced s" "msy_senders s = []"
  shows "\<exists>s'. task_step\<^sup>*\<^sup>* s s' \<and> in_flight s' = 0 \<and> nme_messages_delivered (mnw_metrics (msy_net s'))
    = nme_messages_delivered (mnw_metrics (msy_net s)) + of_nat (in_flight s)"
  using assms
proof (induction "2 * length (mnw_queue (msy_net s)) + asleep (msy_tasks s)" arbitrary: s rule: less_induct)
  case less
  show ?case
  proof (cases "in_flight s = 0")
    case False
    then obtain s1 where one: "task_step s s1" and "2 * length (mnw_queue (msy_net s1)) + asleep (msy_tasks s1)
        < 2 * length (mnw_queue (msy_net s)) + asleep (msy_tasks s)" using task_progress [OF less.prems(1) _ less.prems(2)] by blast
    note step = task_step_balanced [OF one less.prems(1)]
    with less.hyps [of s1] less.prems(2) \<open>_ < _\<close> obtain s' where "task_step\<^sup>*\<^sup>* s1 s'" "in_flight s' = 0"
      "nme_messages_delivered (mnw_metrics (msy_net s')) = nme_messages_delivered (mnw_metrics (msy_net s1)) + of_nat (in_flight s1)"
      by auto
    with one step show ?thesis by (metis converse_rtranclp_into_rtranclp)
  qed auto
qed

text \<open>
  From every reachable state in which no call to send is under way the tasks alone can deliver every message
  that is queued or asleep.
\<close>

theorem mock_network_drains:
  assumes "mock_reachable fl s" "msy_senders s = []"
  shows "\<exists>s'. task_step\<^sup>*\<^sup>* s s' \<and> in_flight s' = 0 \<and> nme_messages_delivered (mnw_metrics (msy_net s'))
    = nme_messages_delivered (mnw_metrics (msy_net s)) + of_nat (in_flight s)"
  using drains [OF reachable_balanced [OF assms(1)] assms(2)] .

text \<open>A network of two nodes: the names are hashed by their length, and nothing is lost or delayed.\<close>

definition sample_draws :: "int draws" where
  "sample_draws = \<lparr>drw_loss = 0, drw_latency = (\<lambda>a b. a), drw_jitter = (\<lambda>a b. 0), drw_duplicate = 0\<rparr>"

definition sample_nodes :: "(nat, int) mock_network" where
  "sample_nodes = fst (mock_register_node (of_nat \<circ> length) ''ab'' 2 (fst (mock_register_node (of_nat \<circ> length) ''a'' 1
     (mock_network_new sample_floats))))"

definition mock_idle :: "('a, 'f) mock_network \<Rightarrow> message_envelope option list \<Rightarrow> ('a, 'f) mock_system" where
  "mock_idle w ts = \<lparr>msy_net = w, msy_tasks = ts, msy_senders = [], msy_surplus = 0\<rparr>"

definition sample_sent :: "(nat, int) mock_system" where
  "sample_sent = mock_idle (fst (mock_send sample_floats sample_draws 5 1 2 [7] sample_nodes)) [None]"

definition sample_asleep :: "(nat, int) mock_system" where
  "sample_asleep = mock_idle ((msy_net sample_sent)\<lparr>mnw_queue := []\<rparr>) [Some (hd (mnw_queue (msy_net sample_sent)))]"

lemma sample_send: "mock_send sample_floats sample_draws 5 1 2 [7] sample_nodes = (msy_net sample_sent, Ok True)"
  "length (mnw_queue (msy_net sample_sent)) = 1" "nme_messages_sent (mnw_metrics (msy_net sample_sent)) = 1"
  "nme_messages_delivered (mnw_metrics (msy_net sample_sent)) = 0"
  by (simp_all add: sample_sent_def mock_idle_def sample_nodes_def mock_register_node_def mock_network_new_def network_conditions_default_def
      mock_send_def can_communicate_def apply_conditions_to_envelope_def hm_insert_def mock_record_sent_def mock_metrics_new_def Let_def)

lemma reachable_register:
  assumes "mock_reachable fl (mock_idle w ts)"
  shows "mock_reachable fl (mock_idle (fst (mock_register_node hash name a w)) ts)"
  using mock_reachable.step [OF assms mock_step.register [of hash name a, OF surjective_pairing]] by (simp add: mock_idle_def)

text \<open>A call that is not interrupted reaches the state after it.\<close>

lemma reachable_phases:
  assumes "mock_reachable fl \<lparr>msy_net = w, msy_tasks = ts, msy_senders = [x], msy_surplus = k\<rparr>"
    and "run_phases fl d now n (Inl x) w = (w', Inr (Ok True))"
  shows "mock_reachable fl \<lparr>msy_net = w', msy_tasks = ts @ [None], msy_senders = [], msy_surplus = k\<rparr>"
  using assms
proof (induction n arbitrary: x w)
  case (Suc n)
  let ?s = "\<lparr>msy_net = w, msy_tasks = ts, msy_senders = [x], msy_surplus = k\<rparr>"
  obtain w1 y where one: "send_phase fl d now x w = (w1, y)" by fastforce
  show ?case
  proof (cases y)
    case (Inl x1)
    have "mock_reachable fl \<lparr>msy_net = w1, msy_tasks = ts, msy_senders = [x1], msy_surplus = k\<rparr>"
      using mock_reachable.step [OF Suc.prems(1) mock_step.send_on [of 0 ?s fl d now w1 x1]] one Inl by simp
    then show ?thesis using Suc.IH Suc.prems(2) one Inl by simp
  next
    case (Inr r)
    then have "r = Ok True" "w1 = w'" using Suc.prems(2) one by (cases n; simp)+
    then show ?thesis
      using mock_reachable.step [OF Suc.prems(1) mock_step.send_return [of 0 ?s fl d now w1 r]] one Inr by (simp add: without_nth_def)
  qed
qed simp

lemma reachable_send:
  assumes "mock_reachable fl (mock_idle w ts)" "mock_send fl d now a b data w = (w', Ok True)"
  shows "mock_reachable fl (mock_idle w' (ts @ [None]))"
proof -
  obtain x where x: "send_begin a b data w = Inl x"
    using assms(2) by (auto simp: send_begin_def mock_send_def split: if_splits)
  then have "mock_reachable fl \<lparr>msy_net = w, msy_tasks = ts, msy_senders = [x], msy_surplus = 0\<rparr>"
    using mock_reachable.step [OF assms(1) mock_step.send_call [of a b data]] by (simp add: mock_idle_def)
  moreover have "run_phases fl d now 6 (Inl x) w = (w', Inr (Ok True))"
    using run_phases_send [of fl d now a b data w] x assms(2) by simp
  ultimately show ?thesis using reachable_phases by (fastforce simp: mock_idle_def)
qed

lemma sample_sent_reachable: "mock_reachable sample_floats sample_sent"
proof -
  have "mock_reachable sample_floats (mock_idle (mock_network_new sample_floats) [])"
    using mock_reachable.start [of sample_floats] by (simp add: mock_initial_def mock_idle_def)
  then have "mock_reachable sample_floats (mock_idle sample_nodes [])"
    unfolding sample_nodes_def by (intro reachable_register)
  from reachable_send [OF this sample_send(1)] show ?thesis by (simp add: sample_sent_def mock_idle_def)
qed

lemma sample_asleep_step: "task_step sample_sent sample_asleep"
proof -
  obtain e where e: "mnw_queue (msy_net sample_sent) = [e]" using sample_send(2) by (auto simp: length_Suc_conv)
  have "msy_tasks sample_sent = [None]" by (simp add: sample_sent_def mock_idle_def)
  from task_step.take_oldest [of 0 sample_sent, OF _ _ e] this e show ?thesis by (simp add: sample_asleep_def sample_sent_def mock_idle_def)
qed

theorem mock_network_conserves_witness:
  "nme_messages_sent (mnw_metrics (msy_net sample_sent)) + nme_messages_duplicated (mnw_metrics (msy_net sample_sent)) + msy_surplus sample_sent
      = nme_messages_delivered (mnw_metrics (msy_net sample_sent)) + nme_messages_dropped (mnw_metrics (msy_net sample_sent))
        + of_nat (in_flight sample_sent)
    \<and> msy_tasks sample_sent \<noteq> []"
  using mock_network_conserves [OF sample_sent_reachable] by (simp add: sample_sent_def mock_idle_def)

theorem mock_network_drains_witness:
  "\<exists>s'. task_step\<^sup>*\<^sup>* sample_sent s' \<and> in_flight s' = 0 \<and> nme_messages_delivered (mnw_metrics (msy_net s'))
    = nme_messages_delivered (mnw_metrics (msy_net sample_sent)) + of_nat (in_flight sample_sent)"
  by (rule mock_network_drains [OF sample_sent_reachable]) (simp add: sample_sent_def mock_idle_def)

subsection \<open>Flushing and resetting\<close>

text \<open>
  \<open>flush_messages\<close> returns at the first look that finds the queue empty, and after 100 looks in any case. A
  message asleep in a task is not in the queue, so a flush returns at once while it is not delivered; and a
  reset, which clears the counters and the queue, does not reach it either, so that it is counted as
  delivered on a network on which nothing was sent.
\<close>

lemma flush_stops:
  assumes "r \<le> 100"
  shows "flush_messages observed r \<le> 100
    \<and> (flush_messages observed r < 100 \<longrightarrow> observed (flush_messages observed r) = 0)"
  using assms by (induction observed r rule: flush_messages.induct) (subst (1 2 3) flush_messages.simps, simp)

theorem flush_misses_sleeping:
  "mock_reachable sample_floats sample_asleep
   \<and> flush_messages (\<lambda>_. length (mnw_queue (msy_net sample_asleep))) 0 = 0
   \<and> nme_messages_sent (mnw_metrics (msy_net sample_asleep)) = 1 \<and> nme_messages_delivered (mnw_metrics (msy_net sample_asleep)) = 0"
  using mock_reachable.step [OF sample_sent_reachable mock_step.task [OF sample_asleep_step]] sample_send(3,4)
  by (simp add: sample_asleep_def mock_idle_def flush_messages.simps)

lemma reset_spares_sleeping:
  assumes "i < length ts" "ts ! i = Some e"
  shows "\<exists>s'. task_step (mock_idle (mock_reset fl w) ts) s'
    \<and> nme_messages_delivered (mnw_metrics (msy_net s')) = 1 \<and> nme_messages_sent (mnw_metrics (msy_net s')) = 0"
proof -
  let ?s = "mock_idle (mock_reset fl w) ts"
  have "i < length (msy_tasks ?s)" "msy_tasks ?s ! i = Some e" using assms by (simp_all add: mock_idle_def)
  note due = task_step.deliver_due [OF this order_refl]
  show ?thesis
    by (rule exI, rule conjI [OF due]) (simp add: mock_idle_def mock_reset_def mock_clear_queue_def mock_clear_metrics_def mock_metrics_new_def mock_record_delivered_def)
qed

section \<open>Whom a partition separates\<close>

lemma partition_of_two: "partition_of [g, h] n = (if n \<in> set g then Some 0 else if n \<in> set h then Some 1 else None)"
  by (simp add: partition_of_def upt_rec)

lemma can_communicate_sym: "can_communicate p a b = can_communicate p b a"
  by (auto simp: can_communicate_def split: option.split)

lemma unlisted_communicates: "\<forall>g\<in>set p. a \<notin> set g \<Longrightarrow> can_communicate p a b"
  by (auto simp: can_communicate_def partition_of_def find_Some_iff split: option.split)

text \<open>
  A two-way partition of distinct nodes separates exactly the nodes before the index from those at and behind
  it; a node that is not among them reaches every node.
\<close>

theorem two_way_partition_separates:
  assumes "distinct nodes" "k < length nodes" "a \<in> set nodes" "b \<in> set nodes"
  shows "can_communicate (create_two_way_partition nodes k) a b \<longleftrightarrow> (a \<in> set (take k nodes) \<longleftrightarrow> b \<in> set (take k nodes))"
proof -
  have "x \<in> set (drop k nodes)" if "x \<in> set nodes" "x \<notin> set (take k nodes)" for x
    using that set_append [of "take k nodes" "drop k nodes"] by simp
  then show ?thesis
    using assms by (auto simp: create_two_way_partition_def partition_split_def can_communicate_def partition_of_two)
qed

theorem two_way_partition_separates_witness:
  "can_communicate (create_two_way_partition [1, 2, 3] 1) 1 3 \<longleftrightarrow> ((1 :: u64) \<in> set (take 1 [1, 2, 3]) \<longleftrightarrow> 3 \<in> set (take 1 [1, 2, 3 :: u64]))"
  by (rule two_way_partition_separates) simp_all

section \<open>Latency and registration\<close>

text \<open>
  Without jitter the delay of a message lies between the configured latencies, cut to whole microseconds, when
  the sampler keeps to its range; latencies below a microsecond, as in \<open>perfect\<close>, are no delay at all.
\<close>

theorem latency_within_range:
  assumes sampler: "\<And>lo hi. lo < hi \<Longrightarrow> lo \<le> drw_latency d lo hi \<and> drw_latency d lo hi < hi"
    and jitter: "\<And>n. fl_as_u64 fl (fl_mul fl (fl_of_usize fl n) (nwc_jitter_factor c)) = 0"
    and enabled: "nwc_enabled c" and order: "nwc_min_latency c \<le> nwc_max_latency c"
    and bound: "nwc_max_latency c div 1000 + 1 < 2 ^ 64"
    and e': "apply_conditions_to_envelope fl d c e = Ok e'"
  shows "env_sent_at e + nwc_min_latency c div 1000 * 1000 \<le> env_deliver_at e'
    \<and> env_deliver_at e' \<le> env_sent_at e + nwc_max_latency c div 1000 * 1000"
proof -
  let ?lo = "of_nat (nwc_min_latency c div 1000) :: u64" and ?hi = "of_nat (nwc_max_latency c div 1000) :: u64"
  let ?base = "if ?hi \<le> ?lo then ?lo else drw_latency d ?lo (?hi + 1)"
  have le: "nwc_min_latency c div 1000 \<le> nwc_max_latency c div 1000" using order by (rule div_le_mono)
  have lo: "unat ?lo = nwc_min_latency c div 1000" and hi: "unat ?hi = nwc_max_latency c div 1000"
    using le bound by (simp_all add: unat_of_nat take_bit_nat_eq_self)
  have next_hi: "unat (?hi + 1) = nwc_max_latency c div 1000 + 1" using bound by (simp add: unat_plus_one hi)
  have "nwc_min_latency c div 1000 \<le> unat ?base \<and> unat ?base \<le> nwc_max_latency c div 1000"
  proof (cases "?hi \<le> ?lo")
    case True
    then show ?thesis using le lo by simp
  next
    case False
    then have "?lo < ?hi + 1" using next_hi lo hi le by (simp add: word_less_nat_alt)
    from sampler [OF this] show ?thesis using False lo next_hi by (simp add: word_le_nat_alt word_less_nat_alt)
  qed
  moreover have "env_deliver_at e' = env_sent_at e + unat ?base * 1000"
    using e' enabled jitter by (auto simp: apply_conditions_to_envelope_def Let_def split: if_splits)
  ultimately show ?thesis by simp
qed

lemma register_all_ok:
  assumes "\<forall>i\<in>set xs. \<exists>a. parse (snd (text i)) = Ok a"
  shows "snd (register_all hash parse text xs w) = Ok (map (hash \<circ> fst \<circ> text) xs)
    \<and> dom (map_of (mnw_nodes (fst (register_all hash parse text xs w)))) = dom (map_of (mnw_nodes w)) \<union> set (map (hash \<circ> fst \<circ> text) xs)"
  using assms
proof (induction xs arbitrary: w)
  case (Cons i xs)
  obtain a where a: "parse (snd (text i)) = Ok a" using Cons.prems by auto
  obtain w1 n where w1: "mock_register_node hash (fst (text i)) a w = (w1, n)" by fastforce
  then have "n = hash (fst (text i))" "dom (map_of (mnw_nodes w1)) = insert n (dom (map_of (mnw_nodes w)))"
    by (auto simp: mock_register_node_def Let_def)
  with Cons.IH [of w1] Cons.prems a w1 show ?case by (auto simp: split_beta)
qed simp

end
