(* ===== verification/Spec2Isabelle.thy ===== *)
theory Spec2Isabelle
  imports Protocol_Frame Protocol_Codec Clocks Causality Raft Raft_Election Raft_Log Quorum
    Storage Memory_Store Wal Wal_Log Segments Segment_Storage Transactions Membership
    Mux_Backpressure Mux_Scheduler Mux_Registry Mux_Router Node_Registry
    Consistency Replication Plugin_Lifecycle Plugin_Registry Plugin_Security Plugin_Sandbox Plugin_Hooks
    Runtime_Topology Runtime_Scheduler Runtime_Executor Runtime_Metrics
    Broker Messages
    Config_Network Config_Security Config_Telemetry Config_Runtime Config_Validator Config_Toml Config_Loader
    Cluster_Config Communication Ha_Client Ha_Control Plugin_Errors
    Plugin_Context Plugin_Metrics Storage_Types Storage_Engine Broker_Bridge Replication_Metrics
    Telemetry_Metrics Telemetry_Registry Telemetry_Tracing Telemetry_Performance Telemetry_Export
    Replication_Transport Plugin_Loader Mock_Network
begin

text \<open>
  A verification library for the MemoryStreamer system under \<^verbatim>\<open>src/\<close> (the kaelix crates): a
  distributed streaming platform with a binary wire protocol, clocks for ordering events, a Raft
  cluster with SWIM membership, a replicated storage layer with a write-ahead log, and a layer that
  multiplexes streams.

  \<^bold>\<open>How the parts fit.\<close> Clients and brokers exchange frames (\<^verbatim>\<open>kaelix-core/src/protocol\<close>): a
  frame is a 40-byte header with a checksum and a payload, and a decoder cuts a byte stream into
  frames. Cluster nodes (\<^verbatim>\<open>kaelix-cluster\<close>) order events with logical, vector and hybrid clocks
  (\<^verbatim>\<open>time/mod.rs\<close>), watch each other with pings (\<^verbatim>\<open>membership/mod.rs\<close>) and elect a leader that
  replicates a log (\<^verbatim>\<open>consensus/mod.rs\<close>). The storage layer (\<^verbatim>\<open>kaelix-storage\<close>) keeps messages at
  increasing offsets (\<^verbatim>\<open>backends/memory.rs\<close>), writes them through batches into rotating log segments
  (\<^verbatim>\<open>wal\<close>) and reads and writes replicas by quorum (\<^verbatim>\<open>replication/quorum.rs\<close>). The multiplexing layer
  (\<^verbatim>\<open>kaelix-core/src/multiplexing\<close>) registers streams, schedules their tasks, limits them by credits
  and routes messages to them.

  \<^bold>\<open>Conventions.\<close> A struct is a record, an enum a datatype, a \<open>u64\<close> a 64-bit word whose arithmetic
  wraps as in the release profile, a \<open>usize\<close> a natural number. A function that can fail returns
  \<open>Ok\<close>, \<open>Err\<close> or \<open>Panic\<close>; one that changes its receiver returns the changed state beside its
  result, also on the error paths. A \<open>HashMap\<close> is an association list with distinct keys, a
  \<open>BTreeMap\<close> one in increasing key order. Clock readings, random numbers, request counters, the
  standard library's \<open>DefaultHasher\<close> and calls to remote replicas are arguments. An async function
  runs to completion under the lock it holds; where the code gives up atomicity (a load and a later
  store), the two halves are separate steps.

  \<^bold>\<open>Theories.\<close>
  \<^item> \<open>Prelude\<close>: integer types, results, maps, big-endian byte order, and the contracts that
    components share as locales: \<open>fixed_field\<close> (a fixed-width field reads back), \<open>append_store\<close> (a
    log of messages), \<open>intersecting_quorums\<close>, \<open>functional_refinement\<close> and \<open>relational_refinement\<close> (operations that simulate
    a specification).
  \<^item> \<open>Protocol_Frame\<close>: \<^verbatim>\<open>protocol/error.rs\<close>, \<^verbatim>\<open>protocol/mod.rs\<close>, \<^verbatim>\<open>protocol/frame.rs\<close>.
    Serialization and deserialization are inverse to each other, and the verdict of deserialization
    is given on every path.
  \<^item> \<open>Protocol_Codec\<close>: \<^verbatim>\<open>protocol/codec.rs\<close>. However a stream of frames is split into chunks, the
    decoder returns the frames; what happens after corruption and after each error. The decoder
    loop is a total function (each turn shortens the buffer or stops).
  \<^item> \<open>Clocks\<close>, \<open>Causality\<close>: \<^verbatim>\<open>time/mod.rs\<close>. Order laws of the clocks, the encoding of hybrid
    timestamps, the race in the shared Lamport clock, and that vector clocks decide the
    happened-before relation of an execution. The locale \<open>causal_compare\<close> is the contract of the two
    comparison routines.
  \<^item> \<open>Raft\<close>: the node of \<^verbatim>\<open>consensus/mod.rs\<close>, one definition per handler. \<open>Raft_Election\<close>: a
    cluster of nodes on a network that delays, reorders and loses messages; elections are safe, and
    append entries requests break that. \<open>Raft_Log\<close>: log matching, catching up of a follower, what a
    commit guarantees and when it does not, and the application of committed entries.
  \<^item> \<open>Quorum\<close>: \<^verbatim>\<open>replication/quorum.rs\<close>. Reads see earlier writes when the quorums overlap.
  \<^item> \<open>Storage\<close>, \<open>Memory_Store\<close>: \<^verbatim>\<open>error.rs\<close>, the offsets of \<^verbatim>\<open>types.rs\<close> and
    \<^verbatim>\<open>backends/memory.rs\<close>. The backend refines an append-only list; batches equal single writes.
  \<^item> \<open>Wal\<close>, \<open>Wal_Log\<close>: \<^verbatim>\<open>wal/entry.rs\<close>, \<^verbatim>\<open>segment.rs\<close>, \<^verbatim>\<open>batch.rs\<close>, \<^verbatim>\<open>rotation.rs\<close>,
    \<^verbatim>\<open>config.rs\<close>, \<^verbatim>\<open>mod.rs\<close>. What a segment's bytes are after any writes and why they cannot be read
    back; batches neither lose nor duplicate entries until shutdown; the segments a rotation leaves.
  \<^item> \<open>Segments\<close>, \<open>Segment_Storage\<close>: \<^verbatim>\<open>segments/entry.rs\<close>, \<^verbatim>\<open>segment_writer.rs\<close>, \<^verbatim>\<open>segment.rs\<close>, \<^verbatim>\<open>mod.rs\<close>. A
    compressed segment refines a map from sequence numbers to entries and reopening it rebuilds that
    map; an uncompressed one does not read back; recovery of a torn tail never returns; concurrent writes
    share an offset; a corrupt length panics.
  \<^item> \<open>Transactions\<close>: \<^verbatim>\<open>transactions.rs\<close>. A transaction is decided once, by its first commit or abort.
  \<^item> \<open>Membership\<close>: \<^verbatim>\<open>membership/mod.rs\<close>. A cluster on an unreliable network; how a suspicion arises and
    that it is never taken back.
  \<^item> \<open>Mux_Backpressure\<close>, \<open>Mux_Scheduler\<close>, \<open>Mux_Registry\<close>, \<open>Mux_Router\<close>: \<^verbatim>\<open>multiplexing/backpressure.rs\<close>,
    \<^verbatim>\<open>scheduler.rs\<close>, \<^verbatim>\<open>registry.rs\<close>, \<^verbatim>\<open>router.rs\<close>. Credits under concurrent use; tasks with distinct ids are
    conserved and dispatched within a bounded number of calls; the sharded registry with its Bloom
    filter refines one map; consistent hashing moves as few keys as possible and messages go to
    registered streams.
  \<^item> \<open>Node_Registry\<close>: \<^verbatim>\<open>node/mod.rs\<close>. The indices of the registry agree with its nodes, so queries by role
    and region are exact; addresses print and parse.
  \<^item> \<open>Consistency\<close>, \<open>Replication\<close>: \<^verbatim>\<open>replication/consistency.rs\<close>, \<^verbatim>\<open>mod.rs\<close>, \<^verbatim>\<open>manager.rs\<close>, \<^verbatim>\<open>protocol.rs\<close>,
    \<^verbatim>\<open>recovery.rs\<close>. What a read at each consistency level waits for; majority writes share a replica; the
    healthy count of the topology is exact until the recovery task runs; what a batch and a recovery count.
  \<^item> \<open>Plugin_Lifecycle\<close>, \<open>Plugin_Registry\<close>, \<open>Plugin_Security\<close>, \<open>Plugin_Sandbox\<close>, \<open>Plugin_Hooks\<close>, \<open>Plugin_Errors\<close>: \<^verbatim>\<open>plugin/lifecycle.rs\<close>, \<^verbatim>\<open>registry.rs\<close>,
    \<^verbatim>\<open>security.rs\<close>, \<^verbatim>\<open>capabilities.rs\<close>, \<^verbatim>\<open>sandbox.rs\<close>, \<^verbatim>\<open>hooks.rs\<close>, \<^verbatim>\<open>error.rs\<close>. The states a plugin passes before it runs and the bound on its
    restarts; the registry's maps agree; access control and its audit trail; the statistics of a sandbox; hooks run in
    priority order and a chain of them stops where it should; which plugin a converted error is blamed on.
  \<^item> \<open>Runtime_Topology\<close>, \<open>Runtime_Scheduler\<close>, \<open>Runtime_Executor\<close>, \<open>Runtime_Metrics\<close>: \<^verbatim>\<open>runtime/affinity.rs\<close>, \<^verbatim>\<open>scheduler.rs\<close>,
    \<^verbatim>\<open>executor.rs\<close>, \<^verbatim>\<open>worker.rs\<close>, \<^verbatim>\<open>metrics.rs\<close>. CPU lists read back, workers are placed on one node each, and the memory of a
    node is never read; taking a task from the queues deadlocks; pools run their tasks once and in order
    until a worker ends, and what ends one; percentiles
    are lower bounds.
  \<^item> \<open>Messages\<close>, \<open>Broker\<close>: \<^verbatim>\<open>kaelix-core/src/message.rs\<close>, \<^verbatim>\<open>stream.rs\<close>, \<^verbatim>\<open>kaelix-broker/src\<close>, \<^verbatim>\<open>kaelix-consumer/src/offset.rs\<close>.
    Messages stay well formed and batches split and merge back; a broker delivers to every subscriber of a topic
    what is published after it subscribed; the number of connections stays within its limit.
  \<^item> \<open>Config_Network\<close>, \<open>Config_Security\<close>, \<open>Config_Telemetry\<close>, \<open>Config_Runtime\<close>, \<open>Config_Validator\<close>, \<open>Config_Toml\<close>, \<open>Config_Loader\<close>:
    \<^verbatim>\<open>kaelix-core/src/config\<close>. Every struct of the schema with its default and its attributes; the validator's
    verdict and that it refuses the default; how files are merged, what the environment can and cannot set.
  \<^item> \<open>Cluster_Config\<close>, \<open>Communication\<close>: \<^verbatim>\<open>kaelix-cluster/src/config/mod.rs\<close>, \<^verbatim>\<open>messages/mod.rs\<close>, \<^verbatim>\<open>communication/mod.rs\<close>. What the
    builder accepts; identifiers of messages are distinct; the transport refines a ledger of the messages sent.
  \<^item> \<open>Ha_Client\<close>, \<open>Ha_Control\<close>: \<^verbatim>\<open>kaelix-cluster/src/ha\<close>. A request fails over to an endpoint that answers; the monitor knows
    the members and their state; the outcome of each kind of failover.

  \<^item> \<open>Plugin_Context\<close>, \<open>Plugin_Metrics\<close>: \<^verbatim>\<open>plugin/context.rs\<close>, \<^verbatim>\<open>metrics.rs\<close>. What a context counts and which paths its
    permissions let through; the monitor refines the history of the calls it was told.
  \<^item> \<open>Storage_Types\<close>, \<open>Storage_Engine\<close>, \<open>Broker_Bridge\<close>, \<open>Replication_Metrics\<close>: \<^verbatim>\<open>kaelix-storage/src/types.rs\<close>, \<^verbatim>\<open>error.rs\<close>,
    \<^verbatim>\<open>lib.rs\<close>, \<^verbatim>\<open>integration/broker_bridge.rs\<close>, \<^verbatim>\<open>replication/metrics.rs\<close>. Checksums of messages and the results of batches;
    what the engine's log holds after any writes; the outcome of a bridge transaction and the window of a replay;
    the counts and percentiles of the collector.
  \<^item> \<open>Telemetry_Metrics\<close>, \<open>Telemetry_Registry\<close>, \<open>Telemetry_Tracing\<close>, \<open>Telemetry_Performance\<close>, \<open>Telemetry_Export\<close>:
    \<^verbatim>\<open>kaelix-core/src/telemetry\<close>. The registry refines a table of histories with a bounded number of keys; definitions
    stay consistent; what the tracing system counts and that the logging system delivers nothing; timings are
    summarised exactly; the export buffer holds the newest snapshots since the last export that
    succeeded, within its bound.
  \<^item> \<open>Replication_Transport\<close>, \<open>Plugin_Loader\<close>, \<open>Mock_Network\<close>: \<^verbatim>\<open>kaelix-storage/src/replication/transport.rs\<close>,
    \<^verbatim>\<open>kaelix-core/src/plugin/loader.rs\<close>, \<^verbatim>\<open>kaelix-cluster/src/test_utils/mock_network.rs\<close>. The transport refines a table of
    leases that run out after five idle checks; the loader refuses every strategy; the simulated network
    conserves its messages under every interleaving of senders, delivery tasks and resets, and what is
    queued or asleep can always be delivered.

  \<^bold>\<open>Bounds.\<close> Hypotheses of the form \<open>\<dots> < 2 ^ 64\<close> exclude the wrap of a 64-bit counter; where the
  wrap is reachable it is stated instead. Loops are total functions with a termination proof, except the
  two loops of the segments' recovery, which need not end and take fuel: one round per frame and one
  more is enough for a file of whole frames, and no fuel is enough for a torn tail. The number of exchanges in the catching-up theorem is the length of the log divided
  by the batch size, rounded up.

  \<^bold>\<open>Not modelled.\<close> Sockets, files, async scheduling, test
  harnesses and benches; floating-point ratios in most metrics; the collector and the facade of the telemetry; the facade
  \<^verbatim>\<open>multiplexing/mod.rs\<close>, which calls operations its parts do not have; the recovery of the
  write-ahead log, whose reading of a segment is a placeholder; the Raft coordinator
  \<^verbatim>\<open>consensus/raft/cluster.rs\<close>, which calls operations the node does not have, and the two files
  beside it that no module declares.
\<close>

end
